(* ===== verification/Prelude.thy ===== *)
theory Prelude
  imports Main "HOL-Library.Word" "HOL-Library.Monad_Syntax"
begin

unbundle bit_operations_syntax

text \<open>
  Shared vocabulary of the development: names for the machine types of the C sources, the
  arithmetic of the unsigned fields, reads and writes of byte buffers, little-endian scalars,
  and the generic lemmas on lists, options and words that the component theories use.

  Two conventions hold everywhere.
  \<^item> An operation that may dereference memory has an \<open>option\<close> result: \<open>None\<close> stands for a run
    that does not return normally (a NULL or dangling dereference, an access outside a buffer, a
    failed assertion, or a loop that never ends), so a theorem of the form \<open>f x = Some y\<close> also
    says that the run is memory safe and terminates.
  \<^item> Lengths held in \<open>uint16_t\<close> and \<open>size_t\<close> fields are natural numbers with the wrap-around
    written out at every store (\<open>u16\<close>, \<open>size_add\<close>, \<open>size_sub\<close>); bytes and message
    identifiers, on which the code works bitwise, are words.
\<close>

section \<open>Types\<close>

type_synonym byte = "8 word"
type_synonym bytes = "byte list"
type_synonym ptr = nat

section \<open>Collections of simplification rules\<close>

named_theorems uci_simps \<open>definitions of loop-free operations, unfolded together\<close>
named_theorems chain_intros \<open>introduction rules for chains of blocks\<close>

section \<open>Unsigned arithmetic\<close>

text \<open>A store to a \<open>uint16_t\<close> or \<open>uint8_t\<close> lvalue truncates.\<close>

definition u16 :: "nat \<Rightarrow> nat" where
  "u16 n = n mod 65536"

definition u8 :: "nat \<Rightarrow> nat" where
  "u8 n = n mod 256"

text \<open>\<open>size_t\<close> is taken to be 64 bits wide.\<close>

definition size_modulus :: nat where
  "size_modulus = 18446744073709551616"

definition size_add :: "nat \<Rightarrow> nat \<Rightarrow> nat" where
  "size_add a b = (a + b) mod size_modulus"

definition size_sub :: "nat \<Rightarrow> nat \<Rightarrow> nat" where
  "size_sub a b = (if b \<le> a then a - b else (a + size_modulus - b) mod size_modulus)"

lemma u16_less [simp]: "u16 n < 65536"
  by (simp add: u16_def)

lemma u16_id [simp]: "n < 65536 \<Longrightarrow> u16 n = n"
  by (simp add: u16_def)

lemma u8_less [simp]: "u8 n < 256"
  by (simp add: u8_def)

lemma u8_id [simp]: "n < 256 \<Longrightarrow> u8 n = n"
  by (simp add: u8_def)

lemma size_sub_le [simp]: "b \<le> a \<Longrightarrow> size_sub a b = a - b"
  by (simp add: size_sub_def)

lemma size_add_small [simp]: "a + b < size_modulus \<Longrightarrow> size_add a b = a + b"
  by (simp add: size_add_def)

lemma size_modulus_gt: "n < 65536 * 65536 \<Longrightarrow> n < size_modulus"
  by (simp add: size_modulus_def)

section \<open>Byte buffers\<close>

text \<open>
  A C buffer is the list of its bytes; reading or writing outside it is not defined. \<open>read_buf\<close> is
  the source side of a \<open>memcpy\<close> and \<open>write_buf\<close> its destination side.
\<close>

definition read_buf :: "bytes \<Rightarrow> nat \<Rightarrow> nat \<Rightarrow> bytes option" where
  "read_buf d off n = (if off + n \<le> length d then Some (take n (drop off d)) else None)"

definition write_buf :: "bytes \<Rightarrow> nat \<Rightarrow> bytes \<Rightarrow> bytes option" where
  "write_buf d off xs =
     (if off + length xs \<le> length d
      then Some (take off d @ xs @ drop (off + length xs) d) else None)"

lemma read_buf_SomeD: "read_buf d off n = Some xs \<Longrightarrow> length xs = n \<and> off + n \<le> length d"
  by (auto simp: read_buf_def split: if_splits)

lemma read_buf_zero: "off \<le> length d \<Longrightarrow> read_buf d off 0 = Some []"
  by (simp add: read_buf_def)

lemma write_buf_length: "write_buf d off xs = Some d' \<Longrightarrow> length d' = length d"
  by (auto simp: write_buf_def split: if_splits)

lemma read_buf_write_buf_same: "write_buf d off xs = Some d' \<Longrightarrow> read_buf d' off (length xs) = Some xs"
  by (auto simp: write_buf_def read_buf_def split: if_splits)

lemma take_write_buf: "write_buf d off xs = Some d' \<Longrightarrow> n \<le> off \<Longrightarrow> take n d' = take n d"
  by (auto simp: write_buf_def min_def split: if_splits)

lemma take_write_buf_end:
  "write_buf d off xs = Some d' \<Longrightarrow> take (off + length xs) d' = take off d @ xs"
  by (auto simp: write_buf_def split: if_splits)

lemma write_buf_total: "off + length xs \<le> length d \<Longrightarrow> \<exists>d'. write_buf d off xs = Some d'"
  by (simp add: write_buf_def)

section \<open>Little-endian scalars\<close>

text \<open>
  \<open>le_bytes n v\<close> are the \<open>n\<close> low bytes of \<open>v\<close>, least significant first: the buffers the
  \<open>put\<close> functions fill with \<open>(uint8_t)(data >> 8 * i)\<close>. \<open>le_value\<close> is the value the
  \<open>get\<close> functions assemble from the bytes they read.
\<close>

definition le_bytes :: "nat \<Rightarrow> 'a::len word \<Rightarrow> bytes" where
  "le_bytes n v = map (\<lambda>i. ucast (drop_bit (8 * i) v)) [0..<n]"

primrec le_value :: "bytes \<Rightarrow> 'a::len word" where
  "le_value [] = 0"
| "le_value (b # bs) = ucast b OR push_bit 8 (le_value bs)"

lemma length_le_bytes [simp]: "length (le_bytes n v) = n"
  by (simp add: le_bytes_def)

lemma le_bytes_Suc: "le_bytes (Suc n) v = ucast v # le_bytes n (drop_bit 8 v)"
proof -
  have *: "[0..<Suc n] = 0 # map Suc [0..<n]"
    by (simp add: upt_conv_Cons map_Suc_upt del: upt_Suc)
  show ?thesis
    unfolding le_bytes_def * by (simp add: drop_bit_drop_bit add.commute)
qed

lemma le_bytes_0 [simp]: "le_bytes 0 v = []"
  by (simp add: le_bytes_def)

lemma le_value_le_bytes: "le_value (le_bytes n v) = take_bit (8 * n) (v :: 'a::len word)"
proof (induction n arbitrary: v)
  case 0
  then show ?case by simp
next
  case (Suc n)
  show ?case
    by (rule bit_word_eqI)
      (auto simp: le_bytes_Suc Suc.IH bit_simps algebra_simps)
qed

lemma le_value_le_bytes_full:
  "LENGTH('a) \<le> 8 * n \<Longrightarrow> le_value (le_bytes n v) = (v :: 'a::len word)"
  by (simp add: le_value_le_bytes take_bit_word_eq_self)

lemma bit_le_value:
  "bit (le_value bs :: 'a::len word) i \<longleftrightarrow> i < LENGTH('a) \<and> i div 8 < length bs \<and> bit (bs ! (i div 8)) (i mod 8)"
proof (induction bs arbitrary: i)
  case (Cons b bs)
  show ?case
  proof (cases "i < 8")
    case True
    then show ?thesis by (auto simp: bit_simps)
  next
    case False
    then obtain j where i: "i = j + 8" by (metis add.commute le_Suc_ex not_less)
    have "\<not> bit b (j + 8)" using bit_imp_le_length [of b "j + 8"] by auto
    moreover have "(j + 8) div 8 = Suc (j div 8)" by simp
    ultimately show ?thesis
      by (auto simp add: i Cons.IH bit_or_iff bit_push_bit_iff bit_unsigned_iff)
  qed
qed simp

section \<open>Masks\<close>

lemma bit_pow: "bit (2 ^ k :: 'a::len word) n \<longleftrightarrow> n < LENGTH('a) \<and> n = k"
  by (auto simp: bit_simps)

lemma bit_0x10: "bit (0x10 :: 'a::len word) n \<longleftrightarrow> n < LENGTH('a) \<and> n = 4"
proof -
  have m: "(0x10 :: 'a word) = 2 ^ 4" by simp
  show ?thesis unfolding m by (rule bit_pow)
qed

lemma bit_0x1000: "bit (0x1000 :: 'a::len word) n \<longleftrightarrow> n < LENGTH('a) \<and> n = 12"
proof -
  have m: "(0x1000 :: 'a word) = 2 ^ 12" by simp
  show ?thesis unfolding m by (rule bit_pow)
qed

lemma bit_0xEF: "bit (0xEF :: 8 word) n \<longleftrightarrow> n < 8 \<and> n \<noteq> 4"
proof -
  have m: "(0xEF :: 8 word) = NOT 0x10" by simp
  show ?thesis unfolding m by (auto simp only: bit_not_iff bit_0x10 possible_bit_word) simp_all
qed

lemma unat_ucast_8_16: "unat (ucast (b :: 8 word) :: 16 word) = unat b"
proof -
  have "unat b < 2 ^ 8" using unsigned_less [of b] by (simp add: word_size)
  then have "unat b < 2 ^ 16" by simp
  then show ?thesis by (simp add: unsigned_ucast_eq take_bit_nat_eq_self)
qed

section \<open>Lists and options\<close>

lemma bind_Some_iff: "Option.bind x f = Some y \<longleftrightarrow> (\<exists>a. x = Some a \<and> f a = Some y)"
  by (cases x) simp_all

lemma take_Suc_nth_append: "i < length xs \<Longrightarrow> take (Suc i) xs = take i xs @ [xs ! i]"
  by (rule take_Suc_conv_app_nth)

lemma sum_list_concat_length: "length (concat xss) = (\<Sum>xs\<leftarrow>xss. length xs)"
  by (simp add: length_concat)

end
