(* ===== verification/Uci_Spec.thy ===== *)
theory Uci_Spec
  imports Prelude
begin

text \<open>
  Constants of the UCI protocol (\<^verbatim>\<open>uci_spec_fira.h\<close>, \<^verbatim>\<open>uci_spec_qorvo.h\<close>,
  \<^verbatim>\<open>qerr.h\<close>), the sizes of \<^verbatim>\<open>uci.h\<close> and the packing of message identifiers.
  The C enumerations are plain integers in the sources (bytes received from the device are stored
  in them unchecked), so each enumerator is a numeral here: message types, groups and opcodes are
  natural numbers, status and error codes are integers.
\<close>

section \<open>Enumerators\<close>

abbreviation (input) UCI_MESSAGE_TYPE_DATA :: nat where "UCI_MESSAGE_TYPE_DATA \<equiv> 0"
abbreviation (input) UCI_MESSAGE_TYPE_COMMAND :: nat where "UCI_MESSAGE_TYPE_COMMAND \<equiv> 1"
abbreviation (input) UCI_MESSAGE_TYPE_RESPONSE :: nat where "UCI_MESSAGE_TYPE_RESPONSE \<equiv> 2"
abbreviation (input) UCI_MESSAGE_TYPE_NOTIFICATION :: nat where "UCI_MESSAGE_TYPE_NOTIFICATION \<equiv> 3"
abbreviation (input) UCI_MESSAGE_TYPE_SE_TESTING_COMMAND :: nat where
  "UCI_MESSAGE_TYPE_SE_TESTING_COMMAND \<equiv> 4"
abbreviation (input) UCI_MESSAGE_TYPE_SE_TESTING_RESPONSE :: nat where
  "UCI_MESSAGE_TYPE_SE_TESTING_RESPONSE \<equiv> 5"

abbreviation (input) UCI_GID_CORE :: nat where "UCI_GID_CORE \<equiv> 0"
abbreviation (input) UCI_GID_SESSION_CONFIG :: nat where "UCI_GID_SESSION_CONFIG \<equiv> 1"
abbreviation (input) UCI_GID_SESSION_CONTROL :: nat where "UCI_GID_SESSION_CONTROL \<equiv> 2"
abbreviation (input) UCI_GID_QORVO_EXT2 :: nat where "UCI_GID_QORVO_EXT2 \<equiv> 11"

abbreviation (input) UCI_OID_CORE_DEVICE_RESET :: nat where "UCI_OID_CORE_DEVICE_RESET \<equiv> 0"
abbreviation (input) UCI_OID_CORE_DEVICE_STATUS :: nat where "UCI_OID_CORE_DEVICE_STATUS \<equiv> 1"
abbreviation (input) UCI_OID_QORVO_CORE_DEVICE_BOOT :: nat where "UCI_OID_QORVO_CORE_DEVICE_BOOT \<equiv> 49"

abbreviation (input) UCI_STATUS_OK :: int where "UCI_STATUS_OK \<equiv> 0"
abbreviation (input) UCI_STATUS_REJECTED :: int where "UCI_STATUS_REJECTED \<equiv> 1"
abbreviation (input) UCI_STATUS_FAILED :: int where "UCI_STATUS_FAILED \<equiv> 2"
abbreviation (input) UCI_STATUS_SYNTAX_ERROR :: int where "UCI_STATUS_SYNTAX_ERROR \<equiv> 3"
abbreviation (input) UCI_STATUS_INVALID_PARAM :: int where "UCI_STATUS_INVALID_PARAM \<equiv> 4"
abbreviation (input) UCI_STATUS_INVALID_RANGE :: int where "UCI_STATUS_INVALID_RANGE \<equiv> 5"
abbreviation (input) UCI_STATUS_INVALID_MESSAGE_SIZE :: int where "UCI_STATUS_INVALID_MESSAGE_SIZE \<equiv> 6"
abbreviation (input) UCI_STATUS_UNKNOWN_GID :: int where "UCI_STATUS_UNKNOWN_GID \<equiv> 7"
abbreviation (input) UCI_STATUS_UNKNOWN_OID :: int where "UCI_STATUS_UNKNOWN_OID \<equiv> 8"
abbreviation (input) UCI_STATUS_UCI_MESSAGE_RETRY :: int where "UCI_STATUS_UCI_MESSAGE_RETRY \<equiv> 10"

abbreviation (input) UCI_DEVICE_STATE_READY :: byte where "UCI_DEVICE_STATE_READY \<equiv> 0x01"
abbreviation (input) UCI_DEVICE_STATE_ERROR :: byte where "UCI_DEVICE_STATE_ERROR \<equiv> 0xff"

abbreviation (input) QERR_SUCCESS :: int where "QERR_SUCCESS \<equiv> 0"
abbreviation (input) QERR_EBADMSG :: int where "QERR_EBADMSG \<equiv> - 5"
abbreviation (input) QERR_EBUSY :: int where "QERR_EBUSY \<equiv> - 6"
abbreviation (input) QERR_EINVAL :: int where "QERR_EINVAL \<equiv> - 11"
abbreviation (input) QERR_ENOENT :: int where "QERR_ENOENT \<equiv> - 16"
abbreviation (input) QERR_ENOMEM :: int where "QERR_ENOMEM \<equiv> - 17"

section \<open>Sizes\<close>

abbreviation (input) UCI_MAX_CONTROL_PAYLOAD_SIZE :: nat where "UCI_MAX_CONTROL_PAYLOAD_SIZE \<equiv> 255"
abbreviation (input) UCI_MAX_DATA_PAYLOAD_SIZE :: nat where "UCI_MAX_DATA_PAYLOAD_SIZE \<equiv> 255"
abbreviation (input) UCI_MAX_SE_TESTING_PAYLOAD_SIZE :: nat where "UCI_MAX_SE_TESTING_PAYLOAD_SIZE \<equiv> 255"
abbreviation (input) UCI_MAX_PAYLOAD_SIZE :: nat where
  "UCI_MAX_PAYLOAD_SIZE \<equiv> UCI_MAX_CONTROL_PAYLOAD_SIZE"
abbreviation (input) UCI_PACKET_HEADER_SIZE :: nat where "UCI_PACKET_HEADER_SIZE \<equiv> 4"
abbreviation (input) UCI_MAX_CONTROL_PACKET_SIZE :: nat where "UCI_MAX_CONTROL_PACKET_SIZE \<equiv> 259"
abbreviation (input) UCI_MAX_DATA_PACKET_SIZE :: nat where "UCI_MAX_DATA_PACKET_SIZE \<equiv> 259"
abbreviation (input) UCI_MAX_SE_TESTING_PACKET_SIZE :: nat where "UCI_MAX_SE_TESTING_PACKET_SIZE \<equiv> 259"
abbreviation (input) UCI_MAX_PACKET_SIZE :: nat where "UCI_MAX_PACKET_SIZE \<equiv> 259"
abbreviation (input) UCI_STATUS_PACKET_SIZE :: nat where "UCI_STATUS_PACKET_SIZE \<equiv> 5"

section \<open>Message identifiers\<close>

definition UCI_MT_GID_OID :: "nat \<Rightarrow> nat \<Rightarrow> nat \<Rightarrow> 16 word" where
  "UCI_MT_GID_OID mt gid oid =
     push_bit 13 (word_of_nat mt) OR push_bit 8 (word_of_nat gid) OR word_of_nat oid"

definition UCI_GID_OID :: "nat \<Rightarrow> nat \<Rightarrow> 16 word" where
  "UCI_GID_OID gid oid = UCI_MT_GID_OID 0 gid oid"

definition UCI_MT :: "16 word \<Rightarrow> nat" where
  "UCI_MT mt_gid_oid = unat (drop_bit 13 mt_gid_oid AND 0x7)"

definition UCI_GID :: "16 word \<Rightarrow> nat" where
  "UCI_GID mt_gid_oid = unat (drop_bit 8 mt_gid_oid AND 0xf)"

definition UCI_OID :: "16 word \<Rightarrow> nat" where
  "UCI_OID mt_gid_oid = unat (mt_gid_oid AND 0x3f)"

definition UCI_GID_OID_ONLY :: "16 word \<Rightarrow> 16 word" where
  "UCI_GID_OID_ONLY mt_gid_oid = mt_gid_oid AND 0xf3f"

definition UCI_MT_DPF :: "nat \<Rightarrow> nat \<Rightarrow> 16 word" where
  "UCI_MT_DPF mt dpf = push_bit 13 (word_of_nat mt) OR push_bit 8 (word_of_nat dpf)"

definition RSP :: "16 word \<Rightarrow> 16 word" where
  "RSP mt_gid_oid = (mt_gid_oid AND 0xfff) OR 0x4000"

subsection \<open>Packing\<close>

lemma and_mask_take_bit:
  "(w :: 'a::len word) AND 0x7 = take_bit 3 w" "w AND 0xf = take_bit 4 w"
  "w AND 0x3f = take_bit 6 w" "w AND 0xfff = take_bit 12 w" "w AND 0x1 = take_bit 1 w"
  "w AND 0x3 = take_bit 2 w" "w AND 0xff = take_bit 8 w"
  by (simp_all add: take_bit_eq_mask mask_eq_exp_minus_1)

lemma bit_nat_bound: "n < 2 ^ k \<Longrightarrow> bit (n :: nat) i \<Longrightarrow> i < k"
  by (metis bit_take_bit_iff take_bit_nat_eq_self)

lemma UCI_MT_GID_OID_fields:
  assumes "mt < 8" and "gid < 16" and "oid < 64"
  shows "UCI_MT (UCI_MT_GID_OID mt gid oid) = mt"
    and "UCI_GID (UCI_MT_GID_OID mt gid oid) = gid"
    and "UCI_OID (UCI_MT_GID_OID mt gid oid) = oid"
proof -
  have mt: "bit mt i \<Longrightarrow> i < 3" and gid: "bit gid i \<Longrightarrow> i < 4" and oid: "bit oid i \<Longrightarrow> i < 6" for i
    using assms bit_nat_bound [of mt 3 i] bit_nat_bound [of gid 4 i] bit_nat_bound [of oid 6 i]
    by simp_all
  note fields = UCI_MT_GID_OID_def and_mask_take_bit bit_simps
  have "drop_bit 13 (UCI_MT_GID_OID mt gid oid) AND 0x7 = word_of_nat mt"
    by (rule bit_word_eqI) (auto simp: fields dest: mt gid oid)
  moreover have "drop_bit 8 (UCI_MT_GID_OID mt gid oid) AND 0xf = word_of_nat gid"
    by (rule bit_word_eqI) (auto simp: fields dest: mt gid oid)
  moreover have "UCI_MT_GID_OID mt gid oid AND 0x3f = word_of_nat oid"
    by (rule bit_word_eqI) (auto simp: fields dest: mt gid oid)
  ultimately show "UCI_MT (UCI_MT_GID_OID mt gid oid) = mt"
    and "UCI_GID (UCI_MT_GID_OID mt gid oid) = gid"
    and "UCI_OID (UCI_MT_GID_OID mt gid oid) = oid"
    using assms by (simp_all add: UCI_MT_def UCI_GID_def UCI_OID_def unat_of_nat)
qed

lemma unat_take_bit_less: "n \<le> k \<Longrightarrow> unat (take_bit n w) < 2 ^ k"
  by (metis le_less_trans less_le_trans not_le power_increasing_iff take_bit_nat_less_exp
      unsigned_take_bit_eq one_less_numeral_iff semiring_norm(76))

lemma UCI_MT_less: "UCI_MT w < 8"
  using unat_take_bit_less [of 3 3] by (simp add: UCI_MT_def and_mask_take_bit)

lemma UCI_GID_less: "UCI_GID w < 16"
  using unat_take_bit_less [of 4 4] by (simp add: UCI_GID_def and_mask_take_bit)

lemma UCI_OID_less: "UCI_OID w < 64"
  using unat_take_bit_less [of 6 6] by (simp add: UCI_OID_def and_mask_take_bit)

end
