(* ===== verification/Linked.thy ===== *)
theory Linked
  imports Prelude
begin

text \<open>
  Singly linked lists in a store, whatever the type of their nodes: the chains of buffer blocks,
  the list of handler tables and the lists of tasks are all of this shape.

  \<open>lpath nxt h p as q\<close>: following the links \<open>nxt\<close> from \<open>p\<close> visits the nodes \<open>as\<close> in order
  and arrives at \<open>q\<close>. A chain is a path to NULL.
\<close>

primrec lpath :: "('b \<Rightarrow> ptr option) \<Rightarrow> (ptr \<Rightarrow> 'b option) \<Rightarrow> ptr option \<Rightarrow> ptr list \<Rightarrow> ptr option \<Rightarrow> bool" where
  "lpath nxt h p [] q \<longleftrightarrow> p = q"
| "lpath nxt h p (a # as) q \<longleftrightarrow>
     p = Some a \<and> (case h a of None \<Rightarrow> False | Some b \<Rightarrow> lpath nxt h (nxt b) as q)"

abbreviation lchain :: "('b \<Rightarrow> ptr option) \<Rightarrow> (ptr \<Rightarrow> 'b option) \<Rightarrow> ptr option \<Rightarrow> ptr list \<Rightarrow> bool" where
  "lchain nxt h p as \<equiv> lpath nxt h p as None"

lemma path_append: "lpath nxt h p (as @ bs) q \<longleftrightarrow> (\<exists>r. lpath nxt h p as r \<and> lpath nxt h r bs q)"
  by (induction as arbitrary: p) (auto split: option.splits)

lemma path_cong:
  "(\<And>a. a \<in> set as \<Longrightarrow> map_option nxt (h' a) = map_option nxt (h a)) \<Longrightarrow>
   lpath nxt h' p as q = lpath nxt h p as q"
proof (induction as arbitrary: p)
  case Nil
  then show ?case by simp
next
  case (Cons a as)
  from Cons.prems [of a] have "map_option nxt (h' a) = map_option nxt (h a)" by simp
  moreover have "lpath nxt h' r as q = lpath nxt h r as q" for r
    using Cons.prems by (intro Cons.IH) simp
  ultimately show ?case by (cases "h a"; cases "h' a") auto
qed

lemma path_upd_other [simp]: "a \<notin> set as \<Longrightarrow> lpath nxt (h(a := v)) p as q = lpath nxt h p as q"
  by (rule path_cong) auto

lemma path_upd_same_next:
  "h a = Some b \<Longrightarrow> nxt b' = nxt b \<Longrightarrow> lpath nxt (h(a \<mapsto> b')) p as q = lpath nxt h p as q"
  by (rule path_cong) auto

lemma path_dom: "lpath nxt h p as q \<Longrightarrow> set as \<subseteq> dom h"
  by (induction as arbitrary: p) (auto split: option.splits)

lemma path_None [simp]: "lpath nxt h None as q \<longleftrightarrow> as = [] \<and> q = None"
  by (cases as) auto

lemma chain_Some_iff:
  "lchain nxt h (Some a) as \<longleftrightarrow> (\<exists>b bs. as = a # bs \<and> h a = Some b \<and> lchain nxt h (nxt b) bs)"
  by (cases as) (auto split: option.splits)

lemma chain_unique: "lchain nxt h p as \<Longrightarrow> lchain nxt h p bs \<Longrightarrow> as = bs"
  by (induction as arbitrary: p bs) (auto simp: chain_Some_iff split: option.splits)

lemma chain_suffix: "lchain nxt h p (as @ bs) \<Longrightarrow> \<exists>r. lchain nxt h r bs"
  by (auto simp: path_append)

lemma chain_distinct: "lchain nxt h p as \<Longrightarrow> distinct as"
proof (induction as arbitrary: p)
  case Nil
  then show ?case by simp
next
  case (Cons a as)
  then obtain b where b: "h a = Some b" "lchain nxt h (nxt b) as"
    by (auto split: option.splits)
  have "a \<notin> set as"
  proof
    assume "a \<in> set as"
    then obtain xs ys where as: "as = xs @ a # ys" by (meson split_list)
    with b(2) obtain r where "lchain nxt h r (a # ys)" by (auto simp: path_append)
    with b(1) have "lchain nxt h (nxt b) ys" by simp
    with b(2) have "as = ys" by (rule chain_unique)
    with as show False by simp
  qed
  with Cons.IH b(2) show ?case by simp
qed

lemma path_snoc:
  "lpath nxt h p (as @ [a]) q \<longleftrightarrow> lpath nxt h p as (Some a) \<and> (\<exists>b. h a = Some b \<and> nxt b = q)"
  by (auto simp: path_append split: option.splits)

text \<open>Linking a chain after the last block of another.\<close>

lemma chain_link:
  assumes "lchain nxt h p (as @ [a])" and "lchain nxt h q bs" and "h a = Some b" and "a \<notin> set bs"
    and "nxt b' = q"
  shows "lchain nxt (h(a \<mapsto> b')) p ((as @ [a]) @ bs)"
proof -
  from assms(1) have "a \<notin> set as" by (auto dest: chain_distinct)
  with assms show ?thesis
    by (auto simp: path_append split: option.splits)
qed

end
