(* ===== verification/Uci_Blk.thy ===== *)
theory Uci_Blk
  imports Uci_Spec Linked
begin

text \<open>
  Packet buffer blocks (\<^verbatim>\<open>struct uci_blk\<close> of \<^verbatim>\<open>uci.h\<close>), the memory they live in, the
  allocator interface with the allocator the library ships (\<^verbatim>\<open>simple_acquire\<close> and
  \<^verbatim>\<open>simple_release\<close> of \<^verbatim>\<open>cherry.c\<close>), \<^verbatim>\<open>uci_blk_alloc\<close> and \<^verbatim>\<open>uci_blk_free_all\<close> of
  \<^verbatim>\<open>uci.c\<close>, and the packet headers of \<^verbatim>\<open>uci_internal.h\<close>.

  Blocks are linked through their \<open>next\<close> pointers and are shared by several owners (the
  message being built, the receive chain, the transmit queue), so they live in an explicit store
  from addresses to blocks.
\<close>

section \<open>Blocks and memory\<close>

abbreviation (input) UCI_BLK_FLAGS_STATIC :: byte where "UCI_BLK_FLAGS_STATIC \<equiv> 1"
abbreviation (input) UCI_BLK_FLAGS_DESTRUCTIBLE :: byte where "UCI_BLK_FLAGS_DESTRUCTIBLE \<equiv> 2"
abbreviation (input) UCI_BLK_FLAGS_HEADER_RESERVED :: byte where "UCI_BLK_FLAGS_HEADER_RESERVED \<equiv> 4"

text \<open>
  \<open>b_data\<close> is the buffer the \<open>data\<close> pointer designates, as long as its allocation.
\<close>

record uci_blk =
  b_next :: "ptr option"
  b_data :: bytes
  b_len :: nat
  b_total_len :: nat
  b_size :: nat
  b_flags :: byte

type_synonym heap = "ptr \<Rightarrow> uci_blk option"

text \<open>
  The memory has the allocated blocks, the address the next allocation will use, a schedule that
  says which allocations fail (the \<open>n\<close>-th call of \<open>malloc\<close> returns NULL iff \<open>oom n\<close>), and the
  unspecified contents fresh memory has. Theorems hold for every schedule and every contents.
\<close>

record mem =
  heap :: heap
  brk :: ptr
  oom :: "ptr \<Rightarrow> bool"
  junk_blk :: uci_blk
  junk_byte :: "nat \<Rightarrow> byte"

definition mem_ok :: "mem \<Rightarrow> bool" where
  "mem_ok m \<longleftrightarrow> (\<forall>a \<in> dom (heap m). a < brk m)"

definition put_blk :: "mem \<Rightarrow> ptr \<Rightarrow> uci_blk \<Rightarrow> mem" where
  "put_blk m p b = m\<lparr>heap := (heap m)(p \<mapsto> b)\<rparr>"

lemma heap_put_blk [simp]: "heap (put_blk m p b) = (heap m)(p \<mapsto> b)"
  by (simp add: put_blk_def)

lemma brk_put_blk [simp]: "brk (put_blk m p b) = brk m"
  by (simp add: put_blk_def)

lemma mem_ok_put_blk: "mem_ok m \<Longrightarrow> p \<in> dom (heap m) \<Longrightarrow> mem_ok (put_blk m p b)"
  by (auto simp: mem_ok_def)

section \<open>Allocators\<close>

text \<open>
  \<^verbatim>\<open>struct uci_allocator_ops\<close>, with the destructor that a block flagged
  \<open>UCI_BLK_FLAGS_DESTRUCTIBLE\<close> carries.
\<close>

record uci_allocator_ops =
  op_alloc :: "mem \<Rightarrow> nat \<Rightarrow> byte \<Rightarrow> ptr option \<times> mem"
  op_free :: "mem \<Rightarrow> ptr \<Rightarrow> mem option"
  op_destructor :: "mem \<Rightarrow> ptr \<Rightarrow> mem option"

definition simple_acquire :: "mem \<Rightarrow> nat \<Rightarrow> byte \<Rightarrow> ptr option \<times> mem" where
  "simple_acquire m size_hint flags_hint =
     (let p = brk m; m = m\<lparr>brk := Suc p\<rparr> in
      if oom m p then (None, m)
      else (Some p, put_blk m p
             ((junk_blk m)\<lparr>b_data := map (junk_byte m) [0..<UCI_MAX_PACKET_SIZE],
                           b_size := UCI_MAX_PACKET_SIZE\<rparr>)))"

definition simple_release :: "mem \<Rightarrow> ptr \<Rightarrow> mem option" where
  "simple_release m packet =
     (if packet \<in> dom (heap m) then Some (m\<lparr>heap := (heap m)(packet := None)\<rparr>) else None)"

definition simple_allocator_ops :: "(mem \<Rightarrow> ptr \<Rightarrow> mem option) \<Rightarrow> uci_allocator_ops" where
  "simple_allocator_ops destructor =
     \<lparr>op_alloc = simple_acquire, op_free = simple_release, op_destructor = destructor\<rparr>"

definition uci_blk_alloc :: "uci_allocator_ops \<Rightarrow> mem \<Rightarrow> nat \<Rightarrow> byte \<Rightarrow> (ptr option \<times> mem) option" where
  "uci_blk_alloc A m size_hint flags_hint =
     (case op_alloc A m size_hint flags_hint of
        (None, m) \<Rightarrow> Some (None, m)
      | (Some p, m) \<Rightarrow>
          (case heap m p of
             None \<Rightarrow> None
           | Some b \<Rightarrow>
               Some (Some p, put_blk m p
                 (b\<lparr>b_next := None, b_len := 0, b_total_len := 0, b_flags := flags_hint\<rparr>))))"

partial_function (option) uci_blk_free_all ::
    "uci_allocator_ops \<Rightarrow> mem \<Rightarrow> ptr option \<Rightarrow> mem option" where
  "uci_blk_free_all A m block =
     (case block of
        None \<Rightarrow> Some m
      | Some p \<Rightarrow>
          (case heap m p of
             None \<Rightarrow> None
           | Some b \<Rightarrow>
               do {
                 m' \<leftarrow> (if b_flags b AND UCI_BLK_FLAGS_DESTRUCTIBLE \<noteq> 0 then op_destructor A m p
                        else if b_flags b AND UCI_BLK_FLAGS_STATIC = 0 then op_free A m p
                        else Some m);
                 uci_blk_free_all A m' (b_next b)
               }))"

section \<open>Packet headers\<close>

definition is_control_mt :: "nat \<Rightarrow> bool" where
  "is_control_mt mt \<longleftrightarrow> mt = UCI_MESSAGE_TYPE_COMMAND \<or> mt = UCI_MESSAGE_TYPE_RESPONSE \<or>
     mt = UCI_MESSAGE_TYPE_NOTIFICATION"

definition is_data_mt :: "nat \<Rightarrow> bool" where
  "is_data_mt mt \<longleftrightarrow> mt = UCI_MESSAGE_TYPE_DATA"

definition is_se_testing_mt :: "nat \<Rightarrow> bool" where
  "is_se_testing_mt mt \<longleftrightarrow> mt = UCI_MESSAGE_TYPE_SE_TESTING_COMMAND \<or>
     mt = UCI_MESSAGE_TYPE_SE_TESTING_RESPONSE"

text \<open>What remains is passed as a 16-bit number.\<close>

definition control_header :: "16 word \<Rightarrow> nat \<Rightarrow> bytes" where
  "control_header mt_gid_oid remaining =
     (let remaining = u16 remaining;
          segment = remaining > UCI_MAX_CONTROL_PAYLOAD_SIZE;
          pbf = (if segment then 0x10 else 0 :: 16 word)
      in [ucast ((drop_bit 8 mt_gid_oid OR pbf) AND 0xff),
          ucast (mt_gid_oid AND 0xff),
          0,
          word_of_nat (if segment then UCI_MAX_CONTROL_PAYLOAD_SIZE else remaining)])"

definition uci_blk_put_control_header :: "uci_blk \<Rightarrow> 16 word \<Rightarrow> nat \<Rightarrow> uci_blk option" where
  "uci_blk_put_control_header blk mt_gid_oid remaining =
     do { d \<leftarrow> write_buf (b_data blk) 0 (control_header mt_gid_oid remaining);
          Some (blk\<lparr>b_data := d\<rparr>) }"

definition uci_blk_put_se_testing_control_header ::
    "uci_blk \<Rightarrow> 16 word \<Rightarrow> nat \<Rightarrow> uci_blk option" where
  "uci_blk_put_se_testing_control_header blk mt_gid_oid remaining =
     do { let remaining = u16 remaining;
          d \<leftarrow> write_buf (b_data blk) 0
                 [ucast (drop_bit 8 mt_gid_oid AND 0xff), 0,
                  word_of_nat (remaining mod 256), word_of_nat (remaining div 256 mod 256)];
          Some (blk\<lparr>b_data := d\<rparr>) }"

definition data_header :: "16 word \<Rightarrow> nat \<Rightarrow> bytes" where
  "data_header mt_dpf remaining =
     (let remaining = u16 remaining;
          segment = remaining > UCI_MAX_DATA_PAYLOAD_SIZE;
          cur_packet_len = (if segment then UCI_MAX_DATA_PAYLOAD_SIZE else remaining);
          pbf = (if segment then 0x10 else 0 :: 16 word)
      in [ucast ((drop_bit 8 mt_dpf OR pbf) AND 0xff),
          0,
          word_of_nat (cur_packet_len mod 256),
          word_of_nat (cur_packet_len div 256 mod 256)])"

definition uci_blk_put_data_header :: "uci_blk \<Rightarrow> 16 word \<Rightarrow> nat \<Rightarrow> uci_blk option" where
  "uci_blk_put_data_header blk mt_dpf remaining =
     do { d \<leftarrow> write_buf (b_data blk) 0 (data_header mt_dpf remaining);
          Some (blk\<lparr>b_data := d\<rparr>) }"

definition uci_blk_has_header :: "uci_blk \<Rightarrow> bool" where
  "uci_blk_has_header blk \<longleftrightarrow> b_flags blk AND UCI_BLK_FLAGS_HEADER_RESERVED \<noteq> 0"

text \<open>The readers take the header bytes; \<open>hdr_of\<close> is the dereference of \<open>blk->data\<close>.\<close>

definition hdr_of :: "uci_blk \<Rightarrow> bytes option" where
  "hdr_of blk = read_buf (b_data blk) 0 UCI_PACKET_HEADER_SIZE"

definition uci_blk_get_mt :: "bytes \<Rightarrow> nat" where
  "uci_blk_get_mt hdr = unat (drop_bit 5 (hdr ! 0))"

definition uci_blk_get_mt_dpf :: "bytes \<Rightarrow> 16 word" where
  "uci_blk_get_mt_dpf hdr = push_bit 8 (ucast (hdr ! 0 AND 0xEF))"

definition uci_blk_get_mt_gid_oid :: "bytes \<Rightarrow> 16 word" where
  "uci_blk_get_mt_gid_oid hdr = ucast (hdr ! 1) OR push_bit 8 (ucast (hdr ! 0 AND 0xEF))"

definition uci_blk_get_uci_message_id :: "bytes \<Rightarrow> nat \<Rightarrow> 16 word" where
  "uci_blk_get_uci_message_id hdr mt =
     (if mt = UCI_MESSAGE_TYPE_DATA then uci_blk_get_mt_dpf hdr
      else if mt = UCI_MESSAGE_TYPE_COMMAND \<or> mt = UCI_MESSAGE_TYPE_RESPONSE \<or>
              mt = UCI_MESSAGE_TYPE_NOTIFICATION then uci_blk_get_mt_gid_oid hdr
      else push_bit 13 (word_of_nat mt))"

definition uci_blk_is_segment :: "bytes \<Rightarrow> bool" where
  "uci_blk_is_segment hdr \<longleftrightarrow> hdr ! 0 AND 0x10 \<noteq> 0"

definition uci_packet_hdr_get_msg_max_size :: "bytes \<Rightarrow> nat" where
  "uci_packet_hdr_get_msg_max_size hdr =
     (let mt = uci_blk_get_mt hdr in
      if mt = UCI_MESSAGE_TYPE_DATA then UCI_MAX_DATA_PACKET_SIZE
      else if mt = UCI_MESSAGE_TYPE_COMMAND \<or> mt = UCI_MESSAGE_TYPE_RESPONSE \<or>
              mt = UCI_MESSAGE_TYPE_NOTIFICATION then UCI_MAX_CONTROL_PACKET_SIZE
      else if mt = UCI_MESSAGE_TYPE_SE_TESTING_COMMAND \<or>
              mt = UCI_MESSAGE_TYPE_SE_TESTING_RESPONSE then UCI_MAX_SE_TESTING_PACKET_SIZE
      else 0)"

definition uci_packet_hdr_get_payload_size :: "bytes \<Rightarrow> nat" where
  "uci_packet_hdr_get_payload_size hdr =
     (let mt = uci_blk_get_mt hdr in
      if mt = UCI_MESSAGE_TYPE_DATA \<or> mt = UCI_MESSAGE_TYPE_SE_TESTING_COMMAND \<or>
         mt = UCI_MESSAGE_TYPE_SE_TESTING_RESPONSE
      then 256 * unat (hdr ! 3) + unat (hdr ! 2)
      else unat (hdr ! 3))"

section \<open>Chains of blocks\<close>

abbreviation path :: "heap \<Rightarrow> ptr option \<Rightarrow> ptr list \<Rightarrow> ptr option \<Rightarrow> bool" where
  "path \<equiv> lpath b_next"

abbreviation chain :: "heap \<Rightarrow> ptr option \<Rightarrow> ptr list \<Rightarrow> bool" where
  "chain h p as \<equiv> path h p as None"

text \<open>The bytes a chain carries: the data of its blocks without the reserved headers.\<close>

definition blk_payload :: "uci_blk \<Rightarrow> bytes" where
  "blk_payload b =
     (let d = take (b_len b) (b_data b)
      in if uci_blk_has_header b then drop UCI_PACKET_HEADER_SIZE d else d)"

definition blk_at :: "heap \<Rightarrow> ptr \<Rightarrow> bytes" where
  "blk_at h a = (case h a of None \<Rightarrow> [] | Some b \<Rightarrow> blk_payload b)"

definition payload :: "heap \<Rightarrow> ptr list \<Rightarrow> bytes" where
  "payload h as = concat (map (blk_at h) as)"

definition blk_ok :: "uci_blk \<Rightarrow> bool" where
  "blk_ok b \<longleftrightarrow> b_len b \<le> length (b_data b) \<and> b_len b < 65536 \<and>
     (uci_blk_has_header b \<longrightarrow> UCI_PACKET_HEADER_SIZE \<le> b_len b)"

definition blks_ok :: "heap \<Rightarrow> ptr list \<Rightarrow> bool" where
  "blks_ok h as \<longleftrightarrow> (\<forall>a \<in> set as. \<exists>b. h a = Some b \<and> blk_ok b)"

lemma payload_Nil [simp]: "payload h [] = []"
  by (simp add: payload_def)

lemma payload_Cons [simp]: "payload h (a # as) = blk_at h a @ payload h as"
  by (simp add: payload_def)

lemma payload_append [simp]: "payload h (as @ bs) = payload h as @ payload h bs"
  by (simp add: payload_def)

lemma payload_cong: "(\<And>a. a \<in> set as \<Longrightarrow> blk_at h' a = blk_at h a) \<Longrightarrow> payload h' as = payload h as"
  by (simp add: payload_def cong: map_cong)

lemma payload_upd_other [simp]: "a \<notin> set as \<Longrightarrow> payload (h(a := v)) as = payload h as"
  by (rule payload_cong) (auto simp: blk_at_def)

lemma blks_ok_simps [simp]:
  "blks_ok h []"
  "blks_ok h (a # as) \<longleftrightarrow> (\<exists>b. h a = Some b \<and> blk_ok b) \<and> blks_ok h as"
  "blks_ok h (as @ bs) \<longleftrightarrow> blks_ok h as \<and> blks_ok h bs"
  by (auto simp: blks_ok_def)

lemma blks_ok_upd_other [simp]: "a \<notin> set as \<Longrightarrow> blks_ok (h(a := v)) as = blks_ok h as"
  by (auto simp: blks_ok_def)

lemma length_blk_payload:
  "blk_ok b \<Longrightarrow>
   length (blk_payload b) = b_len b - (if uci_blk_has_header b then UCI_PACKET_HEADER_SIZE else 0)"
  by (auto simp: blk_ok_def blk_payload_def Let_def)

end
