(* ===== verification/Uci_Alloc.thy ===== *)
theory Uci_Alloc
  imports Uci_Blk
begin

text \<open>
  The contract between the UCI core and the allocator it is initialised with, as a locale: what
  \<^verbatim>\<open>uci_allocator_ops.alloc\<close> and \<^verbatim>\<open>free\<close> promise in \<^verbatim>\<open>uci.h\<close> (one block of any size, or
  NULL; release of one block). The behaviour of \<^verbatim>\<open>uci_blk_alloc\<close> and \<^verbatim>\<open>uci_blk_free_all\<close> is
  proved once for every allocator that keeps it, and the allocator of the library is shown to
  keep it.
\<close>

definition fresh_blk :: "uci_blk \<Rightarrow> byte \<Rightarrow> bool" where
  "fresh_blk b flags \<longleftrightarrow> b_next b = None \<and> b_len b = 0 \<and> b_total_len b = 0 \<and> b_flags b = flags \<and>
     b_size b = length (b_data b) \<and> b_size b < 65536"

text \<open>Blocks that \<open>uci_blk_free_all\<close> returns to the allocator, and those it leaves alone.\<close>

definition allocator_owned :: "uci_blk \<Rightarrow> bool" where
  "allocator_owned b \<longleftrightarrow> b_flags b AND UCI_BLK_FLAGS_DESTRUCTIBLE = 0 \<and>
     b_flags b AND UCI_BLK_FLAGS_STATIC = 0"

definition owned :: "heap \<Rightarrow> ptr list \<Rightarrow> bool" where
  "owned h as \<longleftrightarrow> (\<forall>a \<in> set as. \<exists>b. h a = Some b \<and> allocator_owned b)"

lemma owned_simps [simp]:
  "owned h []"
  "owned h (a # as) \<longleftrightarrow> (\<exists>b. h a = Some b \<and> allocator_owned b) \<and> owned h as"
  "owned h (as @ bs) \<longleftrightarrow> owned h as \<and> owned h bs"
  by (auto simp: owned_def)

lemma owned_upd_other [simp]: "a \<notin> set as \<Longrightarrow> owned (h(a := v)) as = owned h as"
  by (auto simp: owned_def)

locale uci_allocator =
  fixes A :: uci_allocator_ops
    and inv :: "mem \<Rightarrow> bool"
  assumes alloc_null:
      "inv m \<Longrightarrow> op_alloc A m n f = (None, m') \<Longrightarrow> heap m' = heap m \<and> inv m'"
    and alloc_blk:
      "inv m \<Longrightarrow> op_alloc A m n f = (Some p, m') \<Longrightarrow>
       heap m p = None \<and> inv m' \<and>
       (\<exists>b. heap m' = (heap m)(p \<mapsto> b) \<and> b_size b = length (b_data b) \<and> b_size b < 65536)"
    and free_blk:
      "inv m \<Longrightarrow> p \<in> dom (heap m) \<Longrightarrow>
       \<exists>m'. op_free A m p = Some m' \<and> heap m' = (heap m)(p := None) \<and> inv m'"
    and write_blk:
      "inv m \<Longrightarrow> p \<in> dom (heap m) \<Longrightarrow> inv (put_blk m p b)"
begin

lemma blk_alloc_cases:
  assumes "inv m"
  obtains (null) m' where "uci_blk_alloc A m n f = Some (None, m')" "heap m' = heap m" "inv m'"
  | (blk) p b m' where "uci_blk_alloc A m n f = Some (Some p, m')" "heap m p = None"
      "heap m' = (heap m)(p \<mapsto> b)" "fresh_blk b f" "inv m'"
proof (cases "op_alloc A m n f")
  case (Pair r m1)
  show thesis
  proof (cases r)
    case None
    with Pair alloc_null [OF assms] show thesis
      by (intro null [of m1]) (auto simp: uci_blk_alloc_def)
  next
    case (Some p)
    with Pair alloc_blk [OF assms] obtain b where b: "heap m p = None" "inv m1"
      "heap m1 = (heap m)(p \<mapsto> b)" "b_size b = length (b_data b)" "b_size b < 65536"
      by metis
    let ?b = "b\<lparr>b_next := None, b_len := 0, b_total_len := 0, b_flags := f\<rparr>"
    show thesis
    proof (rule blk)
      show "uci_blk_alloc A m n f = Some (Some p, put_blk m1 p ?b)"
        using Pair Some b by (simp add: uci_blk_alloc_def)
      show "heap (put_blk m1 p ?b) = (heap m)(p \<mapsto> ?b)"
        using b by simp
      show "inv (put_blk m1 p ?b)"
        using b by (intro write_blk) auto
    qed (use b in \<open>auto simp: fresh_blk_def\<close>)
  qed
qed

lemma free_all:
  "inv m \<Longrightarrow> chain (heap m) p as \<Longrightarrow> owned (heap m) as \<Longrightarrow>
   \<exists>m'. uci_blk_free_all A m p = Some m' \<and> heap m' = heap m |` (- set as) \<and> inv m'"
proof (induction as arbitrary: m p)
  case Nil
  then show ?case by (simp add: uci_blk_free_all.simps)
next
  case (Cons a as)
  then obtain b where p: "p = Some a" and a: "heap m a = Some b" "allocator_owned b"
    and as: "chain (heap m) (b_next b) as"
    by (auto split: option.splits)
  from chain_distinct [OF Cons.prems(2)] have notin: "a \<notin> set as" by simp
  from free_blk [of m a] Cons.prems(1) a obtain m1 where
    m1: "op_free A m a = Some m1" "heap m1 = (heap m)(a := None)" "inv m1"
    by auto
  have "chain (heap m1) (b_next b) as" "owned (heap m1) as"
    using as notin m1(2) Cons.prems(3) by simp_all
  from Cons.IH [OF m1(3) this] obtain m' where
    m': "uci_blk_free_all A m1 (b_next b) = Some m'" "heap m' = heap m1 |` (- set as)" "inv m'"
    by blast
  have step: "uci_blk_free_all A m p = Some m'"
    using a p m1 m' by (subst uci_blk_free_all.simps) (simp add: allocator_owned_def)
  have dom: "heap m' = heap m |` (- set (a # as))"
    using m1 m' by (auto simp: fun_eq_iff restrict_map_def)
  show ?case
    using step dom m'(3) by blast
qed

end

text \<open>An allocator whose blocks have room for a packet of the greatest size.\<close>

locale packet_allocator = uci_allocator +
  assumes alloc_size:
    "inv m \<Longrightarrow> op_alloc A m n f = (Some p, m') \<Longrightarrow> \<exists>b. heap m' p = Some b \<and> UCI_MAX_PACKET_SIZE \<le> b_size b"

text \<open>An allocator with enough memory.\<close>

locale ample_allocator = packet_allocator +
  assumes alloc_some: "inv m \<Longrightarrow> fst (op_alloc A m n f) \<noteq> None"

text \<open>The allocator of \<^verbatim>\<open>cherry.c\<close> keeps the contract, whatever allocations fail.\<close>

interpretation simple: uci_allocator "simple_allocator_ops d" mem_ok
proof
  fix m m' :: mem and n f
  assume ok: "mem_ok m" and eq: "op_alloc (simple_allocator_ops d) m n f = (None, m')"
  then have m': "m' = m\<lparr>brk := Suc (brk m)\<rparr>"
    by (auto simp: simple_allocator_ops_def simple_acquire_def Let_def split: if_splits)
  with ok show "heap m' = heap m \<and> mem_ok m'"
    by (auto simp: mem_ok_def less_Suc_eq)
next
  fix m m' :: mem and n f p
  assume ok: "mem_ok m" and eq: "op_alloc (simple_allocator_ops d) m n f = (Some p, m')"
  then have p: "p = brk m" and m': "m' = put_blk (m\<lparr>brk := Suc (brk m)\<rparr>) p
      ((junk_blk m)\<lparr>b_data := map (junk_byte m) [0..<UCI_MAX_PACKET_SIZE],
                    b_size := UCI_MAX_PACKET_SIZE\<rparr>)"
    by (auto simp: simple_allocator_ops_def simple_acquire_def Let_def split: if_splits)
  have "heap m p = None"
    using ok p by (auto simp: mem_ok_def)
  moreover have "mem_ok m'"
    using ok p m' by (auto simp: mem_ok_def less_Suc_eq)
  ultimately show "heap m p = None \<and> mem_ok m' \<and>
      (\<exists>b. heap m' = (heap m)(p \<mapsto> b) \<and> b_size b = length (b_data b) \<and> b_size b < 65536)"
    using m' by auto
next
  fix m p
  assume "mem_ok m" "p \<in> dom (heap m)"
  then show "\<exists>m'. op_free (simple_allocator_ops d) m p = Some m' \<and>
      heap m' = (heap m)(p := None) \<and> mem_ok m'"
    by (auto simp: simple_allocator_ops_def simple_release_def mem_ok_def)
next
  fix m p b
  assume "mem_ok m" "p \<in> dom (heap m)"
  then show "mem_ok (put_blk m p b)" by (rule mem_ok_put_blk)
qed

interpretation simple: packet_allocator "simple_allocator_ops d" mem_ok
  by unfold_locales
    (auto simp: simple_allocator_ops_def simple_acquire_def Let_def split: if_splits)

text \<open>While \<open>malloc\<close> does not fail.\<close>

definition mem_ample :: "mem \<Rightarrow> bool" where
  "mem_ample m \<longleftrightarrow> mem_ok m \<and> (\<forall>n. \<not> oom m n)"

interpretation ample: ample_allocator "simple_allocator_ops d" mem_ample
proof
  fix m m' :: mem and n f p
  assume ok: "mem_ample m" and eq: "op_alloc (simple_allocator_ops d) m n f = (Some p, m')"
  then have "mem_ok m" "oom m' = oom m"
    by (auto simp: mem_ample_def simple_allocator_ops_def simple_acquire_def Let_def put_blk_def split: if_splits)
  with simple.alloc_blk [OF this(1) eq] ok
  show "heap m p = None \<and> mem_ample m' \<and>
      (\<exists>b. heap m' = (heap m)(p \<mapsto> b) \<and> b_size b = length (b_data b) \<and> b_size b < 65536)"
    by (simp add: mem_ample_def)
  show "\<exists>b. heap m' p = Some b \<and> UCI_MAX_PACKET_SIZE \<le> b_size b"
    using simple.alloc_size [OF \<open>mem_ok m\<close> eq] .
qed (auto simp: mem_ample_def mem_ok_def simple_allocator_ops_def simple_acquire_def simple_release_def
      Let_def put_blk_def)

end
