(* ===== verification/Uci_Parser.thy ===== *)
theory Uci_Parser
  imports Uci_Blk
begin

text \<open>
  The message parser (\<^verbatim>\<open>struct uci_message_parser\<close> of \<^verbatim>\<open>uci_message.h\<close> and its operations in
  \<^verbatim>\<open>uci_message.h\<close> and \<^verbatim>\<open>uci_message.c\<close>). A parser walks a chain of blocks; the abstraction
  \<open>parser_rep h p bs\<close> says that the bytes still to be read are \<open>bs\<close>. The reads are shown to
  deliver exactly the next bytes of that list, to stop, and to stay inside the blocks.
\<close>

section \<open>Operations\<close>

record uci_message_parser =
  p_current_block :: "ptr option"
  p_previous :: "ptr option"
  p_offset :: nat
  p_current_remaining_len :: nat

definition UCI_MESSAGE_PARSER_INITIALIZER :: "heap \<Rightarrow> ptr \<Rightarrow> uci_message_parser option" where
  "UCI_MESSAGE_PARSER_INITIALIZER h message =
     (case h message of
        None \<Rightarrow> None
      | Some b \<Rightarrow> Some \<lparr>p_current_block = Some message, p_previous = Some message, p_offset = 0,
                        p_current_remaining_len = b_total_len b\<rparr>)"

definition uci_message_remaining :: "uci_message_parser \<Rightarrow> nat" where
  "uci_message_remaining parser = size_sub (p_current_remaining_len parser) (p_offset parser)"

text \<open>
  The result is the number of bytes, where they are (a block and an offset in its data) and the
  advanced parser. The parser and the destination are not NULL in any call.
\<close>

definition next_block :: "ptr \<Rightarrow> uci_blk \<Rightarrow> uci_message_parser \<Rightarrow> uci_message_parser" where
  "next_block c b parser =
     parser\<lparr>p_current_remaining_len := size_sub (p_current_remaining_len parser) (b_len b),
            p_previous := Some c, p_current_block := b_next b, p_offset := 0\<rparr>"

definition skip_header :: "uci_blk \<Rightarrow> uci_message_parser \<Rightarrow> uci_message_parser" where
  "skip_header b parser =
     (if p_offset parser = 0 \<and> uci_blk_has_header b
      then parser\<lparr>p_offset := UCI_PACKET_HEADER_SIZE,
                  p_current_remaining_len :=
                    size_add (p_current_remaining_len parser) UCI_PACKET_HEADER_SIZE\<rparr>
      else parser)"

definition take_from_block ::
    "ptr \<Rightarrow> uci_blk \<Rightarrow> uci_message_parser \<Rightarrow> nat \<Rightarrow> nat \<times> (ptr \<times> nat) option \<times> uci_message_parser" where
  "take_from_block c b parser sz =
     (let blk_remaining = size_sub (b_len b) (p_offset parser);
          sz = (if sz > blk_remaining then blk_remaining else sz)
      in (sz, Some (c, p_offset parser), parser\<lparr>p_offset := u16 (p_offset parser + sz)\<rparr>))"

definition uci_message_get_nocopy ::
    "heap \<Rightarrow> uci_message_parser \<Rightarrow> nat \<Rightarrow> (nat \<times> (ptr \<times> nat) option \<times> uci_message_parser) option" where
  "uci_message_get_nocopy h parser sz =
     (if sz = 0 then Some (0, None, parser)
      else case p_current_block parser of
        None \<Rightarrow> Some (0, None, parser)
      | Some c \<Rightarrow>
          do {
            b \<leftarrow> h c;
            let parser = (if p_offset parser \<ge> b_len b then next_block c b parser else parser);
            case p_current_block parser of
              None \<Rightarrow> Some (0, None, parser)
            | Some c \<Rightarrow>
                do {
                  b \<leftarrow> h c;
                  Some (take_from_block c b (skip_header b parser) sz)
                }
          })"

definition read_chunk :: "heap \<Rightarrow> (ptr \<times> nat) option \<Rightarrow> nat \<Rightarrow> bytes option" where
  "read_chunk h chunk n =
     (if n = 0 then Some []
      else case chunk of
        None \<Rightarrow> None
      | Some (c, off) \<Rightarrow> do { b \<leftarrow> h c; read_buf (b_data b) off n })"

text \<open>The loop of \<^verbatim>\<open>uci_message_get\<close>; \<open>data\<close> holds the bytes copied so far.\<close>

partial_function (option) uci_message_get_loop ::
    "heap \<Rightarrow> uci_message_parser \<Rightarrow> nat \<Rightarrow> bytes \<Rightarrow> (bytes \<times> uci_message_parser) option" where
  "uci_message_get_loop h parser data_len data =
     (if uci_message_remaining parser > 0 \<and> data_len > 0 then
        do {
          (read, chunk, parser) \<leftarrow> uci_message_get_nocopy h parser data_len;
          bs \<leftarrow> read_chunk h chunk read;
          uci_message_get_loop h parser (data_len - read) (data @ bs)
        }
      else Some (data, parser))"

definition uci_message_get ::
    "heap \<Rightarrow> uci_message_parser \<Rightarrow> nat \<Rightarrow> (bytes \<times> uci_message_parser) option" where
  "uci_message_get h parser data_len = uci_message_get_loop h parser data_len []"

partial_function (option) uci_message_skip_loop ::
    "heap \<Rightarrow> uci_message_parser \<Rightarrow> nat \<Rightarrow> (nat \<times> uci_message_parser) option" where
  "uci_message_skip_loop h parser rem =
     (if uci_message_remaining parser > 0 \<and> rem > 0 then
        do {
          (read, chunk, parser) \<leftarrow> uci_message_get_nocopy h parser rem;
          uci_message_skip_loop h parser (rem - read)
        }
      else Some (rem, parser))"

definition uci_message_skip ::
    "heap \<Rightarrow> uci_message_parser \<Rightarrow> nat \<Rightarrow> (nat \<times> uci_message_parser) option" where
  "uci_message_skip h parser len =
     do { (rem, parser) \<leftarrow> uci_message_skip_loop h parser len; Some (len - rem, parser) }"

subsection \<open>Scalars\<close>

text \<open>
  \<open>get_array h parser n\<close> is the common part of the scalar readers: read \<open>n\<close> bytes into a local
  array and compare the count. Their output parameter keeps its value (the last argument) when
  the read is short; the variants with an assertion do not return then.
\<close>

definition get_array :: "heap \<Rightarrow> uci_message_parser \<Rightarrow> nat \<Rightarrow> (bytes option \<times> uci_message_parser) option" where
  "get_array h parser n =
     do { (data, parser) \<leftarrow> uci_message_get h parser n;
          Some (if length data \<noteq> n then None else Some data, parser) }"

definition uci_message_get_8bit_no_assert ::
    "heap \<Rightarrow> uci_message_parser \<Rightarrow> byte \<Rightarrow> (bool \<times> byte \<times> uci_message_parser) option" where
  "uci_message_get_8bit_no_assert h parser value =
     do { (data, parser) \<leftarrow> get_array h parser 1;
          Some (case data of None \<Rightarrow> (False, value, parser) | Some d \<Rightarrow> (True, d ! 0, parser)) }"

definition uci_message_get_8bit :: "heap \<Rightarrow> uci_message_parser \<Rightarrow> (byte \<times> uci_message_parser) option" where
  "uci_message_get_8bit h parser =
     do { (ret, data, parser) \<leftarrow> uci_message_get_8bit_no_assert h parser 0;
          if ret then Some (data, parser) else None }"

definition uci_message_get_bool_no_assert ::
    "heap \<Rightarrow> uci_message_parser \<Rightarrow> (bool \<times> bool \<times> uci_message_parser) option" where
  "uci_message_get_bool_no_assert h parser =
     do { (ret, tmp, parser) \<leftarrow> uci_message_get_8bit_no_assert h parser 0;
          Some (ret, tmp \<noteq> 0, parser) }"

definition uci_message_get_16bit_no_assert ::
    "heap \<Rightarrow> uci_message_parser \<Rightarrow> 16 word \<Rightarrow> (bool \<times> 16 word \<times> uci_message_parser) option" where
  "uci_message_get_16bit_no_assert h parser value =
     do { (data, parser) \<leftarrow> get_array h parser 2;
          Some (case data of
              None \<Rightarrow> (False, value, parser)
            | Some d \<Rightarrow> (True, ucast (d ! 0) OR push_bit 8 (ucast (d ! 1)), parser)) }"

definition uci_message_get_16bit ::
    "heap \<Rightarrow> uci_message_parser \<Rightarrow> (16 word \<times> uci_message_parser) option" where
  "uci_message_get_16bit h parser =
     do { (ret, value, parser) \<leftarrow> uci_message_get_16bit_no_assert h parser 0xDEAD;
          if ret then Some (value, parser) else None }"

definition le32_at :: "bytes \<Rightarrow> nat \<Rightarrow> 32 word" where
  "le32_at d i = ucast (d ! i) OR push_bit 8 (ucast (d ! (i + 1))) OR
     push_bit 16 (ucast (d ! (i + 2))) OR push_bit 24 (ucast (d ! (i + 3)))"

definition uci_message_get_32bit_no_assert ::
    "heap \<Rightarrow> uci_message_parser \<Rightarrow> 32 word \<Rightarrow> (bool \<times> 32 word \<times> uci_message_parser) option" where
  "uci_message_get_32bit_no_assert h parser value =
     do { (data, parser) \<leftarrow> get_array h parser 4;
          Some (case data of
              None \<Rightarrow> (False, value, parser)
            | Some d \<Rightarrow> (True, le32_at d 0, parser)) }"

definition uci_message_get_32bit ::
    "heap \<Rightarrow> uci_message_parser \<Rightarrow> (32 word \<times> uci_message_parser) option" where
  "uci_message_get_32bit h parser =
     do { (ret, value, parser) \<leftarrow> uci_message_get_32bit_no_assert h parser 0xDEADBEEF;
          if ret then Some (value, parser) else None }"

definition join64 :: "32 word \<Rightarrow> 32 word \<Rightarrow> 64 word" where
  "join64 lsb msb = ucast lsb OR push_bit 32 (ucast msb)"

definition uci_message_get_40bit_no_assert ::
    "heap \<Rightarrow> uci_message_parser \<Rightarrow> 64 word \<Rightarrow> (bool \<times> 64 word \<times> uci_message_parser) option" where
  "uci_message_get_40bit_no_assert h parser value =
     do { (data, parser) \<leftarrow> get_array h parser 5;
          Some (case data of
              None \<Rightarrow> (False, value, parser)
            | Some d \<Rightarrow> (True, join64 (le32_at d 0) (ucast (d ! 4)), parser)) }"

definition uci_message_get_40bit ::
    "heap \<Rightarrow> uci_message_parser \<Rightarrow> (64 word \<times> uci_message_parser) option" where
  "uci_message_get_40bit h parser =
     do { (ret, value, parser) \<leftarrow> uci_message_get_40bit_no_assert h parser 0;
          if ret then Some (value, parser) else None }"

definition uci_message_get_48bit_no_assert ::
    "heap \<Rightarrow> uci_message_parser \<Rightarrow> 64 word \<Rightarrow> (bool \<times> 64 word \<times> uci_message_parser) option" where
  "uci_message_get_48bit_no_assert h parser value =
     do { (data, parser) \<leftarrow> get_array h parser 6;
          Some (case data of
              None \<Rightarrow> (False, value, parser)
            | Some d \<Rightarrow>
                (True, join64 (le32_at d 0) (ucast (d ! 4) OR push_bit 8 (ucast (d ! 5))), parser)) }"

definition uci_message_get_48bit ::
    "heap \<Rightarrow> uci_message_parser \<Rightarrow> (64 word \<times> uci_message_parser) option" where
  "uci_message_get_48bit h parser =
     do { (ret, value, parser) \<leftarrow> uci_message_get_48bit_no_assert h parser 0;
          if ret then Some (value, parser) else None }"

definition uci_message_get_64bit_no_assert ::
    "heap \<Rightarrow> uci_message_parser \<Rightarrow> 64 word \<Rightarrow> (bool \<times> 64 word \<times> uci_message_parser) option" where
  "uci_message_get_64bit_no_assert h parser value =
     do { (data, parser) \<leftarrow> get_array h parser 8;
          Some (case data of
              None \<Rightarrow> (False, value, parser)
            | Some d \<Rightarrow> (True, join64 (le32_at d 0) (le32_at d 4), parser)) }"

definition uci_message_get_64bit ::
    "heap \<Rightarrow> uci_message_parser \<Rightarrow> (64 word \<times> uci_message_parser) option" where
  "uci_message_get_64bit h parser =
     do { (ret, value, parser) \<leftarrow> uci_message_get_64bit_no_assert h parser 0xDEADBEEFDEADBEEF;
          if ret then Some (value, parser) else None }"

subsection \<open>Length-prefixed data and TLVs\<close>

text \<open>
  \<open>dst\<close> is the caller's buffer; writing past its end is not defined. The result is the status,
  the buffer, \<open>*length\<close> and the parser.
\<close>

definition uci_message_get_bytes ::
    "heap \<Rightarrow> uci_message_parser \<Rightarrow> bytes \<Rightarrow> nat \<Rightarrow> nat \<Rightarrow>
     (int \<times> bytes \<times> nat \<times> uci_message_parser) option" where
  "uci_message_get_bytes h parser dst len0 capacity =
     (if uci_message_remaining parser < 1 then Some (UCI_STATUS_SYNTAX_ERROR, dst, len0, parser)
      else do {
        (l, parser) \<leftarrow> uci_message_get_8bit h parser;
        let len = unat l;
        if len > capacity \<or> uci_message_remaining parser < len
        then Some (UCI_STATUS_SYNTAX_ERROR, dst, len, parser)
        else do {
          (bs, parser) \<leftarrow> uci_message_get h parser len;
          dst \<leftarrow> write_buf dst 0 bs;
          Some (if length bs \<noteq> len then UCI_STATUS_SYNTAX_ERROR else UCI_STATUS_OK,
                dst, len, parser)
        }
      })"

definition uci_message_get_string ::
    "heap \<Rightarrow> uci_message_parser \<Rightarrow> bytes \<Rightarrow> nat \<Rightarrow> (int \<times> bytes \<times> uci_message_parser) option" where
  "uci_message_get_string h parser dst capacity =
     do {
       (ret, dst, len, parser) \<leftarrow> uci_message_get_bytes h parser dst 0 (size_sub capacity 1);
       let len = (if ret \<noteq> 0 then 0 else len);
       dst \<leftarrow> write_buf dst len [0];
       first \<leftarrow> read_buf dst 0 1;
       Some (if first ! 0 = 0 then UCI_STATUS_SYNTAX_ERROR else ret, dst, parser)
     }"

definition extended_type :: "byte \<Rightarrow> bool" where
  "extended_type t \<longleftrightarrow> 0xe0 \<le> t \<and> t \<le> 0xe2"

definition uci_read_tlv ::
    "heap \<Rightarrow> uci_message_parser \<Rightarrow> byte \<Rightarrow> byte \<Rightarrow> (int \<times> byte \<times> byte \<times> uci_message_parser) option" where
  "uci_read_tlv h parser type0 len0 =
     (if uci_message_remaining parser < 2 then Some (UCI_STATUS_SYNTAX_ERROR, type0, len0, parser)
      else do {
        (type, parser) \<leftarrow> uci_message_get_8bit h parser;
        if extended_type type \<and> uci_message_remaining parser < 2
        then Some (UCI_STATUS_SYNTAX_ERROR, type, len0, parser)
        else do {
          parser \<leftarrow> (if extended_type type then map_option snd (uci_message_skip h parser 1)
                     else Some parser);
          (len, parser) \<leftarrow> uci_message_get_8bit h parser;
          Some (if uci_message_remaining parser < unat len then UCI_STATUS_SYNTAX_ERROR
                else if extended_type type then UCI_STATUS_INVALID_PARAM
                else UCI_STATUS_OK, type, len, parser)
        }
      })"

section \<open>What a parser stands for\<close>

text \<open>
  \<open>blk_rest b off\<close> are the bytes of a block from an offset on; at offset 0 a reserved header has
  not been skipped yet. \<open>parser_at h p as bs R\<close>: the parser is at its offset in the first
  block of \<open>as\<close>, the blocks hold the bytes \<open>bs\<close> from there on, and the parser believes that
  \<open>R\<close> bytes are left. In a well-formed message \<open>R\<close> is the length of \<open>bs\<close>; a message
  whose header announces more than it carries has a larger \<open>R\<close>.
\<close>

definition blk_rest :: "uci_blk \<Rightarrow> nat \<Rightarrow> bytes" where
  "blk_rest b off =
     drop (if off = 0 \<and> uci_blk_has_header b then UCI_PACKET_HEADER_SIZE else off)
          (take (b_len b) (b_data b))"

fun parser_pos :: "heap \<Rightarrow> ptr list \<Rightarrow> nat \<Rightarrow> bytes \<Rightarrow> bool" where
  "parser_pos h [] off bs \<longleftrightarrow> off = 0 \<and> bs = []"
| "parser_pos h (a # as) off bs \<longleftrightarrow>
     (\<exists>b. h a = Some b \<and> off \<le> b_len b \<and> bs = blk_rest b off @ payload h as)"

definition parser_at :: "heap \<Rightarrow> uci_message_parser \<Rightarrow> ptr list \<Rightarrow> bytes \<Rightarrow> nat \<Rightarrow> bool" where
  "parser_at h p as bs R \<longleftrightarrow>
     chain h (p_current_block p) as \<and> blks_ok h as \<and> parser_pos h as (p_offset p) bs \<and>
     p_current_remaining_len p = p_offset p + R \<and> length bs \<le> R \<and> R < 65536 * 65536"

definition parser_rep :: "heap \<Rightarrow> uci_message_parser \<Rightarrow> bytes \<Rightarrow> bool" where
  "parser_rep h p bs \<longleftrightarrow> (\<exists>as. parser_at h p as bs (length bs))"

text \<open>
  A message: a chain of well-formed blocks that carries \<open>bs\<close> and whose first block announces
  \<open>R\<close> bytes. It is well formed when the announced length is the length of what it carries.
\<close>

definition msg_blks :: "heap \<Rightarrow> ptr \<Rightarrow> bytes \<Rightarrow> nat \<Rightarrow> bool" where
  "msg_blks h m bs R \<longleftrightarrow>
     (\<exists>as b. chain h (Some m) as \<and> blks_ok h as \<and> payload h as = bs \<and> h m = Some b \<and>
       b_total_len b = R \<and> length bs \<le> R \<and> R < 65536)"

definition msg_ok :: "heap \<Rightarrow> ptr \<Rightarrow> bytes \<Rightarrow> bool" where
  "msg_ok h m bs \<longleftrightarrow> msg_blks h m bs (length bs)"

lemma blk_rest_0: "blk_rest b 0 = blk_payload b"
  by (simp add: blk_rest_def blk_payload_def Let_def)

lemma parser_init_at:
  assumes "msg_blks h m bs R"
  shows "\<exists>p as. UCI_MESSAGE_PARSER_INITIALIZER h m = Some p \<and> parser_at h p as bs R"
proof -
  from assms obtain as b where m: "chain h (Some m) as" "blks_ok h as" "payload h as = bs"
    "h m = Some b" "b_total_len b = R" "length bs \<le> R" "R < 65536"
    by (auto simp: msg_blks_def)
  then obtain as' where as: "as = m # as'"
    by (auto simp: chain_Some_iff)
  have "parser_at h \<lparr>p_current_block = Some m, p_previous = Some m, p_offset = 0,
      p_current_remaining_len = b_total_len b\<rparr> as bs R"
    using m as by (auto simp: parser_at_def blk_rest_0 blk_at_def)
  with m show ?thesis
    by (auto simp: UCI_MESSAGE_PARSER_INITIALIZER_def)
qed

lemma parser_init:
  "msg_ok h m bs \<Longrightarrow> \<exists>p. UCI_MESSAGE_PARSER_INITIALIZER h m = Some p \<and> parser_rep h p bs"
  using parser_init_at by (force simp: msg_ok_def parser_rep_def)

lemma remaining_at: "parser_at h p as bs R \<Longrightarrow> uci_message_remaining p = R"
  by (simp add: parser_at_def uci_message_remaining_def)

lemma remaining_rep: "parser_rep h p bs \<Longrightarrow> uci_message_remaining p = length bs"
  by (auto simp: parser_rep_def remaining_at)

section \<open>One call of \<^verbatim>\<open>uci_message_get_nocopy\<close>\<close>

text \<open>
  It delivers a prefix of the bytes left. A call that delivers nothing while bytes are left has
  skipped a header or an exhausted block, which the measure records.
\<close>

definition parser_measure :: "uci_message_parser \<Rightarrow> ptr list \<Rightarrow> nat" where
  "parser_measure p as = 2 * length as + (if p_offset p = 0 then 1 else 0)"

lemma take_from_block_rep:
  assumes at: "parser_at h p (a # as) bs R" and a: "h a = Some b"
    and off: "p_offset p < b_len b \<or> p_offset p = 0" and n: "0 < n"
  obtains k off' p' where
    "take_from_block a b (skip_header b p) n = (k, Some (a, off'), p')"
    "k \<le> n" "k \<le> length bs" "read_chunk h (Some (a, off')) k = Some (take k bs)"
    "parser_at h p' (a # as) (drop k bs) (R - k)"
    "k = 0 \<longrightarrow> uci_blk_has_header b \<and> p_offset p = 0 \<and> 0 < p_offset p' \<or> b_len b = 0"
    "p_offset p' = 0 \<longrightarrow> p_offset p = 0"
proof -
  let ?q = "skip_header b p"
  let ?k = "min n (b_len b - p_offset ?q)"
  from at a have ok: "blk_ok b" and bs: "bs = blk_rest b (p_offset p) @ payload h as"
    and rem: "p_current_remaining_len p = p_offset p + R" and small: "length bs \<le> R" "R < 65536 * 65536"
    and le: "p_offset p \<le> b_len b"
    and ch: "chain h (p_current_block p) (a # as)" "blks_ok h (a # as)"
    by (auto simp: parser_at_def)
  from ok have blen: "b_len b < 65536" "b_len b \<le> length (b_data b)"
    "uci_blk_has_header b \<Longrightarrow> 4 \<le> b_len b"
    by (simp_all add: blk_ok_def)
  have q_le: "p_offset ?q \<le> b_len b"
    using le blen by (auto simp: skip_header_def)
  have q_rest: "blk_rest b (p_offset p) = drop (p_offset ?q) (take (b_len b) (b_data b))"
    by (auto simp: skip_header_def blk_rest_def)
  have q_rem: "p_current_remaining_len ?q = p_offset ?q + R"
    using rem small by (auto simp: skip_header_def size_add_def size_modulus_def)
  have len_rest: "length (blk_rest b (p_offset p)) = b_len b - p_offset ?q"
    using q_rest blen by simp
  have k_bs: "?k \<le> length bs"
    using bs len_rest by simp
  have eq: "take_from_block a b ?q n =
      (?k, Some (a, p_offset ?q), ?q\<lparr>p_offset := p_offset ?q + ?k\<rparr>)"
    using q_le blen by (auto simp: take_from_block_def Let_def min_def)
  have rd: "read_chunk h (Some (a, p_offset ?q)) ?k = Some (take ?k bs)"
  proof -
    have "take ?k bs = take ?k (drop (p_offset ?q) (take (b_len b) (b_data b)))"
      using bs q_rest len_rest by simp
    also have "\<dots> = take ?k (drop (p_offset ?q) (b_data b))"
      by (simp add: drop_take)
    finally have "take ?k bs = take ?k (drop (p_offset ?q) (b_data b))" .
    moreover have "p_offset ?q + ?k \<le> length (b_data b)"
      using q_le blen by linarith
    ultimately show ?thesis
      using a by (simp add: read_chunk_def read_buf_def)
  qed
  have rest': "drop ?k (blk_rest b (p_offset p)) @ payload h as = drop ?k bs"
    using bs len_rest by simp
  have pos: "blk_rest b (p_offset ?q + ?k) = drop ?k (blk_rest b (p_offset p))" if "0 < p_offset ?q + ?k"
    using that q_rest unfolding blk_rest_def [of b "p_offset ?q + ?k"]
    by (simp only: drop_drop add.commute [of ?k] neq0_conv [symmetric] if_False simp_thms)
  have pos0: "blk_rest b (p_offset ?q + ?k) = drop ?k (blk_rest b (p_offset p))" if "p_offset ?q + ?k = 0"
    using that q_rest by (auto simp: blk_rest_def skip_header_def split: if_splits)
  have cur: "p_current_block ?q = p_current_block p"
    by (simp add: skip_header_def)
  have at': "parser_at h (?q\<lparr>p_offset := p_offset ?q + ?k\<rparr>) (a # as) (drop ?k bs) (R - ?k)"
    using ch a cur q_rem q_le small rest' pos pos0 k_bs
    by (cases "p_offset ?q + ?k = 0") (auto simp: parser_at_def)
  show thesis
    by (rule that [OF eq _ k_bs rd at'])
      (use off n in \<open>auto simp: skip_header_def split: if_splits\<close>)
qed

lemma get_nocopy_at:
  assumes at: "parser_at h p as bs R" and n: "0 < n"
  obtains k chunk p' as' where
    "uci_message_get_nocopy h p n = Some (k, chunk, p')" "k \<le> n" "k \<le> length bs"
    "read_chunk h chunk k = Some (take k bs)" "parser_at h p' as' (drop k bs) (R - k)"
    "bs \<noteq> [] \<longrightarrow> n - k + parser_measure p' as' < n + parser_measure p as"
proof (cases as)
  case Nil
  with at have "p_current_block p = None" "bs = []" by (auto simp: parser_at_def)
  with at n show thesis
    by (intro that [of 0 None p as]) (auto simp: uci_message_get_nocopy_def read_chunk_def)
next
  case (Cons a as1)
  with at obtain b where a: "h a = Some b" and cur: "p_current_block p = Some a"
    and nx: "chain h (b_next b) as1" and ok: "blks_ok h as1"
    and le: "p_offset p \<le> b_len b" and bseq: "bs = blk_rest b (p_offset p) @ payload h as1"
    and rem: "p_current_remaining_len p = p_offset p + R"
    and small: "length bs \<le> R" "R < 65536 * 65536" and bok: "blk_ok b"
    by (auto simp: parser_at_def split: option.splits)
  show thesis
  proof (cases "b_len b \<le> p_offset p")
    case False
    have at1: "parser_at h p (a # as1) bs R" and off: "p_offset p < b_len b \<or> p_offset p = 0"
      using at Cons False by auto
    from take_from_block_rep [OF at1 a off n] obtain k off' p' where
      t: "take_from_block a b (skip_header b p) n = (k, Some (a, off'), p')"
      "k \<le> n" "k \<le> length bs" "read_chunk h (Some (a, off')) k = Some (take k bs)"
      "parser_at h p' (a # as1) (drop k bs) (R - k)"
      "k = 0 \<longrightarrow> uci_blk_has_header b \<and> p_offset p = 0 \<and> 0 < p_offset p' \<or> b_len b = 0"
      "p_offset p' = 0 \<longrightarrow> p_offset p = 0"
      by metis
    show thesis
      by (rule that [of k "Some (a, off')" p' "a # as1"])
        (use t a cur n Cons False in
          \<open>auto simp: uci_message_get_nocopy_def Let_def parser_measure_def\<close>)
  next
    case True
    let ?p = "next_block a b p"
    have "b_len b = p_offset p" using True le by simp
    then have "blk_rest b (p_offset p) = []"
      using bok by (auto simp: blk_rest_def blk_ok_def)
    with bseq have bs1: "bs = payload h as1" by simp
    have at1: "parser_at h ?p as1 bs R"
      using nx ok bs1 rem small \<open>b_len b = p_offset p\<close>
      by (cases as1) (auto simp: parser_at_def next_block_def blk_rest_0 blk_at_def split: option.splits)
    show thesis
    proof (cases as1)
      case Nil
      with nx have "b_next b = None" by simp
      with a cur n True at1 Nil Cons bs1 show thesis
        by (intro that [of 0 None ?p as1])
          (auto simp: uci_message_get_nocopy_def Let_def next_block_def read_chunk_def)
    next
      case as1: (Cons a1 as2)
      with nx ok obtain b1 where b1: "b_next b = Some a1" "h a1 = Some b1" "blk_ok b1"
        by (auto split: option.splits)
      have off: "p_offset ?p < b_len b1 \<or> p_offset ?p = 0"
        by (simp add: next_block_def)
      from take_from_block_rep [OF at1 [unfolded as1] b1(2) off n] obtain k off' p' where
        t: "take_from_block a1 b1 (skip_header b1 ?p) n = (k, Some (a1, off'), p')"
        "k \<le> n" "k \<le> length bs" "read_chunk h (Some (a1, off')) k = Some (take k bs)"
        "parser_at h p' (a1 # as2) (drop k bs) (R - k)"
        by metis
      show thesis
        by (rule that [of k "Some (a1, off')" p' "a1 # as2"])
          (use t a b1 cur n Cons as1 True in
            \<open>auto simp: uci_message_get_nocopy_def Let_def parser_measure_def next_block_def\<close>)
    qed
  qed
qed

section \<open>Reading and skipping\<close>

lemma message_get_loop_rep:
  "parser_at h p as bs (length bs) \<Longrightarrow>
   \<exists>p'. uci_message_get_loop h p n acc = Some (acc @ take n bs, p') \<and> parser_rep h p' (drop n bs)"
proof (induction "n + parser_measure p as" arbitrary: n p as bs acc rule: less_induct)
  case less
  note rem = remaining_at [OF less.prems]
  show ?case
  proof (cases "bs \<noteq> [] \<and> 0 < n")
    case False
    with rem less.prems show ?thesis
      by (subst uci_message_get_loop.simps) (auto simp: parser_rep_def)
  next
    case True
    then have n: "0 < n" by simp
    obtain k chunk p' as' where
      s: "uci_message_get_nocopy h p n = Some (k, chunk, p')" "k \<le> n" "k \<le> length bs"
      "read_chunk h chunk k = Some (take k bs)" "parser_at h p' as' (drop k bs) (length bs - k)"
      "bs \<noteq> [] \<longrightarrow> n - k + parser_measure p' as' < n + parser_measure p as"
      by (rule get_nocopy_at [OF less.prems n])
    have "n - k + parser_measure p' as' < n + parser_measure p as"
      using s(6) True by simp
    from less.hyps [OF this, of "drop k bs" "acc @ take k bs"] s(5) obtain p2 where
      IH: "uci_message_get_loop h p' (n - k) (acc @ take k bs) =
             Some (acc @ take k bs @ take (n - k) (drop k bs), p2)"
      "parser_rep h p2 (drop (n - k) (drop k bs))"
      by auto
    have tk: "take k bs @ take (n - k) (drop k bs) = take n bs"
      using s(2) by (metis le_add_diff_inverse take_add)
    have "uci_message_get_loop h p n acc = Some (acc @ take n bs, p2)"
      using True rem s(1,4) IH(1) tk by (subst uci_message_get_loop.simps) simp
    with IH(2) s(2) show ?thesis by simp
  qed
qed

lemma message_get_rep:
  "parser_rep h p bs \<Longrightarrow>
   \<exists>p'. uci_message_get h p n = Some (take n bs, p') \<and> parser_rep h p' (drop n bs)"
  unfolding parser_rep_def [of h p] uci_message_get_def
  using message_get_loop_rep [where acc = "[]"] by (metis append_Nil)

lemma message_skip_loop_rep:
  "parser_at h p as bs (length bs) \<Longrightarrow>
   \<exists>p'. uci_message_skip_loop h p n = Some (n - length bs, p') \<and> parser_rep h p' (drop n bs)"
proof (induction "n + parser_measure p as" arbitrary: n p as bs rule: less_induct)
  case less
  note rem = remaining_at [OF less.prems]
  show ?case
  proof (cases "bs \<noteq> [] \<and> 0 < n")
    case False
    with rem less.prems show ?thesis
      by (subst uci_message_skip_loop.simps) (auto simp: parser_rep_def)
  next
    case True
    then have n: "0 < n" by simp
    obtain k chunk p' as' where
      s: "uci_message_get_nocopy h p n = Some (k, chunk, p')" "k \<le> n" "k \<le> length bs"
      "read_chunk h chunk k = Some (take k bs)" "parser_at h p' as' (drop k bs) (length bs - k)"
      "bs \<noteq> [] \<longrightarrow> n - k + parser_measure p' as' < n + parser_measure p as"
      by (rule get_nocopy_at [OF less.prems n])
    have "n - k + parser_measure p' as' < n + parser_measure p as"
      using s(6) True by simp
    from less.hyps [OF this, of "drop k bs"] s(5) obtain p2 where
      IH: "uci_message_skip_loop h p' (n - k) = Some (n - k - length (drop k bs), p2)"
      "parser_rep h p2 (drop (n - k) (drop k bs))"
      by auto
    have "uci_message_skip_loop h p n = Some (n - length bs, p2)"
      using True rem s(1,2,3) IH(1) by (subst uci_message_skip_loop.simps) simp
    with IH(2) s(2) show ?thesis by simp
  qed
qed

lemma message_skip_rep:
  assumes "parser_rep h p bs"
  shows "\<exists>p'. uci_message_skip h p n = Some (min n (length bs), p') \<and> parser_rep h p' (drop n bs)"
proof -
  from assms obtain as where "parser_at h p as bs (length bs)"
    by (auto simp: parser_rep_def)
  from message_skip_loop_rep [OF this] obtain p' where
    "uci_message_skip_loop h p n = Some (n - length bs, p')" "parser_rep h p' (drop n bs)"
    by blast
  then show ?thesis by (auto simp: uci_message_skip_def min_def)
qed

text \<open>
  When the message announces more bytes than it carries and the caller asks for more than there
  are, the loop of \<^verbatim>\<open>uci_message_get\<close> never ends.
\<close>

definition overrun :: "heap \<Rightarrow> uci_message_parser \<Rightarrow> nat \<Rightarrow> bool" where
  "overrun h p n \<longleftrightarrow> (\<exists>as bs R. parser_at h p as bs R \<and> length bs < R \<and> length bs < n)"

lemma message_get_loop_overrun:
  assumes "uci_message_get_loop h p n acc = Some r"
  shows "\<not> overrun h p n"
proof (rule uci_message_get_loop.raw_induct [where P = "\<lambda>h p n acc r. \<not> overrun h p n", OF _ assms])
  fix f h p n acc r
  assume IH: "\<And>h p n acc r. f h p n acc = Some r \<Longrightarrow> \<not> overrun h p n"
    and eq: "(if 0 < uci_message_remaining p \<and> 0 < n
       then uci_message_get_nocopy h p n \<bind>
            (\<lambda>(read, chunk, parser). read_chunk h chunk read \<bind>
              (\<lambda>bs. f h parser (n - read) (acc @ bs)))
       else Some (acc, p)) = Some r"
  show "\<not> overrun h p n"
  proof
    assume "overrun h p n"
    then obtain as bs R where at: "parser_at h p as bs R" and R: "length bs < R" and n: "length bs < n"
      by (auto simp: overrun_def)
    obtain k chunk p' as' where
      s: "uci_message_get_nocopy h p n = Some (k, chunk, p')" "k \<le> n" "k \<le> length bs"
      "read_chunk h chunk k = Some (take k bs)" "parser_at h p' as' (drop k bs) (R - k)"
      using get_nocopy_at [OF at] n by (metis gr_implies_not0 not_gr0)
    have "f h p' (n - k) (acc @ take k bs) = Some r"
      using eq s(1,4) remaining_at [OF at] R n by simp
    then have "\<not> overrun h p' (n - k)" by (rule IH)
    moreover have "length (drop k bs) < R - k" "length (drop k bs) < n - k"
      using s(3) R n by auto
    ultimately show False using s(5) unfolding overrun_def by blast
  qed
qed

lemma message_get_overrun:
  "parser_at h p as bs R \<Longrightarrow> length bs < R \<Longrightarrow> length bs < n \<Longrightarrow> uci_message_get h p n = None"
  using message_get_loop_overrun [of h p n "[]"]
  by (cases "uci_message_get_loop h p n []") (auto simp: overrun_def uci_message_get_def)

section \<open>Scalars, byte strings and TLVs over the bytes left\<close>

lemma get_array_rep:
  assumes "parser_rep h p bs"
  shows "\<exists>p'. get_array h p n = Some (if n \<le> length bs then Some (take n bs) else None, p') \<and>
     parser_rep h p' (drop n bs)"
  using message_get_rep [OF assms, of n] by (auto simp: get_array_def)

lemma get_8bit_rep:
  assumes "parser_rep h p (x # bs)"
  shows "\<exists>p'. uci_message_get_8bit h p = Some (x, p') \<and> parser_rep h p' bs"
  using get_array_rep [OF assms, of 1]
  by (auto simp: uci_message_get_8bit_def uci_message_get_8bit_no_assert_def)

lemma get_8bit_empty:
  assumes "parser_rep h p []"
  shows "uci_message_get_8bit h p = None"
  using get_array_rep [OF assms, of 1]
  by (auto simp: uci_message_get_8bit_def uci_message_get_8bit_no_assert_def)

text \<open>The assembled scalars are the little-endian values of the bytes.\<close>

lemma list_of_length_2: "length d = 2 \<Longrightarrow> \<exists>a b. d = [a, b]"
  by (auto simp: numeral_2_eq_2 length_Suc_conv)

lemma le16_eq: "length d = 2 \<Longrightarrow> ucast (d ! 0) OR push_bit 8 (ucast (d ! 1)) = (le_value d :: 16 word)"
  by (auto dest!: list_of_length_2)

lemma le32_at_eq: "i + 4 \<le> length d \<Longrightarrow> le32_at d i = le_value (take 4 (drop i d))"
  by (simp add: le32_at_def take_Suc_conv_app_nth numeral_eq_Suc push_bit_or push_bit_push_bit or.assoc)

lemma join64_le_value:
  "length d = 4 \<Longrightarrow> length e \<le> 4 \<Longrightarrow> join64 (le_value d) (le_value e) = (le_value (d @ e) :: 64 word)"
proof (rule bit_word_eqI)
  fix n
  assume len: "length d = 4" "length e \<le> 4" and "n < LENGTH(64)"
  show "bit (join64 (le_value d) (le_value e)) n \<longleftrightarrow> bit (le_value (d @ e) :: 64 word) n"
  proof (cases "n < 32")
    case True
    with len show ?thesis
      by (auto simp: join64_def bit_simps bit_le_value nth_append)
  next
    case False
    then obtain m where n: "n = m + 32" by (metis add.commute le_Suc_ex not_less)
    have "(m + 32) div 8 = m div 8 + 4" "(m + 32) mod 8 = m mod 8"
      using div_mult_self2 [of 8 m 4] mod_mult_self2 [of m 8 4] by simp_all
    with len show ?thesis
      by (auto simp: n join64_def bit_simps bit_le_value nth_append)
  qed
qed

lemma get_16bit_rep:
  assumes "parser_rep h p bs" and "2 \<le> length bs"
  shows "\<exists>p'. uci_message_get_16bit h p = Some (le_value (take 2 bs), p') \<and> parser_rep h p' (drop 2 bs)"
  using get_array_rep [OF assms(1), of 2] assms(2) le16_eq [of "take 2 bs"]
  by (auto simp: uci_message_get_16bit_def uci_message_get_16bit_no_assert_def)

lemma get_32bit_no_assert_rep:
  assumes "parser_rep h p bs"
  shows "\<exists>p'. uci_message_get_32bit_no_assert h p v =
       Some (4 \<le> length bs, if 4 \<le> length bs then le_value (take 4 bs) else v, p') \<and>
     parser_rep h p' (drop 4 bs)"
  using get_array_rep [OF assms, of 4] le32_at_eq [of 0 "take 4 bs"]
  by (auto simp: uci_message_get_32bit_no_assert_def)

lemma get_32bit_rep:
  assumes "parser_rep h p bs" and "4 \<le> length bs"
  shows "\<exists>p'. uci_message_get_32bit h p = Some (le_value (take 4 bs), p') \<and> parser_rep h p' (drop 4 bs)"
  using get_32bit_no_assert_rep [OF assms(1), of "0xDEADBEEF"] assms(2)
  by (auto simp: uci_message_get_32bit_def)

lemma le40_eq: "length d = 5 \<Longrightarrow> join64 (le32_at d 0) (ucast (d ! 4)) = le_value d"
proof -
  assume len: "length d = 5"
  then have d: "d = take 4 d @ [d ! 4]"
    by (metis Suc_1 Suc_eq_numeral add_2_eq_Suc' eval_nat_numeral(3) lessI numeral_3_eq_3
        numeral_nat(2) order_refl take_Suc_conv_app_nth take_all)
  have "le_value [d ! 4] = (ucast (d ! 4) :: 32 word)" by simp
  with len join64_le_value [of "take 4 d" "[d ! 4]"] d show ?thesis
    by (simp add: le32_at_eq)
qed

lemma le64_eq: "length d = 8 \<Longrightarrow> join64 (le32_at d 0) (le32_at d 4) = le_value d"
  using join64_le_value [of "take 4 d" "drop 4 d"] by (simp add: le32_at_eq)

lemma get_40bit_rep:
  assumes "parser_rep h p bs" and "5 \<le> length bs"
  shows "\<exists>p'. uci_message_get_40bit h p = Some (le_value (take 5 bs), p') \<and> parser_rep h p' (drop 5 bs)"
  using get_array_rep [OF assms(1), of 5] assms(2) le40_eq [of "take 5 bs"]
  by (auto simp: uci_message_get_40bit_def uci_message_get_40bit_no_assert_def)

lemma get_64bit_rep:
  assumes "parser_rep h p bs" and "8 \<le> length bs"
  shows "\<exists>p'. uci_message_get_64bit h p = Some (le_value (take 8 bs), p') \<and> parser_rep h p' (drop 8 bs)"
  using get_array_rep [OF assms(1), of 8] assms(2) le64_eq [of "take 8 bs"]
  by (auto simp: uci_message_get_64bit_def uci_message_get_64bit_no_assert_def)

text \<open>Length-prefixed data, as a function of the bytes left.\<close>

fun get_bytes_spec :: "bytes \<Rightarrow> bytes \<Rightarrow> nat \<Rightarrow> nat \<Rightarrow> int \<times> bytes \<times> nat \<times> bytes" where
  "get_bytes_spec [] dst len0 capacity = (UCI_STATUS_SYNTAX_ERROR, dst, len0, [])"
| "get_bytes_spec (l # bs) dst len0 capacity =
     (if unat l > capacity \<or> length bs < unat l then (UCI_STATUS_SYNTAX_ERROR, dst, unat l, bs)
      else (UCI_STATUS_OK, take (unat l) bs @ drop (unat l) dst, unat l, drop (unat l) bs))"

lemma get_bytes_spec_OK:
  "get_bytes_spec bs dst len0 capacity = (UCI_STATUS_OK, dst1, l, bs') \<Longrightarrow>
   \<exists>c rest. bs = c # rest \<and> l = unat c \<and> unat c \<le> capacity \<and> unat c \<le> length rest \<and>
     dst1 = take (unat c) rest @ drop (unat c) dst \<and> bs' = drop (unat c) rest"
  by (cases bs) (auto split: if_splits)

lemma get_bytes_rep:
  assumes rep: "parser_rep h p bs" and cap: "capacity \<le> length dst"
  shows "case get_bytes_spec bs dst len0 capacity of (st, dst', l, bs') \<Rightarrow>
     \<exists>p'. uci_message_get_bytes h p dst len0 capacity = Some (st, dst', l, p') \<and> parser_rep h p' bs'"
proof (cases bs)
  case Nil
  with rep remaining_rep [OF rep] show ?thesis
    by (simp add: uci_message_get_bytes_def)
next
  case (Cons l bs1)
  obtain p1 where p1: "uci_message_get_8bit h p = Some (l, p1)" "parser_rep h p1 bs1"
    using get_8bit_rep rep Cons by blast
  obtain p2 where p2: "uci_message_get h p1 (unat l) = Some (take (unat l) bs1, p2)"
    "parser_rep h p2 (drop (unat l) bs1)"
    using message_get_rep [OF p1(2)] by blast
  show ?thesis
    using Cons p1 p2 cap remaining_rep [OF rep] remaining_rep [OF p1(2)]
    by (auto simp: uci_message_get_bytes_def write_buf_def Let_def)
qed

text \<open>
  A string is accepted when it is not empty, fits with its terminator and does not start with a
  NUL; then the destination holds it, terminated.
\<close>

lemma get_string_rep:
  assumes rep: "parser_rep h p bs" and cap: "0 < capacity" "capacity \<le> length dst"
  obtains st dst' p' where
    "uci_message_get_string h p dst capacity = Some (st, dst', p')" "length dst' = length dst"
    "st = UCI_STATUS_OK \<longrightarrow>
       (\<exists>l rest. bs = l # rest \<and> 0 < unat l \<and> unat l < capacity \<and> unat l \<le> length rest \<and>
          take (Suc (unat l)) dst' = take (unat l) rest @ [0] \<and> rest ! 0 \<noteq> 0 \<and>
          parser_rep h p' (drop (unat l) rest))"
    "st \<noteq> UCI_STATUS_OK \<longrightarrow> st = UCI_STATUS_SYNTAX_ERROR \<and> dst' ! 0 = 0"
proof -
  have cap1: "size_sub capacity 1 = capacity - 1" "capacity - 1 \<le> length dst"
    using cap by auto
  obtain st dst1 l bs' where spec: "get_bytes_spec bs dst 0 (capacity - 1) = (st, dst1, l, bs')"
    by (metis prod.exhaust)
  with get_bytes_rep [OF rep cap1(2), of 0] obtain p' where
    p': "uci_message_get_bytes h p dst 0 (capacity - 1) = Some (st, dst1, l, p')" "parser_rep h p' bs'"
    by auto
  have st: "st = UCI_STATUS_OK \<or> st = UCI_STATUS_SYNTAX_ERROR"
    using spec by (cases bs) (auto split: if_splits)
  have len1: "length dst1 = length dst"
    using spec cap by (cases bs) (auto split: if_splits)
  let ?l = "if st \<noteq> 0 then 0 else l"
  let ?dst = "take ?l dst1 @ [0] @ drop (Suc ?l) dst1"
  have l: "?l < length dst"
    using spec cap by (cases bs) (auto split: if_splits)
  have w: "write_buf dst1 ?l [0] = Some ?dst"
    using l len1 by (simp add: write_buf_def)
  have r: "read_buf ?dst 0 1 = Some [?dst ! 0]"
  proof (cases ?dst)
    case (Cons x xs)
    show ?thesis unfolding Cons by (simp add: read_buf_def)
  qed simp
  let ?st = "if ?dst ! 0 = 0 then UCI_STATUS_SYNTAX_ERROR else st"
  have run: "uci_message_get_string h p dst capacity = Some (?st, ?dst, p')"
    unfolding uci_message_get_string_def cap1(1) p'(1) using w r by (simp add: Let_def)
  have ldst: "length ?dst = length dst"
    using l len1 by simp
  show thesis
  proof (rule that [OF run ldst])
    show "?st = UCI_STATUS_OK \<longrightarrow>
       (\<exists>l rest. bs = l # rest \<and> 0 < unat l \<and> unat l < capacity \<and> unat l \<le> length rest \<and>
          take (Suc (unat l)) ?dst = take (unat l) rest @ [0] \<and> rest ! 0 \<noteq> 0 \<and>
          parser_rep h p' (drop (unat l) rest))"
    proof
      assume ok: "?st = UCI_STATUS_OK"
      then have nz: "?dst ! 0 \<noteq> 0" and st0: "st = 0" by (auto split: if_splits)
      from get_bytes_spec_OK [OF spec [unfolded st0]] obtain c rest where bs: "bs = c # rest"
        and l: "l = unat c" and c: "unat c \<le> capacity - 1" "unat c \<le> length rest"
        and dst1: "dst1 = take (unat c) rest @ drop (unat c) dst" and bs': "bs' = drop (unat c) rest"
        by blast
      have pos: "0 < unat c" using nz st0 l by (cases "unat c") auto
      have tk: "take (Suc (unat c)) ?dst = take (unat c) rest @ [0]"
        using st0 l c dst1 by simp
      then have "?dst ! 0 = rest ! 0"
        by (metis (no_types, lifting) c(2) length_take min.absorb2 nth_append nth_take pos zero_less_Suc)
      with nz pos tk c cap bs p'(2) bs' show "\<exists>l rest. bs = l # rest \<and> 0 < unat l \<and> unat l < capacity \<and> unat l \<le> length rest \<and>
          take (Suc (unat l)) ?dst = take (unat l) rest @ [0] \<and> rest ! 0 \<noteq> 0 \<and>
          parser_rep h p' (drop (unat l) rest)"
        by (intro exI [of _ c] exI [of _ rest]) simp
    qed
    show "?st \<noteq> UCI_STATUS_OK \<longrightarrow> ?st = UCI_STATUS_SYNTAX_ERROR \<and> ?dst ! 0 = 0"
      using st by auto
  qed
qed

text \<open>The type and length of a TLV, as a function of the bytes left.\<close>

fun read_tlv_spec :: "byte \<Rightarrow> byte \<Rightarrow> bytes \<Rightarrow> int \<times> byte \<times> byte \<times> bytes" where
  "read_tlv_spec t0 l0 (t # l # rest) =
     (if extended_type t then
        (case rest of
           [] \<Rightarrow> (UCI_STATUS_SYNTAX_ERROR, t, l0, [l])
         | l' # rest' \<Rightarrow>
             (if length rest' < unat l' then UCI_STATUS_SYNTAX_ERROR else UCI_STATUS_INVALID_PARAM,
              t, l', rest'))
      else (if length rest < unat l then UCI_STATUS_SYNTAX_ERROR else UCI_STATUS_OK, t, l, rest))"
| "read_tlv_spec t0 l0 bs = (UCI_STATUS_SYNTAX_ERROR, t0, l0, bs)"

lemma read_tlv_rep:
  assumes rep: "parser_rep h p bs"
  shows "case read_tlv_spec t0 l0 bs of (st, t, l, bs') \<Rightarrow>
     \<exists>p'. uci_read_tlv h p t0 l0 = Some (st, t, l, p') \<and> parser_rep h p' bs'"
proof (cases "length bs < 2")
  case True
  then have "read_tlv_spec t0 l0 bs = (UCI_STATUS_SYNTAX_ERROR, t0, l0, bs)"
    by (cases bs rule: remdups_adj.cases) auto
  with True rep remaining_rep [OF rep] show ?thesis
    by (simp add: uci_read_tlv_def)
next
  case False
  then obtain t l rest where bs: "bs = t # l # rest"
    by (cases bs rule: remdups_adj.cases) auto
  obtain p1 where p1: "uci_message_get_8bit h p = Some (t, p1)" "parser_rep h p1 (l # rest)"
    using get_8bit_rep rep bs by blast
  note rem = remaining_rep [OF rep] remaining_rep [OF p1(2)]
  show ?thesis
  proof (cases "extended_type t")
    case ext: False
    obtain p2 where p2: "uci_message_get_8bit h p1 = Some (l, p2)" "parser_rep h p2 rest"
      using get_8bit_rep p1(2) by blast
    with ext bs p1 rem remaining_rep [OF p2(2)] show ?thesis
      by (simp add: uci_read_tlv_def)
  next
    case ext: True
    show ?thesis
    proof (cases rest)
      case Nil
      with ext bs p1 rem show ?thesis by (simp add: uci_read_tlv_def)
    next
      case (Cons l' rest')
      obtain p2 where p2: "uci_message_skip h p1 1 = Some (1, p2)" "parser_rep h p2 (l' # rest')"
        using message_skip_rep [OF p1(2), of 1] Cons by auto
      obtain p3 where p3: "uci_message_get_8bit h p2 = Some (l', p3)" "parser_rep h p3 rest'"
        using get_8bit_rep p2(2) by blast
      with ext bs p1 p2 rem Cons remaining_rep [OF p3(2)] show ?thesis
        by (simp add: uci_read_tlv_def)
    qed
  qed
qed

end
