(* ===== verification/Uci_Builder.thy ===== *)
theory Uci_Builder
  imports Uci_Alloc
begin

text \<open>
  The message builder (\<^verbatim>\<open>struct uci_message_builder\<close> of \<^verbatim>\<open>uci_message.h\<close> and its operations
  in \<^verbatim>\<open>uci_message.h\<close> and \<^verbatim>\<open>uci_message.c\<close>). The builder allocates blocks as data is added,
  reserving room for a packet header in front of every 255 bytes of payload. The \<open>uci\<close> pointer
  of the C structure is only used for its allocator, which is the argument \<open>A\<close> here.
\<close>

section \<open>Operations\<close>

record uci_message_builder =
  mb_message :: "ptr option"
  mb_current_block :: "ptr option"
  mb_first_errno :: int
  mb_elems_nr :: "(ptr \<times> nat) option"
  mb_expected_packet_size :: nat
  mb_alloc_flags :: byte

definition UCI_MESSAGE_BUILDER_INITIALIZER_WITH_SIZE :: "nat \<Rightarrow> uci_message_builder" where
  "UCI_MESSAGE_BUILDER_INITIALIZER_WITH_SIZE expected_packet_size =
     \<lparr>mb_message = None, mb_current_block = None, mb_first_errno = 0, mb_elems_nr = None,
      mb_expected_packet_size = expected_packet_size, mb_alloc_flags = 0\<rparr>"

definition uci_message_builder_init :: uci_message_builder where
  "uci_message_builder_init =
     \<lparr>mb_message = None, mb_current_block = None, mb_first_errno = 0, mb_elems_nr = None,
      mb_expected_packet_size = UCI_MAX_PACKET_SIZE, mb_alloc_flags = 0\<rparr>"

definition uci_message_failed :: "uci_message_builder \<Rightarrow> int" where
  "uci_message_failed builder = mb_first_errno builder"

definition alloc_blk_with_header ::
    "uci_allocator_ops \<Rightarrow> mem \<Rightarrow> uci_message_builder \<Rightarrow> nat \<Rightarrow> (ptr option \<times> mem) option" where
  "alloc_blk_with_header A m builder data_len =
     (let size_needed = size_add UCI_PACKET_HEADER_SIZE data_len;
          size_ask = (if mb_expected_packet_size builder > size_needed
                      then mb_expected_packet_size builder else size_needed)
      in do {
        (b, m) \<leftarrow> uci_blk_alloc A m size_ask (mb_alloc_flags builder);
        case b of
          None \<Rightarrow> Some (None, m)
        | Some p \<Rightarrow>
            do {
              blk \<leftarrow> heap m p;
              if b_size blk < UCI_PACKET_HEADER_SIZE
              then do { m \<leftarrow> uci_blk_free_all A m (Some p); Some (None, m) }
              else Some (Some p, put_blk m p
                     (blk\<lparr>b_flags := b_flags blk OR UCI_BLK_FLAGS_HEADER_RESERVED,
                          b_len := UCI_PACKET_HEADER_SIZE, b_total_len := 0\<rparr>))
            }
      })"

definition uci_message_validate_builder ::
    "uci_allocator_ops \<Rightarrow> mem \<Rightarrow> uci_message_builder \<Rightarrow> (int \<times> mem \<times> uci_message_builder) option" where
  "uci_message_validate_builder A m builder =
     (if mb_first_errno builder \<noteq> UCI_STATUS_OK then Some (mb_first_errno builder, m, builder)
      else if mb_message builder \<noteq> None then Some (UCI_STATUS_OK, m, builder)
      else do {
        (b, m) \<leftarrow> alloc_blk_with_header A m builder 0;
        Some (if b = None then UCI_STATUS_FAILED else UCI_STATUS_OK, m, builder\<lparr>mb_message := b\<rparr>)
      })"

text \<open>\<open>p->next = q\<close> for a pointer that may be NULL or dangling.\<close>

definition set_next :: "mem \<Rightarrow> ptr option \<Rightarrow> ptr option \<Rightarrow> mem option" where
  "set_next m p q = do { p \<leftarrow> p; b \<leftarrow> heap m p; Some (put_blk m p (b\<lparr>b_next := q\<rparr>)) }"

definition blk_of :: "mem \<Rightarrow> ptr option \<Rightarrow> uci_blk option" where
  "blk_of m p = do { p \<leftarrow> p; heap m p }"

definition builder_packet_len :: "mem \<Rightarrow> uci_message_builder \<Rightarrow> nat option" where
  "builder_packet_len m builder =
     do { total_len \<leftarrow> (case mb_message builder of
            None \<Rightarrow> Some 0
          | Some p \<Rightarrow> map_option b_total_len (heap m p));
          Some (total_len mod UCI_MAX_CONTROL_PAYLOAD_SIZE) }"

text \<open>
  The block the next bytes go to: a fresh one with a reserved header when the current packet is
  full or there is none yet, a fresh one without header when the current block is full, the
  current one otherwise; NULL when an allocation fails.
\<close>

definition builder_next_block ::
    "uci_allocator_ops \<Rightarrow> mem \<Rightarrow> uci_message_builder \<Rightarrow> nat \<Rightarrow>
     (ptr option \<times> mem \<times> uci_message_builder) option" where
  "builder_next_block A m builder packet_len =
     (if packet_len = 0 then
        do {
          (c, m) \<leftarrow> alloc_blk_with_header A m builder
                     (size_sub (mb_expected_packet_size builder) UCI_PACKET_HEADER_SIZE);
          if c = None then Some (None, m, builder)
          else if mb_message builder = None
          then Some (c, m, builder\<lparr>mb_message := c, mb_current_block := c\<rparr>)
          else do {
            m \<leftarrow> set_next m (mb_current_block builder) c;
            Some (c, m, builder\<lparr>mb_current_block := c\<rparr>)
          }
        }
      else
        do {
          cb \<leftarrow> blk_of m (mb_current_block builder);
          if b_size cb = b_len cb then
            do {
              (c, m) \<leftarrow> uci_blk_alloc A m (mb_expected_packet_size builder) (mb_alloc_flags builder);
              if c = None then Some (None, m, builder)
              else do {
                m \<leftarrow> set_next m (mb_current_block builder) c;
                Some (c, m, builder\<lparr>mb_current_block := c\<rparr>)
              }
            }
          else Some (mb_current_block builder, m, builder)
        })"

definition get_remaining ::
    "uci_allocator_ops \<Rightarrow> mem \<Rightarrow> uci_message_builder \<Rightarrow> nat \<Rightarrow> (nat \<times> mem \<times> uci_message_builder) option" where
  "get_remaining A m builder data_len =
     do {
       packet_len \<leftarrow> builder_packet_len m builder;
       (c, m, builder) \<leftarrow> builder_next_block A m builder packet_len;
       if c = None then Some (0, m, builder)
       else do {
         cb \<leftarrow> blk_of m c;
         let remaining = size_sub (b_size cb) (b_len cb);
         Some (if UCI_MAX_CONTROL_PAYLOAD_SIZE - packet_len < remaining
               then UCI_MAX_CONTROL_PAYLOAD_SIZE - packet_len else remaining, m, builder)
       }
     }"

text \<open>
  The result is the returned integer, the place of the reserved bytes, and the new memory and
  builder. The builder and the \<open>data\<close> pointer are not NULL in any call.
\<close>

definition uci_message_put_nocopy ::
    "uci_allocator_ops \<Rightarrow> mem \<Rightarrow> uci_message_builder \<Rightarrow> nat \<Rightarrow>
     (int \<times> (ptr \<times> nat) option \<times> mem \<times> uci_message_builder) option" where
  "uci_message_put_nocopy A m builder sz =
     (if mb_first_errno builder \<noteq> 0 then Some (- mb_first_errno builder, None, m, builder)
      else if sz = 0 then
        Some (- UCI_STATUS_INVALID_PARAM, None, m, builder\<lparr>mb_first_errno := UCI_STATUS_INVALID_PARAM\<rparr>)
      else do {
        (remaining, m, builder) \<leftarrow> get_remaining A m builder sz;
        if remaining = 0 then
          Some (- UCI_STATUS_FAILED, None, m, builder\<lparr>mb_first_errno := UCI_STATUS_FAILED\<rparr>)
        else do {
          let sz = (if sz > remaining then remaining else sz);
          c \<leftarrow> mb_current_block builder;
          cb \<leftarrow> heap m c;
          msg \<leftarrow> mb_message builder;
          mb \<leftarrow> heap m msg;
          let m = put_blk m msg (mb\<lparr>b_total_len := u16 (b_total_len mb + sz)\<rparr>);
          cb' \<leftarrow> heap m c;
          Some (int sz, Some (c, b_len cb), put_blk m c (cb'\<lparr>b_len := u16 (b_len cb' + sz)\<rparr>), builder)
        }
      })"

definition write_chunk :: "mem \<Rightarrow> (ptr \<times> nat) option \<Rightarrow> bytes \<Rightarrow> mem option" where
  "write_chunk m chunk xs =
     do { (c, off) \<leftarrow> chunk; b \<leftarrow> heap m c; d \<leftarrow> write_buf (b_data b) off xs;
          Some (put_blk m c (b\<lparr>b_data := d\<rparr>)) }"

definition read_elem :: "mem \<Rightarrow> ptr \<times> nat \<Rightarrow> byte option" where
  "read_elem m e = do { b \<leftarrow> heap m (fst e); d \<leftarrow> read_buf (b_data b) (snd e) 1; Some (d ! 0) }"

definition incr_elems_nr :: "mem \<Rightarrow> uci_message_builder \<Rightarrow> mem option" where
  "incr_elems_nr m builder =
     (case mb_elems_nr builder of
        None \<Rightarrow> Some m
      | Some e \<Rightarrow> do { v \<leftarrow> read_elem m e; write_chunk m (Some e) [v + 1] })"

partial_function (option) uci_message_put ::
    "uci_allocator_ops \<Rightarrow> mem \<Rightarrow> uci_message_builder \<Rightarrow> bytes \<Rightarrow>
     (int \<times> mem \<times> uci_message_builder) option" where
  "uci_message_put A m builder data =
     (if length data > 0 then
        do {
          (reserved, current, m, builder) \<leftarrow> uci_message_put_nocopy A m builder (length data);
          if reserved \<le> 0 then Some (mb_first_errno builder, m, builder)
          else do {
            m \<leftarrow> write_chunk m current (take (nat reserved) data);
            uci_message_put A m builder (drop (nat reserved) data)
          }
        }
      else do { m \<leftarrow> incr_elems_nr m builder; Some (0, m, builder) })"

definition uci_message_put_8bit where
  "uci_message_put_8bit A m builder (data :: byte) = uci_message_put A m builder [data]"

definition uci_message_put_16bit where
  "uci_message_put_16bit A m builder (data :: 16 word) =
     uci_message_put A m builder [ucast data, ucast (drop_bit 8 data)]"

definition uci_message_put_32bit where
  "uci_message_put_32bit A m builder (data :: 32 word) =
     uci_message_put A m builder
       [ucast data, ucast (drop_bit 8 data), ucast (drop_bit 16 data), ucast (drop_bit 24 data)]"

definition uci_message_put_40bit where
  "uci_message_put_40bit A m builder (data :: 64 word) =
     uci_message_put A m builder
       [ucast data, ucast (drop_bit 8 data), ucast (drop_bit 16 data), ucast (drop_bit 24 data),
        ucast (drop_bit 32 data)]"

definition uci_message_put_48bit where
  "uci_message_put_48bit A m builder (data :: 64 word) =
     uci_message_put A m builder
       [ucast data, ucast (drop_bit 8 data), ucast (drop_bit 16 data), ucast (drop_bit 24 data),
        ucast (drop_bit 32 data), ucast (drop_bit 40 data)]"

definition uci_message_put_64bit where
  "uci_message_put_64bit A m builder (data :: 64 word) =
     uci_message_put A m builder
       [ucast data, ucast (drop_bit 8 data), ucast (drop_bit 16 data), ucast (drop_bit 24 data),
        ucast (drop_bit 32 data), ucast (drop_bit 40 data), ucast (drop_bit 48 data),
        ucast (drop_bit 56 data)]"

text \<open>The place of the \<open>n\<close> bytes just written, as the \<open>reserve\<close> functions return it.\<close>

definition last_written :: "mem \<Rightarrow> uci_message_builder \<Rightarrow> nat \<Rightarrow> (ptr \<times> nat) option option" where
  "last_written m builder n =
     (if uci_message_failed builder \<noteq> 0 then Some None
      else do { c \<leftarrow> mb_current_block builder; b \<leftarrow> heap m c;
                if n \<le> b_len b then Some (Some (c, b_len b - n)) else None })"

definition uci_message_reserve_8bit where
  "uci_message_reserve_8bit A m builder (data :: byte) =
     do { (r, m, builder) \<leftarrow> uci_message_put_8bit A m builder data;
          p \<leftarrow> last_written m builder 1; Some (p, m, builder) }"

definition uci_message_reserve_16bit where
  "uci_message_reserve_16bit A m builder (data :: 16 word) =
     do { (r, m, builder) \<leftarrow> uci_message_put_16bit A m builder data;
          p \<leftarrow> last_written m builder 2; Some (p, m, builder) }"

definition uci_message_reserve_32bit where
  "uci_message_reserve_32bit A m builder (data :: 32 word) =
     do { (r, m, builder) \<leftarrow> uci_message_put_32bit A m builder data;
          p \<leftarrow> last_written m builder 4; Some (p, m, builder) }"

definition uci_message_start_nest ::
    "uci_allocator_ops \<Rightarrow> mem \<Rightarrow> uci_message_builder \<Rightarrow>
     (uci_message_builder \<times> mem \<times> uci_message_builder) option" where
  "uci_message_start_nest A m builder =
     do {
       (r, m, builder) \<leftarrow> uci_message_put_8bit A m builder 0;
       c \<leftarrow> mb_current_block builder;
       b \<leftarrow> heap m c;
       if b_len b = 0 then None
       else Some (builder\<lparr>mb_elems_nr := Some (c, b_len b - 1)\<rparr>, m, builder)
     }"

definition uci_message_end_nest :: "uci_message_builder \<Rightarrow> uci_message_builder \<Rightarrow> uci_message_builder" where
  "uci_message_end_nest builder payload_builder =
     payload_builder\<lparr>mb_elems_nr := mb_elems_nr builder\<rparr>"

definition uci_message_nest_get_elems_nr :: "mem \<Rightarrow> uci_message_builder \<Rightarrow> byte option" where
  "uci_message_nest_get_elems_nr m builder =
     (case mb_elems_nr builder of None \<Rightarrow> Some 0 | Some e \<Rightarrow> read_elem m e)"

definition uci_message_nest_set_elems_nr :: "mem \<Rightarrow> uci_message_builder \<Rightarrow> byte \<Rightarrow> mem option" where
  "uci_message_nest_set_elems_nr m builder elems_nr =
     (case mb_elems_nr builder of None \<Rightarrow> Some m | Some e \<Rightarrow> write_chunk m (Some e) [elems_nr])"

definition uci_message_put_blk ::
    "mem \<Rightarrow> uci_message_builder \<Rightarrow> ptr option \<Rightarrow> (mem \<times> uci_message_builder) option" where
  "uci_message_put_blk m builder blk =
     (if blk = None then Some (m, builder)
      else if mb_message builder = None
      then Some (m, builder\<lparr>mb_message := blk, mb_current_block := blk\<rparr>)
      else do {
        m \<leftarrow> set_next m (mb_current_block builder) blk;
        msg \<leftarrow> mb_message builder;
        mb \<leftarrow> heap m msg;
        b \<leftarrow> blk_of m blk;
        Some (put_blk m msg (mb\<lparr>b_total_len := u16 (b_total_len mb + b_len b)\<rparr>),
              builder\<lparr>mb_current_block := blk\<rparr>)
      })"

definition uci_message_put_bytes ::
    "uci_allocator_ops \<Rightarrow> mem \<Rightarrow> uci_message_builder \<Rightarrow> bytes \<Rightarrow> (mem \<times> uci_message_builder) option" where
  "uci_message_put_bytes A m builder data =
     (if length data > 255 then Some (m, builder\<lparr>mb_first_errno := UCI_STATUS_FAILED\<rparr>)
      else do {
        (r, m, builder) \<leftarrow> uci_message_put_8bit A m builder (word_of_nat (length data));
        (r, m, builder) \<leftarrow> uci_message_put A m builder data;
        Some (m, builder)
      })"

text \<open>\<open>str\<close> is the memory from the pointer on; the string ends at the first NUL or at \<open>maxlen\<close>.\<close>

definition uci_message_put_string ::
    "uci_allocator_ops \<Rightarrow> mem \<Rightarrow> uci_message_builder \<Rightarrow> bytes \<Rightarrow> nat \<Rightarrow> (mem \<times> uci_message_builder) option" where
  "uci_message_put_string A m builder str maxlen =
     uci_message_put_bytes A m builder (takeWhile (\<lambda>c. c \<noteq> 0) (take maxlen str))"

section \<open>What a builder represents\<close>

text \<open>
  \<open>layout h k as\<close>: the blocks \<open>as\<close>, of which the first starts at payload byte \<open>k\<close> of the
  message, are cut into packets: a block has a header exactly where a packet starts, at the
  multiples of 255, and no block runs over the end of a packet.
\<close>

definition plen :: "uci_blk \<Rightarrow> nat" where
  "plen b = length (blk_payload b)"

primrec layout :: "heap \<Rightarrow> nat \<Rightarrow> ptr list \<Rightarrow> bool" where
  "layout h k [] \<longleftrightarrow> True"
| "layout h k (a # as) \<longleftrightarrow>
     (case h a of None \<Rightarrow> False | Some b \<Rightarrow>
        (uci_blk_has_header b \<longleftrightarrow> k mod UCI_MAX_CONTROL_PAYLOAD_SIZE = 0) \<and>
        k mod UCI_MAX_CONTROL_PAYLOAD_SIZE + plen b \<le> UCI_MAX_CONTROL_PAYLOAD_SIZE \<and>
        layout h (k + plen b) as)"

text \<open>A block a builder may own: inside its buffer, and returned to the allocator when freed.\<close>

definition own_blk :: "uci_blk \<Rightarrow> bool" where
  "own_blk b \<longleftrightarrow> blk_ok b \<and> b_size b = length (b_data b) \<and> b_size b < 65536 \<and> allocator_owned b"

definition own_blks :: "heap \<Rightarrow> ptr list \<Rightarrow> bool" where
  "own_blks h as \<longleftrightarrow> (\<forall>a \<in> set as. \<exists>b. h a = Some b \<and> own_blk b)"

definition total_is :: "heap \<Rightarrow> ptr option \<Rightarrow> nat \<Rightarrow> bool" where
  "total_is h p n \<longleftrightarrow> (case p of None \<Rightarrow> n = 0 | Some a \<Rightarrow> \<exists>b. h a = Some b \<and> b_total_len b = n)"

definition last_ptr :: "ptr list \<Rightarrow> ptr option" where
  "last_ptr as = (if as = [] then None else Some (last as))"

text \<open>The chain \<open>as\<close> is a message with payload \<open>bs\<close>, cut into packets.\<close>

definition message_rep :: "heap \<Rightarrow> ptr option \<Rightarrow> ptr list \<Rightarrow> bytes \<Rightarrow> bool" where
  "message_rep h p as bs \<longleftrightarrow> chain h p as \<and> own_blks h as \<and> layout h 0 as \<and>
     payload h as = bs \<and> total_is h p (length bs)"

definition builder_rep :: "mem \<Rightarrow> uci_message_builder \<Rightarrow> ptr list \<Rightarrow> bytes \<Rightarrow> bool" where
  "builder_rep m builder as bs \<longleftrightarrow> message_rep (heap m) (mb_message builder) as bs \<and>
     mb_current_block builder = last_ptr as \<and> mb_alloc_flags builder AND 7 = 0"

text \<open>No block was allocated in vain.\<close>

definition no_empty :: "heap \<Rightarrow> ptr list \<Rightarrow> bool" where
  "no_empty h as \<longleftrightarrow> (\<forall>a \<in> set as. blk_at h a \<noteq> [])"

text \<open>
  The rest of the memory is left alone, and the message only grows: blocks are added at its end, and
  bytes at the end of a block.
\<close>

definition grows :: "heap \<Rightarrow> ptr list \<Rightarrow> heap \<Rightarrow> ptr list \<Rightarrow> bool" where
  "grows h as h' as' \<longleftrightarrow> (\<exists>zs. as' = as @ zs) \<and> (\<forall>a \<in> set as. \<exists>ys. blk_at h' a = blk_at h a @ ys)"

definition frame :: "heap \<Rightarrow> ptr list \<Rightarrow> heap \<Rightarrow> ptr list \<Rightarrow> bool" where
  "frame h as h' as' \<longleftrightarrow> h |` (- set as) = h' |` (- set as') \<and> grows h as h' as'"

lemma frame_refl [simp]: "frame h as h as"
  by (simp add: frame_def grows_def)

lemma grows_trans: "grows h as h1 as1 \<Longrightarrow> grows h1 as1 h2 as2 \<Longrightarrow> grows h as h2 as2"
  unfolding grows_def by (elim conjE exE) (simp, metis UnI1 append.assoc)

lemma frame_trans: "frame h as h1 as1 \<Longrightarrow> frame h1 as1 h2 as2 \<Longrightarrow> frame h as h2 as2"
  unfolding frame_def by (auto intro: grows_trans)

lemma frame_upd_in:
  assumes a: "a \<in> set as'" and fr: "frame h as h' as'" and grow: "\<exists>ys. blk_at (h'(a := v)) a = blk_at h' a @ ys"
  shows "frame h as (h'(a := v)) as'"
proof -
  have "h'(a := v) |` (- set as') = h' |` (- set as')"
    using a by (intro ext) (auto simp: restrict_map_def)
  moreover have "grows h' as' (h'(a := v)) as'"
    using grow by (auto simp: grows_def blk_at_def)
  ultimately show ?thesis using fr by (auto simp: frame_def intro: grows_trans)
qed

lemma frame_alloc: "h a = None \<Longrightarrow> a \<notin> set as \<Longrightarrow> frame h as (h(a \<mapsto> b)) (as @ [a])"
  by (auto simp: frame_def grows_def restrict_map_def fun_eq_iff blk_at_def)

lemma layout_append:
  "layout h k (as @ bs) \<longleftrightarrow> layout h k as \<and> layout h (k + length (payload h as)) bs"
  by (induction as arbitrary: k) (auto simp: plen_def blk_at_def add.assoc split: option.splits)

lemma layout_cong:
  "(\<And>a. a \<in> set as \<Longrightarrow> map_option uci_blk_has_header (h' a) = map_option uci_blk_has_header (h a) \<and>
      map_option plen (h' a) = map_option plen (h a)) \<Longrightarrow>
   layout h' k as = layout h k as"
proof (induction as arbitrary: k)
  case Nil
  then show ?case by simp
next
  case (Cons a as)
  from Cons.prems [of a] have
    "map_option uci_blk_has_header (h' a) = map_option uci_blk_has_header (h a)"
    "map_option plen (h' a) = map_option plen (h a)" by simp_all
  moreover have "layout h' j as = layout h j as" for j
    using Cons.prems by (intro Cons.IH) simp
  ultimately show ?case by (cases "h a"; cases "h' a") auto
qed

lemma layout_upd_other [simp]: "a \<notin> set as \<Longrightarrow> layout (h(a := v)) k as = layout h k as"
  by (rule layout_cong) auto

lemma own_blks_simps [simp]:
  "own_blks h []"
  "own_blks h (a # as) \<longleftrightarrow> (\<exists>b. h a = Some b \<and> own_blk b) \<and> own_blks h as"
  "own_blks h (as @ bs) \<longleftrightarrow> own_blks h as \<and> own_blks h bs"
  by (auto simp: own_blks_def)

lemma own_blks_upd_other [simp]: "a \<notin> set as \<Longrightarrow> own_blks (h(a := v)) as = own_blks h as"
  by (auto simp: own_blks_def)

lemma no_empty_simps [simp]:
  "no_empty h []" "no_empty h (a # as) \<longleftrightarrow> blk_at h a \<noteq> [] \<and> no_empty h as"
  "no_empty h (as @ bs) \<longleftrightarrow> no_empty h as \<and> no_empty h bs"
  by (auto simp: no_empty_def)

lemma no_empty_upd_other [simp]: "a \<notin> set as \<Longrightarrow> no_empty (h(a := v)) as = no_empty h as"
  by (auto simp: no_empty_def blk_at_def)

lemma own_blks_owned: "own_blks h as \<Longrightarrow> owned h as"
  by (auto simp: own_blks_def owned_def own_blk_def)

lemma own_blks_ok: "own_blks h as \<Longrightarrow> blks_ok h as"
  by (auto simp: own_blks_def blks_ok_def own_blk_def)

text \<open>The end of a chain is where a builder works.\<close>

lemma last_ptr_simps [simp]: "last_ptr [] = None" "last_ptr (as @ [a]) = Some a"
  by (simp_all add: last_ptr_def)

lemma payload_snoc_upd:
  "a \<notin> set as \<Longrightarrow> payload (h(a \<mapsto> b)) (as @ [a]) = payload h as @ blk_payload b"
  by (simp add: blk_at_def)

lemma message_rep_snoc:
  "message_rep h p (as @ [a]) bs \<longleftrightarrow>
   (\<exists>b. path h p as (Some a) \<and> own_blks h as \<and> layout h 0 as \<and> a \<notin> set as \<and>
      h a = Some b \<and> b_next b = None \<and> own_blk b \<and>
      (uci_blk_has_header b \<longleftrightarrow> length (payload h as) mod UCI_MAX_CONTROL_PAYLOAD_SIZE = 0) \<and>
      length (payload h as) mod UCI_MAX_CONTROL_PAYLOAD_SIZE + plen b \<le> UCI_MAX_CONTROL_PAYLOAD_SIZE \<and>
      payload h as @ blk_payload b = bs \<and> total_is h p (length bs))"
  (is "?l \<longleftrightarrow> ?r")
proof
  assume l: ?l
  then have "chain h p (as @ [a])" by (simp add: message_rep_def)
  then have "a \<notin> set as" by (auto dest: chain_distinct)
  with l show ?r
    by (auto simp: message_rep_def path_snoc layout_append blk_at_def split: option.splits)
next
  assume ?r
  then show ?l
    by (auto simp: message_rep_def path_snoc layout_append blk_at_def split: option.splits)
qed

lemma message_rep_payload: "message_rep h p as bs \<Longrightarrow> payload h as = bs"
  by (simp add: message_rep_def)

lemma message_rep_snocE:
  assumes "message_rep h p (as @ [a]) bs"
  obtains q b where "p = Some q" "h a = Some b" "own_blk b" "a \<notin> set as" "b_next b = None"
    "payload h as @ blk_payload b = bs"
    "length (payload h as) mod UCI_MAX_CONTROL_PAYLOAD_SIZE + plen b \<le> UCI_MAX_CONTROL_PAYLOAD_SIZE"
  using assms unfolding message_rep_snoc by (cases p) auto

lemma own_blk_link [simp]:
  "own_blk (b\<lparr>b_next := q\<rparr>) = own_blk b" "own_blk (b\<lparr>b_total_len := t\<rparr>) = own_blk b"
  "plen (b\<lparr>b_next := q\<rparr>) = plen b" "plen (b\<lparr>b_total_len := t\<rparr>) = plen b"
  "blk_payload (b\<lparr>b_next := q\<rparr>) = blk_payload b"
  "blk_payload (b\<lparr>b_total_len := t\<rparr>) = blk_payload b"
  "uci_blk_has_header (b\<lparr>b_next := q\<rparr>) = uci_blk_has_header b"
  "uci_blk_has_header (b\<lparr>b_total_len := t\<rparr>) = uci_blk_has_header b"
  by (simp_all add: own_blk_def blk_ok_def allocator_owned_def plen_def blk_payload_def
      uci_blk_has_header_def)

text \<open>Updates that keep the payload and the flags of a block keep the structure.\<close>

definition same_shape :: "uci_blk \<Rightarrow> uci_blk \<Rightarrow> bool" where
  "same_shape b b' \<longleftrightarrow> blk_payload b' = blk_payload b \<and>
     uci_blk_has_header b' = uci_blk_has_header b \<and> own_blk b' = own_blk b"

lemma same_shape_simps [simp]:
  "same_shape b (b\<lparr>b_next := q\<rparr>)" "same_shape b (b\<lparr>b_total_len := t\<rparr>)"
  by (simp_all add: same_shape_def)

lemma same_shape_upd:
  assumes "h a = Some b" and "same_shape b b'"
  shows "payload (h(a \<mapsto> b')) as = payload h as"
    and "layout (h(a \<mapsto> b')) k as = layout h k as"
    and "own_blks (h(a \<mapsto> b')) as = own_blks h as"
    and "no_empty (h(a \<mapsto> b')) as = no_empty h as"
proof -
  have at: "blk_at (h(a \<mapsto> b')) x = blk_at h x" for x
    using assms by (simp add: blk_at_def same_shape_def)
  show "payload (h(a \<mapsto> b')) as = payload h as" by (rule payload_cong) (rule at)
  show "layout (h(a \<mapsto> b')) k as = layout h k as"
    using assms by (intro layout_cong) (auto simp: same_shape_def plen_def)
  show "own_blks (h(a \<mapsto> b')) as = own_blks h as"
    using assms by (auto simp: same_shape_def own_blks_def)
  show "no_empty (h(a \<mapsto> b')) as = no_empty h as" by (simp add: no_empty_def at)
qed

text \<open>A fresh block appended to a message, and bytes appended to its last block.\<close>

lemma message_rep_link:
  assumes rep: "message_rep h p (as @ [a]) bs" and h: "h a = Some b" and c: "h c = None"
    and cb: "own_blk cb" "b_next cb = None" "blk_payload cb = []"
      "uci_blk_has_header cb \<longleftrightarrow> length bs mod UCI_MAX_CONTROL_PAYLOAD_SIZE = 0"
  shows "message_rep (h(c \<mapsto> cb, a \<mapsto> b\<lparr>b_next := Some c\<rparr>)) p ((as @ [a]) @ [c]) bs"
proof -
  let ?h1 = "h(a \<mapsto> b\<lparr>b_next := Some c\<rparr>)" and ?h = "h(c \<mapsto> cb, a \<mapsto> b\<lparr>b_next := Some c\<rparr>)"
  note r = rep [unfolded message_rep_snoc]
  from r h have ca: "c \<noteq> a" and notin: "a \<notin> set as" using c by auto
  from r have "path h p as (Some a)" by auto
  then have "set as \<subseteq> dom h" by (rule path_dom)
  with c have cn: "c \<notin> set as" by auto
  have eq: "?h = ?h1(c \<mapsto> cb)" using ca by (simp add: fun_upd_twist)
  have tot: "total_is ?h p (length bs)"
    using r h c ca by (auto simp: total_is_def split: option.splits)
  note shape = same_shape_upd [of h a b, OF h same_shape_simps(1) [of b "Some c"]]
  show ?thesis
    unfolding message_rep_snoc using r h ca cn notin cb tot
    by (auto simp: path_snoc eq layout_append blk_at_def plen_def shape split: option.splits)
qed

lemma message_rep_write:
  assumes rep: "message_rep h p (as @ [a]) bs" and h: "h a = Some b"
    and p: "p = Some q" "h q = Some qb" "(h(q \<mapsto> qb\<lparr>b_total_len := length bs + length xs\<rparr>)) a = Some b'"
    and b'': "b'' = b'\<lparr>b_len := b_len b + length xs, b_data := d\<rparr>"
    and d: "write_buf (b_data b) (b_len b) xs = Some d"
    and room: "length (payload h as) mod UCI_MAX_CONTROL_PAYLOAD_SIZE + plen b + length xs
        \<le> UCI_MAX_CONTROL_PAYLOAD_SIZE"
    and sz: "b_len b + length xs \<le> b_size b"
  shows "message_rep (h(q \<mapsto> qb\<lparr>b_total_len := length bs + length xs\<rparr>, a \<mapsto> b'')) p (as @ [a]) (bs @ xs)"
proof -
  let ?h1 = "h(q \<mapsto> qb\<lparr>b_total_len := length bs + length xs\<rparr>)"
  note r = rep [unfolded message_rep_snoc]
  from r have notin: "a \<notin> set as" by auto
  note shape = same_shape_upd [of h q qb, OF p(2) same_shape_simps(2) [of qb "length bs + length xs"]]
  have b': "b_next b' = b_next b" "b_flags b' = b_flags b" "b_size b' = b_size b" "b_data b' = b_data b"
    "b_len b' = b_len b"
    using p h by (auto split: if_splits)
  have pay: "blk_payload b'' = blk_payload b @ xs"
    using r h b' b'' take_write_buf_end [OF d]
    by (auto simp: blk_payload_def Let_def uci_blk_has_header_def own_blk_def blk_ok_def)
  have own: "own_blk b''"
    using r h b' b'' sz write_buf_length [OF d]
    by (auto simp: own_blk_def blk_ok_def allocator_owned_def uci_blk_has_header_def)
  have pth: "path ?h1 p as (Some a)"
    using r p by (simp add: path_upd_same_next [of h q, OF p(2)])
  have tot: "total_is (?h1(a \<mapsto> b'')) p (length (bs @ xs))"
    using p b'' by (auto simp: total_is_def split: if_splits)
  have hdr: "uci_blk_has_header b'' = uci_blk_has_header b"
    using b' b'' by (simp add: uci_blk_has_header_def)
  show ?thesis
    unfolding message_rep_snoc using r h notin own pth tot pay hdr room b' b''
    by (auto simp: shape plen_def)
qed

section \<open>Adding data\<close>

lemma flags_low:
  "(f :: byte) AND 7 = 0 \<Longrightarrow> f AND 1 = 0 \<and> f AND 2 = 0 \<and> f AND 4 = 0"
proof -
  assume "f AND 7 = 0"
  moreover have "f AND 1 = (f AND 7) AND 1" "f AND 2 = (f AND 7) AND 2" "f AND 4 = (f AND 7) AND 4"
    by (simp_all add: and.assoc)
  ultimately show ?thesis by simp
qed

text \<open>For every allocator that keeps the contract.\<close>

context uci_allocator
begin

lemma alloc_with_header_cases:
  assumes inv: "inv m" and fl: "mb_alloc_flags builder AND 7 = 0"
  obtains (null) m' where "alloc_blk_with_header A m builder n = Some (None, m')"
      "heap m' = heap m" "inv m'"
  | (blk) p b m' where "alloc_blk_with_header A m builder n = Some (Some p, m')" "heap m p = None"
      "heap m' = (heap m)(p \<mapsto> b)" "own_blk b" "b_next b = None" "blk_payload b = []"
      "uci_blk_has_header b" "b_total_len b = 0" "inv m'"
proof -
  let ?ask = "let size_needed = size_add UCI_PACKET_HEADER_SIZE n in
     if mb_expected_packet_size builder > size_needed then mb_expected_packet_size builder else size_needed"
  show thesis
  proof (cases rule: blk_alloc_cases [OF inv, of ?ask "mb_alloc_flags builder"])
    case (1 m')
    then show thesis
      by (intro null [of m']) (simp_all add: alloc_blk_with_header_def Let_def)
  next
    case (2 p b m')
    have flags: "mb_alloc_flags builder AND 1 = 0" "mb_alloc_flags builder AND 2 = 0"
      using flags_low [OF fl] by simp_all
    show thesis
    proof (cases "b_size b < UCI_PACKET_HEADER_SIZE")
      case True
      have own: "owned (heap m') [p]"
        using 2 flags by (simp add: allocator_owned_def fresh_blk_def)
      have ch: "chain (heap m') (Some p) [p]"
        using 2 by (simp add: fresh_blk_def)
      from free_all [OF 2(5) ch own] obtain m'' where
        m'': "uci_blk_free_all A m' (Some p) = Some m''" "heap m'' = heap m' |` (- set [p])" "inv m''"
        by blast
      have "heap m'' = heap m"
        using m''(2) 2(2,3) by (auto simp: restrict_map_def fun_eq_iff)
      with True 2 m'' show thesis
        by (intro null [of m'']) (simp_all add: alloc_blk_with_header_def Let_def)
    next
      case False
      let ?b = "b\<lparr>b_flags := b_flags b OR UCI_BLK_FLAGS_HEADER_RESERVED,
                   b_len := UCI_PACKET_HEADER_SIZE, b_total_len := 0\<rparr>"
      show thesis
      proof (rule blk [of p "put_blk m' p ?b" ?b])
        show "alloc_blk_with_header A m builder n = Some (Some p, put_blk m' p ?b)"
          using 2 False by (simp add: alloc_blk_with_header_def Let_def)
        show "inv (put_blk m' p ?b)" using 2 by (intro write_blk) auto
        show "own_blk ?b"
          using 2 flags False
          by (simp add: own_blk_def blk_ok_def allocator_owned_def fresh_blk_def word_ao_dist)
        show "uci_blk_has_header ?b"
          by (simp add: uci_blk_has_header_def word_ao_dist)
        then show "blk_payload ?b = []" by (simp add: blk_payload_def)
      qed (use 2 in \<open>auto simp: fresh_blk_def\<close>)
    qed
  qed
qed

lemma next_block_cases:
  assumes inv: "inv m" and rep: "builder_rep m builder as bs"
  obtains (null) m' where
      "builder_next_block A m builder (length bs mod UCI_MAX_CONTROL_PAYLOAD_SIZE) = Some (None, m', builder)"
      "heap m' = heap m" "inv m'"
  | (blk) zs c cb m' builder' where
      "builder_next_block A m builder (length bs mod UCI_MAX_CONTROL_PAYLOAD_SIZE) = Some (Some c, m', builder')"
      "inv m'" "builder_rep m' builder' (zs @ [c]) bs" "frame (heap m) as (heap m') (zs @ [c])"
      "heap m' c = Some cb"
      "length (payload (heap m') zs) mod UCI_MAX_CONTROL_PAYLOAD_SIZE + plen cb =
       length bs mod UCI_MAX_CONTROL_PAYLOAD_SIZE"
      "mb_first_errno builder' = mb_first_errno builder" "mb_elems_nr builder' = mb_elems_nr builder"
      "mb_current_block builder' = Some c" "mb_message builder' \<noteq> None"
      "no_empty (heap m) as \<Longrightarrow> no_empty (heap m') zs"
proof -
  let ?pl = "length bs mod UCI_MAX_CONTROL_PAYLOAD_SIZE"
  from rep have msg: "message_rep (heap m) (mb_message builder) as bs"
    and cur: "mb_current_block builder = last_ptr as" and fl: "mb_alloc_flags builder AND 7 = 0"
    by (simp_all add: builder_rep_def)
  have link: thesis
    if a: "as = zs @ [a]" and alloc: "heap m c = None" "heap m1 = (heap m)(c \<mapsto> cb)" "inv m1"
      and cb: "own_blk cb" "b_next cb = None" "blk_payload cb = []" "uci_blk_has_header cb \<longleftrightarrow> ?pl = 0"
      and run: "\<And>m2. set_next m1 (Some a) (Some c) = Some m2 \<Longrightarrow>
        builder_next_block A m builder ?pl = Some (Some c, m2, builder\<lparr>mb_current_block := Some c\<rparr>)"
    for zs a c cb m1
  proof -
    from msg a obtain b where b: "heap m a = Some b" "mb_message builder \<noteq> None"
      by (auto elim: message_rep_snocE)
    have ca: "c \<noteq> a" using b alloc by auto
    let ?b = "b\<lparr>b_next := Some c\<rparr>" and ?m2 = "put_blk m1 a (b\<lparr>b_next := Some c\<rparr>)"
    have "set_next m1 (Some a) (Some c) = Some ?m2"
      using b alloc ca by (simp add: set_next_def)
    moreover have h2: "heap ?m2 = (heap m)(c \<mapsto> cb, a \<mapsto> ?b)" using alloc by simp
    have rep2: "message_rep (heap ?m2) (mb_message builder) (as @ [c]) bs"
      unfolding h2 a using msg a b alloc cb by (intro message_rep_link) simp_all
    have "heap ?m2 c = Some cb" using ca unfolding h2 by simp
    with cb(3) have "length (payload (heap ?m2) as) = length bs"
      by (auto intro: message_rep_snocE [OF rep2])
    moreover have cn: "c \<notin> set as"
      using rep2 by (auto elim: message_rep_snocE)
    have "frame (heap m) as (heap ?m2) (as @ [c])"
      unfolding h2 by (rule frame_upd_in)
        (use a ca b frame_alloc [of "heap m" c as cb, OF alloc(1) cn] in
          \<open>auto simp: blk_at_def blk_payload_def uci_blk_has_header_def\<close>)
    moreover have "inv ?m2" using alloc b by (intro write_blk) auto
    moreover from cn have "no_empty (heap m) as \<Longrightarrow> no_empty (heap ?m2) as"
      using same_shape_upd(4) [of "heap m1" a b "b\<lparr>b_next := Some c\<rparr>" as] b alloc ca by simp
    ultimately show thesis
      using run rep2 fl cb ca b alloc
      by (intro blk [of c ?m2 "builder\<lparr>mb_current_block := Some c\<rparr>" as cb])
        (simp_all add: builder_rep_def h2 plen_def)
  qed
  show thesis
  proof (cases "?pl = 0")
    case pl: True
    show thesis
    proof (cases rule: alloc_with_header_cases [OF inv fl,
          of "size_sub (mb_expected_packet_size builder) UCI_PACKET_HEADER_SIZE"])
      case (1 m')
      with pl show thesis by (intro null [of m']) (simp_all add: builder_next_block_def)
    next
      case (2 c cb m')
      show thesis
      proof (cases as rule: rev_cases)
        case Nil
        with msg have b0: "mb_message builder = None" "bs = []" by (auto simp: message_rep_def)
        have "message_rep (heap m') (Some c) [c] []"
          using 2 by (simp add: message_rep_def total_is_def plen_def blk_at_def)
        with 2 Nil b0 pl fl frame_alloc [of "heap m" c "[]" cb] show thesis
          by (intro blk [of c m' "builder\<lparr>mb_message := Some c, mb_current_block := Some c\<rparr>" "[]" cb])
            (simp_all add: builder_next_block_def builder_rep_def last_ptr_def plen_def)
      next
        case (snoc zs a)
        with msg obtain y where "mb_message builder = Some y" by (auto elim: message_rep_snocE)
        with 2 pl cur snoc show thesis
          by (intro link [of zs a c m' cb]) (simp_all add: builder_next_block_def)
      qed
    qed
  next
    case pl: False
    then have "as \<noteq> []" using msg by (auto simp: message_rep_def)
    then obtain zs a where as: "as = zs @ [a]" by (metis rev_exhaust)
    from msg as obtain b where b: "heap m a = Some b" "payload (heap m) zs @ blk_payload b = bs"
      "length (payload (heap m) zs) mod 255 + plen b \<le> 255" "mb_message builder \<noteq> None"
      by (auto elim: message_rep_snocE)
    show thesis
    proof (cases "b_size b = b_len b")
      case full: True
      show thesis
      proof (cases rule: blk_alloc_cases [OF inv, of "mb_expected_packet_size builder" "mb_alloc_flags builder"])
        case (1 m')
        with pl cur as b full show thesis
          by (intro null [of m']) (simp_all add: builder_next_block_def blk_of_def)
      next
        case (2 c cb m')
        have "own_blk cb" "\<not> uci_blk_has_header cb" "blk_payload cb = []" "b_next cb = None"
          using 2(4) flags_low [OF fl]
          by (simp_all add: own_blk_def blk_ok_def fresh_blk_def allocator_owned_def uci_blk_has_header_def
              blk_payload_def)
        with 2 pl cur as b full show thesis
          by (intro link [of zs a c m' cb]) (simp_all add: builder_next_block_def blk_of_def)
      qed
    next
      case room: False
      have "(length (payload (heap m) zs) + plen b) mod 255 = ?pl"
        using b by (auto simp: plen_def)
      with pl b(3) have "length (payload (heap m) zs) mod 255 + plen b = ?pl"
        by (metis le_neq_implies_less mod_add_left_eq mod_less mod_self)
      with inv rep pl cur as b room show thesis
        by (intro blk [of a m builder zs b]) (simp_all add: builder_next_block_def blk_of_def)
    qed
  qed
qed

text \<open>
  One step of \<^verbatim>\<open>uci_message_put\<close>: reserving bytes and filling them appends them to the
  message; when no room can be had, the message is left as it was and the error is recorded.
\<close>

lemma put_nocopy_step:
  assumes inv: "inv m" and rep: "builder_rep m builder as bs" and noerr: "mb_first_errno builder = 0"
    and data: "data \<noteq> []" "length bs + length data < 65536"
  obtains (fail) m' builder' as' where
      "uci_message_put_nocopy A m builder (length data) = Some (- UCI_STATUS_FAILED, None, m', builder')"
      "inv m'" "builder_rep m' builder' as' bs" "frame (heap m) as (heap m') as'"
      "mb_first_errno builder' = UCI_STATUS_FAILED" "mb_elems_nr builder' = mb_elems_nr builder"
  | (ok) n chunk m1 m' builder' as' where
      "uci_message_put_nocopy A m builder (length data) = Some (int n, Some chunk, m1, builder')"
      "0 < n" "n \<le> length data" "write_chunk m1 (Some chunk) (take n data) = Some m'"
      "inv m'" "builder_rep m' builder' as' (bs @ take n data)" "frame (heap m) as (heap m') as'"
      "mb_first_errno builder' = 0" "mb_elems_nr builder' = mb_elems_nr builder"
      "no_empty (heap m) as \<Longrightarrow> no_empty (heap m') as'"
proof -
  let ?pl = "length bs mod UCI_MAX_CONTROL_PAYLOAD_SIZE"
  have pl: "builder_packet_len m builder = Some ?pl"
    using rep by (auto simp: builder_packet_len_def builder_rep_def message_rep_def total_is_def
        split: option.splits)
  show thesis
  proof (cases rule: next_block_cases [OF inv rep])
    case (1 m')
    with inv rep noerr data pl show thesis
      by (intro fail [of m' "builder\<lparr>mb_first_errno := UCI_STATUS_FAILED\<rparr>" as])
        (simp_all add: uci_message_put_nocopy_def get_remaining_def builder_rep_def)
  next
    case (2 zs c cb m1 builder1)
    then have rep1: "message_rep (heap m1) (mb_message builder1) (zs @ [c]) bs"
      and fl: "mb_alloc_flags builder1 AND 7 = 0"
      by (simp_all add: builder_rep_def)
    from rep1 2(5) obtain q where q: "mb_message builder1 = Some q" and own: "own_blk cb"
      by (auto elim: message_rep_snocE)
    from own have len: "b_len cb \<le> b_size cb" "b_size cb < 65536" "b_size cb = length (b_data cb)"
      by (auto simp: own_blk_def blk_ok_def)
    define rem where "rem = min (UCI_MAX_CONTROL_PAYLOAD_SIZE - ?pl) (b_size cb - b_len cb)"
    have gr: "get_remaining A m builder (length data) = Some (rem, m1, builder1)"
      using pl 2(1,5) len by (simp add: get_remaining_def blk_of_def rem_def Let_def min_def)
    show thesis
    proof (cases "rem = 0")
      case True
      with gr noerr data 2 show thesis
        by (intro fail [of m1 "builder1\<lparr>mb_first_errno := UCI_STATUS_FAILED\<rparr>" "zs @ [c]"])
          (simp_all add: uci_message_put_nocopy_def builder_rep_def)
    next
      case False
      define n where "n = min (length data) rem"
      have n: "0 < n" "n \<le> length data" "n \<le> rem" using False data by (simp_all add: n_def)
      let ?xs = "take n data"
      have lx: "length ?xs = n" using n by simp
      from rep1 q obtain qb where qb: "heap m1 q = Some qb" "b_total_len qb = length bs"
        by (auto simp: message_rep_def total_is_def)
      let ?h1 = "(heap m1)(q \<mapsto> qb\<lparr>b_total_len := length bs + length ?xs\<rparr>)"
      obtain b' where b': "?h1 c = Some b'" using 2(5) by (cases "c = q") auto
      have b'_len: "b_len b' = b_len cb" "b_data b' = b_data cb"
        using b' 2(5) qb by (auto split: if_splits)
      have room: "b_len cb + n \<le> b_size cb" "?pl + n \<le> UCI_MAX_CONTROL_PAYLOAD_SIZE"
        using n len unfolding rem_def by auto
      then obtain d where d: "write_buf (b_data cb) (b_len cb) ?xs = Some d"
        using write_buf_total [of "b_len cb" ?xs "b_data cb"] len lx by auto
      let ?b = "b'\<lparr>b_len := b_len cb + length ?xs, b_data := d\<rparr>"
      let ?m2 = "put_blk (put_blk m1 q (qb\<lparr>b_total_len := length bs + n\<rparr>)) c (b'\<lparr>b_len := b_len cb + n\<rparr>)"
      let ?m3 = "put_blk ?m2 c ?b"
      have run: "uci_message_put_nocopy A m builder (length data) = Some (int n, Some (c, b_len cb), ?m2, builder1)"
      proof -
        have sz: "(if rem < length data then rem else length data) = n" by (simp add: n_def)
        have b'': "heap (put_blk m1 q (qb\<lparr>b_total_len := length bs + n\<rparr>)) c = Some b'"
          using b' unfolding lx by simp
        show ?thesis
          unfolding uci_message_put_nocopy_def gr using noerr data 2(5,9) q qb b'_len room len False n
          by (simp add: sz b'' del: heap_put_blk)
      qed
      have wr: "write_chunk ?m2 (Some (c, b_len cb)) ?xs = Some ?m3"
        using d b'_len lx by (simp add: write_chunk_def)
      have h3: "heap ?m3 = ?h1(c \<mapsto> ?b)" using lx by simp
      have rep3: "message_rep (heap ?m3) (mb_message builder1) (zs @ [c]) (bs @ ?xs)"
        unfolding h3 using 2(6) room len lx
        by (intro message_rep_write [OF rep1 2(5) q qb(1) b' refl d]) simp_all
      have qin: "q \<in> set (zs @ [c])"
        using rep1 q by (cases zs) (auto simp: message_rep_def)
      note shape = same_shape_upd [of "heap m1" q qb, OF qb(1) same_shape_simps(2) [of qb "length bs + length ?xs"]]
      have cz: "c \<notin> set zs" by (rule message_rep_snocE [OF rep1])
      then have pz: "payload (heap ?m3) zs = payload (heap m1) zs"
        unfolding h3 using shape(1) [of zs] by simp
      have "payload (heap m1) zs @ blk_at (heap ?m3) c = bs @ ?xs"
        using message_rep_payload [OF rep3] unfolding pz [symmetric] by simp
      moreover have "payload (heap m1) zs @ blk_at (heap m1) c = bs"
        using message_rep_payload [OF rep1] by simp
      ultimately have "blk_at (heap ?m3) c = blk_at (heap m1) c @ ?xs"
        by (metis append_assoc same_append_eq)
      note grow = this
      have "frame (heap m) as ?h1 (zs @ [c])"
        by (rule frame_upd_in)
          (use 2(4) qin qb in \<open>auto simp: blk_at_def blk_payload_def uci_blk_has_header_def\<close>)
      moreover have "blk_at ?h1 c = blk_at (heap m1) c" using shape(1) [of "[c]"] by simp
      ultimately have fr: "frame (heap m) as (heap ?m3) (zs @ [c])"
        using grow unfolding h3 by (intro frame_upd_in [of c "zs @ [c]" "heap m" as ?h1]) simp_all
      from grow have "blk_at (heap ?m3) c \<noteq> []" using n(1) data(1) by simp
      then have "no_empty (heap m) as \<Longrightarrow> no_empty (heap ?m3) (zs @ [c])"
        using 2(11) shape(4) [of zs] cz unfolding h3 by simp
      moreover have "inv ?m3"
        using 2(2,5) qb by (intro write_blk) auto
      ultimately show thesis using run wr n rep3 fr 2 fl noerr
        by (intro ok [of n "(c, b_len cb)" ?m2 builder1 ?m3 "zs @ [c]"]) (simp_all add: builder_rep_def)
    qed
  qed
qed

text \<open>
  \<^verbatim>\<open>uci_message_put\<close> returns for every allocator: all the data is appended, or the allocator gave
  out, a prefix is appended and the error stays recorded. Nothing outside the message changes.
\<close>

lemma message_put_rep:
  assumes "inv m" and "builder_rep m builder as bs" and "mb_first_errno builder = 0"
    and "mb_elems_nr builder = None" and "length bs + length data < 65536"
  shows "\<exists>r m' builder' as' k. uci_message_put A m builder data = Some (r, m', builder') \<and> inv m' \<and>
     builder_rep m' builder' as' (bs @ take k data) \<and> frame (heap m) as (heap m') as' \<and>
     mb_elems_nr builder' = None \<and> mb_first_errno builder' = r \<and>
     (r = UCI_STATUS_OK \<and> k = length data \<and> (no_empty (heap m) as \<longrightarrow> no_empty (heap m') as') \<or>
      r = UCI_STATUS_FAILED \<and> k < length data)"
  using assms
proof (induction "length data" arbitrary: data m builder as bs rule: less_induct)
  case less
  show ?case
  proof (cases "data = []")
    case True
    with less.prems show ?thesis
      by (subst uci_message_put.simps) (auto simp: incr_elems_nr_def)
  next
    case False
    show ?thesis
    proof (cases rule: put_nocopy_step [OF less.prems(1-3) False less.prems(5)])
      case (1 m' builder' as')
      with False less.prems(4) show ?thesis
        by (subst uci_message_put.simps) (auto intro!: exI [of _ as'] exI [of _ 0])
    next
      case (2 n chunk m1 m2 builder2 as2)
      have "length (drop n data) < length data" using 2 False by simp
      moreover have "length (bs @ take n data) + length (drop n data) < 65536"
        using less.prems(5) 2 by simp
      moreover have "mb_elems_nr builder2 = None" using 2 less.prems(4) by simp
      ultimately obtain r m' builder' as' k where
        IH: "uci_message_put A m2 builder2 (drop n data) = Some (r, m', builder')" "inv m'"
          "builder_rep m' builder' as' ((bs @ take n data) @ take k (drop n data))"
          "frame (heap m2) as2 (heap m') as'" "mb_elems_nr builder' = None" "mb_first_errno builder' = r"
          "r = UCI_STATUS_OK \<and> k = length (drop n data) \<and> (no_empty (heap m2) as2 \<longrightarrow> no_empty (heap m') as') \<or>
           r = UCI_STATUS_FAILED \<and> k < length (drop n data)"
        using less.hyps [of "drop n data" m2 builder2 as2 "bs @ take n data"] 2(5,6,8) by blast
      have run: "uci_message_put A m builder data = Some (r, m', builder')"
        using 2(1,2,4) IH(1) False by (subst uci_message_put.simps) simp
      have app: "(bs @ take n data) @ take k (drop n data) = bs @ take (n + k) data"
        by (simp add: take_add)
      have fr: "frame (heap m) as (heap m') as'"
        using 2(7) IH(4) by (rule frame_trans)
      show ?thesis
        using run IH(2,5,6,7) IH(3) [unfolded app] fr 2(3,10) by (auto intro!: exI [of _ as'] exI [of _ "n + k"])
    qed
  qed
qed

end

section \<open>When memory suffices\<close>

lemma set_next_blk:
  "set_next m p q = Some m' \<Longrightarrow> heap m a = Some b \<Longrightarrow> b_len b < b_size b \<Longrightarrow>
   \<exists>b'. heap m' a = Some b' \<and> b_len b' < b_size b'"
  by (auto simp: set_next_def bind_Some_iff)

context ample_allocator
begin

lemma blk_alloc_ample:
  assumes "inv m"
  obtains p b m' where "uci_blk_alloc A m n f = Some (Some p, m')" "heap m' p = Some b"
    "UCI_MAX_PACKET_SIZE \<le> b_size b" "b_len b = 0"
proof -
  obtain p m1 where al: "op_alloc A m n f = (Some p, m1)"
    using alloc_some [OF assms, of n f] by (cases "op_alloc A m n f") auto
  from alloc_size [OF assms al] obtain b where "heap m1 p = Some b" "UCI_MAX_PACKET_SIZE \<le> b_size b" by blast
  with al show thesis
    by (intro that [of p "put_blk m1 p (b\<lparr>b_next := None, b_len := 0, b_total_len := 0, b_flags := f\<rparr>)"
          "b\<lparr>b_next := None, b_len := 0, b_total_len := 0, b_flags := f\<rparr>"])
      (simp_all add: uci_blk_alloc_def)
qed

lemma alloc_with_header_ample:
  assumes "inv m"
  obtains p b m' where "alloc_blk_with_header A m builder n = Some (Some p, m')" "heap m' p = Some b"
    "b_len b < b_size b"
proof -
  let ?ask = "let size_needed = size_add UCI_PACKET_HEADER_SIZE n in
     if mb_expected_packet_size builder > size_needed then mb_expected_packet_size builder else size_needed"
  obtain p b m' where "uci_blk_alloc A m ?ask (mb_alloc_flags builder) = Some (Some p, m')"
    "heap m' p = Some b" "UCI_MAX_PACKET_SIZE \<le> b_size b" "b_len b = 0"
    by (rule blk_alloc_ample [OF assms])
  then show thesis
    by (intro that [where p = p and m' = "put_blk m' p (b\<lparr>b_flags := b_flags b OR UCI_BLK_FLAGS_HEADER_RESERVED,
          b_len := UCI_PACKET_HEADER_SIZE, b_total_len := 0\<rparr>)"
          and b = "b\<lparr>b_flags := b_flags b OR UCI_BLK_FLAGS_HEADER_RESERVED,
          b_len := UCI_PACKET_HEADER_SIZE, b_total_len := 0\<rparr>"])
      (simp_all add: alloc_blk_with_header_def Let_def)
qed

lemma next_block_room:
  assumes inv: "inv m" and run: "builder_next_block A m builder pl = Some (c, m', builder')"
    and cur: "pl \<noteq> 0 \<Longrightarrow> \<exists>a b. mb_current_block builder = Some a \<and> heap m a = Some b \<and> b_len b \<le> b_size b"
  shows "\<exists>a b. c = Some a \<and> heap m' a = Some b \<and> b_len b < b_size b"
proof (cases "pl = 0")
  case True
  obtain p b m1 where al: "alloc_blk_with_header A m builder
      (size_sub (mb_expected_packet_size builder) UCI_PACKET_HEADER_SIZE) = Some (Some p, m1)"
    "heap m1 p = Some b" "b_len b < b_size b"
    by (rule alloc_with_header_ample [OF inv])
  with run True set_next_blk [of m1 "mb_current_block builder" "Some p" m' p b] show ?thesis
    by (auto simp: builder_next_block_def bind_Some_iff split: if_splits)
next
  case False
  from cur [OF False] obtain a ab where a: "mb_current_block builder = Some a" "heap m a = Some ab"
    "b_len ab \<le> b_size ab" by blast
  show ?thesis
  proof (cases "b_size ab = b_len ab")
    case True
    obtain p b m1 where al: "uci_blk_alloc A m (mb_expected_packet_size builder) (mb_alloc_flags builder) =
        Some (Some p, m1)" "heap m1 p = Some b" "UCI_MAX_PACKET_SIZE \<le> b_size b" "b_len b = 0"
      by (rule blk_alloc_ample [OF inv])
    with run False True a set_next_blk [of m1 "Some a" "Some p" m' p b] show ?thesis
      by (auto simp: builder_next_block_def blk_of_def bind_Some_iff)
  next
    case room: False
    then have "b_len ab < b_size ab" using a(3) by simp
    moreover have "c = Some a" "m' = m" using run False room a by (simp_all add: builder_next_block_def blk_of_def)
    ultimately show ?thesis using a by simp
  qed
qed

lemma put_nocopy_ample:
  assumes inv: "inv m" and rep: "builder_rep m builder as bs" and ok: "mb_first_errno builder = 0"
    and run: "uci_message_put_nocopy A m builder n = Some (r, chunk, m', builder')" and n: "0 < n"
  shows "0 < r"
proof -
  let ?pl = "length bs mod UCI_MAX_CONTROL_PAYLOAD_SIZE"
  from rep have msg: "message_rep (heap m) (mb_message builder) as bs" and lst: "mb_current_block builder = last_ptr as"
    by (simp_all add: builder_rep_def)
  have pl: "builder_packet_len m builder = Some ?pl"
    using rep by (auto simp: builder_packet_len_def builder_rep_def message_rep_def total_is_def
        split: option.splits)
  have cur: "\<exists>a b. mb_current_block builder = Some a \<and> heap m a = Some b \<and> b_len b \<le> b_size b" if "?pl \<noteq> 0"
  proof -
    have "as \<noteq> []" using that msg by (auto simp: message_rep_def)
    then obtain zs a where as: "as = zs @ [a]" by (metis rev_exhaust)
    obtain b where "heap m a = Some b" "own_blk b" using msg as by (auto elim: message_rep_snocE)
    with as lst show ?thesis by (auto simp: own_blk_def blk_ok_def)
  qed
  from run ok n pl obtain c m1 b1 where nb: "builder_next_block A m builder ?pl = Some (c, m1, b1)"
    by (auto simp: uci_message_put_nocopy_def get_remaining_def bind_Some_iff)
  from next_block_room [OF inv nb cur] obtain a b where a: "c = Some a" "heap m1 a = Some b" "b_len b < b_size b"
    by blast
  define rem where "rem = (if 255 - ?pl < b_size b - b_len b then 255 - ?pl else b_size b - b_len b)"
  have gr: "get_remaining A m builder n = Some (rem, m1, b1)"
    using pl nb a by (simp add: get_remaining_def blk_of_def rem_def Let_def)
  have "?pl < 255" by simp
  with a(3) have pos: "0 < rem" unfolding rem_def by (auto simp only: split: if_splits)
  have "r = int (if n > rem then rem else n)"
    using run ok n pos by (auto simp: uci_message_put_nocopy_def gr bind_Some_iff Let_def)
  with n pos show ?thesis by simp
qed

text \<open>Then every put succeeds.\<close>

lemma message_put_ample:
  assumes "inv m" and "builder_rep m builder as bs" and "mb_first_errno builder = 0"
    and "mb_elems_nr builder = None" and "length bs + length data < 65536"
  shows "\<exists>m' builder' as'. uci_message_put A m builder data = Some (0, m', builder') \<and> inv m' \<and>
     builder_rep m' builder' as' (bs @ data) \<and> frame (heap m) as (heap m') as' \<and>
     mb_elems_nr builder' = None \<and> mb_first_errno builder' = 0 \<and>
     (no_empty (heap m) as \<longrightarrow> no_empty (heap m') as')"
proof -
  from message_put_rep [OF assms] obtain r m' builder' as' k where
    r: "uci_message_put A m builder data = Some (r, m', builder')" "inv m'"
    "builder_rep m' builder' as' (bs @ take k data)" "frame (heap m) as (heap m') as'"
    "mb_elems_nr builder' = None" "mb_first_errno builder' = r"
    "r = UCI_STATUS_OK \<and> k = length data \<and> (no_empty (heap m) as \<longrightarrow> no_empty (heap m') as') \<or>
     r = UCI_STATUS_FAILED \<and> k < length data"
    by blast
  have "r = UCI_STATUS_OK"
    using assms r(1)
  proof (induction "length data" arbitrary: data m builder as bs rule: less_induct)
    case less
    show ?case
    proof (cases "data = []")
      case True
      with less.prems(4,6) show ?thesis by (subst (asm) uci_message_put.simps) (simp add: incr_elems_nr_def)
    next
      case False
      show ?thesis
      proof (cases rule: put_nocopy_step [OF less.prems(1-3) False less.prems(5)])
        case (1 m1 b1 as1)
        from put_nocopy_ample [OF less.prems(1-3) 1(1)] False show ?thesis by simp
      next
        case (2 n chunk m1 m2 builder2 as2)
        have "uci_message_put A m2 builder2 (drop n data) = Some (r, m', builder')"
          using less.prems(6) 2(1,2,4) False by (subst (asm) uci_message_put.simps) simp
        then show ?thesis
          using less.hyps [of "drop n data" m2 builder2 as2 "bs @ take n data"] 2 less.prems(4,5) False by simp
      qed
    qed
  qed
  with r show ?thesis by auto
qed

end

section \<open>Scalars\<close>

lemma put_scalars:
  "uci_message_put_8bit A m builder b = uci_message_put A m builder (le_bytes 1 b)"
  "uci_message_put_16bit A m builder v2 = uci_message_put A m builder (le_bytes 2 v2)"
  "uci_message_put_32bit A m builder v4 = uci_message_put A m builder (le_bytes 4 v4)"
  "uci_message_put_40bit A m builder v8 = uci_message_put A m builder (le_bytes 5 v8)"
  "uci_message_put_48bit A m builder v8 = uci_message_put A m builder (le_bytes 6 v8)"
  "uci_message_put_64bit A m builder v8 = uci_message_put A m builder (le_bytes 8 v8)"
  by (simp_all add: uci_message_put_8bit_def uci_message_put_16bit_def uci_message_put_32bit_def
      uci_message_put_40bit_def uci_message_put_48bit_def uci_message_put_64bit_def le_bytes_Suc
      eval_nat_numeral drop_bit_drop_bit)

end
