(* ===== verification/Uci_State.thy ===== *)
theory Uci_State
  imports Uci_Alloc Uci_Parser Uci_Builder
begin

text \<open>
  The context of the UCI core (\<^verbatim>\<open>struct uci\<close> of \<^verbatim>\<open>uci.h\<close>), what it is connected to, and the
  operations of \<^verbatim>\<open>uci.c\<close> that set it up and tear it down.

  Message handlers and the transport channel are code of the clients of the core, called through
  function pointers. They are the fields of \<open>uci_env\<close>: a message handler or a transport callback
  may do anything to the context, including calling the core again, and may fail to return. The
  type parameter \<open>'w\<close> is the state of the world behind those callbacks.
\<close>

section \<open>State\<close>

record uci_data_msg_info =
  d_msg_session_handle :: "32 word"
  d_destination_address :: "16 word"
  d_sequence_number :: "16 word"
  d_app_data_len :: nat
  d_app_data_rem_len :: nat
  d_is_last_packet :: bool
  d_is_last_packet_prev :: bool

text \<open>The function pointer \<open>handler\<close> is an identifier that \<open>uci_env\<close> interprets.\<close>

record uci_message_handler =
  uci_message_id :: "16 word"
  handler :: nat

record uci_message_handlers =
  mh_next :: "ptr option"
  mh_handlers :: "uci_message_handler list"
  mh_n_handlers :: nat
  mh_user_data :: nat

record uci_generic_handler =
  gh_handler :: nat
  gh_user_data :: nat

type_synonym htab = "ptr \<Rightarrow> uci_message_handlers option"

text \<open>
  \<open>u_mem\<close> is the memory of the buffer blocks, \<open>u_htab\<close> that of the handler tables the clients
  registered. \<open>u_locked\<close> is the state of the (non-recursive) mutex.
\<close>

record 'w uci =
  u_mem :: mem
  u_htab :: htab
  u_handlers_head :: "ptr option"
  u_generic_handler :: "uci_generic_handler option"
  u_rx :: "ptr option"
  u_rx_last :: "ptr option"
  u_tx :: "ptr option"
  u_tx_last :: "ptr option"
  u_tr :: "ptr option"
  u_rsp_blk :: "ptr option"
  u_is_client :: bool
  u_known_gid :: "16 word"
  u_device_state :: byte
  u_data_msg_info :: uci_data_msg_info
  u_locked :: bool
  u_world :: 'w

record 'w uci_env =
  e_allocator :: uci_allocator_ops
  e_handler :: "nat \<Rightarrow> 'w uci \<Rightarrow> 16 word \<Rightarrow> ptr option \<Rightarrow> nat \<Rightarrow> (int \<times> 'w uci) option"
  e_attach :: "'w uci \<Rightarrow> ptr \<Rightarrow> 'w uci option"
  e_detach :: "'w uci \<Rightarrow> 'w uci option"
  e_packet_send_ready :: "'w uci \<Rightarrow> 'w uci option"
  e_packet_send_raw :: "'w uci \<Rightarrow> ptr option \<Rightarrow> 'w uci option"

text \<open>Taking a held mutex from the same thread never returns.\<close>

definition qmutex_lock :: "'w uci \<Rightarrow> 'w uci option" where
  "qmutex_lock u = (if u_locked u then None else Some (u\<lparr>u_locked := True\<rparr>))"

definition qmutex_unlock :: "'w uci \<Rightarrow> 'w uci option" where
  "qmutex_unlock u = (if u_locked u then Some (u\<lparr>u_locked := False\<rparr>) else None)"

text \<open>Block operations on the memory of the context.\<close>

definition free_all :: "'w uci_env \<Rightarrow> 'w uci \<Rightarrow> ptr option \<Rightarrow> 'w uci option" where
  "free_all e u p = do { m \<leftarrow> uci_blk_free_all (e_allocator e) (u_mem u) p; Some (u\<lparr>u_mem := m\<rparr>) }"

definition upd_blk :: "'w uci \<Rightarrow> ptr option \<Rightarrow> (uci_blk \<Rightarrow> uci_blk option) \<Rightarrow> 'w uci option" where
  "upd_blk u p f =
     do { a \<leftarrow> p; b \<leftarrow> heap (u_mem u) a; b' \<leftarrow> f b; Some (u\<lparr>u_mem := put_blk (u_mem u) a b'\<rparr>) }"

section \<open>Set-up and tear-down\<close>

definition uci_alloc_status :: "'w uci_env \<Rightarrow> 'w uci \<Rightarrow> (ptr option \<times> 'w uci) option" where
  "uci_alloc_status e u =
     do {
       (blk, m) \<leftarrow> uci_blk_alloc (e_allocator e) (u_mem u) UCI_STATUS_PACKET_SIZE 0;
       let u = u\<lparr>u_mem := m\<rparr>;
       case blk of
         None \<Rightarrow> Some (None, u)
       | Some p \<Rightarrow>
           do {
             b \<leftarrow> heap (u_mem u) p;
             if b_size b < UCI_STATUS_PACKET_SIZE
             then do { u \<leftarrow> free_all e u blk; Some (None, u) }
             else do {
               u \<leftarrow> upd_blk u blk (\<lambda>b. Some (b\<lparr>b_flags := UCI_BLK_FLAGS_HEADER_RESERVED,
                      b_len := UCI_PACKET_HEADER_SIZE, b_total_len := 0\<rparr>));
               Some (blk, u)
             }
           }
     }"

definition uci_get_prealloc_status :: "'w uci_env \<Rightarrow> 'w uci \<Rightarrow> (ptr option \<times> 'w uci) option" where
  "uci_get_prealloc_status e u =
     (if u_rsp_blk u \<noteq> None then Some (u_rsp_blk u, u\<lparr>u_rsp_blk := None\<rparr>)
      else uci_alloc_status e u)"

definition clear_uci_msg_info :: "'w uci \<Rightarrow> 'w uci" where
  "clear_uci_msg_info u =
     u\<lparr>u_data_msg_info := (u_data_msg_info u)\<lparr>d_destination_address := 0, d_sequence_number := 0,
        d_app_data_len := 0, d_app_data_rem_len := 0, d_is_last_packet := True,
        d_is_last_packet_prev := True\<rparr>\<rparr>"

text \<open>
  \<open>allocator\<close> says whether the argument is not NULL; \<open>mutex\<close> and \<open>sem_print\<close> whether
  \<open>qmutex_init\<close> and \<open>qsemaphore_init\<close> of the operating system layer succeed.
\<close>

definition uci_init ::
    "'w uci_env \<Rightarrow> 'w uci \<Rightarrow> bool \<Rightarrow> bool \<Rightarrow> bool \<Rightarrow> bool \<Rightarrow> (int \<times> 'w uci) option" where
  "uci_init e u allocator mutex sem_print is_client =
     (if \<not> allocator then Some (QERR_ENOENT, u)
      else if \<not> mutex \<or> \<not> sem_print then Some (QERR_ENOMEM, u)
      else do {
        let u = clear_uci_msg_info
                  (u\<lparr>u_handlers_head := None, u_generic_handler := None, u_rx := None, u_tx := None,
                     u_tr := None, u_is_client := is_client, u_known_gid := 0,
                     u_device_state := UCI_DEVICE_STATE_READY, u_locked := False\<rparr>);
        (blk, u) \<leftarrow> uci_alloc_status e u;
        Some (QERR_SUCCESS, u\<lparr>u_rsp_blk := blk\<rparr>)
      })"

definition uci_uninit :: "'w uci_env \<Rightarrow> 'w uci \<Rightarrow> 'w uci option" where
  "uci_uninit e u =
     do {
       u \<leftarrow> (case u_rsp_blk u of
               None \<Rightarrow> Some u
             | Some p \<Rightarrow> do { m \<leftarrow> op_free (e_allocator e) (u_mem u) p; Some (u\<lparr>u_mem := m\<rparr>) });
       Some (u\<lparr>u_handlers_head := None, u_rsp_blk := None\<rparr>)
     }"

definition uci_message_generic_handler_unregister :: "'w uci \<Rightarrow> 'w uci" where
  "uci_message_generic_handler_unregister u = u\<lparr>u_generic_handler := None\<rparr>"

definition uci_message_generic_handler_register :: "'w uci \<Rightarrow> uci_generic_handler option \<Rightarrow> 'w uci" where
  "uci_message_generic_handler_register u h = u\<lparr>u_generic_handler := h\<rparr>"

definition uci_packet_recv_alloc :: "'w uci_env \<Rightarrow> 'w uci \<Rightarrow> nat \<Rightarrow> (ptr option \<times> 'w uci) option" where
  "uci_packet_recv_alloc e u size_hint =
     do { (b, m) \<leftarrow> uci_blk_alloc (e_allocator e) (u_mem u) size_hint 0; Some (b, u\<lparr>u_mem := m\<rparr>) }"

definition uci_packet_recv_free_all :: "'w uci_env \<Rightarrow> 'w uci \<Rightarrow> ptr option \<Rightarrow> 'w uci option" where
  "uci_packet_recv_free_all e u blks = free_all e u blks"

definition uci_transport_attach :: "'w uci_env \<Rightarrow> 'w uci \<Rightarrow> ptr \<Rightarrow> (int \<times> 'w uci) option" where
  "uci_transport_attach e u uci_tr =
     (if u_tr u \<noteq> None then Some (QERR_EBUSY, u)
      else do { u \<leftarrow> e_attach e (u\<lparr>u_tr := Some uci_tr\<rparr>) uci_tr; Some (QERR_SUCCESS, u) })"

definition uci_transport_detach :: "'w uci_env \<Rightarrow> 'w uci \<Rightarrow> (int \<times> 'w uci) option" where
  "uci_transport_detach e u =
     (if u_tr u = None then Some (QERR_EINVAL, u)
      else do {
        u \<leftarrow> e_detach e u;
        let u = u\<lparr>u_tr := None\<rparr>;
        u \<leftarrow> free_all e u (u_rx u);
        let u = u\<lparr>u_rx := None\<rparr>;
        u \<leftarrow> free_all e u (u_tx u);
        Some (QERR_SUCCESS, u\<lparr>u_tx := None\<rparr>)
      })"

definition uci_get_device_state :: "'w uci \<Rightarrow> byte" where
  "uci_get_device_state u = u_device_state u"

end
