(* ===== verification/Uci_Handlers.thy ===== *)
theory Uci_Handlers
  imports Uci_State
begin

text \<open>
  The tables of message handlers: registration, removal and lookup (\<^verbatim>\<open>uci.c\<close>). The list of
  registered tables is shown to be an association list from message identifiers to handlers, the
  lookup with its early exit to be a lookup in it when the tables are sorted by opcode, and the
  bitfield of known groups to be exactly the groups of the registered tables.
\<close>

section \<open>Operations\<close>

definition handler_at :: "uci_message_handlers \<Rightarrow> nat \<Rightarrow> uci_message_handler option" where
  "handler_at t i = (if i < length (mh_handlers t) then Some (mh_handlers t ! i) else None)"

text \<open>The consistency check of the registration: all identifiers from the second on have the group \<open>first\<close>.\<close>

fun same_gid :: "uci_message_handlers \<Rightarrow> nat \<Rightarrow> nat list \<Rightarrow> bool option" where
  "same_gid t first [] = Some True"
| "same_gid t first (i # is) =
     do { h \<leftarrow> handler_at t i;
          if UCI_GID (uci_message_id h) \<noteq> first then Some False else same_gid t first is }"

definition uci_message_handlers_register :: "'w uci \<Rightarrow> ptr option \<Rightarrow> 'w uci option" where
  "uci_message_handlers_register u handlers =
     (case handlers of
        None \<Rightarrow> Some u
      | Some p \<Rightarrow>
          do {
            t \<leftarrow> u_htab u p;
            h0 \<leftarrow> handler_at t 0;
            let first = UCI_GID (uci_message_id h0);
            ok \<leftarrow> same_gid t first [1..<mh_n_handlers t];
            if \<not> ok then Some u
            else Some (u\<lparr>u_htab := (u_htab u)(p \<mapsto> t\<lparr>mh_next := u_handlers_head u\<rparr>),
                         u_handlers_head := Some p,
                         u_known_gid := u_known_gid u OR push_bit first 1\<rparr>)
          })"

text \<open>
  The search of \<^verbatim>\<open>uci_message_handlers_unregister\<close>: \<open>prev\<close> is the table whose \<open>next\<close> field the
  pointer \<open>next\<close> of the C code designates, or \<open>None\<close> for the list head.
\<close>

partial_function (option) find_handlers ::
    "htab \<Rightarrow> ptr option \<Rightarrow> ptr option \<Rightarrow> ptr option \<Rightarrow> (ptr option \<times> ptr option) option" where
  "find_handlers ht prev cur handlers =
     (case cur of
        None \<Rightarrow> Some (prev, None)
      | Some p \<Rightarrow>
          if cur = handlers then Some (prev, cur)
          else do { t \<leftarrow> ht p; find_handlers ht cur (mh_next t) handlers })"

partial_function (option) recalc_known_gid :: "htab \<Rightarrow> ptr option \<Rightarrow> 16 word \<Rightarrow> 16 word option" where
  "recalc_known_gid ht cur known =
     (case cur of
        None \<Rightarrow> Some known
      | Some p \<Rightarrow>
          do { t \<leftarrow> ht p; h0 \<leftarrow> handler_at t 0;
               recalc_known_gid ht (mh_next t) (known OR push_bit (UCI_GID (uci_message_id h0)) 1) })"

definition uci_message_handlers_unregister :: "'w uci \<Rightarrow> ptr option \<Rightarrow> 'w uci option" where
  "uci_message_handlers_unregister u handlers =
     do {
       (prev, cur) \<leftarrow> find_handlers (u_htab u) None (u_handlers_head u) handlers;
       case cur of
         None \<Rightarrow> Some u
       | Some p \<Rightarrow>
           do {
             t \<leftarrow> u_htab u p;
             u \<leftarrow> (case prev of
                     None \<Rightarrow> Some (u\<lparr>u_handlers_head := mh_next t\<rparr>)
                   | Some q \<Rightarrow>
                       do { tq \<leftarrow> u_htab u q;
                            Some (u\<lparr>u_htab := (u_htab u)(q \<mapsto> tq\<lparr>mh_next := mh_next t\<rparr>)\<rparr>) });
             known \<leftarrow> recalc_known_gid (u_htab u) (u_handlers_head u) 0;
             Some (u\<lparr>u_known_gid := known\<rparr>)
           }
     }"

definition gid_is_known :: "'w uci \<Rightarrow> 16 word \<Rightarrow> bool" where
  "gid_is_known u mt_gid_oid \<longleftrightarrow> u_known_gid u AND push_bit (UCI_GID mt_gid_oid) 1 \<noteq> 0"

text \<open>
  The loop of \<^verbatim>\<open>search_call_handler\<close> over the indices of the table; it stops at the first
  entry with a greater opcode.
\<close>

fun search_table :: "uci_message_handlers \<Rightarrow> 16 word \<Rightarrow> nat list \<Rightarrow> uci_message_handler option option" where
  "search_table t mid [] = Some None"
| "search_table t mid (i # is) =
     do { h \<leftarrow> handler_at t i;
          if UCI_OID mid < UCI_OID (uci_message_id h) then Some None
          else if uci_message_id h = mid then Some (Some h)
          else search_table t mid is }"

definition search_call_handler ::
    "'w uci_env \<Rightarrow> 'w uci \<Rightarrow> ptr \<Rightarrow> 16 word \<Rightarrow> (int option \<times> 'w uci) option" where
  "search_call_handler e u current mid =
     do {
       t \<leftarrow> u_htab u current;
       h0 \<leftarrow> handler_at t 0;
       if UCI_GID mid \<noteq> UCI_GID (uci_message_id h0) then Some (None, u)
       else do {
         r \<leftarrow> search_table t mid [0..<mh_n_handlers t];
         case r of
           None \<Rightarrow> Some (None, u)
         | Some h \<Rightarrow>
             do { (error, u) \<leftarrow> e_handler e (handler h) u mid (u_rx u) (mh_user_data t);
                  Some (Some error, u) }
       }
     }"

text \<open>The loop of \<^verbatim>\<open>handle_full_message\<close> over the tables; \<open>None\<close> is \<open>handled = false\<close>.\<close>

partial_function (option) search_handlers ::
    "'w uci_env \<Rightarrow> 'w uci \<Rightarrow> ptr option \<Rightarrow> 16 word \<Rightarrow> (int option \<times> 'w uci) option" where
  "search_handlers e u current mid =
     (case current of
        None \<Rightarrow> Some (None, u)
      | Some p \<Rightarrow>
          do {
            (r, u) \<leftarrow> search_call_handler e u p mid;
            case r of
              Some error \<Rightarrow> Some (Some error, u)
            | None \<Rightarrow> do { t \<leftarrow> u_htab u p; search_handlers e u (mh_next t) mid }
          })"

section \<open>The list of tables\<close>

text \<open>
  A usable table: its entries are there, belong to one group and are sorted by opcode.
\<close>

definition table_gid :: "uci_message_handlers \<Rightarrow> nat" where
  "table_gid t = UCI_GID (uci_message_id (mh_handlers t ! 0))"

definition entries :: "uci_message_handlers \<Rightarrow> uci_message_handler list" where
  "entries t = take (mh_n_handlers t) (mh_handlers t)"

definition table_ok :: "uci_message_handlers \<Rightarrow> bool" where
  "table_ok t \<longleftrightarrow> 0 < mh_n_handlers t \<and> mh_n_handlers t \<le> length (mh_handlers t) \<and>
     (\<forall>h \<in> set (entries t). UCI_GID (uci_message_id h) = table_gid t) \<and>
     sorted (map (\<lambda>h. UCI_OID (uci_message_id h)) (entries t))"

definition known_gids :: "htab \<Rightarrow> ptr list \<Rightarrow> nat set" where
  "known_gids ht ps = {g. \<exists>p \<in> set ps. \<exists>t. ht p = Some t \<and> table_gid t = g}"

text \<open>The invariant of the registrations: \<open>ps\<close> are the registered tables, latest first.\<close>

definition handlers_inv :: "'w uci \<Rightarrow> ptr list \<Rightarrow> bool" where
  "handlers_inv u ps \<longleftrightarrow> lchain mh_next (u_htab u) (u_handlers_head u) ps \<and>
     (\<forall>p \<in> set ps. \<exists>t. u_htab u p = Some t \<and> table_ok t) \<and>
     (\<forall>g < 16. bit (u_known_gid u) g \<longleftrightarrow> g \<in> known_gids (u_htab u) ps)"

lemma table_ok_nonempty: "table_ok t \<Longrightarrow> handler_at t 0 = Some (mh_handlers t ! 0)"
  by (auto simp: table_ok_def handler_at_def)

lemma table_gid_less: "table_gid t < 16"
  by (simp add: table_gid_def UCI_GID_less)

lemma same_gid_iff:
  "\<forall>i \<in> set is. i < length (mh_handlers t) \<Longrightarrow>
   same_gid t g is = Some (\<forall>i \<in> set is. UCI_GID (uci_message_id (mh_handlers t ! i)) = g)"
  by (induction "is") (auto simp: handler_at_def)

lemma table_ok_same_gid:
  assumes "table_ok t"
  shows "same_gid t (table_gid t) [1..<mh_n_handlers t] = Some True"
proof -
  have "UCI_GID (uci_message_id (mh_handlers t ! i)) = table_gid t" if "i < mh_n_handlers t" for i
  proof -
    have "entries t ! i \<in> set (entries t)"
      using assms that by (intro nth_mem) (simp add: table_ok_def entries_def)
    with assms that show ?thesis by (auto simp: table_ok_def entries_def)
  qed
  with assms show ?thesis by (subst same_gid_iff) (auto simp: table_ok_def)
qed

lemma table_upd_next [simp]:
  "table_ok (t\<lparr>mh_next := q\<rparr>) = table_ok t" "table_gid (t\<lparr>mh_next := q\<rparr>) = table_gid t"
  "entries (t\<lparr>mh_next := q\<rparr>) = entries t" "handler_at (t\<lparr>mh_next := q\<rparr>) i = handler_at t i"
  by (simp_all add: table_ok_def table_gid_def entries_def handler_at_def)

lemma known_gids_upd:
  "ht p = Some t \<Longrightarrow> known_gids (ht(p \<mapsto> t\<lparr>mh_next := q\<rparr>)) ps = known_gids ht ps"
  by (auto simp: known_gids_def split: if_splits) (metis option.inject table_upd_next(2))+

lemma known_gids_simps [simp]:
  "known_gids ht [] = {}"
  "ht p = Some t \<Longrightarrow> known_gids ht (p # ps) = insert (table_gid t) (known_gids ht ps)"
  by (auto simp: known_gids_def)

lemma bit_known_gid:
  "g < 16 \<Longrightarrow> bit (k OR push_bit n 1 :: 16 word) g \<longleftrightarrow> bit k g \<or> g = n"
  "g < 16 \<Longrightarrow> bit (k OR 2 ^ n :: 16 word) g \<longleftrightarrow> bit k g \<or> g = n"
  by (auto simp: bit_simps)

section \<open>Registration and removal\<close>

definition registered :: "'w uci \<Rightarrow> ptr \<Rightarrow> uci_message_handlers \<Rightarrow> 'w uci" where
  "registered u p t = u\<lparr>u_htab := (u_htab u)(p \<mapsto> t\<lparr>mh_next := u_handlers_head u\<rparr>), u_handlers_head := Some p,
     u_known_gid := u_known_gid u OR push_bit (table_gid t) 1\<rparr>"

lemma register_run:
  assumes "u_htab u p = Some t" and "table_ok t"
  shows "uci_message_handlers_register u (Some p) = Some (registered u p t)"
  using assms table_ok_nonempty [OF assms(2)] table_ok_same_gid [OF assms(2)]
  by (simp add: uci_message_handlers_register_def registered_def table_gid_def Let_def)

lemma registered_inv:
  assumes "handlers_inv u ps" and "u_htab u p = Some t" "table_ok t" "p \<notin> set ps"
  shows "handlers_inv (registered u p t) (p # ps)"
  using assms known_gids_upd [of "u_htab u" p, OF assms(2)]
  by (auto simp: handlers_inv_def registered_def bit_known_gid)

lemma register_inv:
  assumes "handlers_inv u ps" and "u_htab u p = Some t" "table_ok t" "p \<notin> set ps"
  shows "\<exists>u'. uci_message_handlers_register u (Some p) = Some u' \<and> handlers_inv u' (p # ps)"
  using register_run [OF assms(2,3)] registered_inv [OF assms] by blast

lemma register_mixed:
  assumes "u_htab u p = Some t" "mh_n_handlers t \<le> length (mh_handlers t)" "0 < length (mh_handlers t)"
    and "i < mh_n_handlers t" "UCI_GID (uci_message_id (mh_handlers t ! i)) \<noteq> table_gid t"
  shows "uci_message_handlers_register u (Some p) = Some u"
proof -
  have "i \<noteq> 0" using assms(5) by (cases i) (simp_all add: table_gid_def)
  with assms have "same_gid t (table_gid t) [1..<mh_n_handlers t] = Some False"
    by (subst same_gid_iff) force+
  with assms show ?thesis
    by (simp add: uci_message_handlers_register_def handler_at_def table_gid_def)
qed

lemma find_handlers_found:
  "lpath mh_next ht cur xs (Some p) \<Longrightarrow> p \<notin> set xs \<Longrightarrow>
   find_handlers ht prev cur (Some p) = Some (if xs = [] then prev else last_ptr xs, Some p)"
proof (induction xs arbitrary: prev cur)
  case Nil
  then show ?case by (simp add: find_handlers.simps)
next
  case (Cons a xs)
  then obtain t where t: "cur = Some a" "ht a = Some t" "lpath mh_next ht (mh_next t) xs (Some p)" "a \<noteq> p"
    by (auto split: option.splits)
  have "find_handlers ht prev cur (Some p) = find_handlers ht cur (mh_next t) (Some p)"
    using t by (subst find_handlers.simps) simp
  with Cons.IH [OF t(3)] Cons.prems(2) t(1) show ?case
    by (auto simp: last_ptr_def)
qed

lemma find_handlers_absent:
  "lchain mh_next ht cur ps \<Longrightarrow> p \<notin> Some ` set ps \<Longrightarrow>
   \<exists>prev'. find_handlers ht prev cur p = Some (prev', None)"
proof (induction ps arbitrary: prev cur)
  case Nil
  then show ?case by (simp add: find_handlers.simps)
next
  case (Cons a ps)
  then obtain t where t: "cur = Some a" "ht a = Some t" "lchain mh_next ht (mh_next t) ps"
    by (auto split: option.splits)
  have "find_handlers ht prev cur p = find_handlers ht cur (mh_next t) p"
    using t Cons.prems(2) by (subst find_handlers.simps) auto
  with Cons.IH [OF t(3)] Cons.prems(2) show ?case by simp
qed

lemma recalc_known:
  "lchain mh_next ht cur ps \<Longrightarrow> \<forall>p \<in> set ps. \<exists>t. ht p = Some t \<and> table_ok t \<Longrightarrow>
   \<exists>k'. recalc_known_gid ht cur k = Some k' \<and>
     (\<forall>g < 16. bit k' g \<longleftrightarrow> bit k g \<or> g \<in> known_gids ht ps)"
proof (induction ps arbitrary: cur k)
  case Nil
  then show ?case by (simp add: recalc_known_gid.simps)
next
  case (Cons a ps)
  then obtain t where t: "cur = Some a" "ht a = Some t" "table_ok t" "lchain mh_next ht (mh_next t) ps"
    by (auto split: option.splits)
  have "recalc_known_gid ht cur k = recalc_known_gid ht (mh_next t) (k OR push_bit (table_gid t) 1)"
    using t table_ok_nonempty [OF t(3)] by (subst recalc_known_gid.simps) (simp add: table_gid_def)
  with Cons.IH [OF t(4), of "k OR push_bit (table_gid t) 1"] Cons.prems(2) t(2) show ?case
    by (auto simp: bit_known_gid)
qed

lemma unregister_inv:
  assumes inv: "handlers_inv u (xs @ p # ys)"
  shows "\<exists>u'. uci_message_handlers_unregister u (Some p) = Some u' \<and> handlers_inv u' (xs @ ys)"
proof -
  from inv have ch: "lchain mh_next (u_htab u) (u_handlers_head u) (xs @ p # ys)"
    and ok: "\<forall>q \<in> set (xs @ p # ys). \<exists>t. u_htab u q = Some t \<and> table_ok t"
    by (simp_all add: handlers_inv_def)
  from chain_distinct [OF ch] have d: "p \<notin> set xs" "p \<notin> set ys" "set xs \<inter> set ys = {}" "distinct xs" by auto
  from ch obtain t where pth: "lpath mh_next (u_htab u) (u_handlers_head u) xs (Some p)"
    and t: "u_htab u p = Some t" and ys: "lchain mh_next (u_htab u) (mh_next t) ys"
    by (auto simp: path_append split: option.splits)
  note found = find_handlers_found [OF pth d(1), of None]
  have fin: "\<exists>u'. (do { known \<leftarrow> recalc_known_gid (u_htab u1) (u_handlers_head u1) 0;
                        Some (u1\<lparr>u_known_gid := known\<rparr>) }) = Some u' \<and> handlers_inv u' (xs @ ys)"
    if "lchain mh_next (u_htab u1) (u_handlers_head u1) (xs @ ys)"
      "\<forall>q \<in> set (xs @ ys). \<exists>t. u_htab u1 q = Some t \<and> table_ok t" for u1 :: "'a uci"
    using recalc_known [OF that, of 0] that by (auto simp: handlers_inv_def)
  show ?thesis
  proof (cases xs rule: rev_cases)
    case Nil
    have "\<exists>u'. (do { known \<leftarrow> recalc_known_gid (u_htab u) (mh_next t) 0;
       Some (u\<lparr>u_handlers_head := mh_next t, u_known_gid := known\<rparr>) }) = Some u' \<and> handlers_inv u' (xs @ ys)"
      using fin [of "u\<lparr>u_handlers_head := mh_next t\<rparr>"] Nil ys ok by simp
    then show ?thesis
      using found Nil t by (simp add: uci_message_handlers_unregister_def)
  next
    case (snoc zs q)
    with pth obtain tq where tq: "u_htab u q = Some tq" "lpath mh_next (u_htab u) (u_handlers_head u) zs (Some q)"
      by (auto simp: path_snoc)
    let ?ht = "(u_htab u)(q \<mapsto> tq\<lparr>mh_next := mh_next t\<rparr>)"
    have "q \<notin> set zs" "q \<notin> set ys" using d snoc by auto
    then have "lchain mh_next ?ht (u_handlers_head u) (xs @ ys)"
      using snoc tq ys by (auto simp: path_append)
    moreover have "table_ok tq"
      using ok tq(1) snoc by auto
    then have "\<forall>a \<in> set (xs @ ys). \<exists>t. ?ht a = Some t \<and> table_ok t"
      using ok by auto
    ultimately show ?thesis
      using fin [of "u\<lparr>u_htab := ?ht\<rparr>"] found snoc t tq
      by (simp add: uci_message_handlers_unregister_def)
  qed
qed

lemma unregister_absent:
  assumes "handlers_inv u ps" "p \<notin> Some ` set ps"
  shows "uci_message_handlers_unregister u p = Some u"
  using assms find_handlers_absent [of "u_htab u" "u_handlers_head u" ps p None]
  by (auto simp: handlers_inv_def uci_message_handlers_unregister_def)

section \<open>Lookup\<close>

text \<open>The early exit on a greater opcode loses nothing when the table is sorted by opcode.\<close>

lemma search_table_find:
  "\<forall>i \<in> set is. i < length (mh_handlers t) \<Longrightarrow>
   sorted (map (\<lambda>i. UCI_OID (uci_message_id (mh_handlers t ! i))) is) \<Longrightarrow>
   search_table t mid is =
     Some (find (\<lambda>h. uci_message_id h = mid) (map (\<lambda>i. mh_handlers t ! i) is))"
proof (induction "is")
  case Nil
  then show ?case by simp
next
  case (Cons i "is")
  have none: "find (\<lambda>h. uci_message_id h = mid) (map (\<lambda>i. mh_handlers t ! i) (i # is)) = None"
    if "UCI_OID mid < UCI_OID (uci_message_id (mh_handlers t ! i))"
    using that Cons.prems(2) by (fastforce simp: find_None_iff)
  from Cons none show ?case by (auto simp: handler_at_def)
qed

lemma search_table_ok:
  assumes "table_ok t"
  shows "search_table t mid [0..<mh_n_handlers t] =
    Some (find (\<lambda>h. uci_message_id h = mid) (entries t))"
proof -
  have e: "map (\<lambda>i. mh_handlers t ! i) [0..<mh_n_handlers t] = entries t"
    using assms by (auto simp: table_ok_def entries_def intro!: nth_equalityI)
  have "map (\<lambda>i. UCI_OID (uci_message_id (mh_handlers t ! i))) [0..<mh_n_handlers t] =
    map (\<lambda>h. UCI_OID (uci_message_id h)) (entries t)"
    unfolding e [symmetric] by simp
  with assms show ?thesis
    by (subst search_table_find) (auto simp: e table_ok_def)
qed

text \<open>
  The registered tables as an association list: message identifier to function and user data.
\<close>

definition table_map :: "uci_message_handlers \<Rightarrow> (16 word \<times> nat \<times> nat) list" where
  "table_map t = map (\<lambda>h. (uci_message_id h, handler h, mh_user_data t)) (entries t)"

definition handler_map :: "htab \<Rightarrow> ptr list \<Rightarrow> (16 word \<times> nat \<times> nat) list" where
  "handler_map ht ps = concat (map (\<lambda>p. case ht p of None \<Rightarrow> [] | Some t \<Rightarrow> table_map t) ps)"

lemma map_of_find:
  "map_of (map (\<lambda>x. (k x, f x)) xs) i = map_option f (find (\<lambda>x. k x = i) xs)"
  by (induction xs) auto

lemma map_of_table_map:
  "map_of (table_map t) mid =
   map_option (\<lambda>h. (handler h, mh_user_data t)) (find (\<lambda>h. uci_message_id h = mid) (entries t))"
  unfolding table_map_def by (rule map_of_find)

lemma find_other_gid:
  "table_ok t \<Longrightarrow> UCI_GID mid \<noteq> table_gid t \<Longrightarrow> find (\<lambda>h. uci_message_id h = mid) (entries t) = None"
  by (auto simp: table_ok_def find_None_iff)

lemma search_call_handler_ok:
  assumes "u_htab u p = Some t" "table_ok t"
  shows "search_call_handler e u p mid =
    (case map_of (table_map t) mid of
       None \<Rightarrow> Some (None, u)
     | Some (f, d) \<Rightarrow> do { (error, u) \<leftarrow> e_handler e f u mid (u_rx u) d; Some (Some error, u) })"
proof (cases "UCI_GID mid = table_gid t")
  case True
  then show ?thesis
    using assms table_ok_nonempty [OF assms(2)] search_table_ok [OF assms(2), of mid]
    by (auto simp: search_call_handler_def map_of_table_map table_gid_def split: option.splits)
next
  case False
  then show ?thesis
    using assms table_ok_nonempty [OF assms(2)] find_other_gid [OF assms(2) False]
    by (simp add: search_call_handler_def map_of_table_map table_gid_def)
qed

lemma search_handlers_lookup:
  "lchain mh_next (u_htab u) cur ps \<Longrightarrow> \<forall>p \<in> set ps. \<exists>t. u_htab u p = Some t \<and> table_ok t \<Longrightarrow>
   search_handlers e u cur mid =
     (case map_of (handler_map (u_htab u) ps) mid of
        None \<Rightarrow> Some (None, u)
      | Some (f, d) \<Rightarrow> do { (error, u) \<leftarrow> e_handler e f u mid (u_rx u) d; Some (Some error, u) })"
proof (induction ps arbitrary: cur)
  case Nil
  then show ?case by (simp add: search_handlers.simps handler_map_def)
next
  case (Cons p ps)
  then obtain t where t: "cur = Some p" "u_htab u p = Some t" "table_ok t"
    "lchain mh_next (u_htab u) (mh_next t) ps"
    by (auto split: option.splits)
  note IH = Cons.IH [OF t(4)] and sc = search_call_handler_ok [OF t(2,3), of e mid]
  show ?case
  proof (cases "map_of (table_map t) mid")
    case None
    then have "map_of (handler_map (u_htab u) (p # ps)) mid = map_of (handler_map (u_htab u) ps) mid"
      using t by (simp add: handler_map_def map_add_def)
    with None t sc IH Cons.prems(2) show ?thesis
      by (subst search_handlers.simps) simp
  next
    case (Some fd)
    then have "map_of (handler_map (u_htab u) (p # ps)) mid = Some fd"
      using t by (simp add: handler_map_def)
    with Some t sc show ?thesis
      by (subst search_handlers.simps) (auto split: prod.splits intro!: Option.bind_cong)
  qed
qed

end
