(* ===== verification/Uci_Tx.thy ===== *)
theory Uci_Tx
  imports Uci_State
begin

text \<open>
  The sending side of \<^verbatim>\<open>uci.c\<close>: packet headers are written over the reserved bytes of a message,
  its blocks are appended to the transmit queue, and the transport takes the queue packet by
  packet. The chain a message turns into is shown to be the segmentation of its payload, and the
  queue to be a first-in first-out queue of packets.
\<close>

section \<open>Operations\<close>

text \<open>\<open>uint16_t remaining\<close> after an assignment of an \<open>int\<close>.\<close>

definition u16_of_int :: "int \<Rightarrow> nat" where
  "u16_of_int i = nat (i mod 65536)"

definition queue_packet :: "'w uci \<Rightarrow> ptr option \<Rightarrow> ptr option \<Rightarrow> 'w uci option" where
  "queue_packet u first lst =
     do {
       u \<leftarrow> (if u_tx u \<noteq> None then upd_blk u (u_tx_last u) (\<lambda>b. Some (b\<lparr>b_next := first\<rparr>))
             else Some (u\<lparr>u_tx := first\<rparr>));
       Some (u\<lparr>u_tx_last := lst\<rparr>)
     }"

text \<open>One iteration of the loop of \<^verbatim>\<open>uci_put_headers_to_blocks\<close>.\<close>

definition put_header :: "16 word \<Rightarrow> uci_blk \<Rightarrow> nat \<Rightarrow> (uci_blk \<times> nat) option" where
  "put_header mid b remaining =
     (if uci_blk_has_header b then
        do {
          b' \<leftarrow> (if is_control_mt (UCI_MT mid) then uci_blk_put_control_header b mid remaining
                 else if is_data_mt (UCI_MT mid) then uci_blk_put_data_header b mid remaining
                 else None);
          Some (b', u16_of_int (int remaining - (int (b_len b) - int UCI_PACKET_HEADER_SIZE)))
        }
      else Some (b, u16_of_int (int remaining - int (b_len b))))"

partial_function (option) put_headers_loop ::
    "mem \<Rightarrow> 16 word \<Rightarrow> ptr option \<Rightarrow> ptr option \<Rightarrow> nat \<Rightarrow> (ptr option \<times> mem) option" where
  "put_headers_loop m mid current lst remaining =
     (case current of
        None \<Rightarrow> Some (lst, m)
      | Some p \<Rightarrow>
          do {
            b \<leftarrow> heap m p;
            (b', remaining) \<leftarrow> put_header mid b remaining;
            put_headers_loop (put_blk m p b') mid (b_next b) current remaining
          })"

definition uci_put_headers_to_blocks :: "mem \<Rightarrow> 16 word \<Rightarrow> ptr \<Rightarrow> (ptr option \<times> mem) option" where
  "uci_put_headers_to_blocks m mid blks =
     do { b \<leftarrow> heap m blks;
          put_headers_loop m mid (Some blks) (Some blks) (b_total_len b) }"

text \<open>\<open>uci->tr->ops->packet_send_ready(uci->tr)\<close>.\<close>

definition packet_send_ready :: "'w uci_env \<Rightarrow> 'w uci \<Rightarrow> 'w uci option" where
  "packet_send_ready e u = do { tr \<leftarrow> u_tr u; e_packet_send_ready e u }"

definition uci_send_se_message :: "'w uci_env \<Rightarrow> 'w uci \<Rightarrow> nat \<Rightarrow> ptr option \<Rightarrow> 'w uci option" where
  "uci_send_se_message e u mt blks =
     do {
       b \<leftarrow> blk_of (u_mem u) blks;
       if \<not> uci_blk_has_header b then None
       else do {
         u \<leftarrow> upd_blk u blks (\<lambda>b.
                do { d \<leftarrow> write_buf (b_data b) 0
                       [push_bit 5 (word_of_nat mt), 0, word_of_nat (b_total_len b),
                        word_of_nat (b_total_len b div 256)];
                     Some (b\<lparr>b_data := d\<rparr>) });
         u \<leftarrow> qmutex_lock u;
         u \<leftarrow> queue_packet u blks blks;
         u \<leftarrow> qmutex_unlock u;
         packet_send_ready e u
       }
     }"

text \<open>The part of \<^verbatim>\<open>uci_send_message\<close> that holds the mutex, once there is a payload.\<close>

definition queue_message :: "'w uci_env \<Rightarrow> 'w uci \<Rightarrow> 16 word \<Rightarrow> ptr \<Rightarrow> 'w uci option" where
  "queue_message e u mid blks =
     do {
       (last_blk, m) \<leftarrow> uci_put_headers_to_blocks (u_mem u) mid blks;
       u \<leftarrow> queue_packet (u\<lparr>u_mem := m\<rparr>) (Some blks) last_blk;
       if u_rsp_blk u = None
       then do { (blk, u) \<leftarrow> uci_alloc_status e u; Some (u\<lparr>u_rsp_blk := blk\<rparr>) }
       else Some u
     }"

definition uci_send_message :: "'w uci_env \<Rightarrow> 'w uci \<Rightarrow> 16 word \<Rightarrow> ptr option \<Rightarrow> 'w uci option" where
  "uci_send_message e u mid blks =
     do {
       u \<leftarrow> qmutex_lock u;
       if u_tr u = None then do { u \<leftarrow> free_all e u blks; qmutex_unlock u }
       else do {
         (blks, u) \<leftarrow> (if blks = None then uci_get_prealloc_status e u else Some (blks, u));
         case blks of
           None \<Rightarrow> qmutex_unlock u
         | Some p \<Rightarrow>
             do {
               u \<leftarrow> queue_message e u mid p;
               u \<leftarrow> qmutex_unlock u;
               packet_send_ready e u
             }
       }
     }"

definition uci_send_status :: "'w uci_env \<Rightarrow> 'w uci \<Rightarrow> 16 word \<Rightarrow> byte \<Rightarrow> 'w uci option" where
  "uci_send_status e u gid_oid status =
     do {
       u \<leftarrow> qmutex_lock u;
       if u_tr u = None then qmutex_unlock u
       else do {
         (blk, u) \<leftarrow> uci_get_prealloc_status e u;
         if blk = None then qmutex_unlock u
         else do {
           u \<leftarrow> upd_blk u blk (\<lambda>b.
                  do { d \<leftarrow> write_buf (b_data b) UCI_PACKET_HEADER_SIZE [status];
                       Some (b\<lparr>b_data := d, b_len := u16 (b_len b + 1),
                               b_total_len := u16 (b_total_len b + 1)\<rparr>) });
           u \<leftarrow> qmutex_unlock u;
           uci_send_message e u (RSP gid_oid) blk
         }
       }
     }"

text \<open>
  The loop of \<^verbatim>\<open>uci_packet_send_get_ready\<close>: cut the queue in front of the first block after
  \<open>current\<close> that starts a packet. The result is the new head of the queue.
\<close>

partial_function (option) cut_packet :: "mem \<Rightarrow> ptr option \<Rightarrow> (ptr option \<times> mem) option" where
  "cut_packet m current =
     (case current of
        None \<Rightarrow> Some (None, m)
      | Some p \<Rightarrow>
          do {
            b \<leftarrow> heap m p;
            case b_next b of
              None \<Rightarrow> Some (None, m)
            | Some q \<Rightarrow>
                do {
                  b' \<leftarrow> heap m q;
                  if uci_blk_has_header b' then Some (Some q, put_blk m p (b\<lparr>b_next := None\<rparr>))
                  else cut_packet m (Some q)
                }
          })"

definition uci_packet_send_get_ready :: "'w uci \<Rightarrow> (ptr option \<times> 'w uci) option" where
  "uci_packet_send_get_ready u =
     do {
       u \<leftarrow> qmutex_lock u;
       (tx, m) \<leftarrow> cut_packet (u_mem u) (u_tx u);
       u' \<leftarrow> qmutex_unlock (u\<lparr>u_mem := m, u_tx := tx\<rparr>);
       Some (u_tx u, u')
     }"

definition uci_packet_send_done :: "'w uci_env \<Rightarrow> 'w uci \<Rightarrow> ptr option \<Rightarrow> int \<Rightarrow> 'w uci option" where
  "uci_packet_send_done e u packet status =
     do {
       u \<leftarrow> free_all e u packet;
       if status \<noteq> 0 then do { u \<leftarrow> free_all e u (u_tx u); Some (u\<lparr>u_tx := None\<rparr>) } else Some u
     }"

definition uci_send_message_raw :: "'w uci_env \<Rightarrow> 'w uci \<Rightarrow> ptr option \<Rightarrow> 'w uci option" where
  "uci_send_message_raw e u blks = do { tr \<leftarrow> u_tr u; e_packet_send_raw e u blks }"

text \<open>
  The notifications of the server: a message with one byte, sent when it could be built, and an
  empty one otherwise.
\<close>

definition send_byte_notification :: "'w uci_env \<Rightarrow> 'w uci \<Rightarrow> nat \<Rightarrow> nat \<Rightarrow> byte \<Rightarrow> 'w uci option" where
  "send_byte_notification e u gid oid v =
     do {
       (r, m, builder) \<leftarrow> uci_message_put_8bit (e_allocator e) (u_mem u)
                            (UCI_MESSAGE_BUILDER_INITIALIZER_WITH_SIZE 5) v;
       uci_send_message e (u\<lparr>u_mem := m\<rparr>)
         (UCI_MT_GID_OID UCI_MESSAGE_TYPE_NOTIFICATION gid oid) (mb_message builder)
     }"

definition uci_set_device_state_notification :: "'w uci_env \<Rightarrow> 'w uci \<Rightarrow> byte \<Rightarrow> 'w uci option" where
  "uci_set_device_state_notification e u state =
     (if u_is_client u then Some u
      else if u_device_state u = UCI_DEVICE_STATE_ERROR then Some u
      else if u_device_state u = state then Some u
      else send_byte_notification e (u\<lparr>u_device_state := state\<rparr>) UCI_GID_CORE
             UCI_OID_CORE_DEVICE_STATUS state)"

definition uci_reset_device_state :: "'w uci_env \<Rightarrow> 'w uci \<Rightarrow> 'w uci option" where
  "uci_reset_device_state e u =
     (if u_is_client u then Some u
      else send_byte_notification e (u\<lparr>u_device_state := UCI_DEVICE_STATE_READY\<rparr>) UCI_GID_CORE
             UCI_OID_CORE_DEVICE_STATUS UCI_DEVICE_STATE_READY)"

definition uci_send_device_boot_notification :: "'w uci_env \<Rightarrow> 'w uci \<Rightarrow> byte \<Rightarrow> 'w uci option" where
  "uci_send_device_boot_notification e u boot_reason =
     (if u_is_client u then Some u
      else send_byte_notification e u UCI_GID_QORVO_EXT2 UCI_OID_QORVO_CORE_DEVICE_BOOT boot_reason)"

section \<open>Segmentation\<close>

text \<open>
  The packets a message is to be sent as: its payload in pieces of 255 bytes, each behind a
  header that carries the identifier, the length of the piece and the segment flag when more
  follows.
\<close>

definition sendable :: "16 word \<Rightarrow> bool" where
  "sendable mid \<longleftrightarrow> is_control_mt (UCI_MT mid) \<or> is_data_mt (UCI_MT mid)"

definition pkt_header :: "16 word \<Rightarrow> nat \<Rightarrow> bytes" where
  "pkt_header mid remaining =
     (if is_control_mt (UCI_MT mid) then control_header mid remaining else data_header mid remaining)"

fun segment :: "16 word \<Rightarrow> bytes \<Rightarrow> bytes list" where
  "segment mid bs =
     (pkt_header mid (length bs) @ take UCI_MAX_CONTROL_PAYLOAD_SIZE bs) #
     (if length bs > UCI_MAX_CONTROL_PAYLOAD_SIZE
      then segment mid (drop UCI_MAX_CONTROL_PAYLOAD_SIZE bs) else [])"

declare segment.simps [simp del]

text \<open>
  The packets of a chain: it is cut in front of every block with a header. What goes over the
  wire for a packet is the data of its blocks.
\<close>

definition starts_packet :: "heap \<Rightarrow> ptr \<Rightarrow> bool" where
  "starts_packet h a \<longleftrightarrow> (case h a of None \<Rightarrow> False | Some b \<Rightarrow> uci_blk_has_header b)"

function packets :: "heap \<Rightarrow> ptr list \<Rightarrow> ptr list list" where
  "packets h [] = []"
| "packets h (a # as) =
     (a # takeWhile (\<lambda>x. \<not> starts_packet h x) as) # packets h (dropWhile (\<lambda>x. \<not> starts_packet h x) as)"
  by pat_completeness auto
termination
  by (relation "measure (\<lambda>(h, as). length as)") (auto simp: le_imp_less_Suc length_dropWhile_le)

definition blk_data :: "heap \<Rightarrow> ptr \<Rightarrow> bytes" where
  "blk_data h a = (case h a of None \<Rightarrow> [] | Some b \<Rightarrow> take (b_len b) (b_data b))"

definition wire :: "heap \<Rightarrow> ptr list \<Rightarrow> bytes" where
  "wire h as = concat (map (blk_data h) as)"

definition wires :: "heap \<Rightarrow> ptr list \<Rightarrow> bytes list" where
  "wires h as = map (wire h) (packets h as)"

lemma length_pkt_header [simp]: "length (pkt_header mid n) = 4"
  by (simp add: pkt_header_def control_header_def data_header_def Let_def)

lemma packets_cong:
  "(\<And>a. a \<in> set as \<Longrightarrow> starts_packet h' a = starts_packet h a) \<Longrightarrow> packets h' as = packets h as"
proof (induction h as rule: packets.induct)
  case (2 h a as)
  have tw: "takeWhile (\<lambda>x. \<not> starts_packet h' x) as = takeWhile (\<lambda>x. \<not> starts_packet h x) as"
    using 2(2) by (intro takeWhile_cong) simp_all
  have dw: "dropWhile (\<lambda>x. \<not> starts_packet h' x) as = dropWhile (\<lambda>x. \<not> starts_packet h x) as"
    using 2(2) by (intro dropWhile_cong) simp_all
  have "packets h' (dropWhile (\<lambda>x. \<not> starts_packet h x) as) = packets h (dropWhile (\<lambda>x. \<not> starts_packet h x) as)"
    using 2(2) by (intro 2(1)) (auto dest: set_dropWhileD)
  with tw dw show ?case by simp
qed simp

lemma set_packets: "ps \<in> set (packets h as) \<Longrightarrow> set ps \<subseteq> set as"
proof (induction h as rule: packets.induct)
  case (2 h a as)
  then show ?case by (fastforce dest: set_takeWhileD set_dropWhileD)
qed simp

lemma wires_cong:
  assumes "\<And>a. a \<in> set as \<Longrightarrow> starts_packet h' a = starts_packet h a \<and> blk_data h' a = blk_data h a"
  shows "wires h' as = wires h as"
proof -
  have "packets h' as = packets h as" using assms by (intro packets_cong) simp
  moreover have "wire h' ps = wire h ps" if "ps \<in> set (packets h as)" for ps
    unfolding wire_def using set_packets [OF that] assms
    by (intro arg_cong [where f = concat] map_cong) auto
  ultimately show ?thesis by (simp add: wires_def)
qed

lemma packets_append:
  "bs = [] \<or> starts_packet h (hd bs) \<Longrightarrow> packets h (as @ bs) = packets h as @ packets h bs"
proof (induction h as rule: packets.induct)
  case (2 h a as)
  show ?case
  proof (cases "\<exists>x \<in> set as. starts_packet h x")
    case True
    with 2 show ?thesis by (auto simp: takeWhile_append1 dropWhile_append1)
  next
    case False
    with 2(2) have "takeWhile (\<lambda>x. \<not> starts_packet h x) (as @ bs) = as"
      "dropWhile (\<lambda>x. \<not> starts_packet h x) (as @ bs) = bs"
      by (cases bs; auto simp: takeWhile_append dropWhile_append)+
    moreover have "takeWhile (\<lambda>x. \<not> starts_packet h x) as = as" "dropWhile (\<lambda>x. \<not> starts_packet h x) as = []"
      using False by (simp_all add: takeWhile_eq_all_conv)
    ultimately show ?thesis by (simp only: packets.simps append_Cons append_Nil)
  qed
qed simp

lemma wires_append:
  "bs = [] \<or> starts_packet h (hd bs) \<Longrightarrow> wires h (as @ bs) = wires h as @ wires h bs"
  by (simp add: wires_def packets_append)

text \<open>The length of a block and whether it starts a packet: the shape, which writing the headers keeps.\<close>

definition blk_shape :: "heap \<Rightarrow> ptr \<Rightarrow> (nat \<times> bool) option" where
  "blk_shape h a = map_option (\<lambda>b. (b_len b, uci_blk_has_header b)) (h a)"

lemma shape_packets:
  assumes "\<forall>a \<in> set as. blk_shape h' a = blk_shape h a"
  shows "packets h' as = packets h as"
  using assms by (intro packets_cong) (auto simp: blk_shape_def starts_packet_def split: option.splits)

section \<open>What a header says\<close>

text \<open>
  An identifier that a header can carry: the bit of the segment flag is free, and a data packet
  has no opcode.
\<close>

definition header_id :: "16 word \<Rightarrow> bool" where
  "header_id mid \<longleftrightarrow> sendable mid \<and> \<not> bit mid 12 \<and>
     (is_data_mt (UCI_MT mid) \<longrightarrow> take_bit 8 mid = 0)"

definition id_of :: "bytes \<Rightarrow> 16 word" where
  "id_of hdr = uci_blk_get_uci_message_id hdr (uci_blk_get_mt hdr)"

definition first_byte :: "16 word \<Rightarrow> bool \<Rightarrow> byte" where
  "first_byte mid s = ucast ((drop_bit 8 mid OR (if s then 0x10 else 0)) AND 0xff :: 16 word)"

lemma bit_first_byte: "bit (first_byte mid s) n \<longleftrightarrow> n < 8 \<and> (bit mid (n + 8) \<or> s \<and> n = 4)"
  by (auto simp: first_byte_def and_mask_take_bit bit_simps bit_0x10 add.commute
      simp del: bit_numeral_word_iff)

lemma first_byte_mt: "\<not> bit mid 12 \<Longrightarrow> unat (drop_bit 5 (first_byte mid s)) = UCI_MT mid"
proof -
  assume "\<not> bit mid 12"
  then have "ucast (drop_bit 5 (first_byte mid s)) = (drop_bit 13 mid AND 0x7)"
    by (intro bit_word_eqI) (auto simp: bit_first_byte bit_simps and_mask_take_bit add.commute)
  then show ?thesis unfolding UCI_MT_def by (metis unat_ucast_8_16)
qed

lemma first_byte_segment: "\<not> bit mid 12 \<Longrightarrow> first_byte mid s AND 0x10 \<noteq> 0 \<longleftrightarrow> s"
proof -
  assume "\<not> bit mid 12"
  then have "bit (first_byte mid s AND 0x10) n \<longleftrightarrow> s \<and> n = 4" for n
    by (auto simp: bit_first_byte bit_and_iff bit_0x10 simp del: bit_numeral_word_iff)
  then show ?thesis by (metis bit_0_eq bit_eq_iff bot_apply bot_bool_def)
qed

lemma first_byte_id:
  "\<not> bit mid 12 \<Longrightarrow> push_bit 8 (ucast (first_byte mid s AND 0xEF)) = push_bit 8 (drop_bit 8 mid)"
  by (rule bit_word_eqI) (auto simp: bit_simps bit_first_byte bit_0xEF simp del: bit_numeral_word_iff)

lemma control_header_fields:
  assumes "\<not> bit mid 12" and "is_control_mt (UCI_MT mid)" and n: "n < 65536"
  shows "uci_blk_get_mt (control_header mid n) = UCI_MT mid"
    and "id_of (control_header mid n) = mid"
    and "uci_blk_is_segment (control_header mid n) \<longleftrightarrow> n > UCI_MAX_CONTROL_PAYLOAD_SIZE"
    and "uci_packet_hdr_get_payload_size (control_header mid n) = min n UCI_MAX_CONTROL_PAYLOAD_SIZE"
proof -
  let ?h = "control_header mid n"
  have h0: "?h ! 0 = first_byte mid (n > 255)" and h1: "?h ! 1 = ucast mid"
    and h3: "?h ! 3 = word_of_nat (min n 255)"
    using n by (simp_all add: control_header_def first_byte_def Let_def and_mask_take_bit min_def)
      (rule bit_word_eqI, auto simp: bit_simps)
  show mt: "uci_blk_get_mt ?h = UCI_MT mid"
    using assms(1) by (simp add: uci_blk_get_mt_def h0 first_byte_mt)
  have "ucast (ucast mid :: byte) OR push_bit 8 (drop_bit 8 mid) = mid"
  proof (rule bit_word_eqI)
    fix i assume "i < LENGTH(16)"
    then show "bit (ucast (ucast mid :: byte) OR push_bit 8 (drop_bit 8 mid)) i \<longleftrightarrow> bit mid i"
      by (cases "i < 8") (simp_all add: bit_simps)
  qed
  then have "uci_blk_get_mt_gid_oid ?h = mid"
    using assms(1) unfolding uci_blk_get_mt_gid_oid_def h0 h1 by (simp only: first_byte_id simp_thms)
  then show "id_of ?h = mid"
    using assms(2) unfolding id_of_def uci_blk_get_uci_message_id_def mt by (auto simp: is_control_mt_def)
  show "uci_blk_is_segment ?h \<longleftrightarrow> n > 255"
    using assms(1) by (simp add: uci_blk_is_segment_def h0 first_byte_segment)
  have "unat (word_of_nat (min n 255) :: byte) = min n 255" by (simp add: unat_of_nat)
  then show "uci_packet_hdr_get_payload_size ?h = min n 255"
    using assms(2) unfolding uci_packet_hdr_get_payload_size_def mt h3 by (auto simp: is_control_mt_def)
qed

lemma data_header_fields:
  assumes "\<not> bit mid 12" and "is_data_mt (UCI_MT mid)" and "take_bit 8 mid = 0" and n: "n < 65536"
  shows "uci_blk_get_mt (data_header mid n) = UCI_MT mid"
    and "id_of (data_header mid n) = mid"
    and "uci_blk_is_segment (data_header mid n) \<longleftrightarrow> n > UCI_MAX_DATA_PAYLOAD_SIZE"
    and "uci_packet_hdr_get_payload_size (data_header mid n) = min n UCI_MAX_DATA_PAYLOAD_SIZE"
proof -
  let ?h = "data_header mid n"
  have h0: "?h ! 0 = first_byte mid (n > 255)" and h2: "?h ! 2 = word_of_nat (min n 255)"
    and h3: "?h ! 3 = 0"
    using n by (simp_all add: data_header_def first_byte_def Let_def min_def)
  show mt: "uci_blk_get_mt ?h = UCI_MT mid"
    using assms(1) by (simp add: uci_blk_get_mt_def h0 first_byte_mt)
  have "push_bit 8 (drop_bit 8 mid) = mid"
  proof (rule bit_word_eqI)
    fix i assume "i < LENGTH(16)"
    moreover have "\<not> bit mid i" if "i < 8"
      using assms(3) that by (metis bit_0_eq bit_take_bit_iff bot_apply bot_bool_def)
    ultimately show "bit (push_bit 8 (drop_bit 8 mid)) i \<longleftrightarrow> bit mid i"
      by (cases "i < 8") (simp_all add: bit_simps)
  qed
  then have "uci_blk_get_mt_dpf ?h = mid"
    using assms(1) by (simp add: uci_blk_get_mt_dpf_def h0 first_byte_id)
  then show "id_of ?h = mid"
    using assms(2) unfolding id_of_def uci_blk_get_uci_message_id_def mt by (auto simp: is_data_mt_def)
  show "uci_blk_is_segment ?h \<longleftrightarrow> n > 255"
    using assms(1) by (simp add: uci_blk_is_segment_def h0 first_byte_segment)
  have "unat (word_of_nat (min n 255) :: byte) = min n 255" by (simp add: unat_of_nat)
  then show "uci_packet_hdr_get_payload_size ?h = min n 255"
    using assms(2) unfolding uci_packet_hdr_get_payload_size_def mt h2 h3 by (auto simp: is_data_mt_def)
qed

lemma pkt_header_fields:
  assumes "header_id mid" and "n < 65536"
  shows "uci_blk_get_mt (pkt_header mid n) = UCI_MT mid"
    and "id_of (pkt_header mid n) = mid"
    and "uci_blk_is_segment (pkt_header mid n) \<longleftrightarrow> n > UCI_MAX_CONTROL_PAYLOAD_SIZE"
    and "uci_packet_hdr_get_payload_size (pkt_header mid n) = min n UCI_MAX_CONTROL_PAYLOAD_SIZE"
  using assms control_header_fields [of mid n] data_header_fields [of mid n]
  by (auto simp: header_id_def sendable_def pkt_header_def)

section \<open>A chain as packets\<close>

text \<open>A header in front of each packet announces what remains of the message.\<close>

primrec headers :: "16 word \<Rightarrow> heap \<Rightarrow> ptr list \<Rightarrow> nat \<Rightarrow> bool" where
  "headers mid h [] n \<longleftrightarrow> True"
| "headers mid h (a # as) n \<longleftrightarrow>
     (case h a of None \<Rightarrow> False | Some b \<Rightarrow>
        (uci_blk_has_header b \<longrightarrow> take UCI_PACKET_HEADER_SIZE (b_data b) = pkt_header mid n) \<and>
        headers mid h as (n - plen b))"

lemma headers_upd_other [simp]: "a \<notin> set as \<Longrightarrow> headers mid (h(a := v)) as n = headers mid h as n"
  by (induction as arbitrary: n) (auto split: option.splits)

lemma blk_data_header:
  assumes "own_blk b" and "uci_blk_has_header b"
  shows "take (b_len b) (b_data b) = take UCI_PACKET_HEADER_SIZE (b_data b) @ blk_payload b"
proof -
  have "4 \<le> b_len b" using assms by (simp add: own_blk_def blk_ok_def)
  have "take (b_len b) (b_data b) = take 4 (take (b_len b) (b_data b)) @ drop 4 (take (b_len b) (b_data b))"
    by (rule append_take_drop_id [symmetric])
  with \<open>4 \<le> b_len b\<close> assms(2) show ?thesis
    by (simp add: blk_payload_def min_def)
qed

lemma wire_payload:
  "\<forall>a \<in> set as. \<not> starts_packet h a \<Longrightarrow> wire h as = payload h as"
  by (induction as) (auto simp: wire_def blk_data_def blk_at_def starts_packet_def blk_payload_def
      split: option.splits)

text \<open>The blocks up to the next header hold the rest of the current packet.\<close>

lemma layout_rest_of_packet:
  assumes "layout h k as" and "no_empty h as" and "k mod 255 \<noteq> 0"
  shows "payload h (takeWhile (\<lambda>x. \<not> starts_packet h x) as) = take (255 - k mod 255) (payload h as)"
  using assms
proof (induction as arbitrary: k)
  case Nil
  then show ?case by simp
next
  case (Cons a as)
  then obtain b where b: "h a = Some b" "\<not> uci_blk_has_header b" "k mod 255 + plen b \<le> 255"
    "layout h (k + plen b) as" "0 < plen b"
    by (auto simp: plen_def blk_at_def split: option.splits)
  have ph: "\<not> starts_packet h a" and pl: "blk_at h a = blk_payload b" "plen b = length (blk_payload b)"
    using b by (simp_all add: starts_packet_def blk_at_def plen_def)
  show ?case
  proof (cases "k mod 255 + plen b = 255")
    case True
    then have 0: "(k + plen b) mod 255 = 0" by (metis mod_add_left_eq mod_self)
    have "takeWhile (\<lambda>x. \<not> starts_packet h x) as = []"
      using b(4) 0 by (cases as) (auto simp: starts_packet_def split: option.splits)
    with True ph pl show ?thesis by simp
  next
    case False
    then have "(k + plen b) mod 255 = k mod 255 + plen b"
      using b(3) by (metis le_neq_implies_less mod_add_left_eq mod_less)
    with Cons.IH [OF b(4)] Cons.prems(2) b(5) False b(3) ph pl show ?thesis
      by (simp add: diff_diff_left)
  qed
qed

lemma headers_append:
  "headers mid h (as @ bs) n \<longleftrightarrow>
   headers mid h as n \<and> headers mid h bs (n - length (payload h as))"
  by (induction as arbitrary: n) (auto simp: plen_def blk_at_def diff_diff_left split: option.splits)

lemma layout_first_packet:
  assumes lay: "layout h k (a # as)" and ne: "no_empty h (a # as)" and k: "k mod 255 = 0"
  shows "payload h (a # takeWhile (\<lambda>x. \<not> starts_packet h x) as) = take 255 (payload h (a # as))"
proof -
  from lay k ne obtain b where b: "h a = Some b" "plen b \<le> 255" "layout h (k + plen b) as" "0 < plen b"
    by (auto simp: plen_def blk_at_def split: option.splits)
  have pl: "blk_at h a = blk_payload b" "plen b = length (blk_payload b)"
    using b by (simp_all add: blk_at_def plen_def)
  have km: "(k + plen b) mod 255 = plen b mod 255" using k by (metis add_0 mod_add_left_eq)
  show ?thesis
  proof (cases "plen b = 255")
    case True
    have "takeWhile (\<lambda>x. \<not> starts_packet h x) as = []"
      using b(3) km True by (cases as) (auto simp: starts_packet_def split: option.splits)
    with True pl show ?thesis by simp
  next
    case False
    with b km have "(k + plen b) mod 255 = plen b" by simp
    with layout_rest_of_packet [OF b(3)] b(2,4) ne pl show ?thesis by simp
  qed
qed

lemma wire_packet:
  assumes "own_blks h (a # as)" "layout h k (a # as)" "k mod 255 = 0" "headers mid h (a # as) n"
    and "\<forall>x \<in> set as. \<not> starts_packet h x"
  shows "wire h (a # as) = pkt_header mid n @ payload h (a # as)"
proof -
  from assms obtain b where b: "h a = Some b" "own_blk b" "uci_blk_has_header b"
    "take 4 (b_data b) = pkt_header mid n"
    by (auto split: option.splits)
  have "blk_data h a = pkt_header mid n @ blk_at h a"
    using blk_data_header [OF b(2,3)] b by (simp add: blk_data_def blk_at_def)
  with wire_payload [OF assms(5)] show ?thesis by (simp add: wire_def)
qed

lemma wires_segment:
  assumes "layout h k as" and "k mod 255 = 0" and "own_blks h as" and "as \<noteq> []"
    and "headers mid h as (length (payload h as))" and "no_empty h as"
  shows "wires h as = segment mid (payload h as)"
  using assms
proof (induction h as arbitrary: k rule: packets.induct)
  case (2 h a as)
  let ?tw = "takeWhile (\<lambda>x. \<not> starts_packet h x) as" and ?dw = "dropWhile (\<lambda>x. \<not> starts_packet h x) as"
  let ?bs = "payload h (a # as)"
  have split: "a # as = (a # ?tw) @ ?dw" by simp
  have p1: "payload h (a # ?tw) = take 255 ?bs"
    using 2(2,3,7) by (intro layout_first_packet) simp_all
  have p2: "payload h ?dw = drop 255 ?bs"
  proof -
    have "take 255 ?bs @ payload h ?dw = ?bs"
      unfolding p1 [symmetric] payload_append [symmetric] split [symmetric] by simp
    then show ?thesis by (metis append_take_drop_id same_append_eq)
  qed
  have lay: "layout h k (a # ?tw)" "layout h (k + length (take 255 ?bs)) ?dw"
    using 2(2) unfolding p1 [symmetric] by (subst (asm) split, simp only: layout_append)+
  have hdr: "headers mid h (a # ?tw) (length ?bs)" "headers mid h ?dw (length ?bs - length (take 255 ?bs))"
    using 2(6) unfolding p1 [symmetric] by (subst (asm) split, simp only: headers_append)+
  have own: "own_blks h (a # ?tw)" "own_blks h ?dw"
    using 2(4) by (subst (asm) split, simp only: own_blks_simps)+
  have ne: "no_empty h ?dw" using 2(7) by (subst (asm) split, simp only: no_empty_simps)
  have w: "wire h (a # ?tw) = pkt_header mid (length ?bs) @ take 255 ?bs"
    using wire_packet [OF own(1) lay(1) 2(3) hdr(1)] p1 by (auto dest: set_takeWhileD)
  show ?case
  proof (cases ?dw)
    case Nil
    with p2 have "drop 255 ?bs = []" by (simp del: drop_eq_Nil)
    then have "length ?bs \<le> 255" by (simp only: drop_eq_Nil)
    moreover have "packets h ?dw = []" unfolding Nil by simp
    ultimately show ?thesis
      using w by (subst segment.simps) (simp add: wires_def)
  next
    case (Cons c cs)
    then have "blk_at h c \<noteq> []" using ne by simp
    with Cons p2 have long: "255 < length ?bs"
      by (metis append_is_Nil_conv drop_all not_less payload_Cons)
    have "wires h ?dw = segment mid (payload h ?dw)"
    proof (rule 2(1))
      have l: "length (take 255 ?bs) = 255" using long by (simp only: length_take min.absorb2 less_imp_le)
      then show "(k + length (take 255 ?bs)) mod 255 = 0" using 2(3) by (simp only: mod_add_self2)
      show "headers mid h ?dw (length (payload h ?dw))"
        using hdr(2) unfolding p2 l length_drop .
    qed (use lay own ne Cons in simp_all)
    with w p2 long show ?thesis
      by (subst segment.simps) (simp add: wires_def)
  qed
qed simp

section \<open>The transmit queue\<close>

text \<open>
  The queue holds the blocks \<open>txs\<close>; the preallocated response, when there is one, is an empty
  packet with room for a status byte, outside the queue.
\<close>

definition tx_inv :: "'w uci \<Rightarrow> ptr list \<Rightarrow> bool" where
  "tx_inv u txs \<longleftrightarrow> chain (heap (u_mem u)) (u_tx u) txs \<and> own_blks (heap (u_mem u)) txs \<and>
     (txs \<noteq> [] \<longrightarrow> u_tx_last u = last_ptr txs \<and> starts_packet (heap (u_mem u)) (hd txs))"

definition status_blk :: "uci_blk \<Rightarrow> bool" where
  "status_blk b \<longleftrightarrow> own_blk b \<and> uci_blk_has_header b \<and> b_len b = UCI_PACKET_HEADER_SIZE \<and>
     b_total_len b = 0 \<and> b_next b = None \<and> UCI_STATUS_PACKET_SIZE \<le> b_size b"

definition rsp_inv :: "'w uci \<Rightarrow> ptr list \<Rightarrow> bool" where
  "rsp_inv u used \<longleftrightarrow> (\<forall>p. u_rsp_blk u = Some p \<longrightarrow> p \<notin> set used \<and>
     (\<exists>b. heap (u_mem u) p = Some b \<and> status_blk b))"

lemma tx_inv_cong:
  assumes "\<And>a. a \<in> set txs \<Longrightarrow> heap m' a = heap (u_mem u) a"
  shows "tx_inv (u\<lparr>u_mem := m'\<rparr>) txs = tx_inv u txs"
proof -
  have "chain (heap m') (u_tx u) txs = chain (heap (u_mem u)) (u_tx u) txs"
    using assms by (intro path_cong) simp
  moreover have "own_blks (heap m') txs = own_blks (heap (u_mem u)) txs"
    using assms by (auto simp: own_blks_def)
  moreover have "starts_packet (heap m') (hd txs) = starts_packet (heap (u_mem u)) (hd txs)" if "txs \<noteq> []"
    using assms that by (simp add: starts_packet_def)
  ultimately show ?thesis by (auto simp: tx_inv_def)
qed

lemma tx_inv_dom: "tx_inv u txs \<Longrightarrow> set txs \<subseteq> dom (heap (u_mem u))"
  by (auto simp: tx_inv_def own_blks_def)

lemma wires_heap_cong: "(\<And>a. a \<in> set as \<Longrightarrow> h' a = h a) \<Longrightarrow> wires h' as = wires h as"
  by (rule wires_cong) (simp add: starts_packet_def blk_data_def)

lemma message_rep_cong:
  assumes "\<And>a. a \<in> set as \<Longrightarrow> h' a = h a"
  shows "message_rep h' p as bs = message_rep h p as bs"
proof -
  have "chain h' p as = chain h p as" using assms by (intro path_cong) simp
  moreover have "layout h' 0 as = layout h 0 as" using assms by (intro layout_cong) simp
  moreover have "payload h' as = payload h as" using assms by (intro payload_cong) (simp add: blk_at_def)
  moreover have "own_blks h' as = own_blks h as" using assms by (auto simp: own_blks_def)
  moreover have "total_is h' p (length bs) = total_is h p (length bs)" if "chain h p as"
    using that assms by (cases p) (auto simp: total_is_def chain_Some_iff)
  ultimately show ?thesis by (auto simp: message_rep_def)
qed

text \<open>A message can be parsed.\<close>

lemma message_rep_msg_ok:
  assumes "message_rep h (Some p) as bs" and "length bs < 65536"
  shows "msg_ok h p bs"
  using assms own_blks_ok [of h as]
  by (auto simp: message_rep_def msg_ok_def msg_blks_def total_is_def intro!: exI [of _ as])

lemma no_empty_heap_cong: "(\<And>a. a \<in> set as \<Longrightarrow> h' a = h a) \<Longrightarrow> no_empty h' as = no_empty h as"
  by (simp add: no_empty_def blk_at_def)

text \<open>Cutting a chain after one of its blocks.\<close>

lemma chain_cut:
  assumes "lchain nxt h p (xs @ z # ys)" and "h z = Some b" and "nxt b' = None"
  shows "lchain nxt (h(z \<mapsto> b')) p (xs @ [z])" and "lchain nxt (h(z \<mapsto> b')) (nxt b) ys"
proof -
  from chain_distinct [OF assms(1)] have "z \<notin> set xs" "z \<notin> set ys" by auto
  with assms show "lchain nxt (h(z \<mapsto> b')) p (xs @ [z])" "lchain nxt (h(z \<mapsto> b')) (nxt b) ys"
    by (auto simp: path_append)
qed

lemma last_ptr_append: "ys \<noteq> [] \<Longrightarrow> last_ptr (xs @ ys) = last_ptr ys"
  by (simp add: last_ptr_def)

definition head_ptr :: "ptr list \<Rightarrow> ptr option" where
  "head_ptr as = (case as of [] \<Rightarrow> None | a # _ \<Rightarrow> Some a)"

lemma cut_packet_run:
  assumes "chain (heap m) (Some a) (a # as)"
  shows "cut_packet m (Some a) =
    (let tw = takeWhile (\<lambda>x. \<not> starts_packet (heap m) x) as;
         dw = dropWhile (\<lambda>x. \<not> starts_packet (heap m) x) as;
         z = last (a # tw)
     in Some (head_ptr dw, if dw = [] then m
                else put_blk m z ((the (heap m z))\<lparr>b_next := None\<rparr>)))"
  using assms
proof (induction as arbitrary: a)
  case Nil
  then obtain b where "heap m a = Some b" "b_next b = None" by (auto split: option.splits)
  then show ?case by (subst cut_packet.simps) (simp add: head_ptr_def)
next
  case (Cons c as)
  then obtain b where b: "heap m a = Some b" "b_next b = Some c" and ch: "chain (heap m) (Some c) (c # as)"
    by (auto split: option.splits)
  then obtain cb where cb: "heap m c = Some cb" by (auto split: option.splits)
  show ?case
  proof (cases "uci_blk_has_header cb")
    case True
    then have "starts_packet (heap m) c" using cb by (simp add: starts_packet_def)
    with True b cb show ?thesis by (subst cut_packet.simps) (simp add: head_ptr_def)
  next
    case False
    then have "\<not> starts_packet (heap m) c" using cb by (simp add: starts_packet_def)
    with False b cb Cons.IH [OF ch] show ?thesis
      by (subst cut_packet.simps) (simp add: Let_def)
  qed
qed

section \<open>Writing the headers\<close>

text \<open>All a header changes of a block is the header.\<close>

definition hdr_written :: "uci_blk \<Rightarrow> uci_blk \<Rightarrow> bool" where
  "hdr_written b b' \<longleftrightarrow> same_shape b b' \<and> b' = b\<lparr>b_data := b_data b'\<rparr>"

lemma hdr_written_refl [simp]: "hdr_written b b"
  by (simp add: hdr_written_def same_shape_def)

lemma hdr_written_fields:
  "hdr_written b b' \<Longrightarrow> b_next b' = b_next b \<and> b_len b' = b_len b \<and> b_total_len b' = b_total_len b"
  by (cases b; cases b') (simp add: hdr_written_def)

lemma write_header:
  assumes "own_blk b" "uci_blk_has_header b" "length hdr = 4"
  obtains d where "write_buf (b_data b) 0 hdr = Some d" "hdr_written b (b\<lparr>b_data := d\<rparr>)" "take 4 d = hdr"
proof -
  have len: "4 \<le> b_len b" "b_len b \<le> length (b_data b)"
    using assms by (auto simp: own_blk_def blk_ok_def)
  then obtain d where d: "write_buf (b_data b) 0 hdr = Some d"
    using write_buf_total [of 0 hdr "b_data b"] assms(3) by auto
  then have deq: "d = hdr @ drop 4 (b_data b)" using assms(3) by (auto simp: write_buf_def split: if_splits)
  have "drop 4 (take (b_len b) d) = drop 4 (take (b_len b) (b_data b))"
    using assms(3) len by (simp add: deq drop_take)
  then have "hdr_written b (b\<lparr>b_data := d\<rparr>)"
    using assms(2) write_buf_length [OF d]
    by (simp add: hdr_written_def same_shape_def blk_payload_def uci_blk_has_header_def own_blk_def blk_ok_def
        allocator_owned_def)
  moreover have "take 4 d = hdr" using assms(3) by (simp add: deq)
  ultimately show thesis using d that by blast
qed

lemma put_header_ok:
  assumes own: "own_blk b" and s: "sendable mid" and n: "plen b \<le> n" "n < 65536"
  obtains b' where "put_header mid b n = Some (b', n - plen b)" "hdr_written b b'"
    "uci_blk_has_header b \<longrightarrow> take UCI_PACKET_HEADER_SIZE (b_data b') = pkt_header mid n"
proof (cases "uci_blk_has_header b")
  case True
  have pl: "int (plen b) = int (b_len b) - 4"
    using own True by (auto simp: plen_def length_blk_payload own_blk_def blk_ok_def)
  obtain d where d: "write_buf (b_data b) 0 (pkt_header mid n) = Some d"
    "hdr_written b (b\<lparr>b_data := d\<rparr>)" "take 4 d = pkt_header mid n"
    using write_header [OF own True length_pkt_header] by metis
  have "put_header mid b n = Some (b\<lparr>b_data := d\<rparr>, u16_of_int (int n - int (plen b)))"
    using True s d(1) pl
    by (auto simp: put_header_def sendable_def pkt_header_def uci_blk_put_control_header_def
        uci_blk_put_data_header_def)
  moreover have "u16_of_int (int n - int (plen b)) = n - plen b"
    using n by (simp add: u16_of_int_def nat_diff_distrib)
  ultimately show thesis using d True by (intro that [of "b\<lparr>b_data := d\<rparr>"]) simp_all
next
  case False
  have "plen b = b_len b" using own False by (simp add: plen_def length_blk_payload own_blk_def)
  moreover have "u16_of_int (int n - int (plen b)) = n - plen b"
    using n by (simp add: u16_of_int_def nat_diff_distrib)
  ultimately show thesis using False by (intro that [of b]) (simp_all add: put_header_def)
qed

text \<open>The memory after the headers of the blocks \<open>as\<close> have been written.\<close>

definition hdrs_written :: "heap \<Rightarrow> heap \<Rightarrow> ptr list \<Rightarrow> bool" where
  "hdrs_written h h' as \<longleftrightarrow> (\<forall>a. a \<notin> set as \<longrightarrow> h' a = h a) \<and>
     (\<forall>a \<in> set as. \<exists>b b'. h a = Some b \<and> h' a = Some b' \<and> hdr_written b b')"

lemma hdrs_written_Cons:
  assumes "a \<notin> set as" "h a = Some b" "hdr_written b b'" "hdrs_written (h(a \<mapsto> b')) h' as"
  shows "hdrs_written h h' (a # as)"
  unfolding hdrs_written_def
proof (intro conjI allI impI ballI)
  fix x assume "x \<in> set (a # as)"
  then show "\<exists>b b'. h x = Some b \<and> h' x = Some b' \<and> hdr_written b b'"
    using assms by (cases "x = a") (auto simp: hdrs_written_def)
qed (use assms in \<open>auto simp: hdrs_written_def\<close>)

context uci_allocator
begin

lemma put_headers_loop_ok:
  assumes "inv m" and "chain (heap m) p as" and "own_blks (heap m) as" and "sendable mid"
    and "length (payload (heap m) as) < 65536"
  shows "\<exists>m'. put_headers_loop m mid p lst (length (payload (heap m) as)) =
       Some (if as = [] then lst else last_ptr as, m') \<and> inv m' \<and>
     hdrs_written (heap m) (heap m') as \<and> headers mid (heap m') as (length (payload (heap m) as))"
  using assms
proof (induction as arbitrary: m p lst)
  case Nil
  then show ?case by (subst put_headers_loop.simps) (simp add: hdrs_written_def)
next
  case (Cons a as)
  let ?n = "length (payload (heap m) (a # as))"
  from Cons.prems obtain b where b: "p = Some a" "heap m a = Some b" "chain (heap m) (b_next b) as" "own_blk b"
    by (auto split: option.splits)
  have notin: "a \<notin> set as" using chain_distinct [OF Cons.prems(2)] by simp
  have pl: "?n = plen b + length (payload (heap m) as)" using b by (simp add: blk_at_def plen_def)
  obtain b' where b': "put_header mid b ?n = Some (b', ?n - plen b)" "hdr_written b b'"
    "uci_blk_has_header b \<longrightarrow> take 4 (b_data b') = pkt_header mid ?n"
    using put_header_ok [OF b(4) Cons.prems(4), of ?n] pl Cons.prems(5) by (metis le_add1)
  let ?m = "put_blk m a b'"
  have h': "chain (heap ?m) (b_next b) as" "own_blks (heap ?m) as"
    "payload (heap ?m) as = payload (heap m) as"
    using b(3) Cons.prems(3) notin by simp_all
  have "inv ?m" using Cons.prems(1) b by (intro write_blk) auto
  from Cons.IH [OF this h'(1,2) Cons.prems(4), of p] obtain m' where
    m': "put_headers_loop ?m mid (b_next b) p (?n - plen b) = Some (if as = [] then p else last_ptr as, m')"
      "inv m'" "hdrs_written (heap ?m) (heap m') as" "headers mid (heap m') as (?n - plen b)"
    unfolding h'(3) using pl Cons.prems(5) by (metis add_diff_cancel_left' add_lessD1 add.commute)
  have "put_headers_loop m mid p lst ?n = Some (last_ptr (a # as), m')"
    using b b' m'(1) by (subst put_headers_loop.simps) (simp add: last_ptr_def)
  moreover have ma: "heap m' a = Some b'" using m'(3) notin by (simp add: hdrs_written_def)
  moreover have "hdrs_written (heap m) (heap m') (a # as)"
    using hdrs_written_Cons [of a as "heap m" b b', OF notin b(2) b'(2)] m'(3) by simp
  moreover have "headers mid (heap m') (a # as) ?n"
    using m'(4) ma b' by (simp add: hdr_written_def same_shape_def plen_def)
  ultimately show ?case using m'(2) by auto
qed

lemma put_headers_ok:
  assumes inv: "inv m" and rep: "message_rep (heap m) (Some p) as bs"
    and ne: "no_empty (heap m) as \<or> as = [p]" and s: "sendable mid" and len: "length bs < 65536"
  obtains m' where "uci_put_headers_to_blocks m mid p = Some (last_ptr as, m')" "inv m'"
    "message_rep (heap m') (Some p) as bs" "wires (heap m') as = segment mid bs"
    "starts_packet (heap m') p" "\<forall>a. a \<notin> set as \<longrightarrow> heap m' a = heap m a"
    "\<forall>a \<in> set as. blk_shape (heap m') a = blk_shape (heap m) a"
proof -
  from rep have r: "chain (heap m) (Some p) as" "own_blks (heap m) as" "layout (heap m) 0 as"
    "payload (heap m) as = bs"
    by (simp_all add: message_rep_def)
  from rep obtain pb where pb: "heap m p = Some pb" "b_total_len pb = length bs"
    by (auto simp: message_rep_def total_is_def)
  obtain as' where as: "as = p # as'" using r(1) by (auto simp: chain_Some_iff)
  obtain m' where m': "put_headers_loop m mid (Some p) (Some p) (length bs) = Some (last_ptr as, m')"
    "inv m'" "hdrs_written (heap m) (heap m') as" "headers mid (heap m') as (length bs)"
    using put_headers_loop_ok [OF inv r(1,2) s, of "Some p", unfolded r(4), OF len] as
    by (metis list.distinct(1))
  have at: "\<exists>b b'. heap m a = Some b \<and> heap m' a = Some b' \<and> hdr_written b b'" if "a \<in> set as" for a
    using m'(3) that by (auto simp: hdrs_written_def)
  have pay: "blk_at (heap m') a = blk_at (heap m) a" if "a \<in> set as" for a
    using at [OF that] by (auto simp: blk_at_def hdr_written_def same_shape_def)
  have ch: "chain (heap m') (Some p) as"
    using r(1) by (subst path_cong [of _ _ _ "heap m"]) (auto dest!: at hdr_written_fields)
  have own: "own_blks (heap m') as"
    using r(2) unfolding own_blks_def by (fastforce dest: at simp: hdr_written_def same_shape_def)
  have lay: "layout (heap m') 0 as"
    using r(3) by (subst layout_cong [of _ _ "heap m"]) (auto dest!: at simp: hdr_written_def same_shape_def plen_def)
  have pl: "payload (heap m') as = bs"
    using payload_cong [of as "heap m'" "heap m"] pay r(4) by simp
  have tot: "total_is (heap m') (Some p) (length bs)"
    using at [of p] as pb by (auto simp: total_is_def dest: hdr_written_fields)
  have rep': "message_rep (heap m') (Some p) as bs"
    using ch own lay pl tot by (simp add: message_rep_def)
  have sp: "starts_packet (heap m') p"
    using lay as by (auto simp: starts_packet_def split: option.splits)
  have w: "wires (heap m') as = segment mid bs"
  proof (cases "no_empty (heap m) as")
    case True
    then have "no_empty (heap m') as" using pay by (simp add: no_empty_def)
    moreover have "as \<noteq> []" using as by simp
    ultimately show ?thesis
      using wires_segment [OF lay _ own, of mid, unfolded pl] m'(4) by simp
  next
    case False
    with ne have as1: "as = [p]" by simp
    have "wire (heap m') [p] = pkt_header mid (length bs) @ bs"
      using wire_packet [of "heap m'" p "[]" 0 mid "length bs"] own lay m'(4) pl as1 by simp
    moreover have "length bs \<le> 255"
      using lay pl as1 by (auto simp: blk_at_def plen_def split: option.splits)
    ultimately show ?thesis
      unfolding as1 by (subst segment.simps) (simp add: wires_def)
  qed
  have "blk_shape (heap m') a = blk_shape (heap m) a" if a: "a \<in> set as" for a
  proof -
    from at [OF a] obtain b b' where b: "heap m a = Some b" "heap m' a = Some b'" "b' = b\<lparr>b_data := b_data b'\<rparr>"
      by (auto simp: hdr_written_def)
    then have "b_len b' = b_len b" "b_flags b' = b_flags b" by (metis uci_blk.select_convs uci_blk.surjective uci_blk.update_convs(2))+
    with b(1,2) show ?thesis by (simp add: blk_shape_def uci_blk_has_header_def)
  qed
  then have "\<forall>a \<in> set as. blk_shape (heap m') a = blk_shape (heap m) a" by blast
  moreover have "\<forall>a. a \<notin> set as \<longrightarrow> heap m' a = heap m a" using m'(3) by (simp add: hdrs_written_def)
  moreover have "uci_put_headers_to_blocks m mid p = Some (last_ptr as, m')"
    using pb m'(1) by (simp add: uci_put_headers_to_blocks_def)
  ultimately show thesis using m'(2) rep' w sp by (intro that [of m'])
qed

lemma queue_packet_ok:
  assumes inv: "inv (u_mem u)" and tx: "tx_inv u txs" and ch: "chain (heap (u_mem u)) (Some p) as"
    and own: "own_blks (heap (u_mem u)) as" and sp: "starts_packet (heap (u_mem u)) p"
    and dis: "set as \<inter> set txs = {}"
  obtains m tx where
    "queue_packet u (Some p) (last_ptr as) = Some (u\<lparr>u_mem := m, u_tx := tx, u_tx_last := last_ptr as\<rparr>)"
    "inv m" "tx_inv (u\<lparr>u_mem := m, u_tx := tx, u_tx_last := last_ptr as\<rparr>) (txs @ as)"
    "wires (heap m) (txs @ as) = wires (heap (u_mem u)) txs @ wires (heap (u_mem u)) as"
    "\<forall>a. a \<notin> set txs \<longrightarrow> heap m a = heap (u_mem u) a"
proof -
  let ?h = "heap (u_mem u)"
  obtain as' where as: "as = p # as'" using ch by (auto simp: chain_Some_iff)
  show thesis
  proof (cases txs rule: rev_cases)
    case Nil
    with tx have "u_tx u = None" by (simp add: tx_inv_def)
    then have "queue_packet u (Some p) (last_ptr as) =
        Some (u\<lparr>u_mem := u_mem u, u_tx := Some p, u_tx_last := last_ptr as\<rparr>)"
      by (simp add: queue_packet_def)
    then show thesis
      using Nil inv ch own sp as
      by (intro that [where m = "u_mem u" and tx = "Some p"]) (simp_all add: tx_inv_def wires_def)
  next
    case (snoc zs z)
    with tx have ztx: "u_tx u \<noteq> None" "u_tx_last u = Some z" and ztxs: "chain ?h (u_tx u) (zs @ [z])"
      "own_blks ?h (zs @ [z])" "starts_packet ?h (hd txs)"
      by (cases "u_tx u"; auto simp: tx_inv_def)+
    then obtain zb where zb: "?h z = Some zb" by auto
    let ?zb = "zb\<lparr>b_next := Some p\<rparr>" let ?m = "put_blk (u_mem u) z ?zb"
    have za: "z \<notin> set as" using dis snoc by auto
    have run: "queue_packet u (Some p) (last_ptr as) =
        Some (u\<lparr>u_mem := ?m, u_tx := u_tx u, u_tx_last := last_ptr as\<rparr>)"
      using ztx zb by (simp add: queue_packet_def upd_blk_def)
    have same: "starts_packet (heap ?m) a = starts_packet ?h a \<and> blk_data (heap ?m) a = blk_data ?h a" for a
      using zb by (auto simp: starts_packet_def blk_data_def)
    have "chain (heap ?m) (u_tx u) (txs @ as)"
      using chain_link [OF ztxs(1) ch zb za, of ?zb] snoc by simp
    moreover have "own_blks (heap ?m) (txs @ as)"
      using ztxs(2) own zb snoc same_shape_upd(3) [of ?h z zb ?zb "txs @ as"] by simp
    moreover have "starts_packet (heap ?m) (hd (txs @ as))"
      using same ztxs(3) snoc by (subst hd_append2) simp_all
    moreover have "last_ptr (txs @ as) = last_ptr as"
      using as by (simp add: last_ptr_def)
    ultimately have "tx_inv (u\<lparr>u_mem := ?m, u_tx := u_tx u, u_tx_last := last_ptr as\<rparr>) (txs @ as)"
      by (simp add: tx_inv_def)
    moreover have "wires (heap ?m) (txs @ as) = wires ?h (txs @ as)"
      by (rule wires_cong) (rule same)
    moreover have "wires ?h (txs @ as) = wires ?h txs @ wires ?h as"
      using sp as by (intro wires_append) simp
    moreover have "inv ?m" using inv zb by (intro write_blk) auto
    ultimately show thesis
      using run snoc by (intro that [where m = ?m and tx = "u_tx u"]) simp_all
  qed
qed

lemma alloc_status_cases:
  assumes inv: "inv (u_mem u)" and e: "e_allocator e = A"
  obtains (null) m where "uci_alloc_status e u = Some (None, u\<lparr>u_mem := m\<rparr>)" "inv m"
      "heap m = heap (u_mem u)"
  | (blk) p b m where "uci_alloc_status e u = Some (Some p, u\<lparr>u_mem := m\<rparr>)" "inv m"
      "heap (u_mem u) p = None" "heap m = (heap (u_mem u))(p \<mapsto> b)" "status_blk b"
proof (cases rule: blk_alloc_cases [OF inv, of UCI_STATUS_PACKET_SIZE 0])
  case (1 m')
  with e show thesis by (intro null [of m']) (simp_all add: uci_alloc_status_def)
next
  case (2 p b m')
  show thesis
  proof (cases "b_size b < UCI_STATUS_PACKET_SIZE")
    case True
    have "owned (heap m') [p]" "chain (heap m') (Some p) [p]"
      using 2 by (simp_all add: allocator_owned_def fresh_blk_def)
    from free_all [OF 2(5) this(2,1)] obtain m'' where
      m'': "uci_blk_free_all A m' (Some p) = Some m''" "heap m'' = heap m' |` (- set [p])" "inv m''"
      by blast
    have "heap m'' = heap (u_mem u)"
      using m''(2) 2(2,3) by (auto simp: restrict_map_def fun_eq_iff)
    with True 2 m'' e show thesis
      by (intro null [of m'']) (simp_all add: uci_alloc_status_def Uci_State.free_all_def)
  next
    case False
    let ?b = "b\<lparr>b_flags := UCI_BLK_FLAGS_HEADER_RESERVED, b_len := UCI_PACKET_HEADER_SIZE, b_total_len := 0\<rparr>"
    have "status_blk ?b"
      using 2 False by (simp add: status_blk_def own_blk_def blk_ok_def allocator_owned_def fresh_blk_def
          uci_blk_has_header_def)
    moreover have "inv (put_blk m' p ?b)" using 2 by (intro write_blk) auto
    ultimately show thesis
      using 2 False e by (intro blk [of p "put_blk m' p ?b" ?b]) (simp_all add: uci_alloc_status_def upd_blk_def)
  qed
qed

text \<open>
  Queueing a message appends its segmentation to the queue. The preallocated response is renewed
  when it was used; blocks outside the queue and the message keep their contents.
\<close>

lemma queue_message_ok:
  assumes e: "e_allocator e = A" and inv: "inv (u_mem u)" and tx: "tx_inv u txs"
    and rsp: "rsp_inv u (txs @ as)" and rep: "message_rep (heap (u_mem u)) (Some p) as bs"
    and ne: "no_empty (heap (u_mem u)) as \<or> as = [p]" and s: "sendable mid" and len: "length bs < 65536"
    and dis: "set as \<inter> set txs = {}"
  obtains u' m tx r where
    "queue_message e u mid p = Some u'"
    "u' = u\<lparr>u_mem := m, u_tx := tx, u_tx_last := last_ptr as, u_rsp_blk := r\<rparr>"
    "inv m" "tx_inv u' (txs @ as)" "rsp_inv u' (txs @ as)"
    "wires (heap m) (txs @ as) = wires (heap (u_mem u)) txs @ segment mid bs"
    "\<forall>a \<in> dom (heap (u_mem u)). a \<notin> set (txs @ as) \<longrightarrow> heap m a = heap (u_mem u) a"
    "\<forall>a \<in> set as. blk_shape (heap m) a = blk_shape (heap (u_mem u)) a"
proof -
  obtain m1 where m1: "uci_put_headers_to_blocks (u_mem u) mid p = Some (last_ptr as, m1)" "inv m1"
    "message_rep (heap m1) (Some p) as bs" "wires (heap m1) as = segment mid bs"
    "starts_packet (heap m1) p" "\<forall>a. a \<notin> set as \<longrightarrow> heap m1 a = heap (u_mem u) a"
    "\<forall>a \<in> set as. blk_shape (heap m1) a = blk_shape (heap (u_mem u)) a"
    by (rule put_headers_ok [OF inv rep ne s len])
  have txs1: "\<And>a. a \<in> set txs \<Longrightarrow> heap m1 a = heap (u_mem u) a" using m1(6) dis by blast
  let ?u1 = "u\<lparr>u_mem := m1\<rparr>"
  have tx1: "tx_inv ?u1 txs" using tx txs1 by (subst tx_inv_cong)
  have ch: "chain (heap (u_mem ?u1)) (Some p) as" "own_blks (heap (u_mem ?u1)) as"
    "starts_packet (heap (u_mem ?u1)) p" "inv (u_mem ?u1)"
    using m1 by (simp_all add: message_rep_def)
  obtain m2 tx2 where m2: "queue_packet ?u1 (Some p) (last_ptr as) =
      Some (?u1\<lparr>u_mem := m2, u_tx := tx2, u_tx_last := last_ptr as\<rparr>)" "inv m2"
    "tx_inv (?u1\<lparr>u_mem := m2, u_tx := tx2, u_tx_last := last_ptr as\<rparr>) (txs @ as)"
    "wires (heap m2) (txs @ as) = wires (heap (u_mem ?u1)) txs @ wires (heap (u_mem ?u1)) as"
    "\<forall>a. a \<notin> set txs \<longrightarrow> heap m2 a = heap (u_mem ?u1) a"
    by (rule queue_packet_ok [OF ch(4) tx1 ch(1,2,3) dis])
  have w: "wires (heap m2) (txs @ as) = wires (heap (u_mem u)) txs @ segment mid bs"
    using m2(4) m1(4) wires_heap_cong [of txs "heap m1" "heap (u_mem u)"] txs1 by simp
  have fr: "\<And>a. a \<notin> set (txs @ as) \<Longrightarrow> heap m2 a = heap (u_mem u) a"
    using m1(6) m2(5) by simp
  have sh: "\<forall>a \<in> set as. blk_shape (heap m2) a = blk_shape (heap (u_mem u)) a"
    using m1(7) m2(5) dis by (auto simp: blk_shape_def)
  let ?u2 = "u\<lparr>u_mem := m2, u_tx := tx2, u_tx_last := last_ptr as\<rparr>"
  have tx2: "tx_inv ?u2 (txs @ as)" using m2(3) by (simp add: tx_inv_def)
  show thesis
  proof (cases "u_rsp_blk u")
    case (Some r)
    have "rsp_inv ?u2 (txs @ as)" using rsp fr Some by (auto simp: rsp_inv_def)
    moreover have "\<forall>a \<in> dom (heap (u_mem u)). a \<notin> set (txs @ as) \<longrightarrow> heap m2 a = heap (u_mem u) a"
      using fr by blast
    ultimately show thesis using Some m1(1) m2(1,2) tx2 w sh
      by (intro that [where u' = "u\<lparr>u_mem := m2, u_tx := tx2, u_tx_last := last_ptr as, u_rsp_blk := Some r\<rparr>", OF _ refl])
        (simp_all add: queue_message_def tx_inv_def rsp_inv_def)
  next
    case None
    have dom: "set (txs @ as) \<subseteq> dom (heap m2)" using tx_inv_dom [OF tx2] by simp
    have inv2: "inv (u_mem ?u2)" using m2(2) by simp
    show thesis
    proof (cases rule: alloc_status_cases [OF inv2 e])
      case (1 m3)
      with None m1(1) m2(1,2) tx2 w fr sh show thesis
        by (intro that [where u' = "u\<lparr>u_mem := m3, u_tx := tx2, u_tx_last := last_ptr as, u_rsp_blk := None\<rparr>", OF _ refl])
          (simp_all add: queue_message_def tx_inv_def rsp_inv_def)
    next
      case (2 q b m3)
      then have q1: "q \<notin> set (txs @ as)" "heap m2 q = None" using dom by auto
      then have q: "q \<notin> set (txs @ as)" "heap (u_mem u) q = None" using fr [of q] by simp_all
      then have h3: "\<And>a. a \<in> set (txs @ as) \<Longrightarrow> heap m3 a = heap (u_mem ?u2) a"
        "heap m3 q = Some b" using 2 by auto
      have "tx_inv (?u2\<lparr>u_mem := m3\<rparr>) (txs @ as)"
        using tx2 tx_inv_cong [of "txs @ as" m3 ?u2] h3(1) by blast
      moreover have "wires (heap m3) (txs @ as) = wires (heap m2) (txs @ as)"
        using h3(1) by (intro wires_heap_cong) simp
      moreover have "\<forall>a \<in> dom (heap (u_mem u)). a \<notin> set (txs @ as) \<longrightarrow> heap m3 a = heap (u_mem u) a"
        using 2 fr q(2) by auto
      moreover have "\<forall>a \<in> set as. blk_shape (heap m3) a = blk_shape (heap (u_mem u)) a"
        using sh h3(1) by (auto simp: blk_shape_def)
      ultimately show thesis
        using None m1(1) m2(1,2) w 2 q(1) h3(2)
        by (intro that [where u' = "u\<lparr>u_mem := m3, u_tx := tx2, u_tx_last := last_ptr as, u_rsp_blk := Some q\<rparr>", OF _ refl])
          (simp_all add: queue_message_def tx_inv_def rsp_inv_def)
    qed
  qed
qed

lemma send_message_shape:
  assumes e: "e_allocator e = A" and inv: "inv (u_mem u)" and tx: "tx_inv u txs"
    and rsp: "rsp_inv u (txs @ as)" and rep: "message_rep (heap (u_mem u)) (Some p) as bs"
    and ne: "no_empty (heap (u_mem u)) as \<or> as = [p]" and s: "sendable mid" and len: "length bs < 65536"
    and dis: "set as \<inter> set txs = {}" and un: "\<not> u_locked u" and tr: "u_tr u \<noteq> None"
  shows "\<exists>u' m tx r. uci_send_message e u mid (Some p) = packet_send_ready e u' \<and>
    u' = u\<lparr>u_mem := m, u_tx := tx, u_tx_last := last_ptr as, u_rsp_blk := r\<rparr> \<and>
    inv m \<and> tx_inv u' (txs @ as) \<and> rsp_inv u' (txs @ as) \<and>
    wires (heap m) (txs @ as) = wires (heap (u_mem u)) txs @ segment mid bs \<and>
    (\<forall>a \<in> dom (heap (u_mem u)). a \<notin> set (txs @ as) \<longrightarrow> heap m a = heap (u_mem u) a) \<and>
    (\<forall>a \<in> set as. blk_shape (heap m) a = blk_shape (heap (u_mem u)) a)"
proof -
  let ?u = "u\<lparr>u_locked := True\<rparr>"
  have tx1: "tx_inv ?u txs" and rsp1: "rsp_inv ?u (txs @ as)"
    using tx rsp by (simp_all add: tx_inv_def rsp_inv_def)
  have i: "inv (u_mem ?u)" "message_rep (heap (u_mem ?u)) (Some p) as bs"
    "no_empty (heap (u_mem ?u)) as \<or> as = [p]"
    using inv rep ne by simp_all
  obtain u1 m tx r where u1: "queue_message e ?u mid p = Some u1"
    "u1 = ?u\<lparr>u_mem := m, u_tx := tx, u_tx_last := last_ptr as, u_rsp_blk := r\<rparr>" "inv m"
    "tx_inv u1 (txs @ as)" "rsp_inv u1 (txs @ as)"
    "wires (heap m) (txs @ as) = wires (heap (u_mem ?u)) txs @ segment mid bs"
    "\<forall>a \<in> dom (heap (u_mem ?u)). a \<notin> set (txs @ as) \<longrightarrow> heap m a = heap (u_mem ?u) a"
    "\<forall>a \<in> set as. blk_shape (heap m) a = blk_shape (heap (u_mem ?u)) a"
    by (rule queue_message_ok [OF e i(1) tx1 rsp1 i(2,3) s len dis])
  have "uci_send_message e u mid (Some p) = packet_send_ready e (u1\<lparr>u_locked := False\<rparr>)"
    using un tr u1(1,2) by (auto simp: uci_send_message_def qmutex_lock_def qmutex_unlock_def)
  moreover have "u1\<lparr>u_locked := False\<rparr> =
      u\<lparr>u_mem := m, u_tx := tx, u_tx_last := last_ptr as, u_rsp_blk := r\<rparr>"
    using un u1(2) by (cases u) simp
  moreover have "tx_inv (u1\<lparr>u_locked := False\<rparr>) (txs @ as)" "rsp_inv (u1\<lparr>u_locked := False\<rparr>) (txs @ as)"
    using u1(4,5) by (simp_all add: tx_inv_def rsp_inv_def)
  ultimately show ?thesis
    using u1(3,6,7,8) by (intro exI [of _ "u1\<lparr>u_locked := False\<rparr>"] exI [of _ m] exI [of _ tx] exI [of _ r]) simp
qed

lemma send_message_queued:
  assumes "e_allocator e = A" and "inv (u_mem u)" and "tx_inv u txs"
    and "rsp_inv u (txs @ as)" and "message_rep (heap (u_mem u)) (Some p) as bs"
    and "no_empty (heap (u_mem u)) as \<or> as = [p]" and "sendable mid" and "length bs < 65536"
    and "set as \<inter> set txs = {}" and "\<not> u_locked u" and "u_tr u \<noteq> None"
  shows "\<exists>u' m tx r. uci_send_message e u mid (Some p) = packet_send_ready e u' \<and>
    u' = u\<lparr>u_mem := m, u_tx := tx, u_tx_last := last_ptr as, u_rsp_blk := r\<rparr> \<and>
    inv m \<and> tx_inv u' (txs @ as) \<and> rsp_inv u' (txs @ as) \<and>
    wires (heap m) (txs @ as) = wires (heap (u_mem u)) txs @ segment mid bs"
  using send_message_shape [OF assms] by blast

text \<open>
  Taking a packet from the queue gives the first packet, as a chain of its own, and leaves the
  others in order.
\<close>

lemma send_get_ready_empty:
  assumes "tx_inv u []" "\<not> u_locked u"
  shows "uci_packet_send_get_ready u = Some (None, u)"
proof -
  have "cut_packet (u_mem u) None = Some (None, u_mem u)" by (subst cut_packet.simps) simp
  then show ?thesis
    using assms by (cases u) (simp add: uci_packet_send_get_ready_def qmutex_lock_def qmutex_unlock_def tx_inv_def)
qed

lemma send_get_ready_packet:
  assumes inv: "inv (u_mem u)" and tx: "tx_inv u (a # as)" and un: "\<not> u_locked u"
  obtains m tx ps rest where
    "uci_packet_send_get_ready u = Some (Some a, u\<lparr>u_mem := m, u_tx := tx\<rparr>)" "inv m"
    "a # as = ps @ rest" "chain (heap m) (Some a) ps" "own_blks (heap m) ps"
    "tx_inv (u\<lparr>u_mem := m, u_tx := tx\<rparr>) rest"
    "wires (heap (u_mem u)) (a # as) = wire (heap m) ps # wires (heap m) rest"
    "\<forall>x. x \<notin> set (a # as) \<longrightarrow> heap m x = heap (u_mem u) x"
    "ps = a # takeWhile (\<lambda>x. \<not> starts_packet (heap (u_mem u)) x) as"
    "\<forall>x. starts_packet (heap m) x = starts_packet (heap (u_mem u)) x \<and> blk_data (heap m) x = blk_data (heap (u_mem u)) x"
proof -
  let ?h = "heap (u_mem u)"
  let ?tw = "takeWhile (\<lambda>x. \<not> starts_packet ?h x) as" and ?dw = "dropWhile (\<lambda>x. \<not> starts_packet ?h x) as"
  have split: "a # as = (a # ?tw) @ ?dw" by simp
  from tx have hd: "u_tx u = Some a" and ch: "chain ?h (Some a) (a # as)" and own: "own_blks ?h (a # as)"
    and lst: "u_tx_last u = last_ptr (a # as)"
    by (auto simp: tx_inv_def)
  define zs z where "zs = butlast (a # ?tw)" and "z = last (a # ?tw)"
  have az: "a # ?tw = zs @ [z]" by (simp add: zs_def z_def)
  have az2: "a # as = zs @ z # ?dw" using az by (metis append_Cons append_assoc append_Nil split)
  from own obtain zb where zb: "?h z = Some zb" "own_blk zb" unfolding az2 by auto
  define m where "m = (if ?dw = [] then u_mem u else put_blk (u_mem u) z (zb\<lparr>b_next := None\<rparr>))"
  have run: "uci_packet_send_get_ready u = Some (Some a, u\<lparr>u_mem := m, u_tx := head_ptr ?dw\<rparr>)"
    using un hd cut_packet_run [OF ch] zb(1)
    by (cases u) (simp add: uci_packet_send_get_ready_def qmutex_lock_def qmutex_unlock_def Let_def m_def z_def)
  have same: "starts_packet (heap m) x = starts_packet ?h x \<and> blk_data (heap m) x = blk_data ?h x" for x
    using zb(1) by (auto simp: m_def starts_packet_def blk_data_def)
  have own': "own_blks (heap m) xs = own_blks ?h xs" for xs
    using same_shape_upd(3) [of ?h z zb "zb\<lparr>b_next := None\<rparr>" xs] zb(1) by (simp add: m_def)
  have chs: "chain (heap m) (Some a) (a # ?tw) \<and> chain (heap m) (head_ptr ?dw) ?dw"
  proof (cases ?dw)
    case Nil
    have "a # ?tw = a # as" using split Nil by (metis append_Nil2)
    moreover have "m = u_mem u" using Nil by (simp only: m_def if_True simp_thms)
    ultimately show ?thesis using ch unfolding Nil by (simp only: head_ptr_def list.case lpath.simps simp_thms)
  next
    case (Cons c cs)
    from ch have "chain ?h (Some a) (zs @ z # ?dw)" unfolding az2 .
    from chain_cut [OF this zb(1), of "zb\<lparr>b_next := None\<rparr>"]
    have "chain (heap m) (Some a) (zs @ [z])" "chain (heap m) (b_next zb) ?dw"
      using Cons by (simp_all add: m_def)
    moreover from this(2) have "b_next zb = head_ptr ?dw" using Cons by (simp add: head_ptr_def)
    ultimately show ?thesis using az by simp
  qed
  have tx': "tx_inv (u\<lparr>u_mem := m, u_tx := head_ptr ?dw\<rparr>) ?dw"
  proof -
    have "starts_packet (heap m) (hd ?dw)" if "?dw \<noteq> []"
      using hd_dropWhile [OF that] same by simp
    moreover have "u_tx_last u = last_ptr ?dw" if "?dw \<noteq> []"
      using lst last_ptr_append [OF that, of "a # ?tw"] by (subst (asm) split) simp
    moreover have "own_blks (heap m) ?dw"
      using own own' [of ?dw] by (subst (asm) split) (simp only: own_blks_simps)
    ultimately show ?thesis using chs by (simp add: tx_inv_def)
  qed
  have w: "wires ?h (a # as) = wire (heap m) (a # ?tw) # wires (heap m) ?dw"
  proof -
    have "wires (heap m) ?dw = wires ?h ?dw" by (rule wires_cong) (rule same)
    moreover have "blk_data (heap m) = blk_data ?h" using same by (simp add: fun_eq_iff)
    then have "wire (heap m) (a # ?tw) = wire ?h (a # ?tw)" by (simp add: wire_def)
    ultimately show ?thesis by (simp add: wires_def)
  qed
  have "own_blks (heap m) (a # ?tw)"
    using own own' [of "a # ?tw"] by (subst (asm) split) (simp only: own_blks_simps)
  moreover have "inv m" using inv zb(1) by (auto simp: m_def intro: write_blk)
  moreover have "\<forall>x. x \<notin> set (a # as) \<longrightarrow> heap m x = ?h x" unfolding az2 by (simp add: m_def)
  moreover have "\<forall>x. starts_packet (heap m) x = starts_packet ?h x \<and> blk_data (heap m) x = blk_data ?h x" using same by simp
  ultimately show thesis using refl run split conjunct1 [OF chs] tx' w by (intro that [of _ _ "a # ?tw" ?dw])
qed

end

end
