(* ===== verification/Uci_Rx.thy ===== *)
theory Uci_Rx
  imports Uci_Handlers Uci_Tx
begin

text \<open>
  The receiving side of \<^verbatim>\<open>uci.c\<close>: packets are checked, collected until a message is complete,
  and handed to the handler registered for the message identifier. The collection is shown to
  implement an abstract reassembler, and a segmented message to be delivered as it was sent.
\<close>

section \<open>Operations\<close>

definition handle_unknown_control_packet ::
    "'w uci_env \<Rightarrow> 'w uci \<Rightarrow> 16 word \<Rightarrow> bool \<Rightarrow> 'w uci option" where
  "handle_unknown_control_packet e u mt_gid_oid known =
     (if u_is_client u then Some u
      else if UCI_MT mt_gid_oid = UCI_MESSAGE_TYPE_RESPONSE \<or>
              UCI_MT mt_gid_oid = UCI_MESSAGE_TYPE_NOTIFICATION then Some u
      else uci_send_status e u mt_gid_oid
             (if known then word_of_int UCI_STATUS_UNKNOWN_OID else word_of_int UCI_STATUS_UNKNOWN_GID))"

text \<open>The first component is the returned integer.\<close>

definition check_device_state :: "'w uci_env \<Rightarrow> 'w uci \<Rightarrow> 16 word \<Rightarrow> (int \<times> 'w uci) option" where
  "check_device_state e u mid =
     (if \<not> u_is_client u \<and> is_control_mt (UCI_MT mid) \<and>
         uci_get_device_state u = UCI_DEVICE_STATE_ERROR \<and>
         mid \<noteq> UCI_MT_GID_OID UCI_MESSAGE_TYPE_COMMAND UCI_GID_CORE UCI_OID_CORE_DEVICE_RESET
      then do { u \<leftarrow> uci_send_status e u mid (word_of_int UCI_STATUS_REJECTED); Some (- 1, u) }
      else Some (0, u))"

definition handle_full_message :: "'w uci_env \<Rightarrow> 'w uci \<Rightarrow> 16 word \<Rightarrow> 'w uci option" where
  "handle_full_message e u mid =
     do {
       (rejected, u) \<leftarrow> check_device_state e u mid;
       if rejected \<noteq> 0 then Some u
       else do {
         (r, u) \<leftarrow> search_handlers e u (u_handlers_head u) mid;
         (r, u) \<leftarrow> (case (r, u_generic_handler u) of
               (None, Some g) \<Rightarrow>
                 do { (error, u) \<leftarrow> e_handler e (gh_handler g) u mid (u_rx u) (gh_user_data g);
                      Some (Some error, u) }
             | _ \<Rightarrow> Some (r, u));
         case r of
           Some error \<Rightarrow>
             if error \<noteq> 0 \<and> \<not> u_is_client u \<and> is_control_mt (UCI_MT mid)
             then uci_send_status e u mid (word_of_int UCI_STATUS_FAILED) else Some u
         | None \<Rightarrow>
             if is_control_mt (UCI_MT mid)
             then handle_unknown_control_packet e u mid (gid_is_known u mid) else Some u
       }
     }"

text \<open>The last loop of \<^verbatim>\<open>uci_pbf_packet_recv\<close>: the end of the chain.\<close>

partial_function (option) last_of_chain :: "heap \<Rightarrow> ptr \<Rightarrow> ptr option" where
  "last_of_chain h p =
     do { b \<leftarrow> h p; case b_next b of None \<Rightarrow> Some p | Some q \<Rightarrow> last_of_chain h q }"

definition hdr_at :: "'w uci \<Rightarrow> ptr option \<Rightarrow> bytes option" where
  "hdr_at u p = do { b \<leftarrow> blk_of (u_mem u) p; hdr_of b }"

text \<open>The identifier of the message being collected.\<close>

definition rx_id :: "'w uci \<Rightarrow> 16 word option" where
  "rx_id u = do { hdr \<leftarrow> hdr_at u (u_rx u); Some (uci_blk_get_uci_message_id hdr (uci_blk_get_mt hdr)) }"

text \<open>Chaining an additional segment: lines 419 to 430.\<close>

definition add_segment :: "'w uci \<Rightarrow> ptr \<Rightarrow> 'w uci option" where
  "add_segment u packet =
     do {
       u \<leftarrow> upd_blk u (u_rx_last u) (\<lambda>b. Some (b\<lparr>b_next := Some packet\<rparr>));
       let u = u\<lparr>u_rx_last := Some packet\<rparr>;
       pb \<leftarrow> heap (u_mem u) packet;
       u \<leftarrow> upd_blk u (u_rx u) (\<lambda>b. Some (b\<lparr>b_total_len := u16 (b_total_len b + b_total_len pb)\<rparr>));
       upd_blk u (Some packet) (\<lambda>b. Some (b\<lparr>b_total_len := 0\<rparr>))
     }"

definition uci_pbf_packet_recv :: "'w uci_env \<Rightarrow> 'w uci \<Rightarrow> ptr \<Rightarrow> 16 word \<Rightarrow> (bool \<times> 'w uci) option" where
  "uci_pbf_packet_recv e u packet mid =
     do {
       hdr \<leftarrow> hdr_at u (Some packet);
       let segmented = uci_blk_is_segment hdr;
       u \<leftarrow> (if u_rx u \<noteq> None then
               do {
                 stored \<leftarrow> rx_id u;
                 if mid \<noteq> stored then
                   do { u \<leftarrow> free_all e u (u_rx u);
                        Some (u\<lparr>u_rx := Some packet, u_rx_last := Some packet\<rparr>) }
                 else add_segment u packet
               }
             else Some (u\<lparr>u_rx := Some packet, u_rx_last := Some packet\<rparr>));
       l \<leftarrow> u_rx_last u;
       l \<leftarrow> last_of_chain (heap (u_mem u)) l;
       Some (segmented, u\<lparr>u_rx_last := Some l\<rparr>)
     }"

text \<open>Dropping an unfinished message, whose identifier is read for the log.\<close>

definition drop_rx :: "'w uci_env \<Rightarrow> 'w uci \<Rightarrow> 'w uci option" where
  "drop_rx e u =
     (if u_rx u \<noteq> None then do { stored \<leftarrow> rx_id u; free_all e u (u_rx u) } else Some u)"

definition uci_pbf_packet_data_recv :: "'w uci_env \<Rightarrow> 'w uci \<Rightarrow> ptr \<Rightarrow> 'w uci option" where
  "uci_pbf_packet_data_recv e u packet =
     do {
       u \<leftarrow> drop_rx e u;
       hdr \<leftarrow> hdr_at u (Some packet);
       let info = u_data_msg_info u;
       Some (u\<lparr>u_data_msg_info := info\<lparr>d_is_last_packet_prev := d_is_last_packet info,
                 d_is_last_packet := \<not> uci_blk_is_segment hdr\<rparr>,
               u_rx := Some packet, u_rx_last := Some packet\<rparr>)
     }"

text \<open>
  What \<^verbatim>\<open>uci_packet_recv\<close> does with a packet of the right size: collect it; the first component
  says whether the message has to wait for more segments.
\<close>

definition collect_packet ::
    "'w uci_env \<Rightarrow> 'w uci \<Rightarrow> ptr \<Rightarrow> nat \<Rightarrow> 16 word \<Rightarrow> (bool \<times> 'w uci) option" where
  "collect_packet e u packet mt mid =
     (if mt = UCI_MESSAGE_TYPE_DATA then
        do {
          hdr \<leftarrow> hdr_at u (Some packet);
          if uci_blk_get_mt_dpf hdr AND 0x0F00 \<noteq> 0
          then uci_pbf_packet_recv e (clear_uci_msg_info u) packet mid
          else do { u \<leftarrow> uci_pbf_packet_data_recv e u packet; Some (False, u) }
        }
      else if is_control_mt mt then uci_pbf_packet_recv e (clear_uci_msg_info u) packet mid
      else if is_se_testing_mt mt then
        do { u \<leftarrow> drop_rx e (clear_uci_msg_info u);
             Some (False, u\<lparr>u_rx := Some packet, u_rx_last := Some packet\<rparr>) }
      else Some (False, u))"

definition deliver :: "'w uci_env \<Rightarrow> 'w uci \<Rightarrow> 16 word \<Rightarrow> 'w uci option" where
  "deliver e u mid =
     do {
       u \<leftarrow> handle_full_message e u mid;
       u \<leftarrow> free_all e u (u_rx u);
       Some (u\<lparr>u_rx := None\<rparr>)
     }"

definition bad_packet_len :: "uci_blk \<Rightarrow> bool option" where
  "bad_packet_len b =
     (if b_len b < UCI_PACKET_HEADER_SIZE then Some True
      else do { hdr \<leftarrow> hdr_of b; Some (b_len b > uci_packet_hdr_get_msg_max_size hdr) })"

definition uci_packet_recv :: "'w uci_env \<Rightarrow> 'w uci \<Rightarrow> ptr \<Rightarrow> 'w uci option" where
  "uci_packet_recv e u packet =
     do {
       b \<leftarrow> heap (u_mem u) packet;
       bad \<leftarrow> bad_packet_len b;
       if bad then free_all e u (Some packet)
       else do {
         hdr \<leftarrow> hdr_of b;
         let mt = uci_blk_get_mt hdr;
         let mid = uci_blk_get_uci_message_id hdr mt;
         u \<leftarrow> upd_blk u (Some packet) (\<lambda>b. Some (b\<lparr>
                b_flags := b_flags b OR UCI_BLK_FLAGS_HEADER_RESERVED,
                b_total_len := uci_packet_hdr_get_payload_size hdr\<rparr>));
         (wait, u) \<leftarrow> collect_packet e u packet mt mid;
         if wait then Some u else deliver e u mid
       }
     }"

section \<open>Reassembly\<close>

text \<open>
  The reassembler as a function of packets: the message being collected, an identifier with the
  bytes so far, and a new packet give what is collected now, or a complete message. A packet with
  another identifier drops what was collected.
\<close>

definition reassemble ::
    "(16 word \<times> bytes) option \<Rightarrow> bytes \<Rightarrow> (16 word \<times> bytes) option \<times> (16 word \<times> bytes) option" where
  "reassemble rx pkt =
     (let hdr = take UCI_PACKET_HEADER_SIZE pkt; body = drop UCI_PACKET_HEADER_SIZE pkt;
          msg = (id_of hdr, case rx of
                   None \<Rightarrow> body
                 | Some (i, bs) \<Rightarrow> if i = id_of hdr then bs @ body else body)
      in if uci_blk_is_segment hdr then (Some msg, None) else (None, Some msg))"

text \<open>The message the context is collecting, in the blocks \<open>rxs\<close>.\<close>

definition rx_rep :: "'w uci \<Rightarrow> (16 word \<times> bytes) option \<Rightarrow> ptr list \<Rightarrow> bool" where
  "rx_rep u rx rxs \<longleftrightarrow>
     (case rx of
        None \<Rightarrow> u_rx u = None \<and> rxs = []
      | Some (mid, bs) \<Rightarrow>
          rxs \<noteq> [] \<and> chain (heap (u_mem u)) (u_rx u) rxs \<and> own_blks (heap (u_mem u)) rxs \<and>
          u_rx_last u = last_ptr rxs \<and> payload (heap (u_mem u)) rxs = bs \<and>
          total_is (heap (u_mem u)) (u_rx u) (length bs) \<and> rx_id u = Some mid)"

text \<open>
  Packets of messages that may be segmented: control messages, and data messages whose data
  packet format is not 0.
\<close>

definition segmentable :: "bytes \<Rightarrow> bool" where
  "segmentable hdr \<longleftrightarrow> is_control_mt (uci_blk_get_mt hdr) \<or>
     is_data_mt (uci_blk_get_mt hdr) \<and> uci_blk_get_mt_dpf hdr AND 0x0F00 \<noteq> 0"

text \<open>A packet handed over by the transport: its blocks and the bytes received.\<close>

definition packet_rep :: "heap \<Rightarrow> ptr \<Rightarrow> ptr list \<Rightarrow> bytes \<Rightarrow> bool" where
  "packet_rep h p ps pkt \<longleftrightarrow> chain h (Some p) ps \<and> own_blks h ps \<and>
     (\<forall>a \<in> set (tl ps). \<not> starts_packet h a) \<and> wire h ps = pkt \<and>
     (\<exists>b. h p = Some b \<and> UCI_PACKET_HEADER_SIZE \<le> b_len b \<and> b_len b \<le> UCI_MAX_PACKET_SIZE)"

text \<open>The same packet once its header has been read.\<close>

definition body_rep :: "heap \<Rightarrow> ptr \<Rightarrow> ptr list \<Rightarrow> bytes \<Rightarrow> bytes \<Rightarrow> bool" where
  "body_rep h p ps hdr body \<longleftrightarrow> chain h (Some p) ps \<and> own_blks h ps \<and> payload h ps = body \<and>
     total_is h (Some p) (length body) \<and> (\<exists>b. h p = Some b \<and> hdr_of b = Some hdr)"

lemma last_of_chain_ok:
  "chain h (Some p) (p # ps) \<Longrightarrow> last_of_chain h p = Some (last (p # ps))"
proof (induction ps arbitrary: p)
  case Nil
  then show ?case by (subst last_of_chain.simps) (auto split: option.splits)
next
  case (Cons q ps)
  then obtain b where "h p = Some b" "b_next b = Some q" and ch: "chain h (Some q) (q # ps)"
    by (auto split: option.splits)
  then show ?case using Cons.IH [OF ch] by (subst last_of_chain.simps) simp
qed

lemma body_rep_head: "body_rep h p ps hdr body \<Longrightarrow> \<exists>qs. ps = p # qs"
  by (auto simp: body_rep_def chain_Some_iff)

lemma body_rep_last:
  "body_rep h p ps hdr body \<Longrightarrow> last_of_chain h p = Some (last ps) \<and> last_ptr ps = Some (last ps)"
  by (auto simp: body_rep_def chain_Some_iff last_ptr_def intro!: last_of_chain_ok)

lemma body_rep_cong:
  assumes "\<And>a. a \<in> set ps \<Longrightarrow> h' a = h a"
  shows "body_rep h' p ps hdr body = body_rep h p ps hdr body"
proof -
  have "chain h' (Some p) ps = chain h (Some p) ps" using assms by (intro path_cong) simp
  moreover have "payload h' ps = payload h ps" using assms by (intro payload_cong) (simp add: blk_at_def)
  moreover have "own_blks h' ps = own_blks h ps" using assms by (auto simp: own_blks_def)
  moreover have "h' p = h p" if "chain h (Some p) ps"
    using that assms by (auto simp: chain_Some_iff)
  ultimately show ?thesis unfolding body_rep_def total_is_def by (cases "chain h (Some p) ps") simp_all
qed

lemma rx_rep_cong:
  assumes "u_rx u' = u_rx u" and "u_rx_last u' = u_rx_last u"
    and "\<And>a. a \<in> set rxs \<Longrightarrow> heap (u_mem u') a = heap (u_mem u) a"
  shows "rx_rep u' rx rxs = rx_rep u rx rxs"
proof (cases rx)
  case None
  with assms show ?thesis by (simp add: rx_rep_def)
next
  case (Some x)
  have ch: "chain (heap (u_mem u')) (u_rx u) rxs = chain (heap (u_mem u)) (u_rx u) rxs"
    using assms(3) by (intro path_cong) simp
  have pay: "payload (heap (u_mem u')) rxs = payload (heap (u_mem u)) rxs"
    using assms(3) by (intro payload_cong) (simp add: blk_at_def)
  have own: "own_blks (heap (u_mem u')) rxs = own_blks (heap (u_mem u)) rxs"
    using assms(3) by (auto simp: own_blks_def)
  have at: "heap (u_mem u') a = heap (u_mem u) a"
    if "rxs \<noteq> []" "chain (heap (u_mem u)) (u_rx u) rxs" "u_rx u = Some a" for a
    using that assms(3) by (auto simp: chain_Some_iff)
  show ?thesis
  proof (cases "rxs \<noteq> [] \<and> chain (heap (u_mem u)) (u_rx u) rxs")
    case True
    with at Some assms(1,2) ch pay own show ?thesis
      by (cases "u_rx u") (simp_all add: rx_rep_def total_is_def rx_id_def hdr_at_def blk_of_def)
  next
    case False
    with Some assms(1) ch show ?thesis by (auto simp: rx_rep_def)
  qed
qed

text \<open>A packet that starts a message.\<close>

lemma rx_rep_first:
  assumes "body_rep (heap (u_mem u)) p ps hdr body"
  shows "rx_rep (u\<lparr>u_rx := Some p, u_rx_last := last_ptr ps\<rparr>) (Some (id_of hdr, body)) ps"
  using assms body_rep_head [OF assms]
  by (auto simp: rx_rep_def body_rep_def rx_id_def hdr_at_def blk_of_def id_of_def)

lemma flags_or_header [simp]:
  "(f OR 4 :: byte) AND 4 = 4" "(f OR 4 :: byte) AND 1 = f AND 1" "(f OR 4 :: byte) AND 2 = f AND 2"
  by (simp_all add: word_ao_dist)

lemma packet_flagged:
  assumes pk: "packet_rep h p ps pkt" and b: "h p = Some b"
    and sz: "uci_packet_hdr_get_payload_size (take 4 pkt) = length pkt - 4"
  shows "hdr_of b = Some (take 4 pkt)" and "4 \<le> length pkt"
    and "body_rep (h(p \<mapsto> b\<lparr>b_flags := b_flags b OR UCI_BLK_FLAGS_HEADER_RESERVED,
             b_total_len := uci_packet_hdr_get_payload_size (take 4 pkt)\<rparr>)) p ps (take 4 pkt) (drop 4 pkt)"
proof -
  let ?b = "b\<lparr>b_flags := b_flags b OR UCI_BLK_FLAGS_HEADER_RESERVED,
             b_total_len := uci_packet_hdr_get_payload_size (take 4 pkt)\<rparr>"
  from pk obtain qs where ps: "ps = p # qs" by (auto simp: packet_rep_def chain_Some_iff)
  from pk b ps have own: "own_blk b" "own_blks h qs" and len: "4 \<le> b_len b"
    and ch: "chain h (b_next b) qs" and nh: "\<forall>a \<in> set qs. \<not> starts_packet h a"
    and w: "take (b_len b) (b_data b) @ payload h qs = pkt"
    by (auto simp: packet_rep_def wire_payload [symmetric] wire_def blk_data_def)
  from own have dl: "b_len b \<le> length (b_data b)" by (simp add: own_blk_def blk_ok_def)
  have t4: "take 4 (b_data b) = take 4 pkt" and d4: "drop 4 (take (b_len b) (b_data b)) @ payload h qs = drop 4 pkt"
    unfolding w [symmetric] using len dl by simp_all
  show "hdr_of b = Some (take 4 pkt)"
    using len dl t4 by (simp add: hdr_of_def read_buf_def)
  show l4: "4 \<le> length pkt" unfolding w [symmetric] using len dl by simp
  have "chain h (Some p) (p # qs)" using pk ps by (simp add: packet_rep_def)
  from chain_distinct [OF this] have notin: "p \<notin> set qs" by simp
  have "blk_payload ?b = drop 4 (take (b_len b) (b_data b))"
    by (simp add: blk_payload_def uci_blk_has_header_def)
  moreover have "own_blk ?b"
    using own len by (simp add: own_blk_def blk_ok_def allocator_owned_def)
  ultimately show "body_rep (h(p \<mapsto> ?b)) p ps (take 4 pkt) (drop 4 pkt)"
    using ps ch own notin d4 sz len dl t4
    by (auto simp: body_rep_def total_is_def blk_at_def hdr_of_def read_buf_def)
qed

text \<open>A packet that continues one.\<close>

lemma add_segment_ok:
  assumes rx: "rx_rep u (Some (mid, bs)) rxs" and pk: "body_rep (heap (u_mem u)) p ps hdr body"
    and dis: "set ps \<inter> set rxs = {}" and len: "length bs + length body < 65536"
  obtains m where "add_segment u p = Some (u\<lparr>u_mem := m, u_rx_last := Some p\<rparr>)"
    "\<forall>a. a \<notin> set rxs \<union> set ps \<longrightarrow> heap m a = heap (u_mem u) a"
    "rx_rep (u\<lparr>u_mem := m, u_rx_last := last_ptr ps\<rparr>) (Some (mid, bs @ body)) (rxs @ ps)"
    "chain (heap m) (Some p) ps"
    "\<exists>x y z xb yb zb. m = put_blk (put_blk (put_blk (u_mem u) x xb) y yb) z zb \<and>
       {x, y, z} \<subseteq> dom (heap (u_mem u))"
proof -
  let ?h = "heap (u_mem u)"
  from rx have ne: "rxs \<noteq> []" and ch: "chain ?h (u_rx u) rxs" and own: "own_blks ?h rxs"
    and lst: "u_rx_last u = last_ptr rxs" and pay: "payload ?h rxs = bs"
    and tot: "total_is ?h (u_rx u) (length bs)" and rid: "rx_id u = Some mid"
    by (auto simp: rx_rep_def)
  from ne obtain zs z where rxs: "rxs = zs @ [z]" by (metis rev_exhaust)
  from ne ch obtain r where r: "u_rx u = Some r" by (cases "u_rx u") auto
  obtain qs where ps: "ps = p # qs" using body_rep_head [OF pk] by blast
  from pk obtain pb where pb: "?h p = Some pb" "b_total_len pb = length body" and pch: "chain ?h (Some p) ps"
    and pown: "own_blks ?h ps" and ppay: "payload ?h ps = body"
    by (auto simp: body_rep_def total_is_def)
  from own rxs obtain zb where zb: "?h z = Some zb" by auto
  from tot r obtain rb where rb: "?h r = Some rb" "b_total_len rb = length bs" by (auto simp: total_is_def)
  have rin: "r \<in> set rxs" using ch r by (cases rxs) auto
  have pz: "p \<noteq> z" "p \<noteq> r" "p \<notin> set qs" "p \<notin> set rxs"
    using dis ps rxs rin chain_distinct [OF pch] by auto
  let ?h1 = "?h(z \<mapsto> zb\<lparr>b_next := Some p\<rparr>)"
  obtain rb1 where rb1: "?h1 r = Some rb1" "b_total_len rb1 = length bs" "same_shape rb rb1"
    "hdr_of rb1 = hdr_of rb"
    using rb zb by (cases "r = z") (auto simp: hdr_of_def, simp add: same_shape_def)
  let ?h2 = "?h1(r \<mapsto> rb1\<lparr>b_total_len := length bs + length body\<rparr>)"
  let ?h3 = "?h2(p \<mapsto> pb\<lparr>b_total_len := 0\<rparr>)"
  let ?m = "(u_mem u)\<lparr>heap := ?h3\<rparr>"
  have run: "add_segment u p = Some (u\<lparr>u_mem := ?m, u_rx_last := Some p\<rparr>)"
    using lst rxs zb r rb1 pb pz len
    by (simp add: add_segment_def upd_blk_def put_blk_def)
  have "chain ?h1 (u_rx u) (rxs @ ps)"
    using chain_link [of b_next ?h "u_rx u" zs z "Some p" ps zb "zb\<lparr>b_next := Some p\<rparr>"] ch rxs pch zb dis
    by auto
  then have ch3: "chain ?h3 (u_rx u) (rxs @ ps)"
    using rb1 pb pz by (simp add: path_upd_same_next [of _ r rb1] path_upd_same_next [of _ p pb])
  have shape: "same_shape pb (pb\<lparr>b_total_len := 0\<rparr>)"
    "same_shape rb1 (rb1\<lparr>b_total_len := length bs + length body\<rparr>)"
    "same_shape zb (zb\<lparr>b_next := Some p\<rparr>)" by simp_all
  have p2: "?h2 p = Some pb" using pz pb by simp
  have pay3: "payload ?h3 as = payload ?h as" for as
    using same_shape_upd(1) [of ?h2 p pb _ as, OF p2 shape(1)] same_shape_upd(1) [of ?h1 r rb1 _ as, OF rb1(1) shape(2)]
      same_shape_upd(1) [of ?h z zb _ as, OF zb shape(3)] by simp
  have own3: "own_blks ?h3 as = own_blks ?h as" for as
    using same_shape_upd(3) [of ?h2 p pb _ as, OF p2 shape(1)] same_shape_upd(3) [of ?h1 r rb1 _ as, OF rb1(1) shape(2)]
      same_shape_upd(3) [of ?h z zb _ as, OF zb shape(3)] by simp
  have rid3: "rx_id (u\<lparr>u_mem := ?m, u_rx_last := last_ptr ps\<rparr>) = Some mid"
    using rid rb rb1(4) pz r by (simp add: rx_id_def hdr_at_def blk_of_def hdr_of_def)
  have "payload ?h3 (rxs @ ps) = bs @ body" "own_blks ?h3 (rxs @ ps)"
    using pay ppay own pown unfolding pay3 own3 by simp_all
  moreover have "last_ptr (rxs @ ps) = last_ptr ps" using ps by (intro last_ptr_append) simp
  moreover have "total_is ?h3 (u_rx u) (length (bs @ body))" using r pz by (simp add: total_is_def)
  ultimately have "rx_rep (u\<lparr>u_mem := ?m, u_rx_last := last_ptr ps\<rparr>) (Some (mid, bs @ body)) (rxs @ ps)"
    using ch3 rid3 ne by (simp add: rx_rep_def del: payload_append own_blks_simps)
  moreover have "chain ?h3 (Some p) ps"
    using ch3 ps by (auto simp: path_append split: option.splits)
  moreover have "\<forall>a. a \<notin> set rxs \<union> set ps \<longrightarrow> heap ?m a = ?h a"
    using rxs rin ps by auto
  moreover have "?m = put_blk (put_blk (put_blk (u_mem u) z (zb\<lparr>b_next := Some p\<rparr>)) r
      (rb1\<lparr>b_total_len := length bs + length body\<rparr>)) p (pb\<lparr>b_total_len := 0\<rparr>) \<and> {z, r, p} \<subseteq> dom ?h"
    using zb rb pb by (auto simp: put_blk_def)
  ultimately show thesis using run by (intro that [of ?m]) (simp_all, blast)
qed

context uci_allocator
begin

lemma inv_writes:
  "inv m \<Longrightarrow> {x, y, z} \<subseteq> dom (heap m) \<Longrightarrow> inv (put_blk (put_blk (put_blk m x xb) y yb) z zb)"
  by (intro write_blk) auto

lemma free_all_ok:
  assumes "e_allocator e = A" and "inv (u_mem u)" and "chain (heap (u_mem u)) q as" and "own_blks (heap (u_mem u)) as"
  obtains m where "Uci_State.free_all e u q = Some (u\<lparr>u_mem := m\<rparr>)" "inv m"
    "heap m = heap (u_mem u) |` (- set as)"
  using free_all [OF assms(2,3) own_blks_owned [OF assms(4)]] assms(1)
  by (auto simp: Uci_State.free_all_def)

lemma pbf_recv_ok:
  assumes e: "e_allocator e = A" and inv: "inv (u_mem u)" and rx: "rx_rep u rx rxs"
    and pk: "body_rep (heap (u_mem u)) p ps hdr body" and dis: "set ps \<inter> set rxs = {}"
    and len: "(case rx of None \<Rightarrow> 0 | Some (i, bs) \<Rightarrow> length bs) + length body < 65536"
  obtains m r rxs' where
    "uci_pbf_packet_recv e u p (id_of hdr) =
       Some (uci_blk_is_segment hdr, u\<lparr>u_mem := m, u_rx := r, u_rx_last := last_ptr ps\<rparr>)"
    "inv m" "\<forall>a. a \<notin> set rxs \<union> set ps \<longrightarrow> heap m a = heap (u_mem u) a"
    "set ps \<subseteq> set rxs'" "set rxs' \<subseteq> set rxs \<union> set ps" "\<forall>a \<in> set rxs - set rxs'. heap m a = None"
    "rx_rep (u\<lparr>u_mem := m, u_rx := r, u_rx_last := last_ptr ps\<rparr>)
       (Some (id_of hdr, case rx of None \<Rightarrow> body
          | Some (i, bs) \<Rightarrow> if i = id_of hdr then bs @ body else body)) rxs'"
proof -
  have hd: "hdr_at u (Some p) = Some hdr"
    using pk by (auto simp: hdr_at_def blk_of_def body_rep_def)
  note lst = body_rep_last [OF pk]
  consider (none) "rx = None" | (other) i bs where "rx = Some (i, bs)" "i \<noteq> id_of hdr"
    | (same) bs where "rx = Some (id_of hdr, bs)" by (cases rx) auto
  then show thesis
  proof cases
    case none
    with rx have "u_rx u = None" "rxs = []" by (simp_all add: rx_rep_def)
    with hd lst none inv rx_rep_first [OF pk] show thesis
      by (intro that [where m = "u_mem u" and r = "Some p" and rxs' = ps])
        (simp_all add: uci_pbf_packet_recv_def)
  next
    case other
    with rx have rxo: "u_rx u \<noteq> None" "chain (heap (u_mem u)) (u_rx u) rxs" "own_blks (heap (u_mem u)) rxs"
      "rx_id u = Some i"
      by (cases "u_rx u"; auto simp: rx_rep_def)+
    obtain m where m: "Uci_State.free_all e u (u_rx u) = Some (u\<lparr>u_mem := m\<rparr>)" "inv m"
      "heap m = heap (u_mem u) |` (- set rxs)"
      by (rule free_all_ok [OF e inv rxo(2,3)])
    have "\<And>a. a \<in> set ps \<Longrightarrow> heap m a = heap (u_mem u) a" using m(3) dis by (auto simp: restrict_map_def disjoint_iff)
    then have pk': "body_rep (heap m) p ps hdr body" using pk by (subst body_rep_cong)
    with hd lst other rxo m rx_rep_first [of "u\<lparr>u_mem := m\<rparr>" p ps hdr body] body_rep_last [OF pk'] show thesis
      by (intro that [where m = m and r = "Some p" and rxs' = ps])
        (auto simp: uci_pbf_packet_recv_def restrict_map_def)
  next
    case same
    have rx': "rx_rep u (Some (id_of hdr, bs)) rxs" and len': "length bs + length body < 65536"
      using rx len same by simp_all
    obtain m where m: "add_segment u p = Some (u\<lparr>u_mem := m, u_rx_last := Some p\<rparr>)"
      "\<forall>a. a \<notin> set rxs \<union> set ps \<longrightarrow> heap m a = heap (u_mem u) a"
      "rx_rep (u\<lparr>u_mem := m, u_rx_last := last_ptr ps\<rparr>) (Some (id_of hdr, bs @ body)) (rxs @ ps)"
      "chain (heap m) (Some p) ps"
      "\<exists>x y z xb yb zb. m = put_blk (put_blk (put_blk (u_mem u) x xb) y yb) z zb \<and>
         {x, y, z} \<subseteq> dom (heap (u_mem u))"
      by (rule add_segment_ok [OF rx' pk dis len'])
    from m(5) obtain x y z xb yb zb where "m = put_blk (put_blk (put_blk (u_mem u) x xb) y yb) z zb"
      "{x, y, z} \<subseteq> dom (heap (u_mem u))" by (elim exE conjE)
    then have "inv m" using inv_writes [OF inv] by simp
    moreover have "last_of_chain (heap m) p = Some (last ps)"
      using m(4) last_of_chain_ok by (auto simp: chain_Some_iff)
    moreover have "u_rx u \<noteq> None" "rx_id u = Some (id_of hdr)" using rx' by (cases "u_rx u"; auto simp: rx_rep_def)+
    moreover have "u\<lparr>u_mem := m, u_rx := u_rx u, u_rx_last := last_ptr ps\<rparr> = u\<lparr>u_mem := m, u_rx_last := last_ptr ps\<rparr>"
      by simp
    ultimately show thesis
      using hd lst same m(1-4)
      by (intro that [where m = m and r = "u_rx u" and rxs' = "rxs @ ps"])
        (simp_all add: uci_pbf_packet_recv_def, blast)
  qed
qed

text \<open>\<^verbatim>\<open>uci_packet_recv\<close> implements the abstract reassembler.\<close>

lemma packet_recv_collects:
  assumes e: "e_allocator e = A" and inv: "inv (u_mem u)" and rx: "rx_rep u rx rxs"
    and pk: "packet_rep (heap (u_mem u)) p ps pkt" and dis: "set ps \<inter> set rxs = {}"
    and sz: "uci_packet_hdr_get_payload_size (take 4 pkt) = length pkt - 4"
    and seg: "segmentable (take 4 pkt)"
    and len: "(case rx of None \<Rightarrow> 0 | Some (i, bs) \<Rightarrow> length bs) + (length pkt - 4) < 65536"
  obtains u' rxs' where
    "uci_packet_recv e u p =
       (case reassemble rx pkt of
          (Some msg, _) \<Rightarrow> Some u' | (None, None) \<Rightarrow> None | (None, Some (mid, bs)) \<Rightarrow> deliver e u' mid)"
    "rx_rep u' (case reassemble rx pkt of (Some msg, _) \<Rightarrow> Some msg | (None, msg) \<Rightarrow> msg) rxs'"
    "inv (u_mem u')" "\<forall>a. a \<notin> set rxs \<union> set ps \<longrightarrow> heap (u_mem u') a = heap (u_mem u) a"
    "set ps \<subseteq> set rxs'" "set rxs' \<subseteq> set rxs \<union> set ps" "\<forall>a \<in> set rxs - set rxs'. heap (u_mem u') a = None"
    "\<exists>m r l. u' = (clear_uci_msg_info u)\<lparr>u_mem := m, u_rx := r, u_rx_last := l\<rparr>"
proof -
  let ?hdr = "take 4 pkt" and ?h = "heap (u_mem u)"
  from pk obtain b where b: "?h p = Some b" "4 \<le> b_len b" "b_len b \<le> 259" by (auto simp: packet_rep_def)
  note fl = packet_flagged [OF pk b(1) sz]
  define b' where "b' = b\<lparr>b_flags := b_flags b OR UCI_BLK_FLAGS_HEADER_RESERVED,
    b_total_len := uci_packet_hdr_get_payload_size ?hdr\<rparr>"
  define m0 where "m0 = put_blk (u_mem u) p b'"
  let ?u0 = "u\<lparr>u_mem := m0\<rparr>" let ?u1 = "clear_uci_msg_info ?u0"
  have pps: "p \<in> set ps" using pk by (auto simp: packet_rep_def chain_Some_iff)
  have pin: "p \<notin> set rxs" using dis pps by auto
  have body: "body_rep (heap (u_mem ?u1)) p ps ?hdr (drop 4 pkt)"
    using fl(3) by (simp add: m0_def b'_def clear_uci_msg_info_def)
  have rx1: "rx_rep ?u1 rx rxs"
  proof -
    have "rx_rep ?u1 rx rxs = rx_rep u rx rxs"
      using pin by (intro rx_rep_cong) (auto simp: m0_def clear_uci_msg_info_def)
    with rx show ?thesis by simp
  qed
  have inv1: "inv (u_mem ?u1)" using inv b by (auto simp: m0_def clear_uci_msg_info_def intro: write_blk)
  have len1: "(case rx of None \<Rightarrow> 0 | Some (i, bs) \<Rightarrow> length bs) + length (drop 4 pkt) < 65536"
    using len by simp
  obtain m r rxs' where pr:
    "uci_pbf_packet_recv e ?u1 p (id_of ?hdr) =
       Some (uci_blk_is_segment ?hdr, ?u1\<lparr>u_mem := m, u_rx := r, u_rx_last := last_ptr ps\<rparr>)"
    "inv m" "\<forall>a. a \<notin> set rxs \<union> set ps \<longrightarrow> heap m a = heap (u_mem ?u1) a"
    "set ps \<subseteq> set rxs'" "set rxs' \<subseteq> set rxs \<union> set ps" "\<forall>a \<in> set rxs - set rxs'. heap m a = None"
    "rx_rep (?u1\<lparr>u_mem := m, u_rx := r, u_rx_last := last_ptr ps\<rparr>)
       (Some (id_of ?hdr, case rx of None \<Rightarrow> drop 4 pkt
          | Some (i, bs) \<Rightarrow> if i = id_of ?hdr then bs @ drop 4 pkt else drop 4 pkt)) rxs'"
    by (rule pbf_recv_ok [OF e inv1 rx1 body dis len1])
  let ?u2 = "?u1\<lparr>u_mem := m, u_rx := r, u_rx_last := last_ptr ps\<rparr>"
  have coll: "collect_packet e ?u0 p (uci_blk_get_mt ?hdr) (id_of ?hdr) = Some (uci_blk_is_segment ?hdr, ?u2)"
    using seg pr(1) fl(1) by (auto simp: collect_packet_def segmentable_def hdr_at_def blk_of_def m0_def b'_def
        hdr_of_def is_control_mt_def is_data_mt_def)
  have max: "uci_packet_hdr_get_msg_max_size ?hdr = 259"
    using seg by (auto simp: uci_packet_hdr_get_msg_max_size_def segmentable_def is_control_mt_def
        is_data_mt_def)
  have run: "uci_packet_recv e u p = (if uci_blk_is_segment ?hdr then Some ?u2 else deliver e ?u2 (id_of ?hdr))"
    using b fl(1) max coll
    by (simp add: uci_packet_recv_def bad_packet_len_def upd_blk_def id_of_def Let_def m0_def b'_def)
  have fr: "\<forall>a. a \<notin> set rxs \<union> set ps \<longrightarrow> heap (u_mem ?u2) a = heap (u_mem u) a"
    using pr(3) pps by (auto simp: m0_def clear_uci_msg_info_def)
  have shape: "\<exists>m r l. ?u2 = (clear_uci_msg_info u)\<lparr>u_mem := m, u_rx := r, u_rx_last := l\<rparr>"
    by (rule exI [of _ m], rule exI [of _ r], rule exI [of _ "last_ptr ps"]) (simp add: clear_uci_msg_info_def)
  show thesis
    by (rule that [of ?u2 rxs'])
      (use run pr fr shape in \<open>auto simp: reassemble_def Let_def split: if_splits\<close>)
qed

end

section \<open>Sending and receiving\<close>

text \<open>The packets of a message, fed to the reassembler one by one, give the message back.\<close>

fun feed :: "(16 word \<times> bytes) option \<Rightarrow> bytes list \<Rightarrow>
    (16 word \<times> bytes) option \<times> (16 word \<times> bytes) list" where
  "feed rx [] = (rx, [])"
| "feed rx (p # ps) =
     (case reassemble rx p of (rx, msg) \<Rightarrow>
        (case feed rx ps of (rx, msgs) \<Rightarrow> (rx, case msg of None \<Rightarrow> msgs | Some m \<Rightarrow> m # msgs)))"

lemma reassemble_header:
  assumes "header_id mid" and "n < 65536"
  shows "reassemble rx (pkt_header mid n @ bs) =
    (let msg = (mid, case rx of None \<Rightarrow> bs | Some (i, acc) \<Rightarrow> if i = mid then acc @ bs else bs)
     in if n > UCI_MAX_CONTROL_PAYLOAD_SIZE then (Some msg, None) else (None, Some msg))"
  using pkt_header_fields [OF assms] by (cases rx) (auto simp: reassemble_def Let_def)

lemma feed_segment_acc:
  assumes "header_id mid" and "length bs < 65536"
  shows "feed (Some (mid, acc)) (segment mid bs) = (None, [(mid, acc @ bs)])"
  using assms(2)
proof (induction "length bs" arbitrary: acc bs rule: less_induct)
  case less
  show ?case
  proof (cases "length bs > 255")
    case True
    then have "feed (Some (mid, acc @ take 255 bs)) (segment mid (drop 255 bs)) =
        (None, [(mid, (acc @ take 255 bs) @ drop 255 bs)])"
      using less.prems by (intro less.hyps) simp_all
    with True reassemble_header [OF assms(1) less.prems] show ?thesis
      by (subst segment.simps) simp
  next
    case False
    with reassemble_header [OF assms(1) less.prems] show ?thesis by (subst segment.simps) simp
  qed
qed

lemma feed_segment:
  assumes "header_id mid" and "length bs < 65536" and "\<And>i acc. rx = Some (i, acc) \<Longrightarrow> i \<noteq> mid"
  shows "feed rx (segment mid bs) = (None, [(mid, bs)])"
proof -
  have msg: "(case rx of None \<Rightarrow> xs | Some (i, acc) \<Rightarrow> if i = mid then acc @ xs else xs) = xs" for xs
    using assms(3) by (cases rx) auto
  show ?thesis
  proof (cases "length bs > 255")
    case True
    with feed_segment_acc [OF assms(1), of "drop 255 bs" "take 255 bs"] reassemble_header [OF assms(1,2)] assms(2) msg
    show ?thesis by (subst segment.simps) simp
  next
    case False
    with reassemble_header [OF assms(1,2)] msg show ?thesis by (subst segment.simps) simp
  qed
qed

text \<open>Every packet of a segmentation announces exactly what it carries.\<close>

lemma segment_packet_form:
  "pkt \<in> set (segment mid bs) \<Longrightarrow> length bs < 65536 \<Longrightarrow>
   \<exists>n xs. pkt = pkt_header mid n @ xs \<and> length xs = min n 255 \<and> n < 65536"
proof (induction "length bs" arbitrary: bs rule: less_induct)
  case less
  from less.prems(1) consider "pkt = pkt_header mid (length bs) @ take 255 bs"
    | "255 < length bs" "pkt \<in> set (segment mid (drop 255 bs))"
    by (subst (asm) segment.simps) (auto split: if_splits)
  then show ?case
  proof cases
    case 1
    with less.prems(2) show ?thesis by (intro exI [of _ "length bs"] exI [of _ "take 255 bs"]) simp
  next
    case 2
    with less.prems(2) show ?thesis by (intro less.hyps [of "drop 255 bs"]) simp_all
  qed
qed

lemma segment_packets:
  assumes "header_id mid" and "pkt \<in> set (segment mid bs)" and "length bs < 65536"
  shows "uci_packet_hdr_get_payload_size (take 4 pkt) = length pkt - 4"
    and "length pkt \<le> UCI_MAX_PACKET_SIZE" and "4 \<le> length pkt"
    and "id_of (take 4 pkt) = mid" and "uci_blk_get_mt (take 4 pkt) = UCI_MT mid"
  using segment_packet_form [OF assms(2,3)] pkt_header_fields [OF assms(1)] by auto

text \<open>All packets of a message but the last are marked as segments.\<close>

lemma feed_append:
  "feed rx (ps @ qs) = (case feed rx ps of (rx, ms) \<Rightarrow> case feed rx qs of (rx, ms') \<Rightarrow> (rx, ms @ ms'))"
  by (induction ps arbitrary: rx) (auto split: prod.splits option.splits)

lemma segment_split:
  assumes "header_id mid" and "length bs < 65536"
  obtains init lst where "segment mid bs = init @ [lst]"
    "\<forall>pkt \<in> set init. uci_blk_is_segment (take 4 pkt)" "\<not> uci_blk_is_segment (take 4 lst)"
proof -
  have "\<exists>init lst. segment mid bs = init @ [lst] \<and> (\<forall>pkt \<in> set init. uci_blk_is_segment (take 4 pkt)) \<and>
      \<not> uci_blk_is_segment (take 4 lst)"
    using assms(2)
  proof (induction "length bs" arbitrary: bs rule: less_induct)
    case less
    let ?p = "pkt_header mid (length bs) @ take 255 bs"
    have flag: "uci_blk_is_segment (take 4 ?p) \<longleftrightarrow> length bs > 255"
      using pkt_header_fields(3) [OF assms(1) less.prems] by simp
    show ?case
    proof (cases "length bs > 255")
      case True
      then have "length (drop 255 bs) < length bs" "length (drop 255 bs) < 65536" using less.prems by simp_all
      from less.hyps [OF this] obtain init lst where
        "segment mid (drop 255 bs) = init @ [lst]" "\<forall>pkt \<in> set init. uci_blk_is_segment (take 4 pkt)"
        "\<not> uci_blk_is_segment (take 4 lst)" by blast
      with True flag show ?thesis
        by (subst segment.simps) (intro exI [of _ "?p # init"] exI [of _ lst], simp)
    next
      case False
      with flag show ?thesis by (subst segment.simps) simp
    qed
  qed
  then show thesis using that by blast
qed

lemma feed_segments_only:
  "(\<And>pkt. pkt \<in> set ps \<Longrightarrow> uci_blk_is_segment (take 4 pkt)) \<Longrightarrow> \<exists>rx'. feed rx ps = (rx', [])"
proof (induction ps arbitrary: rx)
  case (Cons p ps)
  obtain rx1 where rx1: "reassemble rx p = (rx1, None)" using Cons.prems [of p] by (auto simp: reassemble_def Let_def)
  from Cons.IH [of rx1] Cons.prems obtain rx' where "feed rx1 ps = (rx', [])" by auto
  with rx1 show ?case by simp
qed simp

section \<open>Handling a message\<close>

text \<open>A message that was collected can be read by a parser, byte for byte.\<close>

lemma rx_rep_msg_ok:
  assumes "rx_rep u (Some (mid, bs)) rxs" and "length bs < 65536"
  obtains p where "u_rx u = Some p" "msg_ok (heap (u_mem u)) p bs"
proof -
  from assms(1) obtain p where p: "u_rx u = Some p" by (cases "u_rx u") (auto simp: rx_rep_def)
  with assms own_blks_ok [of "heap (u_mem u)" rxs] have "msg_ok (heap (u_mem u)) p bs"
    by (auto simp: rx_rep_def msg_ok_def msg_blks_def total_is_def intro!: exI [of _ rxs])
  with p show thesis by (rule that)
qed

text \<open>
  The handler for a message is the first one registered for its identifier, the generic handler
  when there is none; what is sent back depends on the role and on the result.
\<close>

lemma handle_full_message_lookup:
  assumes inv: "handlers_inv u ps"
    and ok: "u_is_client u \<or> \<not> is_control_mt (UCI_MT mid) \<or> u_device_state u \<noteq> UCI_DEVICE_STATE_ERROR \<or>
      mid = UCI_MT_GID_OID UCI_MESSAGE_TYPE_COMMAND UCI_GID_CORE UCI_OID_CORE_DEVICE_RESET"
  shows "handle_full_message e u mid =
    (case (map_of (handler_map (u_htab u) ps) mid, u_generic_handler u) of
       (None, None) \<Rightarrow>
         if is_control_mt (UCI_MT mid)
         then handle_unknown_control_packet e u mid (UCI_GID mid \<in> known_gids (u_htab u) ps) else Some u
     | (found, generic) \<Rightarrow>
         do {
           (error, u) \<leftarrow> (case found of
               Some (f, d) \<Rightarrow> e_handler e f u mid (u_rx u) d
             | None \<Rightarrow> (case generic of
                   Some g \<Rightarrow> e_handler e (gh_handler g) u mid (u_rx u) (gh_user_data g) | None \<Rightarrow> None));
           if error \<noteq> 0 \<and> \<not> u_is_client u \<and> is_control_mt (UCI_MT mid)
           then uci_send_status e u mid (word_of_int UCI_STATUS_FAILED) else Some u
         })"
proof -
  have known: "gid_is_known u mid \<longleftrightarrow> UCI_GID mid \<in> known_gids (u_htab u) ps"
  proof -
    have "gid_is_known u mid \<longleftrightarrow> bit (u_known_gid u) (UCI_GID mid)"
      using UCI_GID_less [of mid] by (simp add: gid_is_known_def and_exp_eq_0_iff_not_bit)
    with inv UCI_GID_less [of mid] show ?thesis by (simp add: handlers_inv_def)
  qed
  have look: "search_handlers e u (u_handlers_head u) mid =
      (case map_of (handler_map (u_htab u) ps) mid of
         None \<Rightarrow> Some (None, u)
       | Some (f, d) \<Rightarrow> do { (error, u) \<leftarrow> e_handler e f u mid (u_rx u) d; Some (Some error, u) })"
    using inv by (intro search_handlers_lookup) (simp_all add: handlers_inv_def)
  have state: "check_device_state e u mid = Some (0, u)"
    using ok by (auto simp: check_device_state_def uci_get_device_state_def)
  show ?thesis
    unfolding handle_full_message_def state known [symmetric]
    by (cases "map_of (handler_map (u_htab u) ps) mid"; cases "u_generic_handler u")
      (auto simp: look known intro!: Option.bind_cong split: prod.splits)
qed

text \<open>In the error state a server answers every control message but a reset with REJECTED.\<close>

lemma handle_full_message_rejected:
  assumes "\<not> u_is_client u" "is_control_mt (UCI_MT mid)" "u_device_state u = UCI_DEVICE_STATE_ERROR"
    and "mid \<noteq> UCI_MT_GID_OID UCI_MESSAGE_TYPE_COMMAND UCI_GID_CORE UCI_OID_CORE_DEVICE_RESET"
  shows "handle_full_message e u mid = uci_send_status e u mid (word_of_int UCI_STATUS_REJECTED)"
  using assms
  by (cases "uci_send_status e u mid (word_of_int UCI_STATUS_REJECTED)")
    (simp_all add: handle_full_message_def check_device_state_def uci_get_device_state_def)

end
