(* ===== verification/Uci_Transport.thy ===== *)
theory Uci_Transport
  imports Uci_Rx
begin

text \<open>
  The transport channel on a file descriptor (\<^verbatim>\<open>uci_transport_fd.c\<close>): reading a packet of the
  length its header announces and handing it to the core, and writing the packets of the transmit
  queue. The world behind the channel is the bytes still to be read, the bytes written, and a
  schedule for the outcomes of the system calls: \<open>fw_poll n\<close> and \<open>fw_io n\<close> are the results of
  the \<open>n\<close>-th call. The deadline of 100 ms is one of the outcomes of \<open>epoll_wait\<close>.
\<close>

section \<open>System calls\<close>

datatype poll_result = Poll_Eintr | Poll_Error | Poll_Timeout | Poll_Ready

text \<open>\<open>Io n\<close>: up to \<open>n\<close> bytes moved; the others are \<open>-1\<close> with \<open>errno\<close> EINTR or another one.\<close>

datatype io_result = Io nat | Io_Eintr | Io_Errno

record fd_world =
  fw_attached :: bool
  fw_calls :: nat
  fw_poll :: "nat \<Rightarrow> poll_result"
  fw_io :: "nat \<Rightarrow> io_result"
  fw_in :: bytes
  fw_out :: bytes

definition sys_poll :: "fd_world \<Rightarrow> poll_result \<times> fd_world" where
  "sys_poll w = (fw_poll w (fw_calls w), w\<lparr>fw_calls := Suc (fw_calls w)\<rparr>)"

definition sys_read :: "fd_world \<Rightarrow> nat \<Rightarrow> io_result \<times> bytes \<times> fd_world" where
  "sys_read w len =
     (let r = fw_io w (fw_calls w); w = w\<lparr>fw_calls := Suc (fw_calls w)\<rparr> in
      case r of
        Io k \<Rightarrow> let n = min k (min len (length (fw_in w)))
                 in (Io n, take n (fw_in w), w\<lparr>fw_in := drop n (fw_in w)\<rparr>)
      | _ \<Rightarrow> (r, [], w))"

definition sys_write :: "fd_world \<Rightarrow> bytes \<Rightarrow> io_result \<times> fd_world" where
  "sys_write w data =
     (let r = fw_io w (fw_calls w); w = w\<lparr>fw_calls := Suc (fw_calls w)\<rparr> in
      case r of
        Io k \<Rightarrow> let n = min k (length data) in (Io n, w\<lparr>fw_out := fw_out w @ take n data\<rparr>)
      | _ \<Rightarrow> (r, w))"

section \<open>Operations\<close>

text \<open>The inner loop over \<open>epoll_wait\<close>: retry when a signal interrupted it.\<close>

partial_function (option) poll_retry :: "fd_world \<Rightarrow> (poll_result \<times> fd_world) option" where
  "poll_retry w =
     (case sys_poll w of (r, w) \<Rightarrow> if r = Poll_Eintr then poll_retry w else Some (r, w))"

text \<open>The loop of \<^verbatim>\<open>fd_read\<close>: \<open>len\<close> bytes to \<open>dst\<close> at \<open>off\<close>.\<close>

partial_function (option) fd_read_loop ::
    "fd_world \<Rightarrow> bytes \<Rightarrow> nat \<Rightarrow> nat \<Rightarrow> (nat \<times> bytes \<times> fd_world) option" where
  "fd_read_loop w dst off len =
     (if len = 0 then Some (0, dst, w)
      else do {
        (p, w) \<leftarrow> poll_retry w;
        if p = Poll_Error \<or> p = Poll_Timeout then Some (len, dst, w)
        else case sys_read w len of
            (Io n, xs, w) \<Rightarrow>
              if n = 0 then Some (len, dst, w)
              else do { dst \<leftarrow> write_buf dst off xs; fd_read_loop w dst (off + n) (len - n) }
          | (Io_Eintr, xs, w) \<Rightarrow> Some (len, dst, w)
          | (Io_Errno, xs, w) \<Rightarrow> fd_read_loop w dst off len
      })"

definition fd_read :: "fd_world \<Rightarrow> bytes \<Rightarrow> nat \<Rightarrow> nat \<Rightarrow> (int \<times> bytes \<times> fd_world) option" where
  "fd_read w dst off len =
     do { (len, dst, w) \<leftarrow> fd_read_loop w dst off len; Some (if len \<noteq> 0 then - 1 else 0, dst, w) }"

partial_function (option) fd_write_loop :: "fd_world \<Rightarrow> bytes \<Rightarrow> (bytes \<times> fd_world) option" where
  "fd_write_loop w data =
     (if data = [] then Some ([], w)
      else do {
        (p, w) \<leftarrow> poll_retry w;
        if p = Poll_Error \<or> p = Poll_Timeout then Some (data, w)
        else case sys_write w data of
            (Io n, w) \<Rightarrow> if n = 0 then Some (data, w) else fd_write_loop w (drop n data)
          | (Io_Eintr, w) \<Rightarrow> Some (data, w)
          | (Io_Errno, w) \<Rightarrow> fd_write_loop w data
      })"

text \<open>Writing a packet writes the data of its first block.\<close>

definition fd_write :: "fd_world \<Rightarrow> uci_blk \<Rightarrow> (int \<times> fd_world) option" where
  "fd_write w p =
     do { data \<leftarrow> read_buf (b_data p) 0 (b_len p);
          (rest, w) \<leftarrow> fd_write_loop w data;
          Some (if rest \<noteq> [] then - 1 else 0, w) }"

definition fd_send_raw :: "fd_world uci \<Rightarrow> ptr option \<Rightarrow> fd_world uci option" where
  "fd_send_raw u p =
     do { b \<leftarrow> blk_of (u_mem u) p; (r, w) \<leftarrow> fd_write (u_world u) b; Some (u\<lparr>u_world := w\<rparr>) }"

definition fd_attach :: "fd_world uci \<Rightarrow> ptr \<Rightarrow> fd_world uci option" where
  "fd_attach u tr = Some (u\<lparr>u_world := (u_world u)\<lparr>fw_attached := True\<rparr>\<rparr>)"

definition fd_detach :: "fd_world uci \<Rightarrow> fd_world uci option" where
  "fd_detach u = Some (u\<lparr>u_world := (u_world u)\<lparr>fw_attached := False\<rparr>\<rparr>)"

partial_function (option) fd_packet_send_ready ::
    "fd_world uci_env \<Rightarrow> fd_world uci \<Rightarrow> fd_world uci option" where
  "fd_packet_send_ready e u =
     (if \<not> fw_attached (u_world u) then None
      else do {
        (p, u) \<leftarrow> uci_packet_send_get_ready u;
        case p of
          None \<Rightarrow> Some u
        | Some a \<Rightarrow>
            do {
              b \<leftarrow> heap (u_mem u) a;
              (r, w) \<leftarrow> fd_write (u_world u) b;
              u \<leftarrow> uci_packet_send_done e (u\<lparr>u_world := w\<rparr>) p r;
              fd_packet_send_ready e u
            }
      })"

text \<open>
  The environment of a core attached to this transport. The write loop only needs the allocator
  of it, which it gets from the environment without transport.
\<close>

definition no_transport ::
    "uci_allocator_ops \<Rightarrow> (nat \<Rightarrow> 'w uci \<Rightarrow> 16 word \<Rightarrow> ptr option \<Rightarrow> nat \<Rightarrow> (int \<times> 'w uci) option) \<Rightarrow>
     'w uci_env" where
  "no_transport A H = \<lparr>e_allocator = A, e_handler = H, e_attach = (\<lambda>_ _. None), e_detach = (\<lambda>_. None),
     e_packet_send_ready = (\<lambda>_. None), e_packet_send_raw = (\<lambda>_ _. None)\<rparr>"

definition g_transport_fd_ops ::
    "uci_allocator_ops \<Rightarrow> (nat \<Rightarrow> fd_world uci \<Rightarrow> 16 word \<Rightarrow> ptr option \<Rightarrow> nat \<Rightarrow> (int \<times> fd_world uci) option) \<Rightarrow>
     fd_world uci_env" where
  "g_transport_fd_ops A H = \<lparr>e_allocator = A, e_handler = H, e_attach = fd_attach, e_detach = fd_detach,
     e_packet_send_ready = fd_packet_send_ready (no_transport A H), e_packet_send_raw = fd_send_raw\<rparr>"

abbreviation (input) ENOMEM :: int where "ENOMEM \<equiv> 12"
abbreviation (input) EBADMSG :: int where "EBADMSG \<equiv> 74"

text \<open>Reading \<open>n\<close> bytes into the buffer of a block.\<close>

definition fd_read_blk ::
    "fd_world uci \<Rightarrow> ptr \<Rightarrow> nat \<Rightarrow> nat \<Rightarrow> (int \<times> fd_world uci) option" where
  "fd_read_blk u p off n =
     do { b \<leftarrow> heap (u_mem u) p;
          (r, d, w) \<leftarrow> fd_read (u_world u) (b_data b) off n;
          Some (r, u\<lparr>u_world := w, u_mem := put_blk (u_mem u) p (b\<lparr>b_data := d\<rparr>)\<rparr>) }"

definition uci_transport_fd_read ::
    "fd_world uci_env \<Rightarrow> fd_world uci \<Rightarrow> (int \<times> fd_world uci) option" where
  "uci_transport_fd_read e u =
     (if \<not> fw_attached (u_world u) then None
      else do {
        (p, u) \<leftarrow> uci_packet_recv_alloc e u UCI_MAX_PACKET_SIZE;
        case p of
          None \<Rightarrow> Some (- ENOMEM, u)
        | Some a \<Rightarrow>
            do {
              b \<leftarrow> heap (u_mem u) a;
              if b_size b < UCI_MAX_PACKET_SIZE
              then do { u \<leftarrow> uci_packet_recv_free_all e u p; Some (- ENOMEM, u) }
              else do {
                (r, u) \<leftarrow> fd_read_blk u a 0 UCI_PACKET_HEADER_SIZE;
                if r \<noteq> 0
                then do { u \<leftarrow> uci_packet_recv_free_all e u p; Some (- EBADMSG, u) }
                else do {
                  hdr \<leftarrow> hdr_at u p;
                  let payload_len = uci_packet_hdr_get_payload_size hdr;
                  (r, u) \<leftarrow> (if payload_len \<noteq> 0 then fd_read_blk u a UCI_PACKET_HEADER_SIZE payload_len
                             else Some (0, u));
                  if r \<noteq> 0
                  then do { u \<leftarrow> uci_packet_recv_free_all e u p; Some (- EBADMSG, u) }
                  else do {
                    u \<leftarrow> upd_blk u p (\<lambda>b. Some (b\<lparr>b_len := u16 (UCI_PACKET_HEADER_SIZE + payload_len)\<rparr>));
                    u \<leftarrow> uci_packet_recv e u a;
                    Some (int payload_len, u)
                  }
                }
              }
            }
      })"

section \<open>Reading and writing\<close>

text \<open>A descriptor on which every call moves something.\<close>

definition os_ok :: "fd_world \<Rightarrow> bool" where
  "os_ok w \<longleftrightarrow> (\<forall>n. fw_poll w n = Poll_Ready \<and> (\<exists>k > 0. fw_io w n = Io k))"

definition same_os :: "fd_world \<Rightarrow> fd_world \<Rightarrow> bool" where
  "same_os w w' \<longleftrightarrow> fw_poll w' = fw_poll w \<and> fw_io w' = fw_io w \<and> fw_attached w' = fw_attached w"

lemma same_os_refl [simp]: "same_os w w"
  by (simp add: same_os_def)

lemma same_os_trans: "same_os a b \<Longrightarrow> same_os b c \<Longrightarrow> same_os a c"
  by (simp add: same_os_def)

lemma same_os_ok: "same_os w w' \<Longrightarrow> os_ok w' = os_ok w"
  by (simp add: same_os_def os_ok_def)

lemma poll_retry_ready:
  "os_ok w \<Longrightarrow> poll_retry w = Some (Poll_Ready, w\<lparr>fw_calls := Suc (fw_calls w)\<rparr>)"
  by (subst poll_retry.simps) (simp add: sys_poll_def os_ok_def)

lemma fd_read_loop_ok:
  assumes "os_ok w" and "len \<le> length (fw_in w)" and "off + len \<le> length dst"
  shows "\<exists>w'. fd_read_loop w dst off len =
      Some (0, take off dst @ take len (fw_in w) @ drop (off + len) dst, w') \<and>
    same_os w w' \<and> fw_in w' = drop len (fw_in w) \<and> fw_out w' = fw_out w"
  using assms
proof (induction len arbitrary: w dst off rule: less_induct)
  case (less len)
  show ?case
  proof (cases "len = 0")
    case True
    then show ?thesis by (subst fd_read_loop.simps) simp
  next
    case False
    let ?w1 = "w\<lparr>fw_calls := Suc (fw_calls w)\<rparr>"
    from less.prems(1) obtain k where k: "0 < k" "fw_io w (Suc (fw_calls w)) = Io k"
      by (auto simp: os_ok_def)
    define n where "n = min k (min len (length (fw_in w)))"
    let ?w2 = "w\<lparr>fw_calls := Suc (Suc (fw_calls w)), fw_in := drop n (fw_in w)\<rparr>"
    have n: "0 < n" "n \<le> len" using k False less.prems(2) by (auto simp: n_def)
    have rd: "sys_read ?w1 len = (Io n, take n (fw_in w), ?w2)"
      using k by (simp add: sys_read_def n_def Let_def)
    let ?dst = "take off dst @ take n (fw_in w) @ drop (off + n) dst"
    have wr: "write_buf dst off (take n (fw_in w)) = Some ?dst"
      using n less.prems(2,3) by (simp add: write_buf_def)
    have w2: "os_ok ?w2" "same_os w ?w2" using less.prems(1) by (simp_all add: os_ok_def same_os_def)
    have "len - n < len" "len - n \<le> length (fw_in ?w2)" "off + n + (len - n) \<le> length ?dst"
      using n less.prems(2,3) by simp_all
    from less.IH [OF this(1) w2(1) this(2,3)] obtain w' where w':
      "fd_read_loop ?w2 ?dst (off + n) (len - n) =
         Some (0, take (off + n) ?dst @ take (len - n) (drop n (fw_in w)) @ drop (off + n + (len - n)) ?dst, w')"
      "same_os ?w2 w'" "fw_in w' = drop (len - n) (drop n (fw_in w))" "fw_out w' = fw_out w"
      by auto
    have "fd_read_loop w dst off len = fd_read_loop ?w2 ?dst (off + n) (len - n)"
      using False poll_retry_ready [OF less.prems(1)] rd wr n by (subst fd_read_loop.simps) simp
    moreover have "take (off + n) ?dst @ take (len - n) (drop n (fw_in w)) @ drop (off + n + (len - n)) ?dst =
        take off dst @ take len (fw_in w) @ drop (off + len) dst"
    proof -
      have "take n (fw_in w) @ take (len - n) (drop n (fw_in w)) = take len (fw_in w)"
        using n(2) by (metis le_add_diff_inverse take_add)
      then show ?thesis using n less.prems(2,3) by (simp add: add.commute)
    qed
    ultimately show ?thesis
      using w' n same_os_trans [OF w2(2)] by auto
  qed
qed

lemma fd_write_loop_ok:
  assumes "os_ok w"
  shows "\<exists>w'. fd_write_loop w data = Some ([], w') \<and> same_os w w' \<and> fw_in w' = fw_in w \<and>
    fw_out w' = fw_out w @ data"
  using assms
proof (induction "length data" arbitrary: w data rule: less_induct)
  case less
  show ?case
  proof (cases "data = []")
    case True
    then show ?thesis by (subst fd_write_loop.simps) simp
  next
    case False
    let ?w1 = "w\<lparr>fw_calls := Suc (fw_calls w)\<rparr>"
    from less.prems(1) obtain k where k: "0 < k" "fw_io w (Suc (fw_calls w)) = Io k"
      by (auto simp: os_ok_def)
    define n where "n = min k (length data)"
    let ?w2 = "w\<lparr>fw_calls := Suc (Suc (fw_calls w)), fw_out := fw_out w @ take n data\<rparr>"
    have n: "0 < n" "n \<le> length data" using k False by (auto simp: n_def)
    have wr: "sys_write ?w1 data = (Io n, ?w2)" using k by (simp add: sys_write_def n_def Let_def)
    have w2: "os_ok ?w2" "same_os w ?w2" using less.prems(1) by (simp_all add: os_ok_def same_os_def)
    have "length (drop n data) < length data" using n by simp
    from less.hyps [OF this w2(1)] obtain w' where w': "fd_write_loop ?w2 (drop n data) = Some ([], w')"
      "same_os ?w2 w'" "fw_in w' = fw_in w" "fw_out w' = fw_out w @ take n data @ drop n data"
      by auto
    have "fd_write_loop w data = fd_write_loop ?w2 (drop n data)"
      using False poll_retry_ready [OF less.prems(1)] wr n by (subst fd_write_loop.simps) simp
    with w' same_os_trans [OF w2(2)] show ?thesis by auto
  qed
qed

text \<open>
  On any schedule: what \<^verbatim>\<open>fd_write\<close> leaves unwritten is a suffix of the data, and what it put on
  the wire the matching prefix.
\<close>

definition wrote :: "fd_world \<Rightarrow> bytes \<Rightarrow> bytes \<times> fd_world \<Rightarrow> bool" where
  "wrote w data r \<longleftrightarrow> (\<exists>done. data = done @ fst r \<and> fw_out (snd r) = fw_out w @ done)"

lemma poll_retry_out: "poll_retry w = Some (r, w') \<Longrightarrow> fw_out w' = fw_out w"
proof (rule poll_retry.raw_induct [where P = "\<lambda>w r. fw_out (snd r) = fw_out w", of w "(r, w')", simplified])
  fix f w r
  assume IH: "\<And>w r. f w = Some r \<Longrightarrow> fw_out (snd r) = fw_out w"
    and eq: "(case sys_poll w of (r, w) \<Rightarrow> if r = Poll_Eintr then f w else Some (r, w)) = Some r"
  show "fw_out (snd r) = fw_out w"
    using eq IH [of "w\<lparr>fw_calls := Suc (fw_calls w)\<rparr>"] by (auto simp: sys_poll_def split: if_splits)
qed

lemma fd_write_loop_prefix:
  assumes "fd_write_loop w data = Some r"
  shows "wrote w data r"
proof (rule fd_write_loop.raw_induct [where P = wrote, OF _ assms])
  fix f w data r
  assume IH: "\<And>w data r. f w data = Some r \<Longrightarrow> wrote w data r"
    and eq: "(if data = [] then Some ([], w)
      else poll_retry w \<bind> (\<lambda>(p, w). if p = Poll_Error \<or> p = Poll_Timeout then Some (data, w)
        else case sys_write w data of
            (Io n, w) \<Rightarrow> if n = 0 then Some (data, w) else f w (drop n data)
          | (Io_Eintr, w) \<Rightarrow> Some (data, w)
          | (Io_Errno, w) \<Rightarrow> f w data)) = Some r"
  show "wrote w data r"
  proof (cases "data = []")
    case True
    with eq show ?thesis by (auto simp: wrote_def)
  next
    case False
    with eq obtain p w1 where p: "poll_retry w = Some (p, w1)" by (auto simp: bind_Some_iff)
    note out = poll_retry_out [OF p]
    obtain io w2 where io: "sys_write w1 data = (io, w2)" by (metis prod.exhaust)
    show ?thesis
    proof (cases "p = Poll_Error \<or> p = Poll_Timeout")
      case True
      with eq p False out show ?thesis by (auto simp: wrote_def)
    next
      case go: False
      show ?thesis
      proof (cases io)
        case (Io n)
        then have w2: "fw_out w2 = fw_out w1 @ take n data"
          using io by (auto simp: sys_write_def Let_def split: io_result.splits)
        show ?thesis
        proof (cases "n = 0")
          case True
          with eq p False go io Io out w2 show ?thesis by (auto simp: wrote_def)
        next
          case n: False
          with eq p False go io Io have "f w2 (drop n data) = Some r" by auto
          from IH [OF this] obtain d where "drop n data = d @ fst r" "fw_out (snd r) = fw_out w2 @ d"
            by (auto simp: wrote_def)
          then show ?thesis unfolding wrote_def using w2 out
            by (intro exI [of _ "take n data @ d"]) (metis append.assoc append_take_drop_id)
        qed
      next
        case Io_Eintr
        with eq p False go io out show ?thesis
          by (auto simp: wrote_def sys_write_def Let_def split: io_result.splits)
      next
        case Io_Errno
        with io have "fw_out w2 = fw_out w1" by (auto simp: sys_write_def Let_def split: io_result.splits)
        moreover have "f w2 data = Some r" using eq p False go io Io_Errno by auto
        ultimately show ?thesis using IH [of w2 data r] out by (simp add: wrote_def)
      qed
    qed
  qed
qed

section \<open>Emptying the queue\<close>

text \<open>
  For each packet of the queue its first block is written, and all blocks of the packet are returned to
  the allocator; \<open>first_blocks\<close> cuts packets to the length of their first block.
\<close>

definition first_len :: "heap \<Rightarrow> ptr list \<Rightarrow> nat" where
  "first_len h ps = (case h (hd ps) of None \<Rightarrow> 0 | Some b \<Rightarrow> b_len b)"

definition first_blocks :: "heap \<Rightarrow> ptr list \<Rightarrow> bytes list \<Rightarrow> bytes list" where
  "first_blocks h as pkts = map2 (\<lambda>ps pkt. take (first_len h ps) pkt) (packets h as) pkts"

lemma packets_nonempty: "ps \<in> set (packets h as) \<Longrightarrow> ps \<noteq> []"
  by (induction h as rule: packets.induct) auto

lemma first_block_of_wire:
  assumes "own_blks h ps" and "ps \<noteq> []"
  shows "take (first_len h ps) (wire h ps) = blk_data h (hd ps)"
proof -
  from assms obtain a qs b where "ps = a # qs" "h a = Some b" "own_blk b" by (cases ps) auto
  then show ?thesis by (simp add: first_len_def wire_def blk_data_def own_blk_def blk_ok_def)
qed

text \<open>What the first blocks hold, from the shape of the message before its headers were written.\<close>

lemma first_blocks_sent:
  assumes "own_blks h as" and "\<forall>a \<in> set as. blk_shape h a = blk_shape h0 a"
  shows "map (\<lambda>ps. blk_data h (hd ps)) (packets h as) = first_blocks h0 as (wires h as)"
proof -
  have p: "packets h0 as = packets h as" using assms(2) shape_packets [of as h h0] by simp
  have "blk_data h (hd ps) = take (first_len h0 ps) (wire h ps)" if "ps \<in> set (packets h as)" for ps
  proof -
    have sub: "set ps \<subseteq> set as" and ne: "ps \<noteq> []" using set_packets [OF that] packets_nonempty [OF that] .
    from sub ne have "hd ps \<in> set as" by (metis hd_in_set subsetD)
    with sub have "own_blks h ps" "blk_shape h (hd ps) = blk_shape h0 (hd ps)" using assms by (auto simp: own_blks_def)
    moreover from this(2) have "first_len h0 ps = first_len h ps"
      by (auto simp: blk_shape_def first_len_def split: option.splits)
    ultimately show ?thesis using first_block_of_wire [OF _ ne, of h] by simp
  qed
  then have "map (\<lambda>ps. blk_data h (hd ps)) (packets h as) = map (\<lambda>ps. take (first_len h0 ps) (wire h ps)) (packets h as)"
    by (rule map_cong [OF refl])
  also have "\<dots> = first_blocks h0 as (wires h as)"
    by (simp add: first_blocks_def p wires_def zip_map2 zip_same_conv_map comp_def)
  finally show ?thesis .
qed

text \<open>Packets of one block each are written whole.\<close>

lemma packets_length: "length (packets h as) \<le> length as"
proof (induction h as rule: packets.induct)
  case (2 h a as)
  then show ?case using length_dropWhile_le [of "\<lambda>x. \<not> starts_packet h x" as] by simp
qed simp

lemma packets_single:
  "length (packets h as) = length as \<Longrightarrow> packets h as = map (\<lambda>a. [a]) as"
proof (induction h as rule: packets.induct)
  case (2 h a as)
  let ?dw = "dropWhile (\<lambda>x. \<not> starts_packet h x) as"
  have "length ?dw = length as"
    using 2(2) packets_length [of h ?dw] length_dropWhile_le [of "\<lambda>x. \<not> starts_packet h x" as] by simp
  then have dw: "?dw = as" and tw: "takeWhile (\<lambda>x. \<not> starts_packet h x) as = []"
    by (metis append_self_conv2 length_append takeWhile_dropWhile_id add_cancel_left_left length_0_conv)+
  have "length (packets h ?dw) = length ?dw" using 2(2) \<open>length ?dw = length as\<close> by simp
  from 2(1) [OF this] show ?case unfolding dw by (simp add: tw dw)
qed simp

lemma first_blocks_single:
  assumes "own_blks h as" and "\<forall>a \<in> set as. blk_shape h a = blk_shape h0 a" and "length as = length (wires h as)"
  shows "first_blocks h0 as (wires h as) = wires h as"
proof -
  have "packets h as = map (\<lambda>a. [a]) as" using assms(3) packets_single [of h as] by (simp add: wires_def)
  then show ?thesis
    unfolding first_blocks_sent [OF assms(1,2), symmetric] by (simp add: wires_def wire_def comp_def)
qed

context uci_allocator
begin

lemma pump_ok:
  assumes "e_allocator e = A" and "inv (u_mem u)" and "tx_inv u txs" and "\<not> u_locked u"
    and "os_ok (u_world u)" and "fw_attached (u_world u)"
  shows "\<exists>m w. fd_packet_send_ready e u = Some (u\<lparr>u_mem := m, u_tx := None, u_world := w\<rparr>) \<and> inv m \<and>
    heap m = heap (u_mem u) |` (- set txs) \<and> same_os (u_world u) w \<and> fw_in w = fw_in (u_world u) \<and>
    fw_out w = fw_out (u_world u) @ concat (map (\<lambda>ps. blk_data (heap (u_mem u)) (hd ps)) (packets (heap (u_mem u)) txs))"
  using assms
proof (induction "length txs" arbitrary: txs u rule: less_induct)
  case less
  note e = less.prems(1) and inv = less.prems(2) and tx = less.prems(3) and un = less.prems(4) and os = less.prems(5,6)
  show ?case
  proof (cases txs)
    case Nil
    have "u\<lparr>u_mem := u_mem u, u_tx := None, u_world := u_world u\<rparr> = u"
      using tx Nil by (cases u) (simp add: tx_inv_def)
    then show ?thesis
      using Nil less.prems send_get_ready_empty [OF tx [unfolded Nil] un]
      by (subst fd_packet_send_ready.simps)
        (auto simp: restrict_map_def intro!: exI [of _ "u_mem u"] exI [of _ "u_world u"])
  next
    case (Cons a as)
    let ?h = "heap (u_mem u)"
    obtain m tx' ps rest where g:
      "uci_packet_send_get_ready u = Some (Some a, u\<lparr>u_mem := m, u_tx := tx'\<rparr>)" "inv m"
      "a # as = ps @ rest" "chain (heap m) (Some a) ps" "own_blks (heap m) ps"
      "tx_inv (u\<lparr>u_mem := m, u_tx := tx'\<rparr>) rest"
      "wires ?h (a # as) = wire (heap m) ps # wires (heap m) rest"
      "\<forall>x. x \<notin> set (a # as) \<longrightarrow> heap m x = ?h x"
      "ps = a # takeWhile (\<lambda>x. \<not> starts_packet ?h x) as"
      "\<forall>x. starts_packet (heap m) x = starts_packet ?h x \<and> blk_data (heap m) x = blk_data ?h x"
      by (rule send_get_ready_packet [OF inv tx [unfolded Cons] un])
    have rest: "rest = dropWhile (\<lambda>x. \<not> starts_packet ?h x) as"
      using g(3,9) by (metis append_Cons list.inject same_append_eq takeWhile_dropWhile_id)
    from g(5,9) obtain b where b: "heap m a = Some b" "own_blk b" by auto
    let ?d = "blk_data ?h a"
    have "blk_data (heap m) a = ?d" using g(10) by simp
    then have data: "read_buf (b_data b) 0 (b_len b) = Some ?d"
      using b by (simp add: read_buf_def own_blk_def blk_ok_def blk_data_def)
    obtain w where w: "fd_write_loop (u_world u) ?d = Some ([], w)" "same_os (u_world u) w"
      "fw_in w = fw_in (u_world u)" "fw_out w = fw_out (u_world u) @ ?d"
      using fd_write_loop_ok [OF os(1)] by blast
    let ?u1 = "u\<lparr>u_mem := m, u_tx := tx', u_world := w\<rparr>"
    have "inv (u_mem ?u1)" "chain (heap (u_mem ?u1)) (Some a) ps" "own_blks (heap (u_mem ?u1)) ps"
      using g(2,4,5) by simp_all
    then obtain m2 where m2: "Uci_State.free_all e ?u1 (Some a) = Some (?u1\<lparr>u_mem := m2\<rparr>)" "inv m2"
      "heap m2 = heap (u_mem ?u1) |` (- set ps)"
      using free_all_ok [OF e] by metis
    let ?u2 = "u\<lparr>u_mem := m2, u_tx := tx', u_world := w\<rparr>"
    have "chain ?h (u_tx u) (ps @ rest)" using tx g(3) Cons unfolding tx_inv_def by metis
    from chain_distinct [OF this] have dis: "set ps \<inter> set rest = {}" by simp
    then have same: "\<And>x. x \<in> set rest \<Longrightarrow> heap m2 x = heap m x" using m2(3) by (auto simp: restrict_map_def)
    have tx2: "tx_inv ?u2 rest"
      using g(6) tx_inv_cong [of rest m2 "u\<lparr>u_mem := m, u_tx := tx'\<rparr>"] same by (simp add: tx_inv_def)
    have os2: "os_ok (u_world ?u2)" "fw_attached (u_world ?u2)"
      using os same_os_ok [OF w(2)] w(2) by (simp_all add: same_os_def)
    have i2: "inv (u_mem ?u2)" "\<not> u_locked ?u2" using m2(2) un by simp_all
    have "length rest < length txs" using Cons rest length_dropWhile_le [of "\<lambda>x. \<not> starts_packet ?h x" as] by simp
    from less.hyps [OF this e i2(1) tx2 i2(2) os2] obtain m3 w3 where IH:
      "fd_packet_send_ready e ?u2 = Some (?u2\<lparr>u_mem := m3, u_tx := None, u_world := w3\<rparr>)" "inv m3"
      "heap m3 = heap m2 |` (- set rest)" "same_os w w3" "fw_in w3 = fw_in w"
      "fw_out w3 = fw_out w @ concat (map (\<lambda>ps. blk_data (heap m2) (hd ps)) (packets (heap m2) rest))"
      by auto
    have rest_pk: "packets (heap m2) rest = packets ?h rest"
      using same g(10) by (intro packets_cong) (simp add: starts_packet_def)
    have heads: "map (\<lambda>ps. blk_data (heap m2) (hd ps)) (packets ?h rest) = map (\<lambda>ps. blk_data ?h (hd ps)) (packets ?h rest)"
    proof (rule map_cong [OF refl])
      fix qs
      assume "qs \<in> set (packets ?h rest)"
      from packets_nonempty [OF this] set_packets [OF this] have "hd qs \<in> set rest" by (metis hd_in_set subsetD)
      with same [OF this] g(10) show "blk_data (heap m2) (hd qs) = blk_data ?h (hd qs)" by (metis blk_data_def)
    qed
    have "packets ?h txs = ps # packets ?h rest" unfolding Cons rest g(9) by simp
    moreover have "hd ps = a" using g(9) by simp
    ultimately have out:
      "fw_out w3 = fw_out (u_world u) @ concat (map (\<lambda>ps. blk_data ?h (hd ps)) (packets ?h txs))"
      unfolding IH(6) w(4) rest_pk heads by simp
    have u2: "?u1\<lparr>u_mem := m2\<rparr> = ?u2" by simp
    have "fd_packet_send_ready e u = fd_packet_send_ready e ?u2"
      using g(1) b(1) data w(1) m2(1) [unfolded u2] os(2)
      by (subst fd_packet_send_ready.simps) (simp add: fd_write_def uci_packet_send_done_def)
    moreover have "heap m3 = ?h |` (- set txs)"
      using IH(3) m2(3) g(3,8) Cons by (auto simp: restrict_map_def fun_eq_iff)
    ultimately show ?thesis
      using IH(1,2,5) w(3) out same_os_trans [OF w(2) IH(4)]
      by (intro exI [of _ m3] exI [of _ w3]) simp
  qed
qed

text \<open>
  A message is written to the descriptor when it is sent: of every packet the first block, and so all of
  it when its packets are one block each.
\<close>

lemma transmit_ok:
  assumes e: "e_allocator e = A" "e_packet_send_ready e = fd_packet_send_ready e0" "e_allocator e0 = A"
    and inv: "inv (u_mem u)" and tx: "tx_inv u []" and rsp: "rsp_inv u as"
    and rep: "message_rep (heap (u_mem u)) (Some p) as bs"
    and ne: "no_empty (heap (u_mem u)) as \<or> as = [p]"
    and s: "sendable mid" "length bs < 65536" and un: "\<not> u_locked u" "u_tr u \<noteq> None"
    and os: "os_ok (u_world u)" "fw_attached (u_world u)"
  shows "\<exists>m r w. uci_send_message e u mid (Some p) =
      Some (u\<lparr>u_mem := m, u_tx := None, u_tx_last := last_ptr as, u_rsp_blk := r, u_world := w\<rparr>) \<and> inv m \<and>
    (\<forall>a \<in> set as. heap m a = None) \<and> same_os (u_world u) w \<and> fw_in w = fw_in (u_world u) \<and>
    fw_out w = fw_out (u_world u) @ concat (first_blocks (heap (u_mem u)) as (segment mid bs)) \<and>
    (length as = length (segment mid bs) \<longrightarrow> first_blocks (heap (u_mem u)) as (segment mid bs) = segment mid bs)"
proof -
  have rsp': "rsp_inv u ([] @ as)" and dis: "set as \<inter> set [] = {}" using rsp by simp_all
  from send_message_shape [OF e(1) inv tx rsp' rep ne s dis un] obtain u' m tx' r where
    q: "uci_send_message e u mid (Some p) = packet_send_ready e u'"
    "u' = u\<lparr>u_mem := m, u_tx := tx', u_tx_last := last_ptr as, u_rsp_blk := r\<rparr>" "inv m" "tx_inv u' as"
    "wires (heap m) as = segment mid bs" "\<forall>a \<in> set as. blk_shape (heap m) a = blk_shape (heap (u_mem u)) a"
    by (auto simp: wires_def)
  from q(2,4) have own: "own_blks (heap m) as" by (simp add: tx_inv_def)
  note first = first_blocks_sent [OF own q(6)] first_blocks_single [OF own q(6)]
  from q(2) inv un os have u': "inv (u_mem u')" "\<not> u_locked u'" "os_ok (u_world u')" "fw_attached (u_world u')"
    "u_world u' = u_world u" "u_mem u' = m" using q(3) by simp_all
  from pump_ok [OF e(3) u'(1) q(4) u'(2,3,4)] obtain m' w where p:
    "fd_packet_send_ready e0 u' = Some (u'\<lparr>u_mem := m', u_tx := None, u_world := w\<rparr>)" "inv m'"
    "heap m' = heap m |` (- set as)" "same_os (u_world u) w" "fw_in w = fw_in (u_world u)"
    "fw_out w = fw_out (u_world u) @ concat (first_blocks (heap (u_mem u)) as (segment mid bs))"
    unfolding u'(5,6) first(1) q(5) by blast
  have "uci_send_message e u mid (Some p) =
      Some (u\<lparr>u_mem := m', u_tx := None, u_tx_last := last_ptr as, u_rsp_blk := r, u_world := w\<rparr>)"
    using q(1) p(1) e(2) un(2) by (cases u) (auto simp: packet_send_ready_def q(2))
  with p first(2) [unfolded q(5)] show ?thesis by (intro exI [of _ m'] exI [of _ r] exI [of _ w]) simp
qed

end

section \<open>Receiving packets\<close>

context packet_allocator
begin

text \<open>
  A packet of at most 259 bytes whose header announces its length is read from the descriptor
  into one block and handed to the core.
\<close>

lemma fd_read_packet:
  assumes e: "e_allocator e = A" and inv: "inv (u_mem u)" and os: "os_ok (u_world u)"
    and att: "fw_attached (u_world u)" and inp: "fw_in (u_world u) = pkt @ rest"
    and sz: "uci_packet_hdr_get_payload_size (take 4 pkt) = length pkt - 4"
    and len: "4 \<le> length pkt" "length pkt \<le> UCI_MAX_PACKET_SIZE"
    and mem: "fst (op_alloc A (u_mem u) UCI_MAX_PACKET_SIZE 0) \<noteq> None"
  obtains a m w where
    "uci_transport_fd_read e u =
       do { u \<leftarrow> uci_packet_recv e (u\<lparr>u_world := w, u_mem := m\<rparr>) a; Some (int (length pkt - 4), u) }"
    "inv m" "heap (u_mem u) a = None" "\<forall>x. x \<noteq> a \<longrightarrow> heap m x = heap (u_mem u) x"
    "packet_rep (heap m) a [a] pkt" "same_os (u_world u) w" "fw_in w = rest"
proof -
  obtain a m0 where al: "op_alloc A (u_mem u) UCI_MAX_PACKET_SIZE 0 = (Some a, m0)"
    using mem by (cases "op_alloc A (u_mem u) UCI_MAX_PACKET_SIZE 0") auto
  obtain b1 m1 where m1: "uci_blk_alloc A (u_mem u) UCI_MAX_PACKET_SIZE 0 = Some (Some a, m1)"
    "heap (u_mem u) a = None" "heap m1 = (heap (u_mem u))(a \<mapsto> b1)" "fresh_blk b1 0" "inv m1"
    by (rule blk_alloc_cases [OF inv, of UCI_MAX_PACKET_SIZE 0])
      (use al in \<open>auto simp: uci_blk_alloc_def split: option.splits\<close>)
  from alloc_size [OF inv al] obtain b0 where b0: "heap m0 a = Some b0" "UCI_MAX_PACKET_SIZE \<le> b_size b0"
    by blast
  with m1(1) al have "heap m1 a = Some (b0\<lparr>b_next := None, b_len := 0, b_total_len := 0, b_flags := 0\<rparr>)"
    by (auto simp: uci_blk_alloc_def)
  with m1(3) b0(2) have big: "UCI_MAX_PACKET_SIZE \<le> b_size b1" by auto
  have sz1: "b_size b1 = length (b_data b1)" "b_size b1 < 65536" using m1(4) by (simp_all add: fresh_blk_def)
  let ?hdr = "take 4 pkt" and ?n = "length pkt - 4"
  obtain w1 where w1: "fd_read_loop (u_world u) (b_data b1) 0 4 = Some (0, ?hdr @ drop 4 (b_data b1), w1)"
    "same_os (u_world u) w1" "fw_in w1 = drop 4 pkt @ rest"
    using fd_read_loop_ok [OF os, of 4 0 "b_data b1"] inp len big sz1 by auto
  let ?d1 = "?hdr @ drop 4 (b_data b1)"
  let ?d2 = "pkt @ drop (length pkt) (b_data b1)"
  have os1: "os_ok w1" using os same_os_ok [OF w1(2)] by simp
  obtain w2 where w2: "(if ?n = 0 then Some (0, ?d1, w1) else fd_read_loop w1 ?d1 4 ?n) = Some (0, ?d2, w2)"
    "same_os w1 w2" "fw_in w2 = rest"
  proof (cases "?n = 0")
    case True
    then have "length pkt = 4" using len by simp
    then have "?d1 = ?d2" "drop 4 pkt = []" by simp_all
    with True w1 show thesis by (intro that [of w1]) simp_all
  next
    case False
    have l4: "4 + ?n = length pkt" using len by simp
    have "?n \<le> length (fw_in w1)" "4 + ?n \<le> length ?d1" using w1(3) len big sz1 by simp_all
    from fd_read_loop_ok [OF os1 this] obtain w' where
      w': "fd_read_loop w1 ?d1 4 ?n = Some (0, take 4 ?d1 @ take ?n (fw_in w1) @ drop (4 + ?n) ?d1, w')"
      "same_os w1 w'" "fw_in w' = drop ?n (fw_in w1)"
      by blast
    have "take 4 ?d1 @ take ?n (fw_in w1) @ drop (4 + ?n) ?d1 = take 4 pkt @ drop 4 pkt @ drop (length pkt) (b_data b1)"
      using w1(3) len unfolding l4 by simp
    also have "\<dots> = ?d2" by (simp only: append_assoc [symmetric] append_take_drop_id)
    finally show thesis using False w' w1(3) by (intro that [of w']) simp_all
  qed
  let ?b2 = "b1\<lparr>b_data := ?d1\<rparr>" and ?b3 = "b1\<lparr>b_data := ?d2\<rparr>"
  let ?b4 = "b1\<lparr>b_data := ?d2, b_len := length pkt\<rparr>"
  let ?m2 = "put_blk m1 a ?b2" let ?m3 = "if ?n = 0 then ?m2 else put_blk ?m2 a ?b3"
  let ?m4 = "put_blk ?m3 a ?b4"
  have hdr: "hdr_of ?b2 = Some ?hdr" using len big sz1 by (simp add: hdr_of_def read_buf_def)
  have d2: "?n = 0 \<Longrightarrow> ?d1 = ?d2" using w2(1) by simp
  have len': "u16 (4 + ?n) = length pkt" using len by simp
  have run: "uci_transport_fd_read e u =
      do { u \<leftarrow> uci_packet_recv e (u\<lparr>u_world := w2, u_mem := ?m4\<rparr>) a; Some (int ?n, u) }"
    using m1(1,3) e big att w1(1) w2(1) hdr sz len' d2
    by (auto simp: uci_transport_fd_read_def uci_packet_recv_alloc_def fd_read_blk_def fd_read_def hdr_at_def
        blk_of_def upd_blk_def Let_def split: if_splits)
  have "inv ?m4" using m1(3,5) by (auto intro!: write_blk)
  moreover have "own_blk ?b4" "take (length pkt) ?d2 = pkt"
    using m1(4) len big sz1 by (simp_all add: own_blk_def blk_ok_def fresh_blk_def allocator_owned_def uci_blk_has_header_def)
  then have "packet_rep (heap ?m4) a [a] pkt"
    using len m1(4) by (simp add: packet_rep_def wire_def blk_data_def fresh_blk_def)
  moreover have "\<forall>x. x \<noteq> a \<longrightarrow> heap ?m4 x = heap (u_mem u) x" using m1(3) by simp
  ultimately show thesis
    using run m1(2) w2(3) same_os_trans [OF w1(2) w2(2)] by (intro that [where w = w2 and m = ?m4 and a = a]) simp_all
qed

end

section \<open>From the wire to the handler\<close>

text \<open>Reading one packet after the other.\<close>

primrec fd_reads :: "nat \<Rightarrow> fd_world uci_env \<Rightarrow> fd_world uci \<Rightarrow> fd_world uci option" where
  "fd_reads 0 e u = Some u"
| "fd_reads (Suc n) e u = do { (r, u) \<leftarrow> uci_transport_fd_read e u; fd_reads n e u }"

definition well_formed :: "bytes \<Rightarrow> bool" where
  "well_formed pkt \<longleftrightarrow> 4 \<le> length pkt \<and> length pkt \<le> UCI_MAX_PACKET_SIZE \<and>
     uci_packet_hdr_get_payload_size (take 4 pkt) = length pkt - 4 \<and> segmentable (take 4 pkt)"

definition rx_len :: "(16 word \<times> bytes) option \<Rightarrow> nat" where
  "rx_len rx = (case rx of None \<Rightarrow> 0 | Some (i, bs) \<Rightarrow> length bs)"

lemma reassemble_wait_len:
  "reassemble rx pkt = (rx', None) \<Longrightarrow> rx_len rx' \<le> rx_len rx + (length pkt - 4)"
  by (auto simp: reassemble_def Let_def rx_len_def split: option.splits if_splits)

lemma segment_total: "(\<Sum>pkt\<leftarrow>segment mid bs. length pkt - 4) = length bs"
proof (induction "length bs" arbitrary: bs rule: less_induct)
  case less
  show ?case
  proof (cases "length bs > 255")
    case True
    then have "length (drop 255 bs) < length bs" by simp
    from less.hyps [OF this] True show ?thesis by (subst segment.simps) simp
  next
    case False
    then show ?thesis by (subst segment.simps) simp
  qed
qed

text \<open>Identifiers of messages that are collected, and that a header can carry.\<close>

definition collected_id :: "16 word \<Rightarrow> bool" where
  "collected_id mid \<longleftrightarrow> header_id mid \<and> (is_control_mt (UCI_MT mid) \<or> mid AND 0x0F00 \<noteq> 0)"

lemma segment_well_formed:
  assumes "collected_id mid" and "pkt \<in> set (segment mid bs)" and "length bs < 65536"
  shows "well_formed pkt"
proof -
  have h: "header_id mid" using assms(1) by (simp add: collected_id_def)
  note s = segment_packets [OF h assms(2,3)]
  have "uci_blk_get_mt_dpf (take 4 pkt) = mid" if "is_data_mt (UCI_MT mid)"
    using s(4,5) that by (simp add: id_of_def uci_blk_get_uci_message_id_def is_data_mt_def)
  then have "segmentable (take 4 pkt)"
    using assms(1) s(5) by (auto simp: segmentable_def collected_id_def header_id_def sendable_def)
  with s show ?thesis by (simp add: well_formed_def)
qed

context ample_allocator
begin

lemma fd_read_step:
  assumes e: "e_allocator e = A" and inv: "inv (u_mem u)" and os: "os_ok (u_world u)"
    and att: "fw_attached (u_world u)" and inp: "fw_in (u_world u) = pkt @ rest" and wf: "well_formed pkt"
    and rx: "rx_rep u rx rxs" and len: "rx_len rx + (length pkt - 4) < 65536"
  obtains u' rxs' where
    "uci_transport_fd_read e u =
       (case reassemble rx pkt of
          (Some msg, _) \<Rightarrow> Some (int (length pkt - 4), u')
        | (None, None) \<Rightarrow> None
        | (None, Some (mid, bs)) \<Rightarrow> do { u \<leftarrow> deliver e u' mid; Some (int (length pkt - 4), u) })"
    "rx_rep u' (case reassemble rx pkt of (Some msg, _) \<Rightarrow> Some msg | (None, msg) \<Rightarrow> msg) rxs'"
    "inv (u_mem u')" "same_os (u_world u) (u_world u')" "fw_in (u_world u') = rest"
proof -
  have w: "uci_packet_hdr_get_payload_size (take 4 pkt) = length pkt - 4" "4 \<le> length pkt"
    "length pkt \<le> 259" "segmentable (take 4 pkt)" using wf by (simp_all add: well_formed_def)
  obtain a m w where r:
    "uci_transport_fd_read e u =
       do { u \<leftarrow> uci_packet_recv e (u\<lparr>u_world := w, u_mem := m\<rparr>) a; Some (int (length pkt - 4), u) }"
    "inv m" "heap (u_mem u) a = None" "\<forall>x. x \<noteq> a \<longrightarrow> heap m x = heap (u_mem u) x"
    "packet_rep (heap m) a [a] pkt" "same_os (u_world u) w" "fw_in w = rest"
    by (rule fd_read_packet [OF e inv os att inp w(1-3) alloc_some [OF inv]])
  let ?u = "u\<lparr>u_world := w, u_mem := m\<rparr>"
  have arx: "a \<notin> set rxs"
    using rx r(3) by (auto simp: rx_rep_def own_blks_def split: option.splits)
  have "\<And>x. x \<in> set rxs \<Longrightarrow> heap m x = heap (u_mem u) x" using r(4) arx by metis
  then have rx1: "rx_rep ?u rx rxs" using rx rx_rep_cong [of ?u u rxs rx] by simp
  have pk: "packet_rep (heap (u_mem ?u)) a [a] pkt" and inv1: "inv (u_mem ?u)" and dis: "set [a] \<inter> set rxs = {}"
    using r(2,5) arx by simp_all
  obtain u' rxs' where u':
    "uci_packet_recv e ?u a =
       (case reassemble rx pkt of
          (Some msg, _) \<Rightarrow> Some u' | (None, None) \<Rightarrow> None | (None, Some (mid, bs)) \<Rightarrow> deliver e u' mid)"
    "rx_rep u' (case reassemble rx pkt of (Some msg, _) \<Rightarrow> Some msg | (None, msg) \<Rightarrow> msg) rxs'"
    "inv (u_mem u')" "\<exists>m r l. u' = (clear_uci_msg_info ?u)\<lparr>u_mem := m, u_rx := r, u_rx_last := l\<rparr>"
    by (rule packet_recv_collects [OF e inv1 rx1 pk dis w(1,4) len [unfolded rx_len_def]])
  have "u_world u' = w" using u'(4) by (auto simp: clear_uci_msg_info_def)
  then show thesis
    using r(1,6,7) u'(1,2,3)
    by (intro that [of u' rxs']) (auto split: prod.splits option.splits)
qed

lemma fd_reads_collect:
  assumes "e_allocator e = A" and "inv (u_mem u)" and "os_ok (u_world u)" and "fw_attached (u_world u)"
    and "fw_in (u_world u) = concat pkts @ rest" and "\<And>pkt. pkt \<in> set pkts \<Longrightarrow> well_formed pkt"
    and "\<And>pkt. pkt \<in> set pkts \<Longrightarrow> uci_blk_is_segment (take 4 pkt)"
    and "rx_rep u rx rxs" and "rx_len rx + (\<Sum>pkt\<leftarrow>pkts. length pkt - 4) < 65536"
  shows "\<exists>u' rx' rxs'. fd_reads (length pkts) e u = Some u' \<and> feed rx pkts = (rx', []) \<and>
    rx_rep u' rx' rxs' \<and> inv (u_mem u') \<and> same_os (u_world u) (u_world u') \<and> fw_in (u_world u') = rest \<and>
    rx_len rx' \<le> rx_len rx + (\<Sum>pkt\<leftarrow>pkts. length pkt - 4)"
  using assms
proof (induction pkts arbitrary: u rx rxs)
  case Nil
  then show ?case by auto
next
  case (Cons p ps)
  have inp: "fw_in (u_world u) = p @ (concat ps @ rest)" and wf: "well_formed p"
    and len: "rx_len rx + (length p - 4) < 65536"
    using Cons.prems(5,6,9) by simp_all
  obtain msg where msg: "reassemble rx p = (Some msg, None)"
    using Cons.prems(7) [of p] by (auto simp: reassemble_def Let_def)
  obtain u1 rxs1 where u1: "uci_transport_fd_read e u = Some (int (length p - 4), u1)"
    "rx_rep u1 (Some msg) rxs1" "inv (u_mem u1)" "same_os (u_world u) (u_world u1)"
    "fw_in (u_world u1) = concat ps @ rest"
    by (rule fd_read_step [OF Cons.prems(1-4) inp wf Cons.prems(8) len]) (simp add: msg)
  have os1: "os_ok (u_world u1)" "fw_attached (u_world u1)"
    using Cons.prems(3,4) same_os_ok [OF u1(4)] u1(4) by (simp_all add: same_os_def)
  have l1: "rx_len (Some msg) \<le> rx_len rx + (length p - 4)" using reassemble_wait_len [OF msg] .
  with Cons.prems(9) have l2: "rx_len (Some msg) + (\<Sum>pkt\<leftarrow>ps. length pkt - 4) < 65536" by simp
  have "\<And>pkt. pkt \<in> set ps \<Longrightarrow> well_formed pkt" "\<And>pkt. pkt \<in> set ps \<Longrightarrow> uci_blk_is_segment (take 4 pkt)"
    using Cons.prems(6,7) by simp_all
  from Cons.IH [OF Cons.prems(1) u1(3) os1 u1(5) this u1(2) l2] obtain u' rx' rxs' where
    IH: "fd_reads (length ps) e u1 = Some u'" "feed (Some msg) ps = (rx', [])" "rx_rep u' rx' rxs'"
    "inv (u_mem u')" "same_os (u_world u1) (u_world u')" "fw_in (u_world u') = rest"
    "rx_len rx' \<le> rx_len (Some msg) + (\<Sum>pkt\<leftarrow>ps. length pkt - 4)"
    by blast
  show ?case
    using IH u1(1) msg same_os_trans [OF u1(4) IH(5)] l1
    by (intro exI [of _ u'] exI [of _ rx'] exI [of _ rxs']) simp
qed

text \<open>
  A message that another core segmented and put on the wire is collected, and delivered when its
  last packet has been read, as one message with the payload that was sent.
\<close>

lemma fd_reads_message:
  assumes e: "e_allocator e = A" and inv: "inv (u_mem u)" and os: "os_ok (u_world u)"
    and att: "fw_attached (u_world u)" and rx: "u_rx u = None"
    and mid: "collected_id mid" and len: "length bs < 65536"
    and inp: "fw_in (u_world u) = concat (segment mid bs) @ rest"
  shows "\<exists>n u1 u2 k p. Suc n = length (segment mid bs) \<and> fd_reads n e u = Some u1 \<and>
    uci_transport_fd_read e u1 = do { u \<leftarrow> deliver e u2 mid; Some (k, u) } \<and>
    u_rx u2 = Some p \<and> msg_ok (heap (u_mem u2)) p bs \<and> inv (u_mem u2) \<and> fw_in (u_world u2) = rest"
proof -
  have hid: "header_id mid" using mid by (simp add: collected_id_def)
  obtain init lst where split: "segment mid bs = init @ [lst]"
    and flags: "\<forall>pkt \<in> set init. uci_blk_is_segment (take 4 pkt)" and last: "\<not> uci_blk_is_segment (take 4 lst)"
    by (rule segment_split [OF hid len])
  have flag: "\<And>pkt. pkt \<in> set init \<Longrightarrow> uci_blk_is_segment (take 4 pkt)" using flags by blast
  have wf: "\<And>pkt. pkt \<in> set init \<Longrightarrow> well_formed pkt" "well_formed lst"
    using segment_well_formed [OF mid _ len] split by simp_all
  have tot: "(\<Sum>pkt\<leftarrow>init. length pkt - 4) + (length lst - 4) = length bs"
    using segment_total [of mid bs] split by simp
  have rx0: "rx_rep u None []" using rx by (simp add: rx_rep_def)
  have inp1: "fw_in (u_world u) = concat init @ (lst @ rest)" using inp split by simp
  have "rx_len None + (\<Sum>pkt\<leftarrow>init. length pkt - 4) < 65536" using tot len by (simp add: rx_len_def)
  from fd_reads_collect [OF e inv os att inp1 wf(1) flag rx0 this] obtain u1 rx1 rxs1 where
    u1: "fd_reads (length init) e u = Some u1" "feed None init = (rx1, [])" "rx_rep u1 rx1 rxs1" "inv (u_mem u1)"
    "same_os (u_world u) (u_world u1)" "fw_in (u_world u1) = lst @ rest"
    "rx_len rx1 \<le> rx_len None + (\<Sum>pkt\<leftarrow>init. length pkt - 4)"
    by auto
  have "feed None (init @ [lst]) = (None, [(mid, bs)])"
    using feed_segment [OF hid len, of None] split by simp
  with u1(2) have fin: "reassemble rx1 lst = (None, Some (mid, bs))"
    by (auto simp: feed_append split: prod.splits option.splits)
  have os1: "os_ok (u_world u1)" "fw_attached (u_world u1)"
    using os att same_os_ok [OF u1(5)] u1(5) by (simp_all add: same_os_def)
  have "rx_len rx1 + (length lst - 4) < 65536" using u1(7) tot len by (simp add: rx_len_def)
  from fd_read_step [OF e u1(4) os1 u1(6) wf(2) u1(3) this] obtain u2 rxs2 where
    u2: "uci_transport_fd_read e u1 = do { u \<leftarrow> deliver e u2 mid; Some (int (length lst - 4), u) }"
    "rx_rep u2 (Some (mid, bs)) rxs2" "inv (u_mem u2)" "fw_in (u_world u2) = rest"
    unfolding fin by (metis (no_types, lifting) old.prod.case option.simps(4) option.simps(5))
  obtain p where "u_rx u2 = Some p" "msg_ok (heap (u_mem u2)) p bs"
    by (rule rx_rep_msg_ok [OF u2(2) len])
  with u1(1) u2 split show ?thesis by (metis length_append_singleton)
qed

end

section \<open>Announced lengths beyond the buffer\<close>

text \<open>
  The length in the header of a data or SE testing packet goes up to 65535, and the buffer of
  259 bytes is not checked against it: when the peer announces and sends more than 255 bytes of
  payload, the bytes are written past the end of the block.
\<close>

lemma fd_read_loop_overflow:
  assumes "os_ok w" and "len \<le> length (fw_in w)" and "length dst < off + len"
  shows "fd_read_loop w dst off len = None \<or> len = 0"
  using assms
proof (induction len arbitrary: w dst off rule: less_induct)
  case (less len)
  show ?case
  proof (cases "len = 0")
    case False
    let ?w1 = "w\<lparr>fw_calls := Suc (fw_calls w)\<rparr>"
    from less.prems(1) obtain k where k: "0 < k" "fw_io w (Suc (fw_calls w)) = Io k"
      by (auto simp: os_ok_def)
    define n where "n = min k (min len (length (fw_in w)))"
    let ?w2 = "w\<lparr>fw_calls := Suc (Suc (fw_calls w)), fw_in := drop n (fw_in w)\<rparr>"
    have n: "0 < n" "n \<le> len" "length (take n (fw_in w)) = n"
      using k False less.prems(2) by (auto simp: n_def)
    have rd: "sys_read ?w1 len = (Io n, take n (fw_in w), ?w2)"
      using k by (simp add: sys_read_def n_def Let_def)
    have step: "fd_read_loop w dst off len =
        do { dst \<leftarrow> write_buf dst off (take n (fw_in w)); fd_read_loop ?w2 dst (off + n) (len - n) }"
      using False poll_retry_ready [OF less.prems(1)] rd n by (subst fd_read_loop.simps) simp
    show ?thesis
    proof (cases "write_buf dst off (take n (fw_in w))")
      case None
      with step show ?thesis by simp
    next
      case (Some d)
      have "off + n \<le> length dst" using Some n(3) by (auto simp: write_buf_def split: if_splits)
      then have "len - n \<noteq> 0" using less.prems(3) by linarith
      moreover have "fd_read_loop ?w2 d (off + n) (len - n) = None \<or> len - n = 0"
        using n less.prems write_buf_length [OF Some] by (intro less.IH) (simp_all add: os_ok_def)
      ultimately show ?thesis using step Some by simp
    qed
  qed simp
qed

lemma fd_read_overflow:
  assumes e: "e_allocator e = simple_allocator_ops d" and mem: "\<not> oom (u_mem u) (brk (u_mem u))"
    and os: "os_ok (u_world u)" and att: "fw_attached (u_world u)"
    and inp: "fw_in (u_world u) = hdr @ body" and hdr: "length hdr = 4"
    and big: "UCI_MAX_PAYLOAD_SIZE < uci_packet_hdr_get_payload_size hdr"
      "uci_packet_hdr_get_payload_size hdr \<le> length body"
  shows "uci_transport_fd_read e u = None"
proof -
  let ?p = "brk (u_mem u)" and ?n = "uci_packet_hdr_get_payload_size hdr"
  let ?d = "map (junk_byte (u_mem u)) [0..<259]"
  define b where "b = (junk_blk (u_mem u))\<lparr>b_data := ?d, b_size := 259, b_next := None, b_len := 0,
    b_total_len := 0, b_flags := 0\<rparr>"
  have al: "\<exists>m. uci_blk_alloc (simple_allocator_ops d) (u_mem u) 259 0 = Some (Some ?p, m) \<and> heap m ?p = Some b"
    using mem by (simp add: uci_blk_alloc_def simple_allocator_ops_def simple_acquire_def Let_def put_blk_def b_def)
  then obtain m where m: "uci_blk_alloc (simple_allocator_ops d) (u_mem u) 259 0 = Some (Some ?p, m)"
    "heap m ?p = Some b" by blast
  have bd: "b_data b = ?d" "b_size b = 259" by (simp_all add: b_def)
  obtain w1 where w1: "fd_read_loop (u_world u) ?d 0 4 = Some (0, hdr @ drop 4 ?d, w1)"
    "same_os (u_world u) w1" "fw_in w1 = body"
    using fd_read_loop_ok [OF os, of 4 0 ?d] inp hdr by auto
  have "os_ok w1" using os same_os_ok [OF w1(2)] by simp
  from fd_read_loop_overflow [OF this, of ?n "hdr @ drop 4 ?d" 4]
  have ov: "fd_read_loop w1 (hdr @ drop 4 ?d) 4 ?n = None" using w1(3) big hdr by auto
  show ?thesis
    using m e att w1(1) ov hdr big bd
    by (simp add: uci_transport_fd_read_def uci_packet_recv_alloc_def fd_read_blk_def fd_read_def hdr_at_def
        blk_of_def hdr_of_def read_buf_def Let_def del: map_eq_conv)
qed

end
