(* ===== verification/Message_Writers.thy ===== *)
theory Message_Writers
  imports Uci_Tx
begin

text \<open>
  Building a message in fresh blocks and sending it: a writer of the builder appends the bytes it
  stands for, sequences of writers append their bytes in order, and a message that was built can be
  sent, or given back to the allocator.
\<close>

section \<open>Sending\<close>

text \<open>What is outside of the message before and after.\<close>

definition outside :: "heap \<Rightarrow> ptr list \<Rightarrow> heap \<Rightarrow> ptr list \<Rightarrow> bool" where
  "outside h as h' as' \<longleftrightarrow> h |` (- set as) = h' |` (- set as')"

lemma outside_frame: "frame h as h' as' \<Longrightarrow> outside h as h' as'"
  by (simp add: frame_def outside_def)

lemma outside_trans: "outside h as h1 as1 \<Longrightarrow> outside h1 as1 h2 as2 \<Longrightarrow> outside h as h2 as2"
  by (simp add: outside_def)

lemma outside_upd: "a \<in> set as \<Longrightarrow> outside h as (h(a := v)) as"
  by (auto simp: outside_def restrict_map_def fun_eq_iff)


lemma outside_fresh:
  assumes "outside h [] h' as" and "x \<in> dom h"
  shows "x \<notin> set as" and "h' x = h x"
proof -
  have eq: "h = h' |` (- set as)" using assms(1) by (simp add: outside_def restrict_map_def)
  then show "x \<notin> set as" using assms(2) by (metis ComplI Int_iff dom_restrict ComplD)
  then show "h' x = h x" by (subst eq) simp
qed

context uci_allocator
begin

text \<open>Sending a message that was built in fresh blocks.\<close>

lemma fresh_message_sent:
  assumes e: "e_allocator e = A" and inv: "inv m" and out: "outside (heap (u_mem u)) [] (heap m) as"
    and rep: "message_rep (heap m) (Some p) as bs" and ne: "no_empty (heap m) as" and s: "sendable mid"
    and tx: "tx_inv u txs" and rsp: "rsp_inv u txs" and len: "length bs < 65536"
    and un: "\<not> u_locked u" and tr: "u_tr u \<noteq> None"
  shows "\<exists>u' m' tx r. uci_send_message e (u\<lparr>u_mem := m\<rparr>) mid (Some p) = packet_send_ready e u' \<and>
    u' = u\<lparr>u_mem := m', u_tx := tx, u_tx_last := last_ptr as, u_rsp_blk := r\<rparr> \<and>
    inv m' \<and> tx_inv u' (txs @ as) \<and> rsp_inv u' (txs @ as) \<and>
    wires (heap m') (txs @ as) = wires (heap (u_mem u)) txs @ segment mid bs"
proof -
  let ?u = "u\<lparr>u_mem := m\<rparr>"
  note fresh = outside_fresh [OF out]
  have txd: "set txs \<subseteq> dom (heap (u_mem u))" using tx by (rule tx_inv_dom)
  have dis: "set as \<inter> set txs = {}" using txd fresh(1) by auto
  have tx1: "tx_inv ?u txs" using tx tx_inv_cong [of txs m u] txd fresh(2) by auto
  have rsp1: "rsp_inv ?u (txs @ as)" using rsp fresh by (auto simp: rsp_inv_def) (metis domI)
  have i: "inv (u_mem ?u)" "message_rep (heap (u_mem ?u)) (Some p) as bs" "no_empty (heap (u_mem ?u)) as \<or> as = [p]"
    "\<not> u_locked ?u" "u_tr ?u \<noteq> None" using inv rep ne un tr by simp_all
  from send_message_queued [OF e i(1) tx1 rsp1 i(2,3) s len dis i(4,5)] obtain u' m' tx' r where
    send: "uci_send_message e ?u mid (Some p) = packet_send_ready e u'"
    "u' = ?u\<lparr>u_mem := m', u_tx := tx', u_tx_last := last_ptr as, u_rsp_blk := r\<rparr>" "inv m'"
    "tx_inv u' (txs @ as)" "rsp_inv u' (txs @ as)"
    "wires (heap m') (txs @ as) = wires (heap m) txs @ segment mid bs" by auto
  have "wires (heap m) txs = wires (heap (u_mem u)) txs"
    using txd fresh(2) by (intro wires_heap_cong) auto
  with send show ?thesis by (intro exI [of _ u'] exI [of _ m'] exI [of _ tx'] exI [of _ r]) simp
qed

end

lemma builder_init_rep:
  "builder_rep m uci_message_builder_init [] []" "mb_first_errno uci_message_builder_init = 0"
  "mb_elems_nr uci_message_builder_init = None"
  by (simp_all add: builder_rep_def message_rep_def uci_message_builder_init_def total_is_def last_ptr_def)

section \<open>Writers\<close>

type_synonym writer = "mem \<times> uci_message_builder \<Rightarrow> (mem \<times> uci_message_builder) option"

text \<open>The clients do not look at the status of most puts.\<close>

definition put_bytes :: "uci_allocator_ops \<Rightarrow> bytes \<Rightarrow> writer" where
  "put_bytes A xs = (\<lambda>(m, b). do { (r, m, b) \<leftarrow> uci_message_put A m b xs; Some (m, b) })"

definition put_byte :: "uci_allocator_ops \<Rightarrow> byte \<Rightarrow> writer" where
  "put_byte A v = (\<lambda>(m, b). do { (r, m, b) \<leftarrow> uci_message_put_8bit A m b v; Some (m, b) })"

definition put_word :: "uci_allocator_ops \<Rightarrow> 16 word \<Rightarrow> writer" where
  "put_word A v = (\<lambda>(m, b). do { (r, m, b) \<leftarrow> uci_message_put_16bit A m b v; Some (m, b) })"

definition put_dword :: "uci_allocator_ops \<Rightarrow> 32 word \<Rightarrow> writer" where
  "put_dword A v = (\<lambda>(m, b). do { (r, m, b) \<leftarrow> uci_message_put_32bit A m b v; Some (m, b) })"

fun put_each :: "('a \<Rightarrow> writer) \<Rightarrow> 'a list \<Rightarrow> writer" where
  "put_each w [] s = Some s"
| "put_each w (x # xs) s = do { s \<leftarrow> w x s; put_each w xs s }"

text \<open>A message without a recorded error and without a pending count.\<close>

definition building :: "mem \<Rightarrow> uci_message_builder \<Rightarrow> ptr list \<Rightarrow> bytes \<Rightarrow> bool" where
  "building m b as bs \<longleftrightarrow> builder_rep m b as bs \<and> mb_elems_nr b = None \<and> mb_first_errno b = 0 \<and> no_empty (heap m) as"

definition writes :: "(mem \<Rightarrow> bool) \<Rightarrow> writer \<Rightarrow> bytes \<Rightarrow> bool" where
  "writes P w bs \<longleftrightarrow> (\<forall>m b as cs. P m \<longrightarrow> building m b as cs \<longrightarrow> length (cs @ bs) < 65536 \<longrightarrow>
     (\<exists>m' b' as'. w (m, b) = Some (m', b') \<and> P m' \<and> building m' b' as' (cs @ bs) \<and>
        frame (heap m) as (heap m') as'))"

named_theorems writes_intros \<open>writers and the bytes they append\<close>

lemma building_init: "building m uci_message_builder_init [] []"
  by (simp add: building_def builder_init_rep no_empty_def)

lemma writes_nothing [writes_intros]: "writes P Some []"
  by (auto simp: writes_def)

lemma writes_bind [writes_intros]:
  assumes "writes P v xs" and "writes P w ys"
  shows "writes P (\<lambda>s. Option.bind (v s) w) (xs @ ys)"
  unfolding writes_def
proof (intro allI impI)
  fix m b as cs
  assume *: "P m" "building m b as cs" "length (cs @ xs @ ys) < 65536"
  then have "length (cs @ xs) < 65536" by simp
  with assms(1) * obtain m1 b1 as1 where 1: "v (m, b) = Some (m1, b1)" "P m1" "building m1 b1 as1 (cs @ xs)"
    "frame (heap m) as (heap m1) as1" unfolding writes_def by blast
  have "length ((cs @ xs) @ ys) < 65536" using * by simp
  with assms(2) 1 obtain m2 b2 as2 where "w (m1, b1) = Some (m2, b2)" "P m2" "building m2 b2 as2 ((cs @ xs) @ ys)"
    "frame (heap m1) as1 (heap m2) as2" unfolding writes_def by blast
  with 1 show "\<exists>m' b' as'. Option.bind (v (m, b)) w = Some (m', b') \<and> P m' \<and> building m' b' as' (cs @ xs @ ys) \<and>
      frame (heap m) as (heap m') as'"
    using frame_trans by (intro exI [of _ m2] exI [of _ b2] exI [of _ as2]) auto
qed

lemma writes_each [writes_intros]:
  "(\<And>x. x \<in> set xs \<Longrightarrow> writes P (w x) (f x)) \<Longrightarrow> writes P (put_each w xs) (concat (map f xs))"
proof (induction xs)
  case Nil
  then show ?case using writes_nothing by (simp add: writes_def)
next
  case (Cons x xs)
  have "writes P (\<lambda>s. Option.bind (w x s) (put_each w xs)) (f x @ concat (map f xs))"
    using Cons by (intro writes_bind) auto
  then show ?case by (simp add: writes_def)
qed

lemma writes_if [writes_intros]:
  "(c \<Longrightarrow> writes P v xs) \<Longrightarrow> (\<not> c \<Longrightarrow> writes P w ys) \<Longrightarrow>
   writes P (\<lambda>s. if c then v s else w s) (if c then xs else ys)"
  by auto

context ample_allocator
begin

lemma writes_bytes [writes_intros]: "writes inv (put_bytes A xs) xs"
  unfolding writes_def
proof (intro allI impI)
  fix m b as cs
  assume *: "inv m" "building m b as cs" "length (cs @ xs) < 65536"
  then have "length cs + length xs < 65536" by simp
  with * message_put_ample [of m b as cs xs] show "\<exists>m' b' as'. put_bytes A xs (m, b) = Some (m', b') \<and> inv m' \<and>
      building m' b' as' (cs @ xs) \<and> frame (heap m) as (heap m') as'"
    by (auto simp: building_def put_bytes_def)
qed

lemma put_as_bytes:
  "put_byte A v1 = put_bytes A (le_bytes 1 v1)" "put_word A v2 = put_bytes A (le_bytes 2 v2)"
  "put_dword A v4 = put_bytes A (le_bytes 4 v4)"
  by (simp_all add: put_byte_def put_word_def put_dword_def put_bytes_def put_scalars fun_eq_iff)

lemma writes_scalars [writes_intros]:
  "writes inv (put_byte A v1) [v1]" "writes inv (put_word A v2) (le_bytes 2 v2)"
  "writes inv (put_dword A v4) (le_bytes 4 v4)"
  using writes_bytes [of "le_bytes 1 v1"] writes_bytes [of "le_bytes 2 v2"] writes_bytes [of "le_bytes 4 v4"]
  by (simp_all add: put_as_bytes le_bytes_Suc)

text \<open>The message that a writer builds from nothing.\<close>

lemma written_message:
  assumes "writes inv w bs" and "inv m" and "length bs < 65536" and "bs \<noteq> []"
  shows "\<exists>m' b as p. w (m, uci_message_builder_init) = Some (m', b) \<and> inv m' \<and> mb_message b = Some p \<and>
    message_rep (heap m') (Some p) as bs \<and> no_empty (heap m') as \<and> outside (heap m) [] (heap m') as"
proof -
  from assms building_init [of m] obtain m' b as where
    1: "w (m, uci_message_builder_init) = Some (m', b)" "inv m'" "building m' b as bs" "frame (heap m) [] (heap m') as"
    unfolding writes_def by (metis append_Nil)
  then have rep: "message_rep (heap m') (mb_message b) as bs" by (simp add: building_def builder_rep_def)
  with assms(4) obtain p where "mb_message b = Some p" by (cases "mb_message b") (auto simp: message_rep_def)
  with 1 rep outside_frame [OF 1(4)] show ?thesis by (auto simp: building_def)
qed

text \<open>It can be sent: the queue gets its packets.\<close>

lemma written_message_sent:
  assumes w: "writes inv w bs" and len: "length bs < 65536" and ne: "bs \<noteq> []"
    and e: "e_allocator e = A" and inv: "inv (u_mem u)" and s: "sendable mid"
    and tx: "tx_inv u txs" and rsp: "rsp_inv u txs" and un: "\<not> u_locked u" and tr: "u_tr u \<noteq> None"
  shows "\<exists>m b u' as. w (u_mem u, uci_message_builder_init) = Some (m, b) \<and>
    uci_send_message e (u\<lparr>u_mem := m\<rparr>) mid (mb_message b) = packet_send_ready e u' \<and>
    inv (u_mem u') \<and> tx_inv u' (txs @ as) \<and> rsp_inv u' (txs @ as) \<and>
    u_world u' = u_world u \<and> u_tr u' = u_tr u \<and> u_htab u' = u_htab u \<and> u_handlers_head u' = u_handlers_head u \<and>
    wires (heap (u_mem u')) (txs @ as) = wires (heap (u_mem u)) txs @ segment mid bs"
proof -
  from written_message [OF w inv len ne] obtain m b as p where
    1: "w (u_mem u, uci_message_builder_init) = Some (m, b)" "inv m" "mb_message b = Some p"
      "message_rep (heap m) (Some p) as bs" "no_empty (heap m) as" "outside (heap (u_mem u)) [] (heap m) as" by blast
  from fresh_message_sent [OF e 1(2,6,4,5) s tx rsp len un tr] obtain u' m' tx' r where
    "uci_send_message e (u\<lparr>u_mem := m\<rparr>) mid (Some p) = packet_send_ready e u'"
    "u' = u\<lparr>u_mem := m', u_tx := tx', u_tx_last := last_ptr as, u_rsp_blk := r\<rparr>" "inv m'"
    "tx_inv u' (txs @ as)" "rsp_inv u' (txs @ as)"
    "wires (heap m') (txs @ as) = wires (heap (u_mem u)) txs @ segment mid bs" by blast
  with 1 show ?thesis
    by (intro exI [of _ m] exI [of _ b] exI [of _ u'] exI [of _ as]) simp
qed

text \<open>Or it can be freed: no block is left of it.\<close>

lemma written_message_freed:
  assumes "writes inv w bs" and "inv m" and "length bs < 65536" and "bs \<noteq> []"
  shows "\<exists>m1 b m2. w (m, uci_message_builder_init) = Some (m1, b) \<and>
    uci_blk_free_all A m1 (mb_message b) = Some m2 \<and> heap m2 = heap m \<and> inv m2"
proof -
  from written_message [OF assms] obtain m' b as p where
    1: "w (m, uci_message_builder_init) = Some (m', b)" "inv m'" "mb_message b = Some p"
      "message_rep (heap m') (Some p) as bs" "outside (heap m) [] (heap m') as" by blast
  then have "chain (heap m') (Some p) as" "owned (heap m') as"
    by (auto simp: message_rep_def own_blks_def own_blk_def owned_def)
  from free_all [OF 1(2) this] 1 show ?thesis by (auto simp: outside_def restrict_map_def)
qed

end

end
