(* ===== verification/Uci_Exchange.thy ===== *)
theory Uci_Exchange
  imports Uci_Transport Message_Writers
begin

text \<open>
  A message on its way from the application of one core to that of another: built, sent, read from a
  descriptor, collected and parsed. And the answer of a server that is in the error state, as it is queued.
\<close>

section \<open>From a builder to a parser\<close>

lemma exchange_ok:
  assumes e: "e_allocator e = simple_allocator_ops d" and mem: "mem_ample (u_mem u)" and tx: "tx_inv u []" and rsp: "rsp_inv u []"
    and un: "\<not> u_locked u" and tr: "u_tr u \<noteq> None"
    and e': "e_allocator e' = simple_allocator_ops d'" and mem': "mem_ample (u_mem v)" and os: "os_ok (u_world v)"
    and att: "fw_attached (u_world v)" and rx: "u_rx v = None"
    and mid: "collected_id mid" and data: "data \<noteq> []" and len: "length data < 65536"
  shows "\<exists>m builder p s as n v1 v2 k q parser parser'.
    uci_message_put (simple_allocator_ops d) (u_mem u) uci_message_builder_init data = Some (0, m, builder) \<and>
    mb_message builder = Some p \<and> uci_send_message e (u\<lparr>u_mem := m\<rparr>) mid (Some p) = packet_send_ready e s \<and>
    chain (heap (u_mem s)) (u_tx s) as \<and>
    fd_reads n e' (v\<lparr>u_world := (u_world v)\<lparr>fw_in := concat (wires (heap (u_mem s)) as) @ rest\<rparr>\<rparr>) = Some v1 \<and>
    uci_transport_fd_read e' v1 = do { v \<leftarrow> deliver e' v2 mid; Some (k, v) } \<and> u_rx v2 = Some q \<and>
    UCI_MESSAGE_PARSER_INITIALIZER (heap (u_mem v2)) q = Some parser \<and>
    uci_message_get (heap (u_mem v2)) parser (length data) = Some (data, parser') \<and>
    uci_message_remaining parser' = 0 \<and> fw_in (u_world v2) = rest"
proof -
  have hid: "header_id mid" and s: "sendable mid" using mid by (simp_all add: collected_id_def header_id_def)
  have "length [] + length data < 65536" using len by simp
  from ample.message_put_ample [OF mem builder_init_rep this, of d] obtain m builder as where
    put: "uci_message_put (simple_allocator_ops d) (u_mem u) uci_message_builder_init data = Some (0, m, builder)"
      "mem_ample m" "builder_rep m builder as data" "frame (heap (u_mem u)) [] (heap m) as"
      "no_empty (heap m) as" by auto
  from put(3) have rep: "message_rep (heap m) (mb_message builder) as data" by (simp add: builder_rep_def)
  with data obtain p where p: "mb_message builder = Some p"
    by (cases "mb_message builder") (auto simp: message_rep_def)
  from ample.fresh_message_sent [OF e put(2) outside_frame [OF put(4)] rep [unfolded p] put(5) s tx rsp len un tr]
  obtain s m' tx' r where sent: "uci_send_message e (u\<lparr>u_mem := m\<rparr>) mid (Some p) = packet_send_ready e s"
    "s = u\<lparr>u_mem := m', u_tx := tx', u_tx_last := last_ptr as, u_rsp_blk := r\<rparr>" "tx_inv s as"
    "wires (heap m') as = segment mid data" by (auto simp: wires_def)
  then have s': "u_mem s = m'" "chain (heap (u_mem s)) (u_tx s) as" by (simp_all add: tx_inv_def)
  let ?v = "v\<lparr>u_world := (u_world v)\<lparr>fw_in := concat (wires (heap (u_mem s)) as) @ rest\<rparr>\<rparr>"
  have v: "mem_ample (u_mem ?v)" "os_ok (u_world ?v)" "fw_attached (u_world ?v)" "u_rx ?v = None"
    "fw_in (u_world ?v) = concat (segment mid data) @ rest"
    using mem' os att rx sent(4) s'(1) by (simp_all add: os_ok_def)
  from ample.fd_reads_message [OF e' v(1-4) mid len v(5)] obtain n v1 v2 k q where
    read: "fd_reads n e' ?v = Some v1" "uci_transport_fd_read e' v1 = do { u \<leftarrow> deliver e' v2 mid; Some (k, u) }"
      "u_rx v2 = Some q" "msg_ok (heap (u_mem v2)) q data" "fw_in (u_world v2) = rest" by blast
  obtain parser where parser: "UCI_MESSAGE_PARSER_INITIALIZER (heap (u_mem v2)) q = Some parser"
    "parser_rep (heap (u_mem v2)) parser data" using parser_init [OF read(4)] by blast
  from message_get_rep [OF parser(2), of "length data"] obtain parser' where
    get: "uci_message_get (heap (u_mem v2)) parser (length data) = Some (data, parser')"
      "parser_rep (heap (u_mem v2)) parser' []" by auto
  with remaining_rep [OF get(2)] put(1) p sent(1) s'(2) read parser(1) show ?thesis by (metis list.size(3))
qed

section \<open>The answer of a server\<close>

lemma sendable_RSP: "sendable (RSP mid)"
proof -
  have "drop_bit 13 (0xfff :: 16 word) = 0" "drop_bit 13 (0x4000 :: 16 word) = 2" by code_simp+
  then have "drop_bit 13 (RSP mid) = 2" by (simp add: RSP_def drop_bit_or drop_bit_and)
  moreover have "(2 :: 16 word) AND 7 = 2" by code_simp
  ultimately show ?thesis by (simp add: sendable_def is_control_mt_def UCI_MT_def)
qed

context uci_allocator
begin

text \<open>A status goes into the preallocated response, so that it is queued whatever allocations fail.\<close>

lemma send_status_queued:
  assumes e: "e_allocator e = A" and inv: "inv (u_mem u)" and tx: "tx_inv u txs" and rsp: "rsp_inv u txs"
    and r: "u_rsp_blk u = Some r" and un: "\<not> u_locked u" and tr: "u_tr u \<noteq> None"
  shows "\<exists>u' m tx q. uci_send_status e u mid status = packet_send_ready e u' \<and>
    u' = u\<lparr>u_mem := m, u_tx := tx, u_tx_last := Some r, u_rsp_blk := q\<rparr> \<and> inv m \<and> tx_inv u' (txs @ [r]) \<and>
    rsp_inv u' (txs @ [r]) \<and>
    wires (heap m) (txs @ [r]) = wires (heap (u_mem u)) txs @ [pkt_header (RSP mid) 1 @ [status]]"
proof -
  from rsp r obtain b where b: "r \<notin> set txs" "heap (u_mem u) r = Some b" "status_blk b" by (auto simp: rsp_inv_def)
  then have sz: "own_blk b" "uci_blk_has_header b" "b_len b = 4" "b_total_len b = 0" "b_next b = None" "5 \<le> length (b_data b)"
    by (simp_all add: status_blk_def own_blk_def)
  obtain d where d: "write_buf (b_data b) 4 [status] = Some d"
    using write_buf_total [of 4 "[status]" "b_data b"] sz(6) by auto
  let ?b = "b\<lparr>b_data := d, b_len := 5, b_total_len := 1\<rparr>" let ?m = "put_blk (u_mem u) r ?b"
  let ?u = "u\<lparr>u_mem := ?m, u_rsp_blk := None\<rparr>"
  have len: "length d = length (b_data b)" using write_buf_length [OF d] .
  have "d = take 4 (b_data b) @ [status] @ drop 5 (b_data b)" using d by (auto simp: write_buf_def split: if_splits)
  then have pl: "blk_payload ?b = [status]" using sz(2,6) by (simp add: blk_payload_def uci_blk_has_header_def)
  have own: "own_blk ?b" using sz len by (simp add: own_blk_def blk_ok_def allocator_owned_def uci_blk_has_header_def)
  have rep: "message_rep (heap (u_mem ?u)) (Some r) [r] [status]"
    using own pl sz by (simp add: message_rep_def total_is_def plen_def blk_at_def uci_blk_has_header_def)
  have "\<And>a. a \<in> set txs \<Longrightarrow> heap ?m a = heap (u_mem u) a" using b(1) by auto
  note same = this
  have tx1: "tx_inv ?u txs" using tx tx_inv_cong [of txs ?m u] same by (simp add: tx_inv_def)
  have rsp1: "rsp_inv ?u (txs @ [r])" by (simp add: rsp_inv_def)
  have i: "inv (u_mem ?u)" using inv b(2) by (auto intro: write_blk)
  have "segment (RSP mid) [status] = [pkt_header (RSP mid) 1 @ [status]]" by (subst segment.simps) simp
  have run: "uci_send_status e u mid status = uci_send_message e ?u (RSP mid) (Some r)"
    using un tr r b(2) d sz(3,4)
    by (cases u) (auto simp: uci_send_status_def uci_get_prealloc_status_def qmutex_lock_def qmutex_unlock_def upd_blk_def)
  have dis: "set [r] \<inter> set txs = {}" using b(1) by simp
  have e1: "no_empty (heap (u_mem ?u)) [r] \<or> [r] = [r]" "\<not> u_locked ?u" "u_tr ?u \<noteq> None" "length [status] < 65536"
    using un tr by simp_all
  from send_message_queued [OF e i tx1 rsp1 rep e1(1) sendable_RSP [of mid] e1(4) dis e1(2,3)] obtain u' m tx' q where
    send: "uci_send_message e ?u (RSP mid) (Some r) = packet_send_ready e u'"
    "u' = ?u\<lparr>u_mem := m, u_tx := tx', u_tx_last := last_ptr [r], u_rsp_blk := q\<rparr>" "inv m" "tx_inv u' (txs @ [r])"
    "rsp_inv u' (txs @ [r])" "wires (heap m) (txs @ [r]) = wires (heap ?m) txs @ segment (RSP mid) [status]" by auto
  have "wires (heap ?m) txs = wires (heap (u_mem u)) txs" using same by (rule wires_heap_cong)
  with send run \<open>segment (RSP mid) [status] = _\<close> show ?thesis
    by (intro exI [of _ u'] exI [of _ m] exI [of _ tx'] exI [of _ q]) (simp add: last_ptr_def)
qed

text \<open>
  In the error state a server queues REJECTED in place of calling the handler that is registered; the reset
  and the messages of a client reach their handlers.
\<close>

lemma error_state:
  assumes "e_allocator e = A" and "inv (u_mem u)" and "tx_inv u txs" and "rsp_inv u txs"
    and "u_rsp_blk u = Some r" and "\<not> u_locked u" and "u_tr u \<noteq> None" and "handlers_inv u ps"
    and "u_device_state u = UCI_DEVICE_STATE_ERROR" and "is_control_mt (UCI_MT mid)"
  shows "if \<not> u_is_client u \<and> mid \<noteq> UCI_MT_GID_OID UCI_MESSAGE_TYPE_COMMAND UCI_GID_CORE UCI_OID_CORE_DEVICE_RESET
    then \<exists>u' m tx q. handle_full_message e u mid = packet_send_ready e u' \<and>
      u' = u\<lparr>u_mem := m, u_tx := tx, u_tx_last := Some r, u_rsp_blk := q\<rparr> \<and> inv m \<and> tx_inv u' (txs @ [r]) \<and>
      rsp_inv u' (txs @ [r]) \<and> wires (heap m) (txs @ [r]) =
        wires (heap (u_mem u)) txs @ [pkt_header (RSP mid) 1 @ [word_of_int UCI_STATUS_REJECTED]]
    else \<forall>f x. map_of (handler_map (u_htab u) ps) mid = Some (f, x) \<longrightarrow> handle_full_message e u mid = do {
      (error, u) \<leftarrow> e_handler e f u mid (u_rx u) x;
      if error \<noteq> 0 \<and> \<not> u_is_client u then uci_send_status e u mid (word_of_int UCI_STATUS_FAILED) else Some u }"
proof (cases "\<not> u_is_client u \<and> mid \<noteq> UCI_MT_GID_OID UCI_MESSAGE_TYPE_COMMAND UCI_GID_CORE UCI_OID_CORE_DEVICE_RESET")
  case True
  with handle_full_message_rejected [of u mid e] assms(9,10)
  have h: "handle_full_message e u mid = uci_send_status e u mid (word_of_int UCI_STATUS_REJECTED)" by blast
  show ?thesis unfolding if_P [OF True] h by (rule send_status_queued [OF assms(1-7)])
next
  case False
  with handle_full_message_lookup [OF assms(8), of mid e] assms(10) show ?thesis by (auto intro!: Option.bind_cong)
qed

end

end
