(* ===== verification/Cherry_Thread.thy ===== *)
theory Cherry_Thread
  imports Linked
begin

text \<open>
  The worker thread of the Cherry library (\<^verbatim>\<open>cherry_thread.c\<close>): two singly linked lists of tasks,
  sent by the API calls and the notification callbacks and run one after the other by the thread,
  priority tasks first.

  The task structures and the buffers for their parameters are in a store; \<open>th_oom n\<close> says that
  the allocation number \<open>n\<close> fails. The function pointer of a task is an identifier that the
  parameter \<open>run\<close> of the operations interprets: a task may do anything to the context, including
  sending other tasks, and may fail to return. \<open>'w\<close> is the state of the world behind the tasks.
\<close>

section \<open>State\<close>

record cherry_task =
  t_context :: "ptr option"
  t_params :: "ptr option"
  t_params_size :: nat
  t_thread_task :: "nat option"
  next_task :: "ptr option"

datatype cherry_thread_state = CHERRY_THREAD_RUN | CHERRY_THREAD_STOP

datatype cherry_err = CHERRY_ERR_NONE | CHERRY_ERR_INVALID_PARAMETER | CHERRY_ERR_UWBS_TIMEOUT
  | CHERRY_ERR_INTERNAL | CHERRY_ERR_SESSION_INIT | CHERRY_ERR_SESSION_ACTIVE
  | CHERRY_ERR_SESSION_CONFIG | CHERRY_ERR_SESSION_TYPE_NOT_SUPPORTED

text \<open>Which of the two lists a \<^verbatim>\<open>struct cherry_task **head\<close> points to.\<close>

datatype task_list = TASKS | PRIO_TASKS

record 'w cherry_thread =
  th_store :: "ptr \<Rightarrow> cherry_task option"
  th_bufs :: "ptr \<Rightarrow> bytes option"
  th_brk :: nat
  th_oom :: "nat \<Rightarrow> bool"
  th_junk :: "ptr option"
  th_sem :: nat
  th_state :: cherry_thread_state
  th_tasks :: "ptr option"
  th_prio_tasks :: "ptr option"
  th_locked :: bool
  th_under_destroy :: bool
  th_world :: 'w

type_synonym 'w task_fn = "nat \<Rightarrow> 'w cherry_thread \<Rightarrow> ptr option \<Rightarrow> ptr option \<Rightarrow> bool \<Rightarrow> 'w cherry_thread option"

definition task_head :: "task_list \<Rightarrow> 'w cherry_thread \<Rightarrow> ptr option" where
  "task_head l t = (case l of TASKS \<Rightarrow> th_tasks t | PRIO_TASKS \<Rightarrow> th_prio_tasks t)"

definition set_head :: "task_list \<Rightarrow> ptr option \<Rightarrow> 'w cherry_thread \<Rightarrow> 'w cherry_thread" where
  "set_head l p t = (case l of TASKS \<Rightarrow> t\<lparr>th_tasks := p\<rparr> | PRIO_TASKS \<Rightarrow> t\<lparr>th_prio_tasks := p\<rparr>)"

definition put_task :: "'w cherry_thread \<Rightarrow> ptr \<Rightarrow> cherry_task \<Rightarrow> 'w cherry_thread" where
  "put_task t a k = t\<lparr>th_store := (th_store t)(a \<mapsto> k)\<rparr>"

section \<open>Operating system services\<close>

text \<open>The mutex is not recursive: taking it twice never returns.\<close>

definition task_lock :: "'w cherry_thread \<Rightarrow> 'w cherry_thread option" where
  "task_lock t = (if th_locked t then None else Some (t\<lparr>th_locked := True\<rparr>))"

definition task_unlock :: "'w cherry_thread \<Rightarrow> 'w cherry_thread" where
  "task_unlock t = t\<lparr>th_locked := False\<rparr>"

text \<open>A semaphore is not given beyond its maximum; without timeout, taking an empty one blocks.\<close>

definition SEM_MAX :: nat where "SEM_MAX = 0xffff"

definition cherry_thread_wakeup :: "'w cherry_thread \<Rightarrow> 'w cherry_thread" where
  "cherry_thread_wakeup t = t\<lparr>th_sem := min (Suc (th_sem t)) SEM_MAX\<rparr>"

definition sem_take :: "'w cherry_thread \<Rightarrow> 'w cherry_thread option" where
  "sem_take t = (if th_sem t = 0 then None else Some (t\<lparr>th_sem := th_sem t - 1\<rparr>))"

definition sem_take_timeout :: "'w cherry_thread \<Rightarrow> 'w cherry_thread" where
  "sem_take_timeout t = t\<lparr>th_sem := th_sem t - 1\<rparr>"

definition task_qmalloc :: "'w cherry_thread \<Rightarrow> ptr option \<times> 'w cherry_thread" where
  "task_qmalloc t = (if th_oom t (th_brk t) then None else Some (th_brk t), t\<lparr>th_brk := Suc (th_brk t)\<rparr>)"

section \<open>Operations\<close>

text \<open>The three booleans are the outcomes of the initialisations of the system objects.\<close>

definition cherry_thread_create ::
    "'w cherry_thread \<Rightarrow> bool \<Rightarrow> bool \<Rightarrow> bool \<Rightarrow> cherry_err \<times> 'w cherry_thread" where
  "cherry_thread_create t sem_ok mutex_ok thread_ok =
     (let t = t\<lparr>th_tasks := None, th_state := CHERRY_THREAD_RUN, th_prio_tasks := None, th_under_destroy := False\<rparr> in
      if \<not> sem_ok then (CHERRY_ERR_INTERNAL, t)
      else let t = t\<lparr>th_sem := 0\<rparr> in
        if \<not> mutex_ok then (CHERRY_ERR_INTERNAL, t)
        else let t = t\<lparr>th_locked := False\<rparr> in
          if \<not> thread_ok then (CHERRY_ERR_INTERNAL, t) else (CHERRY_ERR_NONE, t))"

definition cherry_thread_alloc_task ::
    "'w cherry_thread \<Rightarrow> ptr option \<Rightarrow> ptr option \<Rightarrow> nat \<Rightarrow> nat option \<Rightarrow> (ptr option \<times> 'w cherry_thread) option" where
  "cherry_thread_alloc_task t context params params_size thread_task =
     (case task_qmalloc t of
        (None, t) \<Rightarrow> Some (None, t)
      | (Some a, t) \<Rightarrow>
          let k = \<lparr>t_context = context, t_params = params, t_params_size = params_size,
                   t_thread_task = thread_task, next_task = th_junk t\<rparr>
          in case params of
               Some src \<Rightarrow>
                 if params_size \<noteq> 0 then
                   (case task_qmalloc t of
                      (None, t) \<Rightarrow> Some (None, t)
                    | (Some p, t) \<Rightarrow>
                        do {
                          buf \<leftarrow> th_bufs t src;
                          data \<leftarrow> read_buf buf 0 params_size;
                          Some (Some a, put_task (t\<lparr>th_bufs := (th_bufs t)(p \<mapsto> data)\<rparr>) a (k\<lparr>t_params := Some p\<rparr>))
                        })
                 else Some (Some a, put_task t a k)
             | None \<Rightarrow> Some (Some a, put_task t a k))"

definition cherry_thread_free_task :: "'w cherry_thread \<Rightarrow> ptr \<Rightarrow> 'w cherry_thread option" where
  "cherry_thread_free_task t a =
     do {
       k \<leftarrow> th_store t a;
       t \<leftarrow> (case t_params k of
               Some p \<Rightarrow>
                 if t_params_size k \<noteq> 0
                 then if th_bufs t p = None then None else Some (t\<lparr>th_bufs := (th_bufs t)(p := None)\<rparr>)
                 else Some t
             | None \<Rightarrow> Some t);
       Some (t\<lparr>th_store := (th_store t)(a := None)\<rparr>)
     }"

text \<open>The walk to the last task of the list.\<close>

partial_function (option) last_task :: "(ptr \<Rightarrow> cherry_task option) \<Rightarrow> ptr \<Rightarrow> ptr option" where
  "last_task st a = do { k \<leftarrow> st a; case next_task k of None \<Rightarrow> Some a | Some b \<Rightarrow> last_task st b }"

definition set_task_next :: "'w cherry_thread \<Rightarrow> ptr \<Rightarrow> ptr option \<Rightarrow> 'w cherry_thread option" where
  "set_task_next t a q = do { k \<leftarrow> th_store t a; Some (put_task t a (k\<lparr>next_task := q\<rparr>)) }"

definition cherry_thread_task_enqueue ::
    "'w cherry_thread \<Rightarrow> ptr \<Rightarrow> task_list \<Rightarrow> bool \<Rightarrow> bool \<Rightarrow> (bool \<times> 'w cherry_thread) option" where
  "cherry_thread_task_enqueue t task l destroy force_task =
     do {
       t \<leftarrow> set_task_next t task None;
       t \<leftarrow> task_lock t;
       if th_under_destroy t \<and> \<not> force_task then Some (False, task_unlock t)
       else do {
         t \<leftarrow> (case task_head l t of
                 None \<Rightarrow> Some (set_head l (Some task) t)
               | Some h \<Rightarrow> do { z \<leftarrow> last_task (th_store t) h; set_task_next t z (Some task) });
         let t = (if destroy then t\<lparr>th_under_destroy := True\<rparr> else t);
         Some (True, task_unlock t)
       }
     }"

definition cherry_thread_task_list_send ::
    "'w cherry_thread \<Rightarrow> task_list \<Rightarrow> ptr option \<Rightarrow> ptr option \<Rightarrow> nat \<Rightarrow> nat option \<Rightarrow> bool \<Rightarrow> bool \<Rightarrow>
     (cherry_err \<times> 'w cherry_thread) option" where
  "cherry_thread_task_list_send t l context params params_size thread_task destroy force_task =
     (if context = None \<or> thread_task = None then Some (CHERRY_ERR_INTERNAL, t)
      else if th_state t \<noteq> CHERRY_THREAD_RUN then Some (CHERRY_ERR_INTERNAL, t)
      else do {
        (task, t) \<leftarrow> cherry_thread_alloc_task t context params params_size thread_task;
        case task of
          None \<Rightarrow> Some (CHERRY_ERR_INTERNAL, t)
        | Some a \<Rightarrow>
            do {
              (queued, t) \<leftarrow> cherry_thread_task_enqueue t a l destroy force_task;
              if queued then Some (CHERRY_ERR_NONE, cherry_thread_wakeup t)
              else Some (CHERRY_ERR_INTERNAL, t)
            }
      })"

definition cherry_thread_send_list_task ::
    "'w cherry_thread \<Rightarrow> ptr option \<Rightarrow> ptr option \<Rightarrow> nat \<Rightarrow> nat option \<Rightarrow> bool \<Rightarrow>
     (cherry_err \<times> 'w cherry_thread) option" where
  "cherry_thread_send_list_task t context params params_size thread_task destroy =
     cherry_thread_task_list_send t TASKS context params params_size thread_task destroy False"

definition cherry_thread_send_prio_task ::
    "'w cherry_thread \<Rightarrow> ptr option \<Rightarrow> ptr option \<Rightarrow> nat \<Rightarrow> nat option \<Rightarrow>
     (cherry_err \<times> 'w cherry_thread) option" where
  "cherry_thread_send_prio_task t context params params_size thread_task =
     cherry_thread_task_list_send t PRIO_TASKS context params params_size thread_task False True"

definition cherry_thread_dequeue_first_task ::
    "'w cherry_thread \<Rightarrow> task_list \<Rightarrow> (ptr option \<times> 'w cherry_thread) option" where
  "cherry_thread_dequeue_first_task t l =
     do {
       t \<leftarrow> task_lock t;
       case task_head l t of
         None \<Rightarrow> Some (None, task_unlock t)
       | Some a \<Rightarrow> do { k \<leftarrow> th_store t a; Some (Some a, task_unlock (set_head l (next_task k) t)) }
     }"

text \<open>Calling a task and freeing it.\<close>

definition call_task :: "'w task_fn \<Rightarrow> 'w cherry_thread \<Rightarrow> ptr \<Rightarrow> bool \<Rightarrow> 'w cherry_thread option" where
  "call_task run t a abort =
     do { k \<leftarrow> th_store t a; f \<leftarrow> t_thread_task k; run f t (t_context k) (t_params k) abort }"

text \<open>
  The head is passed by value: the lists of the context still point to the freed tasks afterwards.
  The tasks are called with the mutex taken.
\<close>

partial_function (option) abort_tasks :: "'w task_fn \<Rightarrow> 'w cherry_thread \<Rightarrow> ptr option \<Rightarrow> 'w cherry_thread option" where
  "abort_tasks run t task =
     (case task of
        None \<Rightarrow> Some t
      | Some a \<Rightarrow>
          do {
            k \<leftarrow> th_store t a;
            t \<leftarrow> call_task run t a True;
            t \<leftarrow> cherry_thread_free_task t a;
            abort_tasks run t (next_task k)
          })"

definition cherry_thread_remove_all_tasks ::
    "'w task_fn \<Rightarrow> 'w cherry_thread \<Rightarrow> ptr option \<Rightarrow> 'w cherry_thread option" where
  "cherry_thread_remove_all_tasks run t head =
     do { t \<leftarrow> task_lock t; t \<leftarrow> abort_tasks run t head; Some (task_unlock t) }"

definition cherry_thread_stop :: "'w task_fn \<Rightarrow> 'w cherry_thread \<Rightarrow> 'w cherry_thread option" where
  "cherry_thread_stop run t =
     do {
       t \<leftarrow> cherry_thread_remove_all_tasks run t (th_tasks t);
       t \<leftarrow> cherry_thread_remove_all_tasks run t (th_prio_tasks t);
       Some (cherry_thread_wakeup (t\<lparr>th_state := CHERRY_THREAD_STOP\<rparr>))
     }"

text \<open>
  The loop of \<^verbatim>\<open>cherry_thread_remove_pending_tasks_from_list\<close>: \<open>task_next\<close> was read before the
  current task may be freed. \<open>task_out\<close> is the last task kept.
\<close>

partial_function (option) remove_pending_loop ::
    "'w cherry_thread \<Rightarrow> ptr option \<Rightarrow> task_list \<Rightarrow> ptr option \<Rightarrow> ptr option \<Rightarrow> ptr option \<Rightarrow>
     (ptr option \<times> 'w cherry_thread) option" where
  "remove_pending_loop t context l task task_next task_out =
     (case task of
        None \<Rightarrow> Some (task_out, t)
      | Some a \<Rightarrow>
          do {
            k \<leftarrow> th_store t a;
            (task_out, t) \<leftarrow>
              (if t_context k = context
               then do { t \<leftarrow> cherry_thread_free_task t a; Some (task_out, t) }
               else do {
                 t \<leftarrow> (case task_out of
                         Some z \<Rightarrow> set_task_next t z (Some a)
                       | None \<Rightarrow> Some (set_head l (Some a) t));
                 Some (Some a, t)
               });
            next2 \<leftarrow> (case task_next of None \<Rightarrow> Some None
                       | Some b \<Rightarrow> do { k \<leftarrow> th_store t b; Some (next_task k) });
            remove_pending_loop t context l task_next next2 task_out
          })"

definition cherry_thread_remove_pending_tasks_from_list ::
    "'w cherry_thread \<Rightarrow> ptr option \<Rightarrow> task_list \<Rightarrow> 'w cherry_thread option" where
  "cherry_thread_remove_pending_tasks_from_list t context l =
     (if context = None then Some t
      else do {
        t \<leftarrow> task_lock t;
        let task = task_head l t;
        let t = set_head l None t;
        task_next \<leftarrow> (case task of None \<Rightarrow> Some None | Some a \<Rightarrow> do { k \<leftarrow> th_store t a; Some (next_task k) });
        (task_out, t) \<leftarrow> remove_pending_loop t context l task task_next None;
        t \<leftarrow> (case task_out of Some z \<Rightarrow> set_task_next t z None | None \<Rightarrow> Some t);
        Some (task_unlock t)
      })"

definition cherry_thread_remove_pending_tasks :: "'w cherry_thread \<Rightarrow> ptr option \<Rightarrow> 'w cherry_thread option" where
  "cherry_thread_remove_pending_tasks t context =
     do {
       t \<leftarrow> cherry_thread_remove_pending_tasks_from_list t context TASKS;
       cherry_thread_remove_pending_tasks_from_list t context PRIO_TASKS
     }"

definition cherry_thread_process_prio_task ::
    "'w task_fn \<Rightarrow> 'w cherry_thread \<Rightarrow> (int \<times> 'w cherry_thread) option" where
  "cherry_thread_process_prio_task run t =
     do {
       (task, t) \<leftarrow> cherry_thread_dequeue_first_task (sem_take_timeout t) PRIO_TASKS;
       case task of
         None \<Rightarrow> Some (0, t)
       | Some a \<Rightarrow>
           do { t \<leftarrow> call_task run t a False; t \<leftarrow> cherry_thread_free_task t a; Some (1, t) }
     }"

partial_function (option) run_tasks :: "'w task_fn \<Rightarrow> 'w cherry_thread \<Rightarrow> (int \<times> 'w cherry_thread) option" where
  "run_tasks run t =
     (if th_state t \<noteq> CHERRY_THREAD_RUN then Some (1, t)
      else do {
        (task, t) \<leftarrow> cherry_thread_dequeue_first_task t PRIO_TASKS;
        (task, t) \<leftarrow> (case task of None \<Rightarrow> cherry_thread_dequeue_first_task t TASKS | Some a \<Rightarrow> Some (Some a, t));
        case task of
          None \<Rightarrow> Some (0, t)
        | Some a \<Rightarrow>
            do { t \<leftarrow> call_task run t a False; t \<leftarrow> cherry_thread_free_task t a; run_tasks run t }
      })"

definition cherry_thread_run_one :: "'w task_fn \<Rightarrow> 'w cherry_thread \<Rightarrow> (int \<times> 'w cherry_thread) option" where
  "cherry_thread_run_one run t = do { t \<leftarrow> sem_take t; run_tasks run t }"

partial_function (option) cherry_thread_hdl :: "'w task_fn \<Rightarrow> 'w cherry_thread \<Rightarrow> 'w cherry_thread option" where
  "cherry_thread_hdl run t =
     (if th_state t \<noteq> CHERRY_THREAD_RUN then Some t
      else do { (r, t) \<leftarrow> cherry_thread_run_one run t; if r = - 1 then Some t else cherry_thread_hdl run t })"

section \<open>The invariant of the lists\<close>

text \<open>
  \<open>qs l\<close> are the tasks of the list \<open>l\<close> in order, and \<open>A\<close> the tasks that are allocated: those
  in the lists and those that were taken from a list and not yet freed. Every allocated task has
  the copy of its parameters, which no other task has.
\<close>

definition params_copy :: "cherry_task \<Rightarrow> ptr option" where
  "params_copy k = (if t_params_size k = 0 then None else t_params k)"

definition copy_at :: "(ptr \<Rightarrow> cherry_task option) \<Rightarrow> ptr \<Rightarrow> ptr option" where
  "copy_at st a = Option.bind (st a) params_copy"

definition copies_ok :: "(ptr \<Rightarrow> cherry_task option) \<Rightarrow> (ptr \<Rightarrow> bytes option) \<Rightarrow> ptr set \<Rightarrow> bool" where
  "copies_ok st bufs A \<longleftrightarrow> (\<forall>a \<in> A. \<forall>p. copy_at st a = Some p \<longrightarrow>
     p \<in> dom bufs \<and> (\<forall>b \<in> A. copy_at st b = Some p \<longrightarrow> b = a))"

definition alloc_inv :: "'w cherry_thread \<Rightarrow> ptr set \<Rightarrow> bool" where
  "alloc_inv t A \<longleftrightarrow> A \<subseteq> dom (th_store t) \<and> copies_ok (th_store t) (th_bufs t) A \<and>
     (\<forall>a \<in> dom (th_store t) \<union> dom (th_bufs t). a < th_brk t)"

definition thread_inv :: "'w cherry_thread \<Rightarrow> ptr set \<Rightarrow> (task_list \<Rightarrow> ptr list) \<Rightarrow> bool" where
  "thread_inv t A qs \<longleftrightarrow>
     (\<forall>l. lchain next_task (th_store t) (task_head l t) (qs l) \<and> set (qs l) \<subseteq> A) \<and>
     set (qs TASKS) \<inter> set (qs PRIO_TASKS) = {} \<and> alloc_inv t A"

lemma task_head_simps [simp]:
  "task_head l (set_head l p t) = p" "l \<noteq> l' \<Longrightarrow> task_head l (set_head l' p t) = task_head l t"
  by (cases l; cases l'; simp add: task_head_def set_head_def)+

lemma set_head_fields [simp]:
  "th_store (set_head l p t) = th_store t" "th_bufs (set_head l p t) = th_bufs t"
  "th_brk (set_head l p t) = th_brk t" "th_locked (set_head l p t) = th_locked t"
  "th_world (set_head l p t) = th_world t" "th_sem (set_head l p t) = th_sem t"
  "th_state (set_head l p t) = th_state t" "th_under_destroy (set_head l p t) = th_under_destroy t"
  "th_oom (set_head l p t) = th_oom t" "th_junk (set_head l p t) = th_junk t"
  by (cases l; simp add: set_head_def)+

lemma task_head_cong:
  "th_tasks t' = th_tasks t \<Longrightarrow> th_prio_tasks t' = th_prio_tasks t \<Longrightarrow> task_head l t' = task_head l t"
  by (cases l) (simp_all add: task_head_def)

lemma task_list_other: "l \<noteq> l' \<Longrightarrow> set (qs TASKS) \<inter> set (qs PRIO_TASKS) = {} \<Longrightarrow> set (qs l) \<inter> set (qs l') = {}"
  by (cases l; cases l') auto

lemma thread_inv_cong:
  assumes "th_store t' = th_store t" "th_bufs t' = th_bufs t" "th_brk t' = th_brk t"
    "th_tasks t' = th_tasks t" "th_prio_tasks t' = th_prio_tasks t"
  shows "thread_inv t' A qs = thread_inv t A qs"
  using assms task_head_cong [of t' t] by (simp add: thread_inv_def alloc_inv_def)

lemma thread_inv_lock [simp]:
  "thread_inv (t\<lparr>th_locked := x\<rparr>) A qs = thread_inv t A qs"
  "thread_inv (t\<lparr>th_under_destroy := x\<rparr>) A qs = thread_inv t A qs"
  "thread_inv (t\<lparr>th_sem := n\<rparr>) A qs = thread_inv t A qs"
  "thread_inv (t\<lparr>th_world := w\<rparr>) A qs = thread_inv t A qs"
  "thread_inv (t\<lparr>th_state := s\<rparr>) A qs = thread_inv t A qs"
  by (rule thread_inv_cong; simp)+

lemma thread_inv_chain: "thread_inv t A qs \<Longrightarrow> lchain next_task (th_store t) (task_head l t) (qs l)"
  by (simp add: thread_inv_def)

text \<open>Two stores with the same tasks, up to their links.\<close>

definition same_tasks :: "(ptr \<Rightarrow> cherry_task option) \<Rightarrow> (ptr \<Rightarrow> cherry_task option) \<Rightarrow> bool" where
  "same_tasks st st' \<longleftrightarrow>
     (\<forall>a. map_option (\<lambda>k. k\<lparr>next_task := None\<rparr>) (st' a) = map_option (\<lambda>k. k\<lparr>next_task := None\<rparr>) (st a))"

lemma same_tasks_refl [simp]: "same_tasks st st"
  by (simp add: same_tasks_def)

lemma same_tasks_trans: "same_tasks a b \<Longrightarrow> same_tasks b c \<Longrightarrow> same_tasks a c"
  by (simp add: same_tasks_def)

lemma same_tasks_upd: "st a = Some k \<Longrightarrow> same_tasks st (st(a \<mapsto> k\<lparr>next_task := q\<rparr>))"
  by (simp add: same_tasks_def)

lemma same_tasks_at:
  assumes "same_tasks st st'" "st a = Some k"
  obtains q where "st' a = Some (k\<lparr>next_task := q\<rparr>)"
proof -
  from assms have "map_option (\<lambda>k. k\<lparr>next_task := None\<rparr>) (st' a) = Some (k\<lparr>next_task := None\<rparr>)"
    by (auto simp: same_tasks_def)
  then obtain k' where k': "st' a = Some k'" "k'\<lparr>next_task := None\<rparr> = k\<lparr>next_task := None\<rparr>"
    by (cases "st' a") auto
  have "k' = k\<lparr>next_task := next_task k'\<rparr>" using k'(2) by (cases k; cases k') simp
  with k'(1) that show thesis by simp
qed

text \<open>Linking a task changes neither the allocated tasks nor their copies.\<close>

lemma copy_at_upd_next:
  "st a = Some k \<Longrightarrow> copy_at (st(a \<mapsto> k\<lparr>next_task := q\<rparr>)) b = copy_at st b"
  by (simp add: copy_at_def params_copy_def)

lemma thread_inv_relink:
  assumes inv: "thread_inv t A qs" and st: "\<And>b. copy_at (th_store t') b = copy_at (th_store t) b"
    "dom (th_store t') = dom (th_store t)" and same: "th_bufs t' = th_bufs t" "th_brk t' = th_brk t"
    and ch: "\<And>l. lchain next_task (th_store t') (task_head l t') (qs' l)" "\<And>l. set (qs' l) \<subseteq> A"
    and dis: "set (qs' TASKS) \<inter> set (qs' PRIO_TASKS) = {}"
  shows "thread_inv t' A qs'"
proof -
  have "copies_ok (th_store t') (th_bufs t) A = copies_ok (th_store t) (th_bufs t) A"
    by (simp add: copies_ok_def st(1))
  with inv ch dis show ?thesis by (simp add: thread_inv_def alloc_inv_def st(2) same)
qed

section \<open>Sending\<close>

lemma last_task_ok:
  "lchain next_task st (Some a) (as @ [z]) \<Longrightarrow> last_task st a = Some z"
proof (induction as arbitrary: a)
  case Nil
  then show ?case by (subst last_task.simps) (auto split: option.splits)
next
  case (Cons x as)
  then obtain k b where k: "x = a" "st a = Some k" "next_task k = Some b" "lchain next_task st (Some b) (as @ [z])"
    by (cases as) (auto split: option.splits)
  with Cons.IH show ?case by (subst last_task.simps) simp
qed

lemma enqueue_ok:
  assumes inv: "thread_inv t A qs" and a: "a \<in> A" "\<And>l. a \<notin> set (qs l)" and un: "\<not> th_locked t"
    and ok: "\<not> th_under_destroy t \<or> force"
  shows "\<exists>t'. cherry_thread_task_enqueue t a l destroy force = Some (True, t') \<and>
    thread_inv t' A (qs(l := qs l @ [a])) \<and> \<not> th_locked t' \<and> th_sem t' = th_sem t \<and> th_state t' = th_state t \<and>
    th_world t' = th_world t \<and> th_bufs t' = th_bufs t \<and> th_under_destroy t' = (th_under_destroy t \<or> destroy) \<and>
    same_tasks (th_store t) (th_store t')"
proof -
  from inv a obtain k where k: "th_store t a = Some k" by (auto simp: thread_inv_def alloc_inv_def)
  let ?st1 = "(th_store t)(a \<mapsto> k\<lparr>next_task := None\<rparr>)"
  have ch1: "lchain next_task ?st1 (task_head l' t) (qs l')" for l'
    using thread_inv_chain [OF inv] a(2) by simp
  have c1: "copy_at ?st1 b = copy_at (th_store t) b" for b by (rule copy_at_upd_next [of "th_store t" a, OF k])
  have dis: "set ((qs(l := qs l @ [a])) TASKS) \<inter> set ((qs(l := qs l @ [a])) PRIO_TASKS) = {}"
    and sub: "\<And>l'. set ((qs(l := qs l @ [a])) l') \<subseteq> A"
    using inv a by (auto simp: thread_inv_def)
  show ?thesis
  proof (cases "qs l" rule: rev_cases)
    case Nil
    let ?t = "set_head l (Some a) (t\<lparr>th_store := ?st1, th_locked := True\<rparr>)"
    let ?t' = "task_unlock (if destroy then ?t\<lparr>th_under_destroy := True\<rparr> else ?t)"
    have hd: "task_head l t = None" using thread_inv_chain [OF inv, of l] Nil by simp
    then have hd': "task_head l (t\<lparr>th_store := ?st1, th_locked := True\<rparr>) = None"
      by (subst task_head_cong [of _ t]) simp_all
    have "cherry_thread_task_enqueue t a l destroy force = Some (True, ?t')"
      using k un ok hd' by (auto simp: cherry_thread_task_enqueue_def set_task_next_def put_task_def task_lock_def)
    moreover have "lchain next_task (th_store ?t') (task_head l' ?t') ((qs(l := qs l @ [a])) l')" for l'
    proof (cases "l' = l")
      case True
      have "task_head l ?t' = Some a" by (subst task_head_cong [of _ ?t]) (simp_all add: task_unlock_def)
      then show ?thesis using True Nil by (simp add: task_unlock_def)
    next
      case False
      have "task_head l' ?t' = task_head l' ?t" by (rule task_head_cong) (simp_all add: task_unlock_def)
      also have "\<dots> = task_head l' t" using False by (simp add: task_head_cong [of "t\<lparr>th_store := ?st1, th_locked := True\<rparr>" t])
      finally show ?thesis using ch1 [of l'] False by (simp add: task_unlock_def)
    qed
    then have "thread_inv ?t' A (qs(l := qs l @ [a]))"
      by (intro thread_inv_relink [OF inv _ _ _ _ _ sub dis]) (use c1 k in \<open>auto simp: task_unlock_def\<close>)
    ultimately show ?thesis using same_tasks_upd [of "th_store t" a, OF k] by (intro exI [of _ ?t']) (auto simp: task_unlock_def)
  next
    case (snoc zs z)
    from ch1 [of l] snoc have "z \<noteq> a" and "z \<in> dom ?st1" using a(2) [of l] by (auto dest: path_dom)
    then obtain kz where kz: "th_store t z = Some kz" by auto
    let ?st2 = "?st1(z \<mapsto> kz\<lparr>next_task := Some a\<rparr>)"
    let ?t = "t\<lparr>th_locked := True, th_store := ?st2\<rparr>"
    let ?t' = "task_unlock (if destroy then ?t\<lparr>th_under_destroy := True\<rparr> else ?t)"
    from ch1 [of l] snoc obtain h where h: "task_head l t = Some h" by (cases "task_head l t") auto
    have hd: "task_head l (t\<lparr>th_store := ?st1, th_locked := True\<rparr>) = Some h"
      using h by (subst task_head_cong [of _ t]) simp_all
    have lt: "last_task ?st1 h = Some z" using ch1 [of l] snoc h by (intro last_task_ok [of _ _ zs]) simp
    have "cherry_thread_task_enqueue t a l destroy force = Some (True, ?t')"
      using k un ok hd lt kz \<open>z \<noteq> a\<close>
      by (auto simp: cherry_thread_task_enqueue_def set_task_next_def put_task_def task_lock_def)
    moreover have hds: "task_head l' ?t' = task_head l' t" for l'
      by (rule task_head_cong) (simp_all add: task_unlock_def)
    have ch2: "lchain next_task ?st2 (task_head l' t) ((qs(l := qs l @ [a])) l')" for l'
    proof (cases "l' = l")
      case True
      have "lchain next_task ?st2 (task_head l t) ((zs @ [z]) @ [a])"
        by (rule chain_link [of _ ?st1 _ zs z "Some a" "[a]" kz]) (use ch1 [of l] snoc kz \<open>z \<noteq> a\<close> in auto)
      then show ?thesis using True snoc by simp
    next
      case False
      have "z \<notin> set (qs l')" using inv False snoc task_list_other [of l l' qs]
        by (auto simp: thread_inv_def)
      then show ?thesis using ch1 [of l'] False by simp
    qed
    have flds: "th_store ?t' = ?st2" "th_bufs ?t' = th_bufs t" "th_brk ?t' = th_brk t"
      by (simp_all add: task_unlock_def)
    have kz1: "?st1 z = Some kz" using kz \<open>z \<noteq> a\<close> by simp
    from copy_at_upd_next [of ?st1 z, OF kz1] c1 have c2: "copy_at ?st2 b = copy_at (th_store t) b" for b by simp
    have "thread_inv ?t' A (qs(l := qs l @ [a]))"
    proof (rule thread_inv_relink [OF inv _ _ flds(2,3) _ sub dis])
      show "lchain next_task (th_store ?t') (task_head l' ?t') ((qs(l := qs l @ [a])) l')" for l'
        unfolding flds(1) hds by (rule ch2)
    qed (use c2 k kz in \<open>auto simp: flds(1)\<close>)
    moreover have "same_tasks (th_store t) ?st2"
      using same_tasks_trans [OF same_tasks_upd [of "th_store t" a, OF k] same_tasks_upd [of ?st1 z, OF kz1]] .
    ultimately show ?thesis by (intro exI [of _ ?t']) (auto simp: task_unlock_def)
  qed
qed

text \<open>
  A task that was allocated has its fields set and, when parameters of a known size are given, its
  own copy of them. When memory runs out nothing stays allocated.
\<close>

definition valid_params :: "'w cherry_thread \<Rightarrow> ptr option \<Rightarrow> nat \<Rightarrow> bool" where
  "valid_params t params n \<longleftrightarrow>
     (case params of Some src \<Rightarrow> n \<noteq> 0 \<longrightarrow> (\<exists>buf. th_bufs t src = Some buf \<and> n \<le> length buf) | None \<Rightarrow> True)"

definition sent_task :: "'w cherry_thread \<Rightarrow> 'w cherry_thread \<Rightarrow> ptr \<Rightarrow> ptr option \<Rightarrow> ptr option \<Rightarrow> nat \<Rightarrow> nat option \<Rightarrow> bool" where
  "sent_task t t' a context params n f \<longleftrightarrow>
     (\<exists>k. th_store t' a = Some k \<and> t_context k = context \<and> t_thread_task k = f \<and> t_params_size k = n \<and>
       (case params_copy k of
          None \<Rightarrow> t_params k = params \<and> (params = None \<or> n = 0)
        | Some p \<Rightarrow> (\<exists>src buf. params = Some src \<and> th_bufs t src = Some buf \<and> th_bufs t' p = Some (take n buf))))"

lemma alloc_inv_new:
  assumes inv: "alloc_inv t A" and st: "th_store t' = (th_store t)(a \<mapsto> k)" and a: "th_brk t \<le> a" "a < th_brk t'"
    and brk: "th_brk t \<le> th_brk t'"
    and copy: "(params_copy k = None \<and> th_bufs t' = th_bufs t) \<or>
      (\<exists>p d. params_copy k = Some p \<and> th_bufs t' = (th_bufs t)(p \<mapsto> d) \<and> th_brk t \<le> p \<and> p < th_brk t')"
  shows "alloc_inv t' (insert a A)"
proof -
  have lt: "\<And>x. x \<in> dom (th_store t) \<Longrightarrow> x < th_brk t" "\<And>x. x \<in> dom (th_bufs t) \<Longrightarrow> x < th_brk t"
    using inv by (auto simp: alloc_inv_def)
  have "a \<notin> dom (th_store t)" using a(1) lt(1) [of a] by linarith
  then have "a \<notin> A" using inv by (auto simp: alloc_inv_def)
  have old: "copy_at (th_store t') b = copy_at (th_store t) b" if "b \<in> A" for b
    using that \<open>a \<notin> A\<close> by (auto simp: st copy_at_def)
  have oldp: "p \<in> dom (th_bufs t)" if "b \<in> A" "copy_at (th_store t) b = Some p" for b p
    using that inv by (auto simp: alloc_inv_def copies_ok_def)
  have new: "copy_at (th_store t') a = params_copy k" by (simp add: st copy_at_def)
  have "copies_ok (th_store t') (th_bufs t') (insert a A)"
    unfolding copies_ok_def
  proof (intro ballI allI impI)
    fix x p
    assume x: "x \<in> insert a A" "copy_at (th_store t') x = Some p"
    have "p \<in> dom (th_bufs t')" using x old [of x] oldp [of x p] new copy by (cases "x = a") auto
    moreover have "\<forall>b \<in> insert a A. copy_at (th_store t') b = Some p \<longrightarrow> b = x"
    proof (cases "x = a")
      case True
      with x new copy have "th_brk t \<le> p" by auto
      then have "p \<notin> dom (th_bufs t)" using lt(2) [of p] by auto
      with True old oldp show ?thesis by force
    next
      case False
      with x have xA: "x \<in> A" "copy_at (th_store t) x = Some p" using old by auto
      from oldp [OF xA] lt(2) have "p < th_brk t" by blast
      with new copy have "copy_at (th_store t') a \<noteq> Some p" by auto
      moreover have "\<forall>b \<in> A. copy_at (th_store t) b = Some p \<longrightarrow> b = x"
        using inv xA unfolding alloc_inv_def copies_ok_def by blast
      ultimately show ?thesis using old by auto
    qed
    ultimately show "p \<in> dom (th_bufs t') \<and> (\<forall>b \<in> insert a A. copy_at (th_store t') b = Some p \<longrightarrow> b = x)" by blast
  qed
  moreover have "insert a A \<subseteq> dom (th_store t')" using inv by (auto simp: alloc_inv_def st)
  moreover have "x < th_brk t'" if "x \<in> dom (th_store t') \<union> dom (th_bufs t')" for x
  proof -
    from that copy have "x \<in> dom (th_store t) \<or> x \<in> dom (th_bufs t) \<or> x < th_brk t'"
      using a(2) by (auto simp: st split: if_splits)
    with lt [of x] brk show ?thesis by linarith
  qed
  ultimately show ?thesis by (simp add: alloc_inv_def)
qed

lemma alloc_task_cases:
  assumes inv: "thread_inv t A qs" and ps: "valid_params t params n"
  obtains (oom) brk where "cherry_thread_alloc_task t context params n f = Some (None, t\<lparr>th_brk := brk\<rparr>)"
      "th_brk t < brk" "\<exists>i \<ge> th_brk t. th_oom t i"
    | (task) a t' where "cherry_thread_alloc_task t context params n f = Some (Some a, t')"
      "thread_inv t' (insert a A) qs" "a \<notin> dom (th_store t)" "sent_task t t' a context params n f"
      "t' = t\<lparr>th_brk := th_brk t', th_bufs := th_bufs t', th_store := th_store t'\<rparr>"
      "\<forall>b. b \<noteq> a \<longrightarrow> th_store t' b = th_store t b" "th_bufs t \<subseteq>\<^sub>m th_bufs t'"
proof -
  let ?a = "th_brk t"
  let ?k = "\<lparr>t_context = context, t_params = params, t_params_size = n, t_thread_task = f, next_task = th_junk t\<rparr>"
  have lt: "\<And>x. x \<in> dom (th_store t) \<Longrightarrow> x < th_brk t" "\<And>x. x \<in> dom (th_bufs t) \<Longrightarrow> x < th_brk t"
    and al: "alloc_inv t A"
    using inv by (auto simp: thread_inv_def alloc_inv_def)
  have fresh: "?a \<notin> dom (th_store t)" "Suc ?a \<notin> dom (th_bufs t)" using lt by force+
  have nin: "?a \<notin> set (qs l)" for l using fresh(1) path_dom [OF thread_inv_chain [OF inv, of l]] by blast
  show thesis
  proof (cases "th_oom t ?a")
    case True
    then show thesis by (intro oom [of "Suc ?a"]) (auto simp: cherry_thread_alloc_task_def task_qmalloc_def)
  next
    case ok: False
    show thesis
    proof (cases "params = None \<or> n = 0")
      case True
      let ?t = "t\<lparr>th_brk := Suc ?a, th_bufs := th_bufs t, th_store := (th_store t)(?a \<mapsto> ?k)\<rparr>"
      have c: "params_copy ?k = None" using True by (auto simp: params_copy_def)
      have "alloc_inv ?t (insert ?a A)" by (rule alloc_inv_new [OF al, where k = ?k]) (use c in simp_all)
      moreover have "task_head l ?t = task_head l t" for l by (rule task_head_cong) simp_all
      ultimately have "thread_inv ?t (insert ?a A) qs"
        using inv nin by (auto simp: thread_inv_def)
      moreover have "cherry_thread_alloc_task t context params n f = Some (Some ?a, ?t)"
        using ok True by (auto simp: cherry_thread_alloc_task_def task_qmalloc_def put_task_def Let_def split: option.splits)
      moreover have "sent_task t ?t ?a context params n f" using True c by (auto simp: sent_task_def)
      ultimately show thesis by (intro task [of ?a ?t]) (use fresh in auto)
    next
      case False
      then obtain src buf where src: "params = Some src" "n \<noteq> 0" "th_bufs t src = Some buf" "n \<le> length buf"
        using ps by (auto simp: valid_params_def)
      show thesis
      proof (cases "th_oom t (Suc ?a)")
        case True
        with ok src show thesis
          by (intro oom [of "Suc (Suc ?a)"]) (auto simp: cherry_thread_alloc_task_def task_qmalloc_def intro!: exI [of _ "Suc ?a"])
      next
        case ok2: False
        let ?k2 = "?k\<lparr>t_params := Some (Suc ?a)\<rparr>"
        let ?t = "t\<lparr>th_brk := Suc (Suc ?a), th_bufs := (th_bufs t)(Suc ?a \<mapsto> take n buf), th_store := (th_store t)(?a \<mapsto> ?k2)\<rparr>"
        have c: "params_copy ?k2 = Some (Suc ?a)" using src by (simp add: params_copy_def)
        have "alloc_inv ?t (insert ?a A)" by (rule alloc_inv_new [OF al, where k = ?k2]) (use c in auto)
        moreover have "task_head l ?t = task_head l t" for l by (rule task_head_cong) simp_all
        ultimately have "thread_inv ?t (insert ?a A) qs"
          using inv nin by (auto simp: thread_inv_def)
        moreover have "cherry_thread_alloc_task t context params n f = Some (Some ?a, ?t)"
          using ok ok2 src by (simp add: cherry_thread_alloc_task_def task_qmalloc_def put_task_def Let_def read_buf_def)
        moreover have "sent_task t ?t ?a context params n f" using src c by (simp add: sent_task_def)
        ultimately show thesis by (intro task [of ?a ?t]) (use fresh in \<open>auto simp: map_le_def\<close>)
      qed
    qed
  qed
qed

lemma sent_task_relink:
  assumes "sent_task t t1 a context params n f" "same_tasks (th_store t1) (th_store t2)" "th_bufs t2 = th_bufs t1"
  shows "sent_task t t2 a context params n f"
proof -
  from assms(1) obtain k where k: "th_store t1 a = Some k" "t_context k = context" "t_thread_task k = f"
    "t_params_size k = n" "case params_copy k of
          None \<Rightarrow> t_params k = params \<and> (params = None \<or> n = 0)
        | Some p \<Rightarrow> (\<exists>src buf. params = Some src \<and> th_bufs t src = Some buf \<and> th_bufs t1 p = Some (take n buf))"
    by (auto simp: sent_task_def)
  obtain q where q: "th_store t2 a = Some (k\<lparr>next_task := q\<rparr>)" using same_tasks_at [OF assms(2) k(1)] .
  have "params_copy (k\<lparr>next_task := q\<rparr>) = params_copy k" by (simp add: params_copy_def)
  with k q assms(3) show ?thesis by (auto simp: sent_task_def split: option.splits)
qed

text \<open>
  Sending a task to a running thread appends it to its list and wakes the thread; when memory runs
  out nothing is queued and nothing stays allocated. A task sent to a thread under destruction is
  refused unless it is forced, and stays allocated outside every list.
\<close>

lemma send_running:
  assumes inv: "thread_inv t A qs" and ps: "valid_params t params n" and un: "\<not> th_locked t"
    and st: "th_state t = CHERRY_THREAD_RUN" and ok: "\<not> th_under_destroy t \<or> force"
  shows "\<exists>err t'. cherry_thread_task_list_send t l (Some c) params n (Some f) destroy force = Some (err, t') \<and>
    \<not> th_locked t' \<and> th_world t' = th_world t \<and> th_state t' = th_state t \<and>
    (err = CHERRY_ERR_INTERNAL \<and> thread_inv t' A qs \<and> th_store t' = th_store t \<and> th_bufs t' = th_bufs t \<and>
       th_sem t' = th_sem t \<and> (\<exists>i \<ge> th_brk t. th_oom t i) \<or>
     err = CHERRY_ERR_NONE \<and> th_sem t' = min (Suc (th_sem t)) SEM_MAX \<and>
       th_under_destroy t' = (th_under_destroy t \<or> destroy) \<and>
       (\<exists>a. a \<notin> dom (th_store t) \<and> sent_task t t' a (Some c) params n (Some f) \<and>
          thread_inv t' (insert a A) (qs(l := qs l @ [a])) \<and>
          same_tasks (th_store t) ((th_store t')(a := None))))"
proof (rule alloc_task_cases [OF inv ps, of "Some c" "Some f"])
  fix brk
  assume a: "cherry_thread_alloc_task t (Some c) params n (Some f) = Some (None, t\<lparr>th_brk := brk\<rparr>)"
    "th_brk t < brk" and oom: "\<exists>i \<ge> th_brk t. th_oom t i"
  have "\<And>x. x \<in> dom (th_store t) \<union> dom (th_bufs t) \<Longrightarrow> x < th_brk t"
    using inv by (simp add: thread_inv_def alloc_inv_def)
  then have "thread_inv (t\<lparr>th_brk := brk\<rparr>) A qs"
    using inv a(2) task_head_cong [of "t\<lparr>th_brk := brk\<rparr>" t]
    by (auto simp: thread_inv_def alloc_inv_def intro: less_trans)
  with a oom st un show ?thesis by (simp add: cherry_thread_task_list_send_def)
next
  fix a t'
  assume al: "cherry_thread_alloc_task t (Some c) params n (Some f) = Some (Some a, t')"
    "thread_inv t' (insert a A) qs" "a \<notin> dom (th_store t)" "sent_task t t' a (Some c) params n (Some f)"
    "t' = t\<lparr>th_brk := th_brk t', th_bufs := th_bufs t', th_store := th_store t'\<rparr>"
    "\<forall>b. b \<noteq> a \<longrightarrow> th_store t' b = th_store t b" "th_bufs t \<subseteq>\<^sub>m th_bufs t'"
  have same: "th_locked t' = th_locked t" "th_under_destroy t' = th_under_destroy t" "th_state t' = th_state t"
    "th_world t' = th_world t" "th_sem t' = th_sem t"
    by (subst al(5), simp)+
  have nin: "a \<notin> set (qs l)" for l
    using path_dom [OF thread_inv_chain [OF inv, of l]] al(3) by blast
  have un': "\<not> th_locked t'" and ok': "\<not> th_under_destroy t' \<or> force" using un ok same by simp_all
  from enqueue_ok [OF al(2) insertI1 nin un' ok', of l destroy] obtain t2 where
    q: "cherry_thread_task_enqueue t' a l destroy force = Some (True, t2)"
    "thread_inv t2 (insert a A) (qs(l := qs l @ [a]))" "\<not> th_locked t2" "th_sem t2 = th_sem t'" "th_state t2 = th_state t'"
    "th_world t2 = th_world t'" "th_bufs t2 = th_bufs t'" "th_under_destroy t2 = (th_under_destroy t' \<or> destroy)"
    "same_tasks (th_store t') (th_store t2)" by blast
  let ?t = "cherry_thread_wakeup t2"
  have w: "th_store ?t = th_store t2" "th_bufs ?t = th_bufs t2" "th_sem ?t = min (Suc (th_sem t2)) SEM_MAX"
    "th_locked ?t = th_locked t2" "th_world ?t = th_world t2" "th_state ?t = th_state t2"
    "th_under_destroy ?t = th_under_destroy t2"
    by (simp_all add: cherry_thread_wakeup_def)
  have "cherry_thread_task_list_send t l (Some c) params n (Some f) destroy force = Some (CHERRY_ERR_NONE, ?t)"
    using st al(1) q(1) by (simp add: cherry_thread_task_list_send_def)
  moreover have "sent_task t ?t a (Some c) params n (Some f)"
    by (rule sent_task_relink [OF al(4)]) (use q(7,9) in \<open>simp_all add: w\<close>)
  moreover have "thread_inv ?t (insert a A) (qs(l := qs l @ [a]))"
    using q(2) by (simp add: cherry_thread_wakeup_def)
  moreover have "same_tasks (th_store t) ((th_store ?t)(a := None))"
    using q(9) al(3,6) by (auto simp: same_tasks_def w domIff)
  ultimately show ?thesis using q w same st al(3) by (intro exI [of _ CHERRY_ERR_NONE] exI [of _ ?t]) auto
qed

section \<open>Taking and freeing tasks\<close>

lemma dequeue_ok:
  assumes inv: "thread_inv t A qs" and un: "\<not> th_locked t"
  shows "qs l = [] \<Longrightarrow> cherry_thread_dequeue_first_task t l = Some (None, t)"
    and "qs l = a # as \<Longrightarrow> \<exists>q. cherry_thread_dequeue_first_task t l = Some (Some a, set_head l q t) \<and>
      thread_inv (set_head l q t) A (qs(l := as))"
proof -
  have lk: "task_lock t = Some (t\<lparr>th_locked := True\<rparr>)" using un by (simp add: task_lock_def)
  have hd: "task_head l (t\<lparr>th_locked := True\<rparr>) = task_head l t" by (rule task_head_cong) simp_all
  have "t\<lparr>th_locked := False\<rparr> = t" using un by (cases t) simp
  with lk hd thread_inv_chain [OF inv, of l]
  show "cherry_thread_dequeue_first_task t l = Some (None, t)" if "qs l = []"
    using that by (simp add: cherry_thread_dequeue_first_task_def task_unlock_def)
  assume as: "qs l = a # as"
  then obtain k where k: "task_head l t = Some a" "th_store t a = Some k" "lchain next_task (th_store t) (next_task k) as"
    using thread_inv_chain [OF inv, of l] by (auto split: option.splits)
  have "task_unlock (set_head l (next_task k) (t\<lparr>th_locked := True\<rparr>)) = set_head l (next_task k) t"
    using un by (cases l; cases t) (simp_all add: task_unlock_def set_head_def)
  then have "cherry_thread_dequeue_first_task t l = Some (Some a, set_head l (next_task k) t)"
    using lk hd k by (simp add: cherry_thread_dequeue_first_task_def)
  moreover have "thread_inv (set_head l (next_task k) t) A (qs(l := as))"
  proof (rule thread_inv_relink [OF inv])
    have "set (qs l) \<subseteq> A" using inv by (simp add: thread_inv_def)
    then show "set ((qs(l := as)) l') \<subseteq> A" for l' using inv as by (auto simp: thread_inv_def)
    show "lchain next_task (th_store (set_head l (next_task k) t)) (task_head l' (set_head l (next_task k) t)) ((qs(l := as)) l')" for l'
      using thread_inv_chain [OF inv, of l'] k(3) by (cases "l' = l") simp_all
    show "set ((qs(l := as)) TASKS) \<inter> set ((qs(l := as)) PRIO_TASKS) = {}"
      using inv as by (auto simp: thread_inv_def)
  qed simp_all
  ultimately show "\<exists>q. cherry_thread_dequeue_first_task t l = Some (Some a, set_head l q t) \<and>
      thread_inv (set_head l q t) A (qs(l := as))" by blast
qed

text \<open>Freeing a task frees its copy of the parameters.\<close>

definition freed :: "'w cherry_thread \<Rightarrow> ptr set \<Rightarrow> 'w cherry_thread" where
  "freed t F = t\<lparr>th_bufs := th_bufs t |` (- {p. \<exists>a \<in> F. copy_at (th_store t) a = Some p}),
     th_store := th_store t |` (- F)\<rparr>"

lemma free_task_ok:
  assumes inv: "alloc_inv t A" and a: "a \<in> A"
  shows "cherry_thread_free_task t a = Some (freed t {a})" "alloc_inv (freed t {a}) (A - {a})"
proof -
  from inv a obtain k where k: "th_store t a = Some k" by (auto simp: alloc_inv_def)
  then have c: "copy_at (th_store t) a = params_copy k" by (simp add: copy_at_def)
  have dom: "\<And>p. params_copy k = Some p \<Longrightarrow> th_bufs t p \<noteq> None"
    using inv a c by (auto simp: alloc_inv_def copies_ok_def)
  have st: "(th_store t)(a := None) = th_store t |` (- {a})" by (auto simp: restrict_map_def fun_eq_iff)
  have bf: "(th_bufs t)(p := None) = th_bufs t |` (- {p})" for p by (auto simp: restrict_map_def fun_eq_iff)
  have none: "th_bufs t |` (- {}) = th_bufs t" by (simp add: restrict_map_def)
  show "cherry_thread_free_task t a = Some (freed t {a})"
    using k c dom st bf none
    by (cases "t_params k"; cases "t_params_size k = 0") (auto simp: cherry_thread_free_task_def freed_def params_copy_def)
  have other: "copy_at (th_store (freed t {a})) b = copy_at (th_store t) b" if "b \<noteq> a" for b
    using that by (simp add: copy_at_def freed_def)
  have "copies_ok (th_store (freed t {a})) (th_bufs (freed t {a})) (A - {a})"
    unfolding copies_ok_def
  proof (intro ballI allI impI)
    fix x p assume x: "x \<in> A - {a}" "copy_at (th_store (freed t {a})) x = Some p"
    then have "copy_at (th_store t) x = Some p" using other by simp
    with inv x a have p: "p \<in> dom (th_bufs t)" "\<forall>b \<in> A. copy_at (th_store t) b = Some p \<longrightarrow> b = x"
      unfolding alloc_inv_def copies_ok_def by blast+
    with a x have "copy_at (th_store t) a \<noteq> Some p" by blast
    with p other x show "p \<in> dom (th_bufs (freed t {a})) \<and>
        (\<forall>b \<in> A - {a}. copy_at (th_store (freed t {a})) b = Some p \<longrightarrow> b = x)"
      by (auto simp: freed_def)
  qed
  with inv show "alloc_inv (freed t {a}) (A - {a})"
    by (auto simp: alloc_inv_def freed_def)
qed

lemma freed_fields [simp]:
  "task_head l (freed t F) = task_head l t" "th_locked (freed t F) = th_locked t" "th_state (freed t F) = th_state t"
  "th_world (freed t F) = th_world t" "th_sem (freed t F) = th_sem t" "th_brk (freed t F) = th_brk t"
  "th_store (freed t F) = th_store t |` (- F)"
  by (cases l; simp add: freed_def task_head_def)+

lemma free_detached:
  assumes inv: "thread_inv t A qs" and a: "a \<in> A" "\<And>l. a \<notin> set (qs l)"
  shows "cherry_thread_free_task t a = Some (freed t {a})" "thread_inv (freed t {a}) (A - {a}) qs"
proof -
  from inv have al: "alloc_inv t A" by (simp add: thread_inv_def)
  show "cherry_thread_free_task t a = Some (freed t {a})" by (rule free_task_ok(1) [OF al a(1)])
  have "th_store t |` (- {a}) = (th_store t)(a := None)" by (auto simp: restrict_map_def fun_eq_iff)
  then have "lchain next_task (th_store (freed t {a})) (task_head l (freed t {a})) (qs l)" for l
    using thread_inv_chain [OF inv, of l] a(2) by simp
  with free_task_ok(2) [OF al a(1)] inv a(2) show "thread_inv (freed t {a}) (A - {a}) qs"
    by (auto simp: thread_inv_def)
qed

end
