(* ===== verification/Cherry_Run.thy ===== *)
theory Cherry_Run
  imports Cherry_Thread
begin

text \<open>
  What the worker thread does with its lists of tasks: it runs all of them in order, the priority
  tasks first, and frees them; removing the tasks of a context keeps the others in order; stopping
  aborts all of them. The lists are shown to be queues in the sense of the interface \<open>fifo\<close>.
\<close>

section \<open>Running the tasks\<close>

text \<open>
  A task is quiet when it changes nothing but the world behind the thread: what it does is then a
  function of its context and its parameters.
\<close>

type_synonym 'w effect = "nat \<Rightarrow> ptr option \<Rightarrow> ptr option \<Rightarrow> bool \<Rightarrow> 'w \<Rightarrow> 'w"

definition quiet :: "'w task_fn \<Rightarrow> 'w effect \<Rightarrow> bool" where
  "quiet run eff \<longleftrightarrow> (\<forall>f t c p abort. run f t c p abort = Some (t\<lparr>th_world := eff f c p abort (th_world t)\<rparr>))"

definition task_effect :: "'w effect \<Rightarrow> bool \<Rightarrow> (ptr \<Rightarrow> cherry_task option) \<Rightarrow> ptr \<Rightarrow> 'w \<Rightarrow> 'w" where
  "task_effect eff abort st a w =
     (case st a of None \<Rightarrow> w | Some k \<Rightarrow>
        (case t_thread_task k of None \<Rightarrow> w | Some f \<Rightarrow> eff f (t_context k) (t_params k) abort w))"

definition callable :: "(ptr \<Rightarrow> cherry_task option) \<Rightarrow> ptr \<Rightarrow> bool" where
  "callable st a \<longleftrightarrow> (\<exists>k f. st a = Some k \<and> t_thread_task k = Some f)"

definition queued :: "(task_list \<Rightarrow> ptr list) \<Rightarrow> ptr list" where
  "queued qs = qs PRIO_TASKS @ qs TASKS"

lemma call_quiet:
  assumes "quiet run eff" "callable (th_store t) a"
  shows "call_task run t a abort = Some (t\<lparr>th_world := task_effect eff abort (th_store t) a (th_world t)\<rparr>)"
  using assms by (auto simp: call_task_def callable_def task_effect_def quiet_def)

lemma queued_facts:
  assumes "thread_inv t A qs"
  shows "distinct (queued qs)" "set (queued qs) \<subseteq> A" "a \<in> set (qs l) \<Longrightarrow> a \<in> set (queued qs)"
  using assms chain_distinct [OF thread_inv_chain [OF assms, of TASKS]]
    chain_distinct [OF thread_inv_chain [OF assms, of PRIO_TASKS]]
  by (cases l; auto simp: thread_inv_def queued_def)+

lemma freed_freed:
  assumes "a \<notin> F" "th_store t1 = th_store t |` (- {a})" "th_bufs t1 = th_bufs (freed t {a})"
  shows "th_store (freed t1 F) = th_store (freed t (insert a F))"
    "th_bufs (freed t1 F) = th_bufs (freed t (insert a F))"
proof -
  have "copy_at (th_store t1) b = copy_at (th_store t) b" if "b \<in> F" for b
    using that assms(1,2) by (auto simp: copy_at_def restrict_map_def)
  then have "{p. \<exists>b \<in> F. copy_at (th_store t1) b = Some p} = {p. \<exists>b \<in> F. copy_at (th_store t) b = Some p}" by auto
  then have "th_bufs (freed t1 F) = th_bufs (freed t {a}) |` (- {p. \<exists>b \<in> F. copy_at (th_store t) b = Some p})"
    by (simp add: freed_def assms(3))
  also have "\<dots> = th_bufs t |` (- {p. \<exists>b \<in> {a}. copy_at (th_store t) b = Some p} \<inter>
      - {p. \<exists>b \<in> F. copy_at (th_store t) b = Some p})"
    by (simp add: freed_def)
  also have "(- {p. \<exists>b \<in> {a}. copy_at (th_store t) b = Some p} \<inter> - {p. \<exists>b \<in> F. copy_at (th_store t) b = Some p}) =
      - {p. \<exists>b \<in> insert a F. copy_at (th_store t) b = Some p}" by auto
  finally show "th_bufs (freed t1 F) = th_bufs (freed t (insert a F))" by (simp add: freed_def)
  have "- {a} \<inter> - F = - insert a F" by auto
  then show "th_store (freed t1 F) = th_store (freed t (insert a F))" by (simp add: assms(2))
qed

lemma freed_none [simp]: "freed t {} = t"
  by (simp add: freed_def restrict_map_def)

text \<open>Taking a task from a list, calling it and freeing it.\<close>

lemma run_first:
  assumes q: "quiet run eff" and inv: "thread_inv t A qs" and un: "\<not> th_locked t"
    and call: "\<forall>a \<in> set (queued qs). callable (th_store t) a" and l: "qs l = a # as"
  obtains t1 t2 t3 where
    "cherry_thread_dequeue_first_task t l = Some (Some a, t1)" "call_task run t1 a False = Some t2"
    "cherry_thread_free_task t2 a = Some t3" "thread_inv t3 (A - {a}) (qs(l := as))"
    "\<not> th_locked t3" "th_state t3 = th_state t" "th_world t3 = task_effect eff False (th_store t) a (th_world t)"
    "th_store t3 = th_store t |` (- {a})" "th_bufs t3 = th_bufs (freed t {a})" "th_sem t3 = th_sem t"
    "a \<notin> set (queued (qs(l := as)))"
proof -
  from dequeue_ok(2) [OF inv un l] obtain p where
    d: "cherry_thread_dequeue_first_task t l = Some (Some a, set_head l p t)"
    "thread_inv (set_head l p t) A (qs(l := as))" by blast
  let ?t1 = "set_head l p t"
  have "a \<in> set (qs l)" using l by simp
  then have a: "a \<in> set (queued qs)" "a \<in> A" using queued_facts(2,3) [OF inv] by blast+
  then have c: "callable (th_store ?t1) a" using call by simp
  let ?t2 = "?t1\<lparr>th_world := task_effect eff False (th_store ?t1) a (th_world ?t1)\<rparr>"
  have nin: "a \<notin> set ((qs(l := as)) l')" for l'
  proof (cases "l' = l")
    case True
    have "distinct (a # as)" using chain_distinct [OF thread_inv_chain [OF inv, of l]] l by simp
    with True show ?thesis by simp
  next
    case False
    with inv l show ?thesis using task_list_other [of l l' qs] by (auto simp: thread_inv_def)
  qed
  have inv2: "thread_inv ?t2 A (qs(l := as))" using d(2) by simp
  note f = free_detached [OF inv2 a(2) nin]
  show thesis
  proof (rule that [OF d(1) call_quiet [OF q c] f])
    show "a \<notin> set (queued (qs(l := as)))" using nin [of TASKS] nin [of PRIO_TASKS] by (simp add: queued_def)
    show "th_bufs (freed ?t2 {a}) = th_bufs (freed t {a})" by (simp add: freed_def)
  qed (use un in simp_all)
qed

lemma run_tasks_ok:
  assumes "quiet run eff" "thread_inv t A qs" "\<not> th_locked t" "th_state t = CHERRY_THREAD_RUN"
    "\<forall>a \<in> set (queued qs). callable (th_store t) a"
  shows "\<exists>t'. run_tasks run t = Some (0, t') \<and> thread_inv t' (A - set (queued qs)) (\<lambda>_. []) \<and>
    th_world t' = fold (task_effect eff False (th_store t)) (queued qs) (th_world t) \<and>
    th_store t' = th_store (freed t (set (queued qs))) \<and> th_bufs t' = th_bufs (freed t (set (queued qs))) \<and>
    \<not> th_locked t' \<and> th_state t' = CHERRY_THREAD_RUN \<and> th_sem t' = th_sem t"
  using assms
proof (induction "length (queued qs)" arbitrary: t A qs rule: less_induct)
  case less
  show ?case
  proof (cases "qs PRIO_TASKS = [] \<and> qs TASKS = []")
    case True
    then have e: "qs = (\<lambda>_. [])" "queued qs = []" by (auto simp: queued_def fun_eq_iff) (metis task_list.exhaust)
    have "run_tasks run t = Some (0, t)"
      using True dequeue_ok(1) [OF less.prems(2,3)] less.prems(4) by (subst run_tasks.simps) simp
    with less.prems e show ?thesis by simp
  next
    case False
    define l where "l = (if qs PRIO_TASKS = [] then TASKS else PRIO_TASKS)"
    obtain a as where l: "qs l = a # as" using False by (cases "qs l") (auto simp: l_def split: if_splits)
    have qd: "queued qs = a # queued (qs(l := as))" using l by (auto simp: queued_def l_def split: if_splits)
    obtain t1 t2 t3 where r:
      "cherry_thread_dequeue_first_task t l = Some (Some a, t1)" "call_task run t1 a False = Some t2"
      "cherry_thread_free_task t2 a = Some t3" "thread_inv t3 (A - {a}) (qs(l := as))"
      "\<not> th_locked t3" "th_state t3 = th_state t" "th_world t3 = task_effect eff False (th_store t) a (th_world t)"
      "th_store t3 = th_store t |` (- {a})" "th_bufs t3 = th_bufs (freed t {a})" "th_sem t3 = th_sem t"
      "a \<notin> set (queued (qs(l := as)))"
      by (rule run_first [OF less.prems(1-3,5) l])
    have step: "run_tasks run t = run_tasks run t3"
      using r(1-3) less.prems(4) dequeue_ok(1) [OF less.prems(2,3), of PRIO_TASKS]
      by (subst run_tasks.simps) (auto simp: l_def split: if_splits)
    have "th_store t3 b = th_store t b" if "b \<in> set (queued (qs(l := as)))" for b
      using that r(8,11) by (auto simp: restrict_map_def)
    then have eq: "callable (th_store t3) b = callable (th_store t) b"
      "task_effect eff False (th_store t3) b = task_effect eff False (th_store t) b"
      if "b \<in> set (queued (qs(l := as)))" for b
      using that by (auto simp: callable_def task_effect_def fun_eq_iff)
    have p: "th_state t3 = CHERRY_THREAD_RUN" "\<forall>b \<in> set (queued (qs(l := as))). callable (th_store t3) b"
      using r(6) less.prems(4,5) eq qd by auto
    have len: "length (queued (qs(l := as))) < length (queued qs)" using qd by simp
    from less.hyps [OF len less.prems(1) r(4,5) p] obtain t' where
      t': "run_tasks run t3 = Some (0, t')" "thread_inv t' (A - {a} - set (queued (qs(l := as)))) (\<lambda>_. [])"
      "th_world t' = fold (task_effect eff False (th_store t3)) (queued (qs(l := as))) (th_world t3)"
      "th_store t' = th_store (freed t3 (set (queued (qs(l := as)))))"
      "th_bufs t' = th_bufs (freed t3 (set (queued (qs(l := as)))))"
      "\<not> th_locked t'" "th_state t' = CHERRY_THREAD_RUN" "th_sem t' = th_sem t3" by blast
    note ff = freed_freed [OF r(11,8,9)]
    have "A - {a} - set (queued (qs(l := as))) = A - set (queued qs)" using qd by auto
    moreover have "th_world t' = fold (task_effect eff False (th_store t)) (queued qs) (th_world t)"
      using t'(3) r(7) qd eq by (simp cong: fold_cong)
    ultimately show ?thesis
      using t' step r(10) ff by (intro exI [of _ t']) (simp add: qd)
  qed
qed

lemma run_one_ok:
  assumes "quiet run eff" "thread_inv t A qs" "\<not> th_locked t" "th_state t = CHERRY_THREAD_RUN"
    "\<forall>a \<in> set (queued qs). callable (th_store t) a" "0 < th_sem t"
  shows "\<exists>t'. cherry_thread_run_one run t = Some (0, t') \<and> thread_inv t' (A - set (queued qs)) (\<lambda>_. []) \<and>
    th_world t' = fold (task_effect eff False (th_store t)) (queued qs) (th_world t) \<and>
    th_store t' = th_store (freed t (set (queued qs))) \<and> th_bufs t' = th_bufs (freed t (set (queued qs))) \<and>
    \<not> th_locked t' \<and> th_sem t' = th_sem t - 1"
proof -
  let ?t = "t\<lparr>th_sem := th_sem t - 1\<rparr>"
  have "thread_inv ?t A qs" "\<not> th_locked ?t" "th_state ?t = CHERRY_THREAD_RUN"
    "\<forall>a \<in> set (queued qs). callable (th_store ?t) a"
    using assms by simp_all
  from run_tasks_ok [OF assms(1) this] obtain t' where
    "run_tasks run ?t = Some (0, t')" "thread_inv t' (A - set (queued qs)) (\<lambda>_. [])"
    "th_world t' = fold (task_effect eff False (th_store ?t)) (queued qs) (th_world ?t)"
    "th_store t' = th_store (freed ?t (set (queued qs)))" "th_bufs t' = th_bufs (freed ?t (set (queued qs)))"
    "\<not> th_locked t'" "th_sem t' = th_sem ?t" by blast
  with assms(6) show ?thesis
    by (intro exI [of _ t']) (simp add: cherry_thread_run_one_def sem_take_def freed_def)
qed

section \<open>Removing the tasks of a context\<close>

definition of_context :: "(ptr \<Rightarrow> cherry_task option) \<Rightarrow> ptr option \<Rightarrow> ptr \<Rightarrow> bool" where
  "of_context st c a \<longleftrightarrow> (\<exists>k. st a = Some k \<and> t_context k = c)"

text \<open>
  The list rebuilt so far: \<open>kept\<close> from the head to \<open>task_out\<close>, whose link is not yet valid.
\<close>

definition out_path :: "'w cherry_thread \<Rightarrow> task_list \<Rightarrow> ptr list \<Rightarrow> ptr option \<Rightarrow> bool" where
  "out_path t l kept out \<longleftrightarrow>
     (if kept = [] then out = None \<and> task_head l t = None
      else out = Some (last kept) \<and> lpath next_task (th_store t) (task_head l t) (butlast kept) out)"

lemma same_tasks_copy: "same_tasks st st' \<Longrightarrow> copy_at st' = copy_at st"
proof
  fix a assume s: "same_tasks st st'"
  show "copy_at st' a = copy_at st a"
  proof (cases "st a")
    case None
    with s have "st' a = None" by (auto simp: same_tasks_def dest: spec [of _ a])
    with None show ?thesis by (simp add: copy_at_def)
  next
    case (Some k)
    from same_tasks_at [OF s this] obtain q where "st' a = Some (k\<lparr>next_task := q\<rparr>)" .
    with Some show ?thesis by (simp add: copy_at_def params_copy_def)
  qed
qed

lemma same_tasks_context: "same_tasks st st' \<Longrightarrow> of_context st' c = of_context st c"
proof
  fix a assume s: "same_tasks st st'"
  show "of_context st' c a = of_context st c a"
  proof (cases "st a")
    case None
    with s have "st' a = None" by (auto simp: same_tasks_def dest: spec [of _ a])
    with None show ?thesis by (simp add: of_context_def)
  next
    case (Some k)
    from same_tasks_at [OF s this] obtain q where "st' a = Some (k\<lparr>next_task := q\<rparr>)" .
    with Some show ?thesis by (simp add: of_context_def)
  qed
qed

lemma same_tasks_dom: "same_tasks st st' \<Longrightarrow> dom st' = dom st"
proof -
  assume s: "same_tasks st st'"
  have "st' a = None \<longleftrightarrow> st a = None" for a using s by (auto simp: same_tasks_def dest: spec [of _ a])
  then show ?thesis unfolding dom_def by simp
qed

lemma same_tasks_restrict: "same_tasks st st' \<Longrightarrow> same_tasks (st |` X) (st' |` X)"
  by (auto simp: same_tasks_def restrict_map_def)

lemma alloc_inv_relink:
  assumes "alloc_inv t A" "same_tasks (th_store t) (th_store t')" "th_bufs t' = th_bufs t" "th_brk t' = th_brk t"
  shows "alloc_inv t' A"
proof -
  have "copies_ok (th_store t') (th_bufs t') A = copies_ok (th_store t) (th_bufs t) A"
    by (simp add: copies_ok_def same_tasks_copy [OF assms(2)] assms(3))
  with assms same_tasks_dom [OF assms(2)] show ?thesis by (simp add: alloc_inv_def)
qed

text \<open>What the removal of the tasks \<open>F\<close> leaves: the others, up to their links.\<close>

definition removed :: "'w cherry_thread \<Rightarrow> ptr set \<Rightarrow> 'w cherry_thread \<Rightarrow> bool" where
  "removed t F t' \<longleftrightarrow> same_tasks (th_store t |` (- F)) (th_store t') \<and> th_bufs t' = th_bufs (freed t F) \<and>
     th_brk t' = th_brk t \<and> th_world t' = th_world t \<and> th_locked t' = th_locked t \<and> th_state t' = th_state t"

lemma removed_trans:
  assumes "removed t F t1" "removed t1 G t2" "F \<inter> G = {}"
  shows "removed t (F \<union> G) t2"
proof -
  have c1: "copy_at (th_store t1) = copy_at (th_store t |` (- F))"
    using assms(1) by (auto simp: removed_def intro: same_tasks_copy)
  have c: "copy_at (th_store t1) b = copy_at (th_store t) b" if "b \<in> G" for b
    using that assms(3) unfolding c1 by (auto simp: copy_at_def restrict_map_def)
  have s1: "same_tasks (th_store t |` (- F)) (th_store t1)" and s2: "same_tasks (th_store t1 |` (- G)) (th_store t2)"
    using assms(1,2) by (simp_all add: removed_def)
  have "th_store t |` (- F) |` (- G) = th_store t |` (- (F \<union> G))" by (simp add: Compl_Un)
  with same_tasks_trans [OF same_tasks_restrict [OF s1, of "- G"] s2]
  have "same_tasks (th_store t |` (- (F \<union> G))) (th_store t2)" by simp
  moreover have "th_bufs t2 = th_bufs (freed t (F \<union> G))"
  proof -
    have "{p. \<exists>b \<in> G. copy_at (th_store t1) b = Some p} = {p. \<exists>b \<in> G. copy_at (th_store t) b = Some p}"
      using c by auto
    then have "th_bufs t2 = th_bufs (freed t F) |` (- {p. \<exists>b \<in> G. copy_at (th_store t) b = Some p})"
      using assms(1,2) by (simp add: removed_def freed_def)
    also have "\<dots> = th_bufs t |` (- {p. \<exists>b \<in> F. copy_at (th_store t) b = Some p} \<inter>
        - {p. \<exists>b \<in> G. copy_at (th_store t) b = Some p})" by (simp add: freed_def)
    also have "(- {p. \<exists>b \<in> F. copy_at (th_store t) b = Some p} \<inter> - {p. \<exists>b \<in> G. copy_at (th_store t) b = Some p}) =
        - {p. \<exists>b \<in> F \<union> G. copy_at (th_store t) b = Some p}" by auto
    finally show ?thesis by (simp add: freed_def)
  qed
  ultimately show ?thesis using assms(1,2) by (simp add: removed_def)
qed

lemma removed_freed: "removed t F (freed t F)"
  by (simp add: removed_def)

lemma removed_link:
  assumes "same_tasks (th_store t) (th_store t')" "th_bufs t' = th_bufs t" "th_brk t' = th_brk t"
    "th_world t' = th_world t" "th_locked t' = th_locked t" "th_state t' = th_state t"
  shows "removed t {} t'"
  using assms by (simp add: removed_def restrict_map_def)

text \<open>One round of the loop: the first task of the rest is freed or kept.\<close>

lemma pending_keep:
  assumes al: "alloc_inv t A" and op: "out_path t l kept out" and a: "th_store t a = Some k" "a \<notin> set kept"
    and kept: "set kept \<subseteq> A" "distinct kept"
  obtains t' where "(case out of Some z \<Rightarrow> set_task_next t z (Some a) | None \<Rightarrow> Some (set_head l (Some a) t)) = Some t'"
    "alloc_inv t' A" "out_path t' l (kept @ [a]) (Some a)" "removed t {} t'"
    "\<forall>x. x \<notin> set kept \<longrightarrow> th_store t' x = th_store t x" "\<forall>l'. l' \<noteq> l \<longrightarrow> task_head l' t' = task_head l' t"
proof (cases "kept = []")
  case True
  let ?t = "set_head l (Some a) t"
  show thesis
  proof (rule that [of ?t])
    show "alloc_inv ?t A" by (rule alloc_inv_relink [OF al]) simp_all
    show "removed t {} ?t" by (rule removed_link) simp_all
  qed (use op True in \<open>simp_all add: out_path_def\<close>)
next
  case False
  let ?z = "last kept"
  from op False have out: "out = Some ?z" "lpath next_task (th_store t) (task_head l t) (butlast kept) (Some ?z)"
    by (auto simp: out_path_def)
  have "?z \<in> A" using kept False by auto
  with al obtain kz where kz: "th_store t ?z = Some kz" by (auto simp: alloc_inv_def)
  let ?t = "put_task t ?z (kz\<lparr>next_task := Some a\<rparr>)"
  have st: "th_store ?t = (th_store t)(?z \<mapsto> kz\<lparr>next_task := Some a\<rparr>)" by (simp add: put_task_def)
  have hd: "task_head l' ?t = task_head l' t" for l' by (rule task_head_cong) (simp_all add: put_task_def)
  have same: "same_tasks (th_store t) (th_store ?t)" unfolding st by (rule same_tasks_upd [of "th_store t", OF kz])
  have "?z \<notin> set (butlast kept)"
    using kept(2) False by (metis append_butlast_last_id distinct_butlast not_distinct_conv_prefix)
  then have "lpath next_task (th_store ?t) (task_head l ?t) (butlast kept @ [?z]) (Some a)"
    using out(2) by (simp add: path_snoc st hd)
  then have op': "out_path ?t l (kept @ [a]) (Some a)" using False by (simp add: out_path_def)
  show thesis
  proof (rule that [of ?t])
    show "alloc_inv ?t A" by (rule alloc_inv_relink [OF al same]) (simp_all add: put_task_def)
    show "removed t {} ?t" by (rule removed_link [OF same]) (simp_all add: put_task_def)
    show "\<forall>x. x \<notin> set kept \<longrightarrow> th_store ?t x = th_store t x" using False by (auto simp: st)
  qed (use op' out kz hd in \<open>simp_all add: set_task_next_def\<close>)
qed

lemma pending_free:
  assumes al: "alloc_inv t A" and op: "out_path t l kept out" and a: "a \<in> A" "a \<notin> set kept"
  shows "out_path (freed t {a}) l kept out"
proof -
  have "th_store t |` (- {a}) = (th_store t)(a := None)" by (auto simp: restrict_map_def fun_eq_iff)
  moreover have "a \<notin> set (butlast kept)" using a(2) by (meson in_set_butlastD)
  ultimately show ?thesis using op by (auto simp: out_path_def)
qed

lemma pending_loop_ok:
  assumes "alloc_inv t A" "out_path t l kept out" "lchain next_task (th_store t) task rest"
    "set kept \<union> set rest \<subseteq> A" "distinct (kept @ rest)"
    "task_next = (case task of None \<Rightarrow> None | Some a \<Rightarrow> next_task (the (th_store t a)))"
  shows "\<exists>out' t'. remove_pending_loop t c l task task_next out = Some (out', t') \<and>
    alloc_inv t' (A - {a \<in> set rest. of_context (th_store t) c a}) \<and>
    out_path t' l (kept @ filter (\<lambda>a. \<not> of_context (th_store t) c a) rest) out' \<and>
    removed t {a \<in> set rest. of_context (th_store t) c a} t' \<and>
    (\<forall>x. x \<notin> set kept \<union> set rest \<longrightarrow> th_store t' x = th_store t x) \<and>
    (\<forall>l'. l' \<noteq> l \<longrightarrow> task_head l' t' = task_head l' t)"
  using assms
proof (induction rest arbitrary: t A kept out task task_next)
  case Nil
  then show ?case
    by (subst remove_pending_loop.simps) (auto simp: removed_link)
next
  case (Cons a rest)
  then obtain k where task: "task = Some a" and k: "th_store t a = Some k"
    and ch: "lchain next_task (th_store t) (next_task k) rest"
    by (auto split: option.splits)
  from Cons.prems(5) have nin: "a \<notin> set kept" "a \<notin> set rest" "set kept \<inter> set rest = {}" "distinct kept" "distinct rest"
    by auto
  have sub: "set kept \<subseteq> A" "set rest \<subseteq> A" "a \<in> A" using Cons.prems(4) by auto
  have nx: "task_next = next_task k" using Cons.prems(6) task k by simp
  define P where "P = of_context (th_store t) c"
  have Pa: "P a \<longleftrightarrow> t_context k = c" using k by (simp add: P_def of_context_def)
  define keep where "keep \<longleftrightarrow> t_context k \<noteq> c"
  obtain t1 out1 where one:
    "(if t_context k = c then do { t \<leftarrow> cherry_thread_free_task t a; Some (out, t) }
      else do {
        t \<leftarrow> (case out of Some z \<Rightarrow> set_task_next t z (Some a) | None \<Rightarrow> Some (set_head l (Some a) t));
        Some (Some a, t) }) = Some (out1, t1)"
    "alloc_inv t1 (A - (if keep then {} else {a}))" "out_path t1 l (if keep then kept @ [a] else kept) out1"
    "removed t (if keep then {} else {a}) t1" "\<forall>x. x \<notin> insert a (set kept) \<longrightarrow> th_store t1 x = th_store t x"
    "\<forall>l'. l' \<noteq> l \<longrightarrow> task_head l' t1 = task_head l' t"
  proof (cases keep)
    case True
    obtain t' where "(case out of Some z \<Rightarrow> set_task_next t z (Some a) | None \<Rightarrow> Some (set_head l (Some a) t)) = Some t'"
      "alloc_inv t' A" "out_path t' l (kept @ [a]) (Some a)" "removed t {} t'"
      "\<forall>x. x \<notin> set kept \<longrightarrow> th_store t' x = th_store t x" "\<forall>l'. l' \<noteq> l \<longrightarrow> task_head l' t' = task_head l' t"
      by (rule pending_keep [OF Cons.prems(1,2) k nin(1) sub(1) nin(4)])
    with True show thesis by (intro that [of "Some a" t']) (simp_all add: keep_def)
  next
    case False
    note f = free_task_ok [OF Cons.prems(1) sub(3)]
    from False f pending_free [OF Cons.prems(1,2) sub(3) nin(1)] removed_freed [of t "{a}"] show thesis
      by (intro that [of out "freed t {a}"]) (simp_all add: keep_def)
  qed
  have st1: "th_store t1 x = th_store t x" if "x \<in> set rest" for x
  proof -
    have "x \<notin> insert a (set kept)" using nin that by auto
    with one(5) show ?thesis by simp
  qed
  have ch1: "lchain next_task (th_store t1) (next_task k) rest"
    using ch st1 by (subst path_cong [of rest _ "th_store t1" "th_store t"]) auto
  have P1: "of_context (th_store t1) c x = P x" if "x \<in> set rest" for x
    using st1 [OF that] by (simp add: of_context_def P_def)
  let ?next2 = "case next_task k of None \<Rightarrow> None | Some b \<Rightarrow> next_task (the (th_store t1 b))"
  have n2: "(case next_task k of None \<Rightarrow> Some None | Some b \<Rightarrow> do { k \<leftarrow> th_store t1 b; Some (next_task k) }) = Some ?next2"
    using ch1 by (cases rest) (auto split: option.splits)
  have step: "remove_pending_loop t c l task task_next out = remove_pending_loop t1 c l (next_task k) ?next2 out1"
    using task k nx one(1) n2 by (subst remove_pending_loop.simps) simp
  let ?kept1 = "if keep then kept @ [a] else kept" and ?A1 = "A - (if keep then {} else {a})"
  have "set ?kept1 \<union> set rest \<subseteq> ?A1" "distinct (?kept1 @ rest)" using sub nin by auto
  from Cons.IH [OF one(2,3) ch1 this refl] obtain out' t' where IH:
    "remove_pending_loop t1 c l (next_task k) ?next2 out1 = Some (out', t')"
    "alloc_inv t' (?A1 - {x \<in> set rest. of_context (th_store t1) c x})"
    "out_path t' l (?kept1 @ filter (\<lambda>x. \<not> of_context (th_store t1) c x) rest) out'"
    "removed t1 {x \<in> set rest. of_context (th_store t1) c x} t'"
    "\<forall>x. x \<notin> set ?kept1 \<union> set rest \<longrightarrow> th_store t' x = th_store t1 x"
    "\<forall>l'. l' \<noteq> l \<longrightarrow> task_head l' t' = task_head l' t1" by blast
  have F1: "{x \<in> set rest. of_context (th_store t1) c x} = {x \<in> set rest. P x}"
    and flt: "filter (\<lambda>x. \<not> of_context (th_store t1) c x) rest = filter (\<lambda>x. \<not> P x) rest"
    using P1 by (auto intro!: filter_cong)
  have F: "{x \<in> set (a # rest). P x} = (if keep then {} else {a}) \<union> {x \<in> set rest. P x}"
    using Pa by (auto simp: keep_def)
  have "removed t {x \<in> set (a # rest). P x} t'"
    unfolding F by (rule removed_trans [OF one(4) IH(4) [unfolded F1]]) (use nin in auto)
  moreover have "?A1 - {x \<in> set rest. P x} = A - {x \<in> set (a # rest). P x}" unfolding F by auto
  moreover have "?kept1 @ filter (\<lambda>x. \<not> P x) rest = kept @ filter (\<lambda>x. \<not> P x) (a # rest)"
    using Pa by (simp add: keep_def)
  moreover have "\<forall>x. x \<notin> set kept \<union> set (a # rest) \<longrightarrow> th_store t' x = th_store t x"
    using IH(5) one(5) by auto
  ultimately show ?case
    using step IH(1,2,3,6) one(6) unfolding F1 flt P_def [symmetric] by (intro exI [of _ out'] exI [of _ t']) simp
qed

lemma remove_from_list_ok:
  assumes inv: "thread_inv t A qs" and un: "\<not> th_locked t" and c: "c \<noteq> None"
  shows "\<exists>t'. cherry_thread_remove_pending_tasks_from_list t c l = Some t' \<and>
    thread_inv t' (A - {a \<in> set (qs l). of_context (th_store t) c a})
      (qs(l := filter (\<lambda>a. \<not> of_context (th_store t) c a) (qs l))) \<and>
    removed t {a \<in> set (qs l). of_context (th_store t) c a} t'"
proof -
  let ?P = "of_context (th_store t) c" and ?t0 = "set_head l None (t\<lparr>th_locked := True\<rparr>)"
  let ?F = "{a \<in> set (qs l). ?P a}" and ?flt = "filter (\<lambda>a. \<not> ?P a) (qs l)"
  have al: "alloc_inv ?t0 A" using inv by (auto simp: thread_inv_def alloc_inv_def)
  have hd: "task_head l' (t\<lparr>th_locked := True\<rparr>) = task_head l' t" for l' by (rule task_head_cong) simp_all
  have st0: "th_store ?t0 = th_store t" by simp
  have ch: "lchain next_task (th_store ?t0) (task_head l t) (qs l)" using thread_inv_chain [OF inv, of l] by simp
  let ?next = "case task_head l t of None \<Rightarrow> None | Some a \<Rightarrow> next_task (the (th_store ?t0 a))"
  have nx: "(case task_head l t of None \<Rightarrow> Some None | Some a \<Rightarrow> do { k \<leftarrow> th_store ?t0 a; Some (next_task k) }) = Some ?next"
    using ch by (cases "qs l") (auto split: option.splits)
  have op: "out_path ?t0 l [] None" by (simp add: out_path_def)
  have sub: "set [] \<union> set (qs l) \<subseteq> A" "distinct ([] @ qs l)"
    using inv chain_distinct [OF ch] by (simp_all add: thread_inv_def)
  from pending_loop_ok [OF al op ch sub refl, of c] obtain out t1 where r:
    "remove_pending_loop ?t0 c l (task_head l t) ?next None = Some (out, t1)" "alloc_inv t1 (A - ?F)"
    "out_path t1 l ?flt out" "removed ?t0 ?F t1"
    "\<forall>x. x \<notin> set (qs l) \<longrightarrow> th_store t1 x = th_store t x"
    "\<forall>l'. l' \<noteq> l \<longrightarrow> task_head l' t1 = task_head l' t"
    by (auto simp: hd)
  obtain t2 where t2: "(case out of Some z \<Rightarrow> set_task_next t1 z None | None \<Rightarrow> Some t1) = Some t2"
    "same_tasks (th_store t1) (th_store t2)" "th_bufs t2 = th_bufs t1" "th_brk t2 = th_brk t1" "th_world t2 = th_world t1"
    "th_locked t2 = th_locked t1" "th_state t2 = th_state t1" "\<And>l. task_head l t2 = task_head l t1"
    "lchain next_task (th_store t2) (task_head l t2) ?flt" "\<forall>x. x \<notin> set (qs l) \<longrightarrow> th_store t2 x = th_store t x"
  proof (cases "?flt = []")
    case True
    with r(3,5) show thesis by (intro that [of t1]) (simp_all add: out_path_def)
  next
    case False
    let ?z = "last ?flt"
    have out: "out = Some ?z" "lpath next_task (th_store t1) (task_head l t1) (butlast ?flt) (Some ?z)"
      using r(3) False by (auto simp: out_path_def)
    have zin: "?z \<in> set ?flt" using False by (rule last_in_set)
    then have "?z \<in> A - ?F" using sub(1) by auto
    with r(2) obtain kz where kz: "th_store t1 ?z = Some kz" by (auto simp: alloc_inv_def)
    let ?t2 = "put_task t1 ?z (kz\<lparr>next_task := None\<rparr>)"
    have hd2: "task_head l' ?t2 = task_head l' t1" for l' by (rule task_head_cong) (simp_all add: put_task_def)
    have "distinct ?flt" using sub(2) by simp
    then have "?z \<notin> set (butlast ?flt)"
      using False by (metis append_butlast_last_id distinct_butlast not_distinct_conv_prefix)
    then have "lchain next_task (th_store ?t2) (task_head l t1) (butlast ?flt @ [?z])"
      using out(2) by (simp add: path_snoc put_task_def del: append_butlast_last_id)
    then have ch2: "lchain next_task (th_store ?t2) (task_head l ?t2) ?flt"
      unfolding hd2 append_butlast_last_id [OF False] .
    have "\<forall>x. x \<notin> set (qs l) \<longrightarrow> th_store ?t2 x = th_store t x"
      using r(5) zin by (auto simp: put_task_def)
    with ch2 out kz hd2 same_tasks_upd [of "th_store t1" ?z, OF kz] show thesis
      by (intro that [of ?t2]) (simp_all add: set_task_next_def put_task_def)
  qed
  let ?t' = "task_unlock t2"
  have run: "cherry_thread_remove_pending_tasks_from_list t c l = Some ?t'"
    using c un nx r(1) t2(1) hd by (auto simp: cherry_thread_remove_pending_tasks_from_list_def task_lock_def)
  have f': "th_store ?t' = th_store t2" "th_bufs ?t' = th_bufs t2" "th_brk ?t' = th_brk t2" "\<not> th_locked ?t'"
    "th_world ?t' = th_world t2" "th_state ?t' = th_state t2" "\<And>l. task_head l ?t' = task_head l t2"
    by (auto simp: task_unlock_def intro: task_head_cong)
  have "removed ?t0 (?F \<union> {}) t2"
    by (rule removed_trans [OF r(4)]) (use t2 in \<open>auto intro: removed_link\<close>)
  then have rem: "removed t ?F ?t'" using un f' by (simp add: removed_def freed_def)
  have al2: "alloc_inv ?t' (A - ?F)"
    by (rule alloc_inv_relink [OF r(2)]) (use t2 f' in simp_all)
  have "lchain next_task (th_store ?t') (task_head l' ?t') ((qs(l := ?flt)) l')" for l'
  proof (cases "l' = l")
    case False
    then have "set (qs l') \<inter> set (qs l) = {}" using inv task_list_other [of l' l qs] by (simp add: thread_inv_def)
    then have "lpath next_task (th_store t2) (task_head l' t) (qs l') None = lchain next_task (th_store t) (task_head l' t) (qs l')"
      using t2(10) by (intro path_cong) auto
    with False thread_inv_chain [OF inv, of l'] t2(8) r(6) f' show ?thesis by simp
  qed (use t2(9) f' in simp)
  moreover have "set ((qs(l := ?flt)) l') \<subseteq> A - ?F" for l'
  proof (cases "l' = l")
    case False
    then have "set (qs l') \<inter> set (qs l) = {}" using inv task_list_other [of l' l qs] by (simp add: thread_inv_def)
    with False inv show ?thesis by (auto simp: thread_inv_def)
  qed (use sub in auto)
  moreover have "set ((qs(l := ?flt)) TASKS) \<inter> set ((qs(l := ?flt)) PRIO_TASKS) = {}"
    using inv by (cases l) (auto simp: thread_inv_def)
  ultimately have "thread_inv ?t' (A - ?F) (qs(l := ?flt))" using al2 by (simp add: thread_inv_def)
  with run rem show ?thesis by blast
qed

lemma remove_pending_ok:
  assumes inv: "thread_inv t A qs" and un: "\<not> th_locked t" and c: "c \<noteq> None"
  defines "F \<equiv> {a \<in> set (queued qs). of_context (th_store t) c a}"
  shows "\<exists>t'. cherry_thread_remove_pending_tasks t c = Some t' \<and>
    thread_inv t' (A - F) (\<lambda>l. filter (\<lambda>a. \<not> of_context (th_store t) c a) (qs l)) \<and> removed t F t'"
proof -
  let ?P = "of_context (th_store t) c"
  let ?F1 = "{a \<in> set (qs TASKS). ?P a}" and ?F2 = "{a \<in> set (qs PRIO_TASKS). ?P a}"
  let ?qs1 = "qs(TASKS := filter (\<lambda>a. \<not> ?P a) (qs TASKS))"
  from remove_from_list_ok [OF inv un c, of TASKS] obtain t1 where t1:
    "cherry_thread_remove_pending_tasks_from_list t c TASKS = Some t1" "thread_inv t1 (A - ?F1) ?qs1" "removed t ?F1 t1"
    by blast
  have un1: "\<not> th_locked t1" using t1(3) un by (simp add: removed_def)
  have s: "same_tasks (th_store t |` (- ?F1)) (th_store t1)" using t1(3) by (simp add: removed_def)
  have dis: "set (qs TASKS) \<inter> set (qs PRIO_TASKS) = {}" using inv by (simp add: thread_inv_def)
  have P1: "of_context (th_store t1) c a = ?P a" if "a \<in> set (qs PRIO_TASKS)" for a
    using that dis by (auto simp: same_tasks_context [OF s] of_context_def restrict_map_def)
  then have F2: "{a \<in> set (qs PRIO_TASKS). of_context (th_store t1) c a} = ?F2"
    and flt: "filter (\<lambda>a. \<not> of_context (th_store t1) c a) (qs PRIO_TASKS) = filter (\<lambda>a. \<not> ?P a) (qs PRIO_TASKS)"
    by (auto intro!: filter_cong)
  from remove_from_list_ok [OF t1(2) un1 c, of PRIO_TASKS] obtain t2 where t2:
    "cherry_thread_remove_pending_tasks_from_list t1 c PRIO_TASKS = Some t2"
    "thread_inv t2 (A - ?F1 - ?F2) (?qs1(PRIO_TASKS := filter (\<lambda>a. \<not> ?P a) (qs PRIO_TASKS)))" "removed t1 ?F2 t2"
    by (auto simp: F2 flt)
  have "?qs1(PRIO_TASKS := filter (\<lambda>a. \<not> ?P a) (qs PRIO_TASKS)) = (\<lambda>l. filter (\<lambda>a. \<not> ?P a) (qs l))"
    by (rule ext, rename_tac l, case_tac l) simp_all
  moreover have F: "F = ?F1 \<union> ?F2" by (auto simp: F_def queued_def)
  moreover have "A - ?F1 - ?F2 = A - F" using F by auto
  moreover have "removed t F t2" unfolding F by (rule removed_trans [OF t1(3) t2(3)]) (use dis in auto)
  ultimately show ?thesis using t1(1) t2(1,2) by (intro exI [of _ t2]) (simp add: cherry_thread_remove_pending_tasks_def)
qed

section \<open>Stopping and refusing\<close>

lemma abort_tasks_ok:
  assumes "quiet run eff" "alloc_inv t A" "lchain next_task (th_store t) p as" "set as \<subseteq> A"
    "\<forall>a \<in> set as. callable (th_store t) a"
  shows "\<exists>t'. abort_tasks run t p = Some t' \<and> alloc_inv t' (A - set as) \<and>
    t' = (freed t (set as))\<lparr>th_world := fold (task_effect eff True (th_store t)) as (th_world t)\<rparr>"
  using assms(2-)
proof (induction as arbitrary: t A p)
  case Nil
  then show ?case by (subst abort_tasks.simps) simp
next
  case (Cons a as)
  then obtain k where k: "p = Some a" "th_store t a = Some k" "lchain next_task (th_store t) (next_task k) as"
    by (auto split: option.splits)
  have nin: "a \<notin> set as" using chain_distinct [OF Cons.prems(2)] by simp
  let ?t1 = "t\<lparr>th_world := task_effect eff True (th_store t) a (th_world t)\<rparr>"
  have c: "call_task run t a True = Some ?t1" using Cons.prems(4) by (intro call_quiet [OF assms(1)]) simp
  have al1: "alloc_inv ?t1 A" using Cons.prems(1) by (simp add: alloc_inv_def)
  have "a \<in> A" using Cons.prems(3) by simp
  note f = free_task_ok [OF al1 this]
  let ?t2 = "freed ?t1 {a}"
  have "th_store t |` (- {a}) = (th_store t)(a := None)" by (auto simp: restrict_map_def fun_eq_iff)
  then have ch: "lchain next_task (th_store ?t2) (next_task k) as" using k(3) nin by simp
  have st: "th_store ?t2 b = th_store t b" if "b \<in> set as" for b using that nin by (auto simp: restrict_map_def)
  then have eq: "callable (th_store ?t2) b = callable (th_store t) b"
    "task_effect eff True (th_store ?t2) b = task_effect eff True (th_store t) b" if "b \<in> set as" for b
    using that by (simp_all add: callable_def task_effect_def fun_eq_iff)
  have "set as \<subseteq> A - {a}" "\<forall>b \<in> set as. callable (th_store ?t2) b" using Cons.prems(3,4) nin eq by auto
  from Cons.IH [OF f(2) ch this] obtain t' where IH: "abort_tasks run ?t2 (next_task k) = Some t'"
    "alloc_inv t' (A - {a} - set as)"
    "t' = (freed ?t2 (set as))\<lparr>th_world := fold (task_effect eff True (th_store ?t2)) as (th_world ?t2)\<rparr>" by blast
  have ff: "th_store (freed ?t2 (set as)) = th_store (freed t (insert a (set as)))"
    "th_bufs (freed ?t2 (set as)) = th_bufs (freed t (insert a (set as)))"
    by (rule freed_freed [OF nin]; simp add: freed_def)+
  have "fold (task_effect eff True (th_store ?t2)) as = fold (task_effect eff True (th_store t)) as"
    using eq by (intro ext fold_cong) auto
  then have "t' = (freed t (set (a # as)))\<lparr>th_world := fold (task_effect eff True (th_store t)) (a # as) (th_world t)\<rparr>"
    using IH(3) ff by (cases t) (simp add: freed_def)
  moreover have "A - {a} - set as = A - set (a # as)" by auto
  moreover have "abort_tasks run t p = abort_tasks run ?t2 (next_task k)"
    using k(1,2) c f(1) by (subst abort_tasks.simps) simp
  ultimately show ?case using IH by simp
qed

text \<open>
  Stopping the thread calls every task once with the abort flag, the tasks before the priority
  tasks, and frees them all. The heads of the lists are not reset.
\<close>

lemma stop_ok:
  assumes q: "quiet run eff" and inv: "thread_inv t A qs" and un: "\<not> th_locked t"
    and call: "\<forall>a \<in> set (queued qs). callable (th_store t) a"
  shows "\<exists>t'. cherry_thread_stop run t = Some t' \<and> alloc_inv t' (A - set (queued qs)) \<and>
    th_world t' = fold (task_effect eff True (th_store t)) (qs TASKS @ qs PRIO_TASKS) (th_world t) \<and>
    th_store t' = th_store (freed t (set (queued qs))) \<and> th_bufs t' = th_bufs (freed t (set (queued qs))) \<and>
    th_state t' = CHERRY_THREAD_STOP \<and> \<not> th_locked t' \<and> th_tasks t' = th_tasks t \<and> th_prio_tasks t' = th_prio_tasks t"
proof -
  let ?as = "qs TASKS" and ?bs = "qs PRIO_TASKS"
  have ch: "lchain next_task (th_store t) (th_tasks t) ?as" "lchain next_task (th_store t) (th_prio_tasks t) ?bs"
    using thread_inv_chain [OF inv, of TASKS] thread_inv_chain [OF inv, of PRIO_TASKS] by (simp_all add: task_head_def)
  have sub: "set ?as \<subseteq> A" "set ?bs \<subseteq> A" "set ?as \<inter> set ?bs = {}" using inv by (simp_all add: thread_inv_def)
  have un': "t\<lparr>th_locked := False\<rparr> = t" using un by (cases t) simp
  let ?t0 = "t\<lparr>th_locked := True\<rparr>"
  have al0: "alloc_inv ?t0 A" and ch0: "lchain next_task (th_store ?t0) (th_tasks t) ?as"
    and call0: "\<forall>a \<in> set ?as. callable (th_store ?t0) a"
    using inv ch(1) call by (simp_all add: thread_inv_def alloc_inv_def queued_def)
  from abort_tasks_ok [OF q al0 ch0 sub(1) call0] obtain t1 where t1: "abort_tasks run ?t0 (th_tasks t) = Some t1"
    "alloc_inv t1 (A - set ?as)"
    "t1 = (freed ?t0 (set ?as))\<lparr>th_world := fold (task_effect eff True (th_store ?t0)) ?as (th_world ?t0)\<rparr>" by blast
  have f1: "th_store t1 = th_store t |` (- set ?as)" "th_bufs t1 = th_bufs (freed t (set ?as))"
    "th_world t1 = fold (task_effect eff True (th_store t)) ?as (th_world t)" "th_locked t1"
    "th_tasks t1 = th_tasks t" "th_prio_tasks t1 = th_prio_tasks t"
    unfolding t1(3) by (simp_all add: freed_def)
  let ?t2 = "(task_unlock t1)\<lparr>th_locked := True\<rparr>"
  have st: "th_store t1 b = th_store t b" if "b \<in> set ?bs" for b
    using that sub(3) unfolding f1(1) by (auto simp: restrict_map_def)
  have al2: "alloc_inv ?t2 (A - set ?as)" using t1(2) by (simp add: alloc_inv_def task_unlock_def)
  have ch2: "lchain next_task (th_store ?t2) (th_prio_tasks t) ?bs"
    using ch(2) st by (subst path_cong [of ?bs _ _ "th_store t"]) (simp_all add: task_unlock_def)
  have call2: "\<forall>a \<in> set ?bs. callable (th_store ?t2) a"
    using call st by (auto simp: callable_def queued_def task_unlock_def)
  have sub2: "set ?bs \<subseteq> A - set ?as" using sub by auto
  from abort_tasks_ok [OF q al2 ch2 sub2 call2] obtain t3 where t3: "abort_tasks run ?t2 (th_prio_tasks t) = Some t3"
    "alloc_inv t3 (A - set ?as - set ?bs)"
    "t3 = (freed ?t2 (set ?bs))\<lparr>th_world := fold (task_effect eff True (th_store ?t2)) ?bs (th_world ?t2)\<rparr>" by blast
  let ?t' = "cherry_thread_wakeup ((task_unlock t3)\<lparr>th_state := CHERRY_THREAD_STOP\<rparr>)"
  have "cherry_thread_stop run t = Some ?t'"
    using un t1(1) t3(1) f1(6)
    by (simp add: cherry_thread_stop_def cherry_thread_remove_all_tasks_def task_lock_def task_unlock_def)
  moreover have "alloc_inv ?t' (A - set (queued qs))"
  proof -
    have "A - set ?as - set ?bs = A - set (queued qs)" by (auto simp: queued_def)
    then show ?thesis using t3(2) by (simp add: alloc_inv_def task_unlock_def cherry_thread_wakeup_def)
  qed
  moreover have "th_world ?t' = fold (task_effect eff True (th_store t)) (?as @ ?bs) (th_world t)"
  proof -
    have "fold (task_effect eff True (th_store t1)) ?bs = fold (task_effect eff True (th_store t)) ?bs"
      using st by (intro ext fold_cong) (simp_all add: task_effect_def fun_eq_iff)
    then show ?thesis using t3(3) f1(3) by (simp add: cherry_thread_wakeup_def task_unlock_def)
  qed
  moreover have "th_store ?t' = th_store (freed t (set (queued qs)))"
  proof -
    have "- set ?as \<inter> - set ?bs = - set (queued qs)" by (auto simp: queued_def)
    then show ?thesis using t3(3) f1(1) by (simp add: cherry_thread_wakeup_def task_unlock_def)
  qed
  moreover have "th_bufs ?t' = th_bufs (freed t (set (queued qs)))"
  proof -
    let ?c = "\<lambda>st F. {p. \<exists>b \<in> F. copy_at st b = Some p}"
    have "?c (th_store t1) (set ?bs) = ?c (th_store t) (set ?bs)" using st by (auto simp: copy_at_def)
    then have "th_bufs ?t' = th_bufs t |` (- ?c (th_store t) (set ?as) \<inter> - ?c (th_store t) (set ?bs))"
      using t3(3) f1(2) by (simp add: cherry_thread_wakeup_def task_unlock_def freed_def)
    also have "- ?c (th_store t) (set ?as) \<inter> - ?c (th_store t) (set ?bs) = - ?c (th_store t) (set (queued qs))"
      by (auto simp: queued_def)
    finally show ?thesis by (simp add: freed_def)
  qed
  moreover have "th_tasks ?t' = th_tasks t" "th_prio_tasks ?t' = th_prio_tasks t"
    unfolding t3(3) using f1(5,6) by (simp_all add: cherry_thread_wakeup_def task_unlock_def freed_def)
  ultimately show ?thesis by (intro exI [of _ ?t']) (simp add: cherry_thread_wakeup_def task_unlock_def)
qed

text \<open>A task left in the priority list of a stopped thread is used after it was freed.\<close>

lemma stop_dangling:
  assumes "quiet run eff" "thread_inv t A qs" "\<not> th_locked t" "\<forall>a \<in> set (queued qs). callable (th_store t) a"
    and "qs PRIO_TASKS \<noteq> []"
  shows "\<exists>t'. cherry_thread_stop run t = Some t' \<and> cherry_thread_process_prio_task run t' = None"
proof -
  from stop_ok [OF assms(1-4)] obtain t' where t': "cherry_thread_stop run t = Some t'"
    "th_store t' = th_store (freed t (set (queued qs)))" "\<not> th_locked t'" "th_prio_tasks t' = th_prio_tasks t" by blast
  from assms(5) thread_inv_chain [OF assms(2), of PRIO_TASKS] obtain a where
    a: "th_prio_tasks t = Some a" "a \<in> set (queued qs)"
    by (cases "qs PRIO_TASKS") (auto simp: task_head_def queued_def)
  have "th_store t' a = None" using t'(2) a(2) by simp
  then have "cherry_thread_dequeue_first_task (sem_take_timeout t') PRIO_TASKS = None"
    using t'(3,4) a(1)
    by (simp add: cherry_thread_dequeue_first_task_def sem_take_timeout_def task_lock_def task_head_def)
  with t'(1) show ?thesis by (simp add: cherry_thread_process_prio_task_def)
qed

lemma send_refused:
  assumes inv: "thread_inv t A qs" and ps: "valid_params t params n" and un: "\<not> th_locked t"
    and st: "th_state t = CHERRY_THREAD_RUN" and ud: "th_under_destroy t" and oom: "\<And>i. \<not> th_oom t i"
  shows "\<exists>a t'. cherry_thread_send_list_task t (Some c) params n (Some f) destroy = Some (CHERRY_ERR_INTERNAL, t') \<and>
    thread_inv t' (insert a A) qs \<and> a \<notin> dom (th_store t) \<and> a \<in> dom (th_store t') \<and> (\<forall>l. a \<notin> set (qs l))"
proof (rule alloc_task_cases [OF inv ps, of "Some c" "Some f"])
  fix a t'
  assume al: "cherry_thread_alloc_task t (Some c) params n (Some f) = Some (Some a, t')"
    "thread_inv t' (insert a A) qs" "a \<notin> dom (th_store t)" "sent_task t t' a (Some c) params n (Some f)"
    "t' = t\<lparr>th_brk := th_brk t', th_bufs := th_bufs t', th_store := th_store t'\<rparr>"
    "\<forall>b. b \<noteq> a \<longrightarrow> th_store t' b = th_store t b" "th_bufs t \<subseteq>\<^sub>m th_bufs t'"
  have same: "th_locked t' = th_locked t" "th_under_destroy t' = th_under_destroy t"
    by (subst al(5), simp)+
  from al(4) obtain k where k: "th_store t' a = Some k" by (auto simp: sent_task_def)
  let ?t = "put_task t' a (k\<lparr>next_task := None\<rparr>)"
  have nin: "a \<notin> set (qs l)" for l
    using path_dom [OF thread_inv_chain [OF inv, of l]] al(3) by blast
  have "task_unlock (?t\<lparr>th_locked := True\<rparr>) = ?t" using un same by (cases t') (simp add: put_task_def task_unlock_def)
  then have "cherry_thread_send_list_task t (Some c) params n (Some f) destroy = Some (CHERRY_ERR_INTERNAL, ?t)"
    using st al(1) k un ud same
    by (simp add: cherry_thread_send_list_task_def cherry_thread_task_list_send_def cherry_thread_task_enqueue_def
        set_task_next_def task_lock_def) (simp add: put_task_def task_unlock_def)
  moreover have "thread_inv ?t (insert a A) qs"
  proof (rule thread_inv_relink [OF al(2)])
    have "task_head l ?t = task_head l t'" for l by (rule task_head_cong) (simp_all add: put_task_def)
    then show "lchain next_task (th_store ?t) (task_head l ?t) (qs l)" for l
      using thread_inv_chain [OF al(2), of l] nin by (simp add: put_task_def)
    show "copy_at (th_store ?t) b = copy_at (th_store t') b" for b
      using copy_at_upd_next [of "th_store t'" a, OF k] by (simp add: put_task_def)
  qed (use al(2) k in \<open>auto simp: put_task_def thread_inv_def\<close>)
  ultimately show ?thesis using al(3) nin by (intro exI [of _ a] exI [of _ ?t]) (simp add: put_task_def)
qed (use oom in simp)

section \<open>The lists as queues\<close>

text \<open>
  What the clients of a queue rely on, whatever it is made of: adding an element puts it last and
  taking one gives the first. The elements that were added come out in the order of their addition.
\<close>

primrec enqs :: "('q \<Rightarrow> 'a \<Rightarrow> 'q option) \<Rightarrow> 'q \<Rightarrow> 'a list \<Rightarrow> 'q option" where
  "enqs enq q [] = Some q"
| "enqs enq q (x # xs) = do { q \<leftarrow> enq q x; enqs enq q xs }"

primrec deqs :: "('q \<Rightarrow> ('a option \<times> 'q) option) \<Rightarrow> nat \<Rightarrow> 'q \<Rightarrow> ('a list \<times> 'q) option" where
  "deqs deq 0 q = Some ([], q)"
| "deqs deq (Suc n) q =
     do { (x, q) \<leftarrow> deq q;
          case x of None \<Rightarrow> Some ([], q) | Some x \<Rightarrow> do { (xs, q) \<leftarrow> deqs deq n q; Some (x # xs, q) } }"

locale fifo =
  fixes holds :: "'q \<Rightarrow> 'a list \<Rightarrow> bool"
    and enq :: "'q \<Rightarrow> 'a \<Rightarrow> 'q option"
    and deq :: "'q \<Rightarrow> ('a option \<times> 'q) option"
    and fresh :: "'q \<Rightarrow> 'a \<Rightarrow> bool"
  assumes enq: "holds q xs \<Longrightarrow> fresh q x \<Longrightarrow> x \<notin> set xs \<Longrightarrow>
      \<exists>q'. enq q x = Some q' \<and> holds q' (xs @ [x]) \<and> (\<forall>y. fresh q y \<longrightarrow> y \<noteq> x \<longrightarrow> fresh q' y)"
    and deq_Nil: "holds q [] \<Longrightarrow> deq q = Some (None, q)"
    and deq_Cons: "holds q (x # xs) \<Longrightarrow> \<exists>q'. deq q = Some (Some x, q') \<and> holds q' xs"
begin

lemma enqs_ok:
  "holds q ys \<Longrightarrow> \<forall>x \<in> set xs. fresh q x \<Longrightarrow> distinct xs \<Longrightarrow> set ys \<inter> set xs = {} \<Longrightarrow>
   \<exists>q'. enqs enq q xs = Some q' \<and> holds q' (ys @ xs)"
proof (induction xs arbitrary: q ys)
  case (Cons x xs)
  from Cons.prems enq [of q ys x] obtain q' where
    q': "enq q x = Some q'" "holds q' (ys @ [x])" "\<forall>y. fresh q y \<longrightarrow> y \<noteq> x \<longrightarrow> fresh q' y" by auto
  have "\<forall>y \<in> set xs. fresh q' y" using q'(3) Cons.prems(2,3) by auto
  from Cons.IH [OF q'(2) this] Cons.prems(3,4) q'(1) show ?case by auto
qed simp

lemma deqs_ok: "holds q (xs @ ys) \<Longrightarrow> \<exists>q'. deqs deq (length xs) q = Some (xs, q') \<and> holds q' ys"
proof (induction xs arbitrary: q)
  case (Cons x xs)
  from deq_Cons [of q x "xs @ ys"] Cons.prems obtain q1 where "deq q = Some (Some x, q1)" "holds q1 (xs @ ys)" by auto
  with Cons.IH [of q1] show ?case by auto
qed simp

lemma in_order:
  assumes "holds q []" "\<forall>x \<in> set xs. fresh q x" "distinct xs"
  shows "\<exists>q1 q2. enqs enq q xs = Some q1 \<and> deqs deq (length xs) q1 = Some (xs, q2) \<and> holds q2 []"
  using enqs_ok [OF assms(1,2,3)] deqs_ok [of _ xs "[]"] by fastforce

end

text \<open>Either list of a thread is such a queue, for the tasks of \<open>A\<close>.\<close>

definition enqueue_forced :: "task_list \<Rightarrow> 'w cherry_thread \<Rightarrow> ptr \<Rightarrow> 'w cherry_thread option" where
  "enqueue_forced l t a = do { (ok, t) \<leftarrow> cherry_thread_task_enqueue t a l False True; Some t }"

definition list_holds :: "ptr set \<Rightarrow> task_list \<Rightarrow> 'w cherry_thread \<Rightarrow> ptr list \<Rightarrow> bool" where
  "list_holds A l t xs \<longleftrightarrow> \<not> th_locked t \<and> (\<exists>qs. thread_inv t A qs \<and> qs l = xs)"

definition detached :: "ptr set \<Rightarrow> 'w cherry_thread \<Rightarrow> ptr \<Rightarrow> bool" where
  "detached A t a \<longleftrightarrow> a \<in> A \<and> (\<exists>qs. thread_inv t A qs \<and> (\<forall>l. a \<notin> set (qs l)))"

lemma thread_inv_unique: "thread_inv t A qs \<Longrightarrow> thread_inv t A qs' \<Longrightarrow> qs = qs'"
  by (rule ext) (metis chain_unique thread_inv_chain)

interpretation task_queue: fifo "list_holds A l" "enqueue_forced l" "\<lambda>t. cherry_thread_dequeue_first_task t l" "detached A"
  for A l
proof
  fix t :: "'w cherry_thread" and xs x
  assume h: "list_holds A l t xs" and f: "detached A t x"
  from h obtain qs where qs: "\<not> th_locked t" "thread_inv t A qs" "qs l = xs" by (auto simp: list_holds_def)
  from f qs(2) have x: "x \<in> A" "\<And>l. x \<notin> set (qs l)" by (auto simp: detached_def dest: thread_inv_unique)
  from enqueue_ok [OF qs(2) x qs(1), of True l False] obtain t' where
    t': "cherry_thread_task_enqueue t x l False True = Some (True, t')" "thread_inv t' A (qs(l := qs l @ [x]))"
    "\<not> th_locked t'" by auto
  have "detached A t' y" if y: "detached A t y" "y \<noteq> x" for y
  proof -
    from y qs(2) have "y \<in> A" "\<And>l. y \<notin> set (qs l)" by (auto simp: detached_def dest: thread_inv_unique)
    with y(2) t'(2) show ?thesis unfolding detached_def by (intro conjI exI [of _ "qs(l := qs l @ [x])"]) auto
  qed
  moreover have "list_holds A l t' (xs @ [x])"
    unfolding list_holds_def using t' qs(3) by (intro conjI exI [of _ "qs(l := qs l @ [x])"]) auto
  ultimately show "\<exists>q'. enqueue_forced l t x = Some q' \<and> list_holds A l q' (xs @ [x]) \<and>
      (\<forall>y. detached A t y \<longrightarrow> y \<noteq> x \<longrightarrow> detached A q' y)"
    using t'(1) by (simp add: enqueue_forced_def)
next
  fix t :: "'w cherry_thread"
  assume "list_holds A l t []"
  then show "cherry_thread_dequeue_first_task t l = Some (None, t)"
    using dequeue_ok(1) by (auto simp: list_holds_def)
next
  fix t :: "'w cherry_thread" and x xs
  assume "list_holds A l t (x # xs)"
  then obtain qs where qs: "\<not> th_locked t" "thread_inv t A qs" "qs l = x # xs" by (auto simp: list_holds_def)
  from dequeue_ok(2) [OF qs(2,1,3)] obtain q where
    q: "cherry_thread_dequeue_first_task t l = Some (Some x, set_head l q t)" "thread_inv (set_head l q t) A (qs(l := xs))"
    by blast
  have "list_holds A l (set_head l q t) xs"
    unfolding list_holds_def using q(2) qs(1) by (intro conjI exI [of _ "qs(l := xs)"]) auto
  with q(1) show "\<exists>q'. cherry_thread_dequeue_first_task t l = Some (Some x, q') \<and> list_holds A l q' xs" by blast
qed

end
