(* ===== verification/Session_Client.thy ===== *)
theory Session_Client
  imports Uci_Rx
begin

text \<open>
  The session client of the Cherry library (\<^verbatim>\<open>cherry_session_client.c\<close>): the commands it sends
  through the UCI core, the handlers of the responses and notifications, and the context in which a
  handler leaves the response for the command that waits for it.

  The context is part of the world behind the core. A command sends its message and then waits on a
  semaphore while another thread receives messages: \<open>se_wait\<close> is what that thread does before the
  wait is over or times out. The callbacks for notifications belong to the layer above.
\<close>

section \<open>State\<close>

abbreviation (input) UCI_OID_SESSION_INIT :: nat where "UCI_OID_SESSION_INIT \<equiv> 0"
abbreviation (input) UCI_OID_SESSION_DEINIT :: nat where "UCI_OID_SESSION_DEINIT \<equiv> 1"
abbreviation (input) UCI_OID_SESSION_STATUS :: nat where "UCI_OID_SESSION_STATUS \<equiv> 2"
abbreviation (input) UCI_OID_SESSION_SET_APP_CONFIG :: nat where "UCI_OID_SESSION_SET_APP_CONFIG \<equiv> 3"
abbreviation (input) UCI_OID_SESSION_GET_APP_CONFIG :: nat where "UCI_OID_SESSION_GET_APP_CONFIG \<equiv> 4"
abbreviation (input) UCI_OID_SESSION_GET_COUNT :: nat where "UCI_OID_SESSION_GET_COUNT \<equiv> 5"
abbreviation (input) UCI_OID_SESSION_GET_STATE :: nat where "UCI_OID_SESSION_GET_STATE \<equiv> 6"
abbreviation (input) UCI_OID_SESSION_INFO :: nat where "UCI_OID_SESSION_INFO \<equiv> 0"
abbreviation (input) UCI_OID_SESSION_STOP :: nat where "UCI_OID_SESSION_STOP \<equiv> 1"

abbreviation (input) INFO_NTF_HEADER_SIZE :: nat where "INFO_NTF_HEADER_SIZE \<equiv> 25"
abbreviation (input) FIRA_CONTROLEES_MAX :: nat where "FIRA_CONTROLEES_MAX \<equiv> 8"
abbreviation (input) DL_TDOA_ANCHOR_LOCATION_MAX_SIZE :: nat where "DL_TDOA_ANCHOR_LOCATION_MAX_SIZE \<equiv> 13"

record session_status_ntf =
  ntf_session_handle :: "32 word"
  ntf_session_state :: byte
  ntf_reason_code :: byte

record session_ranging_data =
  rd_session_handle :: "32 word"
  rd_sequence_number :: "32 word"
  rd_ranging_interval_ms :: "32 word"
  rd_type :: byte
  rd_n_measurements :: byte
  rd_parser :: uci_message_parser

record dl_tdoa_anchor_location =
  location_presence :: bool
  coordinates_system :: byte
  location_x :: "64 word"
  location_y :: "64 word"
  location_z :: "64 word"

record dst_mac_addresses =
  n_addresses :: int
  addresses :: "16 word list"

text \<open>
  What the \<open>data\<close> pointer of a parameter request points to: a raw buffer, a scalar, a list of
  addresses (\<^verbatim>\<open>struct dst_mac_addresses\<close>) or a location.
\<close>

datatype app_data = Raw bytes | U8 byte | U16 "16 word" | Macs dst_mac_addresses | Location dl_tdoa_anchor_location

datatype app_handler = Raw_Handler | Uint8_Handler | Uint16_Handler | Dest_Mac_Handler | Location_Handler

record app_param =
  ap_param_type :: "16 word"
  ap_maxlen :: nat
  ap_data :: app_data
  ap_handler :: app_handler

text \<open>
  The untyped pointer \<open>cmd_data\<close>: not initialised, to the request of a parameter, to an integer, or
  to a request whose function has returned.
\<close>

datatype cmd_data = Cmd_Unset | Cmd_Param app_param | Cmd_Int int | Cmd_Dangling

record session_context =
  sc_response_status :: int
  sc_sem :: nat
  sc_cmd_data :: cmd_data
  sc_session_handle :: "32 word"

text \<open>\<open>sw_oom n\<close>: the allocation number \<open>n\<close> of the client fails. \<open>sw_junk\<close> is the content of fresh memory.\<close>

record 'v session_world =
  sw_context :: "session_context option"
  sw_junk :: session_context
  sw_allocs :: nat
  sw_oom :: "nat \<Rightarrow> bool"
  sw_rest :: 'v

type_synonym 'v suci = "'v session_world uci"

text \<open>\<open>se_stack\<close> is the content of a fresh local array of 13 bytes.\<close>

record 'v session_env =
  se_uci :: "'v session_world uci_env"
  se_wait :: "'v suci \<Rightarrow> 'v suci option"
  se_status_cb :: "session_status_ntf \<Rightarrow> 'v suci \<Rightarrow> 'v suci option"
  se_ranging_cb :: "session_ranging_data \<Rightarrow> 'v suci \<Rightarrow> 'v suci option"
  se_stack :: bytes
  se_config_list :: ptr
  se_control_list :: ptr

definition context_of :: "'v suci \<Rightarrow> session_context option" where
  "context_of u = sw_context (u_world u)"

definition upd_context :: "'v suci \<Rightarrow> (session_context \<Rightarrow> session_context) \<Rightarrow> 'v suci" where
  "upd_context u f = u\<lparr>u_world := (u_world u)\<lparr>sw_context := map_option f (context_of u)\<rparr>\<rparr>"

definition client_malloc :: "'v suci \<Rightarrow> bool \<times> 'v suci" where
  "client_malloc u =
     (\<not> sw_oom (u_world u) (sw_allocs (u_world u)),
      u\<lparr>u_world := (u_world u)\<lparr>sw_allocs := Suc (sw_allocs (u_world u))\<rparr>\<rparr>)"

section \<open>Responses and notifications\<close>

text \<open>The semaphore of the responses is binary.\<close>

definition cherry_session_set_rsp :: "'v suci \<Rightarrow> 'v suci" where
  "cherry_session_set_rsp u = upd_context u (\<lambda>c. c\<lparr>sc_sem := 1\<rparr>)"

definition set_status :: "'v suci \<Rightarrow> int \<Rightarrow> 'v suci" where
  "set_status u r = upd_context u (\<lambda>c. c\<lparr>sc_response_status := r\<rparr>)"

text \<open>The local parser of a handler; most handlers dereference their context on every path.\<close>

definition msg_parser :: "'v suci \<Rightarrow> ptr option \<Rightarrow> uci_message_parser option" where
  "msg_parser u msg = do { p \<leftarrow> msg; UCI_MESSAGE_PARSER_INITIALIZER (heap (u_mem u)) p }"

definition handler_parser :: "'v suci \<Rightarrow> ptr option \<Rightarrow> uci_message_parser option" where
  "handler_parser u msg = do { c \<leftarrow> context_of u; msg_parser u msg }"

definition parse_status :: "heap \<Rightarrow> uci_message_parser \<Rightarrow> (int \<times> uci_message_parser) option" where
  "parse_status h parser =
     (if uci_message_remaining parser < 1 then Some (UCI_STATUS_INVALID_MESSAGE_SIZE, parser)
      else do { (s, parser) \<leftarrow> uci_message_get_8bit h parser; Some (uint s, parser) })"

definition uci_session_ntf_handler ::
    "'v session_env \<Rightarrow> 'v suci \<Rightarrow> ptr option \<Rightarrow> (int \<times> 'v suci) option" where
  "uci_session_ntf_handler e u msg =
     do {
       parser \<leftarrow> msg_parser u msg;
       if uci_message_remaining parser < 6 then Some (QERR_EINVAL, u)
       else (case client_malloc u of
           (True, u) \<Rightarrow>
             do {
               (h, parser) \<leftarrow> uci_message_get_32bit (heap (u_mem u)) parser;
               (s, parser) \<leftarrow> uci_message_get_8bit (heap (u_mem u)) parser;
               (r, parser) \<leftarrow> uci_message_get_8bit (heap (u_mem u)) parser;
               c \<leftarrow> context_of u;
               u \<leftarrow> se_status_cb e \<lparr>ntf_session_handle = h, ntf_session_state = s, ntf_reason_code = r\<rparr> u;
               Some (QERR_SUCCESS, u)
             }
         | (False, u) \<Rightarrow> Some (QERR_SUCCESS, u))
     }"

text \<open>The check of the size does not return: an empty response runs into the assertion of the read.\<close>

definition uci_session_init_rsp_handler :: "'v suci \<Rightarrow> ptr option \<Rightarrow> (int \<times> 'v suci) option" where
  "uci_session_init_rsp_handler u msg =
     do {
       parser \<leftarrow> handler_parser u msg;
       let u = (if uci_message_remaining parser < 1 then set_status u UCI_STATUS_INVALID_MESSAGE_SIZE else u);
       (s, parser) \<leftarrow> uci_message_get_8bit (heap (u_mem u)) parser;
       let u = set_status u (uint s);
       (ok, h, parser) \<leftarrow> uci_message_get_32bit_no_assert (heap (u_mem u)) parser 0;
       let u = upd_context u (\<lambda>c. c\<lparr>sc_session_handle := if ok then h else 0\<rparr>);
       Some (QERR_SUCCESS, cherry_session_set_rsp u)
     }"

definition uci_rsp_handler_set_app_config :: "'v suci \<Rightarrow> ptr option \<Rightarrow> (int \<times> 'v suci) option" where
  "uci_rsp_handler_set_app_config u msg =
     do {
       parser \<leftarrow> handler_parser u msg;
       (s, parser) \<leftarrow> parse_status (heap (u_mem u)) parser;
       let u = set_status u s;
       if uci_message_remaining parser < 1 then Some (QERR_SUCCESS, cherry_session_set_rsp u)
       else do {
         (num_app, parser) \<leftarrow> uci_message_get_8bit (heap (u_mem u)) parser;
         let u = (if num_app \<noteq> 0 then set_status u UCI_STATUS_FAILED else u);
         Some (QERR_SUCCESS, cherry_session_set_rsp u)
       }
     }"

definition uci_rsp_handler :: "'v suci \<Rightarrow> ptr option \<Rightarrow> (int \<times> 'v suci) option" where
  "uci_rsp_handler u msg =
     do {
       parser \<leftarrow> handler_parser u msg;
       (s, parser) \<leftarrow> parse_status (heap (u_mem u)) parser;
       Some (QERR_SUCCESS, cherry_session_set_rsp (set_status u s))
     }"

subsection \<open>Reading a parameter\<close>

definition cherry_uci_client_session_get_app_config_raw_handler ::
    "heap \<Rightarrow> uci_message_parser \<Rightarrow> app_data \<Rightarrow> nat \<Rightarrow> (int \<times> app_data) option" where
  "cherry_uci_client_session_get_app_config_raw_handler h parser data param_len =
     (case data of
        Raw d \<Rightarrow>
          do { (xs, parser) \<leftarrow> uci_message_get h parser param_len;
               d \<leftarrow> write_buf d 0 xs; Some (UCI_STATUS_OK, Raw d) }
      | _ \<Rightarrow> None)"

definition cherry_uci_client_session_get_app_config_uint8_handler ::
    "heap \<Rightarrow> uci_message_parser \<Rightarrow> app_data \<Rightarrow> nat \<Rightarrow> (int \<times> app_data) option" where
  "cherry_uci_client_session_get_app_config_uint8_handler h parser data param_len =
     (if param_len \<noteq> 1 then Some (UCI_STATUS_INVALID_MESSAGE_SIZE, data)
      else case data of
        U8 _ \<Rightarrow> do { (v, parser) \<leftarrow> uci_message_get_8bit h parser; Some (UCI_STATUS_OK, U8 v) }
      | _ \<Rightarrow> None)"

definition cherry_uci_client_session_get_app_config_uint16_handler ::
    "heap \<Rightarrow> uci_message_parser \<Rightarrow> app_data \<Rightarrow> nat \<Rightarrow> (int \<times> app_data) option" where
  "cherry_uci_client_session_get_app_config_uint16_handler h parser data param_len =
     (if param_len \<noteq> 2 then Some (UCI_STATUS_INVALID_MESSAGE_SIZE, data)
      else case data of
        U16 _ \<Rightarrow> do { (v, parser) \<leftarrow> uci_message_get_16bit h parser; Some (UCI_STATUS_OK, U16 v) }
      | _ \<Rightarrow> None)"

fun get_addresses ::
    "heap \<Rightarrow> uci_message_parser \<Rightarrow> 16 word list \<Rightarrow> nat list \<Rightarrow> 16 word list option" where
  "get_addresses h parser addrs [] = Some addrs"
| "get_addresses h parser addrs (i # is) =
     do { (v, parser) \<leftarrow> uci_message_get_16bit h parser;
          if i < length addrs then get_addresses h parser (addrs[i := v]) is else None }"

definition cherry_uci_client_session_get_app_config_dest_mac_address_handler ::
    "heap \<Rightarrow> uci_message_parser \<Rightarrow> app_data \<Rightarrow> nat \<Rightarrow> (int \<times> app_data) option" where
  "cherry_uci_client_session_get_app_config_dest_mac_address_handler h parser data param_len =
     (if param_len div 2 > FIRA_CONTROLEES_MAX then Some (UCI_STATUS_INVALID_MESSAGE_SIZE, data)
      else case data of
        Macs addr \<Rightarrow>
          (let addr = addr\<lparr>n_addresses := int (param_len div 2)\<rparr>
           in if uci_message_remaining parser \<noteq> param_len then Some (UCI_STATUS_INVALID_MESSAGE_SIZE, Macs addr)
              else do { addrs \<leftarrow> get_addresses h parser (addresses addr) [0..<param_len div 2];
                        Some (UCI_STATUS_OK, Macs (addr\<lparr>addresses := addrs\<rparr>)) })
      | _ \<Rightarrow> None)"

text \<open>The bytes of the coordinates of a location, the first byte of the array apart.\<close>

definition wgs84_coordinates :: "bytes \<Rightarrow> bytes \<times> bytes \<times> bytes" where
  "wgs84_coordinates loc =
     ([loc ! 0, loc ! 1, loc ! 2, loc ! 3, drop_bit 7 (loc ! 4) AND 0x01],
      [(push_bit 1 (loc ! 4) AND 0xFE) OR (drop_bit 7 (loc ! 5) AND 0x01),
       (push_bit 1 (loc ! 5) AND 0xFE) OR (drop_bit 7 (loc ! 6) AND 0x01),
       (push_bit 1 (loc ! 6) AND 0xFE) OR (drop_bit 7 (loc ! 7) AND 0x01),
       (push_bit 1 (loc ! 7) AND 0xFE) OR (drop_bit 7 (loc ! 8) AND 0x01),
       drop_bit 6 (loc ! 8) AND 0x01],
      [(push_bit 2 (loc ! 8) AND 0xFC) OR (drop_bit 6 (loc ! 9) AND 0x03),
       (push_bit 2 (loc ! 9) AND 0xFC) OR (drop_bit 6 (loc ! 10) AND 0x03),
       (push_bit 2 (loc ! 10) AND 0xFC) OR (drop_bit 6 (loc ! 11) AND 0x03),
       loc ! 11 AND 0x3F])"

definition relative_coordinates :: "bytes \<Rightarrow> bytes \<times> bytes \<times> bytes" where
  "relative_coordinates loc =
     ([loc ! 0, loc ! 1, loc ! 2, drop_bit 4 (loc ! 3) AND 0x0F],
      [(push_bit 4 (loc ! 3) AND 0xF0) OR (drop_bit 4 (loc ! 4) AND 0x0F),
       (push_bit 4 (loc ! 4) AND 0xF0) OR (drop_bit 4 (loc ! 5) AND 0x0F),
       (push_bit 4 (loc ! 5) AND 0xF0) OR (drop_bit 4 (loc ! 6) AND 0x0F),
       loc ! 6 AND 0x0F],
      [loc ! 7, loc ! 8, loc ! 9])"

definition decode_location :: "bytes \<Rightarrow> dl_tdoa_anchor_location \<Rightarrow> dl_tdoa_anchor_location" where
  "decode_location arr location =
     (let location = location\<lparr>location_presence := arr ! 0 AND 0x01 \<noteq> 0,
                              coordinates_system := drop_bit 1 (arr ! 0 AND 0x02)\<rparr>
      in if \<not> location_presence location then location
         else case (if coordinates_system location = 0 then wgs84_coordinates (tl arr)
                    else relative_coordinates (tl arr)) of
             (x, y, z) \<Rightarrow> location\<lparr>location_x := le_value x, location_y := le_value y, location_z := le_value z\<rparr>)"

definition cherry_uci_client_session_get_app_config_dl_tdoa_anchor_location_handler ::
    "bytes \<Rightarrow> heap \<Rightarrow> uci_message_parser \<Rightarrow> app_data \<Rightarrow> nat \<Rightarrow> (int \<times> app_data) option" where
  "cherry_uci_client_session_get_app_config_dl_tdoa_anchor_location_handler stack h parser data param_len =
     (if param_len \<noteq> 1 \<and> param_len \<noteq> 11 \<and> param_len \<noteq> 13 then Some (UCI_STATUS_INVALID_MESSAGE_SIZE, data)
      else case data of
        Location l \<Rightarrow>
          do { (xs, parser) \<leftarrow> uci_message_get h parser param_len;
               arr \<leftarrow> write_buf (take DL_TDOA_ANCHOR_LOCATION_MAX_SIZE stack) 0 xs;
               Some (UCI_STATUS_OK, Location (decode_location arr l)) }
      | _ \<Rightarrow> None)"

definition run_app_handler ::
    "bytes \<Rightarrow> app_handler \<Rightarrow> heap \<Rightarrow> uci_message_parser \<Rightarrow> app_data \<Rightarrow> nat \<Rightarrow> (int \<times> app_data) option" where
  "run_app_handler stack f =
     (case f of
        Raw_Handler \<Rightarrow> cherry_uci_client_session_get_app_config_raw_handler
      | Uint8_Handler \<Rightarrow> cherry_uci_client_session_get_app_config_uint8_handler
      | Uint16_Handler \<Rightarrow> cherry_uci_client_session_get_app_config_uint16_handler
      | Dest_Mac_Handler \<Rightarrow> cherry_uci_client_session_get_app_config_dest_mac_address_handler
      | Location_Handler \<Rightarrow> cherry_uci_client_session_get_app_config_dl_tdoa_anchor_location_handler stack)"

definition get_app_config_err :: "'v suci \<Rightarrow> (int \<times> 'v suci) option" where
  "get_app_config_err u = Some (QERR_EINVAL, cherry_session_set_rsp (set_status u UCI_STATUS_INVALID_MESSAGE_SIZE))"

text \<open>The type of the parameter is 8 bits, or 16 bits with a first byte from E0 to E2.\<close>

definition uci_rsp_handler_get_app_config ::
    "'v session_env \<Rightarrow> 'v suci \<Rightarrow> ptr option \<Rightarrow> (int \<times> 'v suci) option" where
  "uci_rsp_handler_get_app_config e u msg =
     do {
       parser \<leftarrow> handler_parser u msg;
       let h = heap (u_mem u);
       (s, parser) \<leftarrow> parse_status h parser;
       let u = set_status u s;
       if uci_message_remaining parser < 3 then get_app_config_err u
       else do {
         (num_app, parser) \<leftarrow> uci_message_get_8bit h parser;
         if num_app \<noteq> 1 then get_app_config_err u
         else do {
           (t0, parser) \<leftarrow> uci_message_get_8bit h parser;
           if (t0 \<ge> 0xE0 \<and> t0 \<le> 0xE2) \<and> uci_message_remaining parser < 2 then get_app_config_err u
           else do {
             (param_type, parser) \<leftarrow>
               (if t0 \<ge> 0xE0 \<and> t0 \<le> 0xE2
                then do { (t1, parser) \<leftarrow> uci_message_get_8bit h parser;
                          Some (push_bit 8 (ucast t0) OR ucast t1 :: 16 word, parser) }
                else Some (ucast t0, parser));
             c \<leftarrow> context_of u;
             case sc_cmd_data c of
               Cmd_Param config_param \<Rightarrow>
                 if ap_param_type config_param \<noteq> param_type then get_app_config_err u
                 else do {
                   (l, parser) \<leftarrow> uci_message_get_8bit h parser;
                   let param_len = unat l;
                   if param_len > ap_maxlen config_param \<or> uci_message_remaining parser < param_len
                   then Some (QERR_SUCCESS, cherry_session_set_rsp (set_status u UCI_STATUS_INVALID_MESSAGE_SIZE))
                   else do {
                     (s, d) \<leftarrow> run_app_handler (se_stack e) (ap_handler config_param) h parser (ap_data config_param) param_len;
                     let u = upd_context u (\<lambda>c. c\<lparr>sc_response_status := s,
                               sc_cmd_data := Cmd_Param (config_param\<lparr>ap_data := d\<rparr>)\<rparr>);
                     Some (QERR_SUCCESS, cherry_session_set_rsp u)
                   }
                 }
             | _ \<Rightarrow> None
           }
         }
       }
     }"

definition uci_rsp_handler_get_count_state :: "'v suci \<Rightarrow> ptr option \<Rightarrow> (int \<times> 'v suci) option" where
  "uci_rsp_handler_get_count_state u msg =
     do {
       parser \<leftarrow> handler_parser u msg;
       if uci_message_remaining parser < 2 then Some (QERR_EINVAL, cherry_session_set_rsp u)
       else do {
         (s, parser) \<leftarrow> parse_status (heap (u_mem u)) parser;
         let u = set_status u s;
         (v, parser) \<leftarrow> uci_message_get_8bit (heap (u_mem u)) parser;
         c \<leftarrow> context_of u;
         case sc_cmd_data c of
           Cmd_Int _ \<Rightarrow> Some (QERR_SUCCESS, cherry_session_set_rsp (upd_context u (\<lambda>c. c\<lparr>sc_cmd_data := Cmd_Int (uint v)\<rparr>)))
         | _ \<Rightarrow> None
       }
     }"

definition uci_rsp_range_data_ntf_handler ::
    "'v session_env \<Rightarrow> 'v suci \<Rightarrow> ptr option \<Rightarrow> (int \<times> 'v suci) option" where
  "uci_rsp_range_data_ntf_handler e u msg =
     do {
       parser \<leftarrow> msg_parser u msg;
       let h = heap (u_mem u);
       if uci_message_remaining parser < INFO_NTF_HEADER_SIZE then Some (QERR_EINVAL, u)
       else do {
         (seq, parser) \<leftarrow> uci_message_get_32bit h parser;
         (hdl, parser) \<leftarrow> uci_message_get_32bit h parser;
         (_, parser) \<leftarrow> uci_message_skip h parser 1;
         (interval, parser) \<leftarrow> uci_message_get_32bit h parser;
         (ty, parser) \<leftarrow> uci_message_get_8bit h parser;
         (_, parser) \<leftarrow> uci_message_skip h parser 1;
         (_, parser) \<leftarrow> uci_message_skip h parser 1;
         (_, parser) \<leftarrow> uci_message_skip h parser 4;
         (_, parser) \<leftarrow> uci_message_skip h parser 4;
         (n, parser) \<leftarrow> uci_message_get_8bit h parser;
         c \<leftarrow> context_of u;
         u \<leftarrow> se_ranging_cb e \<lparr>rd_session_handle = hdl, rd_sequence_number = seq, rd_ranging_interval_ms = interval,
                rd_type = ty, rd_n_measurements = n, rd_parser = parser\<rparr> u;
         Some (QERR_SUCCESS, u)
       }
     }"

section \<open>Handler tables\<close>

text \<open>The function pointers of the tables are numbers that \<open>session_handler\<close> interprets.\<close>

definition session_handler ::
    "'v session_env \<Rightarrow> nat \<Rightarrow> 'v suci \<Rightarrow> 16 word \<Rightarrow> ptr option \<Rightarrow> nat \<Rightarrow> (int \<times> 'v suci) option" where
  "session_handler e f u mt_gid_oid msg user_data =
     (if f = 0 then uci_session_init_rsp_handler u msg
      else if f = 1 then uci_rsp_handler u msg
      else if f = 2 then uci_session_ntf_handler e u msg
      else if f = 3 then uci_rsp_handler_set_app_config u msg
      else if f = 4 then uci_rsp_handler_get_app_config e u msg
      else if f = 5 then uci_rsp_handler_get_count_state u msg
      else if f = 6 then uci_rsp_range_data_ntf_handler e u msg
      else None)"

definition uci_rsp_session_config_handlers :: "uci_message_handler list" where
  "uci_rsp_session_config_handlers =
     [\<lparr>uci_message_id = UCI_MT_GID_OID UCI_MESSAGE_TYPE_RESPONSE UCI_GID_SESSION_CONFIG UCI_OID_SESSION_INIT, handler = 0\<rparr>,
      \<lparr>uci_message_id = UCI_MT_GID_OID UCI_MESSAGE_TYPE_RESPONSE UCI_GID_SESSION_CONFIG UCI_OID_SESSION_DEINIT, handler = 1\<rparr>,
      \<lparr>uci_message_id = UCI_MT_GID_OID UCI_MESSAGE_TYPE_NOTIFICATION UCI_GID_SESSION_CONFIG UCI_OID_SESSION_STATUS, handler = 2\<rparr>,
      \<lparr>uci_message_id = UCI_MT_GID_OID UCI_MESSAGE_TYPE_RESPONSE UCI_GID_SESSION_CONFIG UCI_OID_SESSION_SET_APP_CONFIG, handler = 3\<rparr>,
      \<lparr>uci_message_id = UCI_MT_GID_OID UCI_MESSAGE_TYPE_RESPONSE UCI_GID_SESSION_CONFIG UCI_OID_SESSION_GET_APP_CONFIG, handler = 4\<rparr>,
      \<lparr>uci_message_id = UCI_MT_GID_OID UCI_MESSAGE_TYPE_RESPONSE UCI_GID_SESSION_CONFIG UCI_OID_SESSION_GET_COUNT, handler = 5\<rparr>,
      \<lparr>uci_message_id = UCI_MT_GID_OID UCI_MESSAGE_TYPE_RESPONSE UCI_GID_SESSION_CONFIG UCI_OID_SESSION_GET_STATE, handler = 5\<rparr>]"

definition uci_rsp_session_config_handlers_list :: uci_message_handlers where
  "uci_rsp_session_config_handlers_list =
     \<lparr>mh_next = None, mh_handlers = uci_rsp_session_config_handlers,
      mh_n_handlers = length uci_rsp_session_config_handlers, mh_user_data = 0\<rparr>"

definition uci_rsp_session_control_handlers :: "uci_message_handler list" where
  "uci_rsp_session_control_handlers =
     [\<lparr>uci_message_id = UCI_MT_GID_OID UCI_MESSAGE_TYPE_RESPONSE UCI_GID_SESSION_CONTROL UCI_OID_SESSION_INFO, handler = 1\<rparr>,
      \<lparr>uci_message_id = UCI_MT_GID_OID UCI_MESSAGE_TYPE_NOTIFICATION UCI_GID_SESSION_CONTROL UCI_OID_SESSION_INFO, handler = 6\<rparr>,
      \<lparr>uci_message_id = UCI_MT_GID_OID UCI_MESSAGE_TYPE_RESPONSE UCI_GID_SESSION_CONTROL UCI_OID_SESSION_STOP, handler = 1\<rparr>]"

definition uci_rsp_session_control_handlers_list :: uci_message_handlers where
  "uci_rsp_session_control_handlers_list =
     \<lparr>mh_next = None, mh_handlers = uci_rsp_session_control_handlers,
      mh_n_handlers = length uci_rsp_session_control_handlers, mh_user_data = 0\<rparr>"

definition set_user_data :: "'w uci \<Rightarrow> ptr \<Rightarrow> nat \<Rightarrow> 'w uci option" where
  "set_user_data u p d =
     do { t \<leftarrow> u_htab u p; Some (u\<lparr>u_htab := (u_htab u)(p \<mapsto> t\<lparr>mh_user_data := d\<rparr>)\<rparr>) }"

text \<open>
  The result of the allocation of the context is not checked. The fields that are not set keep what
  was in the memory. The callbacks are those of the environment, and not NULL.
\<close>

definition cherry_uci_client_session_open :: "'v session_env \<Rightarrow> 'v suci \<Rightarrow> (int \<times> 'v suci) option" where
  "cherry_uci_client_session_open e u =
     (case client_malloc u of
        (False, u) \<Rightarrow> None
      | (True, u) \<Rightarrow>
          do {
            let u = u\<lparr>u_world := (u_world u)\<lparr>sw_context := Some ((sw_junk (u_world u))\<lparr>sc_sem := 0\<rparr>)\<rparr>\<rparr>;
            u \<leftarrow> set_user_data u (se_config_list e) 1;
            u \<leftarrow> set_user_data u (se_control_list e) 1;
            u \<leftarrow> uci_message_handlers_register u (Some (se_config_list e));
            u \<leftarrow> uci_message_handlers_register u (Some (se_control_list e));
            Some (QERR_SUCCESS, u)
          })"

definition cherry_uci_client_session_close :: "'v session_env \<Rightarrow> 'v suci \<Rightarrow> 'v suci option" where
  "cherry_uci_client_session_close e u =
     (case context_of u of
        None \<Rightarrow> Some u
      | Some c \<Rightarrow>
          do {
            u \<leftarrow> set_user_data u (se_config_list e) 0;
            u \<leftarrow> set_user_data u (se_control_list e) 0;
            u \<leftarrow> uci_message_handlers_unregister u (Some (se_config_list e));
            u \<leftarrow> uci_message_handlers_unregister u (Some (se_control_list e));
            Some (u\<lparr>u_world := (u_world u)\<lparr>sw_context := None\<rparr>\<rparr>)
          })"

section \<open>Commands\<close>

text \<open>
  Waiting for the response: 1 when the semaphore was given in time. The semaphore is not emptied
  before the command is sent.
\<close>

definition cherry_session_wait_rsp :: "'v session_env \<Rightarrow> 'v suci \<Rightarrow> (bool \<times> 'v suci) option" where
  "cherry_session_wait_rsp e u =
     do {
       c0 \<leftarrow> context_of u;
       u \<leftarrow> (if sc_sem c0 > 0 then Some u else se_wait e u);
       c \<leftarrow> context_of u;
       if sc_sem c > 0 then Some (True, upd_context u (\<lambda>c. c\<lparr>sc_sem := sc_sem c - 1\<rparr>))
       else Some (False, u)
     }"

definition rsp_status :: "'v suci \<Rightarrow> bool \<Rightarrow> int option" where
  "rsp_status u ret =
     do { c \<leftarrow> context_of u; Some (if ret then sc_response_status c else UCI_STATUS_UCI_MESSAGE_RETRY) }"

text \<open>Building a message in the memory of the core; the status of a put is not looked at.\<close>

definition put_8 :: "'v session_env \<Rightarrow> byte \<Rightarrow> 'v suci \<times> uci_message_builder \<Rightarrow> ('v suci \<times> uci_message_builder) option" where
  "put_8 e v = (\<lambda>(u, b). do { (r, m, b) \<leftarrow> uci_message_put_8bit (e_allocator (se_uci e)) (u_mem u) b v;
                               Some (u\<lparr>u_mem := m\<rparr>, b) })"

definition put_32 :: "'v session_env \<Rightarrow> 32 word \<Rightarrow> 'v suci \<times> uci_message_builder \<Rightarrow> ('v suci \<times> uci_message_builder) option" where
  "put_32 e v = (\<lambda>(u, b). do { (r, m, b) \<leftarrow> uci_message_put_32bit (e_allocator (se_uci e)) (u_mem u) b v;
                                Some (u\<lparr>u_mem := m\<rparr>, b) })"

text \<open>Sending the message built and waiting, the end of every command.\<close>

definition send_and_wait ::
    "'v session_env \<Rightarrow> 'v suci \<Rightarrow> 16 word \<Rightarrow> ptr option \<Rightarrow> (int \<times> 'v suci) option" where
  "send_and_wait e u mt_gid_oid msg =
     do {
       u \<leftarrow> uci_send_message (se_uci e) u mt_gid_oid msg;
       (ret, u) \<leftarrow> cherry_session_wait_rsp e u;
       r \<leftarrow> rsp_status u ret;
       Some (r, u)
     }"

definition cherry_uci_client_session_init_session ::
    "'v session_env \<Rightarrow> 'v suci \<Rightarrow> 32 word \<Rightarrow> byte \<Rightarrow> 32 word \<Rightarrow> (int \<times> 32 word \<times> 'v suci) option" where
  "cherry_uci_client_session_init_session e u session_id session_type session_handle =
     (if context_of u = None then Some (UCI_STATUS_INVALID_PARAM, session_handle, u)
      else do {
        (u, b) \<leftarrow> put_32 e session_id (u, uci_message_builder_init);
        (u, b) \<leftarrow> put_8 e session_type (u, b);
        (r, u) \<leftarrow> send_and_wait e u (UCI_MT_GID_OID UCI_MESSAGE_TYPE_COMMAND UCI_GID_SESSION_CONFIG UCI_OID_SESSION_INIT)
                   (mb_message b);
        c \<leftarrow> context_of u;
        Some (r, sc_session_handle c, u)
      })"

definition session_command ::
    "'v session_env \<Rightarrow> 'v suci \<Rightarrow> nat \<Rightarrow> nat \<Rightarrow> 32 word \<Rightarrow> (int \<times> 'v suci) option" where
  "session_command e u gid oid session_handle =
     (if context_of u = None then Some (UCI_STATUS_INVALID_PARAM, u)
      else do {
        (u, b) \<leftarrow> put_32 e session_handle (u, uci_message_builder_init);
        send_and_wait e u (UCI_MT_GID_OID UCI_MESSAGE_TYPE_COMMAND gid oid) (mb_message b)
      })"

definition cherry_uci_client_session_deinit_session where
  "cherry_uci_client_session_deinit_session e u session_handle =
     session_command e u UCI_GID_SESSION_CONFIG UCI_OID_SESSION_DEINIT session_handle"

definition cherry_uci_client_session_start_session where
  "cherry_uci_client_session_start_session e u session_handle =
     session_command e u UCI_GID_SESSION_CONTROL UCI_OID_SESSION_INFO session_handle"

definition cherry_uci_client_session_stop_session where
  "cherry_uci_client_session_stop_session e u session_handle =
     session_command e u UCI_GID_SESSION_CONTROL UCI_OID_SESSION_STOP session_handle"

text \<open>
  The request of a parameter is a local variable: the pointer to it that stays in the context when
  the function returns dangles. Only the low byte of the parameter is sent.
\<close>

definition cherry_uci_client_session_get_app_config ::
    "'v session_env \<Rightarrow> 'v suci \<Rightarrow> 32 word \<Rightarrow> 16 word \<Rightarrow> app_data \<Rightarrow> nat \<Rightarrow> app_handler \<Rightarrow>
     (int \<times> app_data \<times> 'v suci) option" where
  "cherry_uci_client_session_get_app_config e u session_handle param data maxlen f =
     (if context_of u = None \<or> maxlen = 0 then Some (UCI_STATUS_INVALID_PARAM, data, u)
      else do {
        (u, b) \<leftarrow> put_32 e session_handle (u, uci_message_builder_init);
        (u, b) \<leftarrow> put_8 e 1 (u, b);
        (u, b) \<leftarrow> put_8 e (ucast param) (u, b);
        let u = upd_context u (\<lambda>c. c\<lparr>sc_cmd_data := Cmd_Param
                  \<lparr>ap_param_type = param, ap_maxlen = maxlen, ap_data = data, ap_handler = f\<rparr>\<rparr>);
        (r, u) \<leftarrow> send_and_wait e u (UCI_MT_GID_OID UCI_MESSAGE_TYPE_COMMAND UCI_GID_SESSION_CONFIG UCI_OID_SESSION_GET_APP_CONFIG)
                   (mb_message b);
        c \<leftarrow> context_of u;
        Some (r, (case sc_cmd_data c of Cmd_Param p \<Rightarrow> ap_data p | _ \<Rightarrow> data),
              upd_context u (\<lambda>c. c\<lparr>sc_cmd_data := Cmd_Dangling\<rparr>))
      })"

definition get_int ::
    "'v session_env \<Rightarrow> 'v suci \<Rightarrow> nat \<Rightarrow> uci_message_builder \<Rightarrow> int \<Rightarrow> (int \<times> int \<times> 'v suci) option" where
  "get_int e u oid b v =
     do {
       let u = upd_context u (\<lambda>c. c\<lparr>sc_cmd_data := Cmd_Int v\<rparr>);
       (r, u) \<leftarrow> send_and_wait e u (UCI_MT_GID_OID UCI_MESSAGE_TYPE_COMMAND UCI_GID_SESSION_CONFIG oid) (mb_message b);
       c \<leftarrow> context_of u;
       Some (r, (case sc_cmd_data c of Cmd_Int v \<Rightarrow> v | _ \<Rightarrow> v), u)
     }"

definition cherry_uci_client_session_get_count ::
    "'v session_env \<Rightarrow> 'v suci \<Rightarrow> int \<Rightarrow> (int \<times> int \<times> 'v suci) option" where
  "cherry_uci_client_session_get_count e u count =
     (if context_of u = None then Some (UCI_STATUS_INVALID_PARAM, count, u)
      else get_int e u UCI_OID_SESSION_GET_COUNT uci_message_builder_init count)"

definition cherry_uci_client_session_get_state ::
    "'v session_env \<Rightarrow> 'v suci \<Rightarrow> 32 word \<Rightarrow> int \<Rightarrow> (int \<times> int \<times> 'v suci) option" where
  "cherry_uci_client_session_get_state e u session_handle state =
     (if context_of u = None then Some (UCI_STATUS_INVALID_PARAM, state, u)
      else do {
        (u, b) \<leftarrow> put_32 e session_handle (u, uci_message_builder_init);
        get_int e u UCI_OID_SESSION_GET_STATE b state
      })"

section \<open>Status of a frame\<close>

datatype cherry_common_frame_status =
    CHERRY_COMMON_FRAME_STATUS_OK | CHERRY_COMMON_FRAME_STATUS_TX_FAILED
  | CHERRY_COMMON_FRAME_STATUS_RX_TIMEOUT | CHERRY_COMMON_FRAME_STATUS_RX_PHY_DEC_FAILED
  | CHERRY_COMMON_FRAME_STATUS_RX_PHY_TOA_FAILED | CHERRY_COMMON_FRAME_STATUS_RX_PHY_STS_FAILED
  | CHERRY_COMMON_FRAME_STATUS_RX_MAC_DEC_FAILED | CHERRY_COMMON_FRAME_STATUS_RX_MAC_IE_DEC_FAILED
  | CHERRY_COMMON_FRAME_STATUS_RX_MAC_IE_MISSING | CHERRY_COMMON_FRAME_STATUS_UNKNOWN

abbreviation (input) FIRA_STATUS_OK :: nat where "FIRA_STATUS_OK \<equiv> 0x00"
abbreviation (input) FIRA_STATUS_OK_NEGATIVE_DISTANCE_REPORT :: nat where "FIRA_STATUS_OK_NEGATIVE_DISTANCE_REPORT \<equiv> 0x1B"
abbreviation (input) FIRA_STATUS_RANGING_TX_FAILED :: nat where "FIRA_STATUS_RANGING_TX_FAILED \<equiv> 0x20"
abbreviation (input) FIRA_STATUS_RANGING_RX_TIMEOUT :: nat where "FIRA_STATUS_RANGING_RX_TIMEOUT \<equiv> 0x21"
abbreviation (input) FIRA_STATUS_RANGING_RX_PHY_DEC_FAILED :: nat where "FIRA_STATUS_RANGING_RX_PHY_DEC_FAILED \<equiv> 0x22"
abbreviation (input) FIRA_STATUS_RANGING_RX_PHY_TOA_FAILED :: nat where "FIRA_STATUS_RANGING_RX_PHY_TOA_FAILED \<equiv> 0x23"
abbreviation (input) FIRA_STATUS_RANGING_RX_PHY_STS_FAILED :: nat where "FIRA_STATUS_RANGING_RX_PHY_STS_FAILED \<equiv> 0x24"
abbreviation (input) FIRA_STATUS_RANGING_RX_MAC_DEC_FAILED :: nat where "FIRA_STATUS_RANGING_RX_MAC_DEC_FAILED \<equiv> 0x25"
abbreviation (input) FIRA_STATUS_RANGING_RX_MAC_IE_DEC_FAILED :: nat where "FIRA_STATUS_RANGING_RX_MAC_IE_DEC_FAILED \<equiv> 0x26"
abbreviation (input) FIRA_STATUS_RANGING_RX_MAC_IE_MISSING :: nat where "FIRA_STATUS_RANGING_RX_MAC_IE_MISSING \<equiv> 0x27"

definition cherry_session_frame_status_to_cherry_format :: "nat \<Rightarrow> cherry_common_frame_status" where
  "cherry_session_frame_status_to_cherry_format code =
     (if code = FIRA_STATUS_OK \<or> code = FIRA_STATUS_OK_NEGATIVE_DISTANCE_REPORT then CHERRY_COMMON_FRAME_STATUS_OK
      else if code = FIRA_STATUS_RANGING_TX_FAILED then CHERRY_COMMON_FRAME_STATUS_TX_FAILED
      else if code = FIRA_STATUS_RANGING_RX_TIMEOUT then CHERRY_COMMON_FRAME_STATUS_RX_TIMEOUT
      else if code = FIRA_STATUS_RANGING_RX_PHY_DEC_FAILED then CHERRY_COMMON_FRAME_STATUS_RX_PHY_DEC_FAILED
      else if code = FIRA_STATUS_RANGING_RX_PHY_TOA_FAILED then CHERRY_COMMON_FRAME_STATUS_RX_PHY_TOA_FAILED
      else if code = FIRA_STATUS_RANGING_RX_PHY_STS_FAILED then CHERRY_COMMON_FRAME_STATUS_RX_PHY_STS_FAILED
      else if code = FIRA_STATUS_RANGING_RX_MAC_DEC_FAILED then CHERRY_COMMON_FRAME_STATUS_RX_MAC_DEC_FAILED
      else if code = FIRA_STATUS_RANGING_RX_MAC_IE_DEC_FAILED then CHERRY_COMMON_FRAME_STATUS_RX_MAC_IE_DEC_FAILED
      else if code = FIRA_STATUS_RANGING_RX_MAC_IE_MISSING then CHERRY_COMMON_FRAME_STATUS_RX_MAC_IE_MISSING
      else CHERRY_COMMON_FRAME_STATUS_UNKNOWN)"

end
