(* ===== verification/App_Config.thy ===== *)
theory App_Config
  imports Session_Client
begin

text \<open>
  The command that sets application parameters (\<^verbatim>\<open>cherry_session_client.c\<close> and the inline
  functions of \<^verbatim>\<open>cherry_session_client.h\<close>): a message under construction that starts with the
  handle of the session and the number of parameters, both filled in later through pointers into the
  message, and continues with one type, length and value per parameter.
\<close>

section \<open>The command\<close>

record set_app_config_cmd =
  ac_builder :: uci_message_builder
  ac_session_handle :: "ptr \<times> nat"
  ac_nb_app_config :: "ptr \<times> nat"

text \<open>
  The result is NULL when memory gives out. The structure of the command is freed then, the blocks
  its builder had allocated are not.
\<close>

definition cherry_uci_client_session_set_app_config_cmd_create ::
    "'v session_env \<Rightarrow> 'v suci \<Rightarrow> (set_app_config_cmd option \<times> 'v suci) option" where
  "cherry_uci_client_session_set_app_config_cmd_create e u =
     (if context_of u = None then Some (None, u)
      else case client_malloc u of
        (False, u) \<Rightarrow> Some (None, u)
      | (True, u) \<Rightarrow>
          do {
            (h, m, b) \<leftarrow> uci_message_reserve_32bit (e_allocator (se_uci e)) (u_mem u) uci_message_builder_init (- 1);
            let u = u\<lparr>u_mem := m\<rparr>;
            case h of
              None \<Rightarrow> Some (None, u)
            | Some h \<Rightarrow>
                do {
                  (n, m, b) \<leftarrow> uci_message_reserve_8bit (e_allocator (se_uci e)) (u_mem u) b 0;
                  let u = u\<lparr>u_mem := m\<rparr>;
                  case n of
                    None \<Rightarrow> Some (None, u)
                  | Some n \<Rightarrow> Some (Some \<lparr>ac_builder = b, ac_session_handle = h, ac_nb_app_config = n\<rparr>, u)
                }
          })"

definition incr_nb_app_config :: "'v suci \<Rightarrow> set_app_config_cmd \<Rightarrow> 'v suci option" where
  "incr_nb_app_config u c =
     do { v \<leftarrow> read_elem (u_mem u) (ac_nb_app_config c);
          m \<leftarrow> write_chunk (u_mem u) (Some (ac_nb_app_config c)) [v + 1];
          Some (u\<lparr>u_mem := m\<rparr>) }"

text \<open>
  A sequence of puts, each followed by a return of \<^verbatim>\<open>UCI_STATUS_FAILED\<close> when it fails.
  \<open>Put_Data d n\<close> writes the first \<open>n\<close> bytes of a buffer.
\<close>

datatype put_item = Put_8 byte | Put_16 "16 word" | Put_32 "32 word" | Put_Data bytes nat

definition put_one ::
    "uci_allocator_ops \<Rightarrow> mem \<Rightarrow> uci_message_builder \<Rightarrow> put_item \<Rightarrow> (int \<times> mem \<times> uci_message_builder) option" where
  "put_one A m b i =
     (case i of
        Put_8 v \<Rightarrow> uci_message_put_8bit A m b v
      | Put_16 v \<Rightarrow> uci_message_put_16bit A m b v
      | Put_32 v \<Rightarrow> uci_message_put_32bit A m b v
      | Put_Data d n \<Rightarrow> do { xs \<leftarrow> read_buf d 0 n; uci_message_put A m b xs })"

primrec put_items ::
    "'v session_env \<Rightarrow> 'v suci \<Rightarrow> set_app_config_cmd \<Rightarrow> put_item list \<Rightarrow>
     (int \<times> 'v suci \<times> set_app_config_cmd) option" where
  "put_items e u c [] = Some (UCI_STATUS_OK, u, c)"
| "put_items e u c (i # is) =
     do {
       (ret, m, b) \<leftarrow> put_one (e_allocator (se_uci e)) (u_mem u) (ac_builder c) i;
       let u = u\<lparr>u_mem := m\<rparr>;
       let c = c\<lparr>ac_builder := b\<rparr>;
       if ret \<noteq> 0 then Some (UCI_STATUS_FAILED, u, c) else put_items e u c is
     }"

text \<open>The pointers to the command and to the data may be NULL.\<close>

type_synonym 'v put_result = "(int \<times> 'v suci \<times> set_app_config_cmd option) option"

definition cherry_uci_client_session_set_app_config_cmd_put ::
    "'v session_env \<Rightarrow> 'v suci \<Rightarrow> set_app_config_cmd option \<Rightarrow> 16 word \<Rightarrow> bytes option \<Rightarrow> byte \<Rightarrow> 'v put_result" where
  "cherry_uci_client_session_set_app_config_cmd_put e u cmd param_id data sz =
     (case (cmd, data) of
        (Some c, Some d) \<Rightarrow>
          if sz = 0 then Some (UCI_STATUS_INVALID_PARAM, u, cmd)
          else if param_id > 0xFF \<and> (param_id < 0xE000 \<or> param_id > 0xE200)
          then Some (UCI_STATUS_INVALID_PARAM, u, cmd)
          else do {
            (ret, u, c) \<leftarrow> put_items e u c
              [if param_id \<le> 0xFF then Put_8 (ucast param_id) else Put_16 param_id,
               Put_8 sz, Put_Data d (unat sz)];
            if ret \<noteq> UCI_STATUS_OK then Some (ret, u, Some c)
            else do { u \<leftarrow> incr_nb_app_config u c; Some (UCI_STATUS_OK, u, Some c) }
          }
      | _ \<Rightarrow> Some (UCI_STATUS_INVALID_PARAM, u, cmd))"

definition cherry_uci_client_session_set_app_config_cmd_destroy ::
    "'v session_env \<Rightarrow> 'v suci \<Rightarrow> set_app_config_cmd option \<Rightarrow> 'v suci option" where
  "cherry_uci_client_session_set_app_config_cmd_destroy e u cmd =
     (case cmd of
        None \<Rightarrow> Some u
      | Some c \<Rightarrow> do { m \<leftarrow> uci_blk_free_all (e_allocator (se_uci e)) (u_mem u) (mb_message (ac_builder c));
                      Some (u\<lparr>u_mem := m\<rparr>) })"

definition cherry_uci_client_session_set_app_config_cmd_abort ::
    "'v session_env \<Rightarrow> 'v suci \<Rightarrow> set_app_config_cmd option \<Rightarrow> 'v suci option" where
  "cherry_uci_client_session_set_app_config_cmd_abort e u cmd =
     cherry_uci_client_session_set_app_config_cmd_destroy e u cmd"

definition cherry_uci_client_session_set_app_config_cmd_send ::
    "'v session_env \<Rightarrow> 'v suci \<Rightarrow> set_app_config_cmd option \<Rightarrow> 32 word \<Rightarrow> (int \<times> 'v suci) option" where
  "cherry_uci_client_session_set_app_config_cmd_send e u cmd session_handle =
     (case cmd of
        None \<Rightarrow> Some (UCI_STATUS_INVALID_PARAM, u)
      | Some c \<Rightarrow>
          do {
            n \<leftarrow> read_elem (u_mem u) (ac_nb_app_config c);
            if n = 0
            then do { u \<leftarrow> cherry_uci_client_session_set_app_config_cmd_abort e u cmd; Some (UCI_STATUS_OK, u) }
            else do {
              m \<leftarrow> write_chunk (u_mem u) (Some (ac_session_handle c)) (le_bytes 4 session_handle);
              u \<leftarrow> uci_send_message (se_uci e) (u\<lparr>u_mem := m\<rparr>)
                    (UCI_MT_GID_OID UCI_MESSAGE_TYPE_COMMAND UCI_GID_SESSION_CONFIG UCI_OID_SESSION_SET_APP_CONFIG)
                    (mb_message (ac_builder c));
              let c = c\<lparr>ac_builder := (ac_builder c)\<lparr>mb_message := None\<rparr>\<rparr>;
              (ret, u) \<leftarrow> cherry_session_wait_rsp e u;
              u \<leftarrow> cherry_uci_client_session_set_app_config_cmd_destroy e u (Some c);
              r \<leftarrow> rsp_status u ret;
              Some (r, u)
            }
          })"

subsection \<open>Scalars\<close>

definition cherry_uci_client_session_set_app_config_cmd_put_uint8 ::
    "'v session_env \<Rightarrow> 'v suci \<Rightarrow> set_app_config_cmd option \<Rightarrow> 16 word \<Rightarrow> 8 word \<Rightarrow> 'v put_result" where
  "cherry_uci_client_session_set_app_config_cmd_put_uint8 e u cmd param_id v =
     cherry_uci_client_session_set_app_config_cmd_put e u cmd param_id (Some [v]) 1"

definition cherry_uci_client_session_set_app_config_cmd_put_int8 ::
    "'v session_env \<Rightarrow> 'v suci \<Rightarrow> set_app_config_cmd option \<Rightarrow> 16 word \<Rightarrow> 8 word \<Rightarrow> 'v put_result" where
  "cherry_uci_client_session_set_app_config_cmd_put_int8 e u cmd param_id v =
     cherry_uci_client_session_set_app_config_cmd_put e u cmd param_id (Some [v]) 1"

definition cherry_uci_client_session_set_app_config_cmd_put_uint16 ::
    "'v session_env \<Rightarrow> 'v suci \<Rightarrow> set_app_config_cmd option \<Rightarrow> 16 word \<Rightarrow> 16 word \<Rightarrow> 'v put_result" where
  "cherry_uci_client_session_set_app_config_cmd_put_uint16 e u cmd param_id v =
     cherry_uci_client_session_set_app_config_cmd_put e u cmd param_id (Some [ucast v, ucast (drop_bit 8 v)]) 2"

definition cherry_uci_client_session_set_app_config_cmd_put_int16 ::
    "'v session_env \<Rightarrow> 'v suci \<Rightarrow> set_app_config_cmd option \<Rightarrow> 16 word \<Rightarrow> 16 word \<Rightarrow> 'v put_result" where
  "cherry_uci_client_session_set_app_config_cmd_put_int16 e u cmd param_id v =
     cherry_uci_client_session_set_app_config_cmd_put_uint16 e u cmd param_id v"

definition cherry_uci_client_session_set_app_config_cmd_put_uint32 ::
    "'v session_env \<Rightarrow> 'v suci \<Rightarrow> set_app_config_cmd option \<Rightarrow> 16 word \<Rightarrow> 32 word \<Rightarrow> 'v put_result" where
  "cherry_uci_client_session_set_app_config_cmd_put_uint32 e u cmd param_id v =
     cherry_uci_client_session_set_app_config_cmd_put e u cmd param_id
       (Some [ucast v, ucast (drop_bit 8 v), ucast (drop_bit 16 v), ucast (drop_bit 24 v)]) 4"

definition cherry_uci_client_session_set_app_config_cmd_put_int32 ::
    "'v session_env \<Rightarrow> 'v suci \<Rightarrow> set_app_config_cmd option \<Rightarrow> 16 word \<Rightarrow> 32 word \<Rightarrow> 'v put_result" where
  "cherry_uci_client_session_set_app_config_cmd_put_int32 e u cmd param_id v =
     cherry_uci_client_session_set_app_config_cmd_put_uint32 e u cmd param_id v"

definition cherry_uci_client_session_set_app_config_cmd_put_uint64 ::
    "'v session_env \<Rightarrow> 'v suci \<Rightarrow> set_app_config_cmd option \<Rightarrow> 16 word \<Rightarrow> 64 word \<Rightarrow> 'v put_result" where
  "cherry_uci_client_session_set_app_config_cmd_put_uint64 e u cmd param_id v =
     cherry_uci_client_session_set_app_config_cmd_put e u cmd param_id
       (Some [ucast v, ucast (drop_bit 8 v), ucast (drop_bit 16 v), ucast (drop_bit 24 v),
              ucast (drop_bit 32 v), ucast (drop_bit 40 v), ucast (drop_bit 48 v), ucast (drop_bit 56 v)]) 8"

definition cherry_uci_client_session_set_app_config_cmd_put_int64 ::
    "'v session_env \<Rightarrow> 'v suci \<Rightarrow> set_app_config_cmd option \<Rightarrow> 16 word \<Rightarrow> 64 word \<Rightarrow> 'v put_result" where
  "cherry_uci_client_session_set_app_config_cmd_put_int64 e u cmd param_id v =
     cherry_uci_client_session_set_app_config_cmd_put_uint64 e u cmd param_id v"

end
