(* ===== verification/App_Params.thy ===== *)
theory App_Params
  imports App_Config
begin

text \<open>
  The application parameters: their identifiers (\<^verbatim>\<open>uci_spec_fira.h\<close>) and the functions that add
  one of them to the command (inline functions of \<^verbatim>\<open>cherry_session_client.h\<close>, and
  \<^verbatim>\<open>put_session_time_base\<close> and \<^verbatim>\<open>put_dest_mac_address\<close> of \<^verbatim>\<open>cherry_session_client.c\<close>).
  Signed values are the words of the same width.
\<close>

section \<open>Identifiers\<close>

abbreviation (input) VENDOR_ID_SIZE :: byte where "VENDOR_ID_SIZE \<equiv> 2"
abbreviation (input) STATIC_STS_IV_SIZE :: byte where "STATIC_STS_IV_SIZE \<equiv> 6"
abbreviation (input) UCI_APPLICATION_PARAMETER_RANGING_INTERVAL :: "16 word" where "UCI_APPLICATION_PARAMETER_RANGING_INTERVAL \<equiv> 0x09"
abbreviation (input) UCI_APPLICATION_PARAMETER_DEVICE_TYPE :: "16 word" where "UCI_APPLICATION_PARAMETER_DEVICE_TYPE \<equiv> 0x00"
abbreviation (input) UCI_APPLICATION_PARAMETER_RANGING_ROUND_USAGE :: "16 word" where "UCI_APPLICATION_PARAMETER_RANGING_ROUND_USAGE \<equiv> 0x01"
abbreviation (input) UCI_APPLICATION_PARAMETER_DEVICE_ROLE :: "16 word" where "UCI_APPLICATION_PARAMETER_DEVICE_ROLE \<equiv> 0x11"
abbreviation (input) UCI_APPLICATION_PARAMETER_STS_CONFIG :: "16 word" where "UCI_APPLICATION_PARAMETER_STS_CONFIG \<equiv> 0x02"
abbreviation (input) UCI_APPLICATION_PARAMETER_MULTI_NODE_MODE :: "16 word" where "UCI_APPLICATION_PARAMETER_MULTI_NODE_MODE \<equiv> 0x03"
abbreviation (input) UCI_APPLICATION_PARAMETER_NUMBER_OF_STS_SEGMENTS :: "16 word" where "UCI_APPLICATION_PARAMETER_NUMBER_OF_STS_SEGMENTS \<equiv> 0x29"
abbreviation (input) UCI_APPLICATION_PARAMETER_DEVICE_MAC_ADDRESS :: "16 word" where "UCI_APPLICATION_PARAMETER_DEVICE_MAC_ADDRESS \<equiv> 0x06"
abbreviation (input) UCI_APPLICATION_PARAMETER_MAC_ADDRESS_MODE :: "16 word" where "UCI_APPLICATION_PARAMETER_MAC_ADDRESS_MODE \<equiv> 0x26"
abbreviation (input) UCI_APPLICATION_PARAMETER_NUMBER_OF_CONTROLEES :: "16 word" where "UCI_APPLICATION_PARAMETER_NUMBER_OF_CONTROLEES \<equiv> 0x05"
abbreviation (input) UCI_APPLICATION_PARAMETER_RESULT_REPORT_CONFIG :: "16 word" where "UCI_APPLICATION_PARAMETER_RESULT_REPORT_CONFIG \<equiv> 0x2e"
abbreviation (input) UCI_APPLICATION_PARAMETER_DST_MAC_ADDRESS :: "16 word" where "UCI_APPLICATION_PARAMETER_DST_MAC_ADDRESS \<equiv> 0x07"
abbreviation (input) UCI_APPLICATION_PARAMETER_UWB_INITIATION_TIME :: "16 word" where "UCI_APPLICATION_PARAMETER_UWB_INITIATION_TIME \<equiv> 0x2b"
abbreviation (input) UCI_APPLICATION_PARAMETER_SLOT_DURATION :: "16 word" where "UCI_APPLICATION_PARAMETER_SLOT_DURATION \<equiv> 0x08"
abbreviation (input) UCI_APPLICATION_PARAMETER_SLOTS_PER_RR :: "16 word" where "UCI_APPLICATION_PARAMETER_SLOTS_PER_RR \<equiv> 0x1b"
abbreviation (input) UCI_APPLICATION_PARAMETER_BLOCK_STRIDE_LENGTH :: "16 word" where "UCI_APPLICATION_PARAMETER_BLOCK_STRIDE_LENGTH \<equiv> 0x2d"
abbreviation (input) UCI_APPLICATION_PARAMETER_HOPPING_MODE :: "16 word" where "UCI_APPLICATION_PARAMETER_HOPPING_MODE \<equiv> 0x2c"
abbreviation (input) UCI_APPLICATION_PARAMETER_SESSION_PRIORITY :: "16 word" where "UCI_APPLICATION_PARAMETER_SESSION_PRIORITY \<equiv> 0x25"
abbreviation (input) UCI_APPLICATION_PARAMETER_SCHEDULE_MODE :: "16 word" where "UCI_APPLICATION_PARAMETER_SCHEDULE_MODE \<equiv> 0x22"
abbreviation (input) UCI_APPLICATION_PARAMETER_MAX_NUMBER_OF_MEASUREMENTS :: "16 word" where "UCI_APPLICATION_PARAMETER_MAX_NUMBER_OF_MEASUREMENTS \<equiv> 0x32"
abbreviation (input) UCI_APPLICATION_PARAMETER_MAX_RR_RETRY :: "16 word" where "UCI_APPLICATION_PARAMETER_MAX_RR_RETRY \<equiv> 0x2a"
abbreviation (input) UCI_APPLICATION_PARAMETER_CHANNEL_NUMBER :: "16 word" where "UCI_APPLICATION_PARAMETER_CHANNEL_NUMBER \<equiv> 0x04"
abbreviation (input) UCI_APPLICATION_PARAMETER_PREAMBLE_CODE_INDEX :: "16 word" where "UCI_APPLICATION_PARAMETER_PREAMBLE_CODE_INDEX \<equiv> 0x14"
abbreviation (input) UCI_APPLICATION_PARAMETER_RFRAME_CONFIG :: "16 word" where "UCI_APPLICATION_PARAMETER_RFRAME_CONFIG \<equiv> 0x12"
abbreviation (input) UCI_APPLICATION_PARAMETER_PREAMBLE_DURATION :: "16 word" where "UCI_APPLICATION_PARAMETER_PREAMBLE_DURATION \<equiv> 0x17"
abbreviation (input) UCI_APPLICATION_PARAMETER_SFD_ID :: "16 word" where "UCI_APPLICATION_PARAMETER_SFD_ID \<equiv> 0x15"
abbreviation (input) UCI_APPLICATION_PARAMETER_PSDU_DATA_RATE :: "16 word" where "UCI_APPLICATION_PARAMETER_PSDU_DATA_RATE \<equiv> 0x16"
abbreviation (input) UCI_APPLICATION_PARAMETER_KEY_ROTATION :: "16 word" where "UCI_APPLICATION_PARAMETER_KEY_ROTATION \<equiv> 0x23"
abbreviation (input) UCI_APPLICATION_PARAMETER_KEY_ROTATION_RATE :: "16 word" where "UCI_APPLICATION_PARAMETER_KEY_ROTATION_RATE \<equiv> 0x24"
abbreviation (input) UCI_APPLICATION_PARAMETER_SESSION_INFO_NTF_CONFIG :: "16 word" where "UCI_APPLICATION_PARAMETER_SESSION_INFO_NTF_CONFIG \<equiv> 0x0e"
abbreviation (input) UCI_APPLICATION_PARAMETER_RSSI_REPORTING :: "16 word" where "UCI_APPLICATION_PARAMETER_RSSI_REPORTING \<equiv> 0x13"
abbreviation (input) UCI_APPLICATION_PARAMETER_PRF_MODE :: "16 word" where "UCI_APPLICATION_PARAMETER_PRF_MODE \<equiv> 0x1f"
abbreviation (input) UCI_APPLICATION_PARAMETER_STS_LENGTH :: "16 word" where "UCI_APPLICATION_PARAMETER_STS_LENGTH \<equiv> 0x35"
abbreviation (input) UCI_APPLICATION_PARAMETER_RX_ANTENNA_SELECTION :: "16 word" where "UCI_APPLICATION_PARAMETER_RX_ANTENNA_SELECTION \<equiv> 0xe6"
abbreviation (input) UCI_APPLICATION_PARAMETER_TX_ANTENNA_SELECTION :: "16 word" where "UCI_APPLICATION_PARAMETER_TX_ANTENNA_SELECTION \<equiv> 0xe7"
abbreviation (input) UCI_APPLICATION_PARAMETER_ROUND2_RX_ANTENNA_SELECTION :: "16 word" where "UCI_APPLICATION_PARAMETER_ROUND2_RX_ANTENNA_SELECTION \<equiv> 0xae"
abbreviation (input) UCI_APPLICATION_PARAMETER_ROUND2_TX_ANTENNA_SELECTION :: "16 word" where "UCI_APPLICATION_PARAMETER_ROUND2_TX_ANTENNA_SELECTION \<equiv> 0xaf"
abbreviation (input) UCI_APPLICATION_PARAMETER_VENDOR_ID :: "16 word" where "UCI_APPLICATION_PARAMETER_VENDOR_ID \<equiv> 0x27"
abbreviation (input) UCI_APPLICATION_PARAMETER_STATIC_STS_IV :: "16 word" where "UCI_APPLICATION_PARAMETER_STATIC_STS_IV \<equiv> 0x28"
abbreviation (input) UCI_APPLICATION_PARAMETER_SESSION_KEY :: "16 word" where "UCI_APPLICATION_PARAMETER_SESSION_KEY \<equiv> 0x45"
abbreviation (input) UCI_APPLICATION_PARAMETER_DIAGS_FRAME_REPORTS_FIELDS :: "16 word" where "UCI_APPLICATION_PARAMETER_DIAGS_FRAME_REPORTS_FIELDS \<equiv> 0xe9"
abbreviation (input) UCI_APPLICATION_PARAMETER_ENABLE_DIAGNOSTICS :: "16 word" where "UCI_APPLICATION_PARAMETER_ENABLE_DIAGNOSTICS \<equiv> 0xe8"
abbreviation (input) UCI_APPLICATION_PARAMETER_SUB_SESSION_KEY :: "16 word" where "UCI_APPLICATION_PARAMETER_SUB_SESSION_KEY \<equiv> 0x46"
abbreviation (input) UCI_APPLICATION_PARAMETER_DATA_REPETITION_COUNT :: "16 word" where "UCI_APPLICATION_PARAMETER_DATA_REPETITION_COUNT \<equiv> 0x19"
abbreviation (input) UCI_APPLICATION_PARAMETER_DL_TDOA_RANGING_METHOD :: "16 word" where "UCI_APPLICATION_PARAMETER_DL_TDOA_RANGING_METHOD \<equiv> 0x3d"
abbreviation (input) UCI_APPLICATION_PARAMETER_DL_TDOA_TX_TIMESTAMP_CONF :: "16 word" where "UCI_APPLICATION_PARAMETER_DL_TDOA_TX_TIMESTAMP_CONF \<equiv> 0x3e"
abbreviation (input) UCI_APPLICATION_PARAMETER_DL_TDOA_HOP_COUNT :: "16 word" where "UCI_APPLICATION_PARAMETER_DL_TDOA_HOP_COUNT \<equiv> 0x3f"
abbreviation (input) UCI_APPLICATION_PARAMETER_DL_TDOA_ANCHOR_CFO :: "16 word" where "UCI_APPLICATION_PARAMETER_DL_TDOA_ANCHOR_CFO \<equiv> 0x40"
abbreviation (input) UCI_APPLICATION_PARAMETER_DL_TDOA_TX_ACTIVE_RANGING_ROUNDS :: "16 word" where "UCI_APPLICATION_PARAMETER_DL_TDOA_TX_ACTIVE_RANGING_ROUNDS \<equiv> 0x42"
abbreviation (input) UCI_APPLICATION_PARAMETER_DL_TDOA_BLOCK_SKIPPING :: "16 word" where "UCI_APPLICATION_PARAMETER_DL_TDOA_BLOCK_SKIPPING \<equiv> 0x43"
abbreviation (input) UCI_APPLICATION_PARAMETER_DL_TDOA_TIME_REFERENCE_ANCHOR :: "16 word" where "UCI_APPLICATION_PARAMETER_DL_TDOA_TIME_REFERENCE_ANCHOR \<equiv> 0x44"
abbreviation (input) UCI_APPLICATION_PARAMETER_DL_TDOA_RESPONDER_TOF :: "16 word" where "UCI_APPLICATION_PARAMETER_DL_TDOA_RESPONDER_TOF \<equiv> 0x49"
abbreviation (input) UCI_APPLICATION_PARAMETER_RADAR_TIMING_PARAMS :: "16 word" where "UCI_APPLICATION_PARAMETER_RADAR_TIMING_PARAMS \<equiv> 0xb0"
abbreviation (input) UCI_APPLICATION_PARAMETER_RADAR_SAMPLES_PER_SWEEP :: "16 word" where "UCI_APPLICATION_PARAMETER_RADAR_SAMPLES_PER_SWEEP \<equiv> 0xb1"
abbreviation (input) UCI_APPLICATION_PARAMETER_ANTENNA_SET_ID :: "16 word" where "UCI_APPLICATION_PARAMETER_ANTENNA_SET_ID \<equiv> 0xb6"
abbreviation (input) UCI_APPLICATION_PARAMETER_RADAR_NUMBER_OF_BURSTS :: "16 word" where "UCI_APPLICATION_PARAMETER_RADAR_NUMBER_OF_BURSTS \<equiv> 0xb4"
abbreviation (input) UCI_APPLICATION_PARAMETER_RADAR_SWEEP_OFFSET :: "16 word" where "UCI_APPLICATION_PARAMETER_RADAR_SWEEP_OFFSET \<equiv> 0xb2"
abbreviation (input) UCI_APPLICATION_PARAMETER_TX_PROFILE_IDX :: "16 word" where "UCI_APPLICATION_PARAMETER_TX_PROFILE_IDX \<equiv> 0xb7"
abbreviation (input) UCI_APPLICATION_PARAMETER_SELECTED_UWB_CONFIG_ID :: "16 word" where "UCI_APPLICATION_PARAMETER_SELECTED_UWB_CONFIG_ID \<equiv> 0xa4"
abbreviation (input) UCI_APPLICATION_PARAMETER_SELECTED_PULSE_SHAPE_COMBO :: "16 word" where "UCI_APPLICATION_PARAMETER_SELECTED_PULSE_SHAPE_COMBO \<equiv> 0xa5"
abbreviation (input) UCI_APPLICATION_PARAMETER_SYNC_CODE_INDEX :: "16 word" where "UCI_APPLICATION_PARAMETER_SYNC_CODE_INDEX \<equiv> 0x14"
abbreviation (input) UCI_APPLICATION_PARAMETER_STS_INDEX0 :: "16 word" where "UCI_APPLICATION_PARAMETER_STS_INDEX0 \<equiv> 0x0a"
abbreviation (input) UCI_APPLICATION_PARAMETER_MAC_MODE :: "16 word" where "UCI_APPLICATION_PARAMETER_MAC_MODE \<equiv> 0xa9"
abbreviation (input) UCI_APPLICATION_PARAMETER_RESPONDER_SLOT_INDEX :: "16 word" where "UCI_APPLICATION_PARAMETER_RESPONDER_SLOT_INDEX \<equiv> 0xa2"
abbreviation (input) UCI_APPLICATION_PARAMETER_DL_TDOA_ANCHOR_LOCATION :: "16 word" where "UCI_APPLICATION_PARAMETER_DL_TDOA_ANCHOR_LOCATION \<equiv> 0x41"
abbreviation (input) UCI_APPLICATION_PARAMETER_SESSION_TIME_BASE :: "16 word" where "UCI_APPLICATION_PARAMETER_SESSION_TIME_BASE \<equiv> 0x48"

section \<open>Setting a parameter\<close>

definition cherry_uci_client_session_set_app_config_cmd_put_interval_ms ::
    "'v session_env \<Rightarrow> 'v suci \<Rightarrow> set_app_config_cmd option \<Rightarrow> 32 word \<Rightarrow> 'v put_result" where
  "cherry_uci_client_session_set_app_config_cmd_put_interval_ms e u cmd interval_ms =
     cherry_uci_client_session_set_app_config_cmd_put_int32 e u cmd
       UCI_APPLICATION_PARAMETER_RANGING_INTERVAL interval_ms"

definition cherry_uci_client_session_set_app_config_cmd_put_device_type ::
    "'v session_env \<Rightarrow> 'v suci \<Rightarrow> set_app_config_cmd option \<Rightarrow> 8 word \<Rightarrow> 'v put_result" where
  "cherry_uci_client_session_set_app_config_cmd_put_device_type e u cmd device_type =
     cherry_uci_client_session_set_app_config_cmd_put_uint8 e u cmd
       UCI_APPLICATION_PARAMETER_DEVICE_TYPE device_type"

definition cherry_uci_client_session_set_app_config_cmd_put_ranging_round_usage ::
    "'v session_env \<Rightarrow> 'v suci \<Rightarrow> set_app_config_cmd option \<Rightarrow> 8 word \<Rightarrow> 'v put_result" where
  "cherry_uci_client_session_set_app_config_cmd_put_ranging_round_usage e u cmd ranging_round_usage =
     cherry_uci_client_session_set_app_config_cmd_put_uint8 e u cmd
       UCI_APPLICATION_PARAMETER_RANGING_ROUND_USAGE ranging_round_usage"

definition cherry_uci_client_session_set_app_config_cmd_put_device_role ::
    "'v session_env \<Rightarrow> 'v suci \<Rightarrow> set_app_config_cmd option \<Rightarrow> 8 word \<Rightarrow> 'v put_result" where
  "cherry_uci_client_session_set_app_config_cmd_put_device_role e u cmd device_role =
     cherry_uci_client_session_set_app_config_cmd_put_uint8 e u cmd
       UCI_APPLICATION_PARAMETER_DEVICE_ROLE device_role"

definition cherry_uci_client_session_set_app_config_cmd_put_sts_config ::
    "'v session_env \<Rightarrow> 'v suci \<Rightarrow> set_app_config_cmd option \<Rightarrow> 8 word \<Rightarrow> 'v put_result" where
  "cherry_uci_client_session_set_app_config_cmd_put_sts_config e u cmd sts_config =
     cherry_uci_client_session_set_app_config_cmd_put_uint8 e u cmd
       UCI_APPLICATION_PARAMETER_STS_CONFIG sts_config"

definition cherry_uci_client_session_set_app_config_cmd_put_multi_node_mode ::
    "'v session_env \<Rightarrow> 'v suci \<Rightarrow> set_app_config_cmd option \<Rightarrow> 8 word \<Rightarrow> 'v put_result" where
  "cherry_uci_client_session_set_app_config_cmd_put_multi_node_mode e u cmd multi_node_mode =
     cherry_uci_client_session_set_app_config_cmd_put_uint8 e u cmd
       UCI_APPLICATION_PARAMETER_MULTI_NODE_MODE multi_node_mode"

definition cherry_uci_client_session_set_app_config_cmd_put_number_of_sts_segments ::
    "'v session_env \<Rightarrow> 'v suci \<Rightarrow> set_app_config_cmd option \<Rightarrow> 8 word \<Rightarrow> 'v put_result" where
  "cherry_uci_client_session_set_app_config_cmd_put_number_of_sts_segments e u cmd sts_segment =
     cherry_uci_client_session_set_app_config_cmd_put_uint8 e u cmd
       UCI_APPLICATION_PARAMETER_NUMBER_OF_STS_SEGMENTS sts_segment"

definition cherry_uci_client_session_set_app_config_cmd_put_device_mac_address ::
    "'v session_env \<Rightarrow> 'v suci \<Rightarrow> set_app_config_cmd option \<Rightarrow> 16 word \<Rightarrow> 'v put_result" where
  "cherry_uci_client_session_set_app_config_cmd_put_device_mac_address e u cmd dev_mac_addr =
     cherry_uci_client_session_set_app_config_cmd_put_uint16 e u cmd
       UCI_APPLICATION_PARAMETER_DEVICE_MAC_ADDRESS dev_mac_addr"

definition cherry_uci_client_session_set_app_config_cmd_put_mac_address_mode ::
    "'v session_env \<Rightarrow> 'v suci \<Rightarrow> set_app_config_cmd option \<Rightarrow> 8 word \<Rightarrow> 'v put_result" where
  "cherry_uci_client_session_set_app_config_cmd_put_mac_address_mode e u cmd mac_address_mode =
     cherry_uci_client_session_set_app_config_cmd_put_uint8 e u cmd
       UCI_APPLICATION_PARAMETER_MAC_ADDRESS_MODE mac_address_mode"

definition cherry_uci_client_session_set_app_config_cmd_put_no_of_controlees ::
    "'v session_env \<Rightarrow> 'v suci \<Rightarrow> set_app_config_cmd option \<Rightarrow> 8 word \<Rightarrow> 'v put_result" where
  "cherry_uci_client_session_set_app_config_cmd_put_no_of_controlees e u cmd no_of_controlees =
     cherry_uci_client_session_set_app_config_cmd_put_uint8 e u cmd
       UCI_APPLICATION_PARAMETER_NUMBER_OF_CONTROLEES no_of_controlees"

definition cherry_uci_client_session_set_app_config_cmd_put_result_report_config ::
    "'v session_env \<Rightarrow> 'v suci \<Rightarrow> set_app_config_cmd option \<Rightarrow> 8 word \<Rightarrow> 'v put_result" where
  "cherry_uci_client_session_set_app_config_cmd_put_result_report_config e u cmd result_report_config =
     cherry_uci_client_session_set_app_config_cmd_put_uint8 e u cmd
       UCI_APPLICATION_PARAMETER_RESULT_REPORT_CONFIG result_report_config"

definition cherry_uci_client_session_set_app_config_cmd_put_short_addr ::
    "'v session_env \<Rightarrow> 'v suci \<Rightarrow> set_app_config_cmd option \<Rightarrow> 16 word \<Rightarrow> 'v put_result" where
  "cherry_uci_client_session_set_app_config_cmd_put_short_addr e u cmd short_addr =
     cherry_uci_client_session_set_app_config_cmd_put_uint16 e u cmd
       UCI_APPLICATION_PARAMETER_DEVICE_MAC_ADDRESS short_addr"

definition cherry_uci_client_session_set_app_config_cmd_put_destination_short_address ::
    "'v session_env \<Rightarrow> 'v suci \<Rightarrow> set_app_config_cmd option \<Rightarrow> 16 word \<Rightarrow> 'v put_result" where
  "cherry_uci_client_session_set_app_config_cmd_put_destination_short_address e u cmd dest_short_addr =
     cherry_uci_client_session_set_app_config_cmd_put_uint16 e u cmd
       UCI_APPLICATION_PARAMETER_DST_MAC_ADDRESS dest_short_addr"

definition cherry_uci_client_session_set_app_config_cmd_put_initiation_time_us ::
    "'v session_env \<Rightarrow> 'v suci \<Rightarrow> set_app_config_cmd option \<Rightarrow> 64 word \<Rightarrow> 'v put_result" where
  "cherry_uci_client_session_set_app_config_cmd_put_initiation_time_us e u cmd initiation_time_us =
     cherry_uci_client_session_set_app_config_cmd_put_uint64 e u cmd
       UCI_APPLICATION_PARAMETER_UWB_INITIATION_TIME initiation_time_us"

definition cherry_uci_client_session_set_app_config_cmd_put_slot_duration_rstu ::
    "'v session_env \<Rightarrow> 'v suci \<Rightarrow> set_app_config_cmd option \<Rightarrow> 16 word \<Rightarrow> 'v put_result" where
  "cherry_uci_client_session_set_app_config_cmd_put_slot_duration_rstu e u cmd slot_duration_rstu =
     cherry_uci_client_session_set_app_config_cmd_put_uint16 e u cmd
       UCI_APPLICATION_PARAMETER_SLOT_DURATION slot_duration_rstu"

definition cherry_uci_client_session_set_app_config_cmd_put_slots_per_ranging_round ::
    "'v session_env \<Rightarrow> 'v suci \<Rightarrow> set_app_config_cmd option \<Rightarrow> 8 word \<Rightarrow> 'v put_result" where
  "cherry_uci_client_session_set_app_config_cmd_put_slots_per_ranging_round e u cmd slots_per_rr =
     cherry_uci_client_session_set_app_config_cmd_put_uint8 e u cmd
       UCI_APPLICATION_PARAMETER_SLOTS_PER_RR slots_per_rr"

definition cherry_uci_client_session_set_app_config_cmd_put_block_stride_length ::
    "'v session_env \<Rightarrow> 'v suci \<Rightarrow> set_app_config_cmd option \<Rightarrow> 8 word \<Rightarrow> 'v put_result" where
  "cherry_uci_client_session_set_app_config_cmd_put_block_stride_length e u cmd block_stride_length =
     cherry_uci_client_session_set_app_config_cmd_put_uint8 e u cmd
       UCI_APPLICATION_PARAMETER_BLOCK_STRIDE_LENGTH block_stride_length"

definition cherry_uci_client_session_set_app_config_cmd_put_hopping_mode ::
    "'v session_env \<Rightarrow> 'v suci \<Rightarrow> set_app_config_cmd option \<Rightarrow> 8 word \<Rightarrow> 'v put_result" where
  "cherry_uci_client_session_set_app_config_cmd_put_hopping_mode e u cmd hopping_mode =
     cherry_uci_client_session_set_app_config_cmd_put_uint8 e u cmd
       UCI_APPLICATION_PARAMETER_HOPPING_MODE hopping_mode"

definition cherry_uci_client_session_set_app_config_cmd_put_priority ::
    "'v session_env \<Rightarrow> 'v suci \<Rightarrow> set_app_config_cmd option \<Rightarrow> 8 word \<Rightarrow> 'v put_result" where
  "cherry_uci_client_session_set_app_config_cmd_put_priority e u cmd priority =
     cherry_uci_client_session_set_app_config_cmd_put_uint8 e u cmd
       UCI_APPLICATION_PARAMETER_SESSION_PRIORITY priority"

definition cherry_uci_client_session_set_app_config_cmd_put_schedule_mode ::
    "'v session_env \<Rightarrow> 'v suci \<Rightarrow> set_app_config_cmd option \<Rightarrow> 8 word \<Rightarrow> 'v put_result" where
  "cherry_uci_client_session_set_app_config_cmd_put_schedule_mode e u cmd schedule_mode =
     cherry_uci_client_session_set_app_config_cmd_put_uint8 e u cmd
       UCI_APPLICATION_PARAMETER_SCHEDULE_MODE schedule_mode"

definition cherry_uci_client_session_set_app_config_cmd_put_max_number_of_measurements ::
    "'v session_env \<Rightarrow> 'v suci \<Rightarrow> set_app_config_cmd option \<Rightarrow> 16 word \<Rightarrow> 'v put_result" where
  "cherry_uci_client_session_set_app_config_cmd_put_max_number_of_measurements e u cmd max_number_of_measurements =
     cherry_uci_client_session_set_app_config_cmd_put_uint16 e u cmd
       UCI_APPLICATION_PARAMETER_MAX_NUMBER_OF_MEASUREMENTS max_number_of_measurements"

definition cherry_uci_client_session_set_app_config_cmd_put_max_rr_retry ::
    "'v session_env \<Rightarrow> 'v suci \<Rightarrow> set_app_config_cmd option \<Rightarrow> 16 word \<Rightarrow> 'v put_result" where
  "cherry_uci_client_session_set_app_config_cmd_put_max_rr_retry e u cmd max_rr_retry =
     cherry_uci_client_session_set_app_config_cmd_put_uint16 e u cmd
       UCI_APPLICATION_PARAMETER_MAX_RR_RETRY max_rr_retry"

definition cherry_uci_client_session_set_app_config_cmd_put_channel_number ::
    "'v session_env \<Rightarrow> 'v suci \<Rightarrow> set_app_config_cmd option \<Rightarrow> 8 word \<Rightarrow> 'v put_result" where
  "cherry_uci_client_session_set_app_config_cmd_put_channel_number e u cmd channel_number =
     cherry_uci_client_session_set_app_config_cmd_put_uint8 e u cmd
       UCI_APPLICATION_PARAMETER_CHANNEL_NUMBER channel_number"

definition cherry_uci_client_session_set_app_config_cmd_put_preamble_code_index ::
    "'v session_env \<Rightarrow> 'v suci \<Rightarrow> set_app_config_cmd option \<Rightarrow> 8 word \<Rightarrow> 'v put_result" where
  "cherry_uci_client_session_set_app_config_cmd_put_preamble_code_index e u cmd preamble_code_index =
     cherry_uci_client_session_set_app_config_cmd_put_uint8 e u cmd
       UCI_APPLICATION_PARAMETER_PREAMBLE_CODE_INDEX preamble_code_index"

definition cherry_uci_client_session_set_app_config_cmd_put_rframe_config ::
    "'v session_env \<Rightarrow> 'v suci \<Rightarrow> set_app_config_cmd option \<Rightarrow> 8 word \<Rightarrow> 'v put_result" where
  "cherry_uci_client_session_set_app_config_cmd_put_rframe_config e u cmd rframe_config =
     cherry_uci_client_session_set_app_config_cmd_put_uint8 e u cmd
       UCI_APPLICATION_PARAMETER_RFRAME_CONFIG rframe_config"

definition cherry_uci_client_session_set_app_config_cmd_put_preamble_duration ::
    "'v session_env \<Rightarrow> 'v suci \<Rightarrow> set_app_config_cmd option \<Rightarrow> 8 word \<Rightarrow> 'v put_result" where
  "cherry_uci_client_session_set_app_config_cmd_put_preamble_duration e u cmd preamble_duration =
     cherry_uci_client_session_set_app_config_cmd_put_uint8 e u cmd
       UCI_APPLICATION_PARAMETER_PREAMBLE_DURATION preamble_duration"

definition cherry_uci_client_session_set_app_config_cmd_put_sfd_id ::
    "'v session_env \<Rightarrow> 'v suci \<Rightarrow> set_app_config_cmd option \<Rightarrow> 8 word \<Rightarrow> 'v put_result" where
  "cherry_uci_client_session_set_app_config_cmd_put_sfd_id e u cmd sfd_id =
     cherry_uci_client_session_set_app_config_cmd_put_uint8 e u cmd
       UCI_APPLICATION_PARAMETER_SFD_ID sfd_id"

definition cherry_uci_client_session_set_app_config_cmd_put_psdu_data_rate ::
    "'v session_env \<Rightarrow> 'v suci \<Rightarrow> set_app_config_cmd option \<Rightarrow> 8 word \<Rightarrow> 'v put_result" where
  "cherry_uci_client_session_set_app_config_cmd_put_psdu_data_rate e u cmd psdu_data_rate =
     cherry_uci_client_session_set_app_config_cmd_put_uint8 e u cmd
       UCI_APPLICATION_PARAMETER_PSDU_DATA_RATE psdu_data_rate"

definition cherry_uci_client_session_set_app_config_cmd_put_key_rotation ::
    "'v session_env \<Rightarrow> 'v suci \<Rightarrow> set_app_config_cmd option \<Rightarrow> 8 word \<Rightarrow> 'v put_result" where
  "cherry_uci_client_session_set_app_config_cmd_put_key_rotation e u cmd key_rotation =
     cherry_uci_client_session_set_app_config_cmd_put_uint8 e u cmd
       UCI_APPLICATION_PARAMETER_KEY_ROTATION key_rotation"

definition cherry_uci_client_session_set_app_config_cmd_put_key_rotation_rate ::
    "'v session_env \<Rightarrow> 'v suci \<Rightarrow> set_app_config_cmd option \<Rightarrow> 8 word \<Rightarrow> 'v put_result" where
  "cherry_uci_client_session_set_app_config_cmd_put_key_rotation_rate e u cmd key_rotation_rate =
     cherry_uci_client_session_set_app_config_cmd_put_uint8 e u cmd
       UCI_APPLICATION_PARAMETER_KEY_ROTATION_RATE key_rotation_rate"

definition cherry_uci_client_session_set_app_config_cmd_put_info_ntf_config ::
    "'v session_env \<Rightarrow> 'v suci \<Rightarrow> set_app_config_cmd option \<Rightarrow> 8 word \<Rightarrow> 'v put_result" where
  "cherry_uci_client_session_set_app_config_cmd_put_info_ntf_config e u cmd session_info_ntf_config =
     cherry_uci_client_session_set_app_config_cmd_put_uint8 e u cmd
       UCI_APPLICATION_PARAMETER_SESSION_INFO_NTF_CONFIG session_info_ntf_config"

definition cherry_uci_client_session_set_app_config_cmd_put_report_rssi ::
    "'v session_env \<Rightarrow> 'v suci \<Rightarrow> set_app_config_cmd option \<Rightarrow> 8 word \<Rightarrow> 'v put_result" where
  "cherry_uci_client_session_set_app_config_cmd_put_report_rssi e u cmd report_rssi =
     cherry_uci_client_session_set_app_config_cmd_put_uint8 e u cmd
       UCI_APPLICATION_PARAMETER_RSSI_REPORTING report_rssi"

definition cherry_uci_client_session_set_app_config_cmd_put_prf_mode ::
    "'v session_env \<Rightarrow> 'v suci \<Rightarrow> set_app_config_cmd option \<Rightarrow> 8 word \<Rightarrow> 'v put_result" where
  "cherry_uci_client_session_set_app_config_cmd_put_prf_mode e u cmd prf_mode =
     cherry_uci_client_session_set_app_config_cmd_put_uint8 e u cmd
       UCI_APPLICATION_PARAMETER_PRF_MODE prf_mode"

definition cherry_uci_client_session_set_app_config_cmd_put_sts_length ::
    "'v session_env \<Rightarrow> 'v suci \<Rightarrow> set_app_config_cmd option \<Rightarrow> 8 word \<Rightarrow> 'v put_result" where
  "cherry_uci_client_session_set_app_config_cmd_put_sts_length e u cmd sts_length =
     cherry_uci_client_session_set_app_config_cmd_put_uint8 e u cmd
       UCI_APPLICATION_PARAMETER_STS_LENGTH sts_length"

definition cherry_uci_client_session_set_app_config_cmd_put_rx_antenna_selection ::
    "'v session_env \<Rightarrow> 'v suci \<Rightarrow> set_app_config_cmd option \<Rightarrow> 8 word \<Rightarrow> 'v put_result" where
  "cherry_uci_client_session_set_app_config_cmd_put_rx_antenna_selection e u cmd ant_set =
     cherry_uci_client_session_set_app_config_cmd_put_uint8 e u cmd
       UCI_APPLICATION_PARAMETER_RX_ANTENNA_SELECTION ant_set"

definition cherry_uci_client_session_set_app_config_cmd_put_tx_antenna_selection ::
    "'v session_env \<Rightarrow> 'v suci \<Rightarrow> set_app_config_cmd option \<Rightarrow> 8 word \<Rightarrow> 'v put_result" where
  "cherry_uci_client_session_set_app_config_cmd_put_tx_antenna_selection e u cmd ant_set =
     cherry_uci_client_session_set_app_config_cmd_put_uint8 e u cmd
       UCI_APPLICATION_PARAMETER_TX_ANTENNA_SELECTION ant_set"

definition cherry_uci_client_session_set_app_config_cmd_put_round2_rx_antenna_selection ::
    "'v session_env \<Rightarrow> 'v suci \<Rightarrow> set_app_config_cmd option \<Rightarrow> 8 word \<Rightarrow> 'v put_result" where
  "cherry_uci_client_session_set_app_config_cmd_put_round2_rx_antenna_selection e u cmd ant_set =
     cherry_uci_client_session_set_app_config_cmd_put_uint8 e u cmd
       UCI_APPLICATION_PARAMETER_ROUND2_RX_ANTENNA_SELECTION ant_set"

definition cherry_uci_client_session_set_app_config_cmd_put_round2_tx_antenna_selection ::
    "'v session_env \<Rightarrow> 'v suci \<Rightarrow> set_app_config_cmd option \<Rightarrow> 8 word \<Rightarrow> 'v put_result" where
  "cherry_uci_client_session_set_app_config_cmd_put_round2_tx_antenna_selection e u cmd ant_set =
     cherry_uci_client_session_set_app_config_cmd_put_uint8 e u cmd
       UCI_APPLICATION_PARAMETER_ROUND2_TX_ANTENNA_SELECTION ant_set"

definition cherry_uci_client_session_set_app_config_cmd_put_antenna_selection ::
    "'v session_env \<Rightarrow> 'v suci \<Rightarrow> set_app_config_cmd option \<Rightarrow> 8 word \<Rightarrow> 'v put_result" where
  "cherry_uci_client_session_set_app_config_cmd_put_antenna_selection e u cmd ant_set =
     do {
       (st, u, cmd) \<leftarrow> cherry_uci_client_session_set_app_config_cmd_put_rx_antenna_selection e u cmd ant_set;
       if st \<noteq> UCI_STATUS_OK then Some (st, u, cmd)
       else cherry_uci_client_session_set_app_config_cmd_put_tx_antenna_selection e u cmd ant_set
     }"

definition cherry_uci_client_session_set_app_config_cmd_put_vendor_id ::
    "'v session_env \<Rightarrow> 'v suci \<Rightarrow> set_app_config_cmd option \<Rightarrow> bytes option \<Rightarrow> 'v put_result" where
  "cherry_uci_client_session_set_app_config_cmd_put_vendor_id e u cmd vendor_id =
     cherry_uci_client_session_set_app_config_cmd_put e u cmd
       UCI_APPLICATION_PARAMETER_VENDOR_ID vendor_id VENDOR_ID_SIZE"

definition cherry_uci_client_session_set_app_config_cmd_put_static_sts_iv ::
    "'v session_env \<Rightarrow> 'v suci \<Rightarrow> set_app_config_cmd option \<Rightarrow> bytes option \<Rightarrow> 'v put_result" where
  "cherry_uci_client_session_set_app_config_cmd_put_static_sts_iv e u cmd static_sts_IV =
     cherry_uci_client_session_set_app_config_cmd_put e u cmd
       UCI_APPLICATION_PARAMETER_STATIC_STS_IV static_sts_IV STATIC_STS_IV_SIZE"

definition cherry_uci_client_session_set_app_config_cmd_put_session_key ::
    "'v session_env \<Rightarrow> 'v suci \<Rightarrow> set_app_config_cmd option \<Rightarrow> bytes option \<Rightarrow> 8 word \<Rightarrow> 'v put_result" where
  "cherry_uci_client_session_set_app_config_cmd_put_session_key e u cmd key sz =
     cherry_uci_client_session_set_app_config_cmd_put e u cmd
       UCI_APPLICATION_PARAMETER_SESSION_KEY key sz"

definition cherry_uci_client_session_set_app_config_cmd_put_diags_frame_report_fields ::
    "'v session_env \<Rightarrow> 'v suci \<Rightarrow> set_app_config_cmd option \<Rightarrow> 8 word \<Rightarrow> 'v put_result" where
  "cherry_uci_client_session_set_app_config_cmd_put_diags_frame_report_fields e u cmd flds =
     cherry_uci_client_session_set_app_config_cmd_put_uint8 e u cmd
       UCI_APPLICATION_PARAMETER_DIAGS_FRAME_REPORTS_FIELDS flds"

definition cherry_uci_client_session_set_app_config_cmd_put_enable_diags ::
    "'v session_env \<Rightarrow> 'v suci \<Rightarrow> set_app_config_cmd option \<Rightarrow> 8 word \<Rightarrow> 'v put_result" where
  "cherry_uci_client_session_set_app_config_cmd_put_enable_diags e u cmd enabled =
     cherry_uci_client_session_set_app_config_cmd_put_uint8 e u cmd
       UCI_APPLICATION_PARAMETER_ENABLE_DIAGNOSTICS enabled"

definition cherry_uci_client_session_set_app_config_cmd_put_sub_session_key ::
    "'v session_env \<Rightarrow> 'v suci \<Rightarrow> set_app_config_cmd option \<Rightarrow> bytes option \<Rightarrow> 8 word \<Rightarrow> 'v put_result" where
  "cherry_uci_client_session_set_app_config_cmd_put_sub_session_key e u cmd key sz =
     cherry_uci_client_session_set_app_config_cmd_put e u cmd
       UCI_APPLICATION_PARAMETER_SUB_SESSION_KEY key sz"

definition cherry_uci_client_session_set_app_config_cmd_put_data_repetition_count ::
    "'v session_env \<Rightarrow> 'v suci \<Rightarrow> set_app_config_cmd option \<Rightarrow> 8 word \<Rightarrow> 'v put_result" where
  "cherry_uci_client_session_set_app_config_cmd_put_data_repetition_count e u cmd data_repetition_count =
     cherry_uci_client_session_set_app_config_cmd_put_uint8 e u cmd
       UCI_APPLICATION_PARAMETER_DATA_REPETITION_COUNT data_repetition_count"

definition cherry_uci_client_session_set_app_config_cmd_put_dl_tdoa_ranging_method ::
    "'v session_env \<Rightarrow> 'v suci \<Rightarrow> set_app_config_cmd option \<Rightarrow> 8 word \<Rightarrow> 'v put_result" where
  "cherry_uci_client_session_set_app_config_cmd_put_dl_tdoa_ranging_method e u cmd dl_tdoa_ranging_method =
     cherry_uci_client_session_set_app_config_cmd_put_uint8 e u cmd
       UCI_APPLICATION_PARAMETER_DL_TDOA_RANGING_METHOD dl_tdoa_ranging_method"

definition cherry_uci_client_session_set_app_config_cmd_put_dl_tdoa_tx_timestamp_conf ::
    "'v session_env \<Rightarrow> 'v suci \<Rightarrow> set_app_config_cmd option \<Rightarrow> 8 word \<Rightarrow> 'v put_result" where
  "cherry_uci_client_session_set_app_config_cmd_put_dl_tdoa_tx_timestamp_conf e u cmd dl_tdoa_tx_timestamp_conf =
     cherry_uci_client_session_set_app_config_cmd_put_uint8 e u cmd
       UCI_APPLICATION_PARAMETER_DL_TDOA_TX_TIMESTAMP_CONF dl_tdoa_tx_timestamp_conf"

definition cherry_uci_client_session_set_app_config_cmd_put_dl_tdoa_hop_count ::
    "'v session_env \<Rightarrow> 'v suci \<Rightarrow> set_app_config_cmd option \<Rightarrow> 8 word \<Rightarrow> 'v put_result" where
  "cherry_uci_client_session_set_app_config_cmd_put_dl_tdoa_hop_count e u cmd dl_tdoa_hop_count =
     cherry_uci_client_session_set_app_config_cmd_put_uint8 e u cmd
       UCI_APPLICATION_PARAMETER_DL_TDOA_HOP_COUNT dl_tdoa_hop_count"

definition cherry_uci_client_session_set_app_config_cmd_put_dl_tdoa_anchor_cfo ::
    "'v session_env \<Rightarrow> 'v suci \<Rightarrow> set_app_config_cmd option \<Rightarrow> 8 word \<Rightarrow> 'v put_result" where
  "cherry_uci_client_session_set_app_config_cmd_put_dl_tdoa_anchor_cfo e u cmd dl_tdoa_anchor_cfo =
     cherry_uci_client_session_set_app_config_cmd_put_uint8 e u cmd
       UCI_APPLICATION_PARAMETER_DL_TDOA_ANCHOR_CFO dl_tdoa_anchor_cfo"

definition cherry_uci_client_session_set_app_config_cmd_put_dl_tx_active_ranging_rounds ::
    "'v session_env \<Rightarrow> 'v suci \<Rightarrow> set_app_config_cmd option \<Rightarrow> 8 word \<Rightarrow> 'v put_result" where
  "cherry_uci_client_session_set_app_config_cmd_put_dl_tx_active_ranging_rounds e u cmd dl_tdoa_tx_active_ranging_rounds =
     cherry_uci_client_session_set_app_config_cmd_put_uint8 e u cmd
       UCI_APPLICATION_PARAMETER_DL_TDOA_TX_ACTIVE_RANGING_ROUNDS dl_tdoa_tx_active_ranging_rounds"

definition cherry_uci_client_session_set_app_config_cmd_put_dl_tdoa_block_skipping ::
    "'v session_env \<Rightarrow> 'v suci \<Rightarrow> set_app_config_cmd option \<Rightarrow> 8 word \<Rightarrow> 'v put_result" where
  "cherry_uci_client_session_set_app_config_cmd_put_dl_tdoa_block_skipping e u cmd dl_tdoa_block_skipping =
     cherry_uci_client_session_set_app_config_cmd_put_uint8 e u cmd
       UCI_APPLICATION_PARAMETER_DL_TDOA_BLOCK_SKIPPING dl_tdoa_block_skipping"

definition cherry_uci_client_session_set_app_config_cmd_put_dl_tdoa_time_reference_anchor ::
    "'v session_env \<Rightarrow> 'v suci \<Rightarrow> set_app_config_cmd option \<Rightarrow> 8 word \<Rightarrow> 'v put_result" where
  "cherry_uci_client_session_set_app_config_cmd_put_dl_tdoa_time_reference_anchor e u cmd dl_tdoa_time_reference_anchor =
     cherry_uci_client_session_set_app_config_cmd_put_uint8 e u cmd
       UCI_APPLICATION_PARAMETER_DL_TDOA_TIME_REFERENCE_ANCHOR dl_tdoa_time_reference_anchor"

definition cherry_uci_client_session_set_app_config_cmd_put_dl_tdoa_responder_tof ::
    "'v session_env \<Rightarrow> 'v suci \<Rightarrow> set_app_config_cmd option \<Rightarrow> 8 word \<Rightarrow> 'v put_result" where
  "cherry_uci_client_session_set_app_config_cmd_put_dl_tdoa_responder_tof e u cmd dl_tdoa_responder_tof =
     cherry_uci_client_session_set_app_config_cmd_put_uint8 e u cmd
       UCI_APPLICATION_PARAMETER_DL_TDOA_RESPONDER_TOF dl_tdoa_responder_tof"

definition cherry_uci_client_session_set_app_config_cmd_put_radar_timing_params ::
    "'v session_env \<Rightarrow> 'v suci \<Rightarrow> set_app_config_cmd option \<Rightarrow> 32 word \<Rightarrow> 16 word \<Rightarrow> 8 word \<Rightarrow> 'v put_result" where
  "cherry_uci_client_session_set_app_config_cmd_put_radar_timing_params e u cmd burst_period_ms sweep_period_rstu sweeps_per_burst =
     cherry_uci_client_session_set_app_config_cmd_put e u cmd
       UCI_APPLICATION_PARAMETER_RADAR_TIMING_PARAMS
       (Some (le_bytes 4 burst_period_ms @ le_bytes 2 sweep_period_rstu @ [sweeps_per_burst])) 7"

definition cherry_uci_client_session_set_app_config_cmd_put_radar_samples_per_sweep ::
    "'v session_env \<Rightarrow> 'v suci \<Rightarrow> set_app_config_cmd option \<Rightarrow> 8 word \<Rightarrow> 'v put_result" where
  "cherry_uci_client_session_set_app_config_cmd_put_radar_samples_per_sweep e u cmd samples_per_sweep =
     cherry_uci_client_session_set_app_config_cmd_put_uint8 e u cmd
       UCI_APPLICATION_PARAMETER_RADAR_SAMPLES_PER_SWEEP samples_per_sweep"

definition cherry_uci_client_session_set_app_config_cmd_put_radar_antenna_set_id ::
    "'v session_env \<Rightarrow> 'v suci \<Rightarrow> set_app_config_cmd option \<Rightarrow> 8 word \<Rightarrow> 'v put_result" where
  "cherry_uci_client_session_set_app_config_cmd_put_radar_antenna_set_id e u cmd antenna_set_id =
     cherry_uci_client_session_set_app_config_cmd_put_uint8 e u cmd
       UCI_APPLICATION_PARAMETER_ANTENNA_SET_ID antenna_set_id"

definition cherry_uci_client_session_set_app_config_cmd_put_radar_max_burst ::
    "'v session_env \<Rightarrow> 'v suci \<Rightarrow> set_app_config_cmd option \<Rightarrow> 16 word \<Rightarrow> 'v put_result" where
  "cherry_uci_client_session_set_app_config_cmd_put_radar_max_burst e u cmd max_burst =
     cherry_uci_client_session_set_app_config_cmd_put_uint16 e u cmd
       UCI_APPLICATION_PARAMETER_RADAR_NUMBER_OF_BURSTS max_burst"

definition cherry_uci_client_session_set_app_config_cmd_put_radar_sweep_offset ::
    "'v session_env \<Rightarrow> 'v suci \<Rightarrow> set_app_config_cmd option \<Rightarrow> 16 word \<Rightarrow> 'v put_result" where
  "cherry_uci_client_session_set_app_config_cmd_put_radar_sweep_offset e u cmd offset =
     cherry_uci_client_session_set_app_config_cmd_put_int16 e u cmd
       UCI_APPLICATION_PARAMETER_RADAR_SWEEP_OFFSET offset"

definition cherry_uci_client_session_set_app_config_cmd_put_radar_tx_profile_idx ::
    "'v session_env \<Rightarrow> 'v suci \<Rightarrow> set_app_config_cmd option \<Rightarrow> 8 word \<Rightarrow> 'v put_result" where
  "cherry_uci_client_session_set_app_config_cmd_put_radar_tx_profile_idx e u cmd idx =
     cherry_uci_client_session_set_app_config_cmd_put_int8 e u cmd
       UCI_APPLICATION_PARAMETER_TX_PROFILE_IDX idx"

definition cherry_uci_client_session_set_app_config_cmd_put_uwb_config_id ::
    "'v session_env \<Rightarrow> 'v suci \<Rightarrow> set_app_config_cmd option \<Rightarrow> 16 word \<Rightarrow> 'v put_result" where
  "cherry_uci_client_session_set_app_config_cmd_put_uwb_config_id e u cmd uwb_config_id =
     cherry_uci_client_session_set_app_config_cmd_put_uint16 e u cmd
       UCI_APPLICATION_PARAMETER_SELECTED_UWB_CONFIG_ID uwb_config_id"

definition cherry_uci_client_session_set_app_config_cmd_put_pulse_shape_combo ::
    "'v session_env \<Rightarrow> 'v suci \<Rightarrow> set_app_config_cmd option \<Rightarrow> 8 word \<Rightarrow> 'v put_result" where
  "cherry_uci_client_session_set_app_config_cmd_put_pulse_shape_combo e u cmd pulse_shape_combo =
     cherry_uci_client_session_set_app_config_cmd_put_uint8 e u cmd
       UCI_APPLICATION_PARAMETER_SELECTED_PULSE_SHAPE_COMBO pulse_shape_combo"

definition cherry_uci_client_session_set_app_config_cmd_put_sync_code_index ::
    "'v session_env \<Rightarrow> 'v suci \<Rightarrow> set_app_config_cmd option \<Rightarrow> 8 word \<Rightarrow> 'v put_result" where
  "cherry_uci_client_session_set_app_config_cmd_put_sync_code_index e u cmd sync_code_index =
     cherry_uci_client_session_set_app_config_cmd_put_uint8 e u cmd
       UCI_APPLICATION_PARAMETER_SYNC_CODE_INDEX sync_code_index"

definition cherry_uci_client_session_set_app_config_cmd_put_sts_index0 ::
    "'v session_env \<Rightarrow> 'v suci \<Rightarrow> set_app_config_cmd option \<Rightarrow> 32 word \<Rightarrow> 'v put_result" where
  "cherry_uci_client_session_set_app_config_cmd_put_sts_index0 e u cmd sts_index =
     cherry_uci_client_session_set_app_config_cmd_put_int32 e u cmd
       UCI_APPLICATION_PARAMETER_STS_INDEX0 sts_index"

definition cherry_uci_client_session_set_app_config_cmd_put_mac_mode ::
    "'v session_env \<Rightarrow> 'v suci \<Rightarrow> set_app_config_cmd option \<Rightarrow> 8 word \<Rightarrow> 'v put_result" where
  "cherry_uci_client_session_set_app_config_cmd_put_mac_mode e u cmd mac_mode =
     cherry_uci_client_session_set_app_config_cmd_put_uint8 e u cmd
       UCI_APPLICATION_PARAMETER_MAC_MODE mac_mode"

definition cherry_uci_client_session_set_app_config_cmd_put_responder_slot_index ::
    "'v session_env \<Rightarrow> 'v suci \<Rightarrow> set_app_config_cmd option \<Rightarrow> 8 word \<Rightarrow> 'v put_result" where
  "cherry_uci_client_session_set_app_config_cmd_put_responder_slot_index e u cmd responder_slot_index =
     cherry_uci_client_session_set_app_config_cmd_put_uint8 e u cmd
       UCI_APPLICATION_PARAMETER_RESPONDER_SLOT_INDEX responder_slot_index"

section \<open>Parameters of several fields\<close>

text \<open>Here the count is incremented before the puts, which may fail.\<close>

definition time_base_flags :: "bool \<Rightarrow> bool \<Rightarrow> bool \<Rightarrow> byte" where
  "time_base_flags enable continue_session resync =
     (if enable then 1 else 0) OR (if continue_session then 2 else 0) OR (if resync then 4 else 0)"

definition cherry_uci_client_session_set_app_config_cmd_put_session_time_base ::
    "'v session_env \<Rightarrow> 'v suci \<Rightarrow> set_app_config_cmd option \<Rightarrow> bool \<Rightarrow> bool \<Rightarrow> bool \<Rightarrow> 32 word \<Rightarrow> 32 word \<Rightarrow>
     'v put_result" where
  "cherry_uci_client_session_set_app_config_cmd_put_session_time_base e u cmd enable continue_session resync
       session_handle offset_us =
     (case cmd of
        None \<Rightarrow> Some (UCI_STATUS_INVALID_PARAM, u, cmd)
      | Some c \<Rightarrow>
          do {
            u \<leftarrow> incr_nb_app_config u c;
            (ret, u, c) \<leftarrow> put_items e u c
              [Put_8 (ucast UCI_APPLICATION_PARAMETER_SESSION_TIME_BASE), Put_8 9,
               Put_8 (time_base_flags enable continue_session resync), Put_32 session_handle, Put_32 offset_us];
            Some (ret, u, Some c)
          })"

text \<open>One round of the loop over the addresses; reading past the end of the array faults.\<close>

definition address_item :: "16 word list \<Rightarrow> nat \<Rightarrow> put_item" where
  "address_item addrs i = (if i < length addrs then Put_16 (addrs ! i) else Put_Data [] 2)"

definition cherry_uci_client_session_set_app_config_cmd_put_dest_mac_address ::
    "'v session_env \<Rightarrow> 'v suci \<Rightarrow> set_app_config_cmd option \<Rightarrow> dst_mac_addresses option \<Rightarrow> 'v put_result" where
  "cherry_uci_client_session_set_app_config_cmd_put_dest_mac_address e u cmd dest_mac_add =
     (case (cmd, dest_mac_add) of
        (Some _, Some a) \<Rightarrow>
          do {
            (st, u, cmd) \<leftarrow> cherry_uci_client_session_set_app_config_cmd_put_no_of_controlees e u cmd
                             (word_of_int (n_addresses a));
            if st \<noteq> UCI_STATUS_OK then Some (st, u, cmd)
            else do {
              c \<leftarrow> cmd;
              u \<leftarrow> incr_nb_app_config u c;
              (ret, u, c) \<leftarrow> put_items e u c
                ([Put_8 (ucast UCI_APPLICATION_PARAMETER_DST_MAC_ADDRESS), Put_8 (word_of_int (2 * n_addresses a))] @
                 map (address_item (addresses a)) [0..<nat (n_addresses a)]);
              Some (ret, u, Some c)
            }
          }
      | _ \<Rightarrow> Some (UCI_STATUS_INVALID_PARAM, u, cmd))"

end
