(* ===== verification/Session_Handlers.thy ===== *)
theory Session_Handlers
  imports Session_Client Message_Writers
begin

text \<open>
  Properties of the session client: its tables are usable by the core, opening it registers them and
  closing it removes them, and what each handler does with the bytes of a message.
\<close>

section \<open>The tables\<close>

lemma config_table_ok: "table_ok uci_rsp_session_config_handlers_list"
  by (simp add: table_ok_def uci_rsp_session_config_handlers_list_def uci_rsp_session_config_handlers_def
      entries_def table_gid_def UCI_MT_GID_OID_def UCI_GID_def UCI_OID_def)

lemma control_table_ok: "table_ok uci_rsp_session_control_handlers_list"
  by (simp add: table_ok_def uci_rsp_session_control_handlers_list_def uci_rsp_session_control_handlers_def
      entries_def table_gid_def UCI_MT_GID_OID_def UCI_GID_def UCI_OID_def)

lemma table_upd_user_data [simp]:
  "table_ok (t\<lparr>mh_user_data := d\<rparr>) = table_ok t" "table_gid (t\<lparr>mh_user_data := d\<rparr>) = table_gid t"
  "entries (t\<lparr>mh_user_data := d\<rparr>) = entries t"
  by (simp_all add: table_ok_def table_gid_def entries_def)

lemma swap_updates: "t\<lparr>mh_user_data := d, mh_next := n\<rparr> = t\<lparr>mh_next := n, mh_user_data := d\<rparr>"
  by (cases t) simp

text \<open>The pointers to the two tables, and the tables in the memory of the core.\<close>

definition tables_at :: "'v session_env \<Rightarrow> 'v suci \<Rightarrow> bool" where
  "tables_at e u \<longleftrightarrow> se_config_list e \<noteq> se_control_list e \<and>
     (\<exists>n d. u_htab u (se_config_list e) = Some (uci_rsp_session_config_handlers_list\<lparr>mh_next := n, mh_user_data := d\<rparr>)) \<and>
     (\<exists>n d. u_htab u (se_control_list e) = Some (uci_rsp_session_control_handlers_list\<lparr>mh_next := n, mh_user_data := d\<rparr>))"

lemma set_user_data_inv:
  assumes "u_htab u p = Some t" and "handlers_inv u ps"
  shows "set_user_data u p d = Some (u\<lparr>u_htab := (u_htab u)(p \<mapsto> t\<lparr>mh_user_data := d\<rparr>)\<rparr>)"
    and "handlers_inv (u\<lparr>u_htab := (u_htab u)(p \<mapsto> t\<lparr>mh_user_data := d\<rparr>)\<rparr>) ps"
proof -
  show "set_user_data u p d = Some (u\<lparr>u_htab := (u_htab u)(p \<mapsto> t\<lparr>mh_user_data := d\<rparr>)\<rparr>)"
    using assms(1) by (simp add: set_user_data_def)
  have "known_gids ((u_htab u)(p \<mapsto> t\<lparr>mh_user_data := d\<rparr>)) ps = known_gids (u_htab u) ps"
    using assms(1) by (auto simp: known_gids_def split: if_splits) (metis option.inject table_upd_user_data(2))+
  moreover have "lchain mh_next ((u_htab u)(p \<mapsto> t\<lparr>mh_user_data := d\<rparr>)) (u_handlers_head u) ps =
      lchain mh_next (u_htab u) (u_handlers_head u) ps"
    using assms(1) by (simp add: path_upd_same_next [of "u_htab u" p t])
  ultimately show "handlers_inv (u\<lparr>u_htab := (u_htab u)(p \<mapsto> t\<lparr>mh_user_data := d\<rparr>)\<rparr>) ps"
    using assms by (auto simp: handlers_inv_def)
qed

text \<open>The registered identifiers with their handlers.\<close>

definition session_ids :: "(16 word \<times> nat) list" where
  "session_ids = map (\<lambda>h. (uci_message_id h, handler h))
     (uci_rsp_session_control_handlers @ uci_rsp_session_config_handlers)"

lemma session_ids_distinct: "distinct (map fst session_ids)"
  by (simp add: session_ids_def uci_rsp_session_control_handlers_def uci_rsp_session_config_handlers_def
      UCI_MT_GID_OID_def)

lemma open_ok:
  assumes inv: "handlers_inv u ps" and at: "tables_at e u"
    and new: "se_config_list e \<notin> set ps" "se_control_list e \<notin> set ps"
    and mal: "\<not> sw_oom (u_world u) (sw_allocs (u_world u))"
  shows "\<exists>u'. cherry_uci_client_session_open e u = Some (QERR_SUCCESS, u') \<and>
    handlers_inv u' (se_control_list e # se_config_list e # ps) \<and> tables_at e u' \<and>
    context_of u' = Some ((sw_junk (u_world u))\<lparr>sc_sem := 0\<rparr>) \<and>
    (\<forall>(mid, f) \<in> set session_ids.
       map_of (handler_map (u_htab u') (se_control_list e # se_config_list e # ps)) mid = Some (f, 1))"
proof -
  let ?pc = "se_config_list e" and ?pk = "se_control_list e"
  from at obtain n1 d1 n2 d2 where ne: "?pc \<noteq> ?pk"
    and t1: "u_htab u ?pc = Some (uci_rsp_session_config_handlers_list\<lparr>mh_next := n1, mh_user_data := d1\<rparr>)"
    and t2: "u_htab u ?pk = Some (uci_rsp_session_control_handlers_list\<lparr>mh_next := n2, mh_user_data := d2\<rparr>)"
    by (auto simp: tables_at_def)
  let ?w = "(u_world u)\<lparr>sw_allocs := Suc (sw_allocs (u_world u)),
     sw_context := Some ((sw_junk (u_world u))\<lparr>sc_sem := 0\<rparr>)\<rparr>"
  let ?c = "uci_rsp_session_config_handlers_list\<lparr>mh_next := n1, mh_user_data := 1\<rparr>"
  let ?k = "uci_rsp_session_control_handlers_list\<lparr>mh_next := n2, mh_user_data := 1\<rparr>"
  define u1 where "u1 = u\<lparr>u_world := ?w, u_htab := (u_htab u)(?pc \<mapsto> ?c)\<rparr>"
  define u2 where "u2 = u1\<lparr>u_htab := (u_htab u1)(?pk \<mapsto> ?k)\<rparr>"
  have i0: "handlers_inv (u\<lparr>u_world := ?w\<rparr>) ps" using inv by (simp add: handlers_inv_def)
  have s1: "set_user_data (u\<lparr>u_world := ?w\<rparr>) ?pc 1 = Some u1" "handlers_inv u1 ps"
    using set_user_data_inv [OF _ i0, of ?pc _ 1] t1 by (simp_all add: u1_def)
  have h1: "u_htab u1 ?pk = Some (uci_rsp_session_control_handlers_list\<lparr>mh_next := n2, mh_user_data := d2\<rparr>)"
    using t2 ne by (simp add: u1_def)
  have s2: "set_user_data u1 ?pk 1 = Some u2" "handlers_inv u2 ps"
    using set_user_data_inv [OF h1 s1(2), of 1] by (simp_all add: u2_def)
  have h2: "u_htab u2 ?pc = Some ?c" "u_htab u2 ?pk = Some ?k" using ne by (simp_all add: u2_def u1_def)
  define u3 where "u3 = registered u2 ?pc ?c"
  have r1: "uci_message_handlers_register u2 (Some ?pc) = Some u3" "handlers_inv u3 (?pc # ps)"
    using register_run [OF h2(1)] registered_inv [OF s2(2) h2(1)] config_table_ok new
    by (simp_all add: u3_def)
  have h3: "u_htab u3 ?pk = Some ?k" using h2 ne by (simp add: u3_def registered_def)
  let ?u = "registered u3 ?pk ?k"
  have r2: "uci_message_handlers_register u3 (Some ?pk) = Some ?u" "handlers_inv ?u (?pk # ?pc # ps)"
    using register_run [OF h3] registered_inv [OF r1(2) h3] control_table_ok new ne by simp_all
  have run: "cherry_uci_client_session_open e u = Some (QERR_SUCCESS, ?u)"
    using mal s1(1) s2(1) r1(1) r2(1) by (simp add: cherry_uci_client_session_open_def client_malloc_def)
  have ctx: "context_of ?u = Some ((sw_junk (u_world u))\<lparr>sc_sem := 0\<rparr>)"
    by (simp add: context_of_def registered_def u3_def u2_def u1_def)
  have ht: "u_htab ?u ?pk = Some (?k\<lparr>mh_next := Some ?pc\<rparr>)" "\<exists>q. u_htab ?u ?pc = Some (?c\<lparr>mh_next := q\<rparr>)"
    using ne by (auto simp: registered_def u3_def)
  then have at': "tables_at e ?u" using ne by (auto simp: tables_at_def swap_updates)
  have "\<forall>(mid, f) \<in> set session_ids. map_of (handler_map (u_htab ?u) (?pk # ?pc # ps)) mid = Some (f, 1)"
    using ht
    by (auto simp: handler_map_def table_map_def entries_def session_ids_def
        uci_rsp_session_control_handlers_list_def uci_rsp_session_config_handlers_list_def
        uci_rsp_session_control_handlers_def uci_rsp_session_config_handlers_def UCI_MT_GID_OID_def)
  with run r2(2) at' ctx show ?thesis by blast
qed

lemma close_ok:
  assumes inv: "handlers_inv u (xs @ se_control_list e # se_config_list e # ys)" and at: "tables_at e u"
    and ctx: "context_of u \<noteq> None"
  shows "\<exists>u'. cherry_uci_client_session_close e u = Some u' \<and> handlers_inv u' (xs @ ys) \<and> context_of u' = None"
proof -
  let ?pc = "se_config_list e" and ?pk = "se_control_list e"
  from at obtain t1 t2 where ne: "?pc \<noteq> ?pk" and t1: "u_htab u ?pc = Some t1" and t2: "u_htab u ?pk = Some t2"
    by (auto simp: tables_at_def)
  define u1 where "u1 = u\<lparr>u_htab := (u_htab u)(?pc \<mapsto> t1\<lparr>mh_user_data := 0\<rparr>)\<rparr>"
  define u2 where "u2 = u1\<lparr>u_htab := (u_htab u1)(?pk \<mapsto> t2\<lparr>mh_user_data := 0\<rparr>)\<rparr>"
  have s1: "set_user_data u ?pc 0 = Some u1" "handlers_inv u1 (xs @ ?pk # ?pc # ys)"
    using set_user_data_inv [OF t1 inv, of 0] by (simp_all add: u1_def)
  have h1: "u_htab u1 ?pk = Some t2" using t2 ne by (simp add: u1_def)
  have s2: "set_user_data u1 ?pk 0 = Some u2" "handlers_inv u2 ((xs @ [?pk]) @ ?pc # ys)"
    using set_user_data_inv [OF h1 s1(2), of 0] by (simp_all add: u2_def)
  from unregister_inv [OF s2(2)] obtain u3 where
    u3: "uci_message_handlers_unregister u2 (Some ?pc) = Some u3" "handlers_inv u3 (xs @ ?pk # ys)" by auto
  from unregister_inv [OF u3(2)] obtain u4 where
    u4: "uci_message_handlers_unregister u3 (Some ?pk) = Some u4" "handlers_inv u4 (xs @ ys)" by auto
  from ctx s1(1) s2(1) u3(1) u4(1) have
    "cherry_uci_client_session_close e u = Some (u4\<lparr>u_world := (u_world u4)\<lparr>sw_context := None\<rparr>\<rparr>)"
    by (auto simp: cherry_uci_client_session_close_def)
  with u4(2) show ?thesis by (simp add: handlers_inv_def context_of_def)
qed

section \<open>Responses\<close>

text \<open>The status at the start of a response.\<close>

definition status_of :: "bytes \<Rightarrow> int" where
  "status_of bs = (case bs of [] \<Rightarrow> UCI_STATUS_INVALID_MESSAGE_SIZE | s # _ \<Rightarrow> uint s)"

lemma parse_status_rep:
  assumes "parser_rep h p bs"
  shows "\<exists>p'. parse_status h p = Some (status_of bs, p') \<and> parser_rep h p' (tl bs)"
proof (cases bs)
  case Nil
  with assms remaining_rep [OF assms] show ?thesis by (simp add: parse_status_def status_of_def)
next
  case (Cons s rest)
  with assms obtain p' where "uci_message_get_8bit h p = Some (s, p')" "parser_rep h p' rest"
    using get_8bit_rep by blast
  with Cons remaining_rep [OF assms] show ?thesis by (simp add: parse_status_def status_of_def)
qed

lemma handler_parser_rep:
  assumes "context_of u = Some c" and "msg_ok (heap (u_mem u)) p bs"
  shows "\<exists>q. handler_parser u (Some p) = Some q \<and> parser_rep (heap (u_mem u)) q bs"
  using assms parser_init [OF assms(2)] by (auto simp: handler_parser_def msg_parser_def)

lemma context_simps [simp]:
  "context_of (upd_context u f) = map_option f (context_of u)"
  "upd_context (upd_context u f) g = upd_context u (g \<circ> f)" "u_mem (upd_context u f) = u_mem u"
  by (simp_all add: context_of_def upd_context_def option.map_comp)

definition answered :: "'v suci \<Rightarrow> int \<Rightarrow> 'v suci" where
  "answered u s = upd_context u (\<lambda>c. c\<lparr>sc_response_status := s, sc_sem := 1\<rparr>)"

lemma answered_simp: "cherry_session_set_rsp (set_status u s) = answered u s"
  by (simp add: cherry_session_set_rsp_def set_status_def answered_def comp_def)

lemma rsp_handler_ok:
  assumes "context_of u = Some c" and "msg_ok (heap (u_mem u)) p bs"
  shows "uci_rsp_handler u (Some p) = Some (QERR_SUCCESS, answered u (status_of bs))"
  using handler_parser_rep [OF assms] parse_status_rep
  by (fastforce simp: uci_rsp_handler_def answered_simp)

text \<open>A response to the setting of parameters that lists rejected parameters is a failure.\<close>

lemma rsp_set_app_config_ok:
  assumes "context_of u = Some c" and "msg_ok (heap (u_mem u)) p bs"
  shows "uci_rsp_handler_set_app_config u (Some p) = Some (QERR_SUCCESS,
    answered u (if 2 \<le> length bs \<and> bs ! 1 \<noteq> 0 then UCI_STATUS_FAILED else status_of bs))"
proof -
  from handler_parser_rep [OF assms] obtain q where q: "handler_parser u (Some p) = Some q"
    "parser_rep (heap (u_mem u)) q bs" by blast
  from parse_status_rep [OF q(2)] obtain q' where q': "parse_status (heap (u_mem u)) q = Some (status_of bs, q')"
    "parser_rep (heap (u_mem u)) q' (tl bs)" by blast
  note rem = remaining_rep [OF q'(2)]
  show ?thesis
  proof (cases "tl bs")
    case Nil
    with rem have "uci_message_remaining q' < 1" "\<not> 2 \<le> length bs" by (cases bs; simp)+
    with q q' show ?thesis by (simp add: uci_rsp_handler_set_app_config_def answered_simp)
  next
    case (Cons n rest)
    with q'(2) obtain q'' where "uci_message_get_8bit (heap (u_mem u)) q' = Some (n, q'')"
      using get_8bit_rep by metis
    moreover have "2 \<le> length bs" "bs ! 1 = n" using Cons by (cases bs; simp)+
    moreover have "set_status (set_status u s) t = set_status u t" for s t
      by (simp add: set_status_def comp_def)
    ultimately show ?thesis
      using q q' rem Cons by (simp add: uci_rsp_handler_set_app_config_def answered_simp set_status_def [of u] Let_def)
        (auto simp: set_status_def answered_def cherry_session_set_rsp_def comp_def)
  qed
qed

text \<open>An empty response to the initialisation of a session runs into an assertion.\<close>

lemma init_rsp_empty:
  assumes "context_of u = Some c" and "msg_ok (heap (u_mem u)) p []"
  shows "uci_session_init_rsp_handler u (Some p) = None"
proof -
  from handler_parser_rep [OF assms] obtain q where q: "handler_parser u (Some p) = Some q"
    "parser_rep (heap (u_mem u)) q []" by blast
  then have "uci_message_get_8bit (heap (u_mem u)) q = None" using get_8bit_empty by blast
  with q show ?thesis
    by (simp add: uci_session_init_rsp_handler_def set_status_def)
qed

lemma init_rsp_ok:
  assumes "context_of u = Some c" and "msg_ok (heap (u_mem u)) p (s # bs)"
  shows "uci_session_init_rsp_handler u (Some p) = Some (QERR_SUCCESS,
    upd_context u (\<lambda>c. c\<lparr>sc_response_status := uint s,
      sc_session_handle := if 4 \<le> length bs then le_value (take 4 bs) else 0, sc_sem := 1\<rparr>))"
proof -
  from handler_parser_rep [OF assms] obtain q where q: "handler_parser u (Some p) = Some q"
    "parser_rep (heap (u_mem u)) q (s # bs)" by blast
  then obtain q' where q': "uci_message_get_8bit (heap (u_mem u)) q = Some (s, q')" "parser_rep (heap (u_mem u)) q' bs"
    using get_8bit_rep by blast
  from get_32bit_no_assert_rep [OF q'(2)] obtain q'' where
    "uci_message_get_32bit_no_assert (heap (u_mem u)) q' 0 =
      Some (4 \<le> length bs, if 4 \<le> length bs then le_value (take 4 bs) else 0, q'')" by blast
  with q q' remaining_rep [OF q(2)] show ?thesis
    by (simp add: uci_session_init_rsp_handler_def set_status_def cherry_session_set_rsp_def answered_def comp_def)
qed

section \<open>The response with the value of a parameter\<close>

text \<open>The variable of a request fits its handler and is as large as the request says.\<close>

fun data_fits :: "app_handler \<Rightarrow> app_data \<Rightarrow> nat \<Rightarrow> bool" where
  "data_fits Raw_Handler (Raw d) maxlen \<longleftrightarrow> maxlen \<le> length d"
| "data_fits Uint8_Handler (U8 _) maxlen \<longleftrightarrow> True"
| "data_fits Uint16_Handler (U16 _) maxlen \<longleftrightarrow> True"
| "data_fits Dest_Mac_Handler (Macs a) maxlen \<longleftrightarrow> length (addresses a) = FIRA_CONTROLEES_MAX"
| "data_fits Location_Handler (Location _) maxlen \<longleftrightarrow> True"
| "data_fits _ _ _ \<longleftrightarrow> False"

text \<open>What the value bytes of a response mean for the variable.\<close>

definition le16s :: "bytes \<Rightarrow> nat \<Rightarrow> 16 word list" where
  "le16s xs n = map (\<lambda>i. le_value (take 2 (drop (2 * i) xs))) [0..<n]"

fun param_value :: "bytes \<Rightarrow> app_handler \<Rightarrow> app_data \<Rightarrow> bytes \<Rightarrow> int \<times> app_data" where
  "param_value stack Raw_Handler (Raw d) xs = (UCI_STATUS_OK, Raw (xs @ drop (length xs) d))"
| "param_value stack Uint8_Handler (U8 v) xs =
     (if length xs = 1 then (UCI_STATUS_OK, U8 (le_value xs)) else (UCI_STATUS_INVALID_MESSAGE_SIZE, U8 v))"
| "param_value stack Uint16_Handler (U16 v) xs =
     (if length xs = 2 then (UCI_STATUS_OK, U16 (le_value xs)) else (UCI_STATUS_INVALID_MESSAGE_SIZE, U16 v))"
| "param_value stack Dest_Mac_Handler (Macs a) xs =
     (let n = length xs div 2 in
      if n > FIRA_CONTROLEES_MAX then (UCI_STATUS_INVALID_MESSAGE_SIZE, Macs a)
      else (UCI_STATUS_OK, Macs (a\<lparr>n_addresses := int n, addresses := le16s xs n @ drop n (addresses a)\<rparr>)))"
| "param_value stack Location_Handler (Location l) xs =
     (if length xs \<in> {1, 11, 13}
      then (UCI_STATUS_OK, Location (decode_location (xs @ drop (length xs) (take 13 stack)) l))
      else (UCI_STATUS_INVALID_MESSAGE_SIZE, Location l))"
| "param_value stack _ d xs = (UCI_STATUS_INVALID_MESSAGE_SIZE, d)"

lemma get_addresses_ok:
  assumes "parser_rep h q ys" and "2 * n \<le> length ys" and "k + n \<le> length addrs"
  shows "get_addresses h q addrs [k..<k + n] = Some (take k addrs @ le16s ys n @ drop (k + n) addrs)"
  using assms
proof (induction n arbitrary: q ys k addrs)
  case 0
  then show ?case by (simp add: le16s_def)
next
  case (Suc n)
  then have "2 \<le> length ys" by simp
  from get_16bit_rep [OF Suc.prems(1) this] obtain q' where
    q': "uci_message_get_16bit h q = Some (le_value (take 2 ys), q')" "parser_rep h q' (drop 2 ys)" by blast
  have up: "[k..<k + Suc n] = k # [Suc k..<Suc k + n]" by (simp add: upt_rec)
  have kl: "k < length addrs" using Suc.prems(3) by simp
  have "get_addresses h q' (addrs[k := le_value (take 2 ys)]) [Suc k..<Suc k + n] =
      Some (take (Suc k) (addrs[k := le_value (take 2 ys)]) @ le16s (drop 2 ys) n @ drop (Suc k + n) (addrs[k := le_value (take 2 ys)]))"
    using Suc.prems by (intro Suc.IH [OF q'(2)]) simp_all
  moreover have *: "[0..<Suc n] = 0 # map Suc [0..<n]"
    by (simp add: upt_conv_Cons map_Suc_upt del: upt_Suc)
  have "le16s ys (Suc n) = le_value (take 2 ys) # le16s (drop 2 ys) n"
    unfolding le16s_def * by simp
  ultimately show ?case
    unfolding up using q'(1) kl by (simp add: take_Suc_nth_append)
qed

lemma app_handler_ok:
  assumes rep: "parser_rep h q xs" and fits: "data_fits f data maxlen" and len: "length xs \<le> maxlen"
    and stack: "13 \<le> length stack"
  shows "run_app_handler stack f h q data (length xs) = Some (param_value stack f data xs)"
proof (cases f)
  case Raw_Handler
  with fits obtain d where d: "data = Raw d" "maxlen \<le> length d" by (cases data) auto
  from message_get_rep [OF rep, of "length xs"] obtain q' where "uci_message_get h q (length xs) = Some (xs, q')" by auto
  with Raw_Handler d len show ?thesis
    by (simp add: run_app_handler_def cherry_uci_client_session_get_app_config_raw_handler_def write_buf_def)
next
  case Uint8_Handler
  with fits obtain v where d: "data = U8 v" by (cases data) auto
  show ?thesis
  proof (cases xs)
    case (Cons b ys)
    with rep obtain q' where "uci_message_get_8bit h q = Some (b, q')" using get_8bit_rep by blast
    with Uint8_Handler d Cons show ?thesis
      by (simp add: run_app_handler_def cherry_uci_client_session_get_app_config_uint8_handler_def)
  qed (use Uint8_Handler d in \<open>simp add: run_app_handler_def cherry_uci_client_session_get_app_config_uint8_handler_def\<close>)
next
  case Uint16_Handler
  with fits obtain v where d: "data = U16 v" by (cases data) auto
  show ?thesis
  proof (cases "length xs = 2")
    case True
    with get_16bit_rep [OF rep] obtain q' where "uci_message_get_16bit h q = Some (le_value xs, q')" by auto
    with Uint16_Handler d True show ?thesis
      by (simp add: run_app_handler_def cherry_uci_client_session_get_app_config_uint16_handler_def)
  qed (use Uint16_Handler d in \<open>simp add: run_app_handler_def cherry_uci_client_session_get_app_config_uint16_handler_def\<close>)
next
  case Dest_Mac_Handler
  with fits obtain a where d: "data = Macs a" "length (addresses a) = 8" by (cases data) auto
  show ?thesis
  proof (cases "length xs div 2 > FIRA_CONTROLEES_MAX")
    case False
    then have "get_addresses h q (addresses a) [0..<0 + length xs div 2] =
        Some (take 0 (addresses a) @ le16s xs (length xs div 2) @ drop (0 + length xs div 2) (addresses a))"
      using d by (intro get_addresses_ok [OF rep]) simp_all
    with Dest_Mac_Handler d False remaining_rep [OF rep] show ?thesis
      by (simp add: run_app_handler_def cherry_uci_client_session_get_app_config_dest_mac_address_handler_def Let_def)
  qed (use Dest_Mac_Handler d in
      \<open>simp add: run_app_handler_def cherry_uci_client_session_get_app_config_dest_mac_address_handler_def Let_def\<close>)
next
  case Location_Handler
  with fits obtain l where d: "data = Location l" by (cases data) auto
  from message_get_rep [OF rep, of "length xs"] obtain q' where "uci_message_get h q (length xs) = Some (xs, q')" by auto
  with Location_Handler d stack show ?thesis
    by (auto simp: run_app_handler_def cherry_uci_client_session_get_app_config_dl_tdoa_anchor_location_handler_def
        write_buf_def min_def)
qed

text \<open>
  A response with the requested parameter and nothing after it sets the variable to its value, and the
  status to the result of reading it.
\<close>

lemma rsp_get_app_config_ok:
  assumes ctx: "context_of u = Some c" and cp: "sc_cmd_data c = Cmd_Param cp"
    and msg: "msg_ok (heap (u_mem u)) p (s # 1 # t # l # xs)" and t: "\<not> (0xE0 \<le> t \<and> t \<le> 0xE2)"
    and id: "ap_param_type cp = ucast t" and l: "unat l = length xs" "length xs \<le> ap_maxlen cp"
    and fits: "data_fits (ap_handler cp) (ap_data cp) (ap_maxlen cp)" and stack: "13 \<le> length (se_stack e)"
  shows "uci_rsp_handler_get_app_config e u (Some p) = Some (QERR_SUCCESS, upd_context u
    (\<lambda>c. c\<lparr>sc_response_status := fst (param_value (se_stack e) (ap_handler cp) (ap_data cp) xs),
          sc_cmd_data := Cmd_Param (cp\<lparr>ap_data := snd (param_value (se_stack e) (ap_handler cp) (ap_data cp) xs)\<rparr>),
          sc_sem := 1\<rparr>))"
proof -
  let ?h = "heap (u_mem u)"
  from handler_parser_rep [OF ctx msg] obtain q where q: "handler_parser u (Some p) = Some q"
    "parser_rep ?h q (s # 1 # t # l # xs)" by blast
  from parse_status_rep [OF q(2)] obtain q1 where q1: "parse_status ?h q = Some (uint s, q1)"
    "parser_rep ?h q1 (1 # t # l # xs)" by (auto simp: status_of_def)
  from q1(2) obtain q2 where q2: "uci_message_get_8bit ?h q1 = Some (1, q2)" "parser_rep ?h q2 (t # l # xs)"
    using get_8bit_rep by blast
  from q2(2) obtain q3 where q3: "uci_message_get_8bit ?h q2 = Some (t, q3)" "parser_rep ?h q3 (l # xs)"
    using get_8bit_rep by blast
  from q3(2) obtain q4 where q4: "uci_message_get_8bit ?h q3 = Some (l, q4)" "parser_rep ?h q4 xs"
    using get_8bit_rep by blast
  note run = app_handler_ok [OF q4(2) fits l(2) stack]
  note rem = remaining_rep [OF q1(2)] remaining_rep [OF q4(2)]
  obtain st d where v: "param_value (se_stack e) (ap_handler cp) (ap_data cp) xs = (st, d)" by fastforce
  have c1: "context_of (set_status u (uint s)) = Some (c\<lparr>sc_response_status := uint s\<rparr>)"
    using ctx by (simp add: set_status_def)
  show ?thesis
    using q q1(1) q2(1) q3(1) q4(1) run rem t id l cp c1
    by (cases "0xE0 \<le> t"; simp add: uci_rsp_handler_get_app_config_def v Let_def;
        simp add: set_status_def cherry_session_set_rsp_def comp_def)
qed

text \<open>When the function that made the request has returned, a response faults.\<close>

lemma rsp_get_app_config_dangling:
  assumes ctx: "context_of u = Some c" and cp: "sc_cmd_data c = Cmd_Dangling"
    and msg: "msg_ok (heap (u_mem u)) p (s # 1 # t # l # xs)" and t: "\<not> (0xE0 \<le> t \<and> t \<le> 0xE2)"
  shows "uci_rsp_handler_get_app_config e u (Some p) = None"
proof -
  let ?h = "heap (u_mem u)"
  from handler_parser_rep [OF ctx msg] obtain q where q: "handler_parser u (Some p) = Some q"
    "parser_rep ?h q (s # 1 # t # l # xs)" by blast
  from parse_status_rep [OF q(2)] obtain q1 where q1: "parse_status ?h q = Some (uint s, q1)"
    "parser_rep ?h q1 (1 # t # l # xs)" by (auto simp: status_of_def)
  from q1(2) obtain q2 where q2: "uci_message_get_8bit ?h q1 = Some (1, q2)" "parser_rep ?h q2 (t # l # xs)"
    using get_8bit_rep by blast
  from q2(2) obtain q3 where q3: "uci_message_get_8bit ?h q2 = Some (t, q3)" "parser_rep ?h q3 (l # xs)"
    using get_8bit_rep by blast
  have c1: "context_of (set_status u (uint s)) = Some (c\<lparr>sc_response_status := uint s\<rparr>)"
    using ctx by (simp add: set_status_def)
  show ?thesis
    using q q1(1) q2(1) q3(1) remaining_rep [OF q1(2)] t cp c1
    by (cases "0xE0 \<le> t"; simp add: uci_rsp_handler_get_app_config_def Let_def)
qed

section \<open>Notifications\<close>

text \<open>A notification is handed to the callback with its fields; one that is too short is refused.\<close>

lemma status_ntf_ok:
  assumes msg: "msg_ok (heap (u_mem u)) p bs" and ctx: "context_of u = Some c"
    and mal: "\<not> sw_oom (u_world u) (sw_allocs (u_world u))"
  shows "uci_session_ntf_handler e u (Some p) =
    (if length bs < 6 then Some (QERR_EINVAL, u)
     else do { u \<leftarrow> se_status_cb e \<lparr>ntf_session_handle = le_value (take 4 bs), ntf_session_state = bs ! 4,
                 ntf_reason_code = bs ! 5\<rparr> (snd (client_malloc u));
               Some (QERR_SUCCESS, u) })"
proof -
  let ?h = "heap (u_mem u)"
  from parser_init [OF msg] obtain q where q: "msg_parser u (Some p) = Some q" "parser_rep ?h q bs"
    by (auto simp: msg_parser_def)
  show ?thesis
  proof (cases "length bs < 6")
    case True
    with q remaining_rep [OF q(2)] show ?thesis by (simp add: uci_session_ntf_handler_def)
  next
    case False
    then have "4 \<le> length bs" by simp
    from get_32bit_rep [OF q(2) this] obtain q1 where
      q1: "uci_message_get_32bit ?h q = Some (le_value (take 4 bs), q1)" "parser_rep ?h q1 (drop 4 bs)" by blast
    have d: "drop 4 bs = bs ! 4 # bs ! 5 # drop 6 bs" using False Cons_nth_drop_Suc [of 4 bs] Cons_nth_drop_Suc [of 5 bs] by simp
    from q1(2) obtain q2 where q2: "uci_message_get_8bit ?h q1 = Some (bs ! 4, q2)" "parser_rep ?h q2 (bs ! 5 # drop 6 bs)"
      unfolding d using get_8bit_rep by blast
    from q2(2) obtain q3 where q3: "uci_message_get_8bit ?h q2 = Some (bs ! 5, q3)" using get_8bit_rep by blast
    obtain u1 where u1: "client_malloc u = (True, u1)" "u_mem u1 = u_mem u" "context_of u1 = Some c"
      using mal ctx by (simp add: client_malloc_def context_of_def)
    from False q q1(1) q2(1) q3 u1 remaining_rep [OF q(2)] show ?thesis
      by (simp add: uci_session_ntf_handler_def)
  qed
qed

section \<open>Commands\<close>

context ample_allocator
begin

text \<open>
  A command with the handle of a session queues one packet with the identifier of the command and the
  handle, and then waits for the response.
\<close>

lemma session_command_sent:
  assumes e: "e_allocator (se_uci e) = A" and inv: "inv (u_mem u)" and ctx: "context_of u \<noteq> None"
    and s: "sendable (UCI_MT_GID_OID UCI_MESSAGE_TYPE_COMMAND gid oid)"
    and tx: "tx_inv u txs" and rsp: "rsp_inv u txs" and un: "\<not> u_locked u" and tr: "u_tr u \<noteq> None"
  shows "\<exists>u' as. session_command e u gid oid handle =
      do { u \<leftarrow> packet_send_ready (se_uci e) u'; (ret, u) \<leftarrow> cherry_session_wait_rsp e u;
           r \<leftarrow> rsp_status u ret; Some (r, u) } \<and>
    inv (u_mem u') \<and> tx_inv u' (txs @ as) \<and> rsp_inv u' (txs @ as) \<and> u_world u' = u_world u \<and> u_tr u' = u_tr u \<and>
    wires (heap (u_mem u')) (txs @ as) = wires (heap (u_mem u)) txs @
      segment (UCI_MT_GID_OID UCI_MESSAGE_TYPE_COMMAND gid oid) (le_bytes 4 handle)"
proof -
  have l: "length [] + length (le_bytes 4 handle) < 65536" by simp
  from message_put_ample [OF inv builder_init_rep l] obtain m b as where
    put: "uci_message_put A (u_mem u) uci_message_builder_init (le_bytes 4 handle) = Some (0, m, b)" "inv m"
      "builder_rep m b as ([] @ le_bytes 4 handle)" "frame (heap (u_mem u)) [] (heap m) as" "no_empty (heap m) as"
    by auto
  from put(3) have rep: "message_rep (heap m) (mb_message b) as (le_bytes 4 handle)" by (simp add: builder_rep_def)
  moreover have "le_bytes 4 handle \<noteq> []" by (metis length_le_bytes list.size(3) zero_neq_numeral)
  ultimately obtain p where p: "mb_message b = Some p"
    by (cases "mb_message b") (auto simp: message_rep_def)
  have out: "outside (heap (u_mem u)) [] (heap m) as" using put(4) by (rule outside_frame)
  have "length (le_bytes 4 handle) < 65536" by simp
  from fresh_message_sent [OF e put(2) out rep [unfolded p] put(5) s tx rsp this un tr] obtain u' m' tx' r where
    send: "uci_send_message (se_uci e) (u\<lparr>u_mem := m\<rparr>) (UCI_MT_GID_OID UCI_MESSAGE_TYPE_COMMAND gid oid) (Some p) =
      packet_send_ready (se_uci e) u'"
    "u' = u\<lparr>u_mem := m', u_tx := tx', u_tx_last := last_ptr as, u_rsp_blk := r\<rparr>" "inv m'"
    "tx_inv u' (txs @ as)" "rsp_inv u' (txs @ as)"
    "wires (heap m') (txs @ as) = wires (heap (u_mem u)) txs @
      segment (UCI_MT_GID_OID UCI_MESSAGE_TYPE_COMMAND gid oid) (le_bytes 4 handle)" by blast
  have "session_command e u gid oid handle =
      do { u \<leftarrow> packet_send_ready (se_uci e) u'; (ret, u) \<leftarrow> cherry_session_wait_rsp e u;
           r \<leftarrow> rsp_status u ret; Some (r, u) }"
    using ctx put(1) p send(1) e by (auto simp: session_command_def put_32_def put_scalars send_and_wait_def)
  with send show ?thesis by (intro exI [of _ u'] exI [of _ as]) simp
qed

text \<open>A request for a parameter: the handle, the number 1 and the low byte of the parameter.\<close>

lemma get_app_config_sent:
  assumes e: "e_allocator (se_uci e) = A" and inv: "inv (u_mem u)" and ctx: "context_of u = Some c" and ml: "maxlen \<noteq> 0"
    and tx: "tx_inv u txs" and rsp: "rsp_inv u txs" and un: "\<not> u_locked u" and tr: "u_tr u \<noteq> None"
  shows "\<exists>u' as. cherry_uci_client_session_get_app_config e u handle param data maxlen f =
      do { u \<leftarrow> packet_send_ready (se_uci e) u'; (ret, u) \<leftarrow> cherry_session_wait_rsp e u;
           r \<leftarrow> rsp_status u ret; c \<leftarrow> context_of u;
           Some (r, (case sc_cmd_data c of Cmd_Param p \<Rightarrow> ap_data p | _ \<Rightarrow> data),
                 upd_context u (\<lambda>c. c\<lparr>sc_cmd_data := Cmd_Dangling\<rparr>)) } \<and>
    inv (u_mem u') \<and> tx_inv u' (txs @ as) \<and> rsp_inv u' (txs @ as) \<and> u_tr u' = u_tr u \<and>
    context_of u' = Some (c\<lparr>sc_cmd_data := Cmd_Param \<lparr>ap_param_type = param, ap_maxlen = maxlen, ap_data = data,
      ap_handler = f\<rparr>\<rparr>) \<and>
    wires (heap (u_mem u')) (txs @ as) = wires (heap (u_mem u)) txs @
      segment (UCI_MT_GID_OID UCI_MESSAGE_TYPE_COMMAND UCI_GID_SESSION_CONFIG UCI_OID_SESSION_GET_APP_CONFIG)
        (le_bytes 4 handle @ [1, ucast param])"
proof -
  let ?mid = "UCI_MT_GID_OID UCI_MESSAGE_TYPE_COMMAND UCI_GID_SESSION_CONFIG UCI_OID_SESSION_GET_APP_CONFIG"
  let ?bs = "le_bytes 4 handle @ [1, ucast param]"
  have l: "length [] + length (le_bytes 4 handle) < 65536" by simp
  from message_put_ample [OF inv builder_init_rep l] obtain m1 b1 as1 where
    p1: "uci_message_put A (u_mem u) uci_message_builder_init (le_bytes 4 handle) = Some (0, m1, b1)" "inv m1"
      "builder_rep m1 b1 as1 ([] @ le_bytes 4 handle)" "frame (heap (u_mem u)) [] (heap m1) as1"
      "mb_elems_nr b1 = None" "mb_first_errno b1 = 0" "no_empty (heap m1) as1" by auto
  have l: "length ([] @ le_bytes 4 handle) + length [1 :: byte] < 65536" by simp
  from message_put_ample [OF p1(2,3,6,5) l] obtain m2 b2 as2 where
    p2: "uci_message_put A m1 b1 [1] = Some (0, m2, b2)" "inv m2"
      "builder_rep m2 b2 as2 (([] @ le_bytes 4 handle) @ [1])" "frame (heap m1) as1 (heap m2) as2"
      "mb_elems_nr b2 = None" "mb_first_errno b2 = 0" "no_empty (heap m2) as2" using p1(7) by auto
  have l: "length (([] @ le_bytes 4 handle) @ [1]) + length [ucast param :: byte] < 65536" by simp
  from message_put_ample [OF p2(2,3,6,5) l] obtain m b as where
    p3: "uci_message_put A m2 b2 [ucast param] = Some (0, m, b)" "inv m"
      "builder_rep m b as ((([] @ le_bytes 4 handle) @ [1]) @ [ucast param])" "frame (heap m2) as2 (heap m) as"
      "no_empty (heap m) as" using p2(7) by auto
  have rep: "message_rep (heap m) (mb_message b) as ?bs" using p3(3) by (simp add: builder_rep_def)
  then obtain p where p: "mb_message b = Some p"
    by (cases "mb_message b") (auto simp: message_rep_def)
  have out: "outside (heap (u_mem u)) [] (heap m) as"
    using p1(4) p2(4) p3(4) by (blast intro: outside_frame frame_trans)
  let ?g = "\<lambda>c. c\<lparr>sc_cmd_data := Cmd_Param \<lparr>ap_param_type = param, ap_maxlen = maxlen, ap_data = data, ap_handler = f\<rparr>\<rparr>"
  let ?u = "upd_context u ?g"
  have pre: "outside (heap (u_mem ?u)) [] (heap m) as" "tx_inv ?u txs" "rsp_inv ?u txs" "\<not> u_locked ?u" "u_tr ?u \<noteq> None"
    "length ?bs < 65536" "sendable ?mid"
    using out tx rsp un tr
    by (simp_all add: tx_inv_def rsp_inv_def upd_context_def sendable_def is_control_mt_def UCI_MT_def UCI_MT_GID_OID_def)
  from fresh_message_sent [OF e p3(2) pre(1) rep [unfolded p] p3(5) pre(7,2,3,6,4,5)] obtain u' m' tx' r where
    send: "uci_send_message (se_uci e) (?u\<lparr>u_mem := m\<rparr>) ?mid (Some p) = packet_send_ready (se_uci e) u'"
    "u' = ?u\<lparr>u_mem := m', u_tx := tx', u_tx_last := last_ptr as, u_rsp_blk := r\<rparr>" "inv m'"
    "tx_inv u' (txs @ as)" "rsp_inv u' (txs @ as)"
    "wires (heap m') (txs @ as) = wires (heap (u_mem ?u)) txs @ segment ?mid ?bs" by blast
  have sw: "upd_context (u\<lparr>u_mem := m\<rparr>) ?g = ?u\<lparr>u_mem := m\<rparr>" by (simp add: upd_context_def context_of_def)
  have "cherry_uci_client_session_get_app_config e u handle param data maxlen f =
      do { u \<leftarrow> packet_send_ready (se_uci e) u'; (ret, u) \<leftarrow> cherry_session_wait_rsp e u;
           r \<leftarrow> rsp_status u ret; c \<leftarrow> context_of u;
           Some (r, (case sc_cmd_data c of Cmd_Param p \<Rightarrow> ap_data p | _ \<Rightarrow> data),
                 upd_context u (\<lambda>c. c\<lparr>sc_cmd_data := Cmd_Dangling\<rparr>)) }"
    using ctx ml p1(1) p2(1) p3(1) p send(1) e
    by (simp add: cherry_uci_client_session_get_app_config_def put_32_def put_8_def put_scalars(3)
        uci_message_put_8bit_def send_and_wait_def sw case_prod_unfold)
  moreover have "context_of u' = Some (?g c)" unfolding send(2) using ctx by (simp add: context_of_def upd_context_def)
  moreover have "u_tr u' = u_tr u" unfolding send(2) by (simp add: upd_context_def)
  ultimately show ?thesis using send by (intro exI [of _ u'] exI [of _ as]) simp
qed

text \<open>
  A response that came after its command had given up leaves the semaphore given. The next command does
  not wait then, and returns the status of the old response.
\<close>

lemma stale_response:
  assumes "e_allocator (se_uci e) = A" and "inv (u_mem u)" and ctx: "context_of u = Some c" and sem: "0 < sc_sem c"
    and "sendable (UCI_MT_GID_OID UCI_MESSAGE_TYPE_COMMAND gid oid)"
    and "tx_inv u txs" and "rsp_inv u txs" and "\<not> u_locked u" and "u_tr u \<noteq> None"
    and ready: "\<And>v. \<exists>v'. e_packet_send_ready (se_uci e) v = Some v' \<and> context_of v' = context_of v"
  shows "\<exists>u'. session_command e u gid oid handle = Some (sc_response_status c, u') \<and>
    context_of u' = Some (c\<lparr>sc_sem := sc_sem c - 1\<rparr>)"
proof -
  have "context_of u \<noteq> None" using ctx by simp
  from session_command_sent [OF assms(1,2) this assms(5-9)] obtain u1 where
    run: "session_command e u gid oid handle =
      do { u \<leftarrow> packet_send_ready (se_uci e) u1; (ret, u) \<leftarrow> cherry_session_wait_rsp e u;
           r \<leftarrow> rsp_status u ret; Some (r, u) }" and w: "u_world u1 = u_world u" "u_tr u1 = u_tr u" by blast
  from ready [of u1] obtain u2 where u2: "e_packet_send_ready (se_uci e) u1 = Some u2" "context_of u2 = Some c"
    using w ctx by (auto simp: context_of_def)
  moreover have "packet_send_ready (se_uci e) u1 = e_packet_send_ready (se_uci e) u1"
    using w assms(9) by (auto simp: packet_send_ready_def)
  ultimately show ?thesis using run sem by (simp add: cherry_session_wait_rsp_def rsp_status_def)
qed

end

text \<open>
  A request for a parameter leaves a dangling pointer in the context, whatever happened in between: a
  response that comes later makes the handler write through it.
\<close>

lemma get_app_config_leaves_dangling:
  assumes "cherry_uci_client_session_get_app_config e u session_handle param data maxlen f = Some (r, d, u')"
    and "context_of u \<noteq> None" and "maxlen \<noteq> 0"
  shows "\<exists>c. context_of u' = Some c \<and> sc_cmd_data c = Cmd_Dangling"
proof -
  from assms obtain u1 c where "context_of u1 = Some c" "u' = upd_context u1 (\<lambda>c. c\<lparr>sc_cmd_data := Cmd_Dangling\<rparr>)"
    by (auto simp: cherry_uci_client_session_get_app_config_def bind_Some_iff)
  then show ?thesis by simp
qed

end
