(* ===== verification/App_Command.thy ===== *)
theory App_Command
  imports App_Params Session_Handlers
begin

text \<open>
  What a command that sets application parameters is: a message under construction with the handle of
  the session, the number of parameters, and the parameters put so far, each as type, length and value.
  The two pointers of the command stay valid while the message grows, so that the count and the handle
  can be filled in in place.
\<close>

section \<open>Writing into a message\<close>

definition overwrite :: "bytes \<Rightarrow> nat \<Rightarrow> bytes \<Rightarrow> bytes" where
  "overwrite bs k xs = take k bs @ xs @ drop (k + length xs) bs"

lemma length_overwrite [simp]: "k + length xs \<le> length bs \<Longrightarrow> length (overwrite bs k xs) = length bs"
  by (simp add: overwrite_def)

lemma overwrite_append:
  "k + length xs \<le> length bs \<Longrightarrow> overwrite (bs @ cs) k xs = overwrite bs k xs @ cs"
  by (simp add: overwrite_def)

lemma message_rep_first:
  assumes "message_rep h p (a # zs) bs"
  obtains b where "h a = Some b" "p = Some a" "own_blk b" "uci_blk_has_header b"
    "bs = blk_payload b @ payload h zs" "blk_payload b = drop 4 (take (b_len b) (b_data b))" "a \<notin> set zs"
    "4 \<le> b_len b" "b_len b \<le> length (b_data b)"
proof -
  from assms have "chain h p (a # zs)" by (simp add: message_rep_def)
  then have d: "distinct (a # zs)" by (rule chain_distinct)
  from assms obtain b where b: "h a = Some b" "own_blk b" "p = Some a" "uci_blk_has_header b"
    by (auto simp: message_rep_def split: option.splits)
  with d assms show thesis
    by (intro that [of b])
      (auto simp: message_rep_def blk_at_def blk_payload_def own_blk_def blk_ok_def Let_def)
qed

text \<open>Overwriting bytes of the first block, and reading one.\<close>

lemma message_rep_poke:
  assumes rep: "message_rep h p (a # zs) bs" and k: "k + length xs \<le> length (blk_at h a)" and b: "h a = Some b"
  shows "\<exists>d. write_buf (b_data b) (4 + k) xs = Some d \<and>
    message_rep (h(a \<mapsto> b\<lparr>b_data := d\<rparr>)) p (a # zs) (overwrite bs k xs) \<and>
    length (blk_at (h(a \<mapsto> b\<lparr>b_data := d\<rparr>)) a) = length (blk_at h a)"
proof -
  obtain b' where "h a = Some b'" and *: "p = Some a" "own_blk b'" "uci_blk_has_header b'" "a \<notin> set zs"
    "bs = blk_payload b' @ payload h zs" "blk_payload b' = drop 4 (take (b_len b') (b_data b'))"
    "4 \<le> b_len b'" "b_len b' \<le> length (b_data b')"
    using rep by (rule message_rep_first)
  with b have [simp]: "b' = b" by simp
  from * have p: "p = Some a" and own: "own_blk b" and hdr: "uci_blk_has_header b" and notin: "a \<notin> set zs"
    and bs: "bs = blk_payload b @ payload h zs" and pay: "blk_payload b = drop 4 (take (b_len b) (b_data b))"
    and len: "4 \<le> b_len b" "b_len b \<le> length (b_data b)"
    by simp_all
  have at: "blk_at h a = blk_payload b" using b by (simp add: blk_at_def)
  have room: "4 + k + length xs \<le> b_len b" using k len unfolding at pay by simp
  let ?d = "take (4 + k) (b_data b) @ xs @ drop (4 + k + length xs) (b_data b)"
  have wr: "write_buf (b_data b) (4 + k) xs = Some ?d"
    using room len by (simp add: write_buf_def)
  let ?b = "b\<lparr>b_data := ?d\<rparr>"
  have hdr': "uci_blk_has_header ?b" using hdr by (simp add: uci_blk_has_header_def)
  have "take (b_len b) ?d = take (4 + k) (b_data b) @ xs @ take (b_len b - (4 + k + length xs)) (drop (4 + k + length xs) (b_data b))"
    using room len by simp
  then have pay': "blk_payload ?b = overwrite (blk_payload b) k xs"
    using room len hdr' by (simp add: blk_payload_def hdr overwrite_def Let_def drop_take min_def ac_simps)
  have lp: "length (blk_payload ?b) = length (blk_payload b)"
    using k unfolding pay' at by (rule length_overwrite)
  have own': "own_blk ?b"
    using own write_buf_length [OF wr] len by (simp add: own_blk_def blk_ok_def allocator_owned_def uci_blk_has_header_def)
  have rep': "message_rep (h(a \<mapsto> ?b)) p (a # zs) (overwrite bs k xs)"
    using rep b own own' notin hdr hdr' lp pay' k at
    by (auto simp: message_rep_def path_upd_same_next [of h a b] bs plen_def total_is_def blk_at_def overwrite_append)
  show ?thesis
    using wr rep' lp b by (auto simp: blk_at_def)
qed

lemma message_rep_read:
  assumes rep: "message_rep h p (a # zs) bs" and k: "k + n \<le> length (blk_at h a)" and b: "h a = Some b"
  shows "read_buf (b_data b) (4 + k) n = Some (take n (drop k bs))"
proof -
  obtain b' where "h a = Some b'" and *: "bs = blk_payload b' @ payload h zs"
    "blk_payload b' = drop 4 (take (b_len b') (b_data b'))" "4 \<le> b_len b'" "b_len b' \<le> length (b_data b')"
    using rep by (rule message_rep_first)
  with b have [simp]: "b' = b" by simp
  have at: "blk_at h a = blk_payload b" using b by (simp add: blk_at_def)
  have room: "4 + k + n \<le> b_len b" using k * unfolding at by simp
  then have "take n (drop k (blk_payload b)) = take n (drop (4 + k) (b_data b))"
    using * by (simp add: drop_take ac_simps)
  moreover have "take n (drop k bs) = take n (drop k (blk_payload b))"
    using * k at by simp
  ultimately show ?thesis using room * by (simp add: read_buf_def)
qed

text \<open>Overwriting bytes at the start of a message under construction.\<close>

lemma builder_poke:
  assumes rep: "builder_rep m b (a # zs) bs" and len: "k + length xs \<le> length (blk_at (heap m) a)"
  shows "\<exists>m'. write_chunk m (Some (a, 4 + k)) xs = Some m' \<and> builder_rep m' b (a # zs) (overwrite bs k xs) \<and>
    length (blk_at (heap m') a) = length (blk_at (heap m) a) \<and> outside (heap m) (a # zs) (heap m') (a # zs) \<and>
    (no_empty (heap m) (a # zs) \<longrightarrow> no_empty (heap m') (a # zs)) \<and> (\<exists>c. m' = put_blk m a c \<and> a \<in> dom (heap m))"
proof -
  from rep have msg: "message_rep (heap m) (mb_message b) (a # zs) bs" by (simp add: builder_rep_def)
  obtain c where c: "heap m a = Some c" "a \<notin> set zs" using msg by (rule message_rep_first)
  from message_rep_poke [OF msg len c(1)] obtain d where
    d: "write_buf (b_data c) (4 + k) xs = Some d"
    "message_rep ((heap m)(a \<mapsto> c\<lparr>b_data := d\<rparr>)) (mb_message b) (a # zs) (overwrite bs k xs)"
    "length (blk_at ((heap m)(a \<mapsto> c\<lparr>b_data := d\<rparr>)) a) = length (blk_at (heap m) a)" by blast
  let ?m = "put_blk m a (c\<lparr>b_data := d\<rparr>)"
  have "write_chunk m (Some (a, 4 + k)) xs = Some ?m" using c d(1) by (simp add: write_chunk_def)
  moreover have "builder_rep ?m b (a # zs) (overwrite bs k xs)"
    using rep d(2) by (auto simp: builder_rep_def)
  moreover have "no_empty (heap m) (a # zs) \<longrightarrow> no_empty (heap ?m) (a # zs)"
    using c(2) by simp (metis d(3) length_0_conv)
  moreover have "outside (heap m) (a # zs) (heap ?m) (a # zs)" unfolding heap_put_blk by (intro outside_upd) simp
  ultimately show ?thesis using c(1) d(3) by auto
qed

section \<open>The command\<close>

definition cmd_body :: "32 word \<Rightarrow> byte \<Rightarrow> bytes \<Rightarrow> bytes" where
  "cmd_body handle n tlvs = le_bytes 4 handle @ [n] @ tlvs"

lemma length_cmd_body [simp]: "length (cmd_body handle n tlvs) = 5 + length tlvs"
  by (simp add: cmd_body_def)

lemma overwrite_cmd_body:
  "overwrite (cmd_body handle n tlvs) 4 [n'] = cmd_body handle n' tlvs"
  "overwrite (cmd_body handle n tlvs) 0 (le_bytes 4 handle') = cmd_body handle' n tlvs"
  by (simp_all add: overwrite_def cmd_body_def)

text \<open>
  The message is well formed and starts with the handle and the count in its first block, where the
  pointers of the command point.
\<close>

definition cmd_msg :: "mem \<Rightarrow> set_app_config_cmd \<Rightarrow> ptr list \<Rightarrow> bytes \<Rightarrow> bool" where
  "cmd_msg m c as bs \<longleftrightarrow> builder_rep m (ac_builder c) as bs \<and> mb_elems_nr (ac_builder c) = None \<and>
     (\<exists>a zs. as = a # zs \<and> ac_session_handle c = (a, 4) \<and> ac_nb_app_config c = (a, 8) \<and>
        5 \<le> length (blk_at (heap m) a))"

definition cmd_rep :: "mem \<Rightarrow> set_app_config_cmd \<Rightarrow> ptr list \<Rightarrow> 32 word \<Rightarrow> byte \<Rightarrow> bytes \<Rightarrow> bool" where
  "cmd_rep m c as handle n tlvs \<longleftrightarrow> cmd_msg m c as (cmd_body handle n tlvs) \<and> mb_first_errno (ac_builder c) = 0"

lemma cmd_poke:
  assumes rep: "cmd_msg m c as bs" and p: "p = ac_session_handle c \<and> k = 0 \<or> p = ac_nb_app_config c \<and> k = 4"
    and len: "k + length xs \<le> 5"
  shows "\<exists>m'. write_chunk m (Some p) xs = Some m' \<and> cmd_msg m' c as (overwrite bs k xs) \<and>
    outside (heap m) as (heap m') as \<and> (no_empty (heap m) as \<longrightarrow> no_empty (heap m') as) \<and>
    (\<exists>a b. m' = put_blk m a b \<and> a \<in> dom (heap m))"
proof -
  from rep obtain a zs where a: "as = a # zs" "ac_session_handle c = (a, 4)" "ac_nb_app_config c = (a, 8)"
      "5 \<le> length (blk_at (heap m) a)"
    and b: "builder_rep m (ac_builder c) (a # zs) bs" "mb_elems_nr (ac_builder c) = None"
    by (auto simp: cmd_msg_def)
  have "p = (a, 4 + k)" "k + length xs \<le> length (blk_at (heap m) a)" using p len a by auto
  with builder_poke [OF b(1), of k xs] a b(2) show ?thesis by (fastforce simp: cmd_msg_def)
qed

lemma cmd_count:
  assumes "cmd_msg m c as (cmd_body handle n tlvs)"
  shows "read_elem m (ac_nb_app_config c) = Some n"
proof -
  from assms obtain a zs where a: "ac_nb_app_config c = (a, 8)" "5 \<le> length (blk_at (heap m) a)"
    and msg: "message_rep (heap m) (mb_message (ac_builder c)) (a # zs) (cmd_body handle n tlvs)"
    by (auto simp: cmd_msg_def builder_rep_def)
  obtain b where b: "heap m a = Some b" using msg by (rule message_rep_first)
  from message_rep_read [OF msg _ b, of 4 1] a show ?thesis
    by (simp add: read_elem_def b cmd_body_def)
qed

text \<open>The bytes a put writes.\<close>

fun item_bytes :: "put_item \<Rightarrow> bytes" where
  "item_bytes (Put_8 v) = [v]"
| "item_bytes (Put_16 v) = le_bytes 2 v"
| "item_bytes (Put_32 v) = le_bytes 4 v"
| "item_bytes (Put_Data d n) = take n d"

fun item_ok :: "put_item \<Rightarrow> bool" where
  "item_ok (Put_Data d n) \<longleftrightarrow> n \<le> length d"
| "item_ok _ \<longleftrightarrow> True"

lemma put_one_bytes: "item_ok i \<Longrightarrow> put_one A m b i = uci_message_put A m b (item_bytes i)"
  by (cases i) (simp_all add: put_one_def put_scalars read_buf_def le_bytes_Suc eval_nat_numeral)

lemma cmd_msg_grow:
  assumes msg: "cmd_msg m c as bs" and rep: "builder_rep m' b as' bs'" and fr: "frame (heap m) as (heap m') as'"
    and nest: "mb_elems_nr b = None"
  shows "cmd_msg m' (c\<lparr>ac_builder := b\<rparr>) as' bs'"
proof -
  from msg obtain a zs where a: "as = a # zs" "ac_session_handle c = (a, 4)" "ac_nb_app_config c = (a, 8)"
    "5 \<le> length (blk_at (heap m) a)" by (auto simp: cmd_msg_def)
  from fr a(1) obtain ws ys where "as' = a # zs @ ws" "blk_at (heap m') a = blk_at (heap m) a @ ys"
    by (auto simp: frame_def grows_def)
  with a rep nest show ?thesis by (auto simp: cmd_msg_def)
qed

context uci_allocator
begin

text \<open>
  A sequence of puts appends all its bytes, or memory gives out, \<^verbatim>\<open>UCI_STATUS_FAILED\<close> is returned and a
  proper prefix was appended; the message stays well formed and nothing outside it changes.
\<close>

lemma put_items_rep:
  assumes "e_allocator (se_uci e) = A" and "inv (u_mem u)" and "cmd_msg (u_mem u) c as bs"
    and "mb_first_errno (ac_builder c) = 0" and "list_all item_ok is"
    and "length bs + length (concat (map item_bytes is)) < 65536"
  shows "\<exists>r m' c' as' k. put_items e u c is = Some (r, u\<lparr>u_mem := m'\<rparr>, c') \<and> inv m' \<and>
    cmd_msg m' c' as' (bs @ take k (concat (map item_bytes is))) \<and> frame (heap (u_mem u)) as (heap m') as' \<and>
    mb_first_errno (ac_builder c') = r \<and>
    (r = UCI_STATUS_OK \<and> k = length (concat (map item_bytes is)) \<and>
       (no_empty (heap (u_mem u)) as \<longrightarrow> no_empty (heap m') as') \<or>
     r = UCI_STATUS_FAILED \<and> k < length (concat (map item_bytes is)))"
  using assms
proof (induction "is" arbitrary: u c as bs)
  case Nil
  then show ?case by (intro exI [of _ 0] exI [of _ "u_mem u"] exI [of _ c] exI [of _ as]) auto
next
  case (Cons i "is")
  have len: "length bs + length (item_bytes i) < 65536" using Cons.prems(6) by simp
  have br: "builder_rep (u_mem u) (ac_builder c) as bs" "mb_elems_nr (ac_builder c) = None"
    using Cons.prems(3) by (simp_all add: cmd_msg_def)
  from message_put_rep [OF Cons.prems(2) br(1) Cons.prems(4) br(2) len] obtain r m1 b1 as1 k where
    put: "uci_message_put A (u_mem u) (ac_builder c) (item_bytes i) = Some (r, m1, b1)" "inv m1"
      "builder_rep m1 b1 as1 (bs @ take k (item_bytes i))" "frame (heap (u_mem u)) as (heap m1) as1"
      "mb_elems_nr b1 = None" "mb_first_errno b1 = r"
      "r = UCI_STATUS_OK \<and> k = length (item_bytes i) \<and> (no_empty (heap (u_mem u)) as \<longrightarrow> no_empty (heap m1) as1) \<or>
       r = UCI_STATUS_FAILED \<and> k < length (item_bytes i)"
    by blast
  have one: "put_one (e_allocator (se_uci e)) (u_mem u) (ac_builder c) i = Some (r, m1, b1)"
    using Cons.prems(1,5) put(1) by (simp add: put_one_bytes)
  note msg1 = cmd_msg_grow [OF Cons.prems(3) put(3,4,5)]
  show ?case
  proof (cases "r = 0")
    case False
    with put(7) have r: "r = UCI_STATUS_FAILED" "k < length (item_bytes i)" by auto
    with one put msg1 False show ?thesis
      by (intro exI [of _ r] exI [of _ m1] exI [of _ "c\<lparr>ac_builder := b1\<rparr>"] exI [of _ as1] exI [of _ k])
        (simp add: put(6))
  next
    case True
    with put(7) have k: "k = length (item_bytes i)" "no_empty (heap (u_mem u)) as \<longrightarrow> no_empty (heap m1) as1" by auto
    let ?u = "u\<lparr>u_mem := m1\<rparr>" and ?c = "c\<lparr>ac_builder := b1\<rparr>"
    have "\<exists>r m' c' as' k. put_items e ?u ?c is = Some (r, ?u\<lparr>u_mem := m'\<rparr>, c') \<and> inv m' \<and>
      cmd_msg m' c' as' ((bs @ item_bytes i) @ take k (concat (map item_bytes is))) \<and>
      frame (heap (u_mem ?u)) as1 (heap m') as' \<and> mb_first_errno (ac_builder c') = r \<and>
      (r = UCI_STATUS_OK \<and> k = length (concat (map item_bytes is)) \<and>
         (no_empty (heap (u_mem ?u)) as1 \<longrightarrow> no_empty (heap m') as') \<or>
       r = UCI_STATUS_FAILED \<and> k < length (concat (map item_bytes is)))"
      using Cons.prems(1,5,6) put(2,6) msg1 k True by (intro Cons.IH) simp_all
    then obtain r' m' c' as' k' where
      rest: "put_items e ?u ?c is = Some (r', u\<lparr>u_mem := m'\<rparr>, c')" "inv m'"
      "cmd_msg m' c' as' ((bs @ item_bytes i) @ take k' (concat (map item_bytes is)))"
      "frame (heap m1) as1 (heap m') as'" "mb_first_errno (ac_builder c') = r'"
      "r' = UCI_STATUS_OK \<and> k' = length (concat (map item_bytes is)) \<and> (no_empty (heap m1) as1 \<longrightarrow> no_empty (heap m') as') \<or>
       r' = UCI_STATUS_FAILED \<and> k' < length (concat (map item_bytes is))"
      by auto
    have run: "put_items e u c (i # is) = Some (r', u\<lparr>u_mem := m'\<rparr>, c')" using one rest(1) True by simp
    have fr: "frame (heap (u_mem u)) as (heap m') as'" using put(4) rest(4) by (rule frame_trans)
    have app: "(bs @ item_bytes i) @ take k' (concat (map item_bytes is)) =
        bs @ take (length (item_bytes i) + k') (concat (map item_bytes (i # is)))" by simp
    show ?thesis
      using run rest(2) rest(3) [unfolded app] fr rest(5,6) k
      by (intro exI [of _ r'] exI [of _ m'] exI [of _ c'] exI [of _ as'] exI [of _ "length (item_bytes i) + k'"]) auto
  qed
qed

end

section \<open>Creating a command\<close>

lemma put_in_block:
  assumes gr: "get_remaining A m builder (length xs) = Some (rem, m1, b1)" and room: "length xs \<le> rem"
    and xs: "xs \<noteq> []" and ok: "mb_first_errno builder = 0" "mb_elems_nr b1 = None"
    and rep: "builder_rep m1 b1 [p] bs" and b: "heap m1 p = Some b" and len: "length bs + length xs \<le> 255"
      "b_len b + length xs \<le> b_size b"
  shows "\<exists>m' b'. uci_message_put A m builder xs = Some (0, m', b1) \<and> builder_rep m' b1 [p] (bs @ xs) \<and>
    m' = put_blk m1 p b' \<and> b_size b' = b_size b \<and> b_len b' = b_len b + length xs"
proof -
  from rep have msg: "message_rep (heap m1) (mb_message b1) ([] @ [p]) bs" and cur: "mb_current_block b1 = Some p"
    by (simp_all add: builder_rep_def last_ptr_def)
  then have q: "mb_message b1 = Some p" and tot: "b_total_len b = length bs" and own: "own_blk b"
    using b by (auto simp: message_rep_def total_is_def)
  from own have o: "b_size b = length (b_data b)" "b_size b < 65536" by (simp_all add: own_blk_def)
  obtain d where d: "write_buf (b_data b) (b_len b) xs = Some d"
    using write_buf_total [of "b_len b" xs "b_data b"] len o by auto
  let ?b1 = "b\<lparr>b_total_len := length bs + length xs\<rparr>"
  let ?b = "?b1\<lparr>b_len := b_len b + length xs, b_data := d\<rparr>"
  have pl: "plen b = length bs" using msg b by (simp add: message_rep_def plen_def blk_at_def)
  have "message_rep ((heap m1)(p \<mapsto> ?b1, p \<mapsto> ?b)) (mb_message b1) ([] @ [p]) (bs @ xs)"
    using len pl by (intro message_rep_write [OF msg b q b _ refl d]) simp_all
  then have rep': "builder_rep (put_blk m1 p ?b) b1 [p] (bs @ xs)"
    using rep by (simp add: builder_rep_def)
  have "0 < rem" using room xs by (cases xs) simp_all
  then have "uci_message_put A m builder xs = Some (0, put_blk m1 p ?b, b1)"
    using gr room xs ok b q tot cur len o d
    by (subst uci_message_put.simps)
      (simp add: uci_message_put_nocopy_def Let_def write_chunk_def uci_message_put.simps [of _ _ _ "[]"]
        incr_elems_nr_def put_blk_def)
  with rep' show ?thesis by (intro exI [of _ "put_blk m1 p ?b"] exI [of _ ?b]) simp
qed

context packet_allocator
begin

lemma alloc_with_header_room:
  assumes inv: "inv m" and run: "alloc_blk_with_header A m builder n = Some (Some p, m')" and b: "heap m' p = Some b"
  shows "UCI_MAX_PACKET_SIZE \<le> b_size b \<and> b_len b = 4"
proof -
  let ?ask = "let size_needed = size_add UCI_PACKET_HEADER_SIZE n in
     if mb_expected_packet_size builder > size_needed then mb_expected_packet_size builder else size_needed"
  obtain q m1 where al: "op_alloc A m ?ask (mb_alloc_flags builder) = (q, m1)" by fastforce
  show ?thesis
  proof (cases q)
    case None
    with al run show ?thesis by (auto simp: alloc_blk_with_header_def uci_blk_alloc_def Let_def)
  next
    case (Some q')
    with alloc_size [OF inv, of ?ask "mb_alloc_flags builder" q' m1] al obtain c where
      "heap m1 q' = Some c" "UCI_MAX_PACKET_SIZE \<le> b_size c" by auto
    with al run b Some show ?thesis
      by (auto simp: alloc_blk_with_header_def uci_blk_alloc_def Let_def bind_Some_iff split: if_splits)
  qed
qed

text \<open>Reserving bytes in an empty message, and then in its only block.\<close>

lemma reserve_first:
  assumes inv: "inv m" and xs: "xs \<noteq> []" "length xs \<le> 255"
  obtains (null) m' b' where "uci_message_put A m uci_message_builder_init xs = Some (UCI_STATUS_FAILED, m', b')"
      "mb_first_errno b' = UCI_STATUS_FAILED" "inv m'"
  | (blk) p m' b' b where "uci_message_put A m uci_message_builder_init xs = Some (0, m', b')"
      "mb_first_errno b' = 0" "mb_elems_nr b' = None" "inv m'" "builder_rep m' b' [p] xs" "heap m p = None"
      "heap m' = (heap m)(p \<mapsto> b)" "UCI_MAX_PACKET_SIZE \<le> b_size b" "b_len b = 4 + length xs"
proof -
  let ?i = uci_message_builder_init
  have fl: "mb_alloc_flags ?i AND 7 = 0" by (simp add: uci_message_builder_init_def)
  have pl: "builder_packet_len m ?i = Some 0" by (simp add: builder_packet_len_def uci_message_builder_init_def)
  show thesis
  proof (cases rule: alloc_with_header_cases [OF inv fl, of "size_sub (mb_expected_packet_size ?i) UCI_PACKET_HEADER_SIZE"])
    case (1 m')
    with pl have "get_remaining A m ?i (length xs) = Some (0, m', ?i)"
      by (simp add: get_remaining_def builder_next_block_def)
    then have "uci_message_put A m ?i xs = Some (UCI_STATUS_FAILED, m', ?i\<lparr>mb_first_errno := UCI_STATUS_FAILED\<rparr>)"
      using xs by (subst uci_message_put.simps) (simp add: uci_message_put_nocopy_def uci_message_builder_init_def)
    with 1 show thesis by (intro null) (auto simp: uci_message_builder_init_def)
  next
    case (2 p b m1)
    let ?b = "?i\<lparr>mb_message := Some p, mb_current_block := Some p\<rparr>"
    from 2 have hp: "heap m1 p = Some b" by simp
    from alloc_with_header_room [OF inv 2(1) hp] have sz: "UCI_MAX_PACKET_SIZE \<le> b_size b" "b_len b = 4" by simp_all
    have "mb_message ?i = None" "mb_first_errno ?i = 0" "mb_elems_nr ?i = None" by (simp_all add: uci_message_builder_init_def)
    note i = this
    have "b_size b < 65536" using 2(4) by (simp add: own_blk_def)
    with pl 2 hp sz i have gr: "\<exists>rem \<ge> length xs. get_remaining A m ?i (length xs) = Some (rem, m1, ?b)"
      using xs(2) by (auto simp: get_remaining_def builder_next_block_def blk_of_def Let_def)
    have rep: "builder_rep m1 ?b [p] []"
      using 2 fl by (simp add: builder_rep_def message_rep_def total_is_def last_ptr_def plen_def blk_at_def)
    from gr obtain rem where gr: "get_remaining A m ?i (length xs) = Some (rem, m1, ?b)" "length xs \<le> rem" by blast
    have "\<exists>m' b'. uci_message_put A m ?i xs = Some (0, m', ?b) \<and> builder_rep m' ?b [p] ([] @ xs) \<and>
        m' = put_blk m1 p b' \<and> b_size b' = b_size b \<and> b_len b' = b_len b + length xs"
      using xs sz i by (intro put_in_block [OF gr xs(1) _ _ rep hp]) simp_all
    then obtain m' b' where put: "uci_message_put A m ?i xs = Some (0, m', ?b)" "builder_rep m' ?b [p] xs"
      "m' = put_blk m1 p b'" "b_size b' = b_size b" "b_len b' = b_len b + length xs" by auto
    have "inv m'" unfolding put(3) using 2(9) hp by (intro write_blk) auto
    with put 2(2,3) sz i show thesis by (intro blk [of m' ?b p b']) simp_all
  qed
qed

lemma reserve_next:
  assumes inv: "inv m" and rep: "builder_rep m b [p] bs" and ok: "mb_first_errno b = 0" "mb_elems_nr b = None"
    and hp: "heap m p = Some pb" and sz: "UCI_MAX_PACKET_SIZE \<le> b_size pb" "b_len pb = 4 + length bs"
    and xs: "bs \<noteq> []" "xs \<noteq> []" "length bs + length xs < 255"
  shows "\<exists>m' b'. uci_message_put A m b xs = Some (0, m', b) \<and> builder_rep m' b [p] (bs @ xs) \<and> inv m' \<and>
    heap m' = (heap m)(p \<mapsto> b') \<and> b_len b' = 4 + length (bs @ xs)"
proof -
  from rep have q: "mb_message b = Some p" "mb_current_block b = Some p" and tot: "b_total_len pb = length bs"
    and own: "own_blk pb"
    using hp by (auto simp: builder_rep_def message_rep_def total_is_def last_ptr_def)
  have pl: "builder_packet_len m b = Some (length bs)"
    using q hp tot xs by (simp add: builder_packet_len_def)
  have "b_size pb < 65536" using own by (simp add: own_blk_def)
  then have "\<exists>rem \<ge> length xs. get_remaining A m b (length xs) = Some (rem, m, b)"
    using pl hp q sz xs by (auto simp: get_remaining_def builder_next_block_def blk_of_def Let_def)
  then obtain rem where gr: "get_remaining A m b (length xs) = Some (rem, m, b)" "length xs \<le> rem" by blast
  have "\<exists>m' b'. uci_message_put A m b xs = Some (0, m', b) \<and> builder_rep m' b [p] (bs @ xs) \<and>
      m' = put_blk m p b' \<and> b_size b' = b_size pb \<and> b_len b' = b_len pb + length xs"
    using xs sz by (intro put_in_block [OF gr xs(2) ok rep hp]) simp_all
  then obtain m' b' where put: "uci_message_put A m b xs = Some (0, m', b)" "builder_rep m' b [p] (bs @ xs)"
    "m' = put_blk m p b'" "b_len b' = b_len pb + length xs" by auto
  moreover have "inv m'" unfolding put(3) using inv hp by (intro write_blk) auto
  ultimately show ?thesis using sz by fastforce
qed

text \<open>
  Creating a command gives one without parameters, with all bits of the handle set, or NULL when memory
  gives out. Then the blocks \<open>as\<close> that were allocated for it are lost.
\<close>

lemma create_rep:
  assumes e: "e_allocator (se_uci e) = A" and inv: "inv (u_mem u)" and ctx: "context_of u \<noteq> None"
  shows "\<exists>r m' w'. cherry_uci_client_session_set_app_config_cmd_create e u =
      Some (r, u\<lparr>u_mem := m', u_world := w'\<rparr>) \<and> inv m' \<and> sw_context w' = context_of u \<and>
    (\<forall>c. r = Some c \<longrightarrow> (\<exists>a. cmd_rep m' c [a] (- 1) 0 [] \<and> heap (u_mem u) a = None \<and>
       outside (heap (u_mem u)) [] (heap m') [a]))"
proof -
  obtain ok w where mal: "client_malloc u = (ok, u\<lparr>u_world := w\<rparr>)" and w: "sw_context w = context_of u"
    by (simp add: client_malloc_def context_of_def)
  let ?u = "u\<lparr>u_world := w\<rparr>"
  define bs where "bs = le_bytes 4 (- 1 :: 32 word)"
  have bs: "bs \<noteq> []" "length bs = 4" by (simp_all add: bs_def flip: length_0_conv)
  show ?thesis
  proof (cases ok)
    case False
    with mal ctx inv w show ?thesis
      by (intro exI [of _ None] exI [of _ "u_mem u"] exI [of _ w])
        (auto simp: cherry_uci_client_session_set_app_config_cmd_create_def)
  next
    case True
    show ?thesis
    proof (cases rule: reserve_first [OF inv bs(1)])
      case 1
      show ?case using bs by simp
    next
      case (2 m' b')
      then have "uci_message_reserve_32bit A (u_mem u) uci_message_builder_init (- 1) = Some (None, m', b')"
        by (simp add: uci_message_reserve_32bit_def put_scalars bs_def last_written_def uci_message_failed_def)
      with True mal ctx e 2 w show ?thesis
        by (intro exI [of _ None] exI [of _ m'] exI [of _ w])
          (auto simp: cherry_uci_client_session_set_app_config_cmd_create_def)
    next
      case (3 p m1 b1 pb)
      have cur: "mb_current_block b1 = Some p" using 3(5) by (simp add: builder_rep_def last_ptr_def)
      have r1: "uci_message_reserve_32bit A (u_mem u) uci_message_builder_init (- 1) = Some (Some (p, 4), m1, b1)"
        using 3 cur bs
        by (simp add: uci_message_reserve_32bit_def put_scalars bs_def last_written_def uci_message_failed_def)
      have hp: "heap m1 p = Some pb" using 3(7) by simp
      have "length bs + length [0 :: byte] < 255" using bs by simp
      from reserve_next [OF 3(4,5,2,3) hp 3(8,9) bs(1) _ this] obtain m2 b2 where
        n: "uci_message_put A m1 b1 [0] = Some (0, m2, b1)" "builder_rep m2 b1 [p] (bs @ [0])" "inv m2"
        "heap m2 = (heap m1)(p \<mapsto> b2)" "b_len b2 = 9"
        using bs by auto
      have r2: "uci_message_reserve_8bit A m1 b1 0 = Some (Some (p, 8), m2, b1)"
        using n cur 3(2) by (simp add: uci_message_reserve_8bit_def uci_message_put_8bit_def last_written_def uci_message_failed_def)
      let ?c = "\<lparr>ac_builder = b1, ac_session_handle = (p, 4), ac_nb_app_config = (p, 8)\<rparr>"
      have run: "cherry_uci_client_session_set_app_config_cmd_create e u = Some (Some ?c, u\<lparr>u_mem := m2, u_world := w\<rparr>)"
        using True mal ctx e r1 r2 by (auto simp: cherry_uci_client_session_set_app_config_cmd_create_def)
      have "payload (heap m2) [p] = bs @ [0]" using n(2) by (auto simp: builder_rep_def dest: message_rep_payload)
      then have "length (blk_at (heap m2) p) = 5" using bs by simp
      with n(2) 3(2,3) have "cmd_rep m2 ?c [p] (- 1) 0 []"
        by (simp add: cmd_rep_def cmd_msg_def cmd_body_def bs_def)
      moreover have "outside (heap (u_mem u)) [] (heap m2) [p]"
        using 3(6,7) n(4) by (auto simp: outside_def restrict_map_def fun_eq_iff)
      ultimately show ?thesis
        using run n(3) w 3(6) by (intro exI [of _ "Some ?c"] exI [of _ m2] exI [of _ w]) auto
    qed
  qed
qed

end

section \<open>Adding parameters\<close>

text \<open>A parameter as it is sent: an identifier of one or two bytes, the length and the value.\<close>

definition tlv :: "16 word \<Rightarrow> bytes \<Rightarrow> bytes" where
  "tlv p xs = (if p \<le> 0xFF then [ucast p] else le_bytes 2 p) @ word_of_nat (length xs) # xs"

definition param_ok :: "16 word \<Rightarrow> bytes \<Rightarrow> bool" where
  "param_ok p xs \<longleftrightarrow> (p \<le> 0xFF \<or> 0xE000 \<le> p \<and> p \<le> 0xE200) \<and> xs \<noteq> [] \<and> length xs < 256"

lemma length_tlv: "length (tlv p xs) \<le> 3 + length xs"
  by (simp add: tlv_def)

context uci_allocator
begin

lemma incr_rep:
  assumes inv: "inv (u_mem u)" and rep: "cmd_msg (u_mem u) c as (cmd_body handle n tlvs)"
  shows "\<exists>m'. incr_nb_app_config u c = Some (u\<lparr>u_mem := m'\<rparr>) \<and> inv m' \<and>
    cmd_msg m' c as (cmd_body handle (n + 1) tlvs) \<and> outside (heap (u_mem u)) as (heap m') as \<and>
    (no_empty (heap (u_mem u)) as \<longrightarrow> no_empty (heap m') as)"
proof -
  have "4 + length [n + 1] \<le> 5" by simp
  from cmd_poke [OF rep disjI2 [OF conjI [OF refl refl]] this] obtain m' a b where
    m': "write_chunk (u_mem u) (Some (ac_nb_app_config c)) [n + 1] = Some m'"
    "cmd_msg m' c as (overwrite (cmd_body handle n tlvs) 4 [n + 1])"
    "outside (heap (u_mem u)) as (heap m') as" "no_empty (heap (u_mem u)) as \<longrightarrow> no_empty (heap m') as"
    "m' = put_blk (u_mem u) a b" "a \<in> dom (heap (u_mem u))" by blast
  have "inv m'" unfolding m'(5) using inv m'(6) by (rule write_blk)
  with m' cmd_count [OF rep] show ?thesis
    by (intro exI [of _ m']) (simp add: incr_nb_app_config_def overwrite_cmd_body)
qed

text \<open>
  Adding a parameter appends it and increments the count. When memory gives out, an error is returned,
  the count is not incremented and the message stays well formed, so that the command can be aborted.
\<close>

lemma cmd_put_rep:
  assumes e: "e_allocator (se_uci e) = A" and inv: "inv (u_mem u)" and rep: "cmd_rep (u_mem u) c as handle n tlvs"
    and xs: "sz \<noteq> 0" "unat sz \<le> length d" "xs = take (unat sz) d" and p: "param_ok p xs"
    and len: "length tlvs + length (tlv p xs) < 65531"
  shows "\<exists>r m' c' as'. cherry_uci_client_session_set_app_config_cmd_put e u (Some c) p (Some d) sz =
      Some (r, u\<lparr>u_mem := m'\<rparr>, Some c') \<and> inv m' \<and> outside (heap (u_mem u)) as (heap m') as' \<and>
    (r = UCI_STATUS_OK \<and> cmd_rep m' c' as' handle (n + 1) (tlvs @ tlv p xs) \<and>
       (no_empty (heap (u_mem u)) as \<longrightarrow> no_empty (heap m') as') \<or>
     r = UCI_STATUS_FAILED \<and> (\<exists>ys. cmd_msg m' c' as' (cmd_body handle n (tlvs @ ys))))"
proof -
  let ?items = "[if p \<le> 0xFF then Put_8 (ucast p) else Put_16 p, Put_8 sz, Put_Data d (unat sz)]"
  have items: "concat (map item_bytes ?items) = tlv p xs" "list_all item_ok ?items"
    using xs by (simp_all add: tlv_def min_def)
  from rep have msg: "cmd_msg (u_mem u) c as (cmd_body handle n tlvs)" and ok: "mb_first_errno (ac_builder c) = 0"
    by (simp_all add: cmd_rep_def)
  have l: "length (cmd_body handle n tlvs) + length (concat (map item_bytes ?items)) < 65536"
    unfolding items using len by simp
  from put_items_rep [OF e inv msg ok items(2) l] obtain r m1 c1 as1 k where
    put: "put_items e u c ?items = Some (r, u\<lparr>u_mem := m1\<rparr>, c1)" "inv m1"
      "cmd_msg m1 c1 as1 (cmd_body handle n tlvs @ take k (tlv p xs))" "frame (heap (u_mem u)) as (heap m1) as1"
      "mb_first_errno (ac_builder c1) = r"
      "r = UCI_STATUS_OK \<and> k = length (tlv p xs) \<and> (no_empty (heap (u_mem u)) as \<longrightarrow> no_empty (heap m1) as1) \<or>
       r = UCI_STATUS_FAILED \<and> k < length (tlv p xs)"
    unfolding items(1) by blast
  have body: "cmd_body handle n tlvs @ ys = cmd_body handle n (tlvs @ ys)" for ys by (simp add: cmd_body_def)
  have range: "\<not> (p > 0xFF \<and> (p < 0xE000 \<or> p > 0xE200))" using p by (auto simp: param_ok_def not_le)
  have out: "outside (heap (u_mem u)) as (heap m1) as1" using put(4) by (rule outside_frame)
  show ?thesis
  proof (cases "r = UCI_STATUS_OK")
    case True
    with put(6) have k: "k = length (tlv p xs)" "no_empty (heap (u_mem u)) as \<longrightarrow> no_empty (heap m1) as1" by auto
    have "cmd_msg (u_mem (u\<lparr>u_mem := m1\<rparr>)) c1 as1 (cmd_body handle n (tlvs @ tlv p xs))"
      using put(3) k(1) by (simp add: body)
    from incr_rep [OF _ this] put(2) obtain m2 where
      m2: "incr_nb_app_config (u\<lparr>u_mem := m1\<rparr>) c1 = Some (u\<lparr>u_mem := m2\<rparr>)" "inv m2"
      "cmd_msg m2 c1 as1 (cmd_body handle (n + 1) (tlvs @ tlv p xs))" "outside (heap m1) as1 (heap m2) as1"
      "no_empty (heap m1) as1 \<longrightarrow> no_empty (heap m2) as1" by auto
    have run: "cherry_uci_client_session_set_app_config_cmd_put e u (Some c) p (Some d) sz =
        Some (UCI_STATUS_OK, u\<lparr>u_mem := m2\<rparr>, Some c1)"
      using put(1) range xs(1) True m2(1)
      unfolding cherry_uci_client_session_set_app_config_cmd_put_def by (simp del: put_items.simps)
    have "outside (heap (u_mem u)) as (heap m2) as1" using out m2(4) by (rule outside_trans)
    with run m2 True k put(5) show ?thesis by (fastforce simp: cmd_rep_def)
  next
    case False
    with put(6) have "r = UCI_STATUS_FAILED" by simp
    moreover have "cherry_uci_client_session_set_app_config_cmd_put e u (Some c) p (Some d) sz =
        Some (r, u\<lparr>u_mem := m1\<rparr>, Some c1)"
      using put(1) range xs(1) False
      unfolding cherry_uci_client_session_set_app_config_cmd_put_def by (auto simp del: put_items.simps)
    ultimately show ?thesis using put(2,3) out by (auto simp: body)
  qed
qed

end

text \<open>Several parameters, as a caller adds them: the first failure ends the sequence.\<close>

primrec put_params ::
    "'v session_env \<Rightarrow> 'v suci \<Rightarrow> set_app_config_cmd option \<Rightarrow> (16 word \<times> bytes) list \<Rightarrow> 'v put_result" where
  "put_params e u cmd [] = Some (UCI_STATUS_OK, u, cmd)"
| "put_params e u cmd (x # ps) =
     do {
       (r, u, cmd) \<leftarrow> cherry_uci_client_session_set_app_config_cmd_put e u cmd (fst x) (Some (snd x))
                        (word_of_nat (length (snd x)));
       if r \<noteq> UCI_STATUS_OK then Some (r, u, cmd) else put_params e u cmd ps
     }"

definition tlvs_of :: "(16 word \<times> bytes) list \<Rightarrow> bytes" where
  "tlvs_of ps = concat (map (\<lambda>(p, xs). tlv p xs) ps)"

lemma tlvs_of_simps [simp]: "tlvs_of [] = []" "tlvs_of ((p, xs) # ps) = tlv p xs @ tlvs_of ps"
  by (simp_all add: tlvs_of_def)

lemma size_word:
  assumes "xs \<noteq> []" and "length xs < 256"
  shows "(word_of_nat (length xs) :: byte) \<noteq> 0" and "unat (word_of_nat (length xs) :: byte) = length xs"
proof -
  show u: "unat (word_of_nat (length xs) :: byte) = length xs"
    using assms(2) by (simp add: unat_of_nat)
  with assms(1) show "(word_of_nat (length xs) :: byte) \<noteq> 0" by (metis length_0_conv unat_0)
qed

context uci_allocator
begin

lemma put_params_rep:
  assumes "e_allocator (se_uci e) = A" and "inv (u_mem u)" and "cmd_rep (u_mem u) c as handle n tlvs"
    and "\<forall>(p, xs) \<in> set ps. param_ok p xs" and "length tlvs + length (tlvs_of ps) < 65531"
    and "no_empty (heap (u_mem u)) as"
  shows "\<exists>r m' c' as'. put_params e u (Some c) ps = Some (r, u\<lparr>u_mem := m'\<rparr>, Some c') \<and> inv m' \<and>
    outside (heap (u_mem u)) as (heap m') as' \<and>
    (r = UCI_STATUS_OK \<and> cmd_rep m' c' as' handle (n + word_of_nat (length ps)) (tlvs @ tlvs_of ps) \<and>
       no_empty (heap m') as' \<or>
     r = UCI_STATUS_FAILED \<and> (\<exists>bs. cmd_msg m' c' as' bs))"
  using assms
proof (induction ps arbitrary: u c as n tlvs)
  case Nil
  then show ?case
    by (intro exI [of _ 0] exI [of _ "u_mem u"] exI [of _ c] exI [of _ as]) (auto simp: outside_def)
next
  case (Cons x ps)
  obtain p xs where x: "x = (p, xs)" by fastforce
  with Cons.prems(4) have p: "param_ok p xs" by auto
  then have xs: "xs \<noteq> []" "length xs < 256" by (simp_all add: param_ok_def)
  let ?sz = "word_of_nat (length xs) :: byte"
  note sz = size_word [OF xs]
  have t: "xs = take (unat ?sz) xs" "unat ?sz \<le> length xs" using sz by simp_all
  have len: "length tlvs + length (tlv p xs) < 65531" using Cons.prems(5) x by simp
  from cmd_put_rep [OF Cons.prems(1-3) sz(1) t(2,1) p len] obtain r m1 c1 as1 where
    put: "cherry_uci_client_session_set_app_config_cmd_put e u (Some c) p (Some xs) ?sz = Some (r, u\<lparr>u_mem := m1\<rparr>, Some c1)"
    "inv m1" "outside (heap (u_mem u)) as (heap m1) as1"
    "r = UCI_STATUS_OK \<and> cmd_rep m1 c1 as1 handle (n + 1) (tlvs @ tlv p xs) \<and>
       (no_empty (heap (u_mem u)) as \<longrightarrow> no_empty (heap m1) as1) \<or>
     r = UCI_STATUS_FAILED \<and> (\<exists>ys. cmd_msg m1 c1 as1 (cmd_body handle n (tlvs @ ys)))"
    by blast
  show ?case
  proof (cases "r = UCI_STATUS_OK")
    case False
    with put x show ?thesis
      by (intro exI [of _ r] exI [of _ m1] exI [of _ c1] exI [of _ as1]) auto
  next
    case True
    with put(4) have c1: "cmd_rep m1 c1 as1 handle (n + 1) (tlvs @ tlv p xs)"
      "no_empty (heap (u_mem u)) as \<longrightarrow> no_empty (heap m1) as1" by auto
    let ?u = "u\<lparr>u_mem := m1\<rparr>"
    have u2: "?u\<lparr>u_mem := m'\<rparr> = u\<lparr>u_mem := m'\<rparr>" "u_mem ?u = m1" for m' by simp_all
    have num: "n + word_of_nat (length (x # ps)) = (n + 1) + word_of_nat (length ps)" by simp
    have bytes: "tlvs @ tlvs_of (x # ps) = (tlvs @ tlv p xs) @ tlvs_of ps" by (simp add: x)
    have "\<exists>r m' c' as'. put_params e ?u (Some c1) ps = Some (r, ?u\<lparr>u_mem := m'\<rparr>, Some c') \<and> inv m' \<and>
      outside (heap (u_mem ?u)) as1 (heap m') as' \<and>
      (r = UCI_STATUS_OK \<and> cmd_rep m' c' as' handle ((n + 1) + word_of_nat (length ps)) ((tlvs @ tlv p xs) @ tlvs_of ps) \<and>
         no_empty (heap m') as' \<or>
       r = UCI_STATUS_FAILED \<and> (\<exists>bs. cmd_msg m' c' as' bs))"
      using Cons.prems(1,4-6) put(2) c1 x by (intro Cons.IH) auto
    then obtain r' m' c' as' where rest: "put_params e ?u (Some c1) ps = Some (r', u\<lparr>u_mem := m'\<rparr>, Some c')" "inv m'"
      "outside (heap m1) as1 (heap m') as'"
      "r' = UCI_STATUS_OK \<and> cmd_rep m' c' as' handle (n + word_of_nat (length (x # ps))) (tlvs @ tlvs_of (x # ps)) \<and>
         no_empty (heap m') as' \<or>
       r' = UCI_STATUS_FAILED \<and> (\<exists>bs. cmd_msg m' c' as' bs)"
      unfolding num bytes u2 by blast
    have "outside (heap (u_mem u)) as (heap m') as'" using put(3) rest(3) by (rule outside_trans)
    with rest put(1) True show ?thesis
      by (intro exI [of _ r'] exI [of _ m'] exI [of _ c'] exI [of _ as']) (simp add: x)
  qed
qed

section \<open>Sending a command\<close>

text \<open>
  Sending a command with parameters queues the packets of its message, with the handle filled in, and
  then wakes the transport and waits for the response. The message now belongs to the transmit queue.
\<close>

lemma cmd_send_rep:
  assumes e: "e_allocator (se_uci e) = A" and inv: "inv (u_mem u)" and rep: "cmd_rep (u_mem u) c as h0 n tlvs"
    and n: "n \<noteq> 0" and ne: "no_empty (heap (u_mem u)) as" and tx: "tx_inv u txs" and rsp: "rsp_inv u (txs @ as)"
    and len: "length tlvs < 65531" and dis: "set as \<inter> set txs = {}" and un: "\<not> u_locked u" and tr: "u_tr u \<noteq> None"
  shows "\<exists>u' m tx r. cherry_uci_client_session_set_app_config_cmd_send e u (Some c) handle =
      do { u \<leftarrow> packet_send_ready (se_uci e) u'; (ret, u) \<leftarrow> cherry_session_wait_rsp e u;
           r \<leftarrow> rsp_status u ret; Some (r, u) } \<and>
    u' = u\<lparr>u_mem := m, u_tx := tx, u_tx_last := last_ptr as, u_rsp_blk := r\<rparr> \<and> inv m \<and>
    tx_inv u' (txs @ as) \<and> rsp_inv u' (txs @ as) \<and>
    wires (heap m) (txs @ as) = wires (heap (u_mem u)) txs @
      segment (UCI_MT_GID_OID UCI_MESSAGE_TYPE_COMMAND UCI_GID_SESSION_CONFIG UCI_OID_SESSION_SET_APP_CONFIG)
        (cmd_body handle n tlvs)"
proof -
  let ?mid = "UCI_MT_GID_OID UCI_MESSAGE_TYPE_COMMAND UCI_GID_SESSION_CONFIG UCI_OID_SESSION_SET_APP_CONFIG"
  from rep have msg: "cmd_msg (u_mem u) c as (cmd_body h0 n tlvs)" by (simp add: cmd_rep_def)
  have "0 + length (le_bytes 4 handle) \<le> 5" by simp
  from cmd_poke [OF msg disjI1 [OF conjI [OF refl refl]] this] obtain m1 a b where
    m1: "write_chunk (u_mem u) (Some (ac_session_handle c)) (le_bytes 4 handle) = Some m1"
    "cmd_msg m1 c as (overwrite (cmd_body h0 n tlvs) 0 (le_bytes 4 handle))"
    "outside (heap (u_mem u)) as (heap m1) as" "no_empty (heap (u_mem u)) as \<longrightarrow> no_empty (heap m1) as"
    "m1 = put_blk (u_mem u) a b" "a \<in> dom (heap (u_mem u))" by blast
  have inv1: "inv m1" unfolding m1(5) using inv m1(6) by (rule write_blk)
  have same: "heap m1 x = heap (u_mem u) x" if "x \<notin> set as" for x
    using fun_cong [OF m1(3) [unfolded outside_def], of x] that by simp
  let ?u = "u\<lparr>u_mem := m1\<rparr>"
  from m1(2) obtain p zs where as: "as = p # zs"
    and msg1: "message_rep (heap m1) (mb_message (ac_builder c)) (p # zs) (cmd_body handle n tlvs)"
    by (auto simp: cmd_msg_def builder_rep_def overwrite_cmd_body)
  have p: "mb_message (ac_builder c) = Some p" using msg1 by (rule message_rep_first)
  with msg1 as have mrep: "message_rep (heap m1) (Some p) as (cmd_body handle n tlvs)" by simp
  have tx1: "tx_inv ?u txs"
    using tx dis same by (subst tx_inv_cong) auto
  have rsp1: "rsp_inv ?u (txs @ as)"
    using rsp same by (auto simp: rsp_inv_def)
  have i: "inv (u_mem ?u)" "message_rep (heap (u_mem ?u)) (Some p) as (cmd_body handle n tlvs)"
    "no_empty (heap (u_mem ?u)) as \<or> as = [p]" "length (cmd_body handle n tlvs) < 65536" "\<not> u_locked ?u" "u_tr ?u \<noteq> None"
    using inv1 mrep m1(4) ne len un tr by simp_all
  have s: "sendable ?mid" by (simp add: sendable_def is_control_mt_def UCI_MT_def UCI_MT_GID_OID_def)
  from send_message_queued [OF e i(1) tx1 rsp1 i(2,3) s i(4) dis i(5,6)] obtain u' m tx' r where
    send: "uci_send_message (se_uci e) ?u ?mid (Some p) = packet_send_ready (se_uci e) u'"
    "u' = ?u\<lparr>u_mem := m, u_tx := tx', u_tx_last := last_ptr as, u_rsp_blk := r\<rparr>" "inv m"
    "tx_inv u' (txs @ as)" "rsp_inv u' (txs @ as)"
    "wires (heap m) (txs @ as) = wires (heap m1) txs @ segment ?mid (cmd_body handle n tlvs)" by auto
  have free: "uci_blk_free_all A m None = Some m" for m by (simp add: uci_blk_free_all.simps)
  have "cherry_uci_client_session_set_app_config_cmd_send e u (Some c) handle =
      do { u \<leftarrow> packet_send_ready (se_uci e) u'; (ret, u) \<leftarrow> cherry_session_wait_rsp e u;
           r \<leftarrow> rsp_status u ret; Some (r, u) }"
    using cmd_count [OF msg] n m1(1) p send(1) e
    by (simp add: cherry_uci_client_session_set_app_config_cmd_send_def
        cherry_uci_client_session_set_app_config_cmd_destroy_def free)
  moreover have "wires (heap m1) txs = wires (heap (u_mem u)) txs"
    using dis same by (intro wires_heap_cong) auto
  ultimately show ?thesis
    using send by (intro exI [of _ u'] exI [of _ m] exI [of _ tx'] exI [of _ r]) simp
qed

end

section \<open>When memory suffices\<close>

context ample_allocator
begin

lemma put_items_ample:
  assumes "e_allocator (se_uci e) = A" and "inv (u_mem u)" and "cmd_msg (u_mem u) c as bs"
    and "mb_first_errno (ac_builder c) = 0" and "list_all item_ok is"
    and "length bs + length (concat (map item_bytes is)) < 65536"
    and "put_items e u c is = Some (r, u', c')"
  shows "r = UCI_STATUS_OK"
  using assms
proof (induction "is" arbitrary: u c as bs)
  case Nil
  then show ?case by simp
next
  case (Cons i "is")
  have len: "length bs + length (item_bytes i) < 65536" using Cons.prems(6) by simp
  have br: "builder_rep (u_mem u) (ac_builder c) as bs" "mb_elems_nr (ac_builder c) = None"
    using Cons.prems(3) by (simp_all add: cmd_msg_def)
  from message_put_ample [OF Cons.prems(2) br(1) Cons.prems(4) br(2) len] obtain m1 b1 as1 where
    put: "uci_message_put A (u_mem u) (ac_builder c) (item_bytes i) = Some (0, m1, b1)" "inv m1"
      "builder_rep m1 b1 as1 (bs @ item_bytes i)" "frame (heap (u_mem u)) as (heap m1) as1"
      "mb_elems_nr b1 = None" "mb_first_errno b1 = 0" by blast
  have one: "put_one (e_allocator (se_uci e)) (u_mem u) (ac_builder c) i = Some (0, m1, b1)"
    using Cons.prems(1,5) put(1) by (simp add: put_one_bytes)
  note msg1 = cmd_msg_grow [OF Cons.prems(3) put(3,4,5)]
  from one Cons.prems(7) have "put_items e (u\<lparr>u_mem := m1\<rparr>) (c\<lparr>ac_builder := b1\<rparr>) is = Some (r, u', c')" by simp
  with Cons.prems(1,5,6) put(2,6) msg1 show ?case
    by (intro Cons.IH [of "u\<lparr>u_mem := m1\<rparr>" "c\<lparr>ac_builder := b1\<rparr>" as1 "bs @ item_bytes i"]) simp_all
qed

lemma cmd_put_ample:
  assumes "e_allocator (se_uci e) = A" and "inv (u_mem u)" and "cmd_rep (u_mem u) c as handle n tlvs"
    and "sz \<noteq> 0" and "unat sz \<le> length d" and "length tlvs + length (tlv p (take (unat sz) d)) < 65531"
    and "cherry_uci_client_session_set_app_config_cmd_put e u (Some c) p (Some d) sz = Some (r, u', cmd)"
    and "param_ok p (take (unat sz) d)"
  shows "r = UCI_STATUS_OK"
proof -
  let ?items = "[if p \<le> 0xFF then Put_8 (ucast p) else Put_16 p, Put_8 sz, Put_Data d (unat sz)]"
  have items: "concat (map item_bytes ?items) = tlv p (take (unat sz) d)" "list_all item_ok ?items"
    using assms(5) by (simp_all add: tlv_def min_def)
  have range: "\<not> (p > 0xFF \<and> (p < 0xE000 \<or> p > 0xE200))" using assms(8) by (auto simp: param_ok_def not_le)
  from assms(3) have msg: "cmd_msg (u_mem u) c as (cmd_body handle n tlvs)" "mb_first_errno (ac_builder c) = 0"
    by (simp_all add: cmd_rep_def)
  have l: "length (cmd_body handle n tlvs) + length (concat (map item_bytes ?items)) < 65536"
    unfolding items using assms(6) by simp
  have "\<exists>r1 u1 c1. put_items e u c ?items = Some (r1, u1, c1) \<and> (r1 \<noteq> UCI_STATUS_OK \<longrightarrow> r = r1) \<and>
      (r1 = UCI_STATUS_OK \<longrightarrow> r = UCI_STATUS_OK)"
    using assms(4,7) range unfolding cherry_uci_client_session_set_app_config_cmd_put_def
    by (auto simp: bind_Some_iff simp del: put_items.simps split: if_splits)
  with put_items_ample [OF assms(1,2) msg items(2) l] show ?thesis by blast
qed

lemma put_params_ample:
  assumes "e_allocator (se_uci e) = A" and "inv (u_mem u)" and "cmd_rep (u_mem u) c as handle n tlvs"
    and "\<forall>(p, xs) \<in> set ps. param_ok p xs" and "length tlvs + length (tlvs_of ps) < 65531"
    and "put_params e u (Some c) ps = Some (r, u', cmd)"
  shows "r = UCI_STATUS_OK"
  using assms
proof (induction ps arbitrary: u c as n tlvs)
  case Nil
  then show ?case by simp
next
  case (Cons x ps)
  obtain p xs where x: "x = (p, xs)" by fastforce
  with Cons.prems(4) have p: "param_ok p xs" by auto
  then have xs: "xs \<noteq> []" "length xs < 256" by (simp_all add: param_ok_def)
  let ?sz = "word_of_nat (length xs) :: byte"
  note sz = size_word [OF xs]
  have t: "xs = take (unat ?sz) xs" "unat ?sz \<le> length xs" "take (unat ?sz) xs = xs" using sz by simp_all
  have len: "length tlvs + length (tlv p xs) < 65531" using Cons.prems(5) x by simp
  from cmd_put_rep [OF Cons.prems(1-3) sz(1) t(2,1) p len] obtain r1 m1 c1 as1 where
    put: "cherry_uci_client_session_set_app_config_cmd_put e u (Some c) p (Some xs) ?sz = Some (r1, u\<lparr>u_mem := m1\<rparr>, Some c1)"
    "inv m1" "r1 = UCI_STATUS_OK \<longrightarrow> cmd_rep m1 c1 as1 handle (n + 1) (tlvs @ tlv p xs)" by auto
  have r1: "r1 = UCI_STATUS_OK"
    using cmd_put_ample [OF Cons.prems(1-3) sz(1) t(2) _ put(1)] len p unfolding t(3) by blast
  with put Cons.prems x show ?case
    by (intro Cons.IH [of "u\<lparr>u_mem := m1\<rparr>" c1 as1 "n + 1" "tlvs @ tlv p xs"]) auto
qed

lemma create_ample:
  assumes "e_allocator (se_uci e) = A" and "inv (u_mem u)" and "context_of u \<noteq> None"
    and "\<not> sw_oom (u_world u) (sw_allocs (u_world u))"
  shows "\<exists>c m' w' a. cherry_uci_client_session_set_app_config_cmd_create e u =
      Some (Some c, u\<lparr>u_mem := m', u_world := w'\<rparr>) \<and> inv m' \<and> sw_context w' = context_of u \<and>
    cmd_rep m' c [a] (- 1) 0 [] \<and> heap (u_mem u) a = None \<and> outside (heap (u_mem u)) [] (heap m') [a]"
proof -
  from create_rep [OF assms(1-3)] obtain r m' w' where
    r: "cherry_uci_client_session_set_app_config_cmd_create e u = Some (r, u\<lparr>u_mem := m', u_world := w'\<rparr>)"
    "inv m'" "sw_context w' = context_of u"
    "\<forall>c. r = Some c \<longrightarrow> (\<exists>a. cmd_rep m' c [a] (- 1) 0 [] \<and> heap (u_mem u) a = None \<and>
       outside (heap (u_mem u)) [] (heap m') [a])" by blast
  have l: "length [] + length (le_bytes 4 (- 1 :: 32 word)) < 65536" by simp
  from message_put_ample [OF assms(2) builder_init_rep l] obtain m1 b1 as1 where
    p1: "uci_message_put A (u_mem u) uci_message_builder_init (le_bytes 4 (- 1 :: 32 word)) = Some (0, m1, b1)"
      "inv m1" "builder_rep m1 b1 as1 ([] @ le_bytes 4 (- 1 :: 32 word))" "mb_elems_nr b1 = None" "mb_first_errno b1 = 0"
    by blast
  have l2: "length ([] @ le_bytes 4 (- 1 :: 32 word)) + length [0 :: byte] < 65536" by simp
  from message_put_ample [OF p1(2,3,5,4) l2] obtain m2 b2 where
    p2: "uci_message_put A m1 b1 [0] = Some (0, m2, b2)" "mb_first_errno b2 = 0" by blast
  have "r \<noteq> None"
    using r(1) assms(1,3,4) p1(1,5) p2
    by (auto simp: cherry_uci_client_session_set_app_config_cmd_create_def client_malloc_def
        uci_message_reserve_32bit_def uci_message_reserve_8bit_def put_scalars(3) uci_message_put_8bit_def
        last_written_def uci_message_failed_def bind_Some_iff split: if_splits option.splits)
  then obtain c where c: "r = Some c" by blast
  with r(4) obtain a where "cmd_rep m' c [a] (- 1) 0 []" "heap (u_mem u) a = None"
    "outside (heap (u_mem u)) [] (heap m') [a]" by blast
  with r c show ?thesis by blast
qed

text \<open>The whole exchange: create the command, add the parameters, send it.\<close>

lemma set_params_sent:
  assumes e: "e_allocator (se_uci e) = A" and inv: "inv (u_mem u)" and ctx: "context_of u \<noteq> None"
    and mal: "\<not> sw_oom (u_world u) (sw_allocs (u_world u))"
    and ps: "\<forall>(p, xs) \<in> set ps. param_ok p xs" "length ps < 256" "ps \<noteq> []" and len: "length (tlvs_of ps) < 65531"
    and tx: "tx_inv u txs" and rsp: "rsp_inv u txs" and un: "\<not> u_locked u" and tr: "u_tr u \<noteq> None"
  shows "\<exists>c u1 c2 u2 u3 as. cherry_uci_client_session_set_app_config_cmd_create e u = Some (Some c, u1) \<and>
    put_params e u1 (Some c) ps = Some (UCI_STATUS_OK, u2, Some c2) \<and>
    cherry_uci_client_session_set_app_config_cmd_send e u2 (Some c2) handle =
      do { u \<leftarrow> packet_send_ready (se_uci e) u3; (ret, u) \<leftarrow> cherry_session_wait_rsp e u;
           r \<leftarrow> rsp_status u ret; Some (r, u) } \<and>
    inv (u_mem u3) \<and> tx_inv u3 (txs @ as) \<and> rsp_inv u3 (txs @ as) \<and> context_of u3 = context_of u \<and>
    wires (heap (u_mem u3)) (txs @ as) = wires (heap (u_mem u)) txs @
      segment (UCI_MT_GID_OID UCI_MESSAGE_TYPE_COMMAND UCI_GID_SESSION_CONFIG UCI_OID_SESSION_SET_APP_CONFIG)
        (cmd_body handle (word_of_nat (length ps)) (tlvs_of ps))"
proof -
  from create_ample [OF e inv ctx mal] obtain c m1 w a where
    cr: "cherry_uci_client_session_set_app_config_cmd_create e u = Some (Some c, u\<lparr>u_mem := m1, u_world := w\<rparr>)"
    "inv m1" "sw_context w = context_of u" "cmd_rep m1 c [a] (- 1) 0 []" "outside (heap (u_mem u)) [] (heap m1) [a]"
    by blast
  let ?u1 = "u\<lparr>u_mem := m1, u_world := w\<rparr>"
  have ne: "no_empty (heap (u_mem ?u1)) [a]"
    using cr(4) by (auto simp: cmd_rep_def cmd_msg_def)
  have pre: "inv (u_mem ?u1)" "cmd_rep (u_mem ?u1) c [a] (- 1) 0 []" "length [] + length (tlvs_of ps) < 65531"
    using cr len by simp_all
  from put_params_rep [OF e pre(1,2) ps(1) pre(3) ne] obtain r m2 c2 as where
    put: "put_params e ?u1 (Some c) ps = Some (r, ?u1\<lparr>u_mem := m2\<rparr>, Some c2)" "inv m2"
    "outside (heap m1) [a] (heap m2) as"
    "r = UCI_STATUS_OK \<longrightarrow> cmd_rep m2 c2 as (- 1) (word_of_nat (length ps)) (tlvs_of ps) \<and> no_empty (heap m2) as"
    by auto
  have r: "r = UCI_STATUS_OK" by (rule put_params_ample [OF e pre(1,2) ps(1) pre(3) put(1)])
  let ?u2 = "?u1\<lparr>u_mem := m2\<rparr>"
  have out: "outside (heap (u_mem u)) [] (heap m2) as" using cr(5) put(3) by (rule outside_trans)
  note fresh = outside_fresh [OF out]
  have txd: "set txs \<subseteq> dom (heap (u_mem u))" using tx by (rule tx_inv_dom)
  have dis: "set as \<inter> set txs = {}" using txd fresh(1) by auto
  have tx2: "tx_inv ?u2 txs"
    using tx tx_inv_cong [of txs m2 u] txd fresh(2) by (auto simp: tx_inv_def)
  have rsp2: "rsp_inv ?u2 (txs @ as)"
    using rsp fresh by (auto simp: rsp_inv_def) (metis domI)
  have n: "(word_of_nat (length ps) :: byte) \<noteq> 0" using size_word(1) [of "map (\<lambda>_. 0) ps"] ps by simp
  have i2: "inv (u_mem ?u2)" "cmd_rep (u_mem ?u2) c2 as (- 1) (word_of_nat (length ps)) (tlvs_of ps)"
    "no_empty (heap (u_mem ?u2)) as" "\<not> u_locked ?u2" "u_tr ?u2 \<noteq> None" using put r un tr by simp_all
  from cmd_send_rep [OF e i2(1,2) n i2(3) tx2 rsp2 len dis i2(4,5)] obtain u3 m tx' rb where
    snd: "cherry_uci_client_session_set_app_config_cmd_send e ?u2 (Some c2) handle =
      do { u \<leftarrow> packet_send_ready (se_uci e) u3; (ret, u) \<leftarrow> cherry_session_wait_rsp e u;
           r \<leftarrow> rsp_status u ret; Some (r, u) }"
    "u3 = ?u2\<lparr>u_mem := m, u_tx := tx', u_tx_last := last_ptr as, u_rsp_blk := rb\<rparr>" "inv m"
    "tx_inv u3 (txs @ as)" "rsp_inv u3 (txs @ as)"
    "wires (heap m) (txs @ as) = wires (heap (u_mem ?u2)) txs @
      segment (UCI_MT_GID_OID UCI_MESSAGE_TYPE_COMMAND UCI_GID_SESSION_CONFIG UCI_OID_SESSION_SET_APP_CONFIG)
        (cmd_body handle (word_of_nat (length ps)) (tlvs_of ps))" by blast
  have "wires (heap m2) txs = wires (heap (u_mem u)) txs"
    using txd fresh(2) by (intro wires_heap_cong) auto
  with cr put(1) r snd show ?thesis
    by (intro exI [of _ c] exI [of _ ?u1] exI [of _ c2] exI [of _ ?u2] exI [of _ u3] exI [of _ as])
      (simp add: context_of_def)
qed

end

section \<open>Reading parameters back\<close>

text \<open>
  A parameter with an identifier of one byte is read back by \<^verbatim>\<open>uci_read_tlv\<close>; one with an identifier of
  two bytes is not, because its low byte is sent first.
\<close>

lemma tlv_read:
  assumes rep: "parser_rep h q (tlv p xs @ rest)" and p: "param_ok p xs" "p \<le> 0xFF" "\<not> extended_type (ucast p)"
  shows "\<exists>q1 q2. uci_read_tlv h q t0 l0 = Some (UCI_STATUS_OK, ucast p, word_of_nat (length xs), q1) \<and>
    uci_message_get h q1 (length xs) = Some (xs, q2) \<and> parser_rep h q2 rest"
proof -
  have bs: "tlv p xs @ rest = ucast p # word_of_nat (length xs) # xs @ rest" using p(2) by (simp add: tlv_def)
  from p(1) have len: "unat (word_of_nat (length xs) :: byte) = length xs"
    by (intro size_word(2)) (simp_all add: param_ok_def)
  from read_tlv_rep [OF rep, of t0 l0] p(3) len obtain q1 where
    q1: "uci_read_tlv h q t0 l0 = Some (UCI_STATUS_OK, ucast p, word_of_nat (length xs), q1)"
    "parser_rep h q1 (xs @ rest)" unfolding bs by auto
  from message_get_rep [OF q1(2), of "length xs"] q1(1) show ?thesis by auto
qed

lemma tlv_extended_read:
  assumes rep: "parser_rep h q (tlv p xs @ rest)" and p: "0xFF < p" "\<not> extended_type (ucast p)"
  shows "\<exists>q1 st. uci_read_tlv h q t0 l0 = Some (st, ucast p, ucast (drop_bit 8 p), q1)"
proof -
  have bs: "tlv p xs @ rest = ucast p # ucast (drop_bit 8 p) # word_of_nat (length xs) # xs @ rest"
    using p(1) by (simp add: tlv_def not_le le_bytes_Suc eval_nat_numeral)
  from read_tlv_rep [OF rep, of t0 l0] p(2) show ?thesis unfolding bs by auto
qed

end
