(* ===== verification/App_Getters.thy ===== *)
theory App_Getters
  imports App_Params
begin

text \<open>
  Reading one application parameter (\<^verbatim>\<open>cherry_session_client.c\<close>): each function names the parameter,
  the variable for its value with the room there is in it, and the handler that reads the value from the
  response. The second component of the result is the variable afterwards.
\<close>

definition cherry_uci_client_session_get_app_config_preamble_duration ::
    "'v session_env \<Rightarrow> 'v suci \<Rightarrow> 32 word \<Rightarrow> 8 word \<Rightarrow> (int \<times> app_data \<times> 'v suci) option" where
  "cherry_uci_client_session_get_app_config_preamble_duration e u session_handle preamble_duration =
     cherry_uci_client_session_get_app_config e u session_handle
       UCI_APPLICATION_PARAMETER_PREAMBLE_DURATION (U8 preamble_duration) 1 Uint8_Handler"

definition cherry_uci_client_session_get_app_config_no_of_controlees ::
    "'v session_env \<Rightarrow> 'v suci \<Rightarrow> 32 word \<Rightarrow> 8 word \<Rightarrow> (int \<times> app_data \<times> 'v suci) option" where
  "cherry_uci_client_session_get_app_config_no_of_controlees e u session_handle no_of_controlees =
     cherry_uci_client_session_get_app_config e u session_handle
       UCI_APPLICATION_PARAMETER_NUMBER_OF_CONTROLEES (U8 no_of_controlees) 1 Uint8_Handler"

definition cherry_uci_client_session_get_app_config_device_mac_address ::
    "'v session_env \<Rightarrow> 'v suci \<Rightarrow> 32 word \<Rightarrow> 16 word \<Rightarrow> (int \<times> app_data \<times> 'v suci) option" where
  "cherry_uci_client_session_get_app_config_device_mac_address e u session_handle device_mac_address =
     cherry_uci_client_session_get_app_config e u session_handle
       UCI_APPLICATION_PARAMETER_DEVICE_MAC_ADDRESS (U16 device_mac_address) 2 Uint16_Handler"

definition cherry_uci_client_session_get_app_config_number_of_sts_segments ::
    "'v session_env \<Rightarrow> 'v suci \<Rightarrow> 32 word \<Rightarrow> 8 word \<Rightarrow> (int \<times> app_data \<times> 'v suci) option" where
  "cherry_uci_client_session_get_app_config_number_of_sts_segments e u session_handle sts_segment =
     cherry_uci_client_session_get_app_config e u session_handle
       UCI_APPLICATION_PARAMETER_NUMBER_OF_STS_SEGMENTS (U8 sts_segment) 1 Uint8_Handler"

definition cherry_uci_client_session_get_app_config_short_sts_config ::
    "'v session_env \<Rightarrow> 'v suci \<Rightarrow> 32 word \<Rightarrow> 8 word \<Rightarrow> (int \<times> app_data \<times> 'v suci) option" where
  "cherry_uci_client_session_get_app_config_short_sts_config e u session_handle sts_config =
     cherry_uci_client_session_get_app_config e u session_handle
       UCI_APPLICATION_PARAMETER_STS_CONFIG (U8 sts_config) 1 Uint8_Handler"

definition cherry_uci_client_session_get_app_config_sts_length ::
    "'v session_env \<Rightarrow> 'v suci \<Rightarrow> 32 word \<Rightarrow> 8 word \<Rightarrow> (int \<times> app_data \<times> 'v suci) option" where
  "cherry_uci_client_session_get_app_config_sts_length e u session_handle sts_length =
     cherry_uci_client_session_get_app_config e u session_handle
       UCI_APPLICATION_PARAMETER_STS_LENGTH (U8 sts_length) 1 Uint8_Handler"

definition cherry_uci_client_session_get_app_config_dest_mac_address ::
    "'v session_env \<Rightarrow> 'v suci \<Rightarrow> 32 word \<Rightarrow> dst_mac_addresses \<Rightarrow> (int \<times> app_data \<times> 'v suci) option" where
  "cherry_uci_client_session_get_app_config_dest_mac_address e u session_handle dst_mac_address =
     cherry_uci_client_session_get_app_config e u session_handle
       UCI_APPLICATION_PARAMETER_DST_MAC_ADDRESS (Macs dst_mac_address) (2 * FIRA_CONTROLEES_MAX) Dest_Mac_Handler"

definition cherry_uci_client_session_get_app_config_info_ntf_config ::
    "'v session_env \<Rightarrow> 'v suci \<Rightarrow> 32 word \<Rightarrow> 8 word \<Rightarrow> (int \<times> app_data \<times> 'v suci) option" where
  "cherry_uci_client_session_get_app_config_info_ntf_config e u session_handle session_info_ntf_config =
     cherry_uci_client_session_get_app_config e u session_handle
       UCI_APPLICATION_PARAMETER_SESSION_INFO_NTF_CONFIG (U8 session_info_ntf_config) 1 Uint8_Handler"

definition cherry_uci_client_session_get_app_config_channel_number ::
    "'v session_env \<Rightarrow> 'v suci \<Rightarrow> 32 word \<Rightarrow> 8 word \<Rightarrow> (int \<times> app_data \<times> 'v suci) option" where
  "cherry_uci_client_session_get_app_config_channel_number e u session_handle channel_number =
     cherry_uci_client_session_get_app_config e u session_handle
       UCI_APPLICATION_PARAMETER_CHANNEL_NUMBER (U8 channel_number) 1 Uint8_Handler"

definition cherry_uci_client_session_get_app_config_preamble_code_index ::
    "'v session_env \<Rightarrow> 'v suci \<Rightarrow> 32 word \<Rightarrow> 8 word \<Rightarrow> (int \<times> app_data \<times> 'v suci) option" where
  "cherry_uci_client_session_get_app_config_preamble_code_index e u session_handle preamble_code_index =
     cherry_uci_client_session_get_app_config e u session_handle
       UCI_APPLICATION_PARAMETER_PREAMBLE_CODE_INDEX (U8 preamble_code_index) 1 Uint8_Handler"

definition cherry_uci_client_session_get_app_config_report_rssi ::
    "'v session_env \<Rightarrow> 'v suci \<Rightarrow> 32 word \<Rightarrow> 8 word \<Rightarrow> (int \<times> app_data \<times> 'v suci) option" where
  "cherry_uci_client_session_get_app_config_report_rssi e u session_handle report_rssi =
     cherry_uci_client_session_get_app_config e u session_handle
       UCI_APPLICATION_PARAMETER_RSSI_REPORTING (U8 report_rssi) 1 Uint8_Handler"

definition cherry_uci_client_session_get_app_config_max_number_of_measurements ::
    "'v session_env \<Rightarrow> 'v suci \<Rightarrow> 32 word \<Rightarrow> 16 word \<Rightarrow> (int \<times> app_data \<times> 'v suci) option" where
  "cherry_uci_client_session_get_app_config_max_number_of_measurements e u session_handle max_number_of_measurements =
     cherry_uci_client_session_get_app_config e u session_handle
       UCI_APPLICATION_PARAMETER_MAX_NUMBER_OF_MEASUREMENTS (U16 max_number_of_measurements) 2 Uint16_Handler"

definition cherry_uci_client_session_get_app_config_max_rr_retry ::
    "'v session_env \<Rightarrow> 'v suci \<Rightarrow> 32 word \<Rightarrow> 16 word \<Rightarrow> (int \<times> app_data \<times> 'v suci) option" where
  "cherry_uci_client_session_get_app_config_max_rr_retry e u session_handle max_rr_retry =
     cherry_uci_client_session_get_app_config e u session_handle
       UCI_APPLICATION_PARAMETER_MAX_RR_RETRY (U16 max_rr_retry) 2 Uint16_Handler"

definition cherry_uci_client_session_get_app_config_psdu_data_rate ::
    "'v session_env \<Rightarrow> 'v suci \<Rightarrow> 32 word \<Rightarrow> 8 word \<Rightarrow> (int \<times> app_data \<times> 'v suci) option" where
  "cherry_uci_client_session_get_app_config_psdu_data_rate e u session_handle psdu_data_rate =
     cherry_uci_client_session_get_app_config e u session_handle
       UCI_APPLICATION_PARAMETER_PSDU_DATA_RATE (U8 psdu_data_rate) 1 Uint8_Handler"

definition cherry_uci_client_session_get_app_config_rframe_config ::
    "'v session_env \<Rightarrow> 'v suci \<Rightarrow> 32 word \<Rightarrow> 8 word \<Rightarrow> (int \<times> app_data \<times> 'v suci) option" where
  "cherry_uci_client_session_get_app_config_rframe_config e u session_handle rframe_config =
     cherry_uci_client_session_get_app_config e u session_handle
       UCI_APPLICATION_PARAMETER_RFRAME_CONFIG (U8 rframe_config) 1 Uint8_Handler"

definition cherry_uci_client_session_get_app_config_prf_mode ::
    "'v session_env \<Rightarrow> 'v suci \<Rightarrow> 32 word \<Rightarrow> 8 word \<Rightarrow> (int \<times> app_data \<times> 'v suci) option" where
  "cherry_uci_client_session_get_app_config_prf_mode e u session_handle prf_mode =
     cherry_uci_client_session_get_app_config e u session_handle
       UCI_APPLICATION_PARAMETER_PRF_MODE (U8 prf_mode) 1 Uint8_Handler"

definition cherry_uci_client_session_get_app_config_sfd_id ::
    "'v session_env \<Rightarrow> 'v suci \<Rightarrow> 32 word \<Rightarrow> 8 word \<Rightarrow> (int \<times> app_data \<times> 'v suci) option" where
  "cherry_uci_client_session_get_app_config_sfd_id e u session_handle sfd_id =
     cherry_uci_client_session_get_app_config e u session_handle
       UCI_APPLICATION_PARAMETER_SFD_ID (U8 sfd_id) 1 Uint8_Handler"

definition cherry_uci_client_session_get_app_config_vendor_id ::
    "'v session_env \<Rightarrow> 'v suci \<Rightarrow> 32 word \<Rightarrow> bytes \<Rightarrow> (int \<times> app_data \<times> 'v suci) option" where
  "cherry_uci_client_session_get_app_config_vendor_id e u session_handle vendor_id =
     cherry_uci_client_session_get_app_config e u session_handle
       UCI_APPLICATION_PARAMETER_VENDOR_ID (Raw vendor_id) 2 Raw_Handler"

definition cherry_uci_client_session_get_app_config_static_sts_IV ::
    "'v session_env \<Rightarrow> 'v suci \<Rightarrow> 32 word \<Rightarrow> bytes \<Rightarrow> (int \<times> app_data \<times> 'v suci) option" where
  "cherry_uci_client_session_get_app_config_static_sts_IV e u session_handle static_sts_IV =
     cherry_uci_client_session_get_app_config e u session_handle
       UCI_APPLICATION_PARAMETER_STATIC_STS_IV (Raw static_sts_IV) 6 Raw_Handler"

definition cherry_uci_client_session_get_app_config_device_type ::
    "'v session_env \<Rightarrow> 'v suci \<Rightarrow> 32 word \<Rightarrow> 8 word \<Rightarrow> (int \<times> app_data \<times> 'v suci) option" where
  "cherry_uci_client_session_get_app_config_device_type e u session_handle device_type =
     cherry_uci_client_session_get_app_config e u session_handle
       UCI_APPLICATION_PARAMETER_DEVICE_TYPE (U8 device_type) 1 Uint8_Handler"

definition cherry_uci_client_session_get_app_config_device_role ::
    "'v session_env \<Rightarrow> 'v suci \<Rightarrow> 32 word \<Rightarrow> 8 word \<Rightarrow> (int \<times> app_data \<times> 'v suci) option" where
  "cherry_uci_client_session_get_app_config_device_role e u session_handle device_role =
     cherry_uci_client_session_get_app_config e u session_handle
       UCI_APPLICATION_PARAMETER_DEVICE_ROLE (U8 device_role) 1 Uint8_Handler"

definition cherry_uci_client_session_get_app_config_ranging_round_usage ::
    "'v session_env \<Rightarrow> 'v suci \<Rightarrow> 32 word \<Rightarrow> 8 word \<Rightarrow> (int \<times> app_data \<times> 'v suci) option" where
  "cherry_uci_client_session_get_app_config_ranging_round_usage e u session_handle ranging_round_usage =
     cherry_uci_client_session_get_app_config e u session_handle
       UCI_APPLICATION_PARAMETER_RANGING_ROUND_USAGE (U8 ranging_round_usage) 1 Uint8_Handler"

definition cherry_uci_client_session_get_app_config_multi_node_mode ::
    "'v session_env \<Rightarrow> 'v suci \<Rightarrow> 32 word \<Rightarrow> 8 word \<Rightarrow> (int \<times> app_data \<times> 'v suci) option" where
  "cherry_uci_client_session_get_app_config_multi_node_mode e u session_handle multi_node_mode =
     cherry_uci_client_session_get_app_config e u session_handle
       UCI_APPLICATION_PARAMETER_MULTI_NODE_MODE (U8 multi_node_mode) 1 Uint8_Handler"

definition cherry_uci_client_session_get_app_config_schedule_mode ::
    "'v session_env \<Rightarrow> 'v suci \<Rightarrow> 32 word \<Rightarrow> 8 word \<Rightarrow> (int \<times> app_data \<times> 'v suci) option" where
  "cherry_uci_client_session_get_app_config_schedule_mode e u session_handle schedule_mode =
     cherry_uci_client_session_get_app_config e u session_handle
       UCI_APPLICATION_PARAMETER_SCHEDULE_MODE (U8 schedule_mode) 1 Uint8_Handler"

definition cherry_uci_client_session_get_app_config_data_repetition_count ::
    "'v session_env \<Rightarrow> 'v suci \<Rightarrow> 32 word \<Rightarrow> 8 word \<Rightarrow> (int \<times> app_data \<times> 'v suci) option" where
  "cherry_uci_client_session_get_app_config_data_repetition_count e u session_handle data_repetition_count =
     cherry_uci_client_session_get_app_config e u session_handle
       UCI_APPLICATION_PARAMETER_DATA_REPETITION_COUNT (U8 data_repetition_count) 1 Uint8_Handler"

definition cherry_uci_client_session_get_app_config_dl_tdoa_ranging_method ::
    "'v session_env \<Rightarrow> 'v suci \<Rightarrow> 32 word \<Rightarrow> 8 word \<Rightarrow> (int \<times> app_data \<times> 'v suci) option" where
  "cherry_uci_client_session_get_app_config_dl_tdoa_ranging_method e u session_handle dl_tdoa_ranging_method =
     cherry_uci_client_session_get_app_config e u session_handle
       UCI_APPLICATION_PARAMETER_DL_TDOA_RANGING_METHOD (U8 dl_tdoa_ranging_method) 1 Uint8_Handler"

definition cherry_uci_client_session_get_app_config_dl_tdoa_tx_timestamp_conf ::
    "'v session_env \<Rightarrow> 'v suci \<Rightarrow> 32 word \<Rightarrow> 8 word \<Rightarrow> (int \<times> app_data \<times> 'v suci) option" where
  "cherry_uci_client_session_get_app_config_dl_tdoa_tx_timestamp_conf e u session_handle dl_tdoa_tx_timestamp_conf =
     cherry_uci_client_session_get_app_config e u session_handle
       UCI_APPLICATION_PARAMETER_DL_TDOA_TX_TIMESTAMP_CONF (U8 dl_tdoa_tx_timestamp_conf) 1 Uint8_Handler"

definition cherry_uci_client_session_get_app_config_dl_tdoa_hop_count ::
    "'v session_env \<Rightarrow> 'v suci \<Rightarrow> 32 word \<Rightarrow> 8 word \<Rightarrow> (int \<times> app_data \<times> 'v suci) option" where
  "cherry_uci_client_session_get_app_config_dl_tdoa_hop_count e u session_handle dl_tdoa_hop_count =
     cherry_uci_client_session_get_app_config e u session_handle
       UCI_APPLICATION_PARAMETER_DL_TDOA_HOP_COUNT (U8 dl_tdoa_hop_count) 1 Uint8_Handler"

definition cherry_uci_client_session_get_app_config_dl_tdoa_anchor_cfo ::
    "'v session_env \<Rightarrow> 'v suci \<Rightarrow> 32 word \<Rightarrow> 8 word \<Rightarrow> (int \<times> app_data \<times> 'v suci) option" where
  "cherry_uci_client_session_get_app_config_dl_tdoa_anchor_cfo e u session_handle dl_tdoa_anchor_cfo =
     cherry_uci_client_session_get_app_config e u session_handle
       UCI_APPLICATION_PARAMETER_DL_TDOA_ANCHOR_CFO (U8 dl_tdoa_anchor_cfo) 1 Uint8_Handler"

definition cherry_uci_client_session_get_app_config_dl_tx_active_ranging_rounds ::
    "'v session_env \<Rightarrow> 'v suci \<Rightarrow> 32 word \<Rightarrow> 8 word \<Rightarrow> (int \<times> app_data \<times> 'v suci) option" where
  "cherry_uci_client_session_get_app_config_dl_tx_active_ranging_rounds e u session_handle dl_tdoa_tx_active_ranging_rounds =
     cherry_uci_client_session_get_app_config e u session_handle
       UCI_APPLICATION_PARAMETER_DL_TDOA_TX_ACTIVE_RANGING_ROUNDS (U8 dl_tdoa_tx_active_ranging_rounds) 1 Uint8_Handler"

definition cherry_uci_client_session_get_app_config_dl_tdoa_block_skipping ::
    "'v session_env \<Rightarrow> 'v suci \<Rightarrow> 32 word \<Rightarrow> 8 word \<Rightarrow> (int \<times> app_data \<times> 'v suci) option" where
  "cherry_uci_client_session_get_app_config_dl_tdoa_block_skipping e u session_handle dl_tdoa_block_skipping =
     cherry_uci_client_session_get_app_config e u session_handle
       UCI_APPLICATION_PARAMETER_DL_TDOA_BLOCK_SKIPPING (U8 dl_tdoa_block_skipping) 1 Uint8_Handler"

definition cherry_uci_client_session_get_app_config_dl_tdoa_time_reference_anchor ::
    "'v session_env \<Rightarrow> 'v suci \<Rightarrow> 32 word \<Rightarrow> 8 word \<Rightarrow> (int \<times> app_data \<times> 'v suci) option" where
  "cherry_uci_client_session_get_app_config_dl_tdoa_time_reference_anchor e u session_handle dl_tdoa_time_reference_anchor =
     cherry_uci_client_session_get_app_config e u session_handle
       UCI_APPLICATION_PARAMETER_DL_TDOA_TIME_REFERENCE_ANCHOR (U8 dl_tdoa_time_reference_anchor) 1 Uint8_Handler"

definition cherry_uci_client_session_get_app_config_dl_tdoa_responder_tof ::
    "'v session_env \<Rightarrow> 'v suci \<Rightarrow> 32 word \<Rightarrow> 8 word \<Rightarrow> (int \<times> app_data \<times> 'v suci) option" where
  "cherry_uci_client_session_get_app_config_dl_tdoa_responder_tof e u session_handle dl_tdoa_responder_tof =
     cherry_uci_client_session_get_app_config e u session_handle
       UCI_APPLICATION_PARAMETER_DL_TDOA_RESPONDER_TOF (U8 dl_tdoa_responder_tof) 1 Uint8_Handler"

definition cherry_uci_client_session_get_app_config_dl_tdoa_anchor_location ::
    "'v session_env \<Rightarrow> 'v suci \<Rightarrow> 32 word \<Rightarrow> dl_tdoa_anchor_location \<Rightarrow> (int \<times> app_data \<times> 'v suci) option" where
  "cherry_uci_client_session_get_app_config_dl_tdoa_anchor_location e u session_handle v =
     cherry_uci_client_session_get_app_config e u session_handle
       UCI_APPLICATION_PARAMETER_DL_TDOA_ANCHOR_LOCATION (Location v) 13 Location_Handler"

end
