(* ===== verification/Message_Readers.thy ===== *)
theory Message_Readers
  imports Session_Client
begin

text \<open>
  Reading structured data from a message: a reader of the parser implements a decoder of byte lists,
  and sequences of readers implement the sequences of their decoders. A decoder that fails stands for a
  reader that does not return: the assertions of the scalar readers fail on a message that is too short.
\<close>

type_synonym 'a reader = "heap \<Rightarrow> uci_message_parser \<Rightarrow> ('a \<times> uci_message_parser) option"
type_synonym 'a decoder = "bytes \<Rightarrow> ('a \<times> bytes) option"

definition reads :: "'a reader \<Rightarrow> 'a decoder \<Rightarrow> bool" where
  "reads r d \<longleftrightarrow> (\<forall>h p bs. parser_rep h p bs \<longrightarrow>
     (case d bs of
        None \<Rightarrow> r h p = None
      | Some (x, rest) \<Rightarrow> \<exists>p'. r h p = Some (x, p') \<and> parser_rep h p' rest))"

lemma reads_Some:
  assumes "reads r d" and "parser_rep h p bs" and "d bs = Some (x, rest)"
  shows "\<exists>p'. r h p = Some (x, p') \<and> parser_rep h p' rest"
  using assms by (force simp: reads_def)

lemma reads_None: "reads r d \<Longrightarrow> parser_rep h p bs \<Longrightarrow> d bs = None \<Longrightarrow> r h p = None"
  by (force simp: reads_def)

lemma reads_returns: "reads r d \<Longrightarrow> parser_rep h p bs \<Longrightarrow> r h p \<noteq> None \<longleftrightarrow> d bs \<noteq> None"
  by (cases "d bs") (auto dest: reads_Some reads_None)

section \<open>Sequences\<close>

named_theorems reads_intros \<open>readers and the decoders they implement\<close>

lemma reads_return [reads_intros]: "reads (\<lambda>h p. Some (x, p)) (\<lambda>bs. Some (x, bs))"
  by (simp add: reads_def)

lemma reads_fail [reads_intros]: "reads (\<lambda>h p. None) (\<lambda>bs. None)"
  by (simp add: reads_def)

lemma reads_bind [reads_intros]:
  assumes "reads r d" and "\<And>x. reads (k x) (l x)"
  shows "reads (\<lambda>h p. Option.bind (r h p) (\<lambda>(x, p). k x h p)) (\<lambda>bs. Option.bind (d bs) (\<lambda>(x, bs). l x bs))"
  unfolding reads_def
proof (intro allI impI)
  fix h p bs
  assume rep: "parser_rep h p bs"
  show "case Option.bind (d bs) (\<lambda>(x, bs). l x bs) of
      None \<Rightarrow> Option.bind (r h p) (\<lambda>(x, p). k x h p) = None
    | Some (x, rest) \<Rightarrow> \<exists>p'. Option.bind (r h p) (\<lambda>(x, p). k x h p) = Some (x, p') \<and> parser_rep h p' rest"
  proof (cases "d bs")
    case None
    then show ?thesis using reads_None [OF assms(1) rep] by simp
  next
    case (Some y)
    then obtain x rest where d: "d bs = Some (x, rest)" by (cases y) auto
    from reads_Some [OF assms(1) rep this] obtain p' where p': "r h p = Some (x, p')" "parser_rep h p' rest" by blast
    from p'(1) have k: "Option.bind (r h p) (\<lambda>(x, p). k x h p) = k x h p'" by simp
    from d have l: "Option.bind (d bs) (\<lambda>(x, bs). l x bs) = l x rest" by simp
    show ?thesis
      unfolding k l using assms(2) [of x] p'(2) by (simp add: reads_def)
  qed
qed

lemma reads_pure [reads_intros]:
  assumes "\<And>x. reads (k x) (l x)"
  shows "reads (\<lambda>h p. Option.bind m (\<lambda>x. k x h p)) (\<lambda>bs. Option.bind m (\<lambda>x. l x bs))"
  using assms by (cases m) (auto simp: reads_def)

lemma reads_if [reads_intros]:
  "reads r d \<Longrightarrow> reads r' d' \<Longrightarrow> reads (\<lambda>h p. if c then r h p else r' h p) (\<lambda>bs. if c then d bs else d' bs)"
  by (cases c) simp_all

lemma reads_case [reads_intros]:
  assumes "\<And>a b. reads (f a b) (d a b)"
  shows "reads (\<lambda>h p. (case x of (a, b) \<Rightarrow> \<lambda>p. f a b h p) p) (\<lambda>bs. case x of (a, b) \<Rightarrow> d a b bs)"
  using assms by (cases x) simp

section \<open>Bytes, scalars and buffers\<close>

definition dec_8 :: "byte decoder" where
  "dec_8 bs = (case bs of [] \<Rightarrow> None | b # bs \<Rightarrow> Some (b, bs))"

definition dec_le :: "nat \<Rightarrow> 'a::len word decoder" where
  "dec_le n bs = (if n \<le> length bs then Some (le_value (take n bs), drop n bs) else None)"

definition dec_bytes :: "nat \<Rightarrow> bytes decoder" where
  "dec_bytes n bs = Some (take n bs, drop n bs)"

definition dec_skip :: "nat \<Rightarrow> nat decoder" where
  "dec_skip n bs = Some (min n (length bs), drop n bs)"

lemma reads_8bit [reads_intros]: "reads uci_message_get_8bit dec_8"
  by (auto simp: reads_def dec_8_def get_8bit_empty split: list.split dest: get_8bit_rep)

lemma get_short:
  assumes "parser_rep h p bs"
  shows "length bs < 2 \<Longrightarrow> uci_message_get_16bit h p = None" "length bs < 4 \<Longrightarrow> uci_message_get_32bit h p = None"
    "length bs < 5 \<Longrightarrow> uci_message_get_40bit h p = None" "length bs < 8 \<Longrightarrow> uci_message_get_64bit h p = None"
  using get_array_rep [OF assms, of 2] get_array_rep [OF assms, of 4] get_array_rep [OF assms, of 5]
    get_array_rep [OF assms, of 8]
  by (auto simp: uci_message_get_16bit_def uci_message_get_16bit_no_assert_def uci_message_get_32bit_def
      uci_message_get_32bit_no_assert_def uci_message_get_40bit_def uci_message_get_40bit_no_assert_def
      uci_message_get_64bit_def uci_message_get_64bit_no_assert_def)

lemma reads_16bit [reads_intros]: "reads uci_message_get_16bit (dec_le 2)"
  by (auto simp: reads_def dec_le_def get_short get_16bit_rep)

lemma reads_32bit [reads_intros]: "reads uci_message_get_32bit (dec_le 4)"
  by (auto simp: reads_def dec_le_def get_short get_32bit_rep)

lemma reads_40bit [reads_intros]: "reads uci_message_get_40bit (dec_le 5)"
  by (auto simp: reads_def dec_le_def get_short get_40bit_rep)

lemma reads_64bit [reads_intros]: "reads uci_message_get_64bit (dec_le 8)"
  by (auto simp: reads_def dec_le_def get_short get_64bit_rep)

lemma reads_get [reads_intros]: "reads (\<lambda>h p. uci_message_get h p n) (dec_bytes n)"
  by (auto simp: reads_def dec_bytes_def dest: message_get_rep)

lemma reads_skip [reads_intros]: "reads (\<lambda>h p. uci_message_skip h p n) (dec_skip n)"
  by (auto simp: reads_def dec_skip_def dest: message_skip_rep)

section \<open>Decoding what a layout encodes\<close>

lemma dec_8_eq: "dec_8 bs = (if 1 \<le> length bs then Some (bs ! 0, drop 1 bs) else None)"
  by (cases bs) (simp_all add: dec_8_def)

text \<open>
  Decoding by position: after \<open>k\<close> bytes the rest is \<open>drop k bs\<close>. The conditions of a sequence of
  decoders collapse into one conjunction of bounds on the length.
\<close>

lemma reads_at: "reads r d \<Longrightarrow> (\<And>bs. d (drop 0 bs) = d' bs) \<Longrightarrow> reads r d'"
  by (simp add: reads_def)

lemma dec_8_at: "dec_8 (drop k bs) = (if 1 + k \<le> length bs then Some (bs ! k, drop (1 + k) bs) else None)"
  by (auto simp: dec_8_eq)

lemma dec_le_at:
  "0 < n \<Longrightarrow> dec_le n (drop k bs) =
     (if n + k \<le> length bs then Some (le_value (take n (drop k bs)), drop (n + k) bs) else None)"
  by (auto simp: dec_le_def)

lemma dec_skip_at: "dec_skip n (drop k bs) = Some (min n (length bs - k), drop (n + k) bs)"
  by (simp add: dec_skip_def)

lemma bind_if_Some: "Option.bind (if c then Some x else None) f = (if c then f x else None)"
  by simp

lemma if_if_None: "(if a then if b then x else None else None) = (if a \<and> b then x else None)"
  by simp

lemmas dec_at = dec_8_at dec_le_at [OF zero_less_numeral] dec_skip_at bind_if_Some if_if_None bind.bind_lunit prod.case

text \<open>Decoding the bytes of a layout.\<close>

lemma dec_8_Cons [simp]: "dec_8 (b # bs) = Some (b, bs)"
  by (simp add: dec_8_def)

lemma dec_le_append [simp]:
  "LENGTH('a) \<le> 8 * n \<Longrightarrow> dec_le n (le_bytes n (v :: 'a::len word) @ bs) = Some (v, bs)"
  by (simp add: dec_le_def le_value_le_bytes_full)

lemma dec_le_None [simp]: "dec_le n bs = None \<longleftrightarrow> length bs < n"
  by (simp add: dec_le_def not_le)

lemma dec_bytes_append [simp]: "length xs = n \<Longrightarrow> dec_bytes n (xs @ bs) = Some (xs, bs)"
  by (simp add: dec_bytes_def)

lemma dec_skip_append [simp]: "length xs = n \<Longrightarrow> dec_skip n (xs @ bs) = Some (n, bs)"
  by (simp add: dec_skip_def)

end
