(* ===== verification/Anchor_Location.thy ===== *)
theory Anchor_Location
  imports App_Params
begin

text \<open>
  The location of a DL-TDoA anchor: how \<^verbatim>\<open>put_dl_tdoa_anchor_location\<close> packs it into the parameter,
  33, 33 and 30 bits for geographic coordinates and 28, 28 and 24 bits for relative ones, and that the
  handler of \<^verbatim>\<open>get_app_config_dl_tdoa_anchor_location\<close> reads the same coordinates back.
\<close>

section \<open>Encoding\<close>

abbreviation (input) CHERRY_FIRA_ANCHOR_LOCATION_TYPE_NONE :: nat where "CHERRY_FIRA_ANCHOR_LOCATION_TYPE_NONE \<equiv> 0x00"
abbreviation (input) CHERRY_FIRA_ANCHOR_LOCATION_TYPE_WGS84 :: nat where "CHERRY_FIRA_ANCHOR_LOCATION_TYPE_WGS84 \<equiv> 0x01"
abbreviation (input) CHERRY_FIRA_ANCHOR_LOCATION_TYPE_REL :: nat where "CHERRY_FIRA_ANCHOR_LOCATION_TYPE_REL \<equiv> 0x03"
abbreviation (input) CHERRY_FIRA_ANCHOR_LOCATION_TYPE_WGS84_Z_EXT :: nat where
  "CHERRY_FIRA_ANCHOR_LOCATION_TYPE_WGS84_Z_EXT \<equiv> 0x05"
abbreviation (input) CHERRY_FIRA_ANCHOR_LOCATION_TYPE_REL_Z_EXT :: nat where
  "CHERRY_FIRA_ANCHOR_LOCATION_TYPE_REL_Z_EXT \<equiv> 0x07"

text \<open>
  The C structure is a type and a union of structures, here the bytes of the union. The offsets of the
  fields are those of a little-endian machine with the natural alignment of \<open>uint64_t\<close>, \<open>int32_t\<close>, \<open>int16_t\<close>
  and enumerations of 4 bytes: in \<^verbatim>\<open>wgs84\<close> the latitude at 0, the longitude at 8, the altitude at 16;
  in \<^verbatim>\<open>wgs84_z_ext\<close> also the floor at 20, \<^verbatim>\<open>moveable\<close> at 24, the height at 28 and its uncertainty at 32;
  in \<^verbatim>\<open>relative\<close> \<open>x\<close> at 0, \<open>y\<close> at 4, \<open>z\<close> at 8; in \<^verbatim>\<open>relative_z_ext\<close> also the floor at 12, \<^verbatim>\<open>moveable\<close>
  at 16, the height at 20 and its uncertainty at 24. The union has 40 bytes.
\<close>

record anchor_location =
  al_type :: nat
  al_data :: bytes

definition field :: "anchor_location \<Rightarrow> nat \<Rightarrow> nat \<Rightarrow> 'a::len word option" where
  "field l off n = do { xs \<leftarrow> read_buf (al_data l) off n; Some (le_value xs) }"

text \<open>The three coordinates as 8 bytes each: unsigned fields for geographic, signed for relative ones.\<close>

definition wgs84_temp :: "anchor_location \<Rightarrow> (bytes \<times> bytes \<times> bytes) option" where
  "wgs84_temp l =
     do { x \<leftarrow> field l 0 8; y \<leftarrow> field l 8 8; z \<leftarrow> field l 16 4;
          Some (le_bytes 8 (x :: 64 word), le_bytes 8 (y :: 64 word), le_bytes 8 (ucast (z :: 32 word) :: 64 word)) }"

definition relative_temp :: "anchor_location \<Rightarrow> (bytes \<times> bytes \<times> bytes) option" where
  "relative_temp l =
     do { x \<leftarrow> field l 0 4; y \<leftarrow> field l 4 4; z \<leftarrow> field l 8 4;
          Some (le_bytes 8 (scast (x :: 32 word) :: 64 word), le_bytes 8 (scast (y :: 32 word) :: 64 word),
                le_bytes 8 (scast (z :: 32 word) :: 64 word)) }"

definition pack_wgs84 :: "bytes \<times> bytes \<times> bytes \<Rightarrow> bytes" where
  "pack_wgs84 = (\<lambda>(x, y, z).
     [x ! 0, x ! 1, x ! 2, x ! 3,
      (push_bit 7 (x ! 4) AND 0x80) OR (drop_bit 1 (y ! 0) AND 0x7F),
      (push_bit 7 (y ! 0) AND 0x80) OR (drop_bit 1 (y ! 1) AND 0x7F),
      (push_bit 7 (y ! 1) AND 0x80) OR (drop_bit 1 (y ! 2) AND 0x7F),
      (push_bit 7 (y ! 2) AND 0x80) OR (drop_bit 1 (y ! 3) AND 0x7F),
      (push_bit 7 (y ! 3) AND 0x80) OR (push_bit 6 (y ! 4) AND 0x40) OR (drop_bit 2 (z ! 0) AND 0x3F),
      (push_bit 6 (z ! 0) AND 0xC0) OR (drop_bit 2 (z ! 1) AND 0x3F),
      (push_bit 6 (z ! 1) AND 0xC0) OR (drop_bit 2 (z ! 2) AND 0x3F),
      (push_bit 6 (z ! 2) AND 0xC0) OR (z ! 3 AND 0x3F)])"

definition pack_relative :: "bytes \<times> bytes \<times> bytes \<Rightarrow> bytes" where
  "pack_relative = (\<lambda>(x, y, z).
     [x ! 0, x ! 1, x ! 2,
      (push_bit 4 (x ! 3) AND 0xF0) OR (drop_bit 4 (y ! 0) AND 0x0F),
      (push_bit 4 (y ! 0) AND 0xF0) OR (drop_bit 4 (y ! 1) AND 0x0F),
      (push_bit 4 (y ! 1) AND 0xF0) OR (drop_bit 4 (y ! 2) AND 0x0F),
      (push_bit 4 (y ! 2) AND 0xF0) OR (y ! 3 AND 0x0F),
      z ! 0, z ! 1, z ! 2])"

text \<open>
  The floor, the movability, the height and its uncertainty. Both extended formats read them through
  \<^verbatim>\<open>data.wgs84_z_ext\<close>. Bits 1 and 2 of the second byte are cleared before the movability is added.
\<close>

definition z_ext_bytes :: "anchor_location \<Rightarrow> bytes option" where
  "z_ext_bytes l =
     do {
       floor_val \<leftarrow> field l 20 2;
       moveable \<leftarrow> field l 24 4;
       height_val \<leftarrow> field l 28 4;
       unc \<leftarrow> field l 32 1;
       let f = (floor_val :: 16 word);
       let h = (height_val :: 32 word);
       Some [ucast (drop_bit 6 f AND 0xFF),
             ((ucast (push_bit 2 f AND 0xFC) :: byte) AND 0xF9) OR ucast (moveable :: 32 word),
             ucast (drop_bit 16 h AND 0xFF), ucast (drop_bit 8 h AND 0xFF), ucast (h AND 0xFF), unc]
     }"

text \<open>The bytes of the array \<^verbatim>\<open>location\<close> that are sent; \<open>Some None\<close> is a type that is not supported.\<close>

definition location_bytes :: "anchor_location \<Rightarrow> bytes option option" where
  "location_bytes l =
     (let t = word_of_nat (al_type l) in
      if al_type l = CHERRY_FIRA_ANCHOR_LOCATION_TYPE_NONE then Some (Some [t])
      else if al_type l = CHERRY_FIRA_ANCHOR_LOCATION_TYPE_WGS84
      then do { p \<leftarrow> wgs84_temp l; Some (Some (t # pack_wgs84 p)) }
      else if al_type l = CHERRY_FIRA_ANCHOR_LOCATION_TYPE_REL
      then do { p \<leftarrow> relative_temp l; Some (Some (t # pack_relative p)) }
      else if al_type l = CHERRY_FIRA_ANCHOR_LOCATION_TYPE_WGS84_Z_EXT
      then do { p \<leftarrow> wgs84_temp l; z \<leftarrow> z_ext_bytes l; Some (Some (t # pack_wgs84 p @ z)) }
      else if al_type l = CHERRY_FIRA_ANCHOR_LOCATION_TYPE_REL_Z_EXT
      then do { p \<leftarrow> relative_temp l; z \<leftarrow> z_ext_bytes l; Some (Some (t # pack_relative p @ z)) }
      else Some None)"

definition cherry_uci_client_session_set_app_config_cmd_put_dl_tdoa_anchor_location ::
    "'v session_env \<Rightarrow> 'v suci \<Rightarrow> set_app_config_cmd option \<Rightarrow> anchor_location option \<Rightarrow> 'v put_result" where
  "cherry_uci_client_session_set_app_config_cmd_put_dl_tdoa_anchor_location e u cmd dl_tdoa_anchor_location =
     (case dl_tdoa_anchor_location of
        None \<Rightarrow> Some (UCI_STATUS_INVALID_PARAM, u, cmd)
      | Some l \<Rightarrow>
          do {
            bs \<leftarrow> location_bytes l;
            case bs of
              None \<Rightarrow> Some (UCI_STATUS_INVALID_PARAM, u, cmd)
            | Some location \<Rightarrow>
                cherry_uci_client_session_set_app_config_cmd_put e u cmd
                  (if al_type l = CHERRY_FIRA_ANCHOR_LOCATION_TYPE_NONE \<or> al_type l = CHERRY_FIRA_ANCHOR_LOCATION_TYPE_REL
                      \<or> al_type l = CHERRY_FIRA_ANCHOR_LOCATION_TYPE_WGS84
                   then UCI_APPLICATION_PARAMETER_DL_TDOA_ANCHOR_LOCATION else 0x4e)
                  (Some location) (word_of_nat (length location))
          })"

section \<open>Reading it back\<close>

text \<open>Two bytes are equal when their eight bits are.\<close>

lemma byte_eqI:
  assumes "bit a 0 = bit b 0" "bit a 1 = bit b 1" "bit a 2 = bit b 2" "bit a 3 = bit b 3"
    "bit a 4 = bit b 4" "bit a 5 = bit b 5" "bit a 6 = bit b 6" "bit a 7 = bit b 7"
  shows "a = (b :: byte)"
proof (rule bit_word_eqI)
  fix n assume "n < LENGTH(8)"
  then have "n \<in> {0, 1, 2, 3, 4, 5, 6, 7}" by auto
  with assms show "bit a n = bit b n" by auto
qed

lemma bit_push_byte: "n < 8 \<Longrightarrow> bit (push_bit k (a :: byte)) n \<longleftrightarrow> k \<le> n \<and> bit a (n - k)"
  by (simp add: bit_push_bit_iff)

lemmas byte_bits = bit_or_iff bit_and_iff bit_push_byte bit_drop_bit_eq bit_1_iff

lemma unpack_bits:
  fixes a b c d :: byte
  shows "drop_bit 7 ((push_bit 7 a AND 0x80) OR (drop_bit 1 b AND 0x7F)) AND 0x01 = a AND 1"
    and "(push_bit 1 ((push_bit 7 a AND 0x80) OR (drop_bit 1 b AND 0x7F)) AND 0xFE) OR
      (b AND 0x01) = b"
    and "(push_bit 1 ((push_bit 7 a AND 0x80) OR (drop_bit 1 b AND 0x7F)) AND 0xFE) OR
      (drop_bit 7 ((push_bit 7 b AND 0x80) OR (push_bit 6 c AND 0x40) OR (drop_bit 2 d AND 0x3F)) AND 0x01) = b"
    and "drop_bit 6 ((push_bit 7 a AND 0x80) OR (push_bit 6 b AND 0x40) OR (drop_bit 2 c AND 0x3F)) AND 0x01 = b AND 1"
    and "(push_bit 2 ((push_bit 7 a AND 0x80) OR (push_bit 6 b AND 0x40) OR (drop_bit 2 c AND 0x3F)) AND 0xFC) OR
      (drop_bit 6 ((push_bit 6 c AND 0xC0) OR (drop_bit 2 d AND 0x3F)) AND 0x03) = c"
    and "(push_bit 2 ((push_bit 6 a AND 0xC0) OR (drop_bit 2 b AND 0x3F)) AND 0xFC) OR
      (drop_bit 6 ((push_bit 6 b AND 0xC0) OR (drop_bit 2 c AND 0x3F)) AND 0x03) = b"
    and "(push_bit 2 ((push_bit 6 a AND 0xC0) OR (drop_bit 2 b AND 0x3F)) AND 0xFC) OR
      (drop_bit 6 ((push_bit 6 b AND 0xC0) OR (c AND 0x3F)) AND 0x03) = b"
    and "((push_bit 6 a AND 0xC0) OR (b AND 0x3F)) AND 0x3F = b AND 0x3F"
    and "drop_bit 4 ((push_bit 4 a AND 0xF0) OR (drop_bit 4 b AND 0x0F)) AND 0x0F = a AND 0x0F"
    and "(push_bit 4 ((push_bit 4 a AND 0xF0) OR (drop_bit 4 b AND 0x0F)) AND 0xF0) OR
      (b AND 0x0F) = b"
    and "(push_bit 4 ((push_bit 4 a AND 0xF0) OR (drop_bit 4 b AND 0x0F)) AND 0xF0) OR
      (drop_bit 4 ((push_bit 4 b AND 0xF0) OR (c AND 0x0F)) AND 0x0F) = b"
    and "((push_bit 4 a AND 0xF0) OR (b AND 0x0F)) AND 0x0F = b AND 0x0F"
  by (rule byte_eqI; simp add: byte_bits del: bit_0 push_bit_Suc; (simp add: numeral_2_eq_2 numeral_3_eq_3)?)+

lemma nth_literal10:
    "[a0, a1, a2, a3, a4, a5, a6, a7, a8, a9] ! 0 = a0"
    "[a0, a1, a2, a3, a4, a5, a6, a7, a8, a9] ! 1 = a1"
    "[a0, a1, a2, a3, a4, a5, a6, a7, a8, a9] ! 2 = a2"
    "[a0, a1, a2, a3, a4, a5, a6, a7, a8, a9] ! 3 = a3"
    "[a0, a1, a2, a3, a4, a5, a6, a7, a8, a9] ! 4 = a4"
    "[a0, a1, a2, a3, a4, a5, a6, a7, a8, a9] ! 5 = a5"
    "[a0, a1, a2, a3, a4, a5, a6, a7, a8, a9] ! 6 = a6"
    "[a0, a1, a2, a3, a4, a5, a6, a7, a8, a9] ! 7 = a7"
    "[a0, a1, a2, a3, a4, a5, a6, a7, a8, a9] ! 8 = a8"
    "[a0, a1, a2, a3, a4, a5, a6, a7, a8, a9] ! 9 = a9"
  by simp_all

lemma nth_literal12:
    "[a0, a1, a2, a3, a4, a5, a6, a7, a8, a9, a10, a11] ! 0 = a0"
    "[a0, a1, a2, a3, a4, a5, a6, a7, a8, a9, a10, a11] ! 1 = a1"
    "[a0, a1, a2, a3, a4, a5, a6, a7, a8, a9, a10, a11] ! 2 = a2"
    "[a0, a1, a2, a3, a4, a5, a6, a7, a8, a9, a10, a11] ! 3 = a3"
    "[a0, a1, a2, a3, a4, a5, a6, a7, a8, a9, a10, a11] ! 4 = a4"
    "[a0, a1, a2, a3, a4, a5, a6, a7, a8, a9, a10, a11] ! 5 = a5"
    "[a0, a1, a2, a3, a4, a5, a6, a7, a8, a9, a10, a11] ! 6 = a6"
    "[a0, a1, a2, a3, a4, a5, a6, a7, a8, a9, a10, a11] ! 7 = a7"
    "[a0, a1, a2, a3, a4, a5, a6, a7, a8, a9, a10, a11] ! 8 = a8"
    "[a0, a1, a2, a3, a4, a5, a6, a7, a8, a9, a10, a11] ! 9 = a9"
    "[a0, a1, a2, a3, a4, a5, a6, a7, a8, a9, a10, a11] ! 10 = a10"
    "[a0, a1, a2, a3, a4, a5, a6, a7, a8, a9, a10, a11] ! 11 = a11"
  by simp_all

lemma unpack_wgs84:
  "wgs84_coordinates (pack_wgs84 (x, y, z)) =
     ([x ! 0, x ! 1, x ! 2, x ! 3, x ! 4 AND 1], [y ! 0, y ! 1, y ! 2, y ! 3, y ! 4 AND 1],
      [z ! 0, z ! 1, z ! 2, z ! 3 AND 0x3F])"
  unfolding wgs84_coordinates_def pack_wgs84_def prod.case by (simp only: nth_literal12 unpack_bits)

lemma unpack_relative:
  "relative_coordinates (pack_relative (x, y, z)) =
     ([x ! 0, x ! 1, x ! 2, x ! 3 AND 0x0F], [y ! 0, y ! 1, y ! 2, y ! 3 AND 0x0F], [z ! 0, z ! 1, z ! 2])"
  unfolding relative_coordinates_def pack_relative_def prod.case by (simp only: nth_literal10 unpack_bits)

text \<open>The low bits of a 64-bit value, from its bytes.\<close>

lemma le_bytes_take_bit:
  fixes v :: "64 word"
  assumes "k \<le> 8"
  shows "le_bytes (Suc n) (take_bit (8 * n + k) v) = le_bytes n v @ [ucast (drop_bit (8 * n) v) AND mask k]"
proof (rule nth_equalityI)
  fix i assume "i < length (le_bytes (Suc n) (take_bit (8 * n + k) v))"
  then consider "i < n" | "i = n" by (auto simp: less_Suc_eq)
  then show "le_bytes (Suc n) (take_bit (8 * n + k) v) ! i =
      (le_bytes n v @ [ucast (drop_bit (8 * n) v) AND mask k]) ! i"
  proof cases
    case 1
    then have "8 * i + 8 \<le> 8 * n" by simp
    with 1 show ?thesis
      by (auto simp: le_bytes_def nth_append nth_upt bit_simps simp del: upt_Suc intro!: bit_word_eqI)
  next
    case 2
    with assms show ?thesis
      by (auto simp: le_bytes_def nth_append bit_simps simp del: upt_Suc intro!: bit_word_eqI)
  qed
qed simp

lemma le_value_low_bits:
  fixes v :: "64 word"
  assumes "k \<le> 8"
  shows "le_value (le_bytes n v @ [ucast (drop_bit (8 * n) v) AND mask k]) = take_bit (8 * n + k) v"
  unfolding le_bytes_take_bit [OF assms, symmetric] le_value_le_bytes using assms by simp

lemma le_bytes_literal:
  "[le_bytes 8 v ! 0, le_bytes 8 v ! 1, le_bytes 8 v ! 2] = le_bytes 3 v"
  "[le_bytes 8 v ! 0, le_bytes 8 v ! 1, le_bytes 8 v ! 2, b] = le_bytes 3 v @ [b]"
  "[le_bytes 8 v ! 0, le_bytes 8 v ! 1, le_bytes 8 v ! 2, le_bytes 8 v ! 3, b] = le_bytes 4 v @ [b]"
  by (simp_all add: le_bytes_def eval_nat_numeral)

lemma coordinate_bits:
  fixes v :: "64 word"
  shows "le_value [le_bytes 8 v ! 0, le_bytes 8 v ! 1, le_bytes 8 v ! 2, le_bytes 8 v ! 3, le_bytes 8 v ! 4 AND 1]
      = take_bit 33 v"
    and "le_value [le_bytes 8 v ! 0, le_bytes 8 v ! 1, le_bytes 8 v ! 2, le_bytes 8 v ! 3 AND 0x3F] = take_bit 30 v"
    and "le_value [le_bytes 8 v ! 0, le_bytes 8 v ! 1, le_bytes 8 v ! 2, le_bytes 8 v ! 3 AND 0x0F] = take_bit 28 v"
    and "le_value [le_bytes 8 v ! 0, le_bytes 8 v ! 1, le_bytes 8 v ! 2] = take_bit 24 v"
proof -
  have b: "le_bytes 8 v ! 3 = ucast (drop_bit (8 * 3) v)" "le_bytes 8 v ! 4 = ucast (drop_bit (8 * 4) v)"
    by (simp_all add: le_bytes_def)
  have m: "(1 :: byte) = mask 1" "(0x3F :: byte) = mask 6" "(0x0F :: byte) = mask 4"
    by (simp_all add: mask_eq_exp_minus_1)
  show "le_value [le_bytes 8 v ! 0, le_bytes 8 v ! 1, le_bytes 8 v ! 2, le_bytes 8 v ! 3, le_bytes 8 v ! 4 AND 1]
      = take_bit 33 v"
    unfolding le_bytes_literal b(2) m(1) using le_value_low_bits [of 1 4 v] by simp
  show "le_value [le_bytes 8 v ! 0, le_bytes 8 v ! 1, le_bytes 8 v ! 2, le_bytes 8 v ! 3 AND 0x3F] = take_bit 30 v"
    unfolding le_bytes_literal b(1) m(2) using le_value_low_bits [of 6 3 v] by simp
  show "le_value [le_bytes 8 v ! 0, le_bytes 8 v ! 1, le_bytes 8 v ! 2, le_bytes 8 v ! 3 AND 0x0F] = take_bit 28 v"
    unfolding le_bytes_literal b(1) m(3) using le_value_low_bits [of 4 3 v] by simp
  show "le_value [le_bytes 8 v ! 0, le_bytes 8 v ! 1, le_bytes 8 v ! 2] = take_bit 24 v"
    unfolding le_bytes_literal le_value_le_bytes by simp
qed

text \<open>
  What the handler makes of the bytes: the coordinates at the width of the format. Both extended
  formats start with the bytes of the plain one.
\<close>

definition wgs84_fields :: "anchor_location \<Rightarrow> (64 word \<times> 64 word \<times> 64 word) option" where
  "wgs84_fields l = do { x \<leftarrow> field l 0 8; y \<leftarrow> field l 8 8; z \<leftarrow> field l 16 4; Some (x, y, ucast (z :: 32 word)) }"

definition relative_fields :: "anchor_location \<Rightarrow> (64 word \<times> 64 word \<times> 64 word) option" where
  "relative_fields l =
     do { x \<leftarrow> field l 0 4; y \<leftarrow> field l 4 4; z \<leftarrow> field l 8 4;
          Some (scast (x :: 32 word), scast (y :: 32 word), scast (z :: 32 word)) }"

lemma decode_wgs84:
  assumes "wgs84_fields l = Some (x, y, z)" and "al_type l = CHERRY_FIRA_ANCHOR_LOCATION_TYPE_WGS84"
  shows "\<exists>bs. location_bytes l = Some (Some bs) \<and> length bs = 13 \<and>
    decode_location (bs @ rest) d = d\<lparr>location_presence := True, coordinates_system := 0,
      location_x := take_bit 33 x, location_y := take_bit 33 y, location_z := take_bit 30 z\<rparr>"
proof -
  let ?p = "(le_bytes 8 x, le_bytes 8 y, le_bytes 8 z)"
  have "wgs84_temp l = Some ?p"
    using assms(1) by (auto simp: wgs84_fields_def wgs84_temp_def bind_Some_iff)
  moreover have "wgs84_coordinates (pack_wgs84 ?p @ rest) = wgs84_coordinates (pack_wgs84 ?p)"
    by (simp add: wgs84_coordinates_def pack_wgs84_def)
  moreover have "length (pack_wgs84 ?p) = 12" by (simp add: pack_wgs84_def)
  ultimately show ?thesis
    using assms(2) by (auto simp: location_bytes_def decode_location_def unpack_wgs84 coordinate_bits [unfolded One_nat_def] Let_def
        simp del: le_value.simps)
qed

lemma decode_relative:
  assumes "relative_fields l = Some (x, y, z)" and "al_type l = CHERRY_FIRA_ANCHOR_LOCATION_TYPE_REL"
  shows "\<exists>bs. location_bytes l = Some (Some bs) \<and> length bs = 11 \<and>
    decode_location (bs @ rest) d = d\<lparr>location_presence := True, coordinates_system := 1,
      location_x := take_bit 28 x, location_y := take_bit 28 y, location_z := take_bit 24 z\<rparr>"
proof -
  let ?p = "(le_bytes 8 x, le_bytes 8 y, le_bytes 8 z)"
  have "relative_temp l = Some ?p"
    using assms(1) by (auto simp: relative_fields_def relative_temp_def bind_Some_iff)
  moreover have "relative_coordinates (pack_relative ?p @ rest) = relative_coordinates (pack_relative ?p)"
    by (simp add: relative_coordinates_def pack_relative_def)
  moreover have "length (pack_relative ?p) = 10" by (simp add: pack_relative_def)
  ultimately show ?thesis
    using assms(2) by (auto simp: location_bytes_def decode_location_def unpack_relative coordinate_bits [unfolded One_nat_def] Let_def
        simp del: le_value.simps)
qed

section \<open>What the extended formats lose\<close>

lemma read_buf_upd: "i < off \<or> off + n \<le> i \<Longrightarrow> read_buf (d[i := v]) off n = read_buf d off n"
  by (auto simp: read_buf_def drop_update_swap take_update_cancel drop_update_cancel)

text \<open>
  The floor of the relative extended format, at bytes 12 and 13 of the union, is not looked at: the
  floor sent is read at the offset it has in the geographic extended format.
\<close>

lemma rel_z_ext_floor_ignored:
  assumes "al_type l = CHERRY_FIRA_ANCHOR_LOCATION_TYPE_REL_Z_EXT"
  shows "location_bytes (l\<lparr>al_data := (al_data l)[12 := f0, 13 := f1]\<rparr>) = location_bytes l"
proof -
  let ?l = "l\<lparr>al_data := (al_data l)[12 := f0, 13 := f1]\<rparr>"
  have fld: "(field ?l off n :: 'a::len word option) = field l off n" if "off + n \<le> 12 \<or> 14 \<le> off" for off n
    using that by (auto simp: field_def read_buf_upd)
  have "relative_temp ?l = relative_temp l" by (simp add: relative_temp_def fld)
  moreover have "z_ext_bytes ?l = z_ext_bytes l" by (simp add: z_ext_bytes_def fld)
  ultimately show ?thesis using assms by (simp add: location_bytes_def)
qed

end
