(* ===== verification/Fira_Measurements.thy ===== *)
theory Fira_Measurements
  imports Message_Readers Anchor_Location
begin

text \<open>
  The measurements of a ranging notification (\<^verbatim>\<open>cherry_fira_client.c\<close>): two-way ranging, and
  downlink TDoA in its two formats. Each function reads a given number of measurements from the parser
  into an array of the caller. Signed values are the words of the same width.
\<close>

section \<open>Two-way ranging\<close>

record aoa_measurements =
  am_rx_antenna_pair :: byte
  am_aoa_fom :: byte
  am_aoa :: "16 word"

text \<open>The array of the two local angles is two fields, azimuth and elevation.\<close>

record twr_ranging_measurements =
  tm_short_addr :: "16 word"
  tm_status :: byte
  tm_nlos :: byte
  tm_slot_index :: byte
  tm_stopped :: bool
  tm_distance_mm :: int
  tm_remote_aoa_azimuth :: "16 word"
  tm_remote_aoa_elevation :: "16 word"
  tm_remote_aoa_azimuth_fom :: byte
  tm_remote_aoa_elevation_fom :: byte
  tm_local_azimuth :: aoa_measurements
  tm_local_elevation :: aoa_measurements
  tm_sp1_data :: bytes
  tm_sp1_data_len :: int
  tm_rssi :: byte

record twr_ranging_results =
  tr_session_handle :: "32 word"
  tr_sequence_number :: "32 word"
  tr_ranging_interval_ms :: "32 word"
  tr_n_measurements :: int
  tr_measurements :: "twr_ranging_measurements list"

text \<open>One iteration of the loop; the fields that are not read keep their value.\<close>

definition read_twr_measurement :: "twr_ranging_measurements \<Rightarrow> twr_ranging_measurements reader" where
  "read_twr_measurement m h parser =
     do {
       (short_addr, parser) \<leftarrow> uci_message_get_16bit h parser;
       (status, parser) \<leftarrow> uci_message_get_8bit h parser;
       (nlos, parser) \<leftarrow> uci_message_get_8bit h parser;
       (distance_cm, parser) \<leftarrow> uci_message_get_16bit h parser;
       (azimuth, parser) \<leftarrow> uci_message_get_16bit h parser;
       (azimuth_fom, parser) \<leftarrow> uci_message_get_8bit h parser;
       (elevation, parser) \<leftarrow> uci_message_get_16bit h parser;
       (elevation_fom, parser) \<leftarrow> uci_message_get_8bit h parser;
       (remote_azimuth, parser) \<leftarrow> uci_message_get_16bit h parser;
       (remote_azimuth_fom, parser) \<leftarrow> uci_message_get_8bit h parser;
       (remote_elevation, parser) \<leftarrow> uci_message_get_16bit h parser;
       (remote_elevation_fom, parser) \<leftarrow> uci_message_get_8bit h parser;
       (slot_index, parser) \<leftarrow> uci_message_get_8bit h parser;
       (rssi, parser) \<leftarrow> uci_message_get_8bit h parser;
       (_, parser) \<leftarrow> uci_message_skip h parser 8;
       (_, parser) \<leftarrow> uci_message_skip h parser 2;
       (_, parser) \<leftarrow> uci_message_skip h parser 1;
       Some (m\<lparr>tm_short_addr := short_addr, tm_status := status, tm_nlos := nlos,
               tm_distance_mm := uint distance_cm * 10,
               tm_local_azimuth := (tm_local_azimuth m)\<lparr>am_aoa := azimuth, am_aoa_fom := azimuth_fom\<rparr>,
               tm_local_elevation := (tm_local_elevation m)\<lparr>am_aoa := elevation, am_aoa_fom := elevation_fom\<rparr>,
               tm_remote_aoa_azimuth := remote_azimuth, tm_remote_aoa_azimuth_fom := remote_azimuth_fom,
               tm_remote_aoa_elevation := remote_elevation, tm_remote_aoa_elevation_fom := remote_elevation_fom,
               tm_slot_index := slot_index, tm_rssi := rssi\<rparr>, parser)
     }"

text \<open>The loop over an array of measurements; a store outside of it is not defined.\<close>

fun read_array :: "('a \<Rightarrow> 'a reader) \<Rightarrow> 'a list \<Rightarrow> nat list \<Rightarrow> 'a list reader" where
  "read_array f ms [] h parser = Some (ms, parser)"
| "read_array f ms (i # is) h parser =
     (if i < length ms
      then do { (m, parser) \<leftarrow> f (ms ! i) h parser; read_array f (ms[i := m]) is h parser }
      else None)"

definition cherry_uci_client_parse_twr_measurements ::
    "heap \<Rightarrow> session_ranging_data \<Rightarrow> twr_ranging_results \<Rightarrow>
     (int \<times> twr_ranging_results \<times> uci_message_parser) option" where
  "cherry_uci_client_parse_twr_measurements h data twr_results =
     do {
       let r = twr_results\<lparr>tr_sequence_number := rd_sequence_number data, tr_session_handle := rd_session_handle data,
                 tr_ranging_interval_ms := rd_ranging_interval_ms data,
                 tr_n_measurements := uint (rd_n_measurements data)\<rparr>;
       (ms, parser) \<leftarrow> read_array read_twr_measurement (tr_measurements r) [0..<unat (rd_n_measurements data)] h
                        (rd_parser data);
       Some (QERR_SUCCESS, r\<lparr>tr_measurements := ms\<rparr>, parser)
     }"

section \<open>Downlink TDoA\<close>

abbreviation (input) CHERRY_FIRA_MAX_ACTIVE_RR_REPORT :: nat where "CHERRY_FIRA_MAX_ACTIVE_RR_REPORT \<equiv> 16"
abbreviation (input) FIRA_DL_TDOA_ANCHOR_LOCATION_SIZE_MAX :: nat where "FIRA_DL_TDOA_ANCHOR_LOCATION_SIZE_MAX \<equiv> 19"
abbreviation (input) FIRA_OWR_DTM_TIMESTAMP_COMMON_TIME_BASE :: "16 word" where "FIRA_OWR_DTM_TIMESTAMP_COMMON_TIME_BASE \<equiv> 1"
abbreviation (input) FIRA_OWR_DTM_TIMESTAMP_40BITS :: "16 word" where "FIRA_OWR_DTM_TIMESTAMP_40BITS \<equiv> 0"
abbreviation (input) FIRA_DT_LOCATION_COORD_WGS84 :: byte where "FIRA_DT_LOCATION_COORD_WGS84 \<equiv> 0"
abbreviation (input) FIRA_DT_LOCATION_COORD_RELATIVE :: byte where "FIRA_DT_LOCATION_COORD_RELATIVE \<equiv> 1"
abbreviation (input) FIRA_DT_LOCATION_COORD_WGS84_WITH_Z :: byte where "FIRA_DT_LOCATION_COORD_WGS84_WITH_Z \<equiv> 2"
abbreviation (input) FIRA_DT_LOCATION_COORD_RELATIVE_WITH_Z :: byte where "FIRA_DT_LOCATION_COORD_RELATIVE_WITH_Z \<equiv> 3"

record cherry_fira_aoa_measurements =
  ca_aoa_fom :: byte
  ca_aoa :: "16 word"

record dt_tag_measurements =
  dm_short_addr :: "16 word"
  dm_frame_status :: cherry_common_frame_status
  dm_msg_type :: byte
  dm_n_rr_indexes :: nat
  dm_rr_indexes :: bytes
  dm_location :: anchor_location
  dm_block_index :: "16 word"
  dm_round_index :: byte
  dm_aoa_azimuth :: cherry_fira_aoa_measurements
  dm_aoa_elevation :: cherry_fira_aoa_measurements
  dm_nlos :: byte
  dm_rssi :: byte
  dm_common_time_base :: bool
  dm_tx_timestamp :: "64 word"
  dm_rx_timestamp :: "64 word"
  dm_cfo :: "16 word"
  dm_anchor_cfo :: "16 word"
  dm_initiator_reply_time :: "32 word"
  dm_responder_reply_time :: "32 word"
  dm_tof :: "16 word"

record dt_tag_ranging_report =
  dr_sequence_number :: "32 word"
  dr_n_measurements :: int
  dr_measurements :: "dt_tag_measurements list"

text \<open>Storing the fields of a location in the bytes of the union, given by offset and bytes.\<close>

primrec set_fields :: "bytes \<Rightarrow> (nat \<times> bytes) list \<Rightarrow> bytes option" where
  "set_fields d [] = Some d"
| "set_fields d (f # fs) = do { d \<leftarrow> write_buf d (fst f) (snd f); set_fields d fs }"

definition set_location :: "nat \<Rightarrow> (nat \<times> bytes) list \<Rightarrow> anchor_location \<Rightarrow> anchor_location option" where
  "set_location ty fs l = do { d \<leftarrow> set_fields (al_data l) fs; Some \<lparr>al_type = ty, al_data = d\<rparr> }"

text \<open>The coordinates: 64-bit values, stored in fields of 8, 8 and 4 or of 4 bytes.\<close>

definition wgs84_stores :: "bytes \<Rightarrow> (nat \<times> bytes) list" where
  "wgs84_stores loc =
     (case wgs84_coordinates loc of (x, y, z) \<Rightarrow>
        [(0, le_bytes 8 (le_value x :: 64 word)), (8, le_bytes 8 (le_value y :: 64 word)),
         (16, le_bytes 4 (le_value z :: 64 word))])"

definition relative_stores :: "bytes \<Rightarrow> (nat \<times> bytes) list" where
  "relative_stores loc =
     (case relative_coordinates loc of (x, y, z) \<Rightarrow>
        [(0, le_bytes 4 (le_value x :: 64 word)), (4, le_bytes 4 (le_value y :: 64 word)),
         (8, le_bytes 4 (le_value z :: 64 word))])"

text \<open>The floor, the movability, the height and its uncertainty, from the bytes after the coordinates.\<close>

definition z_ext_stores :: "bytes \<Rightarrow> nat \<Rightarrow> (nat \<times> bytes) list" where
  "z_ext_stores z off =
     [(off, le_bytes 2 (push_bit 6 (ucast (z ! 0)) + ucast (drop_bit 2 (z ! 1 AND 0xFC)) :: 16 word)),
      (off + 4, le_bytes 4 (ucast (z ! 1 AND 0x6) :: 32 word)),
      (off + 8, le_bytes 4 (push_bit 16 (ucast (z ! 2)) + push_bit 8 (ucast (z ! 3)) + ucast (z ! 4) :: 32 word)),
      (off + 12, [z ! 5])]"

definition parse_location_coor_wgs :: "bytes \<Rightarrow> anchor_location \<Rightarrow> anchor_location option" where
  "parse_location_coor_wgs arr = set_location CHERRY_FIRA_ANCHOR_LOCATION_TYPE_WGS84 (wgs84_stores (drop 1 arr))"

definition parse_location_coor_rel :: "bytes \<Rightarrow> anchor_location \<Rightarrow> anchor_location option" where
  "parse_location_coor_rel arr = set_location CHERRY_FIRA_ANCHOR_LOCATION_TYPE_REL (relative_stores (drop 1 arr))"

definition parse_location_coor_wgs_z_ext :: "bytes \<Rightarrow> anchor_location \<Rightarrow> anchor_location option" where
  "parse_location_coor_wgs_z_ext arr =
     set_location CHERRY_FIRA_ANCHOR_LOCATION_TYPE_WGS84_Z_EXT (wgs84_stores (drop 1 arr) @ z_ext_stores (drop 13 arr) 20)"

definition parse_location_coor_rel_z_ext :: "bytes \<Rightarrow> anchor_location \<Rightarrow> anchor_location option" where
  "parse_location_coor_rel_z_ext arr =
     set_location CHERRY_FIRA_ANCHOR_LOCATION_TYPE_REL_Z_EXT (relative_stores (drop 1 arr) @ z_ext_stores (drop 11 arr) 12)"

subsection \<open>First format\<close>

text \<open>
  \<^verbatim>\<open>uci_message_get\<close> into a local array, which keeps its other bytes.
\<close>

definition get_into :: "bytes \<Rightarrow> nat \<Rightarrow> bytes reader" where
  "get_into arr n h parser =
     do { (xs, parser) \<leftarrow> uci_message_get h parser n; arr \<leftarrow> write_buf arr 0 xs; Some (arr, parser) }"

definition read_timestamp :: "16 word \<Rightarrow> 64 word reader" where
  "read_timestamp len h parser =
     (if len = FIRA_OWR_DTM_TIMESTAMP_40BITS then uci_message_get_40bit h parser else uci_message_get_64bit h parser)"

text \<open>The location, as two bits of the message control say.\<close>

definition read_location :: "bytes \<Rightarrow> 16 word \<Rightarrow> anchor_location \<Rightarrow> (anchor_location \<times> bytes) reader" where
  "read_location arr kind l h parser =
     (if kind = 1 then
        do { (arr, parser) \<leftarrow> get_into arr 12 h parser;
             l \<leftarrow> set_location CHERRY_FIRA_ANCHOR_LOCATION_TYPE_WGS84 (wgs84_stores arr) l;
             Some ((l, arr), parser) }
      else if kind = 2 then
        do { (arr, parser) \<leftarrow> get_into arr 10 h parser;
             l \<leftarrow> set_location CHERRY_FIRA_ANCHOR_LOCATION_TYPE_REL (relative_stores arr) l;
             Some ((l, arr), parser) }
      else Some ((l\<lparr>al_type := CHERRY_FIRA_ANCHOR_LOCATION_TYPE_NONE\<rparr>, arr), parser))"

text \<open>
  One iteration of the loop. The local array \<open>arr\<close> of the location outlives the iterations, so it is
  carried along with the measurement.
\<close>

definition read_dltdoa_measurement :: "dt_tag_measurements \<Rightarrow> bytes \<Rightarrow> (dt_tag_measurements \<times> bytes) reader" where
  "read_dltdoa_measurement m arr h parser =
     do {
       (short_addr, parser) \<leftarrow> uci_message_get_16bit h parser;
       (status, parser) \<leftarrow> uci_message_get_8bit h parser;
       (msg_type, parser) \<leftarrow> uci_message_get_8bit h parser;
       (message_control, parser) \<leftarrow> uci_message_get_16bit h parser;
       (block_index, parser) \<leftarrow> uci_message_get_16bit h parser;
       (round_index, parser) \<leftarrow> uci_message_get_8bit h parser;
       (nlos, parser) \<leftarrow> uci_message_get_8bit h parser;
       (azimuth, parser) \<leftarrow> uci_message_get_16bit h parser;
       (azimuth_fom, parser) \<leftarrow> uci_message_get_8bit h parser;
       (elevation, parser) \<leftarrow> uci_message_get_16bit h parser;
       (elevation_fom, parser) \<leftarrow> uci_message_get_8bit h parser;
       (rssi, parser) \<leftarrow> uci_message_get_8bit h parser;
       (tx, parser) \<leftarrow> read_timestamp (drop_bit 1 message_control AND 0x3) h parser;
       (rx, parser) \<leftarrow> read_timestamp (drop_bit 3 message_control AND 0x3) h parser;
       (anchor_cfo, parser) \<leftarrow> uci_message_get_16bit h parser;
       (cfo, parser) \<leftarrow> uci_message_get_16bit h parser;
       (initiator_reply_time, parser) \<leftarrow> uci_message_get_32bit h parser;
       (responder_reply_time, parser) \<leftarrow> uci_message_get_32bit h parser;
       (tof, parser) \<leftarrow> uci_message_get_16bit h parser;
       ((location, arr), parser) \<leftarrow> read_location arr (drop_bit 5 message_control AND 0x3) (dm_location m) h parser;
       (rr_indexes, parser) \<leftarrow> get_into (replicate CHERRY_FIRA_MAX_ACTIVE_RR_REPORT 0)
                                 (unat (drop_bit 7 message_control AND 0xF)) h parser;
       Some ((\<lparr>dm_short_addr = short_addr, dm_frame_status = cherry_session_frame_status_to_cherry_format (unat status),
                dm_msg_type = msg_type, dm_n_rr_indexes = unat (drop_bit 7 message_control AND 0xF),
                dm_rr_indexes = rr_indexes, dm_location = location, dm_block_index = block_index,
                dm_round_index = round_index,
                dm_aoa_azimuth = \<lparr>ca_aoa_fom = azimuth_fom, ca_aoa = azimuth\<rparr>,
                dm_aoa_elevation = \<lparr>ca_aoa_fom = elevation_fom, ca_aoa = elevation\<rparr>,
                dm_nlos = nlos, dm_rssi = rssi,
                dm_common_time_base = (message_control AND 0x1 = FIRA_OWR_DTM_TIMESTAMP_COMMON_TIME_BASE),
                dm_tx_timestamp = tx, dm_rx_timestamp = rx, dm_cfo = cfo, dm_anchor_cfo = anchor_cfo,
                dm_initiator_reply_time = initiator_reply_time, dm_responder_reply_time = responder_reply_time,
                dm_tof = tof\<rparr>, arr), parser)
     }"

text \<open>The loop with a local array that is carried along.\<close>

fun read_array_local :: "('a \<Rightarrow> 'b \<Rightarrow> ('a \<times> 'b) reader) \<Rightarrow> 'a list \<Rightarrow> 'b \<Rightarrow> nat list \<Rightarrow> 'a list reader" where
  "read_array_local f ms arr [] h parser = Some (ms, parser)"
| "read_array_local f ms arr (i # is) h parser =
     (if i < length ms
      then do { ((m, arr), parser) \<leftarrow> f (ms ! i) arr h parser; read_array_local f (ms[i := m]) arr is h parser }
      else None)"

text \<open>\<open>stack\<close> is the content of the fresh local array \<^verbatim>\<open>anchor_location\<close>.\<close>

definition cherry_uci_client_parse_dltdoa_measurements ::
    "bytes \<Rightarrow> heap \<Rightarrow> session_ranging_data \<Rightarrow> dt_tag_ranging_report \<Rightarrow>
     (int \<times> dt_tag_ranging_report \<times> uci_message_parser) option" where
  "cherry_uci_client_parse_dltdoa_measurements stack h data dest =
     (let n = unat (rd_n_measurements data);
          dest = dest\<lparr>dr_sequence_number := rd_sequence_number data, dr_n_measurements := int n\<rparr>
      in if uci_message_remaining (rd_parser data) < 41 * n then Some (QERR_EINVAL, dest, rd_parser data)
         else do {
           (ms, parser) \<leftarrow> read_array_local read_dltdoa_measurement (dr_measurements dest)
                            (take FIRA_DL_TDOA_ANCHOR_LOCATION_SIZE_MAX stack) [0..<n] h (rd_parser data);
           Some (QERR_SUCCESS, dest\<lparr>dr_measurements := ms\<rparr>, parser)
         })"

subsection \<open>Second format\<close>

text \<open>
  The timestamps are read to the address that is the value of the field, not to the field: any byte that
  is stored there is outside of every object.
\<close>

definition get_wild :: "nat \<Rightarrow> unit reader" where
  "get_wild n h parser =
     do { (xs, parser) \<leftarrow> uci_message_get h parser n; if xs = [] then Some ((), parser) else None }"

text \<open>The list of round indexes and the location, when bits of the message control say that they follow.\<close>

definition read_rr_indexes_v2 :: "bool \<Rightarrow> nat \<times> bytes \<Rightarrow> (nat \<times> bytes) reader" where
  "read_rr_indexes_v2 present old h parser =
     (if present then
        do { (n, parser) \<leftarrow> uci_message_get_8bit h parser;
             (rr, parser) \<leftarrow> get_into (replicate CHERRY_FIRA_MAX_ACTIVE_RR_REPORT 0) (unat n) h parser;
             Some ((unat n, rr), parser) }
      else Some (old, parser))"

definition parse_location :: "bytes \<Rightarrow> anchor_location \<Rightarrow> anchor_location option" where
  "parse_location arr l =
     (if arr ! 0 = FIRA_DT_LOCATION_COORD_WGS84 then parse_location_coor_wgs arr l
      else if arr ! 0 = FIRA_DT_LOCATION_COORD_RELATIVE then parse_location_coor_rel arr l
      else if arr ! 0 = FIRA_DT_LOCATION_COORD_WGS84_WITH_Z then parse_location_coor_wgs_z_ext arr l
      else if arr ! 0 = FIRA_DT_LOCATION_COORD_RELATIVE_WITH_Z then parse_location_coor_rel_z_ext arr l
      else Some (l\<lparr>al_type := CHERRY_FIRA_ANCHOR_LOCATION_TYPE_NONE\<rparr>))"

definition read_location_v2 :: "bool \<Rightarrow> bytes \<Rightarrow> anchor_location \<Rightarrow> (anchor_location \<times> bytes) reader" where
  "read_location_v2 present arr l h parser =
     (if present then
        do { (len, parser) \<leftarrow> uci_message_get_8bit h parser;
             (arr, parser) \<leftarrow> get_into arr (unat len) h parser;
             l \<leftarrow> parse_location arr l;
             Some ((l, arr), parser) }
      else Some ((l, arr), parser))"

definition read_dltdoa_measurement_v2 :: "dt_tag_measurements \<Rightarrow> bytes \<Rightarrow> (dt_tag_measurements \<times> bytes) reader" where
  "read_dltdoa_measurement_v2 m arr h parser =
     do {
       (_, parser) \<leftarrow> uci_message_skip h parser 2;
       (short_addr, parser) \<leftarrow> uci_message_get_16bit h parser;
       (status, parser) \<leftarrow> uci_message_get_8bit h parser;
       (msg_type, parser) \<leftarrow> uci_message_get_8bit h parser;
       (block_index, parser) \<leftarrow> uci_message_get_16bit h parser;
       (round_index, parser) \<leftarrow> uci_message_get_8bit h parser;
       (nlos, parser) \<leftarrow> uci_message_get_8bit h parser;
       (azimuth, parser) \<leftarrow> uci_message_get_16bit h parser;
       (azimuth_fom, parser) \<leftarrow> uci_message_get_8bit h parser;
       (elevation, parser) \<leftarrow> uci_message_get_16bit h parser;
       (elevation_fom, parser) \<leftarrow> uci_message_get_8bit h parser;
       (rssi, parser) \<leftarrow> uci_message_get_8bit h parser;
       (anchor_cfo, parser) \<leftarrow> uci_message_get_16bit h parser;
       (cfo, parser) \<leftarrow> uci_message_get_16bit h parser;
       (initiator_reply_time, parser) \<leftarrow> uci_message_get_32bit h parser;
       (responder_reply_time, parser) \<leftarrow> uci_message_get_32bit h parser;
       (tof, parser) \<leftarrow> uci_message_get_16bit h parser;
       (len, parser) \<leftarrow> uci_message_get_8bit h parser;
       (_, parser) \<leftarrow> get_wild (unat len) h parser;
       (message_control, parser) \<leftarrow> uci_message_get_16bit h parser;
       (len, parser) \<leftarrow> uci_message_get_8bit h parser;
       (_, parser) \<leftarrow> get_wild (unat len) h parser;
       ((n_rr, rr), parser) \<leftarrow> read_rr_indexes_v2 (drop_bit 1 message_control AND 0x1 \<noteq> 0)
                                (dm_n_rr_indexes m, dm_rr_indexes m) h parser;
       ((location, arr), parser) \<leftarrow> read_location_v2 (drop_bit 2 message_control AND 0x1 \<noteq> 0) arr (dm_location m) h parser;
       Some ((m\<lparr>dm_short_addr := short_addr, dm_frame_status := cherry_session_frame_status_to_cherry_format (unat status),
                dm_msg_type := msg_type, dm_block_index := block_index, dm_round_index := round_index, dm_nlos := nlos,
                dm_aoa_azimuth := \<lparr>ca_aoa_fom = azimuth_fom, ca_aoa = azimuth\<rparr>,
                dm_aoa_elevation := \<lparr>ca_aoa_fom = elevation_fom, ca_aoa = elevation\<rparr>,
                dm_rssi := rssi, dm_anchor_cfo := anchor_cfo, dm_cfo := cfo,
                dm_initiator_reply_time := initiator_reply_time, dm_responder_reply_time := responder_reply_time,
                dm_tof := tof,
                dm_common_time_base := (message_control AND 0x1 = FIRA_OWR_DTM_TIMESTAMP_COMMON_TIME_BASE),
                dm_n_rr_indexes := n_rr, dm_rr_indexes := rr, dm_location := location\<rparr>, arr), parser)
     }"

definition cherry_uci_client_parse_dltdoa_measurements_v2 ::
    "bytes \<Rightarrow> heap \<Rightarrow> session_ranging_data \<Rightarrow> dt_tag_ranging_report \<Rightarrow>
     (int \<times> dt_tag_ranging_report \<times> uci_message_parser) option" where
  "cherry_uci_client_parse_dltdoa_measurements_v2 stack h data dest =
     (let n = unat (rd_n_measurements data);
          dest = dest\<lparr>dr_sequence_number := rd_sequence_number data, dr_n_measurements := int n\<rparr>
      in do {
           (ms, parser) \<leftarrow> read_array_local read_dltdoa_measurement_v2 (dr_measurements dest)
                            (take FIRA_DL_TDOA_ANCHOR_LOCATION_SIZE_MAX stack) [0..<n] h (rd_parser data);
           Some (QERR_SUCCESS, dest\<lparr>dr_measurements := ms\<rparr>, parser)
         })"

section \<open>Readers and decoders\<close>

definition dec_into :: "bytes \<Rightarrow> nat \<Rightarrow> bytes decoder" where
  "dec_into arr n bs = do { (xs, bs) \<leftarrow> dec_bytes n bs; arr \<leftarrow> write_buf arr 0 xs; Some (arr, bs) }"

lemma reads_into [reads_intros]: "reads (get_into arr n) (dec_into arr n)"
  unfolding get_into_def [abs_def] dec_into_def [abs_def] by (intro reads_intros)

lemma reads_timestamp [reads_intros]:
  "reads (read_timestamp len) (dec_le (if len = FIRA_OWR_DTM_TIMESTAMP_40BITS then 5 else 8))"
  unfolding read_timestamp_def [abs_def] using reads_40bit reads_64bit by simp

text \<open>An array is read by reading its elements in order.\<close>

fun dec_array :: "('a \<Rightarrow> 'a decoder) \<Rightarrow> 'a list \<Rightarrow> nat list \<Rightarrow> 'a list decoder" where
  "dec_array d ms [] bs = Some (ms, bs)"
| "dec_array d ms (i # is) bs =
     (if i < length ms then do { (m, bs) \<leftarrow> d (ms ! i) bs; dec_array d (ms[i := m]) is bs } else None)"

lemma reads_array:
  assumes "\<And>m. reads (f m) (d m)"
  shows "reads (read_array f ms is) (dec_array d ms is)"
proof (induction "is" arbitrary: ms)
  case Nil
  show ?case by (simp add: reads_return read_array.simps [abs_def])
next
  case (Cons i "is")
  show ?case
    unfolding read_array.simps [abs_def] dec_array.simps [abs_def] by (intro reads_intros assms Cons.IH)
qed

text \<open>Elements of a fixed width of \<open>w\<close> bytes, of which the first \<open>k\<close> have to be there.\<close>

definition fixed_decoder :: "nat \<Rightarrow> nat \<Rightarrow> ('a \<Rightarrow> bytes \<Rightarrow> 'a) \<Rightarrow> 'a \<Rightarrow> 'a decoder" where
  "fixed_decoder k w g m bs = (if k \<le> length bs then Some (g m bs, drop w bs) else None)"

lemma dec_array_fixed:
  assumes "0 < k" and "k \<le> w"
  shows "dec_array (fixed_decoder k w g) ms [j..<j + n] bs =
    (if n = 0 \<or> (j + n \<le> length ms \<and> w * n \<le> length bs + (w - k))
     then Some (take j ms @ map (\<lambda>i. g (ms ! (j + i)) (drop (w * i) bs)) [0..<n] @ drop (j + n) ms, drop (w * n) bs)
     else None)"
proof (induction n arbitrary: j ms bs)
  case (Suc n)
  have up: "[j..<j + Suc n] = j # [Suc j..<Suc j + n]" by (simp add: upt_rec)
  have "[0..<Suc n] = 0 # map Suc [0..<n]" by (simp add: upt_conv_Cons map_Suc_upt del: upt_Suc)
  then have map: "map (\<lambda>i. g (ms ! (j + i)) (drop (w * i) bs)) [0..<Suc n] =
      g (ms ! j) bs # map (\<lambda>i. g (ms ! (Suc j + i)) (drop (w * i) (drop w bs))) [0..<n]"
    by (simp add: comp_def add.commute)
  show ?case
  proof (cases "j < length ms \<and> k \<le> length bs")
    case True
    let ?ms = "ms[j := g (ms ! j) bs]"
    have "map (\<lambda>i. g (?ms ! (Suc j + i)) (drop (w * i) (drop w bs))) [0..<n] =
        map (\<lambda>i. g (ms ! (Suc j + i)) (drop (w * i) (drop w bs))) [0..<n]" by simp
    moreover have "n = 0 \<or> (Suc j + n \<le> length ms \<and> w * n \<le> length (drop w bs) + (w - k)) \<longleftrightarrow>
        j + Suc n \<le> length ms \<and> w * Suc n \<le> length bs + (w - k)"
    proof (cases n)
      case (Suc n')
      have "w \<le> w * n" using Suc by simp
      with True assms Suc show ?thesis by auto
    qed (use True assms in auto)
    ultimately show ?thesis
      unfolding up map using True Suc.IH [where j = "Suc j" and ms = ?ms and bs = "drop w bs"]
      by (simp add: fixed_decoder_def take_Suc_nth_append add.commute)
  next
    case False
    moreover have "w \<le> w * Suc n" by simp
    ultimately have "\<not> (j + Suc n \<le> length ms \<and> w * Suc n \<le> length bs + (w - k))" using assms by auto
    with False show ?thesis unfolding up by (auto simp: fixed_decoder_def)
  qed
qed simp

section \<open>Two-way ranging\<close>

text \<open>The fields of a measurement by their offset in its 31 bytes; the last 11 bytes are reserved.\<close>

definition twr_at :: "twr_ranging_measurements \<Rightarrow> bytes \<Rightarrow> twr_ranging_measurements" where
  "twr_at m bs = m\<lparr>tm_short_addr := le_value (take 2 bs), tm_status := bs ! 2, tm_nlos := bs ! 3,
     tm_distance_mm := uint (le_value (take 2 (drop 4 bs)) :: 16 word) * 10,
     tm_local_azimuth := (tm_local_azimuth m)\<lparr>am_aoa := le_value (take 2 (drop 6 bs)), am_aoa_fom := bs ! 8\<rparr>,
     tm_local_elevation := (tm_local_elevation m)\<lparr>am_aoa := le_value (take 2 (drop 9 bs)), am_aoa_fom := bs ! 11\<rparr>,
     tm_remote_aoa_azimuth := le_value (take 2 (drop 12 bs)), tm_remote_aoa_azimuth_fom := bs ! 14,
     tm_remote_aoa_elevation := le_value (take 2 (drop 15 bs)), tm_remote_aoa_elevation_fom := bs ! 17,
     tm_slot_index := bs ! 18, tm_rssi := bs ! 19\<rparr>"

lemma reads_twr_measurement: "reads (read_twr_measurement m) (fixed_decoder 20 31 twr_at m)"
  unfolding read_twr_measurement_def [abs_def]
proof (rule reads_at, (rule reads_intros)+, goal_cases)
  case (1 bs)
  show ?case
    unfolding dec_at fixed_decoder_def by (rule if_cong) (arith, simp_all add: twr_at_def eval_nat_numeral)
qed

lemma parse_twr:
  assumes rep: "parser_rep h (rd_parser data) bs" and n: "n = unat (rd_n_measurements data)"
  shows "if n = 0 \<or> (n \<le> length (tr_measurements res) \<and> 31 * n \<le> length bs + 11)
    then \<exists>p. cherry_uci_client_parse_twr_measurements h data res = Some (QERR_SUCCESS,
        \<lparr>tr_session_handle = rd_session_handle data, tr_sequence_number = rd_sequence_number data,
         tr_ranging_interval_ms = rd_ranging_interval_ms data, tr_n_measurements = int n,
         tr_measurements = map (\<lambda>i. twr_at (tr_measurements res ! i) (drop (31 * i) bs)) [0..<n] @
           drop n (tr_measurements res)\<rparr>, p) \<and> parser_rep h p (drop (31 * n) bs)
    else cherry_uci_client_parse_twr_measurements h data res = None"
proof -
  let ?ms = "tr_measurements res"
  have u: "uint (rd_n_measurements data) = int n" by (simp add: n)
  have reads: "reads (read_array read_twr_measurement ?ms [0..<n]) (dec_array (fixed_decoder 20 31 twr_at) ?ms [0..<n])"
    by (rule reads_array) (rule reads_twr_measurement)
  note dec = dec_array_fixed [of 20 31 twr_at ?ms 0 n bs, simplified]
  show ?thesis
  proof (cases "n = 0 \<or> (n \<le> length ?ms \<and> 31 * n \<le> length bs + 11)")
    case True
    with reads_Some [OF reads rep] dec obtain p where
      "read_array read_twr_measurement ?ms [0..<n] h (rd_parser data) = Some
        (map (\<lambda>i. twr_at (?ms ! i) (drop (31 * i) bs)) [0..<n] @ drop n ?ms, p)" "parser_rep h p (drop (31 * n) bs)"
      by auto
    with True show ?thesis
      by (simp add: cherry_uci_client_parse_twr_measurements_def u n [symmetric])
  next
    case False
    with reads_None [OF reads rep] dec show ?thesis
      by (simp add: cherry_uci_client_parse_twr_measurements_def n [symmetric])
  qed
qed

end
