(* ===== verification/Fira_Reports.thy ===== *)
theory Fira_Reports
  imports Fira_Measurements
begin

text \<open>
  What the functions of \<open>Fira_Measurements\<close> make of the bytes of a downlink TDoA notification: the
  first format is read as its layout says, for both widths of the timestamps and every form of the
  location; the check of its size is not sufficient; the second format cannot be read.
\<close>

section \<open>The layout of the first format\<close>

datatype anchor_place = No_Place | Geographic "64 word" "64 word" "64 word" | Relative "64 word" "64 word" "64 word"

record dltdoa_report =
  r_addr :: "16 word"
  r_status :: byte
  r_msg_type :: byte
  r_control :: "16 word"
  r_block :: "16 word"
  r_round :: byte
  r_nlos :: byte
  r_azimuth :: "16 word"
  r_azimuth_fom :: byte
  r_elevation :: "16 word"
  r_elevation_fom :: byte
  r_rssi :: byte
  r_tx :: "64 word"
  r_rx :: "64 word"
  r_anchor_cfo :: "16 word"
  r_cfo :: "16 word"
  r_initiator :: "32 word"
  r_responder :: "32 word"
  r_tof :: "16 word"
  r_place :: anchor_place
  r_rounds :: bytes

definition ts_len :: "16 word \<Rightarrow> nat" where
  "ts_len k = (if k AND 0x3 = FIRA_OWR_DTM_TIMESTAMP_40BITS then 5 else 8)"

fun place_bytes :: "anchor_place \<Rightarrow> bytes" where
  "place_bytes No_Place = []"
| "place_bytes (Geographic x y z) = pack_wgs84 (le_bytes 8 x, le_bytes 8 y, le_bytes 8 z)"
| "place_bytes (Relative x y z) = pack_relative (le_bytes 8 x, le_bytes 8 y, le_bytes 8 z)"

definition dltdoa_bytes :: "dltdoa_report \<Rightarrow> bytes" where
  "dltdoa_bytes r =
     le_bytes 2 (r_addr r) @ [r_status r, r_msg_type r] @ le_bytes 2 (r_control r) @ le_bytes 2 (r_block r) @
     [r_round r, r_nlos r] @ le_bytes 2 (r_azimuth r) @ [r_azimuth_fom r] @ le_bytes 2 (r_elevation r) @
     [r_elevation_fom r, r_rssi r] @ le_bytes (ts_len (drop_bit 1 (r_control r))) (r_tx r) @
     le_bytes (ts_len (drop_bit 3 (r_control r))) (r_rx r) @ le_bytes 2 (r_anchor_cfo r) @ le_bytes 2 (r_cfo r) @
     le_bytes 4 (r_initiator r) @ le_bytes 4 (r_responder r) @ le_bytes 2 (r_tof r) @ place_bytes (r_place r) @ r_rounds r"

text \<open>The message control announces the form of the location and the number of round indexes.\<close>

fun place_kind :: "anchor_place \<Rightarrow> 16 word \<Rightarrow> bool" where
  "place_kind No_Place k \<longleftrightarrow> k \<noteq> 1 \<and> k \<noteq> 2"
| "place_kind (Geographic x y z) k \<longleftrightarrow> k = 1"
| "place_kind (Relative x y z) k \<longleftrightarrow> k = 2"

definition dltdoa_ok :: "dltdoa_report \<Rightarrow> bool" where
  "dltdoa_ok r \<longleftrightarrow> place_kind (r_place r) (drop_bit 5 (r_control r) AND 0x3) \<and>
     length (r_rounds r) = unat (drop_bit 7 (r_control r) AND 0xF)"

text \<open>The measurement that stands for a report.\<close>

fun placed :: "anchor_location \<Rightarrow> anchor_place \<Rightarrow> bool" where
  "placed l No_Place \<longleftrightarrow> al_type l = CHERRY_FIRA_ANCHOR_LOCATION_TYPE_NONE"
| "placed l (Geographic x y z) \<longleftrightarrow> al_type l = CHERRY_FIRA_ANCHOR_LOCATION_TYPE_WGS84 \<and>
     field l 0 8 = Some (take_bit 33 x) \<and> field l 8 8 = Some (take_bit 33 y) \<and> field l 16 4 = Some (take_bit 30 z)"
| "placed l (Relative x y z) \<longleftrightarrow> al_type l = CHERRY_FIRA_ANCHOR_LOCATION_TYPE_REL \<and>
     field l 0 4 = Some (take_bit 28 x) \<and> field l 4 4 = Some (take_bit 28 y) \<and> field l 8 4 = Some (take_bit 24 z)"

definition reported :: "dt_tag_measurements \<Rightarrow> dltdoa_report \<Rightarrow> bool" where
  "reported m r \<longleftrightarrow>
     dm_short_addr m = r_addr r \<and> dm_frame_status m = cherry_session_frame_status_to_cherry_format (unat (r_status r)) \<and>
     dm_msg_type m = r_msg_type r \<and> dm_block_index m = r_block r \<and> dm_round_index m = r_round r \<and>
     dm_aoa_azimuth m = \<lparr>ca_aoa_fom = r_azimuth_fom r, ca_aoa = r_azimuth r\<rparr> \<and>
     dm_aoa_elevation m = \<lparr>ca_aoa_fom = r_elevation_fom r, ca_aoa = r_elevation r\<rparr> \<and>
     dm_nlos m = r_nlos r \<and> dm_rssi m = r_rssi r \<and> dm_common_time_base m = (r_control r AND 1 = 1) \<and>
     dm_tx_timestamp m = take_bit (8 * ts_len (drop_bit 1 (r_control r))) (r_tx r) \<and>
     dm_rx_timestamp m = take_bit (8 * ts_len (drop_bit 3 (r_control r))) (r_rx r) \<and>
     dm_cfo m = r_cfo r \<and> dm_anchor_cfo m = r_anchor_cfo r \<and> dm_initiator_reply_time m = r_initiator r \<and>
     dm_responder_reply_time m = r_responder r \<and> dm_tof m = r_tof r \<and> placed (dm_location m) (r_place r) \<and>
     dm_n_rr_indexes m = length (r_rounds r) \<and> take (length (r_rounds r)) (dm_rr_indexes m) = r_rounds r"

section \<open>Locations\<close>

lemma wgs84_stores_pack:
  fixes x y z :: "64 word"
  shows
  "wgs84_stores (pack_wgs84 (le_bytes 8 x, le_bytes 8 y, le_bytes 8 z) @ rest) =
     [(0, le_bytes 8 (take_bit 33 x)), (8, le_bytes 8 (take_bit 33 y)), (16, le_bytes 4 (take_bit 30 z))]"
proof -
  have "wgs84_coordinates (pack_wgs84 (le_bytes 8 x, le_bytes 8 y, le_bytes 8 z) @ rest) =
      wgs84_coordinates (pack_wgs84 (le_bytes 8 x, le_bytes 8 y, le_bytes 8 z))"
    by (simp add: wgs84_coordinates_def pack_wgs84_def)
  then show ?thesis
    by (simp add: wgs84_stores_def unpack_wgs84 coordinate_bits [unfolded One_nat_def] del: le_value.simps)
qed

lemma relative_stores_pack:
  fixes x y z :: "64 word"
  shows
  "relative_stores (pack_relative (le_bytes 8 x, le_bytes 8 y, le_bytes 8 z) @ rest) =
     [(0, le_bytes 4 (take_bit 28 x)), (4, le_bytes 4 (take_bit 28 y)), (8, le_bytes 4 (take_bit 24 z))]"
proof -
  have "relative_coordinates (pack_relative (le_bytes 8 x, le_bytes 8 y, le_bytes 8 z) @ rest) =
      relative_coordinates (pack_relative (le_bytes 8 x, le_bytes 8 y, le_bytes 8 z))"
    by (simp add: relative_coordinates_def pack_relative_def)
  then show ?thesis
    by (simp add: relative_stores_def unpack_relative coordinate_bits [unfolded One_nat_def] del: le_value.simps)
qed

lemma length_pack [simp]: "length (pack_wgs84 p) = 12" "length (pack_relative p) = 10"
  by (simp_all add: pack_wgs84_def pack_relative_def split: prod.split)

lemma set_location_wgs84:
  assumes "40 \<le> length (al_data l)" "length a = 8" "length b = 8" "length c = 4"
  shows "set_location t [(0, a), (8, b), (16, c)] l = Some \<lparr>al_type = t, al_data = a @ b @ c @ drop 20 (al_data l)\<rparr>"
  using assms by (simp add: set_location_def write_buf_def)

lemma set_location_relative:
  assumes "40 \<le> length (al_data l)" "length a = 4" "length b = 4" "length c = 4"
  shows "set_location t [(0, a), (4, b), (8, c)] l = Some \<lparr>al_type = t, al_data = a @ b @ c @ drop 12 (al_data l)\<rparr>"
  using assms by (simp add: set_location_def write_buf_def)

definition dec_location :: "bytes \<Rightarrow> 16 word \<Rightarrow> anchor_location \<Rightarrow> (anchor_location \<times> bytes) decoder" where
  "dec_location arr kind l bs =
     (if kind = 1 then
        do { (arr, bs) \<leftarrow> dec_into arr 12 bs;
             l \<leftarrow> set_location CHERRY_FIRA_ANCHOR_LOCATION_TYPE_WGS84 (wgs84_stores arr) l;
             Some ((l, arr), bs) }
      else if kind = 2 then
        do { (arr, bs) \<leftarrow> dec_into arr 10 bs;
             l \<leftarrow> set_location CHERRY_FIRA_ANCHOR_LOCATION_TYPE_REL (relative_stores arr) l;
             Some ((l, arr), bs) }
      else Some ((l\<lparr>al_type := CHERRY_FIRA_ANCHOR_LOCATION_TYPE_NONE\<rparr>, arr), bs))"

lemma reads_location [reads_intros]: "reads (read_location arr kind l) (dec_location arr kind l)"
  unfolding read_location_def [abs_def] dec_location_def [abs_def] by (intro reads_intros)

lemma dec_into_append:
  "length xs = n \<Longrightarrow> n \<le> length arr \<Longrightarrow> dec_into arr n (xs @ bs) = Some (xs @ drop n arr, bs)"
  by (simp add: dec_into_def write_buf_def)

lemma dec_location_layout:
  assumes "place_kind pl kind" and "40 \<le> length (al_data l)" and "19 \<le> length arr"
  shows "\<exists>l' arr'. (\<forall>bs. dec_location arr kind l (place_bytes pl @ bs) = Some ((l', arr'), bs)) \<and> placed l' pl \<and>
    19 \<le> length arr'"
proof (cases pl)
  case (Geographic x y z)
  with assms show ?thesis
    by (simp add: dec_location_def dec_into_append wgs84_stores_pack set_location_wgs84 field_def read_buf_def
        le_value_le_bytes_full le_value_le_bytes)
next
  case (Relative x y z)
  with assms show ?thesis
    by (simp add: dec_location_def dec_into_append relative_stores_pack set_location_relative field_def read_buf_def
        le_value_le_bytes)
qed (use assms in \<open>simp add: dec_location_def\<close>)

section \<open>One measurement\<close>

lemma take_append_self: "take (length xs) (xs @ ys) = xs"
  by simp

lemma dec_timestamp:
  "dec_le (if k AND 0x3 = 0 then 5 else 8) (le_bytes (ts_len k) v @ bs) = Some (take_bit (8 * ts_len k) v, bs)"
  by (simp add: dec_le_def ts_len_def le_value_le_bytes)

lemma read_dltdoa_layout:
  assumes rep: "parser_rep h p (dltdoa_bytes r @ rest)" and ok: "dltdoa_ok r"
    and loc: "40 \<le> length (al_data (dm_location m))" and arr: "19 \<le> length arr"
  shows "\<exists>m' arr' p'. read_dltdoa_measurement m arr h p = Some ((m', arr'), p') \<and> parser_rep h p' rest \<and>
    reported m' r \<and> 19 \<le> length arr'"
proof -
  let ?c = "r_control r"
  from ok have kind: "place_kind (r_place r) (drop_bit 5 ?c AND 0x3)"
    and rounds: "length (r_rounds r) = unat (drop_bit 7 ?c AND 0xF)" by (auto simp: dltdoa_ok_def)
  from dec_location_layout [OF kind loc arr] obtain l' arr' where
    l': "\<And>bs. dec_location arr (drop_bit 5 ?c AND 0x3) (dm_location m) (place_bytes (r_place r) @ bs) = Some ((l', arr'), bs)"
    "placed l' (r_place r)" "19 \<le> length arr'" by blast
  have small: "unat (drop_bit 7 ?c AND 0xF) < 16"
  proof -
    have "drop_bit 7 ?c AND 0xF \<le> 0xF" by (rule word_and_le1)
    then show ?thesis by (simp add: word_le_nat_alt)
  qed
  have rr: "dec_into (replicate 16 0) (unat (drop_bit 7 ?c AND 0xF)) (r_rounds r @ rest) =
      Some (r_rounds r @ drop (length (r_rounds r)) (replicate 16 0), rest)"
    using dec_into_append [of "r_rounds r" _ "replicate 16 0"] rounds small by simp
  have "\<exists>d. reads (read_dltdoa_measurement m arr) d \<and>
      (\<exists>m'. d (dltdoa_bytes r @ rest) = Some ((m', arr'), rest) \<and> reported m' r)"
    unfolding read_dltdoa_measurement_def [abs_def] dltdoa_bytes_def
  proof (rule exI, rule conjI, (rule reads_intros)+, goal_cases)
    case 1
    have d8: "dec_le 2 (le_bytes 2 (v :: 16 word) @ bs) = Some (v, bs)" "dec_le 4 (le_bytes 4 (w :: 32 word) @ bs) = Some (w, bs)" for v w bs
      by simp_all
    show ?case
      unfolding append.simps append_assoc dec_8_Cons bind.bind_lunit prod.case d8 dec_timestamp l'(1) rr
      by (rule exI, rule conjI, rule refl)
        (simp only: reported_def dt_tag_measurements.select_convs rounds [symmetric] l'(2) take_append_self simp_thms)
  qed
  then obtain d m' where d: "reads (read_dltdoa_measurement m arr) d"
    "d (dltdoa_bytes r @ rest) = Some ((m', arr'), rest)" "reported m' r" by blast
  from reads_Some [OF d(1) rep d(2)] d(3) l'(3) show ?thesis by blast
qed

section \<open>A notification\<close>

text \<open>
  The loop with a local array: when every element of a sequence of layouts is read, so is the sequence.
\<close>

lemma read_array_local_layout:
  assumes step: "\<And>m arr r h p rest. parser_rep h p (enc r @ rest) \<Longrightarrow> ok r \<Longrightarrow> fit m \<Longrightarrow> room arr \<Longrightarrow>
      \<exists>m' arr' p'. f m arr h p = Some ((m', arr'), p') \<and> parser_rep h p' rest \<and> shows_it m' r \<and> room arr'"
    and "parser_rep h p (concat (map enc rs) @ rest)" and "\<forall>r \<in> set rs. ok r" and "room arr"
    and "j + length rs \<le> length ms" and "\<forall>i < length rs. fit (ms ! (j + i))"
  shows "\<exists>ms' p'. read_array_local f ms arr [j..<j + length rs] h p = Some (ms', p') \<and> parser_rep h p' rest \<and>
    length ms' = length ms \<and> (\<forall>i < length rs. shows_it (ms' ! (j + i)) (rs ! i)) \<and> take j ms' = take j ms"
  using assms(2-)
proof (induction rs arbitrary: p arr j ms)
  case Nil
  then show ?case by simp
next
  case (Cons r rs)
  have up: "[j..<j + length (r # rs)] = j # [Suc j..<Suc j + length rs]" by (simp add: upt_rec)
  from Cons.prems have rep: "parser_rep h p (enc r @ (concat (map enc rs) @ rest))" and "ok r" "room arr"
    and fit: "fit (ms ! j)" by auto
  from step [OF rep this(2) fit this(3)] obtain m' arr' p' where
    m': "f (ms ! j) arr h p = Some ((m', arr'), p')" "parser_rep h p' (concat (map enc rs) @ rest)" "shows_it m' r" "room arr'"
    by blast
  have "\<forall>i < length rs. fit (ms[j := m'] ! (Suc j + i))" using Cons.prems(5) by force
  with Cons.IH [OF m'(2) _ m'(4), of "Suc j" "ms[j := m']"] Cons.prems obtain ms' p'' where
    ms': "read_array_local f (ms[j := m']) arr' [Suc j..<Suc j + length rs] h p' = Some (ms', p'')"
    "parser_rep h p'' rest" "length ms' = length ms" "\<forall>i < length rs. shows_it (ms' ! (Suc j + i)) (rs ! i)"
    "take (Suc j) ms' = take (Suc j) (ms[j := m'])" by auto
  have "ms' ! j = m'" using arg_cong [OF ms'(5), of "\<lambda>xs. xs ! j"] Cons.prems(4) by simp
  moreover have "take j ms' = take j ms" using arg_cong [OF ms'(5), of "take j"] by simp
  moreover have "shows_it (ms' ! (j + i)) ((r # rs) ! i)" if "i < Suc (length rs)" for i
    using that ms'(4) m'(3) \<open>ms' ! j = m'\<close> by (cases i) auto
  ultimately show ?case unfolding up using m'(1) ms'(1,2,3) Cons.prems(4) by auto
qed

lemma length_dltdoa_bytes: "41 \<le> length (dltdoa_bytes r)"
  by (simp add: dltdoa_bytes_def ts_len_def)

lemma length_reports: "41 * length rs \<le> length (concat (map dltdoa_bytes rs))"
proof (induction rs)
  case (Cons r rs)
  then show ?case using length_dltdoa_bytes [of r] by simp
qed simp

lemma parse_dltdoa:
  assumes rep: "parser_rep h (rd_parser data) (concat (map dltdoa_bytes rs) @ rest)" and ok: "\<forall>r \<in> set rs. dltdoa_ok r"
    and n: "unat (rd_n_measurements data) = length rs" and room: "length (dr_measurements dest) = length rs"
    and fit: "\<forall>m \<in> set (dr_measurements dest). 40 \<le> length (al_data (dm_location m))" and stack: "19 \<le> length stack"
  shows "\<exists>ms p. cherry_uci_client_parse_dltdoa_measurements stack h data dest =
      Some (QERR_SUCCESS, \<lparr>dr_sequence_number = rd_sequence_number data, dr_n_measurements = int (length rs),
        dr_measurements = ms\<rparr>, p) \<and> parser_rep h p rest \<and> list_all2 reported ms rs"
proof -
  have size: "41 * length rs \<le> uci_message_remaining (rd_parser data)"
    using length_reports [of rs] by (simp add: remaining_rep [OF rep])
  have "\<exists>ms p. read_array_local read_dltdoa_measurement (dr_measurements dest) (take 19 stack) [0..<0 + length rs] h
        (rd_parser data) = Some (ms, p) \<and> parser_rep h p rest \<and> length ms = length (dr_measurements dest) \<and>
      (\<forall>i < length rs. reported (ms ! (0 + i)) (rs ! i)) \<and> take 0 ms = take 0 (dr_measurements dest)"
    by (rule read_array_local_layout [where enc = dltdoa_bytes and ok = dltdoa_ok and room = "\<lambda>arr. 19 \<le> length arr"
          and fit = "\<lambda>m. 40 \<le> length (al_data (dm_location m))", OF read_dltdoa_layout rep ok])
      (use stack room fit in simp_all)
  then show ?thesis
    using size n room by (cases dest) (auto simp: cherry_uci_client_parse_dltdoa_measurements_def list_all2_conv_all_nth)
qed

text \<open>
  The check of the size asks for 41 bytes per measurement, which is the length of the shortest form. A
  measurement with a long timestamp of the transmission has at least 44 bytes; if it is shorter, the
  function runs into an assertion.
\<close>

lemmas position = dec_at add_0_right one_add_one one_plus_numeral numeral_plus_numeral add_num_simps

lemma dltdoa_short:
  assumes "length bs < 44" and long_tx: "drop_bit 1 (le_value (take 2 (drop 4 bs)) :: 16 word) AND 0x3 \<noteq> 0"
    and rep: "parser_rep h p bs"
  shows "read_dltdoa_measurement m arr h p = None"
proof -
  have "\<exists>d. reads (read_dltdoa_measurement m arr) d \<and> d (drop 0 bs) = None"
    unfolding read_dltdoa_measurement_def [abs_def]
  proof (rule exI, rule conjI, (rule reads_intros)+, goal_cases)
    case 1
    show ?case
    proof (cases "drop_bit 3 (le_value (take 2 (drop 4 bs)) :: 16 word) AND 0x3 = 0")
      case True
      show ?thesis
        by (simp only: position long_tx True if_False if_True simp_thms, rule if_not_P) (use assms(1) in linarith)
    next
      case False
      show ?thesis
        by (simp only: position long_tx False if_False if_True simp_thms, rule if_not_P) (use assms(1) in linarith)
    qed
  qed
  then obtain d where d: "reads (read_dltdoa_measurement m arr) d" "d bs = None" by auto
  from reads_None [OF d(1) rep d(2)] show ?thesis .
qed

lemma parse_dltdoa_short:
  assumes rep: "parser_rep h (rd_parser data) bs" and n: "rd_n_measurements data = 1"
    and len: "length bs < 44" and tx: "drop_bit 1 (le_value (take 2 (drop 4 bs)) :: 16 word) AND 0x3 \<noteq> 0"
    and size: "41 \<le> length bs"
  shows "cherry_uci_client_parse_dltdoa_measurements stack h data dest = None"
  using size dltdoa_short [OF len tx rep]
  by (auto simp: cherry_uci_client_parse_dltdoa_measurements_def n remaining_rep [OF rep] Let_def)

section \<open>The second format\<close>

lemma reads_wild [reads_intros]: "reads (get_wild n) (\<lambda>bs. if take n bs = [] then Some ((), drop n bs) else None)"
proof -
  have "reads (\<lambda>h p. Option.bind (uci_message_get h p n) (\<lambda>(xs, p). if xs = [] then Some ((), p) else None))
      (\<lambda>bs. Option.bind (dec_bytes n bs) (\<lambda>(xs, bs). if xs = [] then Some ((), bs) else None))"
    by (intro reads_intros)
  then show ?thesis by (simp add: get_wild_def [abs_def] dec_bytes_def)
qed

lemma reads_rr_indexes_v2 [reads_intros]:
  "reads (read_rr_indexes_v2 present old)
    (\<lambda>bs. if present
          then do { (n, bs) \<leftarrow> dec_8 bs; (rr, bs) \<leftarrow> dec_into (replicate CHERRY_FIRA_MAX_ACTIVE_RR_REPORT 0) (unat n) bs;
                    Some ((unat n, rr), bs) }
          else Some (old, bs))"
  unfolding read_rr_indexes_v2_def [abs_def] by (intro reads_intros)

lemma reads_location_v2 [reads_intros]:
  "reads (read_location_v2 present arr l)
    (\<lambda>bs. if present
          then do { (n, bs) \<leftarrow> dec_8 bs; (arr, bs) \<leftarrow> dec_into arr (unat n) bs; l \<leftarrow> parse_location arr l; Some ((l, arr), bs) }
          else Some ((l, arr), bs))"
  unfolding read_location_v2_def [abs_def] by (intro reads_intros)

lemma read_v2_timestamp:
  assumes rep: "parser_rep h p bs" and len: "bs ! 31 \<noteq> 0"
  shows "read_dltdoa_measurement_v2 m arr h p = None"
proof -
  have "unat (bs ! 31) \<noteq> 0" using len by (simp add: unat_eq_0)
  then have none: "take (unat (bs ! 31)) (drop 32 bs) = [] \<longleftrightarrow> length bs \<le> 32" by auto
  have "\<exists>d. reads (read_dltdoa_measurement_v2 m arr) d \<and> d (drop 0 bs) = None"
    unfolding read_dltdoa_measurement_v2_def [abs_def]
  proof (rule exI, rule conjI, (rule reads_intros)+, goal_cases)
    case 1
    show ?case by (simp only: position drop_drop, rule if_not_P) (use none in auto)
  qed
  then obtain d where d: "reads (read_dltdoa_measurement_v2 m arr) d" "d bs = None" by auto
  from reads_None [OF d(1) rep d(2)] show ?thesis .
qed

lemma parse_dltdoa_v2_timestamp:
  assumes rep: "parser_rep h (rd_parser data) bs" and n: "rd_n_measurements data \<noteq> 0" and len: "bs ! 31 \<noteq> 0"
  shows "cherry_uci_client_parse_dltdoa_measurements_v2 stack h data dest = None"
proof -
  from n have "0 < unat (rd_n_measurements data)" by (simp add: unat_gt_0)
  then have "[0..<unat (rd_n_measurements data)] = 0 # [1..<unat (rd_n_measurements data)]"
    by (simp add: upt_conv_Cons)
  then show ?thesis
    using read_v2_timestamp [OF rep len]
    by (auto simp: cherry_uci_client_parse_dltdoa_measurements_v2_def Let_def)
qed

end
