(* ===== verification/Qmalloc.thy ===== *)
theory Qmalloc
  imports Prelude "HOL-Library.Multiset"
begin

text \<open>
  The allocation functions of the operating system layer (\<^verbatim>\<open>qmalloc.h\<close>): every block has a prefix with
  its size and the quota it was taken from. \<open>malloc\<close> of the system is a schedule of failures.
  A pointer is the number of the allocation that returned it, so that no two blocks have the same one.
\<close>

section \<open>State and operations\<close>

abbreviation (input) MEM_QUOTA_ID_INFINITE :: nat where "MEM_QUOTA_ID_INFINITE \<equiv> 0"
abbreviation (input) MEM_QUOTA_ID_MAX :: nat where "MEM_QUOTA_ID_MAX \<equiv> 3"

text \<open>The magic number of the prefix of a block is right as long as the block lives.\<close>

record quota_alloc_prefix =
  qp_quota_id :: nat
  qp_size :: "16 word"

record qheap =
  allocation_quotas :: "32 word list"
  q_blocks :: "nat \<Rightarrow> quota_alloc_prefix option"
  q_next :: nat
  q_fails :: "nat \<Rightarrow> bool"

definition qmalloc_internal :: "qheap \<Rightarrow> nat option \<times> qheap" where
  "qmalloc_internal m =
     (if q_fails m (q_next m) then None else Some (q_next m), m\<lparr>q_next := Suc (q_next m)\<rparr>)"

definition charge :: "qheap \<Rightarrow> nat \<Rightarrow> 32 word \<Rightarrow> qheap" where
  "charge m qid d = m\<lparr>allocation_quotas := (allocation_quotas m)[qid := allocation_quotas m ! qid - d]\<rparr>"

definition set_prefix :: "qheap \<Rightarrow> nat \<Rightarrow> nat \<Rightarrow> nat \<Rightarrow> qheap" where
  "set_prefix m p qid n = m\<lparr>q_blocks := (q_blocks m)(p \<mapsto> \<lparr>qp_quota_id = qid, qp_size = of_nat n\<rparr>)\<rparr>"

definition qmalloc :: "qheap \<Rightarrow> nat \<Rightarrow> nat option \<times> qheap" where
  "qmalloc m n =
     (if n = 0 then (None, m)
      else case qmalloc_internal m of
        (None, m) \<Rightarrow> (None, m)
      | (Some p, m) \<Rightarrow>
          (Some p, charge (set_prefix m p MEM_QUOTA_ID_INFINITE n) MEM_QUOTA_ID_INFINITE (of_nat n)))"

definition qcalloc :: "qheap \<Rightarrow> nat \<Rightarrow> nat \<Rightarrow> nat option \<times> qheap" where
  "qcalloc m nb_items item_size = qmalloc m (nb_items * item_size mod 2 ^ 64)"

definition qmalloc_quota :: "qheap \<Rightarrow> nat \<Rightarrow> nat \<Rightarrow> (nat option \<times> qheap) option" where
  "qmalloc_quota m n qid =
     (if n = 0 then Some (None, m)
      else if qid \<ge> MEM_QUOTA_ID_MAX then None
      else if unat (allocation_quotas m ! qid) < n then Some (None, m)
      else case qmalloc_internal m of
        (None, m) \<Rightarrow> Some (None, m)
      | (Some p, m) \<Rightarrow> Some (Some p, charge (set_prefix m p qid n) qid (of_nat n)))"

definition qcalloc_quota :: "qheap \<Rightarrow> nat \<Rightarrow> nat \<Rightarrow> nat \<Rightarrow> (nat option \<times> qheap) option" where
  "qcalloc_quota m nb_items item_size qid = qmalloc_quota m (nb_items * item_size mod 2 ^ 64) qid"

text \<open>Freeing what is not a block fails an assertion on the prefix, or worse.\<close>

definition qfree :: "qheap \<Rightarrow> nat option \<Rightarrow> qheap option" where
  "qfree m ptr =
     (case ptr of
        None \<Rightarrow> Some m
      | Some p \<Rightarrow>
          do { q \<leftarrow> q_blocks m p;
               let m = charge m (qp_quota_id q) (- ucast (qp_size q));
               Some (m\<lparr>q_blocks := (q_blocks m)(p := None)\<rparr>) })"

text \<open>
  Resizing: the difference of the sizes is an \<^verbatim>\<open>int\<close>. A block that the system could move is a new block.
  When the system fails, the old block stays; when the new size is 0, its size is not given back.
\<close>

definition qrealloc :: "qheap \<Rightarrow> nat option \<Rightarrow> nat \<Rightarrow> (nat option \<times> qheap) option" where
  "qrealloc m ptr new_size =
     do {
       q \<leftarrow> (case ptr of None \<Rightarrow> Some None | Some p \<Rightarrow> do { q \<leftarrow> q_blocks m p; Some (Some q) });
       let old_size = (case q of None \<Rightarrow> 0 | Some q \<Rightarrow> qp_size q);
       let qid = (case q of None \<Rightarrow> MEM_QUOTA_ID_INFINITE | Some q \<Rightarrow> qp_quota_id q);
       let sdiff = sint (of_nat new_size - ucast old_size :: 32 word);
       let without = (\<lambda>m. case ptr of None \<Rightarrow> m | Some p \<Rightarrow> m\<lparr>q_blocks := (q_blocks m)(p := None)\<rparr>);
       if new_size = 0 then Some (None, without m)
       else if qid \<ge> MEM_QUOTA_ID_MAX then None
       else if sdiff < 0 \<or> int (unat (allocation_quotas m ! qid)) \<ge> sdiff then
         (case qmalloc_internal m of
            (Some p, m) \<Rightarrow> Some (Some p, charge (set_prefix (without m) p qid new_size) qid (of_int sdiff))
          | (None, m) \<Rightarrow> Some (None, charge m qid (- ucast old_size)))
       else if q \<noteq> None then Some (None, charge (without m) qid (- ucast old_size))
       else Some (None, m)
     }"

section \<open>Accounts\<close>

text \<open>The bytes of the living blocks of a quota, as their prefixes count them.\<close>

definition share :: "nat \<Rightarrow> quota_alloc_prefix option \<Rightarrow> nat" where
  "share qid q = (case q of None \<Rightarrow> 0 | Some q \<Rightarrow> if qp_quota_id q = qid then unat (qp_size q) else 0)"

definition held :: "qheap \<Rightarrow> nat \<Rightarrow> nat" where
  "held m qid = (\<Sum>p \<in> dom (q_blocks m). share qid (q_blocks m p))"

definition heap_ok :: "qheap \<Rightarrow> bool" where
  "heap_ok m \<longleftrightarrow> finite (dom (q_blocks m)) \<and> (\<forall>p \<in> dom (q_blocks m). p < q_next m)"

text \<open>What is left of a limited quota and what its blocks hold is the limit.\<close>

definition quotas_ok :: "(nat \<Rightarrow> nat) \<Rightarrow> qheap \<Rightarrow> bool" where
  "quotas_ok limit m \<longleftrightarrow> heap_ok m \<and> length (allocation_quotas m) = MEM_QUOTA_ID_MAX \<and>
     (\<forall>q \<in> ran (q_blocks m). qp_quota_id q < MEM_QUOTA_ID_MAX) \<and>
     (\<forall>qid. 0 < qid \<and> qid < MEM_QUOTA_ID_MAX \<longrightarrow>
        limit qid < 2 ^ 32 \<and> unat (allocation_quotas m ! qid) + held m qid = limit qid)"

lemma held_simps [simp]:
  "held (charge m i d) qid = held m qid" "held (m\<lparr>q_next := n\<rparr>) qid = held m qid"
  by (simp_all add: held_def charge_def)

lemma heap_simps [simp]:
  "q_blocks (charge m i d) = q_blocks m" "q_next (charge m i d) = q_next m" "q_fails (charge m i d) = q_fails m"
  "allocation_quotas (charge m i d) = (allocation_quotas m)[i := allocation_quotas m ! i - d]"
  "allocation_quotas (set_prefix m p i n) = allocation_quotas m" "q_next (set_prefix m p i n) = q_next m"
  "q_blocks (set_prefix m p i n) = (q_blocks m)(p \<mapsto> \<lparr>qp_quota_id = i, qp_size = of_nat n\<rparr>)"
  "q_fails (set_prefix m p i n) = q_fails m"
  by (simp_all add: charge_def set_prefix_def)

lemma held_insert:
  assumes "finite (dom (q_blocks m))" and "q_blocks m p = None"
  shows "held (m\<lparr>q_blocks := (q_blocks m)(p \<mapsto> q)\<rparr>) qid = held m qid + share qid (Some q)"
proof -
  have p: "p \<notin> dom (q_blocks m)" using assms(2) by auto
  then have "(\<Sum>x \<in> dom (q_blocks m). share qid (((q_blocks m)(p \<mapsto> q)) x)) = held m qid"
    unfolding held_def by (intro sum.cong) auto
  with p assms(1) show ?thesis by (simp add: held_def del: fun_upd_apply) simp
qed

lemma held_remove:
  assumes "finite (dom (q_blocks m))" and "q_blocks m p = Some q"
  shows "held m qid = held (m\<lparr>q_blocks := (q_blocks m)(p := None)\<rparr>) qid + share qid (Some q)"
proof -
  let ?m = "m\<lparr>q_blocks := (q_blocks m)(p := None)\<rparr>"
  have "m = ?m\<lparr>q_blocks := (q_blocks ?m)(p \<mapsto> q)\<rparr>" using assms(2) by (simp add: fun_upd_idem)
  moreover have "finite (dom (q_blocks ?m))" "q_blocks ?m p = None" using assms(1) by auto
  ultimately show ?thesis using held_insert by metis
qed

text \<open>Allocating takes from the quota and freeing gives back, for blocks that fit the field of the size.\<close>

lemma quota_take_ok:
  assumes ok: "quotas_ok L m" and n: "n < 65536" and qid: "qid < 3" "qid = 0 \<or> n \<le> unat (allocation_quotas m ! qid)"
    and p: "p = q_next m"
  shows "quotas_ok L (charge (set_prefix (m\<lparr>q_next := Suc p\<rparr>) p qid n) qid (of_nat n))" (is "quotas_ok L ?m")
proof -
  have fin: "finite (dom (q_blocks m))" and new: "q_blocks m p = None"
    using ok p by (auto simp: quotas_ok_def heap_ok_def)
  have held: "held ?m i = held m i + (if i = qid then n else 0)" for i
    using held_insert [OF fin new, of "\<lparr>qp_quota_id = qid, qp_size = of_nat n\<rparr>" i] n
    by (auto simp: set_prefix_def held_def charge_def share_def unat_of_nat take_bit_nat_eq_self)
  have u: "unat (of_nat n :: 32 word) = n" using n by (simp add: unat_of_nat take_bit_nat_eq_self)
  have "unat (allocation_quotas m ! qid - of_nat n) + n = unat (allocation_quotas m ! qid)" if "qid \<noteq> 0"
    using qid(2) that u by (metis le_add_diff_inverse2 unat_sub word_le_nat_alt)
  moreover have "length (allocation_quotas m) = 3" using ok by (simp add: quotas_ok_def)
  ultimately have "unat (allocation_quotas ?m ! i) + held ?m i = unat (allocation_quotas m ! i) + held m i"
    if "0 < i" "i < 3" for i using that qid(1) held by (cases "i = qid") auto
  then show ?thesis using ok p qid(1) by (auto simp: quotas_ok_def heap_ok_def ran_def less_Suc_eq split: if_splits)
qed

lemma quotas_ok_next: "quotas_ok L m \<Longrightarrow> quotas_ok L (m\<lparr>q_next := Suc (q_next m)\<rparr>)"
  by (auto simp: quotas_ok_def heap_ok_def less_Suc_eq)

lemma qmalloc_ok: "quotas_ok L m \<Longrightarrow> n < 65536 \<Longrightarrow> quotas_ok L (snd (qmalloc m n))"
  using quota_take_ok [of L m n 0] quotas_ok_next [of L m]
  by (auto simp: qmalloc_def qmalloc_internal_def)

lemma qmalloc_quota_ok:
  "quotas_ok L m \<Longrightarrow> n < 65536 \<Longrightarrow> qmalloc_quota m n qid = Some (r, m') \<Longrightarrow> quotas_ok L m'"
  using quota_take_ok [of L m n qid] quotas_ok_next [of L m]
  by (auto simp: qmalloc_quota_def qmalloc_internal_def split: if_splits)

lemma unat_size [simp]: "unat (ucast (n :: 16 word) :: 32 word) = unat n"
proof -
  have "unat n < 2 ^ 32" by (rule order.strict_trans2 [OF unsigned_less]) simp
  then show ?thesis by (simp add: unsigned_ucast_eq take_bit_nat_eq_self)
qed

lemma qfree_ok:
  assumes ok: "quotas_ok L m" and run: "qfree m ptr = Some m'"
  shows "quotas_ok L m'"
proof (cases ptr)
  case None
  with ok run show ?thesis by (simp add: qfree_def)
next
  case (Some p)
  with run obtain q where q: "q_blocks m p = Some q" and
    m': "m' = charge (m\<lparr>q_blocks := (q_blocks m)(p := None)\<rparr>) (qp_quota_id q) (- ucast (qp_size q))"
    by (auto simp: qfree_def charge_def bind_Some_iff)
  have fin: "finite (dom (q_blocks m))" using ok by (simp add: quotas_ok_def heap_ok_def)
  have qid: "qp_quota_id q < 3" "length (allocation_quotas m) = 3" using ok q by (auto simp: quotas_ok_def ran_def)
  have "unat (allocation_quotas m' ! i) + held m' i = unat (allocation_quotas m ! i) + held m i"
    if i: "0 < i" "i < 3" for i
  proof (cases "i = qp_quota_id q")
    case True
    have h: "held m i = held m' i + unat (qp_size q)"
      using held_remove [OF fin q, of i] True by (simp add: m' share_def)
    have "unat (allocation_quotas m ! i) + held m i = L i" "L i < 2 ^ 32" using ok i by (simp_all add: quotas_ok_def)
    with h have "unat (allocation_quotas m ! i) + unat (qp_size q) < 2 ^ 32" by linarith
    then have "unat (allocation_quotas m ! i + ucast (qp_size q)) = unat (allocation_quotas m ! i) + unat (qp_size q)"
      by (simp add: unat_add_lem [THEN iffD1])
    with h True qid show ?thesis by (simp add: m')
  next
    case False
    then show ?thesis using held_remove [OF fin q, of i] by (auto simp: m' share_def)
  qed
  then show ?thesis using ok by (auto simp: quotas_ok_def heap_ok_def m' ran_def split: if_splits)
qed

text \<open>Any sequence of operations keeps the accounts.\<close>

datatype qop = Q_Malloc nat | Q_Malloc_Quota nat nat | Q_Free "nat option"

fun qop_size :: "qop \<Rightarrow> nat" where
  "qop_size (Q_Malloc n) = n"
| "qop_size (Q_Malloc_Quota n qid) = n"
| "qop_size (Q_Free p) = 0"

fun run_qops :: "qheap \<Rightarrow> qop list \<Rightarrow> qheap option" where
  "run_qops m [] = Some m"
| "run_qops m (Q_Malloc n # ops) = run_qops (snd (qmalloc m n)) ops"
| "run_qops m (Q_Malloc_Quota n qid # ops) = do { (p, m) \<leftarrow> qmalloc_quota m n qid; run_qops m ops }"
| "run_qops m (Q_Free p # ops) = do { m \<leftarrow> qfree m p; run_qops m ops }"

lemma run_qops_ok:
  "quotas_ok L m \<Longrightarrow> run_qops m ops = Some m' \<Longrightarrow> \<forall>x \<in> set ops. qop_size x < 65536 \<Longrightarrow> quotas_ok L m'"
proof (induction m ops rule: run_qops.induct)
  case (2 m n ops)
  then show ?case using qmalloc_ok [of L m n] by simp
next
  case (3 m n qid ops)
  then show ?case using qmalloc_quota_ok by (auto simp: bind_eq_Some_conv)
next
  case (4 m p ops)
  then show ?case using qfree_ok by (auto simp: bind_eq_Some_conv)
qed simp

section \<open>Blocks\<close>

text \<open>What a client of the allocation functions sees: the blocks that live.\<close>

definition blocks :: "qheap \<Rightarrow> nat multiset" where
  "blocks m = mset_set (dom (q_blocks m))"

lemma qmalloc_blocks:
  assumes "heap_ok m" and "qmalloc m n = (r, m')"
  shows "heap_ok m' \<and> blocks m' = blocks m + (case r of None \<Rightarrow> {#} | Some p \<Rightarrow> {#p#}) \<and> q_fails m' = q_fails m"
proof (cases r)
  case None
  with assms show ?thesis
    by (auto simp: qmalloc_def qmalloc_internal_def heap_ok_def blocks_def less_Suc_eq split: if_splits)
next
  case (Some p)
  have "q_next m \<notin> dom (q_blocks m)" "finite (dom (q_blocks m))" using assms(1) by (auto simp: heap_ok_def)
  from mset_set.insert [OF this(2,1)] Some assms show ?thesis
    by (auto simp: qmalloc_def qmalloc_internal_def heap_ok_def blocks_def less_Suc_eq simp del: mset_set.insert
        split: if_splits)
qed

lemmas qcalloc_blocks = qmalloc_blocks [of _ "_ * _ mod 2 ^ 64", folded qcalloc_def]

lemma qfree_blocks:
  assumes "heap_ok m" and "p \<in># blocks m"
  shows "\<exists>m'. qfree m (Some p) = Some m' \<and> heap_ok m' \<and> blocks m' = blocks m - {#p#} \<and> q_fails m' = q_fails m"
proof -
  have fin: "finite (dom (q_blocks m))" using assms(1) by (simp add: heap_ok_def)
  with assms(2) obtain q where q: "q_blocks m p = Some q" by (auto simp: blocks_def)
  then have "mset_set (dom (q_blocks m) - {p}) = mset_set (dom (q_blocks m)) - {#p#}"
    using mset_set_Diff [OF fin, of "{p}"] by (simp add: domI)
  with q assms(1) show ?thesis by (simp add: qfree_def blocks_def heap_ok_def Let_def charge_def)
qed

lemma qfree_dead: "heap_ok m \<Longrightarrow> p \<notin># blocks m \<Longrightarrow> qfree m (Some p) = None"
  by (auto simp: qfree_def blocks_def heap_ok_def split: bind_splits)

lemma qfree_null [simp]: "qfree m None = Some m"
  by (simp add: qfree_def)

lemma blocks_unique: "heap_ok m \<Longrightarrow> count (blocks m) p \<le> 1"
  by (auto simp: blocks_def count_mset_set')

lemma size_difference:
  assumes "n < 2 ^ 31"
  shows "sint (of_nat n - ucast (s :: 16 word) :: 32 word) = int n - int (unat s)"
proof -
  define k where "k = int n - uint s"
  have "int n < 2 ^ 31" using assms by simp
  then have "k < 2 ^ 31" using uint_ge_0 [of s] unfolding k_def by linarith
  moreover have "- (2 ^ 31) \<le> k" using uint_lt2p [of s] by (simp add: k_def)
  ultimately have "sint (of_int k :: 32 word) = k" by (simp add: signed_of_int signed_take_bit_int_eq_self)
  moreover have "(of_nat n - ucast s :: 32 word) = of_int k"
    by (simp add: k_def ucast_eq [symmetric] del: of_int_uint)
  ultimately show ?thesis by (simp only: k_def uint_nat)
qed

text \<open>The account of the quota without a limit has 32 bits: what is left of it.\<close>

definition room :: "qheap \<Rightarrow> nat \<Rightarrow> bool" where
  "room m k \<longleftrightarrow> allocation_quotas m \<noteq> [] \<and> k \<le> unat (allocation_quotas m ! 0)"

lemma room_mono: "room m k \<Longrightarrow> j \<le> k \<Longrightarrow> room m j"
  by (simp add: room_def)

lemma charge_room:
  assumes "room m (k + n)"
  shows "room (charge m 0 (of_nat n)) k"
proof -
  let ?a = "allocation_quotas m ! 0"
  have "unat ?a < 2 ^ 32" by (rule order.strict_trans2 [OF unsigned_less]) simp
  then have n: "n \<le> unat ?a" "n < 2 ^ 32" using assms by (auto simp: room_def)
  then have "(of_nat n :: 32 word) \<le> ?a" by (simp add: word_le_nat_alt unat_of_nat)
  then have "unat (?a - of_nat n) = unat ?a - n" using n by (simp add: unat_sub unat_of_nat)
  with assms show ?thesis by (auto simp: room_def charge_def)
qed

lemma qmalloc_room:
  assumes "room m (k + n)" and "qmalloc m n = (r, m')"
  shows "room m' k"
proof -
  have *: "room (charge (set_prefix (m\<lparr>q_next := i\<rparr>) p q s) 0 (of_nat n)) k" for i p q s
    using assms(1) by (intro charge_room) (simp add: room_def set_prefix_def)
  have "room m k" "room (m\<lparr>q_next := i\<rparr>) k" for i using assms(1) by (simp_all add: room_def)
  with assms(2) * show ?thesis by (auto simp: qmalloc_def qmalloc_internal_def split: if_splits)
qed

text \<open>
  Growing a block of the quota without a limit, while there is room: a block with its new size and prefix, or
  the old one when the system fails.
\<close>

lemma blocks_replace:
  assumes "heap_ok m" and "case ptr of None \<Rightarrow> True | Some p \<Rightarrow> p \<in> dom (q_blocks m)"
  shows "blocks (m\<lparr>q_blocks := (case ptr of None \<Rightarrow> q_blocks m | Some p \<Rightarrow> (q_blocks m)(p := None))(q_next m \<mapsto> x)\<rparr>) =
    blocks m - (case ptr of None \<Rightarrow> {#} | Some p \<Rightarrow> {#p#}) + {#q_next m#}"
proof -
  have fin: "finite (dom (q_blocks m))" "q_next m \<notin> dom (q_blocks m)" using assms(1) by (auto simp: heap_ok_def)
  show ?thesis
  proof (cases ptr)
    case None
    with mset_set.insert [OF fin] show ?thesis by (simp add: blocks_def del: mset_set.insert)
  next
    case (Some p)
    let ?D = "dom (q_blocks m) - {p}"
    have D: "mset_set ?D = mset_set (dom (q_blocks m)) - {#p#}"
      using mset_set_Diff [OF fin(1), of "{p}"] assms(2) Some by simp
    have "finite ?D" "q_next m \<notin> ?D" using fin by auto
    from mset_set.insert [OF this] Some show ?thesis
      by (simp add: blocks_def D [symmetric] insert_Diff_if del: mset_set.insert)
  qed
qed

lemma qrealloc_grow:
  assumes ok: "heap_ok m" and old: "case ptr of None \<Rightarrow> old = 0
      | Some p \<Rightarrow> q_blocks m p = Some \<lparr>qp_quota_id = 0, qp_size = of_nat old\<rparr>"
    and n: "old < n" "n < 65536" and room: "room m (k + n)"
  shows "\<exists>r m'. qrealloc m ptr n = Some (r, m') \<and> heap_ok m' \<and> q_fails m' = q_fails m \<and>
    (case r of
       None \<Rightarrow> blocks m' = blocks m \<and> q_fails m (q_next m)
     | Some p' \<Rightarrow> blocks m' = blocks m - (case ptr of None \<Rightarrow> {#} | Some p \<Rightarrow> {#p#}) + {#p'#} \<and>
         \<not> q_fails m (q_next m) \<and> p' = q_next m \<and> room m' k \<and> q_blocks m' p' = Some \<lparr>qp_quota_id = 0, qp_size = of_nat n\<rparr>)"
proof -
  define s :: "16 word" where "s = (case ptr of None \<Rightarrow> 0 | Some p \<Rightarrow> of_nat old)"
  have s: "unat s = old" using old n by (cases ptr) (auto simp: s_def unat_of_nat)
  have d: "sint (of_nat n - ucast s :: 32 word) = int (n - old)"
    using size_difference [of n s] n by (simp add: s)
  have r: "int (n - old) \<le> int (unat (allocation_quotas m ! 0))" "room m (k + (n - old))"
    using room n unfolding room_def of_nat_le_iff by auto
  let ?B = "case ptr of None \<Rightarrow> q_blocks m | Some p \<Rightarrow> (q_blocks m)(p := None)"
  let ?m1 = "m\<lparr>q_next := Suc (q_next m)\<rparr>"
  let ?m2 = "charge (m\<lparr>q_next := Suc (q_next m),
    q_blocks := ?B(q_next m \<mapsto> \<lparr>qp_quota_id = 0, qp_size = of_nat n\<rparr>)\<rparr>) 0 (of_nat (n - old))"
  have run: "qrealloc m ptr n = Some (if q_fails m (q_next m) then (None, charge ?m1 0 (- ucast s)) else (Some (q_next m), ?m2))"
  proof (cases ptr)
    case None
    with n d r(1) show ?thesis
      by (simp add: qrealloc_def qmalloc_internal_def set_prefix_def s_def)
  next
    case (Some p)
    with n d r(1) old show ?thesis
      by (simp add: qrealloc_def qmalloc_internal_def set_prefix_def s_def)
  qed
  show ?thesis
  proof (cases "q_fails m (q_next m)")
    case True
    have "heap_ok (charge ?m1 0 (- ucast s))" unfolding heap_ok_def heap_simps using ok [unfolded heap_ok_def] by (auto intro: less_SucI)
    with run True show ?thesis by (simp add: blocks_def)
  next
    case False
    have old': "case ptr of None \<Rightarrow> True | Some p \<Rightarrow> p \<in> dom (q_blocks m)" using old by (cases ptr) auto
    have "room ?m2 k" using r(2) by (intro charge_room) (simp add: room_def)
    moreover have "heap_ok ?m2" using ok by (cases ptr) (auto simp: heap_ok_def less_Suc_eq)
    moreover have "blocks ?m2 = blocks m - (case ptr of None \<Rightarrow> {#} | Some p \<Rightarrow> {#p#}) + {#q_next m#}"
      using blocks_replace [OF ok old'] by (simp add: blocks_def)
    ultimately show ?thesis using run False by (simp add: charge_def)
  qed
qed

text \<open>A pointer to an object with its content, and the functions that free a set of blocks.\<close>

definition opt_block :: "(nat \<times> 'a) option \<Rightarrow> nat multiset" where
  "opt_block x = (case x of None \<Rightarrow> {#} | Some (p, _) \<Rightarrow> {#p#})"

lemma opt_block_simps [simp]: "opt_block None = {#}" "opt_block (Some (p, x)) = {#p#}"
  by (simp_all add: opt_block_def)

definition frees :: "(qheap \<Rightarrow> qheap option) \<Rightarrow> nat multiset \<Rightarrow> bool" where
  "frees f X \<longleftrightarrow> (\<forall>m. heap_ok m \<longrightarrow> X \<subseteq># blocks m \<longrightarrow>
     (\<exists>m'. f m = Some m' \<and> heap_ok m' \<and> blocks m' = blocks m - X \<and> q_fails m' = q_fails m))"

named_theorems frees_intros \<open>functions that free and the blocks they free\<close>

lemma frees_nothing [frees_intros]: "frees Some {#}"
  by (simp add: frees_def)

lemma frees_bind [frees_intros]:
  assumes "frees f X" and "frees g Y"
  shows "frees (\<lambda>m. Option.bind (f m) g) (X + Y)"
  unfolding frees_def
proof (intro allI impI)
  fix m
  assume ok: "heap_ok m" and sub: "X + Y \<subseteq># blocks m"
  then have "X \<subseteq># blocks m" by (meson mset_subset_eq_add_left subset_mset.order_trans)
  with assms(1) ok obtain m1 where 1: "f m = Some m1" "heap_ok m1" "blocks m1 = blocks m - X" "q_fails m1 = q_fails m"
    unfolding frees_def by blast
  with sub have "Y \<subseteq># blocks m1" by (metis add.commute subset_eq_diff_conv subset_mset.le_diff_conv2
        mset_subset_eq_add_left subset_mset.order_trans)
  with assms(2) 1 obtain m2 where "g m1 = Some m2" "heap_ok m2" "blocks m2 = blocks m1 - Y" "q_fails m2 = q_fails m1"
    unfolding frees_def by blast
  with 1 show "\<exists>m'. Option.bind (f m) g = Some m' \<and> heap_ok m' \<and> blocks m' = blocks m - (X + Y) \<and> q_fails m' = q_fails m"
    by (simp add: diff_diff_add_mset)
qed

lemma frees_block [frees_intros]: "frees (\<lambda>m. qfree m (Some p)) {#p#}"
  using qfree_blocks by (force simp: frees_def)

lemma frees_opt [frees_intros]: "frees (\<lambda>m. qfree m (map_option fst x)) (opt_block x)"
  using frees_block frees_nothing by (cases x) (auto simp: frees_def)

section \<open>Where the accounts are wrong\<close>

text \<open>A block of 65536 bytes or more gives back only the low 16 bits of its size.\<close>

lemma large_block_loses_quota:
  assumes "n \<noteq> 0" and "qid < MEM_QUOTA_ID_MAX" and "n \<le> unat (allocation_quotas m ! qid)"
    and "\<not> q_fails m (q_next m)" and "length (allocation_quotas m) = MEM_QUOTA_ID_MAX"
  shows "\<exists>m1 m2. qmalloc_quota m n qid = Some (Some (q_next m), m1) \<and> qfree m1 (Some (q_next m)) = Some m2 \<and>
    allocation_quotas m2 ! qid = allocation_quotas m ! qid - of_nat (n - n mod 65536) \<and>
    (q_blocks m (q_next m) = None \<longrightarrow> q_blocks m2 = q_blocks m)"
proof -
  have "ucast (of_nat n :: 16 word) = (of_nat (n mod 65536) :: 32 word)"
    by (simp add: unsigned_of_nat take_bit_eq_mod)
  moreover have "of_nat (n - n mod 65536) = (of_nat n - of_nat (n mod 65536) :: 32 word)" by (simp add: of_nat_diff)
  ultimately show ?thesis
    using assms by (auto simp: qmalloc_quota_def qmalloc_internal_def qfree_def)
qed

text \<open>Resizing to 0 frees the block and keeps its bytes counted.\<close>

lemma realloc_zero_loses_quota:
  assumes "q_blocks m p = Some q"
  shows "qrealloc m (Some p) 0 = Some (None, m\<lparr>q_blocks := (q_blocks m)(p := None)\<rparr>)"
  using assms by (simp add: qrealloc_def)

text \<open>When the system cannot resize, the old block lives on but its bytes are given back.\<close>

lemma failed_realloc_gives_back:
  assumes "q_blocks m p = Some q" and "qp_quota_id q < MEM_QUOTA_ID_MAX" and "q_fails m (q_next m)" and "n \<noteq> 0"
    and "n < 2 ^ 31" and "n \<le> unat (allocation_quotas m ! qp_quota_id q) + unat (qp_size q)"
  shows "\<exists>m'. qrealloc m (Some p) n = Some (None, m') \<and> q_blocks m' = q_blocks m \<and>
    allocation_quotas m' = (allocation_quotas m)[qp_quota_id q := allocation_quotas m ! qp_quota_id q + ucast (qp_size q)]"
proof -
  have "int n - int (unat (qp_size q)) < 0 \<or> int n - int (unat (qp_size q)) \<le> int (unat (allocation_quotas m ! qp_quota_id q))"
    using assms(6) by linarith
  with assms(1-4) size_difference [OF assms(5)] show ?thesis
    by (simp add: qrealloc_def qmalloc_internal_def)
qed

end
