(* ===== verification/Fira_Diagnostics.thy ===== *)
theory Fira_Diagnostics
  imports Message_Readers Qmalloc
begin

text \<open>
  The range diagnostics notification of the FiRa client (\<^verbatim>\<open>cherry_fira_client.c\<close>): the handler reads a
  list of reports, each a list of fields with a type and a length, into structures that it allocates
  piece by piece. A pointer to an allocated object is its block together with what the block holds.
\<close>

section \<open>Data\<close>

record cir =
  cir_receiver_segment :: byte
  cir_fpath_tap_offset :: "16 word"
  cir_n_taps :: "16 word"
  cir_tap_size :: byte
  cir_taps :: "(nat \<times> bytes) option"

record aoa_measurement =
  am_tdoa :: "16 word"
  am_pdoa :: "16 word"
  am_aoa :: "16 word"
  am_fom :: byte
  am_type :: byte

record segment_metrics =
  sm_receiver_segment :: byte
  sm_noise_value :: "16 word"
  sm_rsl_q8 :: "16 word"
  sm_fp_index :: "16 word"
  sm_fp_rsl_q8 :: "16 word"
  sm_fp_ns_q6 :: "16 word"
  sm_pp_index :: "16 word"
  sm_pp_rsl_q8 :: "16 word"
  sm_pp_ns_q6 :: "16 word"

record frame_report =
  fr_seg_metrics :: "(nat \<times> segment_metrics list) option"
  fr_aoas :: "(nat \<times> aoa_measurement list) option"
  fr_cirs :: "(nat \<times> cir list) option"
  fr_cfo_q26 :: "32 word"
  fr_emitter_short_addr :: "16 word"
  fr_extra_status :: "16 word"
  fr_nb_seg_metrics :: byte
  fr_nb_aoa :: byte
  fr_nb_cir :: byte
  fr_cfo_present :: bool
  fr_emitter_short_addr_present :: bool
  fr_extra_status_present :: bool
  fr_msg_id :: byte
  fr_action :: byte
  fr_antenna_set :: byte

record diagnostic_info =
  di_session_handle :: "32 word"
  di_sequence_number :: "32 word"
  di_nb_reports :: "32 word"
  di_reports :: "nat \<times> frame_report list"

text \<open>The list of impulse responses that is built while a field is read, the last one first.\<close>

record tmp_cir =
  tc_receiver_segment :: byte
  tc_fpath_tap_offset :: "16 word"
  tc_n_taps :: "16 word"
  tc_tap_size :: byte
  tc_taps :: "(nat \<times> bytes) option"

type_synonym tmp_cirs = "(nat \<times> tmp_cir) list"

definition zero_cir :: cir where
  "zero_cir = \<lparr>cir_receiver_segment = 0, cir_fpath_tap_offset = 0, cir_n_taps = 0, cir_tap_size = 0, cir_taps = None\<rparr>"

definition zero_report :: frame_report where
  "zero_report = \<lparr>fr_seg_metrics = None, fr_aoas = None, fr_cirs = None, fr_cfo_q26 = 0, fr_emitter_short_addr = 0,
     fr_extra_status = 0, fr_nb_seg_metrics = 0, fr_nb_aoa = 0, fr_nb_cir = 0, fr_cfo_present = False,
     fr_emitter_short_addr_present = False, fr_extra_status_present = False, fr_msg_id = 0, fr_action = 0,
     fr_antenna_set = 0\<rparr>"

abbreviation (input) UCI_DIAG_REPORT_AOAS :: byte where "UCI_DIAG_REPORT_AOAS \<equiv> 1"
abbreviation (input) UCI_DIAG_REPORT_EXTRA_STATUS :: byte where "UCI_DIAG_REPORT_EXTRA_STATUS \<equiv> 3"
abbreviation (input) UCI_DIAG_REPORT_CFO_Q26 :: byte where "UCI_DIAG_REPORT_CFO_Q26 \<equiv> 4"
abbreviation (input) UCI_DIAG_REPORT_EMITTER_SHORT_ADDR :: byte where "UCI_DIAG_REPORT_EMITTER_SHORT_ADDR \<equiv> 5"
abbreviation (input) UCI_DIAG_REPORT_SEGMENT_METRICS :: byte where "UCI_DIAG_REPORT_SEGMENT_METRICS \<equiv> 6"
abbreviation (input) UCI_DIAG_REPORT_CIRS :: byte where "UCI_DIAG_REPORT_CIRS \<equiv> 7"
abbreviation (input) TLV_LENGTH_SEG_METRICS :: nat where "TLV_LENGTH_SEG_METRICS \<equiv> 17"
abbreviation (input) TLV_LENGTH_AOA :: nat where "TLV_LENGTH_AOA \<equiv> 8"
abbreviation (input) TLV_FIXED_LENGTH_CIR :: nat where "TLV_FIXED_LENGTH_CIR \<equiv> 4"

text \<open>The sizes of the structures on a machine with 64-bit pointers.\<close>

abbreviation (input) sizeof_aoa :: nat where "sizeof_aoa \<equiv> 8"
abbreviation (input) sizeof_segment_metrics :: nat where "sizeof_segment_metrics \<equiv> 18"
abbreviation (input) sizeof_cir :: nat where "sizeof_cir \<equiv> 16"
abbreviation (input) sizeof_tmp_cir :: nat where "sizeof_tmp_cir \<equiv> 24"
abbreviation (input) sizeof_frame_report :: nat where "sizeof_frame_report \<equiv> 48"
abbreviation (input) sizeof_diagnostic_info :: nat where "sizeof_diagnostic_info \<equiv> 24"

section \<open>Freeing\<close>

fun free_tmp_cirs :: "qheap \<Rightarrow> tmp_cirs \<Rightarrow> qheap option" where
  "free_tmp_cirs m [] = Some m"
| "free_tmp_cirs m ((p, c) # cs) =
     do { m \<leftarrow> qfree m (map_option fst (tc_taps c)); m \<leftarrow> qfree m (Some p); free_tmp_cirs m cs }"

fun free_taps :: "qheap \<Rightarrow> cir list \<Rightarrow> nat list \<Rightarrow> qheap option" where
  "free_taps m cs [] = Some m"
| "free_taps m cs (i # is) =
     (if i < length cs then do { m \<leftarrow> qfree m (map_option fst (cir_taps (cs ! i))); free_taps m cs is } else None)"

definition free_report :: "qheap \<Rightarrow> frame_report \<Rightarrow> qheap option" where
  "free_report m r =
     do {
       m \<leftarrow> qfree m (map_option fst (fr_seg_metrics r));
       m \<leftarrow> qfree m (map_option fst (fr_aoas r));
       (case fr_cirs r of
          None \<Rightarrow> Some m
        | Some (p, cs) \<Rightarrow> do { m \<leftarrow> free_taps m cs [0..<unat (fr_nb_cir r)]; qfree m (Some p) })
     }"

fun free_reports :: "qheap \<Rightarrow> frame_report list \<Rightarrow> nat list \<Rightarrow> qheap option" where
  "free_reports m rs [] = Some m"
| "free_reports m rs (i # is) =
     (if i < length rs then do { m \<leftarrow> free_report m (rs ! i); free_reports m rs is } else None)"

definition cherry_uci_client_fira_free_diag :: "qheap \<Rightarrow> (nat \<times> diagnostic_info) option \<Rightarrow> qheap option" where
  "cherry_uci_client_fira_free_diag m diag =
     (case diag of
        None \<Rightarrow> Some m
      | Some (p, d) \<Rightarrow>
          do { m \<leftarrow> free_reports m (snd (di_reports d)) [0..<unat (di_nb_reports d)];
               m \<leftarrow> qfree m (Some (fst (di_reports d)));
               qfree m (Some p) })"

section \<open>Reading a field\<close>

fun read_times :: "'a reader \<Rightarrow> nat \<Rightarrow> 'a list reader" where
  "read_times r 0 h parser = Some ([], parser)"
| "read_times r (Suc n) h parser =
     do { (x, parser) \<leftarrow> r h parser; (xs, parser) \<leftarrow> read_times r n h parser; Some (x # xs, parser) }"

definition read_aoa :: "aoa_measurement reader" where
  "read_aoa h parser =
     do {
       (tdoa, parser) \<leftarrow> uci_message_get_16bit h parser;
       (pdoa, parser) \<leftarrow> uci_message_get_16bit h parser;
       (aoa, parser) \<leftarrow> uci_message_get_16bit h parser;
       (fom, parser) \<leftarrow> uci_message_get_8bit h parser;
       (ty, parser) \<leftarrow> uci_message_get_8bit h parser;
       Some (\<lparr>am_tdoa = tdoa, am_pdoa = pdoa, am_aoa = aoa, am_fom = fom, am_type = ty\<rparr>, parser)
     }"

definition read_segment_metrics :: "segment_metrics reader" where
  "read_segment_metrics h parser =
     do {
       (seg, parser) \<leftarrow> uci_message_get_8bit h parser;
       (noise, parser) \<leftarrow> uci_message_get_16bit h parser;
       (rsl, parser) \<leftarrow> uci_message_get_16bit h parser;
       (fpi, parser) \<leftarrow> uci_message_get_16bit h parser;
       (fpr, parser) \<leftarrow> uci_message_get_16bit h parser;
       (fpn, parser) \<leftarrow> uci_message_get_16bit h parser;
       (ppi, parser) \<leftarrow> uci_message_get_16bit h parser;
       (ppr, parser) \<leftarrow> uci_message_get_16bit h parser;
       (ppn, parser) \<leftarrow> uci_message_get_16bit h parser;
       Some (\<lparr>sm_receiver_segment = seg, sm_noise_value = noise, sm_rsl_q8 = rsl, sm_fp_index = fpi,
              sm_fp_rsl_q8 = fpr, sm_fp_ns_q6 = fpn, sm_pp_index = ppi, sm_pp_rsl_q8 = ppr, sm_pp_ns_q6 = ppn\<rparr>, parser)
     }"

text \<open>
  A step of the handler has a status, with which it goes to \<open>free_data\<close> when it is not success. The
  allocation of no bytes returns NULL, which counts as a failure.
\<close>

type_synonym diag_step = "(int \<times> frame_report \<times> qheap \<times> uci_message_parser) option"

definition parse_aoas :: "heap \<Rightarrow> uci_message_parser \<Rightarrow> qheap \<Rightarrow> frame_report \<Rightarrow> nat \<Rightarrow> diag_step" where
  "parse_aoas h parser m current field_size =
     (let nb = of_nat (field_size div TLV_LENGTH_AOA) :: byte; current = current\<lparr>fr_nb_aoa := nb\<rparr>
      in case qcalloc m 1 (sizeof_aoa * unat nb) of
           (None, m) \<Rightarrow> Some (QERR_ENOMEM, current\<lparr>fr_aoas := None\<rparr>, m, parser)
         | (Some p, m) \<Rightarrow>
             do { (xs, parser) \<leftarrow> read_times read_aoa (unat nb) h parser;
                  Some (QERR_SUCCESS, current\<lparr>fr_aoas := Some (p, xs)\<rparr>, m, parser) })"

definition parse_segment_metrics :: "heap \<Rightarrow> uci_message_parser \<Rightarrow> qheap \<Rightarrow> frame_report \<Rightarrow> nat \<Rightarrow> diag_step" where
  "parse_segment_metrics h parser m current field_size =
     (let nb = of_nat (field_size div TLV_LENGTH_SEG_METRICS) :: byte; current = current\<lparr>fr_nb_seg_metrics := nb\<rparr>
      in case qcalloc m 1 (sizeof_segment_metrics * unat nb) of
           (None, m) \<Rightarrow> Some (QERR_ENOMEM, current\<lparr>fr_seg_metrics := None\<rparr>, m, parser)
         | (Some p, m) \<Rightarrow>
             do { (xs, parser) \<leftarrow> read_times read_segment_metrics (unat nb) h parser;
                  Some (QERR_SUCCESS, current\<lparr>fr_seg_metrics := Some (p, xs)\<rparr>, m, parser) })"

definition read_cir_header :: "tmp_cir reader" where
  "read_cir_header h parser =
     do {
       (seg, parser) \<leftarrow> uci_message_get_8bit h parser;
       (off, parser) \<leftarrow> uci_message_get_8bit h parser;
       (n, parser) \<leftarrow> uci_message_get_8bit h parser;
       (sz, parser) \<leftarrow> uci_message_get_8bit h parser;
       Some (\<lparr>tc_receiver_segment = seg, tc_fpath_tap_offset = ucast off, tc_n_taps = ucast n, tc_tap_size = sz,
              tc_taps = None\<rparr>, parser)
     }"

definition tmp_cir_len :: "tmp_cir \<Rightarrow> nat" where
  "tmp_cir_len c = unat (tc_n_taps c) * unat (tc_tap_size c)"

text \<open>How the loop over the impulse responses of a field ends, with the list it has built.\<close>

datatype cir_end = Cirs_Read byte tmp_cirs | Cirs_Malformed tmp_cirs | Cirs_No_Memory

function read_cirs ::
    "heap \<Rightarrow> nat \<Rightarrow> byte \<Rightarrow> tmp_cirs \<Rightarrow> qheap \<Rightarrow> uci_message_parser \<Rightarrow>
     (cir_end \<times> qheap \<times> uci_message_parser) option" where
  "read_cirs h remaining_size cir_number head m parser =
     (if remaining_size = 0 then Some (Cirs_Read cir_number head, m, parser)
      else if remaining_size < TLV_FIXED_LENGTH_CIR then
        do { (_, parser) \<leftarrow> uci_message_skip h parser remaining_size; Some (Cirs_Malformed head, m, parser) }
      else
        case qcalloc m 1 sizeof_tmp_cir of
          (None, m) \<Rightarrow> do { m \<leftarrow> free_tmp_cirs m head; Some (Cirs_No_Memory, m, parser) }
        | (Some p, m) \<Rightarrow>
            do {
              (c, parser) \<leftarrow> read_cir_header h parser;
              let len = tmp_cir_len c;
              if remaining_size - TLV_FIXED_LENGTH_CIR < len then
                do { (_, parser) \<leftarrow> uci_message_skip h parser (remaining_size - TLV_FIXED_LENGTH_CIR);
                     Some (Cirs_Malformed ((p, c) # head), m, parser) }
              else
                case qcalloc m len 1 of
                  (None, m) \<Rightarrow> do { m \<leftarrow> free_tmp_cirs m ((p, c) # head); Some (Cirs_No_Memory, m, parser) }
                | (Some t, m) \<Rightarrow>
                    do {
                      (xs, parser) \<leftarrow> uci_message_get h parser len;
                      taps \<leftarrow> write_buf (replicate len 0) 0 xs;
                      read_cirs h (remaining_size - TLV_FIXED_LENGTH_CIR - len) (cir_number + 1)
                        ((p, c\<lparr>tc_taps := Some (t, taps)\<rparr>) # head) m parser
                    }
            })"
  by pat_completeness auto
termination by (relation "measure (\<lambda>(h, remaining_size, n, head, m, parser). remaining_size)") auto

text \<open>
  Copying the list into an array, from its last element to its first. The result of the allocation for
  the taps is not checked: when it is NULL, \<^verbatim>\<open>memcpy\<close> writes through it.
\<close>

fun copy_cirs :: "cir list \<Rightarrow> tmp_cirs \<Rightarrow> nat list \<Rightarrow> qheap \<Rightarrow> (cir list \<times> qheap) option" where
  "copy_cirs cs tmp [] m = Some (cs, m)"
| "copy_cirs cs [] (i # is) m = None"
| "copy_cirs cs ((p, c) # tmp) (i # is) m =
     (let len = tmp_cir_len c
      in case qcalloc m len 1 of
           (None, m) \<Rightarrow> None
         | (Some t, m) \<Rightarrow>
             do {
               (_, taps) \<leftarrow> tc_taps c;
               if i < length cs
               then copy_cirs (cs[i := \<lparr>cir_receiver_segment = tc_receiver_segment c,
                      cir_fpath_tap_offset = tc_fpath_tap_offset c, cir_n_taps = tc_n_taps c,
                      cir_tap_size = tc_tap_size c, cir_taps = Some (t, take len taps)\<rparr>]) tmp is m
               else None
             })"

definition parse_cirs :: "heap \<Rightarrow> uci_message_parser \<Rightarrow> qheap \<Rightarrow> frame_report \<Rightarrow> nat \<Rightarrow> diag_step" where
  "parse_cirs h parser m current field_size =
     do {
       (e, m, parser) \<leftarrow> read_cirs h field_size 0 [] m parser;
       case e of
         Cirs_No_Memory \<Rightarrow> Some (QERR_ENOMEM, current, m, parser)
       | Cirs_Malformed head \<Rightarrow> do { m \<leftarrow> free_tmp_cirs m head; Some (QERR_SUCCESS, current, m, parser) }
       | Cirs_Read cir_number head \<Rightarrow>
           let current = current\<lparr>fr_nb_cir := cir_number\<rparr>
           in (case qcalloc m (unat cir_number) sizeof_cir of
                 (None, m) \<Rightarrow>
                   do { m \<leftarrow> free_tmp_cirs m head; Some (QERR_ENOMEM, current\<lparr>fr_cirs := None\<rparr>, m, parser) }
               | (Some p, m) \<Rightarrow>
                   do {
                     (cs, m) \<leftarrow> copy_cirs (replicate (unat cir_number) zero_cir) head (rev [0..<unat cir_number]) m;
                     m \<leftarrow> free_tmp_cirs m head;
                     Some (QERR_SUCCESS, current\<lparr>fr_cirs := Some (p, cs)\<rparr>, m, parser)
                   })
     }"

definition parse_field ::
    "heap \<Rightarrow> uci_message_parser \<Rightarrow> qheap \<Rightarrow> frame_report \<Rightarrow> byte \<Rightarrow> nat \<Rightarrow> diag_step" where
  "parse_field h parser m current field field_size =
     (if field = UCI_DIAG_REPORT_AOAS then parse_aoas h parser m current field_size
      else if field = UCI_DIAG_REPORT_EXTRA_STATUS then
        do { (v, parser) \<leftarrow> uci_message_get_16bit h parser;
             Some (QERR_SUCCESS, current\<lparr>fr_extra_status := v, fr_extra_status_present := True\<rparr>, m, parser) }
      else if field = UCI_DIAG_REPORT_CFO_Q26 then
        do { (v, parser) \<leftarrow> uci_message_get_32bit h parser;
             Some (QERR_SUCCESS, current\<lparr>fr_cfo_q26 := v, fr_cfo_present := True\<rparr>, m, parser) }
      else if field = UCI_DIAG_REPORT_EMITTER_SHORT_ADDR then
        do { (v, parser) \<leftarrow> uci_message_get_16bit h parser;
             Some (QERR_SUCCESS, current\<lparr>fr_emitter_short_addr := v, fr_emitter_short_addr_present := True\<rparr>, m, parser) }
      else if field = UCI_DIAG_REPORT_SEGMENT_METRICS then parse_segment_metrics h parser m current field_size
      else if field = UCI_DIAG_REPORT_CIRS then parse_cirs h parser m current field_size
      else do { (_, parser) \<leftarrow> uci_message_skip h parser field_size; Some (QERR_SUCCESS, current, m, parser) })"

section \<open>Reading a notification\<close>

fun parse_fields :: "heap \<Rightarrow> nat \<Rightarrow> frame_report \<Rightarrow> qheap \<Rightarrow> uci_message_parser \<Rightarrow> diag_step" where
  "parse_fields h 0 current m parser = Some (QERR_SUCCESS, current, m, parser)"
| "parse_fields h (Suc nb_fields) current m parser =
     (if uci_message_remaining parser < 3 then Some (QERR_EINVAL, current, m, parser)
      else do {
        (field, parser) \<leftarrow> uci_message_get_8bit h parser;
        (field_size, parser) \<leftarrow> uci_message_get_16bit h parser;
        if uci_message_remaining parser < unat field_size then Some (QERR_EINVAL, current, m, parser)
        else do {
          (ret, current, m, parser) \<leftarrow> parse_field h parser m current field (unat field_size);
          if ret \<noteq> QERR_SUCCESS then Some (ret, current, m, parser)
          else parse_fields h nb_fields current m parser
        }
      })"

definition parse_report :: "heap \<Rightarrow> frame_report \<Rightarrow> qheap \<Rightarrow> uci_message_parser \<Rightarrow> diag_step" where
  "parse_report h current m parser =
     (if uci_message_remaining parser < 4 then Some (QERR_EINVAL, current, m, parser)
      else do {
        (msg_id, parser) \<leftarrow> uci_message_get_8bit h parser;
        (action, parser) \<leftarrow> uci_message_get_8bit h parser;
        (antenna_set, parser) \<leftarrow> uci_message_get_8bit h parser;
        (nb_fields, parser) \<leftarrow> uci_message_get_8bit h parser;
        parse_fields h (unat nb_fields)
          (current\<lparr>fr_msg_id := msg_id, fr_action := action, fr_antenna_set := antenna_set\<rparr>) m parser
      })"

fun parse_reports ::
    "heap \<Rightarrow> frame_report list \<Rightarrow> nat list \<Rightarrow> qheap \<Rightarrow> uci_message_parser \<Rightarrow>
     (int \<times> frame_report list \<times> qheap \<times> uci_message_parser) option" where
  "parse_reports h rs [] m parser = Some (QERR_SUCCESS, rs, m, parser)"
| "parse_reports h rs (i # is) m parser =
     (if i < length rs then
        do { (ret, r, m, parser) \<leftarrow> parse_report h (rs ! i) m parser;
             if ret \<noteq> QERR_SUCCESS then Some (ret, rs[i := r], m, parser)
             else parse_reports h (rs[i := r]) is m parser }
      else None)"

text \<open>The notification: the status, and the information for the callback when it is success.\<close>

definition parse_diagnostics ::
    "heap \<Rightarrow> uci_message_parser \<Rightarrow> qheap \<Rightarrow> (int \<times> (nat \<times> diagnostic_info) option \<times> qheap) option" where
  "parse_diagnostics h parser m =
     (if uci_message_remaining parser < 9 then Some (QERR_EINVAL, None, m)
      else case qcalloc m 1 sizeof_diagnostic_info of
        (None, m) \<Rightarrow> Some (QERR_ENOMEM, None, m)
      | (Some p, m) \<Rightarrow>
          do {
            (session_handle, parser) \<leftarrow> uci_message_get_32bit h parser;
            (sequence_number, parser) \<leftarrow> uci_message_get_32bit h parser;
            (nb, parser) \<leftarrow> uci_message_get_8bit h parser;
            case qcalloc m 1 (sizeof_frame_report * unat nb) of
              (None, m) \<Rightarrow> do { m \<leftarrow> qfree m (Some p); Some (QERR_ENOMEM, None, m) }
            | (Some q, m) \<Rightarrow>
                do {
                  (ret, rs, m, parser) \<leftarrow> parse_reports h (replicate (unat nb) zero_report) [0..<unat nb] m parser;
                  let d = \<lparr>di_session_handle = session_handle, di_sequence_number = sequence_number,
                           di_nb_reports = ucast nb, di_reports = (q, rs)\<rparr>;
                  if ret \<noteq> QERR_SUCCESS
                  then do { m \<leftarrow> cherry_uci_client_fira_free_diag m (Some (p, d)); Some (ret, None, m) }
                  else Some (QERR_SUCCESS, Some (p, d), m)
                }
          })"

end
