(* ===== verification/Fira_Client.thy ===== *)
theory Fira_Client
  imports Fira_Diagnostics Message_Writers
begin

text \<open>
  The FiRa client of the Cherry library (\<^verbatim>\<open>cherry_fira_client.c\<close>) apart from the ranging measurements:
  the responses to the updates of the active ranging rounds, the diagnostics notification, the tables,
  opening and closing, and the two commands.

  The context is in the world behind the core, as in the session client. The array for a response is the
  caller's: a command leaves a pointer to it in the context, through which the handler writes.
\<close>

section \<open>State\<close>

abbreviation (input) UCI_OID_SESSION_UPDATE_DT_ANCHOR_RANGING_ROUNDS :: nat where "UCI_OID_SESSION_UPDATE_DT_ANCHOR_RANGING_ROUNDS \<equiv> 8"
abbreviation (input) UCI_OID_SESSION_UPDATE_DT_TAG_RANGING_ROUNDS :: nat where "UCI_OID_SESSION_UPDATE_DT_TAG_RANGING_ROUNDS \<equiv> 9"
abbreviation (input) UCI_OID_QORVO_FIRA_RANGE_DIAGNOSTICS :: nat where "UCI_OID_QORVO_FIRA_RANGE_DIAGNOSTICS \<equiv> 3"
abbreviation (input) UCI_DT_ANCHOR_INITIATOR :: byte where "UCI_DT_ANCHOR_INITIATOR \<equiv> 1"
abbreviation (input) RESPONDER_SLOTS_PRESENT :: byte where "RESPONDER_SLOTS_PRESENT \<equiv> 1"
abbreviation (input) FIRA_DT_TAG_MAX_ACTIVE_RR :: nat where "FIRA_DT_TAG_MAX_ACTIVE_RR \<equiv> 33"
abbreviation (input) FIRA_DT_ANCHOR_MAX_ACTIVE_RR :: nat where "FIRA_DT_ANCHOR_MAX_ACTIVE_RR \<equiv> 33"
abbreviation (input) DL_TDOA_UPDATE_RANGING_ROUND_RSP_MAX_SIZE :: nat where "DL_TDOA_UPDATE_RANGING_ROUND_RSP_MAX_SIZE \<equiv> 257"

text \<open>\<open>fc_diag_notification_cb\<close>: the pointer is not NULL. \<open>fc_cmd_data\<close> is the address of an array.\<close>

record fira_context =
  fc_diag_notification_cb :: bool
  fc_response_status :: int
  fc_sem :: nat
  fc_cmd_data :: nat
  fc_cmd_data_sz :: nat

text \<open>The context with its block, what the memory for it holds before, the arrays of the callers.\<close>

record 'v fira_world =
  fw_context :: "(nat \<times> fira_context) option"
  fw_junk :: fira_context
  fw_heap :: qheap
  fw_arrays :: "nat \<Rightarrow> bytes option"
  fw_rest :: 'v

type_synonym 'v fuci = "'v fira_world uci"

record 'v fira_env =
  fe_uci :: "'v fira_world uci_env"
  fe_wait :: "'v fuci \<Rightarrow> 'v fuci option"
  fe_diag_cb :: "nat \<times> diagnostic_info \<Rightarrow> 'v fuci \<Rightarrow> 'v fuci option"
  fe_config_list :: ptr
  fe_qorvo_list :: ptr

definition fira_context_of :: "'v fuci \<Rightarrow> fira_context option" where
  "fira_context_of u = map_option snd (fw_context (u_world u))"

definition upd_fira :: "'v fuci \<Rightarrow> (fira_context \<Rightarrow> fira_context) \<Rightarrow> 'v fuci" where
  "upd_fira u f = u\<lparr>u_world := (u_world u)\<lparr>fw_context := map_option (map_prod id f) (fw_context (u_world u))\<rparr>\<rparr>"

definition set_fira_heap :: "'v fuci \<Rightarrow> qheap \<Rightarrow> 'v fuci" where
  "set_fira_heap u m = u\<lparr>u_world := (u_world u)\<lparr>fw_heap := m\<rparr>\<rparr>"

section \<open>Responses and notifications\<close>

definition cherry_fira_wait_rsp :: "'v fira_env \<Rightarrow> 'v fuci \<Rightarrow> (bool \<times> 'v fuci) option" where
  "cherry_fira_wait_rsp e u =
     do {
       c0 \<leftarrow> fira_context_of u;
       u \<leftarrow> (if fc_sem c0 > 0 then Some u else fe_wait e u);
       c \<leftarrow> fira_context_of u;
       if fc_sem c > 0 then Some (True, upd_fira u (\<lambda>c. c\<lparr>fc_sem := fc_sem c - 1\<rparr>))
       else Some (False, u)
     }"

definition cherry_fira_set_rsp :: "'v fuci \<Rightarrow> 'v fuci" where
  "cherry_fira_set_rsp u = upd_fira u (\<lambda>c. c\<lparr>fc_sem := 1\<rparr>)"

definition fira_parse_status :: "heap \<Rightarrow> uci_message_parser \<Rightarrow> (int \<times> uci_message_parser) option" where
  "fira_parse_status h parser =
     (if uci_message_remaining parser < 1 then Some (UCI_STATUS_INVALID_MESSAGE_SIZE, parser)
      else do { (s, parser) \<leftarrow> uci_message_get_8bit h parser; Some (uint s, parser) })"

text \<open>The local parser of a handler, and the store of a handler through the pointer of the context.\<close>

definition fira_parser :: "'v fuci \<Rightarrow> ptr option \<Rightarrow> uci_message_parser option" where
  "fira_parser u msg = do { p \<leftarrow> msg; UCI_MESSAGE_PARSER_INITIALIZER (heap (u_mem u)) p }"

definition store_cmd_data :: "'v fuci \<Rightarrow> bytes \<Rightarrow> 'v fuci option" where
  "store_cmd_data u xs =
     do {
       c \<leftarrow> fira_context_of u;
       a \<leftarrow> fw_arrays (u_world u) (fc_cmd_data c);
       a \<leftarrow> write_buf a 0 xs;
       Some (u\<lparr>u_world := (u_world u)\<lparr>fw_arrays := (fw_arrays (u_world u))(fc_cmd_data c \<mapsto> a)\<rparr>\<rparr>)
     }"

definition rounds_response_invalid :: "'v fuci \<Rightarrow> (int \<times> 'v fuci) option" where
  "rounds_response_invalid u =
     Some (QERR_EINVAL, cherry_fira_set_rsp (upd_fira u (\<lambda>c. c\<lparr>fc_cmd_data_sz := 0,
       fc_response_status := UCI_STATUS_INVALID_MESSAGE_SIZE\<rparr>)))"

definition uci_rsp_handler_dt_ranging_rounds :: "'v fuci \<Rightarrow> ptr option \<Rightarrow> (int \<times> 'v fuci) option" where
  "uci_rsp_handler_dt_ranging_rounds u msg =
     do {
       parser \<leftarrow> fira_parser u msg;
       let h = heap (u_mem u);
       c \<leftarrow> fira_context_of u;
       if uci_message_remaining parser < 2 then rounds_response_invalid u
       else do {
         (s, parser) \<leftarrow> fira_parse_status h parser;
         let u = upd_fira u (\<lambda>c. c\<lparr>fc_response_status := s\<rparr>);
         (n, parser) \<leftarrow> uci_message_get_8bit h parser;
         if n > 0 then
           if uci_message_remaining parser < unat n then rounds_response_invalid u
           else do {
             (xs, parser) \<leftarrow> uci_message_get h parser (unat n);
             u \<leftarrow> store_cmd_data u xs;
             Some (QERR_SUCCESS, cherry_fira_set_rsp (upd_fira u (\<lambda>c. c\<lparr>fc_cmd_data_sz := unat n\<rparr>)))
           }
         else do {
           u \<leftarrow> store_cmd_data u [0];
           Some (QERR_SUCCESS, cherry_fira_set_rsp (upd_fira u (\<lambda>c. c\<lparr>fc_cmd_data_sz := 0\<rparr>)))
         }
       }
     }"

definition uci_rsp_diag_ntf_handler :: "'v fira_env \<Rightarrow> 'v fuci \<Rightarrow> ptr option \<Rightarrow> (int \<times> 'v fuci) option" where
  "uci_rsp_diag_ntf_handler e u msg =
     do {
       parser \<leftarrow> fira_parser u msg;
       c \<leftarrow> fira_context_of u;
       if \<not> fc_diag_notification_cb c then Some (QERR_EINVAL, u)
       else do {
         (ret, d, m) \<leftarrow> parse_diagnostics (heap (u_mem u)) parser (fw_heap (u_world u));
         let u = set_fira_heap u m;
         case d of
           None \<Rightarrow> Some (ret, u)
         | Some d \<Rightarrow> do { u \<leftarrow> fe_diag_cb e d u; Some (ret, u) }
       }
     }"

section \<open>Handler tables\<close>

definition fira_handler ::
    "'v fira_env \<Rightarrow> nat \<Rightarrow> 'v fuci \<Rightarrow> 16 word \<Rightarrow> ptr option \<Rightarrow> nat \<Rightarrow> (int \<times> 'v fuci) option" where
  "fira_handler e f u mt_gid_oid msg user_data =
     (if f = 0 then uci_rsp_handler_dt_ranging_rounds u msg
      else if f = 1 then uci_rsp_diag_ntf_handler e u msg
      else None)"

definition fira_rsp_session_config_handlers :: "uci_message_handler list" where
  "fira_rsp_session_config_handlers =
     [\<lparr>uci_message_id = UCI_MT_GID_OID UCI_MESSAGE_TYPE_RESPONSE UCI_GID_SESSION_CONFIG
          UCI_OID_SESSION_UPDATE_DT_ANCHOR_RANGING_ROUNDS, handler = 0\<rparr>,
      \<lparr>uci_message_id = UCI_MT_GID_OID UCI_MESSAGE_TYPE_RESPONSE UCI_GID_SESSION_CONFIG
          UCI_OID_SESSION_UPDATE_DT_TAG_RANGING_ROUNDS, handler = 0\<rparr>]"

definition fira_rsp_session_config_handlers_list :: uci_message_handlers where
  "fira_rsp_session_config_handlers_list =
     \<lparr>mh_next = None, mh_handlers = fira_rsp_session_config_handlers,
      mh_n_handlers = length fira_rsp_session_config_handlers, mh_user_data = 0\<rparr>"

definition uci_qorvo_cmd_handlers :: "uci_message_handler list" where
  "uci_qorvo_cmd_handlers =
     [\<lparr>uci_message_id = UCI_MT_GID_OID UCI_MESSAGE_TYPE_NOTIFICATION UCI_GID_QORVO_EXT2
          UCI_OID_QORVO_FIRA_RANGE_DIAGNOSTICS, handler = 1\<rparr>]"

definition uci_rsp_qorvo_handlers_list :: uci_message_handlers where
  "uci_rsp_qorvo_handlers_list =
     \<lparr>mh_next = None, mh_handlers = uci_qorvo_cmd_handlers, mh_n_handlers = length uci_qorvo_cmd_handlers,
      mh_user_data = 0\<rparr>"

text \<open>
  Opening: the check of the allocation looks at the wrong pointer, so that NULL is dereferenced. The
  fields that are not set keep what was in the memory. The user data of the tables is not NULL (1).
\<close>

abbreviation (input) sizeof_fira_context :: nat where "sizeof_fira_context \<equiv> 64"

definition cherry_uci_client_fira_open ::
    "'v fira_env \<Rightarrow> 'v fuci \<Rightarrow> bool \<Rightarrow> (int \<times> 'v fuci) option" where
  "cherry_uci_client_fira_open e u diag_cb =
     (if \<not> diag_cb then Some (QERR_EINVAL, u)
      else case qmalloc (fw_heap (u_world u)) sizeof_fira_context of
        (None, m) \<Rightarrow> None
      | (Some p, m) \<Rightarrow>
          do {
            let u = u\<lparr>u_world := (u_world u)\<lparr>fw_heap := m,
                      fw_context := Some (p, (fw_junk (u_world u))\<lparr>fc_diag_notification_cb := True, fc_sem := 0\<rparr>)\<rparr>\<rparr>;
            u \<leftarrow> set_user_data u (fe_config_list e) 1;
            u \<leftarrow> uci_message_handlers_register u (Some (fe_config_list e));
            u \<leftarrow> set_user_data u (fe_qorvo_list e) 1;
            u \<leftarrow> uci_message_handlers_register u (Some (fe_qorvo_list e));
            Some (QERR_SUCCESS, u)
          })"

definition cherry_uci_client_fira_close :: "'v fira_env \<Rightarrow> 'v fuci \<Rightarrow> 'v fuci option" where
  "cherry_uci_client_fira_close e u =
     (case fw_context (u_world u) of
        None \<Rightarrow> Some u
      | Some (p, c) \<Rightarrow>
          do {
            let u = upd_fira u (\<lambda>c. c\<lparr>fc_diag_notification_cb := False\<rparr>);
            u \<leftarrow> set_user_data u (fe_config_list e) 0;
            u \<leftarrow> uci_message_handlers_unregister u (Some (fe_config_list e));
            u \<leftarrow> set_user_data u (fe_qorvo_list e) 0;
            u \<leftarrow> uci_message_handlers_unregister u (Some (fe_qorvo_list e));
            m \<leftarrow> qfree (fw_heap (u_world u)) (Some p);
            Some (u\<lparr>u_world := (u_world u)\<lparr>fw_heap := m, fw_context := None\<rparr>\<rparr>)
          })"

section \<open>Commands\<close>

text \<open>Reading an array of the caller; a NULL pointer is \<open>None\<close>.\<close>

definition elem :: "'a list \<Rightarrow> nat \<Rightarrow> 'a option" where
  "elem xs i = (if i < length xs then Some (xs ! i) else None)"

text \<open>
  The end of both commands: the array of the caller becomes the place for the response, the message is
  sent, and the size of the response is that in the context, truncated to 8 bits.
\<close>

definition await_rounds :: "'v fira_env \<Rightarrow> 'v fuci \<Rightarrow> (int \<times> byte \<times> 'v fuci) option" where
  "await_rounds e u =
     do {
       (ret, u) \<leftarrow> cherry_fira_wait_rsp e u;
       c \<leftarrow> fira_context_of u;
       if ret then Some (fc_response_status c, of_nat (fc_cmd_data_sz c), u)
       else Some (UCI_STATUS_UCI_MESSAGE_RETRY, 0, u)
     }"

definition send_rounds ::
    "'v fira_env \<Rightarrow> 'v fuci \<Rightarrow> nat \<Rightarrow> ptr option \<Rightarrow> nat \<Rightarrow> (int \<times> byte \<times> 'v fuci) option" where
  "send_rounds e u oid msg array =
     do {
       let u = upd_fira u (\<lambda>c. c\<lparr>fc_cmd_data := array, fc_cmd_data_sz := DL_TDOA_UPDATE_RANGING_ROUND_RSP_MAX_SIZE\<rparr>);
       u \<leftarrow> uci_send_message (fe_uci e) u (UCI_MT_GID_OID UCI_MESSAGE_TYPE_COMMAND UCI_GID_SESSION_CONFIG oid) msg;
       await_rounds e u
     }"

definition cherry_uci_client_fira_update_dt_tag_ranging_rounds ::
    "'v fira_env \<Rightarrow> 'v fuci \<Rightarrow> 32 word \<Rightarrow> byte \<Rightarrow> bytes option \<Rightarrow> nat option \<Rightarrow> byte option \<Rightarrow>
     (int \<times> byte option \<times> 'v fuci) option" where
  "cherry_uci_client_fira_update_dt_tag_ranging_rounds e u session_id n ranging_round_indexes array array_size =
     (case (ranging_round_indexes, array) of
        (Some indexes, Some array) \<Rightarrow>
          if fira_context_of u = None \<or> n = 0 \<or> unat n \<ge> FIRA_DT_TAG_MAX_ACTIVE_RR \<or> array_size = None
          then Some (UCI_STATUS_INVALID_PARAM, array_size, u)
          else do {
            let A = e_allocator (fe_uci e);
            s \<leftarrow> put_dword A session_id (u_mem u, uci_message_builder_init);
            s \<leftarrow> put_byte A n s;
            (m, b) \<leftarrow> put_each (\<lambda>i s. do { x \<leftarrow> elem indexes i; put_byte A x s }) [0..<unat n] s;
            (r, sz, u) \<leftarrow> send_rounds e (u\<lparr>u_mem := m\<rparr>) UCI_OID_SESSION_UPDATE_DT_TAG_RANGING_ROUNDS (mb_message b) array;
            Some (r, Some sz, u)
          }
      | _ \<Rightarrow> Some (UCI_STATUS_INVALID_PARAM, array_size, u))"

text \<open>The arrays that configure the rounds of an anchor.\<close>

record anchor_rounds =
  ar_round_indexes :: bytes
  ar_ranging_role :: bytes
  ar_number_of_responders :: "bytes option"
  ar_responder_address_list :: "16 word list list option"
  ar_responder_slot_scheduling :: "bytes option"
  ar_responder_slots :: "bytes list option"

text \<open>The responders of a round, and a round: the flag is false when the configuration is found invalid.\<close>

definition put_responders ::
    "uci_allocator_ops \<Rightarrow> 16 word list list \<Rightarrow> bytes \<Rightarrow> bytes list option \<Rightarrow> nat \<Rightarrow> byte \<Rightarrow>
     mem \<times> uci_message_builder \<Rightarrow> (bool \<times> mem \<times> uci_message_builder) option" where
  "put_responders A address_list schedulings slots i n s =
     do {
       s \<leftarrow> put_byte A n s;
       s \<leftarrow> put_each (\<lambda>j s. do { row \<leftarrow> elem address_list i; v \<leftarrow> elem row j; put_word A v s }) [0..<unat n] s;
       sch \<leftarrow> elem schedulings i;
       s \<leftarrow> put_byte A sch s;
       if sch \<noteq> RESPONDER_SLOTS_PRESENT then Some (True, s)
       else case slots of
         None \<Rightarrow> Some (False, s)
       | Some slots \<Rightarrow>
           do {
             s \<leftarrow> put_each (\<lambda>j s. do { row \<leftarrow> elem slots i; v \<leftarrow> elem row j; put_byte A v s }) [0..<unat n] s;
             Some (True, s)
           }
     }"

definition put_anchor_round ::
    "uci_allocator_ops \<Rightarrow> anchor_rounds \<Rightarrow> nat \<Rightarrow> mem \<times> uci_message_builder \<Rightarrow>
     (bool \<times> mem \<times> uci_message_builder) option" where
  "put_anchor_round A a i s =
     do {
       x \<leftarrow> elem (ar_round_indexes a) i;
       s \<leftarrow> put_byte A x s;
       role \<leftarrow> elem (ar_ranging_role a) i;
       s \<leftarrow> put_byte A role s;
       if role \<noteq> UCI_DT_ANCHOR_INITIATOR then Some (True, s)
       else case ar_number_of_responders a of
         None \<Rightarrow> Some (False, s)
       | Some ns \<Rightarrow>
           do {
             n \<leftarrow> elem ns i;
             case (ar_responder_address_list a, ar_responder_slot_scheduling a) of
               (Some address_list, Some schedulings) \<Rightarrow>
                 if n < 1 \<or> n > 8 then Some (False, s)
                 else put_responders A address_list schedulings (ar_responder_slots a) i n s
             | _ \<Rightarrow> Some (False, s)
           }
     }"

fun put_anchor_rounds ::
    "uci_allocator_ops \<Rightarrow> anchor_rounds \<Rightarrow> nat list \<Rightarrow> mem \<times> uci_message_builder \<Rightarrow>
     (bool \<times> mem \<times> uci_message_builder) option" where
  "put_anchor_rounds A a [] s = Some (True, s)"
| "put_anchor_rounds A a (i # is) s =
     do { (ok, s) \<leftarrow> put_anchor_round A a i s; if ok then put_anchor_rounds A a is s else Some (False, s) }"

definition cherry_uci_client_fira_update_dt_anchor_ranging_rounds ::
    "'v fira_env \<Rightarrow> 'v fuci \<Rightarrow> 32 word \<Rightarrow> byte \<Rightarrow> anchor_rounds option \<Rightarrow> nat option \<Rightarrow> byte option \<Rightarrow>
     (int \<times> byte option \<times> 'v fuci) option" where
  "cherry_uci_client_fira_update_dt_anchor_ranging_rounds e u session_id n rounds array array_size =
     (case (rounds, array) of
        (Some a, Some array) \<Rightarrow>
          if fira_context_of u = None \<or> n = 0 \<or> unat n \<ge> FIRA_DT_ANCHOR_MAX_ACTIVE_RR \<or> array_size = None
          then Some (UCI_STATUS_INVALID_PARAM, array_size, u)
          else do {
            let A = e_allocator (fe_uci e);
            s \<leftarrow> put_dword A session_id (u_mem u, uci_message_builder_init);
            s \<leftarrow> put_byte A n s;
            (ok, m, b) \<leftarrow> put_anchor_rounds A a [0..<unat n] s;
            if \<not> ok then do {
              m \<leftarrow> uci_blk_free_all A m (mb_message b);
              Some (UCI_STATUS_INVALID_PARAM, array_size, u\<lparr>u_mem := m\<rparr>)
            }
            else do {
              (r, sz, u) \<leftarrow> send_rounds e (u\<lparr>u_mem := m\<rparr>) UCI_OID_SESSION_UPDATE_DT_ANCHOR_RANGING_ROUNDS (mb_message b) array;
              Some (r, Some sz, u)
            }
          }
      | _ \<Rightarrow> Some (UCI_STATUS_INVALID_PARAM, array_size, u))"

end
