(* ===== verification/Fira_Diag_Memory.thy ===== *)
theory Fira_Diag_Memory
  imports Fira_Diagnostics
begin

text \<open>
  The memory of the range diagnostics: which blocks a structure owns, that freeing it frees exactly
  these, and that the handler loses none, whatever the bytes of the notification are and whichever
  allocations fail, unless a report has two fields of a type that owns memory.
\<close>

section \<open>Blocks of a structure\<close>

fun tmp_blocks :: "tmp_cirs \<Rightarrow> nat multiset" where
  "tmp_blocks [] = {#}"
| "tmp_blocks ((p, c) # cs) = opt_block (tc_taps c) + {#p#} + tmp_blocks cs"

definition taps_blocks :: "cir list \<Rightarrow> nat multiset" where
  "taps_blocks cs = (\<Sum>c \<leftarrow> cs. opt_block (cir_taps c))"

definition cirs_blocks :: "(nat \<times> cir list) option \<Rightarrow> nat multiset" where
  "cirs_blocks x = (case x of None \<Rightarrow> {#} | Some (p, cs) \<Rightarrow> taps_blocks cs + {#p#})"

lemma cirs_blocks_simps [simp]: "cirs_blocks None = {#}" "cirs_blocks (Some (p, cs)) = taps_blocks cs + {#p#}"
  by (simp_all add: cirs_blocks_def)

definition report_blocks :: "frame_report \<Rightarrow> nat multiset" where
  "report_blocks r = opt_block (fr_seg_metrics r) + opt_block (fr_aoas r) + cirs_blocks (fr_cirs r)"

definition reports_blocks :: "frame_report list \<Rightarrow> nat multiset" where
  "reports_blocks rs = (\<Sum>r \<leftarrow> rs. report_blocks r)"

definition diag_blocks :: "nat \<times> diagnostic_info \<Rightarrow> nat multiset" where
  "diag_blocks x = (case x of (p, d) \<Rightarrow> reports_blocks (snd (di_reports d)) + {#fst (di_reports d)#} + {#p#})"

text \<open>The counts of a structure are the lengths of its arrays.\<close>

definition report_sized :: "frame_report \<Rightarrow> bool" where
  "report_sized r \<longleftrightarrow> (\<forall>p cs. fr_cirs r = Some (p, cs) \<longrightarrow> length cs = unat (fr_nb_cir r))"

definition diag_sized :: "diagnostic_info \<Rightarrow> bool" where
  "diag_sized d \<longleftrightarrow> length (snd (di_reports d)) = unat (di_nb_reports d) \<and> (\<forall>r \<in> set (snd (di_reports d)). report_sized r)"

section \<open>Freeing\<close>

lemma frees_tmp_cirs [frees_intros]: "frees (\<lambda>m. free_tmp_cirs m cs) (tmp_blocks cs)"
proof (induction cs)
  case Nil
  show ?case by (simp add: frees_def)
next
  case (Cons x cs)
  obtain p c where x: "x = (p, c)" by fastforce
  have "frees (\<lambda>m. do { m \<leftarrow> qfree m (map_option fst (tc_taps c)); m \<leftarrow> qfree m (Some p); free_tmp_cirs m cs })
      (opt_block (tc_taps c) + ({#p#} + tmp_blocks cs))"
    by (intro frees_intros Cons.IH)
  then show ?case by (simp add: x add.assoc)
qed

lemma frees_indexed:
  assumes "\<And>i. i < length xs \<Longrightarrow> frees (\<lambda>m. f m (xs ! i)) (g (xs ! i))"
    and "\<And>m. F m xs [] = Some m"
    and "\<And>m i is. i < length xs \<Longrightarrow> F m xs (i # is) = Option.bind (f m (xs ! i)) (\<lambda>m. F m xs is)"
  shows "set is \<subseteq> {..<length xs} \<Longrightarrow> frees (\<lambda>m. F m xs is) (\<Sum>i \<leftarrow> is. g (xs ! i))"
proof (induction "is")
  case Nil
  then show ?case by (simp add: assms(2) frees_def)
next
  case (Cons i "is")
  then have "frees (\<lambda>m. Option.bind (f m (xs ! i)) (\<lambda>m. F m xs is)) (g (xs ! i) + (\<Sum>i \<leftarrow> is. g (xs ! i)))"
    by (intro frees_bind assms(1)) auto
  with Cons.prems show ?case by (simp add: assms(3))
qed

lemma sum_nth: "(\<Sum>i \<leftarrow> [0..<length xs]. g (xs ! i)) = (\<Sum>x \<leftarrow> xs. (g x :: 'a::comm_monoid_add))"
proof -
  have "map (\<lambda>i. g (xs ! i)) [0..<length xs] = map g (map ((!) xs) [0..<length xs])" by simp
  then show ?thesis by (simp only: map_nth)
qed

lemma frees_all:
  assumes "length xs = n" and "\<And>x. x \<in> set xs \<Longrightarrow> frees (\<lambda>m. f m x) (g x)" and "\<And>m. F m xs [] = Some m"
    and "\<And>m i is. i < length xs \<Longrightarrow> F m xs (i # is) = Option.bind (f m (xs ! i)) (\<lambda>m. F m xs is)"
  shows "frees (\<lambda>m. F m xs [0..<n]) (\<Sum>x \<leftarrow> xs. g x)"
  using frees_indexed [of xs f g F "[0..<n]"] assms sum_nth [of g xs] by (simp add: atLeast_upt [symmetric] atLeast0LessThan)

lemma frees_taps: "length cs = n \<Longrightarrow> frees (\<lambda>m. free_taps m cs [0..<n]) (taps_blocks cs)"
  unfolding taps_blocks_def
  by (rule frees_all [where f = "\<lambda>m c. qfree m (map_option fst (cir_taps c))"]) (simp_all add: frees_opt)

lemma frees_report: "report_sized r \<Longrightarrow> frees (\<lambda>m. free_report m r) (report_blocks r)"
proof -
  assume s: "report_sized r"
  have "frees (\<lambda>m. case fr_cirs r of None \<Rightarrow> Some m
      | Some (p, cs) \<Rightarrow> do { m \<leftarrow> free_taps m cs [0..<unat (fr_nb_cir r)]; qfree m (Some p) }) (cirs_blocks (fr_cirs r))"
  proof (cases "fr_cirs r")
    case None
    then show ?thesis by (simp add: frees_def)
  next
    case (Some x)
    then obtain p cs where x: "fr_cirs r = Some (p, cs)" by (cases x) auto
    with s have "length cs = unat (fr_nb_cir r)" by (simp add: report_sized_def)
    then show ?thesis unfolding x cirs_blocks_simps option.case prod.case by (intro frees_bind frees_taps frees_block)
  qed
  then have "frees (\<lambda>m. free_report m r)
      (opt_block (fr_seg_metrics r) + (opt_block (fr_aoas r) + cirs_blocks (fr_cirs r)))"
    unfolding free_report_def by (intro frees_intros)
  then show ?thesis by (simp add: report_blocks_def add.assoc)
qed

lemma frees_diag:
  assumes "diag_sized d"
  shows "frees (\<lambda>m. cherry_uci_client_fira_free_diag m (Some (p, d))) (diag_blocks (p, d))"
proof -
  let ?rs = "snd (di_reports d)"
  have "frees (\<lambda>m. free_reports m ?rs [0..<unat (di_nb_reports d)]) (reports_blocks ?rs)"
    unfolding reports_blocks_def using assms
    by (intro frees_all [where f = free_report]) (auto simp: frees_report diag_sized_def)
  then have "frees (\<lambda>m. cherry_uci_client_fira_free_diag m (Some (p, d)))
      (reports_blocks ?rs + ({#fst (di_reports d)#} + {#p#}))"
    unfolding cherry_uci_client_fira_free_diag_def option.case prod.case by (intro frees_intros)
  then show ?thesis by (simp add: diag_blocks_def add.assoc)
qed

section \<open>Reading keeps track of every block\<close>

lemma qcalloc_blocks:
  "heap_ok m \<Longrightarrow> qcalloc m a b = (Some p, m') \<Longrightarrow> heap_ok m' \<and> blocks m' = blocks m + {#p#}"
  "heap_ok m \<Longrightarrow> qcalloc m a b = (None, m') \<Longrightarrow> heap_ok m' \<and> blocks m' = blocks m"
  using qmalloc_blocks [of m "a * b mod 2 ^ 64"] by (auto simp: qcalloc_def)

lemma frees_run:
  "frees f X \<Longrightarrow> heap_ok m \<Longrightarrow> blocks m = B + X \<Longrightarrow> f m = Some m' \<Longrightarrow> heap_ok m' \<and> blocks m' = B"
  unfolding frees_def by (metis diff_union_cancelR mset_subset_eq_add_right option.inject)

declare read_cirs.simps [simp del]

lemma read_cirs_step:
  assumes "\<not> n < 4" and "qcalloc m 1 sizeof_tmp_cir = (Some q, m1)" and "read_cir_header h p = Some (c, p1)"
  shows "read_cirs h n k head m p =
    (if n - 4 < tmp_cir_len c then
       do { (_, p1) \<leftarrow> uci_message_skip h p1 (n - 4); Some (Cirs_Malformed ((q, c) # head), m1, p1) }
     else case qcalloc m1 (tmp_cir_len c) 1 of
       (None, m) \<Rightarrow> do { m \<leftarrow> free_tmp_cirs m ((q, c) # head); Some (Cirs_No_Memory, m, p1) }
     | (Some t, m) \<Rightarrow>
         do { (xs, p1) \<leftarrow> uci_message_get h p1 (tmp_cir_len c);
              taps \<leftarrow> write_buf (replicate (tmp_cir_len c) 0) 0 xs;
              read_cirs h (n - 4 - tmp_cir_len c) (k + 1) ((q, c\<lparr>tc_taps := Some (t, taps)\<rparr>) # head) m p1 })"
  using assms by (subst read_cirs.simps) (simp add: Let_def)

lemma read_cirs_blocks:
  "heap_ok m \<Longrightarrow> blocks m = B + tmp_blocks head \<Longrightarrow> read_cirs h n k head m p = Some (e, m', p') \<Longrightarrow>
   heap_ok m' \<and> (case e of Cirs_Read k' cs \<Rightarrow> blocks m' = B + tmp_blocks cs
     | Cirs_Malformed cs \<Rightarrow> blocks m' = B + tmp_blocks cs | Cirs_No_Memory \<Rightarrow> blocks m' = B)"
proof (induction n arbitrary: k head m p rule: less_induct)
  case (less n)
  note ok = less.prems(1) and bl = less.prems(2) and run = less.prems(3)
  show ?case
  proof (cases "n < 4")
    case True
    with ok bl run show ?thesis
      by (subst (asm) read_cirs.simps) (auto simp: bind_Some_iff split: if_splits)
  next
    case big: False
    show ?thesis
    proof (cases "qcalloc m 1 sizeof_tmp_cir")
      case (Pair r m1)
      show ?thesis
      proof (cases r)
        case None
        with Pair big run obtain "free_tmp_cirs m1 head = Some m'" "e = Cirs_No_Memory"
          by (subst (asm) read_cirs.simps) (auto simp: bind_Some_iff split: if_splits)
        with frees_run [OF frees_tmp_cirs] qcalloc_blocks(2) [OF ok Pair [unfolded None]] bl show ?thesis by auto
      next
        case (Some q)
        note m1 = qcalloc_blocks(1) [OF ok Pair [unfolded Some]]
        from run big Pair Some obtain c p1 where c: "read_cir_header h p = Some (c, p1)"
          by (subst (asm) read_cirs.simps) (auto simp: bind_Some_iff)
        have no_taps: "tc_taps c = None" using c by (auto simp: read_cir_header_def bind_Some_iff)
        note run' = run [unfolded read_cirs_step [OF big Pair [unfolded Some] c]]
        show ?thesis
        proof (cases "n - 4 < tmp_cir_len c")
          case True
          with run' m1 bl no_taps show ?thesis by (auto simp: bind_Some_iff)
        next
          case fits: False
          show ?thesis
          proof (cases "qcalloc m1 (tmp_cir_len c) 1")
            case alloc: (Pair r2 m2)
            show ?thesis
            proof (cases r2)
              case None
              with run' fits alloc have "free_tmp_cirs m2 ((q, c) # head) = Some m' \<and> e = Cirs_No_Memory"
                by (auto simp: bind_Some_iff simp del: free_tmp_cirs.simps)
              moreover have b2: "blocks m2 = B + tmp_blocks ((q, c) # head)" "heap_ok m2"
                using qcalloc_blocks(2) [OF conjunct1 [OF m1] alloc [unfolded None]] m1 bl no_taps by simp_all
              ultimately show ?thesis using frees_run [OF frees_tmp_cirs b2(2,1)] by simp
            next
              case t: (Some t)
              from run' fits alloc t obtain xs p2 taps where
                2: "uci_message_get h p1 (tmp_cir_len c) = Some (xs, p2)" "write_buf (replicate (tmp_cir_len c) 0) 0 xs = Some taps"
                "read_cirs h (n - 4 - tmp_cir_len c) (k + 1) ((q, c\<lparr>tc_taps := Some (t, taps)\<rparr>) # head) m2 p2 = Some (e, m', p')"
                by (auto simp: bind_Some_iff)
              moreover have "heap_ok m2" "blocks m2 = B + tmp_blocks ((q, c\<lparr>tc_taps := Some (t, taps)\<rparr>) # head)"
                using qcalloc_blocks(1) [OF conjunct1 [OF m1] alloc [unfolded t]] m1 bl by simp_all
              moreover have "n - 4 - tmp_cir_len c < n" using big by simp
              ultimately show ?thesis using less.IH by blast
            qed
          qed
        qed
      qed
    qed
  qed
qed

lemma taps_update:
  assumes "i < length cs"
  shows "taps_blocks (cs[i := c]) + opt_block (cir_taps (cs ! i)) = taps_blocks cs + opt_block (cir_taps c)"
proof -
  have "cs = take i cs @ cs ! i # drop (Suc i) cs" using assms by (simp add: id_take_nth_drop)
  then have "taps_blocks cs = taps_blocks (take i cs) + (opt_block (cir_taps (cs ! i)) + taps_blocks (drop (Suc i) cs))"
    unfolding taps_blocks_def by (metis (no_types, lifting) map_append list.map(2) sum_list.Cons sum_list_append)
  moreover have "taps_blocks (cs[i := c]) = taps_blocks (take i cs) + (opt_block (cir_taps c) + taps_blocks (drop (Suc i) cs))"
    using assms by (simp add: taps_blocks_def upd_conv_take_nth_drop)
  ultimately show ?thesis by (simp add: add_ac)
qed

lemma taps_blocks_zero: "taps_blocks (replicate n zero_cir) = {#}"
  by (induction n) (simp_all add: taps_blocks_def zero_cir_def)

lemma copy_cirs_blocks:
  assumes "heap_ok m" and "copy_cirs cs tmp is m = Some (cs', m')" and "distinct is"
    and "\<And>i. i \<in> set is \<Longrightarrow> cir_taps (cs ! i) = None" and "blocks m = B + taps_blocks cs"
  shows "heap_ok m' \<and> length cs' = length cs \<and> blocks m' = B + taps_blocks cs'"
  using assms
proof (induction "is" arbitrary: cs tmp m)
  case (Cons i "is")
  note ok = Cons.prems(1) and run0 = Cons.prems(2) and free = Cons.prems(4) and bl = Cons.prems(5)
  from run0 obtain p c tmp' where tmp: "tmp = (p, c) # tmp'" by (cases tmp) auto
  from run0 obtain t m1 where a: "qcalloc m (tmp_cir_len c) 1 = (Some t, m1)"
    by (auto simp: Let_def tmp split: prod.splits option.splits)
  let ?c = "\<lambda>taps. \<lparr>cir_receiver_segment = tc_receiver_segment c, cir_fpath_tap_offset = tc_fpath_tap_offset c,
    cir_n_taps = tc_n_taps c, cir_tap_size = tc_tap_size c, cir_taps = Some (t, take (tmp_cir_len c) taps)\<rparr>"
  from run0 a obtain x taps where taps: "tc_taps c = Some (x, taps)" "i < length cs"
    and run: "copy_cirs (cs[i := ?c taps]) tmp' is m1 = Some (cs', m')"
    by (auto simp: Let_def bind_Some_iff tmp split: if_splits)
  have "taps_blocks (cs[i := ?c taps]) = taps_blocks cs + {#t#}"
    using taps_update [OF taps(2), of "?c taps"] free [of i] by simp
  with qcalloc_blocks(1) [OF ok a] bl have "heap_ok m1" "blocks m1 = B + taps_blocks (cs[i := ?c taps])" by simp_all
  moreover have "cir_taps (cs[i := ?c taps] ! j) = None" if "j \<in> set is" for j
    using that Cons.prems(3) free [of j] by (cases "j = i") auto
  ultimately show ?case using Cons.IH [OF _ run] Cons.prems(3) by simp
qed simp

text \<open>What a field of this type would overwrite.\<close>

definition slot :: "byte \<Rightarrow> frame_report \<Rightarrow> nat multiset" where
  "slot field r =
     (if field = UCI_DIAG_REPORT_AOAS then opt_block (fr_aoas r)
      else if field = UCI_DIAG_REPORT_SEGMENT_METRICS then opt_block (fr_seg_metrics r)
      else if field = UCI_DIAG_REPORT_CIRS then cirs_blocks (fr_cirs r) else {#})"

text \<open>A step from a report to another: nothing is lost but, at most, what the field has overwritten.\<close>

definition kept :: "byte \<Rightarrow> nat multiset \<Rightarrow> frame_report \<Rightarrow> frame_report \<Rightarrow> qheap \<Rightarrow> bool" where
  "kept field B r r' m' \<longleftrightarrow> heap_ok m' \<and> report_sized r' \<and>
     (\<exists>L. L \<subseteq># slot field r \<and> blocks m' = B + L + report_blocks r') \<and> (\<forall>g. g \<noteq> field \<longrightarrow> slot g r' = slot g r)"

lemma keptI:
  "heap_ok m' \<Longrightarrow> report_sized r' \<Longrightarrow> L \<subseteq># slot field r \<Longrightarrow> blocks m' = B + L + report_blocks r' \<Longrightarrow>
   (\<And>g. g \<noteq> field \<Longrightarrow> slot g r' = slot g r) \<Longrightarrow> kept field B r r' m'"
  by (auto simp: kept_def)

lemma parse_aoas_kept:
  assumes ok: "heap_ok m" and bl: "blocks m = B + report_blocks r" and s: "report_sized r"
    and run: "parse_aoas h p m r n = Some (ret, r', m', p')"
  shows "kept UCI_DIAG_REPORT_AOAS B r r' m'"
proof (cases "qcalloc m 1 (sizeof_aoa * unat (of_nat (n div 8) :: byte))")
  case (Pair x m1)
  have ge: "opt_block (fr_aoas r) \<subseteq># slot UCI_DIAG_REPORT_AOAS r" by (simp add: slot_def)
  show ?thesis
  proof (cases x)
    case None
    note m1 = qcalloc_blocks(2) [OF ok Pair [unfolded None]]
    show ?thesis
      by (rule keptI [OF _ _ ge]) (use run Pair None m1 bl s in \<open>auto simp: parse_aoas_def Let_def report_blocks_def report_sized_def slot_def\<close>)
  next
    case (Some q)
    note m1 = qcalloc_blocks(1) [OF ok Pair [unfolded Some]]
    show ?thesis
      by (rule keptI [OF _ _ ge]) (use run Pair Some m1 bl s in
        \<open>auto simp: parse_aoas_def Let_def report_blocks_def report_sized_def slot_def bind_Some_iff\<close>)
  qed
qed

lemma parse_segment_metrics_kept:
  assumes ok: "heap_ok m" and bl: "blocks m = B + report_blocks r" and s: "report_sized r"
    and run: "parse_segment_metrics h p m r n = Some (ret, r', m', p')"
  shows "kept UCI_DIAG_REPORT_SEGMENT_METRICS B r r' m'"
proof (cases "qcalloc m 1 (sizeof_segment_metrics * unat (of_nat (n div 17) :: byte))")
  case (Pair x m1)
  have ge: "opt_block (fr_seg_metrics r) \<subseteq># slot UCI_DIAG_REPORT_SEGMENT_METRICS r" by (simp add: slot_def)
  show ?thesis
  proof (cases x)
    case None
    note m1 = qcalloc_blocks(2) [OF ok Pair [unfolded None]]
    show ?thesis
      by (rule keptI [OF _ _ ge]) (use run Pair None m1 bl s in
        \<open>auto simp: parse_segment_metrics_def Let_def report_blocks_def report_sized_def slot_def\<close>)
  next
    case (Some q)
    note m1 = qcalloc_blocks(1) [OF ok Pair [unfolded Some]]
    show ?thesis
      by (rule keptI [OF _ _ ge]) (use run Pair Some m1 bl s in
        \<open>auto simp: parse_segment_metrics_def Let_def report_blocks_def report_sized_def slot_def bind_Some_iff\<close>)
  qed
qed

lemma parse_cirs_kept:
  assumes ok: "heap_ok m" and bl: "blocks m = B + report_blocks r" and s: "report_sized r"
    and run: "parse_cirs h p m r n = Some (ret, r', m', p')"
  shows "kept UCI_DIAG_REPORT_CIRS B r r' m'"
proof -
  from run obtain e m1 p1 where e: "read_cirs h n 0 [] m p = Some (e, m1, p1)"
    by (auto simp: parse_cirs_def bind_Some_iff)
  have "blocks m = (B + report_blocks r) + tmp_blocks []" using bl by simp
  note m1 = read_cirs_blocks [OF ok this e]
  have none: "{#} \<subseteq># slot UCI_DIAG_REPORT_CIRS r" and ge: "cirs_blocks (fr_cirs r) \<subseteq># slot UCI_DIAG_REPORT_CIRS r"
    by (simp_all add: slot_def)
  show ?thesis
  proof (cases e)
    case Cirs_No_Memory
    with run e m1 s show ?thesis by (intro keptI [OF _ _ none]) (auto simp: parse_cirs_def)
  next
    case (Cirs_Malformed head)
    with run e have "free_tmp_cirs m1 head = Some m'" "r' = r" by (auto simp: parse_cirs_def bind_Some_iff)
    with frees_run [OF frees_tmp_cirs _ _ this(1)] m1 Cirs_Malformed s show ?thesis by (intro keptI [OF _ _ none]) auto
  next
    case (Cirs_Read k head)
    with m1 have m1': "heap_ok m1" "blocks m1 = B + report_blocks r + tmp_blocks head" by simp_all
    show ?thesis
    proof (cases "qcalloc m1 (unat k) sizeof_cir")
      case (Pair x m2)
      show ?thesis
      proof (cases x)
        case None
        note m2 = qcalloc_blocks(2) [OF m1'(1) Pair [unfolded None]]
        from run e Cirs_Read Pair None have f: "free_tmp_cirs m2 head = Some m'"
          and r': "r' = r\<lparr>fr_nb_cir := k, fr_cirs := None\<rparr>" by (auto simp: parse_cirs_def bind_Some_iff)
        have "blocks m2 = (B + report_blocks r) + tmp_blocks head" using m2 m1'(2) by simp
        from frees_run [OF frees_tmp_cirs _ this f] m2 show ?thesis unfolding r'
          by (intro keptI [OF _ _ ge]) (auto simp: report_blocks_def report_sized_def slot_def add_ac)
      next
        case (Some q)
        note m2 = qcalloc_blocks(1) [OF m1'(1) Pair [unfolded Some]]
        let ?z = "replicate (unat k) zero_cir"
        from run e Cirs_Read Pair Some obtain cs m3 where c: "copy_cirs ?z head (rev [0..<unat k]) m2 = Some (cs, m3)"
          and f: "free_tmp_cirs m3 head = Some m'" and r': "r' = r\<lparr>fr_nb_cir := k, fr_cirs := Some (q, cs)\<rparr>"
          by (auto simp: parse_cirs_def bind_Some_iff)
        have z: "taps_blocks ?z = {#}" "\<And>i. i \<in> set (rev [0..<unat k]) \<Longrightarrow> cir_taps (?z ! i) = None"
          by (simp_all add: taps_blocks_zero) (simp add: zero_cir_def)
        have b2: "blocks m2 = (B + report_blocks r + {#q#} + tmp_blocks head) + taps_blocks ?z" using m2 m1'(2) z(1) by simp
        from copy_cirs_blocks [OF _ c _ z(2) b2] m2 have m3: "heap_ok m3" "length cs = unat k"
          "blocks m3 = (B + report_blocks r + {#q#} + taps_blocks cs) + tmp_blocks head" by (auto simp: add_ac)
        from frees_run [OF frees_tmp_cirs m3(1,3) f] m3(2) show ?thesis unfolding r'
          by (intro keptI [OF _ _ ge]) (auto simp: report_blocks_def report_sized_def slot_def add_ac)
      qed
    qed
  qed
qed

lemma parse_field_kept:
  assumes ok: "heap_ok m" and bl: "blocks m = B + report_blocks r" and s: "report_sized r"
    and run: "parse_field h p m r f n = Some (ret, r', m', p')"
  shows "kept f B r r' m'"
proof -
  have none: "{#} \<subseteq># slot f r" by simp
  have rest: "kept f B r r' m'" if "m' = m" "report_blocks r' = report_blocks r" "report_sized r'" "\<And>g. slot g r' = slot g r"
    using that ok bl by (intro keptI [OF _ _ none]) auto
  consider "f = 1" | "f = 6" | "f = 7" | "f \<noteq> 1" "f \<noteq> 6" "f \<noteq> 7" by blast
  then show ?thesis
  proof cases
    case 1
    with parse_aoas_kept [OF ok bl s] run show ?thesis by (simp add: parse_field_def)
  next
    case 2
    with parse_segment_metrics_kept [OF ok bl s] run show ?thesis by (simp add: parse_field_def)
  next
    case 3
    with parse_cirs_kept [OF ok bl s] run show ?thesis by (simp add: parse_field_def)
  next
    case 4
    show ?thesis
      by (rule rest) (use run 4 s in \<open>auto simp: parse_field_def bind_Some_iff report_blocks_def slot_def report_sized_def
        split: if_splits\<close>)
  qed
qed

section \<open>The fields of a notification\<close>

text \<open>The number of bytes of the message a field takes, which is not always its length.\<close>

definition consumed :: "byte \<Rightarrow> nat \<Rightarrow> nat" where
  "consumed field n =
     (if field = UCI_DIAG_REPORT_AOAS then TLV_LENGTH_AOA * (n div TLV_LENGTH_AOA mod 256)
      else if field = UCI_DIAG_REPORT_EXTRA_STATUS then 2
      else if field = UCI_DIAG_REPORT_CFO_Q26 then 4
      else if field = UCI_DIAG_REPORT_EMITTER_SHORT_ADDR then 2
      else if field = UCI_DIAG_REPORT_SEGMENT_METRICS then TLV_LENGTH_SEG_METRICS * (n div TLV_LENGTH_SEG_METRICS mod 256)
      else n)"

text \<open>The types of the fields of a report, and what comes after it when it is complete; the reports.\<close>

fun field_walk :: "nat \<Rightarrow> bytes \<Rightarrow> byte list \<times> bytes option" where
  "field_walk 0 bs = ([], Some bs)"
| "field_walk (Suc k) bs =
     (if length bs < 3 then ([], None)
      else let n = unat (le_value (take 2 (drop 1 bs)) :: 16 word)
           in if length bs < 3 + n then ([], None)
              else case field_walk k (drop (consumed (bs ! 0) n) (drop 3 bs)) of (fs, r) \<Rightarrow> (bs ! 0 # fs, r))"

fun report_walk :: "nat \<Rightarrow> bytes \<Rightarrow> byte list list" where
  "report_walk 0 bs = []"
| "report_walk (Suc k) bs =
     (if length bs < 4 then []
      else case field_walk (unat (bs ! 3)) (drop 4 bs) of
        (fs, r) \<Rightarrow> fs # (case r of None \<Rightarrow> [] | Some bs \<Rightarrow> report_walk k bs))"

definition owning :: "byte \<Rightarrow> bool" where
  "owning f \<longleftrightarrow> f = UCI_DIAG_REPORT_AOAS \<or> f = UCI_DIAG_REPORT_SEGMENT_METRICS \<or> f = UCI_DIAG_REPORT_CIRS"

definition no_repeats :: "byte list \<Rightarrow> bool" where
  "no_repeats fs \<longleftrightarrow> distinct (filter owning fs)"

subsection \<open>Consumption\<close>

definition takes :: "'a reader \<Rightarrow> nat \<Rightarrow> bool" where
  "takes r k \<longleftrightarrow> (\<forall>h p bs x p'. parser_rep h p bs \<longrightarrow> r h p = Some (x, p') \<longrightarrow> parser_rep h p' (drop k bs))"

named_theorems takes_intros \<open>readers and how many bytes they take\<close>

lemma takesD: "takes r k \<Longrightarrow> parser_rep h p bs \<Longrightarrow> r h p = Some (x, p') \<Longrightarrow> parser_rep h p' (drop k bs)"
  by (auto simp: takes_def)

lemma takes_reads:
  assumes "reads r d" and "\<And>bs x rest. d bs = Some (x, rest) \<Longrightarrow> rest = drop k bs"
  shows "takes r k"
  unfolding takes_def
proof (intro allI impI)
  fix h p bs x p'
  assume rep: "parser_rep h p bs" and run: "r h p = Some (x, p')"
  show "parser_rep h p' (drop k bs)"
  proof (cases "d bs")
    case None
    with reads_None [OF assms(1) rep] run show ?thesis by simp
  next
    case (Some y)
    then obtain z rest where y: "d bs = Some (z, rest)" by (cases y) auto
    from reads_Some [OF assms(1) rep this] run have "parser_rep h p' rest" by auto
    with assms(2) [OF y] show ?thesis by simp
  qed
qed

lemma takes_scalars [takes_intros]:
  "takes uci_message_get_8bit 1" "takes uci_message_get_16bit 2" "takes uci_message_get_32bit 4"
  "takes (\<lambda>h p. uci_message_get h p n) n" "takes (\<lambda>h p. uci_message_skip h p n) n"
  by (rule takes_reads [OF reads_8bit] takes_reads [OF reads_16bit] takes_reads [OF reads_32bit]
      takes_reads [OF reads_get] takes_reads [OF reads_skip];
      auto simp: dec_8_eq dec_le_def dec_bytes_def dec_skip_def split: if_splits)+

lemma takes_return [takes_intros]: "takes (\<lambda>h p. Some (x, p)) 0"
  by (simp add: takes_def)

lemma takes_bind [takes_intros]:
  assumes "takes r j" and "\<And>x. takes (f x) k"
  shows "takes (\<lambda>h p. Option.bind (r h p) (\<lambda>(x, p). f x h p)) (j + k)"
  unfolding takes_def
proof (intro allI impI)
  fix h p bs y p'
  assume rep: "parser_rep h p bs" and "Option.bind (r h p) (\<lambda>(x, p). f x h p) = Some (y, p')"
  then obtain x q where q: "r h p = Some (x, q)" "f x h q = Some (y, p')" by (auto simp: bind_Some_iff)
  from takesD [OF assms(2) takesD [OF assms(1) rep q(1)] q(2)] show "parser_rep h p' (drop (j + k) bs)"
    by (simp add: add.commute)
qed

lemma takes_times:
  assumes "takes r k"
  shows "takes (read_times r n) (n * k)"
proof (induction n)
  case 0
  show ?case by (simp add: takes_def)
next
  case (Suc n)
  have "takes (\<lambda>h p. do { (x, p) \<leftarrow> r h p; (xs, p) \<leftarrow> read_times r n h p; Some (x # xs, p) }) (k + (n * k + 0))"
    by (intro takes_bind takes_return assms Suc.IH)
  then show ?case by (simp add: takes_def)
qed

lemma takes_aoa: "takes read_aoa 8"
proof -
  have "takes read_aoa (2 + (2 + (2 + (1 + (1 + 0)))))" unfolding read_aoa_def by (rule takes_intros)+
  then show ?thesis by simp
qed

lemma takes_segment_metrics: "takes read_segment_metrics 17"
proof -
  have "takes read_segment_metrics (1 + (2 + (2 + (2 + (2 + (2 + (2 + (2 + (2 + 0)))))))))"
    unfolding read_segment_metrics_def by (rule takes_intros)+
  then show ?thesis by simp
qed

lemma takes_cir_header: "takes read_cir_header 4"
proof -
  have "takes read_cir_header (1 + (1 + (1 + (1 + 0))))" unfolding read_cir_header_def by (rule takes_intros)+
  then show ?thesis by (simp add: numeral_eq_Suc)
qed

lemma read_cirs_takes:
  "parser_rep h p bs \<Longrightarrow> read_cirs h n k head m p = Some (e, m', p') \<Longrightarrow> e \<noteq> Cirs_No_Memory \<Longrightarrow>
   parser_rep h p' (drop n bs)"
proof (induction n arbitrary: k head m p bs rule: less_induct)
  case (less n)
  note rep = less.prems(1) and run = less.prems(2) and e = less.prems(3)
  show ?case
  proof (cases "n < 4")
    case True
    with run rep show ?thesis
      by (subst (asm) read_cirs.simps) (auto simp: bind_Some_iff dest: takesD [OF takes_scalars(5)] split: if_splits)
  next
    case big: False
    from run e big obtain q m1 where q: "qcalloc m 1 sizeof_tmp_cir = (Some q, m1)"
      by (subst (asm) read_cirs.simps) (auto simp: bind_Some_iff split: prod.splits option.splits if_splits)
    with run big obtain c p1 where c: "read_cir_header h p = Some (c, p1)"
      by (subst (asm) read_cirs.simps) (auto simp: bind_Some_iff split: if_splits)
    note run' = run [unfolded read_cirs_step [OF big q c]] and rep1 = takesD [OF takes_cir_header rep c]
    show ?thesis
    proof (cases "n - 4 < tmp_cir_len c")
      case True
      with run' obtain x where "uci_message_skip h p1 (n - 4) = Some (x, p')" by (auto simp: bind_Some_iff)
      from takesD [OF takes_scalars(5) rep1 this] big show ?thesis by simp
    next
      case fits: False
      with run' e obtain t m2 where t: "qcalloc m1 (tmp_cir_len c) 1 = (Some t, m2)"
        by (auto simp: bind_Some_iff split: prod.splits option.splits)
      from run' fits t obtain xs p2 taps where
        2: "uci_message_get h p1 (tmp_cir_len c) = Some (xs, p2)"
        "read_cirs h (n - 4 - tmp_cir_len c) (k + 1) ((q, c\<lparr>tc_taps := Some (t, taps)\<rparr>) # head) m2 p2 = Some (e, m', p')"
        by (auto simp: bind_Some_iff)
      have lt: "n - 4 - tmp_cir_len c < n" using big by simp
      from less.IH [OF lt takesD [OF takes_scalars(4) rep1 2(1)] 2(2) e] fits big show ?thesis
        by (simp add: add.commute)
    qed
  qed
qed

lemma parse_cirs_takes:
  assumes "parser_rep h p bs" and "parse_cirs h p m r n = Some (QERR_SUCCESS, r', m', p')"
  shows "parser_rep h p' (drop n bs)"
proof -
  from assms(2) obtain e m1 p1 where e: "read_cirs h n 0 [] m p = Some (e, m1, p1)"
    by (auto simp: parse_cirs_def bind_Some_iff)
  with assms(2) have "e \<noteq> Cirs_No_Memory" "p' = p1"
    by (auto simp: parse_cirs_def bind_Some_iff Let_def split: cir_end.splits prod.splits option.splits)
  with read_cirs_takes [OF assms(1) e] show ?thesis by simp
qed

lemma parse_field_takes:
  assumes rep: "parser_rep h p bs" and run: "parse_field h p m r f n = Some (QERR_SUCCESS, r', m', p')"
  shows "parser_rep h p' (drop (consumed f n) bs)"
proof -
  note t = takes_scalars [THEN takesD, OF rep]
  have w: "unat (of_nat k :: byte) = k mod 256" for k by (simp add: unat_of_nat take_bit_eq_mod)
  have ta: "takes (read_times read_aoa k) (8 * k)" for k using takes_times [OF takes_aoa, of k] by (simp add: mult.commute)
  have ts: "takes (read_times read_segment_metrics k) (17 * k)" for k
    using takes_times [OF takes_segment_metrics, of k] by (simp add: mult.commute)
  consider "f = 1" | "f = 6" | "f = 7" | "f \<noteq> 1" "f \<noteq> 6" "f \<noteq> 7" by blast
  then show ?thesis
  proof cases
    case 1
    with run takesD [OF ta rep] show ?thesis
      by (auto simp: parse_field_def parse_aoas_def consumed_def Let_def bind_Some_iff w
          split: prod.splits option.splits)
  next
    case 2
    with run takesD [OF ts rep] show ?thesis
      by (auto simp: parse_field_def parse_segment_metrics_def consumed_def Let_def bind_Some_iff w
          split: prod.splits option.splits)
  next
    case 3
    with parse_cirs_takes [OF rep] run show ?thesis by (simp add: parse_field_def consumed_def)
  next
    case 4
    with run show ?thesis
      by (auto simp: parse_field_def consumed_def bind_Some_iff split: if_splits intro: t)
  qed
qed

section \<open>Nothing is lost\<close>

lemma slot_not_owning [simp]: "\<not> owning f \<Longrightarrow> slot f r = {#}"
  by (simp add: owning_def slot_def)

lemma field_walk_Suc:
  assumes "3 \<le> length bs" and "n = unat (le_value (take 2 (drop 1 bs)) :: 16 word)" and "3 + n \<le> length bs"
    and "field_walk k (drop (consumed (bs ! 0) n) (drop 3 bs)) = (fs, r)"
  shows "field_walk (Suc k) bs = (bs ! 0 # fs, r)"
  using assms by (simp add: Let_def)

lemma parse_fields_kept:
  assumes "parser_rep h p bs" and "heap_ok m" and "blocks m = B + report_blocks r" and "report_sized r"
    and "parse_fields h k r m p = Some (ret, r', m', p')"
    and "field_walk k bs = (fs, rest)" and "no_repeats fs" and "\<And>f. f \<in> set fs \<Longrightarrow> slot f r = {#}"
  shows "heap_ok m' \<and> report_sized r' \<and> blocks m' = B + report_blocks r' \<and>
    (ret = QERR_SUCCESS \<longrightarrow> (\<exists>bs'. rest = Some bs' \<and> parser_rep h p' bs'))"
  using assms
proof (induction k arbitrary: p bs m r fs rest)
  case 0
  then show ?case by auto
next
  case (Suc k)
  note rep = Suc.prems(1) and run = Suc.prems(5)
  note rem = remaining_rep [OF rep]
  show ?case
  proof (cases "length bs < 3")
    case True
    with Suc.prems rem show ?thesis by auto
  next
    case three: False
    with run rem obtain f p1 n p2 where f: "uci_message_get_8bit h p = Some (f, p1)"
      and n: "uci_message_get_16bit h p1 = Some (n, p2)" by (auto simp: bind_Some_iff)
    from three obtain b bs1 where b: "bs = b # bs1" by (cases bs) auto
    from rep [unfolded b] f have fb: "f = bs ! 0" "parser_rep h p1 bs1" using get_8bit_rep b by fastforce+
    have len1: "2 \<le> length bs1" using three b by simp
    from get_16bit_rep [OF fb(2) len1] n have nb: "n = le_value (take 2 (drop 1 bs))" and rep2: "parser_rep h p2 (drop 3 bs)"
      using b by auto
    note rem2 = remaining_rep [OF rep2]
    show ?thesis
    proof (cases "length bs < 3 + unat n")
      case True
      then have "uci_message_remaining p2 < unat n" using rem2 three by simp
      with run rem f n three have "ret = QERR_EINVAL" "r' = r" "m' = m" by auto
      with Suc.prems(2-4) show ?thesis by simp
    next
      case False
      then have "\<not> uci_message_remaining p2 < unat n" using rem2 by simp
      with run rem f n three obtain ret1 r1 m1 p3 where
        1: "parse_field h p2 m r f (unat n) = Some (ret1, r1, m1, p3)"
        "(if ret1 \<noteq> QERR_SUCCESS then Some (ret1, r1, m1, p3) else parse_fields h k r1 m1 p3) = Some (ret, r', m', p')"
        by (auto simp: bind_Some_iff)
      obtain fs1 rest1 where w: "field_walk k (drop (consumed (bs ! 0) (unat n)) (drop 3 bs)) = (fs1, rest1)" by fastforce
      have fs: "fs = bs ! 0 # fs1" "rest = rest1"
        using field_walk_Suc [OF _ arg_cong [OF nb, of unat] _ w] Suc.prems(6) three False by auto
      have free: "slot f r = {#}" using Suc.prems(8) fs fb by simp
      with parse_field_kept [OF Suc.prems(2-4) 1(1)] have k: "heap_ok m1" "report_sized r1" "blocks m1 = B + report_blocks r1"
        "\<And>g. g \<noteq> f \<Longrightarrow> slot g r1 = slot g r" by (auto simp: kept_def)
      show ?thesis
      proof (cases "ret1 = QERR_SUCCESS")
        case False
        with 1 k show ?thesis by auto
      next
        case True
        with 1 have run1: "parse_fields h k r1 m1 p3 = Some (ret, r', m', p')" by simp
        have rep3: "parser_rep h p3 (drop (consumed (bs ! 0) (unat n)) (drop 3 bs))"
          using parse_field_takes [OF rep2] 1(1) True fb by simp
        have nr: "no_repeats fs1" and new: "owning f \<Longrightarrow> f \<notin> set fs1"
          using Suc.prems(7) fs fb by (auto simp: no_repeats_def split: if_splits)
        have "slot g r1 = {#}" if "g \<in> set fs1" for g
        proof (cases "g = f")
          case True
          with new that show ?thesis by (cases "owning f") auto
        next
          case False
          with k(4) Suc.prems(8) [of g] fs that show ?thesis by simp
        qed
        from Suc.IH [OF rep3 k(1,3,2) run1 w nr this] show ?thesis using fs by simp
      qed
    qed
  qed
qed

lemma slot_zero: "slot f zero_report = {#}" "report_blocks zero_report = {#}" "report_sized zero_report"
  by (simp_all add: slot_def zero_report_def report_blocks_def report_sized_def)

lemma parse_report_kept:
  assumes rep: "parser_rep h p bs" and ok: "heap_ok m" and bl: "blocks m = B"
    and run: "parse_report h zero_report m p = Some (ret, r', m', p')"
    and nr: "4 \<le> length bs \<Longrightarrow> no_repeats (fst (field_walk (unat (bs ! 3)) (drop 4 bs)))"
  shows "heap_ok m' \<and> report_sized r' \<and> blocks m' = B + report_blocks r' \<and>
    (ret = QERR_SUCCESS \<longrightarrow> 4 \<le> length bs \<and>
       (\<exists>bs'. snd (field_walk (unat (bs ! 3)) (drop 4 bs)) = Some bs' \<and> parser_rep h p' bs'))"
proof (cases "length bs < 4")
  case True
  with run ok bl remaining_rep [OF rep] show ?thesis by (auto simp: parse_report_def slot_zero)
next
  case False
  let ?w = "field_walk (unat (bs ! 3)) (drop 4 bs)"
  from False obtain a b c d rest where bs: "bs = [a, b, c, d] @ rest"
    by (cases bs; cases "tl bs"; cases "tl (tl bs)"; cases "tl (tl (tl bs))") auto
  from rep bs obtain p1 where 1: "uci_message_get_8bit h p = Some (a, p1)" "parser_rep h p1 ([b, c, d] @ rest)"
    using get_8bit_rep by fastforce
  from 1(2) obtain p2 where 2: "uci_message_get_8bit h p1 = Some (b, p2)" "parser_rep h p2 ([c, d] @ rest)"
    using get_8bit_rep by fastforce
  from 2(2) obtain p3 where 3: "uci_message_get_8bit h p2 = Some (c, p3)" "parser_rep h p3 (d # rest)"
    using get_8bit_rep by fastforce
  from 3(2) obtain p4 where 4: "uci_message_get_8bit h p3 = Some (d, p4)" "parser_rep h p4 rest"
    using get_8bit_rep by fastforce
  let ?r = "zero_report\<lparr>fr_msg_id := a, fr_action := b, fr_antenna_set := c\<rparr>"
  have r: "slot f ?r = {#}" "report_blocks ?r = {#}" "report_sized ?r" for f
    by (simp_all add: slot_def zero_report_def report_blocks_def report_sized_def)
  from run 1 2 3 4 False remaining_rep [OF rep] have "parse_fields h (unat d) ?r m p4 = Some (ret, r', m', p')"
    by (simp add: parse_report_def)
  from parse_fields_kept [OF 4(2) ok _ r(3) this, of B "fst ?w" "snd ?w"] bl nr r bs False show ?thesis by simp
qed

lemma reports_update:
  assumes "i < length rs"
  shows "reports_blocks (rs[i := r]) + report_blocks (rs ! i) = reports_blocks rs + report_blocks r"
proof -
  have "rs = take i rs @ rs ! i # drop (Suc i) rs" using assms by (simp add: id_take_nth_drop)
  then have "reports_blocks rs = reports_blocks (take i rs) + (report_blocks (rs ! i) + reports_blocks (drop (Suc i) rs))"
    unfolding reports_blocks_def by (metis (no_types, lifting) map_append list.map(2) sum_list.Cons sum_list_append)
  moreover have "reports_blocks (rs[i := r]) =
      reports_blocks (take i rs) + (report_blocks r + reports_blocks (drop (Suc i) rs))"
    using assms by (simp add: reports_blocks_def upd_conv_take_nth_drop)
  ultimately show ?thesis by (simp add: add_ac)
qed

lemma reports_blocks_zero: "reports_blocks (replicate n zero_report) = {#}"
  by (induction n) (simp_all add: reports_blocks_def slot_zero)

text \<open>The reports are read in order into an array of empty reports.\<close>

lemma parse_reports_kept:
  assumes "parser_rep h p bs" and "heap_ok m" and "blocks m = B + reports_blocks rs"
    and "parse_reports h rs is m p = Some (ret, rs', m', p')"
    and "distinct is" and "\<And>i. i \<in> set is \<Longrightarrow> rs ! i = zero_report" and "\<And>r. r \<in> set rs \<Longrightarrow> report_sized r"
    and "list_all no_repeats (report_walk (length is) bs)"
  shows "heap_ok m' \<and> blocks m' = B + reports_blocks rs' \<and> length rs' = length rs \<and> (\<forall>r \<in> set rs'. report_sized r)"
  using assms
proof (induction "is" arbitrary: p bs m rs)
  case (Cons i "is")
  note rep = Cons.prems(1)
  obtain fs rest where w: "field_walk (unat (bs ! 3)) (drop 4 bs) = (fs, rest)" by fastforce
  have nr: "4 \<le> length bs \<Longrightarrow> no_repeats (fst (field_walk (unat (bs ! 3)) (drop 4 bs)))"
    using Cons.prems(8) w by simp
  from Cons.prems(4,6) obtain ret1 r m1 p1 where i: "i < length rs"
    and 1: "parse_report h zero_report m p = Some (ret1, r, m1, p1)"
    "(if ret1 \<noteq> QERR_SUCCESS then Some (ret1, rs[i := r], m1, p1) else parse_reports h (rs[i := r]) is m1 p1) =
      Some (ret, rs', m', p')" by (auto simp: bind_Some_iff split: if_splits)
  from parse_report_kept [OF rep Cons.prems(2,3) 1(1) nr] have k: "heap_ok m1" "report_sized r"
    "blocks m1 = B + reports_blocks rs + report_blocks r"
    "ret1 = QERR_SUCCESS \<Longrightarrow> 4 \<le> length bs \<and> (\<exists>bs'. rest = Some bs' \<and> parser_rep h p1 bs')" using w by simp_all
  have bl: "blocks m1 = B + reports_blocks (rs[i := r])"
    using reports_update [OF i, of r] k(3) Cons.prems(6) [of i] by (simp add: slot_zero add_ac)
  have sz: "report_sized x" if "x \<in> set (rs[i := r])" for x
    using that k(2) Cons.prems(7) set_update_subset_insert [of rs i r] by auto
  show ?case
  proof (cases "ret1 = QERR_SUCCESS")
    case False
    with 1(2) k(1) bl sz show ?thesis by auto
  next
    case True
    with k(4) obtain bs' where bs': "4 \<le> length bs" "rest = Some bs'" "parser_rep h p1 bs'" by blast
    have "list_all no_repeats (report_walk (length is) bs')" using Cons.prems(8) w bs' by simp
    moreover have "(rs[i := r]) ! j = zero_report" if "j \<in> set is" for j
      using that Cons.prems(5) Cons.prems(6) [of j] by (cases "j = i") auto
    moreover have "parse_reports h (rs[i := r]) is m1 p1 = Some (ret, rs', m', p')" using 1(2) True by simp
    ultimately show ?thesis using Cons.IH [OF bs'(3) k(1) bl _ _ _ sz] Cons.prems(5) by simp
  qed
qed auto

text \<open>The reports of a notification have no two fields of a type that owns memory.\<close>

definition diag_no_repeats :: "bytes \<Rightarrow> bool" where
  "diag_no_repeats bs \<longleftrightarrow> list_all no_repeats (report_walk (unat (bs ! 8)) (drop 9 bs))"

lemma read_diag_header:
  assumes rep: "parser_rep h p bs" and len: "9 \<le> length bs"
  shows "\<exists>p1 p2 p3. uci_message_get_32bit h p = Some (le_value (take 4 bs), p1) \<and>
    uci_message_get_32bit h p1 = Some (le_value (take 4 (drop 4 bs)), p2) \<and>
    uci_message_get_8bit h p2 = Some (bs ! 8, p3) \<and> parser_rep h p3 (drop 9 bs)"
proof -
  from get_32bit_rep [OF rep] len obtain p1 where
    1: "uci_message_get_32bit h p = Some (le_value (take 4 bs), p1)" "parser_rep h p1 (drop 4 bs)" by auto
  have "4 \<le> length (drop 4 bs)" using len by simp
  from get_32bit_rep [OF 1(2) this] obtain p2 where
    2: "uci_message_get_32bit h p1 = Some (le_value (take 4 (drop 4 bs)), p2)" "parser_rep h p2 (drop 8 bs)" by auto
  have d: "drop 8 bs = bs ! 8 # drop 9 bs" using len Cons_nth_drop_Suc [of 8 bs] by simp
  from 2(2) [unfolded d] obtain p3 where "uci_message_get_8bit h p2 = Some (bs ! 8, p3)" "parser_rep h p3 (drop 9 bs)"
    using get_8bit_rep by blast
  with 1 2 show ?thesis by blast
qed

lemma unat_byte_32: "unat (ucast (b :: byte) :: 32 word) = unat b"
proof -
  have "unat b < 2 ^ 32" by (rule order.strict_trans2 [OF unsigned_less]) simp
  then show ?thesis by (simp add: unsigned_ucast_eq take_bit_nat_eq_self)
qed

lemma parse_diagnostics_kept:
  assumes rep: "parser_rep h p bs" and ok: "heap_ok m" and nr: "diag_no_repeats bs"
    and run: "parse_diagnostics h p m = Some (ret, d, m')"
  shows "heap_ok m' \<and> (case d of
      None \<Rightarrow> ret \<noteq> QERR_SUCCESS \<and> blocks m' = blocks m
    | Some x \<Rightarrow> ret = QERR_SUCCESS \<and> blocks m' = blocks m + diag_blocks x \<and> diag_sized (snd x))"
proof (cases "length bs < 9 \<or> fst (qcalloc m 1 sizeof_diagnostic_info) = None")
  case True
  with run remaining_rep [OF rep] ok qcalloc_blocks(2) [OF ok] show ?thesis
    by (cases "qcalloc m 1 sizeof_diagnostic_info") (auto simp: parse_diagnostics_def split: if_splits)
next
  case False
  then obtain q m1 where q: "qcalloc m 1 sizeof_diagnostic_info = (Some q, m1)" and len: "9 \<le> length bs"
    by (cases "qcalloc m 1 sizeof_diagnostic_info") auto
  note m1 = qcalloc_blocks(1) [OF ok q]
  from read_diag_header [OF rep len] obtain p1 p2 p3 where
    hd: "uci_message_get_32bit h p = Some (le_value (take 4 bs), p1)"
    "uci_message_get_32bit h p1 = Some (le_value (take 4 (drop 4 bs)), p2)"
    "uci_message_get_8bit h p2 = Some (bs ! 8, p3)" "parser_rep h p3 (drop 9 bs)" by blast
  have rem: "\<not> uci_message_remaining p < 9" using remaining_rep [OF rep] len by simp
  let ?n = "unat (bs ! 8)"
  show ?thesis
  proof (cases "qcalloc m1 1 (sizeof_frame_report * ?n)")
    case (Pair x m2)
    show ?thesis
    proof (cases x)
      case None
      with run rem q hd Pair have "qfree m1 (Some q) = Some m'" "d = None" "ret = QERR_ENOMEM" if "m2 = m1"
        using that by (auto simp: parse_diagnostics_def bind_Some_iff)
      moreover have "blocks m2 = blocks m + {#q#}" "heap_ok m2"
        using qcalloc_blocks(2) [OF conjunct1 [OF m1] Pair [unfolded None]] m1 by simp_all
      moreover have "qfree m2 (Some q) = Some m'" "d = None" "ret = QERR_ENOMEM"
        using run rem q hd Pair None by (auto simp: parse_diagnostics_def bind_Some_iff)
      ultimately show ?thesis using frees_run [OF frees_block, of m2 "blocks m" q m'] by simp
    next
      case (Some s)
      note m2 = qcalloc_blocks(1) [OF conjunct1 [OF m1] Pair [unfolded Some]]
      let ?z = "replicate ?n zero_report"
      from run rem q hd Pair Some obtain ret1 rs m3 p4 where
        r: "parse_reports h ?z [0..<?n] m2 p3 = Some (ret1, rs, m3, p4)"
        and fin: "(if ret1 \<noteq> QERR_SUCCESS
           then do { m \<leftarrow> cherry_uci_client_fira_free_diag m3 (Some (q, \<lparr>di_session_handle = le_value (take 4 bs),
                  di_sequence_number = le_value (take 4 (drop 4 bs)), di_nb_reports = ucast (bs ! 8), di_reports = (s, rs)\<rparr>));
                  Some (ret1, None, m) }
           else Some (QERR_SUCCESS, Some (q, \<lparr>di_session_handle = le_value (take 4 bs),
                  di_sequence_number = le_value (take 4 (drop 4 bs)), di_nb_reports = ucast (bs ! 8), di_reports = (s, rs)\<rparr>), m3)) =
          Some (ret, d, m')"
        by (auto simp: parse_diagnostics_def bind_Some_iff Let_def)
      let ?d = "\<lparr>di_session_handle = le_value (take 4 bs), di_sequence_number = le_value (take 4 (drop 4 bs)),
        di_nb_reports = ucast (bs ! 8), di_reports = (s, rs)\<rparr> :: diagnostic_info"
      have z: "reports_blocks ?z = {#}" by (simp add: reports_blocks_zero)
      have "blocks m2 = (blocks m + {#q#} + {#s#}) + reports_blocks ?z" using m1 m2 z by simp
      from parse_reports_kept [OF hd(4) conjunct1 [OF m2] this r] nr have
        k: "heap_ok m3" "blocks m3 = (blocks m + {#q#} + {#s#}) + reports_blocks rs" "length rs = ?n"
           "\<forall>r \<in> set rs. report_sized r" by (auto simp: diag_no_repeats_def slot_zero)
      have bl: "blocks m3 = blocks m + diag_blocks (q, ?d)" using k(2) by (simp add: diag_blocks_def)
      from k unat_byte_32 [of "bs ! 8"] have sz: "diag_sized ?d" by (simp add: diag_sized_def)
      show ?thesis
      proof (cases "ret1 = QERR_SUCCESS")
        case True
        with fin k(1) bl sz show ?thesis by auto
      next
        case False
        with fin have "cherry_uci_client_fira_free_diag m3 (Some (q, ?d)) = Some m'" "ret = ret1" "d = None"
          by (auto simp: bind_Some_iff)
        with frees_run [OF frees_diag [OF sz] k(1) bl] False show ?thesis by simp
      qed
    qed
  qed
qed

text \<open>Freeing what the callback was given leaves the memory as it was.\<close>

lemma diagnostics_freed:
  assumes "parser_rep h p bs" and "heap_ok m" and "diag_no_repeats bs"
    and "parse_diagnostics h p m = Some (QERR_SUCCESS, Some d, m')"
  shows "\<exists>m''. cherry_uci_client_fira_free_diag m' (Some d) = Some m'' \<and> blocks m'' = blocks m"
proof -
  obtain q i where d: "d = (q, i)" by (cases d)
  from parse_diagnostics_kept [OF assms] d have k: "heap_ok m'" "blocks m' = blocks m + diag_blocks (q, i)" "diag_sized i"
    by simp_all
  from frees_diag [OF k(3), of q] k(1,2) obtain m'' where
    "cherry_uci_client_fira_free_diag m' (Some (q, i)) = Some m''" "blocks m'' = blocks m' - diag_blocks (q, i)"
    by (auto simp: frees_def)
  with d k(2) show ?thesis by simp
qed

end
