(* ===== verification/Fira_Diag_Layout.thy ===== *)
theory Fira_Diag_Layout
  imports Fira_Diag_Memory
begin

text \<open>
  The layout of a range diagnostics notification, and that reading the bytes of a layout gives its
  reports when memory does not run out. Structures are compared up to the addresses of their blocks.
\<close>

section \<open>Layout\<close>

record impulse =
  im_segment :: byte
  im_offset :: byte
  im_n_taps :: byte
  im_tap_size :: byte
  im_taps :: bytes

datatype diag_field =
    Aoas_Field "aoa_measurement list"
  | Extra_Field "16 word"
  | Cfo_Field "32 word"
  | Emitter_Field "16 word"
  | Metrics_Field "segment_metrics list"
  | Cirs_Field "impulse list"
  | Other_Field byte bytes

definition aoa_bytes :: "aoa_measurement \<Rightarrow> bytes" where
  "aoa_bytes a = le_bytes 2 (am_tdoa a) @ le_bytes 2 (am_pdoa a) @ le_bytes 2 (am_aoa a) @ [am_fom a, am_type a]"

definition metrics_bytes :: "segment_metrics \<Rightarrow> bytes" where
  "metrics_bytes s = sm_receiver_segment s # le_bytes 2 (sm_noise_value s) @ le_bytes 2 (sm_rsl_q8 s) @
     le_bytes 2 (sm_fp_index s) @ le_bytes 2 (sm_fp_rsl_q8 s) @ le_bytes 2 (sm_fp_ns_q6 s) @
     le_bytes 2 (sm_pp_index s) @ le_bytes 2 (sm_pp_rsl_q8 s) @ le_bytes 2 (sm_pp_ns_q6 s)"

definition impulse_bytes :: "impulse \<Rightarrow> bytes" where
  "impulse_bytes i = [im_segment i, im_offset i, im_n_taps i, im_tap_size i] @ im_taps i"

fun field_type :: "diag_field \<Rightarrow> byte" where
  "field_type (Aoas_Field _) = UCI_DIAG_REPORT_AOAS"
| "field_type (Extra_Field _) = UCI_DIAG_REPORT_EXTRA_STATUS"
| "field_type (Cfo_Field _) = UCI_DIAG_REPORT_CFO_Q26"
| "field_type (Emitter_Field _) = UCI_DIAG_REPORT_EMITTER_SHORT_ADDR"
| "field_type (Metrics_Field _) = UCI_DIAG_REPORT_SEGMENT_METRICS"
| "field_type (Cirs_Field _) = UCI_DIAG_REPORT_CIRS"
| "field_type (Other_Field t _) = t"

fun field_data :: "diag_field \<Rightarrow> bytes" where
  "field_data (Aoas_Field xs) = concat (map aoa_bytes xs)"
| "field_data (Extra_Field v) = le_bytes 2 v"
| "field_data (Cfo_Field v) = le_bytes 4 v"
| "field_data (Emitter_Field v) = le_bytes 2 v"
| "field_data (Metrics_Field xs) = concat (map metrics_bytes xs)"
| "field_data (Cirs_Field xs) = concat (map impulse_bytes xs)"
| "field_data (Other_Field _ bs) = bs"

text \<open>Lists of a field are neither empty nor longer than their counters can hold, and no response is without taps.\<close>

definition impulse_ok :: "impulse \<Rightarrow> bool" where
  "impulse_ok i \<longleftrightarrow> length (im_taps i) = unat (im_n_taps i) * unat (im_tap_size i) \<and> im_taps i \<noteq> []"

fun field_ok :: "diag_field \<Rightarrow> bool" where
  "field_ok (Aoas_Field xs) \<longleftrightarrow> xs \<noteq> [] \<and> length xs < 256"
| "field_ok (Metrics_Field xs) \<longleftrightarrow> xs \<noteq> [] \<and> length xs < 256"
| "field_ok (Cirs_Field xs) \<longleftrightarrow> xs \<noteq> [] \<and> length xs < 256 \<and> list_all impulse_ok xs"
| "field_ok (Other_Field t bs) \<longleftrightarrow> t \<notin> {UCI_DIAG_REPORT_AOAS, UCI_DIAG_REPORT_EXTRA_STATUS, UCI_DIAG_REPORT_CFO_Q26,
     UCI_DIAG_REPORT_EMITTER_SHORT_ADDR, UCI_DIAG_REPORT_SEGMENT_METRICS, UCI_DIAG_REPORT_CIRS}"
| "field_ok _ \<longleftrightarrow> True"

definition field_bytes :: "diag_field \<Rightarrow> bytes" where
  "field_bytes f = field_type f # le_bytes 2 (of_nat (length (field_data f)) :: 16 word) @ field_data f"

record diag_report =
  dg_msg_id :: byte
  dg_action :: byte
  dg_antenna_set :: byte
  dg_fields :: "diag_field list"

definition report_bytes :: "diag_report \<Rightarrow> bytes" where
  "report_bytes r = [dg_msg_id r, dg_action r, dg_antenna_set r, of_nat (length (dg_fields r))] @
     concat (map field_bytes (dg_fields r))"

definition report_ok :: "diag_report \<Rightarrow> bool" where
  "report_ok r \<longleftrightarrow> length (dg_fields r) < 256 \<and> list_all (\<lambda>f. field_ok f \<and> length (field_data f) < 65536) (dg_fields r)"

definition diag_bytes :: "32 word \<Rightarrow> 32 word \<Rightarrow> diag_report list \<Rightarrow> bytes" where
  "diag_bytes handle sequence rs =
     le_bytes 4 handle @ le_bytes 4 sequence @ [of_nat (length rs)] @ concat (map report_bytes rs)"

text \<open>The structure that stands for a report, with 0 as the address of every block.\<close>

definition cir_of :: "impulse \<Rightarrow> cir" where
  "cir_of i = \<lparr>cir_receiver_segment = im_segment i, cir_fpath_tap_offset = ucast (im_offset i),
     cir_n_taps = ucast (im_n_taps i), cir_tap_size = im_tap_size i, cir_taps = Some (0, im_taps i)\<rparr>"

fun apply_field :: "diag_field \<Rightarrow> frame_report \<Rightarrow> frame_report" where
  "apply_field (Aoas_Field xs) r = r\<lparr>fr_nb_aoa := of_nat (length xs), fr_aoas := Some (0, xs)\<rparr>"
| "apply_field (Extra_Field v) r = r\<lparr>fr_extra_status := v, fr_extra_status_present := True\<rparr>"
| "apply_field (Cfo_Field v) r = r\<lparr>fr_cfo_q26 := v, fr_cfo_present := True\<rparr>"
| "apply_field (Emitter_Field v) r = r\<lparr>fr_emitter_short_addr := v, fr_emitter_short_addr_present := True\<rparr>"
| "apply_field (Metrics_Field xs) r = r\<lparr>fr_nb_seg_metrics := of_nat (length xs), fr_seg_metrics := Some (0, xs)\<rparr>"
| "apply_field (Cirs_Field xs) r = r\<lparr>fr_nb_cir := of_nat (length xs), fr_cirs := Some (0, map cir_of xs)\<rparr>"
| "apply_field (Other_Field _ _) r = r"

definition report_of :: "diag_report \<Rightarrow> frame_report" where
  "report_of r = fold apply_field (dg_fields r)
     (zero_report\<lparr>fr_msg_id := dg_msg_id r, fr_action := dg_action r, fr_antenna_set := dg_antenna_set r\<rparr>)"

definition at_0 :: "(nat \<times> 'a) option \<Rightarrow> (nat \<times> 'a) option" where
  "at_0 x = map_option (\<lambda>(p, y). (0, y)) x"

definition strip_cir :: "cir \<Rightarrow> cir" where
  "strip_cir c = c\<lparr>cir_taps := at_0 (cir_taps c)\<rparr>"

definition strip :: "frame_report \<Rightarrow> frame_report" where
  "strip r = r\<lparr>fr_seg_metrics := at_0 (fr_seg_metrics r), fr_aoas := at_0 (fr_aoas r),
     fr_cirs := map_option (\<lambda>(p, cs). (0, map strip_cir cs)) (fr_cirs r)\<rparr>"

section \<open>Reading lists\<close>

definition ample :: "qheap \<Rightarrow> bool" where
  "ample m \<longleftrightarrow> heap_ok m \<and> (\<forall>n. \<not> q_fails m n)"

lemma qcalloc_ample:
  assumes "ample m" and "0 < a * b" and "a * b < 2 ^ 64"
  shows "\<exists>p m'. qcalloc m a b = (Some p, m') \<and> ample m' \<and> blocks m' = blocks m + {#p#}"
proof -
  obtain r m' where r: "qmalloc m (a * b) = (r, m')" by fastforce
  with assms have "r \<noteq> None" by (auto simp: qmalloc_def qmalloc_internal_def ample_def)
  with r qmalloc_blocks [of m "a * b" r m'] assms show ?thesis by (auto simp: qcalloc_def ample_def)
qed

lemma frees_ample: "frees f X \<Longrightarrow> ample m \<Longrightarrow> blocks m = B + X \<Longrightarrow> \<exists>m'. f m = Some m' \<and> ample m' \<and> blocks m' = B"
  by (force simp: frees_def ample_def)

fun dec_times :: "'a decoder \<Rightarrow> nat \<Rightarrow> 'a list decoder" where
  "dec_times d 0 bs = Some ([], bs)"
| "dec_times d (Suc n) bs = do { (x, bs) \<leftarrow> d bs; (xs, bs) \<leftarrow> dec_times d n bs; Some (x # xs, bs) }"

lemma reads_times:
  assumes "reads r d"
  shows "reads (read_times r n) (dec_times d n)"
proof (induction n)
  case 0
  show ?case by (simp add: reads_def)
next
  case (Suc n)
  have "reads (\<lambda>h p. do { (x, p) \<leftarrow> r h p; (xs, p) \<leftarrow> read_times r n h p; Some (x # xs, p) })
      (\<lambda>bs. do { (x, bs) \<leftarrow> d bs; (xs, bs) \<leftarrow> dec_times d n bs; Some (x # xs, bs) })"
    by (intro reads_bind reads_return assms Suc.IH)
  then show ?case by (simp add: reads_def)
qed

lemma dec_times_concat:
  "(\<And>x bs. d (f x @ bs) = Some (x, bs)) \<Longrightarrow> dec_times d (length xs) (concat (map f xs) @ bs) = Some (xs, bs)"
  by (induction xs) simp_all

lemma read_times_concat:
  assumes "reads r d" and "\<And>x bs. d (f x @ bs) = Some (x, bs)" and "parser_rep h p (concat (map f xs) @ bs)"
  shows "\<exists>p'. read_times r (length xs) h p = Some (xs, p') \<and> parser_rep h p' bs"
  using reads_Some [OF reads_times [OF assms(1)] assms(3) dec_times_concat [of d f, OF assms(2)]] .

lemma read_aoas:
  assumes "parser_rep h p (concat (map aoa_bytes xs) @ bs)"
  shows "\<exists>p'. read_times read_aoa (length xs) h p = Some (xs, p') \<and> parser_rep h p' bs"
proof -
  have "\<exists>d. reads read_aoa d \<and> (\<forall>x bs. d (aoa_bytes x @ bs) = Some (x, bs))"
    unfolding read_aoa_def
    by (rule exI, rule conjI, (rule reads_intros)+) (simp add: aoa_bytes_def)
  with assms read_times_concat show ?thesis by metis
qed

lemma read_metrics:
  assumes "parser_rep h p (concat (map metrics_bytes xs) @ bs)"
  shows "\<exists>p'. read_times read_segment_metrics (length xs) h p = Some (xs, p') \<and> parser_rep h p' bs"
proof -
  have "\<exists>d. reads read_segment_metrics d \<and> (\<forall>x bs. d (metrics_bytes x @ bs) = Some (x, bs))"
    unfolding read_segment_metrics_def
    by (rule exI, rule conjI, (rule reads_intros)+) (simp add: metrics_bytes_def)
  with assms read_times_concat show ?thesis by metis
qed

section \<open>Impulse responses\<close>

definition shows_impulse :: "tmp_cir \<Rightarrow> impulse \<Rightarrow> bool" where
  "shows_impulse c i \<longleftrightarrow> tc_receiver_segment c = im_segment i \<and> tc_fpath_tap_offset c = ucast (im_offset i) \<and>
     tc_n_taps c = ucast (im_n_taps i) \<and> tc_tap_size c = im_tap_size i \<and> (\<exists>t. tc_taps c = Some (t, im_taps i))"

lemma read_cir_header_layout:
  assumes "parser_rep h p (impulse_bytes i @ bs)"
  shows "\<exists>p'. read_cir_header h p = Some (\<lparr>tc_receiver_segment = im_segment i, tc_fpath_tap_offset = ucast (im_offset i),
      tc_n_taps = ucast (im_n_taps i), tc_tap_size = im_tap_size i, tc_taps = None\<rparr>, p') \<and> parser_rep h p' (im_taps i @ bs)"
proof -
  have "\<exists>d. reads read_cir_header d \<and> (\<forall>a b n s bs. d (a # b # n # s # bs) = Some (\<lparr>tc_receiver_segment = a,
      tc_fpath_tap_offset = ucast b, tc_n_taps = ucast n, tc_tap_size = s, tc_taps = None\<rparr>, bs))"
    unfolding read_cir_header_def
    by (rule exI, rule conjI, (rule reads_intros)+) simp
  then obtain d where d: "reads read_cir_header d" "\<And>a b n s bs. d (a # b # n # s # bs) =
      Some (\<lparr>tc_receiver_segment = a, tc_fpath_tap_offset = ucast b, tc_n_taps = ucast n, tc_tap_size = s,
        tc_taps = None\<rparr>, bs)" by blast
  from reads_Some [OF d(1) assms, unfolded impulse_bytes_def, simplified, OF d(2)] show ?thesis .
qed

lemma impulse_len:
  assumes "impulse_ok i"
  shows "unat (im_n_taps i) * unat (im_tap_size i) = length (im_taps i)" "0 < length (im_taps i)"
    "length (im_taps i) < 2 ^ 64"
proof -
  show eq: "unat (im_n_taps i) * unat (im_tap_size i) = length (im_taps i)" "0 < length (im_taps i)"
    using assms unfolding impulse_ok_def by (metis, metis length_greater_0_conv)
  have "unat (im_n_taps i) < 2 ^ 8" "unat (im_tap_size i) < 2 ^ 8" by (rule order.strict_trans2 [OF unsigned_less], simp)+
  then have "unat (im_n_taps i) * unat (im_tap_size i) < 2 ^ 8 * 2 ^ 8" by (intro mult_strict_mono) simp_all
  then show "length (im_taps i) < 2 ^ 64" using eq by simp
qed

lemma read_cirs_layout:
  assumes "ample m" and "blocks m = B + tmp_blocks head" and "list_all impulse_ok is"
    and "parser_rep h p (concat (map impulse_bytes is) @ bs)"
  shows "\<exists>cs m' p'. read_cirs h (length (concat (map impulse_bytes is))) k head m p =
      Some (Cirs_Read (k + of_nat (length is)) (cs @ head), m', p') \<and>
    list_all2 (\<lambda>(q, c) i. shows_impulse c i) cs (rev is) \<and> ample m' \<and> blocks m' = B + tmp_blocks (cs @ head) \<and>
    parser_rep h p' bs"
  using assms
proof (induction "is" arbitrary: m head p k)
  case Nil
  then show ?case by (subst read_cirs.simps) simp
next
  case (Cons i "is")
  let ?n = "length (concat (map impulse_bytes (i # is)))"
  let ?bs = "concat (map impulse_bytes is) @ bs"
  have iok: "impulse_ok i" and big: "\<not> ?n < 4" using Cons.prems(3) by (simp_all add: impulse_bytes_def)
  obtain q m1 where q: "qcalloc m 1 sizeof_tmp_cir = (Some q, m1)" "ample m1" "blocks m1 = blocks m + {#q#}"
    using qcalloc_ample [OF Cons.prems(1), of 1 sizeof_tmp_cir] by auto
  let ?c = "\<lparr>tc_receiver_segment = im_segment i, tc_fpath_tap_offset = ucast (im_offset i),
      tc_n_taps = ucast (im_n_taps i), tc_tap_size = im_tap_size i, tc_taps = None\<rparr> :: tmp_cir"
  obtain p1 where c: "read_cir_header h p = Some (?c, p1)" "parser_rep h p1 (im_taps i @ ?bs)"
    using read_cir_header_layout [of h p i ?bs] Cons.prems(4) by auto
  note il = impulse_len [OF iok]
  have len: "tmp_cir_len ?c = length (im_taps i)" using il(1) by (simp add: tmp_cir_len_def unat_ucast_8_16)
  obtain t m2 where t: "qcalloc m1 (tmp_cir_len ?c) 1 = (Some t, m2)" "ample m2" "blocks m2 = blocks m1 + {#t#}"
    using qcalloc_ample [OF q(2), of "tmp_cir_len ?c" 1] len il by auto
  from message_get_rep [OF c(2), of "tmp_cir_len ?c"] obtain p2 where
    g: "uci_message_get h p1 (tmp_cir_len ?c) = Some (im_taps i, p2)" "parser_rep h p2 ?bs" by (auto simp: len)
  let ?head = "(q, ?c\<lparr>tc_taps := Some (t, im_taps i)\<rparr>) # head"
  have w: "write_buf (replicate (tmp_cir_len ?c) 0) 0 (im_taps i) = Some (im_taps i)" by (simp add: write_buf_def len)
  have b: "blocks m2 = B + tmp_blocks ?head" using t(3) q(3) Cons.prems(2) by simp
  have iso: "list_all impulse_ok is" using Cons.prems(3) by simp
  from Cons.IH [OF t(2) b iso g(2), of "k + 1"] obtain cs m' p' where
    r: "read_cirs h (length (concat (map impulse_bytes is))) (k + 1) ?head m2 p2 =
        Some (Cirs_Read (k + 1 + of_nat (length is)) (cs @ ?head), m', p')"
    "list_all2 (\<lambda>(q, c) i. shows_impulse c i) cs (rev is)" "ample m'" "blocks m' = B + tmp_blocks (cs @ ?head)"
    "parser_rep h p' bs" by blast
  have n: "?n - 4 = length (im_taps i) + length (concat (map impulse_bytes is))" by (simp add: impulse_bytes_def)
  have "read_cirs h ?n k head m p = Some (Cirs_Read (k + of_nat (length (i # is))) (cs @ ?head), m', p')"
    unfolding read_cirs_step [OF big q(1) c(1)] using n len t(1) g(1) w r(1) by (simp add: add.commute add.left_commute)
  moreover have "list_all2 (\<lambda>(q, c) i. shows_impulse c i) (cs @ [(q, ?c\<lparr>tc_taps := Some (t, im_taps i)\<rparr>)]) (rev (i # is))"
    using r(2) by (simp add: list_all2_appendI shows_impulse_def)
  ultimately show ?case using r(3-5)
    by (intro exI [of _ "cs @ [(q, ?c\<lparr>tc_taps := Some (t, im_taps i)\<rparr>)]"] exI [of _ m'] exI [of _ p']) simp
qed

lemma copy_cirs_layout:
  assumes "list_all2 (\<lambda>(q, c) i. shows_impulse c i) tmp (rev is)" and "list_all impulse_ok is" and "ample m"
    and "length is \<le> length cs"
  shows "\<exists>cs' m'. copy_cirs cs tmp (rev [0..<length is]) m = Some (cs', m') \<and> ample m' \<and>
    map strip_cir cs' = map cir_of is @ map strip_cir (drop (length is) cs)"
  using assms
proof (induction "is" arbitrary: tmp m cs rule: rev_induct)
  case Nil
  then show ?case by simp
next
  case (snoc i "is")
  then obtain q c tmp' where tmp: "tmp = (q, c) # tmp'" and c: "shows_impulse c i"
    and tmp': "list_all2 (\<lambda>(q, c) i. shows_impulse c i) tmp' (rev is)"
    by (cases tmp) auto
  have iok: "impulse_ok i" and iso: "list_all impulse_ok is" using snoc.prems(2) by simp_all
  from c obtain x where x: "tc_taps c = Some (x, im_taps i)" by (auto simp: shows_impulse_def)
  note il = impulse_len [OF iok]
  have len: "tmp_cir_len c = length (im_taps i)" using c il(1) by (simp add: shows_impulse_def tmp_cir_len_def unat_ucast_8_16)
  obtain t m1 where t: "qcalloc m (tmp_cir_len c) 1 = (Some t, m1)" "ample m1"
    using qcalloc_ample [OF snoc.prems(3), of "tmp_cir_len c" 1] len il by auto
  let ?c = "\<lparr>cir_receiver_segment = tc_receiver_segment c, cir_fpath_tap_offset = tc_fpath_tap_offset c,
    cir_n_taps = tc_n_taps c, cir_tap_size = tc_tap_size c, cir_taps = Some (t, im_taps i)\<rparr>"
  let ?cs = "cs[length is := ?c]"
  have lt: "length is < length cs" using snoc.prems(4) by simp
  from snoc.IH [OF tmp' iso t(2), of ?cs] lt obtain cs' m' where
    r: "copy_cirs ?cs tmp' (rev [0..<length is]) m1 = Some (cs', m')" "ample m'"
    "map strip_cir cs' = map cir_of is @ map strip_cir (drop (length is) ?cs)" by auto
  have "strip_cir ?c = cir_of i" using c by (simp add: strip_cir_def cir_of_def at_0_def shows_impulse_def)
  moreover have "drop (length is) ?cs = ?c # drop (Suc (length is)) cs" using lt by (simp add: Cons_nth_drop_Suc [symmetric])
  ultimately have "map strip_cir cs' = map cir_of (is @ [i]) @ map strip_cir (drop (length (is @ [i])) cs)" using r(3) by simp
  moreover have "copy_cirs cs tmp (rev [0..<length (is @ [i])]) m = Some (cs', m')"
    using r(1) t(1) x lt len by (simp add: tmp)
  ultimately show ?case using r(2) by blast
qed

section \<open>Fields\<close>

lemma unat_small [simp]: "n < 256 \<Longrightarrow> unat (of_nat n :: byte) = n"
  by (simp add: unat_of_nat take_bit_nat_eq_self)

lemma parse_cirs_layout:
  assumes ok: "field_ok (Cirs_Field is)" and ample: "ample m"
    and rep: "parser_rep h p (concat (map impulse_bytes is) @ bs)"
  shows "\<exists>r' m' p'. parse_cirs h p m r (length (concat (map impulse_bytes is))) = Some (QERR_SUCCESS, r', m', p') \<and>
    ample m' \<and> strip r' = apply_field (Cirs_Field is) (strip r) \<and> parser_rep h p' bs"
proof -
  have i: "is \<noteq> []" "length is < 256" "list_all impulse_ok is" using ok by simp_all
  have b: "blocks m = blocks m + tmp_blocks []" by simp
  from read_cirs_layout [OF ample b i(3) rep, of 0] obtain cs m1 p1 where
    1: "read_cirs h (length (concat (map impulse_bytes is))) 0 [] m p = Some (Cirs_Read (of_nat (length is)) cs, m1, p1)"
    "list_all2 (\<lambda>(q, c) i. shows_impulse c i) cs (rev is)" "ample m1" "blocks m1 = blocks m + tmp_blocks cs"
    "parser_rep h p1 bs" by auto
  have n: "unat (of_nat (length is) :: byte) = length is" using i(2) by simp
  obtain q m2 where q: "qcalloc m1 (length is) sizeof_cir = (Some q, m2)" "ample m2" "blocks m2 = blocks m1 + {#q#}"
    using qcalloc_ample [OF 1(3), of "length is" sizeof_cir] i by auto
  let ?z = "replicate (length is) zero_cir"
  from copy_cirs_layout [OF 1(2) i(3) q(2), of ?z] obtain cs' m3 where
    3: "copy_cirs ?z cs (rev [0..<length is]) m2 = Some (cs', m3)" "ample m3" "map strip_cir cs' = map cir_of is" by auto
  have z: "\<And>i. i \<in> set (rev [0..<length is]) \<Longrightarrow> cir_taps (?z ! i) = None" by (simp add: zero_cir_def)
  have b2: "blocks m2 = (blocks m + {#q#} + tmp_blocks cs) + taps_blocks ?z" using q(3) 1(4) by (simp add: taps_blocks_zero)
  have "heap_ok m2" using q(2) by (simp add: ample_def)
  from copy_cirs_blocks [OF this 3(1) _ z b2] have "blocks m3 = (blocks m + {#q#} + taps_blocks cs') + tmp_blocks cs" by simp
  from frees_ample [OF frees_tmp_cirs 3(2) this] obtain m' where m': "free_tmp_cirs m3 cs = Some m'" "ample m'" by blast
  have "parse_cirs h p m r (length (concat (map impulse_bytes is))) =
      Some (QERR_SUCCESS, r\<lparr>fr_nb_cir := of_nat (length is), fr_cirs := Some (q, cs')\<rparr>, m', p1)"
    using 1(1) n q(1) 3(1) m'(1) by (simp add: parse_cirs_def)
  moreover have "strip (r\<lparr>fr_nb_cir := of_nat (length is), fr_cirs := Some (q, cs')\<rparr>) = apply_field (Cirs_Field is) (strip r)"
    using 3(3) by (simp add: strip_def)
  ultimately show ?thesis using m'(2) 1(5) by blast
qed

lemma sum_length_const: "(\<And>x. length (f x) = c) \<Longrightarrow> length (concat (map f xs)) = c * length xs"
  by (induction xs) simp_all

lemma parse_aoas_layout:
  assumes ok: "field_ok (Aoas_Field xs)" and ample: "ample m" and rep: "parser_rep h p (concat (map aoa_bytes xs) @ bs)"
  shows "\<exists>r' m' p'. parse_aoas h p m r (length (concat (map aoa_bytes xs))) = Some (QERR_SUCCESS, r', m', p') \<and>
    ample m' \<and> strip r' = apply_field (Aoas_Field xs) (strip r) \<and> parser_rep h p' bs"
proof -
  have n: "length (concat (map aoa_bytes xs)) div 8 = length xs"
    by (subst sum_length_const [of _ 8]) (simp_all add: aoa_bytes_def)
  have s: "unat (of_nat (length xs) :: byte) = length xs" using ok by simp
  obtain q m1 where "qcalloc m 1 (sizeof_aoa * length xs) = (Some q, m1)" "ample m1"
    using qcalloc_ample [OF ample, of 1 "sizeof_aoa * length xs"] ok by auto
  moreover obtain p1 where "read_times read_aoa (length xs) h p = Some (xs, p1)" "parser_rep h p1 bs"
    using read_aoas [OF rep] by blast
  ultimately show ?thesis using n s by (simp add: parse_aoas_def strip_def at_0_def)
qed

lemma parse_metrics_layout:
  assumes ok: "field_ok (Metrics_Field xs)" and ample: "ample m" and rep: "parser_rep h p (concat (map metrics_bytes xs) @ bs)"
  shows "\<exists>r' m' p'. parse_segment_metrics h p m r (length (concat (map metrics_bytes xs))) = Some (QERR_SUCCESS, r', m', p') \<and>
    ample m' \<and> strip r' = apply_field (Metrics_Field xs) (strip r) \<and> parser_rep h p' bs"
proof -
  have n: "length (concat (map metrics_bytes xs)) div 17 = length xs"
    by (subst sum_length_const [of _ 17]) (simp_all add: metrics_bytes_def)
  have s: "unat (of_nat (length xs) :: byte) = length xs" using ok by simp
  obtain q m1 where "qcalloc m 1 (sizeof_segment_metrics * length xs) = (Some q, m1)" "ample m1"
    using qcalloc_ample [OF ample, of 1 "sizeof_segment_metrics * length xs"] ok by auto
  moreover obtain p1 where "read_times read_segment_metrics (length xs) h p = Some (xs, p1)" "parser_rep h p1 bs"
    using read_metrics [OF rep] by blast
  ultimately show ?thesis using n s by (simp add: parse_segment_metrics_def strip_def at_0_def)
qed

lemma parse_field_layout:
  assumes ok: "field_ok f" and ample: "ample m" and rep: "parser_rep h p (field_data f @ bs)"
  shows "\<exists>r' m' p'. parse_field h p m r (field_type f) (length (field_data f)) = Some (QERR_SUCCESS, r', m', p') \<and>
    ample m' \<and> strip r' = apply_field f (strip r) \<and> parser_rep h p' bs"
proof (cases f)
  case (Aoas_Field xs)
  with parse_aoas_layout [of xs] assms show ?thesis by (simp add: parse_field_def)
next
  case (Extra_Field v)
  with rep get_16bit_rep [of h p "le_bytes 2 v @ bs"] ample show ?thesis
    by (auto simp: parse_field_def strip_def le_value_le_bytes_full)
next
  case (Cfo_Field v)
  with rep get_32bit_rep [of h p "le_bytes 4 v @ bs"] ample show ?thesis
    by (auto simp: parse_field_def strip_def le_value_le_bytes_full)
next
  case (Emitter_Field v)
  with rep get_16bit_rep [of h p "le_bytes 2 v @ bs"] ample show ?thesis
    by (auto simp: parse_field_def strip_def le_value_le_bytes_full)
next
  case (Metrics_Field xs)
  with parse_metrics_layout [of xs] assms show ?thesis by (simp add: parse_field_def)
next
  case (Cirs_Field xs)
  with parse_cirs_layout [of xs] assms show ?thesis by (simp add: parse_field_def)
next
  case (Other_Field t xs)
  with message_skip_rep [of h p "xs @ bs" "length xs"] assms show ?thesis by (auto simp: parse_field_def)
qed

section \<open>Reports\<close>

lemma parse_fields_layout:
  assumes "list_all (\<lambda>f. field_ok f \<and> length (field_data f) < 65536) fs" and "ample m"
    and "parser_rep h p (concat (map field_bytes fs) @ bs)"
  shows "\<exists>r' m' p'. parse_fields h (length fs) r m p = Some (QERR_SUCCESS, r', m', p') \<and> ample m' \<and>
    strip r' = fold apply_field fs (strip r) \<and> parser_rep h p' bs"
  using assms
proof (induction fs arbitrary: r m p)
  case Nil
  then show ?case by simp
next
  case (Cons f fs)
  let ?bs = "concat (map field_bytes fs) @ bs"
  let ?n = "of_nat (length (field_data f)) :: 16 word"
  have n: "unat ?n = length (field_data f)" using Cons.prems(1) by (simp add: unat_of_nat take_bit_nat_eq_self)
  have rep: "parser_rep h p (field_type f # le_bytes 2 ?n @ field_data f @ ?bs)"
    using Cons.prems(3) by (simp add: field_bytes_def [of f])
  from rep obtain p1 where 1: "uci_message_get_8bit h p = Some (field_type f, p1)"
    "parser_rep h p1 (le_bytes 2 ?n @ field_data f @ ?bs)" using get_8bit_rep by blast
  from get_16bit_rep [OF 1(2)] obtain p2 where 2: "uci_message_get_16bit h p1 = Some (?n, p2)"
    "parser_rep h p2 (field_data f @ ?bs)" by (auto simp: le_value_le_bytes_full)
  have rem: "\<not> uci_message_remaining p < 3" "\<not> uci_message_remaining p2 < unat ?n"
    using remaining_rep [OF rep] remaining_rep [OF 2(2)] n by simp_all
  have fok: "field_ok f" "list_all (\<lambda>f. field_ok f \<and> length (field_data f) < 65536) fs" using Cons.prems(1) by simp_all
  from parse_field_layout [OF fok(1) Cons.prems(2) 2(2), of r] obtain r1 m1 p3 where
    3: "parse_field h p2 m r (field_type f) (unat ?n) = Some (QERR_SUCCESS, r1, m1, p3)" "ample m1"
    "strip r1 = apply_field f (strip r)" "parser_rep h p3 ?bs" unfolding n by blast
  from Cons.IH [OF fok(2) 3(2,4), of r1] obtain r' m' p' where
    "parse_fields h (length fs) r1 m1 p3 = Some (QERR_SUCCESS, r', m', p')" "ample m'"
    "strip r' = fold apply_field fs (strip r1)" "parser_rep h p' bs" by blast
  with 1(1) 2(1) 3(1,3) rem show ?case by simp
qed

lemma parse_report_layout:
  assumes ok: "report_ok d" and ample: "ample m" and rep: "parser_rep h p (report_bytes d @ bs)"
  shows "\<exists>r' m' p'. parse_report h zero_report m p = Some (QERR_SUCCESS, r', m', p') \<and> ample m' \<and>
    strip r' = report_of d \<and> parser_rep h p' bs"
proof -
  let ?fs = "dg_fields d"
  let ?bs = "concat (map field_bytes ?fs) @ bs"
  have rep0: "parser_rep h p (dg_msg_id d # dg_action d # dg_antenna_set d # of_nat (length ?fs) # ?bs)"
    using rep by (simp add: report_bytes_def)
  from rep0 obtain p1 where 1: "uci_message_get_8bit h p = Some (dg_msg_id d, p1)"
    "parser_rep h p1 (dg_action d # dg_antenna_set d # of_nat (length ?fs) # ?bs)" using get_8bit_rep by blast
  from 1(2) obtain p2 where 2: "uci_message_get_8bit h p1 = Some (dg_action d, p2)"
    "parser_rep h p2 (dg_antenna_set d # of_nat (length ?fs) # ?bs)" using get_8bit_rep by blast
  from 2(2) obtain p3 where 3: "uci_message_get_8bit h p2 = Some (dg_antenna_set d, p3)"
    "parser_rep h p3 (of_nat (length ?fs) # ?bs)" using get_8bit_rep by blast
  from 3(2) obtain p4 where 4: "uci_message_get_8bit h p3 = Some (of_nat (length ?fs), p4)"
    "parser_rep h p4 ?bs" using get_8bit_rep by blast
  have n: "unat (of_nat (length ?fs) :: byte) = length ?fs" using ok by (simp add: report_ok_def)
  have rem: "\<not> uci_message_remaining p < 4" using remaining_rep [OF rep0] by simp
  let ?r = "zero_report\<lparr>fr_msg_id := dg_msg_id d, fr_action := dg_action d, fr_antenna_set := dg_antenna_set d\<rparr>"
  have "strip ?r = ?r" by (simp add: strip_def zero_report_def at_0_def)
  with parse_fields_layout [OF _ ample 4(2), of ?r] ok obtain r' m' p' where
    "parse_fields h (length ?fs) ?r m p4 = Some (QERR_SUCCESS, r', m', p')" "ample m'" "strip r' = report_of d"
    "parser_rep h p' bs" by (auto simp: report_ok_def report_of_def)
  with 1(1) 2(1) 3(1) 4(1) n rem show ?thesis by (simp add: parse_report_def)
qed

lemma parse_reports_layout:
  assumes "list_all report_ok ds" and "ample m" and "parser_rep h p (concat (map report_bytes ds) @ bs)"
    and "length rs = k + length ds" and "drop k rs = replicate (length ds) zero_report"
  shows "\<exists>rs' m' p'. parse_reports h rs [k..<k + length ds] m p = Some (QERR_SUCCESS, rs', m', p') \<and> ample m' \<and>
    map strip rs' = map strip (take k rs) @ map report_of ds \<and> parser_rep h p' bs"
  using assms
proof (induction ds arbitrary: rs m p k)
  case Nil
  then show ?case by simp
next
  case (Cons d ds)
  have ds: "report_ok d" "list_all report_ok ds" using Cons.prems(1) by simp_all
  have k: "k < length rs" using Cons.prems(4) by simp
  have z: "rs ! k = zero_report" using Cons.prems(5) k by (metis hd_drop_conv_nth length_Cons list.sel(1) replicate_Suc)
  from parse_report_layout [OF ds(1) Cons.prems(2), of h p "concat (map report_bytes ds) @ bs"] Cons.prems(3)
  obtain r m1 p1 where 1: "parse_report h zero_report m p = Some (QERR_SUCCESS, r, m1, p1)" "ample m1"
    "strip r = report_of d" "parser_rep h p1 (concat (map report_bytes ds) @ bs)" by auto
  let ?rs = "rs[k := r]"
  have "drop (Suc k) ?rs = drop (Suc k) rs" by simp
  also have "\<dots> = tl (drop k rs)" by (simp add: drop_Suc tl_drop)
  finally have "drop (Suc k) ?rs = replicate (length ds) zero_report" using Cons.prems(5) by simp
  from Cons.IH [OF ds(2) 1(2,4), of ?rs "Suc k"] this Cons.prems(4) obtain rs' m' p' where
    2: "parse_reports h ?rs [Suc k..<Suc k + length ds] m1 p1 = Some (QERR_SUCCESS, rs', m', p')" "ample m'"
    "map strip rs' = map strip (take (Suc k) ?rs) @ map report_of ds" "parser_rep h p' bs" by auto
  have "take (Suc k) ?rs = take k rs @ [r]" using k by (simp add: take_Suc_conv_app_nth)
  moreover have "[k..<k + length (d # ds)] = k # [Suc k..<Suc k + length ds]"
    using upt_conv_Cons [of k "k + length (d # ds)"] by simp
  ultimately show ?case using 1(1,3) 2 k z by simp
qed

text \<open>The whole notification.\<close>

lemma parse_diagnostics_layout:
  assumes ok: "list_all report_ok ds" and n: "ds \<noteq> []" "length ds < 256" and ample: "ample m"
    and rep: "parser_rep h p (diag_bytes handle sequence ds)"
  shows "\<exists>q d m'. parse_diagnostics h p m = Some (QERR_SUCCESS, Some (q, d), m') \<and>
    di_session_handle d = handle \<and> di_sequence_number d = sequence \<and> di_nb_reports d = of_nat (length ds) \<and>
    map strip (snd (di_reports d)) = map report_of ds"
proof -
  let ?bs = "diag_bytes handle sequence ds"
  have len: "9 \<le> length ?bs" by (simp add: diag_bytes_def)
  obtain q m1 where q: "qcalloc m 1 sizeof_diagnostic_info = (Some q, m1)" "ample m1"
    using qcalloc_ample [OF ample, of 1 sizeof_diagnostic_info] by auto
  from read_diag_header [OF rep len] obtain p1 p2 p3 where
    hd: "uci_message_get_32bit h p = Some (handle, p1)" "uci_message_get_32bit h p1 = Some (sequence, p2)"
    "uci_message_get_8bit h p2 = Some (of_nat (length ds), p3)" "parser_rep h p3 (concat (map report_bytes ds) @ [])"
    by (auto simp: diag_bytes_def le_value_le_bytes_full nth_append)
  have u: "unat (of_nat (length ds) :: byte) = length ds" using n by simp
  obtain s m2 where s: "qcalloc m1 1 (sizeof_frame_report * length ds) = (Some s, m2)" "ample m2"
    using qcalloc_ample [OF q(2), of 1 "sizeof_frame_report * length ds"] n by auto
  from parse_reports_layout [OF ok s(2) hd(4), of "replicate (length ds) zero_report" 0] obtain rs m' p' where
    r: "parse_reports h (replicate (length ds) zero_report) [0..<length ds] m2 p3 = Some (QERR_SUCCESS, rs, m', p')"
    "map strip rs = map report_of ds" by auto
  have rem: "\<not> uci_message_remaining p < 9" using remaining_rep [OF rep] len by simp
  have "ucast (of_nat (length ds) :: byte) = (of_nat (length ds) :: 32 word)"
    using n by (simp add: word_unat_eq_iff unat_byte_32 u unat_of_nat take_bit_nat_eq_self)
  with rem q(1) hd(1-3) s(1) r show ?thesis by (simp add: parse_diagnostics_def u)
qed

section \<open>What the handler gets wrong\<close>

text \<open>The list of a second field of a type replaces that of the first, whose block is then in no structure.\<close>

lemma repeated_field_leaks:
  assumes "field_ok (Aoas_Field xs)" and "field_ok (Aoas_Field ys)" and "ample m"
    and "parser_rep h p (concat (map aoa_bytes xs) @ concat (map aoa_bytes ys) @ bs)"
  shows "\<exists>r1 m1 p1 q r2 m2 p2. parse_field h p m zero_report UCI_DIAG_REPORT_AOAS (8 * length xs) = Some (QERR_SUCCESS, r1, m1, p1) \<and>
    parse_field h p1 m1 r1 UCI_DIAG_REPORT_AOAS (8 * length ys) = Some (QERR_SUCCESS, r2, m2, p2) \<and>
    blocks m2 = blocks m + report_blocks r2 + {#q#}"
proof -
  have w: "unat (of_nat (8 * length xs div 8) :: byte) = length xs" "unat (of_nat (8 * length ys div 8) :: byte) = length ys"
    using assms(1,2) by simp_all
  obtain q1 m1 where 1: "qcalloc m 1 (sizeof_aoa * length xs) = (Some q1, m1)" "ample m1" "blocks m1 = blocks m + {#q1#}"
    using qcalloc_ample [OF assms(3), of 1 "sizeof_aoa * length xs"] assms(1) by auto
  obtain q2 m2 where 2: "qcalloc m1 1 (sizeof_aoa * length ys) = (Some q2, m2)" "blocks m2 = blocks m1 + {#q2#}"
    using qcalloc_ample [OF 1(2), of 1 "sizeof_aoa * length ys"] assms(2) by auto
  from read_aoas [OF assms(4)] obtain p1 where p1: "read_times read_aoa (length xs) h p = Some (xs, p1)"
    "parser_rep h p1 (concat (map aoa_bytes ys) @ bs)" by blast
  from read_aoas [OF p1(2)] obtain p2 where p2: "read_times read_aoa (length ys) h p1 = Some (ys, p2)" by blast
  show ?thesis using w 1(1,3) 2 p1(1) p2
    by (simp add: parse_field_def parse_aoas_def report_blocks_def zero_report_def)
qed

text \<open>A list without elements, which takes no memory, counts as memory that has run out.\<close>

lemma empty_list_refused:
  "n < 8 \<Longrightarrow> \<exists>r'. parse_field h p m r UCI_DIAG_REPORT_AOAS n = Some (QERR_ENOMEM, r', m, p)"
  by (simp add: parse_field_def parse_aoas_def qcalloc_def qmalloc_def)

text \<open>Three fields are read whatever their length is: at the end of a message this fails an assertion.\<close>

lemma short_field_fails:
  assumes "parser_rep h p bs" and "length bs < 4"
  shows "parse_field h p m r UCI_DIAG_REPORT_CFO_Q26 n = None"
  using assms get_short(2) by (simp add: parse_field_def)

end
