(* ===== verification/Fira_Rounds.thy ===== *)
theory Fira_Rounds
  imports Fira_Client Fira_Diag_Layout
begin

text \<open>
  Properties of the FiRa client: what the updates of the active ranging rounds send, when they refuse
  their arguments, where the response goes, and what becomes of the diagnostics.
\<close>

section \<open>The messages\<close>

text \<open>The arrays have a row for every round, and the rows the length the prototype says.\<close>

definition sized :: "anchor_rounds \<Rightarrow> nat \<Rightarrow> bool" where
  "sized a n \<longleftrightarrow> n \<le> length (ar_round_indexes a) \<and> n \<le> length (ar_ranging_role a) \<and>
     (\<forall>ns. ar_number_of_responders a = Some ns \<longrightarrow> n \<le> length ns) \<and>
     (\<forall>al. ar_responder_address_list a = Some al \<longrightarrow> n \<le> length al \<and> (\<forall>r \<in> set al. length r = 8)) \<and>
     (\<forall>ss. ar_responder_slot_scheduling a = Some ss \<longrightarrow> n \<le> length ss) \<and>
     (\<forall>sl. ar_responder_slots a = Some sl \<longrightarrow> n \<le> length sl \<and> (\<forall>r \<in> set sl. length r = 8))"

text \<open>A round of an initiator needs one to eight responders, their addresses and their slots.\<close>

definition round_valid :: "anchor_rounds \<Rightarrow> nat \<Rightarrow> bool" where
  "round_valid a i \<longleftrightarrow> (ar_ranging_role a ! i = UCI_DT_ANCHOR_INITIATOR \<longrightarrow>
     ar_number_of_responders a \<noteq> None \<and> 1 \<le> the (ar_number_of_responders a) ! i \<and>
     the (ar_number_of_responders a) ! i \<le> 8 \<and>
     ar_responder_address_list a \<noteq> None \<and> ar_responder_slot_scheduling a \<noteq> None \<and>
     (the (ar_responder_slot_scheduling a) ! i = RESPONDER_SLOTS_PRESENT \<longrightarrow> ar_responder_slots a \<noteq> None))"

definition round_bytes :: "anchor_rounds \<Rightarrow> nat \<Rightarrow> bytes" where
  "round_bytes a i =
     [ar_round_indexes a ! i, ar_ranging_role a ! i] @
     (if ar_ranging_role a ! i \<noteq> UCI_DT_ANCHOR_INITIATOR then []
      else let n = the (ar_number_of_responders a) ! i; sch = the (ar_responder_slot_scheduling a) ! i
           in [n] @ concat (map (le_bytes 2) (take (unat n) (the (ar_responder_address_list a) ! i))) @ [sch] @
              (if sch = RESPONDER_SLOTS_PRESENT then take (unat n) (the (ar_responder_slots a) ! i) else []))"

lemma put_each_cong: "(\<And>x. x \<in> set xs \<Longrightarrow> f x = g x) \<Longrightarrow> put_each f xs = put_each g xs"
proof (induction xs)
  case (Cons x xs)
  then have "put_each f xs = put_each g xs" "f x = g x" by simp_all
  then show ?case by (intro ext) simp
qed (intro ext, simp)

lemma put_each_map: "put_each (\<lambda>j. w (f j)) js = put_each w (map f js)"
proof (induction js)
  case (Cons j js)
  show ?case by (intro ext) (simp add: Cons.IH)
qed (intro ext, simp)

lemma put_each_elem:
  assumes "n \<le> length xs"
  shows "put_each (\<lambda>j s. do { v \<leftarrow> elem xs j; w v s }) [0..<n] = put_each w (take n xs)"
proof -
  have "put_each (\<lambda>j s. do { v \<leftarrow> elem xs j; w v s }) [0..<n] = put_each (\<lambda>j. w (xs ! j)) [0..<n]"
    using assms by (intro put_each_cong) (auto simp: elem_def)
  also have "\<dots> = put_each w (map ((!) xs) [0..<n])" by (rule put_each_map)
  also have "map ((!) xs) [0..<n] = take n xs"
    using assms by (intro nth_equalityI) simp_all
  finally show ?thesis .
qed

text \<open>A round that is valid is written; one that is not leaves some bytes.\<close>

definition stands_for :: "(mem \<Rightarrow> bool) \<Rightarrow> (mem \<times> uci_message_builder \<Rightarrow> (bool \<times> mem \<times> uci_message_builder) option) \<Rightarrow>
    bool \<Rightarrow> bytes \<Rightarrow> bool" where
  "stands_for P f ok bs \<longleftrightarrow> (\<exists>w. (\<forall>s. f s = Option.bind (w s) (\<lambda>s. Some (ok, s))) \<and> writes P w bs)"

lemma stands_forI: "writes P w bs \<Longrightarrow> (\<And>s. f s = Option.bind (w s) (\<lambda>s. Some (ok, s))) \<Longrightarrow> stands_for P f ok bs"
  by (auto simp: stands_for_def)

lemma stands_for_return: "stands_for P (\<lambda>s. Some (ok, s)) ok []"
  by (rule stands_forI [OF writes_nothing]) simp

lemma stands_for_bind:
  assumes "writes P v xs" and "stands_for P f ok ys"
  shows "stands_for P (\<lambda>s. Option.bind (v s) f) ok (xs @ ys)"
proof -
  from assms(2) obtain w where w: "\<And>s. f s = Option.bind (w s) (\<lambda>s. Some (ok, s))" "writes P w ys"
    by (auto simp: stands_for_def)
  then have "f = (\<lambda>s. Option.bind (w s) (\<lambda>s. Some (ok, s)))" by blast
  then show ?thesis by (intro stands_forI [OF writes_bind [OF assms(1) w(2)]]) simp
qed

context ample_allocator
begin

lemma put_words_writes: "writes inv (put_each (put_word A) vs) (concat (map (le_bytes 2) vs))"
  by (rule writes_each) (rule writes_scalars)

lemma put_byte_list_writes: "writes inv (put_each (put_byte A) vs) vs"
proof -
  have "writes inv (put_each (put_byte A) vs) (concat (map (\<lambda>v. [v]) vs))" by (rule writes_each) (rule writes_scalars)
  then show ?thesis by simp
qed

lemma put_responders_writes:
  assumes al: "i < length al" "length (al ! i) = 8" and ss: "i < length ss"
    and sl: "\<And>s. sl = Some s \<Longrightarrow> i < length s \<and> length (s ! i) = 8" and n: "n \<le> 8"
  shows "\<exists>bs. length bs \<le> 26 \<and> stands_for inv (put_responders A al ss sl i n) (ss ! i = RESPONDER_SLOTS_PRESENT \<longrightarrow> sl \<noteq> None) bs \<and>
    (ss ! i = RESPONDER_SLOTS_PRESENT \<longrightarrow> sl \<noteq> None \<longrightarrow>
      bs = [n] @ concat (map (le_bytes 2) (take (unat n) (al ! i))) @ [ss ! i] @
        (if ss ! i = RESPONDER_SLOTS_PRESENT then take (unat n) (the sl ! i) else [])) \<and>
    (ss ! i \<noteq> RESPONDER_SLOTS_PRESENT \<longrightarrow>
      bs = [n] @ concat (map (le_bytes 2) (take (unat n) (al ! i))) @ [ss ! i])"
proof -
  have un: "unat n \<le> 8" using n by (simp add: word_le_nat_alt)
  have el: "elem al i = Some (al ! i)" "elem ss i = Some (ss ! i)" using al ss by (simp_all add: elem_def)
  have addrs: "put_each (\<lambda>j s. do { row \<leftarrow> elem al i; v \<leftarrow> elem row j; put_word A v s }) [0..<unat n] =
      put_each (put_word A) (take (unat n) (al ! i))"
    unfolding el bind.bind_lunit using un al by (intro put_each_elem) simp
  define rest where "rest = (\<lambda>s. if ss ! i \<noteq> RESPONDER_SLOTS_PRESENT then Some (True, s)
     else case sl of None \<Rightarrow> Some (False, s)
       | Some slots \<Rightarrow> do { s \<leftarrow> put_each (\<lambda>j s. do { row \<leftarrow> elem slots i; v \<leftarrow> elem row j; put_byte A v s }) [0..<unat n] s;
                            Some (True, s) })"
  have split: "put_responders A al ss sl i n = (\<lambda>s. do { s \<leftarrow> put_byte A n s;
      s \<leftarrow> put_each (put_word A) (take (unat n) (al ! i)) s; s \<leftarrow> put_byte A (ss ! i) s; rest s })"
    by (intro ext) (simp only: put_responders_def addrs, simp add: el rest_def)
  have len: "length (concat (map (le_bytes 2) (take (unat n) (al ! i)))) \<le> 16"
    using un by (subst sum_length_const [of _ 2]) simp_all
  have all: "stands_for inv (put_responders A al ss sl i n) ok
      ([n] @ concat (map (le_bytes 2) (take (unat n) (al ! i))) @ [ss ! i] @ ys)" if "stands_for inv rest ok ys" for ok ys
    unfolding split by (intro stands_for_bind writes_scalars put_words_writes that)
  have stop: "stands_for inv rest b []" if "rest = (\<lambda>s. Some (b, s))" for b
    unfolding that by (rule stands_for_return)
  show ?thesis
  proof (cases "ss ! i = RESPONDER_SLOTS_PRESENT \<and> sl \<noteq> None")
    case False
    then have "rest = (\<lambda>s. Some (ss ! i \<noteq> RESPONDER_SLOTS_PRESENT, s))" by (auto simp: rest_def)
    from all [OF stop [OF this]] False len show ?thesis
      by (intro exI [of _ "[n] @ concat (map (le_bytes 2) (take (unat n) (al ! i))) @ [ss ! i] @ []"]) auto
  next
    case True
    then obtain s where s: "sl = Some s" by auto
    have row: "elem s i = Some (s ! i)" "length (s ! i) = 8" using sl [OF s] by (simp_all add: elem_def)
    have slots: "put_each (\<lambda>j s'. do { row \<leftarrow> elem s i; v \<leftarrow> elem row j; put_byte A v s' }) [0..<unat n] =
        put_each (put_byte A) (take (unat n) (s ! i))"
      unfolding row bind.bind_lunit using un row by (intro put_each_elem) simp
    have "rest = (\<lambda>s'. do { s' \<leftarrow> put_each (put_byte A) (take (unat n) (s ! i)) s'; Some (True, s') })"
      using True by (intro ext) (simp add: rest_def s slots)
    moreover have "stands_for inv (\<lambda>s'. do { s' \<leftarrow> put_each (put_byte A) (take (unat n) (s ! i)) s'; Some (True, s') }) True
        (take (unat n) (s ! i) @ [])"
      by (intro stands_for_bind put_byte_list_writes stands_for_return)
    ultimately have "stands_for inv rest True (take (unat n) (s ! i))" by simp
    from all [OF this] True len un row show ?thesis
      by (intro exI [of _ "[n] @ concat (map (le_bytes 2) (take (unat n) (al ! i))) @ [ss ! i] @ take (unat n) (s ! i)"])
        (simp add: s)
  qed
qed

lemma put_anchor_round_writes:
  assumes sized: "sized a k" and i: "i < k"
  shows "\<exists>bs. length bs \<le> 28 \<and> (round_valid a i \<longrightarrow> bs = round_bytes a i) \<and>
    stands_for inv (put_anchor_round A a i) (round_valid a i) bs"
proof -
  let ?x = "ar_round_indexes a ! i" and ?role = "ar_ranging_role a ! i"
  have el: "elem (ar_round_indexes a) i = Some ?x" "elem (ar_ranging_role a) i = Some ?role"
    using sized i by (auto simp: sized_def elem_def)
  define rest where "rest = (\<lambda>s. if ?role \<noteq> UCI_DT_ANCHOR_INITIATOR then Some (True, s)
       else case ar_number_of_responders a of
         None \<Rightarrow> Some (False, s)
       | Some ns \<Rightarrow>
           do {
             n \<leftarrow> elem ns i;
             case (ar_responder_address_list a, ar_responder_slot_scheduling a) of
               (Some address_list, Some schedulings) \<Rightarrow>
                 if n < 1 \<or> n > 8 then Some (False, s)
                 else put_responders A address_list schedulings (ar_responder_slots a) i n s
             | _ \<Rightarrow> Some (False, s)
           })"
  have split: "put_anchor_round A a i = (\<lambda>s. do { s \<leftarrow> put_byte A ?x s; s \<leftarrow> put_byte A ?role s; rest s })"
    by (intro ext) (simp add: put_anchor_round_def el rest_def)
  have all: ?thesis
    if "stands_for inv rest (round_valid a i) ys" "length ys \<le> 26" "round_valid a i \<Longrightarrow> [?x, ?role] @ ys = round_bytes a i" for ys
  proof -
    have "stands_for inv (put_anchor_round A a i) (round_valid a i) ([?x] @ ([?role] @ ys))"
      unfolding split by (intro stands_for_bind writes_scalars that(1))
    with that(2,3) show ?thesis by (intro exI [of _ "[?x] @ ([?role] @ ys)"]) simp
  qed
  have stop: "stands_for inv rest (round_valid a i) []" if "rest = (\<lambda>s. Some (b, s))" "round_valid a i = b" for b
    unfolding that by (rule stands_for_return)
  let ?ns = "ar_number_of_responders a" and ?al = "ar_responder_address_list a" and ?ss = "ar_responder_slot_scheduling a"
  have ns: "elem ns i = Some (ns ! i)" if "?ns = Some ns" for ns
    using that sized i by (auto simp: sized_def elem_def)
  consider (responder) "?role \<noteq> UCI_DT_ANCHOR_INITIATOR"
    | (bad) "?role = UCI_DT_ANCHOR_INITIATOR" "?ns = None \<or> ?al = None \<or> ?ss = None \<or> \<not> (1 \<le> the ?ns ! i \<and> the ?ns ! i \<le> 8)"
    | (good) ns al ss where "?role = UCI_DT_ANCHOR_INITIATOR" "?ns = Some ns" "?al = Some al" "?ss = Some ss" "1 \<le> ns ! i" "ns ! i \<le> 8"
    by (cases "?ns"; cases "?al"; cases "?ss"; cases "1 \<le> the ?ns ! i \<and> the ?ns ! i \<le> 8"; simp) blast+
  then show ?thesis
  proof cases
    case responder
    then have "rest = (\<lambda>s. Some (True, s))" "round_valid a i = True" by (simp_all add: rest_def round_valid_def)
    from all [OF stop [OF this]] responder show ?thesis by (simp add: round_bytes_def)
  next
    case bad
    have "rest = (\<lambda>s. Some (False, s))" using bad ns
      by (intro ext) (auto simp: rest_def not_le split: option.split)
    moreover have "round_valid a i = False" using bad by (auto simp: round_valid_def)
    ultimately show ?thesis using all [OF stop] by simp
  next
    case good
    let ?sl = "ar_responder_slots a"
    have b: "i < length al" "length (al ! i) = 8" "i < length ss" "\<And>s. ?sl = Some s \<Longrightarrow> i < length s \<and> length (s ! i) = 8"
      using good(3,4) sized i by (auto simp: sized_def)
    have "ns ! i \<noteq> 0" "\<not> 8 < ns ! i" using good(5,6) by auto
    then have "rest = put_responders A al ss ?sl i (ns ! i)" using good ns
      by (intro ext) (simp add: rest_def)
    moreover have "round_valid a i \<longleftrightarrow> (ss ! i = RESPONDER_SLOTS_PRESENT \<longrightarrow> ?sl \<noteq> None)"
      using good by (simp add: round_valid_def)
    moreover from put_responders_writes [OF b good(6)] obtain ys where "length ys \<le> 26"
      "stands_for inv (put_responders A al ss ?sl i (ns ! i)) (ss ! i = RESPONDER_SLOTS_PRESENT \<longrightarrow> ?sl \<noteq> None) ys"
      "ss ! i = RESPONDER_SLOTS_PRESENT \<longrightarrow> ?sl \<noteq> None \<longrightarrow>
        ys = [ns ! i] @ concat (map (le_bytes 2) (take (unat (ns ! i)) (al ! i))) @ [ss ! i] @
          (if ss ! i = RESPONDER_SLOTS_PRESENT then take (unat (ns ! i)) (the ?sl ! i) else [])"
      "ss ! i \<noteq> RESPONDER_SLOTS_PRESENT \<longrightarrow>
        ys = [ns ! i] @ concat (map (le_bytes 2) (take (unat (ns ! i)) (al ! i))) @ [ss ! i]" by blast
    ultimately show ?thesis using good by (intro all [of ys]) (auto simp: round_bytes_def Let_def)
  qed
qed

lemma stands_for_step:
  assumes f: "stands_for P f ok xs" and g: "ok \<Longrightarrow> stands_for P g ok' ys"
  shows "stands_for P (\<lambda>s. do { (b, s) \<leftarrow> f s; if b then g s else Some (False, s) }) (ok \<and> ok') (xs @ (if ok then ys else []))"
proof -
  from f obtain w where w: "\<And>s. f s = Option.bind (w s) (\<lambda>s. Some (ok, s))" "writes P w xs"
    by (auto simp: stands_for_def)
  have eq: "(\<lambda>s. do { (b, s) \<leftarrow> f s; if b then g s else Some (False, s) }) =
      (\<lambda>s. Option.bind (w s) (\<lambda>s. if ok then g s else Some (False, s)))"
    by (intro ext) (simp add: w(1))
  show ?thesis unfolding eq
  proof (cases ok)
    case True
    with stands_for_bind [OF w(2) g] show "stands_for P (\<lambda>s. Option.bind (w s) (\<lambda>s. if ok then g s else Some (False, s)))
        (ok \<and> ok') (xs @ (if ok then ys else []))" by simp
  next
    case False
    with stands_for_bind [OF w(2) stands_for_return [of P False]] show
      "stands_for P (\<lambda>s. Option.bind (w s) (\<lambda>s. if ok then g s else Some (False, s)))
        (ok \<and> ok') (xs @ (if ok then ys else []))" by simp
  qed
qed

lemma put_anchor_rounds_writes:
  assumes sized: "sized a k"
  shows "set is \<subseteq> {..<k} \<Longrightarrow> \<exists>bs. length bs \<le> 28 * length is \<and>
    ((\<forall>i \<in> set is. round_valid a i) \<longrightarrow> bs = concat (map (round_bytes a) is)) \<and>
    stands_for inv (put_anchor_rounds A a is) (\<forall>i \<in> set is. round_valid a i) bs"
proof (induction "is")
  case Nil
  have "put_anchor_rounds A a [] = (\<lambda>s. Some (True, s))" by (intro ext) simp
  with stands_for_return [of inv True] show ?case by simp
next
  case (Cons i "is")
  then obtain ys where ys: "length ys \<le> 28 * length is"
    "(\<forall>i \<in> set is. round_valid a i) \<longrightarrow> ys = concat (map (round_bytes a) is)"
    "stands_for inv (put_anchor_rounds A a is) (\<forall>i \<in> set is. round_valid a i) ys" by auto
  from put_anchor_round_writes [OF sized, of i] Cons.prems obtain xs where xs: "length xs \<le> 28"
    "round_valid a i \<longrightarrow> xs = round_bytes a i" "stands_for inv (put_anchor_round A a i) (round_valid a i) xs" by auto
  have "put_anchor_rounds A a (i # is) =
      (\<lambda>s. do { (b, s) \<leftarrow> put_anchor_round A a i s; if b then put_anchor_rounds A a is s else Some (False, s) })"
    by (intro ext) simp
  with stands_for_step [OF xs(3) ys(3)] have "stands_for inv (put_anchor_rounds A a (i # is))
      (\<forall>i \<in> set (i # is). round_valid a i) (xs @ (if round_valid a i then ys else []))" by simp
  with xs(1,2) ys(1,2) show ?case by (intro exI [of _ "xs @ (if round_valid a i then ys else [])"])
    (auto simp del: put_anchor_rounds.simps)
qed

section \<open>The commands\<close>

lemma fira_context_simps [simp]:
  "fira_context_of (upd_fira u f) = map_option f (fira_context_of u)" "u_mem (upd_fira u f) = u_mem u"
  "fira_context_of (u\<lparr>u_mem := m\<rparr>) = fira_context_of u" "upd_fira (u\<lparr>u_mem := m\<rparr>) f = (upd_fira u f)\<lparr>u_mem := m\<rparr>"
  by (auto simp: fira_context_of_def upd_fira_def option.map_comp comp_def)

lemma rounds_sent:
  assumes w: "writes inv w bs" and len: "length bs < 65536" and ne: "bs \<noteq> []"
    and e: "e_allocator (fe_uci e) = A" and inv: "inv (u_mem u)" and ctx: "fira_context_of u = Some c" and oid: "oid = 8 \<or> oid = 9"
    and tx: "tx_inv u txs" and rsp: "rsp_inv u txs" and un: "\<not> u_locked u" and tr: "u_tr u \<noteq> None"
  shows "\<exists>m b u' as. w (u_mem u, uci_message_builder_init) = Some (m, b) \<and>
    send_rounds e (u\<lparr>u_mem := m\<rparr>) oid (mb_message b) array =
      Option.bind (packet_send_ready (fe_uci e) u') (await_rounds e) \<and>
    inv (u_mem u') \<and> tx_inv u' (txs @ as) \<and> rsp_inv u' (txs @ as) \<and> u_tr u' = u_tr u \<and>
    u_world u' = u_world (upd_fira u (\<lambda>c. c\<lparr>fc_cmd_data := array, fc_cmd_data_sz := DL_TDOA_UPDATE_RANGING_ROUND_RSP_MAX_SIZE\<rparr>)) \<and>
    wires (heap (u_mem u')) (txs @ as) = wires (heap (u_mem u)) txs @
      segment (UCI_MT_GID_OID UCI_MESSAGE_TYPE_COMMAND UCI_GID_SESSION_CONFIG oid) bs"
proof -
  let ?v = "upd_fira u (\<lambda>c. c\<lparr>fc_cmd_data := array, fc_cmd_data_sz := DL_TDOA_UPDATE_RANGING_ROUND_RSP_MAX_SIZE\<rparr>)"
  let ?mid = "UCI_MT_GID_OID UCI_MESSAGE_TYPE_COMMAND UCI_GID_SESSION_CONFIG oid"
  have s: "sendable ?mid"
    using oid by (auto simp: sendable_def is_control_mt_def UCI_MT_def UCI_MT_GID_OID_def)
  have v: "inv (u_mem ?v)" "tx_inv ?v txs" "rsp_inv ?v txs" "\<not> u_locked ?v" "u_tr ?v \<noteq> None" "u_mem ?v = u_mem u" "u_tr ?v = u_tr u"
    using inv tx rsp un tr by (simp_all add: upd_fira_def tx_inv_def rsp_inv_def)
  from written_message_sent [OF w len ne e v(1) s v(2-5)] show ?thesis
    unfolding v(6,7) by (simp add: send_rounds_def) metis
qed

lemma tag_rounds_sent:
  assumes e: "e_allocator (fe_uci e) = A" and inv: "inv (u_mem u)" and ctx: "fira_context_of u = Some c"
    and n: "n \<noteq> 0" "unat n < FIRA_DT_TAG_MAX_ACTIVE_RR" "unat n \<le> length indexes"
    and tx: "tx_inv u txs" and rsp: "rsp_inv u txs" and un: "\<not> u_locked u" and tr: "u_tr u \<noteq> None"
  shows "\<exists>u' as. cherry_uci_client_fira_update_dt_tag_ranging_rounds e u session_id n (Some indexes) (Some array) (Some sz) =
      do { u \<leftarrow> packet_send_ready (fe_uci e) u'; (r, sz, u) \<leftarrow> await_rounds e u; Some (r, Some sz, u) } \<and>
    inv (u_mem u') \<and> tx_inv u' (txs @ as) \<and> rsp_inv u' (txs @ as) \<and> u_tr u' = u_tr u \<and>
    fira_context_of u' = Some (c\<lparr>fc_cmd_data := array, fc_cmd_data_sz := DL_TDOA_UPDATE_RANGING_ROUND_RSP_MAX_SIZE\<rparr>) \<and>
    wires (heap (u_mem u')) (txs @ as) = wires (heap (u_mem u)) txs @
      segment (UCI_MT_GID_OID UCI_MESSAGE_TYPE_COMMAND UCI_GID_SESSION_CONFIG UCI_OID_SESSION_UPDATE_DT_TAG_RANGING_ROUNDS)
        (le_bytes 4 session_id @ [n] @ take (unat n) indexes)"
proof -
  let ?bs = "le_bytes 4 session_id @ [n] @ take (unat n) indexes"
  let ?w = "\<lambda>s. do { s \<leftarrow> put_dword A session_id s; s \<leftarrow> put_byte A n s; put_each (put_byte A) (take (unat n) indexes) s }"
  have w: "writes inv ?w ?bs" by (intro writes_bind writes_scalars put_byte_list_writes)
  have len: "length ?bs < 65536" "?bs \<noteq> []" using n(2) by simp_all
  from rounds_sent [OF w len e inv ctx _ tx rsp un tr, of 9 array] obtain m b u' as where
    1: "?w (u_mem u, uci_message_builder_init) = Some (m, b)"
    "send_rounds e (u\<lparr>u_mem := m\<rparr>) 9 (mb_message b) array = Option.bind (packet_send_ready (fe_uci e) u') (await_rounds e)"
    "inv (u_mem u')" "tx_inv u' (txs @ as)" "rsp_inv u' (txs @ as)" "u_tr u' = u_tr u"
    "u_world u' = u_world (upd_fira u (\<lambda>c. c\<lparr>fc_cmd_data := array, fc_cmd_data_sz := DL_TDOA_UPDATE_RANGING_ROUND_RSP_MAX_SIZE\<rparr>))"
    "wires (heap (u_mem u')) (txs @ as) = wires (heap (u_mem u)) txs @
      segment (UCI_MT_GID_OID UCI_MESSAGE_TYPE_COMMAND UCI_GID_SESSION_CONFIG 9) ?bs" by blast
  have el: "put_each (\<lambda>i s. do { x \<leftarrow> elem indexes i; put_byte A x s }) [0..<unat n] = put_each (put_byte A) (take (unat n) indexes)"
    using n(3) by (rule put_each_elem)
  from 1(1) have "(do { s \<leftarrow> put_dword A session_id (u_mem u, uci_message_builder_init); s \<leftarrow> put_byte A n s;
      put_each (\<lambda>i s. do { x \<leftarrow> elem indexes i; put_byte A x s }) [0..<unat n] s }) = Some (m, b)" by (simp add: el)
  then have "cherry_uci_client_fira_update_dt_tag_ranging_rounds e u session_id n (Some indexes) (Some array) (Some sz) =
      do { (r, sz, u) \<leftarrow> send_rounds e (u\<lparr>u_mem := m\<rparr>) 9 (mb_message b) array; Some (r, Some sz, u) }"
    using ctx n e by (auto simp: cherry_uci_client_fira_update_dt_tag_ranging_rounds_def bind_eq_Some_conv)
  moreover have "fira_context_of u' =
      Some (c\<lparr>fc_cmd_data := array, fc_cmd_data_sz := DL_TDOA_UPDATE_RANGING_ROUND_RSP_MAX_SIZE\<rparr>)"
    using 1(7) ctx by (auto simp: fira_context_of_def upd_fira_def)
  ultimately show ?thesis using 1 by (intro exI [of _ u'] exI [of _ as]) simp
qed

text \<open>The update of an anchor sends all rounds when all are valid; else nothing is sent and nothing lost.\<close>

lemma anchor_rounds_written:
  assumes sized: "sized a (unat n)" and n: "unat n < FIRA_DT_ANCHOR_MAX_ACTIVE_RR"
  defines "ok \<equiv> \<forall>i < unat n. round_valid a i"
  shows "\<exists>w bs. writes inv w (le_bytes 4 session_id @ [n] @ bs) \<and> length bs < 1000 \<and>
    (ok \<longrightarrow> bs = concat (map (round_bytes a) [0..<unat n])) \<and>
    (\<forall>s. do { s \<leftarrow> put_dword A session_id s; s \<leftarrow> put_byte A n s; put_anchor_rounds A a [0..<unat n] s } =
       Option.bind (w s) (\<lambda>s. Some (ok, s)))"
proof -
  have "set [0..<unat n] \<subseteq> {..<unat n}" by auto
  from put_anchor_rounds_writes [OF sized this] obtain bs where bs: "length bs \<le> 28 * length [0..<unat n]"
    "(\<forall>i \<in> set [0..<unat n]. round_valid a i) \<longrightarrow> bs = concat (map (round_bytes a) [0..<unat n])"
    "stands_for inv (put_anchor_rounds A a [0..<unat n]) (\<forall>i \<in> set [0..<unat n]. round_valid a i) bs" by blast
  have ok: "(\<forall>i \<in> set [0..<unat n]. round_valid a i) = ok" by (auto simp: ok_def)
  have "stands_for inv (\<lambda>s. do { s \<leftarrow> put_dword A session_id s; s \<leftarrow> put_byte A n s; put_anchor_rounds A a [0..<unat n] s }) ok
      (le_bytes 4 session_id @ [n] @ bs)"
    using bs(3) unfolding ok by (intro stands_for_bind writes_scalars)
  then obtain w where "\<forall>s. do { s \<leftarrow> put_dword A session_id s; s \<leftarrow> put_byte A n s; put_anchor_rounds A a [0..<unat n] s } =
      Option.bind (w s) (\<lambda>s. Some (ok, s))" "writes inv w (le_bytes 4 session_id @ [n] @ bs)"
    unfolding stands_for_def by blast
  moreover have "length bs < 1000" using bs(1) n by simp
  ultimately show ?thesis using bs(2) unfolding ok by blast
qed

lemma anchor_rounds_sent:
  assumes e: "e_allocator (fe_uci e) = A" and inv: "inv (u_mem u)" and ctx: "fira_context_of u = Some c"
    and n: "n \<noteq> 0" "unat n < FIRA_DT_ANCHOR_MAX_ACTIVE_RR" and sized: "sized a (unat n)"
    and valid: "\<forall>i < unat n. round_valid a i"
    and tx: "tx_inv u txs" and rsp: "rsp_inv u txs" and un: "\<not> u_locked u" and tr: "u_tr u \<noteq> None"
  shows "\<exists>u' as. cherry_uci_client_fira_update_dt_anchor_ranging_rounds e u session_id n (Some a) (Some array) (Some sz) =
      do { u \<leftarrow> packet_send_ready (fe_uci e) u'; (r, sz, u) \<leftarrow> await_rounds e u; Some (r, Some sz, u) } \<and>
    inv (u_mem u') \<and> tx_inv u' (txs @ as) \<and> rsp_inv u' (txs @ as) \<and> u_tr u' = u_tr u \<and>
    fira_context_of u' = Some (c\<lparr>fc_cmd_data := array, fc_cmd_data_sz := DL_TDOA_UPDATE_RANGING_ROUND_RSP_MAX_SIZE\<rparr>) \<and>
    wires (heap (u_mem u')) (txs @ as) = wires (heap (u_mem u)) txs @
      segment (UCI_MT_GID_OID UCI_MESSAGE_TYPE_COMMAND UCI_GID_SESSION_CONFIG UCI_OID_SESSION_UPDATE_DT_ANCHOR_RANGING_ROUNDS)
        (le_bytes 4 session_id @ [n] @ concat (map (round_bytes a) [0..<unat n]))"
proof -
  from anchor_rounds_written [OF sized n(2), of session_id] valid obtain w bs where
    w: "writes inv w (le_bytes 4 session_id @ [n] @ bs)" and bs: "length bs < 1000" "bs = concat (map (round_bytes a) [0..<unat n])"
    and eq: "\<And>s. do { s \<leftarrow> put_dword A session_id s; s \<leftarrow> put_byte A n s; put_anchor_rounds A a [0..<unat n] s } =
      Option.bind (w s) (\<lambda>s. Some (True, s))" by auto
  have len: "length (le_bytes 4 session_id @ [n] @ bs) < 65536" "le_bytes 4 session_id @ [n] @ bs \<noteq> []" using bs(1) by simp_all
  from rounds_sent [OF w len e inv ctx _ tx rsp un tr, of 8 array] obtain m b u' as where
    1: "w (u_mem u, uci_message_builder_init) = Some (m, b)"
    "send_rounds e (u\<lparr>u_mem := m\<rparr>) 8 (mb_message b) array = Option.bind (packet_send_ready (fe_uci e) u') (await_rounds e)"
    "inv (u_mem u')" "tx_inv u' (txs @ as)" "rsp_inv u' (txs @ as)" "u_tr u' = u_tr u"
    "u_world u' = u_world (upd_fira u (\<lambda>c. c\<lparr>fc_cmd_data := array, fc_cmd_data_sz := DL_TDOA_UPDATE_RANGING_ROUND_RSP_MAX_SIZE\<rparr>))"
    "wires (heap (u_mem u')) (txs @ as) = wires (heap (u_mem u)) txs @
      segment (UCI_MT_GID_OID UCI_MESSAGE_TYPE_COMMAND UCI_GID_SESSION_CONFIG 8) (le_bytes 4 session_id @ [n] @ bs)" by blast
  from eq [of "(u_mem u, uci_message_builder_init)"] 1(1) have
    "cherry_uci_client_fira_update_dt_anchor_ranging_rounds e u session_id n (Some a) (Some array) (Some sz) =
      do { (r, sz, u) \<leftarrow> send_rounds e (u\<lparr>u_mem := m\<rparr>) 8 (mb_message b) array; Some (r, Some sz, u) }"
    using ctx n e by (auto simp: cherry_uci_client_fira_update_dt_anchor_ranging_rounds_def bind_eq_Some_conv)
  moreover have "fira_context_of u' =
      Some (c\<lparr>fc_cmd_data := array, fc_cmd_data_sz := DL_TDOA_UPDATE_RANGING_ROUND_RSP_MAX_SIZE\<rparr>)"
    using 1(7) ctx by (auto simp: fira_context_of_def upd_fira_def)
  ultimately show ?thesis using 1 bs(2) by (intro exI [of _ u'] exI [of _ as]) simp
qed

lemma anchor_rounds_refused:
  assumes e: "e_allocator (fe_uci e) = A" and inv: "inv (u_mem u)" and ctx: "fira_context_of u = Some c"
    and n: "n \<noteq> 0" "unat n < FIRA_DT_ANCHOR_MAX_ACTIVE_RR" and sized: "sized a (unat n)"
    and bad: "i < unat n" "\<not> round_valid a i"
  shows "\<exists>m. cherry_uci_client_fira_update_dt_anchor_ranging_rounds e u session_id n (Some a) (Some array) (Some sz) =
      Some (UCI_STATUS_INVALID_PARAM, Some sz, u\<lparr>u_mem := m\<rparr>) \<and> heap m = heap (u_mem u) \<and> inv m"
proof -
  have no: "(\<forall>i < unat n. round_valid a i) = False" using bad by blast
  from anchor_rounds_written [OF sized n(2), of session_id] obtain w bs where
    w: "writes inv w (le_bytes 4 session_id @ [n] @ bs)" and bs: "length bs < 1000"
    and eq: "\<And>s. do { s \<leftarrow> put_dword A session_id s; s \<leftarrow> put_byte A n s; put_anchor_rounds A a [0..<unat n] s } =
      Option.bind (w s) (\<lambda>s. Some (False, s))" unfolding no by auto
  have len: "length (le_bytes 4 session_id @ [n] @ bs) < 65536" "le_bytes 4 session_id @ [n] @ bs \<noteq> []" using bs by simp_all
  from written_message_freed [OF w inv len] obtain m1 b m2 where
    1: "w (u_mem u, uci_message_builder_init) = Some (m1, b)" "uci_blk_free_all A m1 (mb_message b) = Some m2"
    "heap m2 = heap (u_mem u)" "inv m2" by blast
  from eq [of "(u_mem u, uci_message_builder_init)"] 1(1,2) have
    "cherry_uci_client_fira_update_dt_anchor_ranging_rounds e u session_id n (Some a) (Some array) (Some sz) =
      Some (UCI_STATUS_INVALID_PARAM, Some sz, u\<lparr>u_mem := m2\<rparr>)"
    using ctx n e by (auto simp: cherry_uci_client_fira_update_dt_anchor_ranging_rounds_def bind_eq_Some_conv)
  with 1(3,4) show ?thesis by blast
qed

end

section \<open>The responses\<close>

text \<open>The content of the array after a response.\<close>

definition rounds_stored :: "bytes \<Rightarrow> bytes \<Rightarrow> bytes" where
  "rounds_stored bs a =
     (let n = unat (bs ! 1) in if n = 0 then 0 # tl a else take n (drop 2 bs) @ drop n a)"

definition fira_answered :: "'v fuci \<Rightarrow> int \<Rightarrow> nat \<Rightarrow> 'v fuci" where
  "fira_answered u s n = upd_fira u (\<lambda>c. c\<lparr>fc_response_status := s, fc_cmd_data_sz := n, fc_sem := 1\<rparr>)"

definition set_array :: "'v fuci \<Rightarrow> nat \<Rightarrow> bytes \<Rightarrow> 'v fuci" where
  "set_array u p a = u\<lparr>u_world := (u_world u)\<lparr>fw_arrays := (fw_arrays (u_world u))(p \<mapsto> a)\<rparr>\<rparr>"

lemma store_cmd_data_ok:
  assumes "fira_context_of u = Some c" and "fw_arrays (u_world u) (fc_cmd_data c) = Some a" and "length xs \<le> length a"
  shows "store_cmd_data u xs = Some (set_array u (fc_cmd_data c) (xs @ drop (length xs) a))"
  using assms by (simp add: store_cmd_data_def set_array_def write_buf_def)

lemma store_cmd_data_dead:
  "fira_context_of u = Some c \<Longrightarrow> fw_arrays (u_world u) (fc_cmd_data c) = None \<Longrightarrow> store_cmd_data u xs = None"
  by (simp add: store_cmd_data_def)

lemma upd_fira_simps [simp]:
  "upd_fira (upd_fira u f) g = upd_fira u (g \<circ> f)" "fw_arrays (u_world (upd_fira u f)) = fw_arrays (u_world u)"
  "upd_fira (set_array u p a) f = set_array (upd_fira u f) p a"
  by (auto simp: upd_fira_def set_array_def option.map_comp comp_def prod.map_comp id_def)

lemma answer_order: "c\<lparr>fc_cmd_data_sz := n, fc_response_status := s\<rparr> = c\<lparr>fc_response_status := s, fc_cmd_data_sz := n\<rparr>"
  by (cases c) simp

lemma rounds_response:
  assumes ctx: "fira_context_of u = Some c" and arr: "fw_arrays (u_world u) (fc_cmd_data c) = Some a"
    and len: "length a = DL_TDOA_UPDATE_RANGING_ROUND_RSP_MAX_SIZE" and msg: "msg_ok (heap (u_mem u)) p bs"
  shows "uci_rsp_handler_dt_ranging_rounds u (Some p) = Some
    (if length bs < 2 \<or> length bs < 2 + unat (bs ! 1)
     then (QERR_EINVAL, fira_answered u UCI_STATUS_INVALID_MESSAGE_SIZE 0)
     else (QERR_SUCCESS, set_array (fira_answered u (uint (bs ! 0)) (unat (bs ! 1))) (fc_cmd_data c) (rounds_stored bs a)))"
proof -
  from parser_init [OF msg] obtain q where q: "fira_parser u (Some p) = Some q" "parser_rep (heap (u_mem u)) q bs"
    by (auto simp: fira_parser_def)
  note rem = remaining_rep [OF q(2)]
  show ?thesis
  proof (cases "length bs < 2")
    case True
    with q rem ctx show ?thesis
      by (simp add: uci_rsp_handler_dt_ranging_rounds_def rounds_response_invalid_def fira_answered_def
          cherry_fira_set_rsp_def comp_def answer_order)
  next
    case False
    then obtain s n rest where bs: "bs = s # n # rest" by (cases bs; cases "tl bs") auto
    from q(2) [unfolded bs] obtain q1 where q1: "uci_message_get_8bit (heap (u_mem u)) q = Some (s, q1)"
      "parser_rep (heap (u_mem u)) q1 (n # rest)" using get_8bit_rep by blast
    from q1(2) obtain q2 where q2: "uci_message_get_8bit (heap (u_mem u)) q1 = Some (n, q2)"
      "parser_rep (heap (u_mem u)) q2 rest" using get_8bit_rep by blast
    note rem2 = remaining_rep [OF q2(2)]
    from message_get_rep [OF q2(2), of "unat n"] obtain q3 where
      q3: "uci_message_get (heap (u_mem u)) q2 (unat n) = Some (take (unat n) rest, q3)" by blast
    have st: "fira_parse_status (heap (u_mem u)) q = Some (uint s, q1)" using rem False q1 by (simp add: fira_parse_status_def bs)
    let ?u = "upd_fira u (\<lambda>c. c\<lparr>fc_response_status := uint s\<rparr>)"
    have u: "fira_context_of ?u = Some (c\<lparr>fc_response_status := uint s\<rparr>)" using ctx by simp
    have n: "unat n < 2 ^ 8" by (rule order.strict_trans2 [OF unsigned_less]) simp
    show ?thesis
    proof (cases "n = 0")
      case True
      with store_cmd_data_ok [OF u, of a "[0]"] q rem ctx False st q2 arr len show ?thesis
        by (simp add: uci_rsp_handler_dt_ranging_rounds_def fira_answered_def rounds_stored_def bs
            cherry_fira_set_rsp_def comp_def drop_Suc answer_order)
    next
      case pos: False
      then have gt: "0 < n" by (simp add: word_gt_0)
      show ?thesis
      proof (cases "length rest < unat n")
        case True
        with q rem rem2 ctx False st q2 gt show ?thesis
          by (simp add: uci_rsp_handler_dt_ranging_rounds_def rounds_response_invalid_def fira_answered_def bs
              cherry_fira_set_rsp_def comp_def answer_order)
      next
        case fits: False
        then have l: "length (take (unat n) rest) = unat n" by simp
        from store_cmd_data_ok [OF u, of a "take (unat n) rest"] arr len n have
          "store_cmd_data ?u (take (unat n) rest) = Some (set_array ?u (fc_cmd_data c) (take (unat n) rest @ drop (unat n) a))"
          unfolding l by simp
        with q rem rem2 ctx False st q2 q3 gt fits pos show ?thesis
          by (simp add: uci_rsp_handler_dt_ranging_rounds_def fira_answered_def rounds_stored_def bs
              cherry_fira_set_rsp_def comp_def unat_eq_zero answer_order Let_def)
      qed
    qed
  qed
qed

text \<open>A response with an array that is dead: the store of the handler is not defined.\<close>

lemma rounds_response_dead:
  assumes ctx: "fira_context_of u = Some c" and arr: "fw_arrays (u_world u) (fc_cmd_data c) = None"
    and msg: "msg_ok (heap (u_mem u)) p bs" and len: "2 \<le> length bs" "2 + unat (bs ! 1) \<le> length bs"
  shows "uci_rsp_handler_dt_ranging_rounds u (Some p) = None"
proof -
  from parser_init [OF msg] obtain q where q: "fira_parser u (Some p) = Some q" "parser_rep (heap (u_mem u)) q bs"
    by (auto simp: fira_parser_def)
  from len(1) obtain s n rest where bs: "bs = s # n # rest" by (cases bs; cases "tl bs") auto
  from q(2) [unfolded bs] obtain q1 where q1: "uci_message_get_8bit (heap (u_mem u)) q = Some (s, q1)"
    "parser_rep (heap (u_mem u)) q1 (n # rest)" using get_8bit_rep by blast
  from q1(2) obtain q2 where q2: "uci_message_get_8bit (heap (u_mem u)) q1 = Some (n, q2)"
    "parser_rep (heap (u_mem u)) q2 rest" using get_8bit_rep by blast
  note rem = remaining_rep [OF q(2)] remaining_rep [OF q2(2)]
  let ?u = "upd_fira u (\<lambda>c. c\<lparr>fc_response_status := uint s\<rparr>)"
  have "store_cmd_data ?u xs = None" for xs
    using ctx arr by (intro store_cmd_data_dead [of _ "c\<lparr>fc_response_status := uint s\<rparr>"]) simp_all
  with q(1) q1(1) q2(1) rem ctx len bs show ?thesis
    by (simp add: uci_rsp_handler_dt_ranging_rounds_def fira_parse_status_def Let_def split: bind_splits)
qed

section \<open>A response that comes too late\<close>

lemma await_rounds_timeout:
  assumes "fira_context_of u = Some c" and "fc_sem c = 0" and "fe_wait e u = Some u"
  shows "await_rounds e u = Some (UCI_STATUS_UCI_MESSAGE_RETRY, 0, u)"
  using assms by (simp add: await_rounds_def cherry_fira_wait_rsp_def)

context ample_allocator
begin

text \<open>A command that got no response leaves the address of its array in the context.\<close>

lemma tag_rounds_timeout:
  assumes "e_allocator (fe_uci e) = A" and "inv (u_mem u)" and "fira_context_of u = Some c" and sem: "fc_sem c = 0"
    and "n \<noteq> 0" and "unat n < FIRA_DT_TAG_MAX_ACTIVE_RR" and "unat n \<le> length indexes"
    and "tx_inv u txs" and "rsp_inv u txs" and "\<not> u_locked u" and tr: "u_tr u \<noteq> None"
    and ready: "\<And>v. \<exists>v'. e_packet_send_ready (fe_uci e) v = Some v' \<and> u_world v' = u_world v"
    and wait: "\<And>v. fe_wait e v = Some v"
  shows "\<exists>u'. cherry_uci_client_fira_update_dt_tag_ranging_rounds e u session_id n (Some indexes) (Some array) (Some sz) =
      Some (UCI_STATUS_UCI_MESSAGE_RETRY, Some 0, u') \<and>
    fira_context_of u' = Some (c\<lparr>fc_cmd_data := array, fc_cmd_data_sz := DL_TDOA_UPDATE_RANGING_ROUND_RSP_MAX_SIZE\<rparr>)"
proof -
  from tag_rounds_sent [OF assms(1-3,5-11), of session_id array sz] obtain u1 where
    run: "cherry_uci_client_fira_update_dt_tag_ranging_rounds e u session_id n (Some indexes) (Some array) (Some sz) =
      do { u \<leftarrow> packet_send_ready (fe_uci e) u1; (r, sz, u) \<leftarrow> await_rounds e u; Some (r, Some sz, u) }"
    and u1: "u_tr u1 = u_tr u"
    "fira_context_of u1 = Some (c\<lparr>fc_cmd_data := array, fc_cmd_data_sz := DL_TDOA_UPDATE_RANGING_ROUND_RSP_MAX_SIZE\<rparr>)"
    by blast
  from ready [of u1] obtain u2 where u2: "e_packet_send_ready (fe_uci e) u1 = Some u2" "u_world u2 = u_world u1" by blast
  then have "packet_send_ready (fe_uci e) u1 = Some u2" using u1(1) tr by (auto simp: packet_send_ready_def)
  moreover have ctx: "fira_context_of u2 = fira_context_of u1" using u2(2) by (simp add: fira_context_of_def)
  moreover have "await_rounds e u2 = Some (UCI_STATUS_UCI_MESSAGE_RETRY, 0, u2)"
    by (rule await_rounds_timeout [OF ctx [unfolded u1(2)] _ wait]) (simp add: sem)
  ultimately show ?thesis using run u1(2) by simp
qed

end

section \<open>Diagnostics\<close>

lemma diag_handler_layout:
  assumes ctx: "fira_context_of u = Some c" and cb: "fc_diag_notification_cb c"
    and msg: "msg_ok (heap (u_mem u)) p (diag_bytes handle sequence ds)"
    and ok: "list_all report_ok ds" "ds \<noteq> []" "length ds < 256" and ample: "ample (fw_heap (u_world u))"
  shows "\<exists>q d m. uci_rsp_diag_ntf_handler e u (Some p) =
      do { u \<leftarrow> fe_diag_cb e (q, d) (set_fira_heap u m); Some (QERR_SUCCESS, u) } \<and>
    di_session_handle d = handle \<and> di_sequence_number d = sequence \<and> di_nb_reports d = of_nat (length ds) \<and>
    map strip (snd (di_reports d)) = map report_of ds"
proof -
  from parser_init [OF msg] obtain q where q: "fira_parser u (Some p) = Some q"
    "parser_rep (heap (u_mem u)) q (diag_bytes handle sequence ds)" by (auto simp: fira_parser_def)
  from parse_diagnostics_layout [OF ok ample q(2)] obtain x d m where
    d: "parse_diagnostics (heap (u_mem u)) q (fw_heap (u_world u)) = Some (QERR_SUCCESS, Some (x, d), m)"
    "di_session_handle d = handle" "di_sequence_number d = sequence" "di_nb_reports d = of_nat (length ds)"
    "map strip (snd (di_reports d)) = map report_of ds" by blast
  with q(1) ctx cb show ?thesis
    by (intro exI [of _ x] exI [of _ d] exI [of _ m]) (simp add: uci_rsp_diag_ntf_handler_def)
qed

lemma diag_handler_kept:
  assumes ctx: "fira_context_of u = Some c" and cb: "fc_diag_notification_cb c" and msg: "msg_ok (heap (u_mem u)) p bs"
    and ok: "heap_ok (fw_heap (u_world u))" and nr: "diag_no_repeats bs"
    and run: "uci_rsp_diag_ntf_handler e u (Some p) = Some (r, u')"
  shows "(\<exists>m. r \<noteq> QERR_SUCCESS \<and> u' = set_fira_heap u m \<and> blocks m = blocks (fw_heap (u_world u))) \<or>
    (\<exists>d m m'. r = QERR_SUCCESS \<and> fe_diag_cb e d (set_fira_heap u m) = Some u' \<and>
      cherry_uci_client_fira_free_diag m (Some d) = Some m' \<and> blocks m' = blocks (fw_heap (u_world u)))"
proof -
  from parser_init [OF msg] obtain q where q: "fira_parser u (Some p) = Some q" "parser_rep (heap (u_mem u)) q bs"
    by (auto simp: fira_parser_def)
  from run q(1) ctx cb obtain ret d m where
    1: "parse_diagnostics (heap (u_mem u)) q (fw_heap (u_world u)) = Some (ret, d, m)"
    "(case d of None \<Rightarrow> Some (ret, set_fira_heap u m)
      | Some d \<Rightarrow> do { u \<leftarrow> fe_diag_cb e d (set_fira_heap u m); Some (ret, u) }) = Some (r, u')"
    by (auto simp: uci_rsp_diag_ntf_handler_def bind_eq_Some_conv Let_def)
  note k = parse_diagnostics_kept [OF q(2) ok nr 1(1)]
  show ?thesis
  proof (cases d)
    case None
    with 1(2) k show ?thesis by auto
  next
    case (Some x)
    with k have ret: "ret = QERR_SUCCESS" by simp
    with Some 1(2) have "r = QERR_SUCCESS" "fe_diag_cb e x (set_fira_heap u m) = Some u'" by (auto simp: bind_eq_Some_conv)
    with diagnostics_freed [OF q(2) ok nr 1(1) [unfolded ret Some]] show ?thesis by blast
  qed
qed

text \<open>The context that is opened is dereferenced even when its allocation failed.\<close>

lemma fira_open_no_memory:
  "q_fails (fw_heap (u_world u)) (q_next (fw_heap (u_world u))) \<Longrightarrow> cherry_uci_client_fira_open e u True = None"
  by (simp add: cherry_uci_client_fira_open_def qmalloc_def qmalloc_internal_def)

end
