(* ===== verification/Calib_Client.thy ===== *)
theory Calib_Client
  imports App_Command Message_Writers Qmalloc
begin

text \<open>
  The client for calibration values (\<^verbatim>\<open>cherry_calib_client.c\<close>): the command that sets keys, the command
  that gets keys and the handlers of their responses. The values of a response are stored in memory that
  callbacks of the caller allocate.
\<close>

section \<open>State\<close>

abbreviation (input) UCI_GID_QORVO_MAC :: nat where "UCI_GID_QORVO_MAC \<equiv> 0xe"
abbreviation (input) UCI_OID_QORVO_MAC_SET_CALIBRATIONS :: nat where "UCI_OID_QORVO_MAC_SET_CALIBRATIONS \<equiv> 0x2a"
abbreviation (input) UCI_OID_QORVO_MAC_GET_CALIBRATIONS :: nat where "UCI_OID_QORVO_MAC_GET_CALIBRATIONS \<equiv> 0x2b"

text \<open>The callbacks of the caller: two function pointers and their argument.\<close>

record calib_cb =
  cb_user_data :: "nat option"
  cb_alloc :: nat
  cb_key_notif :: nat

record calib_context =
  kc_cmd_data :: nat
  kc_response_status :: byte
  kc_sem :: nat

text \<open>
  The context with its block, what the memory for it holds before, the callback structures and the
  buffers that are alive, by their addresses.
\<close>

record 'v calib_world =
  kw_context :: "(nat \<times> calib_context) option"
  kw_junk :: calib_context
  kw_heap :: qheap
  kw_cbs :: "nat \<Rightarrow> calib_cb option"
  kw_data :: "nat \<Rightarrow> bytes option"
  kw_rest :: 'v

type_synonym 'v kuci = "'v calib_world uci"

record 'v calib_env =
  ke_uci :: "'v calib_world uci_env"
  ke_wait :: "'v kuci \<Rightarrow> 'v kuci option"
  ke_alloc :: "nat \<Rightarrow> nat option \<Rightarrow> byte \<Rightarrow> 'v kuci \<Rightarrow> (nat option \<times> 'v kuci) option"
  ke_key_notif :: "nat \<Rightarrow> nat option \<Rightarrow> nat \<Rightarrow> nat \<Rightarrow> nat \<Rightarrow> 'v kuci \<Rightarrow> (bool \<times> 'v kuci) option"
  ke_list :: ptr

definition calib_context_of :: "'v kuci \<Rightarrow> calib_context option" where
  "calib_context_of u = map_option snd (kw_context (u_world u))"

definition upd_calib :: "'v kuci \<Rightarrow> (calib_context \<Rightarrow> calib_context) \<Rightarrow> 'v kuci" where
  "upd_calib u f = u\<lparr>u_world := (u_world u)\<lparr>kw_context := map_option (map_prod id f) (kw_context (u_world u))\<rparr>\<rparr>"

definition set_calib_heap :: "'v kuci \<Rightarrow> qheap \<Rightarrow> 'v kuci" where
  "set_calib_heap u m = u\<lparr>u_world := (u_world u)\<lparr>kw_heap := m\<rparr>\<rparr>"

definition store_data :: "'v kuci \<Rightarrow> nat \<Rightarrow> nat \<Rightarrow> bytes \<Rightarrow> 'v kuci option" where
  "store_data u p off xs =
     do {
       d \<leftarrow> kw_data (u_world u) p;
       d \<leftarrow> write_buf d off xs;
       Some (u\<lparr>u_world := (u_world u)\<lparr>kw_data := (kw_data (u_world u))(p \<mapsto> d)\<rparr>\<rparr>)
     }"

text \<open>Waiting for the semaphore: the receiving thread may run before it is taken or times out.\<close>

definition cherry_calib_wait_rsp :: "'v calib_env \<Rightarrow> 'v kuci \<Rightarrow> (bool \<times> 'v kuci) option" where
  "cherry_calib_wait_rsp e u =
     do {
       c0 \<leftarrow> calib_context_of u;
       u \<leftarrow> (if kc_sem c0 > 0 then Some u else ke_wait e u);
       c \<leftarrow> calib_context_of u;
       if kc_sem c > 0 then Some (True, upd_calib u (\<lambda>c. c\<lparr>kc_sem := kc_sem c - 1\<rparr>))
       else Some (False, u)
     }"

definition cherry_calib_set_rsp :: "'v kuci \<Rightarrow> 'v kuci" where
  "cherry_calib_set_rsp u = upd_calib u (\<lambda>c. c\<lparr>kc_sem := 1\<rparr>)"

definition calib_status :: "'v kuci \<Rightarrow> bool \<Rightarrow> int option" where
  "calib_status u ret =
     do { c \<leftarrow> calib_context_of u; Some (if ret then uint (kc_response_status c) else UCI_STATUS_UCI_MESSAGE_RETRY) }"

section \<open>Setting keys\<close>

text \<open>
  The command is a block that holds the builder and the address of the number of keys in the message.
\<close>

record uwbs_config_set_cmd =
  uc_builder :: uci_message_builder
  uc_nb_key :: "ptr \<times> nat"

type_synonym set_cmd_ptr = "(nat \<times> uwbs_config_set_cmd) option"

abbreviation (input) sizeof_set_cmd :: nat where "sizeof_set_cmd \<equiv> 64"

definition cherry_uci_client_uwbs_config_set_cmd_create ::
    "'v calib_env \<Rightarrow> 'v kuci \<Rightarrow> (set_cmd_ptr \<times> 'v kuci) option" where
  "cherry_uci_client_uwbs_config_set_cmd_create e u =
     (if kw_context (u_world u) = None then Some (None, u)
      else case qmalloc (kw_heap (u_world u)) sizeof_set_cmd of
        (None, q) \<Rightarrow> Some (None, set_calib_heap u q)
      | (Some p, q) \<Rightarrow>
          do {
            let u = set_calib_heap u q;
            (n, m, b) \<leftarrow> uci_message_reserve_16bit (e_allocator (ke_uci e)) (u_mem u) uci_message_builder_init 0;
            let u = u\<lparr>u_mem := m\<rparr>;
            case n of
              None \<Rightarrow> do { q \<leftarrow> qfree (kw_heap (u_world u)) (Some p); Some (None, set_calib_heap u q) }
            | Some n \<Rightarrow> Some (Some (p, \<lparr>uc_builder = b, uc_nb_key = n\<rparr>), u)
          })"

definition cherry_uci_client_uwbs_config_set_cmd_destroy ::
    "'v calib_env \<Rightarrow> 'v kuci \<Rightarrow> set_cmd_ptr \<Rightarrow> 'v kuci option" where
  "cherry_uci_client_uwbs_config_set_cmd_destroy e u cmd =
     (case cmd of
        None \<Rightarrow> Some u
      | Some (p, c) \<Rightarrow>
          do {
            m \<leftarrow> uci_blk_free_all (e_allocator (ke_uci e)) (u_mem u) (mb_message (uc_builder c));
            q \<leftarrow> qfree (kw_heap (u_world u)) (Some p);
            Some (set_calib_heap (u\<lparr>u_mem := m\<rparr>) q)
          })"

definition cherry_uci_client_uwbs_config_set_cmd_abort ::
    "'v calib_env \<Rightarrow> 'v kuci \<Rightarrow> set_cmd_ptr \<Rightarrow> 'v kuci option" where
  "cherry_uci_client_uwbs_config_set_cmd_abort e u cmd = cherry_uci_client_uwbs_config_set_cmd_destroy e u cmd"

text \<open>The number of keys has 16 bits, in the byte order of a little-endian machine.\<close>

definition read_nb_key :: "mem \<Rightarrow> ptr \<times> nat \<Rightarrow> 16 word option" where
  "read_nb_key m p = do { b \<leftarrow> heap m (fst p); d \<leftarrow> read_buf (b_data b) (snd p) 2; Some (le_value d) }"

definition incr_nb_key :: "mem \<Rightarrow> ptr \<times> nat \<Rightarrow> mem option" where
  "incr_nb_key m p = do { v \<leftarrow> read_nb_key m p; write_chunk m (Some p) (le_bytes 2 (v + 1)) }"

definition cherry_uci_client_uwbs_config_set_cmd_send ::
    "'v calib_env \<Rightarrow> 'v kuci \<Rightarrow> set_cmd_ptr \<Rightarrow> (int \<times> 'v kuci) option" where
  "cherry_uci_client_uwbs_config_set_cmd_send e u cmd =
     (case cmd of
        None \<Rightarrow> Some (UCI_STATUS_INVALID_PARAM, u)
      | Some (p, c) \<Rightarrow>
          do {
            n \<leftarrow> read_nb_key (u_mem u) (uc_nb_key c);
            if n = 0
            then do { u \<leftarrow> cherry_uci_client_uwbs_config_set_cmd_abort e u cmd; Some (UCI_STATUS_OK, u) }
            else do {
              u \<leftarrow> uci_send_message (ke_uci e) u
                    (UCI_MT_GID_OID UCI_MESSAGE_TYPE_COMMAND UCI_GID_QORVO_MAC UCI_OID_QORVO_MAC_SET_CALIBRATIONS)
                    (mb_message (uc_builder c));
              let c = c\<lparr>uc_builder := (uc_builder c)\<lparr>mb_message := None\<rparr>\<rparr>;
              (ret, u) \<leftarrow> cherry_calib_wait_rsp e u;
              u \<leftarrow> cherry_uci_client_uwbs_config_set_cmd_destroy e u (Some (p, c));
              s \<leftarrow> calib_status u ret;
              Some (s, u)
            }
          })"

text \<open>\<open>strlen\<close>: a string without its NUL runs out of its memory.\<close>

definition strlen :: "bytes \<Rightarrow> nat option" where
  "strlen s = (if 0 \<in> set s then Some (length (takeWhile (\<lambda>c. c \<noteq> 0) s)) else None)"

text \<open>
  The length of the name is truncated to 8 bits. Only the result of the first put is looked at: \<open>ret\<close> is
  not assigned by the others.
\<close>

definition cherry_uci_client_uwbs_config_set_cmd_put ::
    "'v calib_env \<Rightarrow> 'v kuci \<Rightarrow> set_cmd_ptr \<Rightarrow> bytes option \<Rightarrow> bytes option \<Rightarrow> byte \<Rightarrow>
     (int \<times> 'v kuci \<times> set_cmd_ptr) option" where
  "cherry_uci_client_uwbs_config_set_cmd_put e u cmd keyname val value_size =
     (case (cmd, keyname, val) of
        (Some (p, c), Some k, Some v) \<Rightarrow>
          if value_size = 0 then Some (UCI_STATUS_INVALID_PARAM, u, cmd)
          else do {
            let A = e_allocator (ke_uci e);
            n \<leftarrow> strlen k;
            let keyname_size = (of_nat n :: byte);
            (ret, m, b) \<leftarrow> uci_message_put_8bit A (u_mem u) (uc_builder c) keyname_size;
            if ret \<noteq> 0 then Some (UCI_STATUS_FAILED, u\<lparr>u_mem := m\<rparr>, Some (p, c\<lparr>uc_builder := b\<rparr>))
            else do {
              xs \<leftarrow> read_buf k 0 (unat keyname_size);
              (_, m, b) \<leftarrow> uci_message_put A m b xs;
              (_, m, b) \<leftarrow> uci_message_put_8bit A m b value_size;
              ys \<leftarrow> read_buf v 0 (unat value_size);
              (_, m, b) \<leftarrow> uci_message_put A m b ys;
              m \<leftarrow> incr_nb_key m (uc_nb_key c);
              Some (UCI_STATUS_OK, u\<lparr>u_mem := m\<rparr>, Some (p, c\<lparr>uc_builder := b\<rparr>))
            }
          }
      | _ \<Rightarrow> Some (UCI_STATUS_INVALID_PARAM, u, cmd))"

text \<open>The size of the value is truncated to 8 bits.\<close>

definition cherry_uci_client_calib_set_key ::
    "'v calib_env \<Rightarrow> 'v kuci \<Rightarrow> bytes option \<Rightarrow> bytes option \<Rightarrow> nat \<Rightarrow> (int \<times> 'v kuci) option" where
  "cherry_uci_client_calib_set_key e u key val value_size =
     do {
       (cmd, u) \<leftarrow> cherry_uci_client_uwbs_config_set_cmd_create e u;
       if cmd = None then Some (UCI_STATUS_INVALID_PARAM, u)
       else do {
         (err, u, cmd) \<leftarrow> cherry_uci_client_uwbs_config_set_cmd_put e u cmd key val (of_nat value_size);
         if err \<noteq> UCI_STATUS_OK
         then do { u \<leftarrow> cherry_uci_client_uwbs_config_set_cmd_abort e u cmd; Some (err, u) }
         else cherry_uci_client_uwbs_config_set_cmd_send e u cmd
       }
     }"

definition calib_parser :: "'v kuci \<Rightarrow> ptr option \<Rightarrow> uci_message_parser option" where
  "calib_parser u msg = do { p \<leftarrow> msg; UCI_MESSAGE_PARSER_INITIALIZER (heap (u_mem u)) p }"

definition set_calib_status :: "'v kuci \<Rightarrow> byte \<Rightarrow> 'v kuci" where
  "set_calib_status u s = upd_calib u (\<lambda>c. c\<lparr>kc_response_status := s\<rparr>)"

definition cherry_uci_client_calib_set_key_handler :: "'v kuci \<Rightarrow> ptr option \<Rightarrow> (int \<times> 'v kuci) option" where
  "cherry_uci_client_calib_set_key_handler u msg =
     do {
       parser \<leftarrow> calib_parser u msg;
       c \<leftarrow> calib_context_of u;
       if uci_message_remaining parser < 1
       then Some (QERR_SUCCESS, cherry_calib_set_rsp (set_calib_status u (of_int UCI_STATUS_SYNTAX_ERROR)))
       else do {
         (s, parser) \<leftarrow> uci_message_get_8bit (heap (u_mem u)) parser;
         Some (QERR_SUCCESS, cherry_calib_set_rsp (set_calib_status u s))
       }
     }"

section \<open>Getting keys\<close>

definition put_string :: "uci_allocator_ops \<Rightarrow> bytes \<Rightarrow> writer" where
  "put_string A s = (\<lambda>(m, b). do { n \<leftarrow> strlen s; uci_message_put_string A m b s n })"

text \<open>\<open>keys\<close> is the array of names of the caller, \<open>cb\<close> the address of its callbacks.\<close>

definition cherry_uci_client_calib_get_key ::
    "'v calib_env \<Rightarrow> 'v kuci \<Rightarrow> bytes list \<Rightarrow> 16 word \<Rightarrow> nat \<Rightarrow> (int \<times> 'v kuci) option" where
  "cherry_uci_client_calib_get_key e u keys n_keys cb =
     (if kw_context (u_world u) = None then Some (UCI_STATUS_INVALID_PARAM, u)
      else do {
        let A = e_allocator (ke_uci e);
        s \<leftarrow> put_word A n_keys (u_mem u, uci_message_builder_init);
        (m, b) \<leftarrow> put_each (\<lambda>i s. if i < length keys then put_string A (keys ! i) s else None) [0..<unat n_keys] s;
        let u = upd_calib (u\<lparr>u_mem := m\<rparr>) (\<lambda>c. c\<lparr>kc_cmd_data := cb\<rparr>);
        u \<leftarrow> uci_send_message (ke_uci e) u
              (UCI_MT_GID_OID UCI_MESSAGE_TYPE_COMMAND UCI_GID_QORVO_MAC UCI_OID_QORVO_MAC_GET_CALIBRATIONS)
              (mb_message b);
        (ret, u) \<leftarrow> cherry_calib_wait_rsp e u;
        s \<leftarrow> calib_status u ret;
        Some (s, u)
      })"

text \<open>
  Reading into a buffer: the number of bytes read, which is smaller than asked for at the end of the message.
\<close>

definition get_data :: "'v kuci \<Rightarrow> uci_message_parser \<Rightarrow> nat \<Rightarrow> nat \<Rightarrow> (nat \<times> 'v kuci \<times> uci_message_parser) option" where
  "get_data u parser p n =
     do { (xs, parser) \<leftarrow> uci_message_get (heap (u_mem u)) parser n;
          u \<leftarrow> store_data u p 0 xs;
          Some (length xs, u, parser) }"

definition get_8bit_or :: "'v kuci \<Rightarrow> uci_message_parser \<Rightarrow> (byte option \<times> uci_message_parser) option" where
  "get_8bit_or u parser =
     do { (ok, v, parser) \<leftarrow> uci_message_get_8bit_no_assert (heap (u_mem u)) parser 0;
          Some (if ok then Some v else None, parser) }"

definition alloc_data :: "'v calib_env \<Rightarrow> 'v kuci \<Rightarrow> nat \<Rightarrow> byte \<Rightarrow> (nat option \<times> 'v kuci) option" where
  "alloc_data e u cb n = do { c \<leftarrow> kw_cbs (u_world u) cb; ke_alloc e (cb_alloc c) (cb_user_data c) n u }"

type_synonym 'v key_step = "(int \<times> 'v kuci \<times> uci_message_parser) option"

text \<open>The value of a key, after its name and its status; and a key.\<close>

definition parse_key_value :: "'v calib_env \<Rightarrow> nat \<Rightarrow> nat \<Rightarrow> 'v kuci \<Rightarrow> uci_message_parser \<Rightarrow> 'v key_step" where
  "parse_key_value e cb key_name u parser =
     do {
       (data_len, parser) \<leftarrow> get_8bit_or u parser;
       case data_len of
         None \<Rightarrow> Some (UCI_STATUS_SYNTAX_ERROR, u, parser)
       | Some data_len \<Rightarrow>
           do {
             (d, u) \<leftarrow> alloc_data e u cb data_len;
             case d of
               None \<Rightarrow> Some (UCI_STATUS_INVALID_PARAM, u, parser)
             | Some d \<Rightarrow>
                 do {
                   (n, u, parser) \<leftarrow> get_data u parser d (unat data_len);
                   if n = 0 then Some (UCI_STATUS_INVALID_RANGE, u, parser)
                   else do {
                     c \<leftarrow> kw_cbs (u_world u) cb;
                     (ok, u) \<leftarrow> ke_key_notif e (cb_key_notif c) (cb_user_data c) key_name d (unat data_len) u;
                     Some (if ok then UCI_STATUS_OK else UCI_STATUS_SYNTAX_ERROR, u, parser)
                   }
                 }
           }
     }"

text \<open>
  The argument of the allocation callback has 8 bits: for a name of 255 bytes it is asked for a buffer of
  0 bytes.
\<close>

definition parse_key :: "'v calib_env \<Rightarrow> nat \<Rightarrow> 'v kuci \<Rightarrow> uci_message_parser \<Rightarrow> 'v key_step" where
  "parse_key e cb u parser =
     do {
       (key_name_size, parser) \<leftarrow> get_8bit_or u parser;
       case key_name_size of
         None \<Rightarrow> Some (UCI_STATUS_SYNTAX_ERROR, u, parser)
       | Some key_name_size \<Rightarrow>
           do {
             (key_name, u) \<leftarrow> alloc_data e u cb (key_name_size + 1);
             case key_name of
               None \<Rightarrow> Some (UCI_STATUS_INVALID_PARAM, u, parser)
             | Some key_name \<Rightarrow>
                 do {
                   (n, u, parser) \<leftarrow> get_data u parser key_name (unat key_name_size);
                   if n = 0 then Some (UCI_STATUS_INVALID_PARAM, u, parser)
                   else do {
                     u \<leftarrow> store_data u key_name (unat key_name_size) [0];
                     (key_status, parser) \<leftarrow> get_8bit_or u parser;
                     case key_status of
                       None \<Rightarrow> Some (UCI_STATUS_SYNTAX_ERROR, u, parser)
                     | Some key_status \<Rightarrow>
                         if key_status \<noteq> 0 then Some (uint key_status, u, parser)
                         else parse_key_value e cb key_name u parser
                   }
                 }
           }
     }"

text \<open>The result is the last status, which is stored in the context.\<close>

fun parse_keys :: "'v calib_env \<Rightarrow> nat \<Rightarrow> nat \<Rightarrow> 'v kuci \<Rightarrow> uci_message_parser \<Rightarrow> 'v key_step" where
  "parse_keys e cb 0 u parser = Some (UCI_STATUS_OK, u, parser)"
| "parse_keys e cb (Suc n) u parser =
     do {
       (s, u, parser) \<leftarrow> parse_key e cb u parser;
       let u = set_calib_status u (of_int s);
       if (of_int s :: byte) \<noteq> 0 then Some (s, u, parser) else parse_keys e cb n u parser
     }"

definition cherry_uci_client_calib_get_key_handler ::
    "'v calib_env \<Rightarrow> 'v kuci \<Rightarrow> ptr option \<Rightarrow> (int \<times> 'v kuci) option" where
  "cherry_uci_client_calib_get_key_handler e u msg =
     do {
       let fail = (\<lambda>u. Some (QERR_SUCCESS, cherry_calib_set_rsp (set_calib_status u (of_int UCI_STATUS_SYNTAX_ERROR))));
       parser \<leftarrow> calib_parser u msg;
       c \<leftarrow> calib_context_of u;
       let cb = kc_cmd_data c;
       (s, parser) \<leftarrow> get_8bit_or u parser;
       case s of
         None \<Rightarrow> fail u
       | Some s \<Rightarrow>
           do {
             let u = set_calib_status u s;
             if s \<noteq> 0 then Some (QERR_SUCCESS, cherry_calib_set_rsp u)
             else do {
               (ok, number_key, parser) \<leftarrow> uci_message_get_16bit_no_assert (heap (u_mem u)) parser 0;
               if \<not> ok then fail u
               else do {
                 (s, u, parser) \<leftarrow> parse_keys e cb (unat number_key) u parser;
                 if (of_int s :: byte) \<noteq> 0 then Some (QERR_SUCCESS, cherry_calib_set_rsp u)
                 else if uci_message_remaining parser \<noteq> 0 then fail u
                 else Some (QERR_SUCCESS, cherry_calib_set_rsp u)
               }
             }
           }
     }"

section \<open>Handler table, opening and closing\<close>

definition calib_handler ::
    "'v calib_env \<Rightarrow> nat \<Rightarrow> 'v kuci \<Rightarrow> 16 word \<Rightarrow> ptr option \<Rightarrow> nat \<Rightarrow> (int \<times> 'v kuci) option" where
  "calib_handler e f u mt_gid_oid msg user_data =
     (if f = 0 then cherry_uci_client_calib_set_key_handler u msg
      else if f = 1 then cherry_uci_client_calib_get_key_handler e u msg
      else None)"

definition calib_rsp_handlers :: "uci_message_handler list" where
  "calib_rsp_handlers =
     [\<lparr>uci_message_id = UCI_MT_GID_OID UCI_MESSAGE_TYPE_RESPONSE UCI_GID_QORVO_MAC UCI_OID_QORVO_MAC_SET_CALIBRATIONS,
       handler = 0\<rparr>,
      \<lparr>uci_message_id = UCI_MT_GID_OID UCI_MESSAGE_TYPE_RESPONSE UCI_GID_QORVO_MAC UCI_OID_QORVO_MAC_GET_CALIBRATIONS,
       handler = 1\<rparr>]"

definition calib_rsp_handlers_list :: uci_message_handlers where
  "calib_rsp_handlers_list =
     \<lparr>mh_next = None, mh_handlers = calib_rsp_handlers, mh_n_handlers = length calib_rsp_handlers, mh_user_data = 0\<rparr>"

abbreviation (input) sizeof_calib_context :: nat where "sizeof_calib_context \<equiv> 32"

text \<open>
  The check of the allocation looks at the address of the caller's variable, so that NULL is dereferenced.
  The table of handlers is a static object whose user data is the context (1: not NULL).
\<close>

definition cherry_uci_client_calib_open :: "'v calib_env \<Rightarrow> 'v kuci \<Rightarrow> (int \<times> 'v kuci) option" where
  "cherry_uci_client_calib_open e u =
     (case qmalloc (kw_heap (u_world u)) sizeof_calib_context of
        (None, q) \<Rightarrow> None
      | (Some p, q) \<Rightarrow>
          do {
            let u = u\<lparr>u_world := (u_world u)\<lparr>kw_heap := q,
                      kw_context := Some (p, (kw_junk (u_world u))\<lparr>kc_sem := 0\<rparr>)\<rparr>\<rparr>;
            u \<leftarrow> set_user_data u (ke_list e) 1;
            u \<leftarrow> uci_message_handlers_register u (Some (ke_list e));
            Some (QERR_SUCCESS, u)
          })"

definition cherry_uci_client_calib_close :: "'v calib_env \<Rightarrow> 'v kuci \<Rightarrow> 'v kuci option" where
  "cherry_uci_client_calib_close e u =
     (case kw_context (u_world u) of
        None \<Rightarrow> Some u
      | Some (p, c) \<Rightarrow>
          do {
            u \<leftarrow> set_user_data u (ke_list e) 0;
            u \<leftarrow> uci_message_handlers_unregister u (Some (ke_list e));
            q \<leftarrow> qfree (kw_heap (u_world u)) (Some p);
            Some (u\<lparr>u_world := (u_world u)\<lparr>kw_heap := q, kw_context := None\<rparr>\<rparr>)
          })"

end
