(* ===== verification/Calib_Keys.thy ===== *)
theory Calib_Keys
  imports Calib_Client
begin

text \<open>
  What the command that sets calibration keys is: a message under construction with the number of keys
  and the keys put so far, each as a name and a value with their lengths.
\<close>

lemma writesD:
  "writes P w bs \<Longrightarrow> P m \<Longrightarrow> building m b as cs \<Longrightarrow> length (cs @ bs) < 65536 \<Longrightarrow>
   \<exists>m' b' as'. w (m, b) = Some (m', b') \<and> P m' \<and> building m' b' as' (cs @ bs) \<and> frame (heap m) as (heap m') as'"
  by (simp add: writes_def)

section \<open>The command\<close>

definition entry_bytes :: "bytes \<Rightarrow> bytes \<Rightarrow> bytes" where
  "entry_bytes name v = of_nat (length name) # name @ of_nat (length v) # v"

definition keys_bytes :: "(bytes \<times> bytes) list \<Rightarrow> bytes" where
  "keys_bytes ks = concat (map (\<lambda>(name, v). entry_bytes name v) ks)"

lemma keys_bytes_simps [simp]:
  "keys_bytes [] = []" "keys_bytes (ks @ ls) = keys_bytes ks @ keys_bytes ls"
  "keys_bytes (x # ks) = entry_bytes (fst x) (snd x) @ keys_bytes ks"
  by (simp_all add: keys_bytes_def case_prod_beta)

lemma length_entry_bytes [simp]: "length (entry_bytes name v) = 2 + length name + length v"
  by (simp add: entry_bytes_def)

definition keys_body :: "16 word \<Rightarrow> bytes \<Rightarrow> bytes" where
  "keys_body n bs = le_bytes 2 n @ bs"

lemma length_keys_body [simp]: "length (keys_body n bs) = 2 + length bs"
  by (simp add: keys_body_def)

lemma overwrite_keys_body: "overwrite (keys_body n bs) 0 (le_bytes 2 n') = keys_body n' bs"
  by (simp add: overwrite_def keys_body_def)

text \<open>A name in memory, and a value of a given size.\<close>

definition name_at :: "bytes \<Rightarrow> bytes \<Rightarrow> bool" where
  "name_at k name \<longleftrightarrow> length name < 256 \<and> 0 \<notin> set name \<and> (\<exists>junk. k = name @ 0 # junk)"

lemma takeWhile_name: "0 \<notin> set name \<Longrightarrow> takeWhile (\<lambda>c. c \<noteq> 0) (name @ 0 # junk) = name"
  by (induction name) auto

lemma strlen_name [simp]: "name_at k name \<Longrightarrow> strlen k = Some (length name)"
  by (auto simp: name_at_def strlen_def takeWhile_name)

lemma read_name [simp]: "name_at k name \<Longrightarrow> read_buf k 0 (length name) = Some name"
  by (auto simp: name_at_def read_buf_def)

lemma unat_byte: "n < 256 \<Longrightarrow> unat (of_nat n :: byte) = n"
  by (simp add: unat_of_nat)

lemma unat_word: "n < 65536 \<Longrightarrow> unat (of_nat n :: 16 word) = n"
  by (simp add: unat_of_nat)

text \<open>
  The command: its message is no block of the memory it started from, and the address of the number of keys
  points into its first block.
\<close>

definition keys_rep :: "heap \<Rightarrow> mem \<Rightarrow> uwbs_config_set_cmd \<Rightarrow> ptr list \<Rightarrow> bytes \<Rightarrow> bool" where
  "keys_rep h0 m c as bs \<longleftrightarrow> building m (uc_builder c) as bs \<and> outside h0 [] (heap m) as \<and>
     (\<exists>a zs. as = a # zs \<and> uc_nb_key c = (a, 4) \<and> 2 \<le> length (blk_at (heap m) a))"

lemma keys_count:
  assumes "keys_rep h0 m c as (keys_body n bs)"
  shows "read_nb_key m (uc_nb_key c) = Some n"
proof -
  from assms obtain a zs where a: "uc_nb_key c = (a, 4)" "2 \<le> length (blk_at (heap m) a)"
    and msg: "message_rep (heap m) (mb_message (uc_builder c)) (a # zs) (keys_body n bs)"
    by (auto simp: keys_rep_def building_def builder_rep_def)
  obtain b where b: "heap m a = Some b" using msg by (rule message_rep_first)
  from message_rep_read [OF msg _ b, of 0 2] a show ?thesis
    by (simp add: read_nb_key_def b keys_body_def le_value_le_bytes_full)
qed

lemma keys_rep_grow:
  assumes rep: "keys_rep h0 m c as bs" and b: "building m' b as' bs'" and fr: "frame (heap m) as (heap m') as'"
  shows "keys_rep h0 m' (c\<lparr>uc_builder := b\<rparr>) as' bs'"
proof -
  from rep obtain a zs where a: "as = a # zs" "uc_nb_key c = (a, 4)" "2 \<le> length (blk_at (heap m) a)"
    and out: "outside h0 [] (heap m) as" by (auto simp: keys_rep_def)
  from fr a(1) obtain ws ys where "as' = a # zs @ ws" "blk_at (heap m') a = blk_at (heap m) a @ ys"
    by (auto simp: frame_def grows_def)
  moreover have "outside h0 [] (heap m') as'" using out outside_frame [OF fr] by (rule outside_trans)
  ultimately show ?thesis using a(2,3) b by (auto simp: keys_rep_def)
qed

context ample_allocator
begin

lemma keys_incr:
  assumes rep: "keys_rep h0 m c as (keys_body n bs)" and inv: "inv m"
  shows "\<exists>m'. incr_nb_key m (uc_nb_key c) = Some m' \<and> inv m' \<and> keys_rep h0 m' c as (keys_body (n + 1) bs)"
proof -
  from rep obtain a zs where a: "as = a # zs" "uc_nb_key c = (a, 4)" "2 \<le> length (blk_at (heap m) a)"
    and b: "builder_rep m (uc_builder c) (a # zs) (keys_body n bs)" "mb_elems_nr (uc_builder c) = None"
      "mb_first_errno (uc_builder c) = 0" "no_empty (heap m) as" and out: "outside h0 [] (heap m) as"
    by (auto simp: keys_rep_def building_def)
  have "0 + length (le_bytes 2 (n + 1)) \<le> length (blk_at (heap m) a)" using a(3) by simp
  from builder_poke [OF b(1) this] obtain m' x where
    m': "write_chunk m (Some (a, 4)) (le_bytes 2 (n + 1)) = Some m'"
    "builder_rep m' (uc_builder c) (a # zs) (keys_body (n + 1) bs)" "length (blk_at (heap m') a) = length (blk_at (heap m) a)"
    "outside (heap m) (a # zs) (heap m') (a # zs)" "no_empty (heap m) (a # zs) \<longrightarrow> no_empty (heap m') (a # zs)"
    "m' = put_blk m a x" "a \<in> dom (heap m)" unfolding overwrite_keys_body add_0_right by blast
  have "inv m'" unfolding m'(6) using inv m'(7) by (rule write_blk)
  moreover have "outside h0 [] (heap m') (a # zs)" using out m'(4) unfolding a(1) by (rule outside_trans)
  moreover have "incr_nb_key m (uc_nb_key c) = Some m'" using keys_count [OF rep] m'(1) by (simp add: incr_nb_key_def a(2))
  ultimately show ?thesis
    using m' a b by (intro exI [of _ m']) (auto simp: keys_rep_def building_def)
qed

lemma create_keys:
  assumes e: "e_allocator (ke_uci e) = A" and inv: "inv (u_mem u)" and ctx: "kw_context (u_world u) \<noteq> None"
    and q: "\<not> q_fails (kw_heap (u_world u)) (q_next (kw_heap (u_world u)))"
  shows "\<exists>c m as. cherry_uci_client_uwbs_config_set_cmd_create e u =
      Some (Some (q_next (kw_heap (u_world u)), c), set_calib_heap (u\<lparr>u_mem := m\<rparr>) (snd (qmalloc (kw_heap (u_world u)) sizeof_set_cmd))) \<and>
    inv m \<and> keys_rep (heap (u_mem u)) m c as (keys_body 0 [])"
proof -
  have mal: "qmalloc (kw_heap (u_world u)) sizeof_set_cmd =
      (Some (q_next (kw_heap (u_world u))), snd (qmalloc (kw_heap (u_world u)) sizeof_set_cmd))"
    using q by (simp add: qmalloc_def qmalloc_internal_def)
  show ?thesis
  proof (cases rule: reserve_first [OF inv, of "le_bytes 2 (0 :: 16 word)"])
    case (3 m1 b1)
    from message_put_ample [OF inv builder_init_rep, of "le_bytes 2 (0 :: 16 word)"] 3 show ?thesis by simp
  next
    case (4 p m1 b1 b)
    have cur: "mb_current_block b1 = Some p" using 4(5) by (simp add: builder_rep_def last_ptr_def)
    have r: "uci_message_reserve_16bit A (u_mem u) uci_message_builder_init 0 = Some (Some (p, 4), m1, b1)"
      using 4 cur by (simp add: uci_message_reserve_16bit_def put_scalars last_written_def uci_message_failed_def)
    have pay: "payload (heap m1) [p] = le_bytes 2 (0 :: 16 word)"
      using 4(5) by (auto simp: builder_rep_def dest: message_rep_payload)
    have out: "outside (heap (u_mem u)) [] (heap m1) [p]"
      using 4(6,7) by (auto simp: outside_def restrict_map_def fun_eq_iff)
    let ?c = "\<lparr>uc_builder = b1, uc_nb_key = (p, 4)\<rparr>"
    have "length (blk_at (heap m1) p) = 2" using arg_cong [OF pay, of length] by simp
    with 4(2,3,5) out have rep: "keys_rep (heap (u_mem u)) m1 ?c [p] (keys_body 0 [])"
      by (auto simp: keys_rep_def building_def keys_body_def)
    have "cherry_uci_client_uwbs_config_set_cmd_create e u =
        Some (Some (q_next (kw_heap (u_world u)), ?c),
          set_calib_heap (u\<lparr>u_mem := m1\<rparr>) (snd (qmalloc (kw_heap (u_world u)) sizeof_set_cmd)))"
      using ctx r e by (subst cherry_uci_client_uwbs_config_set_cmd_create_def, subst mal)
        (simp add: set_calib_heap_def)
    with rep 4(4) show ?thesis by blast
  qed (simp_all flip: length_0_conv)
qed

text \<open>Adding a key.\<close>

lemma put_key:
  assumes e: "e_allocator (ke_uci e) = A" and inv: "inv (u_mem u)" and rep: "keys_rep h0 (u_mem u) c as (keys_body n bs)"
    and k: "name_at k name" and v: "sz \<noteq> 0" "unat sz \<le> length d"
    and len: "length bs + length (entry_bytes name (take (unat sz) d)) < 65534"
  shows "\<exists>m c' as'. cherry_uci_client_uwbs_config_set_cmd_put e u (Some (p, c)) (Some k) (Some d) sz =
      Some (UCI_STATUS_OK, u\<lparr>u_mem := m\<rparr>, Some (p, c')) \<and> inv m \<and>
    keys_rep h0 m c' as' (keys_body (n + 1) (bs @ entry_bytes name (take (unat sz) d)))"
proof -
  let ?v = "take (unat sz) d" and ?n = "of_nat (length name) :: byte"
  have n: "unat ?n = length name" using k by (intro unat_byte) (simp add: name_at_def)
  from rep have b: "building (u_mem u) (uc_builder c) as (keys_body n bs)" by (simp add: keys_rep_def)
  then have br: "builder_rep (u_mem u) (uc_builder c) as (keys_body n bs)" "mb_first_errno (uc_builder c) = 0"
    "mb_elems_nr (uc_builder c) = None" "no_empty (heap (u_mem u)) as" by (simp_all add: building_def)
  have "length (keys_body n bs) + length [?n] < 65536" using len by simp
  from message_put_ample [OF inv br(1,2,3) this] br(4) obtain m1 b1 as1 where
    1: "uci_message_put A (u_mem u) (uc_builder c) [?n] = Some (0, m1, b1)" "inv m1"
      "building m1 b1 as1 (keys_body n bs @ [?n])" "frame (heap (u_mem u)) as (heap m1) as1"
    unfolding building_def by blast
  let ?w = "\<lambda>s. Option.bind (put_bytes A name s) (\<lambda>s. Option.bind (put_byte A sz s) (put_bytes A ?v))"
  have w: "writes inv ?w (name @ [sz] @ ?v)" by (intro writes_bind writes_bytes writes_scalars)
  have "length ((keys_body n bs @ [?n]) @ name @ [sz] @ ?v) < 65536" using len by simp
  from writesD [OF w 1(2,3) this] obtain m2 b2 as2 where
    2: "?w (m1, b1) = Some (m2, b2)" "inv m2" "building m2 b2 as2 ((keys_body n bs @ [?n]) @ name @ [sz] @ ?v)"
      "frame (heap m1) as1 (heap m2) as2"
    by blast
  have body: "(keys_body n bs @ [?n]) @ name @ [sz] @ ?v = keys_body n (bs @ entry_bytes name ?v)"
    using v(2) by (simp add: keys_body_def entry_bytes_def min_absorb2)
  note rep2 = keys_rep_grow [OF keys_rep_grow [OF rep 1(3,4)], OF 2(3) [unfolded body] 2(4)]
  from keys_incr [OF rep2 2(2)] obtain m3 where
    3: "incr_nb_key m2 (uc_nb_key c) = Some m3" "inv m3"
      "keys_rep h0 m3 (c\<lparr>uc_builder := b2\<rparr>) as2 (keys_body (n + 1) (bs @ entry_bytes name ?v))" by auto
  have "cherry_uci_client_uwbs_config_set_cmd_put e u (Some (p, c)) (Some k) (Some d) sz =
      Some (UCI_STATUS_OK, u\<lparr>u_mem := m3\<rparr>, Some (p, c\<lparr>uc_builder := b2\<rparr>))"
    using e 1(1) 2(1) 3(1) k v n
    by (auto simp: cherry_uci_client_uwbs_config_set_cmd_put_def uci_message_put_8bit_def put_bytes_def put_byte_def
        bind_eq_Some_conv read_buf_def [of d] Let_def)
  with 3(2,3) show ?thesis by blast
qed

text \<open>Sending the command: its message is queued, and the command is freed after the wait.\<close>

lemma send_keys:
  assumes e: "e_allocator (ke_uci e) = A" and inv: "inv m"
    and rep: "keys_rep (heap (u_mem u)) m c as (keys_body n bs)" and n: "n \<noteq> 0"
    and tx: "tx_inv u txs" and rsp: "rsp_inv u txs" and len: "length bs < 65534" and un: "\<not> u_locked u" and tr: "u_tr u \<noteq> None"
  shows "\<exists>u' m' tx r. cherry_uci_client_uwbs_config_set_cmd_send e (u\<lparr>u_mem := m\<rparr>) (Some (p, c)) =
      do { u \<leftarrow> packet_send_ready (ke_uci e) u'; (ret, u) \<leftarrow> cherry_calib_wait_rsp e u;
           q \<leftarrow> qfree (kw_heap (u_world u)) (Some p); let u = set_calib_heap u q;
           s \<leftarrow> calib_status u ret; Some (s, u) } \<and>
    u' = u\<lparr>u_mem := m', u_tx := tx, u_tx_last := last_ptr as, u_rsp_blk := r\<rparr> \<and>
    inv m' \<and> tx_inv u' (txs @ as) \<and> rsp_inv u' (txs @ as) \<and>
    wires (heap m') (txs @ as) = wires (heap (u_mem u)) txs @
      segment (UCI_MT_GID_OID UCI_MESSAGE_TYPE_COMMAND UCI_GID_QORVO_MAC UCI_OID_QORVO_MAC_SET_CALIBRATIONS) (keys_body n bs)"
proof -
  let ?mid = "UCI_MT_GID_OID UCI_MESSAGE_TYPE_COMMAND UCI_GID_QORVO_MAC UCI_OID_QORVO_MAC_SET_CALIBRATIONS"
  from rep have b: "message_rep (heap m) (mb_message (uc_builder c)) as (keys_body n bs)" "no_empty (heap m) as"
    and out: "outside (heap (u_mem u)) [] (heap m) as" and as: "\<exists>a zs. as = a # zs"
    by (auto simp: keys_rep_def building_def builder_rep_def)
  from as b(1) obtain q where q: "mb_message (uc_builder c) = Some q" by (auto elim: message_rep_first)
  have s: "sendable ?mid" by (simp add: sendable_def is_control_mt_def UCI_MT_def UCI_MT_GID_OID_def)
  have "length (keys_body n bs) < 65536" using len by simp
  from fresh_message_sent [OF e inv out b(1) [unfolded q] b(2) s tx rsp this un tr] obtain u' m' tx' r where
    1: "uci_send_message (ke_uci e) (u\<lparr>u_mem := m\<rparr>) ?mid (Some q) = packet_send_ready (ke_uci e) u'"
    "u' = u\<lparr>u_mem := m', u_tx := tx', u_tx_last := last_ptr as, u_rsp_blk := r\<rparr>" "inv m'"
    "tx_inv u' (txs @ as)" "rsp_inv u' (txs @ as)"
    "wires (heap m') (txs @ as) = wires (heap (u_mem u)) txs @ segment ?mid (keys_body n bs)" by blast
  have free: "uci_blk_free_all A m None = Some m" for m by (simp add: uci_blk_free_all.simps)
  have "cherry_uci_client_uwbs_config_set_cmd_send e (u\<lparr>u_mem := m\<rparr>) (Some (p, c)) =
      do { u \<leftarrow> packet_send_ready (ke_uci e) u'; (ret, u) \<leftarrow> cherry_calib_wait_rsp e u;
           q \<leftarrow> qfree (kw_heap (u_world u)) (Some p); let u = set_calib_heap u q;
           s \<leftarrow> calib_status u ret; Some (s, u) }"
    using keys_count [OF rep] n q 1(1) e
    by (simp add: cherry_uci_client_uwbs_config_set_cmd_send_def cherry_uci_client_uwbs_config_set_cmd_destroy_def free
        Let_def)
  with 1(2-) show ?thesis by (intro exI [of _ u'] exI [of _ m'] exI [of _ tx'] exI [of _ r]) simp
qed

text \<open>Aborting it: what it held is freed.\<close>

lemma abort_keys:
  assumes e: "e_allocator (ke_uci e) = A" and inv: "inv (u_mem u)" and rep: "keys_rep h0 (u_mem u) c as bs"
  shows "\<exists>m. cherry_uci_client_uwbs_config_set_cmd_abort e u (Some (p, c)) =
      do { q \<leftarrow> qfree (kw_heap (u_world u)) (Some p); Some (set_calib_heap (u\<lparr>u_mem := m\<rparr>) q) } \<and>
    inv m \<and> heap m = h0"
proof -
  from rep have b: "message_rep (heap (u_mem u)) (mb_message (uc_builder c)) as bs"
    and out: "outside h0 [] (heap (u_mem u)) as" by (auto simp: keys_rep_def building_def builder_rep_def)
  then have "chain (heap (u_mem u)) (mb_message (uc_builder c)) as" "owned (heap (u_mem u)) as"
    by (auto simp: message_rep_def own_blks_def own_blk_def owned_def)
  from free_all [OF inv this] obtain m where
    "uci_blk_free_all A (u_mem u) (mb_message (uc_builder c)) = Some m" "heap m = heap (u_mem u) |` (- set as)" "inv m" by auto
  with out e show ?thesis
    by (intro exI [of _ m]) (auto simp: cherry_uci_client_uwbs_config_set_cmd_abort_def
        cherry_uci_client_uwbs_config_set_cmd_destroy_def outside_def restrict_map_def)
qed

end

end
