(* ===== verification/Cherry_Calib.thy ===== *)
theory Cherry_Calib
  imports Calib_Keys Cherry_Thread
begin

text \<open>
  Calibration in the library's API: the tasks that set and get calibration keys (\<^verbatim>\<open>cherry.c\<close>) and the
  growing object in which the keys of a response are collected (\<^verbatim>\<open>cherry_calib_mut.c\<close>). The machine is
  little-endian. Buffers and structures are named by their addresses; the tasks run on the worker thread.
\<close>

section \<open>Data\<close>

abbreviation (input) UCI_STATUS_ERROR_SESSION_ACTIVE :: int where "UCI_STATUS_ERROR_SESSION_ACTIVE \<equiv> 0x13"
abbreviation (input) CHERRY_CALIB_VALUE_NUMBER :: nat where "CHERRY_CALIB_VALUE_NUMBER \<equiv> 0"
abbreviation (input) CHERRY_CALIB_VALUE_NUMBER_ARRAY :: nat where "CHERRY_CALIB_VALUE_NUMBER_ARRAY \<equiv> 1"
abbreviation (input) CHERRY_CALIB_VALUE_DATA :: nat where "CHERRY_CALIB_VALUE_DATA \<equiv> 2"

record cherry_calib_key =
  ck_name :: "nat option"
  ck_type :: nat
  ck_size :: byte
  ck_nb_array_items :: byte
  ck_number :: "32 word"
  ck_data :: "nat option"

record cherry_calib =
  cl_n_keys :: "32 word"
  cl_keys :: "cherry_calib_key list"

text \<open>
  The keys of a response: the list of allocations, and an array of keys with its capacity. An element of
  the array that was not written yet is \<open>None\<close>; \<open>mu_keys\<close> is the field that is read at the end.
\<close>

record cherry_calib_mut =
  mu_allocation_list :: "nat list"
  mu_mut_keys :: "(nat \<times> cherry_calib_key option list) option"
  mu_mut_keys_capacity :: nat
  mu_n_keys :: "32 word"
  mu_keys :: "(nat \<times> cherry_calib_key option list) option"

text \<open>
  The library's context as far as calibration uses it, the living \<open>cherry_calib_mut\<close> objects by the
  address of their block, and what fresh memory holds.
\<close>

record cherry_state =
  cs_calib :: "cherry_calib option"
  cs_transport :: bool
  cs_muts :: "nat \<Rightarrow> cherry_calib_mut option"
  cs_garbage :: "nat \<Rightarrow> byte"
  cs_junk_key :: "nat \<Rightarrow> cherry_calib_key"

type_synonym cuci = "cherry_state kuci"

text \<open>An event is a block with the block of its data.\<close>

datatype core_event = Calib_Update_Event nat nat cherry_err | Get_Calib_Event nat nat cherry_err "nat option"

text \<open>The callback of the application, and the place on the stack of the callbacks of a request.\<close>

record cherry_env =
  ce_calib :: "cherry_state calib_env"
  ce_core_cb :: "core_event \<Rightarrow> cuci \<Rightarrow> cuci option"
  ce_local_cb :: nat

definition cherry_get_error :: "int \<Rightarrow> cherry_err" where
  "cherry_get_error code =
     (if code = UCI_STATUS_OK then CHERRY_ERR_NONE
      else if code = UCI_STATUS_INVALID_PARAM then CHERRY_ERR_INVALID_PARAMETER
      else if code = UCI_STATUS_UCI_MESSAGE_RETRY then CHERRY_ERR_UWBS_TIMEOUT
      else if code = UCI_STATUS_ERROR_SESSION_ACTIVE then CHERRY_ERR_SESSION_ACTIVE
      else CHERRY_ERR_INTERNAL)"

definition calib_heap :: "cuci \<Rightarrow> qheap" where
  "calib_heap u = kw_heap (u_world u)"

definition upd_rest :: "cuci \<Rightarrow> (cherry_state \<Rightarrow> cherry_state) \<Rightarrow> cuci" where
  "upd_rest u f = u\<lparr>u_world := (u_world u)\<lparr>kw_rest := f (kw_rest (u_world u))\<rparr>\<rparr>"

text \<open>A buffer appears with its block and disappears with it.\<close>

definition set_buf :: "cuci \<Rightarrow> nat \<Rightarrow> bytes \<Rightarrow> cuci" where
  "set_buf u p d = u\<lparr>u_world := (u_world u)\<lparr>kw_data := (kw_data (u_world u))(p \<mapsto> d)\<rparr>\<rparr>"

definition free_buf :: "cuci \<Rightarrow> nat option \<Rightarrow> cuci option" where
  "free_buf u p =
     do {
       q \<leftarrow> qfree (calib_heap u) p;
       let u = set_calib_heap u q;
       Some (case p of None \<Rightarrow> u | Some p \<Rightarrow> u\<lparr>u_world := (u_world u)\<lparr>kw_data := (kw_data (u_world u))(p := None)\<rparr>\<rparr>)
     }"

text \<open>The memory from a pointer on; nothing can be read through a dangling one.\<close>

definition mem_at :: "cuci \<Rightarrow> nat option \<Rightarrow> bytes option" where
  "mem_at u p = map_option (\<lambda>p. case kw_data (u_world u) p of None \<Rightarrow> [] | Some d \<Rightarrow> d) p"

section \<open>Setting calibration\<close>

definition cherry_calib_key_check_number_size :: "byte \<Rightarrow> bool" where
  "cherry_calib_key_check_number_size sz \<longleftrightarrow> sz = 2 \<or> sz = 4 \<or> sz = 1"

definition cherry_calib_key_convert_number :: "32 word \<Rightarrow> byte \<Rightarrow> bytes option" where
  "cherry_calib_key_convert_number number sz =
     (if sz = 1 then Some [ucast number]
      else if sz = 2 then Some (le_bytes 2 (ucast number :: 16 word))
      else if sz = 4 then Some (le_bytes 4 number)
      else None)"

text \<open>An item of an array is read and written as a number of its size; there are no items of other sizes.\<close>

definition convert_item :: "nat \<Rightarrow> bytes \<Rightarrow> bytes option" where
  "convert_item sz xs =
     (if sz = 1 then Some xs
      else if sz = 2 then Some (le_bytes 2 (le_value xs :: 16 word))
      else if sz = 4 then Some (le_bytes 4 (le_value xs :: 32 word))
      else None)"

text \<open>The items from one on, with the bytes of the input that are left.\<close>

function convert_items :: "nat \<Rightarrow> bytes \<Rightarrow> nat \<Rightarrow> nat \<Rightarrow> bytes option" where
  "convert_items sz d i n =
     (if i \<ge> n then Some []
      else if sz = 0 then None
      else do { x \<leftarrow> read_buf d i sz; y \<leftarrow> convert_item sz x; ys \<leftarrow> convert_items sz d (i + sz) n; Some (y @ ys) })"
  by pat_completeness auto
termination by (relation "measure (\<lambda>(sz, d, i, n). n - i)") auto

declare convert_items.simps [simp del]

definition cherry_calib_key_convert_number_array :: "cuci \<Rightarrow> cherry_calib_key \<Rightarrow> bytes option" where
  "cherry_calib_key_convert_number_array u key =
     do {
       d \<leftarrow> mem_at u (ck_data key);
       if ck_nb_array_items key = 0 then None
       else convert_items (unat (ck_size key) div unat (ck_nb_array_items key)) d 0 (unat (ck_size key))
     }"

definition key_valid :: "cherry_calib_key \<Rightarrow> bool option" where
  "key_valid key =
     (if ck_type key = CHERRY_CALIB_VALUE_NUMBER then Some (cherry_calib_key_check_number_size (ck_size key))
      else if ck_type key = CHERRY_CALIB_VALUE_NUMBER_ARRAY then
        if ck_nb_array_items key = 0 then None
        else let sz = unat (ck_size key) div unat (ck_nb_array_items key)
             in Some (sz * unat (ck_nb_array_items key) = unat (ck_size key) \<and>
                  cherry_calib_key_check_number_size (of_nat sz))
      else Some (ck_type key = CHERRY_CALIB_VALUE_DATA))"

fun keys_valid :: "cherry_calib_key list \<Rightarrow> nat list \<Rightarrow> bool option" where
  "keys_valid keys [] = Some True"
| "keys_valid keys (i # is) =
     (if i < length keys then do { ok \<leftarrow> key_valid (keys ! i); if ok then keys_valid keys is else Some False } else None)"

text \<open>
  The bytes of a key: the array in which numbers are converted grows to the size of the key. The result is
  None when the memory for it runs out.
\<close>

definition key_data :: "cuci \<Rightarrow> nat option \<Rightarrow> cherry_calib_key \<Rightarrow> (bytes option option \<times> nat option \<times> cuci) option" where
  "key_data u arr key =
     (if ck_type key = CHERRY_CALIB_VALUE_NUMBER
      then Some (Some (cherry_calib_key_convert_number (ck_number key) (ck_size key)), arr, u)
      else if ck_type key = CHERRY_CALIB_VALUE_NUMBER_ARRAY then
        do {
          (p, q) \<leftarrow> qrealloc (calib_heap u) arr (unat (ck_size key));
          let u = set_calib_heap u q;
          case p of
            None \<Rightarrow> Some (None, arr, u)
          | Some p \<Rightarrow>
              do {
                let u = (case arr of None \<Rightarrow> u
                           | Some a \<Rightarrow> u\<lparr>u_world := (u_world u)\<lparr>kw_data := (kw_data (u_world u))(a := None)\<rparr>\<rparr>);
                d \<leftarrow> cherry_calib_key_convert_number_array u key;
                Some (Some (Some d), Some p, set_buf u p d)
              }
        }
      else Some (Some (mem_at u (ck_data key)), arr, u))"

text \<open>The loop over the keys: it stops at the first error.\<close>

fun put_calib_keys ::
    "cherry_env \<Rightarrow> cuci \<Rightarrow> set_cmd_ptr \<Rightarrow> nat option \<Rightarrow> cherry_calib_key list \<Rightarrow> nat list \<Rightarrow>
     (cherry_err \<times> cuci \<times> set_cmd_ptr \<times> nat option) option" where
  "put_calib_keys e u cmd arr keys [] = Some (CHERRY_ERR_NONE, u, cmd, arr)"
| "put_calib_keys e u cmd arr keys (i # is) =
     (if i < length keys then
        do {
          (d, arr, u) \<leftarrow> key_data u arr (keys ! i);
          case d of
            None \<Rightarrow> Some (CHERRY_ERR_INTERNAL, u, cmd, arr)
          | Some d \<Rightarrow>
              do {
                (r, u, cmd) \<leftarrow> cherry_uci_client_uwbs_config_set_cmd_put (ce_calib e) u cmd
                  (mem_at u (ck_name (keys ! i))) d (ck_size (keys ! i));
                if r \<noteq> UCI_STATUS_OK then Some (cherry_get_error r, u, cmd, arr)
                else put_calib_keys e u cmd arr keys is
              }
        }
      else None)"

text \<open>
  After an error of the loop neither the command nor its message is freed; when there is no memory for the
  command, the client is left open.
\<close>

definition close_calib :: "cherry_env \<Rightarrow> cuci \<Rightarrow> nat option \<Rightarrow> cuci option" where
  "close_calib e u arr = do { u \<leftarrow> cherry_uci_client_calib_close (ce_calib e) u; free_buf u arr }"

definition cherry_send_calib :: "cherry_env \<Rightarrow> cuci \<Rightarrow> cherry_calib \<Rightarrow> (cherry_err \<times> cuci) option" where
  "cherry_send_calib e u calib =
     (if \<not> cs_transport (kw_rest (u_world u)) then Some (CHERRY_ERR_INTERNAL, u)
      else if cl_n_keys calib = 0 then Some (CHERRY_ERR_INVALID_PARAMETER, u)
      else do {
        let is = [0..<unat (cl_n_keys calib)];
        ok \<leftarrow> keys_valid (cl_keys calib) is;
        if \<not> ok then Some (CHERRY_ERR_INVALID_PARAMETER, u)
        else do {
          (r, u) \<leftarrow> cherry_uci_client_calib_open (ce_calib e) u;
          (cmd, u) \<leftarrow> cherry_uci_client_uwbs_config_set_cmd_create (ce_calib e) u;
          if cmd = None then Some (CHERRY_ERR_INTERNAL, u)
          else do {
            (err, u, cmd, arr) \<leftarrow> put_calib_keys e u cmd None (cl_keys calib) is;
            (err, u) \<leftarrow>
              (if err \<noteq> CHERRY_ERR_NONE then Some (err, u)
               else do { (s, u) \<leftarrow> cherry_uci_client_uwbs_config_set_cmd_send (ce_calib e) u cmd; Some (cherry_get_error s, u) });
            u \<leftarrow> close_calib e u arr;
            Some (err, u)
          }
        }
      })"

abbreviation (input) sizeof_core_event :: nat where "sizeof_core_event \<equiv> 16"
abbreviation (input) sizeof_calib_update :: nat where "sizeof_calib_update \<equiv> 4"
abbreviation (input) sizeof_get_calib :: nat where "sizeof_get_calib \<equiv> 16"
abbreviation (input) sizeof_calib_mut :: nat where "sizeof_calib_mut \<equiv> 40"
abbreviation (input) sizeof_calib_key :: nat where "sizeof_calib_key \<equiv> 24"
abbreviation (input) sizeof_allocation :: nat where "sizeof_allocation \<equiv> 8"

text \<open>The two blocks of an event: without memory for them, there is no event.\<close>

definition alloc_event :: "cuci \<Rightarrow> nat \<Rightarrow> ((nat \<times> nat) option \<times> cuci) option" where
  "alloc_event u n =
     (case qmalloc (calib_heap u) sizeof_core_event of
        (None, q) \<Rightarrow> Some (None, set_calib_heap u q)
      | (Some p, q) \<Rightarrow>
          (case qmalloc q n of
             (None, q) \<Rightarrow> do { q \<leftarrow> qfree q (Some p); Some (None, set_calib_heap u q) }
           | (Some d, q) \<Rightarrow> Some (Some (p, d), set_calib_heap u q)))"

definition cherry_send_calib_event :: "cherry_env \<Rightarrow> cuci \<Rightarrow> cherry_err \<Rightarrow> cuci option" where
  "cherry_send_calib_event e u status_err =
     do {
       (ev, u) \<leftarrow> alloc_event u sizeof_calib_update;
       case ev of
         None \<Rightarrow> Some u
       | Some (p, d) \<Rightarrow> ce_core_cb e (Calib_Update_Event p d status_err) u
     }"

text \<open>The parameters of the task: whether the calibration is only sent again, and the new one.\<close>

definition cherry_thread_task_set_calib ::
    "cherry_env \<Rightarrow> cuci \<Rightarrow> bool \<Rightarrow> cherry_calib option \<Rightarrow> bool \<Rightarrow> cuci option" where
  "cherry_thread_task_set_calib e u reload calib abort =
     (if abort then Some u
      else
        let u = (if reload then u else upd_rest u (\<lambda>c. c\<lparr>cs_calib := calib\<rparr>))
        in case cs_calib (kw_rest (u_world u)) of
             None \<Rightarrow> Some u
           | Some calib \<Rightarrow>
               do {
                 (err, u) \<leftarrow> cherry_send_calib e u calib;
                 if \<not> reload then cherry_send_calib_event e u err else Some u
               })"

section \<open>Collecting the keys of a response\<close>

definition CHERRY_CALIB_DYN_INIT_STATIC :: cherry_calib_mut where
  "CHERRY_CALIB_DYN_INIT_STATIC =
     \<lparr>mu_allocation_list = [], mu_mut_keys = None, mu_mut_keys_capacity = 0, mu_n_keys = 0, mu_keys = None\<rparr>"

definition get_mut :: "cuci \<Rightarrow> nat \<Rightarrow> cherry_calib_mut option" where
  "get_mut u p = cs_muts (kw_rest (u_world u)) p"

definition set_mut :: "cuci \<Rightarrow> nat \<Rightarrow> cherry_calib_mut option \<Rightarrow> cuci" where
  "set_mut u p x = upd_rest u (\<lambda>c. c\<lparr>cs_muts := (cs_muts c)(p := x)\<rparr>)"

text \<open>The buffer of an allocation holds what the memory held before.\<close>

definition cherry_calib_mut_alloc :: "cuci \<Rightarrow> nat \<Rightarrow> nat \<Rightarrow> (nat option \<times> cuci) option" where
  "cherry_calib_mut_alloc u p n =
     do {
       x \<leftarrow> get_mut u p;
       (case qmalloc (calib_heap u) (n + sizeof_allocation) of
          (None, q) \<Rightarrow> Some (None, set_calib_heap u q)
        | (Some a, q) \<Rightarrow>
            let u = set_buf (set_calib_heap u q) a (map (cs_garbage (kw_rest (u_world u))) [0..<n])
            in Some (Some a, set_mut u p (Some (x\<lparr>mu_allocation_list := a # mu_allocation_list x\<rparr>))))
     }"

definition cherry_calib_alloc_cb :: "nat option \<Rightarrow> byte \<Rightarrow> cuci \<Rightarrow> (nat option \<times> cuci) option" where
  "cherry_calib_alloc_cb user_data n u =
     (case user_data of None \<Rightarrow> Some (None, u) | Some p \<Rightarrow> cherry_calib_mut_alloc u p (unat n))"

text \<open>The array of keys grows by 64 when it is full.\<close>

definition extend_keys :: "cuci \<Rightarrow> cherry_calib_mut \<Rightarrow> (bool \<times> cherry_calib_mut \<times> cuci) option" where
  "extend_keys u x =
     (if mu_mut_keys_capacity x = 0 \<or> mu_mut_keys_capacity x = unat (mu_n_keys x) then
        do {
          let x = x\<lparr>mu_mut_keys_capacity := mu_mut_keys_capacity x + 64\<rparr>;
          (p, q) \<leftarrow> qrealloc (calib_heap u) (map_option fst (mu_mut_keys x)) (mu_mut_keys_capacity x * sizeof_calib_key);
          let u = set_calib_heap u q;
          case p of
            None \<Rightarrow> Some (False, x, u)
          | Some p \<Rightarrow>
              let old = (case mu_mut_keys x of None \<Rightarrow> [] | Some (_, ks) \<Rightarrow> ks)
              in Some (True, x\<lparr>mu_mut_keys := Some (p, take (mu_mut_keys_capacity x)
                   (old @ replicate (mu_mut_keys_capacity x) None))\<rparr>, u)
        }
      else Some (True, x, u))"

definition cherry_calib_key_notif_cb :: "nat option \<Rightarrow> nat \<Rightarrow> nat \<Rightarrow> nat \<Rightarrow> cuci \<Rightarrow> (bool \<times> cuci) option" where
  "cherry_calib_key_notif_cb user_data key_name d data_size u =
     (case user_data of
        None \<Rightarrow> Some (False, u)
      | Some p \<Rightarrow>
          do {
            x \<leftarrow> get_mut u p;
            let x = (if mu_mut_keys x = None then x\<lparr>mu_n_keys := 0\<rparr> else x);
            (ok, x, u) \<leftarrow> extend_keys u x;
            if \<not> ok then Some (False, set_mut u p (Some x))
            else do {
              (a, ks) \<leftarrow> mu_mut_keys x;
              let i = unat (mu_n_keys x);
              if i < length ks then
                let key = (cs_junk_key (kw_rest (u_world u)) i)\<lparr>ck_name := Some key_name,
                            ck_type := CHERRY_CALIB_VALUE_DATA, ck_size := of_nat data_size, ck_data := Some d\<rparr>
                in Some (True, set_mut u p (Some (x\<lparr>mu_mut_keys := Some (a, ks[i := Some key]), mu_n_keys := mu_n_keys x + 1\<rparr>)))
              else None
            }
          })"

fun free_allocations :: "cuci \<Rightarrow> nat list \<Rightarrow> cuci option" where
  "free_allocations u [] = Some u"
| "free_allocations u (a # as) = do { u \<leftarrow> free_buf u (Some a); free_allocations u as }"

definition cherry_calib_mut_destroy :: "cuci \<Rightarrow> nat \<Rightarrow> cuci option" where
  "cherry_calib_mut_destroy u p =
     do {
       x \<leftarrow> get_mut u p;
       u \<leftarrow> free_allocations u (mu_allocation_list x);
       q \<leftarrow> qfree (calib_heap u) (map_option fst (mu_mut_keys x));
       Some (set_calib_heap u q)
     }"

definition free_mut :: "cuci \<Rightarrow> nat \<Rightarrow> cuci option" where
  "free_mut u p = do { q \<leftarrow> qfree (calib_heap u) (Some p); Some (set_mut (set_calib_heap u q) p None) }"

text \<open>The application frees what it got in an event.\<close>

definition cherry_calib_destroy :: "cuci \<Rightarrow> nat option \<Rightarrow> cuci option" where
  "cherry_calib_destroy u calib =
     (case calib of None \<Rightarrow> Some u | Some p \<Rightarrow> do { u \<leftarrow> cherry_calib_mut_destroy u p; free_mut u p })"

section \<open>Getting calibration\<close>

definition set_cbs :: "cuci \<Rightarrow> nat \<Rightarrow> calib_cb option \<Rightarrow> cuci" where
  "set_cbs u a x = u\<lparr>u_world := (u_world u)\<lparr>kw_cbs := (kw_cbs (u_world u))(a := x)\<rparr>\<rparr>"

text \<open>
  The request and what is done with its result. The callbacks are a local variable of the task (function 0
  is \<open>cherry_calib_alloc_cb\<close>, function 1 \<open>cherry_calib_key_notif_cb\<close>). Without memory for the object that
  collects the keys, the client is left open.
\<close>

definition get_calib_keys ::
    "cherry_env \<Rightarrow> cuci \<Rightarrow> bytes list \<Rightarrow> 16 word \<Rightarrow> (cherry_err \<times> nat option \<times> cuci) option" where
  "get_calib_keys e u keys n_keys =
     (if \<not> cs_transport (kw_rest (u_world u)) then Some (CHERRY_ERR_INTERNAL, None, u)
      else do {
        (r, u) \<leftarrow> cherry_uci_client_calib_open (ce_calib e) u;
        case qmalloc (calib_heap u) sizeof_calib_mut of
          (None, q) \<Rightarrow> Some (CHERRY_ERR_INTERNAL, None, set_calib_heap u q)
        | (Some p, q) \<Rightarrow>
            do {
              let u = set_mut (set_calib_heap u q) p (Some CHERRY_CALIB_DYN_INIT_STATIC);
              let u = set_cbs u (ce_local_cb e) (Some \<lparr>cb_user_data = Some p, cb_alloc = 0, cb_key_notif = 1\<rparr>);
              (r, u) \<leftarrow> cherry_uci_client_calib_get_key (ce_calib e) u keys n_keys (ce_local_cb e);
              let err = cherry_get_error r;
              u \<leftarrow> cherry_uci_client_calib_close (ce_calib e) u;
              let u = set_cbs u (ce_local_cb e) None;
              if err \<noteq> CHERRY_ERR_NONE
              then do { u \<leftarrow> cherry_calib_mut_destroy u p; u \<leftarrow> free_mut u p; Some (err, None, u) }
              else do {
                x \<leftarrow> get_mut u p;
                Some (err, Some p, set_mut u p (Some (x\<lparr>mu_keys := mu_mut_keys x\<rparr>)))
              }
            }
      })"

definition cherry_thread_task_get_calib :: "cherry_env \<Rightarrow> cuci \<Rightarrow> bytes list \<Rightarrow> 16 word \<Rightarrow> bool \<Rightarrow> cuci option" where
  "cherry_thread_task_get_calib e u keys n_keys abort =
     (if abort then Some u
      else do {
        (ev, u) \<leftarrow> alloc_event u sizeof_get_calib;
        case ev of
          None \<Rightarrow> Some u
        | Some (p, d) \<Rightarrow>
            do { (err, calib, u) \<leftarrow> get_calib_keys e u keys n_keys; ce_core_cb e (Get_Calib_Event p d err calib) u }
      })"

text \<open>The callbacks as the client calls them.\<close>

definition calib_alloc_callback :: "nat \<Rightarrow> nat option \<Rightarrow> byte \<Rightarrow> cuci \<Rightarrow> (nat option \<times> cuci) option" where
  "calib_alloc_callback f user_data n u = (if f = 0 then cherry_calib_alloc_cb user_data n u else None)"

definition calib_notif_callback :: "nat \<Rightarrow> nat option \<Rightarrow> nat \<Rightarrow> nat \<Rightarrow> nat \<Rightarrow> cuci \<Rightarrow> (bool \<times> cuci) option" where
  "calib_notif_callback f user_data key_name d n u =
     (if f = 1 then cherry_calib_key_notif_cb user_data key_name d n u else None)"

end
