(* ===== verification/Calib_Collect.thy ===== *)
theory Calib_Collect
  imports Cherry_Calib
begin

text \<open>
  Collecting the keys of a response: what the growing object owns, which keys it holds, and that the
  callbacks and the handler of the response keep both, for responses of at most
  2000 keys without a name of 255 bytes, and whichever allocations fail.
\<close>

section \<open>The object\<close>

text \<open>What is written of an element of the array: its name, type, size and data.\<close>

definition written :: "cherry_calib_key \<Rightarrow> nat option \<times> nat \<times> byte \<times> nat option" where
  "written key = (ck_name key, ck_type key, ck_size key, ck_data key)"

definition key_of :: "nat \<times> nat \<times> nat \<Rightarrow> nat option \<times> nat \<times> byte \<times> nat option" where
  "key_of k = (case k of (a, d, n) \<Rightarrow> (Some a, CHERRY_CALIB_VALUE_DATA, of_nat n, Some d))"

text \<open>Apart from the blocks \<open>B\<close>, the living blocks are those of the object.\<close>

definition mut_owns :: "cuci \<Rightarrow> nat \<Rightarrow> cherry_calib_mut \<Rightarrow> nat multiset \<Rightarrow> bool" where
  "mut_owns u p x B \<longleftrightarrow> get_mut u p = Some x \<and> heap_ok (calib_heap u) \<and>
     blocks (calib_heap u) = B + {#p#} + mset (mu_allocation_list x) + opt_block (mu_mut_keys x)"

definition array_ok :: "qheap \<Rightarrow> cherry_calib_mut \<Rightarrow> (nat \<times> nat \<times> nat) list \<Rightarrow> bool" where
  "array_ok m x ks \<longleftrightarrow> mu_n_keys x = of_nat (length ks) \<and>
     (case mu_mut_keys x of
        None \<Rightarrow> mu_mut_keys_capacity x = 0 \<and> ks = []
      | Some (a, arr) \<Rightarrow> mu_mut_keys_capacity x = length arr \<and> 0 < length arr \<and> length ks \<le> length arr \<and>
          length arr \<le> length ks + 64 \<and> map (map_option written) (take (length ks) arr) = map (\<lambda>k. Some (key_of k)) ks \<and>
          q_blocks m a = Some \<lparr>qp_quota_id = 0, qp_size = of_nat (length arr * sizeof_calib_key)\<rparr>)"

definition allocated :: "cuci \<Rightarrow> nat \<Rightarrow> nat \<Rightarrow> bool" where
  "allocated u p a \<longleftrightarrow> (\<exists>x. get_mut u p = Some x \<and> a \<in> set (mu_allocation_list x))"

text \<open>The object at \<open>p\<close> holds the keys \<open>ks\<close>, and \<open>k\<close> bytes can still be allocated.\<close>

definition collects :: "cuci \<Rightarrow> nat \<Rightarrow> nat multiset \<Rightarrow> nat \<Rightarrow> (nat \<times> nat \<times> nat) list \<Rightarrow> bool" where
  "collects u p B k ks \<longleftrightarrow> (\<exists>x. mut_owns u p x B \<and> array_ok (calib_heap u) x ks) \<and> room (calib_heap u) k \<and>
     (\<forall>(a, d, n) \<in> set ks. allocated u p a \<and> allocated u p d)"

lemma collects_owns: "collects u p B k ks \<Longrightarrow> \<exists>x. mut_owns u p x B"
  by (auto simp: collects_def)

text \<open>What the callbacks and the handler leave as it was.\<close>

definition calib_frame :: "cuci \<Rightarrow> cuci \<Rightarrow> bool" where
  "calib_frame u u' \<longleftrightarrow> (\<exists>w f M. u' = u\<lparr>u_world := w\<rparr> \<and> kw_cbs w = kw_cbs (u_world u) \<and>
     kw_context w = map_option (map_prod id (kc_response_status_update f)) (kw_context (u_world u)) \<and>
     kw_rest w = (kw_rest (u_world u))\<lparr>cs_muts := M\<rparr> \<and> q_fails (kw_heap w) = q_fails (kw_heap (u_world u)))"

lemma status_update_id [simp]: "kc_response_status_update (\<lambda>x. x) = id"
  by (rule ext) simp

lemma frame_world:
  assumes "kw_cbs w = kw_cbs (u_world u)" and "kw_context w = kw_context (u_world u)"
    and "kw_rest w = (kw_rest (u_world u))\<lparr>cs_muts := M\<rparr>" and "q_fails (kw_heap w) = q_fails (kw_heap (u_world u))"
  shows "calib_frame u (u\<lparr>u_world := w\<rparr>)"
  unfolding calib_frame_def using assms
  by (intro exI [of _ w] exI [of _ "\<lambda>x. x"] exI [of _ M]) (simp add: map_prod.id option.map_id)

lemma frame_world_same:
  assumes "kw_cbs w = kw_cbs (u_world u)" and "kw_context w = kw_context (u_world u)"
    and "kw_rest w = kw_rest (u_world u)" and "q_fails (kw_heap w) = q_fails (kw_heap (u_world u))"
  shows "calib_frame u (u\<lparr>u_world := w\<rparr>)"
  using assms by (intro frame_world [where M = "cs_muts (kw_rest (u_world u))"]) simp_all

lemma calib_frame_refl: "calib_frame u u"
  using frame_world [of "u_world u" u "cs_muts (kw_rest (u_world u))"] by simp

lemma calib_frame_trans: "calib_frame u v \<Longrightarrow> calib_frame v w \<Longrightarrow> calib_frame u w"
  unfolding calib_frame_def
proof (elim exE conjE)
  fix w1 f1 M1 w2 f2 M2
  assume *: "v = u\<lparr>u_world := w1\<rparr>" "kw_cbs w1 = kw_cbs (u_world u)"
    "kw_context w1 = map_option (map_prod id (kc_response_status_update f1)) (kw_context (u_world u))"
    "kw_rest w1 = (kw_rest (u_world u))\<lparr>cs_muts := M1\<rparr>" "q_fails (kw_heap w1) = q_fails (kw_heap (u_world u))"
    "w = v\<lparr>u_world := w2\<rparr>" "kw_cbs w2 = kw_cbs (u_world v)"
    "kw_context w2 = map_option (map_prod id (kc_response_status_update f2)) (kw_context (u_world v))"
    "kw_rest w2 = (kw_rest (u_world v))\<lparr>cs_muts := M2\<rparr>" "q_fails (kw_heap w2) = q_fails (kw_heap (u_world v))"
  have "kw_context w2 = map_option (map_prod id (kc_response_status_update (f2 \<circ> f1))) (kw_context (u_world u))"
    using * by (cases "kw_context (u_world u)") auto
  then show "\<exists>w' f M. w = u\<lparr>u_world := w'\<rparr> \<and> kw_cbs w' = kw_cbs (u_world u) \<and>
      kw_context w' = map_option (map_prod id (kc_response_status_update f)) (kw_context (u_world u)) \<and>
      kw_rest w' = (kw_rest (u_world u))\<lparr>cs_muts := M\<rparr> \<and> q_fails (kw_heap w') = q_fails (kw_heap (u_world u))"
    using * by (intro exI [of _ w2] exI [of _ "f2 \<circ> f1"] exI [of _ M2]) simp
qed

lemma frame_simps:
  assumes "calib_frame u u'"
  shows "u_mem u' = u_mem u" "kw_cbs (u_world u') = kw_cbs (u_world u)"
    "q_fails (calib_heap u') = q_fails (calib_heap u)"
  using assms by (auto simp: calib_frame_def calib_heap_def)

section \<open>Allocation\<close>

lemma state_simps [simp]:
  "calib_heap (set_calib_heap u q) = q" "calib_heap (set_mut u p x) = calib_heap u" "calib_heap (set_buf u a d) = calib_heap u"
  "calib_heap (u\<lparr>u_world := w\<rparr>) = kw_heap w"
  "get_mut (set_mut u p x) p' = (if p' = p then x else get_mut u p')" "get_mut (set_calib_heap u q) p' = get_mut u p'"
  "get_mut (set_buf u a d) p' = get_mut u p'"
  "kw_data (u_world (set_mut u p x)) = kw_data (u_world u)" "kw_data (u_world (set_calib_heap u q)) = kw_data (u_world u)"
  "kw_data (u_world (set_buf u a d)) = (kw_data (u_world u))(a \<mapsto> d)"
  "kw_rest (u_world (set_calib_heap u q)) = kw_rest (u_world u)" "kw_rest (u_world (set_buf u a d)) = kw_rest (u_world u)"
  by (simp_all add: calib_heap_def set_calib_heap_def set_mut_def set_buf_def get_mut_def upd_rest_def)

lemma frame_set [simp]:
  "calib_frame u (set_mut u p x)" "calib_frame u (set_buf u a d)"
  "q_fails q = q_fails (calib_heap u) \<Longrightarrow> calib_frame u (set_calib_heap u q)"
  unfolding set_mut_def upd_rest_def set_buf_def set_calib_heap_def calib_heap_def
  by (rule frame_world, simp_all) (rule frame_world_same, simp_all)+

lemma qmalloc_other: "heap_ok m \<Longrightarrow> qmalloc m n = (r, m') \<Longrightarrow> a \<in> dom (q_blocks m) \<Longrightarrow> q_blocks m' a = q_blocks m a"
  by (auto simp: qmalloc_def qmalloc_internal_def heap_ok_def split: if_splits)

lemma array_ok_heap:
  assumes "array_ok m x ks" and "\<And>a. a \<in> dom (q_blocks m) \<Longrightarrow> q_blocks m' a = q_blocks m a"
  shows "array_ok m' (x\<lparr>mu_allocation_list := as\<rparr>) ks"
  using assms by (auto simp: array_ok_def domI split: option.splits)

lemma qmalloc_fresh: "heap_ok m \<Longrightarrow> qmalloc m n = (Some a, m') \<Longrightarrow> a \<notin># blocks m"
  by (auto simp: qmalloc_def qmalloc_internal_def heap_ok_def blocks_def split: if_splits)

lemma allocated_block: "mut_owns u p x B \<Longrightarrow> allocated u p a \<Longrightarrow> a \<in># blocks (calib_heap u)"
  by (auto simp: mut_owns_def allocated_def)

lemma alloc_collects:
  assumes col: "collects u p B (k + (n + sizeof_allocation)) ks"
  shows "\<exists>r u'. cherry_calib_mut_alloc u p n = Some (r, u') \<and> calib_frame u u' \<and> collects u' p B k ks \<and>
    (\<forall>a. allocated u p a \<longrightarrow> allocated u' p a) \<and>
    (case r of
       None \<Rightarrow> kw_data (u_world u') = kw_data (u_world u) \<and> q_fails (calib_heap u) (q_next (calib_heap u))
     | Some a \<Rightarrow> allocated u' p a \<and> \<not> allocated u p a \<and>
         kw_data (u_world u') = (kw_data (u_world u))(a \<mapsto> map (cs_garbage (kw_rest (u_world u))) [0..<n]))"
proof -
  from col obtain x where x: "mut_owns u p x B" "array_ok (calib_heap u) x ks" by (auto simp: collects_def)
  then have m: "get_mut u p = Some x" "heap_ok (calib_heap u)"
    and bl: "blocks (calib_heap u) = B + {#p#} + mset (mu_allocation_list x) + opt_block (mu_mut_keys x)"
    by (simp_all add: mut_owns_def)
  have room: "room (calib_heap u) (k + (n + 8))" and ks: "\<forall>(a, d, n) \<in> set ks. allocated u p a \<and> allocated u p d"
    using col by (auto simp: collects_def)
  obtain r q where r: "qmalloc (calib_heap u) (n + 8) = (r, q)" by fastforce
  note b = qmalloc_blocks [OF m(2) r]
  have rm: "room q k" by (rule qmalloc_room [OF room r])
  have arr: "array_ok q (x\<lparr>mu_allocation_list := as\<rparr>) ks" for as
    using x(2) by (rule array_ok_heap) (rule qmalloc_other [OF m(2) r])
  show ?thesis
  proof (cases r)
    case None
    let ?u = "set_calib_heap u q"
    have same: "allocated ?u p a = allocated u p a" for a by (simp add: allocated_def)
    have "mut_owns ?u p x B" using b m bl None by (simp add: mut_owns_def)
    with arr [of "mu_allocation_list x"] rm ks have "collects ?u p B k ks" by (auto simp: collects_def same)
    moreover have "q_fails (calib_heap u) (q_next (calib_heap u))"
      using r None by (auto simp: qmalloc_def qmalloc_internal_def split: if_splits)
    ultimately show ?thesis using r None m b by (simp add: cherry_calib_mut_alloc_def same)
  next
    case (Some a)
    let ?x = "x\<lparr>mu_allocation_list := a # mu_allocation_list x\<rparr>"
    let ?u = "set_mut (set_buf (set_calib_heap u q) a (map (cs_garbage (kw_rest (u_world u))) [0..<n])) p (Some ?x)"
    have fresh: "\<not> allocated u p a" using allocated_block [OF x(1)] qmalloc_fresh [OF m(2)] r Some by blast
    have more: "allocated ?u p c \<longleftrightarrow> c = a \<or> allocated u p c" for c using m(1) by (auto simp: allocated_def)
    have "mut_owns ?u p ?x B" using b m bl Some by (simp add: mut_owns_def)
    with arr [of "a # mu_allocation_list x"] rm ks have col': "collects ?u p B k ks" by (auto simp: collects_def more)
    have "calib_frame u ?u" using b by (intro calib_frame_trans [OF calib_frame_trans [OF frame_set(3) frame_set(2)] frame_set(1)]) simp
    with col' fresh show ?thesis using r Some m by (auto simp: cherry_calib_mut_alloc_def Let_def more)
  qed
qed

section \<open>Notification\<close>

lemma set_mut_same: "get_mut u p = Some x \<Longrightarrow> set_mut u p (Some x) = u"
  by (simp add: set_mut_def upd_rest_def get_mut_def fun_upd_idem)

text \<open>
  Growing the array of keys: afterwards there is a free element, unless memory gives out. For 2000 keys it
  takes less than 50000 bytes.
\<close>

lemma extend_collects:
  assumes x: "mut_owns u p x B" "array_ok (calib_heap u) x ks" and len: "length ks < 2000"
    and room: "room (calib_heap u) (k + 50000)"
  shows "\<exists>ok x' u'. extend_keys u x = Some (ok, x', u') \<and> calib_frame u u' \<and> kw_data (u_world u') = kw_data (u_world u) \<and>
    get_mut u' p = Some x \<and> mu_allocation_list x' = mu_allocation_list x \<and> mut_owns (set_mut u' p (Some x')) p x' B \<and>
    (if ok then array_ok (calib_heap u') x' ks \<and> room (calib_heap u') k \<and>
       (\<exists>a arr. mu_mut_keys x' = Some (a, arr) \<and> length ks < length arr \<and> length arr \<le> length ks + 64)
     else q_fails (calib_heap u) (q_next (calib_heap u)))"
proof -
  from x(1) have m: "get_mut u p = Some x" "heap_ok (calib_heap u)"
    and bl: "blocks (calib_heap u) = B + {#p#} + mset (mu_allocation_list x) + opt_block (mu_mut_keys x)"
    by (simp_all add: mut_owns_def)
  have n: "unat (mu_n_keys x) = length ks" using x(2) len by (simp add: array_ok_def unat_of_nat)
  show ?thesis
  proof (cases "mu_mut_keys_capacity x = 0 \<or> mu_mut_keys_capacity x = length ks")
    case False
    with x(2) obtain a arr where arr: "mu_mut_keys x = Some (a, arr)" "length ks < length arr" "length arr \<le> length ks + 64"
      by (auto simp: array_ok_def split: option.splits)
    have r: "room (calib_heap u) k" using room by (rule room_mono) simp
    have run: "extend_keys u x = Some (True, x, u)" unfolding extend_keys_def n using False by simp
    have own: "mut_owns (set_mut u p (Some x)) p x B" unfolding set_mut_same [OF m(1)] by (rule x(1))
    show ?thesis
      by (rule exI [of _ True], rule exI [of _ x], rule exI [of _ u], unfold if_True)
        (intro conjI run calib_frame_refl refl m(1) own x(2) r exI [of _ a] exI [of _ arr] arr)
  next
    case True
    let ?c = "length ks + 64"
    have c: "mu_mut_keys_capacity x = length ks" using True x(2) by (auto simp: array_ok_def split: option.splits)
    define elems where "elems = (case mu_mut_keys x of None \<Rightarrow> [] | Some (_, ks) \<Rightarrow> ks)"
    have old: "(case map_option fst (mu_mut_keys x) of None \<Rightarrow> length ks * 24 = 0
        | Some p \<Rightarrow> q_blocks (calib_heap u) p = Some \<lparr>qp_quota_id = 0, qp_size = of_nat (length ks * 24)\<rparr>) \<and>
        map (map_option written) elems = map (\<lambda>k. Some (key_of k)) ks"
    proof (cases "mu_mut_keys x")
      case None
      with x(2) show ?thesis by (simp add: array_ok_def elems_def)
    next
      case (Some y)
      obtain a arr where y: "y = (a, arr)" by fastforce
      from x(2) have *: "length ks = length arr" "q_blocks (calib_heap u) a = Some \<lparr>qp_quota_id = 0, qp_size = of_nat (length arr * 24)\<rparr>"
        "map (map_option written) (take (length ks) arr) = map (\<lambda>k. Some (key_of k)) ks"
        unfolding array_ok_def Some y option.case prod.case c by blast+
      have "map (map_option written) arr = map (\<lambda>k. Some (key_of k)) ks" using *(3) by (simp add: *(1))
      with Some y * show ?thesis by (simp add: elems_def)
    qed
    have r: "room (calib_heap u) (k + ?c * 24)" using room by (rule room_mono) (use len in simp)
    have "length ks * 24 < ?c * 24" "?c * 24 < 65536" using len by simp_all
    from qrealloc_grow [OF m(2) old [THEN conjunct1] this r] obtain r q where
      q: "qrealloc (calib_heap u) (map_option fst (mu_mut_keys x)) (?c * 24) = Some (r, q)" "heap_ok q"
        "q_fails q = q_fails (calib_heap u)"
        "case r of None \<Rightarrow> blocks q = blocks (calib_heap u) \<and> q_fails (calib_heap u) (q_next (calib_heap u))
         | Some p' \<Rightarrow> blocks q = blocks (calib_heap u) - (case map_option fst (mu_mut_keys x) of None \<Rightarrow> {#} | Some p \<Rightarrow> {#p#}) + {#p'#} \<and>
             \<not> q_fails (calib_heap u) (q_next (calib_heap u)) \<and> p' = q_next (calib_heap u) \<and> room q k \<and>
             q_blocks q p' = Some \<lparr>qp_quota_id = 0, qp_size = of_nat (?c * 24)\<rparr>" by blast
    show ?thesis
    proof (cases r)
      case None
      let ?x = "x\<lparr>mu_mut_keys_capacity := ?c\<rparr>"
      have "extend_keys u x = Some (False, ?x, set_calib_heap u q)"
        using True c n q(1) None by (simp add: extend_keys_def)
      with q None m bl show ?thesis
        by (intro exI [of _ False] exI [of _ ?x] exI [of _ "set_calib_heap u q"]) (simp add: mut_owns_def)
    next
      case (Some p')
      define arr where "arr = take ?c (elems @ replicate ?c None)"
      let ?x = "x\<lparr>mu_mut_keys_capacity := ?c, mu_mut_keys := Some (p', arr)\<rparr>"
      have run: "extend_keys u x = Some (True, ?x, set_calib_heap u q)"
        using True c n q(1) Some by (simp add: extend_keys_def arr_def elems_def Let_def)
      have "length arr = ?c" by (simp add: arr_def)
      moreover have "length elems = length ks" using old by (metis length_map)
      then have "take (length ks) arr = elems" by (simp add: arr_def)
      then have "map (map_option written) (take (length ks) arr) = map (\<lambda>k. Some (key_of k)) ks"
        using old by simp
      moreover have "mu_n_keys x = of_nat (length ks)" using x(2) unfolding array_ok_def by (rule conjunct1)
      moreover have q': "p' = q_next (calib_heap u)" "room q k" "\<not> q_fails (calib_heap u) (q_next (calib_heap u))"
        "q_blocks q p' = Some \<lparr>qp_quota_id = 0, qp_size = of_nat (?c * 24)\<rparr>"
        using q(4) unfolding Some option.case by blast+
      ultimately have "array_ok q ?x ks" by (auto simp: array_ok_def)
      moreover have "blocks q = B + {#p#} + mset (mu_allocation_list x) + {#p'#}"
        using q(4) Some bl by (cases "mu_mut_keys x") auto
      ultimately show ?thesis using run q Some m \<open>length arr = ?c\<close>
        by (intro exI [of _ True] exI [of _ ?x] exI [of _ "set_calib_heap u q"]) (simp add: mut_owns_def)
    qed
  qed
qed

lemma notif_collects:
  assumes col: "collects u p B (k + 50000) ks" and len: "length ks < 2000"
    and al: "allocated u p a" "allocated u p d"
  shows "\<exists>ok u'. cherry_calib_key_notif_cb (Some p) a d n u = Some (ok, u') \<and> calib_frame u u' \<and>
    kw_data (u_world u') = kw_data (u_world u) \<and> (\<forall>a. allocated u p a \<longrightarrow> allocated u' p a) \<and>
    (if ok then collects u' p B k (ks @ [(a, d, n)])
     else (\<exists>x. mut_owns u' p x B) \<and> q_fails (calib_heap u) (q_next (calib_heap u)))"
proof -
  from col obtain x where x: "mut_owns u p x B" "array_ok (calib_heap u) x ks" by (auto simp: collects_def)
  have room: "room (calib_heap u) (k + 50000)" and ks: "\<forall>(a, d, n) \<in> set ks. allocated u p a \<and> allocated u p d"
    using col by (auto simp: collects_def)
  have m: "get_mut u p = Some x" using x(1) by (simp add: mut_owns_def)
  have n: "unat (mu_n_keys x) = length ks" using x(2) len by (simp add: array_ok_def unat_of_nat)
  have x0: "(if mu_mut_keys x = None then x\<lparr>mu_n_keys := 0\<rparr> else x) = x"
    using x(2) by (auto simp: array_ok_def split: option.splits)
  from extend_collects [OF x len room] obtain ok x' u1 where
    1: "extend_keys u x = Some (ok, x', u1)" "calib_frame u u1" "kw_data (u_world u1) = kw_data (u_world u)"
      "get_mut u1 p = Some x" "mu_allocation_list x' = mu_allocation_list x" "mut_owns (set_mut u1 p (Some x')) p x' B"
      "if ok then array_ok (calib_heap u1) x' ks \<and> room (calib_heap u1) k \<and>
         (\<exists>a arr. mu_mut_keys x' = Some (a, arr) \<and> length ks < length arr \<and> length arr \<le> length ks + 64)
       else q_fails (calib_heap u) (q_next (calib_heap u))" by blast
  show ?thesis
  proof (cases ok)
    case False
    have run: "cherry_calib_key_notif_cb (Some p) a d n u = Some (False, set_mut u1 p (Some x'))"
      unfolding cherry_calib_key_notif_cb_def option.case m bind.bind_lunit Let_def x0 1(1) using False by simp
    with 1 False m calib_frame_trans [OF 1(2) frame_set(1)] show ?thesis by (auto simp: allocated_def)
  next
    case True
    with 1(7) obtain b arr where arr: "array_ok (calib_heap u1) x' ks" "room (calib_heap u1) k"
      "mu_mut_keys x' = Some (b, arr)" "length ks < length arr" "length arr \<le> length ks + 64" by auto
    have n': "unat (mu_n_keys x') = length ks" using arr(1) len by (simp add: array_ok_def unat_of_nat)
    define key where "key = (cs_junk_key (kw_rest (u_world u1)) (length ks))\<lparr>ck_name := Some a,
      ck_type := CHERRY_CALIB_VALUE_DATA, ck_size := of_nat n, ck_data := Some d\<rparr>"
    let ?x = "x'\<lparr>mu_mut_keys := Some (b, arr[length ks := Some key]), mu_n_keys := mu_n_keys x' + 1\<rparr>"
    let ?u = "set_mut u1 p (Some ?x)"
    have run: "cherry_calib_key_notif_cb (Some p) a d n u = Some (True, ?u)"
      unfolding cherry_calib_key_notif_cb_def option.case m bind.bind_lunit Let_def x0 1(1)
      using True arr(3,4) n' by (simp add: key_def)
    have same: "allocated ?u p c = allocated u p c" for c using m 1(5) by (auto simp: allocated_def)
    have "mut_owns ?u p ?x B" using 1(6) arr(3) by (simp add: mut_owns_def)
    moreover have "array_ok (calib_heap ?u) ?x (ks @ [(a, d, n)])"
      using arr by (simp add: array_ok_def key_def key_of_def written_def take_Suc_conv_app_nth [of "length ks"] del: upd_conv_take_nth_drop)
    ultimately have "collects ?u p B k (ks @ [(a, d, n)])"
      using arr(2) ks al by (auto simp: collects_def same)
    with run 1 same calib_frame_trans [OF 1(2) frame_set(1)] show ?thesis by auto
  qed
qed

end
