(* ===== verification/Calib_Response.thy ===== *)
theory Calib_Response
  imports Calib_Collect
begin

text \<open>
  What the handler of the response with calibration keys does with the bytes of any response of at most 2000
  keys without a name of 255 bytes (which overruns its buffer): a decoder of the response, and
  the proof that the handler stores what it decodes, owns every block that it allocated, and reports the
  status that it decodes unless memory gives out.
\<close>

section \<open>The response as bytes\<close>

text \<open>
  A key: its name, the size of its value and the bytes of the value that the response holds: a response
  that ends in the value is not refused.
\<close>

type_synonym key_entry = "bytes \<times> nat \<times> bytes"

definition dec_value :: "bytes \<Rightarrow> int + (nat \<times> bytes) \<times> bytes" where
  "dec_value bs =
     (case bs of
        [] \<Rightarrow> Inl UCI_STATUS_SYNTAX_ERROR
      | n # bs \<Rightarrow>
          if n = 0 \<or> bs = [] then Inl UCI_STATUS_INVALID_RANGE
          else Inr ((unat n, take (unat n) bs), drop (unat n) bs))"

definition dec_key :: "bytes \<Rightarrow> int + key_entry \<times> bytes" where
  "dec_key bs =
     (case bs of
        [] \<Rightarrow> Inl UCI_STATUS_SYNTAX_ERROR
      | n # bs \<Rightarrow>
          if n = 0 \<or> bs = [] then Inl UCI_STATUS_INVALID_PARAM
          else (case drop (unat n) bs of
              [] \<Rightarrow> Inl UCI_STATUS_SYNTAX_ERROR
            | s # rest \<Rightarrow>
                if s \<noteq> 0 then Inl (uint s)
                else (case dec_value rest of
                    Inl s \<Rightarrow> Inl s
                  | Inr (v, rest) \<Rightarrow> Inr ((take (unat n) bs, v), rest))))"

fun dec_keys :: "nat \<Rightarrow> bytes \<Rightarrow> int + key_entry list \<times> bytes" where
  "dec_keys 0 bs = Inr ([], bs)"
| "dec_keys (Suc n) bs =
     (case dec_key bs of
        Inl s \<Rightarrow> Inl s
      | Inr (k, bs) \<Rightarrow> (case dec_keys n bs of Inl s \<Rightarrow> Inl s | Inr (ks, bs) \<Rightarrow> Inr (k # ks, bs)))"

definition dec_response :: "bytes \<Rightarrow> byte \<times> key_entry list" where
  "dec_response bs =
     (case bs of
        [] \<Rightarrow> (of_int UCI_STATUS_SYNTAX_ERROR, [])
      | s # bs \<Rightarrow>
          if s \<noteq> 0 then (s, [])
          else if length bs < 2 then (of_int UCI_STATUS_SYNTAX_ERROR, [])
          else (case dec_keys (unat (le_value (take 2 bs) :: 16 word)) (drop 2 bs) of
              Inl s \<Rightarrow> (of_int s, [])
            | Inr (ks, rest) \<Rightarrow> if rest \<noteq> [] then (of_int UCI_STATUS_SYNTAX_ERROR, []) else (0, ks)))"

text \<open>No name of 255 bytes is decoded: for such a name no memory is asked for.\<close>

definition short_name :: "bytes \<Rightarrow> bool" where
  "short_name bs \<longleftrightarrow> bs = [] \<or> hd bs \<noteq> 255"

fun short_names :: "nat \<Rightarrow> bytes \<Rightarrow> bool" where
  "short_names 0 bs = True"
| "short_names (Suc n) bs \<longleftrightarrow> short_name bs \<and> (case dec_key bs of Inl s \<Rightarrow> True | Inr (k, bs) \<Rightarrow> short_names n bs)"

section \<open>Reading\<close>

lemma get_8bit_or_rep:
  assumes "parser_rep (heap (u_mem u)) q bs"
  shows "\<exists>q'. get_8bit_or u q = Some (case bs of [] \<Rightarrow> None | b # _ \<Rightarrow> Some b, q') \<and>
    parser_rep (heap (u_mem u)) q' (drop 1 bs)"
  using get_array_rep [OF assms, of 1]
  by (cases bs) (auto simp: get_8bit_or_def uci_message_get_8bit_no_assert_def)

lemma get_data_rep:
  assumes "parser_rep (heap (u_mem u)) q bs" and d: "kw_data (u_world u) a = Some d" and "n \<le> length d"
  shows "\<exists>q'. get_data u q a n =
      Some (min (length bs) n, set_buf u a (take n bs @ drop (min (length bs) n) d), q') \<and>
    parser_rep (heap (u_mem u)) q' (drop n bs)"
  using message_get_rep [OF assms(1), of n] assms(3)
  by (auto simp: get_data_def store_data_def d write_buf_def set_buf_def)

lemma unat_plus_one_byte: "n \<noteq> (255 :: byte) \<Longrightarrow> unat (n + 1) = unat n + 1"
proof -
  assume n: "n \<noteq> 255"
  have "n + 1 \<noteq> 0"
  proof
    assume "n + 1 = 0"
    then have "n = - 1" by (simp add: eq_neg_iff_add_eq_0)
    with n show False by simp
  qed
  then show ?thesis using unatSuc [of n] by (simp add: add.commute)
qed

text \<open>What was allocated before keeps its contents.\<close>

definition keeps :: "nat \<Rightarrow> cuci \<Rightarrow> cuci \<Rightarrow> bool" where
  "keeps p u u' \<longleftrightarrow> (\<forall>a. allocated u p a \<longrightarrow> allocated u' p a \<and> kw_data (u_world u') a = kw_data (u_world u) a)"

lemma keeps_refl [simp]: "keeps p u u"
  by (simp add: keeps_def)

lemma keeps_trans: "keeps p u v \<Longrightarrow> keeps p v w \<Longrightarrow> keeps p u w"
  by (simp add: keeps_def)

lemma allocated_simps [simp]:
  "allocated (set_buf u a d) p c = allocated u p c" "allocated (set_calib_status u s) p c = allocated u p c"
  by (simp_all add: allocated_def set_calib_status_def upd_calib_def get_mut_def)

lemma mem_buf [simp]: "u_mem (set_buf u a d) = u_mem u"
  by (simp add: set_buf_def)

lemma collects_buf [simp]: "collects (set_buf u a d) p B k ks = collects u p B k ks"
  by (simp add: collects_def mut_owns_def)

lemma collects_mono: "collects u p B k ks \<Longrightarrow> j \<le> k \<Longrightarrow> collects u p B j ks"
  by (auto simp: collects_def intro: room_mono)

definition failing :: "cuci \<Rightarrow> bool" where
  "failing u \<longleftrightarrow> (\<exists>i. q_fails (calib_heap u) i)"

lemma failing_frame: "calib_frame u u' \<Longrightarrow> failing u' = failing u"
  by (simp add: failing_def frame_simps)

text \<open>The callbacks of the request are the library's.\<close>

definition calib_callbacks :: "cherry_state calib_env \<Rightarrow> nat \<Rightarrow> cuci \<Rightarrow> nat \<Rightarrow> bool" where
  "calib_callbacks e cb u p \<longleftrightarrow> ke_alloc e = calib_alloc_callback \<and> ke_key_notif e = calib_notif_callback \<and>
     kw_cbs (u_world u) cb = Some \<lparr>cb_user_data = Some p, cb_alloc = 0, cb_key_notif = 1\<rparr>"

lemma callbacks_frame: "calib_frame u u' \<Longrightarrow> calib_callbacks e cb u' p = calib_callbacks e cb u p"
  by (simp add: calib_callbacks_def frame_simps)

lemma alloc_data_run:
  assumes cb: "calib_callbacks e cb u p" and col: "collects u p B (k + (unat n + sizeof_allocation)) ks"
  shows "\<exists>r u'. alloc_data e u cb n = Some (r, u') \<and> calib_frame u u' \<and> collects u' p B k ks \<and> keeps p u u' \<and>
    (case r of
       None \<Rightarrow> failing u
     | Some a \<Rightarrow> allocated u' p a \<and> \<not> allocated u p a \<and> (\<exists>d. kw_data (u_world u') a = Some d \<and> length d = unat n))"
proof -
  have run: "alloc_data e u cb n = cherry_calib_mut_alloc u p (unat n)"
    using cb by (simp add: alloc_data_def calib_callbacks_def calib_alloc_callback_def cherry_calib_alloc_cb_def)
  from alloc_collects [OF col] obtain r u' where *:
    "cherry_calib_mut_alloc u p (unat n) = Some (r, u')" "calib_frame u u'" "collects u' p B k ks"
    "\<forall>a. allocated u p a \<longrightarrow> allocated u' p a"
    "case r of None \<Rightarrow> kw_data (u_world u') = kw_data (u_world u) \<and> q_fails (calib_heap u) (q_next (calib_heap u))
     | Some a \<Rightarrow> allocated u' p a \<and> \<not> allocated u p a \<and>
         kw_data (u_world u') = (kw_data (u_world u))(a \<mapsto> map (cs_garbage (kw_rest (u_world u))) [0..<unat n])" by blast
  then show ?thesis by (cases r) (auto simp: run keeps_def failing_def)
qed

section \<open>A key\<close>

text \<open>How reading a value ends.\<close>

definition value_done :: "cuci \<Rightarrow> nat \<Rightarrow> nat multiset \<Rightarrow> nat \<Rightarrow> (nat \<times> nat \<times> nat) list \<Rightarrow> nat \<Rightarrow> bytes \<Rightarrow>
    int \<Rightarrow> cuci \<Rightarrow> uci_message_parser \<Rightarrow> bool" where
  "value_done u p B k ks a bs s u' q' \<longleftrightarrow> calib_frame u u' \<and> keeps p u u' \<and>
     ((\<exists>d n v rest junk. dec_value bs = Inr ((n, v), rest) \<and> s = UCI_STATUS_OK \<and> parser_rep (heap (u_mem u)) q' rest \<and>
         collects u' p B k (ks @ [(a, d, n)]) \<and> kw_data (u_world u') d = Some (v @ junk) \<and> length (v @ junk) = n) \<or>
      (of_int s :: byte) \<noteq> 0 \<and> (\<exists>x. mut_owns u' p x B) \<and> (dec_value bs = Inl s \<or> failing u))"

lemma value_failed:
  assumes "calib_frame u u'" and "keeps p u u'" and "collects u' p B j ks" and "(of_int s :: byte) \<noteq> 0"
    and "dec_value bs = Inl s \<or> failing u"
  shows "value_done u p B k ks a bs s u' q"
  using assms by (auto simp: value_done_def dest: collects_owns)

lemma parse_value_done:
  assumes cb: "calib_callbacks e cb u p" and col: "collects u p B (k + 50300) ks" and len: "length ks < 2000"
    and al: "allocated u p a" and rep: "parser_rep (heap (u_mem u)) q bs"
  shows "\<exists>s u' q'. parse_key_value e cb a u q = Some (s, u', q') \<and> value_done u p B k ks a bs s u' q'"
proof -
  from get_8bit_or_rep [OF rep] obtain q1 where
    1: "get_8bit_or u q = Some (case bs of [] \<Rightarrow> None | b # _ \<Rightarrow> Some b, q1)" "parser_rep (heap (u_mem u)) q1 (drop 1 bs)"
    by blast
  show ?thesis
  proof (cases bs)
    case Nil
    then have "value_done u p B k ks a bs UCI_STATUS_SYNTAX_ERROR u q1"
      using col by (intro value_failed [OF calib_frame_refl keeps_refl col]) (simp_all add: dec_value_def)
    with 1 Nil show ?thesis by (simp add: parse_key_value_def)
  next
    case (Cons n xs)
    have "unat n < 256" by (rule order.strict_trans2 [OF unsigned_less]) simp
    then have "collects u p B ((k + 50000) + (unat n + 8)) ks" using col by (auto elim: collects_mono)
    from alloc_data_run [OF cb this] obtain r u1 where
      2: "alloc_data e u cb n = Some (r, u1)" "calib_frame u u1" "collects u1 p B (k + 50000) ks" "keeps p u u1"
      "case r of None \<Rightarrow> failing u
       | Some d \<Rightarrow> allocated u1 p d \<and> \<not> allocated u p d \<and> (\<exists>x. kw_data (u_world u1) d = Some x \<and> length x = unat n)"
      by blast
    show ?thesis
    proof (cases r)
      case None
      have "value_done u p B k ks a bs UCI_STATUS_INVALID_PARAM u1 q1"
        using 2 None by (intro value_failed) simp_all
      with 1 2 Cons None show ?thesis by (simp add: parse_key_value_def)
    next
      case (Some d)
      with 2(5) obtain x where d: "allocated u1 p d" "\<not> allocated u p d" "kw_data (u_world u1) d = Some x"
        "length x = unat n" by auto
      have mem: "u_mem u1 = u_mem u" using 2(2) by (rule frame_simps)
      from get_data_rep [of u1 q1 xs d x "unat n"] 1(2) d(3,4) Cons obtain q2 where
        3: "get_data u1 q1 d (unat n) =
            Some (min (length xs) (unat n), set_buf u1 d (take (unat n) xs @ drop (min (length xs) (unat n)) x), q2)"
          "parser_rep (heap (u_mem u)) q2 (drop (unat n) xs)" by (auto simp: mem)
      let ?x = "take (unat n) xs @ drop (min (length xs) (unat n)) x"
      let ?u = "set_buf u1 d ?x"
      have f: "calib_frame u ?u" using 2(2) frame_set(2) by (rule calib_frame_trans)
      have k: "keeps p u ?u" using 2(4) d(2) by (auto simp: keeps_def)
      show ?thesis
      proof (cases "n = 0 \<or> xs = []")
        case True
        then have "min (length xs) (unat n) = 0" by auto
        moreover have "value_done u p B k ks a bs UCI_STATUS_INVALID_RANGE ?u q2"
          using f k 2(3) True Cons by (intro value_failed) (simp_all add: dec_value_def)
        ultimately show ?thesis using 1 2 3 Cons Some by (simp add: parse_key_value_def)
      next
        case False
        have nz: "min (length xs) (unat n) \<noteq> 0" using False by (auto simp: min_def unat_gt_0)
        have cb': "calib_callbacks e cb ?u p" using cb callbacks_frame [OF f] by simp
        have "collects ?u p B (k + 50000) ks" "allocated ?u p a" "allocated ?u p d"
          using 2(3,4) al d(1) by (simp_all add: keeps_def)
        from notif_collects [OF this(1) len this(2,3), of "unat n"] obtain ok u' where
          4: "cherry_calib_key_notif_cb (Some p) a d (unat n) ?u = Some (ok, u')" "calib_frame ?u u'"
            "kw_data (u_world u') = kw_data (u_world ?u)" "\<forall>a. allocated ?u p a \<longrightarrow> allocated u' p a"
            "if ok then collects u' p B k (ks @ [(a, d, unat n)])
             else (\<exists>x. mut_owns u' p x B) \<and> q_fails (calib_heap ?u) (q_next (calib_heap ?u))" by blast
        have run: "parse_key_value e cb a u q = Some (if ok then UCI_STATUS_OK else UCI_STATUS_SYNTAX_ERROR, u', q2)"
          using 1(1) 2(1) 3(1) 4(1) cb' nz Cons Some
          by (simp add: parse_key_value_def calib_callbacks_def calib_notif_callback_def)
        have f': "calib_frame u u'" using f 4(2) by (rule calib_frame_trans)
        have k': "keeps p u u'" using k 4(3,4) by (auto simp: keeps_def)
        show ?thesis
        proof (cases ok)
          case True
          have "length ?x = unat n" using d(4) by simp
          with True 4(3,5) 3(2) Cons False have "\<exists>dd nn v rest junk. dec_value bs = Inr ((nn, v), rest) \<and>
              parser_rep (heap (u_mem u)) q2 rest \<and> collects u' p B k (ks @ [(a, dd, nn)]) \<and>
              kw_data (u_world u') dd = Some (v @ junk) \<and> length (v @ junk) = nn"
            by (intro exI [of _ d] exI [of _ "unat n"] exI [of _ "take (unat n) xs"] exI [of _ "drop (unat n) xs"]
                exI [of _ "drop (min (length xs) (unat n)) x"]) (simp add: dec_value_def)
          with f' k' run True show ?thesis unfolding value_done_def by auto
        next
          case False
          with 4(5) have "failing ?u" by (auto simp: failing_def)
          with False 4(5) f' k' run show ?thesis by (auto simp: value_done_def failing_frame [OF f])
        qed
      qed
    qed
  qed
qed


text \<open>The buffers of a key hold its name as a string and its value.\<close>

definition holds :: "cuci \<Rightarrow> nat \<times> nat \<times> nat \<Rightarrow> key_entry \<Rightarrow> bool" where
  "holds u k x = (case (k, x) of ((a, d, n), (name, n', v)) \<Rightarrow>
     n' = n \<and> kw_data (u_world u) a = Some (name @ [0]) \<and>
     (\<exists>junk. kw_data (u_world u) d = Some (v @ junk) \<and> length (v @ junk) = n))"

definition key_done :: "cuci \<Rightarrow> nat \<Rightarrow> nat multiset \<Rightarrow> nat \<Rightarrow> (nat \<times> nat \<times> nat) list \<Rightarrow> bytes \<Rightarrow>
    int \<Rightarrow> cuci \<Rightarrow> uci_message_parser \<Rightarrow> bool" where
  "key_done u p B k ks bs s u' q' \<longleftrightarrow> calib_frame u u' \<and> keeps p u u' \<and>
     ((\<exists>x rest y. dec_key bs = Inr (x, rest) \<and> s = UCI_STATUS_OK \<and> parser_rep (heap (u_mem u)) q' rest \<and>
         collects u' p B k (ks @ [y]) \<and> holds u' y x) \<or>
      (of_int s :: byte) \<noteq> 0 \<and> (\<exists>x. mut_owns u' p x B) \<and> (dec_key bs = Inl s \<or> failing u))"

lemma key_failed:
  assumes "calib_frame u u'" and "keeps p u u'" and "collects u' p B j ks" and "(of_int s :: byte) \<noteq> 0"
    and "dec_key bs = Inl s \<or> failing u"
  shows "key_done u p B k ks bs s u' q"
  using assms by (auto simp: key_done_def dest: collects_owns)

lemma value_then_key:
  assumes f: "calib_frame u u1" and k: "keeps p u u1" and al: "allocated u1 p a" and n: "n \<noteq> 0"
    and xs: "drop (unat n) xs = 0 # rest" and name: "kw_data (u_world u1) a = Some (take (unat n) xs @ [0])"
    and fin: "value_done u1 p B k' ks a rest s u' q'"
  shows "key_done u p B k' ks (n # xs) s u' q'"
proof -
  from xs have ne: "xs \<noteq> []" by auto
  have f': "calib_frame u u'" and k': "keeps p u u'"
    using fin f k by (auto simp: value_done_def intro: calib_frame_trans keeps_trans)
  have mem: "u_mem u1 = u_mem u" using f by (rule frame_simps)
  have name': "kw_data (u_world u') a = Some (take (unat n) xs @ [0])"
    using fin al name by (auto simp: value_done_def keeps_def)
  have dec: "dec_key (n # xs) = (case dec_value rest of Inl s \<Rightarrow> Inl s | Inr (v, r) \<Rightarrow> Inr ((take (unat n) xs, v), r))"
    using n ne xs by (simp add: dec_key_def)
  from fin consider
      (ok) d m v r junk where "dec_value rest = Inr ((m, v), r)" "s = UCI_STATUS_OK"
        "parser_rep (heap (u_mem u1)) q' r" "collects u' p B k' (ks @ [(a, d, m)])"
        "kw_data (u_world u') d = Some (v @ junk)" "length (v @ junk) = m"
    | (failed) "(of_int s :: byte) \<noteq> 0" "\<exists>x. mut_owns u' p x B" "dec_value rest = Inl s \<or> failing u1"
    unfolding value_done_def by blast
  then show ?thesis
  proof cases
    case ok
    then have "dec_key (n # xs) = Inr ((take (unat n) xs, m, v), r)" "holds u' (a, d, m) (take (unat n) xs, m, v)"
      using name' by (auto simp: dec holds_def)
    with ok f' k' show ?thesis unfolding key_done_def mem by blast
  next
    case failed
    then have "dec_key (n # xs) = Inl s \<or> failing u" using failing_frame [OF f] by (auto simp: dec)
    with failed f' k' show ?thesis by (simp add: key_done_def)
  qed
qed

lemma store_terminator:
  assumes "kw_data (u_world u) a = Some x" and "length x = n + 1"
  shows "store_data u a n [0] = Some (set_buf u a (take n x @ [0]))"
  using assms by (simp add: store_data_def write_buf_def set_buf_def)

text \<open>The steps after the name.\<close>

lemma after_name:
  assumes cb: "calib_callbacks e cb v p" and col: "collects v p B (k + 50300) ks" and len: "length ks < 2000"
    and f: "calib_frame u v" and k: "keeps p u v" and al: "allocated v p a" and n: "n \<noteq> 0" "xs \<noteq> []"
    and name: "unat n < length xs \<Longrightarrow> kw_data (u_world v) a = Some (take (unat n) xs @ [0])"
    and rep: "parser_rep (heap (u_mem v)) q (drop (unat n) xs)"
  shows "\<exists>s u' q'. do {
      (st, q) \<leftarrow> get_8bit_or v q;
      case st of
        None \<Rightarrow> Some (UCI_STATUS_SYNTAX_ERROR, v, q)
      | Some st \<Rightarrow> if st \<noteq> 0 then Some (uint st, v, q) else parse_key_value e cb a v q } = Some (s, u', q') \<and>
    key_done u p B k ks (n # xs) s u' q'"
proof -
  from get_8bit_or_rep [OF rep] obtain q1 where
    1: "get_8bit_or v q = Some (case drop (unat n) xs of [] \<Rightarrow> None | b # _ \<Rightarrow> Some b, q1)"
      "parser_rep (heap (u_mem v)) q1 (drop 1 (drop (unat n) xs))" by blast
  show ?thesis
  proof (cases "drop (unat n) xs")
    case Nil
    then have "key_done u p B k ks (n # xs) UCI_STATUS_SYNTAX_ERROR v q1"
      using n by (intro key_failed [OF f k col]) (simp_all add: dec_key_def)
    with 1 Nil show ?thesis by simp
  next
    case st: (Cons st rest)
    show ?thesis
    proof (cases "st = 0")
      case False
      then have "key_done u p B k ks (n # xs) (uint st) v q1"
        using n st by (intro key_failed [OF f k col]) (simp_all add: dec_key_def)
      with 1 st False show ?thesis by simp
    next
      case True
      have rep': "parser_rep (heap (u_mem v)) q1 rest" using 1(2) unfolding st by simp
      from parse_value_done [OF cb col len al rep'] obtain s u' q' where
        2: "parse_key_value e cb a v q1 = Some (s, u', q')" "value_done v p B k ks a rest s u' q'" by blast
      have "unat n < length xs" using st by (metis drop_eq_Nil linorder_not_le list.distinct(1))
      from value_then_key [OF f k al n(1) st [unfolded True] name [OF this] 2(2)]
      show ?thesis using 1(1) 2(1) st True by simp
    qed
  qed
qed

text \<open>Asking for the buffer of the name and reading it.\<close>

lemma read_name_buffer:
  assumes cb: "calib_callbacks e cb u p" and col: "collects u p B (k + 51000) ks" and n: "n \<noteq> 255"
    and rep: "parser_rep (heap (u_mem u)) q xs"
  shows "(\<exists>v. alloc_data e u cb (n + 1) = Some (None, v) \<and> calib_frame u v \<and> keeps p u v \<and> collects v p B k ks \<and> failing u) \<or>
    (\<exists>a v w q' x. alloc_data e u cb (n + 1) = Some (Some a, v) \<and>
       get_data v q a (unat n) = Some (min (length xs) (unat n), w, q') \<and>
       parser_rep (heap (u_mem w)) q' (drop (unat n) xs) \<and> calib_frame u w \<and> keeps p u w \<and>
       collects w p B (k + 50300) ks \<and> allocated w p a \<and> \<not> allocated u p a \<and>
       kw_data (u_world w) a = Some (take (unat n) xs @ x) \<and> min (unat n) (length xs) + length x = unat n + 1)"
proof -
  have n': "unat (n + 1) = unat n + 1" using n by (rule unat_plus_one_byte)
  have "unat n < 256" by (rule order.strict_trans2 [OF unsigned_less]) simp
  then have "collects u p B ((k + 50300) + (unat (n + 1) + 8)) ks" using col n' by (auto elim: collects_mono)
  from alloc_data_run [OF cb this] obtain r v where
    1: "alloc_data e u cb (n + 1) = Some (r, v)" "calib_frame u v" "collects v p B (k + 50300) ks" "keeps p u v"
    "case r of None \<Rightarrow> failing u
     | Some d \<Rightarrow> allocated v p d \<and> \<not> allocated u p d \<and> (\<exists>x. kw_data (u_world v) d = Some x \<and> length x = unat (n + 1))"
    by blast
  show ?thesis
  proof (cases r)
    case None
    with 1 collects_mono [OF 1(3), of k] show ?thesis by simp
  next
    case (Some a)
    with 1(5) n' obtain x where a: "allocated v p a" "\<not> allocated u p a" "kw_data (u_world v) a = Some x"
      "length x = unat n + 1" by auto
    have mem: "u_mem v = u_mem u" using 1(2) by (rule frame_simps)
    let ?y = "drop (min (length xs) (unat n)) x"
    let ?w = "set_buf v a (take (unat n) xs @ ?y)"
    from get_data_rep [of v q xs a x "unat n"] rep a(3,4) obtain q' where
      2: "get_data v q a (unat n) = Some (min (length xs) (unat n), ?w, q')"
        "parser_rep (heap (u_mem v)) q' (drop (unat n) xs)" by (auto simp: mem)
    have f: "calib_frame u ?w" using 1(2) frame_set(2) by (rule calib_frame_trans)
    have "keeps p u ?w" using 1(4) a(2) by (auto simp: keeps_def)
    moreover have "parser_rep (heap (u_mem ?w)) q' (drop (unat n) xs)" using 2(2) by (simp add: frame_simps [OF f] mem)
    ultimately show ?thesis using 1 2(1) a f Some
      by (intro disjI2 exI [of _ a] exI [of _ v] exI [of _ ?w] exI [of _ q'] exI [of _ ?y]) simp
  qed
qed

lemma parse_key_done:
  assumes cb: "calib_callbacks e cb u p" and col: "collects u p B (k + 51000) ks" and len: "length ks < 2000"
    and short: "short_name bs" and rep: "parser_rep (heap (u_mem u)) q bs"
  shows "\<exists>s u' q'. parse_key e cb u q = Some (s, u', q') \<and> key_done u p B k ks bs s u' q'"
proof -
  from get_8bit_or_rep [OF rep] obtain q1 where
    1: "get_8bit_or u q = Some (case bs of [] \<Rightarrow> None | b # _ \<Rightarrow> Some b, q1)" "parser_rep (heap (u_mem u)) q1 (drop 1 bs)"
    by blast
  show ?thesis
  proof (cases bs)
    case Nil
    then have "key_done u p B k ks bs UCI_STATUS_SYNTAX_ERROR u q1"
      using col by (intro key_failed [OF calib_frame_refl keeps_refl col]) (simp_all add: dec_key_def)
    with 1 Nil show ?thesis by (simp add: parse_key_def)
  next
    case (Cons n xs)
    have n: "n \<noteq> 255" and rep1: "parser_rep (heap (u_mem u)) q1 xs" using short 1(2) Cons by (simp_all add: short_name_def)
    from read_name_buffer [OF cb col this] consider
        (none) v where "alloc_data e u cb (n + 1) = Some (None, v)" "calib_frame u v" "keeps p u v" "collects v p B k ks" "failing u"
      | (some) a v w q2 x where "alloc_data e u cb (n + 1) = Some (Some a, v)"
         "get_data v q1 a (unat n) = Some (min (length xs) (unat n), w, q2)"
         "parser_rep (heap (u_mem w)) q2 (drop (unat n) xs)" "calib_frame u w" "keeps p u w"
         "collects w p B (k + 50300) ks" "allocated w p a" "\<not> allocated u p a"
         "kw_data (u_world w) a = Some (take (unat n) xs @ x)" "min (unat n) (length xs) + length x = unat n + 1" by blast
    then show ?thesis
    proof cases
      case none
      then have "key_done u p B k ks bs UCI_STATUS_INVALID_PARAM v q1" by (intro key_failed) simp_all
      with 1 none Cons show ?thesis by (simp add: parse_key_def)
    next
      case some
      show ?thesis
      proof (cases "n = 0 \<or> xs = []")
        case True
        then have "min (length xs) (unat n) = 0" by auto
        moreover have "key_done u p B k ks bs UCI_STATUS_INVALID_PARAM w q2"
          using some True Cons by (intro key_failed) (auto simp: dec_key_def)
        ultimately show ?thesis using 1 some Cons by (simp add: parse_key_def)
      next
        case False
        have nz: "min (length xs) (unat n) \<noteq> 0" using False by (auto simp: min_def unat_gt_0)
        define t where "t = set_buf w a (take (unat n) (take (unat n) xs @ x) @ [0])"
        have store: "store_data w a (unat n) [0] = Some t"
          unfolding t_def using some(10) by (intro store_terminator [OF some(9)]) (simp add: min.commute)
        have f: "calib_frame u t" unfolding t_def using some(4) frame_set(2) by (rule calib_frame_trans)
        have k: "keeps p u t" using some(5,8) by (auto simp: keeps_def t_def)
        have run: "parse_key e cb u q = do {
            (st, q) \<leftarrow> get_8bit_or t q2;
            case st of
              None \<Rightarrow> Some (UCI_STATUS_SYNTAX_ERROR, t, q)
            | Some st \<Rightarrow> if st \<noteq> 0 then Some (uint st, t, q) else parse_key_value e cb a t q }"
          using store 1(1) some(1,2) Cons by (simp add: parse_key_def nz)
        show ?thesis
          unfolding run unfolding Cons
        proof (rule after_name [OF _ _ len f k])
          show "calib_callbacks e cb t p" using cb callbacks_frame [OF f] by simp
        qed (use some False in \<open>simp_all add: t_def\<close>)
      qed
    qed
  qed
qed

section \<open>All the keys\<close>

lemma status_simps [simp]:
  "calib_heap (set_calib_status u s) = calib_heap u" "kw_data (u_world (set_calib_status u s)) = kw_data (u_world u)"
  "u_mem (set_calib_status u s) = u_mem u" "mut_owns (set_calib_status u s) p x B = mut_owns u p x B"
  "collects (set_calib_status u s) p B k ks = collects u p B k ks" "holds (set_calib_status u s) y z = holds u y z"
  "keeps p (set_calib_status u s) w = keeps p u w" "keeps p w (set_calib_status u s) = keeps p w u"
  "failing (set_calib_status u s) = failing u"
  by (simp_all add: set_calib_status_def upd_calib_def calib_heap_def collects_def mut_owns_def get_mut_def allocated_def
      holds_def keeps_def failing_def)

lemma frame_status [simp]: "calib_frame u (set_calib_status u s)"
  unfolding calib_frame_def set_calib_status_def upd_calib_def
  by (intro exI [of _ "(u_world u)\<lparr>kw_context := map_option (map_prod id (kc_response_status_update (\<lambda>_. s))) (kw_context (u_world u))\<rparr>"]
      exI [of _ "\<lambda>_. s"] exI [of _ "cs_muts (kw_rest (u_world u))"]) simp

lemma holds_keeps:
  assumes "holds u y x" and "keeps p u u'" and "collects u p B k ks" and "y \<in> set ks"
  shows "holds u' y x"
  using assms by (cases y; cases x) (auto simp: holds_def keeps_def collects_def)

definition keys_done :: "cuci \<Rightarrow> nat \<Rightarrow> nat multiset \<Rightarrow> nat \<Rightarrow> (nat \<times> nat \<times> nat) list \<Rightarrow> nat \<Rightarrow> bytes \<Rightarrow>
    int \<Rightarrow> cuci \<Rightarrow> uci_message_parser \<Rightarrow> bool" where
  "keys_done u p B k ks n bs s u' q' \<longleftrightarrow> calib_frame u u' \<and> keeps p u u' \<and>
     ((\<exists>xs rest ys. dec_keys n bs = Inr (xs, rest) \<and> s = UCI_STATUS_OK \<and> parser_rep (heap (u_mem u)) q' rest \<and>
         collects u' p B k (ks @ ys) \<and> list_all2 (holds u') ys xs) \<or>
      (of_int s :: byte) \<noteq> 0 \<and> (\<exists>x. mut_owns u' p x B) \<and> (dec_keys n bs = Inl s \<or> failing u))"

lemma key_then_keys:
  assumes k1: "key_done u p B k1 ks bs UCI_STATUS_OK v q1" and x: "dec_key bs = Inr (x, rest)"
    and y: "collects v p B k1 (ks @ [y])" "holds v y x" and w: "w = set_calib_status v st"
    and ks: "keys_done w p B k (ks @ [y]) n rest s u' q'"
  shows "keys_done u p B k ks (Suc n) bs s u' q'"
proof -
  have f: "calib_frame u w" and k: "keeps p u w" using k1 calib_frame_trans by (auto simp: key_done_def w)
  have f': "calib_frame u u'" "keeps p u u'" using calib_frame_trans [OF f] keeps_trans [OF k] ks by (auto simp: keys_done_def)
  have mem: "u_mem w = u_mem u" using f by (rule frame_simps)
  from ks consider
      (ok) xs r ys where "dec_keys n rest = Inr (xs, r)" "s = UCI_STATUS_OK" "parser_rep (heap (u_mem w)) q' r"
        "collects u' p B k ((ks @ [y]) @ ys)" "list_all2 (holds u') ys xs"
    | (failed) "(of_int s :: byte) \<noteq> 0" "\<exists>x. mut_owns u' p x B" "dec_keys n rest = Inl s \<or> failing w"
    unfolding keys_done_def by blast
  then show ?thesis
  proof cases
    case ok
    have "collects w p B k1 (ks @ [y])" "holds w y x" using y by (simp_all add: w)
    moreover have "keeps p w u'" using ks by (simp add: keys_done_def)
    ultimately have "holds u' y x" by (auto intro: holds_keeps)
    then have "list_all2 (holds u') (y # ys) (x # xs)" using ok(5) by simp
    moreover have "dec_keys (Suc n) bs = Inr (x # xs, r)" using x ok(1) by simp
    moreover have "collects u' p B k (ks @ y # ys)" using ok(4) by simp
    ultimately show ?thesis using ok(2,3) f' unfolding keys_done_def mem by blast
  next
    case failed
    then have "dec_keys (Suc n) bs = Inl s \<or> failing u" using x failing_frame [OF f] by auto
    with failed f' show ?thesis by (simp add: keys_done_def)
  qed
qed

lemma parse_keys_done:
  assumes "calib_callbacks e cb u p" and "collects u p B (k + 51000 * n) ks" and "length ks + n \<le> 2000"
    and "short_names n bs" and "parser_rep (heap (u_mem u)) q bs"
  shows "\<exists>s u' q'. parse_keys e cb n u q = Some (s, u', q') \<and> keys_done u p B k ks n bs s u' q'"
  using assms
proof (induction n arbitrary: u ks bs q)
  case 0
  then show ?case by (auto simp: keys_done_def calib_frame_refl)
next
  case (Suc n)
  have col: "collects u p B ((k + 51000 * n) + 51000) ks" using Suc.prems(2) by (simp add: algebra_simps)
  have "length ks < 2000" "short_name bs" using Suc.prems(3,4) by simp_all
  from parse_key_done [OF Suc.prems(1) col this Suc.prems(5)] obtain s v q1 where
    1: "parse_key e cb u q = Some (s, v, q1)" "key_done u p B (k + 51000 * n) ks bs s v q1" by blast
  let ?w = "set_calib_status v (of_int s)"
  have f: "calib_frame u ?w" using 1(2) calib_frame_trans by (auto simp: key_done_def)
  from 1(2) consider
      (ok) x rest y where "dec_key bs = Inr (x, rest)" "s = UCI_STATUS_OK" "parser_rep (heap (u_mem u)) q1 rest"
        "collects v p B (k + 51000 * n) (ks @ [y])" "holds v y x"
    | (failed) "(of_int s :: byte) \<noteq> 0" "\<exists>x. mut_owns v p x B" "dec_key bs = Inl s \<or> failing u"
    unfolding key_done_def by blast
  then show ?case
  proof cases
    case ok
    have cb: "calib_callbacks e cb ?w p" using Suc.prems(1) callbacks_frame [OF f] by simp
    have col': "collects ?w p B (k + 51000 * n) (ks @ [y])" using ok(4) by simp
    have len: "length (ks @ [y]) + n \<le> 2000" and sh: "short_names n rest" using Suc.prems(3,4) ok(1) by simp_all
    have rep: "parser_rep (heap (u_mem ?w)) q1 rest" using ok(3) by (simp only: frame_simps [OF f])
    from Suc.IH [OF cb col' len sh rep] obtain s' u' q' where
      2: "parse_keys e cb n ?w q1 = Some (s', u', q')" "keys_done ?w p B k (ks @ [y]) n rest s' u' q'" by blast
    from key_then_keys [OF 1(2) [unfolded ok(2)] ok(1,4,5) refl 2(2)] 1(1) 2(1) ok(2) show ?thesis by simp
  next
    case failed
    then have "keys_done u p B k ks (Suc n) bs s ?w q1"
      using f 1(2) by (auto simp: keys_done_def key_done_def)
    with 1(1) failed show ?thesis by simp
  qed
qed

lemma status_again: "set_calib_status (set_calib_status u s) s' = set_calib_status u s'"
  by (cases "kw_context (u_world u)") (auto simp: set_calib_status_def upd_calib_def)

lemma parse_keys_status:
  "parse_keys e cb n u q = Some (s, w, q') \<Longrightarrow> set_calib_status u 0 = u \<Longrightarrow> set_calib_status w (of_int s) = w"
proof (induction n arbitrary: u q)
  case (Suc n)
  from Suc.prems(1) obtain s1 v q1 where 1: "parse_key e cb u q = Some (s1, v, q1)"
    by (auto simp: bind_eq_Some_conv)
  show ?case
  proof (cases "(of_int s1 :: byte) = 0")
    case True
    with Suc.prems(1) 1 have "parse_keys e cb n (set_calib_status v 0) q1 = Some (s, w, q')" by simp
    then show ?thesis by (rule Suc.IH) (rule status_again)
  next
    case False
    with Suc.prems(1) 1 show ?thesis by (auto simp: status_again)
  qed
qed auto

section \<open>The response\<close>

lemma get_16bit_or_rep:
  assumes "parser_rep h q bs"
  shows "\<exists>q' v. uci_message_get_16bit_no_assert h q 0 = Some (2 \<le> length bs, v, q') \<and>
    (2 \<le> length bs \<longrightarrow> v = le_value (take 2 bs)) \<and> parser_rep h q' (drop 2 bs)"
  using get_array_rep [OF assms, of 2] le16_eq [of "take 2 bs"]
  by (auto simp: uci_message_get_16bit_no_assert_def)

text \<open>
  The number of keys of a response, and the condition under which it is handled without a fault: at most
  2000 keys, whose names have less than 255 bytes.
\<close>

definition response_keys :: "bytes \<Rightarrow> nat" where
  "response_keys bs = unat (le_value (take 2 (drop 1 bs)) :: 16 word)"

definition response_bounded :: "bytes \<Rightarrow> bool" where
  "response_bounded bs \<longleftrightarrow> response_keys bs \<le> 2000 \<and> short_names (response_keys bs) (drop 3 bs)"

text \<open>
  Afterwards the status of the context is \<open>s\<close> and the response was signalled; the object owns every block
  that was allocated and holds the keys when the status is OK.
\<close>

definition response_done :: "cuci \<Rightarrow> nat \<Rightarrow> nat multiset \<Rightarrow> bytes \<Rightarrow> cuci \<Rightarrow> bool" where
  "response_done u p B bs u' \<longleftrightarrow> (\<exists>c. calib_context_of u' = Some c \<and> kc_sem c = 1 \<and> (\<exists>x. mut_owns u' p x B) \<and>
     (\<forall>s xs. dec_response bs = (s, xs) \<longrightarrow>
        (if kc_response_status c = 0
         then s = 0 \<and> (\<exists>ys. collects u' p B 0 ys \<and> list_all2 (holds u') ys xs)
         else kc_response_status c = s \<or> failing u)))"

definition answered :: "cuci \<Rightarrow> byte \<Rightarrow> cuci" where
  "answered u s = cherry_calib_set_rsp (set_calib_status u s)"

lemma answered_done:
  assumes f: "calib_frame u v" and ctx: "kw_context (u_world u) \<noteq> None" and x: "mut_owns v p x B"
    and st: "dec_response bs = (s', xs)"
    and res: "if s = 0 then s' = 0 \<and> (\<exists>ys. collects v p B 0 ys \<and> list_all2 (holds v) ys xs) else s = s' \<or> failing u"
  shows "response_done u p B bs (answered v s)"
proof -
  from f ctx obtain q c where c: "kw_context (u_world v) = Some (q, c)" by (auto simp: calib_frame_def)
  have simps: "mut_owns (answered v s) p x B" "collects (answered v s) p B 0 ys = collects v p B 0 ys"
    "holds (answered v s) y z = holds v y z" for ys y z
    using x by (simp_all add: answered_def cherry_calib_set_rsp_def set_calib_status_def upd_calib_def calib_heap_def
        collects_def mut_owns_def get_mut_def allocated_def holds_def)
  have "holds (answered v s) = holds v" by (intro ext) (rule simps)
  with simps res st c show ?thesis
    by (auto simp: response_done_def calib_context_of_def answered_def cherry_calib_set_rsp_def set_calib_status_def
        upd_calib_def)
qed

lemma answered_again: "cherry_calib_set_rsp (set_calib_status (set_calib_status u s) s') = answered u s'"
  by (simp add: answered_def status_again)

lemma get_key_handler_done:
  assumes cb: "calib_callbacks e cb u p" and ctx: "calib_context_of u = Some c" "kc_cmd_data c = cb"
    and col: "collects u p B 102000000 []" and msg: "msg_ok (heap (u_mem u)) m bs" and ok: "response_bounded bs"
  shows "\<exists>u'. cherry_uci_client_calib_get_key_handler e u (Some m) = Some (QERR_SUCCESS, u') \<and> response_done u p B bs u'"
proof -
  have ctx': "kw_context (u_world u) \<noteq> None" using ctx(1) by (auto simp: calib_context_of_def)
  from col obtain x where x: "mut_owns u p x B" by (auto dest: collects_owns)
  from msg obtain q where q: "calib_parser u (Some m) = Some q" "parser_rep (heap (u_mem u)) q bs"
    using parser_init [OF msg] by (auto simp: calib_parser_def)
  from get_8bit_or_rep [OF q(2)] obtain q1 where
    1: "get_8bit_or u q = Some (case bs of [] \<Rightarrow> None | b # _ \<Rightarrow> Some b, q1)" "parser_rep (heap (u_mem u)) q1 (drop 1 bs)"
    by blast
  have fin: ?thesis if "cherry_uci_client_calib_get_key_handler e u (Some m) = Some (QERR_SUCCESS, answered u s)"
    "dec_response bs = (s, xs)" "s \<noteq> 0" for s xs
    using that answered_done [OF calib_frame_refl ctx' x that(2), of s] by simp
  show ?thesis
  proof (cases bs)
    case Nil
    have "cherry_uci_client_calib_get_key_handler e u (Some m) = Some (QERR_SUCCESS, answered u (of_int UCI_STATUS_SYNTAX_ERROR))"
      using ctx q 1(1) Nil by (simp add: cherry_uci_client_calib_get_key_handler_def answered_def)
    then show ?thesis by (rule fin) (simp_all add: Nil dec_response_def)
  next
    case (Cons st xs)
    show ?thesis
    proof (cases "st = 0")
      case False
      then have "cherry_uci_client_calib_get_key_handler e u (Some m) = Some (QERR_SUCCESS, answered u st)"
        using ctx q 1(1) Cons by (simp add: cherry_uci_client_calib_get_key_handler_def answered_def)
      then show ?thesis by (rule fin) (use False in \<open>simp_all add: Cons dec_response_def\<close>)
    next
      case True
      let ?u = "set_calib_status u 0"
      from 1(2) Cons have "parser_rep (heap (u_mem u)) q1 xs" by simp
      from get_16bit_or_rep [OF this] obtain q2 v where
        2: "uci_message_get_16bit_no_assert (heap (u_mem u)) q1 0 = Some (2 \<le> length xs, v, q2)"
          "2 \<le> length xs \<longrightarrow> v = le_value (take 2 xs)" "parser_rep (heap (u_mem u)) q2 (drop 2 xs)" by blast
      show ?thesis
      proof (cases "2 \<le> length xs")
        case False
        have "cherry_uci_client_calib_get_key_handler e u (Some m) =
            Some (QERR_SUCCESS, answered u (of_int UCI_STATUS_SYNTAX_ERROR))"
          using ctx q 1(1) 2(1) Cons True False
          by (simp add: cherry_uci_client_calib_get_key_handler_def Let_def answered_again)
        then show ?thesis by (rule fin) (use True False in \<open>simp_all add: Cons dec_response_def\<close>)
      next
        case long: True
        let ?n = "response_keys bs"
        have n: "unat v = ?n" "?n \<le> 2000" "short_names ?n (drop 2 xs)"
          using 2(2) long ok Cons by (simp_all add: response_keys_def response_bounded_def)
        have cb': "calib_callbacks e cb ?u p" using cb callbacks_frame [OF frame_status] by simp
        have "collects ?u p B (0 + 51000 * ?n) []" using n(2) by (simp add: collects_mono [OF col])
        from parse_keys_done [OF cb' this _ n(3), of q2] n(2) 2(3) obtain s w q' where
          3: "parse_keys e cb ?n ?u q2 = Some (s, w, q')" "keys_done ?u p B 0 [] ?n (drop 2 xs) s w q'" by auto
        have run: "cherry_uci_client_calib_get_key_handler e u (Some m) =
           (if (of_int s :: byte) \<noteq> 0 then Some (QERR_SUCCESS, cherry_calib_set_rsp w)
            else if uci_message_remaining q' \<noteq> 0
            then Some (QERR_SUCCESS, answered w (of_int UCI_STATUS_SYNTAX_ERROR))
            else Some (QERR_SUCCESS, cherry_calib_set_rsp w))"
          using ctx q 1(1) 2(1) 3(1) Cons True long n(1)
          by (simp add: cherry_uci_client_calib_get_key_handler_def Let_def answered_def)
        have w: "cherry_calib_set_rsp w = answered w (of_int s)"
          using parse_keys_status [OF 3(1)] by (simp add: status_again answered_def)
        have f: "calib_frame u w" using calib_frame_trans [OF frame_status] 3(2) by (auto simp: keys_done_def)
        have dec: "dec_response bs = (case dec_keys ?n (drop 2 xs) of
            Inl s \<Rightarrow> (of_int s, [])
          | Inr (ks, rest) \<Rightarrow> if rest \<noteq> [] then (of_int UCI_STATUS_SYNTAX_ERROR, []) else (0, ks))"
          using Cons True long by (simp add: dec_response_def response_keys_def)
        from 3(2) consider
            (ok) ks rest ys where "dec_keys ?n (drop 2 xs) = Inr (ks, rest)" "s = UCI_STATUS_OK"
              "parser_rep (heap (u_mem u)) q' rest" "collects w p B 0 ys" "list_all2 (holds w) ys ks"
          | (failed) "(of_int s :: byte) \<noteq> 0" "\<exists>x. mut_owns w p x B" "dec_keys ?n (drop 2 xs) = Inl s \<or> failing u"
          unfolding keys_done_def by auto
        then show ?thesis
        proof cases
          case ok
          from ok(4) obtain z where z: "mut_owns w p z B" by (auto dest: collects_owns)
          have rem: "uci_message_remaining q' = length rest" using ok(3) by (rule remaining_rep)
          show ?thesis
          proof (cases "rest = []")
            case True
            then have "response_done u p B bs (answered w 0)"
              using ok dec by (intro answered_done [OF f ctx' z, of bs 0 ks]) auto
            with run rem ok(2) True w show ?thesis by simp
          next
            case False
            then have "response_done u p B bs (answered w (of_int UCI_STATUS_SYNTAX_ERROR))"
              using ok(1) False dec by (intro answered_done [OF f ctx' z, of bs "of_int UCI_STATUS_SYNTAX_ERROR" "[]"]) simp_all
            with run rem ok(2) False show ?thesis by simp
          qed
        next
          case failed
          then obtain z where z: "mut_owns w p z B" by blast
          obtain s' ks where d: "dec_response bs = (s', ks)" by fastforce
          have "response_done u p B bs (answered w (of_int s))"
            using failed(1,3) dec d by (intro answered_done [OF f ctx' z d]) auto
          with run failed(1) w show ?thesis by simp
        qed
      qed
    qed
  qed
qed

section \<open>A response with keys\<close>

definition enc_key :: "bytes \<times> bytes \<Rightarrow> bytes" where
  "enc_key k = (case k of (name, v) \<Rightarrow> of_nat (length name) # name @ 0 # of_nat (length v) # v)"

definition enc_response :: "(bytes \<times> bytes) list \<Rightarrow> bytes" where
  "enc_response ks = 0 # le_bytes 2 (of_nat (length ks) :: 16 word) @ concat (map enc_key ks)"

definition key_ok :: "bytes \<times> bytes \<Rightarrow> bool" where
  "key_ok k = (case k of (name, v) \<Rightarrow> 0 < length name \<and> length name < 255 \<and> 0 < length v \<and> length v < 256)"

definition entry_of :: "bytes \<times> bytes \<Rightarrow> key_entry" where
  "entry_of k = (case k of (name, v) \<Rightarrow> (name, length v, v))"

lemma small_byte: "0 < n \<Longrightarrow> n < 256 \<Longrightarrow> (of_nat n :: byte) \<noteq> 0"
  by (metis unat_byte unsigned_0 less_numeral_extra(3))

lemma dec_enc_key:
  assumes "key_ok k"
  shows "dec_key (enc_key k @ bs) = Inr (entry_of k, bs)" and "short_name (enc_key k @ bs)"
proof -
  obtain name v where k: "k = (name, v)" by (cases k)
  with assms have l: "0 < length name" "length name < 255" "0 < length v" "length v < 256" by (simp_all add: key_ok_def)
  have n: "(of_nat (length name) :: byte) \<noteq> 0" "unat (of_nat (length name) :: byte) = length name"
    "(of_nat (length v) :: byte) \<noteq> 0" "unat (of_nat (length v) :: byte) = length v"
    using l by (simp_all add: small_byte unat_byte)
  have "name \<noteq> []" "v \<noteq> []" using l by auto
  with n show "dec_key (enc_key k @ bs) = Inr (entry_of k, bs)"
    by (simp add: k enc_key_def entry_of_def dec_key_def dec_value_def)
  have "unat (255 :: byte) = 255" by simp
  with n(2) l(2) have "(of_nat (length name) :: byte) \<noteq> 255" by auto
  then show "short_name (enc_key k @ bs)" by (simp add: k enc_key_def short_name_def)
qed

lemma dec_enc_keys:
  "list_all key_ok ks \<Longrightarrow> dec_keys (length ks) (concat (map enc_key ks) @ bs) = Inr (map entry_of ks, bs) \<and>
     short_names (length ks) (concat (map enc_key ks) @ bs)"
  by (induction ks) (simp_all add: dec_enc_key)

lemma dec_enc_response:
  assumes "list_all key_ok ks" and "length ks \<le> 2000"
  shows "dec_response (enc_response ks) = (0, map entry_of ks)" and "response_bounded (enc_response ks)"
proof -
  let ?n = "of_nat (length ks) :: 16 word"
  have n: "unat ?n = length ks" using assms(2) by (intro unat_word) simp
  show "dec_response (enc_response ks) = (0, map entry_of ks)"
    using dec_enc_keys [OF assms(1), of "[]"] n by (simp add: enc_response_def dec_response_def le_value_le_bytes_full)
  show "response_bounded (enc_response ks)"
    using dec_enc_keys [OF assms(1), of "[]"] n assms(2)
    by (simp add: enc_response_def response_bounded_def response_keys_def le_value_le_bytes_full drop_Cons')
qed

section \<open>The life of the object\<close>

lemma start_collects:
  assumes "qmalloc (calib_heap u) sizeof_calib_mut = (Some p, q)" and "heap_ok (calib_heap u)"
    and "room (calib_heap u) (k + sizeof_calib_mut)"
  shows "collects (set_mut (set_calib_heap u q) p (Some CHERRY_CALIB_DYN_INIT_STATIC)) p (blocks (calib_heap u)) k []"
  using qmalloc_blocks [OF assms(2,1)] qmalloc_room [OF assms(3,1)]
  by (simp add: collects_def mut_owns_def array_ok_def CHERRY_CALIB_DYN_INIT_STATIC_def)

lemma free_allocations_done:
  assumes "heap_ok (calib_heap u)" and "blocks (calib_heap u) = B + mset as"
  shows "\<exists>u'. free_allocations u as = Some u' \<and> heap_ok (calib_heap u') \<and> blocks (calib_heap u') = B \<and>
    (\<forall>p. get_mut u' p = get_mut u p)"
  using assms
proof (induction as arbitrary: u)
  case (Cons a as)
  from qfree_blocks [OF Cons.prems(1), of a] Cons.prems(2) obtain q where
    q: "qfree (calib_heap u) (Some a) = Some q" "heap_ok q" "blocks q = B + mset as" by auto
  let ?u = "set_calib_heap u q"
  let ?v = "?u\<lparr>u_world := (u_world ?u)\<lparr>kw_data := (kw_data (u_world ?u))(a := None)\<rparr>\<rparr>"
  have v: "free_buf u (Some a) = Some ?v" by (simp add: free_buf_def q(1) Let_def)
  have "heap_ok (calib_heap ?v)" "blocks (calib_heap ?v) = B + mset as"
    using q by (simp_all add: calib_heap_def set_calib_heap_def)
  from Cons.IH [OF this] v show ?case by (auto simp: get_mut_def set_calib_heap_def)
qed simp

lemma mut_destroyed:
  assumes "mut_owns u p x B"
  shows "\<exists>u'. cherry_calib_mut_destroy u p = Some u' \<and> heap_ok (calib_heap u') \<and> blocks (calib_heap u') = B + {#p#}"
proof -
  from assms have m: "get_mut u p = Some x" "heap_ok (calib_heap u)"
    and bl: "blocks (calib_heap u) = (B + {#p#} + opt_block (mu_mut_keys x)) + mset (mu_allocation_list x)"
    by (simp_all add: mut_owns_def)
  from free_allocations_done [OF m(2) bl] obtain v where
    v: "free_allocations u (mu_allocation_list x) = Some v" "heap_ok (calib_heap v)"
      "blocks (calib_heap v) = B + {#p#} + opt_block (mu_mut_keys x)" by blast
  have "frees (\<lambda>m. qfree m (map_option fst (mu_mut_keys x))) (opt_block (mu_mut_keys x))" by (rule frees_opt)
  with v obtain q where "qfree (calib_heap v) (map_option fst (mu_mut_keys x)) = Some q" "heap_ok q" "blocks q = B + {#p#}"
    by (auto simp: frees_def)
  then show ?thesis using m(1) v(1) by (simp add: cherry_calib_mut_destroy_def)
qed

text \<open>Destroying the object gives everything back.\<close>

lemma calib_destroyed:
  assumes "mut_owns u p x B"
  shows "\<exists>u'. cherry_calib_destroy u (Some p) = Some u' \<and> heap_ok (calib_heap u') \<and> blocks (calib_heap u') = B"
proof -
  from mut_destroyed [OF assms] obtain v where
    v: "cherry_calib_mut_destroy u p = Some v" "heap_ok (calib_heap v)" "blocks (calib_heap v) = B + {#p#}" by blast
  from qfree_blocks [OF v(2), of p] v(3) obtain q where
    "qfree (calib_heap v) (Some p) = Some q" "heap_ok q" "blocks q = B" by auto
  with v(1) show ?thesis by (simp add: cherry_calib_destroy_def free_mut_def)
qed

section \<open>Responses that should be refused\<close>

text \<open>A value that is shorter than announced is taken: the rest of its buffer is what the memory held before.\<close>

lemma short_value_taken:
  assumes "0 < length name" and "length name < 256" and "v \<noteq> []" and "l \<noteq> 0"
  shows "dec_key (of_nat (length name) # name @ 0 # l # v) = Inr ((name, unat l, take (unat l) v), drop (unat l) v)"
  using assms small_byte [of "length name"] unat_byte [of "length name"] by (auto simp: dec_key_def dec_value_def)

text \<open>A name of 255 bytes is written over a buffer of 0 bytes.\<close>

lemma long_name_faults:
  assumes cb: "calib_callbacks e cb u p" and col: "collects u p B (k + sizeof_allocation) ks" and ok: "\<not> failing u"
    and rep: "parser_rep (heap (u_mem u)) q (255 # b # bs)"
  shows "parse_key e cb u q = None"
proof -
  from get_8bit_or_rep [OF rep] obtain q1 where
    1: "get_8bit_or u q = Some (Some 255, q1)" "parser_rep (heap (u_mem u)) q1 (b # bs)" by auto
  have "collects u p B (k + (unat (0 :: byte) + sizeof_allocation)) ks" using col by simp
  from alloc_data_run [OF cb this] ok obtain a v where
    2: "alloc_data e u cb 0 = Some (Some a, v)" "calib_frame u v" "kw_data (u_world v) a = Some []"
    by (auto split: option.splits)
  have "parser_rep (heap (u_mem v)) q1 (b # bs)" using 1(2) frame_simps(1) [OF 2(2)] by simp
  from message_get_rep [OF this, of 255] obtain q2 where
    "uci_message_get (heap (u_mem v)) q1 255 = Some (take 255 (b # bs), q2)" by blast
  then have "get_data v q1 a 255 = None" using 2(3) by (simp add: get_data_def store_data_def write_buf_def)
  moreover have "(255 :: byte) + 1 = 0" "unat (255 :: byte) = 255" by simp_all
  ultimately show ?thesis unfolding parse_key_def 1(1) bind.bind_lunit prod.case option.case
    using 2(1) by (simp only: bind.bind_lunit prod.case option.case bind.bind_lzero)
qed

end
