(* ===== verification/Calib_Send.thy ===== *)
theory Calib_Send
  imports Calib_Response
begin

text \<open>
  Setting calibration: the keys of a calibration, when they are valid and memory suffices, are sent as one
  message, numbers and arrays of numbers in little-endian order and other values as they are.
\<close>

section \<open>The array for converted numbers\<close>

text \<open>The account of the quota without a limit and the size of the array add up to the same number.\<close>

lemma resize_account:
  assumes "n \<le> unat a + old" and "unat (a :: 32 word) + old < 2 ^ 32" and "n < 65536"
  shows "unat (a - of_int (int n - int old)) + n = unat a + old"
proof (cases "old \<le> n")
  case True
  then have i: "(of_int (int n - int old) :: 32 word) = of_nat (n - old)" by (simp add: of_nat_diff)
  have u: "unat (of_nat (n - old) :: 32 word) = n - old" using assms(3) by (simp add: unat_of_nat)
  then have "(of_nat (n - old) :: 32 word) \<le> a" using assms(1) by (simp add: word_le_nat_alt)
  then show ?thesis using u assms(1) True by (simp only: i unat_sub)
next
  case False
  then have i: "a - of_int (int n - int old) = a + of_nat (old - n)" by (simp add: of_nat_diff)
  have u: "unat (of_nat (old - n) :: 32 word) = old - n" using assms(2) by (simp add: unat_of_nat)
  have "unat (a + of_nat (old - n)) = unat a + (old - n)"
    unfolding unat_word_ariths(1) u using assms(2) False by simp
  then show ?thesis using False by (simp only: i)
qed

lemma qrealloc_resize:
  assumes ok: "heap_ok m" and old: "case ptr of None \<Rightarrow> old = 0
      | Some p \<Rightarrow> q_blocks m p = Some \<lparr>qp_quota_id = 0, qp_size = of_nat old\<rparr>"
    and n: "0 < n" "n < 65536" "old < 65536" and q: "allocation_quotas m \<noteq> []" "n \<le> unat (allocation_quotas m ! 0) + old"
      "unat (allocation_quotas m ! 0) + old < 2 ^ 32" and mal: "\<not> q_fails m (q_next m)"
  shows "\<exists>m'. qrealloc m ptr n = Some (Some (q_next m), m') \<and> heap_ok m' \<and> q_fails m' = q_fails m \<and>
    q_next m' = Suc (q_next m) \<and> allocation_quotas m' \<noteq> [] \<and>
    unat (allocation_quotas m' ! 0) + n = unat (allocation_quotas m ! 0) + old \<and>
    q_blocks m' (q_next m) = Some \<lparr>qp_quota_id = 0, qp_size = of_nat n\<rparr> \<and>
    (\<forall>a. a \<noteq> q_next m \<and> Some a \<noteq> ptr \<longrightarrow> q_blocks m' a = q_blocks m a)"
proof -
  define s :: "16 word" where "s = (case ptr of None \<Rightarrow> 0 | Some p \<Rightarrow> of_nat old)"
  have s: "unat s = old" using old n by (cases ptr) (auto simp: s_def unat_of_nat)
  have d: "sint (of_nat n - ucast s :: 32 word) = int n - int old"
    using size_difference [of n s] n by (simp add: s)
  have r: "int n - int old < 0 \<or> int n - int old \<le> int (unat (allocation_quotas m ! 0))" using q(2) by linarith
  let ?B = "case ptr of None \<Rightarrow> q_blocks m | Some p \<Rightarrow> (q_blocks m)(p := None)"
  let ?m = "charge (m\<lparr>q_next := Suc (q_next m),
    q_blocks := ?B(q_next m \<mapsto> \<lparr>qp_quota_id = 0, qp_size = of_nat n\<rparr>)\<rparr>) 0 (of_int (int n - int old))"
  have run: "qrealloc m ptr n = Some (Some (q_next m), ?m)"
  proof (cases ptr)
    case None
    with n(1) d r old mal show ?thesis
      by (simp add: qrealloc_def qmalloc_internal_def set_prefix_def s_def)
  next
    case (Some p)
    with n d r old mal show ?thesis
      by (simp add: qrealloc_def qmalloc_internal_def set_prefix_def s_def)
  qed
  have "unat (allocation_quotas ?m ! 0) + n = unat (allocation_quotas m ! 0) + old"
    using resize_account [OF q(2,3) n(2)] q(1) by (simp add: charge_def)
  moreover have "heap_ok ?m" using ok by (cases ptr) (auto simp: heap_ok_def less_Suc_eq)
  moreover have "allocation_quotas ?m \<noteq> []" using q(1) by (simp add: charge_def)
  moreover have "q_blocks ?m a = q_blocks m a" if "a \<noteq> q_next m \<and> Some a \<noteq> ptr" for a
    using that by (cases ptr) (simp_all add: charge_def)
  ultimately show ?thesis using run by (simp add: charge_def)
qed

section \<open>Converting numbers\<close>

lemma le_bytes_ucast: "le_bytes 2 (ucast (n :: 32 word) :: 16 word) = le_bytes 2 n"
  unfolding le_bytes_def by (intro map_cong refl bit_word_eqI) (auto simp: bit_simps)

lemma number_sizes:
  assumes "cherry_calib_key_check_number_size sz"
  shows "unat sz = 1 \<and> sz = 1 \<or> unat sz = 2 \<and> sz = 2 \<or> unat sz = 4 \<and> sz = 4"
  using assms by (auto simp: cherry_calib_key_check_number_size_def)

lemma convert_number:
  assumes "cherry_calib_key_check_number_size sz"
  shows "cherry_calib_key_convert_number n sz = Some (le_bytes (unat sz) n)"
  using number_sizes [OF assms]
  by (auto simp: cherry_calib_key_convert_number_def le_bytes_ucast le_bytes_Suc)

lemma le_bytes_le_value:
  assumes "length xs = n" and "8 * n \<le> LENGTH('a)"
  shows "le_bytes n (le_value xs :: 'a::len word) = xs"
proof (rule nth_equalityI)
  fix i
  assume "i < length (le_bytes n (le_value xs :: 'a word))"
  then have i: "i < n" by simp
  show "le_bytes n (le_value xs :: 'a word) ! i = xs ! i"
  proof (rule bit_word_eqI)
    fix k
    assume "k < LENGTH(8)"
    then have k: "k < 8" by simp
    then have "(8 * i + k) div 8 = i" "(8 * i + k) mod 8 = k" by (simp_all add: div_add1_eq)
    with i k assms show "bit (le_bytes n (le_value xs :: 'a word) ! i) k = bit (xs ! i) k"
      by (simp add: le_bytes_def bit_simps bit_le_value)
  qed
qed (simp add: assms)

lemma convert_item_same: "length xs = sz \<Longrightarrow> sz = 1 \<or> sz = 2 \<or> sz = 4 \<Longrightarrow> convert_item sz xs = Some xs"
  by (auto simp: convert_item_def le_bytes_le_value)

lemma convert_items_same:
  assumes "sz = 1 \<or> sz = 2 \<or> sz = 4" and "n \<le> length d" and "i \<le> n" and "sz dvd n - i"
  shows "convert_items sz d i n = Some (take (n - i) (drop i d))"
  using assms
proof (induction sz d i n rule: convert_items.induct)
  case (1 sz d i n)
  show ?case
  proof (cases "i = n")
    case True
    then show ?thesis by (simp add: convert_items.simps)
  next
    case False
    with 1 have le: "sz \<le> n - i" by (intro dvd_imp_le) auto
    have read: "read_buf d i sz = Some (take sz (drop i d))" using le "1.prems"(2,3) False by (simp add: read_buf_def)
    have conv: "convert_item sz (take sz (drop i d)) = Some (take sz (drop i d))"
      using le 1 by (intro convert_item_same) auto
    have "sz dvd n - (i + sz)" using "1.prems"(4) le by (simp add: dvd_minus_self flip: diff_diff_left)
    then have rest: "convert_items sz d (i + sz) n = Some (take (n - (i + sz)) (drop (i + sz) d))"
      using 1 False read conv le by auto
    have "take sz (drop i d) @ take (n - (i + sz)) (drop (i + sz) d) = take (n - i) (drop i d)"
      using le by (metis add_diff_inverse_nat diff_diff_left drop_drop linorder_not_le add.commute take_add)
    then show ?thesis using False "1.prems" read conv rest by (subst convert_items.simps) auto
  qed
qed

section \<open>Keys to be sent\<close>

text \<open>What is sent for a key: its name, and its number or the bytes of its value.\<close>

definition key_name :: "cuci \<Rightarrow> cherry_calib_key \<Rightarrow> bytes" where
  "key_name u key = (case mem_at u (ck_name key) of None \<Rightarrow> [] | Some k \<Rightarrow> takeWhile (\<lambda>c. c \<noteq> 0) k)"

definition key_value :: "cuci \<Rightarrow> cherry_calib_key \<Rightarrow> bytes" where
  "key_value u key =
     (if ck_type key = CHERRY_CALIB_VALUE_NUMBER then le_bytes (unat (ck_size key)) (ck_number key)
      else case mem_at u (ck_data key) of None \<Rightarrow> [] | Some d \<Rightarrow> take (unat (ck_size key)) d)"

definition calib_entry :: "cuci \<Rightarrow> cherry_calib_key \<Rightarrow> bytes \<times> bytes" where
  "calib_entry u key = (key_name u key, key_value u key)"

text \<open>A valid key that is not empty, with its name and its value below the address \<open>N\<close>.\<close>

definition key_ready :: "cuci \<Rightarrow> nat \<Rightarrow> cherry_calib_key \<Rightarrow> bool" where
  "key_ready u N key \<longleftrightarrow> key_valid key = Some True \<and> ck_size key \<noteq> 0 \<and>
     (case ck_name key of
        None \<Rightarrow> False
      | Some a \<Rightarrow> a < N \<and> (case kw_data (u_world u) a of None \<Rightarrow> False | Some k \<Rightarrow> name_at k (takeWhile (\<lambda>c. c \<noteq> 0) k))) \<and>
     (ck_type key = CHERRY_CALIB_VALUE_NUMBER \<or>
      (case ck_data key of
         None \<Rightarrow> False
       | Some a \<Rightarrow> a < N \<and> (case kw_data (u_world u) a of None \<Rightarrow> False | Some d \<Rightarrow> unat (ck_size key) \<le> length d)))"

text \<open>What the loop changes: the memory of messages, and blocks and buffers from the address \<open>N\<close> on.\<close>

definition above :: "nat \<Rightarrow> cuci \<Rightarrow> cuci \<Rightarrow> bool" where
  "above N u u' \<longleftrightarrow> (\<exists>m q d. u' = u\<lparr>u_mem := m, u_world := (u_world u)\<lparr>kw_heap := q, kw_data := d\<rparr>\<rparr> \<and>
     (\<forall>a < N. d a = kw_data (u_world u) a \<and> q_blocks q a = q_blocks (calib_heap u) a))"

lemma above_refl: "above N u u"
  unfolding above_def by (intro exI [of _ "u_mem u"] exI [of _ "kw_heap (u_world u)"] exI [of _ "kw_data (u_world u)"])
    (simp add: calib_heap_def)

lemma above_trans: "above N u v \<Longrightarrow> above N v w \<Longrightarrow> above N u w"
  unfolding above_def
proof (elim exE conjE)
  fix m q d m' q' d'
  assume *: "v = u\<lparr>u_mem := m, u_world := (u_world u)\<lparr>kw_heap := q, kw_data := d\<rparr>\<rparr>"
    "\<forall>a < N. d a = kw_data (u_world u) a \<and> q_blocks q a = q_blocks (calib_heap u) a"
    "w = v\<lparr>u_mem := m', u_world := (u_world v)\<lparr>kw_heap := q', kw_data := d'\<rparr>\<rparr>"
    "\<forall>a < N. d' a = kw_data (u_world v) a \<and> q_blocks q' a = q_blocks (calib_heap v) a"
  then show "\<exists>m q d. w = u\<lparr>u_mem := m, u_world := (u_world u)\<lparr>kw_heap := q, kw_data := d\<rparr>\<rparr> \<and>
      (\<forall>a < N. d a = kw_data (u_world u) a \<and> q_blocks q a = q_blocks (calib_heap u) a)"
    by (intro exI [of _ m'] exI [of _ q'] exI [of _ d']) (simp add: calib_heap_def)
qed

lemma above_mem: "above N u (u\<lparr>u_mem := m\<rparr>)"
  unfolding above_def by (intro exI [of _ m] exI [of _ "kw_heap (u_world u)"] exI [of _ "kw_data (u_world u)"])
    (simp add: calib_heap_def)

lemma above_data: "above N u u' \<Longrightarrow> a < N \<Longrightarrow> kw_data (u_world u') a = kw_data (u_world u) a"
  by (auto simp: above_def)

lemma mem_at_above: "above N u u' \<Longrightarrow> (case p of None \<Rightarrow> True | Some a \<Rightarrow> a < N) \<Longrightarrow> mem_at u' p = mem_at u p"
  by (cases p) (simp_all add: mem_at_def above_data)

text \<open>The array in which numbers are converted.\<close>

definition array_state :: "nat \<Rightarrow> cuci \<Rightarrow> nat option \<Rightarrow> bool" where
  "array_state N u arr \<longleftrightarrow> heap_ok (calib_heap u) \<and> (\<forall>i. \<not> q_fails (calib_heap u) i) \<and> N \<le> q_next (calib_heap u) \<and>
     allocation_quotas (calib_heap u) \<noteq> [] \<and>
     (\<exists>old < 256. 255 \<le> unat (allocation_quotas (calib_heap u) ! 0) + old \<and>
        unat (allocation_quotas (calib_heap u) ! 0) + old < 2 ^ 32 \<and>
        (case arr of None \<Rightarrow> old = 0
         | Some a \<Rightarrow> N \<le> a \<and> q_blocks (calib_heap u) a = Some \<lparr>qp_quota_id = 0, qp_size = of_nat old\<rparr>))"

lemma array_state_mem [simp]: "array_state N (u\<lparr>u_mem := m\<rparr>) arr = array_state N u arr"
proof -
  have "calib_heap (u\<lparr>u_mem := m\<rparr>) = calib_heap u" by (simp add: calib_heap_def)
  then show ?thesis by (simp only: array_state_def)
qed

lemma array_items:
  assumes "key_valid key = Some True" and "ck_type key = CHERRY_CALIB_VALUE_NUMBER_ARRAY" and "unat (ck_size key) \<le> length d"
  shows "ck_nb_array_items key \<noteq> 0 \<and> convert_items (unat (ck_size key) div unat (ck_nb_array_items key)) d 0 (unat (ck_size key)) =
    Some (take (unat (ck_size key)) d)"
proof -
  let ?sz = "unat (ck_size key) div unat (ck_nb_array_items key)"
  from assms(1,2) have nz: "ck_nb_array_items key \<noteq> 0" and mul: "?sz * unat (ck_nb_array_items key) = unat (ck_size key)"
    and ok: "cherry_calib_key_check_number_size (of_nat ?sz)" by (auto simp: key_valid_def Let_def split: if_splits)
  have "?sz \<le> unat (ck_size key)" by (rule div_le_dividend)
  moreover have "unat (ck_size key) < 256" by (rule order.strict_trans2 [OF unsigned_less]) simp
  ultimately have "unat (of_nat ?sz :: byte) = ?sz" by (intro unat_byte) (rule le_less_trans)
  with number_sizes [OF ok] have "?sz = 1 \<or> ?sz = 2 \<or> ?sz = 4" by auto
  moreover have "?sz dvd unat (ck_size key) - 0" using mul by (metis dvd_triv_left minus_nat.diff_0)
  ultimately show ?thesis using convert_items_same [OF _ assms(3), of ?sz 0] nz by simp
qed

text \<open>The bytes of a key.\<close>

lemma key_data_ready:
  assumes key: "key_ready u N key" and st: "array_state N u arr"
  shows "\<exists>d arr' u'. key_data u arr key = Some (Some (Some d), arr', u') \<and> take (unat (ck_size key)) d = key_value u key \<and>
    unat (ck_size key) \<le> length d \<and> above N u u' \<and> array_state N u' arr' \<and> u_mem u' = u_mem u"
proof -
  consider (number) "ck_type key = CHERRY_CALIB_VALUE_NUMBER" | (array) "ck_type key = CHERRY_CALIB_VALUE_NUMBER_ARRAY"
    | (data) "ck_type key = CHERRY_CALIB_VALUE_DATA"
    using key by (auto simp: key_ready_def key_valid_def split: if_splits)
  then show ?thesis
  proof cases
    case number
    then have "cherry_calib_key_check_number_size (ck_size key)" using key by (simp add: key_ready_def key_valid_def)
    with convert_number number st show ?thesis by (simp add: key_data_def key_value_def above_refl)
  next
    case data
    with key st show ?thesis
      by (auto simp: key_data_def key_value_def above_refl key_ready_def mem_at_def split: option.splits)
  next
    case array
    let ?n = "unat (ck_size key)"
    from key array obtain a d where d: "ck_data key = Some a" "a < N" "kw_data (u_world u) a = Some d" "?n \<le> length d"
      by (auto simp: key_ready_def split: option.splits)
    have "?n < 256" by (rule order.strict_trans2 [OF unsigned_less]) simp
    moreover have "0 < ?n" using key by (simp add: key_ready_def unat_gt_0)
    ultimately have n: "0 < ?n" "?n < 65536" "?n \<le> 255" by simp_all
    from st obtain old where old: "old < 256" "255 \<le> unat (allocation_quotas (calib_heap u) ! 0) + old"
      "unat (allocation_quotas (calib_heap u) ! 0) + old < 2 ^ 32"
      "case arr of None \<Rightarrow> old = 0 | Some a \<Rightarrow> N \<le> a \<and> q_blocks (calib_heap u) a = Some \<lparr>qp_quota_id = 0, qp_size = of_nat old\<rparr>"
      by (auto simp: array_state_def)
    have h: "heap_ok (calib_heap u)" "allocation_quotas (calib_heap u) \<noteq> []" "N \<le> q_next (calib_heap u)"
      "\<forall>i. \<not> q_fails (calib_heap u) i" using st by (simp_all add: array_state_def)
    let ?p = "q_next (calib_heap u)"
    have "case arr of None \<Rightarrow> old = 0 | Some a \<Rightarrow> q_blocks (calib_heap u) a = Some \<lparr>qp_quota_id = 0, qp_size = of_nat old\<rparr>"
      using old(4) by (cases arr) simp_all
    from qrealloc_resize [OF h(1) this n(1,2) _ h(2)] old n(3) h(4) obtain q where
      q: "qrealloc (calib_heap u) arr ?n = Some (Some ?p, q)" "heap_ok q" "q_fails q = q_fails (calib_heap u)"
        "q_next q = Suc ?p" "allocation_quotas q \<noteq> []"
        "unat (allocation_quotas q ! 0) + ?n = unat (allocation_quotas (calib_heap u) ! 0) + old"
        "q_blocks q ?p = Some \<lparr>qp_quota_id = 0, qp_size = of_nat ?n\<rparr>"
        "\<forall>a. a \<noteq> ?p \<and> Some a \<noteq> arr \<longrightarrow> q_blocks q a = q_blocks (calib_heap u) a" by auto
    let ?d = "case arr of None \<Rightarrow> kw_data (u_world u) | Some a \<Rightarrow> (kw_data (u_world u))(a := None)"
    let ?v = "u\<lparr>u_world := (u_world u)\<lparr>kw_heap := q, kw_data := ?d\<rparr>\<rparr>"
    have other: "?d b = kw_data (u_world u) b" if "b < N" for b using that old(4) by (cases arr) auto
    from key array d(4) have "ck_nb_array_items key \<noteq> 0 \<and>
        convert_items (?n div unat (ck_nb_array_items key)) d 0 ?n = Some (take ?n d)"
      by (intro array_items) (simp_all add: key_ready_def)
    then have conv: "cherry_calib_key_convert_number_array ?v key = Some (take ?n d)"
      using d other [OF d(2)] by (simp add: cherry_calib_key_convert_number_array_def mem_at_def)
    have v: "(case arr of None \<Rightarrow> set_calib_heap u q
        | Some a \<Rightarrow> (set_calib_heap u q)\<lparr>u_world := (u_world (set_calib_heap u q))\<lparr>kw_data := (kw_data (u_world (set_calib_heap u q)))(a := None)\<rparr>\<rparr>) = ?v"
      by (cases arr) (simp_all add: set_calib_heap_def)
    let ?w = "set_buf ?v ?p (take ?n d)"
    have "key_data u arr key = Some (Some (Some (take ?n d)), Some ?p, ?w)"
      using array q(1) conv v by (simp add: key_data_def Let_def)
    moreover have "array_state N ?w (Some ?p)"
      using q old(2,3) n h(3,4) by (simp add: array_state_def) (intro exI [of _ ?n]; simp)
    moreover have "above N u ?w"
      unfolding above_def
    proof (intro exI conjI allI impI)
      show "?w = u\<lparr>u_mem := u_mem u, u_world := (u_world u)\<lparr>kw_heap := q, kw_data := ?d(?p \<mapsto> take ?n d)\<rparr>\<rparr>"
        by (simp add: set_buf_def)
    qed (use other q(8) h(3) old(4) in \<open>auto split: option.splits\<close>)
    ultimately show ?thesis using d n array by (simp add: key_value_def mem_at_def set_buf_def)
  qed
qed

lemma mem_at_ready:
  assumes "above N u u'" and "key_ready u N key"
  shows "mem_at u' (ck_name key) = mem_at u (ck_name key)"
    and "ck_type key \<noteq> CHERRY_CALIB_VALUE_NUMBER \<Longrightarrow> mem_at u' (ck_data key) = mem_at u (ck_data key)"
  using assms by (auto simp: key_ready_def intro!: mem_at_above split: option.splits)

lemma calib_entry_above: "above N u u' \<Longrightarrow> key_ready u N key \<Longrightarrow> calib_entry u' key = calib_entry u key"
  by (simp add: calib_entry_def key_name_def key_value_def mem_at_ready)

lemma key_ready_above:
  assumes ab: "above N u u'" and key: "key_ready u N key"
  shows "key_ready u' N key"
proof -
  note data = above_data [OF ab]
  show ?thesis using key by (auto simp: key_ready_def data split: option.splits)
qed

lemma key_ready_mono:
  assumes "key_ready u N key" and "N \<le> M" and data: "kw_data (u_world v) = kw_data (u_world u)"
  shows "key_ready v M key"
  using assms(1,2) by (auto simp: key_ready_def data split: option.splits)

lemma key_ready_name:
  assumes "key_ready u N key"
  shows "\<exists>k. mem_at u (ck_name key) = Some k \<and> name_at k (key_name u key)"
  using assms by (auto simp: key_ready_def mem_at_def key_name_def split: option.splits)

context ample_allocator
begin

lemma put_keys_ready:
  assumes "e_allocator (ke_uci (ce_calib e)) = A" and "inv (u_mem u)"
    and "keys_rep h0 (u_mem u) c as (keys_body n bs)" and "array_state N u arr"
    and "\<forall>i \<in> set is. i < length keys \<and> key_ready u N (keys ! i)"
    and "length bs + length (keys_bytes (map (\<lambda>i. calib_entry u (keys ! i)) is)) < 65534"
  shows "\<exists>u' c' as' arr'. put_calib_keys e u (Some (p, c)) arr keys is = Some (CHERRY_ERR_NONE, u', Some (p, c'), arr') \<and>
    inv (u_mem u') \<and> above N u u' \<and> array_state N u' arr' \<and>
    keys_rep h0 (u_mem u') c' as'
      (keys_body (n + of_nat (length is)) (bs @ keys_bytes (map (\<lambda>i. calib_entry u (keys ! i)) is)))"
  using assms(2-)
proof (induction "is" arbitrary: u c as n bs arr)
  case Nil
  then show ?case by (auto simp: above_refl)
next
  case (Cons i "is")
  let ?key = "keys ! i"
  have key: "i < length keys" "key_ready u N ?key" using Cons.prems(4) by simp_all
  from key_data_ready [OF key(2) Cons.prems(3)] obtain d arr1 v where
    1: "key_data u arr ?key = Some (Some (Some d), arr1, v)" "take (unat (ck_size ?key)) d = key_value u ?key"
      "unat (ck_size ?key) \<le> length d" "above N u v" "array_state N v arr1" "u_mem v = u_mem u" by blast
  from key_ready_name [OF key(2)] obtain k where
    k: "mem_at v (ck_name ?key) = Some k" "name_at k (key_name u ?key)" using mem_at_ready(1) [OF 1(4) key(2)] by auto
  have "ck_size ?key \<noteq> 0" using key(2) by (simp add: key_ready_def)
  moreover have len: "length bs + length (entry_bytes (key_name u ?key) (take (unat (ck_size ?key)) d)) < 65534"
    using Cons.prems(5) by (simp add: 1(2) calib_entry_def)
  ultimately obtain m c1 as1 where
    2: "cherry_uci_client_uwbs_config_set_cmd_put (ce_calib e) v (Some (p, c)) (Some k) (Some d) (ck_size ?key) =
        Some (UCI_STATUS_OK, v\<lparr>u_mem := m\<rparr>, Some (p, c1))" "inv m"
      "keys_rep h0 m c1 as1 (keys_body (n + 1) (bs @ entry_bytes (key_name u ?key) (key_value u ?key)))"
    using put_key [OF assms(1), of v h0 c as n bs k "key_name u ?key" "ck_size ?key" d p] Cons.prems(1,2) 1(2,3,6) k(2)
    by auto
  let ?w = "v\<lparr>u_mem := m\<rparr>"
  have ab: "above N u ?w" using 1(4) above_mem by (rule above_trans)
  have ready: "\<forall>j \<in> set is. j < length keys \<and> key_ready ?w N (keys ! j)"
    using Cons.prems(4) by (auto intro: key_ready_above [OF ab])
  have same: "map (\<lambda>j. calib_entry ?w (keys ! j)) is = map (\<lambda>j. calib_entry u (keys ! j)) is"
    using Cons.prems(4) by (auto intro: calib_entry_above [OF ab])
  have "array_state N ?w arr1" using 1(5) by simp
  moreover have "length (bs @ entry_bytes (key_name u ?key) (key_value u ?key)) +
      length (keys_bytes (map (\<lambda>j. calib_entry ?w (keys ! j)) is)) < 65534"
    unfolding same using Cons.prems(5) by (simp add: calib_entry_def)
  moreover have "inv (u_mem ?w)" "keys_rep h0 (u_mem ?w) c1 as1 (keys_body (n + 1) (bs @ entry_bytes (key_name u ?key) (key_value u ?key)))"
    using 2 by simp_all
  ultimately obtain u' c' as' arr' where
    3: "put_calib_keys e ?w (Some (p, c1)) arr1 keys is = Some (CHERRY_ERR_NONE, u', Some (p, c'), arr')"
      "inv (u_mem u')" "above N ?w u'" "array_state N u' arr'"
      "keys_rep h0 (u_mem u') c' as' (keys_body (n + 1 + of_nat (length is))
        ((bs @ entry_bytes (key_name u ?key) (key_value u ?key)) @ keys_bytes (map (\<lambda>j. calib_entry ?w (keys ! j)) is)))"
    using Cons.IH [OF _ _ _ ready] by blast
  have "put_calib_keys e u (Some (p, c)) arr keys (i # is) = Some (CHERRY_ERR_NONE, u', Some (p, c'), arr')"
    using key(1) 1(1) k(1) 2(1) 3(1) by simp
  with 3 above_trans [OF ab 3(3)] show ?case unfolding same by (auto simp: calib_entry_def add_ac)
qed

end

section \<open>Opening the client\<close>

lemma calib_table_ok: "table_ok calib_rsp_handlers_list"
  by (simp add: table_ok_def calib_rsp_handlers_list_def calib_rsp_handlers_def
      entries_def table_gid_def UCI_MT_GID_OID_def UCI_GID_def UCI_OID_def)

definition calib_table_at :: "'v calib_env \<Rightarrow> 'v kuci \<Rightarrow> bool" where
  "calib_table_at e u \<longleftrightarrow> (\<exists>n d. u_htab u (ke_list e) = Some (calib_rsp_handlers_list\<lparr>mh_next := n, mh_user_data := d\<rparr>))"

text \<open>The state after opening.\<close>

definition calib_opened :: "'v calib_env \<Rightarrow> 'v kuci \<Rightarrow> 'v kuci" where
  "calib_opened e u =
     u\<lparr>u_htab := (u_htab u)(ke_list e \<mapsto> calib_rsp_handlers_list\<lparr>mh_next := u_handlers_head u, mh_user_data := 1\<rparr>),
       u_handlers_head := Some (ke_list e),
       u_known_gid := u_known_gid u OR push_bit (table_gid calib_rsp_handlers_list) 1,
       u_world := (u_world u)\<lparr>kw_heap := snd (qmalloc (kw_heap (u_world u)) sizeof_calib_context),
         kw_context := Some (q_next (kw_heap (u_world u)), (kw_junk (u_world u))\<lparr>kc_sem := 0\<rparr>)\<rparr>\<rparr>"

lemma calib_open_ok:
  assumes at: "calib_table_at e u" and inv: "handlers_inv u ps" and new: "ke_list e \<notin> set ps"
    and mal: "\<not> q_fails (kw_heap (u_world u)) (q_next (kw_heap (u_world u)))"
  shows "cherry_uci_client_calib_open e u = Some (QERR_SUCCESS, calib_opened e u) \<and>
    handlers_inv (calib_opened e u) (ke_list e # ps)"
proof -
  from at obtain n d where t: "u_htab u (ke_list e) = Some (calib_rsp_handlers_list\<lparr>mh_next := n, mh_user_data := d\<rparr>)"
    by (auto simp: calib_table_at_def)
  let ?w = "(u_world u)\<lparr>kw_heap := snd (qmalloc (kw_heap (u_world u)) sizeof_calib_context),
    kw_context := Some (q_next (kw_heap (u_world u)), (kw_junk (u_world u))\<lparr>kc_sem := 0\<rparr>)\<rparr>"
  let ?t = "calib_rsp_handlers_list\<lparr>mh_next := n, mh_user_data := 1\<rparr>"
  define v where "v = u\<lparr>u_world := ?w, u_htab := (u_htab u)(ke_list e \<mapsto> ?t)\<rparr>"
  have i0: "handlers_inv (u\<lparr>u_world := ?w\<rparr>) ps" using inv by (simp add: handlers_inv_def)
  have s: "set_user_data (u\<lparr>u_world := ?w\<rparr>) (ke_list e) 1 = Some v" "handlers_inv v ps"
    using set_user_data_inv [OF _ i0, of "ke_list e" _ 1] t by (simp_all add: v_def)
  have h: "u_htab v (ke_list e) = Some ?t" "table_ok ?t" using calib_table_ok by (simp_all add: v_def)
  have r: "uci_message_handlers_register v (Some (ke_list e)) = Some (registered v (ke_list e) ?t)"
    "handlers_inv (registered v (ke_list e) ?t) (ke_list e # ps)"
    using register_run [OF h] registered_inv [OF s(2) h new] .
  have o: "registered v (ke_list e) ?t = calib_opened e u"
    by (simp add: registered_def v_def calib_opened_def swap_updates)
  obtain q where q: "qmalloc (kw_heap (u_world u)) sizeof_calib_context = (Some (q_next (kw_heap (u_world u))), q)"
    using mal by (simp add: qmalloc_def qmalloc_internal_def)
  have "cherry_uci_client_calib_open e u = Some (QERR_SUCCESS, registered v (ke_list e) ?t)"
    using s(1) r(1) by (simp add: cherry_uci_client_calib_open_def q Let_def)
  with r(2) show ?thesis unfolding o by simp
qed

section \<open>Sending\<close>

lemma keys_valid_ready: "\<forall>i \<in> set is. i < length keys \<and> key_ready u N (keys ! i) \<Longrightarrow> keys_valid keys is = Some True"
  by (induction "is") (simp_all add: key_ready_def)

text \<open>What is needed to send the keys of a calibration.\<close>

definition calib_ready :: "cherry_env \<Rightarrow> cuci \<Rightarrow> cherry_calib \<Rightarrow> bool" where
  "calib_ready e u calib \<longleftrightarrow> cs_transport (kw_rest (u_world u)) \<and> cl_n_keys calib \<noteq> 0 \<and>
     (\<forall>i < unat (cl_n_keys calib). i < length (cl_keys calib) \<and>
        key_ready u (q_next (calib_heap u)) (cl_keys calib ! i)) \<and>
     heap_ok (calib_heap u) \<and> (\<forall>i. \<not> q_fails (calib_heap u) i) \<and> room (calib_heap u) 351"

definition calib_entries :: "cuci \<Rightarrow> cherry_calib \<Rightarrow> (bytes \<times> bytes) list" where
  "calib_entries u calib = map (\<lambda>i. calib_entry u (cl_keys calib ! i)) [0..<unat (cl_n_keys calib)]"

text \<open>The rest of the function after the message was queued.\<close>

definition await_calib :: "cherry_env \<Rightarrow> cuci \<Rightarrow> nat \<Rightarrow> nat option \<Rightarrow> (cherry_err \<times> cuci) option" where
  "await_calib e u p arr =
     do { (ret, u) \<leftarrow> cherry_calib_wait_rsp (ce_calib e) u;
          q \<leftarrow> qfree (kw_heap (u_world u)) (Some p);
          let u = set_calib_heap u q;
          s \<leftarrow> calib_status u ret;
          u \<leftarrow> close_calib e u arr;
          Some (cherry_get_error s, u) }"

text \<open>After opening and creating the command: what was below the next address is as before.\<close>

lemma started:
  assumes q: "heap_ok h" "\<forall>i. \<not> q_fails h i" "room h 351"
  shows "\<exists>h1 h2. qmalloc h sizeof_calib_context = (Some (q_next h), h1) \<and>
    qmalloc h1 sizeof_set_cmd = (Some (Suc (q_next h)), h2) \<and> heap_ok h2 \<and> q_fails h1 = q_fails h \<and>
    q_next h1 = Suc (q_next h) \<and> q_fails h2 = q_fails h \<and> q_next h2 = Suc (Suc (q_next h)) \<and> room h2 255"
proof -
  obtain r1 h1 where 1: "qmalloc h sizeof_calib_context = (r1, h1)" by fastforce
  obtain r2 h2 where 2: "qmalloc h1 sizeof_set_cmd = (r2, h2)" by fastforce
  have r: "r1 = Some (q_next h)" "q_next h1 = Suc (q_next h)"
    using 1 q(2) by (auto simp: qmalloc_def qmalloc_internal_def set_prefix_def charge_def)
  note b1 = qmalloc_blocks [OF q(1) 1]
  then have h1: "heap_ok h1" "q_fails h1 = q_fails h" by simp_all
  note b2 = qmalloc_blocks [OF h1(1) 2]
  have "r2 = Some (Suc (q_next h))" "q_next h2 = Suc (Suc (q_next h))"
    using 2 q(2) r h1(2) by (auto simp: qmalloc_def qmalloc_internal_def set_prefix_def charge_def)
  moreover have "room h1 319" using q(3) 1 by (intro qmalloc_room [OF _ 1]) simp
  then have "room h2 255" by (intro qmalloc_room [OF _ 2]) simp
  ultimately show ?thesis using 1 2 r b2 h1 by simp
qed

lemma opened_inv:
  "tx_inv (calib_opened e u) txs = tx_inv u txs" "rsp_inv (calib_opened e u) txs = rsp_inv u txs"
  "u_mem (calib_opened e u) = u_mem u" "u_locked (calib_opened e u) = u_locked u" "u_tr (calib_opened e u) = u_tr u"
  "kw_data (u_world (calib_opened e u)) = kw_data (u_world u)"
  by (simp_all add: calib_opened_def tx_inv_def rsp_inv_def)

context ample_allocator
begin

text \<open>Up to the message that is ready to be sent.\<close>

lemma calib_prepared:
  assumes e: "e_allocator (ke_uci (ce_calib e)) = A" and inv: "inv (u_mem u)" and ready: "calib_ready e u calib"
    and at: "calib_table_at (ce_calib e) u" and h: "handlers_inv u ps" and new: "ke_list (ce_calib e) \<notin> set ps"
    and len: "length (keys_bytes (calib_entries u calib)) < 65534"
  shows "\<exists>o1 v c w c' as arr. cherry_uci_client_calib_open (ce_calib e) u = Some (QERR_SUCCESS, o1) \<and>
    cherry_uci_client_uwbs_config_set_cmd_create (ce_calib e) o1 = Some (Some (Suc (q_next (calib_heap u)), c), v) \<and>
    put_calib_keys e v (Some (Suc (q_next (calib_heap u)), c)) None (cl_keys calib) [0..<unat (cl_n_keys calib)] =
      Some (CHERRY_ERR_NONE, w, Some (Suc (q_next (calib_heap u)), c'), arr) \<and>
    keys_valid (cl_keys calib) [0..<unat (cl_n_keys calib)] = Some True \<and> inv (u_mem w) \<and>
    keys_rep (heap (u_mem u)) (u_mem w) c' as (keys_body (of_nat (unat (cl_n_keys calib))) (keys_bytes (calib_entries u calib))) \<and>
    (\<forall>txs. tx_inv (w\<lparr>u_mem := u_mem u\<rparr>) txs = tx_inv u txs) \<and> (\<forall>txs. rsp_inv (w\<lparr>u_mem := u_mem u\<rparr>) txs = rsp_inv u txs) \<and>
    u_locked w = u_locked u \<and> u_tr w = u_tr u \<and> handlers_inv w (ke_list (ce_calib e) # ps)"
proof -
  let ?n = "unat (cl_n_keys calib)" and ?keys = "cl_keys calib" and ?h = "calib_heap u"
  let ?o = "calib_opened (ce_calib e) u"
  from ready have q: "heap_ok ?h" "\<forall>i. \<not> q_fails ?h i" "room ?h 351"
    and keys: "\<forall>i < ?n. i < length ?keys \<and> key_ready u (q_next ?h) (?keys ! i)" by (simp_all add: calib_ready_def)
  from started [OF q] obtain h1 h2 where
    hs: "qmalloc ?h sizeof_calib_context = (Some (q_next ?h), h1)" "qmalloc h1 sizeof_set_cmd = (Some (Suc (q_next ?h)), h2)"
      "heap_ok h2" "q_fails h1 = q_fails ?h" "q_next h1 = Suc (q_next ?h)" "q_fails h2 = q_fails ?h"
      "q_next h2 = Suc (Suc (q_next ?h))" "room h2 255" by blast
  have ho: "kw_heap (u_world ?o) = h1" using hs(1) by (simp add: calib_opened_def calib_heap_def)
  from calib_open_ok [OF at h new] q(2) have
    o: "cherry_uci_client_calib_open (ce_calib e) u = Some (QERR_SUCCESS, ?o)" "handlers_inv ?o (ke_list (ce_calib e) # ps)"
    by (simp_all add: calib_heap_def)
  have "kw_context (u_world ?o) \<noteq> None" "inv (u_mem ?o)" "\<not> q_fails (kw_heap (u_world ?o)) (q_next (kw_heap (u_world ?o)))"
    using inv q(2) hs(4) ho by (simp_all add: calib_opened_def)
  from create_keys [OF e this(2,1,3)] obtain c m as where
    c: "cherry_uci_client_uwbs_config_set_cmd_create (ce_calib e) ?o =
        Some (Some (Suc (q_next ?h), c), set_calib_heap (?o\<lparr>u_mem := m\<rparr>) h2)" "inv m"
      "keys_rep (heap (u_mem u)) m c as (keys_body 0 [])"
    using hs(2,5) ho by (auto simp: opened_inv(3))
  define v where "v = set_calib_heap (?o\<lparr>u_mem := m\<rparr>) h2"
  let ?N = "q_next h2"
  have v: "u_mem v = m" "calib_heap v = h2" "kw_data (u_world v) = kw_data (u_world u)"
    by (simp_all add: v_def set_calib_heap_def calib_heap_def opened_inv(6))
  have kr: "key_ready v ?N (?keys ! i)" if "i < ?n" for i
  proof (rule key_ready_mono [OF _ _ v(3)])
    show "key_ready u (q_next ?h) (?keys ! i)" using keys that by blast
  qed (simp add: hs(7))
  have same: "map (\<lambda>i. calib_entry v (?keys ! i)) [0..<?n] = calib_entries u calib"
    by (simp add: calib_entries_def calib_entry_def key_name_def key_value_def mem_at_def v(3))
  have "unat (allocation_quotas h2 ! 0) < 2 ^ 32" by (rule order.strict_trans2 [OF unsigned_less]) simp
  then have st: "array_state ?N v None" using hs(3,6,8) q(2) by (simp add: array_state_def v(2) room_def)
  have idx: "\<forall>i \<in> set [0..<?n]. i < length ?keys \<and> key_ready v ?N (?keys ! i)" using kr keys by simp
  have "keys_rep (heap (u_mem u)) (u_mem v) c as (keys_body 0 [])" "inv (u_mem v)" using c v(1) by simp_all
  from put_keys_ready [OF e this(2,1) st idx, of "Suc (q_next ?h)"] len same obtain w c' as' arr where
    w: "put_calib_keys e v (Some (Suc (q_next ?h), c)) None ?keys [0..<?n] = Some (CHERRY_ERR_NONE, w, Some (Suc (q_next ?h), c'), arr)"
      "inv (u_mem w)" "above ?N v w" "array_state ?N w arr"
      "keys_rep (heap (u_mem u)) (u_mem w) c' as' (keys_body (of_nat ?n) (keys_bytes (calib_entries u calib)))" by auto
  have "tx_inv (w\<lparr>u_mem := u_mem u\<rparr>) txs = tx_inv u txs" "rsp_inv (w\<lparr>u_mem := u_mem u\<rparr>) txs = rsp_inv u txs" for txs
    using w(3) by (auto simp: above_def v_def set_calib_heap_def calib_opened_def tx_inv_def rsp_inv_def)
  moreover have "u_locked w = u_locked u" "u_tr w = u_tr u" "handlers_inv w (ke_list (ce_calib e) # ps)"
    using w(3) o(2) by (auto simp: above_def v_def set_calib_heap_def calib_opened_def handlers_inv_def)
  ultimately show ?thesis using o(1) c(1) w(1,2,5) keys_valid_ready [OF idx] unfolding v_def [symmetric] by blast
qed

lemma calib_sent:
  assumes e: "e_allocator (ke_uci (ce_calib e)) = A" and inv: "inv (u_mem u)" and ready: "calib_ready e u calib"
    and at: "calib_table_at (ce_calib e) u" and h: "handlers_inv u ps" and new: "ke_list (ce_calib e) \<notin> set ps"
    and tx: "tx_inv u txs" and rsp: "rsp_inv u txs" and un: "\<not> u_locked u" and tr: "u_tr u \<noteq> None"
    and len: "length (keys_bytes (calib_entries u calib)) < 65534" and cnt: "unat (cl_n_keys calib) < 65536"
  shows "\<exists>u' as arr. cherry_send_calib e u calib = do {
      u1 \<leftarrow> packet_send_ready (ke_uci (ce_calib e)) u'; await_calib e u1 (Suc (q_next (calib_heap u))) arr } \<and>
    inv (u_mem u') \<and> tx_inv u' (txs @ as) \<and> rsp_inv u' (txs @ as) \<and> handlers_inv u' (ke_list (ce_calib e) # ps) \<and>
    wires (heap (u_mem u')) (txs @ as) = wires (heap (u_mem u)) txs @
      segment (UCI_MT_GID_OID UCI_MESSAGE_TYPE_COMMAND UCI_GID_QORVO_MAC UCI_OID_QORVO_MAC_SET_CALIBRATIONS)
        (keys_body (ucast (cl_n_keys calib)) (keys_bytes (calib_entries u calib)))"
proof -
  let ?n = "unat (cl_n_keys calib)" and ?p = "Suc (q_next (calib_heap u))"
  from ready have tr': "cs_transport (kw_rest (u_world u))" and n0: "cl_n_keys calib \<noteq> 0" by (simp_all add: calib_ready_def)
  from calib_prepared [OF e inv ready at h new len] obtain o1 v c w c' as arr where
    p: "cherry_uci_client_calib_open (ce_calib e) u = Some (QERR_SUCCESS, o1)"
      "cherry_uci_client_uwbs_config_set_cmd_create (ce_calib e) o1 = Some (Some (?p, c), v)"
      "put_calib_keys e v (Some (?p, c)) None (cl_keys calib) [0..<?n] = Some (CHERRY_ERR_NONE, w, Some (?p, c'), arr)"
      "keys_valid (cl_keys calib) [0..<?n] = Some True" "inv (u_mem w)"
      "keys_rep (heap (u_mem u)) (u_mem w) c' as (keys_body (of_nat ?n) (keys_bytes (calib_entries u calib)))"
      "\<forall>txs. tx_inv (w\<lparr>u_mem := u_mem u\<rparr>) txs = tx_inv u txs" "\<forall>txs. rsp_inv (w\<lparr>u_mem := u_mem u\<rparr>) txs = rsp_inv u txs"
      "u_locked w = u_locked u" "u_tr w = u_tr u" "handlers_inv w (ke_list (ce_calib e) # ps)" by blast
  let ?w = "w\<lparr>u_mem := u_mem u\<rparr>"
  have vi: "tx_inv ?w txs" "rsp_inv ?w txs" "\<not> u_locked ?w" "u_tr ?w \<noteq> None" using p(7-10) tx rsp un tr by simp_all
  have n16: "(of_nat ?n :: 16 word) \<noteq> 0"
    using n0 cnt by (metis unat_word unat_eq_zero unsigned_0)
  have "keys_rep (heap (u_mem ?w)) (u_mem w) c' as (keys_body (of_nat ?n) (keys_bytes (calib_entries u calib)))"
    using p(6) by simp
  from send_keys [OF e p(5) this n16 vi(1,2) len vi(3,4), of ?p] obtain u' m' tx' r where
    s: "cherry_uci_client_uwbs_config_set_cmd_send (ce_calib e) (?w\<lparr>u_mem := u_mem w\<rparr>) (Some (?p, c')) =
      do { u \<leftarrow> packet_send_ready (ke_uci (ce_calib e)) u'; (ret, u) \<leftarrow> cherry_calib_wait_rsp (ce_calib e) u;
           q \<leftarrow> qfree (kw_heap (u_world u)) (Some ?p); let u = set_calib_heap u q;
           s \<leftarrow> calib_status u ret; Some (s, u) }"
      "u' = ?w\<lparr>u_mem := m', u_tx := tx', u_tx_last := last_ptr as, u_rsp_blk := r\<rparr>" "inv m'" "tx_inv u' (txs @ as)"
      "rsp_inv u' (txs @ as)"
      "wires (heap m') (txs @ as) = wires (heap (u_mem ?w)) txs @
        segment (UCI_MT_GID_OID UCI_MESSAGE_TYPE_COMMAND UCI_GID_QORVO_MAC UCI_OID_QORVO_MAC_SET_CALIBRATIONS)
          (keys_body (of_nat ?n) (keys_bytes (calib_entries u calib)))" by blast
  have "cherry_send_calib e u calib = do {
      u1 \<leftarrow> packet_send_ready (ke_uci (ce_calib e)) u'; await_calib e u1 (Suc (q_next (calib_heap u))) arr }"
    using tr' n0 p(1-4) s(1) by (simp add: cherry_send_calib_def Let_def await_calib_def case_prod_beta')
  moreover have "handlers_inv u' (ke_list (ce_calib e) # ps)" using p(11) s(2) by (simp add: handlers_inv_def)
  moreover have "(of_nat ?n :: 16 word) = ucast (cl_n_keys calib)" by simp
  ultimately show ?thesis using s(2-6)
    by (intro exI [of _ u'] exI [of _ as] exI [of _ arr]) simp
qed

end

end
