(* ===== verification/Config_Yaml.thy ===== *)
theory Config_Yaml
  imports Prelude
begin

text \<open>
  Loading a YAML document event by event (\<^verbatim>\<open>loader.c\<close>): a stack of nodes, each of which consumes the events
  until it leaves, and the nodes for scalars. The parser of the events is a library: it is the list of its
  results, after which it gives no more events. The string of a scalar is its value as the code reads it, as a C
  string up to the first NUL; its length is never used.
\<close>

section \<open>Statuses and events\<close>

datatype uwbs_config_status =
    CONFIG_OK | CONFIG_INVALID_ARG | CONFIG_INTERNAL_ERROR | CONFIG_INVALID_KEY | CONFIG_INVALID_FMT | CONFIG_OOM
  | CONFIG_COUNTRY_CODE_NOT_FOUND

datatype yaml_event =
    Stream_Start | Stream_End | Document_Start | Document_End | Alias | Scalar string
  | Sequence_Start | Sequence_End | Mapping_Start | Mapping_End

section \<open>Numbers in strings\<close>

text \<open>
  \<open>strtoll\<close> and \<open>strtoul\<close> with base 0: white space, a sign, a prefix, digits. The result is the number, saturated,
  and the rest of the string; without digits nothing is consumed.
\<close>

definition is_space :: "char \<Rightarrow> bool" where
  "is_space c \<longleftrightarrow> of_char c \<in> {9, 10, 11, 12, 13, 32 :: nat}"

definition digit_value :: "char \<Rightarrow> nat option" where
  "digit_value c =
     (let n = of_char c :: nat
      in if 48 \<le> n \<and> n \<le> 57 then Some (n - 48)
         else if 97 \<le> n \<and> n \<le> 122 then Some (n - 87)
         else if 65 \<le> n \<and> n \<le> 90 then Some (n - 55)
         else None)"

definition is_digit :: "nat \<Rightarrow> char \<Rightarrow> bool" where
  "is_digit base c \<longleftrightarrow> (case digit_value c of None \<Rightarrow> False | Some d \<Rightarrow> d < base)"

definition digits_value :: "nat \<Rightarrow> string \<Rightarrow> nat" where
  "digits_value base ds = foldl (\<lambda>n c. n * base + the (digit_value c)) 0 ds"

definition number_base :: "string \<Rightarrow> nat \<times> string" where
  "number_base s =
     (case s of
        c # x # d # _ \<Rightarrow>
          if c = CHR ''0'' \<and> (x = CHR ''x'' \<or> x = CHR ''X'') \<and> is_digit 16 d then (16, drop 2 s)
          else if c = CHR ''0'' then (8, s) else (10, s)
      | c # _ \<Rightarrow> if c = CHR ''0'' then (8, s) else (10, s)
      | [] \<Rightarrow> (10, s))"

text \<open>The sign, the absolute value and the rest.\<close>

definition scan_number :: "string \<Rightarrow> (bool \<times> nat \<times> string) option" where
  "scan_number str =
     (let s = dropWhile is_space str;
          neg = (s \<noteq> [] \<and> hd s = CHR ''-'');
          s = (if s \<noteq> [] \<and> (hd s = CHR ''-'' \<or> hd s = CHR ''+'') then tl s else s);
          (base, s) = number_base s;
          ds = takeWhile (is_digit base) s
      in if ds = [] then None else Some (neg, digits_value base ds, drop (length ds) s))"

definition strtoll :: "string \<Rightarrow> int \<times> string" where
  "strtoll str =
     (case scan_number str of
        None \<Rightarrow> (0, str)
      | Some (neg, n, rest) \<Rightarrow>
          (let v = (if neg then - int n else int n) in (max (- (2 ^ 63)) (min (2 ^ 63 - 1) v), rest)))"

definition strtoul :: "string \<Rightarrow> nat \<times> string" where
  "strtoul str =
     (case scan_number str of
        None \<Rightarrow> (0, str)
      | Some (neg, n, rest) \<Rightarrow>
          (if n \<ge> 2 ^ 64 then 2 ^ 64 - 1 else if neg then (2 ^ 64 - n) mod 2 ^ 64 else n, rest))"

section \<open>The stack of nodes\<close>

definition NODE_STACK_SIZE :: nat where
  "NODE_STACK_SIZE = 10"

text \<open>
  A node: the function that consumes its events (for the nodes of this file a constructor each, for those of
  a loader \<open>Node\<close>) with its data, for a scalar the place where it is stored. The head of the list is the top
  of the stack.
\<close>

datatype ('h, 'p) yaml_node =
  Stream_Node | Skip_Node | Skip_Scalar_Node | String_Node 'p | Uint8_Node 'p | Uint32_Node 'p | Int64_Node 'p | Node 'h

record ('h, 'p) yaml_ctx =
  node_stack :: "('h, 'p) yaml_node list"
  skip_depth :: nat

text \<open>What a scalar node stores.\<close>

datatype yaml_value = String_Value "string option" | Number_Value int

text \<open>
  A loader: its nodes, the node of a document, storing through a pointer, and the memory for strings
  (the result says whether there is enough).
\<close>

record ('h, 'p, 'w) yaml_loader =
  yl_consume :: "'h \<Rightarrow> yaml_event \<Rightarrow> ('h, 'p) yaml_ctx \<Rightarrow> 'w \<Rightarrow> (uwbs_config_status \<times> ('h, 'p) yaml_ctx \<times> 'w) option"
  yl_root :: 'h
  yl_store :: "'p \<Rightarrow> yaml_value \<Rightarrow> 'w \<Rightarrow> 'w"
  yl_alloc :: "'w \<Rightarrow> bool \<times> 'w"

type_synonym ('h, 'p, 'w) node_step = "(uwbs_config_status \<times> ('h, 'p) yaml_ctx \<times> 'w) option"

definition uwbs_config_yaml_init :: "('h, 'p) yaml_ctx" where
  "uwbs_config_yaml_init = \<lparr>node_stack = [], skip_depth = 0\<rparr>"

definition uwbs_config_yaml_enter_node ::
    "('h, 'p) yaml_ctx \<Rightarrow> ('h, 'p) yaml_node \<Rightarrow> uwbs_config_status \<times> ('h, 'p) yaml_ctx" where
  "uwbs_config_yaml_enter_node ctx n =
     (if length (node_stack ctx) = NODE_STACK_SIZE then (CONFIG_INTERNAL_ERROR, ctx)
      else (CONFIG_OK, ctx\<lparr>node_stack := n # node_stack ctx\<rparr>))"

text \<open>Leaving an empty stack fails an assertion.\<close>

definition uwbs_config_yaml_leave_node :: "('h, 'p) yaml_ctx \<Rightarrow> ('h, 'p) yaml_ctx option" where
  "uwbs_config_yaml_leave_node ctx =
     (case node_stack ctx of [] \<Rightarrow> None | _ # ns \<Rightarrow> Some (ctx\<lparr>node_stack := ns\<rparr>))"

definition enter :: "('h, 'p) yaml_ctx \<Rightarrow> ('h, 'p) yaml_node \<Rightarrow> 'w \<Rightarrow> ('h, 'p, 'w) node_step" where
  "enter ctx n w = (let (st, ctx) = uwbs_config_yaml_enter_node ctx n in Some (st, ctx, w))"

definition leave :: "uwbs_config_status \<Rightarrow> ('h, 'p) yaml_ctx \<Rightarrow> 'w \<Rightarrow> ('h, 'p, 'w) node_step" where
  "leave st ctx w = do { ctx \<leftarrow> uwbs_config_yaml_leave_node ctx; Some (st, ctx, w) }"

section \<open>Nodes\<close>

definition uwbs_config_yaml_skip_node_consume_event :: "yaml_event \<Rightarrow> ('h, 'p) yaml_ctx \<Rightarrow> 'w \<Rightarrow> ('h, 'p, 'w) node_step" where
  "uwbs_config_yaml_skip_node_consume_event event ctx w =
     (case event of
        Sequence_Start \<Rightarrow> Some (CONFIG_OK, ctx\<lparr>skip_depth := size_add (skip_depth ctx) 1\<rparr>, w)
      | Mapping_Start \<Rightarrow> Some (CONFIG_OK, ctx\<lparr>skip_depth := size_add (skip_depth ctx) 1\<rparr>, w)
      | Sequence_End \<Rightarrow>
          (let ctx = ctx\<lparr>skip_depth := size_sub (skip_depth ctx) 1\<rparr>
           in if skip_depth ctx = 0 then leave CONFIG_OK ctx w else Some (CONFIG_OK, ctx, w))
      | Mapping_End \<Rightarrow>
          (let ctx = ctx\<lparr>skip_depth := size_sub (skip_depth ctx) 1\<rparr>
           in if skip_depth ctx = 0 then leave CONFIG_OK ctx w else Some (CONFIG_OK, ctx, w))
      | _ \<Rightarrow> Some (CONFIG_OK, ctx, w))"

definition uwbs_config_yaml_skip_node :: "('h, 'p) yaml_ctx \<Rightarrow> 'w \<Rightarrow> ('h, 'p, 'w) node_step" where
  "uwbs_config_yaml_skip_node ctx w = enter (ctx\<lparr>skip_depth := 0\<rparr>) Skip_Node w"

definition uwbs_config_yaml_skip_scalar_consume_event :: "yaml_event \<Rightarrow> ('h, 'p) yaml_ctx \<Rightarrow> 'w \<Rightarrow> ('h, 'p, 'w) node_step" where
  "uwbs_config_yaml_skip_scalar_consume_event event ctx w =
     (case event of Scalar _ \<Rightarrow> leave CONFIG_OK ctx w | _ \<Rightarrow> Some (CONFIG_OK, ctx, w))"

definition uwbs_config_yaml_skip_scalar :: "('h, 'p) yaml_ctx \<Rightarrow> 'w \<Rightarrow> ('h, 'p, 'w) node_step" where
  "uwbs_config_yaml_skip_scalar ctx w = enter ctx Skip_Scalar_Node w"

definition uwbs_config_yaml_string_node_consume_event ::
    "('h, 'p, 'w) yaml_loader \<Rightarrow> 'p \<Rightarrow> yaml_event \<Rightarrow> ('h, 'p) yaml_ctx \<Rightarrow> 'w \<Rightarrow> ('h, 'p, 'w) node_step" where
  "uwbs_config_yaml_string_node_consume_event l p event ctx w =
     (case event of
        Scalar s \<Rightarrow>
          (let (ok, w) = yl_alloc l w;
               w = yl_store l p (String_Value (if ok then Some s else None)) w
           in leave (if ok then CONFIG_OK else CONFIG_INTERNAL_ERROR) ctx w)
      | _ \<Rightarrow> Some (CONFIG_INTERNAL_ERROR, ctx, w))"

text \<open>The pointer must not point to a string yet.\<close>

definition uwbs_config_yaml_enter_string_node ::
    "('h, 'p) yaml_ctx \<Rightarrow> string option \<Rightarrow> 'p \<Rightarrow> 'w \<Rightarrow> ('h, 'p, 'w) node_step" where
  "uwbs_config_yaml_enter_string_node ctx str p w =
     (if str \<noteq> None then Some (CONFIG_INTERNAL_ERROR, ctx, w) else enter ctx (String_Node p) w)"

text \<open>The number is stored before it is looked at. The value is stored as 32 bits.\<close>

definition uwbs_config_yaml_uint8_node_consume_event ::
    "('h, 'p, 'w) yaml_loader \<Rightarrow> 'p \<Rightarrow> yaml_event \<Rightarrow> ('h, 'p) yaml_ctx \<Rightarrow> 'w \<Rightarrow> ('h, 'p, 'w) node_step" where
  "uwbs_config_yaml_uint8_node_consume_event l p event ctx w =
     (case event of
        Scalar str \<Rightarrow>
          (let (v, rest) = strtoul str;
               n = v mod 2 ^ 32;
               w = yl_store l p (Number_Value (int n)) w
           in if n > 255 then Some (CONFIG_INVALID_FMT, ctx, w)
              else leave (if rest \<noteq> str \<and> rest = [] then CONFIG_OK else CONFIG_INTERNAL_ERROR) ctx w)
      | _ \<Rightarrow> Some (CONFIG_INTERNAL_ERROR, ctx, w))"

definition uwbs_config_yaml_uint32_node_consume_event ::
    "('h, 'p, 'w) yaml_loader \<Rightarrow> 'p \<Rightarrow> yaml_event \<Rightarrow> ('h, 'p) yaml_ctx \<Rightarrow> 'w \<Rightarrow> ('h, 'p, 'w) node_step" where
  "uwbs_config_yaml_uint32_node_consume_event l p event ctx w =
     (case event of
        Scalar str \<Rightarrow>
          (let (v, rest) = strtoul str;
               w = yl_store l p (Number_Value (int (v mod 2 ^ 32))) w
           in leave (if rest \<noteq> str \<and> rest = [] then CONFIG_OK else CONFIG_INTERNAL_ERROR) ctx w)
      | _ \<Rightarrow> Some (CONFIG_INTERNAL_ERROR, ctx, w))"

definition uwbs_config_yaml_int64_node_consume_event ::
    "('h, 'p, 'w) yaml_loader \<Rightarrow> 'p \<Rightarrow> yaml_event \<Rightarrow> ('h, 'p) yaml_ctx \<Rightarrow> 'w \<Rightarrow> ('h, 'p, 'w) node_step" where
  "uwbs_config_yaml_int64_node_consume_event l p event ctx w =
     (case event of
        Scalar str \<Rightarrow>
          (let (v, rest) = strtoll str;
               w = yl_store l p (Number_Value v) w
           in leave (if rest \<noteq> str \<and> rest = [] then CONFIG_OK else CONFIG_INTERNAL_ERROR) ctx w)
      | _ \<Rightarrow> Some (CONFIG_INTERNAL_ERROR, ctx, w))"

definition uwbs_config_yaml_stream_consume_event ::
    "('h, 'p, 'w) yaml_loader \<Rightarrow> yaml_event \<Rightarrow> ('h, 'p) yaml_ctx \<Rightarrow> 'w \<Rightarrow> ('h, 'p, 'w) node_step" where
  "uwbs_config_yaml_stream_consume_event l event ctx w =
     (case event of
        Stream_Start \<Rightarrow> Some (CONFIG_OK, ctx, w)
      | Stream_End \<Rightarrow> leave CONFIG_OK ctx w
      | Document_Start \<Rightarrow> enter ctx (Node (yl_root l)) w
      | Document_End \<Rightarrow> Some (CONFIG_OK, ctx, w)
      | _ \<Rightarrow> Some (CONFIG_INTERNAL_ERROR, ctx, w))"

definition consume_node ::
    "('h, 'p, 'w) yaml_loader \<Rightarrow> ('h, 'p) yaml_node \<Rightarrow> yaml_event \<Rightarrow> ('h, 'p) yaml_ctx \<Rightarrow> 'w \<Rightarrow> ('h, 'p, 'w) node_step" where
  "consume_node l n event ctx w =
     (case n of
        Stream_Node \<Rightarrow> uwbs_config_yaml_stream_consume_event l event ctx w
      | Skip_Node \<Rightarrow> uwbs_config_yaml_skip_node_consume_event event ctx w
      | Skip_Scalar_Node \<Rightarrow> uwbs_config_yaml_skip_scalar_consume_event event ctx w
      | String_Node p \<Rightarrow> uwbs_config_yaml_string_node_consume_event l p event ctx w
      | Uint8_Node p \<Rightarrow> uwbs_config_yaml_uint8_node_consume_event l p event ctx w
      | Uint32_Node p \<Rightarrow> uwbs_config_yaml_uint32_node_consume_event l p event ctx w
      | Int64_Node p \<Rightarrow> uwbs_config_yaml_int64_node_consume_event l p event ctx w
      | Node h \<Rightarrow> yl_consume l h event ctx w)"

definition uwbs_config_yaml_consume_event ::
    "('h, 'p, 'w) yaml_loader \<Rightarrow> yaml_event \<Rightarrow> ('h, 'p) yaml_ctx \<Rightarrow> 'w \<Rightarrow> ('h, 'p, 'w) node_step" where
  "uwbs_config_yaml_consume_event l event ctx w =
     (case node_stack ctx of [] \<Rightarrow> None | n # _ \<Rightarrow> consume_node l n event ctx w)"

text \<open>The loop over the results of the parser: None is a syntax error.\<close>

fun yaml_events ::
    "('h, 'p, 'w) yaml_loader \<Rightarrow> yaml_event option list \<Rightarrow> ('h, 'p) yaml_ctx \<Rightarrow> 'w \<Rightarrow> ('h, 'p, 'w) node_step" where
  "yaml_events l [] ctx w = Some (CONFIG_OK, ctx, w)"
| "yaml_events l (None # _) ctx w = Some (CONFIG_INVALID_FMT, ctx, w)"
| "yaml_events l (Some event # events) ctx w =
     do {
       (st, ctx, w) \<leftarrow> uwbs_config_yaml_consume_event l event ctx w;
       if st = CONFIG_OK then yaml_events l events ctx w else Some (st, ctx, w)
     }"

definition uwbs_config_yaml_load_loop ::
    "('h, 'p, 'w) yaml_loader \<Rightarrow> yaml_event option list \<Rightarrow> ('h, 'p) yaml_ctx \<Rightarrow> 'w \<Rightarrow> ('h, 'p, 'w) node_step" where
  "uwbs_config_yaml_load_loop l events ctx w =
     yaml_events l events (snd (uwbs_config_yaml_enter_node ctx Stream_Node)) w"

text \<open>
  Loading: \<open>input\<close> is what the parser gives for the text, None when it cannot be initialised; for a file, the
  inner None is a file that cannot be opened.
\<close>

definition uwbs_config_yaml_load_str ::
    "('h, 'p, 'w) yaml_loader \<Rightarrow> yaml_event option list option \<Rightarrow> ('h, 'p) yaml_ctx \<Rightarrow> 'w \<Rightarrow> ('h, 'p, 'w) node_step" where
  "uwbs_config_yaml_load_str l input ctx w =
     (case input of
        None \<Rightarrow> Some (CONFIG_INTERNAL_ERROR, ctx, w)
      | Some events \<Rightarrow> uwbs_config_yaml_load_loop l events ctx w)"

definition uwbs_config_yaml_load_file ::
    "('h, 'p, 'w) yaml_loader \<Rightarrow> yaml_event option list option option \<Rightarrow> ('h, 'p) yaml_ctx \<Rightarrow> 'w \<Rightarrow> ('h, 'p, 'w) node_step" where
  "uwbs_config_yaml_load_file l input ctx w =
     (case input of
        None \<Rightarrow> Some (CONFIG_INTERNAL_ERROR, ctx, w)
      | Some None \<Rightarrow> Some (CONFIG_INVALID_ARG, ctx, w)
      | Some (Some events) \<Rightarrow> uwbs_config_yaml_load_loop l events ctx w)"

section \<open>Runs of events\<close>

text \<open>A run that ends without an error.\<close>

definition consumes ::
    "('h, 'p, 'w) yaml_loader \<Rightarrow> yaml_event list \<Rightarrow> ('h, 'p) yaml_ctx \<Rightarrow> 'w \<Rightarrow> ('h, 'p, 'w) node_step" where
  "consumes l events ctx w = yaml_events l (map Some events) ctx w"

lemma consumes_Nil [simp]: "consumes l [] ctx w = Some (CONFIG_OK, ctx, w)"
  by (simp add: consumes_def)

lemma consumes_Cons:
  "consumes l (e # es) ctx w =
     do { (st, ctx, w) \<leftarrow> uwbs_config_yaml_consume_event l e ctx w;
          if st = CONFIG_OK then consumes l es ctx w else Some (st, ctx, w) }"
  unfolding consumes_def by simp

lemma consumes_append:
  "consumes l (es @ es') ctx w =
     do { (st, ctx, w) \<leftarrow> consumes l es ctx w; if st = CONFIG_OK then consumes l es' ctx w else Some (st, ctx, w) }"
proof (induction es arbitrary: ctx w)
  case (Cons e es)
  show ?case
    by (cases "uwbs_config_yaml_consume_event l e ctx w") (auto simp: consumes_Cons Cons.IH)
qed simp

lemma consumes_ok: "consumes l es ctx w = Some (CONFIG_OK, ctx', w') \<Longrightarrow> consumes l (es @ es') ctx w = consumes l es' ctx' w'"
  by (simp add: consumes_append)

lemma consumes_step:
  "node_stack ctx = n # ns \<Longrightarrow> consume_node l n e ctx w = Some (CONFIG_OK, ctx', w') \<Longrightarrow>
     consumes l (e # es) ctx w = consumes l es ctx' w'"
  by (simp add: consumes_Cons uwbs_config_yaml_consume_event_def)

lemma consumes_stop:
  "node_stack ctx = n # ns \<Longrightarrow> consume_node l n e ctx w = Some (st, ctx', w') \<Longrightarrow> st \<noteq> CONFIG_OK \<Longrightarrow>
     consumes l (e # es) ctx w = Some (st, ctx', w')"
  by (simp add: consumes_Cons uwbs_config_yaml_consume_event_def)

lemma enter_room [simp]:
  "length (node_stack ctx) < NODE_STACK_SIZE \<Longrightarrow> enter ctx n w = Some (CONFIG_OK, ctx\<lparr>node_stack := n # node_stack ctx\<rparr>, w)"
  by (simp add: enter_def uwbs_config_yaml_enter_node_def)

lemma leave_top [simp]: "node_stack ctx = n # ns \<Longrightarrow> leave st ctx w = Some (st, ctx\<lparr>node_stack := ns\<rparr>, w)"
  by (simp add: leave_def uwbs_config_yaml_leave_node_def)

end
