(* ===== verification/Config_Model.thy ===== *)
theory Config_Model
  imports Config_Yaml
begin

text \<open>
  The model of a configuration (\<^verbatim>\<open>model.c\<close>, \<^verbatim>\<open>vector.c\<close>): a tree of definitions with their properties, what is
  looked up in it, and the vectors that hold its parts. A model does not change while a configuration is loaded.
\<close>

section \<open>Vectors\<close>

text \<open>The elements of the array, with its capacity. The schedule says which calls of \<open>realloc\<close> and \<open>malloc\<close> fail.\<close>

datatype 'a vector = Vector (vec_arr: "'a list") (vec_capacity: nat)

definition VECTOR_INC_STEP :: nat where
  "VECTOR_INC_STEP = 8"

definition VECTOR_INIT_STATIC :: "'a vector" where
  "VECTOR_INIT_STATIC = Vector [] 0"

definition vec_size :: "'a vector \<Rightarrow> nat" where
  "vec_size v = length (vec_arr v)"

text \<open>\<open>ok\<close> is whether the memory can be had.\<close>

definition uwbs_config_vector_reserve :: "'a vector \<Rightarrow> nat \<Rightarrow> bool \<Rightarrow> bool \<times> 'a vector" where
  "uwbs_config_vector_reserve v new_capacity ok =
     (if new_capacity \<le> vec_capacity v then (True, v)
      else if ok then
        (True, Vector (vec_arr v) ((new_capacity + VECTOR_INC_STEP - 1) div VECTOR_INC_STEP * VECTOR_INC_STEP))
      else (False, v))"

definition uwbs_config_vector_resize :: "'a vector \<Rightarrow> nat \<Rightarrow> 'a \<Rightarrow> bool \<Rightarrow> bool \<times> 'a vector" where
  "uwbs_config_vector_resize v new_size x ok =
     (case uwbs_config_vector_reserve v new_size ok of
        (False, v) \<Rightarrow> (False, v)
      | (True, v) \<Rightarrow>
          (True, Vector (take new_size (vec_arr v) @ replicate (new_size - vec_size v) x) (vec_capacity v)))"

text \<open>Whether the next growth asks for memory.\<close>

definition vector_full :: "'a vector \<Rightarrow> bool" where
  "vector_full v \<longleftrightarrow> vec_capacity v < vec_size v + 1"

definition upd_back :: "('a \<Rightarrow> 'a) \<Rightarrow> 'a vector \<Rightarrow> 'a vector" where
  "upd_back f v = Vector (butlast (vec_arr v) @ [f (last (vec_arr v))]) (vec_capacity v)"

definition upd_at :: "nat \<Rightarrow> ('a \<Rightarrow> 'a) \<Rightarrow> 'a vector \<Rightarrow> 'a vector" where
  "upd_at i f v = Vector ((vec_arr v)[i := f (vec_arr v ! i)]) (vec_capacity v)"

definition vector_ok :: "'a vector \<Rightarrow> bool" where
  "vector_ok v \<longleftrightarrow> vec_size v \<le> vec_capacity v \<and> VECTOR_INC_STEP dvd vec_capacity v"

lemma reserve_ok:
  assumes "vector_ok v" and "uwbs_config_vector_reserve v n ok = (r, v')"
  shows "vector_ok v' \<and> vec_arr v' = vec_arr v \<and> (r \<longrightarrow> n \<le> vec_capacity v') \<and> (\<not> r \<longrightarrow> v' = v \<and> \<not> ok)"
proof -
  have "n \<le> (n + VECTOR_INC_STEP - 1) div VECTOR_INC_STEP * VECTOR_INC_STEP"
    by (simp add: VECTOR_INC_STEP_def)
  then show ?thesis using assms
    by (auto simp: uwbs_config_vector_reserve_def vector_ok_def vec_size_def split: if_splits)
qed

lemma resize_ok:
  assumes "vector_ok v" and "uwbs_config_vector_resize v n x ok = (r, v')"
  shows "vector_ok v' \<and> (if r then vec_arr v' = take n (vec_arr v) @ replicate (n - vec_size v) x else v' = v \<and> \<not> ok)"
proof -
  obtain r1 v1 where 1: "uwbs_config_vector_reserve v n ok = (r1, v1)" by fastforce
  note v1 = reserve_ok [OF assms(1) 1]
  show ?thesis
  proof (cases r1)
    case True
    with assms(2) 1 v1 show ?thesis
      by (auto simp: uwbs_config_vector_resize_def vector_ok_def vec_size_def)
  next
    case False
    with assms 1 v1 show ?thesis by (auto simp: uwbs_config_vector_resize_def)
  qed
qed

section \<open>Types\<close>

datatype uwbs_config_model_type = Type_Null | Type_String | Type_Integer | Type_Object | Type_Array | Type_Boolean

datatype uwbs_config_model_underlying_type =
  Utype_Null | Utype_Bitfield | Utype_Int8 | Utype_Uint8 | Utype_Int16 | Utype_Uint16 | Utype_Int32 | Utype_Uint32

definition json_schema_type_values :: "(uwbs_config_model_type \<times> string) list" where
  "json_schema_type_values =
     [(Type_Null, ''null''), (Type_String, ''string''), (Type_Integer, ''integer''), (Type_Object, ''object''),
      (Type_Array, ''array''), (Type_Boolean, ''boolean'')]"

definition json_schema_underlying_type_values :: "(uwbs_config_model_underlying_type \<times> string) list" where
  "json_schema_underlying_type_values =
     [(Utype_Null, ''null''), (Utype_Bitfield, ''bitfield''), (Utype_Int8, ''int8_t''), (Utype_Uint8, ''uint8_t''),
      (Utype_Int16, ''int16_t''), (Utype_Uint16, ''uint16_t''), (Utype_Int32, ''int32_t''), (Utype_Uint32, ''uint32_t'')]"

definition uwbs_config_model_type_from_str :: "string \<Rightarrow> uwbs_config_model_type option" where
  "uwbs_config_model_type_from_str str = map_option fst (find (\<lambda>(_, s). str = s) json_schema_type_values)"

definition uwbs_config_model_underlying_type_to_str :: "uwbs_config_model_underlying_type \<Rightarrow> string option" where
  "uwbs_config_model_underlying_type_to_str utype =
     map_option snd (find (\<lambda>(t, _). utype = t) json_schema_underlying_type_values)"

definition uwbs_config_model_underlying_type_from_str :: "string \<Rightarrow> uwbs_config_model_underlying_type option" where
  "uwbs_config_model_underlying_type_from_str str =
     map_option fst (find (\<lambda>(_, s). str = s) json_schema_underlying_type_values)"

text \<open>The size of a type: it fails an assertion for the undefined type.\<close>

definition uwbs_config_model_underlying_type_size :: "uwbs_config_model_underlying_type \<Rightarrow> nat option" where
  "uwbs_config_model_underlying_type_size utype =
     (case utype of
        Utype_Null \<Rightarrow> None
      | Utype_Int8 \<Rightarrow> Some 1 | Utype_Uint8 \<Rightarrow> Some 1
      | Utype_Int16 \<Rightarrow> Some 2 | Utype_Uint16 \<Rightarrow> Some 2
      | Utype_Bitfield \<Rightarrow> Some 4 | Utype_Int32 \<Rightarrow> Some 4 | Utype_Uint32 \<Rightarrow> Some 4)"

lemma underlying_type_round_trip:
  "Option.bind (uwbs_config_model_underlying_type_to_str t) uwbs_config_model_underlying_type_from_str = Some t"
  by (cases t) (simp_all add: uwbs_config_model_underlying_type_to_str_def uwbs_config_model_underlying_type_from_str_def
      json_schema_underlying_type_values_def)

section \<open>Definitions and properties\<close>

text \<open>A name is NULL when there was no memory for it.\<close>

datatype uwbs_config_model_node = Model_Node
  (mn_name: "string option") (mn_type: uwbs_config_model_type) (mn_underlying_type: uwbs_config_model_underlying_type)

datatype uwbs_config_model_property = Model_Property
  (pr_node: uwbs_config_model_node) (pr_ref: "string option") (pr_minimum: int) (pr_maximum: int)
  (pr_items: "uwbs_config_model_property option") (pr_max_items: nat) (pr_bit_size: nat)

datatype uwbs_config_model_def = Model_Def
  (df_node: uwbs_config_model_node) (df_defs: "uwbs_config_model_def vector")
  (df_underlying_enums: "(string option \<times> byte) vector") (df_properties: "uwbs_config_model_property vector")
  (df_required: "string option vector")

definition MODEL_NODE_STATIC_INIT :: uwbs_config_model_node where
  "MODEL_NODE_STATIC_INIT = Model_Node None Type_Null Utype_Null"

definition uwbs_config_model_def_underlying_enum_init :: "string option \<times> byte" where
  "uwbs_config_model_def_underlying_enum_init = (None, 0)"

definition uwbs_config_model_property_init :: uwbs_config_model_property where
  "uwbs_config_model_property_init = Model_Property MODEL_NODE_STATIC_INIT None (- (2 ^ 63)) (2 ^ 63 - 1) None 0 0"

definition uwbs_config_model_def_init :: uwbs_config_model_def where
  "uwbs_config_model_def_init =
     Model_Def MODEL_NODE_STATIC_INIT VECTOR_INIT_STATIC VECTOR_INIT_STATIC VECTOR_INIT_STATIC VECTOR_INIT_STATIC"

text \<open>The first property with a name; comparing with a NULL name is a fault.\<close>

fun find_named :: "('a \<Rightarrow> string option) \<Rightarrow> (string \<Rightarrow> bool) \<Rightarrow> 'a list \<Rightarrow> 'a option option" where
  "find_named f P [] = Some None"
| "find_named f P (x # xs) = do { s \<leftarrow> f x; if P s then Some (Some x) else find_named f P xs }"

definition uwbs_config_model_def_find_property ::
    "uwbs_config_model_def \<Rightarrow> string \<Rightarrow> uwbs_config_model_property option option" where
  "uwbs_config_model_def_find_property def name =
     find_named (\<lambda>p. mn_name (pr_node p)) (\<lambda>s. s = name) (vec_arr (df_properties def))"

text \<open>
  Following a reference: the part of the name before a separator is compared as a prefix, the last part as a
  whole. A definition that is not found fails an assertion.
\<close>

abbreviation (input) REF_SEP :: char where "REF_SEP \<equiv> CHR ''/''"

function find_def_path :: "uwbs_config_model_def \<Rightarrow> string \<Rightarrow> uwbs_config_model_def option" where
  "find_def_path def name =
     (let part = takeWhile (\<lambda>c. c \<noteq> REF_SEP) name
      in if length part < length name then
           do {
             d \<leftarrow> find_named (\<lambda>d. mn_name (df_node d)) (\<lambda>s. take (length part) s = part) (vec_arr (df_defs def));
             d \<leftarrow> d;
             find_def_path d (drop (length part + 1) name)
           }
         else
           do {
             d \<leftarrow> find_named (\<lambda>d. mn_name (df_node d)) (\<lambda>s. s = name) (vec_arr (df_defs def));
             d
           })"
  by pat_completeness auto
termination by (relation "measure (\<lambda>(_, name). length name)") auto

declare find_def_path.simps [simp del]

definition uwbs_config_model_find_def ::
    "uwbs_config_model_def \<Rightarrow> string option \<Rightarrow> uwbs_config_model_def option option" where
  "uwbs_config_model_find_def root name =
     (case name of
        None \<Rightarrow> Some None
      | Some s \<Rightarrow>
          if take 8 s \<noteq> ''#/$defs/'' then Some None
          else do { d \<leftarrow> find_def_path root (drop 8 s); Some (Some d) })"

text \<open>The number of bits of a field, those of its maximum.\<close>

function bit_count :: "nat \<Rightarrow> nat" where
  "bit_count n = (if n = 0 then 0 else 1 + bit_count (n div 2))"
  by pat_completeness auto
termination by (relation "measure id") auto

declare bit_count.simps [simp del]

definition uwbs_config_model_bitfield_get_field_bit_count :: "uwbs_config_model_property \<Rightarrow> nat" where
  "uwbs_config_model_bitfield_get_field_bit_count field =
     (if mn_type (pr_node field) \<noteq> Type_Integer \<or> mn_underlying_type (pr_node field) \<noteq> Utype_Null then 0
      else bit_count (nat (pr_maximum field mod 2 ^ 64)))"

lemma bit_count_less: "n < 2 ^ bit_count n"
proof (induction n rule: bit_count.induct)
  case (1 n)
  show ?case
  proof (cases "n = 0")
    case False
    then have "n div 2 < 2 ^ bit_count (n div 2)" using 1 by blast
    then have "n < 2 * 2 ^ bit_count (n div 2)" by linarith
    with False show ?thesis by (subst bit_count.simps) simp
  qed simp
qed

lemma bit_count_le: "n < 2 ^ k \<Longrightarrow> bit_count n \<le> k"
proof (induction k arbitrary: n)
  case 0
  then show ?case by (simp add: bit_count.simps)
next
  case (Suc k)
  then have "bit_count (n div 2) \<le> k" by (intro Suc.IH) simp
  then show ?case by (subst bit_count.simps) simp
qed

lemma find_named_ok:
  assumes "list_all (\<lambda>x. f x \<noteq> None) xs"
  shows "find_named f P xs = Some (find (\<lambda>x. P (the (f x))) xs)"
  using assms by (induction xs) auto

text \<open>A reference is resolved to a definition whose name only starts with the name that it gives.\<close>

lemma reference_matches_prefix:
  assumes "vec_arr (df_defs root) = d # ds" and "mn_name (df_node d) = Some (part @ rest)"
    and "REF_SEP \<notin> set part"
  shows "find_def_path root (part @ REF_SEP # name) = find_def_path d name"
proof -
  have *: "takeWhile (\<lambda>c. c \<noteq> REF_SEP) (part @ REF_SEP # name) = part" using assms(3) by (induction part) auto
  show ?thesis using assms(1,2) by (subst find_def_path.simps) (simp add: * Let_def)
qed

end
