(* ===== verification/Config_Loader.thy ===== *)
theory Config_Loader
  imports Config_Model
begin

text \<open>
  Loading a configuration (\<^verbatim>\<open>config_loader.c\<close>): the nodes that follow the model and call the user's callback for
  each value, with arrays of numbers and bit fields collected first. Bytes of numbers are little-endian.
\<close>

section \<open>State\<close>

datatype uwbs_config_value_type = Vtype_Blob | Vtype_Number | Vtype_Array_Number

datatype uwbs_config_number_type = Ntype_Int8 | Ntype_Uint8 | Ntype_Int16 | Ntype_Uint16 | Ntype_Int32 | Ntype_Uint32

text \<open>A call of the user's callback: the name of the key, the types and the bytes of the value.\<close>

datatype key_call = Key_Call string uwbs_config_value_type uwbs_config_number_type bytes

text \<open>An array under construction: its size and what was written so far.\<close>

record load_array =
  la_size :: nat
  la_data :: bytes
  la_depth :: nat

type_synonym load_node = "uwbs_config_model_property option \<times> uwbs_config_model_def option"

text \<open>
  The model is the root definition; the head of the stack is its top. The calls of the callback are recorded;
  the schedule says which allocations fail.
\<close>

record uwbs_config_load =
  ld_model :: uwbs_config_model_def
  ld_stack :: "load_node list"
  ld_array :: "load_array option"
  ld_array_ntype :: uwbs_config_number_type
  ld_bitfield_value :: "32 word"
  ld_bitfield_offset :: nat
  ld_bitfield_fields_mask :: "32 word"
  ld_calls :: "key_call list"
  ld_allocs :: nat
  ld_fails :: "nat \<Rightarrow> bool"

datatype config_node =
  Config_Root | Config_Version | Config_Object | Config_Array | Config_Enum | Config_Bitfield | Config_Bitfield_Field
| Config_Integer | Config_Boolean

type_synonym config_ctx = "(config_node, unit) yaml_ctx"
type_synonym config_step = "(config_node, unit, uwbs_config_load) node_step"

text \<open>\<open>n\<close>, \<open>v\<close>, \<open>off\<close> and \<open>fmask\<close> are what the memory of the structure held before.\<close>

definition uwbs_config_load_init ::
    "uwbs_config_model_def \<Rightarrow> uwbs_config_number_type \<Rightarrow> 32 word \<Rightarrow> nat \<Rightarrow> 32 word \<Rightarrow> (nat \<Rightarrow> bool) \<Rightarrow> uwbs_config_load" where
  "uwbs_config_load_init model n v off fmask fails =
     \<lparr>ld_model = model, ld_stack = [], ld_array = None, ld_array_ntype = n, ld_bitfield_value = v,
      ld_bitfield_offset = off, ld_bitfield_fields_mask = fmask, ld_calls = [], ld_allocs = 0, ld_fails = fails\<rparr>"

definition config_alloc :: "uwbs_config_load \<Rightarrow> bool \<times> uwbs_config_load" where
  "config_alloc w = (\<not> ld_fails w (ld_allocs w), w\<lparr>ld_allocs := Suc (ld_allocs w)\<rparr>)"

text \<open>The node that says what a value is; a NULL definition is dereferenced.\<close>

definition uwbs_config_model_get_node ::
    "uwbs_config_model_property option \<Rightarrow> uwbs_config_model_def option \<Rightarrow> uwbs_config_model_node option" where
  "uwbs_config_model_get_node prop def =
     (case prop of
        Some p \<Rightarrow> if mn_type (pr_node p) \<noteq> Type_Null then Some (pr_node p) else map_option df_node def
      | None \<Rightarrow> map_option df_node def)"

section \<open>Values\<close>

text \<open>The name of a key: the names of the nodes of the stack, from the bottom, separated by points.\<close>

definition node_names :: "load_node list \<Rightarrow> string list" where
  "node_names st = List.map_filter (\<lambda>(prop, _). Option.bind prop (\<lambda>p. mn_name (pr_node p))) (rev st)"

fun join_names :: "string list \<Rightarrow> string" where
  "join_names [] = []"
| "join_names [s] = s"
| "join_names (s # ss) = s @ CHR ''.'' # join_names ss"

text \<open>
  A value while an array is loaded is appended to it; \<open>whole\<close> is the array itself. Without a name the
  terminator would be written in front of the buffer.
\<close>

definition uwbs_config_loader_on_new_key ::
    "uwbs_config_load \<Rightarrow> uwbs_config_value_type \<Rightarrow> uwbs_config_number_type \<Rightarrow> bytes \<Rightarrow> bool \<Rightarrow>
     (uwbs_config_status \<times> uwbs_config_load) option" where
  "uwbs_config_loader_on_new_key w vtype ntype v whole =
     (case (whole, ld_array w) of
        (False, Some a) \<Rightarrow>
          Some (if length (la_data a) + length v > la_size a then (CONFIG_INVALID_FMT, w)
            else (CONFIG_OK, w\<lparr>ld_array := Some (a\<lparr>la_data := la_data a @ v\<rparr>), ld_array_ntype := ntype\<rparr>))
      | _ \<Rightarrow>
          if node_names (ld_stack w) = [] then None
          else (let (ok, w) = config_alloc w
            in Some (if \<not> ok then (CONFIG_OOM, w)
                 else (CONFIG_OK, w\<lparr>ld_calls := ld_calls w @ [Key_Call (join_names (node_names (ld_stack w))) vtype ntype v]\<rparr>))))"

section \<open>Nodes\<close>

text \<open>The stack of the loader is as large as that of the parser; when it is full an assertion fails.\<close>

definition uwbs_config_loader_enter_node ::
    "config_ctx \<Rightarrow> config_node \<Rightarrow> uwbs_config_load \<Rightarrow> uwbs_config_model_property option \<Rightarrow> uwbs_config_model_def option \<Rightarrow> config_step" where
  "uwbs_config_loader_enter_node ctx n w prop def =
     (if length (ld_stack w) = NODE_STACK_SIZE then None
      else enter ctx (Node n) (w\<lparr>ld_stack := (prop, def) # ld_stack w\<rparr>))"

definition uwbs_config_loader_leave_node ::
    "uwbs_config_status \<Rightarrow> config_ctx \<Rightarrow> uwbs_config_load \<Rightarrow> bool \<Rightarrow> config_step" where
  "uwbs_config_loader_leave_node st ctx w force =
     (if ld_array w \<noteq> None \<and> \<not> force then Some (st, ctx, w)
      else case ld_stack w of
        [] \<Rightarrow> None
      | _ # ns \<Rightarrow> leave st ctx (w\<lparr>ld_stack := ns\<rparr>))"

definition current_node :: "uwbs_config_load \<Rightarrow> load_node option" where
  "current_node w = (case ld_stack w of [] \<Rightarrow> None | n # _ \<Rightarrow> Some n)"

definition uwbs_config_loader_node_consume_event :: "yaml_event \<Rightarrow> config_ctx \<Rightarrow> uwbs_config_load \<Rightarrow> config_step" where
  "uwbs_config_loader_node_consume_event event ctx w =
     (case event of
        Sequence_End \<Rightarrow>
          (case ld_array w of
             None \<Rightarrow> Some (CONFIG_INTERNAL_ERROR, ctx, w)
           | Some a \<Rightarrow>
               let a = a\<lparr>la_depth := (la_depth a + 255) mod 256\<rparr>;
                   w = w\<lparr>ld_array := Some a\<rparr>
               in if la_depth a \<noteq> 0 then uwbs_config_loader_leave_node CONFIG_OK ctx w True
                  else if la_size a \<noteq> length (la_data a) then Some (CONFIG_INVALID_FMT, ctx, w)
                  else do {
                    (ret, w) \<leftarrow> uwbs_config_loader_on_new_key w Vtype_Array_Number (ld_array_ntype w) (la_data a) True;
                    (_, ctx, w) \<leftarrow> uwbs_config_loader_leave_node CONFIG_OK ctx (w\<lparr>ld_array := None\<rparr>) True;
                    uwbs_config_loader_leave_node ret ctx w True
                  })
      | _ \<Rightarrow> Some (CONFIG_INVALID_FMT, ctx, w))"

definition true_values :: "string list" where
  "true_values = [''1'', ''y'', ''Y'', ''yes'', ''Yes'', ''YES'', ''true'', ''True'', ''TRUE'', ''on'', ''On'', ''ON'']"

definition false_values :: "string list" where
  "false_values = [''n'', ''N'', ''no'', ''No'', ''NO'', ''false'', ''False'', ''FALSE'', ''off'', ''Off'', ''OFF'']"

text \<open>The result of the notification is not looked at.\<close>

definition uwbs_config_loader_boolean_consume_event :: "yaml_event \<Rightarrow> config_ctx \<Rightarrow> uwbs_config_load \<Rightarrow> config_step" where
  "uwbs_config_loader_boolean_consume_event event ctx w =
     (case event of
        Scalar s \<Rightarrow>
          do {
            (prop, _) \<leftarrow> current_node w;
            prop \<leftarrow> prop;
            if mn_type (pr_node prop) \<noteq> Type_Boolean \<and> mn_underlying_type (pr_node prop) \<noteq> Utype_Null
            then Some (CONFIG_INTERNAL_ERROR, ctx, w)
            else if s \<notin> set true_values \<and> s \<notin> set false_values then Some (CONFIG_INVALID_FMT, ctx, w)
            else do {
              (_, w) \<leftarrow> uwbs_config_loader_on_new_key w Vtype_Number Ntype_Uint8
                (if s \<in> set false_values then [0] else [1]) False;
              uwbs_config_loader_leave_node CONFIG_OK ctx w False
            }
          }
      | _ \<Rightarrow> uwbs_config_loader_node_consume_event event ctx w)"

text \<open>The type and the size of a number; the undefined type fails an assertion.\<close>

definition number_format :: "uwbs_config_model_underlying_type \<Rightarrow> (uwbs_config_number_type \<times> nat) option" where
  "number_format t =
     (case t of
        Utype_Null \<Rightarrow> None | Utype_Bitfield \<Rightarrow> None
      | Utype_Int8 \<Rightarrow> Some (Ntype_Int8, 1) | Utype_Uint8 \<Rightarrow> Some (Ntype_Uint8, 1)
      | Utype_Int16 \<Rightarrow> Some (Ntype_Int16, 2) | Utype_Uint16 \<Rightarrow> Some (Ntype_Uint16, 2)
      | Utype_Int32 \<Rightarrow> Some (Ntype_Int32, 4) | Utype_Uint32 \<Rightarrow> Some (Ntype_Uint32, 4))"

definition uwbs_config_loader_integer_consume_event :: "yaml_event \<Rightarrow> config_ctx \<Rightarrow> uwbs_config_load \<Rightarrow> config_step" where
  "uwbs_config_loader_integer_consume_event event ctx w =
     (case event of
        Scalar s \<Rightarrow>
          do {
            (prop, _) \<leftarrow> current_node w;
            prop \<leftarrow> prop;
            let (number, rest) = strtoll s;
            if mn_type (pr_node prop) \<noteq> Type_Integer then Some (CONFIG_INTERNAL_ERROR, ctx, w)
            else if rest \<noteq> [] then Some (CONFIG_INVALID_FMT, ctx, w)
            else if number < pr_minimum prop \<or> number > pr_maximum prop then Some (CONFIG_INVALID_FMT, ctx, w)
            else do {
              (ntype, n) \<leftarrow> number_format (mn_underlying_type (pr_node prop));
              (ret, w) \<leftarrow> uwbs_config_loader_on_new_key w Vtype_Number ntype (le_bytes n (of_int number :: 32 word)) False;
              uwbs_config_loader_leave_node ret ctx w False
            }
          }
      | _ \<Rightarrow> uwbs_config_loader_node_consume_event event ctx w)"

text \<open>Shifting a negative number, or out of 64 bits, is not defined.\<close>

definition uwbs_config_loader_bitfield_field_consume_event :: "yaml_event \<Rightarrow> config_ctx \<Rightarrow> uwbs_config_load \<Rightarrow> config_step" where
  "uwbs_config_loader_bitfield_field_consume_event event ctx w =
     (case event of
        Scalar s \<Rightarrow>
          do {
            (prop, _) \<leftarrow> current_node w;
            let (v, rest) = strtoll s;
            if rest \<noteq> [] then Some (CONFIG_INVALID_FMT, ctx, w)
            else do {
              prop \<leftarrow> prop;
              if v < pr_minimum prop \<or> v > pr_maximum prop then Some (CONFIG_INVALID_FMT, ctx, w)
              else if v < 0 \<or> v * 2 ^ ld_bitfield_offset w \<ge> 2 ^ 63 \<or> ld_bitfield_offset w \<ge> 64 then None
              else uwbs_config_loader_leave_node CONFIG_OK ctx
                (w\<lparr>ld_bitfield_value := ld_bitfield_value w OR of_int (v * 2 ^ ld_bitfield_offset w)\<rparr>) False
            }
          }
      | _ \<Rightarrow> uwbs_config_loader_node_consume_event event ctx w)"

text \<open>The fields of a bit field in the order of its required names: a name that is no property is a NULL pointer.\<close>

fun required_fields :: "uwbs_config_model_def \<Rightarrow> string option list \<Rightarrow> uwbs_config_model_property list option" where
  "required_fields bf [] = Some []"
| "required_fields bf (name # names) =
     do {
       s \<leftarrow> name;
       p \<leftarrow> uwbs_config_model_def_find_property bf s;
       p \<leftarrow> p;
       ps \<leftarrow> required_fields bf names;
       Some (p # ps)
     }"

definition uwbs_config_bitfield_get_ntype :: "uwbs_config_model_def \<Rightarrow> (uwbs_config_number_type \<times> nat) option" where
  "uwbs_config_bitfield_get_ntype bf =
     do {
       fields \<leftarrow> required_fields bf (vec_arr (df_required bf));
       let bits = sum_list (map uwbs_config_model_bitfield_get_field_bit_count fields);
       Some (if bits \<le> 8 then (Ntype_Uint8, 1) else if bits \<le> 16 then (Ntype_Uint16, 2) else (Ntype_Uint32, 4))
     }"

text \<open>
  Looking for a field among the required names from \<open>i\<close> on, with the offset of the field: a field that was given
  before is an error. A shift of an \<^verbatim>\<open>int\<close> by 31 or more is not defined.
\<close>

fun find_field ::
    "config_ctx \<Rightarrow> uwbs_config_load \<Rightarrow> uwbs_config_model_def \<Rightarrow> string \<Rightarrow> nat \<Rightarrow> string option list \<Rightarrow> config_step" where
  "find_field ctx w bf s i [] = Some (CONFIG_INVALID_FMT, ctx, w)"
| "find_field ctx w bf s i (name # names) =
     do {
       prop_name \<leftarrow> name;
       prop \<leftarrow> uwbs_config_model_def_find_property bf prop_name;
       case prop of
         None \<Rightarrow> Some (CONFIG_INTERNAL_ERROR, ctx, w)
       | Some prop \<Rightarrow>
           if prop_name = s then
             if i \<ge> 31 then None
             else if bit (ld_bitfield_fields_mask w) i then Some (CONFIG_INVALID_FMT, ctx, w)
             else uwbs_config_loader_enter_node ctx Config_Bitfield_Field
               (w\<lparr>ld_bitfield_fields_mask := ld_bitfield_fields_mask w OR 2 ^ i\<rparr>) (Some prop) None
           else find_field ctx
             (w\<lparr>ld_bitfield_offset := (ld_bitfield_offset w + uwbs_config_model_bitfield_get_field_bit_count prop) mod 256\<rparr>)
             bf s (i + 1) names
     }"

definition uwbs_config_loader_bitfield_consume_event :: "yaml_event \<Rightarrow> config_ctx \<Rightarrow> uwbs_config_load \<Rightarrow> config_step" where
  "uwbs_config_loader_bitfield_consume_event event ctx w =
     (case event of
        Mapping_Start \<Rightarrow> Some (CONFIG_OK, ctx, w)
      | Mapping_End \<Rightarrow>
          do {
            (_, def) \<leftarrow> current_node w;
            def \<leftarrow> def;
            let n = vec_size (df_required def);
            if n \<ge> 31 then None
            else if (2 ^ n - 1 :: 32 word) \<noteq> ld_bitfield_fields_mask w then Some (CONFIG_INVALID_FMT, ctx, w)
            else do {
              (ntype, k) \<leftarrow> uwbs_config_bitfield_get_ntype def;
              (ret, w) \<leftarrow> uwbs_config_loader_on_new_key w Vtype_Number ntype (le_bytes k (ld_bitfield_value w)) False;
              uwbs_config_loader_leave_node ret ctx w False
            }
          }
      | Scalar s \<Rightarrow>
          do {
            (_, def) \<leftarrow> current_node w;
            def \<leftarrow> def;
            if mn_type (df_node def) \<noteq> Type_Object \<or> mn_underlying_type (df_node def) \<noteq> Utype_Bitfield
            then Some (CONFIG_INTERNAL_ERROR, ctx, w)
            else find_field ctx (w\<lparr>ld_bitfield_offset := 0\<rparr>) def s 0 (vec_arr (df_required def))
          }
      | _ \<Rightarrow> uwbs_config_loader_node_consume_event event ctx w)"

definition uwbs_config_loader_enum_consume_event :: "yaml_event \<Rightarrow> config_ctx \<Rightarrow> uwbs_config_load \<Rightarrow> config_step" where
  "uwbs_config_loader_enum_consume_event event ctx w =
     (case event of
        Scalar s \<Rightarrow>
          do {
            (_, def) \<leftarrow> current_node w;
            case def of
              None \<Rightarrow> Some (CONFIG_INTERNAL_ERROR, ctx, w)
            | Some def \<Rightarrow>
                do {
                  e \<leftarrow> find_named fst (\<lambda>n. s = n) (vec_arr (df_underlying_enums def));
                  case e of
                    None \<Rightarrow> Some (CONFIG_INVALID_FMT, ctx, w)
                  | Some (_, v) \<Rightarrow>
                      do {
                        (ret, w) \<leftarrow> uwbs_config_loader_on_new_key w Vtype_Number Ntype_Uint8 [v] False;
                        uwbs_config_loader_leave_node ret ctx w False
                      }
                }
          }
      | _ \<Rightarrow> uwbs_config_loader_node_consume_event event ctx w)"

text \<open>Entering the node of a property; arrays, objects and bit fields of which the kind says which node it is.\<close>

definition uwbs_config_loader_enter_property_node ::
    "config_ctx \<Rightarrow> uwbs_config_load \<Rightarrow> uwbs_config_model_property option \<Rightarrow> uwbs_config_model_def option \<Rightarrow> config_step" where
  "uwbs_config_loader_enter_property_node ctx w prop def =
     do {
       mnode \<leftarrow> uwbs_config_model_get_node prop def;
       (case mn_type mnode of
          Type_Null \<Rightarrow> Some (CONFIG_INTERNAL_ERROR, ctx, w)
        | Type_String \<Rightarrow> uwbs_config_loader_enter_node ctx Config_Enum w prop def
        | Type_Integer \<Rightarrow> uwbs_config_loader_enter_node ctx Config_Integer w prop def
        | Type_Object \<Rightarrow>
            (case mn_underlying_type mnode of
               Utype_Null \<Rightarrow> uwbs_config_loader_enter_node ctx Config_Object w prop def
             | Utype_Bitfield \<Rightarrow> uwbs_config_loader_enter_node ctx Config_Bitfield
                 (w\<lparr>ld_bitfield_fields_mask := 0, ld_bitfield_value := 0\<rparr>) prop def
             | _ \<Rightarrow> Some (CONFIG_INTERNAL_ERROR, ctx, w))
        | Type_Array \<Rightarrow> uwbs_config_loader_enter_node ctx Config_Array w prop def
        | Type_Boolean \<Rightarrow> uwbs_config_loader_enter_node ctx Config_Boolean w prop def)
     }"

text \<open>The size of the elements of an array, down to the numbers.\<close>

fun items_size :: "uwbs_config_model_property \<Rightarrow> nat option" where
  "items_size (Model_Property node ref mi ma items max_items bit_size) =
     do {
       n \<leftarrow> (if mn_type node = Type_Array then Some max_items
             else uwbs_config_model_underlying_type_size (mn_underlying_type node));
       case items of
         None \<Rightarrow> Some n
       | Some p \<Rightarrow> do { m \<leftarrow> items_size p; Some (n * m) }
     }"

definition uwbs_config_loader_array_consume_event :: "yaml_event \<Rightarrow> config_ctx \<Rightarrow> uwbs_config_load \<Rightarrow> config_step" where
  "uwbs_config_loader_array_consume_event event ctx w =
     (case event of
        Sequence_Start \<Rightarrow>
          do {
            (prop, _) \<leftarrow> current_node w;
            prop \<leftarrow> prop;
            if mn_type (pr_node prop) \<noteq> Type_Array then Some (CONFIG_INTERNAL_ERROR, ctx, w)
            else do {
              (ret, ctx, w) \<leftarrow> uwbs_config_loader_enter_property_node ctx w (pr_items prop) None;
              if ret \<noteq> CONFIG_OK then Some (ret, ctx, w)
              else case ld_array w of
                None \<Rightarrow>
                  do {
                    items \<leftarrow> pr_items prop;
                    n \<leftarrow> items_size items;
                    let (ok, w) = config_alloc w;
                    Some (if \<not> ok then (CONFIG_OOM, ctx, w)
                      else (CONFIG_OK, ctx,
                        w\<lparr>ld_array := Some \<lparr>la_size = pr_max_items prop * n mod size_modulus, la_data = [], la_depth = 1\<rparr>\<rparr>))
                  }
              | Some a \<Rightarrow> Some (CONFIG_OK, ctx, w\<lparr>ld_array := Some (a\<lparr>la_depth := (la_depth a + 1) mod 256\<rparr>)\<rparr>)
            }
          }
      | _ \<Rightarrow> uwbs_config_loader_node_consume_event event ctx w)"

definition uwbs_config_loader_object_consume_event :: "yaml_event \<Rightarrow> config_ctx \<Rightarrow> uwbs_config_load \<Rightarrow> config_step" where
  "uwbs_config_loader_object_consume_event event ctx w =
     (case event of
        Mapping_Start \<Rightarrow>
          do {
            (prop, def) \<leftarrow> current_node w;
            mnode \<leftarrow> uwbs_config_model_get_node prop def;
            Some (if mn_type mnode \<noteq> Type_Object \<and> mn_underlying_type mnode \<noteq> Utype_Bitfield
              then CONFIG_INTERNAL_ERROR else CONFIG_OK, ctx, w)
          }
      | Mapping_End \<Rightarrow> uwbs_config_loader_leave_node CONFIG_OK ctx w False
      | Scalar s \<Rightarrow>
          do {
            (_, def) \<leftarrow> current_node w;
            def \<leftarrow> def;
            prop \<leftarrow> uwbs_config_model_def_find_property def s;
            case prop of
              None \<Rightarrow> Some (CONFIG_INVALID_KEY, ctx, w)
            | Some prop \<Rightarrow>
                do {
                  d \<leftarrow> uwbs_config_model_find_def (ld_model w) (pr_ref prop);
                  uwbs_config_loader_enter_property_node ctx w (Some prop) d
                }
          }
      | _ \<Rightarrow> uwbs_config_loader_node_consume_event event ctx w)"

definition uwbs_config_loader_version_consume_event :: "yaml_event \<Rightarrow> config_ctx \<Rightarrow> uwbs_config_load \<Rightarrow> config_step" where
  "uwbs_config_loader_version_consume_event event ctx w =
     (case event of
        Scalar s \<Rightarrow> leave (if s = ''1'' then CONFIG_OK else CONFIG_INVALID_FMT) ctx w
      | _ \<Rightarrow> Some (CONFIG_INVALID_FMT, ctx, w))"

definition uwbs_config_loader_root_consume_event :: "yaml_event \<Rightarrow> config_ctx \<Rightarrow> uwbs_config_load \<Rightarrow> config_step" where
  "uwbs_config_loader_root_consume_event event ctx w =
     (case event of
        Mapping_Start \<Rightarrow> Some (CONFIG_OK, ctx, w)
      | Mapping_End \<Rightarrow> leave CONFIG_OK ctx w
      | Scalar s \<Rightarrow>
          if s = ''version'' then enter ctx (Node Config_Version) w
          else if s = ''config'' then uwbs_config_loader_enter_node ctx Config_Object w None (Some (ld_model w))
          else Some (CONFIG_INVALID_FMT, ctx, w)
      | _ \<Rightarrow> Some (CONFIG_INVALID_FMT, ctx, w))"

definition config_consume :: "config_node \<Rightarrow> yaml_event \<Rightarrow> config_ctx \<Rightarrow> uwbs_config_load \<Rightarrow> config_step" where
  "config_consume h event ctx w =
     (case h of
        Config_Root \<Rightarrow> uwbs_config_loader_root_consume_event event ctx w
      | Config_Version \<Rightarrow> uwbs_config_loader_version_consume_event event ctx w
      | Config_Object \<Rightarrow> uwbs_config_loader_object_consume_event event ctx w
      | Config_Array \<Rightarrow> uwbs_config_loader_array_consume_event event ctx w
      | Config_Enum \<Rightarrow> uwbs_config_loader_enum_consume_event event ctx w
      | Config_Bitfield \<Rightarrow> uwbs_config_loader_bitfield_consume_event event ctx w
      | Config_Bitfield_Field \<Rightarrow> uwbs_config_loader_bitfield_field_consume_event event ctx w
      | Config_Integer \<Rightarrow> uwbs_config_loader_integer_consume_event event ctx w
      | Config_Boolean \<Rightarrow> uwbs_config_loader_boolean_consume_event event ctx w)"

definition config_loader :: "(config_node, unit, uwbs_config_load) yaml_loader" where
  "config_loader = \<lparr>yl_consume = config_consume, yl_root = Config_Root, yl_store = (\<lambda>_ _ w. w), yl_alloc = (\<lambda>w. (True, w))\<rparr>"

section \<open>Loading\<close>

text \<open>The status and the calls of the callback.\<close>

definition uwbs_config_load_str ::
    "yaml_event option list option option \<Rightarrow> uwbs_config_model_def option \<Rightarrow> (uwbs_config_model_def \<Rightarrow> uwbs_config_load) \<Rightarrow>
     (uwbs_config_status \<times> key_call list) option" where
  "uwbs_config_load_str input model init =
     (case (input, model) of
        (Some events, Some model) \<Rightarrow>
          do {
            (st, ctx, w) \<leftarrow> uwbs_config_yaml_load_str config_loader events uwbs_config_yaml_init (init model);
            Some (st, ld_calls w)
          }
      | _ \<Rightarrow> Some (CONFIG_INVALID_ARG, []))"

definition uwbs_config_load_file ::
    "yaml_event option list option option option \<Rightarrow> uwbs_config_model_def option \<Rightarrow> bool \<Rightarrow>
     (uwbs_config_model_def \<Rightarrow> uwbs_config_load) \<Rightarrow> (uwbs_config_status \<times> key_call list) option" where
  "uwbs_config_load_file input model user_cb init =
     (case (input, model, user_cb) of
        (Some events, Some model, True) \<Rightarrow>
          do {
            (st, ctx, w) \<leftarrow> uwbs_config_yaml_load_file config_loader events uwbs_config_yaml_init (init model);
            Some (st, ld_calls w)
          }
      | _ \<Rightarrow> Some (CONFIG_INVALID_ARG, []))"

end
