(* ===== verification/Config_Values.thy ===== *)
theory Config_Values
  imports Config_Loader
begin

text \<open>
  What a configuration means: the calls of the callback by recursion over its values, and the proof that the
  loader makes these calls for a configuration that fits the model.
\<close>

section \<open>Configurations\<close>

datatype config = Cfg_Scalar string | Cfg_Seq "config list" | Cfg_Map "(string \<times> config) list"

fun events_of :: "config \<Rightarrow> yaml_event list" and seq_events :: "config list \<Rightarrow> yaml_event list"
  and map_events :: "(string \<times> config) list \<Rightarrow> yaml_event list" where
  "events_of (Cfg_Scalar s) = [Scalar s]"
| "events_of (Cfg_Seq cs) = Sequence_Start # seq_events cs @ [Sequence_End]"
| "events_of (Cfg_Map kvs) = Mapping_Start # map_events kvs @ [Mapping_End]"
| "seq_events [] = []"
| "seq_events (c # cs) = events_of c @ seq_events cs"
| "map_events [] = []"
| "map_events ((k, c) # kvs) = Scalar k # events_of c @ map_events kvs"

text \<open>The number of nodes that a value needs.\<close>

fun depth :: "config \<Rightarrow> nat" and seq_depth :: "config list \<Rightarrow> nat" and map_depth :: "(string \<times> config) list \<Rightarrow> nat" where
  "depth (Cfg_Scalar s) = 1"
| "depth (Cfg_Seq cs) = 1 + max 1 (seq_depth cs)"
| "depth (Cfg_Map kvs) = 1 + map_depth kvs"
| "seq_depth [] = 0"
| "seq_depth (c # cs) = max (depth c) (seq_depth cs)"
| "map_depth [] = 0"
| "map_depth ((k, c) # kvs) = max (depth c) (map_depth kvs)"

section \<open>Numbers\<close>

definition number_value :: "uwbs_config_model_property \<Rightarrow> string \<Rightarrow> int option" where
  "number_value p s =
     (let (v, rest) = strtoll s
      in if rest \<noteq> [] \<or> v < pr_minimum p \<or> v > pr_maximum p then None else Some v)"

definition number_bytes :: "uwbs_config_model_property \<Rightarrow> string \<Rightarrow> (uwbs_config_number_type \<times> bytes) option" where
  "number_bytes p s =
     do { v \<leftarrow> number_value p s; (nt, n) \<leftarrow> number_format (mn_underlying_type (pr_node p)); Some (nt, le_bytes n (of_int v :: 32 word)) }"

lemma consume_config [simp]: "consume_node config_loader (Node h) e ctx w = config_consume h e ctx w"
  by (simp add: consume_node_def config_loader_def)

lemma node_names_Nil [simp]: "node_names [] = []"
  by (simp add: node_names_def map_filter_def)

lemma node_names_Cons:
  "node_names ((prop, def) # st) =
     node_names st @ (case Option.bind prop (\<lambda>p. mn_name (pr_node p)) of None \<Rightarrow> [] | Some s \<Rightarrow> [s])"
  by (auto simp: node_names_def map_filter_def split: option.splits)

text \<open>The same state up to the scratch fields, after some calls.\<close>

definition called :: "uwbs_config_load \<Rightarrow> key_call list \<Rightarrow> uwbs_config_load \<Rightarrow> bool" where
  "called w cs w' \<longleftrightarrow> ld_model w' = ld_model w \<and> ld_stack w' = ld_stack w \<and> ld_array w' = ld_array w \<and>
     ld_fails w' = ld_fails w \<and> ld_calls w' = ld_calls w @ cs"

lemma called_trans: "called w cs w' \<Longrightarrow> called w' ds w'' \<Longrightarrow> called w (cs @ ds) w''"
  by (simp add: called_def)

text \<open>What every step assumes: no array is being loaded, memory suffices, and the nodes fit the stacks.\<close>

definition plain :: "uwbs_config_load \<Rightarrow> bool" where
  "plain w \<longleftrightarrow> ld_array w = None \<and> (\<forall>i. \<not> ld_fails w i)"

definition room_for :: "config_ctx \<Rightarrow> uwbs_config_load \<Rightarrow> nat \<Rightarrow> bool" where
  "room_for ctx w n \<longleftrightarrow> length (node_stack ctx) + n \<le> NODE_STACK_SIZE \<and> length (ld_stack w) + n \<le> NODE_STACK_SIZE"

lemma enter_ok:
  assumes "room_for ctx w (Suc n)"
  shows "uwbs_config_loader_enter_node ctx h w prop def =
    Some (CONFIG_OK, ctx\<lparr>node_stack := Node h # node_stack ctx\<rparr>, w\<lparr>ld_stack := (prop, def) # ld_stack w\<rparr>)"
  using assms by (simp add: uwbs_config_loader_enter_node_def room_for_def)

lemma notify_ok:
  assumes "plain w" and "node_names (ld_stack w) \<noteq> []"
  shows "uwbs_config_loader_on_new_key w vt nt v False =
    Some (CONFIG_OK, w\<lparr>ld_allocs := Suc (ld_allocs w), ld_calls := ld_calls w @ [Key_Call (join_names (node_names (ld_stack w))) vt nt v]\<rparr>)"
  using assms by (simp add: uwbs_config_loader_on_new_key_def plain_def config_alloc_def)

text \<open>
  A value at the top of the stacks: the events of the value take its node off and make some calls.
\<close>

definition value_runs ::
    "config_node \<Rightarrow> uwbs_config_model_property option \<Rightarrow> uwbs_config_model_def option \<Rightarrow> config_ctx \<Rightarrow> uwbs_config_load \<Rightarrow>
     yaml_event list \<Rightarrow> key_call list \<Rightarrow> bool" where
  "value_runs h prop def ctx w es cs \<longleftrightarrow> (\<forall>rest w1. w1 = w\<lparr>ld_stack := (prop, def) # ld_stack w\<rparr> \<longrightarrow>
     (\<exists>w'. consumes config_loader (es @ rest) (ctx\<lparr>node_stack := Node h # node_stack ctx\<rparr>) w1 = consumes config_loader rest ctx w' \<and>
        called w cs w'))"

text \<open>The scalars: a number, a boolean, a value of an enumeration.\<close>

lemma scalar_runs:
  assumes step: "\<And>w1. w1 = w\<lparr>ld_stack := (prop, def) # ld_stack w\<rparr> \<Longrightarrow>
      config_consume h (Scalar s) (ctx\<lparr>node_stack := Node h # node_stack ctx\<rparr>) w1 =
        do { (ret, w2) \<leftarrow> uwbs_config_loader_on_new_key w1 Vtype_Number nt v False;
             uwbs_config_loader_leave_node (f ret) (ctx\<lparr>node_stack := Node h # node_stack ctx\<rparr>) w2 False }"
    and "f CONFIG_OK = CONFIG_OK" and "plain w" and names: "node_names ((prop, def) # ld_stack w) = ks" "ks \<noteq> []"
  shows "value_runs h prop def ctx w [Scalar s] [Key_Call (join_names ks) Vtype_Number nt v]"
  unfolding value_runs_def
proof (intro allI impI)
  fix rest w1
  assume w1: "w1 = w\<lparr>ld_stack := (prop, def) # ld_stack w\<rparr>"
  let ?c = "ctx\<lparr>node_stack := Node h # node_stack ctx\<rparr>"
  let ?w = "w\<lparr>ld_allocs := Suc (ld_allocs w), ld_calls := ld_calls w @ [Key_Call (join_names ks) Vtype_Number nt v]\<rparr>"
  have "plain w1" using assms(3) by (simp add: plain_def w1)
  from notify_ok [OF this, of Vtype_Number nt v] names have
    "uwbs_config_loader_on_new_key w1 Vtype_Number nt v False =
      Some (CONFIG_OK, ?w\<lparr>ld_stack := (prop, def) # ld_stack w\<rparr>)" by (simp add: w1)
  with step [OF w1] assms(2,3) have "consume_node config_loader (Node h) (Scalar s) ?c w1 = Some (CONFIG_OK, ctx, ?w)"
    by (simp add: uwbs_config_loader_leave_node_def plain_def)
  from consumes_step [OF _ this, of "node_stack ctx"] show
    "\<exists>w'. consumes config_loader ([Scalar s] @ rest) ?c w1 = consumes config_loader rest ctx w' \<and>
      called w [Key_Call (join_names ks) Vtype_Number nt v] w'"
    by (auto simp: called_def)
qed

lemma integer_runs:
  assumes "mn_type (pr_node p) = Type_Integer" and "number_bytes p s = Some (nt, v)" and "plain w"
    and "node_names ((Some p, def) # ld_stack w) = ks" and "ks \<noteq> []"
  shows "value_runs Config_Integer (Some p) def ctx w [Scalar s] [Key_Call (join_names ks) Vtype_Number nt v]"
  using assms
  by (intro scalar_runs [where f = "\<lambda>r. r"])
    (auto simp: config_consume_def uwbs_config_loader_integer_consume_event_def current_node_def number_bytes_def
      number_value_def bind_eq_Some_conv split: if_splits prod.splits)

definition boolean_value :: "string \<Rightarrow> byte option" where
  "boolean_value s = (if s \<in> set false_values then Some 0 else if s \<in> set true_values then Some 1 else None)"

lemma boolean_runs:
  assumes "mn_type (pr_node p) = Type_Boolean" and "boolean_value s = Some b" and "plain w"
    and "node_names ((Some p, def) # ld_stack w) = ks" and "ks \<noteq> []"
  shows "value_runs Config_Boolean (Some p) def ctx w [Scalar s] [Key_Call (join_names ks) Vtype_Number Ntype_Uint8 [b]]"
  using assms
  by (intro scalar_runs [where f = "\<lambda>_. CONFIG_OK"])
    (auto simp: config_consume_def uwbs_config_loader_boolean_consume_event_def current_node_def boolean_value_def
      split: if_splits)

definition enum_value :: "uwbs_config_model_def \<Rightarrow> string \<Rightarrow> byte option" where
  "enum_value d s =
     do { e \<leftarrow> find_named fst (\<lambda>n. s = n) (vec_arr (df_underlying_enums d)); (n, v) \<leftarrow> e; Some v }"

lemma enum_runs:
  assumes "enum_value d s = Some b" and "plain w" and "node_names ((prop, Some d) # ld_stack w) = ks" and "ks \<noteq> []"
  shows "value_runs Config_Enum prop (Some d) ctx w [Scalar s] [Key_Call (join_names ks) Vtype_Number Ntype_Uint8 [b]]"
  using assms
  by (intro scalar_runs [where f = "\<lambda>r. r"])
    (auto simp: config_consume_def uwbs_config_loader_enum_consume_event_def current_node_def enum_value_def
      bind_eq_Some_conv)

section \<open>Arrays\<close>

text \<open>The bytes of an element of an array and their type. The leaves are integers.\<close>

fun item_ok :: "uwbs_config_model_property \<Rightarrow> bool" where
  "item_ok (Model_Property node ref mi ma items max_items bit_size) =
     (mn_type node = Type_Integer \<and> number_format (mn_underlying_type node) \<noteq> None \<or>
      mn_type node = Type_Array \<and> (case items of None \<Rightarrow> False | Some q \<Rightarrow> item_ok q))"

fun leaf_ntype :: "uwbs_config_model_property \<Rightarrow> uwbs_config_number_type option" where
  "leaf_ntype (Model_Property node ref mi ma items max_items bit_size) =
     (if mn_type node = Type_Integer then map_option fst (number_format (mn_underlying_type node))
      else case items of None \<Rightarrow> None | Some q \<Rightarrow> leaf_ntype q)"

fun elem_data :: "uwbs_config_model_property \<Rightarrow> config \<Rightarrow> bytes option" and
    seq_data :: "uwbs_config_model_property \<Rightarrow> config list \<Rightarrow> bytes option" where
  "elem_data p (Cfg_Scalar s) = (if mn_type (pr_node p) = Type_Integer then map_option snd (number_bytes p s) else None)"
| "elem_data p (Cfg_Seq cs) =
     (if mn_type (pr_node p) = Type_Array then do { q \<leftarrow> pr_items p; seq_data q cs } else None)"
| "elem_data p (Cfg_Map kvs) = None"
| "seq_data q [] = Some []"
| "seq_data q (c # cs) = do { bs \<leftarrow> elem_data q c; cs' \<leftarrow> seq_data q cs; Some (bs @ cs') }"

definition item_node :: "uwbs_config_model_property \<Rightarrow> config_node" where
  "item_node p = (if mn_type (pr_node p) = Type_Integer then Config_Integer else Config_Array)"

text \<open>The state after some bytes were appended to the array.\<close>

definition appended :: "uwbs_config_number_type option \<Rightarrow> uwbs_config_load \<Rightarrow> bytes \<Rightarrow> uwbs_config_load \<Rightarrow> bool" where
  "appended nt w bs w' \<longleftrightarrow> ld_model w' = ld_model w \<and> ld_stack w' = ld_stack w \<and> ld_fails w' = ld_fails w \<and>
     ld_calls w' = ld_calls w \<and> ld_array w' = map_option (\<lambda>a. a\<lparr>la_data := la_data a @ bs\<rparr>) (ld_array w) \<and>
     (if bs = [] then ld_array_ntype w' = ld_array_ntype w else Some (ld_array_ntype w') = nt)"

lemma appended_trans: "appended nt w bs w' \<Longrightarrow> appended nt w' cs w'' \<Longrightarrow> appended nt w (bs @ cs) w''"
  by (auto simp: appended_def option.map_comp comp_def split: if_splits)

lemma appended_array: "appended nt w bs w' \<Longrightarrow> ld_array w = Some a \<Longrightarrow> ld_array w' = Some (a\<lparr>la_data := la_data a @ bs\<rparr>)"
  by (simp add: appended_def)

lemma enter_item:
  assumes "room_for ctx w (Suc n)" and "item_ok q"
  shows "uwbs_config_loader_enter_property_node ctx w (Some q) def =
    Some (CONFIG_OK, ctx\<lparr>node_stack := Node (item_node q) # node_stack ctx\<rparr>, w\<lparr>ld_stack := (Some q, def) # ld_stack w\<rparr>)"
  using assms by (cases q)
    (auto simp: uwbs_config_loader_enter_property_node_def uwbs_config_model_get_node_def enter_ok item_node_def
      split: option.splits)

text \<open>What the events of an element do, its node being on the top of the stacks.\<close>

definition elem_runs :: "uwbs_config_model_property \<Rightarrow> config_ctx \<Rightarrow> uwbs_config_load \<Rightarrow> yaml_event list \<Rightarrow> bytes \<Rightarrow> bool" where
  "elem_runs p ctx w es bs \<longleftrightarrow> (\<exists>w'. appended (leaf_ntype p) w bs w' \<and>
     (\<forall>rest. consumes config_loader (es @ rest) ctx w = consumes config_loader rest ctx w'))"

definition elem_pre :: "uwbs_config_model_property \<Rightarrow> config_ctx \<Rightarrow> uwbs_config_load \<Rightarrow> bytes \<Rightarrow> nat \<Rightarrow> bool" where
  "elem_pre p ctx w bs n \<longleftrightarrow> item_ok p \<and> (\<exists>ns st. node_stack ctx = Node (item_node p) # ns \<and> ld_stack w = (Some p, None) # st) \<and>
     room_for ctx w n \<and>
     (\<exists>a. ld_array w = Some a \<and> length (la_data a) + length bs \<le> la_size a \<and> la_depth a \<noteq> 0 \<and> la_depth a \<le> length (ld_stack w))"

lemma elem_pre_appended:
  assumes "elem_pre p ctx w (bs @ cs) n" and "appended nt w bs w'"
  shows "elem_pre p ctx w' cs n"
  using assms by (auto simp: elem_pre_def appended_def room_for_def)

lemma elem_pre_less: "elem_pre p ctx w bs n \<Longrightarrow> length cs \<le> length bs \<Longrightarrow> m \<le> n \<Longrightarrow> elem_pre p ctx w cs m"
  unfolding elem_pre_def room_for_def by (elim conjE exE) (intro conjI exI; (assumption | linarith))

lemma elem_number:
  assumes "elem_data p (Cfg_Scalar s) = Some bs" and "elem_pre p ctx w bs n"
  shows "elem_runs p ctx w [Scalar s] bs"
proof -
  from assms(1) have t: "mn_type (pr_node p) = Type_Integer" by (simp split: if_splits)
  from assms(1) t obtain nt v k where v: "strtoll s = (v, [])" "\<not> v < pr_minimum p" "\<not> pr_maximum p < v"
    and k: "number_format (mn_underlying_type (pr_node p)) = Some (nt, k)" and bs: "bs = le_bytes k (of_int v :: 32 word)"
    by (auto simp: number_bytes_def number_value_def bind_eq_Some_conv split: prod.splits if_splits)
  from assms(2) obtain ns st a where ns: "node_stack ctx = Node Config_Integer # ns" and st: "ld_stack w = (Some p, None) # st"
    and a: "ld_array w = Some a" and fits: "length (la_data a) + length bs \<le> la_size a"
    unfolding elem_pre_def item_node_def using t by auto
  define w' where "w' = w\<lparr>ld_array := Some (a\<lparr>la_data := la_data a @ bs\<rparr>), ld_array_ntype := nt\<rparr>"
  have "uwbs_config_loader_on_new_key w Vtype_Number nt (le_bytes k (of_int v :: 32 word)) False = Some (CONFIG_OK, w')"
    using a fits by (simp add: uwbs_config_loader_on_new_key_def w'_def bs)
  then have step: "consume_node config_loader (Node Config_Integer) (Scalar s) ctx w = Some (CONFIG_OK, ctx, w')"
    using st t v k
    by (simp add: config_consume_def uwbs_config_loader_integer_consume_event_def current_node_def
        uwbs_config_loader_leave_node_def w'_def)
  have "leaf_ntype p = Some nt" using t k by (cases p) simp
  moreover have "bs \<noteq> []" using k bs by (auto simp: number_format_def le_bytes_def split: uwbs_config_model_underlying_type.splits)
  ultimately have "appended (leaf_ntype p) w bs w'" using a by (simp add: appended_def w'_def)
  with consumes_step [OF ns step] show ?thesis unfolding elem_runs_def by auto
qed

lemma elem_runs_append:
  assumes "elem_runs p ctx w es bs" and "\<And>w'. appended (leaf_ntype p) w bs w' \<Longrightarrow> elem_runs p ctx w' es' cs"
  shows "elem_runs p ctx w (es @ es') (bs @ cs)"
proof -
  obtain w' where w': "appended (leaf_ntype p) w bs w'"
    "\<And>rest. consumes config_loader (es @ rest) ctx w = consumes config_loader rest ctx w'"
    using assms(1) unfolding elem_runs_def by auto
  obtain w'' where "appended (leaf_ntype p) w' cs w''"
    "\<And>rest. consumes config_loader (es' @ rest) ctx w' = consumes config_loader rest ctx w''"
    using assms(2) [OF w'(1)] unfolding elem_runs_def by auto
  then show ?thesis unfolding elem_runs_def using appended_trans [OF w'(1)] w'(2) by (intro exI [of _ w'']) simp
qed

text \<open>A sequence inside an array: its start enters the node of the items, its end leaves it.\<close>

lemma elem_seq:
  assumes t: "mn_type (pr_node p) = Type_Array" "pr_items p = Some q" and pre: "elem_pre p ctx w bs (Suc n)"
    and run: "\<And>ctx' w'. elem_pre q ctx' w' bs n \<Longrightarrow> elem_runs q ctx' w' es bs"
  shows "elem_runs p ctx w (Sequence_Start # es @ [Sequence_End]) bs"
proof -
  from pre t obtain ns st a where ns: "node_stack ctx = Node Config_Array # ns" and st: "ld_stack w = (Some p, None) # st"
    and a: "ld_array w = Some a" and fits: "length (la_data a) + length bs \<le> la_size a" and room: "room_for ctx w (Suc n)"
    and d: "la_depth a \<noteq> 0" "la_depth a \<le> length (ld_stack w)"
    unfolding elem_pre_def item_node_def by auto
  from d room have less: "la_depth a < 10" unfolding room_for_def NODE_STACK_SIZE_def by linarith
  have q: "item_ok q" using pre t unfolding elem_pre_def by (cases p) (auto split: option.splits)
  define c1 where "c1 = ctx\<lparr>node_stack := Node (item_node q) # node_stack ctx\<rparr>"
  define w1 where "w1 = w\<lparr>ld_stack := (Some q, None) # ld_stack w, ld_array := Some (a\<lparr>la_depth := la_depth a + 1\<rparr>)\<rparr>"
  have "consume_node config_loader (Node Config_Array) Sequence_Start ctx w = Some (CONFIG_OK, c1, w1)"
    using st a t less enter_item [OF room q, of None]
    by (simp add: config_consume_def uwbs_config_loader_array_consume_event_def current_node_def c1_def w1_def)
  note start = consumes_step [OF ns this]
  have "elem_pre q c1 w1 bs n" using q room a fits d unfolding elem_pre_def c1_def w1_def room_for_def by simp
  from run [OF this] obtain w2 where w2: "appended (leaf_ntype q) w1 bs w2"
    "\<And>rest. consumes config_loader (es @ rest) c1 w1 = consumes config_loader rest c1 w2"
    unfolding elem_runs_def by auto
  define w' where "w' = w2\<lparr>ld_stack := ld_stack w, ld_array := Some (a\<lparr>la_data := la_data a @ bs\<rparr>)\<rparr>"
  have "uwbs_config_loader_node_consume_event Sequence_End c1 w2 = Some (CONFIG_OK, ctx, w')"
    using w2(1) less d
    by (simp add: uwbs_config_loader_node_consume_event_def appended_def w1_def w'_def Let_def
        uwbs_config_loader_leave_node_def c1_def)
  then have "consume_node config_loader (Node (item_node q)) Sequence_End c1 w2 = Some (CONFIG_OK, ctx, w')"
    by (simp add: config_consume_def item_node_def uwbs_config_loader_integer_consume_event_def
        uwbs_config_loader_array_consume_event_def)
  note stop = consumes_step [OF _ this]
  have "leaf_ntype p = leaf_ntype q" using t by (cases p) simp
  with w2(1) a have "appended (leaf_ntype p) w bs w'" by (simp add: appended_def w1_def w'_def split: if_splits)
  moreover have "consumes config_loader ((Sequence_Start # es @ [Sequence_End]) @ rest) ctx w = consumes config_loader rest ctx w'"
    for rest using start w2(2) stop by (simp add: c1_def)
  ultimately show ?thesis unfolding elem_runs_def by auto
qed

lemma elem_data_runs:
  shows "elem_data p c = Some bs \<Longrightarrow> elem_pre p ctx w bs (depth c - 1) \<Longrightarrow> elem_runs p ctx w (events_of c) bs"
    and "seq_data q cs = Some bs \<Longrightarrow> elem_pre q ctx w bs (seq_depth cs - 1) \<Longrightarrow> elem_runs q ctx w (seq_events cs) bs"
proof (induction p c and q cs arbitrary: ctx w bs and ctx w bs rule: elem_data_seq_data.induct)
  case (1 p s)
  then show ?case using elem_number by simp
next
  case (2 p cs)
  from 2(2) obtain q where q: "mn_type (pr_node p) = Type_Array" "pr_items p = Some q" "seq_data q cs = Some bs"
    by (auto split: if_splits simp: bind_eq_Some_conv)
  have "elem_pre p ctx w bs (Suc (seq_depth cs - 1))" using 2(3) by (rule elem_pre_less) auto
  from elem_seq [OF q(1,2) this] 2(1) [OF q(1,2,3)] show ?case by simp
next
  case (4 q)
  then show ?case by (auto simp: elem_runs_def appended_def option.map_ident intro!: exI [of _ w])
next
  case (5 q c cs)
  from 5(3) obtain b1 b2 where b: "elem_data q c = Some b1" "seq_data q cs = Some b2" "bs = b1 @ b2"
    by (auto simp: bind_eq_Some_conv)
  have 1: "elem_pre q ctx w b1 (depth c - 1)" using 5(4) by (rule elem_pre_less) (auto simp: b)
  have 2: "elem_pre q ctx w' b2 (seq_depth cs - 1)" if "appended (leaf_ntype q) w b1 w'" for w'
  proof -
    have "elem_pre q ctx w' b2 (seq_depth (c # cs) - 1)" using 5(4) that unfolding b(3) by (rule elem_pre_appended)
    then show ?thesis by (rule elem_pre_less) auto
  qed
  show ?case using elem_runs_append [OF 5(1) [OF b(1) 1]] 5(2) [OF b(1) b(2) 2] by (simp add: b(3))
qed simp

text \<open>A whole array: as many bytes as the model says, and an item without a name.\<close>

definition array_data :: "uwbs_config_model_property \<Rightarrow> config list \<Rightarrow> (uwbs_config_number_type \<times> bytes) option" where
  "array_data p cs =
     do {
       q \<leftarrow> pr_items p;
       bs \<leftarrow> seq_data q cs;
       n \<leftarrow> items_size q;
       nt \<leftarrow> leaf_ntype q;
       if item_ok q \<and> mn_name (pr_node q) = None \<and> bs \<noteq> [] \<and> length bs = pr_max_items p * n mod size_modulus
       then Some (nt, bs) else None
     }"

lemma array_runs:
  assumes t: "mn_type (pr_node p) = Type_Array" and data: "array_data p cs = Some (nt, bs)" and p: "plain w"
    and names: "node_names ((Some p, def) # ld_stack w) = ks" "ks \<noteq> []" and room: "room_for ctx w (depth (Cfg_Seq cs))"
  shows "value_runs Config_Array (Some p) def ctx w (events_of (Cfg_Seq cs)) [Key_Call (join_names ks) Vtype_Array_Number nt bs]"
  unfolding value_runs_def
proof (intro allI impI)
  fix rest w1
  assume w1: "w1 = w\<lparr>ld_stack := (Some p, def) # ld_stack w\<rparr>"
  from data obtain q n where q: "pr_items p = Some q" "seq_data q cs = Some bs" "items_size q = Some n" "leaf_ntype q = Some nt"
    "item_ok q" "mn_name (pr_node q) = None" "bs \<noteq> []" "pr_max_items p * n mod size_modulus = length bs"
    by (auto simp: array_data_def bind_eq_Some_conv split: if_splits)
  let ?c = "ctx\<lparr>node_stack := Node Config_Array # node_stack ctx\<rparr>"
  define c2 where "c2 = ctx\<lparr>node_stack := Node (item_node q) # Node Config_Array # node_stack ctx\<rparr>"
  define w2 where "w2 = w\<lparr>ld_stack := (Some q, None) # (Some p, def) # ld_stack w, ld_allocs := Suc (ld_allocs w),
    ld_array := Some \<lparr>la_size = length bs, la_data = [], la_depth = 1\<rparr>\<rparr>"
  have room1: "room_for ?c w1 (Suc (max 1 (seq_depth cs) - 1))" using room by (auto simp: room_for_def w1)
  have "consume_node config_loader (Node Config_Array) Sequence_Start ?c w1 = Some (CONFIG_OK, c2, w2)"
    using p q t enter_item [OF room1 q(5), of None]
    by (simp add: config_consume_def uwbs_config_loader_array_consume_event_def current_node_def config_alloc_def plain_def
        c2_def w2_def w1)
  note start = consumes_step [OF _ this]
  have "elem_pre q c2 w2 bs (seq_depth cs - 1)" using q room by (auto simp: elem_pre_def c2_def w2_def room_for_def)
  from elem_data_runs(2) [OF q(2) this] obtain w3 where w3: "appended (leaf_ntype q) w2 bs w3"
    "\<And>rest. consumes config_loader (seq_events cs @ rest) c2 w2 = consumes config_loader rest c2 w3"
    unfolding elem_runs_def by auto
  define w' where "w' = w3\<lparr>ld_stack := ld_stack w, ld_array := None, ld_allocs := Suc (ld_allocs w3),
    ld_calls := ld_calls w @ [Key_Call (join_names ks) Vtype_Array_Number nt bs]\<rparr>"
  have "node_names ((Some q, None) # (Some p, def) # ld_stack w) = ks"
    using names q(6) by (simp add: node_names_Cons)
  then have "uwbs_config_loader_node_consume_event Sequence_End c2 w3 = Some (CONFIG_OK, ctx, w')"
    using w3(1) p names(2) q
    by (simp add: uwbs_config_loader_node_consume_event_def appended_def w2_def w'_def Let_def
        uwbs_config_loader_leave_node_def uwbs_config_loader_on_new_key_def config_alloc_def plain_def c2_def)
  then have "consume_node config_loader (Node (item_node q)) Sequence_End c2 w3 = Some (CONFIG_OK, ctx, w')"
    by (simp add: config_consume_def item_node_def uwbs_config_loader_integer_consume_event_def
        uwbs_config_loader_array_consume_event_def)
  note stop = consumes_step [OF _ this]
  have "consumes config_loader (events_of (Cfg_Seq cs) @ rest) ?c w1 = consumes config_loader rest ctx w'"
    using start w3(2) stop by (simp add: c2_def)
  moreover have "called w [Key_Call (join_names ks) Vtype_Array_Number nt bs] w'"
    using w3(1) p by (simp add: called_def appended_def w2_def w'_def plain_def)
  ultimately show "\<exists>w'. consumes config_loader (events_of (Cfg_Seq cs) @ rest) ?c w1 = consumes config_loader rest ctx w' \<and>
      called w [Key_Call (join_names ks) Vtype_Array_Number nt bs] w'" by auto
qed

end
