(* ===== verification/Config_Fields.thy ===== *)
theory Config_Fields
  imports Config_Values "HOL-Library.Multiset"
begin

text \<open>
  Bit fields: the loader combines the fields with a bitwise or, in the order in which they are given; the value is
  the fields packed side by side in the order of the model.
\<close>

section \<open>Packing\<close>

text \<open>Fields given by their number of bits and their values, the first in the low bits.\<close>

fun pack :: "(nat \<times> nat) list \<Rightarrow> nat" where
  "pack [] = 0"
| "pack ((b, v) # xs) = v + 2 ^ b * pack xs"

lemma pack_less: "\<forall>(b, v) \<in> set xs. v < 2 ^ b \<Longrightarrow> pack xs < 2 ^ sum_list (map fst xs)"
proof (induction xs)
  case (Cons x xs)
  obtain b v where x: "x = (b, v)" by fastforce
  with Cons have "v < 2 ^ b" and "pack xs + 1 \<le> 2 ^ sum_list (map fst xs)" by auto
  then have "v + 2 ^ b * pack xs < 2 ^ b * (pack xs + 1)" "2 ^ b * (pack xs + 1) \<le> 2 ^ b * (2 ^ sum_list (map fst xs) :: nat)"
    by (simp_all only: mult_le_mono2) simp
  then show ?case by (simp add: x power_add)
qed simp

lemma pack_ones: "pack (map (\<lambda>_. (1, 1)) xs) + 1 = 2 ^ length xs"
  by (induction xs) simp_all

lemma or_above:
  fixes a v :: nat
  assumes "a < 2 ^ n"
  shows "a OR v * 2 ^ n = a + v * 2 ^ n"
proof -
  have "a AND push_bit n v = 0"
  proof (rule bit_eqI)
    fix k
    have "take_bit n a = a" using assms by (rule take_bit_nat_eq_self)
    then have "bit a k \<Longrightarrow> k < n" by (metis bit_take_bit_iff)
    then show "bit (a AND push_bit n v) k \<longleftrightarrow> bit (0::nat) k" by (auto simp: bit_and_iff bit_push_bit_iff)
  qed
  then show ?thesis by (simp add: disjunctive_add_eq_or push_bit_eq_mult)
qed

text \<open>The fields one after the other, each at its offset.\<close>

fun at_offsets :: "nat \<Rightarrow> (nat \<times> nat) list \<Rightarrow> nat list" where
  "at_offsets n [] = []"
| "at_offsets n ((b, v) # xs) = v * 2 ^ n # at_offsets (n + b) xs"

lemma fold_or_pack:
  "a < 2 ^ n \<Longrightarrow> \<forall>(b, v) \<in> set xs. v < 2 ^ b \<Longrightarrow> fold (\<lambda>x a. a OR x) (at_offsets n xs) a = a + 2 ^ n * pack xs"
proof (induction xs arbitrary: a n)
  case (Cons x xs)
  obtain b v where x: "x = (b, v)" by fastforce
  with Cons.prems have "v + 1 \<le> 2 ^ b" by auto
  then have "2 ^ n * (v + 1) \<le> 2 ^ n * (2 ^ b :: nat)" by (simp only: mult_le_mono2)
  with Cons.prems(1) have "a + v * 2 ^ n < 2 ^ (n + b)" by (simp add: power_add algebra_simps)
  with Cons.IH [of "a + v * 2 ^ n" "n + b"] Cons.prems or_above [of a n v] show ?case
    by (simp add: x power_add algebra_simps)
qed simp

lemma fold_or_perm:
  fixes xs ys :: "'a::semiring_bit_operations list"
  assumes "mset xs = mset ys"
  shows "fold (\<lambda>x a. a OR x) xs a = fold (\<lambda>x a. a OR x) ys a"
proof -
  have "fold (\<lambda>x a. a OR x) xs = fold (\<lambda>x a. a OR x) ys"
    by (rule fold_multiset_equiv) (auto simp: fun_eq_iff or.left_commute or.commute or.assoc assms)
  then show ?thesis by simp
qed

lemma fold_or_word:
  "fold (\<lambda>x a. a OR x) (map of_nat xs) (of_nat a :: 32 word) = of_nat (fold (\<lambda>x a. a OR x) xs a)"
  by (induction xs arbitrary: a) (simp_all flip: of_nat_or_eq)

lemma bit_fold_or: "bit (fold (\<lambda>x a. a OR x) xs a) n \<longleftrightarrow> bit a n \<or> (\<exists>x \<in> set xs. bit x n)"
  by (induction xs arbitrary: a) (auto simp: bit_or_iff)

section \<open>The fields of the model\<close>

text \<open>The required fields with their names, and where a field is: its index, its offset and its property.\<close>

fun named_fields :: "uwbs_config_model_def \<Rightarrow> string option list \<Rightarrow> (string \<times> uwbs_config_model_property) list option" where
  "named_fields d [] = Some []"
| "named_fields d (name # names) =
     do {
       s \<leftarrow> name;
       p \<leftarrow> uwbs_config_model_def_find_property d s;
       p \<leftarrow> p;
       fs \<leftarrow> named_fields d names;
       Some ((s, p) # fs)
     }"

abbreviation field_bits :: "uwbs_config_model_property \<Rightarrow> nat" where
  "field_bits \<equiv> uwbs_config_model_bitfield_get_field_bit_count"

fun field_place ::
    "(string \<times> uwbs_config_model_property) list \<Rightarrow> string \<Rightarrow> (nat \<times> nat \<times> uwbs_config_model_property) option" where
  "field_place [] s = None"
| "field_place ((n, p) # fs) s =
     (if n = s then Some (0, 0, p) else map_option (\<lambda>(i, off, q). (Suc i, field_bits p + off, q)) (field_place fs s))"

lemma required_fields_named: "required_fields d names = map_option (map snd) (named_fields d names)"
proof (induction names)
  case (Cons name names)
  then show ?case by (cases name) (auto split: bind_splits option.splits)
qed simp

lemma field_place_index:
  "field_place fs s = Some (i, off, p) \<Longrightarrow> i < length fs \<and> fst (fs ! i) = s \<and> off \<le> sum_list (map (field_bits \<circ> snd) fs) - field_bits p
     \<and> off + field_bits p \<le> sum_list (map (field_bits \<circ> snd) fs)"
  by (induction fs s arbitrary: i off p rule: field_place.induct) (auto split: if_splits)

lemma field_place_append:
  "s \<notin> set (map fst pre) \<Longrightarrow>
     field_place (pre @ (s, p) # fs) s = Some (length pre, sum_list (map (field_bits \<circ> snd) pre), p)"
  by (induction pre) auto

lemma find_field_place:
  assumes "named_fields d names = Some fs" and "field_place fs s = Some (j, off, p)"
    and "i + j < 31" and "\<not> bit (ld_bitfield_fields_mask w) (i + j)" and "ld_bitfield_offset w + off < 256"
  shows "find_field ctx w d s i names = uwbs_config_loader_enter_node ctx Config_Bitfield_Field
    (w\<lparr>ld_bitfield_offset := ld_bitfield_offset w + off,
       ld_bitfield_fields_mask := ld_bitfield_fields_mask w OR 2 ^ (i + j)\<rparr>) (Some p) None"
  using assms
proof (induction names arbitrary: fs i j off w)
  case (Cons name names)
  from Cons.prems(1) obtain n q fs' where n: "name = Some n" "uwbs_config_model_def_find_property d n = Some (Some q)"
    "named_fields d names = Some fs'" "fs = (n, q) # fs'"
    by (cases name) (auto simp: bind_eq_Some_conv)
  show ?case
  proof (cases "n = s")
    case True
    then show ?thesis using Cons.prems n by (cases w) auto
  next
    case False
    from False Cons.prems(2) n obtain j' off' where j: "field_place fs' s = Some (j', off', p)" "j = Suc j'"
      "off = field_bits q + off'" by auto
    show ?thesis using False n Cons.prems j
      by (simp add: Cons.IH [OF n(3) j(1)] ac_simps)
  qed
qed simp

section \<open>Loading the fields\<close>

definition field_ok :: "uwbs_config_model_property \<Rightarrow> bool" where
  "field_ok p \<longleftrightarrow> mn_type (pr_node p) = Type_Integer \<and> mn_underlying_type (pr_node p) = Utype_Null \<and>
     0 \<le> pr_minimum p \<and> pr_maximum p < 2 ^ 63"

text \<open>What a field adds to the mask and to the value.\<close>

definition place_index :: "(string \<times> uwbs_config_model_property) list \<Rightarrow> string \<Rightarrow> nat" where
  "place_index fs s = (case field_place fs s of None \<Rightarrow> 0 | Some (i, _) \<Rightarrow> i)"

definition contribution :: "(string \<times> uwbs_config_model_property) list \<Rightarrow> string \<times> config \<Rightarrow> nat" where
  "contribution fs kc =
     (case (field_place fs (fst kc), snd kc) of
        (Some (i, off, p), Cfg_Scalar s) \<Rightarrow> (case number_value p s of None \<Rightarrow> 0 | Some v \<Rightarrow> nat v * 2 ^ off)
      | _ \<Rightarrow> 0)"

definition field_given :: "(string \<times> uwbs_config_model_property) list \<Rightarrow> string \<times> config \<Rightarrow> bool" where
  "field_given fs kc \<longleftrightarrow> (\<exists>k s i off p v. kc = (k, Cfg_Scalar s) \<and> field_place fs k = Some (i, off, p) \<and> number_value p s = Some v)"

definition fields_ok :: "(string \<times> uwbs_config_model_property) list \<Rightarrow> bool" where
  "fields_ok fs \<longleftrightarrow> list_all (\<lambda>(_, p). field_ok p) fs \<and> sum_list (map (field_bits \<circ> snd) fs) \<le> 32 \<and> length fs < 31 \<and>
     distinct (map fst fs)"

lemma field_value_less:
  assumes "field_ok p" and "number_value p s = Some v"
  shows "0 \<le> v \<and> nat v < 2 ^ field_bits p"
proof -
  from assms have v: "0 \<le> v" "v \<le> pr_maximum p" "pr_maximum p < 2 ^ 63"
    by (auto simp: field_ok_def number_value_def split: prod.splits if_splits)
  then have "pr_maximum p mod 2 ^ 64 = pr_maximum p" by simp
  then have "field_bits p = bit_count (nat (pr_maximum p))" using assms(1)
    by (simp add: uwbs_config_model_bitfield_get_field_bit_count_def field_ok_def)
  moreover have "nat v \<le> nat (pr_maximum p)" using v by simp
  ultimately show ?thesis using v bit_count_less [of "nat (pr_maximum p)"] by (metis order.strict_trans1)
qed

lemma field_place_member: "field_place fs s = Some (i, off, p) \<Longrightarrow> (s, p) \<in> set fs"
  by (induction fs s arbitrary: i off p rule: field_place.induct) (auto split: if_splits)

lemma shifted_less:
  assumes "fields_ok fs" and "field_place fs k = Some (i, off, p)" and "number_value p s = Some v"
  shows "0 \<le> v" "v * 2 ^ off < 2 ^ 63" "off \<le> 32" "i < 31"
proof -
  have "field_ok p" using assms(1) field_place_member [OF assms(2)] by (auto simp: fields_ok_def list_all_iff)
  from field_value_less [OF this assms(3)] have v: "0 \<le> v" "nat v < 2 ^ field_bits p" by auto
  from field_place_index [OF assms(2)] assms(1) have sum: "off + field_bits p \<le> 32" "i < 31" by (auto simp: fields_ok_def)
  have "nat v * 2 ^ off < 2 ^ field_bits p * 2 ^ off" using v by simp
  also have "\<dots> = 2 ^ (off + field_bits p)" by (simp add: power_add)
  also have "\<dots> \<le> (2 ^ 32 :: nat)" using sum by (intro power_increasing) auto
  finally have "int (nat v * 2 ^ off) < int (2 ^ 32)" by (simp only: of_nat_less_iff)
  moreover have "int (nat v * 2 ^ off) = v * 2 ^ off" using v by simp
  ultimately show "0 \<le> v" "v * 2 ^ off < 2 ^ 63" using v by simp_all
  show "off \<le> 32" "i < 31" using sum by simp_all
qed

text \<open>The state at a bit field: its node on the top, no array.\<close>

definition at_bitfield :: "uwbs_config_model_def \<Rightarrow> config_ctx \<Rightarrow> uwbs_config_load \<Rightarrow> bool" where
  "at_bitfield d ctx w \<longleftrightarrow> mn_type (df_node d) = Type_Object \<and> mn_underlying_type (df_node d) = Utype_Bitfield \<and>
     (\<exists>ns prop st. node_stack ctx = Node Config_Bitfield # ns \<and> ld_stack w = (prop, Some d) # st) \<and>
     ld_array w = None \<and> room_for ctx w 1"

lemma field_runs:
  assumes d: "at_bitfield d ctx w" and fs: "named_fields d (vec_arr (df_required d)) = Some fs" "fields_ok fs"
    and k: "field_place fs k = Some (i, off, p)" "number_value p s = Some v" and new: "\<not> bit (ld_bitfield_fields_mask w) i"
    and w': "w' = w\<lparr>ld_bitfield_offset := off, ld_bitfield_fields_mask := ld_bitfield_fields_mask w OR of_nat (2 ^ i),
      ld_bitfield_value := ld_bitfield_value w OR of_nat (nat v * 2 ^ off)\<rparr>"
  shows "consumes config_loader (Scalar k # Scalar s # rest) ctx w = consumes config_loader rest ctx w'"
proof -
  note less = shifted_less [OF fs(2) k]
  from d obtain ns q st where ns: "node_stack ctx = Node Config_Bitfield # ns" and st: "ld_stack w = (q, Some d) # st"
    and none: "ld_array w = None" unfolding at_bitfield_def by auto
  define w1 where "w1 = w\<lparr>ld_bitfield_offset := off, ld_bitfield_fields_mask := ld_bitfield_fields_mask w OR 2 ^ i\<rparr>"
  define c2 where "c2 = ctx\<lparr>node_stack := Node Config_Bitfield_Field # node_stack ctx\<rparr>"
  define w2 where "w2 = w1\<lparr>ld_stack := (Some p, None) # ld_stack w\<rparr>"
  have "room_for ctx w1 (Suc 0)" using d by (simp add: at_bitfield_def room_for_def w1_def)
  from enter_ok [OF this] have enter: "uwbs_config_loader_enter_node ctx Config_Bitfield_Field w1 (Some p) None = Some (CONFIG_OK, c2, w2)"
    by (simp add: c2_def w2_def w1_def)
  have "find_field ctx (w\<lparr>ld_bitfield_offset := 0\<rparr>) d k 0 (vec_arr (df_required d)) = Some (CONFIG_OK, c2, w2)"
    using find_field_place [OF fs(1) k(1), of 0 "w\<lparr>ld_bitfield_offset := 0\<rparr>" ctx] less new enter by (simp add: w1_def)
  then have "consume_node config_loader (Node Config_Bitfield) (Scalar k) ctx w = Some (CONFIG_OK, c2, w2)"
    using d st
    by (simp add: config_consume_def uwbs_config_loader_bitfield_consume_event_def current_node_def at_bitfield_def)
  note 1 = consumes_step [OF ns this]
  have strto: "strtoll s = (v, [])" "\<not> v < pr_minimum p" "\<not> pr_maximum p < v"
    using k(2) by (auto simp: number_value_def split: prod.splits if_splits)
  have v: "nat v * 2 ^ off = nat (v * 2 ^ off)" using less by (simp add: nat_mult_distrib)
  have "(of_int (v * 2 ^ off) :: 32 word) = of_nat (nat v * 2 ^ off)" unfolding v using less by (simp add: of_nat_nat)
  then have "consume_node config_loader (Node Config_Bitfield_Field) (Scalar s) c2 w2 = Some (CONFIG_OK, ctx, w')"
    using strto less none
    by (simp add: config_consume_def uwbs_config_loader_bitfield_field_consume_event_def current_node_def
        uwbs_config_loader_leave_node_def c2_def w2_def w1_def w')
  note 2 = consumes_step [OF _ this]
  show ?thesis using 1 2 by (simp add: c2_def)
qed

definition fields_loaded ::
    "(string \<times> uwbs_config_model_property) list \<Rightarrow> (string \<times> config) list \<Rightarrow> uwbs_config_load \<Rightarrow> nat \<Rightarrow> uwbs_config_load" where
  "fields_loaded fs kvs w off =
     w\<lparr>ld_bitfield_offset := off,
       ld_bitfield_fields_mask :=
         fold (\<lambda>x a. a OR x) (map of_nat (map (\<lambda>kc. 2 ^ place_index fs (fst kc)) kvs)) (ld_bitfield_fields_mask w),
       ld_bitfield_value := fold (\<lambda>x a. a OR x) (map of_nat (map (contribution fs) kvs)) (ld_bitfield_value w)\<rparr>"

lemma place_index_inj:
  "field_place fs k = Some x \<Longrightarrow> field_place fs k' = Some x' \<Longrightarrow> place_index fs k = place_index fs k' \<Longrightarrow> k = k'"
  using field_place_index [of fs k] field_place_index [of fs k'] by (cases x; cases x') (auto simp: place_index_def)

lemma fields_run:
  assumes fs: "named_fields d (vec_arr (df_required d)) = Some fs" "fields_ok fs"
  shows "at_bitfield d ctx w \<Longrightarrow> list_all (field_given fs) kvs \<Longrightarrow> distinct (map fst kvs) \<Longrightarrow>
    \<forall>kc \<in> set kvs. \<not> bit (ld_bitfield_fields_mask w) (place_index fs (fst kc)) \<Longrightarrow>
    \<exists>off. consumes config_loader (map_events kvs @ rest) ctx w = consumes config_loader rest ctx (fields_loaded fs kvs w off)"
proof (induction kvs arbitrary: w)
  case Nil
  then show ?case by (auto simp: fields_loaded_def intro!: exI [of _ "ld_bitfield_offset w"])
next
  case (Cons kc kvs)
  from Cons.prems(2) obtain k s i off p v where kc: "kc = (k, Cfg_Scalar s)" "field_place fs k = Some (i, off, p)"
    "number_value p s = Some v" by (auto simp: field_given_def)
  have i: "place_index fs k = i" and c: "contribution fs kc = nat v * 2 ^ off" using kc by (simp_all add: place_index_def contribution_def)
  define w' where "w' = w\<lparr>ld_bitfield_offset := off,
    ld_bitfield_fields_mask := ld_bitfield_fields_mask w OR of_nat (2 ^ i),
    ld_bitfield_value := ld_bitfield_value w OR of_nat (nat v * 2 ^ off)\<rparr>"
  have 1: "consumes config_loader (Scalar k # Scalar s # es) ctx w = consumes config_loader es ctx w'" for es
    using field_runs [OF Cons.prems(1) fs kc(2,3) _ w'_def] Cons.prems(4) kc(1) i by simp
  have "\<not> bit (ld_bitfield_fields_mask w') (place_index fs (fst kc'))" if kc': "kc' \<in> set kvs" for kc'
  proof -
    obtain x where "field_place fs (fst kc') = Some x" using Cons.prems(2) kc' by (fastforce simp: field_given_def list_all_iff)
    moreover have "fst kc' \<noteq> k" using Cons.prems(3) kc' kc(1) by auto
    ultimately have "place_index fs (fst kc') \<noteq> i" using place_index_inj [OF kc(2)] i by metis
    then show ?thesis using Cons.prems(4) kc' by (auto simp: w'_def bit_or_iff bit_exp_iff)
  qed
  moreover have "at_bitfield d ctx w'" using Cons.prems(1) by (simp add: at_bitfield_def w'_def room_for_def)
  ultimately obtain off' where "consumes config_loader (map_events kvs @ rest) ctx w' =
    consumes config_loader rest ctx (fields_loaded fs kvs w' off')" using Cons.IH [of w'] Cons.prems(2,3) by auto
  moreover have "fields_loaded fs kvs w' off' = fields_loaded fs (kc # kvs) w off'"
    using i c kc(1) by (simp add: fields_loaded_def w'_def)
  ultimately show ?case using 1 by (simp add: kc(1)) metis
qed

section \<open>All the fields\<close>

text \<open>What a field of the model is given as.\<close>

definition field_value :: "(string \<times> config) list \<Rightarrow> string \<times> uwbs_config_model_property \<Rightarrow> int option" where
  "field_value kvs np = (case map_of kvs (fst np) of Some (Cfg_Scalar s) \<Rightarrow> number_value (snd np) s | _ \<Rightarrow> None)"

definition field_values :: "(string \<times> uwbs_config_model_property) list \<Rightarrow> (string \<times> config) list \<Rightarrow> (nat \<times> nat) list" where
  "field_values fs kvs = map (\<lambda>np. (field_bits (snd np), nat (the (field_value kvs np)))) fs"

lemma permuted_by_keys:
  assumes "mset (map fst kvs) = mset ns" and "distinct ns"
  shows "mset (map (\<lambda>n. (n, the (map_of kvs n))) ns) = mset kvs"
proof -
  have d: "distinct (map fst kvs)" using assms by (metis mset_eq_imp_distinct_iff)
  have "mset (map (\<lambda>n. (n, the (map_of kvs n))) ns) = image_mset (\<lambda>n. (n, the (map_of kvs n))) (mset (map fst kvs))"
    unfolding assms(1) by simp
  also have "\<dots> = mset (map (\<lambda>kc. (fst kc, the (map_of kvs (fst kc)))) kvs)"
    by (simp add: multiset.map_comp comp_def)
  also have "map (\<lambda>kc. (fst kc, the (map_of kvs (fst kc)))) kvs = kvs"
    using d by (intro map_idI) auto
  finally show ?thesis .
qed

lemma contributions_at_offsets:
  assumes "distinct (map fst (pre @ fs))" and "\<forall>np \<in> set fs. field_value kvs np \<noteq> None"
  shows "map (contribution (pre @ fs)) (map (\<lambda>n. (n, the (map_of kvs n))) (map fst fs)) =
      at_offsets (sum_list (map (field_bits \<circ> snd) pre)) (field_values fs kvs) \<and>
    map (\<lambda>kc. 2 ^ place_index (pre @ fs) (fst kc)) (map (\<lambda>n. (n, the (map_of kvs n))) (map fst fs)) =
      at_offsets (length pre) (map (\<lambda>_. (1, 1)) fs)"
  using assms
proof (induction fs arbitrary: pre)
  case (Cons np fs)
  obtain n p where np: "np = (n, p)" by fastforce
  from Cons.prems(2) np obtain s v where v: "map_of kvs n = Some (Cfg_Scalar s)" "number_value p s = Some v"
    "field_value kvs np = Some v" by (auto simp: field_value_def split: option.splits config.splits)
  have "field_place (pre @ (n, p) # fs) n = Some (length pre, sum_list (map (field_bits \<circ> snd) pre), p)"
    using Cons.prems(1) by (intro field_place_append) (simp add: np)
  then have "contribution (pre @ np # fs) (n, the (map_of kvs n)) = nat v * 2 ^ sum_list (map (field_bits \<circ> snd) pre)"
    and "place_index (pre @ np # fs) n = length pre"
    using v by (simp_all add: contribution_def place_index_def np)
  with Cons.IH [of "pre @ [np]"] Cons.prems v show ?case by (simp add: field_values_def np comp_def)
qed (simp add: field_values_def)

definition bitfield_data :: "uwbs_config_model_def \<Rightarrow> (string \<times> config) list \<Rightarrow> (uwbs_config_number_type \<times> bytes) option" where
  "bitfield_data d kvs =
     do {
       fs \<leftarrow> named_fields d (vec_arr (df_required d));
       (nt, k) \<leftarrow> uwbs_config_bitfield_get_ntype d;
       if mn_type (df_node d) = Type_Object \<and> mn_underlying_type (df_node d) = Utype_Bitfield \<and> kvs \<noteq> [] \<and> fields_ok fs \<and>
          mset (map fst kvs) = mset (map fst fs) \<and> list_all (\<lambda>np. field_value kvs np \<noteq> None) fs
       then Some (nt, le_bytes k (of_nat (pack (field_values fs kvs)) :: 32 word)) else None
     }"

lemma given_fields:
  assumes "mset (map fst kvs) = mset (map fst fs)" and "distinct (map fst fs)" and "list_all (\<lambda>np. field_value kvs np \<noteq> None) fs"
  shows "list_all (field_given fs) kvs" and "distinct (map fst kvs)"
proof -
  show d: "distinct (map fst kvs)" using assms(1,2) by (metis mset_eq_imp_distinct_iff)
  have "field_given fs (k, c)" if kc: "(k, c) \<in> set kvs" for k c
  proof -
    have "k \<in> set (map fst fs)" using assms(1) kc by (metis mset_eq_setD in_set_zipE zip_map_fst_snd)
    then obtain p pre post where fs: "fs = pre @ (k, p) # post" by (auto dest: split_list)
    then have "field_place fs k = Some (length pre, sum_list (map (field_bits \<circ> snd) pre), p)"
      using assms(2) by (auto intro!: field_place_append)
    moreover have "map_of kvs k = Some c" using d kc by simp
    moreover have "field_value kvs (k, p) \<noteq> None" using assms(3) fs by simp
    ultimately show ?thesis by (auto simp: field_given_def field_value_def split: config.splits)
  qed
  then show "list_all (field_given fs) kvs" by (auto simp: list_all_iff)
qed

lemma fields_loaded_all:
  assumes m: "mset (map fst kvs) = mset (map fst fs)" and fs: "fields_ok fs" and given: "list_all (\<lambda>np. field_value kvs np \<noteq> None) fs"
    and w: "ld_bitfield_fields_mask w = 0" "ld_bitfield_value w = 0"
  shows "fields_loaded fs kvs w off = w\<lparr>ld_bitfield_offset := off, ld_bitfield_fields_mask := 2 ^ length fs - 1,
    ld_bitfield_value := of_nat (pack (field_values fs kvs))\<rparr>"
proof -
  have d: "distinct (map fst fs)" using fs by (simp add: fields_ok_def)
  let ?kvs = "map (\<lambda>n. (n, the (map_of kvs n))) (map fst fs)"
  have kvs: "mset ?kvs = mset kvs" using permuted_by_keys [OF m d] .
  have at: "map (contribution fs) ?kvs = at_offsets 0 (field_values fs kvs)"
    "map (\<lambda>kc. 2 ^ place_index fs (fst kc)) ?kvs = at_offsets 0 (map (\<lambda>_. (1, 1)) fs)"
    using contributions_at_offsets [of "[]" fs kvs] d given by (auto simp: list_all_iff)
  have perm: "mset (map f kvs) = mset (map f ?kvs)" for f :: "string \<times> config \<Rightarrow> nat"
    using kvs by (metis mset_map)
  have or: "fold (\<lambda>x a. a OR x) (map of_nat (map f kvs)) (0 :: 32 word) = of_nat (fold (\<lambda>x a. a OR x) (map f ?kvs) 0)" for f
    using fold_or_word [of "map f kvs" 0] fold_or_perm [OF perm, of f 0] by simp
  have "\<forall>(b, v) \<in> set (field_values fs kvs). v < 2 ^ b"
    using fs given field_value_less
    by (fastforce simp: field_values_def fields_ok_def list_all_iff field_value_def split: option.splits config.splits)
  then have v: "fold (\<lambda>x a. a OR x) (map (contribution fs) ?kvs) 0 = pack (field_values fs kvs)"
    using fold_or_pack [of 0 0] by (simp only: at) simp
  have "fold (\<lambda>x a. a OR x) (map (\<lambda>kc. 2 ^ place_index fs (fst kc)) ?kvs) 0 = pack (map (\<lambda>_. (1, 1)) fs)"
    using fold_or_pack [of 0 0 "map (\<lambda>_. (1, 1)) fs"] by (simp only: at) simp
  moreover have "of_nat (pack (map (\<lambda>_. (1, 1)) fs)) = (2 ^ length fs - 1 :: 32 word)"
    using pack_ones [of fs, THEN arg_cong [where f = "of_nat :: nat \<Rightarrow> 32 word"]] by (simp add: algebra_simps)
  ultimately show ?thesis using or v w by (simp add: fields_loaded_def del: map_map)
qed

lemma named_fields_length: "named_fields d names = Some fs \<Longrightarrow> length fs = length names"
  by (induction names arbitrary: fs) (auto simp: bind_eq_Some_conv)

lemma bitfield_runs:
  assumes data: "bitfield_data d kvs = Some (nt, bs)" and p: "plain w"
    and zero: "ld_bitfield_fields_mask w = 0" "ld_bitfield_value w = 0"
    and names: "node_names ((q, Some d) # ld_stack w) = ks" "ks \<noteq> []" and room: "room_for ctx w 2"
  shows "value_runs Config_Bitfield q (Some d) ctx w (events_of (Cfg_Map kvs)) [Key_Call (join_names ks) Vtype_Number nt bs]"
  unfolding value_runs_def
proof (intro allI impI)
  fix rest w1
  assume w1: "w1 = w\<lparr>ld_stack := (q, Some d) # ld_stack w\<rparr>"
  from data obtain fs k where fs: "named_fields d (vec_arr (df_required d)) = Some fs" "fields_ok fs"
    and nt: "uwbs_config_bitfield_get_ntype d = Some (nt, k)" and bs: "bs = le_bytes k (of_nat (pack (field_values fs kvs)) :: 32 word)"
    and m: "mset (map fst kvs) = mset (map fst fs)" and given: "list_all (\<lambda>np. field_value kvs np \<noteq> None) fs"
    and t: "mn_type (df_node d) = Type_Object" "mn_underlying_type (df_node d) = Utype_Bitfield"
    by (auto simp: bitfield_data_def bind_eq_Some_conv split: if_splits)
  have dist: "distinct (map fst fs)" using fs(2) by (simp add: fields_ok_def)
  let ?c = "ctx\<lparr>node_stack := Node Config_Bitfield # node_stack ctx\<rparr>"
  have "consume_node config_loader (Node Config_Bitfield) Mapping_Start ?c w1 = Some (CONFIG_OK, ?c, w1)"
    by (simp add: config_consume_def uwbs_config_loader_bitfield_consume_event_def)
  note start = consumes_step [OF _ this]
  have at: "at_bitfield d ?c w1" using t room p by (simp add: at_bitfield_def w1 plain_def room_for_def)
  have zero1: "ld_bitfield_fields_mask w1 = 0" "ld_bitfield_value w1 = 0" using zero by (simp_all add: w1)
  obtain off where 1: "consumes config_loader (map_events kvs @ Mapping_End # rest) ?c w1 =
      consumes config_loader (Mapping_End # rest) ?c (fields_loaded fs kvs w1 off)"
    using fields_run [OF fs at given_fields [OF m dist given]] zero1 by fastforce
  define w2 where "w2 = w1\<lparr>ld_bitfield_offset := off, ld_bitfield_fields_mask := 2 ^ length fs - 1,
    ld_bitfield_value := of_nat (pack (field_values fs kvs))\<rparr>"
  have w2: "fields_loaded fs kvs w1 off = w2" unfolding w2_def by (rule fields_loaded_all [OF m fs(2) given zero1])
  define w' where "w' = w2\<lparr>ld_stack := ld_stack w, ld_allocs := Suc (ld_allocs w),
    ld_calls := ld_calls w @ [Key_Call (join_names ks) Vtype_Number nt bs]\<rparr>"
  have "plain w2" using p by (simp add: plain_def w2_def w1)
  from notify_ok [OF this, of Vtype_Number nt bs] names
  have "uwbs_config_loader_on_new_key w2 Vtype_Number nt bs False = Some (CONFIG_OK, w'\<lparr>ld_stack := ld_stack w2\<rparr>)"
    by (simp add: w'_def) (simp add: w2_def w1)
  then have "consume_node config_loader (Node Config_Bitfield) Mapping_End ?c w2 = Some (CONFIG_OK, ctx, w')"
    using nt fs named_fields_length [OF fs(1)] p
    by (simp add: config_consume_def uwbs_config_loader_bitfield_consume_event_def current_node_def vec_size_def fields_ok_def
        w2_def w1 bs uwbs_config_loader_leave_node_def w'_def plain_def)
  note stop = consumes_step [OF _ this]
  have "consumes config_loader (events_of (Cfg_Map kvs) @ rest) ?c w1 = consumes config_loader rest ctx w'"
    using start 1 stop by (simp add: w2)
  moreover have "called w [Key_Call (join_names ks) Vtype_Number nt bs] w'" by (simp add: called_def w'_def w2_def w1)
  ultimately show "\<exists>w'. consumes config_loader (events_of (Cfg_Map kvs) @ rest) ?c w1 = consumes config_loader rest ctx w' \<and>
      called w [Key_Call (join_names ks) Vtype_Number nt bs] w'" by auto
qed

section \<open>Unpacking\<close>

text \<open>Each field can be read back from the bytes of the value.\<close>

lemma pack_field:
  assumes "\<forall>(b, v) \<in> set (pre @ (b, v) # post). v < 2 ^ b"
  shows "pack (pre @ (b, v) # post) div 2 ^ sum_list (map fst pre) mod 2 ^ b = v"
  using assms
proof (induction pre)
  case (Cons x pre)
  obtain c u where x: "x = (c, u)" by fastforce
  with Cons.prems have "u < 2 ^ c" by simp
  then have "(u + 2 ^ c * pack (pre @ (b, v) # post)) div 2 ^ c = pack (pre @ (b, v) # post)" by simp
  then have "(u + 2 ^ c * pack (pre @ (b, v) # post)) div 2 ^ (c + sum_list (map fst pre)) =
      pack (pre @ (b, v) # post) div 2 ^ sum_list (map fst pre)"
    by (simp only: power_add div_mult2_eq)
  with Cons show ?case by (simp add: x)
qed simp

lemma field_place_split:
  "field_place fs n = Some (i, off, p) \<Longrightarrow>
     \<exists>pre post. fs = pre @ (n, p) # post \<and> off = sum_list (map (field_bits \<circ> snd) pre)"
proof (induction fs n arbitrary: i off rule: field_place.induct)
  case (2 m q fs s)
  show ?case
  proof (cases "m = s")
    case True
    with 2(2) have "(m, q) # fs = [] @ (s, p) # fs" "off = 0" by auto
    then show ?thesis by fastforce
  next
    case False
    with 2(2) obtain j o' where o': "field_place fs s = Some (j, o', p)" "off = field_bits q + o'" by auto
    obtain pre post where "fs = pre @ (s, p) # post" "o' = sum_list (map (field_bits \<circ> snd) pre)"
      using 2(1) [OF False o'(1)] by blast
    with o'(2) have "(m, q) # fs = ((m, q) # pre) @ (s, p) # post" "off = sum_list (map (field_bits \<circ> snd) ((m, q) # pre))"
      by simp_all
    then show ?thesis by blast
  qed
qed simp

lemma bitfield_recovered:
  assumes data: "bitfield_data d kvs = Some (nt, bs)" and "named_fields d (vec_arr (df_required d)) = Some fs"
    and n: "field_place fs n = Some (i, off, p)" and s: "map_of kvs n = Some (Cfg_Scalar s)"
  shows "number_value p s = Some (int (unat (le_value bs :: 32 word) div 2 ^ off mod 2 ^ field_bits p))"
proof -
  from data assms(2) obtain k where fs: "fields_ok fs"
    and nt: "uwbs_config_bitfield_get_ntype d = Some (nt, k)" and bs: "bs = le_bytes k (of_nat (pack (field_values fs kvs)) :: 32 word)"
    and given: "list_all (\<lambda>np. field_value kvs np \<noteq> None) fs"
    by (auto simp: bitfield_data_def bind_eq_Some_conv split: if_splits)
  let ?V = "pack (field_values fs kvs)"
  define bits where "bits = sum_list (map (field_bits \<circ> snd) fs)"
  have less: "\<forall>(b, v) \<in> set (field_values fs kvs). v < 2 ^ b"
    using fs given field_value_less
    by (fastforce simp: field_values_def fields_ok_def list_all_iff field_value_def split: option.splits config.splits)
  have "map fst (field_values fs kvs) = map (field_bits \<circ> snd) fs" by (simp add: field_values_def)
  then have V: "?V < 2 ^ bits" using pack_less [OF less] by (simp add: bits_def)
  have "bits \<le> 8 * k \<and> bits \<le> 32"
    using nt fs assms(2)
    by (auto simp: uwbs_config_bitfield_get_ntype_def required_fields_named bits_def fields_ok_def bind_eq_Some_conv
        Let_def comp_def split: if_splits)
  then have "?V < 2 ^ (8 * k)" "?V < 2 ^ 32"
    using V by (meson order.strict_trans2 power_increasing one_le_numeral)+
  then have "unat (le_value bs :: 32 word) = ?V"
    by (simp add: bs le_value_le_bytes unsigned_take_bit_eq unat_of_nat take_bit_nat_eq_self)
  moreover obtain pre post where pre: "fs = pre @ (n, p) # post" "off = sum_list (map (field_bits \<circ> snd) pre)"
    using field_place_split [OF n] by auto
  moreover obtain v where v: "number_value p s = Some v" "field_value kvs (n, p) = Some v"
    using given s by (auto simp: pre field_value_def)
  moreover have "0 \<le> v" using field_value_less [OF _ v(1)] fs by (simp add: pre fields_ok_def)
  moreover have "field_values fs kvs = field_values pre kvs @ (field_bits p, nat v) # field_values post kvs"
    using v by (simp add: field_values_def pre)
  moreover have "map fst (field_values pre kvs) = map (field_bits \<circ> snd) pre" by (simp add: field_values_def)
  ultimately show ?thesis using pack_field [of "field_values pre kvs" "field_bits p" "nat v" "field_values post kvs"] less by simp
qed

end
