(* ===== verification/Config_Document.thy ===== *)
theory Config_Document
  imports Config_Fields
begin

text \<open>
  Whole configurations: the calls of the callback by recursion over the values, and the proof that the loader makes
  exactly these calls.
\<close>

section \<open>The meaning of a configuration\<close>

text \<open>One call for a value, with the names of the keys that lead to it.\<close>

definition number_call ::
    "string list \<Rightarrow> uwbs_config_value_type \<Rightarrow> (uwbs_config_number_type \<times> bytes) option \<Rightarrow> key_call list option" where
  "number_call ks vt v = do { (nt, bs) \<leftarrow> v; Some [Key_Call (join_names ks) vt nt bs] }"

definition scalar_calls ::
    "string list \<Rightarrow> uwbs_config_model_property \<Rightarrow> uwbs_config_model_def option \<Rightarrow> string \<Rightarrow> key_call list option" where
  "scalar_calls ks p d s =
     do {
       node \<leftarrow> uwbs_config_model_get_node (Some p) d;
       (case mn_type node of
          Type_String \<Rightarrow> do { d \<leftarrow> d; b \<leftarrow> enum_value d s; number_call ks Vtype_Number (Some (Ntype_Uint8, [b])) }
        | Type_Integer \<Rightarrow> if mn_type (pr_node p) = Type_Integer then number_call ks Vtype_Number (number_bytes p s) else None
        | Type_Boolean \<Rightarrow>
            if mn_type (pr_node p) = Type_Boolean
            then do { b \<leftarrow> boolean_value s; number_call ks Vtype_Number (Some (Ntype_Uint8, [b])) } else None
        | _ \<Rightarrow> None)
     }"

text \<open>
  The calls for the value of a property, and for the values of an object: its keys are properties of the
  definition, whose own definition is the one that they refer to.
\<close>

fun value_calls :: "uwbs_config_model_def \<Rightarrow> string list \<Rightarrow> uwbs_config_model_property \<Rightarrow> config \<Rightarrow> key_call list option" and
    object_calls :: "uwbs_config_model_def \<Rightarrow> string list \<Rightarrow> uwbs_config_model_def \<Rightarrow> (string \<times> config) list \<Rightarrow> key_call list option" where
  "value_calls root ks p (Cfg_Scalar s) = do { d \<leftarrow> uwbs_config_model_find_def root (pr_ref p); scalar_calls ks p d s }"
| "value_calls root ks p (Cfg_Seq cs) =
     (if mn_type (pr_node p) = Type_Array \<and> uwbs_config_model_find_def root (pr_ref p) \<noteq> None
      then number_call ks Vtype_Array_Number (array_data p cs) else None)"
| "value_calls root ks p (Cfg_Map kvs) =
     do {
       d \<leftarrow> uwbs_config_model_find_def root (pr_ref p);
       node \<leftarrow> uwbs_config_model_get_node (Some p) d;
       d \<leftarrow> d;
       if mn_type node \<noteq> Type_Object then None
       else if mn_underlying_type node = Utype_Null then object_calls root ks d kvs
       else if mn_underlying_type node = Utype_Bitfield then number_call ks Vtype_Number (bitfield_data d kvs)
       else None
     }"
| "object_calls root ks d [] = Some []"
| "object_calls root ks d ((k, c) # kvs) =
     do {
       p \<leftarrow> uwbs_config_model_def_find_property d k;
       p \<leftarrow> p;
       cs \<leftarrow> value_calls root (ks @ [k]) p c;
       cs' \<leftarrow> object_calls root ks d kvs;
       Some (cs @ cs')
     }"

section \<open>Properties\<close>

definition value_loads ::
    "config_ctx \<Rightarrow> uwbs_config_load \<Rightarrow> uwbs_config_model_property \<Rightarrow> uwbs_config_model_def option \<Rightarrow> yaml_event list \<Rightarrow>
     key_call list \<Rightarrow> bool" where
  "value_loads ctx w p d es cs \<longleftrightarrow> (\<forall>rest. \<exists>ctx1 w1 w'.
     uwbs_config_loader_enter_property_node ctx w (Some p) d = Some (CONFIG_OK, ctx1, w1) \<and>
     consumes config_loader (es @ rest) ctx1 w1 = consumes config_loader rest ctx w' \<and> called w cs w')"

lemma value_loads_by:
  assumes "uwbs_config_loader_enter_property_node ctx w (Some p) d = uwbs_config_loader_enter_node ctx h w0 (Some p) d"
    and "room_for ctx w0 (Suc n)" and "value_runs h (Some p) d ctx w0 es cs" and "called w [] w0"
  shows "value_loads ctx w p d es cs"
  unfolding value_loads_def
proof
  fix rest
  obtain w' where "consumes config_loader (es @ rest) (ctx\<lparr>node_stack := Node h # node_stack ctx\<rparr>)
      (w0\<lparr>ld_stack := (Some p, d) # ld_stack w0\<rparr>) = consumes config_loader rest ctx w'" "called w0 cs w'"
    using assms(3) unfolding value_runs_def by blast
  with enter_ok [OF assms(2)] assms(1) called_trans [OF assms(4)] show "\<exists>ctx1 w1 w'.
     uwbs_config_loader_enter_property_node ctx w (Some p) d = Some (CONFIG_OK, ctx1, w1) \<and>
     consumes config_loader (es @ rest) ctx1 w1 = consumes config_loader rest ctx w' \<and> called w cs w'" by fastforce
qed

lemma called_refl [simp]: "called w [] w"
  by (simp add: called_def)

lemma find_property_name:
  "uwbs_config_model_def_find_property d k = Some (Some p) \<Longrightarrow> mn_name (pr_node p) = Some k"
proof -
  have "find_named f P xs = Some (Some x) \<Longrightarrow> \<exists>s. f x = Some s \<and> P s" for f P and xs :: "uwbs_config_model_property list" and x
    by (induction xs) (auto simp: bind_eq_Some_conv split: if_splits)
  then show "uwbs_config_model_def_find_property d k = Some (Some p) \<Longrightarrow> mn_name (pr_node p) = Some k"
    unfolding uwbs_config_model_def_find_property_def by fastforce
qed

lemma scalar_loads:
  assumes "scalar_calls ks p d s = Some cs" and p: "plain w" and "room_for ctx w 1"
    and n: "mn_name (pr_node p) = Some k" "ks = node_names (ld_stack w) @ [k]"
  shows "value_loads ctx w p d [Scalar s] cs"
proof -
  have room: "room_for ctx w (Suc 0)" using assms(3) by simp
  have ks: "node_names ((Some p, d) # ld_stack w) = ks" "ks \<noteq> []" using n by (simp_all add: node_names_Cons)
  from assms(1) obtain node where node: "uwbs_config_model_get_node (Some p) d = Some node"
    by (auto simp: scalar_calls_def bind_eq_Some_conv)
  have enter: "uwbs_config_loader_enter_property_node ctx w (Some p) d = uwbs_config_loader_enter_node ctx h w (Some p) d"
    if "(mn_type node, h) \<in> {(Type_String, Config_Enum), (Type_Integer, Config_Integer), (Type_Boolean, Config_Boolean)}" for h
    using that by (auto simp: uwbs_config_loader_enter_property_node_def node)
  show ?thesis
  proof (cases "mn_type node")
    case Type_String
    with assms(1) node obtain d' b where d: "d = Some d'" "enum_value d' s = Some b"
      "cs = [Key_Call (join_names ks) Vtype_Number Ntype_Uint8 [b]]"
      by (auto simp: scalar_calls_def bind_eq_Some_conv number_call_def)
    with enum_runs [OF d(2) p, of "Some p" ks] ks show ?thesis
      using value_loads_by [OF enter [of Config_Enum] room] by (simp add: Type_String)
  next
    case Type_Integer
    with assms(1) node obtain nt v where v: "mn_type (pr_node p) = Type_Integer" "number_bytes p s = Some (nt, v)"
      "cs = [Key_Call (join_names ks) Vtype_Number nt v]"
      by (auto simp: scalar_calls_def bind_eq_Some_conv number_call_def split: if_splits)
    with integer_runs [OF v(1,2) p ks] show ?thesis
      using value_loads_by [OF enter [of Config_Integer] room] by (simp add: Type_Integer)
  next
    case Type_Boolean
    with assms(1) node obtain b where b: "mn_type (pr_node p) = Type_Boolean" "boolean_value s = Some b"
      "cs = [Key_Call (join_names ks) Vtype_Number Ntype_Uint8 [b]]"
      by (auto simp: scalar_calls_def bind_eq_Some_conv number_call_def split: if_splits)
    with boolean_runs [OF b(1,2) p ks] show ?thesis
      using value_loads_by [OF enter [of Config_Boolean] room] by (simp add: Type_Boolean)
  qed (use assms(1) node in \<open>simp_all add: scalar_calls_def\<close>)
qed

lemma array_loads:
  assumes "mn_type (pr_node p) = Type_Array" and "array_data p l = Some (nt, bs)" and p: "plain w"
    and room: "room_for ctx w (depth (Cfg_Seq l))"
    and n: "mn_name (pr_node p) = Some k" "ks = node_names (ld_stack w) @ [k]"
  shows "value_loads ctx w p d (events_of (Cfg_Seq l)) [Key_Call (join_names ks) Vtype_Array_Number nt bs]"
proof -
  have ks: "node_names ((Some p, d) # ld_stack w) = ks" "ks \<noteq> []" using n by (simp_all add: node_names_Cons)
  have "room_for ctx w (Suc (max 1 (seq_depth l)))" using room by simp
  from value_loads_by [OF _ this, where h = Config_Array] array_runs [OF assms(1,2) p ks room]
  show ?thesis by (simp add: uwbs_config_loader_enter_property_node_def uwbs_config_model_get_node_def assms(1))
qed

lemma bitfield_loads:
  assumes "uwbs_config_model_get_node (Some p) (Some d) = Some node" and "mn_type node = Type_Object"
    and "mn_underlying_type node = Utype_Bitfield" and "bitfield_data d kvs = Some (nt, bs)" and p: "plain w"
    and room: "room_for ctx w 2"
    and n: "mn_name (pr_node p) = Some k" "ks = node_names (ld_stack w) @ [k]"
  shows "value_loads ctx w p (Some d) (events_of (Cfg_Map kvs)) [Key_Call (join_names ks) Vtype_Number nt bs]"
proof -
  define w0 where "w0 = w\<lparr>ld_bitfield_fields_mask := 0, ld_bitfield_value := 0\<rparr>"
  have ks: "node_names ((Some p, Some d) # ld_stack w0) = ks" "ks \<noteq> []" using n by (simp_all add: node_names_Cons w0_def)
  have "plain w0" "room_for ctx w0 2" "called w [] w0" using p room by (simp_all add: w0_def plain_def room_for_def called_def)
  moreover from this have room1: "room_for ctx w0 (Suc 1)" by (simp add: numeral_2_eq_2)
  moreover have "uwbs_config_loader_enter_property_node ctx w (Some p) (Some d) =
      uwbs_config_loader_enter_node ctx Config_Bitfield w0 (Some p) (Some d)"
    using assms(1-3) by (simp add: uwbs_config_loader_enter_property_node_def w0_def)
  ultimately show ?thesis using value_loads_by [of ctx w p "Some d" Config_Bitfield w0 1] bitfield_runs [OF assms(4), of w0 "Some p" ks ctx] ks
    by (simp add: w0_def)
qed

section \<open>Objects\<close>

definition at_object :: "uwbs_config_model_def \<Rightarrow> config_ctx \<Rightarrow> uwbs_config_load \<Rightarrow> bool" where
  "at_object d ctx w \<longleftrightarrow>
     (\<exists>ns q st. node_stack ctx = Node Config_Object # ns \<and> ld_stack w = (q, Some d) # st) \<and> plain w"

definition object_loads ::
    "config_ctx \<Rightarrow> uwbs_config_load \<Rightarrow> yaml_event list \<Rightarrow> key_call list \<Rightarrow> bool" where
  "object_loads ctx w es cs \<longleftrightarrow> (\<forall>rest. \<exists>w'.
     consumes config_loader (es @ rest) ctx w = consumes config_loader rest ctx w' \<and> called w cs w')"

lemma called_plain: "called w cs w' \<Longrightarrow> plain w \<Longrightarrow> plain w'"
  by (simp add: called_def plain_def)

text \<open>An object as a value: its node is entered, its keys are consumed, its end leaves the node.\<close>

lemma object_value:
  assumes node: "uwbs_config_model_get_node (Some p) (Some d) = Some node" "mn_type node = Type_Object"
      "mn_underlying_type node = Utype_Null"
    and p: "plain w" and room: "room_for ctx w (Suc n)"
    and body: "\<And>ctx1 w1. at_object d ctx1 w1 \<Longrightarrow> ld_model w1 = ld_model w \<Longrightarrow> ld_stack w1 = (Some p, Some d) # ld_stack w \<Longrightarrow>
      room_for ctx1 w1 n \<Longrightarrow> object_loads ctx1 w1 es cs"
  shows "value_loads ctx w p (Some d) (Mapping_Start # es @ [Mapping_End]) cs"
  unfolding value_loads_def
proof
  fix rest
  define c1 where "c1 = ctx\<lparr>node_stack := Node Config_Object # node_stack ctx\<rparr>"
  define w1 where "w1 = w\<lparr>ld_stack := (Some p, Some d) # ld_stack w\<rparr>"
  have enter: "uwbs_config_loader_enter_property_node ctx w (Some p) (Some d) = Some (CONFIG_OK, c1, w1)"
    using node enter_ok [OF room] by (simp add: uwbs_config_loader_enter_property_node_def c1_def w1_def)
  have "consume_node config_loader (Node Config_Object) Mapping_Start c1 w1 = Some (CONFIG_OK, c1, w1)"
    using node by (simp add: config_consume_def uwbs_config_loader_object_consume_event_def current_node_def w1_def)
  note start = consumes_step [OF _ this]
  have "object_loads c1 w1 es cs" using p room by (intro body) (simp_all add: at_object_def c1_def w1_def plain_def room_for_def)
  then obtain w2 where w2: "consumes config_loader (es @ Mapping_End # rest) c1 w1 = consumes config_loader (Mapping_End # rest) c1 w2"
    "called w1 cs w2" unfolding object_loads_def by blast
  define w' where "w' = w2\<lparr>ld_stack := ld_stack w\<rparr>"
  have "consume_node config_loader (Node Config_Object) Mapping_End c1 w2 = Some (CONFIG_OK, ctx, w')"
    using w2(2) p
    by (simp add: config_consume_def uwbs_config_loader_object_consume_event_def uwbs_config_loader_leave_node_def
        called_def w1_def plain_def c1_def w'_def)
  note stop = consumes_step [OF _ this]
  have "consumes config_loader ((Mapping_Start # es @ [Mapping_End]) @ rest) c1 w1 = consumes config_loader rest ctx w'"
    using start w2(1) stop by (simp add: c1_def)
  moreover have "called w cs w'" using w2(2) by (simp add: called_def w'_def w1_def)
  ultimately show "\<exists>ctx1 w1 w'. uwbs_config_loader_enter_property_node ctx w (Some p) (Some d) = Some (CONFIG_OK, ctx1, w1) \<and>
      consumes config_loader ((Mapping_Start # es @ [Mapping_End]) @ rest) ctx1 w1 = consumes config_loader rest ctx w' \<and>
      called w cs w'" using enter by blast
qed

lemma object_key:
  assumes d: "at_object d ctx w" and k: "uwbs_config_model_def_find_property d k = Some (Some p)"
    and r: "uwbs_config_model_find_def (ld_model w) (pr_ref p) = Some d'" and loads: "value_loads ctx w p d' es cs"
  shows "object_loads ctx w (Scalar k # es) cs"
  unfolding object_loads_def
proof
  fix rest
  from d obtain ns q st where ns: "node_stack ctx = Node Config_Object # ns" and st: "ld_stack w = (q, Some d) # st"
    unfolding at_object_def by auto
  from loads obtain ctx1 w1 w' where 1: "uwbs_config_loader_enter_property_node ctx w (Some p) d' = Some (CONFIG_OK, ctx1, w1)"
    "consumes config_loader (es @ rest) ctx1 w1 = consumes config_loader rest ctx w'" "called w cs w'"
    unfolding value_loads_def by blast
  have "consume_node config_loader (Node Config_Object) (Scalar k) ctx w = Some (CONFIG_OK, ctx1, w1)"
    using st k r 1(1) by (simp add: config_consume_def uwbs_config_loader_object_consume_event_def current_node_def)
  from consumes_step [OF ns this] 1 show
    "\<exists>w'. consumes config_loader ((Scalar k # es) @ rest) ctx w = consumes config_loader rest ctx w' \<and> called w cs w'"
    by auto
qed

lemma object_loads_append:
  assumes "object_loads ctx w es cs" and "\<And>w'. called w cs w' \<Longrightarrow> object_loads ctx w' es' cs'"
  shows "object_loads ctx w (es @ es') (cs @ cs')"
  unfolding object_loads_def
proof
  fix rest
  obtain w' where w': "consumes config_loader (es @ es' @ rest) ctx w = consumes config_loader (es' @ rest) ctx w'" "called w cs w'"
    using assms(1) unfolding object_loads_def by blast
  obtain w'' where "consumes config_loader (es' @ rest) ctx w' = consumes config_loader rest ctx w''" "called w' cs' w''"
    using assms(2) [OF w'(2)] unfolding object_loads_def by blast
  with w' called_trans show "\<exists>w'. consumes config_loader ((es @ es') @ rest) ctx w = consumes config_loader rest ctx w' \<and>
      called w (cs @ cs') w'" by fastforce
qed

lemma map_depth_pos: "kvs \<noteq> [] \<Longrightarrow> 1 \<le> map_depth kvs"
proof -
  have "1 \<le> depth c" for c by (cases c) auto
  then show "kvs \<noteq> [] \<Longrightarrow> 1 \<le> map_depth kvs" by (cases kvs) (auto simp: le_max_iff_disj)
qed

lemma room_less: "room_for ctx w n \<Longrightarrow> m \<le> n \<Longrightarrow> room_for ctx w m"
  by (simp add: room_for_def)

lemma calls_loaded:
  shows "value_calls root ks p c = Some cs \<Longrightarrow> ld_model w = root \<Longrightarrow> plain w \<Longrightarrow> room_for ctx w (depth c) \<Longrightarrow>
      mn_name (pr_node p) = Some k \<Longrightarrow> ks = node_names (ld_stack w) @ [k] \<Longrightarrow>
      \<exists>d. uwbs_config_model_find_def root (pr_ref p) = Some d \<and> value_loads ctx w p d (events_of c) cs"
    and "object_calls root ks d kvs = Some cs \<Longrightarrow> ld_model w = root \<Longrightarrow> at_object d ctx w \<Longrightarrow> room_for ctx w (map_depth kvs) \<Longrightarrow>
      ks = node_names (ld_stack w) \<Longrightarrow> object_loads ctx w (map_events kvs) cs"
proof (induction root ks p c and root ks d kvs arbitrary: ctx w cs k and ctx w cs rule: value_calls_object_calls.induct)
  case (1 root ks p s)
  then obtain d where d: "uwbs_config_model_find_def root (pr_ref p) = Some d" "scalar_calls ks p d s = Some cs"
    by (auto simp: bind_eq_Some_conv)
  from 1(4) have "room_for ctx w 1" by simp
  from scalar_loads [OF d(2) 1(3) this 1(5,6)] d(1) show ?case by simp
next
  case (2 root ks p l)
  then obtain nt bs d where a: "mn_type (pr_node p) = Type_Array" "array_data p l = Some (nt, bs)"
    "uwbs_config_model_find_def root (pr_ref p) = Some d" "cs = [Key_Call (join_names ks) Vtype_Array_Number nt bs]"
    by (auto simp: number_call_def bind_eq_Some_conv split: if_splits)
  from array_loads [OF a(1,2) 2(3,4,5,6)] a(3) show ?case unfolding a(4) by blast
next
  case (3 root ks p kvs)
  from 3(2) obtain d node where d: "uwbs_config_model_find_def root (pr_ref p) = Some (Some d)"
    "uwbs_config_model_get_node (Some p) (Some d) = Some node" "mn_type node = Type_Object"
    by (auto simp: bind_eq_Some_conv split: if_splits)
  show ?case
  proof (cases "mn_underlying_type node = Utype_Null")
    case True
    have oc: "object_calls root ks d kvs = Some cs" using 3(2) d True by simp
    have t: "\<not> mn_type node \<noteq> Type_Object" using d(3) by simp
    have body: "object_loads ctx1 w1 (map_events kvs) cs" if "at_object d ctx1 w1" "ld_model w1 = ld_model w"
        "ld_stack w1 = (Some p, Some d) # ld_stack w" "room_for ctx1 w1 (map_depth kvs)" for ctx1 w1
    proof (rule 3(1) [OF d(1) d(2) refl t True oc _ that(1,4)])
      show "ld_model w1 = root" using that(2) 3(3) by simp
      show "ks = node_names (ld_stack w1)" using that(3) 3(6,7) by (simp add: node_names_Cons)
    qed
    have room: "room_for ctx w (Suc (map_depth kvs))" using 3(5) by simp
    have "value_loads ctx w p (Some d) (Mapping_Start # map_events kvs @ [Mapping_End]) cs"
      by (rule object_value [OF d(2,3) True 3(4) room]) (rule body)
    then show ?thesis using d(1) by simp
  next
    case False
    with 3(2) d obtain nt bs where b: "mn_underlying_type node = Utype_Bitfield" "bitfield_data d kvs = Some (nt, bs)"
      "cs = [Key_Call (join_names ks) Vtype_Number nt bs]"
      by (auto simp: number_call_def bind_eq_Some_conv split: if_splits)
    have "kvs \<noteq> []" using b(2) by (auto simp: bitfield_data_def bind_eq_Some_conv split: if_splits)
    then have "1 \<le> map_depth kvs" by (rule map_depth_pos)
    then have "room_for ctx w 2" using 3(5) by (auto elim: room_less)
    from bitfield_loads [OF d(2,3) b(1,2) 3(4) this 3(6,7)] d(1) show ?thesis unfolding b(3) by blast
  qed
next
  case (4 root ks d)
  then show ?case by (auto simp: object_loads_def intro!: exI [of _ w])
next
  case (5 root ks d k c kvs)
  from 5(3) obtain p c1 c2 where p: "uwbs_config_model_def_find_property d k = Some (Some p)"
    "value_calls root (ks @ [k]) p c = Some c1" "object_calls root ks d kvs = Some c2" "cs = c1 @ c2"
    by (auto simp: bind_eq_Some_conv)
  have room: "room_for ctx w (depth c)" "room_for ctx w (map_depth kvs)" using room_less [OF 5(6)] by simp_all
  have "plain w" using 5(5) by (simp add: at_object_def)
  from 5(1) [OF p(1) refl p(2) 5(4) this room(1) find_property_name [OF p(1)]] 5(7) obtain d' where
    d': "uwbs_config_model_find_def root (pr_ref p) = Some d'" "value_loads ctx w p d' (events_of c) c1" by auto
  have "object_loads ctx w (Scalar k # events_of c) c1" using object_key [OF 5(5) p(1) _ d'(2)] d'(1) 5(4) by simp
  moreover have "object_loads ctx w' (map_events kvs) c2" if "called w c1 w'" for w'
    using that 5(4-7) room(2)
    by (intro 5(2) [OF p(1) refl p(2,3)]) (auto simp: called_def at_object_def plain_def room_for_def)
  ultimately show ?case using object_loads_append by (simp add: p(4)) (metis append_Cons)
qed

section \<open>Documents\<close>

definition config_document :: "(string \<times> config) list \<Rightarrow> yaml_event list" where
  "config_document kvs =
     [Stream_Start, Document_Start, Mapping_Start, Scalar ''version'', Scalar ''1'', Scalar ''config''] @
     events_of (Cfg_Map kvs) @ [Mapping_End, Document_End, Stream_End]"

lemma consume_stream [simp]: "consume_node config_loader Stream_Node e ctx w = uwbs_config_yaml_stream_consume_event config_loader e ctx w"
  by (simp add: consume_node_def)

lemma root_node [simp]: "yl_root config_loader = Config_Root"
  by (simp add: config_loader_def)

lemma document_loads:
  assumes calls: "object_calls model [] model kvs = Some cs" and t: "mn_type (df_node model) = Type_Object"
    and depth: "map_depth kvs \<le> NODE_STACK_SIZE - 3"
    and w: "ld_model w = model" "ld_stack w = []" "ld_array w = None" "\<forall>i. \<not> ld_fails w i"
  shows "\<exists>w'. uwbs_config_yaml_load_str config_loader (Some (map Some (config_document kvs))) uwbs_config_yaml_init w =
    Some (CONFIG_OK, uwbs_config_yaml_init, w') \<and> called w cs w'"
proof -
  define c1 c2 c3 :: config_ctx where "c1 = \<lparr>node_stack = [Stream_Node], skip_depth = 0\<rparr>"
    and "c2 = \<lparr>node_stack = [Node Config_Root, Stream_Node], skip_depth = 0\<rparr>"
    and "c3 = \<lparr>node_stack = [Node Config_Object, Node Config_Root, Stream_Node], skip_depth = 0\<rparr>"
  define w1 where "w1 = w\<lparr>ld_stack := [(None, Some model)]\<rparr>"
  note defs = c1_def c2_def c3_def w1_def uwbs_config_yaml_stream_consume_event_def config_consume_def
    uwbs_config_loader_root_consume_event_def uwbs_config_loader_version_consume_event_def
    uwbs_config_loader_object_consume_event_def NODE_STACK_SIZE_def
  let ?step = "consumes config_loader"
  have 1: "?step (Stream_Start # es) c1 w = ?step es c1 w" for es
    by (rule consumes_step [where n = Stream_Node]) (simp_all add: defs)
  have 2: "?step (Document_Start # es) c1 w = ?step es c2 w" for es
    by (rule consumes_step [where n = Stream_Node]) (simp_all add: defs)
  have 3: "?step (Mapping_Start # es) c2 w = ?step es c2 w" for es
    by (rule consumes_step [where n = "Node Config_Root"]) (simp_all add: defs)
  have 4: "?step (Scalar ''version'' # Scalar ''1'' # es) c2 w = ?step es c2 w" for es
  proof -
    let ?c = "\<lparr>node_stack = [Node Config_Version, Node Config_Root, Stream_Node], skip_depth = 0\<rparr>"
    have "?step (Scalar ''version'' # Scalar ''1'' # es) c2 w = ?step (Scalar ''1'' # es) ?c w"
      by (rule consumes_step [where n = "Node Config_Root"]) (simp_all add: defs)
    also have "\<dots> = ?step es c2 w"
      by (rule consumes_step [where n = "Node Config_Version"]) (simp_all add: defs)
    finally show ?thesis .
  qed
  have 5: "?step (Scalar ''config'' # es) c2 w = ?step es c3 w1" for es
    by (rule consumes_step [where n = "Node Config_Root"])
      (simp_all add: defs w uwbs_config_loader_enter_node_def)
  have 6: "?step (Mapping_Start # es) c3 w1 = ?step es c3 w1" for es
    by (rule consumes_step [where n = "Node Config_Object"])
      (simp_all add: defs current_node_def uwbs_config_model_get_node_def t)
  have "object_loads c3 w1 (map_events kvs) cs"
    using calls depth w by (intro calls_loaded(2) [where root = model and ks = "[]" and d = model])
      (simp_all add: at_object_def plain_def room_for_def c3_def w1_def node_names_Cons NODE_STACK_SIZE_def)
  then obtain w2 where 7: "?step (map_events kvs @ [Mapping_End, Mapping_End, Document_End, Stream_End]) c3 w1 =
    ?step [Mapping_End, Mapping_End, Document_End, Stream_End] c3 w2" "called w1 cs w2"
    unfolding object_loads_def by blast
  define w' where "w' = w2\<lparr>ld_stack := []\<rparr>"
  have 8: "?step (Mapping_End # es) c3 w2 = ?step es c2 w'" for es
    by (rule consumes_step [where n = "Node Config_Object"])
      (use 7(2) w in \<open>simp_all add: defs uwbs_config_loader_leave_node_def called_def w'_def\<close>)
  have 9: "?step (Mapping_End # es) c2 w' = ?step es c1 w'" for es
    by (rule consumes_step [where n = "Node Config_Root"]) (simp_all add: defs)
  have 10: "?step [Document_End, Stream_End] c1 w' = Some (CONFIG_OK, uwbs_config_yaml_init, w')"
    by (simp add: consumes_Cons uwbs_config_yaml_consume_event_def defs uwbs_config_yaml_init_def)
  have "uwbs_config_yaml_load_str config_loader (Some (map Some (config_document kvs))) uwbs_config_yaml_init w =
      ?step (config_document kvs) c1 w"
    by (simp add: uwbs_config_yaml_load_str_def uwbs_config_yaml_load_loop_def consumes_def uwbs_config_yaml_init_def
        uwbs_config_yaml_enter_node_def NODE_STACK_SIZE_def c1_def)
  also have "\<dots> = Some (CONFIG_OK, uwbs_config_yaml_init, w')"
    unfolding config_document_def by (simp add: 1 2 3 4 5 6 7(1) 8 9 10)
  finally show ?thesis using 7(2) w by (auto simp: called_def w1_def w'_def)
qed

end
