(* ===== verification/Config_Region.thy ===== *)
theory Config_Region
  imports Config_Yaml
begin

text \<open>
  The region of a country (\<^verbatim>\<open>region_loader.c\<close>): a document that maps regions to lists of country codes, and the
  search for the region whose list has a code.
\<close>

section \<open>State\<close>

record uwbs_config_region_loader =
  rl_country_code :: string
  rl_region :: "string option"
  rl_region_found :: "string option"
  rl_sequence_level :: nat
  rl_allocs :: nat
  rl_fails :: "nat \<Rightarrow> bool"

datatype region_node = Region_Root | Region_Version | Region_Regions | Region_Countries

text \<open>Strings of this loader are stored by the nodes themselves.\<close>

type_synonym region_ctx = "(region_node, unit) yaml_ctx"
type_synonym region_step = "(region_node, unit, uwbs_config_region_loader) node_step"

definition uwbs_config_region_loader_init :: "string \<Rightarrow> nat \<Rightarrow> (nat \<Rightarrow> bool) \<Rightarrow> uwbs_config_region_loader" where
  "uwbs_config_region_loader_init country_code n fails =
     \<lparr>rl_country_code = country_code, rl_region = None, rl_region_found = None, rl_sequence_level = 0, rl_allocs = n,
      rl_fails = fails\<rparr>"

definition region_strdup :: "uwbs_config_region_loader \<Rightarrow> string \<Rightarrow> string option \<times> uwbs_config_region_loader" where
  "region_strdup w s = (if rl_fails w (rl_allocs w) then None else Some s, w\<lparr>rl_allocs := Suc (rl_allocs w)\<rparr>)"

section \<open>Nodes\<close>

definition uwbs_config_region_loader_countries_consume_event ::
    "yaml_event \<Rightarrow> region_ctx \<Rightarrow> uwbs_config_region_loader \<Rightarrow> region_step" where
  "uwbs_config_region_loader_countries_consume_event event ctx w =
     (case event of
        Sequence_Start \<Rightarrow>
          (let w = w\<lparr>rl_sequence_level := size_add (rl_sequence_level w) 1\<rparr>
           in Some (if rl_sequence_level w > 1 then CONFIG_INVALID_FMT else CONFIG_OK, ctx, w))
      | Sequence_End \<Rightarrow>
          leave CONFIG_OK ctx (w\<lparr>rl_sequence_level := size_sub (rl_sequence_level w) 1, rl_region := None\<rparr>)
      | Scalar s \<Rightarrow>
          if s = rl_country_code w then
            if rl_region_found w \<noteq> None then Some (CONFIG_INVALID_FMT, ctx, w\<lparr>rl_region_found := None\<rparr>)
            else Some (CONFIG_OK, ctx, w\<lparr>rl_region_found := rl_region w, rl_region := None\<rparr>)
          else Some (CONFIG_OK, ctx, w)
      | _ \<Rightarrow> Some (CONFIG_INVALID_ARG, ctx, w))"

definition uwbs_config_region_loader_regions_consume_event ::
    "yaml_event \<Rightarrow> region_ctx \<Rightarrow> uwbs_config_region_loader \<Rightarrow> region_step" where
  "uwbs_config_region_loader_regions_consume_event event ctx w =
     (case event of
        Mapping_Start \<Rightarrow> Some (CONFIG_OK, ctx, w)
      | Mapping_End \<Rightarrow> leave CONFIG_OK ctx w
      | Scalar s \<Rightarrow> (let (r, w) = region_strdup w s in enter ctx (Node Region_Countries) (w\<lparr>rl_region := r\<rparr>))
      | _ \<Rightarrow> Some (CONFIG_INVALID_ARG, ctx, w))"

definition uwbs_config_region_loader_version_consume_event ::
    "yaml_event \<Rightarrow> region_ctx \<Rightarrow> uwbs_config_region_loader \<Rightarrow> region_step" where
  "uwbs_config_region_loader_version_consume_event event ctx w =
     (case event of
        Scalar s \<Rightarrow> leave (if s = ''1'' then CONFIG_OK else CONFIG_INVALID_FMT) ctx w
      | _ \<Rightarrow> Some (CONFIG_INVALID_FMT, ctx, w))"

definition uwbs_config_region_loader_root_consume_event ::
    "yaml_event \<Rightarrow> region_ctx \<Rightarrow> uwbs_config_region_loader \<Rightarrow> region_step" where
  "uwbs_config_region_loader_root_consume_event event ctx w =
     (case event of
        Mapping_Start \<Rightarrow> Some (CONFIG_OK, ctx, w)
      | Mapping_End \<Rightarrow> leave CONFIG_OK ctx w
      | Scalar s \<Rightarrow>
          if s = ''version'' then enter ctx (Node Region_Version) w
          else if s = ''regions'' then enter ctx (Node Region_Regions) w
          else Some (CONFIG_INVALID_FMT, ctx, w)
      | _ \<Rightarrow> Some (CONFIG_INVALID_FMT, ctx, w))"

definition region_consume :: "region_node \<Rightarrow> yaml_event \<Rightarrow> region_ctx \<Rightarrow> uwbs_config_region_loader \<Rightarrow> region_step" where
  "region_consume h event ctx w =
     (case h of
        Region_Root \<Rightarrow> uwbs_config_region_loader_root_consume_event event ctx w
      | Region_Version \<Rightarrow> uwbs_config_region_loader_version_consume_event event ctx w
      | Region_Regions \<Rightarrow> uwbs_config_region_loader_regions_consume_event event ctx w
      | Region_Countries \<Rightarrow> uwbs_config_region_loader_countries_consume_event event ctx w)"

definition region_loader :: "(region_node, unit, uwbs_config_region_loader) yaml_loader" where
  "region_loader = \<lparr>yl_consume = region_consume, yl_root = Region_Root, yl_store = (\<lambda>_ _ w. w), yl_alloc = (\<lambda>w. (True, w))\<rparr>"

section \<open>Finding a region\<close>

text \<open>
  The result with the region, given what loading gives. The caller frees the region; after an error of the
  document it is not NULL when the country was seen before.
\<close>

definition region_result :: "region_step \<Rightarrow> (uwbs_config_status \<times> string option) option" where
  "region_result r =
     do {
       (st, ctx, w) \<leftarrow> r;
       Some (if st = CONFIG_OK
             then (if rl_region_found w \<noteq> None then CONFIG_OK else CONFIG_COUNTRY_CODE_NOT_FOUND) else st,
             rl_region_found w)
     }"

definition uwbs_config_region_loader_find_from_str ::
    "yaml_event option list option \<Rightarrow> string \<Rightarrow> (nat \<Rightarrow> bool) \<Rightarrow> (uwbs_config_status \<times> string option) option" where
  "uwbs_config_region_loader_find_from_str input country_code fails =
     region_result (uwbs_config_yaml_load_str region_loader input uwbs_config_yaml_init
       (uwbs_config_region_loader_init country_code 0 fails))"

definition uwbs_config_region_loader_find_from_file ::
    "yaml_event option list option option \<Rightarrow> string \<Rightarrow> (nat \<Rightarrow> bool) \<Rightarrow> (uwbs_config_status \<times> string option) option" where
  "uwbs_config_region_loader_find_from_file input country_code fails =
     region_result (uwbs_config_yaml_load_file region_loader input uwbs_config_yaml_init
       (uwbs_config_region_loader_init country_code 0 fails))"

section \<open>Documents of regions\<close>

definition region_events :: "(string \<times> string list) list \<Rightarrow> yaml_event list" where
  "region_events rs = concat (map (\<lambda>(r, cs). Scalar r # Sequence_Start # map Scalar cs @ [Sequence_End]) rs)"

definition region_document :: "(string \<times> string list) list \<Rightarrow> yaml_event list" where
  "region_document rs =
     [Stream_Start, Document_Start, Mapping_Start, Scalar ''version'', Scalar ''1'', Scalar ''regions'', Mapping_Start] @
     region_events rs @ [Mapping_End, Mapping_End, Document_End, Stream_End]"

text \<open>The regions of a country, one for each time that it occurs.\<close>

definition region_hits :: "string \<Rightarrow> (string \<times> string list) list \<Rightarrow> string list" where
  "region_hits code rs = concat (map (\<lambda>(r, cs). replicate (count_list cs code) r) rs)"

definition first_hit :: "string list \<Rightarrow> string option" where
  "first_hit hs = (case hs of [] \<Rightarrow> None | h # _ \<Rightarrow> Some h)"

definition region_state :: "uwbs_config_region_loader \<Rightarrow> string \<Rightarrow> string option \<Rightarrow> string list \<Rightarrow> nat \<Rightarrow> bool" where
  "region_state w code r hs n \<longleftrightarrow> rl_country_code w = code \<and> rl_region w = r \<and> rl_region_found w = first_hit hs \<and>
     rl_sequence_level w = n \<and> (\<forall>i. \<not> rl_fails w i)"

lemma consume_region [simp]: "consume_node region_loader (Node h) e ctx w = region_consume h e ctx w"
  by (simp add: consume_node_def region_loader_def)

text \<open>A run goes on with the hits \<open>hs\<close> so far, or stops at the second one.\<close>

definition region_goes :: "string \<Rightarrow> string list \<Rightarrow> (uwbs_config_region_loader \<Rightarrow> region_step) \<Rightarrow> region_step \<Rightarrow> bool" where
  "region_goes code hs k r \<longleftrightarrow>
     (if length hs \<le> 1 then \<exists>w. r = k w \<and> region_state w code None hs 0
      else \<exists>ctx w. r = Some (CONFIG_INVALID_FMT, ctx, w) \<and> rl_region_found w = None)"

text \<open>The countries of a region: a second occurrence of the code is an error.\<close>

lemma countries_run:
  assumes "node_stack ctx = Node Region_Countries # ns" and "region_state w code x hs 1"
    and "length hs \<le> 1" and "hs = [] \<longrightarrow> x = Some r"
  shows "region_goes code (hs @ replicate (count_list cs code) r)
    (consumes region_loader es (ctx\<lparr>node_stack := ns\<rparr>)) (consumes region_loader (map Scalar cs @ Sequence_End # es) ctx w)"
  using assms
proof (induction cs arbitrary: w x hs)
  case Nil
  let ?w = "w\<lparr>rl_sequence_level := size_sub (rl_sequence_level w) 1, rl_region := None\<rparr>"
  have "consume_node region_loader (Node Region_Countries) Sequence_End ctx w = Some (CONFIG_OK, ctx\<lparr>node_stack := ns\<rparr>, ?w)"
    using Nil.prems(1) by (simp add: region_consume_def uwbs_config_region_loader_countries_consume_event_def)
  from consumes_step [OF Nil.prems(1) this] Nil.prems(2,3) show ?case
    by (auto simp: region_goes_def region_state_def intro!: exI [of _ ?w])
next
  case (Cons c cs)
  show ?case
  proof (cases "c = code")
    case False
    have "consume_node region_loader (Node Region_Countries) (Scalar c) ctx w = Some (CONFIG_OK, ctx, w)"
      using Cons.prems(2) False
      by (simp add: region_consume_def uwbs_config_region_loader_countries_consume_event_def region_state_def)
    from consumes_step [OF Cons.prems(1) this] Cons.IH [OF Cons.prems] False show ?thesis by simp
  next
    case True
    show ?thesis
    proof (cases "hs = []")
      case False
      then have found: "rl_region_found w \<noteq> None" and n: "\<not> length (hs @ replicate (count_list (c # cs) code) r) \<le> 1"
        using Cons.prems(2,3) True by (auto simp: region_state_def first_hit_def split: list.splits)
      have "consume_node region_loader (Node Region_Countries) (Scalar c) ctx w =
          Some (CONFIG_INVALID_FMT, ctx, w\<lparr>rl_region_found := None\<rparr>)"
        using Cons.prems(2) True found
        by (simp add: region_consume_def uwbs_config_region_loader_countries_consume_event_def region_state_def)
      from consumes_stop [OF Cons.prems(1) this] show ?thesis unfolding region_goes_def if_not_P [OF n] by simp
    next
      case hs: True
      let ?w = "w\<lparr>rl_region_found := rl_region w, rl_region := None\<rparr>"
      have run: "consume_node region_loader (Node Region_Countries) (Scalar c) ctx w = Some (CONFIG_OK, ctx, ?w)"
        using Cons.prems(2) True hs
        by (simp add: region_consume_def uwbs_config_region_loader_countries_consume_event_def region_state_def first_hit_def)
      have "region_state ?w code None [r] 1"
        using Cons.prems(2,4) hs by (simp add: region_state_def first_hit_def)
      from Cons.IH [OF Cons.prems(1) this] consumes_step [OF Cons.prems(1) run] True hs show ?thesis by simp
    qed
  qed
qed

lemma regions_run:
  assumes "node_stack ctx = Node Region_Regions # ns" and "length (node_stack ctx) < NODE_STACK_SIZE"
    and "region_state w code None hs 0" and "length hs \<le> 1"
  shows "region_goes code (hs @ region_hits code rs) (consumes region_loader es ctx)
    (consumes region_loader (region_events rs @ es) ctx w)"
  using assms(3,4)
proof (induction rs arbitrary: w hs)
  case Nil
  then show ?case by (auto simp: region_goes_def region_events_def region_hits_def)
next
  case (Cons x rs)
  obtain r cs where x: "x = (r, cs)" by (cases x)
  let ?w1 = "w\<lparr>rl_allocs := Suc (rl_allocs w), rl_region := Some r\<rparr>"
  let ?w2 = "?w1\<lparr>rl_sequence_level := 1\<rparr>"
  let ?c = "ctx\<lparr>node_stack := Node Region_Countries # node_stack ctx\<rparr>"
  have 1: "consume_node region_loader (Node Region_Regions) (Scalar r) ctx w = Some (CONFIG_OK, ?c, ?w1)"
    using assms(2) Cons.prems(1)
    by (simp add: region_consume_def uwbs_config_region_loader_regions_consume_event_def region_strdup_def region_state_def)
  have 2: "consume_node region_loader (Node Region_Countries) Sequence_Start ?c ?w1 = Some (CONFIG_OK, ?c, ?w2)"
    using Cons.prems(1)
    by (simp add: region_consume_def uwbs_config_region_loader_countries_consume_event_def region_state_def
        size_modulus_gt Let_def)
  have st: "node_stack ?c = Node Region_Countries # node_stack ctx" by simp
  let ?es = "region_events rs @ es"
  have run: "consumes region_loader (region_events (x # rs) @ es) ctx w =
      consumes region_loader (map Scalar cs @ Sequence_End # ?es) ?c ?w2"
    using consumes_step [OF assms(1) 1] consumes_step [OF st 2] by (simp add: region_events_def x)
  have "region_state ?w2 code (Some r) hs 1" using Cons.prems(1) by (simp add: region_state_def)
  note countries = countries_run [OF st this Cons.prems(2), of r cs ?es]
  let ?hs = "hs @ replicate (count_list cs code) r"
  have hits: "hs @ region_hits code (x # rs) = ?hs @ region_hits code rs" by (simp add: region_hits_def x)
  show ?case
  proof (cases "length ?hs \<le> 1")
    case False
    then have "\<not> length (hs @ region_hits code (x # rs)) \<le> 1" unfolding hits by simp
    with countries False run show ?thesis unfolding region_goes_def by simp
  next
    case True
    with countries obtain w' where w': "region_state w' code None ?hs 0"
      "consumes region_loader (map Scalar cs @ Sequence_End # ?es) ?c ?w2 =
         consumes region_loader ?es (?c\<lparr>node_stack := node_stack ctx\<rparr>) w'"
      unfolding region_goes_def by auto
    have "?c\<lparr>node_stack := node_stack ctx\<rparr> = ctx" by simp
    with Cons.IH [OF w'(1) True] w'(2) run show ?thesis unfolding hits by simp
  qed
qed

text \<open>The whole document.\<close>

lemma region_document_run:
  assumes "\<And>i. \<not> fails i"
  shows "uwbs_config_region_loader_find_from_str (Some (map Some (region_document rs))) code fails =
    Some (case region_hits code rs of
        [] \<Rightarrow> (CONFIG_COUNTRY_CODE_NOT_FOUND, None)
      | [r] \<Rightarrow> (CONFIG_OK, Some r)
      | _ \<Rightarrow> (CONFIG_INVALID_FMT, None))"
proof -
  let ?w = "uwbs_config_region_loader_init code 0 fails"
  let ?ns = "[Node Region_Regions, Node Region_Root, Stream_Node]"
  let ?c = "\<lambda>ns. \<lparr>node_stack = ns, skip_depth = 0\<rparr> :: region_ctx"
  let ?es = "[Mapping_End, Mapping_End, Document_End, Stream_End]"
  note evs = consumes_Cons uwbs_config_yaml_consume_event_def consume_node_def [of _ Stream_Node]
    uwbs_config_yaml_stream_consume_event_def region_consume_def uwbs_config_region_loader_root_consume_event_def
    uwbs_config_region_loader_version_consume_event_def uwbs_config_region_loader_regions_consume_event_def
  have init: "uwbs_config_yaml_load_str region_loader (Some (map Some es)) uwbs_config_yaml_init ?w =
      consumes region_loader es (?c [Stream_Node]) ?w" for es
    by (simp add: uwbs_config_yaml_load_str_def uwbs_config_yaml_load_loop_def uwbs_config_yaml_init_def
        uwbs_config_yaml_enter_node_def NODE_STACK_SIZE_def consumes_def)
  have root: "yl_root region_loader = Region_Root" by (simp add: region_loader_def)
  have start: "consumes region_loader (region_document rs) (?c [Stream_Node]) ?w =
      consumes region_loader (region_events rs @ ?es) (?c ?ns) ?w"
    by (simp add: region_document_def evs root NODE_STACK_SIZE_def)
  have fin: "consumes region_loader ?es (?c ?ns) w = Some (CONFIG_OK, ?c [], w)" for w
    by (simp add: evs)
  have "region_state ?w code None [] 0"
    using assms by (simp add: region_state_def uwbs_config_region_loader_init_def first_hit_def)
  note run = regions_run [of "?c ?ns", OF _ _ this, of "[Node Region_Root, Stream_Node]" rs ?es]
  show ?thesis
  proof (cases "length (region_hits code rs) \<le> 1")
    case True
    with run obtain w' where w': "consumes region_loader (region_events rs @ ?es) (?c ?ns) ?w = Some (CONFIG_OK, ?c [], w')"
      "region_state w' code None (region_hits code rs) 0"
      by (auto simp: NODE_STACK_SIZE_def fin region_goes_def)
    with True show ?thesis
      by (auto simp: uwbs_config_region_loader_find_from_str_def region_result_def init start region_state_def
          first_hit_def split: list.splits)
  next
    case False
    with run obtain c' w' where "consumes region_loader (region_events rs @ ?es) (?c ?ns) ?w = Some (CONFIG_INVALID_FMT, c', w')"
      "rl_region_found w' = None"
      by (auto simp: NODE_STACK_SIZE_def region_goes_def)
    with False show ?thesis
      by (auto simp: uwbs_config_region_loader_find_from_str_def region_result_def init start split: list.splits)
  qed
qed

end
