(* ===== verification/Config_Schema.thy ===== *)
theory Config_Schema
  imports Config_Model
begin

text \<open>
  Loading a model (\<^verbatim>\<open>model_loader.c\<close>): the nodes that build the tree of definitions, the checks when a definition
  or a property is complete, and the check of the whole. A pointer into the tree is a path from its root, which a
  vector that moves when it grows does not change; the code keeps addresses, and only of elements that are the last
  ones of vectors that do not grow while they are kept.
\<close>

section \<open>Checks\<close>

definition uwbs_config_model_loader_check_node :: "uwbs_config_model_node \<Rightarrow> string option \<Rightarrow> uwbs_config_status" where
  "uwbs_config_model_loader_check_node node ref =
     (if mn_type node = Type_Null \<and> (ref = None \<or> ref = Some []) then CONFIG_INVALID_FMT
      else if mn_type node = Type_Object \<and> mn_underlying_type node \<noteq> Utype_Null \<and> mn_underlying_type node \<noteq> Utype_Bitfield
      then CONFIG_INVALID_FMT
      else if mn_type node = Type_Integer \<and> mn_underlying_type node = Utype_Bitfield then CONFIG_INVALID_FMT
      else CONFIG_OK)"

text \<open>The loop over the required names stops at a name that is not that of the field; a NULL name is a fault.\<close>

definition uwbs_config_model_loader_check_def_bitfield_field ::
    "uwbs_config_model_def \<Rightarrow> uwbs_config_model_property \<Rightarrow> uwbs_config_status option" where
  "uwbs_config_model_loader_check_def_bitfield_field bitfield field =
     do {
       found \<leftarrow> find_named id (\<lambda>s. Some s \<noteq> mn_name (pr_node field)) (vec_arr (df_required bitfield));
       if vec_arr (df_required bitfield) \<noteq> [] \<and> mn_name (pr_node field) = None then None
       else Some (if found = None then CONFIG_INVALID_FMT
         else if mn_type (pr_node field) \<noteq> Type_Integer \<or> mn_underlying_type (pr_node field) \<noteq> Utype_Null then CONFIG_INVALID_FMT
         else if pr_minimum field < 0 then CONFIG_INVALID_FMT
         else CONFIG_OK)
     }"

text \<open>The total size of the fields that are all right, or the first error.\<close>

fun check_fields ::
    "uwbs_config_model_def \<Rightarrow> uwbs_config_model_property list \<Rightarrow> nat \<Rightarrow> (uwbs_config_status \<times> nat) option" where
  "check_fields bitfield [] bits = Some (CONFIG_OK, bits)"
| "check_fields bitfield (field # fs) bits =
     do {
       st \<leftarrow> uwbs_config_model_loader_check_def_bitfield_field bitfield field;
       if st \<noteq> CONFIG_OK then Some (st, bits)
       else check_fields bitfield fs (bits + uwbs_config_model_bitfield_get_field_bit_count field)
     }"

definition uwbs_config_model_loader_check_def_bitfield :: "uwbs_config_model_def \<Rightarrow> uwbs_config_status option" where
  "uwbs_config_model_loader_check_def_bitfield bitfield =
     (if vec_size (df_defs bitfield) \<noteq> 0 then Some CONFIG_INVALID_FMT
      else if vec_size (df_properties bitfield) \<noteq> vec_size (df_required bitfield) then Some CONFIG_INVALID_FMT
      else do {
        (st, total_size) \<leftarrow> check_fields bitfield (vec_arr (df_properties bitfield)) 0;
        Some (if st \<noteq> CONFIG_OK then st
          else if total_size = 0 \<or> total_size > 32 then CONFIG_INVALID_FMT else CONFIG_OK)
      })"

fun check_required :: "uwbs_config_model_def \<Rightarrow> string option list \<Rightarrow> uwbs_config_status option" where
  "check_required def [] = Some CONFIG_OK"
| "check_required def (req # reqs) =
     (if req = None \<and> vec_size (df_properties def) = 0 then Some CONFIG_INVALID_FMT
      else do {
        s \<leftarrow> req;
        p \<leftarrow> uwbs_config_model_def_find_property def s;
        if p = None then Some CONFIG_INVALID_FMT else check_required def reqs
      })"

definition uwbs_config_model_loader_check_def :: "uwbs_config_model_def \<Rightarrow> uwbs_config_status option" where
  "uwbs_config_model_loader_check_def def =
     (let st = uwbs_config_model_loader_check_node (df_node def) None
      in if st \<noteq> CONFIG_OK then Some st
         else do {
           st \<leftarrow> check_required def (vec_arr (df_required def));
           if st \<noteq> CONFIG_OK then Some st
           else if mn_type (df_node def) = Type_Object \<and> mn_underlying_type (df_node def) = Utype_Bitfield
           then uwbs_config_model_loader_check_def_bitfield def
           else Some CONFIG_OK
         })"

definition uwbs_config_model_loader_check_property :: "uwbs_config_model_property \<Rightarrow> uwbs_config_status" where
  "uwbs_config_model_loader_check_property p =
     (let st = uwbs_config_model_loader_check_node (pr_node p) (pr_ref p)
      in if st \<noteq> CONFIG_OK then st
         else if mn_type (pr_node p) = Type_Object \<and> pr_ref p = None then CONFIG_INVALID_FMT
         else if mn_type (pr_node p) = Type_Array \<and>
           (case pr_items p of
              None \<Rightarrow> True
            | Some q \<Rightarrow> mn_type (pr_node q) \<noteq> Type_Array \<and> mn_type (pr_node q) \<noteq> Type_Integer) then CONFIG_INVALID_FMT
         else if pr_minimum p > pr_maximum p then CONFIG_INVALID_FMT
         else CONFIG_OK)"

section \<open>Pointers into the model\<close>

type_synonym def_ptr = "nat list"
type_synonym prop_ptr = "nat list \<times> nat \<times> nat"

fun get_def :: "def_ptr \<Rightarrow> uwbs_config_model_def \<Rightarrow> uwbs_config_model_def option" where
  "get_def [] d = Some d"
| "get_def (i # is) d = (if i < vec_size (df_defs d) then get_def is (vec_arr (df_defs d) ! i) else None)"

fun upd_def :: "def_ptr \<Rightarrow> (uwbs_config_model_def \<Rightarrow> uwbs_config_model_def) \<Rightarrow> uwbs_config_model_def \<Rightarrow> uwbs_config_model_def" where
  "upd_def [] f d = f d"
| "upd_def (i # is) f (Model_Def node defs enums properties required) =
     Model_Def node (upd_at i (upd_def is f) defs) enums properties required"

fun get_items :: "nat \<Rightarrow> uwbs_config_model_property \<Rightarrow> uwbs_config_model_property option" where
  "get_items 0 p = Some p"
| "get_items (Suc n) p = do { q \<leftarrow> pr_items p; get_items n q }"

fun upd_items ::
    "nat \<Rightarrow> (uwbs_config_model_property \<Rightarrow> uwbs_config_model_property) \<Rightarrow> uwbs_config_model_property \<Rightarrow>
     uwbs_config_model_property" where
  "upd_items 0 f p = f p"
| "upd_items (Suc n) f (Model_Property node ref mi ma items max_items bit_size) =
     Model_Property node ref mi ma (map_option (upd_items n f) items) max_items bit_size"

definition get_prop :: "prop_ptr \<Rightarrow> uwbs_config_model_def \<Rightarrow> uwbs_config_model_property option" where
  "get_prop q root =
     (case q of (is, i, n) \<Rightarrow>
        do {
          d \<leftarrow> get_def is root;
          if i < vec_size (df_properties d) then get_items n (vec_arr (df_properties d) ! i) else None
        })"

text \<open>Changing one part of a definition or a property.\<close>

definition map_defs where
  "map_defs f d = Model_Def (df_node d) (f (df_defs d)) (df_underlying_enums d) (df_properties d) (df_required d)"

definition map_enums where
  "map_enums f d = Model_Def (df_node d) (df_defs d) (f (df_underlying_enums d)) (df_properties d) (df_required d)"

definition map_properties where
  "map_properties f d = Model_Def (df_node d) (df_defs d) (df_underlying_enums d) (f (df_properties d)) (df_required d)"

definition map_required where
  "map_required f d = Model_Def (df_node d) (df_defs d) (df_underlying_enums d) (df_properties d) (f (df_required d))"

definition map_def_node where
  "map_def_node f d = Model_Def (f (df_node d)) (df_defs d) (df_underlying_enums d) (df_properties d) (df_required d)"

definition map_prop_node where
  "map_prop_node f p =
     Model_Property (f (pr_node p)) (pr_ref p) (pr_minimum p) (pr_maximum p) (pr_items p) (pr_max_items p) (pr_bit_size p)"

definition set_items where
  "set_items q p =
     Model_Property (pr_node p) (pr_ref p) (pr_minimum p) (pr_maximum p) (Some q) (pr_max_items p) (pr_bit_size p)"

definition upd_prop ::
    "prop_ptr \<Rightarrow> (uwbs_config_model_property \<Rightarrow> uwbs_config_model_property) \<Rightarrow> uwbs_config_model_def \<Rightarrow> uwbs_config_model_def" where
  "upd_prop q f root = (case q of (is, i, n) \<Rightarrow> upd_def is (map_properties (upd_at i (upd_items n f))) root)"

definition named :: "string option \<Rightarrow> uwbs_config_model_node \<Rightarrow> uwbs_config_model_node" where
  "named s node = Model_Node s (mn_type node) (mn_underlying_type node)"

definition typed :: "uwbs_config_model_type \<Rightarrow> uwbs_config_model_node \<Rightarrow> uwbs_config_model_node" where
  "typed t node = Model_Node (mn_name node) t (mn_underlying_type node)"

definition underlying_typed :: "uwbs_config_model_underlying_type \<Rightarrow> uwbs_config_model_node \<Rightarrow> uwbs_config_model_node" where
  "underlying_typed t node = Model_Node (mn_name node) (mn_type node) t"

datatype node_ptr = Def_Node def_ptr | Prop_Node prop_ptr

definition upd_node ::
    "node_ptr \<Rightarrow> (uwbs_config_model_node \<Rightarrow> uwbs_config_model_node) \<Rightarrow> uwbs_config_model_def \<Rightarrow> uwbs_config_model_def" where
  "upd_node q f root =
     (case q of Def_Node is \<Rightarrow> upd_def is (map_def_node f) root | Prop_Node q \<Rightarrow> upd_prop q (map_prop_node f) root)"

text \<open>Where the scalar nodes store: the value of an enumeration, a part of a property.\<close>

datatype model_ptr =
    Enum_Value def_ptr nat | Prop_Ref prop_ptr | Prop_Minimum prop_ptr | Prop_Maximum prop_ptr
  | Prop_Max_Items prop_ptr | Prop_Bit_Size prop_ptr

fun store_prop :: "model_ptr \<Rightarrow> yaml_value \<Rightarrow> uwbs_config_model_property \<Rightarrow> uwbs_config_model_property" where
  "store_prop (Prop_Ref _) (String_Value s) (Model_Property node ref mi ma items max_items bit_size) =
     Model_Property node s mi ma items max_items bit_size"
| "store_prop (Prop_Minimum _) (Number_Value n) (Model_Property node ref mi ma items max_items bit_size) =
     Model_Property node ref n ma items max_items bit_size"
| "store_prop (Prop_Maximum _) (Number_Value n) (Model_Property node ref mi ma items max_items bit_size) =
     Model_Property node ref mi n items max_items bit_size"
| "store_prop (Prop_Max_Items _) (Number_Value n) (Model_Property node ref mi ma items max_items bit_size) =
     Model_Property node ref mi ma items (nat n) bit_size"
| "store_prop (Prop_Bit_Size _) (Number_Value n) (Model_Property node ref mi ma items max_items bit_size) =
     Model_Property node ref mi ma items max_items (nat n)"
| "store_prop _ _ p = p"

text \<open>An enumeration value has eight bits: of the 32 that are stored the rest goes to the padding.\<close>

definition model_store :: "model_ptr \<Rightarrow> yaml_value \<Rightarrow> uwbs_config_model_def \<Rightarrow> uwbs_config_model_def" where
  "model_store q v root =
     (case q of
        Enum_Value is i \<Rightarrow>
          upd_def is (map_enums (upd_at i (\<lambda>(s, b). (s, case v of Number_Value n \<Rightarrow> of_int n | String_Value _ \<Rightarrow> b)))) root
      | Prop_Ref r \<Rightarrow> upd_prop r (store_prop q v) root
      | Prop_Minimum r \<Rightarrow> upd_prop r (store_prop q v) root
      | Prop_Maximum r \<Rightarrow> upd_prop r (store_prop q v) root
      | Prop_Max_Items r \<Rightarrow> upd_prop r (store_prop q v) root
      | Prop_Bit_Size r \<Rightarrow> upd_prop r (store_prop q v) root)"

section \<open>State\<close>

text \<open>The model under construction; the schedule says which allocations fail.\<close>

record model_load =
  ml_root :: uwbs_config_model_def
  ml_allocs :: nat
  ml_fails :: "nat \<Rightarrow> bool"

datatype model_handler =
    Load_Def def_ptr | Load_Defs def_ptr | Load_Enums def_ptr | Load_Properties def_ptr | Load_Required def_ptr
  | Load_Property prop_ptr | Load_Type node_ptr | Load_Underlying_Type node_ptr

type_synonym model_ctx = "(model_handler, model_ptr) yaml_ctx"
type_synonym model_step = "(model_handler, model_ptr, model_load) node_step"

definition model_alloc :: "model_load \<Rightarrow> bool \<times> model_load" where
  "model_alloc w = (\<not> ml_fails w (ml_allocs w), w\<lparr>ml_allocs := Suc (ml_allocs w)\<rparr>)"

definition root_updated :: "(uwbs_config_model_def \<Rightarrow> uwbs_config_model_def) \<Rightarrow> model_load \<Rightarrow> model_load" where
  "root_updated f w = w\<lparr>ml_root := f (ml_root w)\<rparr>"

text \<open>Growing a vector by an element: memory is asked for when it is full.\<close>

definition room_for_one :: "'a vector \<Rightarrow> model_load \<Rightarrow> bool \<times> model_load" where
  "room_for_one v w = (if vector_full v then model_alloc w else (True, w))"

definition grown :: "'a \<Rightarrow> 'a vector \<Rightarrow> 'a vector" where
  "grown x v = snd (uwbs_config_vector_resize v (vec_size v + 1) x True)"

definition strdup :: "string \<Rightarrow> model_load \<Rightarrow> string option \<times> model_load" where
  "strdup s w = (let (ok, w) = model_alloc w in (if ok then Some s else None, w))"

section \<open>Nodes\<close>

definition uwbs_config_model_loader_type_consume_event :: "node_ptr \<Rightarrow> yaml_event \<Rightarrow> model_ctx \<Rightarrow> model_load \<Rightarrow> model_step" where
  "uwbs_config_model_loader_type_consume_event q event ctx w =
     (case event of
        Scalar s \<Rightarrow>
          (case uwbs_config_model_type_from_str s of
             None \<Rightarrow> Some (CONFIG_INVALID_FMT, ctx, w)
           | Some t \<Rightarrow> leave CONFIG_OK ctx (root_updated (upd_node q (typed t)) w))
      | _ \<Rightarrow> Some (CONFIG_INVALID_FMT, ctx, w))"

definition uwbs_config_model_loader_underlying_type_consume_event ::
    "node_ptr \<Rightarrow> yaml_event \<Rightarrow> model_ctx \<Rightarrow> model_load \<Rightarrow> model_step" where
  "uwbs_config_model_loader_underlying_type_consume_event q event ctx w =
     (case event of
        Scalar s \<Rightarrow>
          (case uwbs_config_model_underlying_type_from_str s of
             None \<Rightarrow> Some (CONFIG_INVALID_FMT, ctx, w)
           | Some t \<Rightarrow> leave CONFIG_OK ctx (root_updated (upd_node q (underlying_typed t)) w))
      | _ \<Rightarrow> Some (CONFIG_INVALID_FMT, ctx, w))"

definition uwbs_config_model_loader_enter_underlying_enum_node :: "model_ctx \<Rightarrow> def_ptr \<Rightarrow> string \<Rightarrow> model_load \<Rightarrow> model_step" where
  "uwbs_config_model_loader_enter_underlying_enum_node ctx q name w =
     do {
       d \<leftarrow> get_def q (ml_root w);
       let (ok, w) = room_for_one (df_underlying_enums d) w;
       if \<not> ok then Some (CONFIG_OOM, ctx, w)
       else
         let (s, w) = strdup name w;
             w = root_updated (upd_def q (map_enums
               (\<lambda>v. upd_back (\<lambda>(_, b). (s, b)) (grown uwbs_config_model_def_underlying_enum_init v)))) w
         in if s = None then Some (CONFIG_INTERNAL_ERROR, ctx, w)
            else enter ctx (Uint8_Node (Enum_Value q (vec_size (df_underlying_enums d)))) w
     }"

definition uwbs_config_model_loader_def_underlying_enum_consume_event ::
    "def_ptr \<Rightarrow> yaml_event \<Rightarrow> model_ctx \<Rightarrow> model_load \<Rightarrow> model_step" where
  "uwbs_config_model_loader_def_underlying_enum_consume_event q event ctx w =
     (case event of
        Mapping_End \<Rightarrow> leave CONFIG_OK ctx w
      | Mapping_Start \<Rightarrow> Some (CONFIG_OK, ctx, w)
      | Scalar name \<Rightarrow> uwbs_config_model_loader_enter_underlying_enum_node ctx q name w
      | _ \<Rightarrow> Some (CONFIG_INVALID_FMT, ctx, w))"

definition uwbs_config_model_loader_node_consume_event :: "node_ptr \<Rightarrow> yaml_event \<Rightarrow> model_ctx \<Rightarrow> model_load \<Rightarrow> model_step" where
  "uwbs_config_model_loader_node_consume_event q event ctx w =
     (case event of
        Scalar name \<Rightarrow>
          if name = ''underlying_type'' then enter ctx (Node (Load_Underlying_Type q)) w
          else if name = ''type'' then enter ctx (Node (Load_Type q)) w
          else Some (CONFIG_INVALID_FMT, ctx, w)
      | _ \<Rightarrow> Some (CONFIG_INVALID_FMT, ctx, w))"

text \<open>The memory for the items is not checked: without it a NULL pointer is written through.\<close>

definition uwbs_config_model_loader_property_consume_event :: "prop_ptr \<Rightarrow> yaml_event \<Rightarrow> model_ctx \<Rightarrow> model_load \<Rightarrow> model_step" where
  "uwbs_config_model_loader_property_consume_event q event ctx w =
     (case event of
        Mapping_End \<Rightarrow>
          do {
            ctx \<leftarrow> uwbs_config_yaml_leave_node ctx;
            p \<leftarrow> get_prop q (ml_root w);
            Some (uwbs_config_model_loader_check_property p, ctx, w)
          }
      | Mapping_Start \<Rightarrow> Some (CONFIG_OK, ctx, w)
      | Scalar name \<Rightarrow>
          if name = ''$ref'' then
            do { p \<leftarrow> get_prop q (ml_root w); uwbs_config_yaml_enter_string_node ctx (pr_ref p) (Prop_Ref q) w }
          else if name = ''minimum'' then enter ctx (Int64_Node (Prop_Minimum q)) w
          else if name = ''maximum'' then enter ctx (Int64_Node (Prop_Maximum q)) w
          else if name = ''items'' then
            do {
              p \<leftarrow> get_prop q (ml_root w);
              if pr_items p \<noteq> None then Some (CONFIG_INVALID_FMT, ctx, w)
              else
                let (ok, w) = model_alloc w
                in if \<not> ok then None
                   else enter ctx (Node (Load_Property (case q of (is, i, n) \<Rightarrow> (is, i, Suc n))))
                     (root_updated (upd_prop q (set_items uwbs_config_model_property_init)) w)
            }
          else if name = ''title'' then uwbs_config_yaml_skip_scalar ctx w
          else if name = ''maxItems'' then enter ctx (Uint32_Node (Prop_Max_Items q)) w
          else if name = ''bit_size'' then enter ctx (Uint32_Node (Prop_Bit_Size q)) w
          else uwbs_config_model_loader_node_consume_event (Prop_Node q) event ctx w
      | _ \<Rightarrow> uwbs_config_model_loader_node_consume_event (Prop_Node q) event ctx w)"

definition uwbs_config_model_loader_enter_property_node :: "model_ctx \<Rightarrow> def_ptr \<Rightarrow> string \<Rightarrow> model_load \<Rightarrow> model_step" where
  "uwbs_config_model_loader_enter_property_node ctx q name w =
     do {
       d \<leftarrow> get_def q (ml_root w);
       let (ok, w) = room_for_one (df_properties d) w;
       if \<not> ok then Some (CONFIG_OOM, ctx, w)
       else
         let (s, w) = strdup name w;
             w = root_updated (upd_def q (map_properties
               (\<lambda>v. upd_back (map_prop_node (named s)) (grown uwbs_config_model_property_init v)))) w
         in if s = None then Some (CONFIG_INTERNAL_ERROR, ctx, w)
            else enter ctx (Node (Load_Property (q, vec_size (df_properties d), 0))) w
     }"

definition uwbs_config_model_loader_properties_consume_event :: "def_ptr \<Rightarrow> yaml_event \<Rightarrow> model_ctx \<Rightarrow> model_load \<Rightarrow> model_step" where
  "uwbs_config_model_loader_properties_consume_event q event ctx w =
     (case event of
        Mapping_End \<Rightarrow> leave CONFIG_OK ctx w
      | Mapping_Start \<Rightarrow> Some (CONFIG_OK, ctx, w)
      | Scalar name \<Rightarrow> uwbs_config_model_loader_enter_property_node ctx q name w
      | _ \<Rightarrow> Some (CONFIG_INVALID_FMT, ctx, w))"

text \<open>The name is NULL when there is no memory for it.\<close>

definition uwbs_config_model_loader_required_list_consume_event :: "def_ptr \<Rightarrow> yaml_event \<Rightarrow> model_ctx \<Rightarrow> model_load \<Rightarrow> model_step" where
  "uwbs_config_model_loader_required_list_consume_event q event ctx w =
     (case event of
        Sequence_End \<Rightarrow> leave CONFIG_OK ctx w
      | Sequence_Start \<Rightarrow> Some (CONFIG_OK, ctx, w)
      | Scalar name \<Rightarrow>
          do {
            d \<leftarrow> get_def q (ml_root w);
            let (ok, w) = room_for_one (df_required d) w;
            if \<not> ok then Some (CONFIG_OOM, ctx, w)
            else
              let (s, w) = strdup name w
              in Some (CONFIG_OK, ctx, root_updated (upd_def q (map_required (grown s))) w)
          }
      | _ \<Rightarrow> Some (CONFIG_INVALID_FMT, ctx, w))"

definition uwbs_config_model_loader_enter_def_node :: "model_ctx \<Rightarrow> def_ptr \<Rightarrow> string \<Rightarrow> model_load \<Rightarrow> model_step" where
  "uwbs_config_model_loader_enter_def_node ctx q name w =
     do {
       d \<leftarrow> get_def q (ml_root w);
       let (ok, w) = room_for_one (df_defs d) w;
       if \<not> ok then Some (CONFIG_OOM, ctx, w)
       else
         let (s, w) = strdup name w;
             w = root_updated (upd_def q (map_defs
               (\<lambda>v. upd_back (map_def_node (named s)) (grown uwbs_config_model_def_init v)))) w
         in enter ctx (Node (Load_Def (q @ [vec_size (df_defs d)]))) w
     }"

definition uwbs_config_model_loader_defs_consume_event :: "def_ptr \<Rightarrow> yaml_event \<Rightarrow> model_ctx \<Rightarrow> model_load \<Rightarrow> model_step" where
  "uwbs_config_model_loader_defs_consume_event q event ctx w =
     (case event of
        Mapping_End \<Rightarrow> leave CONFIG_OK ctx w
      | Mapping_Start \<Rightarrow> Some (CONFIG_OK, ctx, w)
      | Scalar name \<Rightarrow> uwbs_config_model_loader_enter_def_node ctx q name w
      | _ \<Rightarrow> Some (CONFIG_INVALID_FMT, ctx, w))"

definition uwbs_config_model_loader_def_consume_event :: "def_ptr \<Rightarrow> yaml_event \<Rightarrow> model_ctx \<Rightarrow> model_load \<Rightarrow> model_step" where
  "uwbs_config_model_loader_def_consume_event q event ctx w =
     (case event of
        Mapping_End \<Rightarrow>
          do {
            d \<leftarrow> get_def q (ml_root w);
            st \<leftarrow> uwbs_config_model_loader_check_def d;
            leave st ctx w
          }
      | Mapping_Start \<Rightarrow> Some (CONFIG_OK, ctx, w)
      | Scalar name \<Rightarrow>
          if name = ''enum'' then uwbs_config_yaml_skip_node ctx w
          else if name = ''underlying_enum'' then enter ctx (Node (Load_Enums q)) w
          else if name = ''properties'' then enter ctx (Node (Load_Properties q)) w
          else if name = ''required'' then enter ctx (Node (Load_Required q)) w
          else if name = ''title'' then uwbs_config_yaml_skip_scalar ctx w
          else if name = ''$defs'' then enter ctx (Node (Load_Defs q)) w
          else uwbs_config_model_loader_node_consume_event (Def_Node q) event ctx w
      | _ \<Rightarrow> uwbs_config_model_loader_node_consume_event (Def_Node q) event ctx w)"

definition model_consume :: "model_handler \<Rightarrow> yaml_event \<Rightarrow> model_ctx \<Rightarrow> model_load \<Rightarrow> model_step" where
  "model_consume h event ctx w =
     (case h of
        Load_Def q \<Rightarrow> uwbs_config_model_loader_def_consume_event q event ctx w
      | Load_Defs q \<Rightarrow> uwbs_config_model_loader_defs_consume_event q event ctx w
      | Load_Enums q \<Rightarrow> uwbs_config_model_loader_def_underlying_enum_consume_event q event ctx w
      | Load_Properties q \<Rightarrow> uwbs_config_model_loader_properties_consume_event q event ctx w
      | Load_Required q \<Rightarrow> uwbs_config_model_loader_required_list_consume_event q event ctx w
      | Load_Property q \<Rightarrow> uwbs_config_model_loader_property_consume_event q event ctx w
      | Load_Type q \<Rightarrow> uwbs_config_model_loader_type_consume_event q event ctx w
      | Load_Underlying_Type q \<Rightarrow> uwbs_config_model_loader_underlying_type_consume_event q event ctx w)"

definition model_loader :: "(model_handler, model_ptr, model_load) yaml_loader" where
  "model_loader = \<lparr>yl_consume = model_consume, yl_root = Load_Def [],
     yl_store = (\<lambda>q v. root_updated (model_store q v)), yl_alloc = model_alloc\<rparr>"

section \<open>The check of a model\<close>

definition uwbs_config_model_check_prop :: "uwbs_config_model_property \<Rightarrow> uwbs_config_status" where
  "uwbs_config_model_check_prop p = CONFIG_OK"

fun check_bitfield_props ::
    "uwbs_config_model_def \<Rightarrow> uwbs_config_model_property list \<Rightarrow> uwbs_config_status option" where
  "check_bitfield_props def [] = Some CONFIG_OK"
| "check_bitfield_props def (p # ps) =
     do {
       found \<leftarrow> find_named id (\<lambda>s. Some s \<noteq> mn_name (pr_node p)) (vec_arr (df_required def));
       if vec_arr (df_required def) \<noteq> [] \<and> mn_name (pr_node p) = None then None
       else if found = None then Some CONFIG_INVALID_FMT
       else if mn_type (pr_node p) \<noteq> Type_Integer \<or> mn_underlying_type (pr_node p) \<noteq> Utype_Null then Some CONFIG_INVALID_FMT
       else if pr_items p \<noteq> None then Some CONFIG_INVALID_FMT
       else check_bitfield_props def ps
     }"

definition uwbs_config_model_check_def_bitfield :: "uwbs_config_model_def \<Rightarrow> uwbs_config_status option" where
  "uwbs_config_model_check_def_bitfield def =
     (if vec_size (df_defs def) \<noteq> 0 then Some CONFIG_INVALID_FMT
      else check_bitfield_props def (vec_arr (df_properties def)))"

text \<open>The first error of the parts of a definition, then its own. (A property is always all right.)\<close>

fun first_error :: "uwbs_config_status option list \<Rightarrow> uwbs_config_status option" where
  "first_error [] = Some CONFIG_OK"
| "first_error (st # sts) = do { st \<leftarrow> st; if st \<noteq> CONFIG_OK then Some st else first_error sts }"

fun uwbs_config_model_check_def :: "uwbs_config_model_def \<Rightarrow> uwbs_config_status option" where
  "uwbs_config_model_check_def (Model_Def node (Vector defs capacity) enums properties required) =
     do {
       st \<leftarrow> first_error (map (Some \<circ> uwbs_config_model_check_prop) (vec_arr properties));
       if st \<noteq> CONFIG_OK then Some st
       else do {
         st \<leftarrow> first_error (map uwbs_config_model_check_def defs);
         if st \<noteq> CONFIG_OK then Some st
         else if mn_type node = Type_Object \<and> mn_underlying_type node = Utype_Bitfield
         then uwbs_config_model_check_def_bitfield (Model_Def node (Vector defs capacity) enums properties required)
         else Some CONFIG_OK
       }
     }"

definition uwbs_config_model_check :: "uwbs_config_model_def \<Rightarrow> uwbs_config_status option" where
  "uwbs_config_model_check root = uwbs_config_model_check_def root"

section \<open>Loading\<close>

definition model_load_init :: "(nat \<Rightarrow> bool) \<Rightarrow> model_load" where
  "model_load_init fails = \<lparr>ml_root = uwbs_config_model_def_init, ml_allocs = 0, ml_fails = fails\<rparr>"

text \<open>What both functions do with the result of the parser: the model is destroyed unless it is all right.\<close>

definition model_loaded :: "model_step \<Rightarrow> (uwbs_config_status \<times> uwbs_config_model_def option) option" where
  "model_loaded r =
     do {
       (ret, ctx, w) \<leftarrow> r;
       ret \<leftarrow> (if ret = CONFIG_OK then uwbs_config_model_check (ml_root w) else Some ret);
       Some (ret, if ret = CONFIG_OK then Some (ml_root w) else None)
     }"

text \<open>The text of \<open>len\<close> characters gives \<open>input\<close>; the pointer to the model is assumed not NULL.\<close>

definition uwbs_config_model_load_str ::
    "yaml_event option list option option \<Rightarrow> nat \<Rightarrow> (nat \<Rightarrow> bool) \<Rightarrow> (uwbs_config_status \<times> uwbs_config_model_def option) option" where
  "uwbs_config_model_load_str str len fails =
     (case str of
        None \<Rightarrow> Some (CONFIG_INVALID_ARG, None)
      | Some input \<Rightarrow>
          if len = 0 then Some (CONFIG_INVALID_ARG, None)
          else model_loaded (uwbs_config_yaml_load_str model_loader input uwbs_config_yaml_init (model_load_init fails)))"

definition uwbs_config_model_load_file ::
    "yaml_event option list option option option \<Rightarrow> (nat \<Rightarrow> bool) \<Rightarrow> (uwbs_config_status \<times> uwbs_config_model_def option) option" where
  "uwbs_config_model_load_file path fails =
     (case path of
        None \<Rightarrow> Some (CONFIG_INVALID_ARG, None)
      | Some input \<Rightarrow>
          model_loaded (uwbs_config_yaml_load_file model_loader input uwbs_config_yaml_init (model_load_init fails)))"

end
