(* ===== verification/Config_Load.thy ===== *)
theory Config_Load
  imports Config_Document Config_Region Config_Schema
begin

text \<open>
  Loading the configuration of a directory (\<^verbatim>\<open>uwbs_config.c\<close>): the model, the files that hold for every region, and
  the file of the region of a country.
\<close>

section \<open>Paths\<close>

text \<open>
  A buffer with a path: what was written before its end, and its size. \<open>ok\<close> is whether the memory can be had; the
  size is the new one even when it cannot.
\<close>

definition uwbs_config_model_append_path ::
    "string \<times> nat \<Rightarrow> nat \<Rightarrow> string \<Rightarrow> bool \<Rightarrow> uwbs_config_status \<times> string \<times> nat" where
  "uwbs_config_model_append_path buf prefix_len suffix ok =
     (let expected_size = prefix_len + length suffix + 1
      in if snd buf < expected_size then
           (if ok then (CONFIG_OK, take prefix_len (fst buf) @ suffix, expected_size)
            else (CONFIG_OOM, fst buf, expected_size))
         else (CONFIG_OK, take prefix_len (fst buf) @ suffix, snd buf))"

section \<open>Loading\<close>

text \<open>
  The surroundings: what the parser gives for the file of a path, the memory of a load (the allocation of the
  path, its growing each time, those of the model, of each file and of the region), and what the memory of the
  structure of a load held before.
\<close>

record load_env =
  en_file :: "string \<Rightarrow> yaml_event option list option option"
  en_malloc :: bool
  en_realloc :: "nat \<Rightarrow> bool"
  en_model_fails :: "nat \<Rightarrow> bool"
  en_region_fails :: "nat \<Rightarrow> bool"
  en_init :: "nat \<Rightarrow> uwbs_config_model_def \<Rightarrow> uwbs_config_load"

definition schema_file :: string where
  "schema_file = ''schema.json''"

definition region_file :: string where
  "region_file = ''regions.yml''"

definition global_files :: "string list" where
  "global_files = [''definition.yml'', ''settings.yml'', ''calibration.yml'']"

definition regional_files :: "string list" where
  "regional_files = [''settings.yml'']"

text \<open>
  The loop over some files, \<open>n\<close> of which were loaded before, as many as paths were made. A file that cannot be
  opened is skipped. The result has the status, the buffer and the calls of the callback.
\<close>

fun load_files ::
    "load_env \<Rightarrow> uwbs_config_model_def \<Rightarrow> nat \<Rightarrow> nat \<Rightarrow> string list \<Rightarrow> string \<times> nat \<Rightarrow>
     (uwbs_config_status \<times> (string \<times> nat) \<times> key_call list) option" where
  "load_files env model n path_len [] buf = Some (CONFIG_OK, buf, [])"
| "load_files env model n path_len (file # files) buf =
     (let (st, buf) = uwbs_config_model_append_path buf path_len file (en_realloc env n)
      in if st \<noteq> CONFIG_OK then Some (st, buf, [])
         else do {
           (st, calls) \<leftarrow> uwbs_config_load_file (Some (en_file env (fst buf))) (Some model) True (en_init env n);
           if st \<noteq> CONFIG_OK \<and> st \<noteq> CONFIG_INVALID_ARG then Some (st, buf, calls)
           else do {
             (st, buf, calls') \<leftarrow> load_files env model (n + 1) path_len files buf;
             Some (st, buf, calls @ calls')
           }
         })"

text \<open>
  The files of a region: the status, the calls, and the name of the region when it is not freed. \<open>n\<close> counts the
  paths that were made.
\<close>

definition load_region ::
    "load_env \<Rightarrow> uwbs_config_model_def \<Rightarrow> nat \<Rightarrow> nat \<Rightarrow> string \<Rightarrow> string \<times> nat \<Rightarrow>
     (uwbs_config_status \<times> key_call list \<times> string option) option" where
  "load_region env model n path_len country_code buf =
     (let (st, buf) = uwbs_config_model_append_path buf path_len region_file (en_realloc env n)
      in if st \<noteq> CONFIG_OK then Some (st, [], None)
         else do {
           (st, region_name) \<leftarrow> uwbs_config_region_loader_find_from_file (en_file env (fst buf)) country_code (en_region_fails env);
           if st \<noteq> CONFIG_OK then Some (st, [], region_name)
           else do {
             name \<leftarrow> region_name;
             let (st, buf) = uwbs_config_model_append_path buf path_len name (en_realloc env (n + 1));
             if st \<noteq> CONFIG_OK then Some (st, [], region_name)
             else do {
               (st, buf, calls) \<leftarrow> load_files env model (n + 2) (path_len + length name + 1) regional_files
                 (take (path_len + length name) (fst buf) @ ''/'', snd buf);
               Some (st, calls, None)
             }
           }
         })"

text \<open>The result has the status, the calls of the callback, and the name of a region that is not freed.\<close>

definition uwbs_config_load_dir ::
    "string option \<Rightarrow> string option \<Rightarrow> load_env \<Rightarrow> (uwbs_config_status \<times> key_call list \<times> string option) option" where
  "uwbs_config_load_dir path country_code env =
     (case path of
        None \<Rightarrow> Some (CONFIG_INVALID_ARG, [], None)
      | Some path \<Rightarrow>
          if \<not> en_malloc env then Some (CONFIG_OOM, [], None)
          else
            let path_len = length path + 1;
                (st, buf) = uwbs_config_model_append_path (path @ ''/'', length path + 22) path_len schema_file (en_realloc env 0)
            in if st \<noteq> CONFIG_OK then Some (st, [], None)
               else do {
                 (st, model) \<leftarrow> uwbs_config_model_load_file (Some (en_file env (fst buf))) (en_model_fails env);
                 (case model of
                    None \<Rightarrow> Some (st, [], None)
                  | Some model \<Rightarrow>
                      do {
                        (st, buf, calls) \<leftarrow> load_files env model 1 path_len global_files buf;
                        if st \<noteq> CONFIG_OK then Some (st, calls, None)
                        else case country_code of
                          None \<Rightarrow> Some (st, calls, None)
                        | Some code \<Rightarrow>
                            do {
                              (st, calls', leaked) \<leftarrow> load_region env model 4 path_len code buf;
                              Some (st, calls @ calls', leaked)
                            }
                      })
               })"

section \<open>A directory\<close>

text \<open>What a file of the directory contributes: nothing when it is missing.\<close>

definition file_calls :: "load_env \<Rightarrow> uwbs_config_model_def \<Rightarrow> string \<Rightarrow> key_call list option \<Rightarrow> bool" where
  "file_calls env model file cs \<longleftrightarrow>
     (en_file env file = Some None \<and> cs = Some [] \<or>
      (\<exists>kvs. en_file env file = Some (Some (map Some (config_document kvs))) \<and>
         object_calls model [] model kvs = cs \<and> map_depth kvs \<le> NODE_STACK_SIZE - 3))"

definition env_ok :: "load_env \<Rightarrow> bool" where
  "env_ok env \<longleftrightarrow> en_malloc env \<and> (\<forall>i. en_realloc env i) \<and> (\<forall>i. \<not> en_region_fails env i) \<and>
     (\<forall>i model. ld_model (en_init env i model) = model \<and> ld_stack (en_init env i model) = [] \<and>
        ld_array (en_init env i model) = None \<and> ld_calls (en_init env i model) = [] \<and>
        (\<forall>k. \<not> ld_fails (en_init env i model) k))"

lemma append_ok:
  "uwbs_config_model_append_path buf n suffix True = (st, buf') \<Longrightarrow> st = CONFIG_OK \<and> fst buf' = take n (fst buf) @ suffix"
  by (auto simp: uwbs_config_model_append_path_def Let_def split: if_splits)

lemma load_file_calls:
  assumes "env_ok env" and "file_calls env model file (Some cs)" and "mn_type (df_node model) = Type_Object"
  shows "uwbs_config_load_file (Some (en_file env file)) (Some model) True (en_init env n) = Some (CONFIG_OK, cs) \<or>
    cs = [] \<and> uwbs_config_load_file (Some (en_file env file)) (Some model) True (en_init env n) = Some (CONFIG_INVALID_ARG, [])"
  using assms(2) unfolding file_calls_def
proof (elim disjE exE conjE)
  assume "en_file env file = Some None" "Some cs = Some []"
  then show ?thesis using assms(1)
    by (simp add: uwbs_config_load_file_def uwbs_config_yaml_load_file_def env_ok_def)
next
  fix kvs
  assume kvs: "en_file env file = Some (Some (map Some (config_document kvs)))" "object_calls model [] model kvs = Some cs"
    "map_depth kvs \<le> NODE_STACK_SIZE - 3"
  have init: "ld_model (en_init env n model) = model" "ld_stack (en_init env n model) = []" "ld_array (en_init env n model) = None"
    "\<forall>k. \<not> ld_fails (en_init env n model) k" "ld_calls (en_init env n model) = []"
    using assms(1) by (simp_all add: env_ok_def)
  from document_loads [OF kvs(2) assms(3) kvs(3) init(1-4)] obtain w' where
    "uwbs_config_yaml_load_str config_loader (Some (map Some (config_document kvs))) uwbs_config_yaml_init (en_init env n model) =
      Some (CONFIG_OK, uwbs_config_yaml_init, w')" "called (en_init env n model) cs w'" by blast
  then show ?thesis using init(5) kvs(1)
    by (simp add: uwbs_config_load_file_def uwbs_config_yaml_load_file_def uwbs_config_yaml_load_str_def called_def)
qed

lemma load_files_calls:
  assumes env: "env_ok env" and t: "mn_type (df_node model) = Type_Object"
  shows "path_len \<le> length (fst buf) \<Longrightarrow> list_all2 (\<lambda>f cs. file_calls env model (take path_len (fst buf) @ f) (Some cs)) files css \<Longrightarrow>
    \<exists>buf'. load_files env model n path_len files buf = Some (CONFIG_OK, buf', concat css) \<and>
      path_len \<le> length (fst buf') \<and> take path_len (fst buf') = take path_len (fst buf)"
proof (induction files arbitrary: n buf css)
  case (Cons g files)
  from Cons.prems(2) obtain cs css' where css: "css = cs # css'" "file_calls env model (take path_len (fst buf) @ g) (Some cs)"
    "list_all2 (\<lambda>f cs. file_calls env model (take path_len (fst buf) @ f) (Some cs)) files css'"
    by (auto simp: list_all2_Cons1)
  obtain st buf1 where 1: "uwbs_config_model_append_path buf path_len g True = (st, buf1)"
    by (cases "uwbs_config_model_append_path buf path_len g True")
  note buf1 = append_ok [OF 1]
  have take: "take path_len (fst buf1) = take path_len (fst buf)" "path_len \<le> length (fst buf1)"
    using buf1 Cons.prems(1) by simp_all
  obtain buf' where buf': "load_files env model (n + 1) path_len files buf1 = Some (CONFIG_OK, buf', concat css')"
    "path_len \<le> length (fst buf')" "take path_len (fst buf') = take path_len (fst buf)"
    using Cons.IH [OF take(2), of css' "n + 1"] css(3) take(1) by auto
  have "en_realloc env n" using env by (simp add: env_ok_def)
  then have "load_files env model n path_len (g # files) buf = Some (CONFIG_OK, buf', concat css)"
    using 1 buf1 buf'(1) load_file_calls [OF env css(2) t, of n] by (auto simp: css(1))
  with buf'(2,3) show ?case by blast
qed (auto simp: list_all2_Nil)


lemma find_region_file:
  "en_file env file = Some (Some es) \<Longrightarrow>
     uwbs_config_region_loader_find_from_file (en_file env file) code fails = uwbs_config_region_loader_find_from_str (Some es) code fails"
  by (simp add: uwbs_config_region_loader_find_from_file_def uwbs_config_region_loader_find_from_str_def
      uwbs_config_yaml_load_file_def uwbs_config_yaml_load_str_def)

text \<open>The region of the country, and its file.\<close>

lemma region_calls:
  assumes env: "env_ok env" and t: "mn_type (df_node model) = Type_Object"
    and path: "n \<le> length (fst buf)" "take n (fst buf) = dir"
    and regions: "en_file env (dir @ region_file) = Some (Some (map Some (region_document rs)))"
    and calls: "\<And>r. region_hits code rs = [r] \<Longrightarrow> file_calls env model (dir @ r @ ''/settings.yml'') (Some cs)"
  shows "load_region env model k n code buf =
    Some (case region_hits code rs of
        [] \<Rightarrow> (CONFIG_COUNTRY_CODE_NOT_FOUND, [], None) | [r] \<Rightarrow> (CONFIG_OK, cs, None) | _ \<Rightarrow> (CONFIG_INVALID_FMT, [], None))"
proof -
  have ok: "en_realloc env i" for i using env by (simp add: env_ok_def)
  obtain st buf1 where 1: "uwbs_config_model_append_path buf n region_file True = (st, buf1)"
    by (cases "uwbs_config_model_append_path buf n region_file True")
  have buf1: "st = CONFIG_OK" "fst buf1 = dir @ region_file" using append_ok [OF 1] path(2) by simp_all
  have find: "uwbs_config_region_loader_find_from_file (en_file env (fst buf1)) code (en_region_fails env) =
      Some (case region_hits code rs of
        [] \<Rightarrow> (CONFIG_COUNTRY_CODE_NOT_FOUND, None) | [r] \<Rightarrow> (CONFIG_OK, Some r) | _ \<Rightarrow> (CONFIG_INVALID_FMT, None))"
    unfolding buf1(2) find_region_file [OF regions] using env by (intro region_document_run) (simp add: env_ok_def)
  show ?thesis
  proof (cases "region_hits code rs")
    case Nil
    then show ?thesis using 1 buf1 find by (simp add: load_region_def ok)
  next
    case (Cons r hs)
    show ?thesis
    proof (cases hs)
      case Nil
      note r = Cons [unfolded Nil]
      obtain st2 buf2 where 2: "uwbs_config_model_append_path buf1 n r True = (st2, buf2)"
        by (cases "uwbs_config_model_append_path buf1 n r True")
      have len: "length dir = n" using path by auto
      have buf2: "st2 = CONFIG_OK" "fst buf2 = dir @ r" using append_ok [OF 2] buf1 len by simp_all
      let ?buf = "(take (n + length r) (fst buf2) @ ''/'', snd buf2)"
      have "take (n + length r + 1) (fst ?buf) = dir @ r @ ''/''" using buf2 len by simp
      moreover have "list_all2 (\<lambda>f cs. file_calls env model ((dir @ r @ ''/'') @ f) (Some cs)) regional_files [cs]"
        using calls [OF r] by (simp add: regional_files_def)
      ultimately obtain buf' where "load_files env model (k + 2) (n + length r + 1) regional_files ?buf = Some (CONFIG_OK, buf', concat [cs])"
        using load_files_calls [OF env t, of "n + length r + 1" ?buf regional_files "[cs]" "k + 2"] buf2 len by auto
      then show ?thesis using 1 2 buf1 buf2 find r by (simp add: load_region_def ok)
    next
      case (Cons r' hs')
      then show ?thesis using 1 buf1 find \<open>region_hits code rs = r # hs\<close> by (simp add: load_region_def ok)
    qed
  qed
qed

lemma directory_loaded:
  assumes env: "env_ok env"
    and model: "uwbs_config_model_load_file (Some (en_file env (path @ ''/schema.json''))) (en_model_fails env) = Some (CONFIG_OK, Some model)"
    and t: "mn_type (df_node model) = Type_Object"
    and global: "list_all2 (\<lambda>f cs. file_calls env model (path @ ''/'' @ f) (Some cs)) global_files css"
  shows "uwbs_config_load_dir (Some path) None env = Some (CONFIG_OK, concat css, None)"
    and "en_file env (path @ ''/regions.yml'') = Some (Some (map Some (region_document rs))) \<Longrightarrow>
      (\<And>r. region_hits code rs = [r] \<Longrightarrow> file_calls env model (path @ ''/'' @ r @ ''/settings.yml'') (Some cs)) \<Longrightarrow>
      uwbs_config_load_dir (Some path) (Some code) env =
        Some (case region_hits code rs of
            [] \<Rightarrow> (CONFIG_COUNTRY_CODE_NOT_FOUND, concat css, None)
          | [r] \<Rightarrow> (CONFIG_OK, concat css @ cs, None)
          | _ \<Rightarrow> (CONFIG_INVALID_FMT, concat css, None))"
proof -
  have ok: "en_malloc env" "en_realloc env i" for i using env by (simp_all add: env_ok_def)
  let ?n = "length path + 1"
  obtain st buf1 where 1: "uwbs_config_model_append_path (path @ ''/'', length path + 22) ?n schema_file True = (st, buf1)"
    by (cases "uwbs_config_model_append_path (path @ ''/'', length path + 22) ?n schema_file True")
  have buf1: "st = CONFIG_OK" "fst buf1 = path @ ''/schema.json''" using append_ok [OF 1] by (simp_all add: schema_file_def)
  have dir: "take ?n (fst buf1) = path @ ''/''" "?n \<le> length (fst buf1)" by (simp_all add: buf1)
  have "list_all2 (\<lambda>f cs. file_calls env model (take ?n (fst buf1) @ f) (Some cs)) global_files css"
    using global unfolding dir(1) by simp
  from load_files_calls [OF env t dir(2) this, of 1] obtain buf' where
    files: "load_files env model 1 ?n global_files buf1 = Some (CONFIG_OK, buf', concat css)"
    and buf': "?n \<le> length (fst buf')" "take ?n (fst buf') = path @ ''/''"
    unfolding dir(1) by blast
  show "uwbs_config_load_dir (Some path) None env = Some (CONFIG_OK, concat css, None)"
    using 1 buf1 model files by (simp add: uwbs_config_load_dir_def ok)
  assume "en_file env (path @ ''/regions.yml'') = Some (Some (map Some (region_document rs)))"
    and "\<And>r. region_hits code rs = [r] \<Longrightarrow> file_calls env model (path @ ''/'' @ r @ ''/settings.yml'') (Some cs)"
  then have "load_region env model 4 ?n code buf' =
    Some (case region_hits code rs of
        [] \<Rightarrow> (CONFIG_COUNTRY_CODE_NOT_FOUND, [], None) | [r] \<Rightarrow> (CONFIG_OK, cs, None) | _ \<Rightarrow> (CONFIG_INVALID_FMT, [], None))"
    by (intro region_calls [OF env t buf']) (simp_all add: region_file_def)
  then show "uwbs_config_load_dir (Some path) (Some code) env =
        Some (case region_hits code rs of
            [] \<Rightarrow> (CONFIG_COUNTRY_CODE_NOT_FOUND, concat css, None)
          | [r] \<Rightarrow> (CONFIG_OK, concat css @ cs, None)
          | _ \<Rightarrow> (CONFIG_INVALID_FMT, concat css, None))"
    using 1 buf1 model files by (simp add: uwbs_config_load_dir_def ok split: list.split)
qed

end
