(* ===== verification/Config_Checked.thy ===== *)
theory Config_Checked
  imports Config_Schema "HOL-Library.Sublist"
begin

text \<open>
  What a loaded model satisfies: every definition and every property in it was complete and right when its node was
  left, and nothing changes it afterwards.
\<close>

section \<open>What the checks mean\<close>

definition def_well_formed :: "uwbs_config_model_def \<Rightarrow> bool" where
  "def_well_formed d \<longleftrightarrow> mn_type (df_node d) \<noteq> Type_Null \<and>
     (\<forall>name \<in> set (vec_arr (df_required d)). \<exists>p \<in> set (vec_arr (df_properties d)). mn_name (pr_node p) = name) \<and>
     (mn_type (df_node d) = Type_Object \<longrightarrow> mn_underlying_type (df_node d) \<in> {Utype_Null, Utype_Bitfield}) \<and>
     (mn_type (df_node d) = Type_Object \<and> mn_underlying_type (df_node d) = Utype_Bitfield \<longrightarrow>
        vec_arr (df_defs d) = [] \<and> vec_size (df_properties d) = vec_size (df_required d) \<and>
        (\<forall>p \<in> set (vec_arr (df_properties d)).
           mn_type (pr_node p) = Type_Integer \<and> mn_underlying_type (pr_node p) = Utype_Null \<and> 0 \<le> pr_minimum p) \<and>
        sum_list (map uwbs_config_model_bitfield_get_field_bit_count (vec_arr (df_properties d))) \<in> {1..32})"

definition property_well_formed :: "uwbs_config_model_property \<Rightarrow> bool" where
  "property_well_formed p \<longleftrightarrow>
     (mn_type (pr_node p) = Type_Null \<longrightarrow> (\<exists>c s. pr_ref p = Some (c # s))) \<and>
     (mn_type (pr_node p) = Type_Object \<longrightarrow> pr_ref p \<noteq> None \<and> mn_underlying_type (pr_node p) \<in> {Utype_Null, Utype_Bitfield}) \<and>
     (mn_type (pr_node p) = Type_Integer \<longrightarrow> mn_underlying_type (pr_node p) \<noteq> Utype_Bitfield) \<and>
     (mn_type (pr_node p) = Type_Array \<longrightarrow> (\<exists>q. pr_items p = Some q \<and> mn_type (pr_node q) \<in> {Type_Array, Type_Integer})) \<and>
     pr_minimum p \<le> pr_maximum p"

lemma find_named_found: "find_named f P xs = Some (Some x) \<Longrightarrow> x \<in> set xs \<and> (\<exists>s. f x = Some s \<and> P s)"
  by (induction xs) (auto simp: bind_eq_Some_conv split: if_splits)

lemma check_fields_ok:
  "check_fields bf fs n = Some (CONFIG_OK, m) \<Longrightarrow>
     (\<forall>p \<in> set fs. mn_type (pr_node p) = Type_Integer \<and> mn_underlying_type (pr_node p) = Utype_Null \<and> 0 \<le> pr_minimum p) \<and>
     m = n + sum_list (map uwbs_config_model_bitfield_get_field_bit_count fs)"
proof (induction fs arbitrary: n)
  case (Cons p fs)
  from Cons.prems have p: "uwbs_config_model_loader_check_def_bitfield_field bf p = Some CONFIG_OK"
    and fs: "check_fields bf fs (n + uwbs_config_model_bitfield_get_field_bit_count p) = Some (CONFIG_OK, m)"
    by (auto simp: bind_eq_Some_conv split: if_splits)
  from p have "mn_type (pr_node p) = Type_Integer \<and> mn_underlying_type (pr_node p) = Utype_Null \<and> 0 \<le> pr_minimum p"
    by (auto simp: uwbs_config_model_loader_check_def_bitfield_field_def bind_eq_Some_conv split: if_splits)
  with Cons.IH [OF fs] show ?case by simp
qed simp

lemma check_required_ok:
  "check_required d names = Some CONFIG_OK \<Longrightarrow>
     \<forall>name \<in> set names. \<exists>p \<in> set (vec_arr (df_properties d)). mn_name (pr_node p) = name"
proof (induction names)
  case (Cons name names)
  from Cons.prems obtain s p where s: "name = Some s" "uwbs_config_model_def_find_property d s = Some (Some p)"
    "check_required d names = Some CONFIG_OK"
    by (auto simp: bind_eq_Some_conv split: if_splits)
  from find_named_found [OF s(2) [unfolded uwbs_config_model_def_find_property_def]] s Cons.IH show ?case by auto
qed simp

lemma check_def_ok:
  assumes "uwbs_config_model_loader_check_def d = Some CONFIG_OK"
  shows "def_well_formed d"
proof -
  from assms have node: "uwbs_config_model_loader_check_node (df_node d) None = CONFIG_OK"
    and req: "check_required d (vec_arr (df_required d)) = Some CONFIG_OK"
    and bf: "mn_type (df_node d) = Type_Object \<and> mn_underlying_type (df_node d) = Utype_Bitfield \<Longrightarrow>
      uwbs_config_model_loader_check_def_bitfield d = Some CONFIG_OK"
    by (auto simp: uwbs_config_model_loader_check_def_def Let_def bind_eq_Some_conv split: if_splits)
  have "mn_type (df_node d) \<noteq> Type_Null"
    "mn_type (df_node d) = Type_Object \<longrightarrow> mn_underlying_type (df_node d) \<in> {Utype_Null, Utype_Bitfield}"
    using node by (auto simp: uwbs_config_model_loader_check_node_def split: if_splits)
  moreover have "vec_arr (df_defs d) = [] \<and> vec_size (df_properties d) = vec_size (df_required d) \<and>
        (\<forall>p \<in> set (vec_arr (df_properties d)).
           mn_type (pr_node p) = Type_Integer \<and> mn_underlying_type (pr_node p) = Utype_Null \<and> 0 \<le> pr_minimum p) \<and>
        sum_list (map uwbs_config_model_bitfield_get_field_bit_count (vec_arr (df_properties d))) \<in> {1..32}"
    if b: "mn_type (df_node d) = Type_Object \<and> mn_underlying_type (df_node d) = Utype_Bitfield"
  proof -
    from bf [OF b] obtain m where m: "check_fields d (vec_arr (df_properties d)) 0 = Some (CONFIG_OK, m)" "m \<noteq> 0" "m \<le> 32"
      and "vec_size (df_defs d) = 0" "vec_size (df_properties d) = vec_size (df_required d)"
      by (auto simp: uwbs_config_model_loader_check_def_bitfield_def bind_eq_Some_conv split: if_splits)
    moreover from m(2,3) have "m \<in> {1..32}" by simp
    ultimately show ?thesis using check_fields_ok [OF m(1)] by (simp add: vec_size_def)
  qed
  ultimately show ?thesis using check_required_ok [OF req] unfolding def_well_formed_def by simp
qed

lemma check_property_ok: "uwbs_config_model_loader_check_property p = CONFIG_OK \<Longrightarrow> property_well_formed p"
  by (auto simp: uwbs_config_model_loader_check_property_def uwbs_config_model_loader_check_node_def
      property_well_formed_def Let_def neq_Nil_conv split: if_splits option.splits)

section \<open>A bit field with a single field\<close>

text \<open>The loop over the required names finds a name that differs.\<close>

lemma single_field_refused:
  assumes "mn_type (df_node d) = Type_Object" and "mn_underlying_type (df_node d) = Utype_Bitfield"
    and "vec_arr (df_properties d) = [p]" and "vec_arr (df_required d) = [mn_name (pr_node p)]" and "mn_name (pr_node p) = Some k"
  shows "uwbs_config_model_loader_check_def d = Some CONFIG_INVALID_FMT"
  using assms
  by (simp add: uwbs_config_model_loader_check_def_def uwbs_config_model_loader_check_node_def
      uwbs_config_model_def_find_property_def uwbs_config_model_loader_check_def_bitfield_def vec_size_def
      uwbs_config_model_loader_check_def_bitfield_field_def)

section \<open>The stack of nodes\<close>

type_synonym model_node_stack = "(model_handler, model_ptr) yaml_node list"

text \<open>The definition and the property that a node works on.\<close>

fun node_owner :: "node_ptr \<Rightarrow> def_ptr \<times> (nat \<times> nat) option" where
  "node_owner (Def_Node q) = (q, None)"
| "node_owner (Prop_Node (q, i, n)) = (q, Some (i, n))"

fun ptr_owner :: "model_ptr \<Rightarrow> def_ptr \<times> (nat \<times> nat) option" where
  "ptr_owner (Enum_Value q i) = (q, None)"
| "ptr_owner (Prop_Ref (q, i, n)) = (q, Some (i, n))"
| "ptr_owner (Prop_Minimum (q, i, n)) = (q, Some (i, n))"
| "ptr_owner (Prop_Maximum (q, i, n)) = (q, Some (i, n))"
| "ptr_owner (Prop_Max_Items (q, i, n)) = (q, Some (i, n))"
| "ptr_owner (Prop_Bit_Size (q, i, n)) = (q, Some (i, n))"

definition active_def :: "model_node_stack \<Rightarrow> def_ptr \<Rightarrow> bool" where
  "active_def st q \<longleftrightarrow> Node (Load_Def q) \<in> set st"

definition active_prop :: "model_node_stack \<Rightarrow> prop_ptr \<Rightarrow> bool" where
  "active_prop st r \<longleftrightarrow> Node (Load_Property r) \<in> set st"

text \<open>A pointer is covered when the nodes of all that it goes through are on the stack.\<close>

definition covered :: "model_node_stack \<Rightarrow> def_ptr \<times> (nat \<times> nat) option \<Rightarrow> bool" where
  "covered st x \<longleftrightarrow> (\<forall>q. prefix q (fst x) \<longrightarrow> active_def st q) \<and>
     (case snd x of None \<Rightarrow> True | Some (i, n) \<Rightarrow> \<forall>k \<le> n. active_prop st (fst x, i, k))"

fun node_covered :: "model_node_stack \<Rightarrow> (model_handler, model_ptr) yaml_node \<Rightarrow> bool" where
  "node_covered st (Node (Load_Def q)) \<longleftrightarrow> covered st (q, None)"
| "node_covered st (Node (Load_Defs q)) \<longleftrightarrow> covered st (q, None)"
| "node_covered st (Node (Load_Enums q)) \<longleftrightarrow> covered st (q, None)"
| "node_covered st (Node (Load_Properties q)) \<longleftrightarrow> covered st (q, None)"
| "node_covered st (Node (Load_Required q)) \<longleftrightarrow> covered st (q, None)"
| "node_covered st (Node (Load_Property (q, i, n))) \<longleftrightarrow> covered st (q, Some (i, n))"
| "node_covered st (Node (Load_Type r)) \<longleftrightarrow> covered st (node_owner r)"
| "node_covered st (Node (Load_Underlying_Type r)) \<longleftrightarrow> covered st (node_owner r)"
| "node_covered st (String_Node r) \<longleftrightarrow> covered st (ptr_owner r)"
| "node_covered st (Uint8_Node r) \<longleftrightarrow> covered st (ptr_owner r)"
| "node_covered st (Uint32_Node r) \<longleftrightarrow> covered st (ptr_owner r)"
| "node_covered st (Int64_Node r) \<longleftrightarrow> covered st (ptr_owner r)"
| "node_covered st Stream_Node \<longleftrightarrow> True"
| "node_covered st Skip_Node \<longleftrightarrow> True"
| "node_covered st Skip_Scalar_Node \<longleftrightarrow> True"

fun stack_covered :: "model_node_stack \<Rightarrow> bool" where
  "stack_covered [] \<longleftrightarrow> True"
| "stack_covered (n # st) \<longleftrightarrow> node_covered (n # st) n \<and> stack_covered st"

lemma covered_mono: "covered st x \<Longrightarrow> covered (n # st) x"
  by (auto simp: covered_def active_def_def active_prop_def split: option.splits)

lemma covered_def_of_prop: "covered st (q, Some x) \<Longrightarrow> covered st (q, None)"
  by (simp add: covered_def)

lemma covered_child:
  assumes "covered st (q, None)" and "Node (Load_Def (q @ [i])) \<in> set st"
  shows "covered st (q @ [i], None)"
  using assms by (auto simp: covered_def active_def_def)

lemma covered_items:
  assumes "covered st (q, Some (i, n))" and "Node (Load_Property (q, i, Suc n)) \<in> set st"
  shows "covered st (q, Some (i, Suc n))"
  using assms by (auto simp: covered_def active_prop_def le_Suc_eq)

lemma covered_prop:
  assumes "covered st (q, None)" and "Node (Load_Property (q, i, 0)) \<in> set st"
  shows "covered st (q, Some (i, 0))"
  using assms by (auto simp: covered_def active_prop_def)

section \<open>Updates\<close>

lemma get_def_append: "get_def (q @ s) d = Option.bind (get_def q d) (get_def s)"
  by (induction q arbitrary: d) auto

lemma upd_def_none: "get_def q d = None \<Longrightarrow> upd_def q f d = d"
proof (induction q f d rule: upd_def.induct)
  case (2 i "is" f node defs enums properties required)
  show ?case
  proof (cases "i < vec_size defs")
    case True
    with 2 have "upd_def is f (vec_arr defs ! i) = vec_arr defs ! i" by simp
    then show ?thesis by (cases defs) (simp add: upd_at_def)
  next
    case False
    then show ?thesis by (cases defs) (simp add: upd_at_def vec_size_def list_update_beyond)
  qed
qed simp

lemma upd_def_Cons_sel:
  "df_properties (upd_def (i # is) f d) = df_properties d"
  "df_defs (upd_def (i # is) f d) = upd_at i (upd_def is f) (df_defs d)"
  by (cases d; simp)+

text \<open>What a path leads to after an update: something on the way to it, something below it, or what was there.\<close>

lemma get_upd_def:
  assumes "get_def q' (upd_def q f root) = Some d'"
  shows "prefix q' q \<and> q' \<noteq> q \<and> (\<exists>d. get_def q' root = Some d \<and> df_properties d' = df_properties d) \<or>
    get_def q' root = Some d' \<or> (\<exists>s d. q' = q @ s \<and> get_def q root = Some d \<and> get_def s (f d) = Some d')"
  using assms
proof (induction q arbitrary: q' root)
  case Nil
  then show ?case by simp
next
  case (Cons i q)
  show ?case
  proof (cases q')
    case Nil
    with Cons.prems show ?thesis by (auto simp: upd_def_Cons_sel)
  next
    case (Cons j s)
    note q' = this
    show ?thesis
    proof (cases "j = i \<and> i < vec_size (df_defs root)")
      case False
      with Cons.prems q' show ?thesis
        by (auto simp: upd_def_Cons_sel upd_at_def vec_size_def split: if_splits)
    next
      case True
      then have "get_def s (upd_def q f (vec_arr (df_defs root) ! i)) = Some d'"
        using Cons.prems q' by (simp add: upd_def_Cons_sel upd_at_def vec_size_def)
      from Cons.IH [OF this] show ?thesis using True q' by auto
    qed
  qed
qed

definition props_at :: "uwbs_config_model_def \<Rightarrow> nat \<Rightarrow> nat \<Rightarrow> uwbs_config_model_property option" where
  "props_at d i n = (if i < vec_size (df_properties d) then get_items n (vec_arr (df_properties d) ! i) else None)"

lemma get_prop_eq: "get_prop (q, i, n) root = Option.bind (get_def q root) (\<lambda>d. props_at d i n)"
  by (simp add: get_prop_def props_at_def)

text \<open>The invariant: what is not being loaded is well formed.\<close>

definition checked :: "bool \<Rightarrow> model_node_stack \<Rightarrow> uwbs_config_model_def \<Rightarrow> bool" where
  "checked started st root \<longleftrightarrow>
     (\<forall>q d. get_def q root = Some d \<longrightarrow> active_def st q \<or> def_well_formed d \<or> \<not> started \<and> q = []) \<and>
     (\<forall>q i n p. get_prop (q, i, n) root = Some p \<longrightarrow> active_prop st (q, i, n) \<or> property_well_formed p)"

lemma checked_update:
  assumes root: "checked b st root" and q: "covered st (q, None)" and st: "set st \<subseteq> set st'"
    and defs: "\<And>d s d'. get_def q root = Some d \<Longrightarrow> s \<noteq> [] \<Longrightarrow> get_def s (f d) = Some d' \<Longrightarrow>
      get_def s d = Some d' \<or> active_def st' (q @ s) \<and> df_properties d' = VECTOR_INIT_STATIC"
    and props: "\<And>d i n p. get_def q root = Some d \<Longrightarrow> props_at (f d) i n = Some p \<Longrightarrow>
      props_at d i n = Some p \<or> active_prop st' (q, i, n)"
  shows "checked b st' (upd_def q f root)"
proof -
  have mono: "active_def st r \<Longrightarrow> active_def st' r" "active_prop st u \<Longrightarrow> active_prop st' u" for r u
    using st by (auto simp: active_def_def active_prop_def)
  have upto: "active_def st' r" if "prefix r q" for r using q that mono by (simp add: covered_def)
  have keep: "active_def st' r \<or> def_well_formed d \<or> \<not> b \<and> r = []" if "get_def r root = Some d" for r d
    using root mono that unfolding checked_def by blast
  have "active_def st' q' \<or> def_well_formed d' \<or> \<not> b \<and> q' = []" if "get_def q' (upd_def q f root) = Some d'" for q' d'
    using get_upd_def [OF that]
  proof (elim disjE exE conjE)
    fix s d assume s: "q' = q @ s" "get_def q root = Some d" "get_def s (f d) = Some d'"
    show ?thesis
    proof (cases "s = []")
      case False
      from defs [OF s(2) False s(3)] show ?thesis
        using keep [of q' d'] s(1,2) by (auto simp: get_def_append)
    qed (use s upto in auto)
  qed (use keep upto in auto)
  moreover have "active_prop st' (q', i, n) \<or> property_well_formed p" if p: "get_prop (q', i, n) (upd_def q f root) = Some p" for q' i n p
  proof -
    from p obtain d' where d': "get_def q' (upd_def q f root) = Some d'" "props_at d' i n = Some p"
      by (auto simp: get_prop_eq bind_eq_Some_conv)
    have old: "active_prop st' (q', i, n) \<or> property_well_formed p" if "get_def q' root = Some d" "props_at d i n = Some p" for d
    proof -
      have "get_prop (q', i, n) root = Some p" using that by (simp add: get_prop_eq)
      then show ?thesis using root mono(2) unfolding checked_def by blast
    qed
    from get_upd_def [OF d'(1)] show ?thesis
    proof (elim disjE exE conjE)
      fix d assume "get_def q' root = Some d" "df_properties d' = df_properties d"
      moreover from this d'(2) have "props_at d i n = Some p" by (simp add: props_at_def split: if_splits)
      ultimately show ?thesis using old by blast
    next
      fix s d assume s: "q' = q @ s" "get_def q root = Some d" "get_def s (f d) = Some d'"
      show ?thesis
      proof (cases "s = []")
        case True
        then show ?thesis using props [OF s(2), of i n p] old s d'(2) by auto
      next
        case False
        from defs [OF s(2) False s(3)] show ?thesis
          using old [of d'] s(1,2) d'(2)
          by (auto simp: get_def_append props_at_def VECTOR_INIT_STATIC_def vec_size_def)
      qed
    qed (use old d'(2) in auto)
  qed
  ultimately show ?thesis unfolding checked_def by blast
qed

section \<open>The updates of the loader\<close>

lemma vec_arr_grown [simp]: "vec_arr (grown x v) = vec_arr v @ [x]"
  by (auto simp: grown_def uwbs_config_vector_resize_def uwbs_config_vector_reserve_def vec_size_def)

lemma vec_arr_upd_back_grown [simp]: "vec_arr (upd_back f (grown x v)) = vec_arr v @ [f x]"
  by (simp add: upd_back_def)

lemma get_def_same_defs: "vec_arr (df_defs d) = vec_arr (df_defs d') \<Longrightarrow> s \<noteq> [] \<Longrightarrow> get_def s d = get_def s d'"
  by (cases s) (auto simp: vec_size_def)

lemma props_at_same: "vec_arr (df_properties d) = vec_arr (df_properties d') \<Longrightarrow> props_at d i n = props_at d' i n"
  by (simp add: props_at_def vec_size_def)

lemma map_part_sel [simp]:
  "df_defs (map_def_node g d) = df_defs d" "df_properties (map_def_node g d) = df_properties d"
  "df_defs (map_enums h d) = df_defs d" "df_properties (map_enums h d) = df_properties d"
  "df_defs (map_required k d) = df_defs d" "df_properties (map_required k d) = df_properties d"
  "df_defs (map_properties l d) = df_defs d" "df_properties (map_properties l d) = l (df_properties d)"
  "df_defs (map_defs m d) = m (df_defs d)" "df_properties (map_defs m d) = df_properties d"
  by (simp_all add: map_def_node_def map_enums_def map_required_def map_properties_def map_defs_def)

lemma checked_same_parts:
  assumes "checked b st root" and "covered st (q, None)"
    and "\<And>d. df_defs (f d) = df_defs d" and "\<And>d. df_properties (f d) = df_properties d"
  shows "checked b st (upd_def q f root)"
  by (rule checked_update [OF assms(1,2)])
    (use assms(3,4) in \<open>auto simp: get_def_same_defs [of "f d" d for d] props_at_same [of "f d" d for d]\<close>)

lemma get_upd_items:
  assumes "get_items k (upd_items n g p) = Some p'" and "\<And>p k p''. get_items (Suc k) (g p) = Some p'' \<Longrightarrow> get_items (Suc k) p = Some p'' \<or> act (n + Suc k)"
    and "\<And>k. k \<le> n \<Longrightarrow> act k"
  shows "get_items k p = Some p' \<or> act k"
  using assms
proof (induction n arbitrary: k p act)
  case 0
  then show ?case by (cases k) auto
next
  case (Suc n)
  show ?case
  proof (cases k)
    case 0
    then show ?thesis using Suc.prems(3) by simp
  next
    case (Suc k')
    obtain q where q: "pr_items p = Some q" "get_items k' (upd_items n g q) = Some p'"
      using Suc.prems(1) Suc by (cases p) (auto simp: bind_eq_Some_conv)
    have "get_items k' q = Some p' \<or> act (Suc k')"
      using Suc.prems(2,3) by (intro Suc.IH [OF q(2), where act = "\<lambda>k. act (Suc k)"]) auto
    then show ?thesis using q(1) Suc by auto
  qed
qed

lemma props_at_upd_prop:
  assumes "props_at (map_properties (upd_at i (upd_items n g)) d) j k = Some p"
    and "\<And>p k p''. get_items (Suc k) (g p) = Some p'' \<Longrightarrow> get_items (Suc k) p = Some p'' \<or> act i (n + Suc k)"
    and "\<And>k. k \<le> n \<Longrightarrow> act i k"
  shows "props_at d j k = Some p \<or> act j k"
proof (cases "j = i")
  case True
  with assms(1) have "i < vec_size (df_properties d)" "get_items k (upd_items n g (vec_arr (df_properties d) ! i)) = Some p"
    by (auto simp: props_at_def upd_at_def vec_size_def split: if_splits)
  with get_upd_items [of k n g _ p "act i"] assms(2,3) True show ?thesis by (auto simp: props_at_def)
next
  case False
  with assms(1) show ?thesis by (auto simp: props_at_def upd_at_def vec_size_def split: if_splits)
qed

lemma checked_upd_prop:
  assumes root: "checked b st root" and cov: "covered st (q, Some (i, n))" and st: "set st \<subseteq> set st'"
    and g: "\<And>p k p''. get_items (Suc k) (g p) = Some p'' \<Longrightarrow> get_items (Suc k) p = Some p'' \<or> active_prop st' (q, i, n + Suc k)"
  shows "checked b st' (upd_prop (q, i, n) g root)"
  unfolding upd_prop_def prod.case
proof (rule checked_update [OF root covered_def_of_prop [OF cov] st])
  fix d s d'
  assume "get_def s (map_properties (upd_at i (upd_items n g)) d) = Some d'" "s \<noteq> []"
  then show "get_def s d = Some d' \<or> active_def st' (q @ s) \<and> df_properties d' = VECTOR_INIT_STATIC"
    using get_def_same_defs [of "map_properties (upd_at i (upd_items n g)) d" d s] by simp
next
  fix d j k p
  assume p: "props_at (map_properties (upd_at i (upd_items n g)) d) j k = Some p"
  have "active_prop st' (q, i, k)" if "k \<le> n" for k
    using cov st that by (auto simp: covered_def active_prop_def)
  with props_at_upd_prop [OF p, of "\<lambda>j k. active_prop st' (q, j, k)"] g
  show "props_at d j k = Some p \<or> active_prop st' (q, j, k)" by blast
qed

lemma checked_set_items:
  assumes "checked b st root" and "covered st (q, Some (i, n))"
  shows "checked b (Node (Load_Property (q, i, Suc n)) # st) (upd_prop (q, i, n) (set_items uwbs_config_model_property_init) root)"
proof (rule checked_upd_prop [OF assms])
  fix p k p''
  assume "get_items (Suc k) (set_items uwbs_config_model_property_init p) = Some p''"
  then have "k = 0" by (cases k) (auto simp: set_items_def uwbs_config_model_property_init_def)
  then show "get_items (Suc k) p = Some p'' \<or> active_prop (Node (Load_Property (q, i, Suc n)) # st) (q, i, n + Suc k)"
    by (simp add: active_prop_def)
qed auto

lemma checked_new_property:
  assumes root: "checked b st root" and cov: "covered st (q, None)" and d: "get_def q root = Some d" and items: "pr_items x = None"
    and f: "\<And>d. vec_arr (f (df_properties d)) = vec_arr (df_properties d) @ [x]"
  shows "checked b (Node (Load_Property (q, vec_size (df_properties d), 0)) # st) (upd_def q (map_properties f) root)"
proof (rule checked_update [OF root cov])
  fix d' s d''
  assume "get_def s (map_properties f d') = Some d''" "s \<noteq> []"
  then show "get_def s d' = Some d'' \<or>
      active_def (Node (Load_Property (q, vec_size (df_properties d), 0)) # st) (q @ s) \<and> df_properties d'' = VECTOR_INIT_STATIC"
    using get_def_same_defs [of "map_properties f d'" d' s] by simp
next
  fix d' i n p
  assume "get_def q root = Some d'" and p: "props_at (map_properties f d') i n = Some p"
  then have d': "d' = d" using d by simp
  show "props_at d' i n = Some p \<or> active_prop (Node (Load_Property (q, vec_size (df_properties d), 0)) # st) (q, i, n)"
  proof (cases "i < vec_size (df_properties d)")
    case True
    with p show ?thesis by (simp add: d' props_at_def vec_size_def f nth_append)
  next
    case False
    with p have "i = vec_size (df_properties d)" "get_items n x = Some p"
      by (auto simp: d' props_at_def vec_size_def f nth_append split: if_splits)
    with items show ?thesis by (cases n) (auto simp: active_prop_def)
  qed
qed auto

lemma checked_new_def:
  assumes root: "checked b st root" and cov: "covered st (q, None)" and d: "get_def q root = Some d"
    and x: "df_defs x = VECTOR_INIT_STATIC" "df_properties x = VECTOR_INIT_STATIC"
    and f: "\<And>d. vec_arr (f (df_defs d)) = vec_arr (df_defs d) @ [x]"
  shows "checked b (Node (Load_Def (q @ [vec_size (df_defs d)])) # st) (upd_def q (map_defs f) root)"
proof (rule checked_update [OF root cov])
  fix d' s d''
  assume "get_def q root = Some d'" and s: "s \<noteq> []" "get_def s (map_defs f d') = Some d''"
  then have d': "d' = d" using d by simp
  obtain i s' where s': "s = i # s'" using s(1) by (cases s) auto
  show "get_def s d' = Some d'' \<or>
      active_def (Node (Load_Def (q @ [vec_size (df_defs d)])) # st) (q @ s) \<and> df_properties d'' = VECTOR_INIT_STATIC"
  proof (cases "i < vec_size (df_defs d)")
    case True
    with s show ?thesis by (simp add: d' s' vec_size_def f nth_append)
  next
    case False
    with s have "i = vec_size (df_defs d)" "get_def s' x = Some d''"
      by (auto simp: d' s' vec_size_def f nth_append split: if_splits)
    with x show ?thesis by (cases s') (auto simp: s' active_def_def VECTOR_INIT_STATIC_def vec_size_def)
  qed
next
  fix d' i n p
  assume "props_at (map_defs f d') i n = Some p"
  then show "props_at d' i n = Some p \<or> active_prop (Node (Load_Def (q @ [vec_size (df_defs d)])) # st) (q, i, n)"
    by (simp add: props_at_def split: if_splits)
qed auto

section \<open>Steps\<close>

text \<open>The state between two events.\<close>

definition loading :: "bool \<Rightarrow> model_ctx \<Rightarrow> model_load \<Rightarrow> bool" where
  "loading b ctx w \<longleftrightarrow> stack_covered (node_stack ctx) \<and> checked b (node_stack ctx) (ml_root w)"

definition keeps :: "bool \<Rightarrow> model_step \<Rightarrow> bool" where
  "keeps b r \<longleftrightarrow> (\<forall>ctx w. r = Some (CONFIG_OK, ctx, w) \<longrightarrow> loading b ctx w)"

lemma keeps_stay: "loading b ctx w \<Longrightarrow> keeps b (Some (st, ctx, w))"
  by (simp add: keeps_def)

lemma keeps_error: "st \<noteq> CONFIG_OK \<Longrightarrow> keeps b (Some (st, ctx, w))"
  by (simp add: keeps_def)

lemma keeps_none: "keeps b None"
  by (simp add: keeps_def)

lemma keeps_enter:
  assumes "stack_covered (node_stack ctx)" and "node_covered (n # node_stack ctx) n" and "checked b (n # node_stack ctx) (ml_root w)"
  shows "keeps b (enter ctx n w)"
  using assms by (auto simp: keeps_def enter_def uwbs_config_yaml_enter_node_def loading_def split: if_splits)

lemma keeps_leave:
  assumes "node_stack ctx = n # ns" and "stack_covered ns" and "st = CONFIG_OK \<Longrightarrow> checked b ns (ml_root w)"
  shows "keeps b (leave st ctx w)"
  using assms by (auto simp: keeps_def loading_def)

lemma checked_push: "checked b st root \<Longrightarrow> checked b (n # st) root"
  unfolding checked_def active_def_def active_prop_def by (meson list.set_intros(2))

lemma checked_pop:
  assumes "checked b (n # st) root"
    and "\<And>q d. n = Node (Load_Def q) \<Longrightarrow> get_def q root = Some d \<Longrightarrow> def_well_formed d"
    and "\<And>q i k p. n = Node (Load_Property (q, i, k)) \<Longrightarrow> get_prop (q, i, k) root = Some p \<Longrightarrow> property_well_formed p"
  shows "checked b st root"
  using assms unfolding checked_def active_def_def active_prop_def by (metis set_ConsD)

text \<open>A node that does not load a definition or a property: entering and leaving it change nothing.\<close>

fun inner_node :: "(model_handler, model_ptr) yaml_node \<Rightarrow> bool" where
  "inner_node (Node (Load_Def q)) \<longleftrightarrow> False"
| "inner_node (Node (Load_Property r)) \<longleftrightarrow> False"
| "inner_node n \<longleftrightarrow> True"

lemma keeps_enter_inner:
  assumes "loading b ctx w" and "node_covered (node_stack ctx) n"
  shows "keeps b (enter ctx n w)"
proof -
  have "node_covered (n # node_stack ctx) n" using assms(2)
    by (cases "(node_stack ctx, n)" rule: node_covered.cases) (auto intro: covered_mono)
  then show ?thesis using assms(1) by (auto simp: loading_def intro: keeps_enter checked_push)
qed

lemma keeps_leave_inner:
  assumes "node_stack ctx = n # ns" and "stack_covered (n # ns)" and "inner_node n" and "checked b (n # ns) (ml_root w)"
  shows "keeps b (leave st ctx w)"
proof (rule keeps_leave [OF assms(1)])
  show "stack_covered ns" using assms(2) by simp
  show "checked b ns (ml_root w)" using assms(3) by (intro checked_pop [OF assms(4)]) auto
qed

lemma alloc_root [simp]:
  "model_alloc w = (ok, w') \<Longrightarrow> ml_root w' = ml_root w"
  "room_for_one v w = (ok, w') \<Longrightarrow> ml_root w' = ml_root w"
  "strdup s w = (str, w') \<Longrightarrow> ml_root w' = ml_root w"
  by (auto simp: model_alloc_def room_for_one_def strdup_def Let_def split: if_splits prod.splits)

lemma root_updated_root [simp]: "ml_root (root_updated f w) = f (ml_root w)"
  by (simp add: root_updated_def)

text \<open>Updates of a node and of a scalar.\<close>

lemma checked_upd_node:
  assumes "checked b st root" and "covered st (node_owner r)"
  shows "checked b st (upd_node r f root)"
proof (cases r)
  case (Def_Node q)
  then show ?thesis using assms checked_same_parts [of b st root q "map_def_node f"] by (simp add: upd_node_def)
next
  case (Prop_Node x)
  obtain q i n where x: "x = (q, i, n)" by (cases x)
  have "get_items (Suc k) (map_prop_node f p) = get_items (Suc k) p" for k p by (simp add: map_prop_node_def)
  then show ?thesis using assms checked_upd_prop [of b st root q i n st "map_prop_node f"]
    by (simp add: upd_node_def Prop_Node x)
qed

lemma store_prop_items: "get_items (Suc k) (store_prop r v p) = get_items (Suc k) p"
  by (cases "(r, v, p)" rule: store_prop.cases) auto

lemma checked_store:
  assumes "checked b st root" and "covered st (ptr_owner r)"
  shows "checked b st (model_store r v root)"
proof -
  have p: "checked b st (upd_prop (q, i, n) (store_prop r v) root)" if "covered st (q, Some (i, n))" for q i n
    using checked_upd_prop [OF assms(1) that, of st "store_prop r v"] store_prop_items by simp
  have e: "checked b st (upd_def q (map_enums f) root)" if "covered st (q, None)" for q f
    using checked_same_parts [OF assms(1) that, of "map_enums f"] by simp
  show ?thesis
    using assms(2) p e by (cases "r" rule: ptr_owner.cases) (simp_all add: model_store_def)
qed

text \<open>Scalars.\<close>

lemma keeps_scalar:
  assumes "loading b ctx w" and "node_stack ctx = n # ns" and "inner_node n" and "covered (node_stack ctx) (ptr_owner r)"
  shows "keeps b (leave st ctx (root_updated (model_store r v) w))"
  using assms by (intro keeps_leave_inner) (auto simp: loading_def intro: checked_store)

lemma keeps_scalars:
  assumes l: "loading b ctx w" and n: "node_stack ctx = n # ns"
  shows "n = String_Node r \<Longrightarrow> keeps b (uwbs_config_yaml_string_node_consume_event model_loader r e ctx w)"
    and "n = Uint8_Node r \<Longrightarrow> keeps b (uwbs_config_yaml_uint8_node_consume_event model_loader r e ctx w)"
    and "n = Uint32_Node r \<Longrightarrow> keeps b (uwbs_config_yaml_uint32_node_consume_event model_loader r e ctx w)"
    and "n = Int64_Node r \<Longrightarrow> keeps b (uwbs_config_yaml_int64_node_consume_event model_loader r e ctx w)"
proof -
  have cov: "node_covered (n # ns) n" using l n by (simp add: loading_def)
  note scalar = keeps_scalar [OF l n]
  show "n = Uint8_Node r \<Longrightarrow> keeps b (uwbs_config_yaml_uint8_node_consume_event model_loader r e ctx w)"
    using cov scalar n
    by (cases e) (auto simp: uwbs_config_yaml_uint8_node_consume_event_def Let_def keeps_error model_loader_def split: prod.splits)
  show "n = Uint32_Node r \<Longrightarrow> keeps b (uwbs_config_yaml_uint32_node_consume_event model_loader r e ctx w)"
    using cov scalar n
    by (cases e) (auto simp: uwbs_config_yaml_uint32_node_consume_event_def Let_def keeps_error model_loader_def split: prod.splits)
  show "n = Int64_Node r \<Longrightarrow> keeps b (uwbs_config_yaml_int64_node_consume_event model_loader r e ctx w)"
    using cov scalar n
    by (cases e) (auto simp: uwbs_config_yaml_int64_node_consume_event_def Let_def keeps_error model_loader_def split: prod.splits)
  show "keeps b (uwbs_config_yaml_string_node_consume_event model_loader r e ctx w)" if "n = String_Node r"
  proof (cases e)
    case (Scalar s)
    obtain ok w1 where w1: "model_alloc w = (ok, w1)" by fastforce
    have "loading b ctx w1" using l w1 by (simp add: loading_def)
    from keeps_scalar [OF this n] cov that n w1 show ?thesis
      by (simp add: Scalar uwbs_config_yaml_string_node_consume_event_def Let_def model_loader_def)
  qed (simp_all add: uwbs_config_yaml_string_node_consume_event_def keeps_error)
qed

text \<open>The nodes of the loader.\<close>

lemma keeps_types:
  assumes l: "loading b ctx w" and n: "node_stack ctx = n # ns"
  shows "n = Node (Load_Type r) \<Longrightarrow> keeps b (uwbs_config_model_loader_type_consume_event r e ctx w)"
    and "n = Node (Load_Underlying_Type r) \<Longrightarrow> keeps b (uwbs_config_model_loader_underlying_type_consume_event r e ctx w)"
proof -
  have *: "keeps b (leave CONFIG_OK ctx (root_updated (upd_node r f) w))" if "inner_node n" "covered (node_stack ctx) (node_owner r)" for f
    using l n that by (intro keeps_leave_inner [OF n]) (auto simp: loading_def intro: checked_upd_node)
  have cov: "node_covered (n # ns) n" using l n by (simp add: loading_def)
  show "n = Node (Load_Type r) \<Longrightarrow> keeps b (uwbs_config_model_loader_type_consume_event r e ctx w)"
    using * cov n by (cases e) (auto simp: uwbs_config_model_loader_type_consume_event_def keeps_error split: option.split)
  show "n = Node (Load_Underlying_Type r) \<Longrightarrow> keeps b (uwbs_config_model_loader_underlying_type_consume_event r e ctx w)"
    using * cov n by (cases e) (auto simp: uwbs_config_model_loader_underlying_type_consume_event_def keeps_error split: option.split)
qed

lemma keeps_node:
  assumes "loading b ctx w" and "covered (node_stack ctx) (node_owner r)"
  shows "keeps b (uwbs_config_model_loader_node_consume_event r e ctx w)"
  using assms by (cases e) (auto simp: uwbs_config_model_loader_node_consume_event_def intro!: keeps_enter_inner keeps_error)

lemma keeps_enums:
  assumes l: "loading b ctx w" and n: "node_stack ctx = Node (Load_Enums q) # ns"
  shows "keeps b (uwbs_config_model_loader_def_underlying_enum_consume_event q e ctx w)"
proof -
  have cov: "covered (node_stack ctx) (q, None)" using l n by (simp add: loading_def)
  have "keeps b (uwbs_config_model_loader_enter_underlying_enum_node ctx q name w)" for name
  proof (cases "get_def q (ml_root w)")
    case (Some d)
    obtain ok w1 s w2 where 1: "room_for_one (df_underlying_enums d) w = (ok, w1)" "strdup name w1 = (s, w2)" by fastforce
    define w3 where "w3 = root_updated (upd_def q (map_enums
      (\<lambda>v. upd_back (\<lambda>(_, b). (s, b)) (grown uwbs_config_model_def_underlying_enum_init v)))) w2"
    have "checked b (node_stack ctx) (ml_root w3)"
      using l cov 1 unfolding w3_def loading_def by (simp add: checked_same_parts)
    then have "loading b ctx w3" using l by (simp add: loading_def)
    then have "keeps b (enter ctx (Uint8_Node (Enum_Value q (vec_size (df_underlying_enums d)))) w3)"
      using cov by (intro keeps_enter_inner) simp_all
    then show ?thesis using Some 1
      by (simp add: uwbs_config_model_loader_enter_underlying_enum_node_def Let_def keeps_error flip: w3_def)
  qed (simp add: uwbs_config_model_loader_enter_underlying_enum_node_def keeps_none)
  then show ?thesis using l n keeps_leave_inner [OF n] unfolding uwbs_config_model_loader_def_underlying_enum_consume_event_def
    by (cases e) (auto simp: loading_def keeps_error simp del: leave_top intro: keeps_stay)
qed

lemma keeps_properties:
  assumes l: "loading b ctx w" and n: "node_stack ctx = Node (Load_Properties q) # ns"
  shows "keeps b (uwbs_config_model_loader_properties_consume_event q e ctx w)"
proof -
  have cov: "covered (node_stack ctx) (q, None)" using l n by (simp add: loading_def)
  have "keeps b (uwbs_config_model_loader_enter_property_node ctx q name w)" for name
  proof (cases "get_def q (ml_root w)")
    case (Some d)
    obtain ok w1 s w2 where 1: "room_for_one (df_properties d) w = (ok, w1)" "strdup name w1 = (s, w2)" by fastforce
    define x where "x = map_prop_node (named s) uwbs_config_model_property_init"
    define w3 where "w3 = root_updated (upd_def q (map_properties
      (\<lambda>v. upd_back (map_prop_node (named s)) (grown uwbs_config_model_property_init v)))) w2"
    let ?n = "Node (Load_Property (q, vec_size (df_properties d), 0))"
    have "checked b (?n # node_stack ctx) (ml_root w3)"
      unfolding w3_def root_updated_root
      by (rule checked_new_property [where x = x]) (use l cov 1 Some in
        \<open>simp_all add: loading_def x_def map_prop_node_def uwbs_config_model_property_init_def\<close>)
    moreover have "covered (?n # node_stack ctx) (q, Some (vec_size (df_properties d), 0))"
      by (rule covered_prop [OF covered_mono [OF cov]]) simp
    ultimately have "keeps b (enter ctx ?n w3)" using l by (intro keeps_enter) (simp_all add: loading_def)
    then show ?thesis using Some 1
      by (simp add: uwbs_config_model_loader_enter_property_node_def Let_def keeps_error flip: w3_def)
  qed (simp add: uwbs_config_model_loader_enter_property_node_def keeps_none)
  then show ?thesis using l n keeps_leave_inner [OF n] unfolding uwbs_config_model_loader_properties_consume_event_def
    by (cases e) (auto simp: loading_def keeps_error simp del: leave_top intro: keeps_stay)
qed

lemma keeps_required:
  assumes l: "loading b ctx w" and n: "node_stack ctx = Node (Load_Required q) # ns"
  shows "keeps b (uwbs_config_model_loader_required_list_consume_event q e ctx w)"
proof (cases e)
  case (Scalar name)
  have cov: "covered (node_stack ctx) (q, None)" using l n by (simp add: loading_def)
  show ?thesis
  proof (cases "get_def q (ml_root w)")
    case (Some d)
    obtain ok w1 s w2 where 1: "room_for_one (df_required d) w = (ok, w1)" "strdup name w1 = (s, w2)" by fastforce
    have "checked b (node_stack ctx) (ml_root (root_updated (upd_def q (map_required (grown s))) w2))"
      using l cov 1 unfolding loading_def by (simp add: checked_same_parts)
    then have "loading b ctx (root_updated (upd_def q (map_required (grown s))) w2)" using l by (simp add: loading_def)
    then show ?thesis using Some 1
      by (simp add: Scalar uwbs_config_model_loader_required_list_consume_event_def Let_def keeps_error keeps_stay)
  qed (simp add: Scalar uwbs_config_model_loader_required_list_consume_event_def keeps_none)
qed (use l n keeps_leave_inner [OF n] in \<open>auto simp: uwbs_config_model_loader_required_list_consume_event_def loading_def
    keeps_error simp del: leave_top intro: keeps_stay\<close>)

lemma keeps_defs:
  assumes l: "loading b ctx w" and n: "node_stack ctx = Node (Load_Defs q) # ns"
  shows "keeps b (uwbs_config_model_loader_defs_consume_event q e ctx w)"
proof -
  have cov: "covered (node_stack ctx) (q, None)" using l n by (simp add: loading_def)
  have "keeps b (uwbs_config_model_loader_enter_def_node ctx q name w)" for name
  proof (cases "get_def q (ml_root w)")
    case (Some d)
    obtain ok w1 s w2 where 1: "room_for_one (df_defs d) w = (ok, w1)" "strdup name w1 = (s, w2)" by fastforce
    define x where "x = map_def_node (named s) uwbs_config_model_def_init"
    define w3 where "w3 = root_updated (upd_def q (map_defs
      (\<lambda>v. upd_back (map_def_node (named s)) (grown uwbs_config_model_def_init v)))) w2"
    let ?n = "Node (Load_Def (q @ [vec_size (df_defs d)]))"
    have "checked b (?n # node_stack ctx) (ml_root w3)"
      unfolding w3_def root_updated_root
      by (rule checked_new_def [where x = x]) (use l cov 1 Some in
        \<open>simp_all add: loading_def x_def uwbs_config_model_def_init_def\<close>)
    moreover have "covered (?n # node_stack ctx) (q @ [vec_size (df_defs d)], None)"
      by (rule covered_child [OF covered_mono [OF cov]]) simp
    ultimately have "keeps b (enter ctx ?n w3)" using l by (intro keeps_enter) (simp_all add: loading_def)
    then show ?thesis using Some 1
      by (simp add: uwbs_config_model_loader_enter_def_node_def Let_def keeps_error flip: w3_def)
  qed (simp add: uwbs_config_model_loader_enter_def_node_def keeps_none)
  then show ?thesis using l n keeps_leave_inner [OF n] unfolding uwbs_config_model_loader_defs_consume_event_def
    by (cases e) (auto simp: loading_def keeps_error simp del: leave_top intro: keeps_stay)
qed

lemma keeps_skip:
  assumes l: "loading b ctx w" and n: "node_stack ctx = n # ns"
  shows "n = Skip_Node \<Longrightarrow> keeps b (uwbs_config_yaml_skip_node_consume_event e ctx w)"
    and "n = Skip_Scalar_Node \<Longrightarrow> keeps b (uwbs_config_yaml_skip_scalar_consume_event e ctx w)"
proof -
  have l': "loading b (ctx\<lparr>skip_depth := k\<rparr>) w" and n': "node_stack (ctx\<lparr>skip_depth := k\<rparr>) = n # ns" for k
    using l n by (simp_all add: loading_def)
  have *: "keeps b (leave CONFIG_OK (ctx\<lparr>skip_depth := k\<rparr>) w)" if "inner_node n" for k
    using l n that by (intro keeps_leave_inner [OF n']) (auto simp: loading_def)
  have **: "keeps b (leave CONFIG_OK ctx w)" if "inner_node n"
    using l n that by (intro keeps_leave_inner [OF n]) (auto simp: loading_def)
  show "n = Skip_Node \<Longrightarrow> keeps b (uwbs_config_yaml_skip_node_consume_event e ctx w)"
    using * l l' by (cases e) (auto simp: uwbs_config_yaml_skip_node_consume_event_def Let_def simp del: leave_top intro: keeps_stay)
  show "n = Skip_Scalar_Node \<Longrightarrow> keeps b (uwbs_config_yaml_skip_scalar_consume_event e ctx w)"
    using ** l by (cases e) (auto simp: uwbs_config_yaml_skip_scalar_consume_event_def simp del: leave_top intro: keeps_stay)
qed

lemma keeps_property:
  assumes l: "loading b ctx w" and n: "node_stack ctx = Node (Load_Property (q, i, k)) # ns"
  shows "keeps b (uwbs_config_model_loader_property_consume_event (q, i, k) e ctx w)"
proof -
  have cov: "covered (node_stack ctx) (q, Some (i, k))" using l n by (simp add: loading_def)
  note inner = keeps_enter_inner [OF l] keeps_node [OF l]
  show ?thesis
  proof (cases e)
    case (Scalar name)
    have items: "keeps b (enter ctx (Node (Load_Property (q, i, Suc k)))
        (root_updated (upd_prop (q, i, k) (set_items uwbs_config_model_property_init)) w1))" if w1: "model_alloc w = (ok, w1)" for ok w1
    proof (rule keeps_enter)
      show "stack_covered (node_stack ctx)" using l by (simp add: loading_def)
      show "node_covered (Node (Load_Property (q, i, Suc k)) # node_stack ctx) (Node (Load_Property (q, i, Suc k)))"
        using covered_items [OF covered_mono [OF cov]] by simp
      show "checked b (Node (Load_Property (q, i, Suc k)) # node_stack ctx)
          (ml_root (root_updated (upd_prop (q, i, k) (set_items uwbs_config_model_property_init)) w1))"
        using checked_set_items [OF _ cov] l w1 by (simp add: loading_def)
    qed
    show ?thesis
      by (simp add: Scalar uwbs_config_model_loader_property_consume_event_def uwbs_config_yaml_enter_string_node_def
          uwbs_config_yaml_skip_scalar_def keeps_error keeps_none inner cov items split: prod.split Option.bind_split)
  next
    case Mapping_End
    have "loading b (ctx\<lparr>node_stack := ns\<rparr>) w"
      if p: "get_prop (q, i, k) (ml_root w) = Some p" "uwbs_config_model_loader_check_property p = CONFIG_OK" for p
    proof -
      have "checked b ns (ml_root w)"
      proof (rule checked_pop [of b "Node (Load_Property (q, i, k))"])
        show "checked b (Node (Load_Property (q, i, k)) # ns) (ml_root w)" using l n by (simp add: loading_def)
      qed (use p(1) check_property_ok [OF p(2)] in simp_all)
      then show ?thesis using l n by (simp add: loading_def)
    qed
    then show ?thesis using n
      by (auto simp: Mapping_End uwbs_config_model_loader_property_consume_event_def uwbs_config_yaml_leave_node_def
          keeps_def bind_eq_Some_conv)
  qed (simp_all add: uwbs_config_model_loader_property_consume_event_def inner cov keeps_stay l)
qed

lemma keeps_def_node:
  assumes l: "loading b ctx w" and n: "node_stack ctx = Node (Load_Def q) # ns"
  shows "keeps b (uwbs_config_model_loader_def_consume_event q e ctx w)"
proof -
  have cov: "covered (node_stack ctx) (q, None)" using l n by (simp add: loading_def)
  note inner = keeps_enter_inner [OF l] keeps_node [OF l]
  show ?thesis
  proof (cases e)
    case (Scalar name)
    have "loading b (ctx\<lparr>skip_depth := 0\<rparr>) w" using l by (simp add: loading_def)
    from keeps_enter_inner [OF this, of Skip_Node] show ?thesis
      by (simp add: Scalar uwbs_config_model_loader_def_consume_event_def uwbs_config_yaml_skip_node_def
          uwbs_config_yaml_skip_scalar_def inner cov)
  next
    case Mapping_End
    have "keeps b (leave st ctx w)"
      if d: "get_def q (ml_root w) = Some d" "uwbs_config_model_loader_check_def d = Some st" for d st
    proof (rule keeps_leave [OF n])
      show "stack_covered ns" using l n by (simp add: loading_def)
      assume "st = CONFIG_OK"
      with d(2) have wf: "def_well_formed d" using check_def_ok by simp
      show "checked b ns (ml_root w)"
      proof (rule checked_pop [of b "Node (Load_Def q)"])
        show "checked b (Node (Load_Def q) # ns) (ml_root w)" using l n by (simp add: loading_def)
      qed (use d(1) wf in simp_all)
    qed
    then show ?thesis using n
      by (auto simp: Mapping_End uwbs_config_model_loader_def_consume_event_def keeps_none simp del: leave_top
          split: Option.bind_split)
  qed (simp_all add: uwbs_config_model_loader_def_consume_event_def inner cov keeps_stay l)
qed

lemma keeps_stream:
  assumes l: "loading b ctx w" and n: "node_stack ctx = Stream_Node # ns"
  shows "keeps (b \<or> e = Document_Start) (uwbs_config_yaml_stream_consume_event model_loader e ctx w)"
proof (cases "e = Document_Start")
  case True
  have "checked True (Node (Load_Def []) # node_stack ctx) (ml_root w)"
    using checked_push [of b "node_stack ctx" "ml_root w" "Node (Load_Def [])"] l by (auto simp: loading_def checked_def active_def_def)
  moreover have "covered (Node (Load_Def []) # node_stack ctx) ([], None)" by (simp add: covered_def active_def_def)
  ultimately show ?thesis using l
    by (auto simp: True uwbs_config_yaml_stream_consume_event_def model_loader_def loading_def intro!: keeps_enter)
next
  case False
  then show ?thesis using l keeps_leave_inner [OF n]
    by (cases e) (auto simp: uwbs_config_yaml_stream_consume_event_def keeps_error loading_def n simp del: leave_top intro: keeps_stay)
qed

text \<open>An event: before the first document only the node of the stream is on the stack.\<close>

lemma keeps_event:
  assumes l: "loading b ctx w" and b: "\<not> b \<Longrightarrow> set (node_stack ctx) \<subseteq> {Stream_Node}"
  shows "keeps (b \<or> e = Document_Start) (uwbs_config_yaml_consume_event model_loader e ctx w)"
proof (cases "node_stack ctx")
  case (Cons n ns)
  show ?thesis
  proof (cases b)
    case False
    then have "n = Stream_Node" using b Cons by auto
    with keeps_stream [OF l] Cons show ?thesis by (simp add: uwbs_config_yaml_consume_event_def consume_node_def)
  next
    case True
    with l have l: "loading True ctx w" by simp
    have h: "n = Node h \<Longrightarrow> keeps True (model_consume h e ctx w)" for h
      using keeps_types [OF l Cons] keeps_enums [OF l] keeps_properties [OF l] keeps_required [OF l] keeps_defs [OF l]
        keeps_property [OF l] keeps_def_node [OF l] Cons
      by (cases h) (auto simp: model_consume_def)
    show ?thesis using True keeps_scalars [OF l Cons] keeps_skip [OF l Cons] keeps_stream [OF l] h Cons
      by (cases n) (auto simp: uwbs_config_yaml_consume_event_def consume_node_def model_loader_def)
  qed
qed (simp add: uwbs_config_yaml_consume_event_def keeps_none)

section \<open>Loading\<close>

lemma stream_only:
  assumes "set (node_stack ctx) \<subseteq> {Stream_Node}" and "e \<noteq> Document_Start"
    and "uwbs_config_yaml_consume_event model_loader e ctx w = Some (CONFIG_OK, ctx', w')"
  shows "set (node_stack ctx') \<subseteq> {Stream_Node}"
  using assms
  by (cases "node_stack ctx"; cases e)
    (auto simp: uwbs_config_yaml_consume_event_def consume_node_def uwbs_config_yaml_stream_consume_event_def)

lemma events_checked:
  "yaml_events model_loader events ctx w = Some (CONFIG_OK, ctx', w') \<Longrightarrow> loading b ctx w \<Longrightarrow>
     (\<not> b \<Longrightarrow> set (node_stack ctx) \<subseteq> {Stream_Node}) \<Longrightarrow>
     loading (b \<or> Some Document_Start \<in> set events) ctx' w'"
proof (induction events arbitrary: b ctx w)
  case (Cons event events)
  from Cons.prems(1) obtain e ctx1 w1 where e: "event = Some e"
    "uwbs_config_yaml_consume_event model_loader e ctx w = Some (CONFIG_OK, ctx1, w1)"
    "yaml_events model_loader events ctx1 w1 = Some (CONFIG_OK, ctx', w')"
    by (cases event) (auto simp: bind_eq_Some_conv split: if_splits)
  have "loading (b \<or> e = Document_Start) ctx1 w1" using keeps_event [OF Cons.prems(2,3), of e] e(2) by (simp add: keeps_def)
  moreover have "set (node_stack ctx1) \<subseteq> {Stream_Node}" if "\<not> (b \<or> e = Document_Start)"
    using stream_only [OF _ _ e(2)] Cons.prems(3) that by simp
  ultimately have "loading ((b \<or> e = Document_Start) \<or> Some Document_Start \<in> set events) ctx' w'"
    by (rule Cons.IH [OF e(3)])
  then show ?case by (simp add: e(1) eq_commute disj_assoc)
qed simp

lemma loaded_checked:
  assumes "uwbs_config_yaml_load_str model_loader (Some events) uwbs_config_yaml_init (model_load_init fails) = Some (CONFIG_OK, ctx, w)"
    and "node_stack ctx = []" and "Some Document_Start \<in> set events"
  shows "get_def q (ml_root w) = Some d \<Longrightarrow> def_well_formed d"
    and "get_prop r (ml_root w) = Some p \<Longrightarrow> property_well_formed p"
proof -
  define c where "c = (snd (uwbs_config_yaml_enter_node uwbs_config_yaml_init Stream_Node) :: model_ctx)"
  have c: "node_stack c = [Stream_Node]"
    by (simp add: c_def uwbs_config_yaml_enter_node_def uwbs_config_yaml_init_def NODE_STACK_SIZE_def)
  have root: "ml_root (model_load_init fails) = uwbs_config_model_def_init" by (simp add: model_load_init_def)
  have "get_def q uwbs_config_model_def_init = Some d \<Longrightarrow> q = []" for q d
    by (cases q) (auto simp: uwbs_config_model_def_init_def VECTOR_INIT_STATIC_def vec_size_def)
  moreover have "get_prop r uwbs_config_model_def_init = None" for r
    by (cases "fst r") (auto simp: get_prop_def uwbs_config_model_def_init_def VECTOR_INIT_STATIC_def vec_size_def split: prod.split)
  ultimately have "loading False c (model_load_init fails)" by (auto simp: loading_def c root checked_def)
  moreover have "yaml_events model_loader events c (model_load_init fails) = Some (CONFIG_OK, ctx, w)"
    using assms(1) by (simp add: uwbs_config_yaml_load_str_def uwbs_config_yaml_load_loop_def c_def)
  ultimately have "loading True ctx w" using events_checked [of events c _ ctx w False] c assms(3) by simp
  then have "checked True [] (ml_root w)" by (simp add: loading_def assms(2))
  then show "get_def q (ml_root w) = Some d \<Longrightarrow> def_well_formed d" "get_prop r (ml_root w) = Some p \<Longrightarrow> property_well_formed p"
    by (cases r; auto simp: checked_def active_def_def active_prop_def)+
qed

text \<open>
  A scalar after \<^verbatim>\<open>enum\<close> is skipped as if it were a list: the end of the definition, and of the document, is skipped
  as well, and the definition is not checked.
\<close>

lemma skip_never_ends:
  assumes "node_stack ctx = Skip_Node # ns" and "\<forall>e \<in> set es. e \<noteq> Sequence_Start \<and> e \<noteq> Mapping_Start"
    and "skip_depth ctx = 0 \<or> length es < skip_depth ctx" and "length es < size_modulus" and "skip_depth ctx < size_modulus"
  shows "\<exists>k. consumes l es ctx w = Some (CONFIG_OK, ctx\<lparr>skip_depth := k\<rparr>, w)"
  using assms
proof (induction es arbitrary: ctx)
  case Nil
  then show ?case by (auto intro: exI [of _ "skip_depth ctx"])
next
  case (Cons e es)
  let ?k = "if e = Sequence_End \<or> e = Mapping_End then size_sub (skip_depth ctx) 1 else skip_depth ctx"
  let ?ctx = "ctx\<lparr>skip_depth := ?k\<rparr>"
  have k: "?k = 0 \<or> length es < ?k" "?k < size_modulus" "e = Sequence_End \<or> e = Mapping_End \<Longrightarrow> ?k \<noteq> 0"
    using Cons.prems(3,4,5) by (auto simp: size_sub_def size_modulus_def)
  have "uwbs_config_yaml_skip_node_consume_event e ctx w = Some (CONFIG_OK, ?ctx, w)"
    using Cons.prems(2) k(3) by (cases e) (auto simp: uwbs_config_yaml_skip_node_consume_event_def Let_def)
  then have "consumes l (e # es) ctx w = consumes l es ?ctx w"
    by (intro consumes_step [OF Cons.prems(1)]) (simp add: consume_node_def)
  moreover have "\<exists>k. consumes l es ?ctx w = Some (CONFIG_OK, ?ctx\<lparr>skip_depth := k\<rparr>, w)"
    using Cons.prems(1,2,4) k by (intro Cons.IH) auto
  ultimately show ?case by auto
qed

text \<open>A model whose only definition is never checked is accepted, and so is a document that is empty.\<close>

lemma unchecked_model_accepted:
  "uwbs_config_model_load_str (Some (Some (map Some [Stream_Start, Document_Start, Mapping_Start, Scalar ''enum'', Scalar s,
     Mapping_End, Document_End, Stream_End]))) 1 (\<lambda>_. False) = Some (CONFIG_OK, Some uwbs_config_model_def_init)"
  "uwbs_config_model_load_str (Some (Some (map Some [Stream_Start, Stream_End]))) 1 (\<lambda>_. False) =
     Some (CONFIG_OK, Some uwbs_config_model_def_init)"
  by (simp_all add: uwbs_config_model_load_str_def model_loaded_def uwbs_config_yaml_load_str_def uwbs_config_yaml_load_loop_def
      uwbs_config_yaml_enter_node_def uwbs_config_yaml_init_def NODE_STACK_SIZE_def uwbs_config_yaml_consume_event_def
      consume_node_def uwbs_config_yaml_stream_consume_event_def model_loader_def model_consume_def
      uwbs_config_model_loader_def_consume_event_def uwbs_config_yaml_skip_node_def
      uwbs_config_yaml_skip_node_consume_event_def size_sub_def size_modulus_def model_load_init_def
      uwbs_config_model_check_def uwbs_config_model_def_init_def VECTOR_INIT_STATIC_def MODEL_NODE_STATIC_INIT_def)

end
