(* ===== verification/Spec2Isabelle.thy ===== *)
theory Spec2Isabelle
  imports Uci_Exchange Cherry_Run App_Command App_Getters Fira_Reports Fira_Rounds Calib_Send Config_Load Config_Checked
begin

text \<open>
  Verification of the host side of the UWB stack under \<^verbatim>\<open>src/Samples/Cherry\<close>: the UCI core that turns
  messages into packets and back, the transport that moves packets, the worker thread of the Cherry
  library, the clients that configure ranging sessions and calibration on the device, and the loader of
  configurations.

  \<^bold>\<open>The program.\<close> A message is built block by block (\<^verbatim>\<open>uci_message.c\<close>), its payload cut into packets of at
  most 255 bytes, each behind a header of four bytes; \<^verbatim>\<open>uci.c\<close> writes the headers, appends the blocks to a
  transmit queue and wakes the transport (\<^verbatim>\<open>uci_transport_fd.c\<close>), which writes the packets to a file
  descriptor. In the other direction the transport reads a packet, the core collects the packets of a
  message, looks up the handler registered for its identifier and calls it with a parser over the blocks.
  The session client (\<^verbatim>\<open>cherry_session_client.c\<close>) registers handlers for the responses and notifications of
  sessions, sends commands with the builder and waits on a semaphore that the handlers give. API calls and
  notification callbacks run as tasks of a worker thread (\<^verbatim>\<open>cherry_thread.c\<close>). Apart from all this, the
  configuration loader (\<^verbatim>\<open>uwbs_config\<close>) reads a model and the files of a directory and gives the values of the
  keys to a callback.

  \<^bold>\<open>Conventions.\<close> Operations that use memory have an \<open>option\<close> result; \<open>None\<close> is a run that does not return
  normally: a NULL or dangling dereference, an access outside a buffer, a failed assertion, or a loop that
  does not end. A theorem \<open>f x = Some y\<close> therefore includes memory safety and termination. Linked structures
  live in explicit stores from addresses to records, since the code shares and frees them. Failing
  allocations and the outcomes of system calls are schedules of the state (\<open>oom n\<close>, \<open>fw_poll n\<close>,
  \<open>fw_io n\<close>), and the theorems hold for every schedule unless they assume one. Function pointers (handlers,
  transport callbacks, tasks, notification callbacks) and the thread that receives during a wait
  (\<open>se_wait\<close>) are parameters. Loops are structural recursions or \<open>partial_function (option)\<close>; the loops of
  the transport count the system calls and are bounded by the schedule. No fuel is used.

  \<^bold>\<open>Theories.\<close>
  \<^item> \<open>Prelude\<close>, \<open>Linked\<close>: machine arithmetic, buffers, little-endian values; linked lists in a store.
  \<^item> \<open>Uci_Spec\<close> (\<^verbatim>\<open>uci_spec_fira.h\<close>, \<^verbatim>\<open>qerr.h\<close>): codes, sizes and message identifiers.
  \<^item> \<open>Uci_Blk\<close> (\<^verbatim>\<open>uci.h\<close>, \<^verbatim>\<open>uci_internal.h\<close>, allocator of \<^verbatim>\<open>cherry.c\<close>): blocks, allocation, headers.
  \<^item> \<open>Uci_Alloc\<close>: the contract of the allocator as the locales \<open>uci_allocator\<close>, \<open>packet_allocator\<close> and
    \<open>ample_allocator\<close>, interpreted on the allocator of the library.
  \<^item> \<open>Uci_Parser\<close> (\<^verbatim>\<open>uci_message.c\<close>, \<^verbatim>\<open>uci_message.h\<close>): \<open>parser_rep\<close> says which bytes remain; every read gives
    the next of them (Lemmas \<open>message_get_rep\<close>, \<open>get_bytes_rep\<close>), and a message that announces too much is never read to its end (C12).
  \<^item> \<open>Uci_Builder\<close> (same files): \<open>message_rep\<close> says which payload a message under construction has and that
    it is cut into packets; C5, C6, and C7 with the parser.
  \<^item> \<open>Uci_State\<close>, \<open>Uci_Handlers\<close> (\<^verbatim>\<open>uci.c\<close>): the context, and the tables of handlers as an association list
    (C10, Lemmas \<open>register_inv\<close>, \<open>unregister_inv\<close>).
  \<^item> \<open>Uci_Tx\<close> (\<^verbatim>\<open>uci.c\<close>): the transmit queue is a queue of packets, a message is queued as its segmentation
    (C2).
  \<^item> \<open>Uci_Rx\<close> (\<^verbatim>\<open>uci.c\<close>): reception implements an abstract reassembler (C3), which inverts segmentation of less than 64 KiB
    (Lemma \<open>feed_segment\<close>); the device state.
  \<^item> \<open>Uci_Transport\<close> (\<^verbatim>\<open>uci_transport_fd.c\<close>): reading and writing packets; with the core, of a message sent
    the first block of every packet is written (\<open>first_blocks\<close>, C8), and a message read is delivered
    (C1); C9.
  \<^item> \<open>Uci_Exchange\<close>: no new operations; from the builder of one core to the parser of another (C4),
    and the answer of a server in the error state (C11).
  \<^item> \<open>Cherry_Thread\<close>, \<open>Cherry_Run\<close> (\<^verbatim>\<open>cherry_thread.c\<close>): lists of tasks as queues in the sense of the locale
    \<open>fifo\<close>, and what a wake-up, a removal and a stop do (C13 to C15).
  \<^item> \<open>Session_Client\<close>, \<open>Session_Handlers\<close> (\<^verbatim>\<open>cherry_session_client.c\<close>): context, tables, handlers, commands;
    opening the client makes the core dispatch to its handlers (C19), responses (C20 to C22).
  \<^item> \<open>App_Config\<close>, \<open>App_Params\<close>, \<open>App_Getters\<close>, \<open>App_Command\<close> (\<^verbatim>\<open>cherry_session_client.c\<close> and \<^verbatim>\<open>.h\<close>): the
    command that sets application parameters, one definition per setter and getter; the command sent is the
    list of its parameters (C16, C17).
  \<^item> \<open>Anchor_Location\<close> (same files): the packing of locations and its round trip (C18).
  \<^item> \<open>Message_Readers\<close>: readers of structured data and the decoders of byte lists they implement, with rules
    that compose them. \<open>Fira_Measurements\<close>, \<open>Fira_Reports\<close> (\<^verbatim>\<open>cherry_fira_client.c\<close>): the measurements of
    ranging notifications, what is read from a well-formed notification and what happens on others (C23 to C25).
  \<^item> \<open>Message_Writers\<close>: writers of structured data and the bytes they append, with rules that compose them.
    \<open>Fira_Client\<close>, \<open>Fira_Rounds\<close> (\<^verbatim>\<open>cherry_fira_client.c\<close>): the client for ranging rounds and diagnostics, its
    commands and responses (C26, C27).
  \<^item> \<open>Qmalloc\<close> (\<^verbatim>\<open>qmalloc.h\<close>): blocks with a prefix and the accounts of the quotas (C30).
    \<open>Fira_Diagnostics\<close> (\<^verbatim>\<open>cherry_fira_client.c\<close>): reading a diagnostics notification into allocated structures;
    \<open>Fira_Diag_Layout\<close> shows what is read (C28), \<open>Fira_Diag_Memory\<close> that no block is lost
    (C29).
  \<^item> \<open>Calib_Client\<close>, \<open>Cherry_Calib\<close> (\<^verbatim>\<open>cherry_calib_client.c\<close>, \<^verbatim>\<open>cherry.c\<close>, \<^verbatim>\<open>cherry_calib_mut.c\<close>): the client for
    calibration keys, the tasks that set and get them, and the object that collects the keys of a response.
    \<open>Calib_Keys\<close>, \<open>Calib_Send\<close>: what is sent (C31). \<open>Calib_Collect\<close>: the blocks of the object
    and its array (C35). \<open>Calib_Response\<close>: a decoder of responses that the handler implements
    (C32, C33, C34). A response has at most 2000 keys
    there: the array then has less than 65536 bytes, each growth takes less than 50000 bytes, and 102000000 bytes
    of the 32-bit account are enough for all keys.
  \<^item> \<open>Config_Yaml\<close> (\<^verbatim>\<open>uwbs_config/src/loader.c\<close>): the events of a YAML parser, which is a library and given by its
    results, and the stack of nodes that consume them; the loaders are instances of it, by a record of their nodes.
    \<open>Config_Region\<close> (\<^verbatim>\<open>region_loader.c\<close>): the region of a country. \<open>Config_Model\<close> (\<^verbatim>\<open>model.c\<close>, \<^verbatim>\<open>vector.c\<close>): the
    tree of definitions, vectors, references. \<open>Config_Loader\<close> (\<^verbatim>\<open>config_loader.c\<close>): the nodes that call the user's
    callback. \<open>Config_Values\<close>, \<open>Config_Fields\<close>, \<open>Config_Document\<close>: what a value means, and that the loader makes these
    calls (C38, C39). \<open>Config_Schema\<close> (\<^verbatim>\<open>model_loader.c\<close>): loading a model;
    \<open>Config_Checked\<close>: what is not being loaded is well formed (C36,
    C37, and models that are accepted unchecked). \<open>Config_Load\<close> (\<^verbatim>\<open>uwbs_config.c\<close>): the files of a
    directory (C40). Nesting is bounded by the 10 entries of the stack, 3 of which the document takes.

  \<^bold>\<open>Locales.\<close> The builder, the transmission and the commands are proved against the contract of the allocator
  and used through its interpretations \<open>simple\<close> (allocation may fail) and \<open>ample\<close> (it does not); the
  properties of the lists of tasks come from the interpretation \<open>task_queue\<close>.

  \<^bold>\<open>Not modelled.\<close> Logging. Locks are the flag of \<^verbatim>\<open>uci.c\<close>'s mutex; operations run one at a time, the
  receiving thread interleaves with a command only while it waits. The other transports and the operating
  system layer are wrappers of system calls. The core, CCC, proxy and radar clients have the form of the clients that
  are modelled (commands of fixed layout, handlers that copy fields) and are not modelled; neither is the API layer of Cherry beyond calibration and the
  worker thread, which forwards to them. Of the configuration loader the functions that free a model are not
  modelled, and the text of a file is what the parser gives for it. The kernel drivers and the firmware loader depend on the hardware.
\<close>

section \<open>Concrete states\<close>

text \<open>Small states on which the theorems below are applied.\<close>

definition mem0 :: mem where
  "mem0 = \<lparr>heap = (\<lambda>_. None), brk = 0, oom = (\<lambda>_. False),
     junk_blk = \<lparr>b_next = None, b_data = [], b_len = 0, b_total_len = 0, b_size = 0, b_flags = 0\<rparr>,
     junk_byte = (\<lambda>_. 0)\<rparr>"

definition blk1 :: uci_blk where
  "blk1 = \<lparr>b_next = None, b_data = [0, 0, 0, 0, 7, 8], b_len = 6, b_total_len = 2, b_size = 6, b_flags = 4\<rparr>"

definition mem1 :: mem where
  "mem1 = mem0\<lparr>heap := [0 \<mapsto> blk1], brk := 1\<rparr>"

definition world0 :: "bytes \<Rightarrow> fd_world" where
  "world0 inp = \<lparr>fw_attached = True, fw_calls = 0, fw_poll = (\<lambda>_. Poll_Ready), fw_io = (\<lambda>_. Io 3),
     fw_in = inp, fw_out = []\<rparr>"

definition uci0 :: "mem \<Rightarrow> bytes \<Rightarrow> fd_world uci" where
  "uci0 m inp = \<lparr>u_mem = m, u_htab = (\<lambda>_. None), u_handlers_head = None, u_generic_handler = None,
     u_rx = None, u_rx_last = None, u_tx = None, u_tx_last = None, u_tr = Some 0, u_rsp_blk = None,
     u_is_client = False, u_known_gid = 0, u_device_state = 1,
     u_data_msg_info = \<lparr>d_msg_session_handle = 0, d_destination_address = 0, d_sequence_number = 0,
       d_app_data_len = 0, d_app_data_rem_len = 0, d_is_last_packet = True, d_is_last_packet_prev = True\<rparr>,
     u_locked = False, u_world = world0 inp\<rparr>"

abbreviation (input) no_destructor :: "mem \<Rightarrow> ptr \<Rightarrow> mem option" where "no_destructor \<equiv> \<lambda>_ _. None"

definition env0 :: "fd_world uci_env" where
  "env0 = g_transport_fd_ops (simple_allocator_ops no_destructor) (\<lambda>_ u _ _ _. Some (0, u))"

lemma mem0_ok: "mem_ok mem0" "mem_ample mem0" "mem_ok mem1"
  by (simp_all add: mem0_def mem1_def mem_ok_def mem_ample_def)

lemma mem0_builder: "builder_rep mem0 uci_message_builder_init [] []"
  by (simp add: builder_rep_def message_rep_def uci_message_builder_init_def total_is_def)

lemma builder_init_fields [simp]:
  "mb_first_errno uci_message_builder_init = 0" "mb_elems_nr uci_message_builder_init = None"
  by (simp_all add: uci_message_builder_init_def)

lemma blk1_facts [simp]:
  "uci_blk_has_header blk1" "blk_payload blk1 = [7, 8]" "own_blk blk1" "b_next blk1 = None"
  "b_total_len blk1 = 2" "b_len blk1 = 6"
  by (simp_all add: blk1_def uci_blk_has_header_def blk_payload_def own_blk_def blk_ok_def allocator_owned_def)

lemma mem1_message: "message_rep (heap mem1) (Some 0) [0] [7, 8]"
  by (simp add: mem1_def message_rep_def total_is_def plen_def blk_at_def)

lemma env0_fields [simp]: "e_allocator env0 = simple_allocator_ops no_destructor"
  by (simp add: env0_def g_transport_fd_ops_def)

lemma uci0_fields [simp]:
  "u_mem (uci0 m inp) = m" "u_world (uci0 m inp) = world0 inp" "u_rx (uci0 m inp) = None"
  "\<not> u_locked (uci0 m inp)" "u_tr (uci0 m inp) \<noteq> None" "u_rsp_blk (uci0 m inp) = None"
  "\<not> u_is_client (uci0 m inp)" "u_tx (uci0 m inp) = None"
  by (simp_all add: uci0_def)

lemma world0_ok [simp]: "os_ok (world0 inp)" "fw_attached (world0 inp)" "fw_in (world0 inp) = inp"
  "fw_out (world0 inp) = []"
  by (simp_all add: world0_def os_ok_def)

text \<open>A session configuration notification.\<close>

abbreviation (input) ntf_id :: "16 word" where "ntf_id \<equiv> 0x6102"

lemma ntf_id_ok: "header_id ntf_id" "collected_id ntf_id" "sendable ntf_id"
  by (simp_all add: header_id_def collected_id_def sendable_def is_control_mt_def is_data_mt_def UCI_MT_def)

section \<open>From one core to the other\<close>

text \<open>
  C1. A message that was segmented by the sender's core is delivered by the receiver's core: when
  the packets of a message of any payload below 64 KiB arrive on the descriptor of the transport, and
  no allocation of the receiver fails, reading all packets but the last one returns each time with the message still being collected,
  and reading the last packet calls the message handling once, with the identifier that was sent
  and a chain of blocks from which exactly the payload that was sent can be parsed. Exactly the
  bytes of these packets are consumed.
\<close>

theorem receive_message:
  assumes "e_allocator e = simple_allocator_ops d" and "mem_ample (u_mem u)" and "os_ok (u_world u)"
    and "fw_attached (u_world u)" and "u_rx u = None" and "collected_id mid" and "length bs < 65536"
    and "fw_in (u_world u) = concat (segment mid bs) @ rest"
  shows "\<exists>n u1 u2 k p. Suc n = length (segment mid bs) \<and> fd_reads n e u = Some u1 \<and>
    uci_transport_fd_read e u1 = do { u \<leftarrow> deliver e u2 mid; Some (k, u) } \<and>
    u_rx u2 = Some p \<and> msg_ok (heap (u_mem u2)) p bs \<and> mem_ample (u_mem u2) \<and> fw_in (u_world u2) = rest"
  by (rule ample.fd_reads_message [OF assms])

theorem receive_message_witness:
  "\<exists>n u1 u2 k p. Suc n = length (segment ntf_id (replicate 300 5)) \<and>
    fd_reads n env0 (uci0 mem0 (concat (segment ntf_id (replicate 300 5)) @ [1])) = Some u1 \<and>
    uci_transport_fd_read env0 u1 = do { u \<leftarrow> deliver env0 u2 ntf_id; Some (k, u) } \<and>
    u_rx u2 = Some p \<and> msg_ok (heap (u_mem u2)) p (replicate 300 5) \<and> mem_ample (u_mem u2) \<and>
    fw_in (u_world u2) = [1]"
  by (rule receive_message [OF env0_fields]) (use mem0_ok ntf_id_ok in simp_all)

text \<open>
  C2. Sending a message of less than 64 KiB appends the segmentation of its payload to the transmit queue, behind the
  packets that were already queued, and then wakes the transport with the mutex released. The
  blocks of the queue and the preallocated response stay what the core relies on. It holds
  whatever allocations fail.
\<close>

theorem send_message_segments:
  assumes "e_allocator e = simple_allocator_ops d" and "mem_ok (u_mem u)" and "tx_inv u txs"
    and "rsp_inv u (txs @ as)" and "message_rep (heap (u_mem u)) (Some p) as bs"
    and "no_empty (heap (u_mem u)) as \<or> as = [p]" and "sendable mid" and "length bs < 65536"
    and "set as \<inter> set txs = {}" and "\<not> u_locked u" and "u_tr u \<noteq> None"
  shows "\<exists>u' m tx r. uci_send_message e u mid (Some p) = packet_send_ready e u' \<and>
    u' = u\<lparr>u_mem := m, u_tx := tx, u_tx_last := last_ptr as, u_rsp_blk := r\<rparr> \<and>
    mem_ok m \<and> tx_inv u' (txs @ as) \<and> rsp_inv u' (txs @ as) \<and>
    wires (heap m) (txs @ as) = wires (heap (u_mem u)) txs @ segment mid bs"
  by (rule simple.send_message_queued [OF assms])

theorem send_message_segments_witness:
  "\<exists>u' m tx r. uci_send_message env0 (uci0 mem1 []) ntf_id (Some 0) = packet_send_ready env0 u' \<and>
    u' = (uci0 mem1 [])\<lparr>u_mem := m, u_tx := tx, u_tx_last := last_ptr [0], u_rsp_blk := r\<rparr> \<and>
    mem_ok m \<and> tx_inv u' ([] @ [0]) \<and> rsp_inv u' ([] @ [0]) \<and>
    wires (heap m) ([] @ [0]) = wires (heap (u_mem (uci0 mem1 []))) [] @ segment ntf_id [7, 8]"
  by (rule send_message_segments [OF env0_fields])
    (use mem0_ok mem1_message ntf_id_ok in \<open>simp_all add: tx_inv_def rsp_inv_def\<close>)

text \<open>
  C3. The reception of a packet implements the abstract reassembler: with the message collected
  so far and the bytes of a well-formed packet, \<^verbatim>\<open>uci_packet_recv\<close> returns with the longer
  message collected, or hands the completed message to the handling, as the reassembler says. A
  message with another identifier that was being collected is dropped and all its blocks are
  returned to the allocator. Memory outside the packet and the collected message is not touched.
\<close>

theorem packet_recv_reassembles:
  assumes "e_allocator e = simple_allocator_ops d" and "mem_ok (u_mem u)" and "rx_rep u rx rxs"
    and "packet_rep (heap (u_mem u)) p ps pkt" and "set ps \<inter> set rxs = {}"
    and "uci_packet_hdr_get_payload_size (take 4 pkt) = length pkt - 4" and "segmentable (take 4 pkt)"
    and "(case rx of None \<Rightarrow> 0 | Some (i, bs) \<Rightarrow> length bs) + (length pkt - 4) < 65536"
  shows "\<exists>u' rxs'. uci_packet_recv e u p =
       (case reassemble rx pkt of
          (Some msg, _) \<Rightarrow> Some u' | (None, None) \<Rightarrow> None | (None, Some (mid, bs)) \<Rightarrow> deliver e u' mid) \<and>
    rx_rep u' (case reassemble rx pkt of (Some msg, _) \<Rightarrow> Some msg | (None, msg) \<Rightarrow> msg) rxs' \<and>
    mem_ok (u_mem u') \<and> (\<forall>a. a \<notin> set rxs \<union> set ps \<longrightarrow> heap (u_mem u') a = heap (u_mem u) a) \<and>
    set rxs' \<subseteq> set rxs \<union> set ps \<and> (\<forall>a \<in> set rxs - set rxs'. heap (u_mem u') a = None)"
  by (rule simple.packet_recv_collects [OF assms]) blast

definition mem_pkt :: mem where
  "mem_pkt = mem0\<lparr>heap := [0 \<mapsto> blk1\<lparr>b_data := [0x61, 2, 0, 2, 7, 8], b_flags := 0\<rparr>], brk := 1\<rparr>"

lemma mem_pkt_rep: "packet_rep (heap mem_pkt) 0 [0] [0x61, 2, 0, 2, 7, 8]"
  by (simp add: mem_pkt_def packet_rep_def blk1_def own_blk_def blk_ok_def allocator_owned_def
      uci_blk_has_header_def wire_def blk_data_def)

theorem packet_recv_reassembles_witness:
  "\<exists>u' rxs'. uci_packet_recv env0 (uci0 mem_pkt []) 0 =
       (case reassemble None [0x61, 2, 0, 2, 7, 8] of
          (Some msg, _) \<Rightarrow> Some u' | (None, None) \<Rightarrow> None | (None, Some (mid, bs)) \<Rightarrow> deliver env0 u' mid) \<and>
    rx_rep u' (case reassemble None [0x61, 2, 0, 2, 7, 8] of (Some msg, _) \<Rightarrow> Some msg | (None, msg) \<Rightarrow> msg) rxs' \<and>
    mem_ok (u_mem u') \<and> (\<forall>a. a \<notin> set [] \<union> set [0] \<longrightarrow> heap (u_mem u') a = heap (u_mem (uci0 mem_pkt [])) a) \<and>
    set rxs' \<subseteq> set [] \<union> set [0] \<and> (\<forall>a \<in> set [] - set rxs'. heap (u_mem u') a = None)"
  by (rule packet_recv_reassembles [OF env0_fields])
    (use mem_pkt_rep in \<open>simp_all add: rx_rep_def mem_ok_def mem_pkt_def mem0_def
      uci_packet_hdr_get_payload_size_def uci_blk_get_mt_def segmentable_def is_control_mt_def\<close>)

section \<open>The whole way of a message\<close>

text \<open>
  C4. Data of 1 to 65535 bytes that one core puts into a message and sends is what the other core reads: while
  no allocation fails on either side, the sender queues packets for the transport, whose bytes, read from the
  descriptor of the receiver packet after packet, bring exactly one message to the handling, with the identifier
  that was given to the sender; a parser on this message returns the data and has nothing left, and the
  descriptor is left with the bytes that follow.
\<close>

theorem message_exchanged:
  assumes "e_allocator e = simple_allocator_ops d" and "mem_ample (u_mem u)" and "tx_inv u []" and "rsp_inv u []"
    and "\<not> u_locked u" and "u_tr u \<noteq> None"
    and "e_allocator e' = simple_allocator_ops d'" and "mem_ample (u_mem v)" and "os_ok (u_world v)"
    and "fw_attached (u_world v)" and "u_rx v = None"
    and "collected_id mid" and "data \<noteq> []" and "length data < 65536"
  shows "\<exists>m builder p s as n v1 v2 k q parser parser'.
    uci_message_put (simple_allocator_ops d) (u_mem u) uci_message_builder_init data = Some (0, m, builder) \<and>
    mb_message builder = Some p \<and> uci_send_message e (u\<lparr>u_mem := m\<rparr>) mid (Some p) = packet_send_ready e s \<and>
    chain (heap (u_mem s)) (u_tx s) as \<and>
    fd_reads n e' (v\<lparr>u_world := (u_world v)\<lparr>fw_in := concat (wires (heap (u_mem s)) as) @ rest\<rparr>\<rparr>) = Some v1 \<and>
    uci_transport_fd_read e' v1 = do { v \<leftarrow> deliver e' v2 mid; Some (k, v) } \<and> u_rx v2 = Some q \<and>
    UCI_MESSAGE_PARSER_INITIALIZER (heap (u_mem v2)) q = Some parser \<and>
    uci_message_get (heap (u_mem v2)) parser (length data) = Some (data, parser') \<and>
    uci_message_remaining parser' = 0 \<and> fw_in (u_world v2) = rest"
  by (rule exchange_ok [OF assms])

text \<open>Data for two packets, with the bytes of something else behind them.\<close>

theorem message_exchanged_witness:
  "\<exists>m builder p s as n v1 v2 k q parser parser'.
    uci_message_put (simple_allocator_ops no_destructor) (u_mem (uci0 mem0 [])) uci_message_builder_init (replicate 300 5) =
      Some (0, m, builder) \<and>
    mb_message builder = Some p \<and>
    uci_send_message env0 ((uci0 mem0 [])\<lparr>u_mem := m\<rparr>) ntf_id (Some p) = packet_send_ready env0 s \<and>
    chain (heap (u_mem s)) (u_tx s) as \<and>
    fd_reads n env0 ((uci0 mem0 [])\<lparr>u_world := (u_world (uci0 mem0 []))\<lparr>fw_in :=
      concat (wires (heap (u_mem s)) as) @ [1]\<rparr>\<rparr>) = Some v1 \<and>
    uci_transport_fd_read env0 v1 = do { v \<leftarrow> deliver env0 v2 ntf_id; Some (k, v) } \<and> u_rx v2 = Some q \<and>
    UCI_MESSAGE_PARSER_INITIALIZER (heap (u_mem v2)) q = Some parser \<and>
    uci_message_get (heap (u_mem v2)) parser (length (replicate 300 (5 :: byte))) = Some (replicate 300 5, parser') \<and>
    uci_message_remaining parser' = 0 \<and> fw_in (u_world v2) = [1]"
  by (rule message_exchanged [OF env0_fields _ _ _ _ _ env0_fields])
    (use mem0_ok ntf_id_ok in \<open>simp_all add: tx_inv_def rsp_inv_def\<close>)

section \<open>Building and parsing messages\<close>

text \<open>
  C5. Adding data to a message built with the allocator of the library, when both together are below 64 KiB,
  no error is recorded and no nest is open, returns for every pattern of allocation failures and every content of fresh memory: either all the
  bytes are appended to the message and 0 is returned, or memory ran out, a proper prefix is
  appended, the status FAILED is returned and stays recorded in the builder. In both cases the
  message stays cut into packets of 255 payload bytes with room for a header in front of each,
  and no block outside the message changes.
\<close>

theorem message_put_appends:
  assumes "mem_ok m" and "builder_rep m builder as bs" and "mb_first_errno builder = 0"
    and "mb_elems_nr builder = None" and "length bs + length data < 65536"
  shows "\<exists>r m' builder' as' k.
     uci_message_put (simple_allocator_ops d) m builder data = Some (r, m', builder') \<and> mem_ok m' \<and>
     builder_rep m' builder' as' (bs @ take k data) \<and> frame (heap m) as (heap m') as' \<and>
     mb_elems_nr builder' = None \<and> mb_first_errno builder' = r \<and>
     (r = UCI_STATUS_OK \<and> k = length data \<and> (no_empty (heap m) as \<longrightarrow> no_empty (heap m') as') \<or>
      r = UCI_STATUS_FAILED \<and> k < length data)"
  by (rule simple.message_put_rep [OF assms])

theorem message_put_appends_witness:
  "\<exists>r m' builder' as' k.
     uci_message_put (simple_allocator_ops no_destructor) mem0 uci_message_builder_init (replicate 600 3) =
       Some (r, m', builder') \<and> mem_ok m' \<and>
     builder_rep m' builder' as' ([] @ take k (replicate 600 3)) \<and> frame (heap mem0) [] (heap m') as' \<and>
     mb_elems_nr builder' = None \<and> mb_first_errno builder' = r \<and>
     (r = UCI_STATUS_OK \<and> k = length (replicate 600 (3 :: byte)) \<and>
        (no_empty (heap mem0) [] \<longrightarrow> no_empty (heap m') as') \<or>
      r = UCI_STATUS_FAILED \<and> k < length (replicate 600 (3 :: byte)))"
  by (rule message_put_appends [OF mem0_ok(1) mem0_builder]) simp_all

text \<open>
  C6. While \<open>malloc\<close> does not fail, adding data to a message, when both together are below 64 KiB, no error is
  recorded and no nest is open, returns and succeeds: the whole data is appended, and no empty block is left in
  the message.
\<close>

theorem message_put_succeeds:
  assumes "mem_ample m" and "builder_rep m builder as bs" and "mb_first_errno builder = 0"
    and "mb_elems_nr builder = None" and "length bs + length data < 65536"
  shows "\<exists>m' builder' as'.
     uci_message_put (simple_allocator_ops d) m builder data = Some (UCI_STATUS_OK, m', builder') \<and> mem_ample m' \<and>
     builder_rep m' builder' as' (bs @ data) \<and> frame (heap m) as (heap m') as' \<and>
     mb_elems_nr builder' = None \<and> mb_first_errno builder' = 0 \<and>
     (no_empty (heap m) as \<longrightarrow> no_empty (heap m') as')"
  by (rule ample.message_put_ample [OF assms])

theorem message_put_succeeds_witness:
  "\<exists>m' builder' as'.
     uci_message_put (simple_allocator_ops no_destructor) mem0 uci_message_builder_init (replicate 600 3) =
       Some (UCI_STATUS_OK, m', builder') \<and> mem_ample m' \<and>
     builder_rep m' builder' as' ([] @ replicate 600 3) \<and> frame (heap mem0) [] (heap m') as' \<and>
     mb_elems_nr builder' = None \<and> mb_first_errno builder' = 0 \<and>
     (no_empty (heap mem0) [] \<longrightarrow> no_empty (heap m') as')"
  by (rule message_put_succeeds [OF mem0_ok(2) mem0_builder]) simp_all

text \<open>
  C7. What is put into a message is what a parser gets from it: after a put of data, while
  no allocation fails, message and data are below 64 KiB together, no error is recorded and no nest is open, a parser on the message reads back all the bytes of the message in order, whatever blocks
  and packets they were spread over.
\<close>

theorem put_then_get:
  assumes rep: "builder_rep m builder as bs" and mem: "mem_ample m" and ok: "mb_first_errno builder = 0"
    and nest: "mb_elems_nr builder = None" and len: "length bs + length data < 65536" and data: "data \<noteq> []"
  shows "\<exists>m' builder' p parser parser'.
     uci_message_put (simple_allocator_ops d) m builder data = Some (0, m', builder') \<and>
     mb_message builder' = Some p \<and> UCI_MESSAGE_PARSER_INITIALIZER (heap m') p = Some parser \<and>
     uci_message_get (heap m') parser (length (bs @ data)) = Some (bs @ data, parser') \<and>
     uci_message_remaining parser' = 0"
proof -
  from ample.message_put_ample [OF mem rep ok nest len, of d] obtain m' builder' as' where
    put: "uci_message_put (simple_allocator_ops d) m builder data = Some (0, m', builder')"
    and rep': "builder_rep m' builder' as' (bs @ data)" by blast
  then have msg: "message_rep (heap m') (mb_message builder') as' (bs @ data)" by (simp add: builder_rep_def)
  with data obtain p where p: "mb_message builder' = Some p"
    by (cases "mb_message builder'") (auto simp: message_rep_def)
  have "length (bs @ data) < 65536" using len by simp
  with message_rep_msg_ok msg p obtain parser where
    init: "UCI_MESSAGE_PARSER_INITIALIZER (heap m') p = Some parser" "parser_rep (heap m') parser (bs @ data)"
    using parser_init by metis
  from message_get_rep [OF init(2), of "length (bs @ data)"] obtain parser' where
    "uci_message_get (heap m') parser (length (bs @ data)) = Some (bs @ data, parser')"
    "parser_rep (heap m') parser' []" by auto
  with put p init(1) remaining_rep show ?thesis by fastforce
qed

theorem put_then_get_witness:
  "\<exists>m' builder' p parser parser'.
     uci_message_put (simple_allocator_ops no_destructor) mem0 uci_message_builder_init (replicate 600 3) =
       Some (0, m', builder') \<and>
     mb_message builder' = Some p \<and> UCI_MESSAGE_PARSER_INITIALIZER (heap m') p = Some parser \<and>
     uci_message_get (heap m') parser (length ([] @ replicate 600 (3 :: byte))) =
       Some ([] @ replicate 600 3, parser') \<and>
     uci_message_remaining parser' = 0"
  by (rule put_then_get [OF mem0_builder mem0_ok(2)]) simp_all

section \<open>The transmit queue and the descriptor\<close>

text \<open>
  C8. Sending a message of less than 64 KiB over the file descriptor transport, on an empty queue, returns with
  the queue empty again and every block of the message returned to the allocator, whatever short writes the
  system makes and however the blocks are cut. Written are, of every packet of the segmentation in order, the
  bytes that lie in its first block, and nothing else; so all of the packets when each of them is one block.
\<close>

theorem transmit_message:
  assumes "e = g_transport_fd_ops (simple_allocator_ops d) H" and "mem_ok (u_mem u)" and "tx_inv u []"
    and "rsp_inv u as" and "message_rep (heap (u_mem u)) (Some p) as bs"
    and "no_empty (heap (u_mem u)) as \<or> as = [p]"
    and "sendable mid" and "length bs < 65536" and "\<not> u_locked u" and "u_tr u \<noteq> None"
    and "os_ok (u_world u)" and "fw_attached (u_world u)"
  shows "\<exists>m r w. uci_send_message e u mid (Some p) =
      Some (u\<lparr>u_mem := m, u_tx := None, u_tx_last := last_ptr as, u_rsp_blk := r, u_world := w\<rparr>) \<and> mem_ok m \<and>
    (\<forall>a \<in> set as. heap m a = None) \<and> same_os (u_world u) w \<and> fw_in w = fw_in (u_world u) \<and>
    fw_out w = fw_out (u_world u) @ concat (first_blocks (heap (u_mem u)) as (segment mid bs)) \<and>
    (length as = length (segment mid bs) \<longrightarrow> first_blocks (heap (u_mem u)) as (segment mid bs) = segment mid bs)"
  by (rule simple.transmit_ok [where e = e and ?e0.0 = "no_transport (simple_allocator_ops d) H", OF _ _ _ assms(2-)])
    (simp_all add: assms(1) g_transport_fd_ops_def no_transport_def)

text \<open>
  A packet whose last byte is in a second block: only the header and the two bytes of the first block are
  written.
\<close>

definition mem_two :: mem where
  "mem_two = mem0\<lparr>heap := [0 \<mapsto> blk1\<lparr>b_next := Some 1, b_total_len := 3\<rparr>,
     1 \<mapsto> \<lparr>b_next = None, b_data = [9], b_len = 1, b_total_len = 0, b_size = 1, b_flags = 0\<rparr>], brk := 2\<rparr>"

lemma mem_two_message: "message_rep (heap mem_two) (Some 0) [0, 1] [7, 8, 9]"
  by (simp add: mem_two_def message_rep_def total_is_def plen_def blk_at_def own_blk_def blk_ok_def blk1_def
      allocator_owned_def uci_blk_has_header_def blk_payload_def)

lemma mem_two_ok: "mem_ok mem_two"
  by (simp add: mem_two_def mem0_def mem_ok_def)

lemma mem_two_no_empty: "no_empty (heap mem_two) [0, 1]"
  by (simp add: mem_two_def no_empty_def blk_at_def blk1_def blk_payload_def uci_blk_has_header_def)

theorem transmit_message_witness:
  "\<exists>m r w. uci_send_message env0 (uci0 mem_two []) ntf_id (Some 0) =
      Some ((uci0 mem_two [])\<lparr>u_mem := m, u_tx := None, u_tx_last := last_ptr [0, 1], u_rsp_blk := r, u_world := w\<rparr>) \<and>
    (\<forall>a \<in> set [0, 1]. heap m a = None) \<and> fw_out w = [0x61, 2, 0, 3, 7, 8]"
proof -
  have seg: "segment ntf_id [7, 8, 9] = [[0x61, 2, 0, 3, 7, 8, 9]]"
    by (subst segment.simps) (simp add: pkt_header_def control_header_def is_control_mt_def is_data_mt_def UCI_MT_def)
  have "\<exists>m r w. uci_send_message env0 (uci0 mem_two []) ntf_id (Some 0) =
      Some ((uci0 mem_two [])\<lparr>u_mem := m, u_tx := None, u_tx_last := last_ptr [0, 1], u_rsp_blk := r, u_world := w\<rparr>) \<and>
      mem_ok m \<and> (\<forall>a \<in> set [0, 1]. heap m a = None) \<and> same_os (u_world (uci0 mem_two [])) w \<and>
      fw_in w = fw_in (u_world (uci0 mem_two [])) \<and>
      fw_out w = fw_out (u_world (uci0 mem_two [])) @ concat (first_blocks (heap (u_mem (uci0 mem_two []))) [0, 1] (segment ntf_id [7, 8, 9])) \<and>
      (length [0, 1 :: nat] = length (segment ntf_id [7, 8, 9]) \<longrightarrow>
        first_blocks (heap (u_mem (uci0 mem_two []))) [0, 1] (segment ntf_id [7, 8, 9]) = segment ntf_id [7, 8, 9])"
    by (rule transmit_message [OF env0_def])
      (use mem_two_message mem_two_no_empty mem_two_ok ntf_id_ok in \<open>simp_all add: tx_inv_def rsp_inv_def\<close>)
  moreover have "first_blocks (heap mem_two) [0, 1] [[0x61, 2, 0, 3, 7, 8, 9]] = [[0x61, 2, 0, 3, 7, 8]]"
    by (simp add: first_blocks_def first_len_def mem_two_def blk1_def uci_blk_has_header_def)
  ultimately show ?thesis by (auto simp: seg)
qed

text \<open>
  C9. The length check that is missing when a packet is read: a header of a type with a 16-bit
  length that announces more than 255 bytes makes the read run past the end of the 259-byte block,
  whatever the rest of the state (the run faults).
\<close>

theorem fd_read_long_packet:
  assumes "e_allocator e = simple_allocator_ops d" and "\<not> oom (u_mem u) (brk (u_mem u))"
    and "os_ok (u_world u)" and "fw_attached (u_world u)" and "fw_in (u_world u) = hdr @ body"
    and "length hdr = 4" and "UCI_MAX_PAYLOAD_SIZE < uci_packet_hdr_get_payload_size hdr"
    and "uci_packet_hdr_get_payload_size hdr \<le> length body"
  shows "uci_transport_fd_read e u = None"
  by (rule fd_read_overflow [OF assms])

theorem fd_read_long_packet_witness:
  "uci_transport_fd_read env0 (uci0 mem0 ([0, 0, 0x2c, 1] @ replicate 300 0)) = None"
  by (rule fd_read_long_packet [OF env0_fields, of _ "[0, 0, 0x2c, 1]" "replicate 300 0"])
    (simp_all add: mem0_def uci_packet_hdr_get_payload_size_def uci_blk_get_mt_def
      is_control_mt_def is_data_mt_def)

section \<open>Dispatching messages to handlers\<close>

text \<open>
  C10. A complete message is handled by the handler registered for its identifier, searched in the
  registered tables as one association list (the latest registration first), else by the generic
  handler, else by the answer to unknown messages, which tells an unknown group from an unknown
  opcode of a known group. A failing handler is answered with the status FAILED by a server, for
  control messages.
\<close>

theorem dispatch_lookup:
  assumes "handlers_inv u ps"
    and "u_is_client u \<or> \<not> is_control_mt (UCI_MT mid) \<or> u_device_state u \<noteq> UCI_DEVICE_STATE_ERROR \<or>
      mid = UCI_MT_GID_OID UCI_MESSAGE_TYPE_COMMAND UCI_GID_CORE UCI_OID_CORE_DEVICE_RESET"
  shows "handle_full_message e u mid =
    (case (map_of (handler_map (u_htab u) ps) mid, u_generic_handler u) of
       (None, None) \<Rightarrow>
         if is_control_mt (UCI_MT mid)
         then handle_unknown_control_packet e u mid (UCI_GID mid \<in> known_gids (u_htab u) ps) else Some u
     | (found, generic) \<Rightarrow>
         do {
           (error, u) \<leftarrow> (case found of
               Some (f, d) \<Rightarrow> e_handler e f u mid (u_rx u) d
             | None \<Rightarrow> (case generic of
                   Some g \<Rightarrow> e_handler e (gh_handler g) u mid (u_rx u) (gh_user_data g) | None \<Rightarrow> None));
           if error \<noteq> 0 \<and> \<not> u_is_client u \<and> is_control_mt (UCI_MT mid)
           then uci_send_status e u mid (word_of_int UCI_STATUS_FAILED) else Some u
         })"
  by (rule handle_full_message_lookup [OF assms])

definition table1 :: uci_message_handlers where
  "table1 = \<lparr>mh_next = None, mh_handlers = [\<lparr>uci_message_id = 0x6102, handler = 4\<rparr>,
     \<lparr>uci_message_id = 0x6103, handler = 5\<rparr>], mh_n_handlers = 2, mh_user_data = 9\<rparr>"

definition uci_h :: "fd_world uci" where
  "uci_h = (uci0 mem0 [])\<lparr>u_htab := [3 \<mapsto> table1]\<rparr>"

lemma table1_ok: "table_ok table1"
  by (simp add: table_ok_def table1_def entries_def table_gid_def UCI_GID_def UCI_OID_def)

lemma uci_h_inv: "handlers_inv uci_h []" "u_htab uci_h 3 = Some table1"
  by (simp_all add: handlers_inv_def uci_h_def uci0_def)

definition uci_h1 :: "fd_world uci" where
  "uci_h1 = uci_h\<lparr>u_handlers_head := Some 3, u_known_gid := 2\<rparr>"

lemma bit_2_word: "bit (2 :: 16 word) g \<longleftrightarrow> g = 1"
proof -
  have m: "(2 :: 16 word) = push_bit 1 1" by simp
  show ?thesis unfolding m bit_push_bit_iff by (auto simp: bit_1_iff)
qed

lemma uci_h1_inv: "handlers_inv uci_h1 [3]"
proof -
  have "table_gid table1 = 1" "mh_next table1 = None" by (simp_all add: table1_def table_gid_def UCI_GID_def)
  then show ?thesis
    by (auto simp: handlers_inv_def uci_h1_def uci_h_def uci0_def table1_ok known_gids_def bit_2_word
        simp del: bit_numeral_word_iff)
qed

theorem dispatch_lookup_witness:
  "handle_full_message env0 uci_h1 ntf_id =
    (case (map_of (handler_map (u_htab uci_h1) [3]) ntf_id, u_generic_handler uci_h1) of
       (None, None) \<Rightarrow>
         if is_control_mt (UCI_MT ntf_id)
         then handle_unknown_control_packet env0 uci_h1 ntf_id (UCI_GID ntf_id \<in> known_gids (u_htab uci_h1) [3])
         else Some uci_h1
     | (found, generic) \<Rightarrow>
         do {
           (error, u) \<leftarrow> (case found of
               Some (f, d) \<Rightarrow> e_handler env0 f uci_h1 ntf_id (u_rx uci_h1) d
             | None \<Rightarrow> (case generic of
                   Some g \<Rightarrow> e_handler env0 (gh_handler g) uci_h1 ntf_id (u_rx uci_h1) (gh_user_data g)
                 | None \<Rightarrow> None));
           if error \<noteq> 0 \<and> \<not> u_is_client u \<and> is_control_mt (UCI_MT ntf_id)
           then uci_send_status env0 u ntf_id (word_of_int UCI_STATUS_FAILED) else Some u
         })"
  by (rule dispatch_lookup [OF uci_h1_inv]) (simp add: uci_h1_def uci_h_def uci0_def)

text \<open>
  C11. In the error state a server lets no control message but the device reset reach a handler: for every other
  identifier, registered or not, exactly one packet is queued behind the others, the response with the
  identifier of the command and the one byte REJECTED, then the transport is woken; the packet is in the
  preallocated response, so that this holds whatever allocations fail, and nothing but the queue, the memory and
  this response changes. The device reset, and every control message of a client, reaches the handler that is
  registered for it as in any other state.
\<close>

theorem error_state_rejects:
  assumes "e_allocator e = simple_allocator_ops d" and "mem_ok (u_mem u)" and "tx_inv u txs" and "rsp_inv u txs"
    and "u_rsp_blk u = Some r" and "\<not> u_locked u" and "u_tr u \<noteq> None" and "handlers_inv u ps"
    and "u_device_state u = UCI_DEVICE_STATE_ERROR" and "is_control_mt (UCI_MT mid)"
  shows "if \<not> u_is_client u \<and> mid \<noteq> UCI_MT_GID_OID UCI_MESSAGE_TYPE_COMMAND UCI_GID_CORE UCI_OID_CORE_DEVICE_RESET
    then \<exists>u' m tx q. handle_full_message e u mid = packet_send_ready e u' \<and>
      u' = u\<lparr>u_mem := m, u_tx := tx, u_tx_last := Some r, u_rsp_blk := q\<rparr> \<and> mem_ok m \<and> tx_inv u' (txs @ [r]) \<and>
      rsp_inv u' (txs @ [r]) \<and> wires (heap m) (txs @ [r]) =
        wires (heap (u_mem u)) txs @ [pkt_header (RSP mid) 1 @ [word_of_int UCI_STATUS_REJECTED]]
    else \<forall>f x. map_of (handler_map (u_htab u) ps) mid = Some (f, x) \<longrightarrow> handle_full_message e u mid = do {
      (error, u) \<leftarrow> e_handler e f u mid (u_rx u) x;
      if error \<noteq> 0 \<and> \<not> u_is_client u then uci_send_status e u mid (word_of_int UCI_STATUS_FAILED) else Some u }"
  by (rule simple.error_state [OF assms])

definition mem_rsp :: mem where
  "mem_rsp = mem0\<lparr>heap := [0 \<mapsto> \<lparr>b_next = None, b_data = [0, 0, 0, 0, 0], b_len = 4, b_total_len = 0, b_size = 5,
     b_flags = 4\<rparr>], brk := 1\<rparr>"

definition uci_err :: "fd_world uci" where
  "uci_err = uci_h1\<lparr>u_mem := mem_rsp, u_rsp_blk := Some 0, u_device_state := UCI_DEVICE_STATE_ERROR\<rparr>"

text \<open>A command of the session group is answered with its identifier as a response and REJECTED.\<close>

theorem error_state_rejects_witness:
  "\<exists>u'. handle_full_message env0 uci_err 0x2102 = packet_send_ready env0 u' \<and> u_tx_last u' = Some 0 \<and>
    wires (heap (u_mem u')) [0] = [[0x41, 2, 0, 1, 1]]"
proof -
  have fields: "u_mem uci_err = mem_rsp" "u_rsp_blk uci_err = Some 0" "u_device_state uci_err = UCI_DEVICE_STATE_ERROR"
    "u_tx uci_err = None" "\<not> u_locked uci_err" "u_tr uci_err \<noteq> None" "\<not> u_is_client uci_err"
    by (simp_all add: uci_err_def uci_h1_def uci_h_def uci0_def)
  have "handlers_inv uci_err [3]" using uci_h1_inv by (simp add: handlers_inv_def uci_err_def)
  moreover have "mem_ok mem_rsp" by (simp add: mem_rsp_def mem0_def mem_ok_def)
  moreover have "tx_inv uci_err []" "rsp_inv uci_err []" using fields
    by (simp_all add: tx_inv_def rsp_inv_def mem_rsp_def status_blk_def own_blk_def blk_ok_def allocator_owned_def
        uci_blk_has_header_def)
  moreover have "is_control_mt (UCI_MT 0x2102)" by (simp add: is_control_mt_def UCI_MT_def)
  moreover have "pkt_header (RSP 0x2102) 1 = [0x41, 2, 0, 1]"
    by (simp add: pkt_header_def control_header_def is_control_mt_def is_data_mt_def UCI_MT_def RSP_def)
  moreover have "(0x2102 :: 16 word) \<noteq> UCI_MT_GID_OID UCI_MESSAGE_TYPE_COMMAND UCI_GID_CORE UCI_OID_CORE_DEVICE_RESET"
    by (simp add: UCI_MT_GID_OID_def)
  ultimately show ?thesis
    using error_state_rejects [OF env0_fields, of uci_err "[]" 0 "[3]" "0x2102"] fields by (force simp: wires_def)
qed

section \<open>Parsing\<close>

definition parser1 :: uci_message_parser where
  "parser1 = the (UCI_MESSAGE_PARSER_INITIALIZER (heap mem1) 0)"

lemma mem1_blks: "msg_blks (heap mem1) 0 [7, 8] 2"
  using message_rep_msg_ok [OF mem1_message] by (simp add: msg_ok_def numeral_2_eq_2)

lemma parser1_rep: "parser_rep (heap mem1) parser1 [7, 8]"
proof -
  from parser_init_at [OF mem1_blks] obtain p as where
    "UCI_MESSAGE_PARSER_INITIALIZER (heap mem1) 0 = Some p" "parser_at (heap mem1) p as [7, 8] 2" by blast
  then show ?thesis by (auto simp: parser1_def parser_rep_def numeral_2_eq_2)
qed

text \<open>
  C12. The length a header announces is not compared with the data received: on a message that
  announces more bytes than it carries, reading more than it carries never returns.
\<close>

theorem message_get_never_returns:
  assumes "msg_blks h m bs R" and "length bs < R" and "length bs < n"
    and "UCI_MESSAGE_PARSER_INITIALIZER h m = Some parser"
  shows "uci_message_get h parser n = None"
  using parser_init_at [OF assms(1)] assms(2-4) message_get_overrun by fastforce

lemma short_message: "msg_blks [0 \<mapsto> blk1\<lparr>b_total_len := 200\<rparr>] 0 [7, 8] 200"
  by (auto simp: msg_blks_def blk1_def blks_ok_def blk_ok_def chain_Some_iff blk_at_def blk_payload_def
      uci_blk_has_header_def intro!: exI [of _ "[0]"])

theorem message_get_never_returns_witness:
  "\<exists>parser. UCI_MESSAGE_PARSER_INITIALIZER [0 \<mapsto> blk1\<lparr>b_total_len := 200\<rparr>] 0 = Some parser \<and>
    uci_message_get [0 \<mapsto> blk1\<lparr>b_total_len := 200\<rparr>] parser 3 = None"
proof -
  obtain parser where p: "UCI_MESSAGE_PARSER_INITIALIZER [0 \<mapsto> blk1\<lparr>b_total_len := 200\<rparr>] 0 = Some parser"
    using parser_init_at [OF short_message] by blast
  have "uci_message_get [0 \<mapsto> blk1\<lparr>b_total_len := 200\<rparr>] parser 3 = None"
    by (rule message_get_never_returns [OF short_message _ _ p]) simp_all
  with p show ?thesis by blast
qed

section \<open>The worker thread\<close>

text \<open>A thread with one task and one priority task, which has a copy of its parameters.\<close>

definition task0 :: cherry_task where
  "task0 = \<lparr>t_context = Some 7, t_params = None, t_params_size = 0, t_thread_task = Some 1, next_task = None\<rparr>"

definition task1 :: cherry_task where
  "task1 = \<lparr>t_context = Some 8, t_params = Some 2, t_params_size = 1, t_thread_task = Some 2, next_task = None\<rparr>"

definition thread0 :: "nat list cherry_thread" where
  "thread0 = \<lparr>th_store = [0 \<mapsto> task0, 1 \<mapsto> task1], th_bufs = [2 \<mapsto> [5]], th_brk = 3, th_oom = (\<lambda>_. False),
     th_junk = None, th_sem = 1, th_state = CHERRY_THREAD_RUN, th_tasks = Some 0, th_prio_tasks = Some 1,
     th_locked = False, th_under_destroy = False, th_world = []\<rparr>"

definition qs0 :: "task_list \<Rightarrow> ptr list" where
  "qs0 l = (case l of TASKS \<Rightarrow> [0] | PRIO_TASKS \<Rightarrow> [1])"

definition log_effect :: "nat list effect" where
  "log_effect f c p abort w = w @ [f]"

definition log_run :: "nat list task_fn" where
  "log_run f t c p abort = Some (t\<lparr>th_world := log_effect f c p abort (th_world t)\<rparr>)"

lemma log_quiet: "quiet log_run log_effect"
  by (simp add: quiet_def log_run_def)

lemma task_copies: "params_copy task0 = None" "params_copy task1 = Some 2"
  by (simp_all add: params_copy_def task0_def task1_def)

lemma thread0_fields [simp]:
  "th_store thread0 = [0 \<mapsto> task0, 1 \<mapsto> task1]" "th_bufs thread0 = [2 \<mapsto> [5]]" "th_brk thread0 = 3"
  "th_oom thread0 i = False" "th_sem thread0 = 1" "th_state thread0 = CHERRY_THREAD_RUN" "\<not> th_locked thread0"
  "\<not> th_under_destroy thread0" "task_head TASKS thread0 = Some 0" "task_head PRIO_TASKS thread0 = Some 1"
  "next_task task0 = None" "next_task task1 = None"
  by (simp_all add: thread0_def task_head_def task0_def task1_def)

lemma all_lists: "(\<forall>l. P l) \<longleftrightarrow> P TASKS \<and> P PRIO_TASKS"
  by (metis task_list.exhaust)

lemma thread0_inv: "thread_inv thread0 {0, 1} qs0"
  unfolding thread_inv_def all_lists
  by (auto simp: alloc_inv_def copies_ok_def copy_at_def task_copies qs0_def)

lemma thread0_callable: "\<forall>a \<in> set (queued qs0). callable (th_store thread0) a"
  by (simp add: queued_def qs0_def callable_def task0_def task1_def)

text \<open>
  C13. One wake-up of the thread runs every queued task exactly once, first the priority tasks and
  then the others, each list in the order of sending, and frees every task with the copy of its
  parameters; nothing else is freed. This holds for tasks that change only what is behind the thread.
\<close>

theorem run_one_in_order:
  assumes "quiet run eff" and "thread_inv t A qs" and "\<not> th_locked t" and "th_state t = CHERRY_THREAD_RUN"
    and "\<forall>a \<in> set (queued qs). callable (th_store t) a" and "0 < th_sem t"
  shows "\<exists>t'. cherry_thread_run_one run t = Some (0, t') \<and> thread_inv t' (A - set (queued qs)) (\<lambda>_. []) \<and>
    th_world t' = fold (task_effect eff False (th_store t)) (queued qs) (th_world t) \<and>
    th_store t' = th_store (freed t (set (queued qs))) \<and> th_bufs t' = th_bufs (freed t (set (queued qs))) \<and>
    \<not> th_locked t' \<and> th_sem t' = th_sem t - 1"
  by (rule run_one_ok [OF assms])

theorem run_one_in_order_witness:
  "\<exists>t'. cherry_thread_run_one log_run thread0 = Some (0, t') \<and>
    thread_inv t' ({0, 1} - set (queued qs0)) (\<lambda>_. []) \<and>
    th_world t' = fold (task_effect log_effect False (th_store thread0)) (queued qs0) (th_world thread0) \<and>
    th_store t' = th_store (freed thread0 (set (queued qs0))) \<and>
    th_bufs t' = th_bufs (freed thread0 (set (queued qs0))) \<and> \<not> th_locked t' \<and> th_sem t' = th_sem thread0 - 1"
  by (rule run_one_in_order [OF log_quiet thread0_inv _ _ thread0_callable]) simp_all

text \<open>
  C14. Sending a task to a running thread that is not being destroyed (or a forced task) appends
  one new task to its list, with the given function and context and a copy of the parameters, and
  wakes the thread; or memory ran out, an error is returned, and neither the lists nor the memory
  changed. The other tasks stay what they are.
\<close>

theorem send_task_appends:
  assumes "thread_inv t A qs" and "valid_params t params n" and "\<not> th_locked t"
    and "th_state t = CHERRY_THREAD_RUN" and "\<not> th_under_destroy t \<or> force"
  shows "\<exists>err t'. cherry_thread_task_list_send t l (Some c) params n (Some f) destroy force = Some (err, t') \<and>
    \<not> th_locked t' \<and> th_world t' = th_world t \<and> th_state t' = th_state t \<and>
    (err = CHERRY_ERR_INTERNAL \<and> thread_inv t' A qs \<and> th_store t' = th_store t \<and> th_bufs t' = th_bufs t \<and>
       th_sem t' = th_sem t \<and> (\<exists>i \<ge> th_brk t. th_oom t i) \<or>
     err = CHERRY_ERR_NONE \<and> th_sem t' = min (Suc (th_sem t)) SEM_MAX \<and>
       th_under_destroy t' = (th_under_destroy t \<or> destroy) \<and>
       (\<exists>a. a \<notin> dom (th_store t) \<and> sent_task t t' a (Some c) params n (Some f) \<and>
          thread_inv t' (insert a A) (qs(l := qs l @ [a])) \<and> same_tasks (th_store t) ((th_store t')(a := None))))"
  by (rule send_running [OF assms])

theorem send_task_appends_witness:
  "\<exists>err t'. cherry_thread_task_list_send thread0 TASKS (Some 9) (Some 2) 1 (Some 4) False False = Some (err, t') \<and>
    \<not> th_locked t' \<and> th_world t' = th_world thread0 \<and> th_state t' = th_state thread0 \<and>
    (err = CHERRY_ERR_INTERNAL \<and> thread_inv t' {0, 1} qs0 \<and> th_store t' = th_store thread0 \<and>
       th_bufs t' = th_bufs thread0 \<and> th_sem t' = th_sem thread0 \<and> (\<exists>i \<ge> th_brk thread0. th_oom thread0 i) \<or>
     err = CHERRY_ERR_NONE \<and> th_sem t' = min (Suc (th_sem thread0)) SEM_MAX \<and>
       th_under_destroy t' = (th_under_destroy thread0 \<or> False) \<and>
       (\<exists>a. a \<notin> dom (th_store thread0) \<and> sent_task thread0 t' a (Some 9) (Some 2) 1 (Some 4) \<and>
          thread_inv t' (insert a {0, 1}) (qs0(TASKS := qs0 TASKS @ [a])) \<and>
          same_tasks (th_store thread0) ((th_store t')(a := None))))"
  by (rule send_task_appends [OF thread0_inv]) (simp_all add: valid_params_def)

text \<open>
  C15. Stopping a thread leaves its lists pointing to the tasks it freed: with a priority task
  pending, processing a priority task afterwards reads freed memory (the run faults).
\<close>

theorem stop_leaves_dangling:
  assumes "quiet run eff" and "thread_inv t A qs" and "\<not> th_locked t"
    and "\<forall>a \<in> set (queued qs). callable (th_store t) a" and "qs PRIO_TASKS \<noteq> []"
  shows "\<exists>t'. cherry_thread_stop run t = Some t' \<and> cherry_thread_process_prio_task run t' = None"
  by (rule stop_dangling [OF assms])

theorem stop_leaves_dangling_witness:
  "\<exists>t'. cherry_thread_stop log_run thread0 = Some t' \<and> cherry_thread_process_prio_task log_run t' = None"
  by (rule stop_leaves_dangling [OF log_quiet thread0_inv _ thread0_callable]) (simp_all add: qs0_def)

section \<open>The session client\<close>

text \<open>A client with an open context, over a transport that accepts every packet.\<close>

definition ctx0 :: session_context where
  "ctx0 = \<lparr>sc_response_status = 0, sc_sem = 0, sc_cmd_data = Cmd_Unset, sc_session_handle = 0\<rparr>"

definition suci0 :: "mem \<Rightarrow> session_context option \<Rightarrow> unit suci" where
  "suci0 m c = \<lparr>u_mem = m, u_htab = [1 \<mapsto> uci_rsp_session_config_handlers_list, 2 \<mapsto> uci_rsp_session_control_handlers_list],
     u_handlers_head = None, u_generic_handler = None, u_rx = None, u_rx_last = None, u_tx = None, u_tx_last = None,
     u_tr = Some 0, u_rsp_blk = None, u_is_client = True, u_known_gid = 0, u_device_state = 1,
     u_data_msg_info = \<lparr>d_msg_session_handle = 0, d_destination_address = 0, d_sequence_number = 0, d_app_data_len = 0,
       d_app_data_rem_len = 0, d_is_last_packet = False, d_is_last_packet_prev = False\<rparr>,
     u_locked = False,
     u_world = \<lparr>sw_context = c, sw_junk = ctx0, sw_allocs = 0, sw_oom = (\<lambda>_. False), sw_rest = ()\<rparr>\<rparr>"

definition senv0 :: "unit session_env" where
  "senv0 = \<lparr>se_uci = \<lparr>e_allocator = simple_allocator_ops no_destructor, e_handler = (\<lambda>_ u _ _ _. Some (0, u)),
       e_attach = (\<lambda>u _. Some u), e_detach = Some, e_packet_send_ready = Some, e_packet_send_raw = (\<lambda>u _. Some u)\<rparr>,
     se_wait = Some, se_status_cb = (\<lambda>_. Some), se_ranging_cb = (\<lambda>_. Some), se_stack = replicate 13 0,
     se_config_list = 1, se_control_list = 2\<rparr>"

lemma suci0_fields [simp]:
  "u_mem (suci0 m c) = m" "context_of (suci0 m c) = c" "\<not> u_locked (suci0 m c)" "u_tr (suci0 m c) \<noteq> None"
  "\<not> sw_oom (u_world (suci0 m c)) k" "tx_inv (suci0 m c) []" "rsp_inv (suci0 m c) xs"
  by (simp_all add: suci0_def context_of_def tx_inv_def rsp_inv_def)

lemma senv0_fields [simp]:
  "e_allocator (se_uci senv0) = simple_allocator_ops no_destructor" "se_stack senv0 = replicate 13 0"
  "e_packet_send_ready (se_uci senv0) = Some"
  by (simp_all add: senv0_def)

text \<open>
  C16. Setting parameters, from the creation of the command to its sending: while memory suffices, the
  command is created, every one of 1 to 255 valid parameters of fewer than 65531 bytes together is accepted, and sending appends to the transmit queue, behind
  what was queued, the packets of exactly one message: the set-parameters command with the handle of the
  session, the number of parameters and the parameters in order, each as type, length and value. Then
  the transport is woken and the response awaited.
\<close>

theorem set_parameters_sent:
  assumes "e_allocator (se_uci e) = simple_allocator_ops d" and "mem_ample (u_mem u)" and "context_of u \<noteq> None"
    and "\<not> sw_oom (u_world u) (sw_allocs (u_world u))" and "\<forall>(p, xs) \<in> set ps. param_ok p xs"
    and "length ps < 256" and "ps \<noteq> []" and "length (tlvs_of ps) < 65531" and "tx_inv u txs" and "rsp_inv u txs"
    and "\<not> u_locked u" and "u_tr u \<noteq> None"
  shows "\<exists>c u1 c2 u2 u3 as. cherry_uci_client_session_set_app_config_cmd_create e u = Some (Some c, u1) \<and>
    put_params e u1 (Some c) ps = Some (UCI_STATUS_OK, u2, Some c2) \<and>
    cherry_uci_client_session_set_app_config_cmd_send e u2 (Some c2) handle =
      do { u \<leftarrow> packet_send_ready (se_uci e) u3; (ret, u) \<leftarrow> cherry_session_wait_rsp e u;
           r \<leftarrow> rsp_status u ret; Some (r, u) } \<and>
    mem_ample (u_mem u3) \<and> tx_inv u3 (txs @ as) \<and> rsp_inv u3 (txs @ as) \<and> context_of u3 = context_of u \<and>
    wires (heap (u_mem u3)) (txs @ as) = wires (heap (u_mem u)) txs @
      segment (UCI_MT_GID_OID UCI_MESSAGE_TYPE_COMMAND UCI_GID_SESSION_CONFIG UCI_OID_SESSION_SET_APP_CONFIG)
        (cmd_body handle (word_of_nat (length ps)) (tlvs_of ps))"
  by (rule ample.set_params_sent [OF assms])

theorem set_parameters_sent_witness:
  "\<exists>c u1 c2 u2 u3 as. cherry_uci_client_session_set_app_config_cmd_create senv0 (suci0 mem0 (Some ctx0)) = Some (Some c, u1) \<and>
    put_params senv0 u1 (Some c) [(4, [9]), (9, [100, 0, 0, 0])] = Some (UCI_STATUS_OK, u2, Some c2) \<and>
    cherry_uci_client_session_set_app_config_cmd_send senv0 u2 (Some c2) 5 =
      do { u \<leftarrow> packet_send_ready (se_uci senv0) u3; (ret, u) \<leftarrow> cherry_session_wait_rsp senv0 u;
           r \<leftarrow> rsp_status u ret; Some (r, u) } \<and>
    mem_ample (u_mem u3) \<and> tx_inv u3 ([] @ as) \<and> rsp_inv u3 ([] @ as) \<and>
    context_of u3 = context_of (suci0 mem0 (Some ctx0)) \<and>
    wires (heap (u_mem u3)) ([] @ as) = wires (heap (u_mem (suci0 mem0 (Some ctx0)))) [] @
      segment (UCI_MT_GID_OID UCI_MESSAGE_TYPE_COMMAND UCI_GID_SESSION_CONFIG UCI_OID_SESSION_SET_APP_CONFIG)
        (cmd_body 5 (word_of_nat (length [(4 :: 16 word, [9 :: byte]), (9, [100, 0, 0, 0])])) (tlvs_of [(4, [9]), (9, [100, 0, 0, 0])]))"
  by (rule set_parameters_sent [OF senv0_fields(1)]) (use mem0_ok in \<open>simp_all add: param_ok_def tlv_def\<close>)

text \<open>
  C17. Adding one parameter, whatever allocations fail: either it is appended to the command and the count
  in the message is incremented, or \<^verbatim>\<open>UCI_STATUS_FAILED\<close> is returned, the count is unchanged and the
  message is still well formed, so that the command can be sent to its end or aborted. No block outside
  the message changes.
\<close>

theorem put_parameter:
  assumes "e_allocator (se_uci e) = simple_allocator_ops d0" and "mem_ok (u_mem u)"
    and "cmd_rep (u_mem u) c as handle n tlvs" and "sz \<noteq> 0" and "unat sz \<le> length d" and "xs = take (unat sz) d"
    and "param_ok p xs" and "length tlvs + length (tlv p xs) < 65531"
  shows "\<exists>r m' c' as'. cherry_uci_client_session_set_app_config_cmd_put e u (Some c) p (Some d) sz =
      Some (r, u\<lparr>u_mem := m'\<rparr>, Some c') \<and> mem_ok m' \<and> outside (heap (u_mem u)) as (heap m') as' \<and>
    (r = UCI_STATUS_OK \<and> cmd_rep m' c' as' handle (n + 1) (tlvs @ tlv p xs) \<and>
       (no_empty (heap (u_mem u)) as \<longrightarrow> no_empty (heap m') as') \<or>
     r = UCI_STATUS_FAILED \<and> (\<exists>ys. cmd_msg m' c' as' (cmd_body handle n (tlvs @ ys))))"
  by (rule simple.cmd_put_rep [OF assms])

definition mem_cmd :: mem where
  "mem_cmd = mem0\<lparr>heap := [0 \<mapsto> blk1\<lparr>b_data := [0, 0, 0, 0, 5, 0, 0, 0, 0, 0, 0, 0, 0, 0], b_len := 9,
     b_total_len := 5, b_size := 14\<rparr>], brk := 1\<rparr>"

definition cmd0 :: set_app_config_cmd where
  "cmd0 = \<lparr>ac_builder = uci_message_builder_init\<lparr>mb_message := Some 0, mb_current_block := Some 0\<rparr>,
     ac_session_handle = (0, 4), ac_nb_app_config = (0, 8)\<rparr>"

lemma le_bytes_5: "le_bytes 4 (5 :: 32 word) = [5, 0, 0, 0]"
  by code_simp

lemma cmd0_rep: "cmd_rep mem_cmd cmd0 [0] 5 0 []" "mem_ok mem_cmd"
  by (simp_all add: cmd_rep_def cmd_msg_def builder_rep_def message_rep_def mem_cmd_def mem0_def cmd0_def blk1_def
      own_blk_def blk_ok_def allocator_owned_def uci_blk_has_header_def plen_def blk_at_def blk_payload_def
      total_is_def last_ptr_def uci_message_builder_init_def cmd_body_def mem_ok_def le_bytes_5)

theorem put_parameter_witness:
  "\<exists>r m' c' as'. cherry_uci_client_session_set_app_config_cmd_put senv0 (suci0 mem_cmd (Some ctx0)) (Some cmd0) 4 (Some [9]) 1 =
      Some (r, (suci0 mem_cmd (Some ctx0))\<lparr>u_mem := m'\<rparr>, Some c') \<and> mem_ok m' \<and>
    outside (heap (u_mem (suci0 mem_cmd (Some ctx0)))) [0] (heap m') as' \<and>
    (r = UCI_STATUS_OK \<and> cmd_rep m' c' as' 5 (0 + 1) ([] @ tlv 4 [9]) \<and>
       (no_empty (heap (u_mem (suci0 mem_cmd (Some ctx0)))) [0] \<longrightarrow> no_empty (heap m') as') \<or>
     r = UCI_STATUS_FAILED \<and> (\<exists>ys. cmd_msg m' c' as' (cmd_body 5 0 ([] @ ys))))"
  by (rule put_parameter [OF senv0_fields(1), where xs = "[9]"])
    (use cmd0_rep in \<open>simp_all add: param_ok_def tlv_def\<close>)

lemma message_of_bytes:
  assumes "length bs < 256"
  shows "msg_ok [0 \<mapsto> blk1\<lparr>b_data := [0, 0, 0, 0] @ bs, b_len := 4 + length bs, b_total_len := length bs,
    b_size := 4 + length bs\<rparr>] 0 bs"
  using assms by (auto simp: msg_ok_def msg_blks_def blk1_def blks_ok_def blk_ok_def chain_Some_iff blk_at_def
      blk_payload_def uci_blk_has_header_def intro!: exI [of _ "[0]"])

definition mem_msg :: "bytes \<Rightarrow> mem" where
  "mem_msg bs = mem0\<lparr>heap := [0 \<mapsto> blk1\<lparr>b_data := [0, 0, 0, 0] @ bs, b_len := 4 + length bs, b_total_len := length bs,
    b_size := 4 + length bs\<rparr>], brk := 1\<rparr>"

lemma mem_msg_ok: "length bs < 256 \<Longrightarrow> msg_ok (heap (mem_msg bs)) 0 bs"
  using message_of_bytes by (simp add: mem_msg_def)

text \<open>
  C18. The location of an anchor in geographic coordinates survives the round trip: what is packed into the
  parameter is unpacked to the low 33, 33 and 30 bits of latitude, longitude and altitude, whatever was
  in the structure and in the array before.
\<close>

theorem geographic_location_roundtrip:
  assumes "wgs84_fields l = Some (x, y, z)" and "al_type l = CHERRY_FIRA_ANCHOR_LOCATION_TYPE_WGS84"
  shows "\<exists>bs. location_bytes l = Some (Some bs) \<and> length bs = 13 \<and>
    decode_location (bs @ rest) d = d\<lparr>location_presence := True, coordinates_system := 0,
      location_x := take_bit 33 x, location_y := take_bit 33 y, location_z := take_bit 30 z\<rparr>"
  by (rule decode_wgs84 [OF assms])

definition location0 :: dl_tdoa_anchor_location where
  "location0 = \<lparr>location_presence = False, coordinates_system = 9, location_x = 0, location_y = 0, location_z = 0\<rparr>"

theorem geographic_location_roundtrip_witness:
  "\<exists>bs. location_bytes \<lparr>al_type = 1, al_data = replicate 40 7\<rparr> = Some (Some bs) \<and> length bs = 13 \<and>
    decode_location (bs @ []) location0 = location0\<lparr>location_presence := True, coordinates_system := 0,
      location_x := take_bit 33 0x0707070707070707, location_y := take_bit 33 0x0707070707070707,
      location_z := take_bit 30 0x07070707\<rparr>"
  by (rule geographic_location_roundtrip)
    (code_simp, simp)

text \<open>
  C19. Opening the client registers its two tables in front of the registered ones and keeps the invariant of
  the registrations; every identifier of its tables is then dispatched by the core to its handler, with the
  context as user data. The semaphore of the responses is empty.
\<close>

theorem session_open_dispatches:
  assumes inv: "handlers_inv u ps" and at: "tables_at e u" and new: "se_config_list e \<notin> set ps" "se_control_list e \<notin> set ps"
    and mal: "\<not> sw_oom (u_world u) (sw_allocs (u_world u))"
  shows "\<exists>u'. cherry_uci_client_session_open e u = Some (QERR_SUCCESS, u') \<and>
    handlers_inv u' (se_control_list e # se_config_list e # ps) \<and>
    context_of u' = Some ((sw_junk (u_world u))\<lparr>sc_sem := 0\<rparr>) \<and>
    (\<forall>v. handlers_inv v (se_control_list e # se_config_list e # ps) \<and> u_htab v = u_htab u' \<and> u_is_client v \<longrightarrow>
      (\<forall>(mid, f) \<in> set session_ids. handle_full_message (se_uci e) v mid =
         do { (error, v) \<leftarrow> e_handler (se_uci e) f v mid (u_rx v) 1;
              if error \<noteq> 0 \<and> \<not> u_is_client v \<and> is_control_mt (UCI_MT mid)
              then uci_send_status (se_uci e) v mid (word_of_int UCI_STATUS_FAILED) else Some v }))"
proof -
  from open_ok [OF assms] obtain u' where
    u': "cherry_uci_client_session_open e u = Some (QERR_SUCCESS, u')"
    "handlers_inv u' (se_control_list e # se_config_list e # ps)"
    "context_of u' = Some ((sw_junk (u_world u))\<lparr>sc_sem := 0\<rparr>)"
    and ids: "\<forall>(mid, f) \<in> set session_ids.
       map_of (handler_map (u_htab u') (se_control_list e # se_config_list e # ps)) mid = Some (f, 1)" by blast
  have "handle_full_message (se_uci e) v mid =
         do { (error, v) \<leftarrow> e_handler (se_uci e) f v mid (u_rx v) 1;
              if error \<noteq> 0 \<and> \<not> u_is_client v \<and> is_control_mt (UCI_MT mid)
              then uci_send_status (se_uci e) v mid (word_of_int UCI_STATUS_FAILED) else Some v }"
    if v: "handlers_inv v (se_control_list e # se_config_list e # ps)" "u_htab v = u_htab u'" "u_is_client v"
      and m: "(mid, f) \<in> set session_ids" for v mid f
  proof -
    from ids m have l: "map_of (handler_map (u_htab v) (se_control_list e # se_config_list e # ps)) mid = Some (f, 1)"
      unfolding v(2) by blast
    from handle_full_message_lookup [OF v(1) disjI1 [OF v(3)], of "se_uci e" mid] show ?thesis
      unfolding l by simp
  qed
  with u' show ?thesis by blast
qed

lemma suci0_tables: "handlers_inv (suci0 mem0 None) []" "tables_at senv0 (suci0 mem0 None)"
proof -
  have "uci_rsp_session_config_handlers_list\<lparr>mh_next := None, mh_user_data := 0\<rparr> = uci_rsp_session_config_handlers_list"
    "uci_rsp_session_control_handlers_list\<lparr>mh_next := None, mh_user_data := 0\<rparr> = uci_rsp_session_control_handlers_list"
    by (simp_all add: uci_rsp_session_config_handlers_list_def uci_rsp_session_control_handlers_list_def)
  then show "tables_at senv0 (suci0 mem0 None)"
    by (simp add: tables_at_def senv0_def suci0_def) metis
qed (simp add: handlers_inv_def suci0_def)

theorem session_open_dispatches_witness:
  "\<exists>u'. cherry_uci_client_session_open senv0 (suci0 mem0 None) = Some (QERR_SUCCESS, u') \<and>
    handlers_inv u' [se_control_list senv0, se_config_list senv0] \<and>
    context_of u' = Some ((sw_junk (u_world (suci0 mem0 None)))\<lparr>sc_sem := 0\<rparr>) \<and>
    (\<forall>v. handlers_inv v [se_control_list senv0, se_config_list senv0] \<and> u_htab v = u_htab u' \<and> u_is_client v \<longrightarrow>
      (\<forall>(mid, f) \<in> set session_ids. handle_full_message (se_uci senv0) v mid =
         do { (error, v) \<leftarrow> e_handler (se_uci senv0) f v mid (u_rx v) 1;
              if error \<noteq> 0 \<and> \<not> u_is_client v \<and> is_control_mt (UCI_MT mid)
              then uci_send_status (se_uci senv0) v mid (word_of_int UCI_STATUS_FAILED) else Some v }))"
  by (rule session_open_dispatches [OF suci0_tables]) simp_all

text \<open>
  C20. The response to a request for a parameter: when it carries the parameter that was asked for, with a
  value that is not longer than the variable, the handler stores the value as its type says (a byte, a
  16-bit value, a list of addresses, a location or raw bytes; a wrong length is an error and leaves the
  variable), sets the status and wakes the requester.
\<close>

theorem parameter_response:
  assumes "context_of u = Some c" and "sc_cmd_data c = Cmd_Param cp"
    and "msg_ok (heap (u_mem u)) p (s # 1 # t # l # xs)" and "\<not> (0xE0 \<le> t \<and> t \<le> 0xE2)"
    and "ap_param_type cp = ucast t" and "unat l = length xs" and "length xs \<le> ap_maxlen cp"
    and "data_fits (ap_handler cp) (ap_data cp) (ap_maxlen cp)" and "13 \<le> length (se_stack e)"
  shows "uci_rsp_handler_get_app_config e u (Some p) = Some (QERR_SUCCESS, upd_context u
    (\<lambda>c. c\<lparr>sc_response_status := fst (param_value (se_stack e) (ap_handler cp) (ap_data cp) xs),
          sc_cmd_data := Cmd_Param (cp\<lparr>ap_data := snd (param_value (se_stack e) (ap_handler cp) (ap_data cp) xs)\<rparr>),
          sc_sem := 1\<rparr>))"
  by (rule rsp_get_app_config_ok [OF assms])

definition request0 :: app_param where
  "request0 = \<lparr>ap_param_type = 4, ap_maxlen = 1, ap_data = U8 0, ap_handler = Uint8_Handler\<rparr>"

theorem parameter_response_witness:
  "uci_rsp_handler_get_app_config senv0 (suci0 (mem_msg [0, 1, 4, 1, 9]) (Some (ctx0\<lparr>sc_cmd_data := Cmd_Param request0\<rparr>))) (Some 0) =
    Some (QERR_SUCCESS, upd_context (suci0 (mem_msg [0, 1, 4, 1, 9]) (Some (ctx0\<lparr>sc_cmd_data := Cmd_Param request0\<rparr>)))
    (\<lambda>c. c\<lparr>sc_response_status := fst (param_value (se_stack senv0) (ap_handler request0) (ap_data request0) [9]),
          sc_cmd_data := Cmd_Param (request0\<lparr>ap_data := snd (param_value (se_stack senv0) (ap_handler request0) (ap_data request0) [9])\<rparr>),
          sc_sem := 1\<rparr>))"
  by (rule parameter_response [where s = 0 and t = 4 and l = 1 and c = "ctx0\<lparr>sc_cmd_data := Cmd_Param request0\<rparr>"])
    (use mem_msg_ok [of "[0, 1, 4, 1, 9]"] in \<open>simp_all add: request0_def\<close>)

text \<open>
  C21. A request for a parameter leaves a pointer to its local variables behind: a response that arrives after
  it returned (because it timed out, or because the response was repeated) makes the handler use them (the
  run faults).
\<close>

theorem late_parameter_response:
  assumes run: "cherry_uci_client_session_get_app_config e u handle param data maxlen f = Some (r, d, u')"
    and "context_of u \<noteq> None" and "maxlen \<noteq> 0" and msg: "msg_ok (heap (u_mem u')) p (s # 1 # t # l # xs)"
    and t: "\<not> (0xE0 \<le> t \<and> t \<le> 0xE2)"
  shows "uci_rsp_handler_get_app_config e u' (Some p) = None"
  using get_app_config_leaves_dangling [OF run assms(2,3)] rsp_get_app_config_dangling msg t by blast

text \<open>A receiver that stores a late response in memory while the requester waits in vain.\<close>

definition senv1 :: "unit session_env" where
  "senv1 = senv0\<lparr>se_wait := \<lambda>u. Some (u\<lparr>u_mem := mem_msg [0, 1, 4, 1, 9]\<rparr>)\<rparr>"

lemma get_times_out:
  "\<exists>u'. cherry_uci_client_session_get_app_config senv1 (suci0 mem0 (Some ctx0)) 5 4 (U8 0) 1 Uint8_Handler =
     Some (UCI_STATUS_UCI_MESSAGE_RETRY, U8 0, u') \<and> u_mem u' = mem_msg [0, 1, 4, 1, 9]"
proof -
  have e: "e_allocator (se_uci senv1) = simple_allocator_ops no_destructor" by (simp add: senv1_def)
  have "mem_ample (u_mem (suci0 mem0 (Some ctx0)))" using mem0_ok by simp
  from ample.get_app_config_sent [OF e this suci0_fields(2) one_neq_zero suci0_fields(6,7,3,4), of 5 4 "U8 0" Uint8_Handler]
  obtain u' where run: "cherry_uci_client_session_get_app_config senv1 (suci0 mem0 (Some ctx0)) 5 4 (U8 0) 1 Uint8_Handler =
      do { u \<leftarrow> packet_send_ready (se_uci senv1) u'; (ret, u) \<leftarrow> cherry_session_wait_rsp senv1 u;
           r \<leftarrow> rsp_status u ret; c \<leftarrow> context_of u;
           Some (r, (case sc_cmd_data c of Cmd_Param p \<Rightarrow> ap_data p | _ \<Rightarrow> U8 0),
                 upd_context u (\<lambda>c. c\<lparr>sc_cmd_data := Cmd_Dangling\<rparr>)) }"
    "u_tr u' = u_tr (suci0 mem0 (Some ctx0))"
    "context_of u' = Some (ctx0\<lparr>sc_cmd_data := Cmd_Param \<lparr>ap_param_type = 4, ap_maxlen = 1, ap_data = U8 0,
      ap_handler = Uint8_Handler\<rparr>\<rparr>)" by blast
  have "packet_send_ready (se_uci senv1) u' = Some u'"
    using run(2) by (simp add: packet_send_ready_def senv1_def suci0_def)
  moreover have "context_of (u'\<lparr>u_mem := m\<rparr>) = context_of u'" for m by (simp add: context_of_def)
  ultimately show ?thesis
    using run(1,3) by (simp add: cherry_session_wait_rsp_def rsp_status_def senv1_def ctx0_def)
qed

theorem late_parameter_response_witness:
  "\<exists>u'. cherry_uci_client_session_get_app_config senv1 (suci0 mem0 (Some ctx0)) 5 4 (U8 0) 1 Uint8_Handler =
     Some (UCI_STATUS_UCI_MESSAGE_RETRY, U8 0, u') \<and> uci_rsp_handler_get_app_config senv1 u' (Some 0) = None"
proof -
  obtain u' where u': "cherry_uci_client_session_get_app_config senv1 (suci0 mem0 (Some ctx0)) 5 4 (U8 0) 1 Uint8_Handler =
     Some (UCI_STATUS_UCI_MESSAGE_RETRY, U8 0, u')" "u_mem u' = mem_msg [0, 1, 4, 1, 9]" using get_times_out by blast
  have "uci_rsp_handler_get_app_config senv1 u' (Some 0) = None"
    by (rule late_parameter_response [OF u'(1), where s = 0 and t = 4 and l = 1 and xs = "[9]"])
      (use u'(2) mem_msg_ok [of "[0, 1, 4, 1, 9]"] in simp_all)
  with u'(1) show ?thesis by blast
qed

text \<open>
  C22. The semaphore of the responses is not emptied before a command: a response that came after its command
  had given up is taken for the answer to the next command, which returns the old status without
  waiting, whatever the answer to it will be.
\<close>

theorem stale_response_taken:
  assumes "e_allocator (se_uci e) = simple_allocator_ops d" and "mem_ample (u_mem u)" and "context_of u = Some c"
    and "0 < sc_sem c" and "tx_inv u txs" and "rsp_inv u txs" and "\<not> u_locked u" and "u_tr u \<noteq> None"
    and "\<And>v. \<exists>v'. e_packet_send_ready (se_uci e) v = Some v' \<and> context_of v' = context_of v"
  shows "\<exists>u'. cherry_uci_client_session_start_session e u handle = Some (sc_response_status c, u') \<and>
    context_of u' = Some (c\<lparr>sc_sem := sc_sem c - 1\<rparr>)"
proof -
  have "sendable (UCI_MT_GID_OID UCI_MESSAGE_TYPE_COMMAND UCI_GID_SESSION_CONTROL UCI_OID_SESSION_INFO)"
    by (simp add: sendable_def is_control_mt_def UCI_MT_def UCI_MT_GID_OID_def)
  from ample.stale_response [OF assms(1-4) this assms(5-9)] show ?thesis
    by (simp add: cherry_uci_client_session_start_session_def)
qed

theorem stale_response_taken_witness:
  "\<exists>u'. cherry_uci_client_session_start_session senv0 (suci0 mem0 (Some (ctx0\<lparr>sc_response_status := 2, sc_sem := 1\<rparr>))) 5 =
      Some (sc_response_status (ctx0\<lparr>sc_response_status := 2, sc_sem := 1\<rparr>), u') \<and>
    context_of u' = Some (ctx0\<lparr>sc_response_status := 2, sc_sem := 1, sc_sem := sc_sem (ctx0\<lparr>sc_response_status := 2, sc_sem := 1\<rparr>) - 1\<rparr>)"
  by (rule stale_response_taken [OF senv0_fields(1) _ suci0_fields(2) _ suci0_fields(6,7,3,4)])
    (use mem0_ok in simp_all)

section \<open>Ranging measurements\<close>

definition ranging0 :: "byte \<Rightarrow> uci_message_parser \<Rightarrow> session_ranging_data" where
  "ranging0 n q = \<lparr>rd_session_handle = 5, rd_sequence_number = 1, rd_ranging_interval_ms = 200, rd_type = 1,
     rd_n_measurements = n, rd_parser = q\<rparr>"

lemma ranging0_fields [simp]:
  "rd_n_measurements (ranging0 n q) = n" "rd_parser (ranging0 n q) = q" "rd_session_handle (ranging0 n q) = 5"
  "rd_sequence_number (ranging0 n q) = 1" "rd_ranging_interval_ms (ranging0 n q) = 200"
  by (simp_all add: ranging0_def)

lemma message_parser:
  assumes "length bs < 256"
  obtains q where "UCI_MESSAGE_PARSER_INITIALIZER (heap (mem_msg bs)) 0 = Some q" "parser_rep (heap (mem_msg bs)) q bs"
  using parser_init [OF mem_msg_ok [OF assms]] by blast

text \<open>
  C23. Reading the measurements of a two-way ranging notification: each is 31 bytes, its fields are at fixed
  offsets, and the fields that are not sent keep their value. The function returns exactly when the
  measurements fit the array of the caller and the message holds all fields: with more measurements than
  the array has room for it writes behind it, in a message that is too short it fails an assertion.
\<close>

theorem twr_measurements:
  assumes rep: "parser_rep h (rd_parser data) bs" and n: "n = unat (rd_n_measurements data)"
  shows "if n = 0 \<or> (n \<le> length (tr_measurements res) \<and> 31 * n \<le> length bs + 11)
    then \<exists>p. cherry_uci_client_parse_twr_measurements h data res = Some (QERR_SUCCESS,
        \<lparr>tr_session_handle = rd_session_handle data, tr_sequence_number = rd_sequence_number data,
         tr_ranging_interval_ms = rd_ranging_interval_ms data, tr_n_measurements = int n,
         tr_measurements = map (\<lambda>i. twr_at (tr_measurements res ! i) (drop (31 * i) bs)) [0..<n] @
           drop n (tr_measurements res)\<rparr>, p) \<and> parser_rep h p (drop (31 * n) bs)
    else cherry_uci_client_parse_twr_measurements h data res = None"
  by (rule parse_twr [OF assms])

definition twr0 :: twr_ranging_measurements where
  "twr0 = \<lparr>tm_short_addr = 0, tm_status = 0, tm_nlos = 0, tm_slot_index = 0, tm_stopped = False, tm_distance_mm = 0,
     tm_remote_aoa_azimuth = 0, tm_remote_aoa_elevation = 0, tm_remote_aoa_azimuth_fom = 0,
     tm_remote_aoa_elevation_fom = 0,
     tm_local_azimuth = \<lparr>am_rx_antenna_pair = 0, am_aoa_fom = 0, am_aoa = 0\<rparr>,
     tm_local_elevation = \<lparr>am_rx_antenna_pair = 0, am_aoa_fom = 0, am_aoa = 0\<rparr>,
     tm_sp1_data = [], tm_sp1_data_len = 0, tm_rssi = 0\<rparr>"

definition results0 :: twr_ranging_results where
  "results0 = \<lparr>tr_session_handle = 0, tr_sequence_number = 0, tr_ranging_interval_ms = 0, tr_n_measurements = 0,
     tr_measurements = replicate 8 twr0\<rparr>"

theorem twr_measurements_witness:
  "\<exists>q p. UCI_MESSAGE_PARSER_INITIALIZER (heap (mem_msg (replicate 31 7))) 0 = Some q \<and>
    cherry_uci_client_parse_twr_measurements (heap (mem_msg (replicate 31 7))) (ranging0 1 q) results0 = Some (QERR_SUCCESS,
        \<lparr>tr_session_handle = 5, tr_sequence_number = 1, tr_ranging_interval_ms = 200, tr_n_measurements = 1,
         tr_measurements = twr_at twr0 (replicate 31 7) # replicate 7 twr0\<rparr>, p)"
proof -
  have "length (replicate 31 (7 :: byte)) < 256" by simp
  then obtain q where q: "UCI_MESSAGE_PARSER_INITIALIZER (heap (mem_msg (replicate 31 7))) 0 = Some q"
    "parser_rep (heap (mem_msg (replicate 31 7))) (rd_parser (ranging0 1 q)) (replicate 31 7)"
    by (rule message_parser) simp
  have "tr_measurements results0 = replicate 8 twr0" by (simp add: results0_def)
  moreover have "replicate 8 twr0 ! 0 = twr0" "drop 1 (replicate 8 twr0) = replicate 7 twr0" by simp_all
  ultimately show ?thesis
    using twr_measurements [OF q(2) refl, of results0] q(1) by auto
qed

text \<open>
  C24. Reading the measurements of a downlink TDoA notification in the first format: from the bytes of any
  sequence of reports, with timestamps of 40 or 64 bits, without location or with a geographic or relative
  one, and with up to 15 round indexes, the function reads exactly these reports and stops behind them.
\<close>

theorem dltdoa_measurements:
  assumes "parser_rep h (rd_parser data) (concat (map dltdoa_bytes rs) @ rest)" and "\<forall>r \<in> set rs. dltdoa_ok r"
    and "unat (rd_n_measurements data) = length rs" and "length (dr_measurements dest) = length rs"
    and "\<forall>m \<in> set (dr_measurements dest). 40 \<le> length (al_data (dm_location m))" and "19 \<le> length stack"
  shows "\<exists>ms p. cherry_uci_client_parse_dltdoa_measurements stack h data dest =
      Some (QERR_SUCCESS, \<lparr>dr_sequence_number = rd_sequence_number data, dr_n_measurements = int (length rs),
        dr_measurements = ms\<rparr>, p) \<and> parser_rep h p rest \<and> list_all2 reported ms rs"
  by (rule parse_dltdoa [OF assms])

definition report0 :: dltdoa_report where
  "report0 = \<lparr>r_addr = 1, r_status = 0, r_msg_type = 1, r_control = 0xA0, r_block = 2, r_round = 3, r_nlos = 0,
     r_azimuth = 4, r_azimuth_fom = 5, r_elevation = 6, r_elevation_fom = 7, r_rssi = 8, r_tx = 9, r_rx = 10,
     r_anchor_cfo = 11, r_cfo = 12, r_initiator = 13, r_responder = 14, r_tof = 15,
     r_place = Geographic 16 17 18, r_rounds = [19]\<rparr>"

definition tag0 :: dt_tag_measurements where
  "tag0 = \<lparr>dm_short_addr = 0, dm_frame_status = CHERRY_COMMON_FRAME_STATUS_OK, dm_msg_type = 0, dm_n_rr_indexes = 0,
     dm_rr_indexes = replicate 16 0, dm_location = \<lparr>al_type = 0, al_data = replicate 40 0\<rparr>, dm_block_index = 0,
     dm_round_index = 0, dm_aoa_azimuth = \<lparr>ca_aoa_fom = 0, ca_aoa = 0\<rparr>,
     dm_aoa_elevation = \<lparr>ca_aoa_fom = 0, ca_aoa = 0\<rparr>, dm_nlos = 0, dm_rssi = 0, dm_common_time_base = False,
     dm_tx_timestamp = 0, dm_rx_timestamp = 0, dm_cfo = 0, dm_anchor_cfo = 0, dm_initiator_reply_time = 0,
     dm_responder_reply_time = 0, dm_tof = 0\<rparr>"

definition dest0 :: dt_tag_ranging_report where
  "dest0 = \<lparr>dr_sequence_number = 0, dr_n_measurements = 0, dr_measurements = [tag0]\<rparr>"

lemma report0_ok: "dltdoa_ok report0"
  by (simp add: dltdoa_ok_def report0_def)

lemma report0_length: "length (dltdoa_bytes report0) < 256"
  by (simp add: dltdoa_bytes_def report0_def ts_len_def)

theorem dltdoa_measurements_witness:
  "\<exists>q ms p. UCI_MESSAGE_PARSER_INITIALIZER (heap (mem_msg (dltdoa_bytes report0))) 0 = Some q \<and>
    cherry_uci_client_parse_dltdoa_measurements (replicate 19 0) (heap (mem_msg (dltdoa_bytes report0))) (ranging0 1 q) dest0 =
      Some (QERR_SUCCESS, \<lparr>dr_sequence_number = 1, dr_n_measurements = 1, dr_measurements = ms\<rparr>, p) \<and>
    list_all2 reported ms [report0]"
proof -
  obtain q where q: "UCI_MESSAGE_PARSER_INITIALIZER (heap (mem_msg (dltdoa_bytes report0))) 0 = Some q"
    "parser_rep (heap (mem_msg (dltdoa_bytes report0))) (rd_parser (ranging0 1 q)) (concat (map dltdoa_bytes [report0]) @ [])"
    using message_parser [OF report0_length] by (metis append_Nil2 concat.simps list.map(1,2) ranging0_fields(2))
  have "\<forall>m \<in> set (dr_measurements dest0). 40 \<le> length (al_data (dm_location m))" by (simp add: dest0_def tag0_def)
  with dltdoa_measurements [OF q(2), of dest0 "replicate 19 0"] q(1) report0_ok show ?thesis
    by (auto simp: dest0_def)
qed

text \<open>
  C25. The size check of the first format is not sufficient: it asks for 41 bytes per measurement, and a
  message of 41 to 43 bytes that announces a 64-bit timestamp of the transmission passes it and makes the
  function run into an assertion.
\<close>

theorem dltdoa_size_check_insufficient:
  assumes "parser_rep h (rd_parser data) bs" and "rd_n_measurements data = 1" and "length bs < 44"
    and "drop_bit 1 (le_value (take 2 (drop 4 bs)) :: 16 word) AND 0x3 \<noteq> 0" and "41 \<le> length bs"
  shows "cherry_uci_client_parse_dltdoa_measurements stack h data dest = None"
  by (rule parse_dltdoa_short [OF assms])

theorem dltdoa_size_check_insufficient_witness:
  "\<exists>q. UCI_MESSAGE_PARSER_INITIALIZER (heap (mem_msg (replicate 41 2))) 0 = Some q \<and>
    cherry_uci_client_parse_dltdoa_measurements (replicate 19 0) (heap (mem_msg (replicate 41 2))) (ranging0 1 q) dest0 = None"
proof -
  have "length (replicate 41 (2 :: byte)) < 256" by simp
  then obtain q where q: "UCI_MESSAGE_PARSER_INITIALIZER (heap (mem_msg (replicate 41 2))) 0 = Some q"
    "parser_rep (heap (mem_msg (replicate 41 2))) (rd_parser (ranging0 1 q)) (replicate 41 2)"
    by (rule message_parser) simp
  have "drop_bit 1 (le_value (take 2 (drop 4 (replicate 41 (2 :: byte)))) :: 16 word) AND 0x3 \<noteq> 0" by code_simp
  with dltdoa_size_check_insufficient [OF q(2)] q(1) show ?thesis by simp
qed

section \<open>The FiRa client\<close>

text \<open>A client with an open context and an array for a response, over a transport that accepts every packet.\<close>

definition qheap0 :: qheap where
  "qheap0 = \<lparr>allocation_quotas = [- 1, 8192, 4096], q_blocks = (\<lambda>_. None), q_next = 0, q_fails = (\<lambda>_. False)\<rparr>"

definition fctx0 :: fira_context where
  "fctx0 = \<lparr>fc_diag_notification_cb = True, fc_response_status = 0, fc_sem = 0, fc_cmd_data = 7, fc_cmd_data_sz = 0\<rparr>"

definition fuci0 :: "mem \<Rightarrow> unit fuci" where
  "fuci0 m = \<lparr>u_mem = m, u_htab = [1 \<mapsto> fira_rsp_session_config_handlers_list, 2 \<mapsto> uci_rsp_qorvo_handlers_list],
     u_handlers_head = None, u_generic_handler = None, u_rx = None, u_rx_last = None, u_tx = None, u_tx_last = None,
     u_tr = Some 0, u_rsp_blk = None, u_is_client = True, u_known_gid = 0, u_device_state = 1,
     u_data_msg_info = \<lparr>d_msg_session_handle = 0, d_destination_address = 0, d_sequence_number = 0, d_app_data_len = 0,
       d_app_data_rem_len = 0, d_is_last_packet = False, d_is_last_packet_prev = False\<rparr>,
     u_locked = False,
     u_world = \<lparr>fw_context = Some (100, fctx0), fw_junk = fctx0, fw_heap = qheap0, fw_arrays = [7 \<mapsto> replicate 257 9],
       fw_rest = ()\<rparr>\<rparr>"

definition fenv0 :: "unit fira_env" where
  "fenv0 = \<lparr>fe_uci = \<lparr>e_allocator = simple_allocator_ops no_destructor, e_handler = (\<lambda>_ u _ _ _. Some (0, u)),
       e_attach = (\<lambda>u _. Some u), e_detach = Some, e_packet_send_ready = Some, e_packet_send_raw = (\<lambda>u _. Some u)\<rparr>,
     fe_wait = Some, fe_diag_cb = (\<lambda>_. Some), fe_config_list = 1, fe_qorvo_list = 2\<rparr>"

lemma fuci0_fields [simp]:
  "u_mem (fuci0 m) = m" "fira_context_of (fuci0 m) = Some fctx0" "\<not> u_locked (fuci0 m)" "u_tr (fuci0 m) \<noteq> None"
  "tx_inv (fuci0 m) []" "rsp_inv (fuci0 m) xs" "fw_heap (u_world (fuci0 m)) = qheap0"
  "fw_arrays (u_world (fuci0 m)) (fc_cmd_data fctx0) = Some (replicate 257 9)"
  by (simp_all add: fuci0_def fctx0_def fira_context_of_def tx_inv_def rsp_inv_def)

lemma fctx0_fields [simp]: "fc_sem fctx0 = 0" "fc_diag_notification_cb fctx0" "fc_cmd_data fctx0 = 7"
  by (simp_all add: fctx0_def)

lemma fenv0_fields [simp]:
  "e_allocator (fe_uci fenv0) = simple_allocator_ops no_destructor" "e_packet_send_ready (fe_uci fenv0) = Some"
  "fe_wait fenv0 = Some"
  by (simp_all add: fenv0_def)

lemma qheap0_ok: "ample qheap0" "heap_ok qheap0"
  by (simp_all add: qheap0_def ample_def heap_ok_def)

text \<open>
  C26. Configuring the ranging rounds of an anchor: while memory suffices, a configuration whose rounds are all
  valid is queued as one message with the session, the number of rounds and the rounds in order, and the
  command then waits; one with an invalid round is refused, nothing is queued, and every block of the message
  begun is freed.
\<close>

theorem anchor_rounds_update:
  assumes "e_allocator (fe_uci e) = simple_allocator_ops d" and "mem_ample (u_mem u)" and "fira_context_of u = Some c"
    and "n \<noteq> 0" and "unat n < FIRA_DT_ANCHOR_MAX_ACTIVE_RR" and "sized a (unat n)"
    and "tx_inv u txs" and "rsp_inv u txs" and "\<not> u_locked u" and "u_tr u \<noteq> None"
  shows "if \<forall>i < unat n. round_valid a i then
      \<exists>u' as. cherry_uci_client_fira_update_dt_anchor_ranging_rounds e u session_id n (Some a) (Some array) (Some sz) =
          do { u \<leftarrow> packet_send_ready (fe_uci e) u'; (r, sz, u) \<leftarrow> await_rounds e u; Some (r, Some sz, u) } \<and>
        mem_ample (u_mem u') \<and> tx_inv u' (txs @ as) \<and> rsp_inv u' (txs @ as) \<and>
        fira_context_of u' = Some (c\<lparr>fc_cmd_data := array, fc_cmd_data_sz := DL_TDOA_UPDATE_RANGING_ROUND_RSP_MAX_SIZE\<rparr>) \<and>
        wires (heap (u_mem u')) (txs @ as) = wires (heap (u_mem u)) txs @
          segment (UCI_MT_GID_OID UCI_MESSAGE_TYPE_COMMAND UCI_GID_SESSION_CONFIG
              UCI_OID_SESSION_UPDATE_DT_ANCHOR_RANGING_ROUNDS)
            (le_bytes 4 session_id @ [n] @ concat (map (round_bytes a) [0..<unat n]))
    else
      \<exists>m. cherry_uci_client_fira_update_dt_anchor_ranging_rounds e u session_id n (Some a) (Some array) (Some sz) =
          Some (UCI_STATUS_INVALID_PARAM, Some sz, u\<lparr>u_mem := m\<rparr>) \<and> heap m = heap (u_mem u)"
proof (cases "\<forall>i < unat n. round_valid a i")
  case True
  from ample.anchor_rounds_sent [OF assms(1-6) True assms(7-10), of session_id array sz] show ?thesis
    unfolding if_P [OF True] by blast
next
  case False
  then obtain i where "i < unat n" "\<not> round_valid a i" by blast
  from ample.anchor_rounds_refused [OF assms(1-6) this, of session_id array sz] show ?thesis
    unfolding if_not_P [OF False] by blast
qed

text \<open>A responder and an initiator with two responders; only the first of two slots tables is needed.\<close>

definition rounds0 :: anchor_rounds where
  "rounds0 = \<lparr>ar_round_indexes = [3, 5], ar_ranging_role = [0, 1], ar_number_of_responders = Some [0, 2],
     ar_responder_address_list = Some [replicate 8 0, [0x1234, 0x5678, 0, 0, 0, 0, 0, 0]],
     ar_responder_slot_scheduling = Some [0, 1], ar_responder_slots = Some [replicate 8 0, [1, 2, 0, 0, 0, 0, 0, 0]]\<rparr>"

lemma all_less_2: "(\<forall>i < 2. P i) \<longleftrightarrow> P 0 \<and> P (1 :: nat)"
  by (auto simp: numeral_2_eq_2 All_less_Suc)

lemma rounds0_ok: "sized rounds0 (unat (2 :: byte))" "\<forall>i < unat (2 :: byte). round_valid rounds0 i"
proof -
  show "\<forall>i < unat (2 :: byte). round_valid rounds0 i"
    by (simp add: rounds0_def round_valid_def all_less_2)
qed (simp add: rounds0_def sized_def)

theorem anchor_rounds_update_witness:
  "\<exists>u' as. cherry_uci_client_fira_update_dt_anchor_ranging_rounds fenv0 (fuci0 mem0) 5 2 (Some rounds0) (Some 7) (Some 1) =
      do { u \<leftarrow> packet_send_ready (fe_uci fenv0) u'; (r, sz, u) \<leftarrow> await_rounds fenv0 u; Some (r, Some sz, u) } \<and>
    mem_ample (u_mem u') \<and> tx_inv u' ([] @ as) \<and> rsp_inv u' ([] @ as) \<and>
    fira_context_of u' = Some (fctx0\<lparr>fc_cmd_data := 7, fc_cmd_data_sz := DL_TDOA_UPDATE_RANGING_ROUND_RSP_MAX_SIZE\<rparr>) \<and>
    wires (heap (u_mem u')) ([] @ as) = wires (heap (u_mem (fuci0 mem0))) [] @
      segment (UCI_MT_GID_OID UCI_MESSAGE_TYPE_COMMAND UCI_GID_SESSION_CONFIG UCI_OID_SESSION_UPDATE_DT_ANCHOR_RANGING_ROUNDS)
        (le_bytes 4 (5 :: 32 word) @ [2] @ concat (map (round_bytes rounds0) [0..<unat (2 :: byte)]))"
proof -
  have "(2 :: byte) \<noteq> 0" "unat (2 :: byte) < FIRA_DT_ANCHOR_MAX_ACTIVE_RR" "mem_ample (u_mem (fuci0 mem0))"
    using mem0_ok by simp_all
  from anchor_rounds_update [OF fenv0_fields(1) this(3) fuci0_fields(2) this(1,2) rounds0_ok(1) fuci0_fields(5,6,3,4), of 5 7 1]
  show ?thesis unfolding if_P [OF rounds0_ok(2)] .
qed

text \<open>
  C27. The response to an update of the ranging rounds: when it is as long as it says, the rounds are copied to
  the front of the array of the command, within its 257 bytes, with their number as its size and the status of
  the response; else the size is 0 and the status that of a malformed message. The command is woken in both cases.
\<close>

theorem rounds_response_stored:
  assumes "fira_context_of u = Some c" and "fw_arrays (u_world u) (fc_cmd_data c) = Some a"
    and "length a = DL_TDOA_UPDATE_RANGING_ROUND_RSP_MAX_SIZE" and "msg_ok (heap (u_mem u)) p bs"
  shows "uci_rsp_handler_dt_ranging_rounds u (Some p) = Some
    (if length bs < 2 \<or> length bs < 2 + unat (bs ! 1)
     then (QERR_EINVAL, fira_answered u UCI_STATUS_INVALID_MESSAGE_SIZE 0)
     else (QERR_SUCCESS, set_array (fira_answered u (uint (bs ! 0)) (unat (bs ! 1))) (fc_cmd_data c) (rounds_stored bs a)))"
  by (rule rounds_response [OF assms])

theorem rounds_response_stored_witness:
  "uci_rsp_handler_dt_ranging_rounds (fuci0 (mem_msg [0, 2, 11, 12])) (Some 0) = Some
    (QERR_SUCCESS, set_array (fira_answered (fuci0 (mem_msg [0, 2, 11, 12])) 0 2) 7 (11 # 12 # replicate 255 9))"
proof -
  have "rounds_stored [0, 2, 11, 12] (replicate 257 9) = 11 # 12 # replicate 255 9"
    by (simp add: rounds_stored_def Let_def)
  moreover have "msg_ok (heap (u_mem (fuci0 (mem_msg [0, 2, 11, 12])))) 0 [0, 2, 11, 12]"
    using mem_msg_ok [of "[0, 2, 11, 12]"] by simp
  from rounds_response_stored [OF fuci0_fields(2,8) _ this] have
    "uci_rsp_handler_dt_ranging_rounds (fuci0 (mem_msg [0, 2, 11, 12])) (Some 0) = Some
      (QERR_SUCCESS, set_array (fira_answered (fuci0 (mem_msg [0, 2, 11, 12])) 0 2) 7
        (rounds_stored [0, 2, 11, 12] (replicate 257 9)))" by simp
  ultimately show ?thesis by simp
qed

section \<open>Range diagnostics\<close>

text \<open>
  C28. The reports whose bytes a diagnostics notification holds are what the callback is given, with their
  fields in any order and number and unknown fields passed over, when memory does not run out and no list is
  empty.
\<close>

theorem diagnostics_delivered:
  assumes "fira_context_of u = Some c" and "fc_diag_notification_cb c"
    and "msg_ok (heap (u_mem u)) p (diag_bytes handle sequence ds)" and "list_all report_ok ds" and "ds \<noteq> []"
    and "length ds < 256" and "ample (fw_heap (u_world u))"
  shows "\<exists>q d m. uci_rsp_diag_ntf_handler e u (Some p) =
      do { u \<leftarrow> fe_diag_cb e (q, d) (set_fira_heap u m); Some (QERR_SUCCESS, u) } \<and>
    di_session_handle d = handle \<and> di_sequence_number d = sequence \<and> di_nb_reports d = of_nat (length ds) \<and>
    map strip (snd (di_reports d)) = map report_of ds"
  by (rule diag_handler_layout [OF assms])

text \<open>A report with an angle, an unknown field and an impulse response, and a report without fields.\<close>

definition diag0 :: "diag_report list" where
  "diag0 = [\<lparr>dg_msg_id = 1, dg_action = 2, dg_antenna_set = 3, dg_fields =
       [Aoas_Field [\<lparr>am_tdoa = 1, am_pdoa = 2, am_aoa = 3, am_fom = 4, am_type = 5\<rparr>], Other_Field 2 [7], Cfo_Field 8,
        Cirs_Field [\<lparr>im_segment = 1, im_offset = 2, im_n_taps = 1, im_tap_size = 2, im_taps = [6, 7]\<rparr>]]\<rparr>,
     \<lparr>dg_msg_id = 4, dg_action = 0, dg_antenna_set = 0, dg_fields = []\<rparr>]"

lemma diag0_ok: "list_all report_ok diag0" "diag0 \<noteq> []" "length diag0 < 256" "length (diag_bytes 5 1 diag0) < 256"
  by (simp_all add: diag0_def report_ok_def impulse_ok_def diag_bytes_def report_bytes_def field_bytes_def aoa_bytes_def
      impulse_bytes_def)

theorem diagnostics_delivered_witness:
  "\<exists>q d m. uci_rsp_diag_ntf_handler fenv0 (fuci0 (mem_msg (diag_bytes 5 1 diag0))) (Some 0) =
      do { u \<leftarrow> fe_diag_cb fenv0 (q, d) (set_fira_heap (fuci0 (mem_msg (diag_bytes 5 1 diag0))) m); Some (QERR_SUCCESS, u) } \<and>
    di_session_handle d = 5 \<and> di_sequence_number d = 1 \<and> di_nb_reports d = of_nat (length diag0) \<and>
    map strip (snd (di_reports d)) = map report_of diag0"
  by (rule diagnostics_delivered [OF fuci0_fields(2) fctx0_fields(2) _ diag0_ok(1-3)])
    (use mem_msg_ok [OF diag0_ok(4)] qheap0_ok in simp_all)

text \<open>
  C29. The memory of a diagnostics notification, whatever its bytes are and whichever allocations fail: when no
  report has two lists of the same type, an error leaves no block behind, and freeing what the callback is given
  leaves the memory as it was, each block being freed once.
\<close>

theorem diagnostics_memory:
  assumes "fira_context_of u = Some c" and "fc_diag_notification_cb c" and "msg_ok (heap (u_mem u)) p bs"
    and "heap_ok (fw_heap (u_world u))" and "diag_no_repeats bs" and "uci_rsp_diag_ntf_handler e u (Some p) = Some (r, u')"
  shows "(\<exists>m. r \<noteq> QERR_SUCCESS \<and> u' = set_fira_heap u m \<and> blocks m = blocks (fw_heap (u_world u))) \<or>
    (\<exists>d m m'. r = QERR_SUCCESS \<and> fe_diag_cb e d (set_fira_heap u m) = Some u' \<and>
      cherry_uci_client_fira_free_diag m (Some d) = Some m' \<and> blocks m' = blocks (fw_heap (u_world u)))"
  by (rule diag_handler_kept [OF assms])

text \<open>The same notification: its handler returns, as was shown, and it has no two lists of the same type.\<close>

lemma diag0_no_repeats: "diag_no_repeats (diag_bytes 5 1 diag0)"
  by code_simp

theorem diagnostics_memory_witness:
  "\<exists>r u'. uci_rsp_diag_ntf_handler fenv0 (fuci0 (mem_msg (diag_bytes 5 1 diag0))) (Some 0) = Some (r, u') \<and>
    ((\<exists>m. r \<noteq> QERR_SUCCESS \<and> u' = set_fira_heap (fuci0 (mem_msg (diag_bytes 5 1 diag0))) m \<and> blocks m = blocks qheap0) \<or>
     (\<exists>d m m'. r = QERR_SUCCESS \<and> fe_diag_cb fenv0 d (set_fira_heap (fuci0 (mem_msg (diag_bytes 5 1 diag0))) m) = Some u' \<and>
       cherry_uci_client_fira_free_diag m (Some d) = Some m' \<and> blocks m' = blocks qheap0))"
proof -
  let ?u = "fuci0 (mem_msg (diag_bytes 5 1 diag0))"
  have msg: "msg_ok (heap (u_mem ?u)) 0 (diag_bytes 5 1 diag0)" using mem_msg_ok [OF diag0_ok(4)] by simp
  have ample: "ample (fw_heap (u_world ?u))" "heap_ok (fw_heap (u_world ?u))" using qheap0_ok by simp_all
  from diag_handler_layout [OF fuci0_fields(2) fctx0_fields(2) msg diag0_ok(1-3) ample(1), of fenv0]
  obtain r u' where run: "uci_rsp_diag_ntf_handler fenv0 ?u (Some 0) = Some (r, u')" by (auto simp: fenv0_def)
  from diagnostics_memory [OF fuci0_fields(2) fctx0_fields(2) msg ample(2) diag0_no_repeats run] run show ?thesis
    unfolding fuci0_fields(7) by blast
qed

text \<open>
  C30. The accounts of the allocator: after any sequence of allocations and releases of blocks shorter than 65536
  bytes, what is left of a limited quota and what the living blocks of this quota hold add up to its limit.
\<close>

theorem quotas_conserved:
  assumes "quotas_ok L m" and "run_qops m ops = Some m'" and "\<forall>x \<in> set ops. qop_size x < 65536"
    and "0 < qid" and "qid < MEM_QUOTA_ID_MAX"
  shows "unat (allocation_quotas m' ! qid) + held m' qid = L qid"
  using run_qops_ok [OF assms(1-3)] assms(4,5) by (simp add: quotas_ok_def)

definition limits0 :: "nat \<Rightarrow> nat" where
  "limits0 qid = (if qid = 1 then 8192 else 4096)"

lemma quotas0_ok: "quotas_ok limits0 qheap0"
proof -
  have "qid = 1 \<or> qid = 2" if "0 < qid" "qid < 3" for qid :: nat using that by auto
  then show ?thesis by (auto simp: quotas_ok_def heap_ok_def qheap0_def limits0_def held_def)
qed

theorem quotas_conserved_witness:
  "\<exists>m'. run_qops qheap0 [Q_Malloc_Quota 100 1, Q_Malloc_Quota 50 2, Q_Free (Some 0), Q_Malloc_Quota 7 1] = Some m' \<and>
    unat (allocation_quotas m' ! 1) + held m' 1 = limits0 1"
proof -
  let ?ops = "[Q_Malloc_Quota 100 1, Q_Malloc_Quota 50 2, Q_Free (Some 0), Q_Malloc_Quota 7 1]"
  have "\<exists>m'. run_qops qheap0 ?ops = Some m'"
    by (simp add: qheap0_def qmalloc_quota_def qmalloc_internal_def qfree_def charge_def set_prefix_def)
  then obtain m' where run: "run_qops qheap0 ?ops = Some m'" by blast
  from quotas_conserved [OF quotas0_ok run, of 1] run show ?thesis by simp
qed

section \<open>Calibration\<close>

text \<open>
  A state with an open client whose request waits for keys in the object at 50, and an environment that
  accepts every packet.
\<close>

definition kctx0 :: calib_context where
  "kctx0 = \<lparr>kc_cmd_data = 3, kc_response_status = 9, kc_sem = 0\<rparr>"

definition kheap0 :: qheap where
  "kheap0 = \<lparr>allocation_quotas = [4294967295, 8192, 4096],
     q_blocks = [50 \<mapsto> \<lparr>qp_quota_id = 0, qp_size = 40\<rparr>, 90 \<mapsto> \<lparr>qp_quota_id = 0, qp_size = 32\<rparr>],
     q_next = 100, q_fails = (\<lambda>_. False)\<rparr>"

definition kworld0 :: "cherry_state calib_world" where
  "kworld0 = \<lparr>kw_context = Some (90, kctx0), kw_junk = kctx0, kw_heap = kheap0,
     kw_cbs = [3 \<mapsto> \<lparr>cb_user_data = Some 50, cb_alloc = 0, cb_key_notif = 1\<rparr>],
     kw_data = [10 \<mapsto> [0x61, 0], 11 \<mapsto> [0x62, 0x63, 0], 12 \<mapsto> [1, 2, 3, 4, 5]],
     kw_rest = \<lparr>cs_calib = None, cs_transport = True, cs_muts = [50 \<mapsto> CHERRY_CALIB_DYN_INIT_STATIC],
       cs_garbage = (\<lambda>_. 0xAA),
       cs_junk_key = (\<lambda>_. \<lparr>ck_name = None, ck_type = 7, ck_size = 9, ck_nb_array_items = 9, ck_number = 9, ck_data = None\<rparr>)\<rparr>\<rparr>"

definition kuci0 :: "mem \<Rightarrow> cuci" where
  "kuci0 m = \<lparr>u_mem = m, u_htab = [7 \<mapsto> calib_rsp_handlers_list], u_handlers_head = None, u_generic_handler = None,
     u_rx = None, u_rx_last = None, u_tx = None, u_tx_last = None, u_tr = Some 0, u_rsp_blk = None, u_is_client = True,
     u_known_gid = 0, u_device_state = 1,
     u_data_msg_info = \<lparr>d_msg_session_handle = 0, d_destination_address = 0, d_sequence_number = 0, d_app_data_len = 0,
       d_app_data_rem_len = 0, d_is_last_packet = False, d_is_last_packet_prev = False\<rparr>,
     u_locked = False, u_world = kworld0\<rparr>"

definition kenv0 :: cherry_env where
  "kenv0 = \<lparr>ce_calib = \<lparr>ke_uci = \<lparr>e_allocator = simple_allocator_ops no_destructor, e_handler = (\<lambda>_ u _ _ _. Some (0, u)),
       e_attach = (\<lambda>u _. Some u), e_detach = Some, e_packet_send_ready = Some, e_packet_send_raw = (\<lambda>u _. Some u)\<rparr>,
     ke_wait = Some, ke_alloc = calib_alloc_callback, ke_key_notif = calib_notif_callback, ke_list = 7\<rparr>,
     ce_core_cb = (\<lambda>_. Some), ce_local_cb = 3\<rparr>"

lemma kuci0_fields [simp]:
  "u_mem (kuci0 m) = m" "calib_context_of (kuci0 m) = Some kctx0" "\<not> u_locked (kuci0 m)" "u_tr (kuci0 m) \<noteq> None"
  "tx_inv (kuci0 m) []" "rsp_inv (kuci0 m) xs" "calib_heap (kuci0 m) = kheap0" "kc_cmd_data kctx0 = 3"
  by (simp_all add: kuci0_def kctx0_def kworld0_def calib_context_of_def tx_inv_def rsp_inv_def calib_heap_def)

lemma kenv0_fields [simp]:
  "e_allocator (ke_uci (ce_calib kenv0)) = simple_allocator_ops no_destructor" "ke_list (ce_calib kenv0) = 7"
  by (simp_all add: kenv0_def)

lemma kheap0_ok: "heap_ok kheap0" "\<not> q_fails kheap0 i" "room kheap0 102000000" "blocks kheap0 = {#90#} + {#50#}"
  by (simp_all add: kheap0_def heap_ok_def room_def blocks_def)

lemma kuci0_ok: "calib_callbacks (ce_calib kenv0) 3 (kuci0 m) 50" "collects (kuci0 m) 50 {#90#} 102000000 []"
proof -
  have "mut_owns (kuci0 m) 50 CHERRY_CALIB_DYN_INIT_STATIC {#90#}"
    using kheap0_ok by (simp add: mut_owns_def get_mut_def CHERRY_CALIB_DYN_INIT_STATIC_def) (simp add: kuci0_def kworld0_def CHERRY_CALIB_DYN_INIT_STATIC_def)
  then show "collects (kuci0 m) 50 {#90#} 102000000 []"
    using kheap0_ok by (auto simp: collects_def array_ok_def CHERRY_CALIB_DYN_INIT_STATIC_def)
qed (simp add: calib_callbacks_def kenv0_def kuci0_def kworld0_def)

text \<open>
  C31. Setting calibration: when memory suffices, there are fewer than 65536 keys, every key is valid, has a name shorter than 256 bytes and a value
  of 1 to 255 bytes, and the entries together take fewer than 65534 bytes, the client is opened, its
  table registered, and exactly one message is queued, which holds the number of keys and, in order, each name
  and value with their lengths; numbers are in little-endian order, arrays of numbers and data are as they are.
  Then the library waits for the response, frees the command, closes the client and returns its status.
\<close>

theorem calibration_sent:
  assumes "e_allocator (ke_uci (ce_calib e)) = simple_allocator_ops d" and "mem_ample (u_mem u)" and "calib_ready e u calib"
    and "calib_table_at (ce_calib e) u" and "handlers_inv u ps" and "ke_list (ce_calib e) \<notin> set ps"
    and "tx_inv u txs" and "rsp_inv u txs" and "\<not> u_locked u" and "u_tr u \<noteq> None"
    and "length (keys_bytes (calib_entries u calib)) < 65534" and "unat (cl_n_keys calib) < 65536"
  shows "\<exists>u' as arr. cherry_send_calib e u calib = do {
      u1 \<leftarrow> packet_send_ready (ke_uci (ce_calib e)) u'; await_calib e u1 (Suc (q_next (calib_heap u))) arr } \<and>
    mem_ample (u_mem u') \<and> tx_inv u' (txs @ as) \<and> rsp_inv u' (txs @ as) \<and> handlers_inv u' (ke_list (ce_calib e) # ps) \<and>
    wires (heap (u_mem u')) (txs @ as) = wires (heap (u_mem u)) txs @
      segment (UCI_MT_GID_OID UCI_MESSAGE_TYPE_COMMAND UCI_GID_QORVO_MAC UCI_OID_QORVO_MAC_SET_CALIBRATIONS)
        (keys_body (ucast (cl_n_keys calib)) (keys_bytes (calib_entries u calib)))"
  by (rule ample.calib_sent [OF assms])

text \<open>A number of two bytes and an array of two numbers of two bytes.\<close>

definition calib0 :: cherry_calib where
  "calib0 = \<lparr>cl_n_keys = 2, cl_keys =
     [\<lparr>ck_name = Some 10, ck_type = CHERRY_CALIB_VALUE_NUMBER, ck_size = 2, ck_nb_array_items = 0, ck_number = 0x1234, ck_data = None\<rparr>,
      \<lparr>ck_name = Some 11, ck_type = CHERRY_CALIB_VALUE_NUMBER_ARRAY, ck_size = 4, ck_nb_array_items = 2, ck_number = 0, ck_data = Some 12\<rparr>]\<rparr>"

lemma calib0_ready: "calib_ready kenv0 (kuci0 m) calib0"
proof -
  have keys: "key_ready (kuci0 m) 100 (cl_keys calib0 ! 0)" "key_ready (kuci0 m) 100 (cl_keys calib0 ! 1)"
    by (simp_all add: calib0_def key_ready_def key_valid_def kuci0_def kworld0_def name_at_def
        cherry_calib_key_check_number_size_def)
  have "room kheap0 351" by (rule room_mono [OF kheap0_ok(3)]) simp
  moreover have "unat (cl_n_keys calib0) = 2" "length (cl_keys calib0) = 2" "cl_n_keys calib0 \<noteq> 0" by (simp_all add: calib0_def)
  moreover have "cs_transport (kw_rest (u_world (kuci0 m)))" by (simp add: kuci0_def kworld0_def)
  moreover have "q_next kheap0 = 100" by (simp add: kheap0_def)
  ultimately show ?thesis using keys kheap0_ok by (simp add: calib_ready_def all_less_2)
qed

lemma calib0_entries: "calib_entries (kuci0 m) calib0 = [([0x61], [0x34, 0x12]), ([0x62, 0x63], [1, 2, 3, 4])]"
proof -
  have "[0..<2] = [0, 1 :: nat]" by (simp add: upt_rec)
  moreover have "le_bytes 2 (0x1234 :: 32 word) = [0x34, 0x12]" by code_simp
  ultimately show ?thesis
    by (simp add: calib_entries_def calib_entry_def key_name_def key_value_def mem_at_def calib0_def kuci0_def kworld0_def)
qed

theorem calibration_sent_witness:
  "\<exists>u' as arr. cherry_send_calib kenv0 (kuci0 mem0) calib0 = do {
      u1 \<leftarrow> packet_send_ready (ke_uci (ce_calib kenv0)) u'; await_calib kenv0 u1 101 arr } \<and>
    mem_ample (u_mem u') \<and> tx_inv u' as \<and> rsp_inv u' as \<and> handlers_inv u' [7] \<and>
    wires (heap (u_mem u')) as =
      segment (UCI_MT_GID_OID UCI_MESSAGE_TYPE_COMMAND UCI_GID_QORVO_MAC UCI_OID_QORVO_MAC_SET_CALIBRATIONS)
        ([2, 0] @ [1, 0x61, 2, 0x34, 0x12] @ [2, 0x62, 0x63, 4, 1, 2, 3, 4])"
proof -
  have "calib_rsp_handlers_list\<lparr>mh_next := None, mh_user_data := 0\<rparr> = calib_rsp_handlers_list"
    by (simp add: calib_rsp_handlers_list_def)
  then have "calib_table_at (ce_calib kenv0) (kuci0 mem0)" by (simp add: calib_table_at_def kuci0_def) metis
  moreover have "handlers_inv (kuci0 mem0) []" by (simp add: handlers_inv_def kuci0_def)
  moreover have "le_bytes 2 (2 :: 16 word) = [2, 0]" by code_simp
  then have "keys_body (ucast (cl_n_keys calib0)) (keys_bytes (calib_entries (kuci0 mem0) calib0)) =
      [2, 0] @ [1, 0x61, 2, 0x34, 0x12] @ [2, 0x62, 0x63, 4, 1, 2, 3, 4]"
    by (simp add: calib0_entries keys_body_def entry_bytes_def) (simp add: calib0_def)
  moreover have "Suc (q_next (calib_heap (kuci0 mem0))) = 101" by (simp add: kheap0_def)
  ultimately show ?thesis
    using calibration_sent [of kenv0 no_destructor "kuci0 mem0" calib0 "[]" "[]"] mem0_ok(2) calib0_ready [of mem0]
    by (simp add: calib0_entries wires_def) (simp add: calib0_def)
qed

text \<open>
  C32. The response to a request for keys, for any bytes and any allocations that fail: while it has at most 2000
  keys and no name of 255 bytes, its handler returns, answers the request, and the object of the request owns
  every block allocated for it. The status is OK only for a response that decodes to keys without error, and then
  the object holds these keys with their names and values; else it is the status of the first error in
  the response, unless memory gave out.
\<close>

theorem calibration_response:
  assumes "calib_callbacks e cb u p" and "calib_context_of u = Some c" and "kc_cmd_data c = cb"
    and "collects u p B 102000000 []" and "msg_ok (heap (u_mem u)) m bs" and "response_bounded bs"
  shows "\<exists>u'. cherry_uci_client_calib_get_key_handler e u (Some m) = Some (QERR_SUCCESS, u') \<and> response_done u p B bs u'"
  by (rule get_key_handler_done [OF assms])

text \<open>A response that ends in the name of its only key.\<close>

theorem calibration_response_witness:
  "\<exists>u'. cherry_uci_client_calib_get_key_handler (ce_calib kenv0) (kuci0 (mem_msg [0, 1, 0, 5, 0x61])) (Some 0) =
      Some (QERR_SUCCESS, u') \<and> response_done (kuci0 (mem_msg [0, 1, 0, 5, 0x61])) 50 {#90#} [0, 1, 0, 5, 0x61] u'"
proof -
  have "response_bounded [0, 1, 0, 5, 0x61]" by code_simp
  with calibration_response [OF kuci0_ok(1) kuci0_fields(2,8) kuci0_ok(2)] mem_msg_ok [of "[0, 1, 0, 5, 0x61]"]
  show ?thesis by simp
qed

text \<open>
  C33. Keys come back as they were encoded: for a response with the names and values of keys, at most 2000 keys with names of 1 to
  254 and values of 1 to 255 bytes, and while no allocation fails, the handler sets the status OK, wakes the request, and the array of the object
  has one element for each key, in order, whose buffers hold its name as a string and its value.
\<close>

theorem calibration_keys_received:
  assumes "calib_callbacks e cb u p" and "calib_context_of u = Some c" and "kc_cmd_data c = cb"
    and "collects u p B 102000000 []" and "\<And>i. \<not> q_fails (calib_heap u) i"
    and "list_all key_ok ks" and "length ks \<le> 2000" and "msg_ok (heap (u_mem u)) m (enc_response ks)"
  shows "\<exists>u' c' ys. cherry_uci_client_calib_get_key_handler e u (Some m) = Some (QERR_SUCCESS, u') \<and>
    calib_context_of u' = Some c' \<and> kc_response_status c' = of_int UCI_STATUS_OK \<and> kc_sem c' = 1 \<and>
    collects u' p B 0 ys \<and> list_all2 (holds u') ys (map entry_of ks)"
proof -
  from dec_enc_response [OF assms(6,7)] have dec: "dec_response (enc_response ks) = (0, map entry_of ks)"
    and ok: "response_bounded (enc_response ks)" .
  from get_key_handler_done [OF assms(1-4,8) ok] obtain u' where
    u': "cherry_uci_client_calib_get_key_handler e u (Some m) = Some (QERR_SUCCESS, u')"
      "response_done u p B (enc_response ks) u'" by blast
  with dec assms(5) show ?thesis by (auto simp: response_done_def failing_def split: if_splits)
qed

theorem calibration_keys_received_witness:
  "\<exists>u' c' ys. cherry_uci_client_calib_get_key_handler (ce_calib kenv0) (kuci0 (mem_msg (enc_response [([0x61], [1, 2, 3])]))) (Some 0) =
      Some (QERR_SUCCESS, u') \<and>
    calib_context_of u' = Some c' \<and> kc_response_status c' = of_int UCI_STATUS_OK \<and> kc_sem c' = 1 \<and>
    collects u' 50 {#90#} 0 ys \<and> list_all2 (holds u') ys [entry_of ([0x61], [1, 2, 3])]"
proof -
  have "list_all key_ok [([0x61], [1, 2, 3])]" by (simp add: key_ok_def)
  moreover have "length (enc_response [([0x61], [1, 2, 3])]) < 256" by (simp add: enc_response_def enc_key_def)
  ultimately show ?thesis
    using calibration_keys_received [OF kuci0_ok(1) kuci0_fields(2,8) kuci0_ok(2), of _ "[([0x61], [1, 2, 3])]" 0]
      mem_msg_ok [of "enc_response [([0x61], [1, 2, 3])]"] kheap0_ok(2)
    by simp
qed

text \<open>
  C34. No memory is lost or freed twice: for the bytes of any response that has at most 2000 keys and no name of
  255 bytes, and whichever allocations fail, destroying the object after the handler frees every block that was allocated for it, with the object itself, and
  nothing else.
\<close>

theorem calibration_memory:
  assumes "calib_callbacks e cb u p" and "calib_context_of u = Some c" and "kc_cmd_data c = cb"
    and "collects u p B 102000000 []" and "msg_ok (heap (u_mem u)) m bs" and "response_bounded bs"
  shows "\<exists>u' u''. cherry_uci_client_calib_get_key_handler e u (Some m) = Some (QERR_SUCCESS, u') \<and>
    cherry_calib_destroy u' (Some p) = Some u'' \<and> heap_ok (calib_heap u'') \<and> blocks (calib_heap u'') = B"
proof -
  from get_key_handler_done [OF assms] obtain u' x where
    "cherry_uci_client_calib_get_key_handler e u (Some m) = Some (QERR_SUCCESS, u')" "mut_owns u' p x B"
    by (auto simp: response_done_def)
  with calib_destroyed show ?thesis by blast
qed

theorem calibration_memory_witness:
  "\<exists>u' u''. cherry_uci_client_calib_get_key_handler (ce_calib kenv0) (kuci0 (mem_msg [0, 2, 0, 1, 0x61, 0, 1, 5, 9])) (Some 0) =
      Some (QERR_SUCCESS, u') \<and>
    cherry_calib_destroy u' (Some 50) = Some u'' \<and> heap_ok (calib_heap u'') \<and> blocks (calib_heap u'') = {#90#}"
proof -
  have "response_bounded [0, 2, 0, 1, 0x61, 0, 1, 5, 9]" by code_simp
  with calibration_memory [OF kuci0_ok(1) kuci0_fields(2,8) kuci0_ok(2)]
    mem_msg_ok [of "[0, 2, 0, 1, 0x61, 0, 1, 5, 9]"]
  show ?thesis by simp
qed

text \<open>
  C35. The object that collects keys stays well formed: after the notification of a key its array has that key
  behind the others, at most 64 free elements and the size of its block, and what it allocated is still its own;
  or memory gave out, and it still owns every block.
\<close>

theorem calib_mut_well_formed:
  assumes "collects u p B (k + 50000) ks" and "length ks < 2000" and "allocated u p a" and "allocated u p d"
  shows "\<exists>ok u'. cherry_calib_key_notif_cb (Some p) a d n u = Some (ok, u') \<and> calib_frame u u' \<and>
    kw_data (u_world u') = kw_data (u_world u) \<and> (\<forall>a. allocated u p a \<longrightarrow> allocated u' p a) \<and>
    (if ok then collects u' p B k (ks @ [(a, d, n)])
     else (\<exists>x. mut_owns u' p x B) \<and> q_fails (calib_heap u) (q_next (calib_heap u)))"
  by (rule notif_collects [OF assms])

lemma kuci1_ok: "\<exists>u a d. cherry_calib_mut_alloc (kuci0 m) 50 3 = Some (Some a, u) \<and> collects u 50 {#90#} 50000 [] \<and> allocated u 50 a"
proof -
  have "collects (kuci0 m) 50 {#90#} (50000 + (3 + sizeof_allocation)) []"
    using kuci0_ok(2) by (rule collects_mono) simp
  from alloc_collects [OF this] kheap0_ok(2) show ?thesis by (fastforce split: option.splits)
qed

theorem calib_mut_well_formed_witness:
  "\<exists>u a ok u'. cherry_calib_mut_alloc (kuci0 mem0) 50 3 = Some (Some a, u) \<and>
    cherry_calib_key_notif_cb (Some 50) a a 2 u = Some (ok, u') \<and>
    (if ok then collects u' 50 {#90#} 0 [(a, a, 2)] else q_fails (calib_heap u) (q_next (calib_heap u)))"
proof -
  from kuci1_ok [of mem0] obtain u a where
    1: "cherry_calib_mut_alloc (kuci0 mem0) 50 3 = Some (Some a, u)" "collects u 50 {#90#} (0 + 50000) []" "allocated u 50 a"
    by auto
  from calib_mut_well_formed [OF 1(2) _ 1(3,3), of 2] 1(1) show ?thesis by (auto split: if_splits)
qed

section \<open>Configuration\<close>

text \<open>A model with a number, an enumeration, a bit field and an array, and a configuration.\<close>

definition mode_def :: uwbs_config_model_def where
  "mode_def = Model_Def (Model_Node (Some ''mode'') Type_String Utype_Null) VECTOR_INIT_STATIC
     (Vector [(Some ''off'', 0), (Some ''on'', 1)] 8) VECTOR_INIT_STATIC VECTOR_INIT_STATIC"

definition flag :: "string \<Rightarrow> int \<Rightarrow> uwbs_config_model_property" where
  "flag s m = Model_Property (Model_Node (Some s) Type_Integer Utype_Null) None 0 m None 0 0"

definition flags_def :: uwbs_config_model_def where
  "flags_def = Model_Def (Model_Node (Some ''flags'') Type_Object Utype_Bitfield) VECTOR_INIT_STATIC VECTOR_INIT_STATIC
     (Vector [flag ''a'' 1, flag ''b'' 7] 8) (Vector [Some ''a'', Some ''b''] 8)"

definition item0 :: uwbs_config_model_property where
  "item0 = Model_Property (Model_Node None Type_Integer Utype_Uint16) None 0 1000 None 0 0"

definition level_prop :: uwbs_config_model_property where
  "level_prop = Model_Property (Model_Node (Some ''level'') Type_Integer Utype_Uint8) None 0 200 None 0 0"

definition mode_prop :: uwbs_config_model_property where
  "mode_prop = Model_Property (Model_Node (Some ''mode'') Type_Null Utype_Null) (Some ''#/$defs/mode'') 0 0 None 0 0"

definition flags_prop :: uwbs_config_model_property where
  "flags_prop = Model_Property (Model_Node (Some ''flags'') Type_Null Utype_Null) (Some ''#/$defs/flags'') 0 0 None 0 0"

definition list_prop :: uwbs_config_model_property where
  "list_prop = Model_Property (Model_Node (Some ''list'') Type_Array Utype_Null) None 0 0 (Some item0) 2 0"

definition model0 :: uwbs_config_model_def where
  "model0 = Model_Def (Model_Node None Type_Object Utype_Null) (Vector [mode_def, flags_def] 8) VECTOR_INIT_STATIC
     (Vector [level_prop, mode_prop, flags_prop, list_prop] 8) VECTOR_INIT_STATIC"

definition config0 :: "(string \<times> config) list" where
  "config0 = [(''level'', Cfg_Scalar ''7''), (''mode'', Cfg_Scalar ''on''),
     (''flags'', Cfg_Map [(''b'', Cfg_Scalar ''5''), (''a'', Cfg_Scalar ''0x1'')]),
     (''list'', Cfg_Seq [Cfg_Scalar ''1'', Cfg_Scalar ''513''])]"

definition calls0 :: "key_call list" where
  "calls0 = [Key_Call ''level'' Vtype_Number Ntype_Uint8 [7], Key_Call ''mode'' Vtype_Number Ntype_Uint8 [1],
     Key_Call ''flags'' Vtype_Number Ntype_Uint8 [11], Key_Call ''list'' Vtype_Array_Number Ntype_Uint16 [1, 0, 1, 2]]"

lemma model0_props:
  "uwbs_config_model_def_find_property model0 ''level'' = Some (Some level_prop)"
  "uwbs_config_model_def_find_property model0 ''mode'' = Some (Some mode_prop)"
  "uwbs_config_model_def_find_property model0 ''flags'' = Some (Some flags_prop)"
  "uwbs_config_model_def_find_property model0 ''list'' = Some (Some list_prop)"
  by (simp_all add: model0_def level_prop_def mode_prop_def flags_prop_def list_prop_def
      uwbs_config_model_def_find_property_def)

lemma model0_defs:
  "uwbs_config_model_find_def model0 (Some ''#/$defs/mode'') = Some (Some mode_def)"
  "uwbs_config_model_find_def model0 (Some ''#/$defs/flags'') = Some (Some flags_def)"
  "uwbs_config_model_find_def model0 None = Some None"
  by (simp_all add: model0_def mode_def_def flags_def_def uwbs_config_model_find_def_def find_def_path.simps)

lemma flags0: "bitfield_data flags_def [(''b'', Cfg_Scalar ''5''), (''a'', Cfg_Scalar ''0x1'')] = Some (Ntype_Uint8, [11])"
  by code_simp

lemma number0: "number_bytes item0 ''1'' = Some (Ntype_Uint16, [1, 0])" "number_bytes item0 ''513'' = Some (Ntype_Uint16, [1, 2])"
  "number_bytes level_prop ''7'' = Some (Ntype_Uint8, [7])"
  by code_simp+

lemma mode0: "enum_value mode_def ''on'' = Some 1"
  by code_simp

lemma list0: "array_data list_prop [Cfg_Scalar ''1'', Cfg_Scalar ''513''] = Some (Ntype_Uint16, [1, 0, 1, 2])"
proof -
  have "pr_items list_prop = Some item0" "mn_type (pr_node item0) = Type_Integer" "items_size item0 = Some 2"
    "leaf_ntype item0 = Some Ntype_Uint16" "item_ok item0" "mn_name (pr_node item0) = None" "pr_max_items list_prop = 2"
    by (simp_all add: list_prop_def item0_def number_format_def uwbs_config_model_underlying_type_size_def)
  then show ?thesis by (simp add: array_data_def number0 size_modulus_def)
qed

lemma props0 [simp]:
  "pr_ref level_prop = None" "mn_type (pr_node level_prop) = Type_Integer"
  "pr_ref mode_prop = Some ''#/$defs/mode''" "mn_type (pr_node mode_prop) = Type_Null"
  "pr_ref flags_prop = Some ''#/$defs/flags''" "mn_type (pr_node flags_prop) = Type_Null"
  "pr_ref list_prop = None" "mn_type (pr_node list_prop) = Type_Array"
  "mn_type (df_node mode_def) = Type_String" "mn_type (df_node flags_def) = Type_Object"
  "mn_underlying_type (df_node flags_def) = Utype_Bitfield" "mn_type (df_node model0) = Type_Object"
  by (simp_all add: level_prop_def mode_prop_def flags_prop_def list_prop_def mode_def_def flags_def_def model0_def)

lemma calls0_ok: "object_calls model0 [] model0 config0 = Some calls0"
  by (simp add: config0_def model0_props model0_defs scalar_calls_def uwbs_config_model_get_node_def mode0 number0 list0 flags0
      number_call_def calls0_def)

text \<open>A model as it is written in a file, and what it loads to.\<close>

definition schema1 :: "yaml_event list" where
  "schema1 = [Stream_Start, Document_Start, Mapping_Start, Scalar ''type'', Scalar ''object'',
     Scalar ''properties'', Mapping_Start, Scalar ''a'', Mapping_Start, Scalar ''type'', Scalar ''integer'',
     Scalar ''underlying_type'', Scalar ''uint8_t'', Mapping_End, Mapping_End,
     Scalar ''required'', Sequence_Start, Scalar ''a'', Sequence_End, Mapping_End, Document_End, Stream_End]"

definition model1 :: uwbs_config_model_def where
  "model1 = Model_Def (Model_Node None Type_Object Utype_Null) VECTOR_INIT_STATIC VECTOR_INIT_STATIC
     (Vector [Model_Property (Model_Node (Some ''a'') Type_Integer Utype_Uint8) None (- (2 ^ 63)) (2 ^ 63 - 1) None 0 0] 8)
     (Vector [Some ''a''] 8)"

definition no_fails :: "nat \<Rightarrow> bool" where
  "no_fails = (\<lambda>_. False)"

lemma schema1_events:
  "map_option (\<lambda>(st, ctx, w). (st, node_stack ctx, ml_root w))
     (uwbs_config_yaml_load_str model_loader (Some (map Some schema1)) uwbs_config_yaml_init (model_load_init no_fails)) =
   Some (CONFIG_OK, [], model1)"
  by code_simp

lemma model1_ok: "uwbs_config_model_check model1 = Some CONFIG_OK"
  by code_simp

lemma schema1_loads:
  obtains ctx w where "uwbs_config_yaml_load_str model_loader (Some (map Some schema1)) uwbs_config_yaml_init (model_load_init no_fails) =
    Some (CONFIG_OK, ctx, w)" "node_stack ctx = []" "ml_root w = model1"
  using schema1_events by auto

text \<open>
  C36. A model that is loaded is well formed: when the document is loaded to its end, every definition in the tree has a
  type and required names that are names of its properties, a bit field has between 1 and 32 bits, only numbers without
  a type of their own for fields, and no definitions; every property has a type or refers to one, an array has items
  that are numbers or arrays, and the limits of a number are in order. This holds for any events and any failing
  allocations.
\<close>

theorem loaded_model_well_formed:
  assumes "uwbs_config_yaml_load_str model_loader (Some events) uwbs_config_yaml_init (model_load_init fails) = Some (CONFIG_OK, ctx, w)"
    and "node_stack ctx = []" and "Some Document_Start \<in> set events"
  shows "(\<forall>q d. get_def q (ml_root w) = Some d \<longrightarrow> def_well_formed d) \<and>
    (\<forall>r p. get_prop r (ml_root w) = Some p \<longrightarrow> property_well_formed p)"
  using loaded_checked [OF assms] by blast

theorem loaded_model_well_formed_witness:
  "\<exists>ctx w. uwbs_config_yaml_load_str model_loader (Some (map Some schema1)) uwbs_config_yaml_init (model_load_init no_fails) =
    Some (CONFIG_OK, ctx, w) \<and> ml_root w = model1 \<and> def_well_formed model1"
proof -
  obtain ctx w where 1: "uwbs_config_yaml_load_str model_loader (Some (map Some schema1)) uwbs_config_yaml_init
    (model_load_init no_fails) = Some (CONFIG_OK, ctx, w)" "node_stack ctx = []" "ml_root w = model1" by (rule schema1_loads)
  have "Some Document_Start \<in> set (map Some schema1)" by (simp add: schema1_def)
  from loaded_model_well_formed [OF 1(1,2) this] have "\<forall>q d. get_def q model1 = Some d \<longrightarrow> def_well_formed d" by (simp add: 1(3))
  then have "def_well_formed model1" by (metis get_def.simps(1))
  with 1 show ?thesis by blast
qed

text \<open>
  C37. A bit field with a single field is refused, although it is a bit field: the check that a field is one of the
  required names looks for a name that differs.
\<close>

theorem single_field_bitfield_refused:
  assumes "mn_type (df_node d) = Type_Object" and "mn_underlying_type (df_node d) = Utype_Bitfield"
    and "vec_arr (df_properties d) = [p]" and "vec_arr (df_required d) = [mn_name (pr_node p)]" and "mn_name (pr_node p) = Some k"
  shows "uwbs_config_model_loader_check_def d = Some CONFIG_INVALID_FMT"
  by (rule single_field_refused [OF assms])

theorem single_field_bitfield_refused_witness:
  "uwbs_config_model_loader_check_def (map_required (\<lambda>_. Vector [Some ''a''] 8)
     (map_properties (\<lambda>_. Vector [flag ''a'' 1] 8) flags_def)) = Some CONFIG_INVALID_FMT"
  by (rule single_field_bitfield_refused [where p = "flag ''a'' 1" and k = "''a''"])
    (simp_all add: map_required_def map_properties_def flags_def_def flag_def)

text \<open>
  C38. Loading a configuration that fits the model makes exactly the calls of the callback that its values mean, in order:
  for each number, boolean, value of an enumeration, array and bit field one call with the names of the keys that lead to
  it and its bytes. The document may be nested as deep as the stack of nodes allows.
\<close>

theorem configuration_loaded:
  assumes "object_calls model [] model kvs = Some cs" and "mn_type (df_node model) = Type_Object"
    and "map_depth kvs \<le> NODE_STACK_SIZE - 3" and "\<forall>i. \<not> fails i"
  shows "uwbs_config_load_str (Some (Some (map Some (config_document kvs)))) (Some model)
    (\<lambda>m. uwbs_config_load_init m n v off fmask fails) = Some (CONFIG_OK, cs)"
proof -
  define w where "w = uwbs_config_load_init model n v off fmask fails"
  have w: "ld_model w = model" "ld_stack w = []" "ld_array w = None" "\<forall>i. \<not> ld_fails w i" "ld_calls w = []"
    using assms(4) by (simp_all add: w_def uwbs_config_load_init_def)
  from document_loads [OF assms(1-3) w(1-4)] w(5) show ?thesis
    by (auto simp: uwbs_config_load_str_def called_def simp flip: w_def)
qed

theorem configuration_loaded_witness:
  "uwbs_config_load_str (Some (Some (map Some (config_document config0)))) (Some model0)
    (\<lambda>m. uwbs_config_load_init m Ntype_Int8 0 0 0 no_fails) = Some (CONFIG_OK, calls0)"
  by (rule configuration_loaded [OF calls0_ok]) (simp_all add: config0_def NODE_STACK_SIZE_def no_fails_def)

text \<open>
  C39. The bytes of a bit field are its fields side by side in the order of the model, whatever the order in which they
  are given: loading makes one call, and each field can be read back from its bytes.
\<close>

theorem bitfield_loaded:
  assumes "uwbs_config_model_def_find_property model k = Some (Some p)"
    and "uwbs_config_model_find_def model (pr_ref p) = Some (Some d)" and "mn_type (df_node model) = Type_Object"
    and "uwbs_config_model_get_node (Some p) (Some d) = Some node" and "mn_type node = Type_Object"
    and "mn_underlying_type node = Utype_Bitfield" and data: "bitfield_data d kvs = Some (nt, bs)"
    and "map_depth kvs \<le> 6" and "\<forall>i. \<not> fails i"
    and fs: "named_fields d (vec_arr (df_required d)) = Some fs"
  shows "uwbs_config_load_str (Some (Some (map Some (config_document [(k, Cfg_Map kvs)])))) (Some model)
      (\<lambda>m. uwbs_config_load_init m n v off fmask fails) = Some (CONFIG_OK, [Key_Call k Vtype_Number nt bs]) \<and>
    (\<forall>name i at q s. field_place fs name = Some (i, at, q) \<and> map_of kvs name = Some (Cfg_Scalar s) \<longrightarrow>
      number_value q s = Some (int (unat (le_value bs :: 32 word) div 2 ^ at mod 2 ^ field_bits q)))"
proof
  define w where "w = uwbs_config_load_init model n v off fmask fails"
  have w: "ld_model w = model" "ld_stack w = []" "ld_array w = None" "\<forall>i. \<not> ld_fails w i" "ld_calls w = []"
    using assms(9) by (simp_all add: w_def uwbs_config_load_init_def)
  have "object_calls model [] model [(k, Cfg_Map kvs)] = Some [Key_Call k Vtype_Number nt bs]"
    using assms(1,2,4-7) by (simp add: number_call_def)
  from document_loads [OF this assms(3) _ w(1-4)] w(5) assms(8) show
    "uwbs_config_load_str (Some (Some (map Some (config_document [(k, Cfg_Map kvs)])))) (Some model)
      (\<lambda>m. uwbs_config_load_init m n v off fmask fails) = Some (CONFIG_OK, [Key_Call k Vtype_Number nt bs])"
    by (auto simp: uwbs_config_load_str_def called_def NODE_STACK_SIZE_def simp flip: w_def)
  show "\<forall>name i at q s. field_place fs name = Some (i, at, q) \<and> map_of kvs name = Some (Cfg_Scalar s) \<longrightarrow>
      number_value q s = Some (int (unat (le_value bs :: 32 word) div 2 ^ at mod 2 ^ field_bits q))"
    using bitfield_recovered [OF data fs] by blast
qed

theorem bitfield_loaded_witness:
  "uwbs_config_load_str (Some (Some (map Some (config_document [(''flags'', Cfg_Map [(''b'', Cfg_Scalar ''5''), (''a'', Cfg_Scalar ''0x1'')])]))))
     (Some model0) (\<lambda>m. uwbs_config_load_init m Ntype_Int8 0 0 0 no_fails) =
   Some (CONFIG_OK, [Key_Call ''flags'' Vtype_Number Ntype_Uint8 [11]])"
proof -
  have fs: "named_fields flags_def (vec_arr (df_required flags_def)) = Some [(''a'', flag ''a'' 1), (''b'', flag ''b'' 7)]"
    by (simp add: flags_def_def flag_def uwbs_config_model_def_find_property_def)
  have node: "uwbs_config_model_get_node (Some flags_prop) (Some flags_def) = Some (df_node flags_def)"
    by (simp add: uwbs_config_model_get_node_def)
  show ?thesis
    by (rule bitfield_loaded [OF model0_props(3) _ _ node _ _ flags0 _ _ fs, THEN conjunct1])
      (simp_all add: model0_defs no_fails_def)
qed

text \<open>
  C40. Loading the configuration of a directory: the calls of the files that hold for every region, in order, a missing file
  being skipped, and, when exactly one region has the country's code, those of the file of that region. Without a
  region the status says so after the other keys have been loaded; a code that occurs twice is an error. No name of
  a region is lost.
\<close>

theorem directory_loads:
  assumes "env_ok env" and "mn_type (df_node model) = Type_Object"
    and "uwbs_config_model_load_file (Some (en_file env (dir @ ''/schema.json''))) (en_model_fails env) = Some (CONFIG_OK, Some model)"
    and "list_all2 (\<lambda>f cs. file_calls env model (dir @ ''/'' @ f) (Some cs)) global_files css"
    and "en_file env (dir @ ''/regions.yml'') = Some (Some (map Some (region_document rs)))"
    and "\<And>r. region_hits code rs = [r] \<Longrightarrow> file_calls env model (dir @ ''/'' @ r @ ''/settings.yml'') (Some cs)"
  shows "uwbs_config_load_dir (Some dir) (Some code) env =
    Some (case region_hits code rs of
        [] \<Rightarrow> (CONFIG_COUNTRY_CODE_NOT_FOUND, concat css, None)
      | [r] \<Rightarrow> (CONFIG_OK, concat css @ cs, None)
      | _ \<Rightarrow> (CONFIG_INVALID_FMT, concat css, None))"
  using directory_loaded(2) [OF assms(1,3,2,4,5)] assms(6) by simp

definition dir0 :: "string \<Rightarrow> yaml_event option list option option" where
  "dir0 f =
     (if f = ''d/schema.json'' then Some (Some (map Some schema1))
      else if f = ''d/settings.yml'' then Some (Some (map Some (config_document [(''a'', Cfg_Scalar ''7'')])))
      else if f = ''d/regions.yml'' then Some (Some (map Some (region_document [(''us'', [''US'']), (''eu'', [''DE'', ''FR''])])))
      else if f = ''d/eu/settings.yml'' then Some (Some (map Some (config_document [(''a'', Cfg_Scalar ''8'')])))
      else Some None)"

definition load_env0 :: load_env where
  "load_env0 = \<lparr>en_file = dir0, en_malloc = True, en_realloc = (\<lambda>_. True), en_model_fails = no_fails,
     en_region_fails = no_fails, en_init = (\<lambda>_ m. uwbs_config_load_init m Ntype_Int8 0 0 0 no_fails)\<rparr>"

theorem directory_loads_witness:
  "uwbs_config_load_dir (Some ''d'') (Some ''FR'') load_env0 =
    Some (CONFIG_OK, [Key_Call ''a'' Vtype_Number Ntype_Uint8 [7], Key_Call ''a'' Vtype_Number Ntype_Uint8 [8]], None)"
proof -
  define p where "p = Model_Property (Model_Node (Some ''a'') Type_Integer Utype_Uint8) None (- (2 ^ 63)) (2 ^ 63 - 1) None 0 0"
  have env: "env_ok load_env0" by (simp add: env_ok_def load_env0_def no_fails_def uwbs_config_load_init_def)
  have "uwbs_config_yaml_load_file model_loader (Some (Some (map Some schema1))) uwbs_config_yaml_init (model_load_init no_fails) =
      uwbs_config_yaml_load_str model_loader (Some (map Some schema1)) uwbs_config_yaml_init (model_load_init no_fails)"
    by (simp add: uwbs_config_yaml_load_file_def uwbs_config_yaml_load_str_def)
  then have model: "uwbs_config_model_load_file (Some (en_file load_env0 (''d'' @ ''/schema.json''))) (en_model_fails load_env0) =
      Some (CONFIG_OK, Some model1)"
    using schema1_events model1_ok
    by (auto simp: load_env0_def dir0_def uwbs_config_model_load_file_def model_loaded_def)
  have t: "mn_type (df_node model1) = Type_Object" by (simp add: model1_def)
  have p: "uwbs_config_model_def_find_property model1 ''a'' = Some (Some p)" "pr_ref p = None" "mn_type (pr_node p) = Type_Integer"
    by (simp_all add: model1_def uwbs_config_model_def_find_property_def p_def)
  have number: "number_bytes p ''7'' = Some (Ntype_Uint8, [7])" "number_bytes p ''8'' = Some (Ntype_Uint8, [8])"
    unfolding p_def by code_simp+
  have calls: "object_calls model1 [] model1 [(''a'', Cfg_Scalar ''7'')] = Some [Key_Call ''a'' Vtype_Number Ntype_Uint8 [7]]"
    "object_calls model1 [] model1 [(''a'', Cfg_Scalar ''8'')] = Some [Key_Call ''a'' Vtype_Number Ntype_Uint8 [8]]"
    by (simp_all add: p uwbs_config_model_find_def_def scalar_calls_def uwbs_config_model_get_node_def number number_call_def)
  have global: "list_all2 (\<lambda>f cs. file_calls load_env0 model1 (''d'' @ ''/'' @ f) (Some cs)) global_files
      [[], [Key_Call ''a'' Vtype_Number Ntype_Uint8 [7]], []]"
    using calls(1) by (auto simp: global_files_def file_calls_def load_env0_def dir0_def NODE_STACK_SIZE_def
        intro!: exI [of _ "[(''a'', Cfg_Scalar ''7'')]"])
  have regions: "en_file load_env0 (''d'' @ ''/regions.yml'') =
      Some (Some (map Some (region_document [(''us'', [''US'']), (''eu'', [''DE'', ''FR''])])))"
    by (simp add: load_env0_def dir0_def)
  have hits: "region_hits ''FR'' [(''us'', [''US'']), (''eu'', [''DE'', ''FR''])] = [''eu'']"
    by (simp add: region_hits_def)
  have eu: "file_calls load_env0 model1 (''d'' @ ''/'' @ ''eu'' @ ''/settings.yml'') (Some [Key_Call ''a'' Vtype_Number Ntype_Uint8 [8]])"
    using calls(2) by (auto simp: file_calls_def load_env0_def dir0_def NODE_STACK_SIZE_def
        intro!: exI [of _ "[(''a'', Cfg_Scalar ''8'')]"])
  have "r = ''eu''" if "region_hits ''FR'' [(''us'', [''US'']), (''eu'', [''DE'', ''FR''])] = [r]" for r using that hits by simp
  with directory_loads [OF env t model global regions, of "''FR''" "[Key_Call ''a'' Vtype_Number Ntype_Uint8 [8]]"] eu hits
  show ?thesis by simp
qed

end
